(* ===== verification/Py_Values.thy ===== *)
theory Py_Values
  imports Prelude
begin

text \<open>
  The Python values the program passes around as JSON: the datatype \<open>pyval\<close>, truthiness, \<^verbatim>\<open>str\<close> and
  \<^verbatim>\<open>repr\<close>, \<^verbatim>\<open>==\<close>, and the string methods and regular expressions the sources use. Strings are lists of
  code points below 256. A float carries its value and the text \<^verbatim>\<open>repr\<close>
  prints for it (not-a-number and the infinities, which JSON has no syntax for, are left out).
  The keys of an object are strings, as in JSON.
\<close>

datatype pyval =
    PNone
  | PBool bool
  | PInt int
  | PFloat string rat
  | PStr string
  | PList "pyval list"
  | PDict "(string \<times> pyval) list"

section \<open>Characters and strings\<close>

definition char_code :: "char \<Rightarrow> nat" where
  "char_code c = of_char c"

definition in_range :: "nat \<Rightarrow> nat \<Rightarrow> char \<Rightarrow> bool" where
  "in_range lo hi c \<longleftrightarrow> lo \<le> char_code c \<and> char_code c \<le> hi"

definition is_upper_char :: "char \<Rightarrow> bool" where "is_upper_char c \<longleftrightarrow> in_range 65 90 c"
definition is_lower_char :: "char \<Rightarrow> bool" where "is_lower_char c \<longleftrightarrow> in_range 97 122 c"
definition is_digit_char :: "char \<Rightarrow> bool" where "is_digit_char c \<longleftrightarrow> in_range 48 57 c"

definition is_space_char :: "char \<Rightarrow> bool" where
  "is_space_char c \<longleftrightarrow> in_range 9 13 c \<or> in_range 28 32 c \<or> char_code c = 133 \<or> char_code c = 160"

text \<open>Case mapping of the code points below 256. Two of them map to code points outside this range and are kept
  as they are: the micro sign (upper case and folded) and the letter y with diaeresis (upper case).\<close>

definition lower_char :: "char \<Rightarrow> char" where
  "lower_char c =
     (if is_upper_char c \<or> (in_range 192 222 c \<and> char_code c \<noteq> 215) then char_of (char_code c + 32) else c)"

definition upper_char :: "char \<Rightarrow> string" where
  "upper_char c =
     (if char_code c = 223 then ''SS''
      else if is_lower_char c \<or> (in_range 224 254 c \<and> char_code c \<noteq> 247) then [char_of (char_code c - 32)]
      else [c])"

definition str_lower :: "string \<Rightarrow> string" where "str_lower s = map lower_char s"
definition str_upper :: "string \<Rightarrow> string" where "str_upper s = concat (map upper_char s)"

definition str_casefold :: "string \<Rightarrow> string" where
  "str_casefold s = concat (map (\<lambda>c. if char_code c = 223 then ''ss'' else [lower_char c]) s)"

definition str_strip :: "string \<Rightarrow> string" where
  "str_strip s = rev (dropWhile is_space_char (rev (dropWhile is_space_char s)))"

fun starts_with :: "string \<Rightarrow> string \<Rightarrow> bool" where
  "starts_with s [] = True"
| "starts_with [] (p # ps) = False"
| "starts_with (c # cs) (p # ps) = (c = p \<and> starts_with cs ps)"

text \<open>\<^verbatim>\<open>sub in s\<close>, \<^verbatim>\<open>s.count(sub)\<close> (occurrences that do not overlap, from the left) and \<^verbatim>\<open>s.replace(sub, new)\<close>, for a
  non-empty \<^verbatim>\<open>sub\<close>.\<close>

fun str_contains :: "string \<Rightarrow> string \<Rightarrow> bool" where
  "str_contains sub [] = (sub = [])"
| "str_contains sub (c # cs) = (starts_with (c # cs) sub \<or> str_contains sub cs)"

function str_count :: "string \<Rightarrow> string \<Rightarrow> nat" where
  "str_count sub [] = 0"
| "str_count sub (c # cs) =
     (if sub \<noteq> [] \<and> starts_with (c # cs) sub then Suc (str_count sub (drop (length sub) (c # cs)))
      else str_count sub cs)"
  by pat_completeness auto
termination
  by (relation "measure (\<lambda>(sub, s). length s)") (auto simp: neq_Nil_conv)

function str_replace :: "string \<Rightarrow> string \<Rightarrow> string \<Rightarrow> string" where
  "str_replace sub new [] = []"
| "str_replace sub new (c # cs) =
     (if sub \<noteq> [] \<and> starts_with (c # cs) sub
      then new @ str_replace sub new (drop (length sub) (c # cs))
      else c # str_replace sub new cs)"
  by pat_completeness auto
termination
  by (relation "measure (\<lambda>(sub, new, s). length s)") (auto simp: neq_Nil_conv)

fun join_with :: "string \<Rightarrow> string list \<Rightarrow> string" where
  "join_with sep [] = []"
| "join_with sep [x] = x"
| "join_with sep (x # y # xs) = x @ sep @ join_with sep (y # xs)"

text \<open>\<^verbatim>\<open>s.split(sep)\<close> for a one-character separator.\<close>

fun split_on :: "char \<Rightarrow> string \<Rightarrow> string list" where
  "split_on sep [] = [[]]"
| "split_on sep (c # cs) =
     (if c = sep then [] # split_on sep cs
      else (case split_on sep cs of [] \<Rightarrow> [[c]] | w # ws \<Rightarrow> (c # w) # ws))"

text \<open>\<^verbatim>\<open>s.rstrip("/")\<close>.\<close>

definition rstrip_slashes :: "string \<Rightarrow> string" where
  "rstrip_slashes s = rev (dropWhile (\<lambda>c. c = CHR ''/'') (rev s))"

section \<open>Integers as text\<close>

definition digit_char :: "nat \<Rightarrow> char" where
  "digit_char d = char_of (48 + d)"

fun nat_str :: "nat \<Rightarrow> string" where
  "nat_str n = (if n < 10 then [digit_char n] else nat_str (n div 10) @ [digit_char (n mod 10)])"

declare nat_str.simps [simp del]

definition int_str :: "int \<Rightarrow> string" where
  "int_str i = (if i < 0 then CHR ''-'' # nat_str (nat (- i)) else nat_str (nat i))"

text \<open>\<^verbatim>\<open>int(s)\<close> of a string: surrounding white space, a sign, then digits in which single underscores may
  separate; \<open>None\<close> is \<^verbatim>\<open>ValueError\<close>.\<close>

fun digits_value :: "nat \<Rightarrow> string \<Rightarrow> nat option" where
  "digits_value acc [] = Some acc"
| "digits_value acc (c # cs) =
     (if is_digit_char c then digits_value (10 * acc + (char_code c - 48)) cs
      else if c = CHR ''_'' then
        (case cs of [] \<Rightarrow> None
         | d # ds \<Rightarrow> if is_digit_char d then digits_value acc cs else None)
      else None)"

definition unsigned_value :: "string \<Rightarrow> nat option" where
  "unsigned_value s = (case s of [] \<Rightarrow> None
     | c # _ \<Rightarrow> if is_digit_char c then digits_value 0 s else None)"

definition parse_int :: "string \<Rightarrow> int option" where
  "parse_int s = (case str_strip s of [] \<Rightarrow> None
     | c # cs \<Rightarrow>
        if c = CHR ''-'' then map_option (\<lambda>n. - int n) (unsigned_value cs)
        else if c = CHR ''+'' then map_option int (unsigned_value cs)
        else map_option int (unsigned_value (c # cs)))"

section \<open>Values\<close>

definition truthy :: "pyval \<Rightarrow> bool" where
  "truthy v = (case v of PNone \<Rightarrow> False | PBool b \<Rightarrow> b | PInt i \<Rightarrow> i \<noteq> 0 | PFloat r q \<Rightarrow> q \<noteq> 0
     | PStr s \<Rightarrow> s \<noteq> [] | PList xs \<Rightarrow> xs \<noteq> [] | PDict d \<Rightarrow> d \<noteq> [])"

definition hex_digit :: "nat \<Rightarrow> char" where
  "hex_digit d = (if d < 10 then char_of (48 + d) else char_of (87 + d))"

definition repr_char :: "char \<Rightarrow> char \<Rightarrow> string" where
  "repr_char q c =
     (if c = q \<or> c = CHR 0x5C then [CHR 0x5C, c]
      else if c = CHR 0x09 then [CHR 0x5C, CHR ''t'']
      else if c = CHR 0x0A then [CHR 0x5C, CHR ''n'']
      else if c = CHR 0x0D then [CHR 0x5C, CHR ''r'']
      else if in_range 32 126 c \<or> (in_range 161 255 c \<and> char_code c \<noteq> 173) then [c]
      else [CHR 0x5C, CHR ''x'', hex_digit (char_code c div 16), hex_digit (char_code c mod 16)])"

definition repr_str :: "string \<Rightarrow> string" where
  "repr_str s =
     (let q = (if CHR 0x27 \<in> set s \<and> CHR 0x22 \<notin> set s then CHR 0x22 else CHR 0x27)
      in q # concat (map (repr_char q) s) @ [q])"

fun py_repr :: "pyval \<Rightarrow> string" where
  "py_repr PNone = ''None''"
| "py_repr (PBool b) = (if b then ''True'' else ''False'')"
| "py_repr (PInt i) = int_str i"
| "py_repr (PFloat r q) = r"
| "py_repr (PStr s) = repr_str s"
| "py_repr (PList xs) = ''['' @ join_with '', '' (map py_repr xs) @ '']''"
| "py_repr (PDict d) = ''{'' @ join_with '', '' (map (\<lambda>(k, v). repr_str k @ '': '' @ py_repr v) d) @ ''}''"

definition py_str :: "pyval \<Rightarrow> string" where
  "py_str v = (case v of PStr s \<Rightarrow> s | _ \<Rightarrow> py_repr v)"

text \<open>\<^verbatim>\<open>str(value or default)\<close>.\<close>

definition str_or :: "pyval \<Rightarrow> string \<Rightarrow> string" where
  "str_or v d = (if truthy v then py_str v else d)"

definition num_value :: "pyval \<Rightarrow> rat option" where
  "num_value v = (case v of PBool b \<Rightarrow> Some (if b then 1 else 0) | PInt i \<Rightarrow> Some (of_int i)
     | PFloat r q \<Rightarrow> Some q | _ \<Rightarrow> None)"

text \<open>Python's \<^verbatim>\<open>==\<close>: numbers (and booleans) by value, lists item by item, dictionaries without regard to
  order.\<close>

fun py_eq :: "pyval \<Rightarrow> pyval \<Rightarrow> bool"
  and py_eq_list :: "pyval list \<Rightarrow> pyval list \<Rightarrow> bool"
  and py_eq_dict :: "(string \<times> pyval) list \<Rightarrow> (string \<times> pyval) list \<Rightarrow> bool" where
  "py_eq (PList xs) w = (case w of PList ys \<Rightarrow> py_eq_list xs ys | _ \<Rightarrow> False)"
| "py_eq (PDict d) w = (case w of PDict e \<Rightarrow> length d = length e \<and> py_eq_dict d e | _ \<Rightarrow> False)"
| "py_eq PNone w = (w = PNone)"
| "py_eq (PStr s) w = (w = PStr s)"
| "py_eq (PBool b) w = (num_value w = num_value (PBool b))"
| "py_eq (PInt i) w = (num_value w = num_value (PInt i))"
| "py_eq (PFloat r q) w = (num_value w = num_value (PFloat r q))"
| "py_eq_list [] ys = (ys = [])"
| "py_eq_list (x # xs) ys = (case ys of [] \<Rightarrow> False | y # ys' \<Rightarrow> py_eq x y \<and> py_eq_list xs ys')"
| "py_eq_dict [] e = True"
| "py_eq_dict ((k, v) # d) e =
     ((case dget e k of None \<Rightarrow> False | Some w \<Rightarrow> py_eq v w) \<and> py_eq_dict d e)"

text \<open>\<^verbatim>\<open>m.get(key)\<close> on a mapping, with \<open>PNone\<close> for an absent key.\<close>

definition get_key :: "(string, pyval) dict \<Rightarrow> string \<Rightarrow> pyval" where
  "get_key d k = (case dget d k of None \<Rightarrow> PNone | Some v \<Rightarrow> v)"

text \<open>\<^verbatim>\<open>d.get(k, v)\<close> and \<^verbatim>\<open>d.get(k) or v\<close>.\<close>

definition get_default :: "(string, pyval) dict \<Rightarrow> string \<Rightarrow> pyval \<Rightarrow> pyval" where
  "get_default d k v = (case dget d k of None \<Rightarrow> v | Some w \<Rightarrow> w)"

definition get_or :: "(string, pyval) dict \<Rightarrow> string \<Rightarrow> pyval \<Rightarrow> pyval" where
  "get_or d k v = (if truthy (get_key d k) then get_key d k else v)"

definition is_none :: "pyval \<Rightarrow> bool" where "is_none v \<longleftrightarrow> v = PNone"

definition dict_of :: "pyval \<Rightarrow> (string, pyval) dict option" where
  "dict_of v = (case v of PDict d \<Rightarrow> Some d | _ \<Rightarrow> None)"

definition list_of :: "pyval \<Rightarrow> pyval list option" where
  "list_of v = (case v of PList xs \<Rightarrow> Some xs | _ \<Rightarrow> None)"

text \<open>\<^verbatim>\<open>json.dumps(v, ensure_ascii=True, separators=(",", ":"), sort_keys=True)\<close>.\<close>

definition json_char :: "char \<Rightarrow> string" where
  "json_char c =
     (if c = CHR 0x22 \<or> c = CHR 0x5C then [CHR 0x5C, c]
      else if c = CHR 0x0A then [CHR 0x5C, CHR ''n'']
      else if c = CHR 0x0D then [CHR 0x5C, CHR ''r'']
      else if c = CHR 0x09 then [CHR 0x5C, CHR ''t'']
      else if c = CHR 0x0C then [CHR 0x5C, CHR ''f'']
      else if c = CHR 0x08 then [CHR 0x5C, CHR ''b'']
      else if in_range 32 126 c then [c]
      else CHR 0x5C # ''u00'' @ [hex_digit (char_code c div 16), hex_digit (char_code c mod 16)])"

definition json_str :: "string \<Rightarrow> string" where
  "json_str s = CHR 0x22 # concat (map json_char s) @ [CHR 0x22]"

fun json_dumps :: "pyval \<Rightarrow> string" where
  "json_dumps PNone = ''null''"
| "json_dumps (PBool b) = (if b then ''true'' else ''false'')"
| "json_dumps (PInt i) = int_str i"
| "json_dumps (PFloat r q) = r"
| "json_dumps (PStr s) = json_str s"
| "json_dumps (PList xs) = ''['' @ join_with '','' (map json_dumps xs) @ '']''"
| "json_dumps (PDict d) =
     ''{'' @ join_with '','' (map (\<lambda>(k, t). json_str k @ '':'' @ t)
       (sort_key fst (map (\<lambda>(k, v). (k, json_dumps v)) d))) @ ''}''"

section \<open>Regular expressions\<close>

text \<open>\<^verbatim>\<open>[A-Za-z0-9_.:-]{1,128}\<close>, matched in full.\<close>

definition safe_id_char :: "char \<Rightarrow> bool" where
  "safe_id_char c \<longleftrightarrow> is_upper_char c \<or> is_lower_char c \<or> is_digit_char c
     \<or> c \<in> set ''_.:-''"

definition safe_id :: "string \<Rightarrow> bool" where
  "safe_id s \<longleftrightarrow> 1 \<le> length s \<and> length s \<le> 128 \<and> list_all safe_id_char s"

text \<open>\<^verbatim>\<open>[A-Za-z_][A-Za-z0-9_.-]{0,127}\<close>, matched in full.\<close>

definition safe_name_start :: "char \<Rightarrow> bool" where
  "safe_name_start c \<longleftrightarrow> is_upper_char c \<or> is_lower_char c \<or> c = CHR ''_''"

definition safe_name_char :: "char \<Rightarrow> bool" where
  "safe_name_char c \<longleftrightarrow> is_upper_char c \<or> is_lower_char c \<or> is_digit_char c \<or> c \<in> set ''_.-''"

definition safe_name :: "string \<Rightarrow> bool" where
  "safe_name s = (case s of [] \<Rightarrow> False
     | c # cs \<Rightarrow> safe_name_start c \<and> length cs \<le> 127 \<and> list_all safe_name_char cs)"

section \<open>Lemmas on strings\<close>

lemmas char_class_defs =
  is_upper_char_def is_lower_char_def is_digit_char_def is_space_char_def in_range_def char_code_def

lemma str_strip_no_space: "list_all (\<lambda>c. \<not> is_space_char c) s \<Longrightarrow> str_strip s = s"
proof -
  assume "list_all (\<lambda>c. \<not> is_space_char c) s"
  then have "dropWhile is_space_char s = s" "dropWhile is_space_char (rev s) = rev s"
    by (auto simp: dropWhile_eq_self_iff list_all_iff hd_rev)
  then show ?thesis by (simp add: str_strip_def)
qed

lemma starts_with_append: "starts_with s p \<longleftrightarrow> (\<exists>r. s = p @ r)"
  by (induction s p rule: starts_with.induct) auto

lemma rstrip_slashes_split: obtains k where "c = rstrip_slashes c @ replicate k (CHR ''/'')"
proof -
  define t where "t = takeWhile (\<lambda>c. c = CHR ''/'') (rev c)"
  have "rev c = t @ dropWhile (\<lambda>c. c = CHR ''/'') (rev c)" by (simp add: t_def)
  then have c: "c = rstrip_slashes c @ rev t" unfolding rstrip_slashes_def by (metis rev_append rev_rev_ident)
  have "\<forall>x\<in>set (rev t). x = CHR ''/''" by (auto simp: t_def dest: set_takeWhileD)
  then have "replicate (length (rev t)) (CHR ''/'') = rev t" by (rule replicate_length_same)
  with c that show ?thesis by metis
qed

lemma str_strip_Nil [simp]: "str_strip [] = []"
  by (simp add: str_strip_def)

lemma dropWhile_idem: "dropWhile P (dropWhile P xs) = dropWhile P xs"
  by (induction xs) auto

lemma dropWhile_rev_dropWhile:
  assumes "dropWhile P xs = xs"
  shows "dropWhile P (rev (dropWhile P (rev xs))) = rev (dropWhile P (rev xs))"
proof (cases "dropWhile P (rev xs) = []")
  case False
  obtain us where us: "rev xs = us @ dropWhile P (rev xs)"
    by (metis takeWhile_dropWhile_id)
  then have "xs = rev (dropWhile P (rev xs)) @ rev us"
    by (metis rev_append rev_rev_ident)
  with False have "hd xs = hd (rev (dropWhile P (rev xs)))" "xs \<noteq> []"
    by (metis hd_append2 rev_is_Nil_conv, auto)
  with assms show ?thesis
    by (metis dropWhile_eq_self_iff)
next
  case True
  show ?thesis unfolding True by simp
qed

lemma str_strip_idem [simp]: "str_strip (str_strip s) = str_strip s"
  by (simp add: str_strip_def dropWhile_rev_dropWhile dropWhile_idem)

lemma safe_id_char_not_space: "safe_id_char c \<Longrightarrow> \<not> is_space_char c"
  by (auto simp: safe_id_char_def char_class_defs)

lemma str_strip_safe_id: "safe_id s \<Longrightarrow> str_strip s = s"
  by (rule str_strip_no_space) (auto simp: safe_id_def list_all_iff safe_id_char_not_space)

lemma safe_id_nonempty: "safe_id s \<Longrightarrow> s \<noteq> []"
  by (auto simp: safe_id_def)

lemma safe_name_char_not_space: "safe_name_char c \<or> safe_name_start c \<Longrightarrow> \<not> is_space_char c"
  by (auto simp: safe_name_char_def safe_name_start_def char_class_defs)

lemma str_strip_safe_name: "safe_name s \<Longrightarrow> str_strip s = s"
  by (rule str_strip_no_space)
    (auto simp: safe_name_def list_all_iff safe_name_char_not_space split: list.splits)

lemma safe_name_nonempty: "safe_name s \<Longrightarrow> s \<noteq> []"
  by (auto simp: safe_name_def)

lemma str_or_PStr [simp]: "str_or (PStr s) d = (if s = [] then d else s)"
  by (simp add: str_or_def truthy_def py_str_def)

lemma str_or_PNone [simp]: "str_or PNone d = d"
  by (simp add: str_or_def truthy_def)

section \<open>Decimal text\<close>

lemma digit_char_code: "d < 10 \<Longrightarrow> char_code (digit_char d) = 48 + d"
  by (simp add: digit_char_def char_code_def)

lemma is_digit_digit_char [simp]: "d < 10 \<Longrightarrow> is_digit_char (digit_char d)"
  by (simp add: is_digit_char_def in_range_def digit_char_code)

lemma nat_str_digits: "list_all is_digit_char (nat_str n)"
proof (induction n rule: nat_str.induct)
  case (1 n)
  then show ?case by (subst nat_str.simps) auto
qed

lemma nat_str_nonempty [simp]: "nat_str n \<noteq> []"
  by (subst nat_str.simps) simp

lemma digits_value_append:
  "list_all is_digit_char xs \<Longrightarrow> list_all is_digit_char ys \<Longrightarrow>
   digits_value acc (xs @ ys) = (case digits_value acc xs of None \<Rightarrow> None | Some a \<Rightarrow> digits_value a ys)"
  by (induction acc xs rule: digits_value.induct) auto

lemma digits_value_nat_str: "digits_value 0 (nat_str n) = Some n"
proof (induction n rule: nat_str.induct)
  case (1 n)
  show ?case
  proof (cases "n < 10")
    case True
    then show ?thesis by (subst nat_str.simps) (simp add: digit_char_code)
  next
    case False
    have "digits_value 0 (nat_str (n div 10) @ [digit_char (n mod 10)])
      = digits_value (n div 10) [digit_char (n mod 10)]"
      using 1 False by (simp add: digits_value_append nat_str_digits)
    also have "\<dots> = Some n" by (simp add: digit_char_code)
    finally show ?thesis using False by (subst nat_str.simps) simp
  qed
qed

lemma is_digit_not_space: "is_digit_char c \<Longrightarrow> \<not> is_space_char c"
  by (auto simp: char_class_defs)

lemma parse_int_nat_str: "parse_int (nat_str n) = Some (int n)"
proof -
  have d: "list_all is_digit_char (nat_str n)" by (rule nat_str_digits)
  then have s: "str_strip (nat_str n) = nat_str n"
    by (intro str_strip_no_space) (auto simp: list_all_iff is_digit_not_space)
  obtain c cs where c: "nat_str n = c # cs" by (metis list.exhaust nat_str_nonempty)
  with d have "is_digit_char c" by simp
  then have "c \<noteq> CHR ''-''" "c \<noteq> CHR ''+''" by (auto simp: char_class_defs)
  with c s \<open>is_digit_char c\<close> show ?thesis
    using digits_value_nat_str [of n] by (simp add: parse_int_def unsigned_value_def)
qed

lemma nat_str_inject [simp]: "nat_str m = nat_str n \<longleftrightarrow> m = n"
  by (metis digits_value_nat_str option.inject)

lemma dash_not_in_nat_str [simp]: "CHR ''-'' \<notin> set (nat_str n)"
proof
  assume "CHR ''-'' \<in> set (nat_str n)"
  then have "is_digit_char CHR ''-''" using nat_str_digits [of n] by (auto simp: list_all_iff)
  then show False by (simp add: char_class_defs)
qed

end
