(* ===== verification/Authorization_Context.thy ===== *)
theory Authorization_Context
  imports Py_Values
begin

text \<open>
  The trusted SaaS authorization context: \<^verbatim>\<open>deerflow/runtime/authorization_context.py\<close>. Every semantic
  query and every Action carries one. \<^verbatim>\<open>hashlib.sha256(...).hexdigest()\<close> is the parameter \<open>sha256\<close> of the
  operations that use it.
\<close>

datatype authorization_context_error = AuthorizationContextError string
datatype missing_authorization_error = MissingAuthorizationContextError string

record authorization_context =
  ac_principal_id :: string
  ac_tenant_id :: string
  ac_tenant_code :: string
  ac_system_code :: string
  ac_role_codes :: "string list"
  ac_scope_mode :: string
  ac_allowed_site_ids :: "string list"
  ac_allowed_project_ids :: "string list"
  ac_scope_ref :: "string option"
  ac_permission_version :: string
  ac_scope_hash :: string

definition scope_modes :: "string list" where
  "scope_modes = [''tenant_all'', ''resource_set'', ''scope_ref'', ''none'']"

definition max_resource_ids :: nat where
  "max_resource_ids = 256"

definition required_id :: "pyval \<Rightarrow> string \<Rightarrow> authorization_context_error + string" where
  "required_id v field =
     (let text = str_strip (str_or v '''') in
      if \<not> safe_id text then Inl (AuthorizationContextError (''Invalid '' @ field))
      else Inr text)"

definition optional_id :: "pyval \<Rightarrow> string \<Rightarrow> authorization_context_error + string option" where
  "optional_id v field =
     (if is_none v then Inr None
      else let text = str_strip (py_str v) in
        if text = '''' then Inr None
        else ebind (required_id (PStr text) field) (\<lambda>t. Inr (Some t)))"

definition id_tuple :: "pyval \<Rightarrow> string \<Rightarrow> authorization_context_error + string list" where
  "id_tuple v field =
     (if is_none v then Inr []
      else case list_of v of
        None \<Rightarrow> Inl (AuthorizationContextError (field @ '' must be a list''))
      | Some items \<Rightarrow>
          if length items > max_resource_ids
          then Inl (AuthorizationContextError (field @ '' exceeds '' @ nat_str max_resource_ids @ '' entries''))
          else ebind (emap (\<lambda>item. required_id item field) items) (\<lambda>ids. Inr (sort (remdups ids))))"

definition opt_str :: "string option \<Rightarrow> pyval" where
  "opt_str x = (case x of None \<Rightarrow> PNone | Some s \<Rightarrow> PStr s)"

definition str_list :: "string list \<Rightarrow> pyval" where
  "str_list xs = PList (map PStr xs)"

definition scope_payload :: "authorization_context \<Rightarrow> pyval" where
  "scope_payload c = PDict
     [(''allowed_project_ids'', str_list (sort (ac_allowed_project_ids c))),
      (''allowed_site_ids'', str_list (sort (ac_allowed_site_ids c))),
      (''permission_version'', PStr (ac_permission_version c)),
      (''principal_id'', PStr (ac_principal_id c)),
      (''role_codes'', str_list (sort (ac_role_codes c))),
      (''scope_mode'', PStr (ac_scope_mode c)),
      (''scope_ref'', opt_str (ac_scope_ref c)),
      (''system_code'', PStr (ac_system_code c)),
      (''tenant_code'', PStr (ac_tenant_code c)),
      (''tenant_id'', PStr (ac_tenant_id c))]"

definition compute_scope_hash :: "(string \<Rightarrow> string) \<Rightarrow> authorization_context \<Rightarrow> string" where
  "compute_scope_hash sha256 c = sha256 (json_dumps (scope_payload c))"

definition check_scope_mode ::
  "authorization_context \<Rightarrow> authorization_context_error + unit" where
  "check_scope_mode c =
     (let resources = ac_allowed_site_ids c \<noteq> [] \<or> ac_allowed_project_ids c \<noteq> [] in
      if ac_scope_mode c = ''resource_set'' \<and> \<not> resources
      then Inl (AuthorizationContextError ''resource_set scope must contain at least one resource'')
      else if ac_scope_mode c = ''scope_ref'' \<and> ac_scope_ref c = None
      then Inl (AuthorizationContextError ''scope_ref mode requires scope_ref'')
      else if ac_scope_mode c \<in> set [''tenant_all'', ''none''] \<and>
        (resources \<or> (ac_scope_ref c \<noteq> None \<and> ac_scope_ref c \<noteq> Some ''''))
      then Inl (AuthorizationContextError (ac_scope_mode c @ '' scope cannot carry resources''))
      else Inr ())"

text \<open>The fields read so far, before the hash is filled in.\<close>

definition unhashed_context ::
  "string \<Rightarrow> string \<Rightarrow> string \<Rightarrow> string \<Rightarrow> string list \<Rightarrow> string \<Rightarrow> string list \<Rightarrow> string list \<Rightarrow>
   string option \<Rightarrow> string \<Rightarrow> authorization_context" where
  "unhashed_context pid tid tcode scode roles mode sites projects ref pv =
     \<lparr>ac_principal_id = pid, ac_tenant_id = tid, ac_tenant_code = tcode, ac_system_code = scode,
      ac_role_codes = roles, ac_scope_mode = mode, ac_allowed_site_ids = sites,
      ac_allowed_project_ids = projects, ac_scope_ref = ref, ac_permission_version = pv,
      ac_scope_hash = ''''\<rparr>"

definition from_mapping ::
  "(string \<Rightarrow> string) \<Rightarrow> (string, pyval) dict \<Rightarrow> authorization_context_error + authorization_context" where
  "from_mapping sha256 d =
     ebind (required_id (get_key d ''principal_id'') ''principal_id'') (\<lambda>pid.
     ebind (required_id (get_key d ''tenant_id'') ''tenant_id'') (\<lambda>tid.
     ebind (required_id (get_key d ''tenant_code'') ''tenant_code'') (\<lambda>tcode.
     ebind (required_id (get_key d ''system_code'') ''system_code'') (\<lambda>scode.
     ebind (id_tuple (get_key d ''role_codes'') ''role_codes'') (\<lambda>roles.
     let mode = str_strip (str_or (get_key d ''scope_mode'') '''') in
     if mode \<notin> set scope_modes then Inl (AuthorizationContextError ''Invalid scope_mode'') else
     ebind (id_tuple (get_key d ''allowed_site_ids'') ''allowed_site_ids'') (\<lambda>sites.
     ebind (id_tuple (get_key d ''allowed_project_ids'') ''allowed_project_ids'') (\<lambda>projects.
     ebind (optional_id (get_key d ''scope_ref'') ''scope_ref'') (\<lambda>ref.
     ebind (required_id (get_key d ''permission_version'') ''permission_version'') (\<lambda>pv.
     let c = unhashed_context pid tid tcode scode roles mode sites projects ref pv;
         hash = compute_scope_hash sha256 c;
         supplied = str_strip (str_or (get_key d ''scope_hash'') '''')
     in ebind (check_scope_mode c) (\<lambda>_.
        if supplied \<noteq> '''' \<and> supplied \<noteq> hash
        then Inl (AuthorizationContextError ''scope_hash does not match authorization context'')
        else Inr (c\<lparr>ac_scope_hash := hash\<rparr>)))))))))))"

definition to_runtime_dict :: "authorization_context \<Rightarrow> (string, pyval) dict" where
  "to_runtime_dict c =
     [(''principal_id'', PStr (ac_principal_id c)),
      (''tenant_id'', PStr (ac_tenant_id c)),
      (''tenant_code'', PStr (ac_tenant_code c)),
      (''system_code'', PStr (ac_system_code c)),
      (''role_codes'', str_list (ac_role_codes c)),
      (''scope_mode'', PStr (ac_scope_mode c)),
      (''allowed_site_ids'', str_list (ac_allowed_site_ids c)),
      (''allowed_project_ids'', str_list (ac_allowed_project_ids c)),
      (''scope_ref'', opt_str (ac_scope_ref c)),
      (''permission_version'', PStr (ac_permission_version c)),
      (''scope_hash'', PStr (ac_scope_hash c))]"

text \<open>\<open>runtime_context\<close> is \<^verbatim>\<open>getattr(runtime, "context", None)\<close>.\<close>

definition resolve_runtime_authorization_context ::
  "(string \<Rightarrow> string) \<Rightarrow> pyval \<Rightarrow> missing_authorization_error + authorization_context" where
  "resolve_runtime_authorization_context sha256 runtime_context =
     (case dict_of runtime_context of
        None \<Rightarrow> Inl (MissingAuthorizationContextError ''No SaaS authorization context is available.'')
      | Some context \<Rightarrow>
          (case dict_of (get_key context ''authorization_context'') of
             None \<Rightarrow> Inl (MissingAuthorizationContextError ''No SaaS authorization context is available.'')
           | Some d \<Rightarrow>
               recast (\<lambda>_. MissingAuthorizationContextError ''The SaaS authorization context is invalid.'')
                 (from_mapping sha256 d)))"

section \<open>Well-formed contexts\<close>

text \<open>A list of identifiers as \<open>id_tuple\<close> leaves it: sorted, without duplicates, every one matching the
  identifier pattern, and no longer than the limit.\<close>

definition wf_ids :: "string list \<Rightarrow> bool" where
  "wf_ids ids \<longleftrightarrow> sorted ids \<and> distinct ids \<and> list_all safe_id ids \<and> length ids \<le> max_resource_ids"

definition wf_context :: "(string \<Rightarrow> string) \<Rightarrow> authorization_context \<Rightarrow> bool" where
  "wf_context sha256 c \<longleftrightarrow>
     safe_id (ac_principal_id c) \<and> safe_id (ac_tenant_id c) \<and> safe_id (ac_tenant_code c) \<and>
     safe_id (ac_system_code c) \<and> safe_id (ac_permission_version c) \<and>
     wf_ids (ac_role_codes c) \<and> wf_ids (ac_allowed_site_ids c) \<and> wf_ids (ac_allowed_project_ids c) \<and>
     (case ac_scope_ref c of None \<Rightarrow> True | Some r \<Rightarrow> safe_id r) \<and>
     ac_scope_mode c \<in> set scope_modes \<and> check_scope_mode c = Inr () \<and>
     ac_scope_hash c = compute_scope_hash sha256 c"

text \<open>What the code relies on of a hexadecimal digest: it is not empty and has no white space.\<close>

definition hex_digest :: "(string \<Rightarrow> string) \<Rightarrow> bool" where
  "hex_digest sha256 \<longleftrightarrow> (\<forall>s. sha256 s \<noteq> '''' \<and> str_strip (sha256 s) = sha256 s)"

section \<open>Reading a context\<close>

lemma required_id_Inr: "required_id v f = Inr s \<longleftrightarrow> s = str_strip (str_or v '''') \<and> safe_id s"
  by (auto simp: required_id_def Let_def)

lemma required_id_PStr: "safe_id s \<Longrightarrow> required_id (PStr s) f = Inr s"
  by (simp add: required_id_Inr str_strip_safe_id safe_id_nonempty)

lemma optional_id_Inr:
  "optional_id v f = Inr r \<Longrightarrow> (case r of None \<Rightarrow> True | Some s \<Rightarrow> safe_id s)"
  by (auto simp: optional_id_def Let_def err_simps required_id_Inr split: if_splits)

lemma optional_id_opt_str:
  "(case r of None \<Rightarrow> True | Some s \<Rightarrow> safe_id s) \<Longrightarrow> optional_id (opt_str r) f = Inr r"
  by (auto simp: optional_id_def opt_str_def is_none_def py_str_def str_strip_safe_id
      safe_id_nonempty required_id_PStr split: option.splits)

lemma emap_required_id_safe:
  "emap (\<lambda>v. required_id v f) vs = Inr ids \<Longrightarrow> list_all safe_id ids \<and> length ids = length vs"
  by (auto simp: emap_Inr_iff list_all2_conv_all_nth list_all_length required_id_Inr)

lemma id_tuple_wf: "id_tuple v f = Inr ids \<Longrightarrow> wf_ids ids"
proof (cases "list_of v")
  case None
  assume "id_tuple v f = Inr ids"
  with None show ?thesis by (auto simp: id_tuple_def wf_ids_def split: if_splits)
next
  case (Some items)
  assume a: "id_tuple v f = Inr ids"
  show ?thesis
  proof (cases "is_none v")
    case True
    with a show ?thesis by (simp add: id_tuple_def wf_ids_def)
  next
    case False
    with a Some obtain raw where r: "emap (\<lambda>item. required_id item f) items = Inr raw"
      "ids = sort (remdups raw)" "length items \<le> max_resource_ids"
      by (auto simp: id_tuple_def err_simps split: if_splits)
    with emap_required_id_safe have "list_all safe_id raw" "length raw = length items" by blast+
    with r show ?thesis
      using length_remdups_leq [of raw] by (auto simp: wf_ids_def list_all_iff)
  qed
qed

lemma id_tuple_str_list: "wf_ids ids \<Longrightarrow> id_tuple (str_list ids) f = Inr ids"
proof -
  assume w: "wf_ids ids"
  have "emap (\<lambda>item. required_id item f) (map PStr ids) = Inr ids"
    using w by (auto simp: emap_Inr_iff list_all2_conv_all_nth wf_ids_def list_all_length required_id_PStr)
  moreover have "sort (remdups ids) = ids"
    using w by (simp add: wf_ids_def distinct_remdups_id sorted_sort_id)
  ultimately show ?thesis
    using w by (simp add: id_tuple_def str_list_def is_none_def list_of_def wf_ids_def)
qed

lemma compute_scope_hash_update [simp]:
  "compute_scope_hash sha256 (c\<lparr>ac_scope_hash := h\<rparr>) = compute_scope_hash sha256 c"
  by (simp add: compute_scope_hash_def scope_payload_def)

lemma check_scope_mode_update [simp]: "check_scope_mode (c\<lparr>ac_scope_hash := h\<rparr>) = check_scope_mode c"
  by (simp add: check_scope_mode_def Let_def cong: if_cong)

lemma unhashed_context_sel [simp]:
  "ac_principal_id (unhashed_context pid tid tcode scode roles mode sites projects ref pv) = pid"
  "ac_tenant_id (unhashed_context pid tid tcode scode roles mode sites projects ref pv) = tid"
  "ac_tenant_code (unhashed_context pid tid tcode scode roles mode sites projects ref pv) = tcode"
  "ac_system_code (unhashed_context pid tid tcode scode roles mode sites projects ref pv) = scode"
  "ac_role_codes (unhashed_context pid tid tcode scode roles mode sites projects ref pv) = roles"
  "ac_scope_mode (unhashed_context pid tid tcode scode roles mode sites projects ref pv) = mode"
  "ac_allowed_site_ids (unhashed_context pid tid tcode scode roles mode sites projects ref pv) = sites"
  "ac_allowed_project_ids (unhashed_context pid tid tcode scode roles mode sites projects ref pv) = projects"
  "ac_scope_ref (unhashed_context pid tid tcode scode roles mode sites projects ref pv) = ref"
  "ac_permission_version (unhashed_context pid tid tcode scode roles mode sites projects ref pv) = pv"
  by (simp_all add: unhashed_context_def)

lemma wf_context_from_mapping:
  assumes "from_mapping sha256 d = Inr c"
  shows "wf_context sha256 c"
  using assms
  by (auto simp: from_mapping_def wf_context_def err_simps Let_def required_id_Inr
      split: if_splits dest: id_tuple_wf optional_id_Inr)

lemma get_key_Cons [simp]: "get_key ((k, v) # d) k' = (if k' = k then v else get_key d k')"
  by (simp add: get_key_def)

lemma get_key_Nil [simp]: "get_key [] k = PNone"
  by (simp add: get_key_def)

lemma scope_mode_stripped: "m \<in> set scope_modes \<Longrightarrow> str_strip m = m \<and> m \<noteq> []"
  by (auto simp: scope_modes_def str_strip_def char_class_defs)

lemma from_mapping_to_runtime_dict:
  assumes w: "wf_context sha256 c" and h: "hex_digest sha256"
  shows "from_mapping sha256 (to_runtime_dict c) = Inr c"
proof -
  let ?c = "c\<lparr>ac_scope_hash := ''''\<rparr>"
  have hash: "ac_scope_hash c = compute_scope_hash sha256 c" "ac_scope_hash c \<noteq> ''''"
    "str_strip (ac_scope_hash c) = ac_scope_hash c"
    using w h by (auto simp: wf_context_def hex_digest_def compute_scope_hash_def)
  have mode: "str_strip (ac_scope_mode c) = ac_scope_mode c" "ac_scope_mode c \<noteq> ''''"
    using w scope_mode_stripped by (auto simp: wf_context_def)
  have rebuilt: "unhashed_context (ac_principal_id c) (ac_tenant_id c) (ac_tenant_code c)
      (ac_system_code c) (ac_role_codes c) (ac_scope_mode c) (ac_allowed_site_ids c)
      (ac_allowed_project_ids c) (ac_scope_ref c) (ac_permission_version c) = ?c"
    by (cases c) (simp add: unhashed_context_def)
  have restored: "?c\<lparr>ac_scope_hash := ac_scope_hash c\<rparr> = c"
    by (cases c) simp
  show ?thesis
    using w hash mode restored
    by (simp add: from_mapping_def to_runtime_dict_def wf_context_def required_id_PStr
        id_tuple_str_list optional_id_opt_str rebuilt Let_def)
qed

section \<open>The canonical form determines the context\<close>

text \<open>The canonical JSON text is decoded from the left: an identifier ends at its closing quote, a list at
  its bracket. So two contexts with the same text are the same.\<close>

lemma escaped_not_safe:
  "\<not> safe_id_char (CHR 0x22)" "\<not> safe_id_char (CHR 0x5C)" "\<not> safe_id_char (CHR 0x0A)"
  "\<not> safe_id_char (CHR 0x0D)" "\<not> safe_id_char (CHR 0x09)" "\<not> safe_id_char (CHR 0x0C)"
  "\<not> safe_id_char (CHR 0x08)"
  by (simp_all add: safe_id_char_def char_class_defs)

lemma safe_id_char_printable: "safe_id_char c \<Longrightarrow> in_range 32 126 c"
  by (auto simp: safe_id_char_def char_class_defs)

lemma json_char_safe:
  assumes "safe_id_char c"
  shows "json_char c = [c]" and "c \<noteq> CHR 0x22"
proof -
  have "c \<noteq> CHR 0x22" "c \<noteq> CHR 0x5C" "c \<noteq> CHR 0x0A" "c \<noteq> CHR 0x0D" "c \<noteq> CHR 0x09"
    "c \<noteq> CHR 0x0C" "c \<noteq> CHR 0x08"
    using assms escaped_not_safe by metis+
  then show "json_char c = [c]" "c \<noteq> CHR 0x22"
    using safe_id_char_printable [OF assms] by (simp_all add: json_char_def)
qed

lemma json_str_safe: "safe_id s \<Longrightarrow> json_str s = CHR 0x22 # s @ [CHR 0x22]"
proof -
  assume "safe_id s"
  then have "list_all safe_id_char s" by (simp add: safe_id_def)
  then have "concat (map json_char s) = s"
    by (induction s) (auto simp: json_char_safe)
  then show ?thesis by (simp add: json_str_def)
qed

lemma safe_id_no_quote: "safe_id s \<Longrightarrow> CHR 0x22 \<notin> set s"
  using json_char_safe by (auto simp: safe_id_def list_all_iff)

lemma append_delim_inj:
  "q \<notin> set s \<Longrightarrow> q \<notin> set t \<Longrightarrow> s @ q # r = t @ q # r' \<Longrightarrow> s = t \<and> r = r'"
proof (induction s arbitrary: t)
  case Nil
  then show ?case by (cases t) auto
next
  case (Cons a s)
  then show ?case by (cases t) auto
qed

lemma json_str_append_inj:
  assumes "safe_id s" and "safe_id t"
  shows "json_str s @ r = json_str t @ r' \<longleftrightarrow> s = t \<and> r = r'"
  using assms append_delim_inj [of "CHR 0x22" s t r r']
  by (auto simp: json_str_safe safe_id_no_quote)

lemma json_list_append_inj:
  "list_all safe_id xs \<Longrightarrow> list_all safe_id ys \<Longrightarrow>
   json_dumps (str_list xs) @ r = json_dumps (str_list ys) @ r' \<longleftrightarrow> xs = ys \<and> r = r'"
proof -
  have items: "join_with '','' (map json_str (x # xs)) @ CHR '']'' # r =
      join_with '','' (map json_str (y # ys)) @ CHR '']'' # r' \<Longrightarrow> x # xs = y # ys \<and> r = r'"
    if "list_all safe_id (x # xs)" "list_all safe_id (y # ys)" for x xs y ys
    using that
  proof (induction xs arbitrary: x y ys)
    case Nil
    then show ?case by (cases ys) (auto simp: json_str_append_inj)
  next
    case (Cons z zs)
    then show ?case by (cases ys) (auto simp: json_str_append_inj)
  qed
  assume s: "list_all safe_id xs" "list_all safe_id ys"
  have quote: "join_with '','' (map json_str (x # xs)) \<noteq> [] \<and>
      hd (join_with '','' (map json_str (x # xs))) = CHR 0x22" for x xs
    by (cases xs) (auto simp: json_str_def)
  have differ: "join_with '','' (map json_str (x # xs)) @ u \<noteq> CHR '']'' # v" for x xs u v
    using quote [of x xs] by (cases "join_with '','' (map json_str (x # xs))") auto
  have "join_with '','' (map json_str xs) @ CHR '']'' # r =
      join_with '','' (map json_str ys) @ CHR '']'' # r' \<longleftrightarrow> xs = ys \<and> r = r'"
  proof (cases xs; cases ys)
    fix x xs' y ys'
    assume "xs = x # xs'" "ys = y # ys'"
    with s items show ?thesis by blast
  next
    fix x xs'
    assume "xs = x # xs'" "ys = []"
    then show ?thesis using differ [of x xs'] by simp
  next
    fix y ys'
    assume "xs = []" "ys = y # ys'"
    then show ?thesis using differ [of y ys'] by (metis append.simps(1) join_with.simps(1) list.distinct(1) list.simps(8))
  qed auto
  then show ?thesis by (simp add: str_list_def comp_def)
qed

lemma json_opt_append_inj:
  assumes "case x of None \<Rightarrow> True | Some s \<Rightarrow> safe_id s" and "case y of None \<Rightarrow> True | Some s \<Rightarrow> safe_id s"
  shows "json_dumps (opt_str x) @ r = json_dumps (opt_str y) @ r' \<longleftrightarrow> x = y \<and> r = r'"
proof (cases x; cases y)
  fix s t
  assume "x = Some s" "y = Some t"
  with assms show ?thesis by (simp add: opt_str_def json_str_append_inj)
qed (auto simp: opt_str_def json_str_def)

lemma scope_payload_keys_sorted:
  "sort_key fst [(''allowed_project_ids'', a), (''allowed_site_ids'', b), (''permission_version'', c),
     (''principal_id'', d), (''role_codes'', e), (''scope_mode'', f), (''scope_ref'', g),
     (''system_code'', h), (''tenant_code'', i), (''tenant_id'', j)] =
   [(''allowed_project_ids'', a), (''allowed_site_ids'', b), (''permission_version'', c),
     (''principal_id'', d), (''role_codes'', e), (''scope_mode'', f), (''scope_ref'', g),
     (''system_code'', h), (''tenant_code'', i), (''tenant_id'', j)]"
  by (rule sort_key_id_if_sorted) (simp add: less_eq_char_def)

definition scope_canonical :: "authorization_context \<Rightarrow> string" where
  "scope_canonical c = json_dumps (scope_payload c)"

lemma scope_canonical_unfold:
  "scope_canonical c = ''{'' @
     json_str ''allowed_project_ids'' @ '':'' @ json_dumps (str_list (sort (ac_allowed_project_ids c))) @ '','' @
     json_str ''allowed_site_ids'' @ '':'' @ json_dumps (str_list (sort (ac_allowed_site_ids c))) @ '','' @
     json_str ''permission_version'' @ '':'' @ json_str (ac_permission_version c) @ '','' @
     json_str ''principal_id'' @ '':'' @ json_str (ac_principal_id c) @ '','' @
     json_str ''role_codes'' @ '':'' @ json_dumps (str_list (sort (ac_role_codes c))) @ '','' @
     json_str ''scope_mode'' @ '':'' @ json_str (ac_scope_mode c) @ '','' @
     json_str ''scope_ref'' @ '':'' @ json_dumps (opt_str (ac_scope_ref c)) @ '','' @
     json_str ''system_code'' @ '':'' @ json_str (ac_system_code c) @ '','' @
     json_str ''tenant_code'' @ '':'' @ json_str (ac_tenant_code c) @ '','' @
     json_str ''tenant_id'' @ '':'' @ json_str (ac_tenant_id c) @ ''}''"
  by (simp add: scope_canonical_def scope_payload_def scope_payload_keys_sorted del: sort_key_simps)

lemma scope_mode_safe: "m \<in> set scope_modes \<Longrightarrow> safe_id m"
  by (auto simp: scope_modes_def safe_id_def safe_id_char_def char_class_defs)

lemma json_str_inject: "safe_id s \<Longrightarrow> safe_id t \<Longrightarrow> json_str s = json_str t \<longleftrightarrow> s = t"
  using json_str_append_inj [of s t "[]" "[]"] by simp

lemma scope_canonical_inject:
  assumes "wf_context sha256 a" and "wf_context sha256 b" and "scope_canonical a = scope_canonical b"
  shows "a = b"
proof -
  have fields: "ac_allowed_project_ids a = ac_allowed_project_ids b \<and>
      ac_allowed_site_ids a = ac_allowed_site_ids b \<and>
      ac_permission_version a = ac_permission_version b \<and> ac_principal_id a = ac_principal_id b \<and>
      ac_role_codes a = ac_role_codes b \<and> ac_scope_mode a = ac_scope_mode b \<and>
      ac_scope_ref a = ac_scope_ref b \<and> ac_system_code a = ac_system_code b \<and>
      ac_tenant_code a = ac_tenant_code b \<and> ac_tenant_id a = ac_tenant_id b"
    using assms
    by (simp add: scope_canonical_unfold wf_context_def wf_ids_def sorted_sort_id json_str_append_inj json_str_inject
        json_list_append_inj json_opt_append_inj scope_mode_safe del: json_dumps.simps)
  moreover have "ac_scope_hash a = ac_scope_hash b"
    using assms by (simp add: wf_context_def compute_scope_hash_def scope_canonical_def)
  ultimately show ?thesis by (cases a; cases b) simp
qed

section \<open>Properties\<close>

text \<open>A context of the bundled demo tenant, with the length of the text in place of its digest.\<close>

definition demo_digest :: "string \<Rightarrow> string" where
  "demo_digest s = nat_str (length s)"

definition demo_mapping :: "(string, pyval) dict" where
  "demo_mapping =
     [(''principal_id'', PStr ''public-user-001''), (''tenant_id'', PStr ''public-tenant-001''),
      (''tenant_code'', PStr ''public_demo''), (''system_code'', PStr ''demo''),
      (''role_codes'', PList [PStr ''operator'']), (''scope_mode'', PStr ''resource_set''),
      (''allowed_site_ids'', PList [PStr ''site-b'', PStr '' site-a'', PStr ''site-b'']),
      (''permission_version'', PInt 7)]"

definition demo_context :: authorization_context where
  "demo_context =
     \<lparr>ac_principal_id = ''public-user-001'', ac_tenant_id = ''public-tenant-001'',
      ac_tenant_code = ''public_demo'', ac_system_code = ''demo'', ac_role_codes = [''operator''],
      ac_scope_mode = ''resource_set'', ac_allowed_site_ids = [''site-a'', ''site-b''],
      ac_allowed_project_ids = [], ac_scope_ref = None, ac_permission_version = ''7'',
      ac_scope_hash = ''275''\<rparr>"

lemma demo_from_mapping: "from_mapping demo_digest demo_mapping = Inr demo_context"
  by code_simp

text \<open>The same user after being granted a second role.\<close>

definition demo_supervisor :: authorization_context where
  "demo_supervisor = demo_context\<lparr>ac_role_codes := [''operator'', ''supervisor''],
     ac_scope_hash := ''288''\<rparr>"

lemma demo_supervisor_from_mapping:
  "from_mapping demo_digest (dset ''role_codes'' (PList [PStr ''supervisor'', PStr ''operator'']) demo_mapping)
     = Inr demo_supervisor"
  by code_simp

lemma demo_digests_differ:
  "inj_on demo_digest {scope_canonical demo_context, scope_canonical demo_supervisor}"
proof -
  have "demo_digest (scope_canonical demo_context) \<noteq> demo_digest (scope_canonical demo_supervisor)"
    by code_simp
  then show ?thesis by auto
qed

lemma demo_hex_digest: "hex_digest demo_digest"
proof -
  have "str_strip (nat_str n) = nat_str n" for n
    using nat_str_digits [of n] by (intro str_strip_no_space) (auto simp: list_all_iff is_digit_not_space)
  then show ?thesis by (simp add: hex_digest_def demo_digest_def)
qed

lemma demo_wf_context: "wf_context demo_digest demo_context"
  using demo_from_mapping by (rule wf_context_from_mapping)

text \<open>A context that \<^verbatim>\<open>AuthorizationContext.from_mapping\<close> accepts is well formed: every identifier matches
  the identifier pattern, the id lists are sorted, duplicate free and within the resource limit, the
  scope mode is one of the four and agrees with the resources carried, and the scope hash is the
  digest of exactly these fields.\<close>

theorem context_from_mapping_wf:
  "from_mapping sha256 d = Inr c \<Longrightarrow> wf_context sha256 c"
  by (rule wf_context_from_mapping)

theorem context_from_mapping_wf_witness:
  "from_mapping demo_digest demo_mapping = Inr demo_context \<and> wf_context demo_digest demo_context"
  using context_from_mapping_wf [OF demo_from_mapping] demo_from_mapping by simp

text \<open>The snapshot a proposal stores can be read back: for every well-formed context,
  \<^verbatim>\<open>from_mapping(c.to_runtime_dict())\<close> is \<^verbatim>\<open>c\<close> itself, hash check included.\<close>

theorem context_roundtrip:
  "wf_context sha256 c \<Longrightarrow> hex_digest sha256 \<Longrightarrow> from_mapping sha256 (to_runtime_dict c) = Inr c"
  by (rule from_mapping_to_runtime_dict)

theorem context_roundtrip_witness:
  "from_mapping demo_digest (to_runtime_dict demo_context) = Inr demo_context"
  by (rule context_roundtrip [OF demo_wf_context demo_hex_digest])

text \<open>Comparing scope hashes compares whole authorization boundaries: two well-formed contexts have the
  same scope hash exactly when they agree in every field (principal, tenant, roles, mode, resources,
  reference, permission version), provided the digest does not collide on their two canonical texts.\<close>

theorem scope_hash_determines_context:
  assumes "wf_context sha256 a" and "wf_context sha256 b"
    and no_collision: "inj_on sha256 {scope_canonical a, scope_canonical b}"
  shows "ac_scope_hash a = ac_scope_hash b \<longleftrightarrow> a = b"
proof
  assume "ac_scope_hash a = ac_scope_hash b"
  then have "sha256 (scope_canonical a) = sha256 (scope_canonical b)"
    using assms by (simp add: wf_context_def compute_scope_hash_def scope_canonical_def)
  with no_collision have "scope_canonical a = scope_canonical b" by (auto dest: inj_onD)
  with assms(1,2) show "a = b" by (rule scope_canonical_inject)
qed simp

theorem scope_hash_determines_context_witness:
  "ac_scope_hash demo_context = ac_scope_hash demo_supervisor \<longleftrightarrow> demo_context = demo_supervisor"
proof (rule scope_hash_determines_context [of demo_digest])
  show "wf_context demo_digest demo_context" by (rule demo_wf_context)
  show "wf_context demo_digest demo_supervisor"
    using demo_supervisor_from_mapping by (rule wf_context_from_mapping)
  show "inj_on demo_digest {scope_canonical demo_context, scope_canonical demo_supervisor}"
    by (rule demo_digests_differ)
qed

end
