(* ===== verification/Ontology.thy ===== *)
theory Ontology
  imports Authorization_Context
begin

text \<open>
  The versioned ontology registry, \<^verbatim>\<open>deerflow/semantic/ontology.py\<close>: reading a registry from its document,
  the authorization of objects, properties, metrics and Actions by role, the validation of Action
  parameters, and the resolution of a question to the ontology entries the caller may see. The
  document is the mapping \<^verbatim>\<open>yaml.safe_load\<close> returns. Besides \<open>OntologyError\<close> the errors are those Python
  itself raises on a malformed document.
\<close>

datatype ontology_error = OntologyError string | PyAttributeError | PyTypeError

section \<open>Definitions of the registry\<close>

record property_definition =
  pd_name :: string
  pd_column :: string
  pd_value_type :: string
  pd_label :: string
  pd_unit :: "string option"
  pd_sensitivity :: string
  pd_filterable :: bool
  pd_aggregatable :: bool
  pd_allowed_roles :: "string list"

record object_definition =
  od_name :: string
  od_table :: string
  od_id_field :: string
  od_label :: string
  od_keywords :: "string list"
  od_properties :: "(string, property_definition) dict"
  od_version :: string
  od_allowed_roles :: "string list"

record link_definition =
  ld_name :: string
  ld_from_object :: string
  ld_to_object :: string
  ld_from_field :: string
  ld_to_field :: string
  ld_cardinality :: string
  ld_version :: string

record metric_definition =
  md_name :: string
  md_label :: string
  md_object_type :: string
  md_aggregation :: string
  md_field :: "string option"
  md_dimensions :: "string list"
  md_filters :: "string list"
  md_unit :: "string option"
  md_keywords :: "string list"
  md_version :: string
  md_grain :: "string option"
  md_time_semantics :: "string option"
  md_source_refs :: "string list"
  md_allowed_roles :: "string list"

record parameter_definition =
  prm_name :: string
  prm_value_type :: string
  prm_required :: bool
  prm_minimum :: pyval
  prm_maximum :: pyval
  prm_min_length :: pyval
  prm_max_length :: pyval

record precondition =
  pc_field :: string
  pc_op :: string
  pc_value :: pyval

record action_definition =
  ad_name :: string
  ad_version :: string
  ad_label :: string
  ad_keywords :: "string list"
  ad_target_type :: string
  ad_scope_dimension :: string
  ad_parameters :: "(string, parameter_definition) dict"
  ad_preconditions :: "precondition list"
  ad_approval_required :: bool
  ad_executor :: "(string, pyval) dict"
  ad_compensation :: "(string, pyval) dict option"
  ad_allowed_roles :: "string list"

record ontology_registry =
  or_version :: string
  or_policy_version :: string
  or_mapping_version :: string
  or_objects :: "(string, object_definition) dict"
  or_links :: "(string, link_definition) dict"
  or_metrics :: "(string, metric_definition) dict"
  or_actions :: "(string, action_definition) dict"

section \<open>Reading values\<close>

definition ont_name :: "pyval \<Rightarrow> string \<Rightarrow> ontology_error + string" where
  "ont_name v field =
     (let text = str_strip (str_or v '''') in
      if \<not> safe_name text
      then Inl (OntologyError (''Invalid '' @ field @ '': '' @ repr_str text))
      else Inr text)"

text \<open>\<^verbatim>\<open>_name(v, field) if v is not None else None\<close>.\<close>

definition opt_name :: "pyval \<Rightarrow> string \<Rightarrow> ontology_error + string option" where
  "opt_name v field = (if is_none v then Inr None else ebind (ont_name v field) (\<lambda>s. Inr (Some s)))"

definition ont_keywords :: "pyval \<Rightarrow> ontology_error + string list" where
  "ont_keywords v =
     (if is_none v then Inr []
      else case list_of v of
        None \<Rightarrow> Inl (OntologyError ''keywords must be a list'')
      | Some items \<Rightarrow> Inr (filter (\<lambda>s. s \<noteq> '''') (map (\<lambda>item. str_strip (py_str item)) items)))"

definition string_tuple :: "pyval \<Rightarrow> string \<Rightarrow> ontology_error + string list" where
  "string_tuple v field =
     (if is_none v then Inr []
      else case list_of v of
        None \<Rightarrow> Inl (OntologyError (field @ '' must be a list''))
      | Some items \<Rightarrow> emap (\<lambda>item. ont_name item field) items)"

text \<open>\<^verbatim>\<open>(v or {}).items()\<close>, \<^verbatim>\<open>for item in (v or [])\<close>, and \<^verbatim>\<open>str(v) if v is not None else None\<close>.\<close>

definition items_or_empty :: "pyval \<Rightarrow> ontology_error + (string \<times> pyval) list" where
  "items_or_empty v =
     (if \<not> truthy v then Inr []
      else case dict_of v of None \<Rightarrow> Inl PyAttributeError | Some d \<Rightarrow> Inr d)"

definition iterate_or_empty :: "pyval \<Rightarrow> ontology_error + pyval list" where
  "iterate_or_empty v =
     (if \<not> truthy v then Inr []
      else case v of
        PList xs \<Rightarrow> Inr xs
      | PStr s \<Rightarrow> Inr (map (\<lambda>c. PStr [c]) s)
      | PDict d \<Rightarrow> Inr (map (\<lambda>(k, _). PStr k) d)
      | _ \<Rightarrow> Inl PyTypeError)"

definition opt_text :: "pyval \<Rightarrow> string option" where
  "opt_text v = (if is_none v then None else Some (py_str v))"

section \<open>Lookups\<close>

definition object_property :: "object_definition \<Rightarrow> string \<Rightarrow> ontology_error + property_definition" where
  "object_property obj name =
     (case dget (od_properties obj) name of
        None \<Rightarrow> Inl (OntologyError (''Unknown property '' @ od_name obj @ ''.'' @ name))
      | Some p \<Rightarrow> Inr p)"

definition registry_object :: "ontology_registry \<Rightarrow> string \<Rightarrow> ontology_error + object_definition" where
  "registry_object r name =
     (case dget (or_objects r) name of
        None \<Rightarrow> Inl (OntologyError (''Unknown object type '' @ repr_str name))
      | Some x \<Rightarrow> Inr x)"

definition registry_metric :: "ontology_registry \<Rightarrow> string \<Rightarrow> ontology_error + metric_definition" where
  "registry_metric r name =
     (case dget (or_metrics r) name of
        None \<Rightarrow> Inl (OntologyError (''Unknown metric '' @ repr_str name))
      | Some x \<Rightarrow> Inr x)"

definition registry_action :: "ontology_registry \<Rightarrow> string \<Rightarrow> ontology_error + action_definition" where
  "registry_action r name =
     (case dget (or_actions r) name of
        None \<Rightarrow> Inl (OntologyError (''Unknown action '' @ repr_str name))
      | Some x \<Rightarrow> Inr x)"

section \<open>Action parameters\<close>

text \<open>\<^verbatim>\<open>a < b\<close> between a number and a bound read from the document.\<close>

definition num_less :: "rat \<Rightarrow> pyval \<Rightarrow> ontology_error + bool" where
  "num_less a b = (case num_value b of None \<Rightarrow> Inl PyTypeError | Some q \<Rightarrow> Inr (a < q))"

definition num_greater :: "rat \<Rightarrow> pyval \<Rightarrow> ontology_error + bool" where
  "num_greater a b = (case num_value b of None \<Rightarrow> Inl PyTypeError | Some q \<Rightarrow> Inr (a > q))"

definition parameter_error :: "parameter_definition \<Rightarrow> string \<Rightarrow> ontology_error" where
  "parameter_error p text = OntologyError (''Action parameter '' @ repr_str (prm_name p) @ text)"

text \<open>\<^verbatim>\<open>if bound is not None and a < bound: raise\<close> and its mirror image.\<close>

definition check_low :: "pyval \<Rightarrow> rat \<Rightarrow> ontology_error \<Rightarrow> ontology_error + unit" where
  "check_low bound a e =
     (if is_none bound then Inr ()
      else ebind (num_less a bound) (\<lambda>low. if low then Inl e else Inr ()))"

definition check_high :: "pyval \<Rightarrow> rat \<Rightarrow> ontology_error \<Rightarrow> ontology_error + unit" where
  "check_high bound a e =
     (if is_none bound then Inr ()
      else ebind (num_greater a bound) (\<lambda>high. if high then Inl e else Inr ()))"

definition validate_parameter :: "parameter_definition \<Rightarrow> pyval \<Rightarrow> ontology_error + pyval" where
  "validate_parameter p v =
     (if is_none v then
        (if prm_required p then Inl (parameter_error p '' is required'') else Inr PNone)
      else if prm_value_type p = ''string'' then
        (case v of
           PStr s \<Rightarrow>
             ebind (check_low (prm_min_length p) (of_nat (length s)) (parameter_error p '' is too short'')) (\<lambda>_.
             ebind (check_high (prm_max_length p) (of_nat (length s)) (parameter_error p '' is too long'')) (\<lambda>_.
             Inr v))
         | _ \<Rightarrow> Inl (parameter_error p '' must be a string''))
      else if prm_value_type p = ''number'' then
        (case (case v of PInt i \<Rightarrow> Some (of_int i) | PFloat r q \<Rightarrow> Some q | _ \<Rightarrow> None) of
           Some a \<Rightarrow>
             ebind (check_low (prm_minimum p) a (parameter_error p '' is below minimum'')) (\<lambda>_.
             ebind (check_high (prm_maximum p) a (parameter_error p '' is above maximum'')) (\<lambda>_.
             Inr v))
         | None \<Rightarrow> Inl (parameter_error p '' must be a number''))
      else if prm_value_type p = ''boolean'' then
        (case v of PBool b \<Rightarrow> Inr v | _ \<Rightarrow> Inl (parameter_error p '' must be a boolean''))
      else Inl (OntologyError (''Unsupported action parameter type '' @ repr_str (prm_value_type p))))"

definition validate_parameters ::
  "action_definition \<Rightarrow> (string, pyval) dict \<Rightarrow> ontology_error + (string, pyval) dict" where
  "validate_parameters a values =
     (let unknown = filter (\<lambda>k. k \<notin> set (dkeys (ad_parameters a))) (dkeys values) in
      if unknown \<noteq> []
      then Inl (OntologyError (''Unknown action parameters: '' @ join_with '', '' (sort (remdups unknown))))
      else emap (\<lambda>(name, p). ebind (validate_parameter p (get_key values name)) (\<lambda>v. Inr (name, v)))
             (filter (\<lambda>(name, p). \<not> is_none (get_key values name) \<or> prm_required p) (ad_parameters a)))"

section \<open>Reading the document\<close>

definition read_property :: "string \<Rightarrow> (string, pyval) dict \<Rightarrow> ontology_error + string \<times> property_definition" where
  "read_property prop_name prop =
     ebind (ont_name (PStr prop_name) ''property name'') (\<lambda>name.
     ebind (ont_name (get_key prop ''column'') ''property column'') (\<lambda>column.
     ebind (string_tuple (get_key prop ''allowed_roles'') ''property allowed role'') (\<lambda>roles.
     Inr (name, \<lparr>pd_name = name, pd_column = column,
        pd_value_type = str_or (get_key prop ''type'') ''string'',
        pd_label = str_or (get_key prop ''label'') prop_name,
        pd_unit = opt_text (get_key prop ''unit''),
        pd_sensitivity = str_or (get_key prop ''sensitivity'') ''internal'',
        pd_filterable = truthy (get_default prop ''filterable'' (PBool True)),
        pd_aggregatable = truthy (get_default prop ''aggregatable''
          (PBool (str_or (get_key prop ''type'') ''string'' = ''number''))),
        pd_allowed_roles = roles\<rparr>))))"

text \<open>\<^verbatim>\<open>{key: value for name, raw in items if isinstance(raw, Mapping)}\<close>: entries that are not mappings are
  skipped, and a later entry with the same key replaces an earlier one.\<close>

definition read_mappings ::
  "(string \<Rightarrow> (string, pyval) dict \<Rightarrow> ontology_error + string \<times> 'a) \<Rightarrow> (string \<times> pyval) list
     \<Rightarrow> ontology_error + (string, 'a) dict" where
  "read_mappings f items =
     efold (\<lambda>acc (name, raw). case dict_of raw of
         None \<Rightarrow> Inr acc
       | Some d \<Rightarrow> ebind (f name d) (\<lambda>(k, x). Inr (dset k x acc))) [] items"

text \<open>The loops over objects, metrics and Actions refuse an entry that is not a mapping; each body sees the
  entries read before it only through \<open>dset\<close>.\<close>

definition read_entries ::
  "string \<Rightarrow> (string \<Rightarrow> (string, pyval) dict \<Rightarrow> ontology_error + string \<times> 'a) \<Rightarrow> (string \<times> pyval) list
     \<Rightarrow> ontology_error + (string, 'a) dict" where
  "read_entries kind f items =
     efold (\<lambda>acc (name, raw). case dict_of raw of
         None \<Rightarrow> Inl (OntologyError (kind @ '' '' @ repr_str name @ '' must be a mapping''))
       | Some d \<Rightarrow> ebind (f name d) (\<lambda>(k, x). Inr (dset k x acc))) [] items"

definition read_object ::
  "string \<Rightarrow> string \<Rightarrow> (string, pyval) dict \<Rightarrow> ontology_error + string \<times> object_definition" where
  "read_object version raw_name raw =
     ebind (ont_name (PStr raw_name) ''object name'') (\<lambda>name.
     ebind (items_or_empty (get_key raw ''properties'')) (\<lambda>items.
     ebind (read_mappings read_property items) (\<lambda>properties.
     ebind (ont_name (get_key raw ''id_field'') ''id_field'') (\<lambda>id_field.
     if dget properties id_field = None
     then Inl (OntologyError (''Object '' @ repr_str name @ '' id_field is not a property'')) else
     ebind (ont_name (get_key raw ''table'') ''object table'') (\<lambda>table.
     ebind (ont_keywords (get_key raw ''keywords'')) (\<lambda>keywords.
     ebind (string_tuple (get_key raw ''allowed_roles'') ''object allowed role'') (\<lambda>roles.
     Inr (name, \<lparr>od_name = name, od_table = table, od_id_field = id_field,
        od_label = str_or (get_key raw ''label'') name, od_keywords = keywords,
        od_properties = properties, od_version = str_or (get_key raw ''version'') version,
        od_allowed_roles = roles\<rparr>))))))))"

definition read_link ::
  "string \<Rightarrow> string \<Rightarrow> (string, pyval) dict \<Rightarrow> ontology_error + string \<times> link_definition" where
  "read_link version link_name raw =
     ebind (ont_name (PStr link_name) ''link name'') (\<lambda>name.
     ebind (ont_name (get_key raw ''from_object'') ''from_object'') (\<lambda>from_object.
     ebind (ont_name (get_key raw ''to_object'') ''to_object'') (\<lambda>to_object.
     ebind (ont_name (get_key raw ''from_field'') ''from_field'') (\<lambda>from_field.
     ebind (ont_name (get_key raw ''to_field'') ''to_field'') (\<lambda>to_field.
     Inr (name, \<lparr>ld_name = name, ld_from_object = from_object, ld_to_object = to_object,
        ld_from_field = from_field, ld_to_field = to_field,
        ld_cardinality = str_or (get_key raw ''cardinality'') ''many_to_one'',
        ld_version = str_or (get_key raw ''version'') version\<rparr>))))))"

definition aggregations :: "string list" where
  "aggregations = [''count'', ''sum'', ''avg'', ''min'', ''max'']"

definition cardinalities :: "string list" where
  "cardinalities = [''one_to_one'', ''one_to_many'', ''many_to_one'', ''many_to_many'']"

definition check_metric_field ::
  "string \<Rightarrow> object_definition \<Rightarrow> string \<Rightarrow> string option \<Rightarrow> ontology_error + unit" where
  "check_metric_field name obj aggregation field =
     (case field of
        None \<Rightarrow>
          if aggregation \<noteq> ''count''
          then Inl (OntologyError (''Metric '' @ repr_str name @ '' requires a field''))
          else Inr ()
      | Some f \<Rightarrow>
          ebind (object_property obj f) (\<lambda>p.
          if \<not> pd_aggregatable p
          then Inl (OntologyError (''Metric '' @ repr_str name @ '' field '' @ repr_str f @ '' is not aggregatable''))
          else Inr ()))"

definition check_metric_properties ::
  "string \<Rightarrow> object_definition \<Rightarrow> string list \<Rightarrow> string list \<Rightarrow> ontology_error + unit" where
  "check_metric_properties name obj dimensions filters =
     efold (\<lambda>_ prop.
       ebind (object_property obj prop) (\<lambda>p.
       if prop \<in> set filters \<and> \<not> pd_filterable p
       then Inl (OntologyError (''Metric '' @ repr_str name @ '' filter '' @ repr_str prop @ '' is not filterable''))
       else Inr ())) () (dimensions @ filters)"

definition read_metric ::
  "string \<Rightarrow> (string, object_definition) dict \<Rightarrow> string \<Rightarrow> (string, pyval) dict
     \<Rightarrow> ontology_error + string \<times> metric_definition" where
  "read_metric version objects raw_name raw =
     ebind (ont_name (PStr raw_name) ''metric name'') (\<lambda>name.
     ebind (ont_name (get_key raw ''object_type'') ''metric object_type'') (\<lambda>object_type.
     case dget objects object_type of
       None \<Rightarrow> Inl (OntologyError (''Metric '' @ repr_str name @ '' references unknown object '' @ repr_str object_type))
     | Some obj \<Rightarrow>
     (let aggregation = str_lower (str_or (get_key raw ''aggregation'') '''') in
     if aggregation \<notin> set aggregations
     then Inl (OntologyError (''Metric '' @ repr_str name @ '' has unsupported aggregation'')) else
     ebind (opt_name (get_key raw ''field'') ''metric field'') (\<lambda>field.
     ebind (check_metric_field name obj aggregation field) (\<lambda>_.
     ebind (iterate_or_empty (get_key raw ''dimensions'')) (\<lambda>raw_dimensions.
     ebind (emap (\<lambda>item. ont_name item ''metric dimension'') raw_dimensions) (\<lambda>dimensions.
     ebind (iterate_or_empty (get_key raw ''filters'')) (\<lambda>raw_filters.
     ebind (emap (\<lambda>item. ont_name item ''metric filter'') raw_filters) (\<lambda>filters.
     ebind (check_metric_properties name obj dimensions filters) (\<lambda>_.
     ebind (ont_keywords (get_key raw ''keywords'')) (\<lambda>keywords.
     ebind (string_tuple (get_or raw ''source_refs'' (PList [PStr (od_table obj)]))
              ''metric source reference'') (\<lambda>source_refs.
     ebind (string_tuple (get_key raw ''allowed_roles'') ''metric allowed role'') (\<lambda>roles.
     Inr (name, \<lparr>md_name = name, md_label = str_or (get_key raw ''label'') name,
        md_object_type = object_type, md_aggregation = aggregation, md_field = field,
        md_dimensions = dimensions, md_filters = filters, md_unit = opt_text (get_key raw ''unit''),
        md_keywords = keywords, md_version = str_or (get_key raw ''version'') version,
        md_grain = opt_text (get_key raw ''grain''),
        md_time_semantics = opt_text (get_key raw ''time_semantics''),
        md_source_refs = source_refs, md_allowed_roles = roles\<rparr>))))))))))))))"

definition read_parameter ::
  "string \<Rightarrow> (string, pyval) dict \<Rightarrow> ontology_error + string \<times> parameter_definition" where
  "read_parameter param_name param =
     ebind (ont_name (PStr param_name) ''parameter name'') (\<lambda>name.
     Inr (name, \<lparr>prm_name = name, prm_value_type = str_or (get_key param ''type'') ''string'',
        prm_required = truthy (get_default param ''required'' (PBool False)),
        prm_minimum = get_key param ''minimum'', prm_maximum = get_key param ''maximum'',
        prm_min_length = get_key param ''min_length'', prm_max_length = get_key param ''max_length''\<rparr>))"

definition read_precondition ::
  "string \<Rightarrow> object_definition \<Rightarrow> pyval \<Rightarrow> ontology_error + precondition" where
  "read_precondition name target raw =
     (case dict_of raw of
        None \<Rightarrow> Inl (OntologyError (''Action '' @ repr_str name @ '' has invalid precondition''))
      | Some d \<Rightarrow>
          ebind (ont_name (get_key d ''field'') ''action precondition field'') (\<lambda>field.
          ebind (object_property target field) (\<lambda>_.
          let operator = str_lower (str_strip (str_or (get_key d ''op'') ''eq'')) in
          if operator \<noteq> ''eq''
          then Inl (OntologyError (''Action '' @ repr_str name @ '' has unsupported precondition operator''))
          else Inr \<lparr>pc_field = field, pc_op = operator, pc_value = get_key d ''value''\<rparr>)))"

definition target_placeholder :: string where
  "target_placeholder = ''{target_id}''"

text \<open>The executor and the compensation of an Action are checked and normalised in the same way; \<open>what\<close> and
  \<open>field_what\<close> are the words of the error messages.\<close>

definition executor_invalid :: "string \<Rightarrow> string \<Rightarrow> string \<Rightarrow> pyval \<Rightarrow> bool" where
  "executor_invalid typ method path result_fields \<longleftrightarrow>
     typ \<noteq> ''domain_api'' \<or> method \<notin> set [''POST'', ''PUT'', ''PATCH'', ''DELETE''] \<or>
     \<not> starts_with path ''/'' \<or> starts_with path ''//'' \<or> str_count target_placeholder path \<noteq> 1 \<or>
     (case list_of result_fields of None \<Rightarrow> True | Some items \<Rightarrow> length items > 50)"

definition read_executor ::
  "string \<Rightarrow> string \<Rightarrow> string \<Rightarrow> (string, pyval) dict \<Rightarrow> ontology_error + (string, pyval) dict" where
  "read_executor name what field_what executor =
     (let typ = str_strip (str_or (get_key executor ''type'') '''');
          method = str_upper (str_strip (str_or (get_key executor ''method'') ''POST''));
          path = str_strip (str_or (get_key executor ''path'') '''');
          result_fields = get_or executor ''result_fields'' (PList []) in
      if executor_invalid typ method path result_fields
      then Inl (OntologyError (''Action '' @ repr_str name @ '' has invalid '' @ what @ '' executor''))
      else ebind (emap (\<lambda>item. ont_name item (''action '' @ field_what @ '' result field''))
                   (case list_of result_fields of None \<Rightarrow> [] | Some items \<Rightarrow> items)) (\<lambda>fields.
           Inr (dset ''result_fields'' (str_list (from_keys fields))
               (dset ''path'' (PStr path) (dset ''method'' (PStr method) (dset ''type'' (PStr typ) executor))))))"

text \<open>\<^verbatim>\<open>raw.get(k) or {}\<close>, which must be a mapping.\<close>

definition sub_mapping :: "(string, pyval) dict \<Rightarrow> string \<Rightarrow> (string, pyval) dict option" where
  "sub_mapping raw k = (if truthy (get_key raw k) then dict_of (get_key raw k) else Some [])"

definition action_sections ::
  "string \<Rightarrow> (string, pyval) dict
     \<Rightarrow> ontology_error + (string, pyval) dict \<times> (string, pyval) dict \<times> (string, pyval) dict" where
  "action_sections name raw =
     (case (sub_mapping raw ''approval'', sub_mapping raw ''authorization'', sub_mapping raw ''executor'',
            is_none (get_key raw ''compensation'') \<or> dict_of (get_key raw ''compensation'') \<noteq> None) of
        (Some approval, Some authorization, Some executor, True) \<Rightarrow> Inr (approval, authorization, executor)
      | _ \<Rightarrow> Inl (OntologyError (''Action '' @ repr_str name @ '' has invalid approval or executor'')))"

definition read_preconditions ::
  "string \<Rightarrow> object_definition \<Rightarrow> pyval \<Rightarrow> ontology_error + precondition list" where
  "read_preconditions name target v =
     (if \<not> truthy v then Inr []
      else case list_of v of
        None \<Rightarrow> Inl (OntologyError (''Action '' @ repr_str name @ '' preconditions must be a list''))
      | Some items \<Rightarrow> emap (read_precondition name target) items)"

definition read_compensation :: "string \<Rightarrow> pyval \<Rightarrow> ontology_error + (string, pyval) dict option" where
  "read_compensation name v =
     (case dict_of v of
        None \<Rightarrow> Inr None
      | Some compensation \<Rightarrow>
          ebind (read_executor name ''compensation'' ''compensation'' compensation) (\<lambda>c. Inr (Some c)))"

definition read_action ::
  "string \<Rightarrow> (string, object_definition) dict \<Rightarrow> string \<Rightarrow> (string, pyval) dict
     \<Rightarrow> ontology_error + string \<times> action_definition" where
  "read_action version objects raw_name raw =
     ebind (ont_name (PStr raw_name) ''action name'') (\<lambda>name.
     ebind (ont_name (get_key raw ''target_type'') ''action target_type'') (\<lambda>target_type.
     case dget objects target_type of
       None \<Rightarrow> Inl (OntologyError (''Action '' @ repr_str name @ '' references unknown target type''))
     | Some target \<Rightarrow>
     ebind (items_or_empty (get_key raw ''parameters'')) (\<lambda>items.
     ebind (read_mappings read_parameter items) (\<lambda>parameters.
     if \<not> list_all (\<lambda>p. prm_value_type p \<in> set [''string'', ''number'', ''boolean'']) (dvals parameters)
     then Inl (OntologyError (''Action '' @ repr_str name @ '' has unsupported parameter types'')) else
     ebind (action_sections name raw) (\<lambda>(approval, authorization, executor).
     ebind (read_preconditions name target (get_key raw ''preconditions'')) (\<lambda>preconditions.
     ebind (read_executor name ''domain API'' ''executor'' executor) (\<lambda>normalized_executor.
     ebind (read_compensation name (get_key raw ''compensation'')) (\<lambda>normalized_compensation.
     ebind (ont_keywords (get_key raw ''keywords'')) (\<lambda>keywords.
     ebind (string_tuple (get_key authorization ''allowed_roles'') ''action allowed role'') (\<lambda>roles.
     let scope_dimension = str_lower (str_strip (str_or (get_key raw ''scope_dimension'') '''')) in
     if scope_dimension \<notin> set [''site'', ''project'']
     then Inl (OntologyError (''Action '' @ repr_str name @ '' requires site or project scope_dimension''))
     else
     Inr (name, \<lparr>ad_name = name, ad_version = str_or (get_key raw ''version'') version,
        ad_label = str_or (get_key raw ''label'') name, ad_keywords = keywords,
        ad_target_type = target_type, ad_scope_dimension = scope_dimension,
        ad_parameters = parameters, ad_preconditions = preconditions,
        ad_approval_required = truthy (get_default approval ''required'' (PBool False)),
        ad_executor = normalized_executor, ad_compensation = normalized_compensation,
        ad_allowed_roles = roles\<rparr>)))))))))))"

definition check_link ::
  "(string, object_definition) dict \<Rightarrow> link_definition \<Rightarrow> ontology_error + unit" where
  "check_link objects link =
     (if ld_cardinality link \<notin> set cardinalities
      then Inl (OntologyError (''Link '' @ repr_str (ld_name link) @ '' has invalid cardinality''))
      else case (dget objects (ld_from_object link), dget objects (ld_to_object link)) of
        (Some from_object, Some to_object) \<Rightarrow>
          ebind (object_property from_object (ld_from_field link)) (\<lambda>_.
          ebind (object_property to_object (ld_to_field link)) (\<lambda>_. Inr ()))
      | _ \<Rightarrow> Inl (OntologyError (''Link '' @ repr_str (ld_name link) @ '' references an unknown object'')))"

definition ontology_from_mapping :: "(string, pyval) dict \<Rightarrow> ontology_error + ontology_registry" where
  "ontology_from_mapping d =
     (let version = str_strip (str_or (get_key d ''version'') '''') in
      if version = '''' then Inl (OntologyError ''Ontology version is required'') else
      ebind (items_or_empty (get_key d ''objects'')) (\<lambda>raw_objects.
      ebind (read_entries ''Object'' (read_object version) raw_objects) (\<lambda>objects.
      ebind (items_or_empty (get_key d ''links'')) (\<lambda>raw_links.
      ebind (read_mappings (read_link version) raw_links) (\<lambda>links.
      ebind (items_or_empty (get_key d ''metrics'')) (\<lambda>raw_metrics.
      ebind (read_entries ''Metric'' (read_metric version objects) raw_metrics) (\<lambda>metrics.
      ebind (items_or_empty (get_key d ''actions'')) (\<lambda>raw_actions.
      ebind (read_entries ''Action'' (read_action version objects) raw_actions) (\<lambda>actions.
      ebind (emap (check_link objects) (dvals links)) (\<lambda>_.
      Inr \<lparr>or_version = version,
           or_policy_version = str_or (get_key d ''policy_version'') version,
           or_mapping_version = str_or (get_key d ''mapping_version'') version,
           or_objects = objects, or_links = links, or_metrics = metrics, or_actions = actions\<rparr>))))))))))"

section \<open>Authorization by role\<close>

definition role_allowed :: "string list \<Rightarrow> authorization_context \<Rightarrow> bool" where
  "role_allowed allowed_roles auth \<longleftrightarrow>
     allowed_roles = [] \<or> list_ex (\<lambda>r. r \<in> set (ac_role_codes auth)) allowed_roles"

definition authorize_object ::
  "ontology_registry \<Rightarrow> string \<Rightarrow> authorization_context \<Rightarrow> ontology_error + object_definition" where
  "authorize_object r name auth =
     ebind (registry_object r name) (\<lambda>obj.
     if \<not> role_allowed (od_allowed_roles obj) auth
     then Inl (OntologyError (''Object type '' @ repr_str name @ '' is not authorized''))
     else Inr obj)"

definition authorize_property ::
  "ontology_registry \<Rightarrow> string \<Rightarrow> string \<Rightarrow> authorization_context \<Rightarrow> ontology_error + property_definition" where
  "authorize_property r object_name property_name auth =
     ebind (authorize_object r object_name auth) (\<lambda>obj.
     ebind (object_property obj property_name) (\<lambda>prop.
     if \<not> role_allowed (pd_allowed_roles prop) auth
     then Inl (OntologyError (''Property '' @ object_name @ ''.'' @ property_name @ '' is not authorized''))
     else Inr prop))"

definition authorize_metric ::
  "ontology_registry \<Rightarrow> string \<Rightarrow> authorization_context \<Rightarrow> ontology_error + metric_definition" where
  "authorize_metric r name auth =
     ebind (registry_metric r name) (\<lambda>metric.
     ebind (authorize_object r (md_object_type metric) auth) (\<lambda>_.
     if \<not> role_allowed (md_allowed_roles metric) auth
     then Inl (OntologyError (''Metric '' @ repr_str name @ '' is not authorized''))
     else Inr metric))"

definition authorize_action ::
  "ontology_registry \<Rightarrow> string \<Rightarrow> authorization_context \<Rightarrow> ontology_error + action_definition" where
  "authorize_action r name auth =
     ebind (registry_action r name) (\<lambda>action.
     ebind (authorize_object r (ad_target_type action) auth) (\<lambda>_.
     if \<not> role_allowed (ad_allowed_roles action) auth
     then Inl (OntologyError (''Action '' @ repr_str name @ '' is not authorized''))
     else Inr action))"

text \<open>A comprehension whose condition may raise.\<close>

fun efilter :: "('a \<Rightarrow> 'e + bool) \<Rightarrow> 'a list \<Rightarrow> 'e + 'a list" where
  "efilter p [] = Inr []"
| "efilter p (x # xs) =
     ebind (p x) (\<lambda>b. ebind (efilter p xs) (\<lambda>ys. Inr (if b then x # ys else ys)))"

text \<open>\<^verbatim>\<open>a and self._role_allowed(self.object(name).allowed_roles, authorization)\<close>: the object is looked up only
  when \<open>a\<close> holds.\<close>

definition object_role_allowed ::
  "ontology_registry \<Rightarrow> bool \<Rightarrow> string \<Rightarrow> authorization_context \<Rightarrow> ontology_error + bool" where
  "object_role_allowed r a name auth =
     (if \<not> a then Inr False
      else ebind (registry_object r name) (\<lambda>obj. Inr (role_allowed (od_allowed_roles obj) auth)))"

definition available_actions ::
  "ontology_registry \<Rightarrow> authorization_context \<Rightarrow> ontology_error + action_definition list" where
  "available_actions r auth =
     efilter (\<lambda>a. object_role_allowed r (role_allowed (ad_allowed_roles a) auth) (ad_target_type a) auth)
       (dvals (or_actions r))"

section \<open>Resolving a question\<close>

record candidates =
  cand_objects :: "string list"
  cand_metrics :: "string list"
  cand_actions :: "string list"

record resolved_object =
  ro_object :: object_definition
  ro_properties :: "string list"
  ro_property_definitions :: "property_definition list"

record resolution =
  res_ontology_version :: string
  res_objects :: "resolved_object list"
  res_links :: "link_definition list"
  res_metrics :: "metric_definition list"
  res_actions :: "action_definition list"
  res_policy_version :: string
  res_mapping_version :: string

definition name_matches :: "string \<Rightarrow> string list \<Rightarrow> string \<Rightarrow> string \<Rightarrow> string list \<Rightarrow> bool" where
  "name_matches normalized cands name label keywords \<longleftrightarrow>
     name \<in> set cands \<or>
     list_ex (\<lambda>v. str_contains (str_casefold v) normalized) (name # label # keywords)"

definition property_visible :: "authorization_context option \<Rightarrow> property_definition \<Rightarrow> bool" where
  "property_visible auth p =
     (case auth of None \<Rightarrow> True | Some c \<Rightarrow> role_allowed (pd_allowed_roles p) c)"

definition link_visible ::
  "ontology_registry \<Rightarrow> authorization_context option \<Rightarrow> link_definition \<Rightarrow> ontology_error + bool" where
  "link_visible r auth link =
     (case auth of
        None \<Rightarrow> Inr True
      | Some c \<Rightarrow>
          ebind (registry_object r (ld_from_object link)) (\<lambda>from_object.
          ebind (registry_object r (ld_to_object link)) (\<lambda>to_object.
          if \<not> role_allowed (od_allowed_roles from_object) c then Inr False
          else if \<not> role_allowed (od_allowed_roles to_object) c then Inr False
          else ebind (object_property from_object (ld_from_field link)) (\<lambda>p.
            if \<not> property_visible auth p then Inr False
            else ebind (object_property to_object (ld_to_field link)) (\<lambda>q.
              Inr (property_visible auth q))))))"

definition resolve_object :: "authorization_context option \<Rightarrow> object_definition \<Rightarrow> resolved_object" where
  "resolve_object auth obj =
     (let visible = filter (property_visible auth) (dvals (od_properties obj)) in
      \<lparr>ro_object = obj, ro_properties = sort (map pd_name visible),
       ro_property_definitions = visible\<rparr>)"

definition resolve_question ::
  "ontology_registry \<Rightarrow> string \<Rightarrow> authorization_context option \<Rightarrow> candidates \<Rightarrow> ontology_error + resolution" where
  "resolve_question r question auth cands =
     (let normalized = str_casefold question;
          matched_objects = filter (\<lambda>obj.
            name_matches normalized (cand_objects cands) (od_name obj) (od_label obj) (od_keywords obj) \<and>
            (case auth of None \<Rightarrow> True | Some c \<Rightarrow> role_allowed (od_allowed_roles obj) c))
            (dvals (or_objects r));
          matched_names = map od_name matched_objects in
      ebind (efilter (\<lambda>link.
          if ld_from_object link \<in> set matched_names \<or> ld_to_object link \<in> set matched_names
          then link_visible r auth link else Inr False) (dvals (or_links r))) (\<lambda>links.
      ebind (efilter (\<lambda>m.
          if name_matches normalized (cand_metrics cands) (md_name m) (md_label m) (md_keywords m) then
            (case auth of None \<Rightarrow> Inr True
             | Some c \<Rightarrow> object_role_allowed r (role_allowed (md_allowed_roles m) c) (md_object_type m) c)
          else Inr False) (dvals (or_metrics r))) (\<lambda>metrics.
      ebind (efilter (\<lambda>a.
          if name_matches normalized (cand_actions cands) (ad_name a) (ad_label a) (ad_keywords a) then
            (case auth of None \<Rightarrow> Inr True
             | Some c \<Rightarrow> object_role_allowed r (role_allowed (ad_allowed_roles a) c) (ad_target_type a) c)
          else Inr False) (dvals (or_actions r))) (\<lambda>actions.
      Inr \<lparr>res_ontology_version = or_version r,
           res_objects = map (resolve_object auth) matched_objects,
           res_links = links, res_metrics = metrics, res_actions = actions,
           res_policy_version = or_policy_version r, res_mapping_version = or_mapping_version r\<rparr>))))"

text \<open>The dictionary \<^verbatim>\<open>resolve\<close> returns for what was resolved.\<close>

definition object_entry :: "resolved_object \<Rightarrow> pyval" where
  "object_entry ro =
     (let obj = ro_object ro in
      PDict [(''id'', PStr (od_name obj)), (''label'', PStr (od_label obj)), (''version'', PStr (od_version obj)),
        (''properties'', str_list (ro_properties ro)),
        (''property_definitions'', PList (map (\<lambda>p. PDict
          [(''id'', PStr (pd_name p)), (''label'', PStr (pd_label p)), (''type'', PStr (pd_value_type p)),
           (''unit'', opt_str (pd_unit p)), (''sensitivity'', PStr (pd_sensitivity p)),
           (''filterable'', PBool (pd_filterable p)), (''aggregatable'', PBool (pd_aggregatable p))])
           (ro_property_definitions ro))),
        (''source_refs'', str_list [od_table obj])])"

definition link_entry :: "link_definition \<Rightarrow> pyval" where
  "link_entry l = PDict [(''id'', PStr (ld_name l)), (''version'', PStr (ld_version l)),
     (''from_object'', PStr (ld_from_object l)), (''to_object'', PStr (ld_to_object l)),
     (''from_field'', PStr (ld_from_field l)), (''to_field'', PStr (ld_to_field l)),
     (''cardinality'', PStr (ld_cardinality l))]"

definition metric_entry :: "metric_definition \<Rightarrow> pyval" where
  "metric_entry m = PDict [(''id'', PStr (md_name m)), (''label'', PStr (md_label m)),
     (''version'', PStr (md_version m)), (''unit'', opt_str (md_unit m)), (''grain'', opt_str (md_grain m)),
     (''time_semantics'', opt_str (md_time_semantics m)), (''dimensions'', str_list (md_dimensions m)),
     (''filters'', str_list (md_filters m)), (''source_refs'', str_list (md_source_refs m))]"

definition action_entry :: "action_definition \<Rightarrow> pyval" where
  "action_entry a = PDict [(''id'', PStr (ad_name a)), (''label'', PStr (ad_label a)),
     (''version'', PStr (ad_version a)), (''target_type'', PStr (ad_target_type a)),
     (''approval_required'', PBool (ad_approval_required a))]"

definition resolve ::
  "ontology_registry \<Rightarrow> string \<Rightarrow> authorization_context option \<Rightarrow> candidates \<Rightarrow> ontology_error + pyval" where
  "resolve r question auth cands =
     ebind (resolve_question r question auth cands) (\<lambda>res.
     Inr (PDict [(''ontology_version'', PStr (res_ontology_version res)),
       (''objects'', PList (map object_entry (res_objects res))),
       (''links'', PList (map link_entry (res_links res))),
       (''metrics'', PList (map metric_entry (res_metrics res))),
       (''actions'', PList (map action_entry (res_actions res))),
       (''policy_version'', PStr (res_policy_version res)),
       (''mapping_version'', PStr (res_mapping_version res))]))"

section \<open>Well-formed registries\<close>

definition has_property :: "object_definition \<Rightarrow> string \<Rightarrow> bool" where
  "has_property obj p \<longleftrightarrow> dget (od_properties obj) p \<noteq> None"

definition wf_object :: "string \<Rightarrow> object_definition \<Rightarrow> bool" where
  "wf_object k obj \<longleftrightarrow> od_name obj = k \<and> safe_name k \<and> safe_name (od_table obj) \<and>
     wf_dict (od_properties obj) \<and> has_property obj (od_id_field obj) \<and>
     (\<forall>(p, q) \<in> set (od_properties obj). pd_name q = p \<and> safe_name p \<and> safe_name (pd_column q))"

definition wf_metric :: "(string, object_definition) dict \<Rightarrow> string \<Rightarrow> metric_definition \<Rightarrow> bool" where
  "wf_metric objects k m \<longleftrightarrow> md_name m = k \<and> safe_name k \<and> md_aggregation m \<in> set aggregations \<and>
     (md_aggregation m \<noteq> ''count'' \<longrightarrow> md_field m \<noteq> None) \<and>
     (\<exists>obj. dget objects (md_object_type m) = Some obj \<and>
        (\<forall>f. md_field m = Some f \<longrightarrow>
           (\<exists>p. dget (od_properties obj) f = Some p \<and> pd_aggregatable p)) \<and>
        (\<forall>f \<in> set (md_dimensions m). has_property obj f) \<and>
        (\<forall>f \<in> set (md_filters m). \<exists>p. dget (od_properties obj) f = Some p \<and> pd_filterable p))"

definition wf_executor :: "(string, pyval) dict \<Rightarrow> bool" where
  "wf_executor e \<longleftrightarrow> (\<exists>method path fields.
     dget e ''type'' = Some (PStr ''domain_api'') \<and> dget e ''method'' = Some (PStr method) \<and>
     dget e ''path'' = Some (PStr path) \<and> dget e ''result_fields'' = Some (str_list fields) \<and>
     method \<in> set [''POST'', ''PUT'', ''PATCH'', ''DELETE''] \<and> starts_with path ''/'' \<and>
     \<not> starts_with path ''//'' \<and> str_count target_placeholder path = 1 \<and>
     distinct fields \<and> length fields \<le> 50 \<and> list_all safe_name fields)"

definition wf_action :: "(string, object_definition) dict \<Rightarrow> string \<Rightarrow> action_definition \<Rightarrow> bool" where
  "wf_action objects k a \<longleftrightarrow> ad_name a = k \<and> safe_name k \<and>
     ad_scope_dimension a \<in> set [''site'', ''project''] \<and>
     wf_dict (ad_parameters a) \<and>
     (\<forall>p \<in> set (dvals (ad_parameters a)). prm_value_type p \<in> set [''string'', ''number'', ''boolean'']) \<and>
     (\<exists>obj. dget objects (ad_target_type a) = Some obj \<and>
        (\<forall>pc \<in> set (ad_preconditions a). has_property obj (pc_field pc) \<and> pc_op pc = ''eq'')) \<and>
     wf_executor (ad_executor a) \<and>
     (case ad_compensation a of None \<Rightarrow> True | Some c \<Rightarrow> wf_executor c)"

definition wf_link :: "(string, object_definition) dict \<Rightarrow> link_definition \<Rightarrow> bool" where
  "wf_link objects l \<longleftrightarrow> ld_cardinality l \<in> set cardinalities \<and>
     (\<exists>f t. dget objects (ld_from_object l) = Some f \<and> dget objects (ld_to_object l) = Some t \<and>
        has_property f (ld_from_field l) \<and> has_property t (ld_to_field l))"

definition wf_registry :: "ontology_registry \<Rightarrow> bool" where
  "wf_registry r \<longleftrightarrow>
     wf_dict (or_objects r) \<and> (\<forall>(k, x) \<in> set (or_objects r). wf_object k x) \<and>
     wf_dict (or_metrics r) \<and> (\<forall>(k, x) \<in> set (or_metrics r). wf_metric (or_objects r) k x) \<and>
     wf_dict (or_actions r) \<and> (\<forall>(k, x) \<in> set (or_actions r). wf_action (or_objects r) k x) \<and>
     wf_dict (or_links r) \<and> (\<forall>x \<in> set (dvals (or_links r)). wf_link (or_objects r) x)"

end
