(* ===== verification/Sql_Scope.thy ===== *)
theory Sql_Scope
  imports Authorization_Context
begin

text \<open>
  The SQL scope guard, \<^verbatim>\<open>deerflow/semantic/sql_scope.py\<close>: reading the table policies, and checking and rewriting one
  query so that it reads nothing outside the caller's authorization. The query is the expression tree the
  third-party parser returns, with of each node what the code looks at; parsing, printing and
  \<^verbatim>\<open>statement.limit(n)\<close> are parameters. A tree is visited breadth first, as \<^verbatim>\<open>walk\<close> and \<^verbatim>\<open>find_all\<close> do.
\<close>

section \<open>Policies\<close>

datatype sql_scope_error = SqlScopeError string | AssertionFailed

record table_scope_policy =
  tp_access :: string
  tp_scope_dimension :: "string option"
  tp_scope_column :: "string option"
  tp_allowed_fields :: "string list option"
  tp_hidden_fields :: "string list"
  tp_masked_fields :: "string list"
  tp_aggregate_only_fields :: "string list"

record sql_scope_policy_registry =
  sr_version :: string
  sr_tables :: "(string, table_scope_policy) dict"

definition access_modes :: "string list" where
  "access_modes = [''scoped'', ''reference'', ''forbidden'']"

definition scope_dimensions :: "string list" where
  "scope_dimensions = [''site'', ''project'']"

text \<open>\<^verbatim>\<open>frozenset(str(item).strip() for item in items)\<close>, as a list.\<close>

definition field_set :: "pyval list \<Rightarrow> string list" where
  "field_set items = map (\<lambda>item. str_strip (py_str item)) items"

definition overlaps :: "string list \<Rightarrow> string list \<Rightarrow> bool" where
  "overlaps xs ys \<longleftrightarrow> list_ex (\<lambda>x. x \<in> set ys) xs"

definition policy_from_mapping :: "string \<Rightarrow> (string, pyval) dict \<Rightarrow> sql_scope_error + table_scope_policy" where
  "policy_from_mapping table_name value =
     (let fails = (\<lambda>why. Inl (SqlScopeError (''Table '' @ repr_str table_name @ why)));
          access = str_lower (str_strip (str_or (get_key value ''access'') ''''));
          dimension = (if is_none (get_key value ''scope_dimension'') then None
             else Some (str_lower (str_strip (py_str (get_key value ''scope_dimension'')))));
          column = (if is_none (get_key value ''scope_column'') then None
             else Some (str_strip (py_str (get_key value ''scope_column''))))
      in if access \<notin> set access_modes then fails '' has invalid access policy''
      else if access = ''scoped'' \<and>
              ((case dimension of None \<Rightarrow> True | Some d \<Rightarrow> d \<notin> set scope_dimensions) \<or> (case column of None \<Rightarrow> True | Some c \<Rightarrow> c = ''''))
      then fails '' requires scope_dimension and scope_column''
      else
        case (list_of (get_or value ''hidden_fields'' (PList [])), list_of (get_or value ''masked_fields'' (PList [])),
              list_of (get_or value ''aggregate_only_fields'' (PList []))) of
          (Some hidden, Some masked, Some aggregate_only) \<Rightarrow>
            let h = field_set hidden; m = field_set masked; a = field_set aggregate_only in
            if overlaps h m \<or> overlaps h a \<or> overlaps m a then fails '' field classifications must not overlap''
            else Inr \<lparr>tp_access = access, tp_scope_dimension = dimension, tp_scope_column = column,
                   tp_allowed_fields = map_option field_set (list_of (get_key value ''allowed_fields'')),
                   tp_hidden_fields = h, tp_masked_fields = m, tp_aggregate_only_fields = a\<rparr>
        | _ \<Rightarrow> fails '' field classifications must be lists'')"

definition policies_from_mapping ::
  "(string, pyval) dict \<Rightarrow> sql_scope_error + (string, table_scope_policy) dict" where
  "policies_from_mapping tables =
     efold (\<lambda>parsed (name, policy).
       case dict_of policy of
         None \<Rightarrow> Inr parsed
       | Some d \<Rightarrow> ebind (policy_from_mapping name d) (\<lambda>p. Inr (dset (str_lower (str_strip name)) p parsed))) [] tables"

definition policy_registry_from_mapping :: "(string, pyval) dict \<Rightarrow> sql_scope_error + sql_scope_policy_registry" where
  "policy_registry_from_mapping value =
     (let version = str_strip (str_or (get_key value ''version'') '''') in
      case dict_of (get_key value ''tables'') of
        None \<Rightarrow> Inl (SqlScopeError ''SQL scope policy requires version and tables'')
      | Some tables \<Rightarrow>
          if version = '''' then Inl (SqlScopeError ''SQL scope policy requires version and tables'')
          else ebind (policies_from_mapping tables) (\<lambda>parsed. Inr \<lparr>sr_version = version, sr_tables = parsed\<rparr>))"

text \<open>\<open>loaded\<close> is what \<^verbatim>\<open>yaml.safe_load\<close> read from the file.\<close>

definition policy_registry_from_file :: "pyval \<Rightarrow> sql_scope_error + sql_scope_policy_registry" where
  "policy_registry_from_file loaded =
     (if \<not> truthy loaded then policy_registry_from_mapping []
      else case dict_of loaded of
        None \<Rightarrow> Inl (SqlScopeError ''SQL scope policy must be a mapping'')
      | Some value \<Rightarrow> policy_registry_from_mapping value)"

definition policy_for :: "sql_scope_policy_registry \<Rightarrow> string \<Rightarrow> sql_scope_error + table_scope_policy" where
  "policy_for registry table_name =
     (case dget (sr_tables registry) (str_lower table_name) of
        None \<Rightarrow> Inl (SqlScopeError (''Table '' @ repr_str table_name @ '' is not allowed by SQL scope policy''))
      | Some policy \<Rightarrow>
          if tp_access policy = ''forbidden''
          then Inl (SqlScopeError (''Table '' @ repr_str table_name @ '' is not allowed by SQL scope policy''))
          else Inr policy)"

definition visible_tables :: "sql_scope_policy_registry \<Rightarrow> string list" where
  "visible_tables registry =
     sort (dkeys (filter (\<lambda>(_, policy). tp_access policy \<noteq> ''forbidden'') (sr_tables registry)))"

section \<open>Expression trees\<close>

text \<open>Of a table its database, name and alias (empty if there is none); of a column its qualifier, the qualifier as
  printed and its name; of a literal its value when it is an integer. Every other node has the name of its class,
  whether it is a query, its name when it is a function, and whether that is an aggregate.\<close>

datatype sql_head =
    Sql_Table string string string
  | Sql_Column string string string
  | Sql_Star
  | Sql_CTE string
  | Sql_Limit
  | Sql_Offset
  | Sql_Literal "int option"
  | Sql_Placeholder string
  | Sql_In
  | Sql_Where
  | Sql_From
  | Sql_Select
  | Sql_Subquery string
  | Sql_Other string bool "string option" bool

datatype sql = Node sql_head "sql list"

fun node_class :: "sql_head \<Rightarrow> string" where
  "node_class (Sql_Table _ _ _) = ''Table''"
| "node_class (Sql_Column _ _ _) = ''Column''"
| "node_class Sql_Star = ''Star''"
| "node_class (Sql_CTE _) = ''CTE''"
| "node_class Sql_Limit = ''Limit''"
| "node_class Sql_Offset = ''Offset''"
| "node_class (Sql_Literal _) = ''Literal''"
| "node_class (Sql_Placeholder _) = ''Placeholder''"
| "node_class Sql_In = ''In''"
| "node_class Sql_Where = ''Where''"
| "node_class Sql_From = ''From''"
| "node_class Sql_Select = ''Select''"
| "node_class (Sql_Subquery _) = ''Subquery''"
| "node_class (Sql_Other c _ _ _) = c"

definition is_query :: "sql_head \<Rightarrow> bool" where
  "is_query h = (case h of Sql_Select \<Rightarrow> True | Sql_Subquery _ \<Rightarrow> True | Sql_Other _ q _ _ \<Rightarrow> q | _ \<Rightarrow> False)"

definition function_name :: "sql_head \<Rightarrow> string option" where
  "function_name h = (case h of Sql_Other _ _ f _ \<Rightarrow> f | _ \<Rightarrow> None)"

definition is_aggregate :: "sql_head \<Rightarrow> bool" where
  "is_aggregate h = (case h of Sql_Other _ _ _ a \<Rightarrow> a | _ \<Rightarrow> False)"

type_synonym path = "nat list"
type_synonym visited = "path \<times> sql_head list \<times> sql"

text \<open>Each node is visited with its position and its ancestors, the parent first.\<close>

definition children :: "path \<Rightarrow> sql_head list \<Rightarrow> sql_head \<Rightarrow> sql list \<Rightarrow> visited list" where
  "children p ancestors h cs = map (\<lambda>(i, c). (p @ [i], h # ancestors, c)) (enumerate 0 cs)"

lemma size_children: "sum_list (map (\<lambda>(_, _, t). Suc (size t)) (children p anc h cs)) = size_list size cs"
proof -
  have "sum_list (map (\<lambda>(_, _, t). Suc (size t)) (map (\<lambda>(i, c). (p @ [i], h # anc, c)) (enumerate n cs))) = size_list size cs" for n
    by (induction cs arbitrary: n) auto
  then show ?thesis by (simp add: children_def)
qed

function walk :: "visited list \<Rightarrow> visited list" where
  "walk [] = []"
| "walk ((p, ancestors, Node h cs) # queue) = (p, ancestors, Node h cs) # walk (queue @ children p ancestors h cs)"
  by pat_completeness auto
termination
  by (relation "measure (\<lambda>queue. sum_list (map (\<lambda>(_, _, t). Suc (size t)) queue))") (auto simp: size_children)

definition walk_statement :: "sql \<Rightarrow> visited list" where
  "walk_statement statement = walk [([], [], statement)]"


section \<open>The guard\<close>

definition max_query_limit :: int where "max_query_limit = 1000"
definition max_query_offset :: int where "max_query_offset = 10000"

definition system_databases :: "string list" where
  "system_databases = [''mysql'', ''information_schema'', ''performance_schema'', ''sys'']"

definition forbidden_select_nodes :: "string list" where
  "forbidden_select_nodes =
     [''Command'', ''CurrentCatalog'', ''CurrentRole'', ''CurrentSchema'', ''CurrentUser'', ''Hint'', ''Into'', ''Lock'',
      ''Parameter'', ''PropertyEQ'', ''SessionParameter'', ''Transaction'', ''Use'']"

definition forbidden_functions :: "string list" where
  "forbidden_functions =
     [''benchmark'', ''connection_id'', ''current_catalog'', ''current_role'', ''current_schema'', ''current_user'',
      ''database'', ''get_lock'', ''is_free_lock'', ''is_used_lock'', ''last_insert_id'', ''load_file'',
      ''master_pos_wait'', ''release_all_locks'', ''release_lock'', ''row_count'', ''schema'', ''session_user'',
      ''sleep'', ''system_user'', ''sys_eval'', ''sys_exec'', ''user'', ''version'', ''found_rows'']"

definition check_node :: "visited \<Rightarrow> sql_scope_error + unit" where
  "check_node v =
     (case v of (_, _, Node h _) \<Rightarrow>
        if node_class h \<in> set forbidden_select_nodes
        then Inl (SqlScopeError (''SQL construct '' @ repr_str (node_class h) @ '' is not allowed''))
        else
          case function_name h of
            None \<Rightarrow> Inr ()
          | Some f \<Rightarrow>
              if str_lower f \<in> set forbidden_functions
              then Inl (SqlScopeError (''SQL function '' @ repr_str (str_lower f) @ '' is not allowed''))
              else Inr ())"

definition cte_names :: "visited list \<Rightarrow> string list" where
  "cte_names vs =
     List.map_filter (\<lambda>v. case v of (_, _, Node (Sql_CTE a) _) \<Rightarrow> Some (str_lower a) | _ \<Rightarrow> None) vs"

record table_node =
  tn_path :: path
  tn_db :: string
  tn_name :: string
  tn_alias :: string

definition alias_or_name :: "table_node \<Rightarrow> string" where
  "alias_or_name t = (if tn_alias t = '''' then tn_name t else tn_alias t)"

definition as_table :: "visited \<Rightarrow> table_node option" where
  "as_table v = (case v of
       (p, _, Node (Sql_Table db name alias) _) \<Rightarrow> Some \<lparr>tn_path = p, tn_db = db, tn_name = name, tn_alias = alias\<rparr>
     | _ \<Rightarrow> None)"

definition table_nodes :: "visited list \<Rightarrow> table_node list" where
  "table_nodes vs =
     filter (\<lambda>t. tn_db t \<noteq> '''' \<or> str_lower (tn_name t) \<notin> set (cte_names vs)) (List.map_filter as_table vs)"

definition scope_values :: "authorization_context \<Rightarrow> string \<Rightarrow> sql_scope_error + string list" where
  "scope_values context dimension =
     (if ac_scope_mode context = ''tenant_all'' then Inr []
      else if ac_scope_mode context = ''none'' then Inl (SqlScopeError ''Authorization scope denies data access'')
      else if ac_scope_mode context = ''scope_ref''
      then Inl (SqlScopeError ''scope_ref must be resolved before SQL execution'')
      else
        let ids = (if dimension = ''site'' then ac_allowed_site_ids context else ac_allowed_project_ids context) in
        if ids = [] then Inl (SqlScopeError (''Authorization scope contains no '' @ dimension @ '' resources''))
        else Inr ids)"

definition authorize_table ::
  "sql_scope_policy_registry \<Rightarrow> string list \<Rightarrow> table_node \<Rightarrow> sql_scope_error + table_scope_policy" where
  "authorize_table registry allowed_databases t =
     (let database = str_lower (tn_db t) in
      if database \<noteq> '''' \<and> (database \<in> set system_databases \<or> database \<notin> set (map str_lower allowed_databases))
      then Inl (SqlScopeError (''Database '' @ repr_str (tn_db t) @ '' is not allowed''))
      else policy_for registry (str_lower (tn_name t)))"

text \<open>\<^verbatim>\<open>aliases[alias] = policy; aliases.setdefault(name, policy)\<close>, table by table.\<close>

definition add_alias ::
  "table_node \<times> table_scope_policy \<Rightarrow> (string, table_scope_policy) dict \<Rightarrow> (string, table_scope_policy) dict" where
  "add_alias tp aliases =
     (let (t, policy) = tp;
          aliases1 = dset (str_lower (alias_or_name t)) policy aliases;
          name = str_lower (tn_name t)
      in case dget aliases1 name of None \<Rightarrow> dset name policy aliases1 | Some _ \<Rightarrow> aliases1)"

definition alias_table :: "(table_node \<times> table_scope_policy) list \<Rightarrow> (string, table_scope_policy) dict" where
  "alias_table tps = fold add_alias tps []"

definition inside_aggregate :: "sql_head list \<Rightarrow> bool" where
  "inside_aggregate ancestors = list_ex is_aggregate (takeWhile (\<lambda>h. h \<noteq> Sql_Select) ancestors)"

definition candidates :: "(string, table_scope_policy) dict \<Rightarrow> string \<Rightarrow> table_scope_policy list" where
  "candidates aliases qualifier =
     (case dget aliases qualifier of Some policy \<Rightarrow> [policy] | None \<Rightarrow> dvals aliases)"

definition restricts_fields :: "table_scope_policy \<Rightarrow> bool" where
  "restricts_fields p \<longleftrightarrow> tp_hidden_fields p \<noteq> [] \<or> tp_masked_fields p \<noteq> [] \<or> tp_aggregate_only_fields p \<noteq> [] \<or>
     tp_allowed_fields p \<noteq> None"

definition check_star :: "(string, table_scope_policy) dict \<Rightarrow> visited \<Rightarrow> sql_scope_error + unit" where
  "check_star aliases v =
     (case v of
        (_, ancestors, Node Sql_Star _) \<Rightarrow>
          let table_name = (case ancestors of Sql_Column _ printed _ # _ \<Rightarrow> str_lower printed | _ \<Rightarrow> '''') in
          if \<not> inside_aggregate ancestors \<and> list_ex restricts_fields (candidates aliases table_name)
          then Inl (SqlScopeError ''SELECT * is not allowed for field-restricted tables'')
          else Inr ()
      | _ \<Rightarrow> Inr ())"

definition check_column :: "(string, table_scope_policy) dict \<Rightarrow> visited \<Rightarrow> sql_scope_error + unit" where
  "check_column aliases v =
     (case v of
        (_, ancestors, Node (Sql_Column qualifier _ column) _) \<Rightarrow>
          let name = str_lower column;
              ps = candidates aliases (str_lower qualifier);
              fails = (\<lambda>why. Inl (SqlScopeError (''Field '' @ repr_str name @ why)))
          in if list_ex (\<lambda>p. name \<in> set (tp_hidden_fields p)) ps then fails '' is hidden by SQL scope policy''
             else if list_ex (\<lambda>p. name \<in> set (tp_masked_fields p)) ps
             then fails '' is masked and cannot be selected by SQL agents''
             else if list_ex (\<lambda>p. name \<in> set (tp_aggregate_only_fields p)) ps \<and> \<not> inside_aggregate ancestors
             then fails '' is aggregate-only by SQL scope policy''
             else if list_ex (\<lambda>p. case tp_allowed_fields p of None \<Rightarrow> False | Some fs \<Rightarrow> name \<notin> set fs) ps
             then fails '' is not allowed by SQL scope policy''
             else Inr ()
      | _ \<Rightarrow> Inr ())"

definition validate_columns :: "visited list \<Rightarrow> (string, table_scope_policy) dict \<Rightarrow> sql_scope_error + unit" where
  "validate_columns vs aliases =
     ebind (emap (check_star aliases) vs) (\<lambda>_. ebind (emap (check_column aliases) vs) (\<lambda>_. Inr ()))"


text \<open>The predicate of a scoped table: its column and the named parameters \<^verbatim>\<open>scope_<index>_<n>\<close> with their values.\<close>

record scope_predicate =
  sp_path :: path
  sp_column :: string
  sp_parameters :: "(string, string) dict"

definition parameter_name :: "nat \<Rightarrow> nat \<Rightarrow> string" where
  "parameter_name index n = ''scope_'' @ nat_str index @ ''_'' @ nat_str n"

definition parameterized :: "nat \<Rightarrow> string list \<Rightarrow> (string, string) dict" where
  "parameterized index ids = map (\<lambda>(n, v). (parameter_name index n, v)) (enumerate 0 ids)"

definition needs_scope :: "authorization_context \<Rightarrow> table_scope_policy \<Rightarrow> bool" where
  "needs_scope authorization policy \<longleftrightarrow> tp_access policy = ''scoped'' \<and> ac_scope_mode authorization \<noteq> ''tenant_all''"



definition scope_predicates ::
  "authorization_context \<Rightarrow> (table_node \<times> table_scope_policy) list \<Rightarrow> sql_scope_error + scope_predicate list" where
  "scope_predicates authorization tps =
     emap (\<lambda>(index, t, policy).
         case (tp_scope_dimension policy, tp_scope_column policy) of
           (Some dimension, Some column) \<Rightarrow>
             ebind (scope_values authorization dimension) (\<lambda>ids.
             Inr \<lparr>sp_path = tn_path t, sp_column = column, sp_parameters = parameterized index ids\<rparr>)
         | _ \<Rightarrow> Inl AssertionFailed)
       (filter (\<lambda>(_, _, policy). needs_scope authorization policy) (enumerate 0 tps))"

text \<open>\<^verbatim>\<open>(SELECT * FROM source WHERE column IN (:p, ...)) AS alias\<close>.\<close>

definition scoped_source :: "string \<Rightarrow> sql \<Rightarrow> string \<Rightarrow> string list \<Rightarrow> sql" where
  "scoped_source alias source column names =
     Node (Sql_Subquery alias)
       [Node Sql_Select
          [Node Sql_Star [], Node Sql_From [source],
           Node Sql_Where [Node Sql_In (Node (Sql_Column '''' '''' column) [] # map (\<lambda>n. Node (Sql_Placeholder n) []) names)]]]"

text \<open>Replacing the scoped tables. The source is a copy of the table without its alias; what is below a table that
  was replaced is in the copy, where later replacements do not reach it.\<close>

fun rewrite :: "(path \<Rightarrow> scope_predicate option) \<Rightarrow> path \<Rightarrow> sql \<Rightarrow> sql"
  and rewrite_list :: "(path \<Rightarrow> scope_predicate option) \<Rightarrow> path \<Rightarrow> nat \<Rightarrow> sql list \<Rightarrow> sql list" where
  "rewrite predicate p (Node h cs) =
     (case (h, predicate p) of
        (Sql_Table db name alias, Some sp) \<Rightarrow>
          scoped_source (if alias = '''' then name else alias) (Node (Sql_Table db name '''') cs)
            (sp_column sp) (dkeys (sp_parameters sp))
      | _ \<Rightarrow> Node h (rewrite_list predicate p 0 cs))"
| "rewrite_list predicate p i [] = []"
| "rewrite_list predicate p i (c # cs) = rewrite predicate (p @ [i]) c # rewrite_list predicate p (Suc i) cs"

definition predicate_at :: "scope_predicate list \<Rightarrow> path \<Rightarrow> scope_predicate option" where
  "predicate_at sps p = find (\<lambda>sp. sp_path sp = p) sps"

definition scope_statement :: "scope_predicate list \<Rightarrow> sql \<Rightarrow> sql" where
  "scope_statement sps statement = rewrite (predicate_at sps) [] statement"

definition bound_limit :: "int \<Rightarrow> int" where
  "bound_limit limit = max 1 (min limit max_query_limit)"

text \<open>The integer of a \<^verbatim>\<open>LIMIT\<close> or \<^verbatim>\<open>OFFSET\<close>: its expression is its first child.\<close>

definition fixed_integer :: "sql list \<Rightarrow> int option" where
  "fixed_integer cs = (case cs of Node (Sql_Literal (Some n)) _ # _ \<Rightarrow> Some n | _ \<Rightarrow> None)"

definition check_limit :: "visited \<Rightarrow> sql_scope_error + unit" where
  "check_limit v =
     (case v of
        (_, _, Node Sql_Limit cs) \<Rightarrow>
          if fixed_integer cs = None then Inl (SqlScopeError ''LIMIT must be a fixed integer'') else Inr ()
      | _ \<Rightarrow> Inr ())"

definition check_offset :: "visited \<Rightarrow> sql_scope_error + unit" where
  "check_offset v =
     (case v of
        (_, _, Node Sql_Offset cs) \<Rightarrow>
          (case fixed_integer cs of
             None \<Rightarrow> Inl (SqlScopeError ''OFFSET must be a fixed integer'')
           | Some n \<Rightarrow> if n > max_query_offset then Inl (SqlScopeError (''OFFSET exceeds '' @ int_str max_query_offset)) else Inr ())
      | _ \<Rightarrow> Inr ())"

definition cap :: "int \<Rightarrow> sql_head \<Rightarrow> sql list \<Rightarrow> sql list" where
  "cap bound h cs =
     (case fixed_integer cs of
        Some n \<Rightarrow> if h = Sql_Limit \<and> n > bound then Node (Sql_Literal (Some bound)) [] # tl cs else cs
      | None \<Rightarrow> cs)"

fun cap_limits :: "int \<Rightarrow> sql \<Rightarrow> sql" where
  "cap_limits bound (Node h cs) = Node h (cap bound h (map (cap_limits bound) cs))"

text \<open>\<^verbatim>\<open>statement.args.get("limit")\<close>: the slot holds a \<^verbatim>\<open>LIMIT\<close>, or a \<^verbatim>\<open>FETCH FIRST\<close>.\<close>

definition has_limit :: "sql \<Rightarrow> bool" where
  "has_limit t = (case t of Node _ cs \<Rightarrow> list_ex (\<lambda>c. case c of Node h _ \<Rightarrow> h = Sql_Limit \<or> node_class h = ''Fetch'') cs)"

record scoped_query =
  sq_statement :: sql
  sq_parameters :: "(string, string) dict"
  sq_referenced_tables :: "string list"
  sq_policy_version :: string
  sq_scope_hash :: string
  sq_referenced_fields :: "string list"
  sq_scope_predicates_applied :: nat

definition column_names :: "visited list \<Rightarrow> string list" where
  "column_names vs =
     List.map_filter (\<lambda>v. case v of (_, _, Node (Sql_Column _ _ c) _) \<Rightarrow> Some (str_lower c) | _ \<Rightarrow> None) vs"

definition sorted_set :: "string list \<Rightarrow> string list" where
  "sorted_set xs = sort (remdups xs)"

text \<open>\<open>parsed\<close> is the result of \<^verbatim>\<open>parse(query, read="mysql")\<close>, \<open>None\<close> for a \<^verbatim>\<open>ParseError\<close>; \<open>add_limit\<close> is
  \<^verbatim>\<open>statement.limit(n)\<close>. The query is kept as the tree that \<^verbatim>\<open>statement.sql(...)\<close> prints.\<close>

definition guard_statement ::
  "(sql \<Rightarrow> int \<Rightarrow> sql) \<Rightarrow> sql_scope_policy_registry \<Rightarrow> authorization_context \<Rightarrow> string list \<Rightarrow> int \<Rightarrow> sql
     \<Rightarrow> sql_scope_error + scoped_query" where
  "guard_statement add_limit registry authorization allowed_databases limit statement =
     (let vs = walk_statement statement;
          shadowed = filter (\<lambda>n. dget (sr_tables registry) n \<noteq> None) (cte_names vs) in
      ebind (emap check_node vs) (\<lambda>_.
      if shadowed \<noteq> []
      then Inl (SqlScopeError (''CTE alias shadows SQL policy table: '' @ join_with '', '' (sorted_set shadowed)))
      else if table_nodes vs = []
      then Inl (SqlScopeError ''Query must reference at least one authorized table'')
      else
      ebind (emap (\<lambda>t. ebind (authorize_table registry allowed_databases t) (\<lambda>p. Inr (t, p))) (table_nodes vs)) (\<lambda>tps.
      ebind (validate_columns vs (alias_table tps)) (\<lambda>_.
      ebind (scope_predicates authorization tps) (\<lambda>sps.
      let bound = bound_limit limit;
          scoped = scope_statement sps statement;
          ws = walk_statement scoped in
      ebind (emap check_limit ws) (\<lambda>_.
      ebind (emap check_offset ws) (\<lambda>_.
      let capped = cap_limits bound scoped;
          final = (if has_limit capped then capped else add_limit capped bound)
      in Inr \<lparr>sq_statement = final,
              sq_parameters = fold (\<lambda>sp. fold (\<lambda>(k, v). dset k v) (sp_parameters sp)) sps [],
              sq_referenced_tables = sorted_set (map (\<lambda>(t, _). str_lower (tn_name t)) tps),
              sq_policy_version = sr_version registry,
              sq_scope_hash = ac_scope_hash authorization,
              sq_referenced_fields = sorted_set (column_names (walk_statement final)),
              sq_scope_predicates_applied = length sps\<rparr>)))))))"

definition guard_sql_query ::
  "(string \<Rightarrow> sql list option) \<Rightarrow> (sql \<Rightarrow> int \<Rightarrow> sql) \<Rightarrow> sql_scope_policy_registry \<Rightarrow> authorization_context \<Rightarrow> string list
     \<Rightarrow> int \<Rightarrow> string \<Rightarrow> sql_scope_error + scoped_query" where
  "guard_sql_query parse add_limit registry authorization allowed_databases limit query =
     (case parse query of
        None \<Rightarrow> Inl (SqlScopeError ''SQL could not be parsed'')
      | Some [statement] \<Rightarrow>
          if \<not> (case statement of Node h _ \<Rightarrow> is_query h) then Inl (SqlScopeError ''Only SELECT queries are allowed'')
          else guard_statement add_limit registry authorization allowed_databases limit statement
      | Some _ \<Rightarrow> Inl (SqlScopeError ''Exactly one SQL statement is required''))"

end
