(* ===== verification/Semantic_Query.thy ===== *)
theory Semantic_Query
  imports Ontology Sql_Scope
begin

text \<open>
  The compiler of typed semantic requests, \<^verbatim>\<open>deerflow/semantic/query.py\<close>: filters and orders are read from their
  mappings, objects, properties and metrics are authorized by the ontology, and the statement that is built from
  them goes through the SQL scope guard. A statement is kept as the arguments the code gives to the third-party
  builder; \<open>print\<close> stands for \<^verbatim>\<open>statement.sql(dialect="mysql")\<close>.
\<close>

datatype query_error = Semantic_Error ontology_error | Scope_Error sql_scope_error | Key_Error string | Assertion_Error

section \<open>Filters and orders\<close>

definition filter_operators :: "string list" where
  "filter_operators = [''eq'', ''ne'', ''gt'', ''gte'', ''lt'', ''lte'', ''in'']"

definition max_in_filter_values :: nat where "max_in_filter_values = 100"

record semantic_filter =
  sf_field :: string
  sf_operator :: string
  sf_value :: pyval

definition filter_from_mapping :: "(string, pyval) dict \<Rightarrow> query_error + semantic_filter" where
  "filter_from_mapping value =
     (let field = str_strip (str_or (get_key value ''field'') '''');
          operator = str_lower (str_strip (str_or (get_or value ''op'' (get_key value ''operator'')) ''''))
      in if field = '''' \<or> operator \<notin> set filter_operators
      then Inl (Semantic_Error (OntologyError ''Invalid semantic filter''))
      else Inr \<lparr>sf_field = field, sf_operator = operator, sf_value = get_key value ''value''\<rparr>)"

record semantic_order =
  so_field :: string
  so_direction :: string

definition order_from_mapping :: "(string, pyval) dict \<Rightarrow> query_error + semantic_order" where
  "order_from_mapping value =
     (let field = str_strip (str_or (get_key value ''field'') '''');
          direction = str_lower (str_strip (str_or (get_key value ''direction'') ''asc''))
      in if field = '''' \<or> direction \<notin> set [''asc'', ''desc'']
      then Inl (Semantic_Error (OntologyError ''Invalid semantic order''))
      else Inr \<lparr>so_field = field, so_direction = direction\<rparr>)"

section \<open>Statements\<close>

text \<open>\<^verbatim>\<open>column IN (:p, ...)\<close> or a comparison with a parameter; a column or an aggregate (of all rows, or of a column)
  under its name in the result.\<close>

datatype condition = Column_In string "string list" | Compare string string string

datatype projection = Project_Column string string | Project_Aggregate string "string option" string

record select_statement =
  ss_projections :: "projection list"
  ss_table :: string
  ss_conditions :: "condition list"
  ss_group_by :: "string list"
  ss_order_by :: "(string \<times> bool) list"

definition select_from :: "projection list \<Rightarrow> string \<Rightarrow> select_statement" where
  "select_from projections table =
     \<lparr>ss_projections = projections, ss_table = table, ss_conditions = [], ss_group_by = [], ss_order_by = []\<rparr>"

definition comparison_class :: "string \<Rightarrow> string option" where
  "comparison_class operator =
     dget [(''eq'', ''EQ''), (''ne'', ''NEQ''), (''gt'', ''GT''), (''gte'', ''GTE''), (''lt'', ''LT''), (''lte'', ''LTE'')] operator"

definition item_parameter :: "string \<Rightarrow> nat \<Rightarrow> string" where
  "item_parameter prefix index = prefix @ ''_'' @ nat_str index"

definition condition_for ::
  "string \<Rightarrow> string \<Rightarrow> string \<Rightarrow> pyval \<Rightarrow> query_error + condition \<times> (string, pyval) dict" where
  "condition_for column operator parameter_prefix value =
     (if operator = ''in'' then
        (case list_of value of
           Some (v # vs) \<Rightarrow>
             if length (v # vs) > max_in_filter_values
             then Inl (Semantic_Error (OntologyError ''IN filter exceeds the semantic filter budget''))
             else
               let parameters = map (\<lambda>(index, item). (item_parameter parameter_prefix index, item)) (enumerate 0 (v # vs))
               in Inr (Column_In column (dkeys parameters), parameters)
         | _ \<Rightarrow> Inl (Semantic_Error (OntologyError ''IN filter requires a non-empty list'')))
      else case comparison_class operator of
        None \<Rightarrow> Inl (Key_Error operator)
      | Some c \<Rightarrow> Inr (Compare c column parameter_prefix, [(parameter_prefix, value)]))"

definition filter_prefix :: "nat \<Rightarrow> string" where
  "filter_prefix index = ''filter_'' @ nat_str index"

text \<open>\<^verbatim>\<open>d.update(e)\<close>.\<close>

definition dict_update :: "('k, 'v) dict \<Rightarrow> ('k, 'v) dict \<Rightarrow> ('k, 'v) dict" where
  "dict_update e d = fold (\<lambda>(k, v). dset k v) e d"

definition apply_filter ::
  "object_definition \<Rightarrow> string list option \<Rightarrow> select_statement \<times> (string, pyval) dict \<Rightarrow> nat \<times> semantic_filter
     \<Rightarrow> query_error + select_statement \<times> (string, pyval) dict" where
  "apply_filter obj allowed_fields = (\<lambda>(statement, parameters) (index, f).
     if (case allowed_fields of None \<Rightarrow> False | Some fs \<Rightarrow> sf_field f \<notin> set fs)
     then Inl (Semantic_Error (OntologyError (''Filter '' @ repr_str (sf_field f) @ '' is not allowed'')))
     else
     ebind (recast Semantic_Error (object_property obj (sf_field f))) (\<lambda>prop.
     if \<not> pd_filterable prop
     then Inl (Semantic_Error (OntologyError (''Property '' @ repr_str (sf_field f) @ '' is not filterable'')))
     else
     ebind (condition_for (pd_column prop) (sf_operator f) (filter_prefix index) (sf_value f)) (\<lambda>(condition, values).
     Inr (statement\<lparr>ss_conditions := ss_conditions statement @ [condition]\<rparr>, dict_update values parameters))))"

definition apply_filters ::
  "select_statement \<Rightarrow> object_definition \<Rightarrow> semantic_filter list \<Rightarrow> string list option
     \<Rightarrow> query_error + select_statement \<times> (string, pyval) dict" where
  "apply_filters statement obj filters allowed_fields =
     efold (apply_filter obj allowed_fields) (statement, []) (enumerate 0 filters)"

section \<open>Compiled queries\<close>

text \<open>\<open>cq_parameters\<close> replaces the parameters of \<open>cq_scoped_query\<close>.\<close>

record compiled_semantic_query =
  cq_scoped_query :: scoped_query
  cq_parameters :: "(string, pyval) dict"
  cq_columns :: "string list"
  cq_ontology_version :: string
  cq_semantic_kind :: string
  cq_semantic_id :: string
  cq_semantic_version :: string
  cq_semantic_ids :: "string list"
  cq_semantic_versions :: "(string, string) dict"

text \<open>The outside of the compiler: printing, parsing and limiting statements, the policies of the guard and the databases it
  allows.\<close>

record sql_environment =
  env_print :: "select_statement \<Rightarrow> string"
  env_parse :: "string \<Rightarrow> sql list option"
  env_add_limit :: "sql \<Rightarrow> int \<Rightarrow> sql"
  env_policies :: sql_scope_policy_registry
  env_databases :: "string list"

definition guard_select ::
  "sql_environment \<Rightarrow> authorization_context \<Rightarrow> int \<Rightarrow> select_statement \<Rightarrow> query_error + scoped_query" where
  "guard_select env authorization limit statement =
     recast Scope_Error (guard_sql_query (env_parse env) (env_add_limit env) (env_policies env) authorization
       (env_databases env) limit (env_print env statement))"

definition merge_parameters :: "(string, pyval) dict \<Rightarrow> scoped_query \<Rightarrow> (string, pyval) dict" where
  "merge_parameters parameters scoped = dict_update (map (\<lambda>(k, v). (k, PStr v)) (sq_parameters scoped)) parameters"

definition object_filters :: "object_definition \<Rightarrow> semantic_filter list \<Rightarrow> string option \<Rightarrow> semantic_filter list" where
  "object_filters obj filters object_id =
     filters @ (case object_id of None \<Rightarrow> []
       | Some i \<Rightarrow> [\<lparr>sf_field = od_id_field obj, sf_operator = ''eq'', sf_value = PStr i\<rparr>])"

definition selected_properties ::
  "object_definition \<Rightarrow> authorization_context \<Rightarrow> string list option \<Rightarrow> string list" where
  "selected_properties obj authorization properties =
     (case properties of
        None \<Rightarrow> map fst (filter (\<lambda>(_, p). role_allowed (pd_allowed_roles p) authorization) (od_properties obj))
      | Some ps \<Rightarrow> ps)"

definition object_statement ::
  "ontology_registry \<Rightarrow> authorization_context \<Rightarrow> string \<Rightarrow> semantic_filter list \<Rightarrow> string list option \<Rightarrow> string option
     \<Rightarrow> query_error + object_definition \<times> string list \<times> select_statement \<times> (string, pyval) dict" where
  "object_statement registry authorization object_type filters properties object_id =
     ebind (recast Semantic_Error (authorize_object registry object_type authorization)) (\<lambda>obj.
     let selected = selected_properties obj authorization properties in
     if selected = [] then Inl (Semantic_Error (OntologyError ''Object query requires at least one property''))
     else
     ebind (emap (\<lambda>name. ebind (recast Semantic_Error (authorize_property registry (od_name obj) name authorization)) (\<lambda>prop.
         Inr (Project_Column (pd_column prop) name))) selected) (\<lambda>expressions.
     let query_filters = object_filters obj filters object_id in
     ebind (emap (\<lambda>f. recast Semantic_Error (authorize_property registry (od_name obj) (sf_field f) authorization)) query_filters) (\<lambda>_.
     ebind (apply_filters (select_from expressions (od_table obj)) obj query_filters None) (\<lambda>(statement, parameters).
     Inr (obj, selected, statement, parameters)))))"

definition compile_object_query ::
  "sql_environment \<Rightarrow> ontology_registry \<Rightarrow> authorization_context \<Rightarrow> string \<Rightarrow> semantic_filter list \<Rightarrow> string list option
     \<Rightarrow> string option \<Rightarrow> int \<Rightarrow> query_error + compiled_semantic_query" where
  "compile_object_query env registry authorization object_type filters properties object_id limit =
     ebind (object_statement registry authorization object_type filters properties object_id) (\<lambda>(obj, selected, statement, parameters).
     ebind (guard_select env authorization limit statement) (\<lambda>scoped.
     Inr \<lparr>cq_scoped_query = scoped, cq_parameters = merge_parameters parameters scoped, cq_columns = selected,
          cq_ontology_version = or_version registry, cq_semantic_kind = ''object'', cq_semantic_id = od_name obj,
          cq_semantic_version = or_version registry, cq_semantic_ids = [od_name obj],
          cq_semantic_versions = [(od_name obj, od_version obj)]\<rparr>))"

section \<open>Metrics\<close>

definition aggregate_class :: "string \<Rightarrow> string option" where
  "aggregate_class aggregation = dget [(''sum'', ''Sum''), (''avg'', ''Avg''), (''min'', ''Min''), (''max'', ''Max'')] aggregation"

definition aggregate :: "metric_definition \<Rightarrow> object_definition \<Rightarrow> query_error + projection" where
  "aggregate metric obj =
     (if md_aggregation metric = ''count'' then Inr (Project_Aggregate ''Count'' None (md_name metric))
      else case md_field metric of
        None \<Rightarrow> Inl Assertion_Error
      | Some field \<Rightarrow>
          ebind (recast Semantic_Error (object_property obj field)) (\<lambda>prop.
          case aggregate_class (md_aggregation metric) of
            None \<Rightarrow> Inl (Key_Error (md_aggregation metric))
          | Some c \<Rightarrow> Inr (Project_Aggregate c (Some (pd_column prop)) (md_name metric))))"

text \<open>What every one of the metrics allows, from the first metric on.\<close>

definition common :: "(metric_definition \<Rightarrow> string list) \<Rightarrow> metric_definition list \<Rightarrow> string list" where
  "common f metrics =
     (case metrics of [] \<Rightarrow> [] | m # ms \<Rightarrow> filter (\<lambda>x. list_all (\<lambda>n. x \<in> set (f n)) ms) (f m))"

definition add_orders ::
  "string list \<Rightarrow> semantic_order list \<Rightarrow> select_statement \<Rightarrow> query_error + select_statement" where
  "add_orders allowed_order_fields order_by statement =
     efold (\<lambda>st order.
       if so_field order \<notin> set allowed_order_fields
       then Inl (Semantic_Error (OntologyError (''Metric order field '' @ repr_str (so_field order) @ '' is not allowed'')))
       else Inr (st\<lparr>ss_order_by := ss_order_by st @ [(so_field order, so_direction order = ''desc'')]\<rparr>)) statement order_by"

definition authorized_metrics ::
  "ontology_registry \<Rightarrow> authorization_context \<Rightarrow> string list \<Rightarrow> query_error + string list \<times> metric_definition list \<times> object_definition" where
  "authorized_metrics registry authorization metric_ids =
     (let unique_metric_ids = from_keys (filter (\<lambda>i. i \<noteq> '''') (map str_strip metric_ids)) in
      if unique_metric_ids = [] then Inl (Semantic_Error (OntologyError ''Metric query requires at least one metric''))
      else if length unique_metric_ids > 10 then Inl (Semantic_Error (OntologyError ''Metric query exceeds the metric budget''))
      else
      ebind (emap (\<lambda>i. recast Semantic_Error (authorize_metric registry i authorization)) unique_metric_ids) (\<lambda>metrics.
      if length (remdups (map md_object_type metrics)) \<noteq> 1
      then Inl (Semantic_Error (OntologyError ''Metrics from different object types cannot share one query''))
      else
      ebind (recast Semantic_Error (registry_object registry (md_object_type (hd metrics)))) (\<lambda>obj.
      Inr (unique_metric_ids, metrics, obj))))"

definition metrics_statement ::
  "ontology_registry \<Rightarrow> authorization_context \<Rightarrow> string list \<Rightarrow> string list \<Rightarrow> semantic_filter list \<Rightarrow> semantic_order list
     \<Rightarrow> query_error + string list \<times> metric_definition list \<times> select_statement \<times> (string, pyval) dict" where
  "metrics_statement registry authorization metric_ids dimensions filters order_by =
     ebind (authorized_metrics registry authorization metric_ids) (\<lambda>(unique_metric_ids, metrics, obj).
     let allowed_dimensions = common md_dimensions metrics;
         allowed_filters = common md_filters metrics;
         unknown_dimensions = filter (\<lambda>d. d \<notin> set allowed_dimensions) dimensions in
     if unknown_dimensions \<noteq> []
     then Inl (Semantic_Error (OntologyError (''Metric dimensions are not allowed: '' @ join_with '', '' (sorted_set unknown_dimensions))))
     else
     ebind (emap (\<lambda>name. recast Semantic_Error (authorize_property registry (od_name obj) name authorization))
        (dimensions @ map sf_field filters)) (\<lambda>_.
     ebind (emap (\<lambda>name. ebind (recast Semantic_Error (object_property obj name)) (\<lambda>prop. Inr (Project_Column (pd_column prop) name))) dimensions) (\<lambda>dimension_exprs.
     ebind (emap (\<lambda>metric. aggregate metric obj) metrics) (\<lambda>metric_exprs.
     ebind (apply_filters (select_from (dimension_exprs @ metric_exprs) (od_table obj)) obj filters (Some (sorted_set allowed_filters))) (\<lambda>(statement, parameters).
     ebind (emap (\<lambda>name. ebind (recast Semantic_Error (object_property obj name)) (\<lambda>prop. Inr (pd_column prop))) dimensions) (\<lambda>groups.
     ebind (add_orders (dimensions @ unique_metric_ids) order_by (statement\<lparr>ss_group_by := groups\<rparr>)) (\<lambda>ordered.
     Inr (unique_metric_ids, metrics, ordered, parameters))))))))"

definition compile_metrics_query ::
  "sql_environment \<Rightarrow> ontology_registry \<Rightarrow> authorization_context \<Rightarrow> string list \<Rightarrow> string list \<Rightarrow> semantic_filter list
     \<Rightarrow> semantic_order list \<Rightarrow> int \<Rightarrow> query_error + compiled_semantic_query" where
  "compile_metrics_query env registry authorization metric_ids dimensions filters order_by limit =
     ebind (metrics_statement registry authorization metric_ids dimensions filters order_by) (\<lambda>(unique_metric_ids, metrics, statement, parameters).
     ebind (guard_select env authorization limit statement) (\<lambda>scoped.
     Inr \<lparr>cq_scoped_query = scoped, cq_parameters = merge_parameters parameters scoped,
          cq_columns = dimensions @ unique_metric_ids, cq_ontology_version = or_version registry, cq_semantic_kind = ''metric'',
          cq_semantic_id = (if length unique_metric_ids = 1 then hd unique_metric_ids else ''metrics''),
          cq_semantic_version = (if length metrics = 1 then md_version (hd metrics) else or_version registry),
          cq_semantic_ids = unique_metric_ids,
          cq_semantic_versions = dict_update (map (\<lambda>m. (md_name m, md_version m)) metrics) []\<rparr>))"

definition compile_metric_query ::
  "sql_environment \<Rightarrow> ontology_registry \<Rightarrow> authorization_context \<Rightarrow> string \<Rightarrow> string list \<Rightarrow> semantic_filter list
     \<Rightarrow> semantic_order list \<Rightarrow> int \<Rightarrow> query_error + compiled_semantic_query" where
  "compile_metric_query env registry authorization metric_id =
     compile_metrics_query env registry authorization [metric_id]"

end
