(* ===== verification/Http_Boundary.thy ===== *)
theory Http_Boundary
  imports Py_Values
begin

text \<open>
  What the program sees of the services it calls over HTTP: a request as it is handed to \<^verbatim>\<open>httpx\<close>, the
  reply, the configuration check every caller makes on its base URL (\<^verbatim>\<open>urllib.parse.urlsplit\<close>), and
  \<^verbatim>\<open>urllib.parse.quote\<close>. The services themselves are functions from requests to replies, arguments of the
  operations that call them.
\<close>

record http_request =
  rq_verb :: string
  rq_url :: string
  rq_headers :: "(string, string) dict"
  rq_json :: "(string, pyval) dict"

text \<open>\<open>NoReply\<close> is \<^verbatim>\<open>httpx.HTTPError\<close>. A reply has its status, the length of its content, and the value of
  \<^verbatim>\<open>response.json()\<close>, or \<open>None\<close> where that raises \<^verbatim>\<open>ValueError\<close>.\<close>

datatype http_reply = NoReply | Reply (reply_status: int) (reply_length: int) (reply_json: "pyval option")

definition is_error_status :: "int \<Rightarrow> bool" where
  "is_error_status s \<longleftrightarrow> 400 \<le> s \<and> s \<le> 599"

section \<open>URLs\<close>

record split_url =
  su_scheme :: string
  su_netloc :: string

definition scheme_char :: "char \<Rightarrow> bool" where
  "scheme_char c \<longleftrightarrow> is_upper_char c \<or> is_lower_char c \<or> is_digit_char c \<or> c \<in> set ''+-.''"

text \<open>\<^verbatim>\<open>s.partition(sep)\<close> and \<^verbatim>\<open>s.rpartition(sep)\<close> for one character: the part before the first (last) separator
  and the part after it, or \<open>None\<close> without one.\<close>

definition partition_at :: "char \<Rightarrow> string \<Rightarrow> (string \<times> string) option" where
  "partition_at c s =
     (if c \<in> set s then Some (takeWhile (\<lambda>x. x \<noteq> c) s, tl (dropWhile (\<lambda>x. x \<noteq> c) s)) else None)"

definition rpartition_at :: "char \<Rightarrow> string \<Rightarrow> (string \<times> string) option" where
  "rpartition_at c s = map_option (\<lambda>(a, b). (rev b, rev a)) (partition_at c (rev s))"

definition url_clean :: "string \<Rightarrow> string" where
  "url_clean s = filter (\<lambda>c. c \<notin> {CHR 0x09, CHR 0x0A, CHR 0x0D}) (dropWhile (in_range 0 32) s)"

text \<open>The scheme and the network location; \<open>None\<close> is the \<^verbatim>\<open>ValueError\<close> raised for unbalanced brackets. (The text
  between brackets is not checked to be an address.)\<close>

definition urlsplit :: "string \<Rightarrow> split_url option" where
  "urlsplit url =
     (let s = url_clean url;
          (scheme, rest) = (case partition_at (CHR '':'') s of
             Some (c # cs, r) \<Rightarrow>
               if (is_upper_char c \<or> is_lower_char c) \<and> list_all scheme_char (c # cs)
               then (str_lower (c # cs), r) else ('''', s)
           | _ \<Rightarrow> ('''', s));
          netloc = (if starts_with rest ''//''
             then takeWhile (\<lambda>c. c \<notin> set ''/?#'') (drop 2 rest) else '''')
      in if (CHR ''['' \<in> set netloc) \<noteq> (CHR '']'' \<in> set netloc) then None
         else Some \<lparr>su_scheme = scheme, su_netloc = netloc\<rparr>)"

definition su_hostname :: "split_url \<Rightarrow> string" where
  "su_hostname u =
     (let hostinfo = (case rpartition_at (CHR ''@'') (su_netloc u) of None \<Rightarrow> su_netloc u | Some (_, h) \<Rightarrow> h)
      in case partition_at (CHR ''['') hostinfo of
           Some (_, b) \<Rightarrow> str_lower (takeWhile (\<lambda>c. c \<noteq> CHR '']'') b)
         | None \<Rightarrow> str_lower (takeWhile (\<lambda>c. c \<noteq> CHR '':'') hostinfo))"

definition su_username :: "split_url \<Rightarrow> string" where
  "su_username u = (case rpartition_at (CHR ''@'') (su_netloc u) of None \<Rightarrow> ''''
     | Some (info, _) \<Rightarrow> takeWhile (\<lambda>c. c \<noteq> CHR '':'') info)"

definition su_password :: "split_url \<Rightarrow> string" where
  "su_password u = (case rpartition_at (CHR ''@'') (su_netloc u) of None \<Rightarrow> ''''
     | Some (info, _) \<Rightarrow> (case partition_at (CHR '':'') info of None \<Rightarrow> '''' | Some (_, p) \<Rightarrow> p))"

text \<open>The rest of a URL after its network location, without path, query and fragment when \<open>bare_tail\<close> holds, and the port: the outer
  \<open>None\<close> is the \<^verbatim>\<open>ValueError\<close> of \<^verbatim>\<open>parsed.port\<close>.\<close>

definition url_tail :: "string \<Rightarrow> split_url \<Rightarrow> string" where
  "url_tail url u =
     (let s = url_clean url;
          rest = (if su_scheme u = '''' then s else drop (Suc (length (su_scheme u))) s)
      in if starts_with rest ''//'' then drop (2 + length (su_netloc u)) rest else rest)"

definition bare_tail :: "string \<Rightarrow> bool" where
  "bare_tail t \<longleftrightarrow>
     (let (body, fragment) = (case partition_at (CHR ''#'') t of None \<Rightarrow> (t, '''') | Some p \<Rightarrow> p);
          (path, query) = (case partition_at (CHR ''?'') body of None \<Rightarrow> (body, '''') | Some p \<Rightarrow> p)
      in path = '''' \<and> query = '''' \<and> fragment = '''')"

definition netloc_port :: "split_url \<Rightarrow> nat option option" where
  "netloc_port u =
     (let hostinfo = (case rpartition_at (CHR ''@'') (su_netloc u) of None \<Rightarrow> su_netloc u | Some (_, h) \<Rightarrow> h);
          after = (case partition_at (CHR ''['') hostinfo of
             None \<Rightarrow> hostinfo
           | Some (_, b) \<Rightarrow> (case partition_at (CHR '']'') b of None \<Rightarrow> '''' | Some (_, a) \<Rightarrow> a));
          port = (case partition_at (CHR '':'') after of None \<Rightarrow> '''' | Some (_, p) \<Rightarrow> p)
      in if port = '''' then Some None
         else if \<not> list_all is_digit_char port then None
         else case digits_value 0 port of
           None \<Rightarrow> None
         | Some n \<Rightarrow> if n \<le> 65535 then Some (Some n) else None)"

text \<open>The check every caller makes: an http(s) URL with a host and without credentials.\<close>

definition url_acceptable :: "split_url \<Rightarrow> bool" where
  "url_acceptable u \<longleftrightarrow> su_scheme u \<in> set [''http'', ''https''] \<and> su_hostname u \<noteq> '''' \<and>
     su_username u = '''' \<and> su_password u = ''''"

text \<open>\<^verbatim>\<open>secrets.compare_digest\<close> of two texts; \<open>None\<close> is its \<^verbatim>\<open>TypeError\<close> on text outside ASCII.\<close>

definition compare_digest :: "string \<Rightarrow> string \<Rightarrow> bool option" where
  "compare_digest a b = (if list_all (\<lambda>c. char_code c < 128) (a @ b) then Some (a = b) else None)"

text \<open>\<^verbatim>\<open>quote(s, safe="")\<close>: the unreserved characters stay, any other byte of the UTF-8 text is percent-encoded.\<close>

definition hex_upper :: "nat \<Rightarrow> char" where
  "hex_upper d = (if d < 10 then char_of (48 + d) else char_of (55 + d))"

definition quote_byte :: "nat \<Rightarrow> string" where
  "quote_byte b = CHR 0x25 # [hex_upper (b div 16), hex_upper (b mod 16)]"

definition unreserved_char :: "char \<Rightarrow> bool" where
  "unreserved_char c \<longleftrightarrow> is_upper_char c \<or> is_lower_char c \<or> is_digit_char c \<or> c \<in> set ''_.-~''"

definition quote_char :: "char \<Rightarrow> string" where
  "quote_char c =
     (if unreserved_char c then [c]
      else if char_code c < 128 then quote_byte (char_code c)
      else quote_byte (192 + char_code c div 64) @ quote_byte (128 + char_code c mod 64))"

definition url_quote :: "string \<Rightarrow> string" where
  "url_quote s = concat (map quote_char s)"

lemma hex_upper_class: "d < 16 \<Longrightarrow> is_upper_char (hex_upper d) \<or> is_digit_char (hex_upper d)"
  by (simp add: hex_upper_def char_class_defs split: if_split)

lemma set_quote_byte:
  assumes "b < 256" and "c \<in> set (quote_byte b)"
  shows "c = CHR 0x25 \<or> is_upper_char c \<or> is_digit_char c"
proof -
  have "b div 16 < 16" "b mod 16 < 16" using assms(1) by auto
  with hex_upper_class [of "b div 16"] hex_upper_class [of "b mod 16"] assms(2)
  show ?thesis by (auto simp: quote_byte_def)
qed

text \<open>A quoted text holds no character that could leave its path segment.\<close>

lemma set_url_quote: "c \<in> set (url_quote s) \<Longrightarrow> c = CHR 0x25 \<or> unreserved_char c"
proof -
  assume "c \<in> set (url_quote s)"
  then obtain d where d: "c \<in> set (quote_char d)" by (auto simp: url_quote_def)
  have "char_code d < 256" by (simp add: char_code_def)
  then have "192 + char_code d div 64 < 256" by auto
  moreover have "128 + char_code d mod 64 < 256" using mod_less_divisor [of 64 "char_code d"] by linarith
  ultimately show ?thesis
    using d \<open>char_code d < 256\<close> set_quote_byte [of "char_code d" c]
      set_quote_byte [of "192 + char_code d div 64" c] set_quote_byte [of "128 + char_code d mod 64" c]
    by (auto simp: quote_char_def unreserved_char_def split: if_split_asm)
qed

end
