(* ===== verification/Tenant_Datasource.thy ===== *)
theory Tenant_Datasource
  imports Authorization_Context Http_Boundary
begin

text \<open>
  The data source of a tenant, \<^verbatim>\<open>deerflow/tools/builtins/tenant_datasource.py\<close>: the code a tenant and system have in the
  registry, the registry's rows and JDBC URLs, the cache of resolved sources and the connection URL. The registry database
  is the parameter \<open>run\<close> (the statement and its parameter to what \<^verbatim>\<open>SQLDatabase.run\<close> returns), \<^verbatim>\<open>ast.literal_eval\<close> the parameter
  \<open>literal_eval\<close>.
\<close>

record tenant_context =
  tc_user_id :: string
  tc_tenant_id :: string
  tc_tenant_code :: string
  tc_tenant_name :: "string option"
  tc_system_code :: string

record tenant_data_source =
  ds_code :: string
  ds_host :: string
  ds_port :: int
  ds_database :: string
  ds_username :: string
  ds_password :: string
  ds_driver_class :: string
  ds_allowed_databases :: "string list"

text \<open>\<open>Uncaught\<close> is an exception of another class: a port that is no number, unbalanced brackets, a row with too few columns.\<close>

datatype datasource_error = TenantDataSourceError string | Uncaught

section \<open>Codes and identifiers\<close>

definition identifier_char :: "char \<Rightarrow> bool" where
  "identifier_char c \<longleftrightarrow> is_upper_char c \<or> is_lower_char c \<or> is_digit_char c \<or> c = CHR ''_''"

text \<open>\<^verbatim>\<open>[A-Za-z0-9_]+\<close>, matched in full.\<close>

definition safe_identifier :: "string \<Rightarrow> bool" where
  "safe_identifier s \<longleftrightarrow> s \<noteq> [] \<and> list_all identifier_char s"

definition database_code :: "string \<Rightarrow> string \<Rightarrow> string" where
  "database_code system tenant = ''semantic_'' @ system @ ''_'' @ tenant"

definition build_database_code :: "tenant_context \<Rightarrow> datasource_error + string" where
  "build_database_code ctx =
     (if \<not> safe_identifier (tc_system_code ctx)
      then Inl (TenantDataSourceError (''Invalid system_code: '' @ repr_str (tc_system_code ctx)))
      else if \<not> safe_identifier (tc_tenant_code ctx)
      then Inl (TenantDataSourceError (''Invalid tenant_code: '' @ repr_str (tc_tenant_code ctx)))
      else Inr (database_code (tc_system_code ctx) (tc_tenant_code ctx)))"

section \<open>The registry\<close>

text \<open>\<^verbatim>\<open>quote_plus\<close>: as \<^verbatim>\<open>quote\<close>, with a plus sign for a blank.\<close>

definition quote_plus :: "string \<Rightarrow> string" where
  "quote_plus s = concat (map (\<lambda>c. if c = CHR '' '' then ''+'' else quote_char c) s)"

definition env_value :: "(string, string) dict \<Rightarrow> string \<Rightarrow> string \<Rightarrow> string" where
  "env_value env k d = (case dget env k of None \<Rightarrow> d | Some v \<Rightarrow> v)"

definition config_db_uri :: "(string, string) dict \<Rightarrow> datasource_error + string" where
  "config_db_uri env =
     (let host = env_value env ''SAAS_CONFIG_DB_HOST'' ''''; user = env_value env ''SAAS_CONFIG_DB_USER'' '''';
          password = env_value env ''SAAS_CONFIG_DB_PASSWORD'' ''''; database = env_value env ''SAAS_CONFIG_DB_DATABASE'' '''';
          port = env_value env ''SAAS_CONFIG_DB_PORT'' ''3306'';
          missing = map fst (filter (\<lambda>(_, v). v = '''')
            [(''SAAS_CONFIG_DB_HOST'', host), (''SAAS_CONFIG_DB_USER'', user), (''SAAS_CONFIG_DB_DATABASE'', database)])
      in if missing \<noteq> []
         then Inl (TenantDataSourceError (''Missing SaaS config database environment variables: '' @ join_with '', '' missing))
         else Inr (''mysql+mysqlconnector://'' @ quote_plus user @ '':'' @ quote_plus password @ ''@'' @ host @ '':'' @ port @ ''/'' @ database))"

definition registry_identifier :: "(string, string) dict \<Rightarrow> string \<Rightarrow> string \<Rightarrow> datasource_error + string" where
  "registry_identifier env name d =
     (let value = str_strip (env_value env name d) in
      if \<not> safe_identifier value
      then Inl (TenantDataSourceError (''Invalid datasource registry identifier in '' @ name))
      else Inr value)"

text \<open>What a query returns and literals evaluate to, where lists and tuples are told apart.\<close>

datatype sql_result = Result_Value pyval | Result_List "sql_result list" | Result_Tuple "sql_result list"

type_synonym literal_reader = "string \<Rightarrow> sql_result option"

definition as_row :: "sql_result \<Rightarrow> sql_result list" where
  "as_row row = (case row of Result_List xs \<Rightarrow> xs | Result_Tuple xs \<Rightarrow> xs | _ \<Rightarrow> [row])"

definition is_sequence :: "sql_result \<Rightarrow> bool" where
  "is_sequence row = (case row of Result_Value _ \<Rightarrow> False | _ \<Rightarrow> True)"

text \<open>\<^verbatim>\<open>[tuple(row) for row in parsed]\<close>, where a row that is neither sequence nor text raises: \<^verbatim>\<open>tuple("ab")\<close> is \<^verbatim>\<open>("a", "b")\<close>.\<close>

definition tuple_of :: "sql_result \<Rightarrow> datasource_error + sql_result list" where
  "tuple_of row =
     (case row of
        Result_Value (PStr s) \<Rightarrow> Inr (map (\<lambda>c. Result_Value (PStr [c])) s)
      | Result_Value (PList xs) \<Rightarrow> Inr (map Result_Value xs)
      | Result_Value (PDict d) \<Rightarrow> Inr (map (\<lambda>(k, _). Result_Value (PStr k)) d)
      | Result_Value _ \<Rightarrow> Inl Uncaught
      | _ \<Rightarrow> Inr (as_row row))"

definition parse_sql_database_result :: "literal_reader \<Rightarrow> sql_result \<Rightarrow> datasource_error + sql_result list list" where
  "parse_sql_database_result literal_eval result =
     (case result of
        Result_List rows \<Rightarrow> Inr (map as_row rows)
      | Result_Tuple xs \<Rightarrow> Inr (if xs = [] then [] else [xs])
      | Result_Value (PStr s) \<Rightarrow>
          if s = '''' then Inr []
          else (case literal_eval s of
             None \<Rightarrow> Inr []
           | Some (Result_List rows) \<Rightarrow> Inr (map as_row rows)
           | Some (Result_Tuple (x # xs)) \<Rightarrow> if is_sequence x then emap tuple_of (x # xs) else Inr [x # xs]
           | Some (Result_Tuple []) \<Rightarrow> Inr [[]]
           | Some _ \<Rightarrow> Inr [])
      | _ \<Rightarrow> Inr [])"

record registry_row =
  rr_code :: string
  rr_url :: string
  rr_user_name :: string
  rr_password :: string
  rr_driver_class :: string

text \<open>\<^verbatim>\<open>str(row[i] or "")\<close>; the text of a nested sequence is left to \<open>py_str\<close> of its values.\<close>

fun result_value :: "sql_result \<Rightarrow> pyval" where
  "result_value (Result_Value v) = v"
| "result_value (Result_List xs) = PList (map result_value xs)"
| "result_value (Result_Tuple xs) = PList (map result_value xs)"

definition column :: "sql_result list \<Rightarrow> nat \<Rightarrow> datasource_error + string" where
  "column row i = (if i < length row then Inr (str_or (result_value (row ! i)) '''') else Inl Uncaught)"

definition registry_statement :: "string \<Rightarrow> string \<Rightarrow> string \<Rightarrow> string \<Rightarrow> string \<Rightarrow> string \<Rightarrow> string" where
  "registry_statement code url username password driver table =
     ''SELECT '' @ code @ '', '' @ url @ '', '' @ username @ '', '' @ password @ '', '' @ driver @ '' FROM '' @ table @
     '' WHERE '' @ code @ '' = :database_code LIMIT 1''"

definition query_datasource_registry ::
  "(string \<Rightarrow> string \<Rightarrow> string \<Rightarrow> sql_result) \<Rightarrow> literal_reader \<Rightarrow> (string, string) dict \<Rightarrow> string \<Rightarrow> datasource_error + registry_row" where
  "query_datasource_registry run literal_eval env code =
     ebind (registry_identifier env ''SAAS_CONFIG_DB_TABLE'' ''tenant_datasources'') (\<lambda>table.
     ebind (registry_identifier env ''SAAS_CONFIG_DB_CODE_COLUMN'' ''code'') (\<lambda>code_column.
     ebind (registry_identifier env ''SAAS_CONFIG_DB_URL_COLUMN'' ''url'') (\<lambda>url_column.
     ebind (registry_identifier env ''SAAS_CONFIG_DB_USERNAME_COLUMN'' ''username'') (\<lambda>username_column.
     ebind (registry_identifier env ''SAAS_CONFIG_DB_PASSWORD_COLUMN'' ''password'') (\<lambda>password_column.
     ebind (registry_identifier env ''SAAS_CONFIG_DB_DRIVER_COLUMN'' ''driver_class'') (\<lambda>driver_column.
     ebind (config_db_uri env) (\<lambda>uri.
     let result = run uri (registry_statement code_column url_column username_column password_column driver_column table) code in
     ebind (parse_sql_database_result literal_eval result) (\<lambda>rows.
     case rows of
       [] \<Rightarrow> Inl (TenantDataSourceError (''No datasource found in the configured registry for code '' @ repr_str code))
     | row # _ \<Rightarrow>
         ebind (column row 0) (\<lambda>c. ebind (column row 1) (\<lambda>u. ebind (column row 2) (\<lambda>n. ebind (column row 3) (\<lambda>p. ebind (column row 4) (\<lambda>d.
         Inr \<lparr>rr_code = c, rr_url = u, rr_user_name = n, rr_password = p, rr_driver_class = d\<rparr>)))))))))))))"

section \<open>JDBC URLs\<close>

record parsed_url =
  pu_split :: split_url
  pu_path :: string
  pu_query :: string

definition urlparse :: "string \<Rightarrow> parsed_url option" where
  "urlparse url =
     (case urlsplit url of
        None \<Rightarrow> None
      | Some u \<Rightarrow>
          let s = url_clean url;
              rest = (if su_scheme u = '''' then s else drop (Suc (length (su_scheme u))) s);
              body = (if starts_with rest ''//'' then drop (2 + length (su_netloc u)) rest else rest);
              plain = takeWhile (\<lambda>c. c \<noteq> CHR ''#'') body
          in Some \<lparr>pu_split = u, pu_path = takeWhile (\<lambda>c. c \<noteq> CHR ''?'') plain,
               pu_query = tl (dropWhile (\<lambda>c. c \<noteq> CHR ''?'') plain)\<rparr>)"

definition has_credentials :: "parsed_url \<Rightarrow> bool" where
  "has_credentials u \<longleftrightarrow> CHR ''@'' \<in> set (su_netloc (pu_split u))"

text \<open>\<^verbatim>\<open>parsed.port\<close>: \<open>Inl\<close> is its \<^verbatim>\<open>ValueError\<close>.\<close>

definition url_port :: "parsed_url \<Rightarrow> datasource_error + int option" where
  "url_port u =
     (let netloc = su_netloc (pu_split u);
          hostinfo = (case rpartition_at (CHR ''@'') netloc of None \<Rightarrow> netloc | Some (_, h) \<Rightarrow> h);
          after = (case partition_at (CHR '']'') hostinfo of Some (_, a) \<Rightarrow> a | None \<Rightarrow> hostinfo);
          port = (case partition_at (CHR '':'') after of None \<Rightarrow> '''' | Some (_, p) \<Rightarrow> p)
      in if port = '''' then Inr None
         else if \<not> list_all is_digit_char port then Inl Uncaught
         else case digits_value 0 port of
           None \<Rightarrow> Inl Uncaught
         | Some n \<Rightarrow> if int n \<le> 65535 then Inr (Some (int n)) else Inl Uncaught)"

definition hex_value :: "char \<Rightarrow> nat option" where
  "hex_value c =
     (if is_digit_char c then Some (char_code c - 48)
      else if in_range 97 102 c then Some (char_code c - 87)
      else if in_range 65 70 c then Some (char_code c - 55)
      else None)"

text \<open>\<^verbatim>\<open>unquote\<close> byte by byte; the bytes from 128 on, which \<^verbatim>\<open>unquote\<close> decodes as UTF-8, are no identifier characters either way.\<close>

fun unquote :: "string \<Rightarrow> string" where
  "unquote (c # a # b # s) =
     (if c = CHR 0x25 then
        (case (hex_value a, hex_value b) of
           (Some x, Some y) \<Rightarrow> char_of (16 * x + y) # unquote s
         | _ \<Rightarrow> c # unquote (a # b # s))
      else c # unquote (a # b # s))"
| "unquote s = s"

definition query_database :: "string \<Rightarrow> string" where
  "query_database query =
     (let decode = (\<lambda>s. unquote (map (\<lambda>c. if c = CHR ''+'' then CHR '' '' else c) s));
          pairs = List.map_filter (partition_at (CHR ''='')) (split_on (CHR ''&'') query);
          found = filter (\<lambda>(k, v). decode k = ''database'' \<and> v \<noteq> '''') pairs
      in case found of [] \<Rightarrow> '''' | (_, v) # _ \<Rightarrow> decode v)"

definition parse_jdbc_mysql_url :: "string \<Rightarrow> datasource_error + string \<times> int \<times> string" where
  "parse_jdbc_mysql_url url =
     (let stripped = str_strip url;
          raw = (if starts_with stripped ''jdbc:'' then drop 5 stripped else stripped)
      in case urlparse raw of
           None \<Rightarrow> Inl Uncaught
         | Some parsed \<Rightarrow>
             if su_scheme (pu_split parsed) \<notin> set [''mysql'', ''mysql+mysqlconnector'']
             then Inl (TenantDataSourceError (''Unsupported datasource URL scheme: '' @ repr_str (su_scheme (pu_split parsed))))
             else if has_credentials parsed then Inl (TenantDataSourceError ''Datasource URL must not embed credentials'')
             else if su_hostname (pu_split parsed) = '''' then Inl (TenantDataSourceError ''Datasource URL is missing host'')
             else
             let named = takeWhile (\<lambda>c. c \<noteq> CHR ''/'') (unquote (dropWhile (\<lambda>c. c = CHR ''/'') (pu_path parsed)));
                 database = (if named = '''' then str_strip (query_database (pu_query parsed)) else named) in
             if database = '''' then Inl (TenantDataSourceError ''Datasource URL is missing database'')
             else if \<not> safe_identifier database then Inl (TenantDataSourceError ''Datasource URL contains an unsafe database name'')
             else ebind (url_port parsed) (\<lambda>port.
               Inr (su_hostname (pu_split parsed), (case port of None \<Rightarrow> 3306 | Some p \<Rightarrow> if p = 0 then 3306 else p), database)))"

section \<open>Resolution\<close>

definition load_by_code :: "(string \<Rightarrow> datasource_error + registry_row) \<Rightarrow> string \<Rightarrow> datasource_error + tenant_data_source" where
  "load_by_code registry code =
     ebind (registry code) (\<lambda>row.
     if rr_code row \<noteq> code
     then Inl (TenantDataSourceError (''Datasource code mismatch: expected '' @ repr_str code @ '', got '' @ repr_str (rr_code row)))
     else ebind (parse_jdbc_mysql_url (rr_url row)) (\<lambda>(host, port, database).
       Inr \<lparr>ds_code = rr_code row, ds_host = host, ds_port = port, ds_database = database, ds_username = rr_user_name row,
            ds_password = rr_password row, ds_driver_class = rr_driver_class row, ds_allowed_databases = [database]\<rparr>))"

text \<open>\<^verbatim>\<open>lru_cache(maxsize=256)\<close>: entries from the least to the most recently used; exceptions are not kept.\<close>

type_synonym source_cache = "(string, tenant_data_source) dict"

definition cache_size :: nat where "cache_size = 256"

definition resolve_by_code ::
  "(string \<Rightarrow> datasource_error + registry_row) \<Rightarrow> string \<Rightarrow> source_cache \<Rightarrow> (datasource_error + tenant_data_source) \<times> source_cache" where
  "resolve_by_code registry code cache =
     (case dget cache code of
        Some source \<Rightarrow> (Inr source, dpop code cache @ [(code, source)])
      | None \<Rightarrow>
          (case load_by_code registry code of
             Inl e \<Rightarrow> (Inl e, cache)
           | Inr source \<Rightarrow> (Inr source, (if length cache \<ge> cache_size then tl cache else cache) @ [(code, source)])))"

definition resolve_tenant_datasource ::
  "(string \<Rightarrow> datasource_error + registry_row) \<Rightarrow> tenant_context \<Rightarrow> source_cache \<Rightarrow> (datasource_error + tenant_data_source) \<times> source_cache" where
  "resolve_tenant_datasource registry ctx cache =
     (case build_database_code ctx of Inl e \<Rightarrow> (Inl e, cache) | Inr code \<Rightarrow> resolve_by_code registry code cache)"

definition build_tenant_mysql_uri :: "tenant_data_source \<Rightarrow> string option \<Rightarrow> datasource_error + string" where
  "build_tenant_mysql_uri ds database =
     (let db = (case database of None \<Rightarrow> ds_database ds | Some d \<Rightarrow> if d = '''' then ds_database ds else d) in
      if db \<notin> set (ds_allowed_databases ds)
      then Inl (TenantDataSourceError (''Database '' @ repr_str db @ '' is not allowed for datasource '' @ repr_str (ds_code ds)))
      else Inr (''mysql+mysqlconnector://'' @ quote_plus (ds_username ds) @ '':'' @ quote_plus (ds_password ds) @ ''@'' @
             ds_host ds @ '':'' @ int_str (ds_port ds) @ ''/'' @ db))"

section \<open>Whose database it is\<close>

text \<open>A source as the registry gives it for a code: one database, with a name that is an identifier.\<close>

definition source_of :: "string \<Rightarrow> tenant_data_source \<Rightarrow> bool" where
  "source_of code ds \<longleftrightarrow> ds_code ds = code \<and> safe_identifier (ds_database ds) \<and> ds_allowed_databases ds = [ds_database ds]"

definition wf_cache :: "source_cache \<Rightarrow> bool" where
  "wf_cache cache \<longleftrightarrow> wf_dict cache \<and> length cache \<le> cache_size \<and> (\<forall>(code, ds)\<in>set cache. source_of code ds)"

lemma parse_jdbc_identifier: "parse_jdbc_mysql_url url = Inr (host, port, database) \<Longrightarrow> safe_identifier database"
  unfolding parse_jdbc_mysql_url_def Let_def by (auto simp: ebind_Inr_iff split: option.split_asm if_split_asm)

lemma load_source: "load_by_code registry code = Inr ds \<Longrightarrow> source_of code ds"
  by (auto simp: load_by_code_def source_of_def ebind_Inr_iff split: if_split_asm dest: parse_jdbc_identifier)

lemma resolve_by_code_cache:
  assumes "wf_cache cache" and "resolve_by_code registry code cache = (r, cache')"
  shows "wf_cache cache' \<and> (\<forall>ds. r = Inr ds \<longrightarrow> source_of code ds)"
proof (cases "dget cache code")
  case (Some ds)
  then have mem: "(code, ds) \<in> set cache" by (rule map_of_SomeD)
  then have src: "source_of code ds" using assms(1) by (auto simp: wf_cache_def)
  have "length (dpop code cache) < length cache"
    using mem by (induction cache) (auto simp: AList.delete_eq intro: le_imp_less_Suc)
  with Some src assms show ?thesis
    by (auto simp: resolve_by_code_def wf_cache_def wf_dict_def AList.delete_eq distinct_map_filter)
next
  case None
  have fresh: "code \<notin> fst ` set cache" using None by (simp add: map_of_eq_None_iff)
  show ?thesis
  proof (cases "load_by_code registry code")
    case (Inl e)
    with None assms show ?thesis by (auto simp: resolve_by_code_def)
  next
    case (Inr ds)
    have "set (tl cache) \<subseteq> set cache" by (cases cache) auto
    with None Inr fresh load_source [OF Inr] assms show ?thesis
      by (cases cache) (auto simp: resolve_by_code_def wf_cache_def wf_dict_def cache_size_def split: if_split_asm)
  qed
qed

text \<open>The cache after requests of any tenants, while the registry may change between them.\<close>

definition serve_tenants :: "((string \<Rightarrow> datasource_error + registry_row) \<times> tenant_context) list \<Rightarrow> source_cache \<Rightarrow> source_cache" where
  "serve_tenants requests = fold (\<lambda>(registry, ctx) cache. snd (resolve_tenant_datasource registry ctx cache)) requests"

lemma serve_tenants_cache: "wf_cache cache \<Longrightarrow> wf_cache (serve_tenants requests cache)"
proof (induction requests arbitrary: cache)
  case (Cons a requests)
  obtain registry ctx where a: "a = (registry, ctx)" by (cases a)
  have "wf_cache (snd (resolve_tenant_datasource registry ctx cache))"
    using Cons.prems resolve_by_code_cache [OF Cons.prems, of registry]
    by (auto simp: resolve_tenant_datasource_def split: sum.split) (metis prod.collapse)
  from Cons.IH [OF this] show ?case by (simp add: serve_tenants_def a)
qed (simp add: serve_tenants_def)


section \<open>A registry\<close>

definition demo_sources :: "string \<Rightarrow> datasource_error + registry_row" where
  "demo_sources code =
     (if code = ''semantic_demo_north_east''
      then Inr \<lparr>rr_code = code, rr_url = ''jdbc:mysql://db.internal/ops?useSSL=true'', rr_user_name = ''reader'', rr_password = ''p w'',
             rr_driver_class = ''com.mysql''\<rparr>
      else Inl (TenantDataSourceError ''none''))"

definition demo_tenant :: "string \<Rightarrow> string \<Rightarrow> tenant_context" where
  "demo_tenant system tenant = \<lparr>tc_user_id = ''u'', tc_tenant_id = tenant, tc_tenant_code = tenant, tc_tenant_name = None, tc_system_code = system\<rparr>"


text \<open>The code does not determine the tenant: both parts may hold the underscore that separates them, and two tenants share one
  source.\<close>

theorem tenants_share_source:
  "demo_tenant ''demo'' ''north_east'' \<noteq> demo_tenant ''demo_north'' ''east'' \<and>
   fst (resolve_tenant_datasource demo_sources (demo_tenant ''demo'' ''north_east'') []) =
   fst (resolve_tenant_datasource demo_sources (demo_tenant ''demo_north'' ''east'') []) \<and>
   fst (resolve_tenant_datasource demo_sources (demo_tenant ''demo_north'' ''east'') []) \<noteq> Inl (TenantDataSourceError ''none'')"
  by code_simp

end
