(* ===== verification/Semantic_Runtime.thy ===== *)
theory Semantic_Runtime
  imports Semantic_Query Tenant_Datasource
begin

text \<open>
  The runtime of semantic queries, \<^verbatim>\<open>deerflow/semantic/runtime.py\<close>: it finds the data source of the caller's tenant, compiles the
  request for it, runs the guarded statement and describes the result. The data source resolver and the database are
  arguments, as they are of the class; \<open>literal_eval\<close> stands for \<^verbatim>\<open>ast.literal_eval\<close> and \<open>sha256\<close> for the hexadecimal digest.
\<close>

datatype runtime_error = Query_Error query_error | Source_Error datasource_error | Database_Error string

definition authorization_tenant_context :: "authorization_context \<Rightarrow> tenant_context" where
  "authorization_tenant_context authorization =
     \<lparr>tc_user_id = ac_principal_id authorization, tc_tenant_id = ac_tenant_id authorization,
      tc_tenant_code = ac_tenant_code authorization, tc_tenant_name = None, tc_system_code = ac_system_code authorization\<rparr>"

section \<open>Rows\<close>

definition value_row :: "sql_result \<Rightarrow> (string, pyval) dict" where
  "value_row v = [(''value'', result_value v)]"

definition row_dict :: "sql_result \<Rightarrow> (string, pyval) dict" where
  "row_dict row = (case row of Result_Value (PDict d) \<Rightarrow> d | _ \<Rightarrow> value_row row)"

text \<open>A text is read as a literal, and again while that gives a text, which is shorter by its quotes.\<close>

function normalize_text :: "literal_reader \<Rightarrow> string \<Rightarrow> (string, pyval) dict list" where
  "normalize_text literal_eval s =
     (if s = '''' then []
      else case literal_eval s of
        None \<Rightarrow> [value_row (Result_Value (PStr s))]
      | Some (Result_Value (PStr t)) \<Rightarrow> if length t < length s then normalize_text literal_eval t else [value_row (Result_Value (PStr t))]
      | Some (Result_Value v) \<Rightarrow> if truthy v then [value_row (Result_Value v)] else []
      | Some (Result_List rows) \<Rightarrow> map row_dict rows
      | Some (Result_Tuple xs) \<Rightarrow> if xs = [] then [] else [value_row (Result_Tuple xs)])"
  by pat_completeness auto
termination by (relation "measure (\<lambda>(_, s). length s)") auto

declare normalize_text.simps [simp del]

definition normalize_rows :: "literal_reader \<Rightarrow> sql_result \<Rightarrow> (string, pyval) dict list" where
  "normalize_rows literal_eval result =
     (case result of
        Result_List rows \<Rightarrow> map row_dict rows
      | Result_Tuple xs \<Rightarrow> if xs = [] then [] else [value_row result]
      | Result_Value (PStr s) \<Rightarrow> normalize_text literal_eval s
      | Result_Value v \<Rightarrow> if truthy v then [value_row result] else [])"

section \<open>Results\<close>

record semantic_query_result =
  qr_rows :: "(string, pyval) dict list"
  qr_columns :: "string list"
  qr_semantic_kind :: string
  qr_semantic_id :: string
  qr_semantic_version :: string
  qr_ontology_version :: string
  qr_policy_version :: string
  qr_scope_hash :: string
  qr_source_refs :: "string list"
  qr_truncated :: bool
  qr_as_of :: string
  qr_semantic_ids :: "string list"
  qr_semantic_versions :: "(string, string) dict"
  qr_normalized_query_hash :: string
  qr_referenced_fields :: "string list"
  qr_scope_predicates_applied :: nat

definition text_list :: "string list \<Rightarrow> pyval" where "text_list xs = PList (map PStr xs)"

definition query_result_dict :: "semantic_query_result \<Rightarrow> (string, pyval) dict" where
  "query_result_dict q =
     [(''rows'', PList (map PDict (qr_rows q))), (''columns'', text_list (qr_columns q)),
      (''semantic_kind'', PStr (qr_semantic_kind q)), (''semantic_id'', PStr (qr_semantic_id q)),
      (''semantic_version'', PStr (qr_semantic_version q)), (''ontology_version'', PStr (qr_ontology_version q)),
      (''policy_version'', PStr (qr_policy_version q)), (''scope_hash'', PStr (qr_scope_hash q)),
      (''authorization_scope_hash'', PStr (qr_scope_hash q)), (''source_refs'', text_list (qr_source_refs q)),
      (''truncated'', PBool (qr_truncated q)), (''as_of'', PStr (qr_as_of q)), (''semantic_ids'', text_list (qr_semantic_ids q)),
      (''semantic_versions'', PDict (map (\<lambda>(k, v). (k, PStr v)) (qr_semantic_versions q))),
      (''normalized_query_hash'', PStr (qr_normalized_query_hash q)), (''referenced_fields'', text_list (qr_referenced_fields q)),
      (''scope_predicates_applied'', PInt (int (qr_scope_predicates_applied q)))]"

section \<open>The runtime\<close>

record semantic_runtime =
  rt_ontology :: ontology_registry
  rt_sql_policy :: sql_scope_policy_registry
  rt_print :: "select_statement \<Rightarrow> string"
  rt_print_tree :: "sql \<Rightarrow> string"
  rt_parse :: "string \<Rightarrow> sql list option"
  rt_add_limit :: "sql \<Rightarrow> int \<Rightarrow> sql"
  rt_datasource_resolver :: "tenant_context \<Rightarrow> datasource_error + tenant_data_source"
  rt_run :: "string \<Rightarrow> string \<Rightarrow> (string, pyval) dict \<Rightarrow> string + sql_result"
  rt_literal_eval :: literal_reader
  rt_sha256 :: "string \<Rightarrow> string"

definition runtime_datasource :: "semantic_runtime \<Rightarrow> authorization_context \<Rightarrow> runtime_error + tenant_data_source" where
  "runtime_datasource rt authorization =
     recast Source_Error (rt_datasource_resolver rt (authorization_tenant_context authorization))"

definition runtime_environment :: "semantic_runtime \<Rightarrow> tenant_data_source \<Rightarrow> sql_environment" where
  "runtime_environment rt datasource =
     \<lparr>env_print = rt_print rt, env_parse = rt_parse rt, env_add_limit = rt_add_limit rt, env_policies = rt_sql_policy rt,
      env_databases = ds_allowed_databases datasource\<rparr>"

definition execute_compiled ::
  "semantic_runtime \<Rightarrow> string \<Rightarrow> compiled_semantic_query \<Rightarrow> tenant_data_source \<Rightarrow> int \<Rightarrow> runtime_error + semantic_query_result" where
  "execute_compiled rt now compiled datasource requested_limit =
     ebind (recast Source_Error (build_tenant_mysql_uri datasource None)) (\<lambda>uri.
     ebind (recast Database_Error (rt_run rt uri (rt_print_tree rt (sq_statement (cq_scoped_query compiled))) (cq_parameters compiled))) (\<lambda>raw.
     let rows = normalize_rows (rt_literal_eval rt) raw; scoped = cq_scoped_query compiled in
     Inr \<lparr>qr_rows = rows, qr_columns = cq_columns compiled, qr_semantic_kind = cq_semantic_kind compiled,
          qr_semantic_id = cq_semantic_id compiled, qr_semantic_version = cq_semantic_version compiled,
          qr_ontology_version = cq_ontology_version compiled, qr_policy_version = sq_policy_version scoped,
          qr_scope_hash = sq_scope_hash scoped, qr_source_refs = sq_referenced_tables scoped,
          qr_truncated = (int (length rows) \<ge> requested_limit), qr_as_of = now, qr_semantic_ids = cq_semantic_ids compiled,
          qr_semantic_versions = cq_semantic_versions compiled, qr_normalized_query_hash = rt_sha256 rt (rt_print_tree rt (sq_statement scoped)),
          qr_referenced_fields = sq_referenced_fields scoped, qr_scope_predicates_applied = sq_scope_predicates_applied scoped\<rparr>))"

definition search_objects ::
  "semantic_runtime \<Rightarrow> string \<Rightarrow> authorization_context \<Rightarrow> string \<Rightarrow> semantic_filter list \<Rightarrow> string list option \<Rightarrow> int
     \<Rightarrow> runtime_error + semantic_query_result" where
  "search_objects rt now authorization object_type filters properties limit =
     ebind (runtime_datasource rt authorization) (\<lambda>datasource.
     ebind (recast Query_Error (compile_object_query (runtime_environment rt datasource) (rt_ontology rt) authorization object_type
              filters properties None limit)) (\<lambda>compiled.
     execute_compiled rt now compiled datasource limit))"

definition get_object ::
  "semantic_runtime \<Rightarrow> string \<Rightarrow> authorization_context \<Rightarrow> string \<Rightarrow> string \<Rightarrow> runtime_error + semantic_query_result" where
  "get_object rt now authorization object_type object_id =
     ebind (runtime_datasource rt authorization) (\<lambda>datasource.
     ebind (recast Query_Error (compile_object_query (runtime_environment rt datasource) (rt_ontology rt) authorization object_type
              [] None (Some object_id) 1)) (\<lambda>compiled.
     execute_compiled rt now compiled datasource 1))"

definition query_metrics ::
  "semantic_runtime \<Rightarrow> string \<Rightarrow> authorization_context \<Rightarrow> string list \<Rightarrow> string list \<Rightarrow> semantic_filter list \<Rightarrow> semantic_order list \<Rightarrow> int
     \<Rightarrow> runtime_error + semantic_query_result" where
  "query_metrics rt now authorization metric_ids dimensions filters order_by limit =
     ebind (runtime_datasource rt authorization) (\<lambda>datasource.
     ebind (recast Query_Error (compile_metrics_query (runtime_environment rt datasource) (rt_ontology rt) authorization metric_ids
              dimensions filters order_by limit)) (\<lambda>compiled.
     execute_compiled rt now compiled datasource limit))"

definition query_metric ::
  "semantic_runtime \<Rightarrow> string \<Rightarrow> authorization_context \<Rightarrow> string \<Rightarrow> string list \<Rightarrow> semantic_filter list \<Rightarrow> semantic_order list \<Rightarrow> int
     \<Rightarrow> runtime_error + semantic_query_result" where
  "query_metric rt now authorization metric_id dimensions filters order_by limit =
     ebind (runtime_datasource rt authorization) (\<lambda>datasource.
     ebind (recast Query_Error (compile_metric_query (runtime_environment rt datasource) (rt_ontology rt) authorization metric_id
              dimensions filters order_by limit)) (\<lambda>compiled.
     execute_compiled rt now compiled datasource limit))"

text \<open>The entries of a list in a resolution, and their texts.\<close>

definition entries :: "(string, pyval) dict \<Rightarrow> string \<Rightarrow> (string, pyval) dict list" where
  "entries d k = (case get_key d k of PList xs \<Rightarrow> List.map_filter dict_of xs | _ \<Rightarrow> [])"

definition texts_of :: "pyval \<Rightarrow> string list" where
  "texts_of v = (case v of PList xs \<Rightarrow> map py_str xs | _ \<Rightarrow> [])"

definition fact_entry :: "string \<Rightarrow> semantic_query_result \<Rightarrow> pyval" where
  "fact_entry object_type q =
     PDict [(''object_type'', PStr object_type), (''rows'', PList (map PDict (qr_rows q))), (''source_refs'', text_list (qr_source_refs q)),
       (''as_of'', PStr (qr_as_of q)), (''authorization_scope_hash'', PStr (qr_scope_hash q))]"

definition resolve_business_context ::
  "semantic_runtime \<Rightarrow> string \<Rightarrow> authorization_context \<Rightarrow> string \<Rightarrow> bool \<Rightarrow> int \<Rightarrow> Ontology.candidates \<Rightarrow> runtime_error + (string, pyval) dict" where
  "resolve_business_context rt now authorization question include_facts fact_limit candidate_ids =
     ebind (recast (Query_Error \<circ> Semantic_Error) (resolve (rt_ontology rt) question (Some authorization) candidate_ids)) (\<lambda>resolved.
     let context = (case resolved of PDict d \<Rightarrow> d | _ \<Rightarrow> []);
         objects = entries context ''objects'' in
     ebind (if include_facts
        then emap (\<lambda>candidate. let i = py_str (get_key candidate ''id'') in
               ebind (search_objects rt now authorization i [] None fact_limit) (\<lambda>q. Inr (i, q))) (take 3 objects)
        else Inr []) (\<lambda>results.
     let refs = concat (map (\<lambda>(_, q). qr_source_refs q) results) @
           concat (map (\<lambda>e. texts_of (get_key e ''source_refs'')) (objects @ entries context ''metrics''))
     in Inr (dict_update
          [(''facts'', PList (map (\<lambda>(i, q). fact_entry i q) results)), (''source_refs'', text_list (sorted_set refs)),
           (''as_of'', PStr now), (''authorization_scope_hash'', PStr (ac_scope_hash authorization)),
           (''scope_hash'', PStr (ac_scope_hash authorization))] context)))"

end
