(* ===== verification/Ontology_Laws.thy ===== *)
theory Ontology_Laws
  imports Ontology
begin

text \<open>
  What the ontology registry promises: a registry that was read is well formed, looking things up in a
  well-formed registry does not fail, authorization and resolution show only what the caller's roles
  allow, and validated Action parameters validate again.
\<close>

section \<open>Reading\<close>

lemma ont_name_Inr: "ont_name v f = Inr s \<longleftrightarrow> s = str_strip (str_or v '''') \<and> safe_name s"
  by (auto simp: ont_name_def Let_def)

lemma ont_name_safe: "ont_name v f = Inr s \<Longrightarrow> safe_name s"
  by (auto simp: ont_name_Inr)

text \<open>The two ways of building a dictionary keep any property that every entry read has.\<close>

lemma entries_invariant:
  assumes "efold (\<lambda>acc (name, raw). case dict_of raw of None \<Rightarrow> g name acc
       | Some d \<Rightarrow> ebind (f name d) (\<lambda>(k, x). Inr (dset k x acc))) [] items = Inr res"
    and "\<And>name acc acc'. g name acc = Inr acc' \<Longrightarrow> acc' = acc"
    and "\<And>name raw k x. f name raw = Inr (k, x) \<Longrightarrow> P k x"
  shows "wf_dict res \<and> (\<forall>(k, x) \<in> set res. P k x)"
proof (rule efold_invariant [OF assms(1)])
  fix s y t
  assume s: "wf_dict s \<and> (\<forall>(k, x) \<in> set s. P k x)"
    and step: "(case y of (name, raw) \<Rightarrow> case dict_of raw of None \<Rightarrow> g name s
       | Some d \<Rightarrow> ebind (f name d) (\<lambda>(k, x). Inr (dset k x s))) = Inr t"
  show "wf_dict t \<and> (\<forall>(k, x) \<in> set t. P k x)"
  proof (cases "dict_of (snd y)")
    case None
    with step have "g (fst y) s = Inr t" by (cases y) auto
    then have "t = s" by (rule assms(2))
    with s show ?thesis by simp
  next
    case (Some d)
    with step obtain k x where kx: "f (fst y) d = Inr (k, x)" "t = dset k x s"
      by (auto simp: err_simps split: prod.splits)
    with assms(3) have "P k x" by blast
    with kx s set_dset_subset [of k x s] show ?thesis by auto
  qed
qed simp

lemma read_mappings_invariant:
  assumes "read_mappings f items = Inr res" and "\<And>name raw k x. f name raw = Inr (k, x) \<Longrightarrow> P k x"
  shows "wf_dict res \<and> (\<forall>(k, x) \<in> set res. P k x)"
  using assms(1) unfolding read_mappings_def
  by (rule entries_invariant [where g = "\<lambda>_. Inr"]) (auto intro: assms(2))

lemma read_entries_invariant:
  assumes "read_entries kind f items = Inr res" and "\<And>name raw k x. f name raw = Inr (k, x) \<Longrightarrow> P k x"
  shows "wf_dict res \<and> (\<forall>(k, x) \<in> set res. P k x)"
  using assms(1) unfolding read_entries_def
  by (rule entries_invariant [where
      g = "\<lambda>name _. Inl (OntologyError (kind @ '' '' @ repr_str name @ '' must be a mapping''))"])
    (auto intro: assms(2))

lemma read_property_wf:
  "read_property n d = Inr (k, p) \<Longrightarrow> pd_name p = k \<and> safe_name k \<and> safe_name (pd_column p)"
  by (auto simp: read_property_def err_simps dest: ont_name_safe)

lemma read_object_wf: "read_object version n raw = Inr (k, obj) \<Longrightarrow> wf_object k obj"
  by (auto simp: read_object_def err_simps wf_object_def has_property_def split: if_splits
      dest: ont_name_safe read_property_wf
      dest!: read_mappings_invariant [where P = "\<lambda>k p. pd_name p = k \<and> safe_name k \<and> safe_name (pd_column p)"])

lemma object_property_Inr: "object_property obj f = Inr p \<longleftrightarrow> dget (od_properties obj) f = Some p"
  by (simp add: object_property_def split: option.splits)

lemma check_metric_field_ok:
  "check_metric_field n obj a fld = Inr u \<longleftrightarrow>
     (a \<noteq> ''count'' \<longrightarrow> fld \<noteq> None) \<and>
     (\<forall>f. fld = Some f \<longrightarrow> (\<exists>p. dget (od_properties obj) f = Some p \<and> pd_aggregatable p))"
  by (auto simp: check_metric_field_def err_simps object_property_Inr split: option.splits)

lemma efold_unit_Inr:
  "efold (\<lambda>_. f) () xs = Inr u \<longleftrightarrow> (\<forall>x \<in> set xs. f x = Inr ())"
  by (induction xs) (auto simp: err_simps)

lemma check_metric_properties_ok:
  "check_metric_properties n obj dims fils = Inr u \<longleftrightarrow>
     (\<forall>f \<in> set dims. \<exists>p. dget (od_properties obj) f = Some p) \<and>
     (\<forall>f \<in> set fils. \<exists>p. dget (od_properties obj) f = Some p \<and> pd_filterable p)"
proof -
  have "check_metric_properties n obj dims fils = Inr u \<longleftrightarrow>
      (\<forall>f \<in> set dims. \<exists>p. dget (od_properties obj) f = Some p \<and> (f \<in> set fils \<longrightarrow> pd_filterable p)) \<and>
      (\<forall>f \<in> set fils. \<exists>p. dget (od_properties obj) f = Some p \<and> pd_filterable p)"
    by (auto simp: check_metric_properties_def efold_unit_Inr ebind_Inr_iff object_property_Inr)
  then show ?thesis by (metis option.inject)
qed

lemma read_metric_wf:
  "read_metric version objects n raw = Inr (k, m) \<Longrightarrow> wf_metric objects k m"
proof -
  assume a: "read_metric version objects n raw = Inr (k, m)"
  then obtain ot where ot: "ont_name (get_key raw ''object_type'') ''metric object_type'' = Inr ot"
    by (auto simp: read_metric_def ebind_Inr_iff)
  with a obtain obj where obj: "dget objects ot = Some obj"
    by (cases "dget objects ot") (auto simp: read_metric_def ebind_Inr_iff)
  from a ot obj have "md_aggregation m \<in> set aggregations" "md_name m = k" "md_object_type m = ot"
    "check_metric_field k obj (md_aggregation m) (md_field m) = Inr ()"
    "check_metric_properties k obj (md_dimensions m) (md_filters m) = Inr ()"
    "ont_name (PStr n) ''metric name'' = Inr k"
    by (auto simp: read_metric_def ebind_Inr_iff Let_def split: if_split_asm)
  then show ?thesis
    using obj by (auto simp: wf_metric_def has_property_def check_metric_field_ok
        check_metric_properties_ok dest: ont_name_safe)
qed

lemma read_executor_wf:
  "read_executor n w fw e = Inr e' \<Longrightarrow> wf_executor e'"
proof -
  assume a: "read_executor n w fw e = Inr e'"
  define ety where "ety = str_strip (str_or (get_key e ''type'') [])"
  define meth where "meth = str_upper (str_strip (str_or (get_key e ''method'') ''POST''))"
  define path where "path = str_strip (str_or (get_key e ''path'') [])"
  define rf where "rf = get_or e ''result_fields'' (PList [])"
  have valid: "\<not> executor_invalid ety meth path rf"
    using a by (auto simp: read_executor_def Let_def ety_def meth_def path_def rf_def split: if_splits)
  then obtain items where items: "list_of rf = Some items" "length items \<le> 50"
    by (auto simp: executor_invalid_def split: option.splits)
  with a valid obtain fields where
    i: "emap (\<lambda>item. ont_name item (''action '' @ fw @ '' result field'')) items = Inr fields"
    and e': "e' = dset ''result_fields'' (str_list (from_keys fields)) (dset ''path'' (PStr path)
        (dset ''method'' (PStr meth) (dset ''type'' (PStr ety) e)))"
    by (auto simp: read_executor_def Let_def ebind_Inr_iff
        ety_def [symmetric] meth_def [symmetric] path_def [symmetric] rf_def [symmetric])
  from i items have len: "length fields = length items" "length items \<le> 50"
    by (auto simp: emap_Inr_iff dest: list_all2_lengthD)
  have "list_all safe_name fields"
    using i by (auto simp: emap_Inr_iff list_all2_conv_all_nth list_all_length ont_name_Inr)
  moreover have "length (from_keys fields) \<le> 50"
    using len card_length [of fields] distinct_card [of "from_keys fields"] by simp
  ultimately show ?thesis
    unfolding wf_executor_def
    using valid by (intro exI [of _ meth] exI [of _ path] exI [of _ "from_keys fields"])
      (simp add: e' executor_invalid_def list_all_iff)
qed

lemma read_precondition_wf:
  "read_precondition n target raw = Inr pc \<Longrightarrow> has_property target (pc_field pc) \<and> pc_op pc = ''eq''"
  by (auto simp: read_precondition_def ebind_Inr_iff Let_def has_property_def object_property_Inr
      split: option.splits if_split_asm)

lemma read_preconditions_wf:
  "read_preconditions n target v = Inr pcs \<Longrightarrow>
     \<forall>pc \<in> set pcs. has_property target (pc_field pc) \<and> pc_op pc = ''eq''"
  by (auto simp: read_preconditions_def emap_Inr_iff list_all2_conv_all_nth in_set_conv_nth
      dest!: read_precondition_wf split: if_split_asm option.split_asm)

lemma read_compensation_wf:
  "read_compensation n v = Inr c \<Longrightarrow> (case c of None \<Rightarrow> True | Some e \<Rightarrow> wf_executor e)"
  by (auto simp: read_compensation_def ebind_Inr_iff dest: read_executor_wf split: option.split_asm)

lemma read_action_wf: "read_action version objects n raw = Inr (k, a) \<Longrightarrow> wf_action objects k a"
proof -
  assume a: "read_action version objects n raw = Inr (k, a)"
  then obtain tt where tt: "ont_name (get_key raw ''target_type'') ''action target_type'' = Inr tt"
    by (auto simp: read_action_def ebind_Inr_iff)
  with a obtain obj where obj: "dget objects tt = Some obj"
    by (cases "dget objects tt") (auto simp: read_action_def ebind_Inr_iff)
  from a tt obj have all: "ad_name a = k" "ad_target_type a = tt"
    "ad_scope_dimension a \<in> set [''site'', ''project'']" "ont_name (PStr n) ''action name'' = Inr k"
    "list_all (\<lambda>p. prm_value_type p \<in> set [''string'', ''number'', ''boolean'']) (dvals (ad_parameters a))"
    "\<exists>items. read_mappings read_parameter items = Inr (ad_parameters a)"
    "\<exists>v. read_preconditions k obj v = Inr (ad_preconditions a)"
    "\<exists>e. read_executor k ''domain API'' ''executor'' e = Inr (ad_executor a)"
    "\<exists>v. read_compensation k v = Inr (ad_compensation a)"
    by (auto simp: read_action_def ebind_Inr_iff Let_def split: if_split_asm)
  have "wf_dict (ad_parameters a)"
    using all(6) read_mappings_invariant [where P = "\<lambda>_ _. True"] by blast
  moreover have "wf_executor (ad_executor a)"
    using all(8) read_executor_wf by blast
  moreover have "case ad_compensation a of None \<Rightarrow> True | Some c \<Rightarrow> wf_executor c"
    using all(9) read_compensation_wf by blast
  moreover have "\<forall>pc \<in> set (ad_preconditions a). has_property obj (pc_field pc) \<and> pc_op pc = ''eq''"
    using all(7) read_preconditions_wf by blast
  moreover have "safe_name k"
    using all(4) by (rule ont_name_safe)
  ultimately show ?thesis
    unfolding wf_action_def using obj all(1-3,5) by (simp add: list_all_iff)
qed

lemma check_link_wf: "check_link objects l = Inr u \<longleftrightarrow> wf_link objects l"
  by (auto simp: check_link_def wf_link_def has_property_def ebind_Inr_iff object_property_Inr
      split: option.splits)

lemma emap_check_link: "emap (check_link objects) ls = Inr us \<Longrightarrow> \<forall>l \<in> set ls. wf_link objects l"
  by (auto simp: emap_Inr_iff list_all2_conv_all_nth in_set_conv_nth check_link_wf)

lemma wf_registry_from_mapping:
  assumes "ontology_from_mapping d = Inr r"
  shows "wf_registry r"
proof -
  from assms obtain version os ls ms acts where
    os: "read_entries ''Object'' (read_object version) os = Inr (or_objects r)" and
    ls: "read_mappings (read_link version) ls = Inr (or_links r)" and
    ms: "read_entries ''Metric'' (read_metric version (or_objects r)) ms = Inr (or_metrics r)" and
    acts: "read_entries ''Action'' (read_action version (or_objects r)) acts = Inr (or_actions r)" and
    links: "\<exists>us. emap (check_link (or_objects r)) (dvals (or_links r)) = Inr us"
    by (auto simp: ontology_from_mapping_def ebind_Inr_iff Let_def split: if_split_asm)
  have "wf_dict (or_objects r) \<and> (\<forall>(k, x) \<in> set (or_objects r). wf_object k x)"
    using os by (rule read_entries_invariant) (rule read_object_wf)
  moreover have "wf_dict (or_metrics r) \<and> (\<forall>(k, x) \<in> set (or_metrics r). wf_metric (or_objects r) k x)"
    using ms by (rule read_entries_invariant) (rule read_metric_wf)
  moreover have "wf_dict (or_actions r) \<and> (\<forall>(k, x) \<in> set (or_actions r). wf_action (or_objects r) k x)"
    using acts by (rule read_entries_invariant) (rule read_action_wf)
  moreover have "wf_dict (or_links r)"
    using read_mappings_invariant [where P = "\<lambda>_ _. True", OF ls] by simp
  moreover have "\<forall>x \<in> set (dvals (or_links r)). wf_link (or_objects r) x"
    using links emap_check_link by blast
  ultimately show ?thesis unfolding wf_registry_def by blast
qed

section \<open>Lookups in a well-formed registry\<close>

lemma efilter_total:
  "(\<And>x. x \<in> set xs \<Longrightarrow> \<exists>b. p x = Inr b) \<Longrightarrow> \<exists>ys. efilter p xs = Inr ys"
proof (induction xs)
  case (Cons x xs)
  then obtain b ys where "p x = Inr b" "efilter p xs = Inr ys" by fastforce
  then show ?case by simp
qed simp

lemma efilter_Inr: "efilter p xs = Inr ys \<Longrightarrow> ys = filter (\<lambda>x. p x = Inr True) xs"
  by (induction xs arbitrary: ys) (auto simp: err_simps)

lemma registry_object_Inr: "registry_object r n = Inr x \<longleftrightarrow> dget (or_objects r) n = Some x"
  by (simp add: registry_object_def split: option.splits)

lemma registry_metric_Inr: "registry_metric r n = Inr x \<longleftrightarrow> dget (or_metrics r) n = Some x"
  by (simp add: registry_metric_def split: option.splits)

lemma registry_action_Inr: "registry_action r n = Inr x \<longleftrightarrow> dget (or_actions r) n = Some x"
  by (simp add: registry_action_def split: option.splits)

lemmas lookup_Inr = registry_object_Inr registry_metric_Inr registry_action_Inr object_property_Inr

lemma wf_registry_actionD:
  assumes "wf_registry r" and "a \<in> set (dvals (or_actions r))"
  shows "dget (or_actions r) (ad_name a) = Some a" and "\<exists>obj. dget (or_objects r) (ad_target_type a) = Some obj"
proof -
  from assms(2) obtain k where k: "(k, a) \<in> set (or_actions r)" by auto
  with assms(1) have "wf_action (or_objects r) k a" "wf_dict (or_actions r)"
    by (auto simp: wf_registry_def)
  with k show "dget (or_actions r) (ad_name a) = Some a"
    "\<exists>obj. dget (or_objects r) (ad_target_type a) = Some obj"
    by (auto simp: wf_action_def dget_mem_iff)
qed

lemma wf_registry_metricD:
  assumes "wf_registry r" and "m \<in> set (dvals (or_metrics r))"
  shows "dget (or_metrics r) (md_name m) = Some m" and "\<exists>obj. dget (or_objects r) (md_object_type m) = Some obj"
proof -
  from assms(2) obtain k where k: "(k, m) \<in> set (or_metrics r)" by auto
  with assms(1) have "wf_metric (or_objects r) k m" "wf_dict (or_metrics r)"
    by (auto simp: wf_registry_def)
  with k show "dget (or_metrics r) (md_name m) = Some m"
    "\<exists>obj. dget (or_objects r) (md_object_type m) = Some obj"
    by (auto simp: wf_metric_def dget_mem_iff)
qed

lemma object_role_allowed_total:
  "dget (or_objects r) n = Some obj \<Longrightarrow>
     object_role_allowed r a n auth = Inr (a \<and> role_allowed (od_allowed_roles obj) auth)"
  by (simp add: object_role_allowed_def registry_object_def)

lemma link_visible_total:
  "wf_link (or_objects r) l \<Longrightarrow> \<exists>b. link_visible r auth l = Inr b"
  by (auto simp: wf_link_def has_property_def link_visible_def registry_object_def object_property_def
      split: option.splits)

lemma authorize_action_Inr:
  "authorize_action r n auth = Inr a \<longleftrightarrow>
     dget (or_actions r) n = Some a \<and> role_allowed (ad_allowed_roles a) auth \<and>
     (\<exists>obj. dget (or_objects r) (ad_target_type a) = Some obj \<and> role_allowed (od_allowed_roles obj) auth)"
  by (auto simp: authorize_action_def authorize_object_def ebind_Inr_iff lookup_Inr split: if_split_asm)

lemma authorize_metric_Inr:
  "authorize_metric r n auth = Inr m \<longleftrightarrow>
     dget (or_metrics r) n = Some m \<and> role_allowed (md_allowed_roles m) auth \<and>
     (\<exists>obj. dget (or_objects r) (md_object_type m) = Some obj \<and> role_allowed (od_allowed_roles obj) auth)"
  by (auto simp: authorize_metric_def authorize_object_def ebind_Inr_iff lookup_Inr split: if_split_asm)

lemma available_actions_eq:
  assumes "wf_registry r"
  shows "available_actions r auth =
    Inr (filter (\<lambda>a. authorize_action r (ad_name a) auth = Inr a) (dvals (or_actions r)))"
proof -
  let ?p = "\<lambda>a. object_role_allowed r (role_allowed (ad_allowed_roles a) auth) (ad_target_type a) auth"
  have p: "?p a = Inr (authorize_action r (ad_name a) auth = Inr a)" if "a \<in> set (dvals (or_actions r))" for a
    using wf_registry_actionD [OF assms that]
    by (auto simp: object_role_allowed_total authorize_action_Inr)
  then have "\<exists>ys. efilter ?p (dvals (or_actions r)) = Inr ys"
    by (intro efilter_total) blast
  then obtain ys where ys: "efilter ?p (dvals (or_actions r)) = Inr ys" ..
  moreover from ys have "ys = filter (\<lambda>a. ?p a = Inr True) (dvals (or_actions r))"
    by (rule efilter_Inr)
  moreover have "\<dots> = filter (\<lambda>a. authorize_action r (ad_name a) auth = Inr a) (dvals (or_actions r))"
    by (rule filter_cong) (simp_all add: p del: set_map)
  ultimately show ?thesis by (simp add: available_actions_def)
qed

section \<open>Action parameters\<close>

lemma validate_parameter_same: "validate_parameter p v = Inr w \<Longrightarrow> w = v"
  by (auto simp: validate_parameter_def is_none_def ebind_Inr_iff split: if_split_asm pyval.split_asm option.split_asm)

lemma validate_parameter_required:
  "validate_parameter p v = Inr w \<Longrightarrow> prm_required p \<Longrightarrow> \<not> is_none v"
  by (auto simp: validate_parameter_def)

definition given_parameters ::
  "action_definition \<Rightarrow> (string, pyval) dict \<Rightarrow> (string \<times> parameter_definition) list" where
  "given_parameters a values =
     filter (\<lambda>(name, p). \<not> is_none (get_key values name) \<or> prm_required p) (ad_parameters a)"

lemma validate_parameters_Inr:
  "validate_parameters a values = Inr res \<longleftrightarrow>
     set (dkeys values) \<subseteq> set (dkeys (ad_parameters a)) \<and>
     (\<forall>(n, p) \<in> set (given_parameters a values). validate_parameter p (get_key values n) = Inr (get_key values n)) \<and>
     res = map (\<lambda>(n, p). (n, get_key values n)) (given_parameters a values)" (is "?L \<longleftrightarrow> ?R")
proof -
  have keys: "filter (\<lambda>k. k \<notin> set (dkeys (ad_parameters a))) (dkeys values) = [] \<longleftrightarrow>
      set (dkeys values) \<subseteq> set (dkeys (ad_parameters a))"
    by (auto simp: filter_empty_conv)
  have "emap (\<lambda>(n, p). ebind (validate_parameter p (get_key values n)) (\<lambda>v. Inr (n, v))) xs = Inr ys \<longleftrightarrow>
      (\<forall>(n, p) \<in> set xs. validate_parameter p (get_key values n) = Inr (get_key values n)) \<and>
      ys = map (\<lambda>(n, p). (n, get_key values n)) xs" for xs ys
  proof (induction xs arbitrary: ys)
    case (Cons x xs)
    obtain n p where x: "x = (n, p)" by (cases x)
    show ?case
      using validate_parameter_same [of p "get_key values n"]
      by (auto simp: x ebind_Inr_iff Cons.IH)
  qed auto
  then show ?thesis
    unfolding validate_parameters_def Let_def given_parameters_def keys by auto
qed

lemma map_of_filter_key:
  assumes "distinct (map fst ps)" and "(n, p) \<in> set ps"
  shows "map_of (map (\<lambda>(n, p). (n, f n)) (filter Q ps)) n = (if Q (n, p) then Some (f n) else None)"
  using assms
proof (induction ps)
  case (Cons x ps)
  then show ?case
    by (cases x) (auto simp: map_of_eq_None_iff image_iff split: prod.splits)
qed simp

lemma validated_get_key:
  assumes "wf_dict (ad_parameters a)" and "(n, p) \<in> set (ad_parameters a)"
  shows "get_key (map (\<lambda>(n, p). (n, get_key values n)) (given_parameters a values)) n =
    (if is_none (get_key values n) \<and> \<not> prm_required p then PNone else get_key values n)"
  using map_of_filter_key [where f = "get_key values" and
      Q = "\<lambda>(name, p). \<not> is_none (get_key values name) \<or> prm_required p", OF _ assms(2)] assms(1)
  by (simp add: get_key_def [of "map _ _"] given_parameters_def wf_dict_def)

lemma validate_parameters_again:
  assumes wf: "wf_dict (ad_parameters a)" and v: "validate_parameters a values = Inr res"
  shows "validate_parameters a res = Inr res"
proof -
  from v have res: "res = map (\<lambda>(n, p). (n, get_key values n)) (given_parameters a values)"
    and ok: "\<forall>(n, p) \<in> set (given_parameters a values).
      validate_parameter p (get_key values n) = Inr (get_key values n)"
    by (simp_all add: validate_parameters_Inr)
  have key: "get_key res n = get_key values n" if "(n, p) \<in> set (given_parameters a values)" for n p
    using that validated_get_key [OF wf, of n p "values"] by (auto simp: res given_parameters_def)
  have same: "given_parameters a res = given_parameters a values"
    unfolding given_parameters_def
  proof (rule filter_cong [OF refl], clarify)
    fix n p
    assume np: "(n, p) \<in> set (ad_parameters a)"
    show "(\<not> is_none (get_key res n) \<or> prm_required p) = (\<not> is_none (get_key values n) \<or> prm_required p)"
      using validated_get_key [OF wf np, of "values"] by (auto simp: res is_none_def)
  qed
  have "set (dkeys res) \<subseteq> set (dkeys (ad_parameters a))"
    by (auto simp: res given_parameters_def intro: rev_image_eqI)
  moreover have "map (\<lambda>(n, p). (n, get_key res n)) (given_parameters a values) = res"
    unfolding res by (rule map_cong [OF refl]) (use key res in auto)
  ultimately show ?thesis
    using ok key by (fastforce simp: validate_parameters_Inr same)
qed

section \<open>Resolution\<close>

text \<open>What a caller with context \<open>c\<close> may be shown.\<close>

definition shows_only_authorized :: "ontology_registry \<Rightarrow> authorization_context \<Rightarrow> resolution \<Rightarrow> bool" where
  "shows_only_authorized r c res \<longleftrightarrow>
     (\<forall>o' \<in> set (res_objects res). authorize_object r (od_name (ro_object o')) c = Inr (ro_object o') \<and>
        (\<forall>p \<in> set (ro_property_definitions o').
           authorize_property r (od_name (ro_object o')) (pd_name p) c = Inr p)) \<and>
     (\<forall>m \<in> set (res_metrics res). authorize_metric r (md_name m) c = Inr m) \<and>
     (\<forall>a \<in> set (res_actions res). authorize_action r (ad_name a) c = Inr a) \<and>
     (\<forall>l \<in> set (res_links res). \<exists>p q.
        authorize_property r (ld_from_object l) (ld_from_field l) c = Inr p \<and>
        authorize_property r (ld_to_object l) (ld_to_field l) c = Inr q)"

lemma authorize_object_Inr:
  "authorize_object r n c = Inr obj \<longleftrightarrow> dget (or_objects r) n = Some obj \<and> role_allowed (od_allowed_roles obj) c"
  by (auto simp: authorize_object_def ebind_Inr_iff lookup_Inr split: if_split_asm)

lemma authorize_property_Inr:
  "authorize_property r n f c = Inr p \<longleftrightarrow>
     (\<exists>obj. authorize_object r n c = Inr obj \<and> dget (od_properties obj) f = Some p \<and>
        role_allowed (pd_allowed_roles p) c)"
  by (auto simp: authorize_property_def ebind_Inr_iff lookup_Inr split: if_split_asm)

lemma link_visible_authorized:
  "link_visible r (Some c) l = Inr True \<Longrightarrow>
     \<exists>p q. authorize_property r (ld_from_object l) (ld_from_field l) c = Inr p \<and>
           authorize_property r (ld_to_object l) (ld_to_field l) c = Inr q"
  by (auto simp: link_visible_def ebind_Inr_iff lookup_Inr authorize_property_Inr authorize_object_Inr
      property_visible_def split: if_split_asm)

lemma wf_registry_objectD:
  assumes "wf_registry r" and "obj \<in> set (dvals (or_objects r))"
  shows "dget (or_objects r) (od_name obj) = Some obj"
    and "p \<in> set (dvals (od_properties obj)) \<Longrightarrow> dget (od_properties obj) (pd_name p) = Some p"
proof -
  from assms obtain k where k: "(k, obj) \<in> set (or_objects r)" "wf_object k obj" "wf_dict (or_objects r)"
    by (auto simp: wf_registry_def)
  then show "dget (or_objects r) (od_name obj) = Some obj"
    by (auto simp: wf_object_def dget_mem_iff)
  show "dget (od_properties obj) (pd_name p) = Some p" if "p \<in> set (dvals (od_properties obj))"
    using that k by (auto simp: wf_object_def dget_mem_iff)
qed

lemma resolve_question_authorized:
  assumes wf: "wf_registry r"
  shows "\<exists>res. resolve_question r q (Some c) cands = Inr res \<and> shows_only_authorized r c res"
proof -
  let ?objs = "filter (\<lambda>obj. name_matches (str_casefold q) (cand_objects cands) (od_name obj) (od_label obj)
      (od_keywords obj) \<and> role_allowed (od_allowed_roles obj) c) (dvals (or_objects r))"
  let ?pl = "\<lambda>link. if ld_from_object link \<in> set (map od_name ?objs) \<or> ld_to_object link \<in> set (map od_name ?objs)
          then link_visible r (Some c) link else Inr False"
  let ?pm = "\<lambda>m. if name_matches (str_casefold q) (cand_metrics cands) (md_name m) (md_label m) (md_keywords m)
      then object_role_allowed r (role_allowed (md_allowed_roles m) c) (md_object_type m) c else Inr False"
  let ?pa = "\<lambda>a. if name_matches (str_casefold q) (cand_actions cands) (ad_name a) (ad_label a) (ad_keywords a)
      then object_role_allowed r (role_allowed (ad_allowed_roles a) c) (ad_target_type a) c else Inr False"
  have "\<exists>b. ?pl l = Inr b" if "l \<in> set (dvals (or_links r))" for l
    using wf that link_visible_total [of r l "Some c"] by (auto simp: wf_registry_def)
  then obtain ls where ls: "efilter ?pl (dvals (or_links r)) = Inr ls"
    using efilter_total [of "dvals (or_links r)" ?pl] by blast
  have "\<exists>b. ?pm m = Inr b" if "m \<in> set (dvals (or_metrics r))" for m
    using wf_registry_metricD [OF wf that] by (auto simp: object_role_allowed_total)
  then obtain ms where ms: "efilter ?pm (dvals (or_metrics r)) = Inr ms"
    using efilter_total [of "dvals (or_metrics r)" ?pm] by blast
  have "\<exists>b. ?pa a = Inr b" if "a \<in> set (dvals (or_actions r))" for a
    using wf_registry_actionD [OF wf that] by (auto simp: object_role_allowed_total)
  then obtain as where as: "efilter ?pa (dvals (or_actions r)) = Inr as"
    using efilter_total [of "dvals (or_actions r)" ?pa] by blast
  have objs: "authorize_object r (od_name obj) c = Inr obj \<and>
      (\<forall>p \<in> set (ro_property_definitions (resolve_object (Some c) obj)).
         authorize_property r (od_name obj) (pd_name p) c = Inr p)" if "obj \<in> set ?objs" for obj
    using that wf_registry_objectD [OF wf, of obj]
    by (auto simp: authorize_object_Inr authorize_property_Inr resolve_object_def property_visible_def Let_def)
  have links: "\<exists>p q. authorize_property r (ld_from_object l) (ld_from_field l) c = Inr p \<and>
           authorize_property r (ld_to_object l) (ld_to_field l) c = Inr q" if "l \<in> set ls" for l
    using that efilter_Inr [OF ls] by (intro link_visible_authorized) (auto split: if_split_asm)
  have metrics: "authorize_metric r (md_name m) c = Inr m" if "m \<in> set ms" for m
    using that efilter_Inr [OF ms] wf_registry_metricD [OF wf, of m]
    by (auto simp: authorize_metric_Inr object_role_allowed_total split: if_split_asm)
  have actions: "authorize_action r (ad_name a) c = Inr a" if "a \<in> set as" for a
    using that efilter_Inr [OF as] wf_registry_actionD [OF wf, of a]
    by (auto simp: authorize_action_Inr object_role_allowed_total split: if_split_asm)
  have "resolve_question r q (Some c) cands = Inr
      \<lparr>res_ontology_version = or_version r, res_objects = map (resolve_object (Some c)) ?objs,
       res_links = ls, res_metrics = ms, res_actions = as,
       res_policy_version = or_policy_version r, res_mapping_version = or_mapping_version r\<rparr>"
    unfolding resolve_question_def Let_def option.case ls ms as ebind_simps ..
  then show ?thesis
    using objs links metrics actions unfolding shows_only_authorized_def
    by (auto simp: resolve_object_def Let_def)
qed

section \<open>Properties\<close>

text \<open>A document in the shape of \<^verbatim>\<open>default_ontology.yaml\<close>, with a role on the object's name added.\<close>

definition demo_document :: "(string, pyval) dict" where
  "demo_document =
     [(''version'', PStr ''1''),
      (''objects'', PDict
        [(''Site'', PDict
          [(''table'', PStr ''demo_sites''), (''id_field'', PStr ''id''), (''keywords'', PList [PStr ''site'']),
           (''properties'', PDict
             [(''id'', PDict [(''column'', PStr ''id'')]),
              (''name'', PDict [(''column'', PStr ''name''), (''allowed_roles'', PList [PStr ''site_admin''])])])])]),
      (''metrics'', PDict
        [(''site.count'', PDict [(''object_type'', PStr ''Site''), (''aggregation'', PStr ''COUNT''),
           (''filters'', PList [PStr ''id''])])]),
      (''actions'', PDict
        [(''site.update_display_name'', PDict
          [(''keywords'', PList [PStr ''rename site'']), (''target_type'', PStr ''Site''),
           (''scope_dimension'', PStr ''site''),
           (''parameters'', PDict [(''name'', PDict [(''required'', PBool True), (''max_length'', PInt 128)]),
              (''note'', PDict [])]),
           (''approval'', PDict [(''required'', PBool True)]),
           (''authorization'', PDict [(''allowed_roles'', PList [PStr ''site_admin''])]),
           (''executor'', PDict [(''type'', PStr ''domain_api''), (''method'', PStr ''patch''),
              (''path'', PStr ''/api/internal/sites/{target_id}/display-name''),
              (''result_fields'', PList [PStr ''updated''])])])])]"

definition demo_property :: "string \<Rightarrow> string list \<Rightarrow> property_definition" where
  "demo_property n roles = \<lparr>pd_name = n, pd_column = n, pd_value_type = ''string'', pd_label = n, pd_unit = None,
     pd_sensitivity = ''internal'', pd_filterable = True, pd_aggregatable = False, pd_allowed_roles = roles\<rparr>"

definition demo_object :: object_definition where
  "demo_object = \<lparr>od_name = ''Site'', od_table = ''demo_sites'', od_id_field = ''id'', od_label = ''Site'',
     od_keywords = [''site''], od_properties = [(''id'', demo_property ''id'' []),
       (''name'', demo_property ''name'' [''site_admin''])],
     od_version = ''1'', od_allowed_roles = []\<rparr>"

definition demo_metric :: metric_definition where
  "demo_metric = \<lparr>md_name = ''site.count'', md_label = ''site.count'', md_object_type = ''Site'',
     md_aggregation = ''count'', md_field = None, md_dimensions = [], md_filters = [''id''], md_unit = None,
     md_keywords = [], md_version = ''1'', md_grain = None, md_time_semantics = None,
     md_source_refs = [''demo_sites''], md_allowed_roles = []\<rparr>"

definition demo_parameter :: "string \<Rightarrow> bool \<Rightarrow> pyval \<Rightarrow> parameter_definition" where
  "demo_parameter n req maxlen = \<lparr>prm_name = n, prm_value_type = ''string'', prm_required = req,
     prm_minimum = PNone, prm_maximum = PNone, prm_min_length = PNone, prm_max_length = maxlen\<rparr>"

definition demo_action :: action_definition where
  "demo_action = \<lparr>ad_name = ''site.update_display_name'', ad_version = ''1'',
     ad_label = ''site.update_display_name'', ad_keywords = [''rename site''], ad_target_type = ''Site'',
     ad_scope_dimension = ''site'',
     ad_parameters = [(''name'', demo_parameter ''name'' True (PInt 128)), (''note'', demo_parameter ''note'' False PNone)],
     ad_preconditions = [], ad_approval_required = True,
     ad_executor = [(''type'', PStr ''domain_api''), (''method'', PStr ''PATCH''),
       (''path'', PStr ''/api/internal/sites/{target_id}/display-name''), (''result_fields'', PList [PStr ''updated''])],
     ad_compensation = None, ad_allowed_roles = [''site_admin'']\<rparr>"

definition demo_registry :: ontology_registry where
  "demo_registry = \<lparr>or_version = ''1'', or_policy_version = ''1'', or_mapping_version = ''1'',
     or_objects = [(''Site'', demo_object)], or_links = [], or_metrics = [(''site.count'', demo_metric)],
     or_actions = [(''site.update_display_name'', demo_action)]\<rparr>"

definition demo_admin :: authorization_context where
  "demo_admin = demo_context\<lparr>ac_role_codes := [''site_admin''], ac_scope_hash := ''277''\<rparr>"

lemma demo_registry_read: "ontology_from_mapping demo_document = Inr demo_registry"
  by code_simp

lemma demo_action_name: "dget (or_actions demo_registry) ''site.update_display_name'' = Some demo_action"
  by (simp add: demo_registry_def)



text \<open>On a registry that was read, \<^verbatim>\<open>available_actions\<close> never raises and lists exactly the Actions, in
  registry order, for which \<^verbatim>\<open>authorize_action\<close> succeeds.\<close>

theorem available_actions_exact:
  "ontology_from_mapping d = Inr r \<Longrightarrow>
     available_actions r c = Inr (filter (\<lambda>a. authorize_action r (ad_name a) c = Inr a) (dvals (or_actions r)))"
  by (intro available_actions_eq wf_registry_from_mapping)

theorem available_actions_exact_witness:
  "available_actions demo_registry demo_context = Inr [] \<and>
   available_actions demo_registry demo_admin = Inr [demo_action]"
proof -
  have "filter (\<lambda>a. authorize_action demo_registry (ad_name a) demo_context = Inr a) (dvals (or_actions demo_registry)) = []"
    "filter (\<lambda>a. authorize_action demo_registry (ad_name a) demo_admin = Inr a) (dvals (or_actions demo_registry))
      = [demo_action]"
    by code_simp+
  then show ?thesis
    using available_actions_exact [OF demo_registry_read, of demo_context]
      available_actions_exact [OF demo_registry_read, of demo_admin] by simp
qed

text \<open>C36. Resolving a question on a registry that was read never raises, and what it returns to an
  authorized caller holds no object, visible property, link end, metric or Action that the
  corresponding \<^verbatim>\<open>authorize_*\<close> operation refuses the caller, whatever the candidates.\<close>

theorem resolution_shows_only_authorized:
  "ontology_from_mapping d = Inr r \<Longrightarrow>
     \<exists>res. resolve_question r q (Some c) cands = Inr res \<and> shows_only_authorized r c res"
  by (intro resolve_question_authorized wf_registry_from_mapping)

theorem resolution_shows_only_authorized_witness:
  "\<exists>res. resolve_question demo_registry ''How many sites?'' (Some demo_context)
       \<lparr>cand_objects = [], cand_metrics = [''site.count''], cand_actions = [''site.update_display_name'']\<rparr> = Inr res \<and>
     shows_only_authorized demo_registry demo_context res"
  by (rule resolution_shows_only_authorized [OF demo_registry_read])

text \<open>Validating Action parameters is stable: what \<^verbatim>\<open>validate_parameters\<close> returned when the Action was
  proposed validates again, to the same mapping, when the worker revalidates the stored proposal.\<close>

theorem validate_parameters_stable:
  assumes "ontology_from_mapping d = Inr r" and "registry_action r n = Inr a"
    and "validate_parameters a values = Inr res"
  shows "validate_parameters a res = Inr res"
proof -
  have "wf_registry r" using assms(1) by (rule wf_registry_from_mapping)
  moreover have "(n, a) \<in> set (or_actions r)" using assms(2) by (auto simp: lookup_Inr dest: map_of_SomeD)
  ultimately have "wf_dict (ad_parameters a)" by (auto simp: wf_registry_def wf_action_def)
  then show ?thesis using assms(3) by (rule validate_parameters_again)
qed

theorem validate_parameters_stable_witness:
  "validate_parameters demo_action [(''note'', PNone), (''name'', PStr ''North'')] = Inr [(''name'', PStr ''North'')] \<and>
   validate_parameters demo_action [(''name'', PStr ''North'')] = Inr [(''name'', PStr ''North'')]"
proof -
  have v: "validate_parameters demo_action [(''note'', PNone), (''name'', PStr ''North'')] = Inr [(''name'', PStr ''North'')]"
    by code_simp
  have "registry_action demo_registry ''site.update_display_name'' = Inr demo_action"
    using demo_action_name by (simp add: lookup_Inr)
  from validate_parameters_stable [OF demo_registry_read this v] v show ?thesis by simp
qed

end
