(* ===== verification/Action_Repository.thy ===== *)
theory Action_Repository
  imports Ontology_Laws
begin

text \<open>
  The persistent Action state machine, \<^verbatim>\<open>app/semantic/actions.py\<close> over the tables of
  \<^verbatim>\<open>app/semantic/models.py\<close>. A method of \<^verbatim>\<open>ActionRepository\<close> is one transaction: it reads the database, and
  either raises and leaves it as it was or commits and returns. Times and fresh UUIDs, which the code
  takes from \<^verbatim>\<open>datetime.now(UTC)\<close> and \<^verbatim>\<open>uuid.uuid4()\<close>, are the arguments \<open>now\<close> and \<open>new_id\<close>; instants are
  integers. Tables are lists of rows in insertion order, with the unique constraints checked on commit.
\<close>

section \<open>Tables\<close>

datatype action_status =
  PROPOSED | VALIDATED | PREVIEWED | PENDING_APPROVAL | READY | EXECUTING | COMPENSATING
  | COMPENSATED | SUCCEEDED | FAILED

fun status_str :: "action_status \<Rightarrow> string" where
  "status_str PROPOSED = ''PROPOSED''"
| "status_str VALIDATED = ''VALIDATED''"
| "status_str PREVIEWED = ''PREVIEWED''"
| "status_str PENDING_APPROVAL = ''PENDING_APPROVAL''"
| "status_str READY = ''READY''"
| "status_str EXECUTING = ''EXECUTING''"
| "status_str COMPENSATING = ''COMPENSATING''"
| "status_str COMPENSATED = ''COMPENSATED''"
| "status_str SUCCEEDED = ''SUCCEEDED''"
| "status_str FAILED = ''FAILED''"

record action_proposal_row =
  pr_id :: string
  pr_action_id :: string
  pr_action_version :: string
  pr_target_type :: string
  pr_target_id :: string
  pr_parameters :: "(string, pyval) dict"
  pr_reason :: "string option"
  pr_principal_id :: string
  pr_tenant_id :: string
  pr_system_code :: string
  pr_scope_hash :: string
  pr_permission_version :: string
  pr_authorization_snapshot :: "(string, pyval) dict"
  pr_status :: action_status
  pr_approval_required :: bool
  pr_approved_by :: "string option"
  pr_approved_at :: "int option"
  pr_idempotency_key :: string
  pr_expected_object_version :: "string option"
  pr_executor :: "(string, pyval) dict"
  pr_run_id :: string
  pr_thread_id :: string
  pr_tool_call_id :: string
  pr_semantic_trace_id :: string
  pr_created_at :: int
  pr_updated_at :: int

record action_execution_row =
  ex_id :: string
  ex_proposal_id :: string
  ex_status :: action_status
  ex_result :: "(string, pyval) dict option"
  ex_error_code :: "string option"
  ex_error_detail :: "string option"
  ex_lease_owner :: "string option"
  ex_lease_expires_at :: "int option"
  ex_started_at :: "int option"
  ex_finished_at :: "int option"
  ex_created_at :: int
  ex_updated_at :: int

record action_transition_row =
  tr_id :: nat
  tr_entity_type :: string
  tr_entity_id :: string
  tr_from_status :: "action_status option"
  tr_to_status :: action_status
  tr_reason :: "string option"
  tr_created_at :: int

record action_db =
  db_proposals :: "action_proposal_row list"
  db_executions :: "action_execution_row list"
  db_transitions :: "action_transition_row list"

section \<open>Errors and views\<close>

text \<open>\<open>Raised\<close> names an exception of another class that the method does not handle, \<open>Ontology_Raised\<close> is \<^verbatim>\<open>OntologyError\<close> with its message.\<close>

datatype action_error = ActionError (ae_code: string) (ae_detail: string) (ae_status_code: int) | Raised string | Ontology_Raised string

definition ontology_raised :: "ontology_error \<Rightarrow> action_error" where
  "ontology_raised e = (case e of OntologyError m \<Rightarrow> Ontology_Raised m | PyAttributeError \<Rightarrow> Raised ''AttributeError''
     | PyTypeError \<Rightarrow> Raised ''TypeError'')"

text \<open>\<^verbatim>\<open>except OntologyError as exc: raise ActionError(code, str(exc), status_code=status)\<close>.\<close>

definition ontology_denied :: "string \<Rightarrow> int \<Rightarrow> ontology_error \<Rightarrow> action_error" where
  "ontology_denied code status e =
     (case e of OntologyError m \<Rightarrow> ActionError code m status | _ \<Rightarrow> ontology_raised e)"

record proposal_view =
  pv_proposal_id :: string
  pv_action_id :: string
  pv_action_version :: string
  pv_target_type :: string
  pv_target_id :: string
  pv_parameters :: "(string, pyval) dict"
  pv_reason :: "string option"
  pv_status :: action_status
  pv_approval_required :: bool
  pv_approved_by :: "string option"
  pv_scope_hash :: string
  pv_permission_version :: string
  pv_expected_object_version :: "string option"
  pv_run_id :: string
  pv_thread_id :: string
  pv_tool_call_id :: string
  pv_semantic_trace_id :: string
  pv_created_at :: int
  pv_updated_at :: int

record proposal_command = proposal_view +
  pv_authorization_snapshot :: "(string, pyval) dict"
  pv_executor :: "(string, pyval) dict"
  pv_idempotency_key :: string

record execution_view =
  ev_execution_id :: string
  ev_proposal_id :: string
  ev_status :: action_status
  ev_result :: "(string, pyval) dict option"
  ev_error_code :: "string option"
  ev_error_detail :: "string option"
  ev_started_at :: "int option"
  ev_finished_at :: "int option"
  ev_created_at :: int
  ev_updated_at :: int

record execution_proposal_view = execution_view +
  ev_action_id :: string
  ev_action_version :: string
  ev_target_type :: string
  ev_target_id :: string
  ev_scope_hash :: string
  ev_permission_version :: string

definition proposal_dict :: "action_proposal_row \<Rightarrow> proposal_view" where
  "proposal_dict row =
     \<lparr>pv_proposal_id = pr_id row, pv_action_id = pr_action_id row, pv_action_version = pr_action_version row,
      pv_target_type = pr_target_type row, pv_target_id = pr_target_id row, pv_parameters = pr_parameters row,
      pv_reason = pr_reason row, pv_status = pr_status row, pv_approval_required = pr_approval_required row,
      pv_approved_by = pr_approved_by row, pv_scope_hash = pr_scope_hash row,
      pv_permission_version = pr_permission_version row,
      pv_expected_object_version = pr_expected_object_version row, pv_run_id = pr_run_id row,
      pv_thread_id = pr_thread_id row, pv_tool_call_id = pr_tool_call_id row,
      pv_semantic_trace_id = pr_semantic_trace_id row, pv_created_at = pr_created_at row,
      pv_updated_at = pr_updated_at row\<rparr>"

definition command_dict :: "action_proposal_row \<Rightarrow> proposal_command" where
  "command_dict row =
     proposal_view.extend (proposal_dict row)
       (proposal_command.fields (pr_authorization_snapshot row) (pr_executor row) (pr_idempotency_key row))"

definition execution_dict :: "action_execution_row \<Rightarrow> execution_view" where
  "execution_dict row =
     \<lparr>ev_execution_id = ex_id row, ev_proposal_id = ex_proposal_id row, ev_status = ex_status row,
      ev_result = ex_result row, ev_error_code = ex_error_code row, ev_error_detail = ex_error_detail row,
      ev_started_at = ex_started_at row, ev_finished_at = ex_finished_at row,
      ev_created_at = ex_created_at row, ev_updated_at = ex_updated_at row\<rparr>"

definition execution_with_proposal ::
  "action_execution_row \<Rightarrow> action_proposal_row \<Rightarrow> execution_proposal_view" where
  "execution_with_proposal e p =
     execution_view.extend (execution_dict e)
       (execution_proposal_view.fields (pr_action_id p) (pr_action_version p) (pr_target_type p)
          (pr_target_id p) (pr_scope_hash p) (pr_permission_version p))"

section \<open>Checks\<close>

definition target_in_scope :: "action_definition \<Rightarrow> string \<Rightarrow> authorization_context \<Rightarrow> bool" where
  "target_in_scope action target_id auth \<longleftrightarrow>
     (if ac_scope_mode auth = ''tenant_all'' then True
      else if ac_scope_mode auth \<noteq> ''resource_set'' then False
      else if ad_scope_dimension action = ''site'' then target_id \<in> set (ac_allowed_site_ids auth)
      else if ad_scope_dimension action = ''project'' then target_id \<in> set (ac_allowed_project_ids auth)
      else False)"

definition proposal_matches_authorization :: "action_proposal_row \<Rightarrow> authorization_context \<Rightarrow> bool" where
  "proposal_matches_authorization p auth \<longleftrightarrow>
     pr_principal_id p = ac_principal_id auth \<and> pr_tenant_id p = ac_tenant_id auth \<and>
     pr_system_code p = ac_system_code auth \<and> pr_scope_hash p = ac_scope_hash auth \<and>
     pr_permission_version p = ac_permission_version auth"

definition check_precondition ::
  "(string, pyval) dict \<Rightarrow> precondition \<Rightarrow> action_error + unit" where
  "check_precondition target_snapshot pc =
     (let field = pc_field pc;
          operator = (if pc_op pc = '''' then ''eq'' else pc_op pc);
          expected = pc_value pc;
          actual = get_key target_snapshot field in
      if operator \<noteq> ''eq'' \<or> \<not> py_eq actual expected
      then Inl (ActionError ''ACTION_PRECONDITION_FAILED'' (''Action precondition failed for '' @ field) 409)
      else Inr ())"

definition validate_action_target ::
  "action_definition \<Rightarrow> string \<Rightarrow> string \<Rightarrow> string option \<Rightarrow> (string, pyval) dict \<Rightarrow> action_error + unit" where
  "validate_action_target action target_id target_id_field expected_object_version target_snapshot =
     (let actual_target_id = get_key target_snapshot target_id_field in
      if is_none actual_target_id \<or> py_str actual_target_id \<noteq> target_id
      then Inl (ActionError ''AUTHORIZATION_DENIED'' ''Action target is not visible in the authorized scope'' 403)
      else
      ebind (case expected_object_version of
          None \<Rightarrow> Inr ()
        | Some expected \<Rightarrow>
            let actual_version = get_or target_snapshot ''version'' (get_key target_snapshot ''updated_at'') in
            if is_none actual_version \<or> py_str actual_version \<noteq> expected
            then Inl (ActionError ''ACTION_CONFLICT'' ''Target object version changed'' 409)
            else Inr ()) (\<lambda>_.
      efold (\<lambda>_. check_precondition target_snapshot) () (ad_preconditions action)))"

section \<open>Rows\<close>

definition find_proposal :: "action_db \<Rightarrow> string \<Rightarrow> action_proposal_row option" where
  "find_proposal db i = find (\<lambda>p. pr_id p = i) (db_proposals db)"

definition find_execution :: "action_db \<Rightarrow> string \<Rightarrow> action_execution_row option" where
  "find_execution db i = find (\<lambda>e. ex_id e = i) (db_executions db)"

definition execution_of :: "action_db \<Rightarrow> string \<Rightarrow> action_execution_row option" where
  "execution_of db proposal_id = find (\<lambda>e. ex_proposal_id e = proposal_id) (db_executions db)"

definition put_proposal :: "action_proposal_row \<Rightarrow> action_db \<Rightarrow> action_db" where
  "put_proposal p db = db\<lparr>db_proposals := map (\<lambda>q. if pr_id q = pr_id p then p else q) (db_proposals db)\<rparr>"

definition put_execution :: "action_execution_row \<Rightarrow> action_db \<Rightarrow> action_db" where
  "put_execution e db = db\<lparr>db_executions := map (\<lambda>q. if ex_id q = ex_id e then e else q) (db_executions db)\<rparr>"

definition record_transition ::
  "int \<Rightarrow> string \<Rightarrow> string \<Rightarrow> action_status option \<Rightarrow> action_status \<Rightarrow> string option \<Rightarrow> action_db \<Rightarrow> action_db" where
  "record_transition now entity_type entity_id from_status to_status reason db =
     db\<lparr>db_transitions := db_transitions db @
       [\<lparr>tr_id = Suc (length (db_transitions db)), tr_entity_type = entity_type, tr_entity_id = entity_id,
         tr_from_status = from_status, tr_to_status = to_status, tr_reason = reason, tr_created_at = now\<rparr>]\<rparr>"

definition entity_transitions :: "action_db \<Rightarrow> string \<Rightarrow> string \<Rightarrow> action_transition_row list" where
  "entity_transitions db entity_type entity_id =
     filter (\<lambda>t. tr_entity_type t = entity_type \<and> tr_entity_id t = entity_id) (db_transitions db)"

section \<open>Operations\<close>

record request_context =
  rc_run_id :: string
  rc_thread_id :: string
  rc_tool_call_id :: string
  rc_semantic_trace_id :: string

definition list_transitions :: "string \<Rightarrow> string \<Rightarrow> action_db \<Rightarrow> action_error + action_status list" where
  "list_transitions entity_type entity_id db =
     (if entity_type \<notin> set [''proposal'', ''execution''] then Inl (Raised ''ValueError'')
      else Inr (map tr_to_status (entity_transitions db entity_type entity_id)))"

text \<open>The checks of \<^verbatim>\<open>propose\<close> before the row is built: the authorized Action and the validated parameters.\<close>

definition check_proposal ::
  "ontology_registry \<Rightarrow> authorization_context \<Rightarrow> string \<Rightarrow> string \<Rightarrow> (string, pyval) dict
     \<Rightarrow> action_error + action_definition \<times> (string, pyval) dict" where
  "check_proposal ontology auth action_id target_id parameters =
     (if \<not> safe_id target_id
      then Inl (ActionError ''INVALID_ACTION_PARAMETERS'' ''Invalid Action target identifier'' 400)
      else
      ebind (recast (ontology_denied ''AUTHORIZATION_DENIED'' 403) (authorize_action ontology action_id auth)) (\<lambda>action.
      if \<not> target_in_scope action target_id auth
      then Inl (ActionError ''AUTHORIZATION_DENIED'' ''Action target is outside the authorized scope'' 403)
      else
      ebind (recast (ontology_denied ''INVALID_ACTION_PARAMETERS'' 400) (validate_parameters action parameters)) (\<lambda>validated.
      Inr (action, validated))))"

definition new_proposal ::
  "int \<Rightarrow> string \<Rightarrow> authorization_context \<Rightarrow> action_definition \<Rightarrow> string \<Rightarrow> (string, pyval) dict \<Rightarrow> string option
     \<Rightarrow> string \<Rightarrow> string option \<Rightarrow> request_context \<Rightarrow> action_proposal_row" where
  "new_proposal now new_id auth action target_id validated reason key expected_version rc =
     \<lparr>pr_id = new_id, pr_action_id = ad_name action, pr_action_version = ad_version action,
      pr_target_type = ad_target_type action, pr_target_id = target_id, pr_parameters = validated,
      pr_reason = reason, pr_principal_id = ac_principal_id auth, pr_tenant_id = ac_tenant_id auth,
      pr_system_code = ac_system_code auth, pr_scope_hash = ac_scope_hash auth,
      pr_permission_version = ac_permission_version auth,
      pr_authorization_snapshot = to_runtime_dict auth, pr_status = PROPOSED,
      pr_approval_required = ad_approval_required action, pr_approved_by = None, pr_approved_at = None,
      pr_idempotency_key = key, pr_expected_object_version = expected_version,
      pr_executor = ad_executor action, pr_run_id = rc_run_id rc, pr_thread_id = rc_thread_id rc,
      pr_tool_call_id = rc_tool_call_id rc, pr_semantic_trace_id = rc_semantic_trace_id rc,
      pr_created_at = now, pr_updated_at = now\<rparr>"

text \<open>The row cannot be inserted when its primary key or its pair of principal and idempotency key is taken
  (\<^verbatim>\<open>IntegrityError\<close>).\<close>

definition proposal_taken :: "action_db \<Rightarrow> action_proposal_row \<Rightarrow> bool" where
  "proposal_taken db row \<longleftrightarrow>
     list_ex (\<lambda>p. pr_id p = pr_id row \<or>
       (pr_principal_id p = pr_principal_id row \<and> pr_idempotency_key p = pr_idempotency_key row)) (db_proposals db)"

definition same_request :: "action_proposal_row \<Rightarrow> action_proposal_row \<Rightarrow> bool" where
  "same_request existing row \<longleftrightarrow>
     pr_action_id existing = pr_action_id row \<and> pr_target_id existing = pr_target_id row \<and>
     py_eq (PDict (pr_parameters existing)) (PDict (pr_parameters row)) \<and>
     pr_reason existing = pr_reason row \<and>
     pr_expected_object_version existing = pr_expected_object_version row \<and>
     pr_scope_hash existing = pr_scope_hash row"

definition propose ::
  "ontology_registry \<Rightarrow> int \<Rightarrow> string \<Rightarrow> authorization_context \<Rightarrow> string \<Rightarrow> string \<Rightarrow> (string, pyval) dict
     \<Rightarrow> string option \<Rightarrow> string \<Rightarrow> string option \<Rightarrow> request_context \<Rightarrow> action_db
     \<Rightarrow> action_error + proposal_view \<times> action_db" where
  "propose ontology now new_id auth action_id target_id parameters reason key expected_version rc db =
     ebind (check_proposal ontology auth action_id target_id parameters) (\<lambda>(action, validated).
     let row = new_proposal now new_id auth action target_id validated reason key expected_version rc in
     if proposal_taken db row then
       (case find (\<lambda>p. pr_principal_id p = ac_principal_id auth \<and> pr_idempotency_key p = key) (db_proposals db) of
          None \<Rightarrow> Inl (Raised ''NoResultFound'')
        | Some existing \<Rightarrow>
            if \<not> same_request existing row
            then Inl (ActionError ''ACTION_CONFLICT''
                   ''Idempotency key was already used for a different Action proposal'' 409)
            else Inr (proposal_dict existing, db))
     else
       Inr (proposal_dict row,
         record_transition now ''proposal'' new_id None PROPOSED None
           (db\<lparr>db_proposals := db_proposals db @ [row]\<rparr>)))"

definition get_proposal :: "string \<Rightarrow> authorization_context \<Rightarrow> action_db \<Rightarrow> proposal_view option" where
  "get_proposal proposal_id auth db =
     (case find_proposal db proposal_id of
        None \<Rightarrow> None
      | Some row \<Rightarrow> if \<not> proposal_matches_authorization row auth then None else Some (proposal_dict row))"

record proposal_evidence =
  pe_proposal :: proposal_view
  pe_proposal_transitions :: "action_status list"
  pe_execution :: "execution_proposal_view option"
  pe_execution_transitions :: "action_status list"

definition get_proposal_evidence ::
  "string \<Rightarrow> authorization_context \<Rightarrow> action_db \<Rightarrow> proposal_evidence option" where
  "get_proposal_evidence proposal_id auth db =
     (case find_proposal db proposal_id of
        None \<Rightarrow> None
      | Some proposal \<Rightarrow>
          if \<not> proposal_matches_authorization proposal auth then None
          else let execution = execution_of db proposal_id in
            Some \<lparr>pe_proposal = proposal_dict proposal,
              pe_proposal_transitions = map tr_to_status (entity_transitions db ''proposal'' proposal_id),
              pe_execution = map_option (\<lambda>e. execution_with_proposal e proposal) execution,
              pe_execution_transitions = (case execution of None \<Rightarrow> []
                | Some e \<Rightarrow> map tr_to_status (entity_transitions db ''execution'' (ex_id e)))\<rparr>)"

text \<open>The checks \<^verbatim>\<open>approve\<close>, \<^verbatim>\<open>preview\<close> and \<^verbatim>\<open>enqueue_execution\<close> open with.\<close>

definition owned_proposal ::
  "string \<Rightarrow> authorization_context \<Rightarrow> action_db \<Rightarrow> action_error + action_proposal_row" where
  "owned_proposal proposal_id auth db =
     (let not_found = ActionError ''ACTION_NOT_FOUND'' ''Action proposal not found'' 404 in
      case find_proposal db proposal_id of
        None \<Rightarrow> Inl not_found
      | Some row \<Rightarrow>
          if pr_principal_id row \<noteq> ac_principal_id auth \<or> pr_tenant_id row \<noteq> ac_tenant_id auth
          then Inl not_found
          else if pr_scope_hash row \<noteq> ac_scope_hash auth \<or> pr_permission_version row \<noteq> ac_permission_version auth
          then Inl (ActionError ''SCOPE_CHANGED'' ''Authorization scope changed; create a new proposal'' 409)
          else Inr row)"

definition approve ::
  "int \<Rightarrow> string \<Rightarrow> authorization_context \<Rightarrow> string \<Rightarrow> action_db \<Rightarrow> action_error + proposal_view \<times> action_db" where
  "approve now proposal_id auth approved_by db =
     ebind (owned_proposal proposal_id auth db) (\<lambda>row.
     if pr_status row = READY then Inr (proposal_dict row, db)
     else if pr_status row \<noteq> PENDING_APPROVAL
     then Inl (ActionError ''ACTION_CONFLICT'' (''Proposal cannot be approved from '' @ status_str (pr_status row)) 409)
     else let row' = row\<lparr>pr_status := READY, pr_approved_by := Some approved_by,
            pr_approved_at := Some now, pr_updated_at := now\<rparr> in
       Inr (proposal_dict row',
         record_transition now ''proposal'' (pr_id row) (Some (pr_status row)) READY (Some ''approved'')
           (put_proposal row' db)))"

definition preview ::
  "ontology_registry \<Rightarrow> int \<Rightarrow> string \<Rightarrow> authorization_context \<Rightarrow> (string, pyval) dict \<Rightarrow> action_db
     \<Rightarrow> action_error + (proposal_view \<times> (string, pyval) dict) \<times> action_db" where
  "preview ontology now proposal_id auth target_snapshot db =
     ebind (owned_proposal proposal_id auth db) (\<lambda>row.
     if pr_status row \<notin> set [PROPOSED, PENDING_APPROVAL, READY]
     then Inl (ActionError ''ACTION_CONFLICT'' (''Proposal cannot be previewed from '' @ status_str (pr_status row)) 409)
     else
     ebind (recast ontology_raised (registry_action ontology (pr_action_id row))) (\<lambda>action.
     ebind (recast ontology_raised (registry_object ontology (ad_target_type action))) (\<lambda>target_type.
     ebind (validate_action_target action (pr_target_id row) (od_id_field target_type)
              (pr_expected_object_version row) target_snapshot) (\<lambda>_.
     let next_status = (if pr_approval_required row then PENDING_APPROVAL else READY);
         row' = row\<lparr>pr_status := next_status, pr_updated_at := now\<rparr> in
     Inr ((proposal_dict row', target_snapshot),
       record_transition now ''proposal'' (pr_id row) (Some PREVIEWED) next_status None
         (record_transition now ''proposal'' (pr_id row) (Some VALIDATED) PREVIEWED None
           (record_transition now ''proposal'' (pr_id row) (Some (pr_status row)) VALIDATED None
             (put_proposal row' db))))))))"

definition enqueue_execution ::
  "int \<Rightarrow> string \<Rightarrow> string \<Rightarrow> authorization_context \<Rightarrow> action_db
     \<Rightarrow> action_error + execution_proposal_view \<times> action_db" where
  "enqueue_execution now new_id proposal_id auth db =
     ebind (owned_proposal proposal_id auth db) (\<lambda>proposal.
     if pr_status proposal = PENDING_APPROVAL
     then Inl (ActionError ''ACTION_APPROVAL_REQUIRED'' ''Action approval is required'' 409)
     else if pr_status proposal \<notin> set [READY, EXECUTING, SUCCEEDED, FAILED]
     then Inl (ActionError ''ACTION_CONFLICT'' (''Proposal cannot execute from '' @ status_str (pr_status proposal)) 409)
     else case execution_of db proposal_id of
       Some existing \<Rightarrow> Inr (execution_with_proposal existing proposal, db)
     | None \<Rightarrow>
         if find_execution db new_id \<noteq> None then Inl (Raised ''IntegrityError'')
         else let execution = \<lparr>ex_id = new_id, ex_proposal_id = proposal_id, ex_status = READY, ex_result = None,
                 ex_error_code = None, ex_error_detail = None, ex_lease_owner = None, ex_lease_expires_at = None,
                 ex_started_at = None, ex_finished_at = None, ex_created_at = now, ex_updated_at = now\<rparr> in
           Inr (execution_with_proposal execution proposal,
             record_transition now ''execution'' new_id None READY None
               (db\<lparr>db_executions := db_executions db @ [execution]\<rparr>)))"

definition get_execution :: "string \<Rightarrow> authorization_context \<Rightarrow> action_db \<Rightarrow> execution_proposal_view option" where
  "get_execution execution_id auth db =
     (case find_execution db execution_id of
        None \<Rightarrow> None
      | Some execution \<Rightarrow>
          (case find_proposal db (ex_proposal_id execution) of
             None \<Rightarrow> None
           | Some proposal \<Rightarrow>
               if \<not> proposal_matches_authorization proposal auth then None
               else Some (execution_with_proposal execution proposal)))"

section \<open>Operations of the worker\<close>

definition claimable :: "int \<Rightarrow> action_execution_row \<Rightarrow> bool" where
  "claimable now e \<longleftrightarrow>
     ex_status e \<in> set [READY, EXECUTING, COMPENSATING] \<and>
     (ex_status e = READY \<or> (case ex_lease_expires_at e of None \<Rightarrow> False | Some t \<Rightarrow> t < now))"

text \<open>\<^verbatim>\<open>order_by(created_at.asc()).limit(1)\<close>; among equally old executions the one inserted first.\<close>

definition next_claimable :: "int \<Rightarrow> action_db \<Rightarrow> action_execution_row option" where
  "next_claimable now db =
     (case sort_key ex_created_at (filter (claimable now) (db_executions db)) of
        [] \<Rightarrow> None | e # _ \<Rightarrow> Some e)"

definition recovered :: "action_status \<Rightarrow> string option" where
  "recovered previous = (if previous \<in> set [EXECUTING, COMPENSATING] then Some ''lease_recovered'' else None)"

definition claim_ready ::
  "int \<Rightarrow> string \<Rightarrow> int \<Rightarrow> action_db \<Rightarrow> (proposal_command \<times> execution_view) option \<times> action_db" where
  "claim_ready now worker_id lease db =
     (case next_claimable now db of
        None \<Rightarrow> (None, db)
      | Some execution \<Rightarrow>
          (case find_proposal db (ex_proposal_id execution) of
             None \<Rightarrow> (None, db)
           | Some proposal \<Rightarrow>
               if pr_status proposal \<notin> set [READY, EXECUTING, COMPENSATING] then (None, db)
               else
               let claimed_status = (if ex_status execution = COMPENSATING then COMPENSATING else EXECUTING);
                   execution' = execution\<lparr>ex_status := claimed_status, ex_lease_owner := Some worker_id,
                      ex_lease_expires_at := Some (now + lease),
                      ex_started_at := (case ex_started_at execution of None \<Rightarrow> Some now | Some t \<Rightarrow> Some t),
                      ex_updated_at := now\<rparr>;
                   proposal' = proposal\<lparr>pr_status := claimed_status, pr_updated_at := now\<rparr> in
               (Some (command_dict proposal', execution_dict execution'),
                record_transition now ''proposal'' (pr_id proposal) (Some (pr_status proposal)) claimed_status
                  (recovered (pr_status proposal))
                  (record_transition now ''execution'' (ex_id execution) (Some (ex_status execution)) claimed_status
                    (recovered (ex_status execution))
                    (put_proposal proposal' (put_execution execution' db))))))"

text \<open>The update of the proposal beside its execution, where it is found.\<close>

definition move_proposal ::
  "int \<Rightarrow> string \<Rightarrow> action_status \<Rightarrow> string option \<Rightarrow> action_db \<Rightarrow> action_db" where
  "move_proposal now proposal_id status reason db =
     (case find_proposal db proposal_id of
        None \<Rightarrow> db
      | Some p \<Rightarrow> record_transition now ''proposal'' (pr_id p) (Some (pr_status p)) status reason
          (put_proposal (p\<lparr>pr_status := status, pr_updated_at := now\<rparr>) db))"

definition begin_compensation ::
  "int \<Rightarrow> string \<Rightarrow> string \<Rightarrow> string \<Rightarrow> string \<Rightarrow> action_db \<Rightarrow> action_error + action_db" where
  "begin_compensation now execution_id worker_id error_code error_detail db =
     (let refused = ActionError ''ACTION_CONFLICT'' ''Execution cannot enter compensation from its current state'' 409 in
      case find_execution db execution_id of
        None \<Rightarrow> Inl refused
      | Some execution \<Rightarrow>
          if ex_lease_owner execution \<noteq> Some worker_id \<or> ex_status execution \<noteq> EXECUTING then Inl refused
          else Inr (move_proposal now (ex_proposal_id execution) COMPENSATING (Some error_code)
            (record_transition now ''execution'' (ex_id execution) (Some EXECUTING) COMPENSATING (Some error_code)
              (put_execution (execution\<lparr>ex_status := COMPENSATING, ex_error_code := Some error_code,
                 ex_error_detail := Some error_detail, ex_updated_at := now\<rparr>) db))))"

definition finish_compensation ::
  "int \<Rightarrow> string \<Rightarrow> string \<Rightarrow> (string, pyval) dict option \<Rightarrow> bool \<Rightarrow> action_db \<Rightarrow> action_error + action_db" where
  "finish_compensation now execution_id worker_id result compensation_error db =
     (let refused = ActionError ''ACTION_CONFLICT'' ''Execution compensation lease is not owned by worker'' 409 in
      case find_execution db execution_id of
        None \<Rightarrow> Inl refused
      | Some execution \<Rightarrow>
          if ex_lease_owner execution \<noteq> Some worker_id \<or> ex_status execution \<noteq> COMPENSATING then Inl refused
          else
          let status = (if compensation_error then FAILED else COMPENSATED);
              execution' = execution\<lparr>ex_status := status, ex_result := result,
                 ex_error_code := (if compensation_error then Some ''COMPENSATION_FAILED'' else ex_error_code execution),
                 ex_error_detail := (if compensation_error then Some ''Action compensation failed'' else ex_error_detail execution),
                 ex_lease_owner := None, ex_lease_expires_at := None,
                 ex_finished_at := Some now, ex_updated_at := now\<rparr> in
          Inr (move_proposal now (ex_proposal_id execution) status (ex_error_code execution')
            (record_transition now ''execution'' (ex_id execution) (Some COMPENSATING) status (ex_error_code execution')
              (put_execution execution' db))))"

definition finish ::
  "int \<Rightarrow> string \<Rightarrow> string \<Rightarrow> (string, pyval) dict option \<Rightarrow> string option \<Rightarrow> string option \<Rightarrow> action_db
     \<Rightarrow> action_error + action_db" where
  "finish now execution_id worker_id result error_code error_detail db =
     (let refused = ActionError ''ACTION_CONFLICT'' ''Execution lease is not owned by worker'' 409 in
      case find_execution db execution_id of
        None \<Rightarrow> Inl refused
      | Some execution \<Rightarrow>
          if ex_lease_owner execution \<noteq> Some worker_id then Inl refused
          else
          let status = (if error_code \<noteq> None \<and> error_code \<noteq> Some '''' then FAILED else SUCCEEDED) in
          Inr (record_transition now ''execution'' (ex_id execution) (Some EXECUTING) status error_code
            (move_proposal now (ex_proposal_id execution) status error_code
              (put_execution (execution\<lparr>ex_status := status, ex_result := result, ex_error_code := error_code,
                 ex_error_detail := error_detail, ex_lease_owner := None, ex_lease_expires_at := None,
                 ex_finished_at := Some now, ex_updated_at := now\<rparr>) db))))"

section \<open>Steps\<close>

text \<open>The transactions that write, each with any arguments; \<open>ontology\<close> is the registry of the repository.\<close>

inductive repo_step :: "ontology_registry \<Rightarrow> action_db \<Rightarrow> action_db \<Rightarrow> bool" for ontology where
  step_propose: "propose ontology now new_id auth aid tid ps reason key ev rc db = Inr (v, db') \<Longrightarrow> repo_step ontology db db'"
| step_approve: "approve now pid auth by' db = Inr (v, db') \<Longrightarrow> repo_step ontology db db'"
| step_preview: "preview ontology now pid auth snapshot db = Inr (v, db') \<Longrightarrow> repo_step ontology db db'"
| step_enqueue: "enqueue_execution now new_id pid auth db = Inr (v, db') \<Longrightarrow> repo_step ontology db db'"
| step_claim: "claim_ready now w lease db = (r, db') \<Longrightarrow> repo_step ontology db db'"
| step_begin: "begin_compensation now eid w code detail db = Inr db' \<Longrightarrow> repo_step ontology db db'"
| step_finish_compensation: "finish_compensation now eid w result failed db = Inr db' \<Longrightarrow> repo_step ontology db db'"
| step_finish: "finish now eid w result code detail db = Inr db' \<Longrightarrow> repo_step ontology db db'"

definition empty_db :: action_db where
  "empty_db = \<lparr>db_proposals = [], db_executions = [], db_transitions = []\<rparr>"

end
