(* ===== verification/Saas_Authorization.thy ===== *)
theory Saas_Authorization
  imports Authorization_Context Http_Boundary
begin

text \<open>
  How a request obtains its authorization context: the verification of the signed SaaS token,
  \<^verbatim>\<open>app/auth/saas_authorization.py\<close>, and the guard of the semantic API with its scope resolution,
  \<^verbatim>\<open>app/semantic/auth.py\<close>. \<^verbatim>\<open>jwt.decode\<close> (PyJWT) is the parameter \<open>jwt_decode\<close>, which returns the verified claims
  or \<open>None\<close> for \<^verbatim>\<open>PyJWTError\<close>; the scope resolver is the parameter \<open>resolver\<close>; \<^verbatim>\<open>os.environ\<close> is \<open>env\<close>.
\<close>

datatype saas_authorization_error = SaasAuthorizationError string

record jwt_config =
  jc_key :: string
  jc_algorithms :: "string list"
  jc_issuer :: string
  jc_audience :: string

type_synonym jwt_decoder = "jwt_config \<Rightarrow> string list \<Rightarrow> string \<Rightarrow> (string, pyval) dict option"

section \<open>Token verification\<close>

definition environ_get :: "(string, string) dict \<Rightarrow> string \<Rightarrow> string \<Rightarrow> string" where
  "environ_get env k d = (case dget env k of None \<Rightarrow> d | Some v \<Rightarrow> v)"

text \<open>\<^verbatim>\<open>value.replace("\\n", "\n").strip()\<close>: the two characters backslash and n stand for a line break.\<close>

definition key_text :: "string \<Rightarrow> string" where
  "key_text s = str_strip (str_replace [CHR 0x5C, CHR ''n''] [CHR 0x0A] s)"

definition jwt_settings ::
  "(string, string) dict \<Rightarrow> string option \<Rightarrow> saas_authorization_error + jwt_config" where
  "jwt_settings env audience =
     (let eval_key = (if str_strip (environ_get env ''DEER_FLOW_ENV'' '''') = ''eval''
            then environ_get env ''EVALS_AUTHORIZATION_JWT_KEY'' '''' else '''');
          (key, algorithm_setting) =
            (if str_strip eval_key \<noteq> ''''
             then (key_text eval_key, environ_get env ''EVALS_AUTHORIZATION_JWT_ALGORITHM'' ''HS256'')
             else (key_text (environ_get env ''SAAS_AUTHORIZATION_JWT_KEY'' ''''),
                   environ_get env ''SAAS_AUTHORIZATION_JWT_ALGORITHMS'' ''RS256''));
          algorithms = filter (\<lambda>s. s \<noteq> '''') (map str_strip (split_on (CHR '','') algorithm_setting));
          issuer = str_strip (environ_get env ''SAAS_AUTHORIZATION_JWT_ISSUER'' ''saas-gateway'');
          from_env = str_strip (environ_get env ''SAAS_AUTHORIZATION_JWT_AUDIENCE'' ''deerflow'');
          resolved_audience = (case audience of None \<Rightarrow> from_env | Some a \<Rightarrow> if a = '''' then from_env else a)
      in if key = '''' then Inl (SaasAuthorizationError ''SAAS_AUTHORIZATION_JWT_KEY is not configured'')
         else if algorithms = [] \<or> issuer = '''' \<or> resolved_audience = ''''
         then Inl (SaasAuthorizationError ''SaaS authorization JWT verification is not configured'')
         else Inr \<lparr>jc_key = key, jc_algorithms = algorithms, jc_issuer = issuer, jc_audience = resolved_audience\<rparr>)"

definition required_claims :: "string list" where
  "required_claims = [''exp'', ''iat'', ''iss'', ''aud'', ''sub'', ''jti'', ''tenant_id'', ''tenant_code'',
     ''system_code'', ''permission_version'', ''scope'']"

text \<open>\<^verbatim>\<open>int(v)\<close>; \<open>None\<close> is \<^verbatim>\<open>TypeError\<close> or \<^verbatim>\<open>ValueError\<close>. A float is truncated towards zero.\<close>

definition py_int :: "pyval \<Rightarrow> int option" where
  "py_int v = (case v of PBool b \<Rightarrow> Some (if b then 1 else 0) | PInt i \<Rightarrow> Some i
     | PFloat r q \<Rightarrow> Some (if q < 0 then - \<lfloor>- q\<rfloor> else \<lfloor>q\<rfloor>) | PStr s \<Rightarrow> parse_int s | _ \<Rightarrow> None)"

definition check_lifetime ::
  "(string, string) dict \<Rightarrow> (string, pyval) dict \<Rightarrow> saas_authorization_error + unit" where
  "check_lifetime env claims =
     (case (Option.bind (dget claims ''iat'') py_int, Option.bind (dget claims ''exp'') py_int,
            parse_int (environ_get env ''SAAS_AUTHORIZATION_JWT_MAX_TTL_SECONDS'' ''300'')) of
        (Some issued_at, Some expires_at, Some max_ttl) \<Rightarrow>
          if max_ttl \<le> 0 \<or> expires_at \<le> issued_at \<or> expires_at - issued_at > max_ttl
          then Inl (SaasAuthorizationError ''SaaS authorization token lifetime exceeds policy'')
          else Inr ()
      | _ \<Rightarrow> Inl (SaasAuthorizationError ''Invalid SaaS authorization token lifetime''))"

definition claims_mapping ::
  "(string, pyval) dict \<Rightarrow> (string, pyval) dict \<Rightarrow> (string, pyval) dict" where
  "claims_mapping claims scope =
     [(''principal_id'', get_key claims ''sub''),
      (''tenant_id'', get_key claims ''tenant_id''),
      (''tenant_code'', get_key claims ''tenant_code''),
      (''system_code'', get_key claims ''system_code''),
      (''role_codes'', get_default claims ''role_codes'' (PList [])),
      (''scope_mode'', get_key scope ''mode''),
      (''allowed_site_ids'', get_default scope ''site_ids'' (PList [])),
      (''allowed_project_ids'', get_default scope ''project_ids'' (PList [])),
      (''scope_ref'', get_key scope ''scope_ref''),
      (''permission_version'', get_key claims ''permission_version'')]"

definition decode_authorization_token ::
  "(string \<Rightarrow> string) \<Rightarrow> jwt_decoder \<Rightarrow> (string, string) dict \<Rightarrow> string \<Rightarrow> string option
     \<Rightarrow> saas_authorization_error + authorization_context \<times> string option" where
  "decode_authorization_token sha256 jwt_decode env token audience =
     ebind (jwt_settings env audience) (\<lambda>config.
     case jwt_decode config required_claims token of
       None \<Rightarrow> Inl (SaasAuthorizationError ''Invalid SaaS authorization context'')
     | Some claims \<Rightarrow>
         ebind (check_lifetime env claims) (\<lambda>_.
         case dict_of (get_key claims ''scope'') of
           None \<Rightarrow> Inl (SaasAuthorizationError ''Invalid SaaS authorization scope'')
         | Some scope \<Rightarrow>
             ebind (recast (\<lambda>_. SaasAuthorizationError ''Invalid SaaS authorization context'')
                     (from_mapping sha256 (claims_mapping claims scope))) (\<lambda>context.
             let tenant_name = get_key claims ''tenant_name'' in
             Inr (context, if truthy tenant_name then Some (str_strip (py_str tenant_name)) else None))))"

section \<open>The guard of the semantic API\<close>

record semantic_settings =
  ss_service_token :: string
  ss_authorization_audience :: string
  ss_scope_resolver_url :: string
  ss_scope_resolver_token :: string

text \<open>\<open>Unhandled\<close> is an exception the guard does not catch: \<^verbatim>\<open>compare_digest\<close> on text outside ASCII, \<^verbatim>\<open>urlsplit\<close> on
  unbalanced brackets.\<close>

datatype semantic_auth_error = HTTPException int string string | Unhandled

definition policy_unavailable :: "string \<Rightarrow> semantic_auth_error" where
  "policy_unavailable message = HTTPException 503 ''POLICY_UNAVAILABLE'' message"

definition scope_request :: "semantic_settings \<Rightarrow> string \<Rightarrow> authorization_context \<Rightarrow> http_request" where
  "scope_request settings original_token authorization =
     \<lparr>rq_verb = ''POST'', rq_url = ss_scope_resolver_url settings,
      rq_headers = [(''X-SaaS-Internal-Token'', ss_scope_resolver_token settings),
        (''X-SaaS-Authorization-Context'', original_token)],
      rq_json = [(''scope_ref'', opt_str (ac_scope_ref authorization)),
        (''principal_id'', PStr (ac_principal_id authorization)),
        (''tenant_id'', PStr (ac_tenant_id authorization)),
        (''system_code'', PStr (ac_system_code authorization)),
        (''permission_version'', PStr (ac_permission_version authorization))]\<rparr>"

text \<open>The token in the payload of a reply: \<^verbatim>\<open>payload.get("authorization_token")\<close> when it is a non-empty string.\<close>

definition reply_token :: "pyval \<Rightarrow> string option" where
  "reply_token payload =
     (case dict_of payload of None \<Rightarrow> None
      | Some d \<Rightarrow> (case get_key d ''authorization_token'' of
          PStr t \<Rightarrow> if t = '''' then None else Some t
        | _ \<Rightarrow> None))"

definition scope_reply_token :: "http_reply \<Rightarrow> semantic_auth_error + string" where
  "scope_reply_token reply =
     (case reply of
        NoReply \<Rightarrow> Inl (policy_unavailable ''SaaS scope resolver is unavailable'')
      | Reply status _ body \<Rightarrow>
          if status \<ge> 500 then Inl (policy_unavailable ''SaaS scope resolver is unavailable'')
          else if is_error_status status
          then Inl (HTTPException 403 ''AUTHORIZATION_DENIED'' ''SaaS scope resolution was denied'')
          else case body of
            None \<Rightarrow> Inl (policy_unavailable ''SaaS scope resolver returned an invalid response'')
          | Some payload \<Rightarrow> (case reply_token payload of
              None \<Rightarrow> Inl (policy_unavailable ''SaaS scope resolver returned no authorization token'')
            | Some t \<Rightarrow> Inr t))"

text \<open>The resolved context speaks for the same caller as the signed reference and lists its resources.\<close>

definition resolves_reference :: "authorization_context \<Rightarrow> authorization_context \<Rightarrow> bool" where
  "resolves_reference resolved authorization \<longleftrightarrow>
     ac_principal_id resolved = ac_principal_id authorization \<and>
     ac_tenant_id resolved = ac_tenant_id authorization \<and>
     ac_tenant_code resolved = ac_tenant_code authorization \<and>
     ac_system_code resolved = ac_system_code authorization \<and>
     ac_permission_version resolved = ac_permission_version authorization \<and>
     ac_scope_mode resolved = ''resource_set''"

definition resolve_scope_ref ::
  "(string \<Rightarrow> string) \<Rightarrow> jwt_decoder \<Rightarrow> (string, string) dict \<Rightarrow> (http_request \<Rightarrow> http_reply) \<Rightarrow>
   semantic_settings \<Rightarrow> string \<Rightarrow> authorization_context \<Rightarrow> semantic_auth_error + authorization_context" where
  "resolve_scope_ref sha256 jwt_decode env resolver settings original_token authorization =
     (case urlsplit (ss_scope_resolver_url settings) of
        None \<Rightarrow> Inl Unhandled
      | Some parsed \<Rightarrow>
          if \<not> url_acceptable parsed \<or> ss_scope_resolver_token settings = ''''
          then Inl (policy_unavailable ''SaaS scope resolver is not configured'')
          else
          ebind (scope_reply_token (resolver (scope_request settings original_token authorization))) (\<lambda>resolved_token.
          ebind (recast (\<lambda>_. HTTPException 401 ''AUTHENTICATION_FAILED'' ''Resolved SaaS authorization context is invalid'')
                  (decode_authorization_token sha256 jwt_decode env resolved_token
                     (Some (ss_authorization_audience settings)))) (\<lambda>(resolved, _).
          if \<not> resolves_reference resolved authorization
          then Inl (HTTPException 403 ''SCOPE_CHANGED'' ''Resolved SaaS scope does not match the signed reference'')
          else Inr resolved)))"

definition check_service_token :: "semantic_settings \<Rightarrow> string option \<Rightarrow> semantic_auth_error + unit" where
  "check_service_token settings service_token =
     (let refused = HTTPException 401 ''AUTHENTICATION_FAILED'' ''Invalid semantic service token''
      in case service_token of
           None \<Rightarrow> Inl refused
         | Some t \<Rightarrow>
             if t = '''' then Inl refused
             else case compare_digest t (ss_service_token settings) of
               None \<Rightarrow> Inl Unhandled
             | Some same \<Rightarrow> if same then Inr () else Inl refused)"

definition require_semantic_authorization ::
  "(string \<Rightarrow> string) \<Rightarrow> jwt_decoder \<Rightarrow> (string, string) dict \<Rightarrow> (http_request \<Rightarrow> http_reply) \<Rightarrow>
   semantic_settings \<Rightarrow> string option \<Rightarrow> string option \<Rightarrow> semantic_auth_error + authorization_context" where
  "require_semantic_authorization sha256 jwt_decode env resolver settings service_token authorization_token =
     ebind (check_service_token settings service_token) (\<lambda>_.
     case authorization_token of
       None \<Rightarrow> Inl (HTTPException 401 ''AUTHENTICATION_FAILED'' ''Missing SaaS authorization context'')
     | Some token \<Rightarrow>
         if token = ''''
         then Inl (HTTPException 401 ''AUTHENTICATION_FAILED'' ''Missing SaaS authorization context'')
         else
         ebind (recast (\<lambda>_. HTTPException 401 ''AUTHENTICATION_FAILED'' ''Invalid SaaS authorization context'')
                 (decode_authorization_token sha256 jwt_decode env token
                    (Some (ss_authorization_audience settings)))) (\<lambda>(authorization, _).
         ebind (if ac_scope_mode authorization = ''scope_ref''
                then resolve_scope_ref sha256 jwt_decode env resolver settings token authorization
                else Inr authorization) (\<lambda>effective.
         if ac_scope_mode effective = ''none''
         then Inl (HTTPException 403 ''AUTHORIZATION_DENIED'' ''Authorization scope is not executable'')
         else Inr effective)))"

section \<open>Lemmas\<close>

lemma decode_Inr:
  assumes "decode_authorization_token sha256 jwt_decode env token audience = Inr (c, n)"
  obtains config claims scope where "jwt_settings env audience = Inr config"
    and "jwt_decode config required_claims token = Some claims" and "check_lifetime env claims = Inr ()"
    and "dict_of (get_key claims ''scope'') = Some scope"
    and "from_mapping sha256 (claims_mapping claims scope) = Inr c"
proof -
  from assms obtain config where config: "jwt_settings env audience = Inr config"
    by (cases "jwt_settings env audience") (auto simp: decode_authorization_token_def)
  with assms obtain claims where claims: "jwt_decode config required_claims token = Some claims"
    by (cases "jwt_decode config required_claims token") (auto simp: decode_authorization_token_def)
  with config assms obtain scope where scope: "dict_of (get_key claims ''scope'') = Some scope"
    "check_lifetime env claims = Inr ()"
    by (cases "dict_of (get_key claims ''scope'')") (auto simp: decode_authorization_token_def ebind_Inr_iff)
  with config claims assms have "from_mapping sha256 (claims_mapping claims scope) = Inr c"
    by (auto simp: decode_authorization_token_def err_simps Let_def)
  with config claims scope that show thesis by blast
qed

lemma decode_wf:
  "decode_authorization_token sha256 jwt_decode env token audience = Inr (c, n) \<Longrightarrow> wf_context sha256 c"
  by (erule decode_Inr) (rule wf_context_from_mapping)

lemma check_lifetime_Inr:
  "check_lifetime env claims = Inr u \<longleftrightarrow>
     (\<exists>issued expires ttl. Option.bind (dget claims ''iat'') py_int = Some issued \<and>
        Option.bind (dget claims ''exp'') py_int = Some expires \<and>
        parse_int (environ_get env ''SAAS_AUTHORIZATION_JWT_MAX_TTL_SECONDS'' ''300'') = Some ttl \<and>
        issued < expires \<and> expires - issued \<le> ttl)"
  by (auto simp: check_lifetime_def split: option.splits if_split_asm)

lemma resolve_scope_ref_Inr:
  assumes "resolve_scope_ref sha256 jwt_decode env resolver settings t a = Inr c"
  shows "resolves_reference c a \<and> (\<exists>t' n. decode_authorization_token sha256 jwt_decode env t'
     (Some (ss_authorization_audience settings)) = Inr (c, n))"
  using assms by (auto simp: resolve_scope_ref_def err_simps split: option.split_asm if_split_asm)

lemma check_service_token_Inr:
  "check_service_token settings st = Inr u \<Longrightarrow> st = Some (ss_service_token settings)"
  by (auto simp: check_service_token_def Let_def compare_digest_def split: option.split_asm if_split_asm)

lemma require_semantic_authorization_Inr:
  assumes "require_semantic_authorization sha256 jwt_decode env resolver settings st tok = Inr c"
  obtains token signed n where "st = Some (ss_service_token settings)" and "tok = Some token"
    and "decode_authorization_token sha256 jwt_decode env token (Some (ss_authorization_audience settings))
           = Inr (signed, n)"
    and "if ac_scope_mode signed = ''scope_ref''
         then resolve_scope_ref sha256 jwt_decode env resolver settings token signed = Inr c else c = signed"
    and "ac_scope_mode c \<noteq> ''none''"
proof -
  from assms have st: "check_service_token settings st = Inr ()"
    by (cases "check_service_token settings st") (auto simp: require_semantic_authorization_def)
  with assms obtain token where t: "tok = Some token" "token \<noteq> ''''"
    by (cases tok) (auto simp: require_semantic_authorization_def split: if_split_asm)
  with st assms obtain signed n where d:
    "decode_authorization_token sha256 jwt_decode env token (Some (ss_authorization_audience settings))
       = Inr (signed, n)"
    by (auto simp: require_semantic_authorization_def err_simps)
  with st t assms check_service_token_Inr [OF st] that show thesis
    by (auto simp: require_semantic_authorization_def err_simps split: if_split_asm)
qed

section \<open>Properties\<close>

text \<open>A tenant whose gateway signs references (token \<open>ref\<close>) that the resolver exchanges for the token
  \<open>full\<close>.\<close>

definition demo_claims :: "(string \<times> pyval) list \<Rightarrow> (string, pyval) dict" where
  "demo_claims scope =
     [(''sub'', PStr ''public-user-001''), (''tenant_id'', PStr ''public-tenant-001''),
      (''tenant_code'', PStr ''public_demo''), (''system_code'', PStr ''demo''),
      (''role_codes'', PList [PStr ''operator'']), (''permission_version'', PStr ''7''),
      (''iat'', PInt 1000), (''exp'', PInt 1300), (''scope'', PDict scope)]"

definition demo_jwt :: jwt_decoder where
  "demo_jwt config required token =
     (if token = ''ref'' then Some (demo_claims [(''mode'', PStr ''scope_ref''), (''scope_ref'', PStr ''r1'')])
      else if token = ''full''
      then Some (demo_claims [(''mode'', PStr ''resource_set''), (''site_ids'', PList [PStr ''site-b'', PStr ''site-a''])])
      else None)"

definition demo_resolver :: "http_request \<Rightarrow> http_reply" where
  "demo_resolver req =
     (if get_key (rq_json req) ''scope_ref'' = PStr ''r1''
      then Reply 200 40 (Some (PDict [(''authorization_token'', PStr ''full'')])) else Reply 404 0 None)"

definition demo_env :: "(string, string) dict" where
  "demo_env = [(''SAAS_AUTHORIZATION_JWT_KEY'', ''key'')]"

definition demo_settings :: semantic_settings where
  "demo_settings = \<lparr>ss_service_token = ''s3cret'', ss_authorization_audience = ''semantic-platform'',
     ss_scope_resolver_url = ''https://iam.example/resolve'', ss_scope_resolver_token = ''internal''\<rparr>"

lemma demo_guard:
  "require_semantic_authorization demo_digest demo_jwt demo_env demo_resolver demo_settings (Some ''s3cret'') (Some ''ref'')
     = Inr demo_context"
  by code_simp



text \<open>A token is accepted only when its verified claims bound its lifetime: issue and expiry are
  integers, the expiry is later, and the difference is at most the configured maximum (300 seconds
  unless set); a context never comes from a token that \<^verbatim>\<open>jwt.decode\<close> refused.\<close>

theorem token_lifetime_bounded:
  assumes "decode_authorization_token sha256 jwt_decode env token audience = Inr (c, n)"
  shows "\<exists>config claims issued expires ttl.
    jwt_decode config required_claims token = Some claims \<and>
    str_strip (str_or (get_key claims ''sub'') '''') = ac_principal_id c \<and>
    Option.bind (dget claims ''iat'') py_int = Some issued \<and>
    Option.bind (dget claims ''exp'') py_int = Some expires \<and>
    parse_int (environ_get env ''SAAS_AUTHORIZATION_JWT_MAX_TTL_SECONDS'' ''300'') = Some ttl \<and>
    0 < expires - issued \<and> expires - issued \<le> ttl"
  using assms
proof (rule decode_Inr)
  fix config claims scope
  assume claims: "jwt_decode config required_claims token = Some claims"
    and life: "check_lifetime env claims = Inr ()"
    and c: "from_mapping sha256 (claims_mapping claims scope) = Inr c"
  from c have "str_strip (str_or (get_key claims ''sub'') '''') = ac_principal_id c"
    by (auto simp: from_mapping_def ebind_Inr_iff Let_def required_id_Inr claims_mapping_def split: if_split_asm)
  with claims life show ?thesis unfolding check_lifetime_Inr by fastforce
qed

theorem token_lifetime_bounded_witness:
  "\<exists>config claims issued expires ttl.
    demo_jwt config required_claims ''full'' = Some claims \<and>
    str_strip (str_or (get_key claims ''sub'') '''') = ac_principal_id demo_context \<and>
    Option.bind (dget claims ''iat'') py_int = Some issued \<and>
    Option.bind (dget claims ''exp'') py_int = Some expires \<and>
    parse_int (environ_get demo_env ''SAAS_AUTHORIZATION_JWT_MAX_TTL_SECONDS'' ''300'') = Some ttl \<and>
    0 < expires - issued \<and> expires - issued \<le> ttl"
proof (rule token_lifetime_bounded)
  show "decode_authorization_token demo_digest demo_jwt demo_env ''full'' None = Inr (demo_context, None)"
    by code_simp
qed

end
