(* ===== verification/Semantic_Audit.thy ===== *)
theory Semantic_Audit
  imports Action_Repository Saas_Authorization
begin

text \<open>
  What the semantic API writes down about a request: the correlation context it demands
  (\<^verbatim>\<open>app/semantic/request_context.py\<close>) and the audit rows (\<^verbatim>\<open>app/semantic/audit.py\<close>), whose details are cut to a bounded
  size and cleaned of entries that could hold secrets or query data.
\<close>

section \<open>Correlation context\<close>

text \<open>A header that was not sent is \<open>None\<close>.\<close>

record correlation_headers =
  ch_run_id :: "string option"
  ch_thread_id :: "string option"
  ch_tool_call_id :: "string option"
  ch_semantic_trace_id :: "string option"

definition validated :: "string option \<Rightarrow> string \<Rightarrow> semantic_auth_error + string" where
  "validated value name =
     (let candidate = str_strip (case value of None \<Rightarrow> '''' | Some s \<Rightarrow> s) in
      if \<not> safe_id candidate
      then Inl (HTTPException 400 ''INVALID_SEMANTIC_QUERY'' (''Missing or invalid '' @ name))
      else Inr candidate)"

definition require_semantic_request_context :: "correlation_headers \<Rightarrow> semantic_auth_error + request_context" where
  "require_semantic_request_context h =
     ebind (validated (ch_run_id h) ''run_id'') (\<lambda>run_id.
     ebind (validated (ch_thread_id h) ''thread_id'') (\<lambda>thread_id.
     ebind (validated (ch_tool_call_id h) ''tool_call_id'') (\<lambda>tool_call_id.
     ebind (validated (ch_semantic_trace_id h) ''semantic_trace_id'') (\<lambda>semantic_trace_id.
     Inr \<lparr>rc_run_id = run_id, rc_thread_id = thread_id, rc_tool_call_id = tool_call_id,
          rc_semantic_trace_id = semantic_trace_id\<rparr>))))"

section \<open>Safe details\<close>

definition forbidden_detail_fragments :: "string list" where
  "forbidden_detail_fragments =
     [''authorization'', ''connection'', ''jdbc'', ''password'', ''result'', ''rows'', ''sql'', ''token'', ''url'']"

definition max_detail_depth :: nat where "max_detail_depth = 4"

definition forbidden_key :: "string \<Rightarrow> bool" where
  "forbidden_key key = list_ex (\<lambda>fragment. str_contains fragment (str_lower key)) forbidden_detail_fragments"

function safe_value :: "nat \<Rightarrow> pyval \<Rightarrow> pyval" and safe_details :: "nat \<Rightarrow> (string, pyval) dict \<Rightarrow> (string, pyval) dict" where
  "safe_value depth value =
     (if depth \<ge> max_detail_depth then PStr ''[truncated]''
      else case value of
        PDict d \<Rightarrow> PDict (safe_details (depth + 1) d)
      | PList xs \<Rightarrow> PList (map (safe_value (depth + 1)) (take 100 xs))
      | PStr s \<Rightarrow> PStr (take 1000 s)
      | _ \<Rightarrow> value)"
| "safe_details depth value =
     foldl (\<lambda>safe (raw_key, raw_value).
       let key = take 128 raw_key in
       if forbidden_key key then safe else dset key (safe_value depth raw_value) safe) [] (take 100 value)"
  by pat_completeness auto
termination
  by (relation "measure (\<lambda>x. case x of Inl (d, _) \<Rightarrow> 2 * (5 - d) | Inr (d, _) \<Rightarrow> Suc (2 * (5 - d)))") (auto simp: max_detail_depth_def)

declare safe_value.simps [simp del] safe_details.simps [simp del]

section \<open>Audit rows\<close>

record semantic_audit_row =
  au_id :: string
  au_semantic_trace_id :: string
  au_run_id :: string
  au_thread_id :: string
  au_tool_call_id :: string
  au_principal_id :: string
  au_tenant_id :: string
  au_system_code :: string
  au_scope_hash :: string
  au_permission_version :: string
  au_event_type :: string
  au_decision :: string
  au_details :: "(string, pyval) dict"
  au_created_at :: int

definition audit_row ::
  "int \<Rightarrow> string \<Rightarrow> request_context \<Rightarrow> authorization_context \<Rightarrow> string \<Rightarrow> string \<Rightarrow> (string, pyval) dict \<Rightarrow> semantic_audit_row" where
  "audit_row now new_id rc auth event_type decision details =
     \<lparr>au_id = new_id, au_semantic_trace_id = rc_semantic_trace_id rc, au_run_id = rc_run_id rc, au_thread_id = rc_thread_id rc,
      au_tool_call_id = rc_tool_call_id rc, au_principal_id = ac_principal_id auth, au_tenant_id = ac_tenant_id auth,
      au_system_code = ac_system_code auth, au_scope_hash = ac_scope_hash auth, au_permission_version = ac_permission_version auth,
      au_event_type = take 128 event_type, au_decision = take 32 decision, au_details = safe_details 0 details, au_created_at = now\<rparr>"

definition audit_visible :: "authorization_context \<Rightarrow> string \<Rightarrow> semantic_audit_row \<Rightarrow> bool" where
  "audit_visible auth trace_id row \<longleftrightarrow>
     au_semantic_trace_id row = trace_id \<and> au_principal_id row = ac_principal_id auth \<and> au_tenant_id row = ac_tenant_id auth \<and>
     au_system_code row = ac_system_code auth \<and> au_scope_hash row = ac_scope_hash auth \<and>
     au_permission_version row = ac_permission_version auth"

text \<open>\<open>isoformat\<close> is \<^verbatim>\<open>datetime.isoformat\<close>.\<close>

definition audit_entry :: "(int \<Rightarrow> string) \<Rightarrow> semantic_audit_row \<Rightarrow> pyval" where
  "audit_entry isoformat row =
     PDict [(''id'', PStr (au_id row)), (''semantic_trace_id'', PStr (au_semantic_trace_id row)), (''run_id'', PStr (au_run_id row)),
       (''thread_id'', PStr (au_thread_id row)), (''tool_call_id'', PStr (au_tool_call_id row)),
       (''event_type'', PStr (au_event_type row)), (''decision'', PStr (au_decision row)), (''details'', PDict (au_details row)),
       (''scope_hash'', PStr (au_scope_hash row)), (''permission_version'', PStr (au_permission_version row)),
       (''created_at'', PStr (isoformat (au_created_at row)))]"

definition list_for_trace ::
  "(int \<Rightarrow> string) \<Rightarrow> string \<Rightarrow> authorization_context \<Rightarrow> semantic_audit_row list \<Rightarrow> pyval list" where
  "list_for_trace isoformat trace_id auth rows =
     map (audit_entry isoformat) (sort_key au_created_at (filter (audit_visible auth trace_id) rows))"

section \<open>What details can hold\<close>

text \<open>No key with a forbidden fragment at any depth, at most \<open>n\<close> levels of containers, at most 100 entries in each, keys of at most 128 and
  texts of at most 1000 characters.\<close>

fun clean :: "nat \<Rightarrow> pyval \<Rightarrow> bool" where
  "clean n (PDict d) \<longleftrightarrow> 0 < n \<and> length d \<le> 100 \<and> distinct (map fst d) \<and>
     (\<forall>(k, v)\<in>set d. \<not> forbidden_key k \<and> length k \<le> 128 \<and> clean (n - 1) v)"
| "clean n (PList xs) \<longleftrightarrow> 0 < n \<and> length xs \<le> 100 \<and> (\<forall>x\<in>set xs. clean (n - 1) x)"
| "clean n (PStr s) \<longleftrightarrow> length s \<le> 1000"
| "clean n _ \<longleftrightarrow> True"

definition clean_entries :: "nat \<Rightarrow> (string, pyval) dict \<Rightarrow> bool" where
  "clean_entries n d \<longleftrightarrow> distinct (map fst d) \<and> (\<forall>(k, v)\<in>set d. \<not> forbidden_key k \<and> length k \<le> 128 \<and> clean n v)"

lemma clean_entries_dset:
  assumes "clean_entries n d" and "\<not> forbidden_key k" and "length k \<le> 128" and "clean n v"
  shows "clean_entries n (dset k v d)"
  using assms set_dset_subset [of k v d] unfolding clean_entries_def by (auto simp: distinct_update)

lemma length_dset: "length (dset k v d) \<le> Suc (length d)"
  by (induction d) auto

definition add_safe :: "(pyval \<Rightarrow> pyval) \<Rightarrow> (string, pyval) dict \<Rightarrow> string \<times> pyval \<Rightarrow> (string, pyval) dict" where
  "add_safe f safe = (\<lambda>(k, v). if forbidden_key (take 128 k) then safe else dset (take 128 k) (f v) safe)"

lemma safe_fold_clean:
  "\<forall>(k, v)\<in>set d. \<not> forbidden_key (take 128 k) \<longrightarrow> clean n (f v) \<Longrightarrow> clean_entries n acc \<Longrightarrow> clean_entries n (foldl (add_safe f) acc d)"
  by (induction d arbitrary: acc) (auto simp: add_safe_def clean_entries_dset)

lemma safe_fold_length: "length (foldl (add_safe f) acc d) \<le> length acc + length d"
proof (induction d arbitrary: acc)
  case (Cons a d)
  have "length (add_safe f acc a) \<le> Suc (length acc)" by (simp add: add_safe_def case_prod_unfold length_dset)
  with Cons [of "add_safe f acc a"] show ?case by simp
qed simp

lemma safe_details_fold: "safe_details depth d = foldl (add_safe (safe_value depth)) [] (take 100 d)"
  by (simp add: safe_details.simps add_safe_def [abs_def] Let_def)

lemma safe_clean: "clean (Suc max_detail_depth - depth) (safe_value depth v)"
  and safe_details_clean: "depth \<le> max_detail_depth \<Longrightarrow> clean (Suc (Suc max_detail_depth - depth)) (PDict (safe_details depth d))"
proof (induction depth v and depth d rule: safe_value_safe_details.induct)
  case (1 depth v)
  show ?case
  proof (cases "depth \<ge> max_detail_depth")
    case True
    then show ?thesis by (simp add: safe_value.simps)
  next
    case False
    then have "Suc max_detail_depth - depth = Suc (Suc max_detail_depth - (depth + 1))" by simp
    with False 1 show ?thesis by (cases v) (auto simp: safe_value.simps)
  qed
next
  case (2 depth d)
  have "clean (Suc max_detail_depth - depth) (safe_value depth v)" if "(k, v) \<in> set (take 100 d)" "\<not> forbidden_key (take 128 k)" for k v
    using 2(1) that by blast
  then have "clean_entries (Suc max_detail_depth - depth) (safe_details depth d)"
    unfolding safe_details_fold by (intro safe_fold_clean) (auto simp: clean_entries_def)
  moreover have "length (safe_details depth d) \<le> 100"
    using safe_fold_length [of "safe_value depth" "[]" "take 100 d"] by (simp add: safe_details_fold)
  ultimately show ?case by (simp add: clean_entries_def)
qed

end
