(* ===== verification/Action_Approval.thy ===== *)
theory Action_Approval
  imports Saas_Authorization
begin

text \<open>
  The signed approval of an Action, \<^verbatim>\<open>app/semantic/approval.py\<close>: a token of its own audience, short-lived, and bound to the
  proposal, to the principal who proposed and to the scope it was proposed under.
\<close>

definition approval_audience :: string where "approval_audience = ''semantic-action-approval''"

definition approval_claims :: "string list" where
  "approval_claims = [''exp'', ''iat'', ''iss'', ''aud'', ''sub'', ''jti'', ''proposal_id'', ''scope_hash'']"

text \<open>The key, algorithms and default issuer: those of the approval key where there is one, else those of the authorization tokens.\<close>

definition approval_source :: "(string, string) dict \<Rightarrow> saas_authorization_error + string \<times> string list \<times> string" where
  "approval_source env =
     (let explicit_key = str_strip (environ_get env ''SAAS_ACTION_APPROVAL_JWT_KEY'' '''') in
      if explicit_key \<noteq> ''''
      then Inr (explicit_key,
             filter (\<lambda>s. s \<noteq> '''') (map str_strip (split_on (CHR '','') (environ_get env ''SAAS_AUTHORIZATION_JWT_ALGORITHMS'' ''RS256''))),
             environ_get env ''SAAS_AUTHORIZATION_JWT_ISSUER'' ''saas-gateway'')
      else ebind (jwt_settings env (Some approval_audience)) (\<lambda>config. Inr (jc_key config, jc_algorithms config, jc_issuer config)))"

definition approval_settings :: "(string, string) dict \<Rightarrow> saas_authorization_error + jwt_config" where
  "approval_settings env =
     ebind (approval_source env) (\<lambda>(key, algorithms, default_issuer).
     let configured = environ_get env ''SAAS_ACTION_APPROVAL_JWT_ISSUER'' '''';
         issuer = str_strip (if configured = '''' then default_issuer else configured) in
     if key = '''' \<or> algorithms = [] \<or> issuer = ''''
     then Inl (SaasAuthorizationError ''Action approval verification is not configured'')
     else Inr \<lparr>jc_key = str_replace [CHR 0x5C, CHR ''n''] [CHR 0x0A] key, jc_algorithms = algorithms, jc_issuer = issuer,
            jc_audience = approval_audience\<rparr>)"

definition approval_lifetime :: "(string, string) dict \<Rightarrow> (string, pyval) dict \<Rightarrow> saas_authorization_error + unit" where
  "approval_lifetime env claims =
     (case (Option.bind (dget claims ''iat'') py_int, Option.bind (dget claims ''exp'') py_int,
            parse_int (environ_get env ''SAAS_ACTION_APPROVAL_MAX_TTL_SECONDS'' ''300'')) of
        (Some issued_at, Some expires_at, Some max_ttl) \<Rightarrow>
          if max_ttl \<le> 0 \<or> expires_at \<le> issued_at \<or> expires_at - issued_at > max_ttl
          then Inl (SaasAuthorizationError ''Action approval token lifetime exceeds policy'')
          else Inr ()
      | _ \<Rightarrow> Inl (SaasAuthorizationError ''Invalid action approval token lifetime''))"

definition verify_action_approval ::
  "jwt_decoder \<Rightarrow> (string, string) dict \<Rightarrow> string \<Rightarrow> string \<Rightarrow> string \<Rightarrow> string \<Rightarrow> saas_authorization_error + string" where
  "verify_action_approval jwt_decode env token proposal_id principal_id scope_hash =
     ebind (approval_settings env) (\<lambda>config.
     case jwt_decode config approval_claims token of
       None \<Rightarrow> Inl (SaasAuthorizationError ''Invalid action approval token'')
     | Some claims \<Rightarrow>
         ebind (approval_lifetime env claims) (\<lambda>_.
         if get_key claims ''proposal_id'' \<noteq> PStr proposal_id \<or> get_key claims ''sub'' \<noteq> PStr principal_id \<or>
            get_key claims ''scope_hash'' \<noteq> PStr scope_hash
         then Inl (SaasAuthorizationError ''Action approval does not match proposal'')
         else Inr (str_or (get_key claims ''approved_by'') principal_id)))"

text \<open>What an accepted token says.\<close>

lemma verify_action_approval_Inr:
  assumes "verify_action_approval jwt_decode env token proposal_id principal_id scope_hash = Inr by'"
  obtains config claims where "jwt_decode config approval_claims token = Some claims" and "jc_audience config = approval_audience"
    and "get_key claims ''proposal_id'' = PStr proposal_id" and "get_key claims ''sub'' = PStr principal_id"
    and "get_key claims ''scope_hash'' = PStr scope_hash" and "approval_lifetime env claims = Inr ()"
proof -
  from assms obtain config where config: "approval_settings env = Inr config"
    by (cases "approval_settings env") (auto simp: verify_action_approval_def)
  then have audience: "jc_audience config = approval_audience"
    by (auto simp: approval_settings_def Let_def ebind_Inr_iff split: if_split_asm)
  from assms config obtain claims where claims: "jwt_decode config approval_claims token = Some claims"
    by (cases "jwt_decode config approval_claims token") (auto simp: verify_action_approval_def)
  with assms config audience that show thesis
    by (auto simp: verify_action_approval_def ebind_Inr_iff split: if_split_asm)
qed

end
