(* ===== verification/Semantic_Api.thy ===== *)
theory Semantic_Api
  imports Semantic_Runtime Semantic_Audit Action_Approval
begin

text \<open>
  The service in front of ontology, queries and Actions, \<^verbatim>\<open>app/semantic/api.py\<close>: one handler per route, the checks every route
  depends on, and the errors it answers with. A call carries its headers and what the outside gives it: the instant, fresh
  identifiers and whether the audit table takes the row. Reading the JSON body into the fields of a request is left to the
  framework; the declared bounds of the fields are checked here. Candidate recall (\<^verbatim>\<open>faiss_recall.py\<close>) is the argument \<open>ap_recall\<close>.
\<close>

section \<open>Requests\<close>

record filter_request =
  fr_field :: string
  fr_op :: string
  fr_value :: pyval

record order_request =
  or_field :: string
  or_direction :: string

record action_proposal_request =
  ar_action_id :: string
  ar_target_id :: string
  ar_parameters :: "(string, pyval) dict"
  ar_reason :: "string option"
  ar_expected_object_version :: "string option"
  ar_idempotency_key :: "string option"

datatype api_request =
    Health
  | Get_Trace_Evidence string
  | Resolve_Ontology string bool int
  | Search_Objects string "filter_request list" "string list option" int
  | Get_Object string string
  | Query_Metric "string list" "string list" "filter_request list" "order_request list" int
  | Explain_Metric string
  | List_Actions
  | Propose_Action action_proposal_request
  | Preview_Action string
  | Approve_Action string string
  | Execute_Action string
  | Get_Action_Evidence string
  | Get_Action_Status string

definition sized :: "int \<Rightarrow> int \<Rightarrow> 'a list \<Rightarrow> bool" where
  "sized lo hi xs \<longleftrightarrow> lo \<le> int (length xs) \<and> int (length xs) \<le> hi"

definition valid_filter :: "filter_request \<Rightarrow> bool" where
  "valid_filter f \<longleftrightarrow> sized 1 128 (fr_field f) \<and> fr_op f \<in> set filter_operators"

definition valid_order :: "order_request \<Rightarrow> bool" where
  "valid_order o' \<longleftrightarrow> sized 1 128 (or_field o') \<and> or_direction o' \<in> set [''asc'', ''desc'']"

definition at_most :: "int \<Rightarrow> 'a list option \<Rightarrow> bool" where
  "at_most n x = (case x of None \<Rightarrow> True | Some xs \<Rightarrow> int (length xs) \<le> n)"

fun valid_request :: "api_request \<Rightarrow> bool" where
  "valid_request (Resolve_Ontology question include_facts fact_limit) \<longleftrightarrow> sized 1 4000 question \<and> 1 \<le> fact_limit \<and> fact_limit \<le> 20"
| "valid_request (Search_Objects object_type filters properties limit) \<longleftrightarrow>
     sized 1 128 object_type \<and> length filters \<le> 20 \<and> list_all valid_filter filters \<and> at_most 50 properties \<and> 1 \<le> limit \<and> limit \<le> 1000"
| "valid_request (Query_Metric metrics dimensions filters order_by limit) \<longleftrightarrow>
     sized 1 10 metrics \<and> length dimensions \<le> 20 \<and> length filters \<le> 20 \<and> list_all valid_filter filters \<and>
     length order_by \<le> 10 \<and> list_all valid_order order_by \<and> 1 \<le> limit \<and> limit \<le> 1000 \<and> distinct metrics"
| "valid_request (Propose_Action r) \<longleftrightarrow>
     sized 1 128 (ar_action_id r) \<and> sized 1 128 (ar_target_id r) \<and> at_most 2000 (ar_reason r) \<and>
     at_most 128 (ar_expected_object_version r) \<and> (case ar_idempotency_key r of None \<Rightarrow> False | Some k \<Rightarrow> sized 1 128 k)"
| "valid_request (Approve_Action proposal_id approval_token) \<longleftrightarrow> sized 1 8192 approval_token"
| "valid_request _ \<longleftrightarrow> True"

definition api_filters :: "filter_request list \<Rightarrow> semantic_filter list" where
  "api_filters fs = map (\<lambda>f. \<lparr>sf_field = fr_field f, sf_operator = fr_op f, sf_value = fr_value f\<rparr>) fs"

definition api_orders :: "order_request list \<Rightarrow> semantic_order list" where
  "api_orders os = map (\<lambda>o'. \<lparr>so_field = or_field o', so_direction = or_direction o'\<rparr>) os"

section \<open>Errors\<close>

text \<open>\<open>Server_Error\<close> is an exception no handler turned into an answer.\<close>

datatype api_error = Http_Error int pyval | Server_Error

datatype domain_error =
    Action_Failed action_error
  | Ontology_Failed ontology_error
  | Runtime_Failed runtime_error
  | Approval_Failed saas_authorization_error
  | Audit_Failed

definition http_detail :: "string \<Rightarrow> string \<Rightarrow> pyval" where
  "http_detail code message = PDict [(''code'', PStr code), (''message'', PStr message)]"

definition auth_error :: "semantic_auth_error \<Rightarrow> api_error" where
  "auth_error e = (case e of HTTPException status code message \<Rightarrow> Http_Error status (http_detail code message) | Unhandled \<Rightarrow> Server_Error)"

definition ontology_http :: "string \<Rightarrow> api_error" where
  "ontology_http message =
     (if starts_with message ''Unknown '' then Http_Error 404 (http_detail ''ONTOLOGY_NOT_FOUND'' message)
      else if str_contains ''not authorized'' message then Http_Error 403 (http_detail ''AUTHORIZATION_DENIED'' message)
      else if str_contains ''budget'' (str_lower message) then Http_Error 400 (http_detail ''QUERY_BUDGET_EXCEEDED'' message)
      else Http_Error 400 (http_detail ''INVALID_SEMANTIC_QUERY'' message))"

definition execution_failed :: api_error where
  "execution_failed = Http_Error 500 (http_detail ''EXECUTION_FAILED'' ''Semantic execution failed'')"

fun handle_domain_error :: "domain_error \<Rightarrow> api_error" where
  "handle_domain_error (Action_Failed (ActionError code message status)) = Http_Error status (http_detail code message)"
| "handle_domain_error (Action_Failed (Ontology_Raised message)) = ontology_http message"
| "handle_domain_error (Ontology_Failed (OntologyError message)) = ontology_http message"
| "handle_domain_error (Runtime_Failed (Query_Error (Semantic_Error (OntologyError message)))) = ontology_http message"
| "handle_domain_error (Runtime_Failed (Query_Error (Scope_Error (SqlScopeError message)))) =
     Http_Error 503 (http_detail ''POLICY_UNAVAILABLE'' ''Semantic query policy could not authorize the compiled plan'')"
| "handle_domain_error _ = execution_failed"

section \<open>The application\<close>

record recall_result =
  rl_candidate_ids :: Ontology.candidates
  rl_source :: string
  rl_index_version :: string
  rl_max_score :: pyval

record api_environment =
  ap_sha256 :: "string \<Rightarrow> string"
  ap_jwt_decode :: jwt_decoder
  ap_env :: "(string, string) dict"
  ap_scope_resolver :: "http_request \<Rightarrow> http_reply"
  ap_settings :: semantic_settings
  ap_evals_evidence_enabled :: bool
  ap_runtime :: semantic_runtime
  ap_recall :: "string \<Rightarrow> recall_result"
  ap_isoformat :: "int \<Rightarrow> string"

record api_call =
  cl_service_token :: "string option"
  cl_authorization_token :: "string option"
  cl_correlation :: correlation_headers
  cl_now :: int
  cl_new_id :: string
  cl_audit_id :: string
  cl_audit_available :: bool

record api_state =
  st_db :: action_db
  st_audit :: "semantic_audit_row list"

type_synonym api_answer = "(api_error + pyval) \<times> api_state"

definition traced :: "(string, pyval) dict \<Rightarrow> request_context \<Rightarrow> pyval" where
  "traced payload rc = PDict (dset ''semantic_trace_id'' (PStr (rc_semantic_trace_id rc)) payload)"

text \<open>The row is written and the answer given; where the row cannot be written, \<open>failure\<close> is.\<close>

definition record_audit ::
  "api_call \<Rightarrow> request_context \<Rightarrow> authorization_context \<Rightarrow> string \<Rightarrow> string \<Rightarrow> (string, pyval) dict \<Rightarrow> api_error \<Rightarrow> (string, pyval) dict
     \<Rightarrow> api_state \<Rightarrow> api_answer" where
  "record_audit call rc authorization event_type decision details failure payload st =
     (if cl_audit_available call
      then (Inr (traced payload rc),
            st\<lparr>st_audit := st_audit st @ [audit_row (cl_now call) (cl_audit_id call) rc authorization event_type decision details]\<rparr>)
      else (Inl failure, st))"

section \<open>Ontology and queries\<close>

definition no_candidates :: Ontology.candidates where
  "no_candidates = \<lparr>cand_objects = [], cand_metrics = [], cand_actions = []\<rparr>"

definition recall_metadata :: "recall_result \<Rightarrow> pyval" where
  "recall_metadata r =
     PDict [(''source'', PStr (rl_source r)), (''index_version'', PStr (rl_index_version r)),
       (''candidate_counts'', PDict [(''objects'', PInt (int (length (cand_objects (rl_candidate_ids r))))),
          (''metrics'', PInt (int (length (cand_metrics (rl_candidate_ids r))))),
          (''actions'', PInt (int (length (cand_actions (rl_candidate_ids r)))))]),
       (''max_score'', rl_max_score r)]"

definition has_semantic_matches :: "pyval \<Rightarrow> bool" where
  "has_semantic_matches context =
     (case context of PDict d \<Rightarrow> list_ex (\<lambda>kind. truthy (get_key d kind)) [''objects'', ''metrics'', ''actions''] | _ \<Rightarrow> False)"

definition resolve_with_recall ::
  "api_environment \<Rightarrow> string \<Rightarrow> authorization_context \<Rightarrow> string \<Rightarrow> bool \<Rightarrow> int
     \<Rightarrow> domain_error + (string, pyval) dict \<times> pyval \<times> recall_result" where
  "resolve_with_recall ap now authorization question include_facts fact_limit =
     (let rt = ap_runtime ap; recall = ap_recall ap question in
      ebind (recast Ontology_Failed (resolve (rt_ontology rt) question None no_candidates)) (\<lambda>exact.
      ebind (recast Runtime_Failed (resolve_business_context rt now authorization question include_facts fact_limit (rl_candidate_ids recall))) (\<lambda>result.
      ebind (recast Ontology_Failed (resolve (rt_ontology rt) question None (rl_candidate_ids recall))) (\<lambda>unfiltered.
      let sources = (if has_semantic_matches exact then [''string''] else []) @ (if rl_source recall = ''faiss'' then [''faiss''] else [])
      in Inr (dset ''resolution'' (PDict [(''sources'', text_list sources), (''semantic_recall'', recall_metadata recall)]) result,
           unfiltered, recall)))))"

definition entry_ids :: "(string, pyval) dict \<Rightarrow> string \<Rightarrow> pyval" where
  "entry_ids d k = PList (map (\<lambda>e. get_key e ''id'') (entries d k))"

definition resolve_ontology ::
  "api_environment \<Rightarrow> api_call \<Rightarrow> authorization_context \<Rightarrow> request_context \<Rightarrow> string \<Rightarrow> bool \<Rightarrow> int \<Rightarrow> api_state \<Rightarrow> api_answer" where
  "resolve_ontology ap call authorization rc question include_facts fact_limit st =
     (case resolve_with_recall ap (ap_isoformat ap (cl_now call)) authorization question include_facts fact_limit of
        Inl e \<Rightarrow> (Inl (handle_domain_error e), st)
      | Inr (result, unfiltered, recall) \<Rightarrow>
          let authorized = list_ex (\<lambda>e. truthy (get_key e ''id'')) (entries result ''actions'');
              denied = (case unfiltered of PDict d \<Rightarrow> truthy (get_key d ''actions'') | _ \<Rightarrow> False) \<and> \<not> authorized;
              decision = PDict [(''status'', PStr ''denied''), (''code'', PStr ''AUTHORIZATION_DENIED'')];
              sources = (case get_key result ''resolution'' of PDict d \<Rightarrow> get_key d ''sources'' | _ \<Rightarrow> PNone)
          in record_audit call rc authorization ''ontology.resolve'' (if denied then ''deny'' else ''allow'')
               [(''ontology_version'', get_key result ''ontology_version''), (''policy_version'', get_key result ''policy_version''),
                (''object_ids'', entry_ids result ''objects''), (''metric_ids'', entry_ids result ''metrics''),
                (''action_ids'', entry_ids result ''actions''), (''fact_group_count'', PInt (int (length (entries result ''facts'')))),
                (''source_refs'', get_default result ''source_refs'' (PList [])), (''action_decision'', if denied then decision else PNone),
                (''resolution_sources'', sources), (''semantic_recall'', recall_metadata recall)]
               execution_failed (if denied then dset ''action_authorization'' decision result else result) st)"

definition api_search_objects ::
  "api_environment \<Rightarrow> api_call \<Rightarrow> authorization_context \<Rightarrow> request_context \<Rightarrow> string \<Rightarrow> filter_request list \<Rightarrow> string list option \<Rightarrow> int
     \<Rightarrow> api_state \<Rightarrow> api_answer" where
  "api_search_objects ap call authorization rc object_type filters properties limit st =
     (case search_objects (ap_runtime ap) (ap_isoformat ap (cl_now call)) authorization object_type (api_filters filters) properties limit of
        Inl e \<Rightarrow> (Inl (handle_domain_error (Runtime_Failed e)), st)
      | Inr q \<Rightarrow>
          record_audit call rc authorization ''object.search'' ''allow''
            [(''object_type'', PStr object_type), (''property_names'', text_list (case properties of None \<Rightarrow> [] | Some ps \<Rightarrow> ps)),
             (''filter_fields'', text_list (map fr_field filters)), (''row_count'', PInt (int (length (qr_rows q)))),
             (''ontology_version'', PStr (qr_ontology_version q)), (''policy_version'', PStr (qr_policy_version q)),
             (''source_refs'', text_list (qr_source_refs q)), (''query_hash'', PStr (qr_normalized_query_hash q)),
             (''referenced_fields'', text_list (qr_referenced_fields q)),
             (''scope_predicates_applied'', PInt (int (qr_scope_predicates_applied q))), (''truncated'', PBool (qr_truncated q))]
            execution_failed (query_result_dict q) st)"

definition api_get_object ::
  "api_environment \<Rightarrow> api_call \<Rightarrow> authorization_context \<Rightarrow> request_context \<Rightarrow> string \<Rightarrow> string \<Rightarrow> api_state \<Rightarrow> api_answer" where
  "api_get_object ap call authorization rc object_type object_id st =
     (case get_object (ap_runtime ap) (ap_isoformat ap (cl_now call)) authorization object_type object_id of
        Inl e \<Rightarrow> (Inl (handle_domain_error (Runtime_Failed e)), st)
      | Inr q \<Rightarrow>
          record_audit call rc authorization ''object.get'' ''allow''
            [(''object_type'', PStr object_type), (''object_id'', PStr object_id), (''found'', PBool (qr_rows q \<noteq> [])),
             (''ontology_version'', PStr (qr_ontology_version q)), (''policy_version'', PStr (qr_policy_version q)),
             (''source_refs'', text_list (qr_source_refs q))]
            execution_failed (query_result_dict q) st)"

definition api_query_metric ::
  "api_environment \<Rightarrow> api_call \<Rightarrow> authorization_context \<Rightarrow> request_context \<Rightarrow> string list \<Rightarrow> string list \<Rightarrow> filter_request list \<Rightarrow> order_request list
     \<Rightarrow> int \<Rightarrow> api_state \<Rightarrow> api_answer" where
  "api_query_metric ap call authorization rc metrics dimensions filters order_by limit st =
     (case query_metrics (ap_runtime ap) (ap_isoformat ap (cl_now call)) authorization metrics dimensions (api_filters filters) (api_orders order_by) limit of
        Inl e \<Rightarrow> (Inl (handle_domain_error (Runtime_Failed e)), st)
      | Inr q \<Rightarrow>
          record_audit call rc authorization ''metric.query'' ''allow''
            [(''metric_ids'', text_list metrics), (''dimensions'', text_list dimensions), (''filter_fields'', text_list (map fr_field filters)),
             (''order_fields'', text_list (map or_field order_by)), (''row_count'', PInt (int (length (qr_rows q)))),
             (''semantic_versions'', PDict (map (\<lambda>(k, v). (k, PStr v)) (qr_semantic_versions q))),
             (''ontology_version'', PStr (qr_ontology_version q)), (''policy_version'', PStr (qr_policy_version q)),
             (''source_refs'', text_list (qr_source_refs q)), (''query_hash'', PStr (qr_normalized_query_hash q)),
             (''referenced_fields'', text_list (qr_referenced_fields q)),
             (''scope_predicates_applied'', PInt (int (qr_scope_predicates_applied q))), (''truncated'', PBool (qr_truncated q))]
            execution_failed (query_result_dict q) st)"

definition opt_value :: "string option \<Rightarrow> pyval" where
  "opt_value x = (case x of None \<Rightarrow> PNone | Some s \<Rightarrow> PStr s)"

definition explain_metric ::
  "api_environment \<Rightarrow> api_call \<Rightarrow> authorization_context \<Rightarrow> request_context \<Rightarrow> string \<Rightarrow> api_state \<Rightarrow> api_answer" where
  "explain_metric ap call authorization rc metric_id st =
     (let ontology = rt_ontology (ap_runtime ap) in
      case authorize_metric ontology metric_id authorization of
        Inl e \<Rightarrow> (Inl (handle_domain_error (Ontology_Failed e)), st)
      | Inr m \<Rightarrow>
          record_audit call rc authorization ''metric.explain'' ''allow''
            [(''metric_id'', PStr (md_name m)), (''metric_version'', PStr (md_version m)), (''ontology_version'', PStr (or_version ontology))]
            execution_failed
            [(''id'', PStr (md_name m)), (''label'', PStr (md_label m)), (''version'', PStr (md_version m)),
             (''object_type'', PStr (md_object_type m)), (''aggregation'', PStr (md_aggregation m)), (''field'', opt_value (md_field m)),
             (''dimensions'', text_list (md_dimensions m)), (''filters'', text_list (md_filters m)), (''unit'', opt_value (md_unit m)),
             (''grain'', opt_value (md_grain m)), (''time_semantics'', opt_value (md_time_semantics m)),
             (''source_refs'', text_list (md_source_refs m)), (''ontology_version'', PStr (or_version ontology))] st)"

section \<open>Actions\<close>

definition parameter_entry :: "parameter_definition \<Rightarrow> pyval" where
  "parameter_entry p =
     PDict [(''type'', PStr (prm_value_type p)), (''required'', PBool (prm_required p)), (''minimum'', prm_minimum p),
       (''maximum'', prm_maximum p), (''min_length'', prm_min_length p), (''max_length'', prm_max_length p)]"

definition listed_action :: "action_definition \<Rightarrow> pyval" where
  "listed_action a =
     PDict [(''id'', PStr (ad_name a)), (''label'', PStr (ad_label a)), (''version'', PStr (ad_version a)),
       (''target_type'', PStr (ad_target_type a)), (''scope_dimension'', PStr (ad_scope_dimension a)),
       (''parameters'', PDict (map (\<lambda>(k, p). (k, parameter_entry p)) (ad_parameters a))),
       (''approval_required'', PBool (ad_approval_required a))]"

definition list_actions ::
  "api_environment \<Rightarrow> api_call \<Rightarrow> authorization_context \<Rightarrow> request_context \<Rightarrow> api_state \<Rightarrow> api_answer" where
  "list_actions ap call authorization rc st =
     (let ontology = rt_ontology (ap_runtime ap) in
      case available_actions ontology authorization of
        Inl _ \<Rightarrow> (Inl Server_Error, st)
      | Inr actions \<Rightarrow>
          record_audit call rc authorization ''action.list'' ''allow''
            [(''action_ids'', text_list (map ad_name actions)), (''ontology_version'', PStr (or_version ontology)),
             (''policy_version'', PStr (or_policy_version ontology))]
            Server_Error
            [(''actions'', PList (map listed_action actions)), (''ontology_version'', PStr (or_version ontology)),
             (''policy_version'', PStr (or_policy_version ontology)), (''authorization_scope_hash'', PStr (ac_scope_hash authorization))] st)"

definition opt_instant :: "(int \<Rightarrow> string) \<Rightarrow> int option \<Rightarrow> pyval" where
  "opt_instant isoformat x = (case x of None \<Rightarrow> PNone | Some t \<Rightarrow> PStr (isoformat t))"

text \<open>The dictionaries \<^verbatim>\<open>_proposal_dict\<close> and \<^verbatim>\<open>_execution_with_proposal\<close> build.\<close>

definition proposal_payload :: "(int \<Rightarrow> string) \<Rightarrow> proposal_view \<Rightarrow> (string, pyval) dict" where
  "proposal_payload isoformat v =
     [(''proposal_id'', PStr (pv_proposal_id v)), (''action_id'', PStr (pv_action_id v)), (''action_version'', PStr (pv_action_version v)),
      (''target_type'', PStr (pv_target_type v)), (''target_id'', PStr (pv_target_id v)), (''parameters'', PDict (pv_parameters v)),
      (''reason'', opt_value (pv_reason v)), (''status'', PStr (status_str (pv_status v))),
      (''approval_required'', PBool (pv_approval_required v)), (''approved_by'', opt_value (pv_approved_by v)),
      (''scope_hash'', PStr (pv_scope_hash v)), (''permission_version'', PStr (pv_permission_version v)),
      (''expected_object_version'', opt_value (pv_expected_object_version v)), (''run_id'', PStr (pv_run_id v)),
      (''thread_id'', PStr (pv_thread_id v)), (''tool_call_id'', PStr (pv_tool_call_id v)),
      (''semantic_trace_id'', PStr (pv_semantic_trace_id v)), (''created_at'', PStr (isoformat (pv_created_at v))),
      (''updated_at'', PStr (isoformat (pv_updated_at v)))]"

definition execution_payload :: "(int \<Rightarrow> string) \<Rightarrow> execution_proposal_view \<Rightarrow> (string, pyval) dict" where
  "execution_payload isoformat v =
     [(''execution_id'', PStr (ev_execution_id v)), (''proposal_id'', PStr (ev_proposal_id v)), (''status'', PStr (status_str (ev_status v))),
      (''result'', (case ev_result v of None \<Rightarrow> PNone | Some d \<Rightarrow> PDict d)), (''error_code'', opt_value (ev_error_code v)),
      (''error_detail'', opt_value (ev_error_detail v)), (''started_at'', opt_instant isoformat (ev_started_at v)),
      (''finished_at'', opt_instant isoformat (ev_finished_at v)), (''created_at'', PStr (isoformat (ev_created_at v))),
      (''updated_at'', PStr (isoformat (ev_updated_at v))), (''action_id'', PStr (ev_action_id v)),
      (''action_version'', PStr (ev_action_version v)), (''target_type'', PStr (ev_target_type v)), (''target_id'', PStr (ev_target_id v)),
      (''scope_hash'', PStr (ev_scope_hash v)), (''permission_version'', PStr (ev_permission_version v))]"

definition proposal_audit :: "proposal_view \<Rightarrow> (string, pyval) dict" where
  "proposal_audit v =
     [(''proposal_id'', PStr (pv_proposal_id v)), (''action_id'', PStr (pv_action_id v)), (''action_version'', PStr (pv_action_version v)),
      (''target_type'', PStr (pv_target_type v)), (''target_id'', PStr (pv_target_id v)), (''status'', PStr (status_str (pv_status v)))]"

definition propose_action ::
  "api_environment \<Rightarrow> api_call \<Rightarrow> authorization_context \<Rightarrow> request_context \<Rightarrow> action_proposal_request \<Rightarrow> api_state \<Rightarrow> api_answer" where
  "propose_action ap call authorization rc body st =
     (case propose (rt_ontology (ap_runtime ap)) (cl_now call) (cl_new_id call) authorization (ar_action_id body) (ar_target_id body)
             (ar_parameters body) (ar_reason body) (case ar_idempotency_key body of None \<Rightarrow> '''' | Some k \<Rightarrow> k)
             (ar_expected_object_version body) rc (st_db st) of
        Inl e \<Rightarrow> (Inl (handle_domain_error (Action_Failed e)), st)
      | Inr (v, db) \<Rightarrow>
          record_audit call rc authorization ''action.propose'' ''allow'' (proposal_audit v) execution_failed
            (proposal_payload (ap_isoformat ap) v) (st\<lparr>st_db := db\<rparr>))"

definition proposal_not_found :: "api_error" where
  "proposal_not_found = Http_Error 404 (http_detail ''ACTION_NOT_FOUND'' ''Action proposal not found'')"

definition preview_action ::
  "api_environment \<Rightarrow> api_call \<Rightarrow> authorization_context \<Rightarrow> request_context \<Rightarrow> string \<Rightarrow> api_state \<Rightarrow> api_answer" where
  "preview_action ap call authorization rc proposal_id st =
     (case get_proposal proposal_id authorization (st_db st) of
        None \<Rightarrow> (Inl proposal_not_found, st)
      | Some proposal \<Rightarrow>
          (case get_object (ap_runtime ap) (ap_isoformat ap (cl_now call)) authorization (pv_target_type proposal) (pv_target_id proposal) of
             Inl e \<Rightarrow> (Inl (handle_domain_error (Runtime_Failed e)), st)
           | Inr target \<Rightarrow>
               (case qr_rows target of
                  [] \<Rightarrow> (Inl (handle_domain_error (Action_Failed (ActionError ''AUTHORIZATION_DENIED'' ''Action target is not visible'' 403))), st)
                | row # _ \<Rightarrow>
                    (case preview (rt_ontology (ap_runtime ap)) (cl_now call) proposal_id authorization row (st_db st) of
                       Inl e \<Rightarrow> (Inl (handle_domain_error (Action_Failed e)), st)
                     | Inr ((v, snapshot), db) \<Rightarrow>
                         record_audit call rc authorization ''action.preview'' ''allow''
                           (proposal_audit v @ [(''approval_required'', PBool (pv_approval_required v))]) execution_failed
                           (proposal_payload (ap_isoformat ap) v @ [(''target_snapshot'', PDict snapshot)]) (st\<lparr>st_db := db\<rparr>)))))"

definition approve_action ::
  "api_environment \<Rightarrow> api_call \<Rightarrow> authorization_context \<Rightarrow> request_context \<Rightarrow> string \<Rightarrow> string \<Rightarrow> api_state \<Rightarrow> api_answer" where
  "approve_action ap call authorization rc proposal_id approval_token st =
     (case get_proposal proposal_id authorization (st_db st) of
        None \<Rightarrow> (Inl proposal_not_found, st)
      | Some _ \<Rightarrow>
          (case verify_action_approval (ap_jwt_decode ap) (ap_env ap) approval_token proposal_id (ac_principal_id authorization)
                  (ac_scope_hash authorization) of
             Inl (SaasAuthorizationError m) \<Rightarrow> (Inl (Http_Error 403 (http_detail ''AUTHORIZATION_DENIED'' m)), st)
           | Inr approved_by \<Rightarrow>
               (case approve (cl_now call) proposal_id authorization approved_by (st_db st) of
                  Inl e \<Rightarrow> (Inl (handle_domain_error (Action_Failed e)), st)
                | Inr (v, db) \<Rightarrow>
                    record_audit call rc authorization ''action.approve'' ''allow''
                      [(''proposal_id'', PStr (pv_proposal_id v)), (''action_id'', PStr (pv_action_id v)),
                       (''action_version'', PStr (pv_action_version v)), (''target_id'', PStr (pv_target_id v)),
                       (''status'', PStr (status_str (pv_status v))), (''approved_by'', opt_value (pv_approved_by v))]
                      execution_failed (proposal_payload (ap_isoformat ap) v) (st\<lparr>st_db := db\<rparr>))))"

definition execute_action ::
  "api_environment \<Rightarrow> api_call \<Rightarrow> authorization_context \<Rightarrow> request_context \<Rightarrow> string \<Rightarrow> api_state \<Rightarrow> api_answer" where
  "execute_action ap call authorization rc proposal_id st =
     (case enqueue_execution (cl_now call) (cl_new_id call) proposal_id authorization (st_db st) of
        Inl e \<Rightarrow> (Inl (handle_domain_error (Action_Failed e)), st)
      | Inr (v, db) \<Rightarrow>
          record_audit call rc authorization ''action.enqueue'' ''allow''
            [(''proposal_id'', PStr (ev_proposal_id v)), (''execution_id'', PStr (ev_execution_id v)),
             (''status'', PStr (status_str (ev_status v)))]
            execution_failed (execution_payload (ap_isoformat ap) v) (st\<lparr>st_db := db\<rparr>))"

definition not_found :: api_error where "not_found = Http_Error 404 (PStr ''Not found'')"

definition status_list :: "action_status list \<Rightarrow> pyval" where "status_list xs = text_list (map status_str xs)"

definition get_action_evidence ::
  "api_environment \<Rightarrow> authorization_context \<Rightarrow> string \<Rightarrow> api_state \<Rightarrow> api_answer" where
  "get_action_evidence ap authorization proposal_id st =
     (if \<not> ap_evals_evidence_enabled ap then (Inl not_found, st)
      else case get_proposal_evidence proposal_id authorization (st_db st) of
        None \<Rightarrow> (Inl proposal_not_found, st)
      | Some e \<Rightarrow>
          (Inr (PDict [(''proposal'', PDict (proposal_payload (ap_isoformat ap) (pe_proposal e))),
             (''proposal_transitions'', status_list (pe_proposal_transitions e)),
             (''execution'', (case pe_execution e of None \<Rightarrow> PNone | Some x \<Rightarrow> PDict (execution_payload (ap_isoformat ap) x))),
             (''execution_transitions'', status_list (pe_execution_transitions e))]), st))"

definition get_action_status ::
  "api_environment \<Rightarrow> api_call \<Rightarrow> authorization_context \<Rightarrow> request_context \<Rightarrow> string \<Rightarrow> api_state \<Rightarrow> api_answer" where
  "get_action_status ap call authorization rc execution_id st =
     (case get_execution execution_id authorization (st_db st) of
        None \<Rightarrow> (Inl (Http_Error 404 (http_detail ''ACTION_NOT_FOUND'' ''Action execution not found'')), st)
      | Some v \<Rightarrow>
          record_audit call rc authorization ''action.status'' ''allow''
            [(''proposal_id'', PStr (ev_proposal_id v)), (''execution_id'', PStr (ev_execution_id v)),
             (''status'', PStr (status_str (ev_status v))), (''error_code'', opt_value (ev_error_code v))]
            Server_Error (execution_payload (ap_isoformat ap) v) st)"

section \<open>Evidence of a trace\<close>

definition get_semantic_trace_evidence ::
  "api_environment \<Rightarrow> authorization_context \<Rightarrow> string \<Rightarrow> api_state \<Rightarrow> api_answer" where
  "get_semantic_trace_evidence ap authorization trace_id st =
     (if \<not> ap_evals_evidence_enabled ap then (Inl not_found, st)
      else case list_for_trace (ap_isoformat ap) trace_id authorization (st_audit st) of
        [] \<Rightarrow> (Inl (Http_Error 404 (http_detail ''AUDIT_NOT_FOUND'' ''Semantic audit trace not found'')), st)
      | events \<Rightarrow> (Inr (PDict [(''semantic_trace_id'', PStr trace_id), (''events'', PList events)]), st))"

section \<open>Routing\<close>

definition handle ::
  "api_environment \<Rightarrow> api_call \<Rightarrow> authorization_context \<Rightarrow> request_context \<Rightarrow> api_request \<Rightarrow> api_state \<Rightarrow> api_answer" where
  "handle ap call authorization rc request =
     (case request of
        Health \<Rightarrow> (\<lambda>st. (Inr (PDict [(''status'', PStr ''ok'')]), st))
      | Get_Trace_Evidence trace_id \<Rightarrow> get_semantic_trace_evidence ap authorization trace_id
      | Resolve_Ontology question include_facts fact_limit \<Rightarrow> resolve_ontology ap call authorization rc question include_facts fact_limit
      | Search_Objects object_type filters properties limit \<Rightarrow> api_search_objects ap call authorization rc object_type filters properties limit
      | Get_Object object_type object_id \<Rightarrow> api_get_object ap call authorization rc object_type object_id
      | Query_Metric metrics dimensions filters order_by limit \<Rightarrow>
          api_query_metric ap call authorization rc metrics dimensions filters order_by limit
      | Explain_Metric metric_id \<Rightarrow> explain_metric ap call authorization rc metric_id
      | List_Actions \<Rightarrow> list_actions ap call authorization rc
      | Propose_Action body \<Rightarrow> propose_action ap call authorization rc body
      | Preview_Action proposal_id \<Rightarrow> preview_action ap call authorization rc proposal_id
      | Approve_Action proposal_id approval_token \<Rightarrow> approve_action ap call authorization rc proposal_id approval_token
      | Execute_Action proposal_id \<Rightarrow> execute_action ap call authorization rc proposal_id
      | Get_Action_Evidence proposal_id \<Rightarrow> get_action_evidence ap authorization proposal_id
      | Get_Action_Status execution_id \<Rightarrow> get_action_status ap call authorization rc execution_id)"

definition validation_error :: api_error where
  "validation_error = Http_Error 400 (http_detail ''INVALID_SEMANTIC_QUERY'' ''Semantic request validation failed'')"

text \<open>The two dependencies of a route are resolved first, then the fields of the request are checked.\<close>

definition serve :: "api_environment \<Rightarrow> api_call \<Rightarrow> api_request \<Rightarrow> api_state \<Rightarrow> api_answer" where
  "serve ap call request st =
     (if request = Health then (Inr (PDict [(''status'', PStr ''ok'')]), st)
      else
        case require_semantic_authorization (ap_sha256 ap) (ap_jwt_decode ap) (ap_env ap) (ap_scope_resolver ap) (ap_settings ap)
               (cl_service_token call) (cl_authorization_token call) of
          Inl e \<Rightarrow> (Inl (auth_error e), st)
        | Inr authorization \<Rightarrow>
            (case require_semantic_request_context (cl_correlation call) of
               Inl e \<Rightarrow> (Inl (auth_error e), st)
             | Inr rc \<Rightarrow>
                 if \<not> valid_request request then (Inl validation_error, st)
                 else handle ap call authorization rc request st))"

end
