(* ===== verification/Action_Lifecycle.thy ===== *)
theory Action_Lifecycle
  imports Action_Repository
begin

text \<open>
  The correctness of the Action repository. \<open>table_step\<close> describes what a transaction may do to the tables
  and every operation is shown to do that; the invariants are proved for \<open>table_step\<close> and lifted to every
  sequence of transactions. \<open>life_step\<close> is the abstract lifecycle of one proposal, which the repository
  refines.
\<close>

section \<open>Rows\<close>

lemma table_sels [simp]:
  "db_proposals (record_transition now ty i f t r db) = db_proposals db"
  "db_executions (record_transition now ty i f t r db) = db_executions db"
  "db_executions (put_proposal p db) = db_executions db"
  "db_proposals (put_execution e db) = db_proposals db"
  "db_transitions (put_proposal p db) = db_transitions db"
  "db_transitions (put_execution e db) = db_transitions db"
  by (simp_all add: record_transition_def put_proposal_def put_execution_def)

lemma find_map_replace:
  "find (\<lambda>q. k q = i) (map (\<lambda>q. if k q = k p then p else q) xs) =
     (if i = k p then map_option (\<lambda>_. p) (find (\<lambda>q. k q = i) xs) else find (\<lambda>q. k q = i) xs)"
  by (induction xs) auto

lemma find_proposal_put:
  "find_proposal (put_proposal p db) i =
     (if i = pr_id p then map_option (\<lambda>_. p) (find_proposal db i) else find_proposal db i)"
  by (simp add: find_proposal_def put_proposal_def find_map_replace)

lemma find_execution_put:
  "find_execution (put_execution e db) i =
     (if i = ex_id e then map_option (\<lambda>_. e) (find_execution db i) else find_execution db i)"
  by (simp add: find_execution_def put_execution_def find_map_replace)

lemma find_key_Some_iff:
  "distinct (map k xs) \<Longrightarrow> find (\<lambda>q. k q = i) xs = Some x \<longleftrightarrow> x \<in> set xs \<and> k x = i"
  by (induction xs) (auto split: if_splits)

lemma find_key_None_iff: "find (\<lambda>q. k q = i) xs = None \<longleftrightarrow> i \<notin> k ` set xs"
  by (auto simp: find_None_iff)

lemma find_append: "find P (xs @ ys) = (case find P xs of None \<Rightarrow> find P ys | Some x \<Rightarrow> Some x)"
  by (induction xs) auto

lemma find_other_simps [simp]:
  "find_proposal (record_transition now ty i f t r db) = find_proposal db"
  "find_execution (record_transition now ty i f t r db) = find_execution db"
  "execution_of (record_transition now ty i f t r db) = execution_of db"
  "find_execution (put_proposal p db) = find_execution db"
  "execution_of (put_proposal p db) = execution_of db"
  "find_proposal (put_execution e db) = find_proposal db"
  by (simp_all add: fun_eq_iff find_proposal_def find_execution_def execution_of_def)

section \<open>Well-formed databases\<close>

definition active_status :: "action_status \<Rightarrow> bool" where
  "active_status s \<longleftrightarrow> s = EXECUTING \<or> s = COMPENSATING"

definition terminal_status :: "action_status \<Rightarrow> bool" where
  "terminal_status s \<longleftrightarrow> s = SUCCEEDED \<or> s = FAILED \<or> s = COMPENSATED"

text \<open>An execution is ready, leased by a worker, or finished; it holds a lease exactly while it is active.\<close>

definition wf_execution :: "action_execution_row \<Rightarrow> bool" where
  "wf_execution e \<longleftrightarrow>
     (ex_status e = READY \<or> active_status (ex_status e) \<or> terminal_status (ex_status e)) \<and>
     (ex_lease_owner e \<noteq> None \<longleftrightarrow> active_status (ex_status e)) \<and>
     (ex_lease_expires_at e \<noteq> None \<longleftrightarrow> active_status (ex_status e)) \<and>
     (ex_started_at e \<noteq> None \<longleftrightarrow> ex_status e \<noteq> READY) \<and>
     (ex_finished_at e \<noteq> None \<longleftrightarrow> terminal_status (ex_status e))"

definition request_key :: "action_proposal_row \<Rightarrow> string \<times> string" where
  "request_key p = (pr_principal_id p, pr_idempotency_key p)"

definition wf_db :: "action_db \<Rightarrow> bool" where
  "wf_db db \<longleftrightarrow>
     distinct (map pr_id (db_proposals db)) \<and> distinct (map request_key (db_proposals db)) \<and>
     distinct (map ex_id (db_executions db)) \<and> distinct (map ex_proposal_id (db_executions db)) \<and>
     (\<forall>e \<in> set (db_executions db). find_proposal db (ex_proposal_id e) \<noteq> None \<and> wf_execution e)"

lemma find_proposal_iff:
  "wf_db db \<Longrightarrow> find_proposal db i = Some p \<longleftrightarrow> p \<in> set (db_proposals db) \<and> pr_id p = i"
  unfolding find_proposal_def wf_db_def by (intro find_key_Some_iff) blast

lemma find_execution_iff:
  "wf_db db \<Longrightarrow> find_execution db i = Some e \<longleftrightarrow> e \<in> set (db_executions db) \<and> ex_id e = i"
  unfolding find_execution_def wf_db_def by (intro find_key_Some_iff) blast

lemma execution_of_iff:
  "wf_db db \<Longrightarrow> execution_of db i = Some e \<longleftrightarrow> e \<in> set (db_executions db) \<and> ex_proposal_id e = i"
  unfolding execution_of_def wf_db_def by (intro find_key_Some_iff) blast

section \<open>What a transaction does to the tables\<close>

fun linked :: "action_status option \<Rightarrow> action_transition_row list \<Rightarrow> action_status option \<Rightarrow> bool" where
  "linked s [] t = (s = t)"
| "linked s (x # xs) t = (tr_from_status x = s \<and> linked (Some (tr_to_status x)) xs t)"

definition about :: "string \<Rightarrow> string \<Rightarrow> action_transition_row \<Rightarrow> bool" where
  "about ty i t \<longleftrightarrow> tr_entity_type t = ty \<and> tr_entity_id t = i"

text \<open>A review by the API: a preview, or an approval.\<close>

inductive review :: "action_proposal_row \<Rightarrow> action_proposal_row \<Rightarrow> bool" where
  review_preview: "pr_status p \<in> {PROPOSED, PENDING_APPROVAL, READY} \<Longrightarrow>
    review p (p\<lparr>pr_status := (if pr_approval_required p then PENDING_APPROVAL else READY), pr_updated_at := now\<rparr>)"
| review_approve: "pr_status p = PENDING_APPROVAL \<Longrightarrow>
    review p (p\<lparr>pr_status := READY, pr_approved_by := Some by', pr_approved_at := Some now, pr_updated_at := now\<rparr>)"

text \<open>The progress of an execution: claimed, compensating, or finished.\<close>

inductive progress :: "action_status \<Rightarrow> action_execution_row \<Rightarrow> action_execution_row \<Rightarrow> bool" where
  progress_claim: "claimable now e \<Longrightarrow> ps \<in> {READY, EXECUTING, COMPENSATING} \<Longrightarrow>
    progress ps e (e\<lparr>ex_status := (if ex_status e = COMPENSATING then COMPENSATING else EXECUTING),
      ex_lease_owner := Some w, ex_lease_expires_at := Some until,
      ex_started_at := (case ex_started_at e of None \<Rightarrow> Some now | Some t \<Rightarrow> Some t), ex_updated_at := now\<rparr>)"
| progress_compensate: "ex_lease_owner e = Some w \<Longrightarrow> ex_status e = EXECUTING \<Longrightarrow>
    progress ps e (e\<lparr>ex_status := COMPENSATING, ex_error_code := Some code,
      ex_error_detail := Some detail, ex_updated_at := now\<rparr>)"
| progress_finish: "ex_lease_owner e = Some w \<Longrightarrow>
    s \<in> {SUCCEEDED, FAILED} \<or> (s = COMPENSATED \<and> ex_status e = COMPENSATING) \<Longrightarrow>
    progress ps e (e\<lparr>ex_status := s, ex_result := result, ex_error_code := oc, ex_error_detail := od,
      ex_lease_owner := None, ex_lease_expires_at := None, ex_finished_at := Some now, ex_updated_at := now\<rparr>)"

definition tables :: "action_db \<Rightarrow> action_db" where
  "tables db = db\<lparr>db_transitions := []\<rparr>"

definition new_execution :: "int \<Rightarrow> string \<Rightarrow> string \<Rightarrow> action_execution_row" where
  "new_execution now new_id pid = \<lparr>ex_id = new_id, ex_proposal_id = pid, ex_status = READY, ex_result = None,
     ex_error_code = None, ex_error_detail = None, ex_lease_owner = None, ex_lease_expires_at = None,
     ex_started_at = None, ex_finished_at = None, ex_created_at = now, ex_updated_at = now\<rparr>"

text \<open>The constructors carry the rows written and the transitions \<open>ts\<close> appended.\<close>

inductive table_step :: "ontology_registry \<Rightarrow> action_db \<Rightarrow> action_transition_row list \<Rightarrow> action_db \<Rightarrow> bool"
  for ontology where
  T_same: "table_step ontology db [] db"
| T_propose: "check_proposal ontology auth aid tid ps = Inr (action, validated) \<Longrightarrow>
    row = new_proposal now new_id auth action tid validated reason key ev rc \<Longrightarrow>
    \<not> proposal_taken db row \<Longrightarrow> tables db' = tables (db\<lparr>db_proposals := db_proposals db @ [row]\<rparr>) \<Longrightarrow>
    ts = [t] \<Longrightarrow> about ''proposal'' new_id t \<Longrightarrow> linked None [t] (Some PROPOSED) \<Longrightarrow>
    table_step ontology db ts db'"
| T_review: "find_proposal db (pr_id p) = Some p \<Longrightarrow> review p p' \<Longrightarrow> tables db' = tables (put_proposal p' db) \<Longrightarrow>
    (\<forall>t \<in> set ts. about ''proposal'' (pr_id p) t) \<Longrightarrow> linked (Some (pr_status p)) ts (Some (pr_status p')) \<Longrightarrow>
    table_step ontology db ts db'"
| T_enqueue: "find_proposal db pid = Some p \<Longrightarrow> pr_status p \<in> {READY, EXECUTING, SUCCEEDED, FAILED} \<Longrightarrow>
    execution_of db pid = None \<Longrightarrow> find_execution db new_id = None \<Longrightarrow>
    tables db' = tables (db\<lparr>db_executions := db_executions db @ [new_execution now new_id pid]\<rparr>) \<Longrightarrow>
    ts = [t] \<Longrightarrow> about ''execution'' new_id t \<Longrightarrow> tr_to_status t = READY \<Longrightarrow>
    table_step ontology db ts db'"
| T_progress: "find_execution db (ex_id e) = Some e \<Longrightarrow> find_proposal db (ex_proposal_id e) = Some p \<Longrightarrow>
    progress (pr_status p) e e' \<Longrightarrow>
    tables db' = tables (put_proposal (p\<lparr>pr_status := ex_status e', pr_updated_at := now\<rparr>) (put_execution e' db)) \<Longrightarrow>
    set ts = {t, u} \<Longrightarrow> filter (about ''proposal'' (pr_id p)) ts = [t] \<Longrightarrow> linked (Some (pr_status p)) [t] (Some (ex_status e')) \<Longrightarrow>
    filter (about ''execution'' (ex_id e)) ts = [u] \<Longrightarrow> tr_to_status u = ex_status e' \<Longrightarrow>
    table_step ontology db ts db'"

text \<open>Every transaction is such a step.\<close>

abbreviation writes :: "ontology_registry \<Rightarrow> action_db \<Rightarrow> action_db \<Rightarrow> bool" where
  "writes ontology db db' \<equiv> \<exists>ts. table_step ontology db ts db' \<and> db_transitions db' = db_transitions db @ ts"

lemma tables_record_transition [simp]: "tables (record_transition now ty i f t r db) = tables db"
  by (simp add: tables_def record_transition_def)

lemma transitions_record_transition:
  "\<exists>x. db_transitions (record_transition now ty i f t r db) = db_transitions db @ [x] \<and>
     tr_entity_type x = ty \<and> tr_entity_id x = i \<and> tr_from_status x = f \<and> tr_to_status x = t \<and> tr_reason x = r"
  by (simp add: record_transition_def)

lemma owned_proposal_Inr:
  "owned_proposal pid auth db = Inr row \<Longrightarrow> find_proposal db pid = Some row \<and> pr_id row = pid \<and>
     pr_principal_id row = ac_principal_id auth \<and> pr_tenant_id row = ac_tenant_id auth \<and>
     pr_scope_hash row = ac_scope_hash auth \<and> pr_permission_version row = ac_permission_version auth"
  by (auto simp: owned_proposal_def find_proposal_def find_Some_iff Let_def split: option.split_asm if_split_asm)

lemma propose_writes:
  assumes "propose ontology now new_id auth aid tid ps reason key ev rc db = Inr (v, db')"
  shows "writes ontology db db'"
proof -
  from assms obtain action validated where c: "check_proposal ontology auth aid tid ps = Inr (action, validated)"
    by (auto simp: propose_def ebind_Inr_iff)
  define row where "row = new_proposal now new_id auth action tid validated reason key ev rc"
  show ?thesis
  proof (cases "proposal_taken db row")
    case True
    with assms c have "db' = db"
      by (auto simp: propose_def row_def Let_def split: option.split_asm if_split_asm)
    then show ?thesis using T_same by auto
  next
    case False
    with assms c have db': "db' = record_transition now ''proposal'' new_id None PROPOSED None
        (db\<lparr>db_proposals := db_proposals db @ [row]\<rparr>)"
      by (simp add: propose_def row_def [symmetric] Let_def)
    show ?thesis
      using False c row_def
      by (intro exI [of _ "[_]"] conjI, intro T_propose [where row = row])
        (auto simp: db' tables_def record_transition_def about_def)
  qed
qed

lemma approve_writes:
  assumes "approve now pid auth by' db = Inr (v, db')"
  shows "writes ontology db db'"
proof -
  from assms obtain row where row: "owned_proposal pid auth db = Inr row"
    by (auto simp: approve_def ebind_Inr_iff)
  show ?thesis
  proof (cases "pr_status row = READY")
    case True
    with assms row have "db' = db" by (simp add: approve_def)
    then show ?thesis using T_same by auto
  next
    case False
    with assms row have s: "pr_status row = PENDING_APPROVAL"
      by (auto simp: approve_def split: if_split_asm)
    let ?row' = "row\<lparr>pr_status := READY, pr_approved_by := Some by', pr_approved_at := Some now, pr_updated_at := now\<rparr>"
    have db': "db' = record_transition now ''proposal'' (pr_id row) (Some PENDING_APPROVAL) READY (Some ''approved'')
        (put_proposal ?row' db)"
      using assms row s by (simp add: approve_def Let_def)
    have "review row ?row'" using s by (rule review_approve)
    with owned_proposal_Inr [OF row] s show ?thesis
      by (intro exI [of _ "[_]"] conjI, intro T_review [where p = row and p' = ?row'])
        (auto simp: db' tables_def record_transition_def about_def)
  qed
qed

lemma preview_writes:
  assumes "preview ontology now pid auth snapshot db = Inr (v, db')"
  shows "writes ontology db db'"
proof -
  from assms obtain row where row: "owned_proposal pid auth db = Inr row"
    by (auto simp: preview_def ebind_Inr_iff)
  let ?s = "if pr_approval_required row then PENDING_APPROVAL else READY"
  let ?row' = "row\<lparr>pr_status := ?s, pr_updated_at := now\<rparr>"
  from assms row have s: "pr_status row \<in> {PROPOSED, PENDING_APPROVAL, READY}"
    by (auto simp: preview_def split: if_split_asm)
  have db': "db' = record_transition now ''proposal'' (pr_id row) (Some PREVIEWED) ?s None
      (record_transition now ''proposal'' (pr_id row) (Some VALIDATED) PREVIEWED None
        (record_transition now ''proposal'' (pr_id row) (Some (pr_status row)) VALIDATED None
          (put_proposal ?row' db)))"
    using assms row s by (auto simp: preview_def ebind_Inr_iff Let_def simp del: if_split)
  have "review row ?row'" using s by (rule review_preview)
  with owned_proposal_Inr [OF row] show ?thesis
    by (intro exI [of _ "[_, _, _]"] conjI, intro T_review [where p = row and p' = ?row'])
      (auto simp: db' tables_def record_transition_def about_def simp del: if_split)
qed

lemma enqueue_writes:
  assumes "enqueue_execution now new_id pid auth db = Inr (v, db')"
  shows "writes ontology db db'"
proof -
  from assms obtain p where p: "owned_proposal pid auth db = Inr p"
    by (auto simp: enqueue_execution_def ebind_Inr_iff)
  with assms have s: "pr_status p \<in> {READY, EXECUTING, SUCCEEDED, FAILED}"
    by (auto simp: enqueue_execution_def split: if_split_asm)
  show ?thesis
  proof (cases "execution_of db pid")
    case (Some e)
    with assms p s have "db' = db" by (auto simp: enqueue_execution_def)
    then show ?thesis using T_same by auto
  next
    case None
    with assms p s have new: "find_execution db new_id = None"
      by (auto simp: enqueue_execution_def split: if_split_asm)
    with assms p s None have db': "db' = record_transition now ''execution'' new_id None READY None
        (db\<lparr>db_executions := db_executions db @ [new_execution now new_id pid]\<rparr>)"
      by (auto simp: enqueue_execution_def Let_def new_execution_def)
    show ?thesis
      using owned_proposal_Inr [OF p] s None new
      by (intro exI [of _ "[_]"] conjI, intro T_enqueue [where pid = pid and p = p and new_id = new_id and now = now])
        (auto simp: db' tables_def record_transition_def about_def)
  qed
qed

lemma next_claimable_Some:
  assumes "next_claimable now db = Some e"
  shows "e \<in> set (db_executions db)" and "claimable now e"
    and "\<And>x. x \<in> set (db_executions db) \<Longrightarrow> claimable now x \<Longrightarrow> ex_created_at e \<le> ex_created_at x"
proof -
  let ?xs = "filter (claimable now) (db_executions db)"
  from assms obtain rest where s: "sort_key ex_created_at ?xs = e # rest"
    by (auto simp: next_claimable_def split: list.split_asm)
  then have "e \<in> set ?xs" by (metis list.set_intros(1) set_sort)
  then show "e \<in> set (db_executions db)" "claimable now e" by auto
  have "sorted (map ex_created_at (e # rest))" by (metis s sorted_sort_key)
  moreover have "set (e # rest) = set ?xs" by (metis s set_sort)
  ultimately show "ex_created_at e \<le> ex_created_at x" if "x \<in> set (db_executions db)" "claimable now x" for x
    using that by fastforce
qed

lemma proposal_execution_types [simp]:
  "about ''proposal'' i x \<Longrightarrow> \<not> about ''execution'' j x"
  by (auto simp: about_def)

lemma claim_writes:
  assumes wf: "wf_db db" and "claim_ready now w lease db = (r, db')"
  shows "writes ontology db db'"
proof (cases "db' = db")
  case True
  then show ?thesis using T_same by auto
next
  case False
  with assms(2) obtain e where e: "next_claimable now db = Some e"
    by (auto simp: claim_ready_def split: option.split_asm)
  with False assms(2) obtain p where p: "find_proposal db (ex_proposal_id e) = Some p"
    "pr_status p \<in> {READY, EXECUTING, COMPENSATING}"
    by (auto simp: claim_ready_def split: option.split_asm if_split_asm)
  let ?s = "if ex_status e = COMPENSATING then COMPENSATING else EXECUTING"
  let ?e' = "e\<lparr>ex_status := ?s, ex_lease_owner := Some w, ex_lease_expires_at := Some (now + lease),
      ex_started_at := (case ex_started_at e of None \<Rightarrow> Some now | Some t \<Rightarrow> Some t), ex_updated_at := now\<rparr>"
  have db': "db' = record_transition now ''proposal'' (pr_id p) (Some (pr_status p)) ?s (recovered (pr_status p))
      (record_transition now ''execution'' (ex_id e) (Some (ex_status e)) ?s (recovered (ex_status e))
        (put_proposal (p\<lparr>pr_status := ?s, pr_updated_at := now\<rparr>) (put_execution ?e' db)))"
    using assms(2) e p by (auto simp: claim_ready_def Let_def simp del: if_split)
  have find: "find_execution db (ex_id e) = Some e"
    using wf next_claimable_Some(1) [OF e] by (simp add: find_execution_iff)
  have "progress (pr_status p) e ?e'"
    using next_claimable_Some(2) [OF e] p(2) by (rule progress_claim)
  with find p show ?thesis
    by (intro exI [of _ "[_, _]"] conjI, intro T_progress [where e = e and p = p and e' = ?e'])
      (auto simp: db' tables_def record_transition_def about_def simp del: if_split)
qed

lemma move_proposal_Some:
  "find_proposal db i = Some p \<Longrightarrow> move_proposal now i s r db =
     record_transition now ''proposal'' (pr_id p) (Some (pr_status p)) s r
       (put_proposal (p\<lparr>pr_status := s, pr_updated_at := now\<rparr>) db)"
  by (simp add: move_proposal_def)

lemma put_put [simp]: "put_proposal p (put_execution e db) = put_execution e (put_proposal p db)"
  by (simp add: put_proposal_def put_execution_def)



lemma wf_db_executionD:
  assumes "wf_db db" and "find_execution db i = Some e"
  shows "ex_id e = i" "find_execution db (ex_id e) = Some e" "wf_execution e"
    and "\<exists>p. find_proposal db (ex_proposal_id e) = Some p"
proof -
  from assms have e: "e \<in> set (db_executions db)" "ex_id e = i" by (simp_all add: find_execution_iff)
  with assms show "ex_id e = i" "find_execution db (ex_id e) = Some e" "wf_execution e" 
    "\<exists>p. find_proposal db (ex_proposal_id e) = Some p"
    by (auto simp: wf_db_def)
qed

text \<open>The three ways a worker moves an execution on write the same rows.\<close>

lemma progress_writes:
  assumes p: "find_proposal db (ex_proposal_id e) = Some p" and e: "find_execution db (ex_id e) = Some e"
    and pr: "progress (pr_status p) e e'" and s: "ex_status e' = s"
  shows "writes ontology db (move_proposal now (ex_proposal_id e) s r
      (record_transition now' ''execution'' (ex_id e) f s q (put_execution e' db)))" (is ?first)
    and "writes ontology db (record_transition now' ''execution'' (ex_id e) f s q
      (move_proposal now (ex_proposal_id e) s r (put_execution e' db)))" (is ?second)
proof -
  have find: "find_proposal (record_transition now' ''execution'' (ex_id e) f s q (put_execution e' db)) (ex_proposal_id e) = Some p"
    "find_proposal (put_execution e' db) (ex_proposal_id e) = Some p"
    using p by simp_all
  show ?first
    unfolding move_proposal_Some [OF find(1)] using assms
    by (intro exI [of _ "[_, _]"] conjI, intro T_progress [where e = e and p = p and e' = e'])
      (auto simp: tables_def record_transition_def about_def put_proposal_def)
  show ?second
    unfolding move_proposal_Some [OF find(2)] using assms
    by (intro exI [of _ "[_, _]"] conjI, intro T_progress [where e = e and p = p and e' = e'])
      (auto simp: tables_def record_transition_def about_def put_proposal_def)
qed

lemma begin_compensation_writes:
  assumes wf: "wf_db db" and "begin_compensation now eid w code detail db = Inr db'"
  shows "writes ontology db db'"
proof -
  from assms(2) obtain e where e: "find_execution db eid = Some e" "ex_lease_owner e = Some w" "ex_status e = EXECUTING"
    by (auto simp: begin_compensation_def Let_def split: option.split_asm if_split_asm)
  obtain p where p: "find_proposal db (ex_proposal_id e) = Some p" using wf_db_executionD [OF wf e(1)] by blast
  show ?thesis
    using progress_writes(1) [OF p wf_db_executionD(2) [OF wf e(1)] progress_compensate [OF e(2,3)]] assms(2) e
    by (auto simp: begin_compensation_def)
qed

lemma finish_compensation_writes:
  assumes wf: "wf_db db" and "finish_compensation now eid w result failed db = Inr db'"
  shows "writes ontology db db'"
proof -
  from assms(2) obtain e where e: "find_execution db eid = Some e" "ex_lease_owner e = Some w" "ex_status e = COMPENSATING"
    by (auto simp: finish_compensation_def Let_def split: option.split_asm if_split_asm)
  obtain p where p: "find_proposal db (ex_proposal_id e) = Some p" using wf_db_executionD [OF wf e(1)] by blast
  define s where "s = (if failed then FAILED else COMPENSATED)"
  define e' where "e' = e\<lparr>ex_status := s, ex_result := result,
      ex_error_code := (if failed then Some ''COMPENSATION_FAILED'' else ex_error_code e),
      ex_error_detail := (if failed then Some ''Action compensation failed'' else ex_error_detail e),
      ex_lease_owner := None, ex_lease_expires_at := None, ex_finished_at := Some now, ex_updated_at := now\<rparr>"
  have "progress (pr_status p) e e'"
    unfolding e'_def by (rule progress_finish [OF e(2)]) (auto simp: s_def e(3))
  moreover have "ex_status e' = s" by (simp add: e'_def)
  moreover have "db' = move_proposal now (ex_proposal_id e) s (ex_error_code e')
      (record_transition now ''execution'' (ex_id e) (Some COMPENSATING) s (ex_error_code e') (put_execution e' db))"
    using assms(2) e unfolding finish_compensation_def Let_def s_def e'_def by simp
  ultimately show ?thesis
    using progress_writes(1) [OF p wf_db_executionD(2) [OF wf e(1)]] by simp
qed

lemma finish_writes:
  assumes wf: "wf_db db" and "finish now eid w result code detail db = Inr db'"
  shows "writes ontology db db'"
proof -
  from assms(2) obtain e where e: "find_execution db eid = Some e" "ex_lease_owner e = Some w"
    by (auto simp: finish_def Let_def split: option.split_asm if_split_asm)
  obtain p where p: "find_proposal db (ex_proposal_id e) = Some p" using wf_db_executionD [OF wf e(1)] by blast
  let ?s = "if code \<noteq> None \<and> code \<noteq> Some '''' then FAILED else SUCCEEDED"
  have "?s \<in> {SUCCEEDED, FAILED}" by simp
  then show ?thesis
    using progress_writes(2) [OF p wf_db_executionD(2) [OF wf e(1)]
        progress_finish [OF e(2) disjI1, where s = ?s]] assms(2) e
    by (auto simp: finish_def Let_def simp del: if_split)
qed

lemmas operation_writes = propose_writes approve_writes preview_writes enqueue_writes claim_writes
  begin_compensation_writes finish_compensation_writes finish_writes

lemma repo_step_writes: "repo_step ontology db db' \<Longrightarrow> wf_db db \<Longrightarrow> writes ontology db db'"
  by (erule repo_step.cases) (blast intro: operation_writes)+

section \<open>Well-formedness is kept\<close>

lemma tables_eqD:
  assumes "tables db' = tables db"
  shows "db_proposals db' = db_proposals db" "db_executions db' = db_executions db"
  using assms by (cases db; cases db'; simp add: tables_def)+

lemma tables_find:
  assumes "tables db' = tables db"
  shows "find_proposal db' = find_proposal db" "find_execution db' = find_execution db"
    "execution_of db' = execution_of db" "wf_db db' \<longleftrightarrow> wf_db db"
  using tables_eqD [OF assms]
  by (simp_all add: fun_eq_iff find_proposal_def find_execution_def execution_of_def wf_db_def)

lemma review_keeps:
  "review p p' \<Longrightarrow> p' = p\<lparr>pr_status := pr_status p', pr_approved_by := pr_approved_by p',
     pr_approved_at := pr_approved_at p', pr_updated_at := pr_updated_at p'\<rparr>"
  by (erule review.cases) (simp_all split del: if_split)

lemma review_ids: "review p p' \<Longrightarrow> pr_id p' = pr_id p \<and> request_key p' = request_key p"
  by (erule review.cases) (simp_all add: request_key_def)

lemma progress_ids: "progress ps e e' \<Longrightarrow> ex_id e' = ex_id e \<and> ex_proposal_id e' = ex_proposal_id e"
  by (erule progress.cases) auto

lemma progress_wf: "progress ps e e' \<Longrightarrow> wf_execution e \<Longrightarrow> wf_execution e'"
proof (induction rule: progress.induct)
  case (progress_claim now e ps w until)
  from progress_claim(1) have "ex_status e = READY \<or> ex_status e = EXECUTING \<or> ex_status e = COMPENSATING"
    by (simp add: claimable_def)
  then have "\<not> terminal_status (ex_status e)" by (auto simp: terminal_status_def)
  with progress_claim(3) have "ex_finished_at e = None" by (simp add: wf_execution_def)
  then show ?case
    by (simp add: wf_execution_def active_status_def terminal_status_def split: option.split)
next
  case (progress_compensate e w ps code detail now)
  then show ?case by (simp add: wf_execution_def active_status_def terminal_status_def)
next
  case (progress_finish e w s ps result oc od now)
  then have "ex_started_at e \<noteq> None" by (auto simp: wf_execution_def active_status_def)
  with progress_finish show ?case by (auto simp: wf_execution_def active_status_def terminal_status_def)
qed

lemma map_replace_key:
  "(\<And>q. q \<in> set xs \<Longrightarrow> i q = i p \<Longrightarrow> k q = k p) \<Longrightarrow> map k (map (\<lambda>q. if i q = i p then p else q) xs) = map k xs"
  by (induction xs) auto

lemma wf_db_put_proposal:
  assumes wf: "wf_db db" and find: "find_proposal db (pr_id p) = Some p0"
    and key: "request_key p = request_key p0"
  shows "wf_db (put_proposal p db)"
proof -
  from wf find have p0: "p0 \<in> set (db_proposals db)" "pr_id p0 = pr_id p" by (simp_all add: find_proposal_iff)
  with wf have only: "q = p0" if "q \<in> set (db_proposals db)" "pr_id q = pr_id p" for q
    using that unfolding wf_db_def by (metis distinct_map inj_onD)
  have "map pr_id (db_proposals (put_proposal p db)) = map pr_id (db_proposals db)"
    "map request_key (db_proposals (put_proposal p db)) = map request_key (db_proposals db)"
    using only key unfolding put_proposal_def by (auto simp: map_replace_key simp del: map_map)
  with wf show ?thesis
    unfolding wf_db_def by (auto simp: find_proposal_put simp del: not_None_eq)
qed

lemma wf_db_put_execution:
  assumes wf: "wf_db db" and find: "find_execution db (ex_id e) = Some e0"
    and same: "ex_proposal_id e = ex_proposal_id e0" and wfe: "wf_execution e"
  shows "wf_db (put_execution e db)"
proof -
  from wf find have e0: "e0 \<in> set (db_executions db)" "ex_id e0 = ex_id e" by (simp_all add: find_execution_iff)
  with wf have only: "q = e0" if "q \<in> set (db_executions db)" "ex_id q = ex_id e" for q
    using that unfolding wf_db_def by (metis distinct_map inj_onD)
  have "map ex_id (db_executions (put_execution e db)) = map ex_id (db_executions db)"
    "map ex_proposal_id (db_executions (put_execution e db)) = map ex_proposal_id (db_executions db)"
    using only same unfolding put_execution_def by (auto simp: map_replace_key simp del: map_map)
  moreover have "x \<in> set (db_executions db) \<or> x = e" if "x \<in> set (db_executions (put_execution e db))" for x
    using that by (auto simp: put_execution_def)
  moreover have "find_proposal db (ex_proposal_id e) \<noteq> None" using wf e0 same by (auto simp: wf_db_def)
  ultimately show ?thesis
    using wf wfe unfolding wf_db_def by auto
qed

lemma table_step_wf:
  assumes "table_step ontology db ts db'" and wf: "wf_db db"
  shows "wf_db db'"
  using assms(1)
proof cases
  case T_same
  with wf show ?thesis by simp
next
  case (T_propose auth aid tid ps action validated row now new_id reason key ev rc t)
  have "wf_db (db\<lparr>db_proposals := db_proposals db @ [row]\<rparr>)"
    using wf T_propose(3)
    by (auto simp: wf_db_def proposal_taken_def list_ex_iff request_key_def find_proposal_def find_append
        split: option.split)
  then show ?thesis using tables_find(4) [OF T_propose(4)] by simp
next
  case (T_review p p')
  with wf have "wf_db (put_proposal p' db)"
    using review_ids [of p p'] by (auto intro: wf_db_put_proposal [where ?p0.0 = p])
  then show ?thesis using tables_find(4) [OF T_review(3)] by simp
next
  case (T_enqueue pid p new_id now t)
  have "wf_execution (new_execution now new_id pid)"
    by (simp add: new_execution_def wf_execution_def active_status_def terminal_status_def)
  moreover have "new_id \<notin> ex_id ` set (db_executions db)" "pid \<notin> ex_proposal_id ` set (db_executions db)"
    using T_enqueue(3,4) unfolding find_execution_def execution_of_def find_key_None_iff by auto
  moreover have "ex_id (new_execution now new_id pid) = new_id" "ex_proposal_id (new_execution now new_id pid) = pid"
    by (simp_all add: new_execution_def)
  ultimately have "wf_db (db\<lparr>db_executions := db_executions db @ [new_execution now new_id pid]\<rparr>)"
    using wf T_enqueue(1) by (simp add: wf_db_def find_proposal_def)
  then show ?thesis using tables_find(4) [OF T_enqueue(5)] by simp
next
  case (T_progress e p e' now t u)
  have ids: "ex_id e' = ex_id e" "ex_proposal_id e' = ex_proposal_id e"
    using progress_ids T_progress(3) by blast+
  have "wf_execution e'"
    using progress_wf [OF T_progress(3)] wf_db_executionD(3) [OF wf T_progress(1)] by blast
  then have wf': "wf_db (put_execution e' db)"
    using wf T_progress(1) ids by (intro wf_db_put_execution [where ?e0.0 = e]) simp_all
  have "pr_id p = ex_proposal_id e" using wf T_progress(2) by (simp add: find_proposal_iff)
  then have "wf_db (put_proposal (p\<lparr>pr_status := ex_status e', pr_updated_at := now\<rparr>) (put_execution e' db))"
    using T_progress(2) by (intro wf_db_put_proposal [OF wf', where ?p0.0 = p]) (simp_all add: request_key_def)
  then show ?thesis using tables_find(4) [OF T_progress(4)] by simp
qed

lemma execution_of_put:
  assumes wf: "wf_db db" and find: "find_execution db (ex_id e') = Some e"
    and same: "ex_proposal_id e' = ex_proposal_id e"
  shows "execution_of (put_execution e' db) i = (if i = ex_proposal_id e then Some e' else execution_of db i)"
proof -
  from wf find have e: "e \<in> set (db_executions db)" "ex_id e = ex_id e'" by (simp_all add: find_execution_iff)
  have ids: "distinct (map ex_proposal_id (db_executions db))" "distinct (map ex_id (db_executions db))"
    using wf by (auto simp: wf_db_def)
  have "find (\<lambda>q. ex_proposal_id q = i) (map (\<lambda>q. if ex_id q = ex_id e' then e' else q) xs) =
      (if i = ex_proposal_id e then Some e' else find (\<lambda>q. ex_proposal_id q = i) xs)"
    if "e \<in> set xs" "distinct (map ex_proposal_id xs)" "distinct (map ex_id xs)" for xs
    using that
  proof (induction xs)
    case (Cons x xs)
    show ?case
    proof (cases "x = e")
      case True
      with Cons.prems have "q \<in> set xs \<Longrightarrow> ex_id q \<noteq> ex_id e'" for q using e(2) by (force simp: image_iff)
      then have "map (\<lambda>q. if ex_id q = ex_id e' then e' else q) xs = xs" by (intro map_idI) auto
      then show ?thesis using True same e(2) by simp
    next
      case False
      with Cons.prems have "e \<in> set xs" by simp
      moreover from this Cons.prems have "ex_id x \<noteq> ex_id e'" "ex_proposal_id x \<noteq> ex_proposal_id e"
        using e(2) by (force simp: image_iff)+
      ultimately show ?thesis using Cons by auto
    qed
  qed simp
  from this [OF e(1) ids] show ?thesis by (simp add: execution_of_def put_execution_def)
qed

section \<open>The lifecycle of a proposal\<close>

text \<open>What the API promises of one proposal: whether it needs approval, whether somebody approved it, its
  status, and the status of its execution once there is one.\<close>

record life =
  lf_required :: bool
  lf_approved :: bool
  lf_status :: action_status
  lf_execution :: "action_status option"

inductive life_step :: "life option \<Rightarrow> life option \<Rightarrow> bool" where
  life_proposed: "life_step None (Some \<lparr>lf_required = r, lf_approved = False, lf_status = PROPOSED, lf_execution = None\<rparr>)"
| life_previewed: "lf_status l \<in> {PROPOSED, PENDING_APPROVAL, READY} \<Longrightarrow>
    life_step (Some l) (Some (l\<lparr>lf_status := (if lf_required l then PENDING_APPROVAL else READY)\<rparr>))"
| life_approved: "lf_status l = PENDING_APPROVAL \<Longrightarrow>
    life_step (Some l) (Some (l\<lparr>lf_status := READY, lf_approved := True\<rparr>))"
| life_enqueued: "lf_status l \<in> {READY, EXECUTING, SUCCEEDED, FAILED} \<Longrightarrow> lf_execution l = None \<Longrightarrow>
    life_step (Some l) (Some (l\<lparr>lf_execution := Some READY\<rparr>))"
| life_claimed: "lf_status l \<in> {READY, EXECUTING, COMPENSATING} \<Longrightarrow> lf_execution l \<in> {Some READY, Some EXECUTING} \<Longrightarrow>
    life_step (Some l) (Some (l\<lparr>lf_status := EXECUTING, lf_execution := Some EXECUTING\<rparr>))"
| life_reclaimed: "lf_status l \<in> {READY, EXECUTING, COMPENSATING} \<Longrightarrow> lf_execution l = Some COMPENSATING \<Longrightarrow>
    life_step (Some l) (Some (l\<lparr>lf_status := COMPENSATING\<rparr>))"
| life_compensating: "lf_execution l = Some EXECUTING \<Longrightarrow>
    life_step (Some l) (Some (l\<lparr>lf_status := COMPENSATING, lf_execution := Some COMPENSATING\<rparr>))"
| life_compensated: "lf_execution l = Some COMPENSATING \<Longrightarrow>
    life_step (Some l) (Some (l\<lparr>lf_status := COMPENSATED, lf_execution := Some COMPENSATED\<rparr>))"
| life_finished: "lf_execution l \<in> {Some EXECUTING, Some COMPENSATING} \<Longrightarrow> s \<in> {SUCCEEDED, FAILED} \<Longrightarrow>
    life_step (Some l) (Some (l\<lparr>lf_status := s, lf_execution := Some s\<rparr>))"

definition life_of :: "action_db \<Rightarrow> string \<Rightarrow> life option" where
  "life_of db i = map_option (\<lambda>p. \<lparr>lf_required = pr_approval_required p, lf_approved = (pr_approved_by p \<noteq> None),
     lf_status = pr_status p, lf_execution = map_option ex_status (execution_of db i)\<rparr>) (find_proposal db i)"

text \<open>Approval comes before any execution, and the two statuses agree.\<close>

definition life_ok :: "life \<Rightarrow> bool" where
  "life_ok l \<longleftrightarrow>
     (case lf_execution l of
        None \<Rightarrow> lf_status l \<in> {PROPOSED, PENDING_APPROVAL, READY}
      | Some s \<Rightarrow> if s = READY then lf_status l \<in> {PENDING_APPROVAL, READY}
                  else lf_status l = s \<and> (active_status s \<or> terminal_status s)) \<and>
     (lf_required l \<and> (lf_execution l \<noteq> None \<or> lf_status l = READY) \<longrightarrow> lf_approved l)"

lemma life_step_ok:
  "life_step l l' \<Longrightarrow> (case l of None \<Rightarrow> True | Some x \<Rightarrow> life_ok x) \<Longrightarrow> (case l' of None \<Rightarrow> True | Some x \<Rightarrow> life_ok x)"
  by (erule life_step.cases)
    (auto simp: life_ok_def active_status_def terminal_status_def split: option.splits if_splits)

lemma life_review:
  assumes "review p p'"
  shows "life_step (Some \<lparr>lf_required = pr_approval_required p, lf_approved = (pr_approved_by p \<noteq> None),
      lf_status = pr_status p, lf_execution = x\<rparr>)
    (Some \<lparr>lf_required = pr_approval_required p', lf_approved = (pr_approved_by p' \<noteq> None),
      lf_status = pr_status p', lf_execution = x\<rparr>)"
  using assms
proof cases
  case (review_preview now)
  then show ?thesis
    using life_previewed [of "\<lparr>lf_required = pr_approval_required p, lf_approved = (pr_approved_by p \<noteq> None),
      lf_status = pr_status p, lf_execution = x\<rparr>"] by simp
next
  case (review_approve by' now)
  then show ?thesis
    using life_approved [of "\<lparr>lf_required = pr_approval_required p, lf_approved = (pr_approved_by p \<noteq> None),
      lf_status = pr_status p, lf_execution = x\<rparr>"] by simp
qed

lemma life_progress:
  assumes "progress (lf_status l) e e'" and "wf_execution e" and l: "lf_execution l = Some (ex_status e)"
  shows "life_step (Some l) (Some (l\<lparr>lf_status := ex_status e', lf_execution := Some (ex_status e')\<rparr>))"
  using assms(1)
proof cases
  case (progress_claim now w until)
  then have "ex_status e \<in> {READY, EXECUTING, COMPENSATING}" by (auto simp: claimable_def)
  with progress_claim l show ?thesis
    using life_claimed [of l] life_reclaimed [of l] by (cases l) auto
next
  case (progress_compensate w code detail now)
  with l show ?thesis using life_compensating [of l] by simp
next
  case (progress_finish w s result oc od now)
  then have "ex_status e \<in> {EXECUTING, COMPENSATING}"
    using assms(2) by (auto simp: wf_execution_def active_status_def)
  with progress_finish l show ?thesis
    using life_finished [of l s] life_compensated [of l] by auto
qed

lemma table_step_life:
  assumes step: "table_step ontology db ts db'" and wf: "wf_db db"
  shows "life_of db' i = life_of db i \<or> life_step (life_of db i) (life_of db' i)"
  using step
proof cases
  case T_same
  then show ?thesis by simp
next
  case (T_propose auth aid tid ps action validated row now new_id reason key ev rc t)
  then have row: "pr_id row = new_id" "pr_status row = PROPOSED" "pr_approved_by row = None"
    by (simp_all add: new_proposal_def)
  then have fresh: "find_proposal db new_id = None"
    using T_propose(3) by (auto simp: find_proposal_def find_None_iff proposal_taken_def list_ex_iff)
  with wf have noexec: "execution_of db new_id = None"
    by (auto simp: wf_db_def execution_of_def find_None_iff)
  have "find_proposal db' i = (if i = new_id then Some row else find_proposal db i)" "execution_of db' = execution_of db"
    using fresh row tables_find(1,3) [OF T_propose(4)]
    by (auto simp: find_proposal_def execution_of_def find_append split: option.split)
  then show ?thesis
    using fresh noexec row life_proposed [of "pr_approval_required row"] by (auto simp: life_of_def)
next
  case (T_review p p')
  then have ids: "pr_id p' = pr_id p" using review_ids by blast
  have "find_proposal db' i = (if i = pr_id p then Some p' else find_proposal db i)" "execution_of db' = execution_of db"
    using T_review(1) ids tables_find(1,3) [OF T_review(3)] by (auto simp: find_proposal_put)
  then show ?thesis
    using T_review(1) life_review [OF T_review(2)] by (auto simp: life_of_def)
next
  case (T_enqueue pid p new_id now t)
  have "find_proposal db' = find_proposal db"
    "execution_of db' i = (if i = pid then Some (new_execution now new_id pid) else execution_of db i)"
    using T_enqueue(3) tables_find(1,3) [OF T_enqueue(5)]
    by (auto simp: fun_eq_iff find_proposal_def execution_of_def find_append new_execution_def split: option.split)
  then show ?thesis
    using T_enqueue(1-3) life_enqueued [of "the (life_of db pid)"]
    by (auto simp: life_of_def new_execution_def)
next
  case (T_progress e p e' now t u)
  have ids: "ex_id e' = ex_id e" "ex_proposal_id e' = ex_proposal_id e" "pr_id p = ex_proposal_id e"
    using progress_ids [OF T_progress(3)] wf T_progress(2) by (simp_all add: find_proposal_iff)
  let ?p' = "p\<lparr>pr_status := ex_status e', pr_updated_at := now\<rparr>"
  have find: "find_proposal db' i = (if i = ex_proposal_id e then Some ?p' else find_proposal db i)"
    "execution_of db' i = (if i = ex_proposal_id e then Some e' else execution_of db i)"
    using T_progress(1,2) ids tables_find(1,3) [OF T_progress(4)] execution_of_put [OF wf, of e' e i]
    by (auto simp: find_proposal_put simp del: put_put)
  have "e \<in> set (db_executions db)" using wf T_progress(1) by (simp add: find_execution_iff)
  then have exec: "execution_of db (ex_proposal_id e) = Some e" using wf by (simp add: execution_of_iff)
  have "wf_execution e" using wf_db_executionD(3) [OF wf T_progress(1)] .
  with life_progress [of "the (life_of db (ex_proposal_id e))" e e'] find exec T_progress(2,3)
  show ?thesis by (auto simp: life_of_def)
qed

section \<open>What never changes\<close>

text \<open>A proposal without the four columns that the state machine updates.\<close>

definition frozen :: "action_proposal_row \<Rightarrow> action_proposal_row" where
  "frozen p = p\<lparr>pr_status := PROPOSED, pr_approved_by := None, pr_approved_at := None, pr_updated_at := 0\<rparr>"

lemma review_frozen: "review p p' \<Longrightarrow> frozen p' = frozen p"
  by (erule review.cases) (simp_all add: frozen_def)

definition keeps_rows :: "action_db \<Rightarrow> action_db \<Rightarrow> bool" where
  "keeps_rows db db' \<longleftrightarrow>
     (\<forall>i p. find_proposal db i = Some p \<longrightarrow> (\<exists>p'. find_proposal db' i = Some p' \<and> frozen p' = frozen p)) \<and>
     (\<forall>i e. find_execution db i = Some e \<longrightarrow> (\<exists>e'. find_execution db' i = Some e' \<and>
        ex_proposal_id e' = ex_proposal_id e \<and> (terminal_status (ex_status e) \<longrightarrow> e' = e)))"

lemma keeps_rows_refl: "keeps_rows db db"
  by (auto simp: keeps_rows_def)

lemma keeps_rows_trans:
  assumes "keeps_rows db1 db2" and "keeps_rows db2 db3"
  shows "keeps_rows db1 db3"
  unfolding keeps_rows_def
proof (intro conjI allI impI)
  fix i p assume "find_proposal db1 i = Some p"
  with assms show "\<exists>p'. find_proposal db3 i = Some p' \<and> frozen p' = frozen p"
    unfolding keeps_rows_def by metis
next
  fix i e assume "find_execution db1 i = Some e"
  with assms show "\<exists>e'. find_execution db3 i = Some e' \<and> ex_proposal_id e' = ex_proposal_id e \<and>
      (terminal_status (ex_status e) \<longrightarrow> e' = e)"
    unfolding keeps_rows_def by metis
qed

lemma wf_execution_leased:
  "wf_execution e \<Longrightarrow> ex_lease_owner e = Some w \<Longrightarrow> ex_status e = EXECUTING \<or> ex_status e = COMPENSATING"
  by (simp add: wf_execution_def active_status_def)

lemma progress_not_terminal:
  assumes "progress ps e e'" and "wf_execution e"
  shows "\<not> terminal_status (ex_status e)"
  using assms(1)
proof cases
  case (progress_claim now w until)
  from progress_claim(2) have "ex_status e = READY \<or> ex_status e = EXECUTING \<or> ex_status e = COMPENSATING"
    by (simp add: claimable_def)
  then show ?thesis by (auto simp: terminal_status_def)
next
  case (progress_compensate w code detail now)
  then show ?thesis by (simp add: terminal_status_def)
next
  case (progress_finish w s result oc od now)
  then show ?thesis using wf_execution_leased [OF assms(2)] by (auto simp: terminal_status_def)
qed

lemma table_step_keeps:
  assumes step: "table_step ontology db ts db'" and wf: "wf_db db"
  shows "keeps_rows db db'"
  using step
proof cases
  case T_same
  then show ?thesis by (simp add: keeps_rows_refl)
next
  case (T_propose auth aid tid ps action validated row now new_id reason key ev rc t)
  have "find_execution db' = find_execution db" "find_proposal db i = Some p \<Longrightarrow> find_proposal db' i = Some p" for i p
    using tables_find(1,2) [OF T_propose(4)]
    by (auto simp: fun_eq_iff find_execution_def find_proposal_def find_append)
  then show ?thesis by (auto simp: keeps_rows_def)
next
  case (T_review p p')
  have "find_execution db' = find_execution db" "find_proposal db' i = find_proposal (put_proposal p' db) i" for i
    using tables_find(1,2) [OF T_review(3)] by auto
  with T_review(1) review_ids [OF T_review(2)] review_frozen [OF T_review(2)] show ?thesis
    by (auto simp: keeps_rows_def find_proposal_put)
next
  case (T_enqueue pid p new_id now t)
  have "find_proposal db' = find_proposal db" "find_execution db i = Some e \<Longrightarrow> find_execution db' i = Some e" for i e
    using tables_find(1,2) [OF T_enqueue(5)]
    by (auto simp: fun_eq_iff find_execution_def find_proposal_def find_append)
  then show ?thesis by (auto simp: keeps_rows_def)
next
  case (T_progress e p e' now t u)
  let ?p' = "p\<lparr>pr_status := ex_status e', pr_updated_at := now\<rparr>"
  have find: "find_execution db' i = find_execution (put_execution e' db) i"
    "find_proposal db' i = find_proposal (put_proposal ?p' db) i" for i
    using tables_find(1,2) [OF T_progress(4)] by (auto simp: find_proposal_put find_execution_put)
  have "\<not> terminal_status (ex_status e)" "pr_id p = ex_proposal_id e"
    using progress_not_terminal [OF T_progress(3)] wf_db_executionD(3) [OF wf T_progress(1)] wf T_progress(2)
    by (simp_all add: find_proposal_iff)
  with T_progress(1,2) progress_ids [OF T_progress(3)] show ?thesis
    by (auto simp: keeps_rows_def find find_proposal_put find_execution_put frozen_def)
qed

section \<open>Where proposals come from\<close>

definition origin ::
  "ontology_registry \<Rightarrow> action_proposal_row \<Rightarrow> authorization_context \<Rightarrow> action_definition \<Rightarrow> bool" where
  "origin ontology p c a \<longleftrightarrow> (\<exists>now new_id aid ps reason key ev rc.
     check_proposal ontology c aid (pr_target_id p) ps = Inr (a, pr_parameters p) \<and>
     frozen p = frozen (new_proposal now new_id c a (pr_target_id p) (pr_parameters p) reason key ev rc))"

lemma frozen_sels:
  "frozen p = frozen q \<Longrightarrow> pr_id p = pr_id q \<and> pr_target_id p = pr_target_id q \<and> pr_parameters p = pr_parameters q"
  by (cases p; cases q) (simp add: frozen_def)

lemma origin_frozen:
  assumes "frozen p = frozen q"
  shows "origin ontology p c a \<longleftrightarrow> origin ontology q c a"
  unfolding origin_def using assms frozen_sels [OF assms] by simp

definition origins_ok :: "ontology_registry \<Rightarrow> action_db \<Rightarrow> bool" where
  "origins_ok ontology db \<longleftrightarrow> (\<forall>i p. find_proposal db i = Some p \<longrightarrow> (\<exists>c a. origin ontology p c a))"

lemma new_proposal_origin:
  "check_proposal ontology c aid tid ps = Inr (a, validated) \<Longrightarrow>
   p = new_proposal now new_id c a tid validated reason key ev rc \<Longrightarrow> origin ontology p c a"
proof -
  assume c: "check_proposal ontology c aid tid ps = Inr (a, validated)"
    and p: "p = new_proposal now new_id c a tid validated reason key ev rc"
  from p have "pr_target_id p = tid" "pr_parameters p = validated" by (simp_all add: new_proposal_def)
  with c p show ?thesis unfolding origin_def by metis
qed

lemma table_step_origins:
  assumes step: "table_step ontology db ts db'" and wf: "wf_db db" and ok: "origins_ok ontology db"
  shows "origins_ok ontology db'"
  unfolding origins_ok_def
proof (intro allI impI)
  fix i p' assume p': "find_proposal db' i = Some p'"
  show "\<exists>c a. origin ontology p' c a"
  proof (cases "find_proposal db i")
    case (Some p)
    with table_step_keeps [OF step wf] p' have "frozen p' = frozen p" unfolding keeps_rows_def by fastforce
    then show ?thesis using ok Some origin_frozen unfolding origins_ok_def by blast
  next
    case None
    from step show ?thesis
    proof cases
      case (T_propose auth aid tid ps action validated row now new_id reason key ev rc t)
      have "p' = row"
        using p' None tables_find(1) [OF T_propose(4)] by (auto simp: find_proposal_def find_append split: if_splits)
      then show ?thesis using new_proposal_origin [OF T_propose(1,2)] by blast
    next
      case (T_review q q')
      then show ?thesis using p' None tables_find(1) [OF T_review(3)] by (auto simp: find_proposal_put split: if_splits)
    next
      case (T_enqueue pid p new_id now t)
      then show ?thesis using p' None tables_find(1) [OF T_enqueue(5)] by (simp add: find_proposal_def)
    next
      case (T_progress e q e' now t u)
      then show ?thesis using p' None tables_find(1) [OF T_progress(4)] by (auto simp: find_proposal_put split: if_splits)
    qed (use p' None in simp)
  qed
qed

section \<open>The audit trail\<close>

lemma entity_transitions_about: "entity_transitions db ty i = filter (about ty i) (db_transitions db)"
  unfolding entity_transitions_def about_def ..

lemma linked_append: "linked s (xs @ ys) t \<longleftrightarrow> (\<exists>u. linked s xs u \<and> linked u ys t)"
  by (induction s xs t arbitrary: rule: linked.induct) auto

text \<open>The transitions of a proposal lead, one after the other, from nothing to its status; those of an
  execution end in its status; and there are transitions of rows only.\<close>

definition trail_ok :: "action_db \<Rightarrow> bool" where
  "trail_ok db \<longleftrightarrow>
     (\<forall>i p. find_proposal db i = Some p \<longrightarrow> linked None (entity_transitions db ''proposal'' i) (Some (pr_status p))) \<and>
     (\<forall>i e. find_execution db i = Some e \<longrightarrow> (\<exists>us u. entity_transitions db ''execution'' i = us @ [u] \<and> tr_to_status u = ex_status e)) \<and>
     (\<forall>i. find_proposal db i = None \<longrightarrow> entity_transitions db ''proposal'' i = [])"

lemma filter_none: "(\<forall>t \<in> set ts. about ty i t) \<Longrightarrow> ty' \<noteq> ty \<or> i' \<noteq> i \<Longrightarrow> filter (about ty' i') ts = []"
  by (auto simp: filter_empty_conv about_def)

lemma filter_one:
  assumes "set ts = {t, u}" and "about ''proposal'' i t" and "about ''execution'' j u"
  shows "i' \<noteq> i \<Longrightarrow> filter (about ''proposal'' i') ts = []" and "j' \<noteq> j \<Longrightarrow> filter (about ''execution'' j') ts = []"
  using assms by (auto simp: filter_empty_conv about_def)

lemma filter_singleton: "filter P xs = [x] \<Longrightarrow> P x"
  by (metis filter_eq_Cons_iff)

lemma table_step_trail:
  assumes step: "table_step ontology db ts db'" and wf: "wf_db db" and ok: "trail_ok db"
    and app: "db_transitions db' = db_transitions db @ ts"
  shows "trail_ok db'"
proof -
  have tr: "entity_transitions db' ty i = entity_transitions db ty i @ filter (about ty i) ts" for ty i
    by (simp add: entity_transitions_about app)
  note [simp] = entity_transitions_about [symmetric]
  have P: "find_proposal db i = Some p \<Longrightarrow> linked None (entity_transitions db ''proposal'' i) (Some (pr_status p))"
    and E: "find_execution db i = Some e \<Longrightarrow> \<exists>us u. entity_transitions db ''execution'' i = us @ [u] \<and> tr_to_status u = ex_status e"
    and N: "find_proposal db i = None \<Longrightarrow> entity_transitions db ''proposal'' i = []" for i p e
    using ok unfolding trail_ok_def by blast+
  from step show ?thesis
  proof cases
    case T_same
    with ok tr show ?thesis by simp
  next
    case (T_propose auth aid tid ps action validated row now new_id reason key ev rc t)
    have row: "pr_id row = new_id" "pr_status row = PROPOSED" using T_propose(2) by (simp_all add: new_proposal_def)
    then have fresh: "find_proposal db new_id = None"
      using T_propose(3) by (auto simp: find_proposal_def find_None_iff proposal_taken_def list_ex_iff)
    have find: "find_proposal db' i = (if i = new_id then Some row else find_proposal db i)"
      "find_execution db' = find_execution db" for i
      using fresh row tables_find(1,2) [OF T_propose(4)]
      by (auto simp: find_proposal_def find_execution_def find_append split: option.split)
    have new: "entity_transitions db' ''proposal'' new_id = [t]"
      "i \<noteq> new_id \<Longrightarrow> entity_transitions db' ''proposal'' i = entity_transitions db ''proposal'' i"
      "entity_transitions db' ''execution'' i = entity_transitions db ''execution'' i" for i
      using T_propose(5,6) N [OF fresh] by (auto simp: tr about_def)
    show ?thesis unfolding trail_ok_def using P E N find new row T_propose(7) by auto
  next
    case (T_review p p')
    have find: "find_proposal db' i = (if i = pr_id p then Some p' else find_proposal db i)"
      "find_execution db' = find_execution db" for i
      using T_review(1) review_ids [OF T_review(2)] tables_find(1,2) [OF T_review(3)] by (auto simp: find_proposal_put)
    have new: "entity_transitions db' ''proposal'' (pr_id p) = entity_transitions db ''proposal'' (pr_id p) @ ts"
      "i \<noteq> pr_id p \<Longrightarrow> entity_transitions db' ''proposal'' i = entity_transitions db ''proposal'' i"
      "entity_transitions db' ''execution'' i = entity_transitions db ''execution'' i" for i
      using T_review(4) filter_none [OF T_review(4)] by (simp_all add: tr)
    have "linked None (entity_transitions db' ''proposal'' (pr_id p)) (Some (pr_status p'))"
      unfolding new linked_append using P [OF T_review(1)] T_review(5) by blast
    then show ?thesis unfolding trail_ok_def using P E N find new(2,3) T_review(1) by auto
  next
    case (T_enqueue pid p new_id now t)
    have find: "find_proposal db' = find_proposal db"
      "find_execution db' i = (if i = new_id then Some (new_execution now new_id pid) else find_execution db i)" for i
      using T_enqueue(4) tables_find(1,2) [OF T_enqueue(5)]
      by (auto simp: fun_eq_iff find_proposal_def find_execution_def find_append new_execution_def split: option.split)
    have new: "entity_transitions db' ''proposal'' i = entity_transitions db ''proposal'' i"
      "i \<noteq> new_id \<Longrightarrow> entity_transitions db' ''execution'' i = entity_transitions db ''execution'' i"
      "entity_transitions db' ''execution'' new_id = entity_transitions db ''execution'' new_id @ [t]" for i
      using T_enqueue(6,7) by (auto simp: tr about_def)
    show ?thesis unfolding trail_ok_def using P E N find new T_enqueue(8) by (auto simp: new_execution_def)
  next
    case (T_progress e p e' now t u)
    let ?p' = "p\<lparr>pr_status := ex_status e', pr_updated_at := now\<rparr>"
    have ids: "ex_id e' = ex_id e" "pr_id p = ex_proposal_id e"
      using progress_ids [OF T_progress(3)] wf T_progress(2) by (simp_all add: find_proposal_iff)
    have find: "find_proposal db' i = (if i = pr_id p then Some ?p' else find_proposal db i)"
      "find_execution db' i = (if i = ex_id e then Some e' else find_execution db i)" for i
      using T_progress(1,2) ids tables_find(1,2) [OF T_progress(4)]
      by (auto simp: find_proposal_put find_execution_put simp del: put_put)
    note one = filter_one [OF T_progress(5) filter_singleton [OF T_progress(6)] filter_singleton [OF T_progress(8)]]
    have new: "entity_transitions db' ''proposal'' (pr_id p) = entity_transitions db ''proposal'' (pr_id p) @ [t]"
      "entity_transitions db' ''execution'' (ex_id e) = entity_transitions db ''execution'' (ex_id e) @ [u]"
      "i \<noteq> pr_id p \<Longrightarrow> entity_transitions db' ''proposal'' i = entity_transitions db ''proposal'' i"
      "i \<noteq> ex_id e \<Longrightarrow> entity_transitions db' ''execution'' i = entity_transitions db ''execution'' i" for i
      using T_progress(6,8) one by (simp_all add: tr)
    have "linked None (entity_transitions db' ''proposal'' (pr_id p)) (Some (pr_status ?p'))"
      unfolding new linked_append using P [OF T_progress(2)] T_progress(7) ids by auto
    then show ?thesis unfolding trail_ok_def using P E N find new(2-4) T_progress(2,9) ids by auto
  qed
qed

section \<open>The invariant of the repository\<close>

definition lives_ok :: "action_db \<Rightarrow> bool" where
  "lives_ok db \<longleftrightarrow> (\<forall>i. case life_of db i of None \<Rightarrow> True | Some l \<Rightarrow> life_ok l)"

definition repo_inv :: "ontology_registry \<Rightarrow> action_db \<Rightarrow> bool" where
  "repo_inv ontology db \<longleftrightarrow> wf_db db \<and> lives_ok db \<and> trail_ok db \<and> origins_ok ontology db"

lemma repo_inv_empty: "repo_inv ontology empty_db"
  by (simp add: repo_inv_def wf_db_def lives_ok_def trail_ok_def origins_ok_def life_of_def empty_db_def
      find_proposal_def find_execution_def entity_transitions_def)

lemma repo_inv_step:
  assumes "repo_inv ontology db" and "repo_step ontology db db'"
  shows "repo_inv ontology db'"
proof -
  from assms obtain ts where step: "table_step ontology db ts db'" and app: "db_transitions db' = db_transitions db @ ts"
    using repo_step_writes unfolding repo_inv_def by blast
  from assms have inv: "wf_db db" "lives_ok db" "trail_ok db" "origins_ok ontology db"
    by (simp_all add: repo_inv_def)
  have "lives_ok db'"
    unfolding lives_ok_def
  proof
    fix i
    have "case life_of db i of None \<Rightarrow> True | Some l \<Rightarrow> life_ok l" using inv(2) by (simp add: lives_ok_def)
    with table_step_life [OF step inv(1), of i] life_step_ok [of "life_of db i" "life_of db' i"]
    show "case life_of db' i of None \<Rightarrow> True | Some l \<Rightarrow> life_ok l" by auto
  qed
  with table_step_wf [OF step inv(1)] table_step_trail [OF step inv(1,3) app] table_step_origins [OF step inv(1,4)]
  show ?thesis by (simp add: repo_inv_def)
qed

interpretation repo: invariant_system "repo_step ontology" "repo_inv ontology" for ontology
  by unfold_locales (rule repo_inv_step)

lemma reachable_inv: "(repo_step ontology)\<^sup>*\<^sup>* empty_db db \<Longrightarrow> repo_inv ontology db"
  by (rule repo.inv_steps [OF _ repo_inv_empty])

lemma steps_keep_rows:
  assumes "repo_inv ontology db" and "(repo_step ontology)\<^sup>*\<^sup>* db db'"
  shows "keeps_rows db db'"
proof (rule repo.steps_preserve [OF assms(2,1), where Q = "keeps_rows db"])
  show "keeps_rows db db" by (rule keeps_rows_refl)
  fix u v assume "repo_inv ontology u" "keeps_rows db u" "repo_step ontology u v"
  then show "keeps_rows db v"
    using repo_step_writes table_step_keeps keeps_rows_trans unfolding repo_inv_def by blast
qed

lemma life_okD:
  assumes "lives_ok db" and "find_proposal db i = Some p"
  shows "life_ok \<lparr>lf_required = pr_approval_required p, lf_approved = (pr_approved_by p \<noteq> None),
     lf_status = pr_status p, lf_execution = map_option ex_status (execution_of db i)\<rparr>"
  using assms by (auto simp: lives_ok_def life_of_def dest: spec [of _ i])

end
