(* ===== verification/Action_Properties.thy ===== *)
theory Action_Properties
  imports Action_Lifecycle
begin

text \<open>
  The properties of the Action repository, each with a run of the demo tenant on which it applies: who may
  execute what, the lifecycle and its audit trail, leases, idempotency, isolation between callers.
\<close>

section \<open>A run of the demo tenant\<close>

definition result_db :: "action_error + 'a \<times> action_db \<Rightarrow> action_db" where
  "result_db r = (case r of Inl _ \<Rightarrow> empty_db | Inr (_, db) \<Rightarrow> db)"

definition demo_rc :: request_context where
  "demo_rc = \<lparr>rc_run_id = ''run'', rc_thread_id = ''thread'', rc_tool_call_id = ''call'', rc_semantic_trace_id = ''trace''\<rparr>"

definition demo_propose :: "int \<Rightarrow> string \<Rightarrow> string \<Rightarrow> action_db \<Rightarrow> action_error + proposal_view \<times> action_db" where
  "demo_propose now new_id key =
     propose demo_registry now new_id demo_admin ''site.update_display_name'' ''site-a'' [(''name'', PStr ''North'')]
       None key None demo_rc"

definition demo_proposed :: action_db where "demo_proposed = result_db (demo_propose 100 ''p1'' ''k1'' empty_db)"

definition demo_previewed :: action_db where
  "demo_previewed = result_db (preview demo_registry 101 ''p1'' demo_admin [(''id'', PStr ''site-a'')] demo_proposed)"

definition demo_approved :: action_db where
  "demo_approved = result_db (approve 102 ''p1'' demo_admin ''boss'' demo_previewed)"

definition demo_queued :: action_db where
  "demo_queued = result_db (enqueue_execution 103 ''e1'' ''p1'' demo_admin demo_approved)"

definition demo_claimed :: action_db where "demo_claimed = snd (claim_ready 104 ''w1'' 30 demo_queued)"

definition succeeds :: "action_error + 'a \<Rightarrow> bool" where
  "succeeds r = (case r of Inl _ \<Rightarrow> False | Inr _ \<Rightarrow> True)"

lemma succeeds_result: "succeeds r \<Longrightarrow> r = Inr (fst (projr r), result_db r)"
  by (auto simp: succeeds_def result_db_def split: sum.splits)

lemma demo_proposed_step: "repo_step demo_registry empty_db demo_proposed"
  unfolding demo_proposed_def demo_propose_def by (rule step_propose, rule succeeds_result) code_simp

lemma demo_previewed_step: "repo_step demo_registry demo_proposed demo_previewed"
  unfolding demo_previewed_def by (rule step_preview, rule succeeds_result) code_simp

lemma demo_approved_step: "repo_step demo_registry demo_previewed demo_approved"
  unfolding demo_approved_def by (rule step_approve, rule succeeds_result) code_simp

lemma demo_queued_step: "repo_step demo_registry demo_approved demo_queued"
  unfolding demo_queued_def by (rule step_enqueue, rule succeeds_result) code_simp

lemma demo_claimed_step: "repo_step demo_registry demo_queued demo_claimed"
  unfolding demo_claimed_def by (rule step_claim) (rule surjective_pairing)

lemma demo_reachable_previewed: "(repo_step demo_registry)\<^sup>*\<^sup>* empty_db demo_previewed"
  using demo_proposed_step demo_previewed_step by (meson r_into_rtranclp rtranclp.rtrancl_into_rtrancl)

lemma demo_reachable_queued: "(repo_step demo_registry)\<^sup>*\<^sup>* empty_db demo_queued"
  using demo_reachable_previewed demo_approved_step demo_queued_step by (meson rtranclp.rtrancl_into_rtrancl)

lemma demo_reachable_claimed: "(repo_step demo_registry)\<^sup>*\<^sup>* empty_db demo_claimed"
  using demo_reachable_queued demo_claimed_step by (rule rtranclp.rtrancl_into_rtrancl)

section \<open>Claims\<close>

lemma claim_ready_Some:
  assumes "claim_ready now w lease db = (Some (cmd, ev), db')"
  obtains e p where "next_claimable now db = Some e" and "find_proposal db (ex_proposal_id e) = Some p"
    and "pr_status p \<in> {READY, EXECUTING, COMPENSATING}"
    and "pv_proposal_id cmd = pr_id p" and "ev_execution_id ev = ex_id e"
proof -
  from assms obtain e where e: "next_claimable now db = Some e"
    by (auto simp: claim_ready_def split: option.split_asm)
  with assms obtain p where p: "find_proposal db (ex_proposal_id e) = Some p"
    "pr_status p \<in> {READY, EXECUTING, COMPENSATING}"
    by (auto simp: claim_ready_def split: option.split_asm if_split_asm)
  from assms e p have "pv_proposal_id cmd = pr_id p" "ev_execution_id ev = ex_id e"
    by (auto simp: claim_ready_def Let_def command_dict_def proposal_dict_def execution_dict_def
        proposal_view.defs proposal_command.defs)
  with e p that show thesis by blast
qed

lemma claim_approved:
  assumes "(repo_step ontology)\<^sup>*\<^sup>* empty_db db" and "claim_ready now w lease db = (Some (cmd, ev), db')"
  shows "\<exists>p. find_proposal db (pv_proposal_id cmd) = Some p \<and> (pr_approval_required p \<longrightarrow> pr_approved_by p \<noteq> None)"
  using assms(2)
proof (rule claim_ready_Some)
  fix e p
  assume e: "next_claimable now db = Some e" and p: "find_proposal db (ex_proposal_id e) = Some p"
    and id: "pv_proposal_id cmd = pr_id p"
  from reachable_inv [OF assms(1)] have inv: "wf_db db" "lives_ok db" by (simp_all add: repo_inv_def)
  have "execution_of db (ex_proposal_id e) = Some e"
    using inv(1) next_claimable_Some(1) [OF e] by (simp add: execution_of_iff)
  with life_okD [OF inv(2) p] have "pr_approval_required p \<longrightarrow> pr_approved_by p \<noteq> None"
    by (simp add: life_ok_def)
  moreover have "pr_id p = ex_proposal_id e" using inv(1) p by (simp add: find_proposal_iff)
  ultimately show ?thesis using p id by auto
qed

text \<open>An Action that needs approval is never handed to a worker without one: whatever transactions ran
  before, when \<^verbatim>\<open>claim_ready\<close> returns a command, the stored proposal it comes from was approved by somebody
  or does not require approval.\<close>

theorem no_claim_without_approval:
  assumes "(repo_step ontology)\<^sup>*\<^sup>* empty_db db" and "claim_ready now w lease db = (Some (cmd, ev), db')"
  shows "\<exists>p. find_proposal db (pv_proposal_id cmd) = Some p \<and> (pr_approval_required p \<longrightarrow> pr_approved_by p \<noteq> None)"
  using assms by (rule claim_approved)

theorem no_claim_without_approval_witness:
  "\<exists>cmd ev. fst (claim_ready 104 ''w1'' 30 demo_queued) = Some (cmd, ev) \<and>
     (\<exists>p. find_proposal demo_queued (pv_proposal_id cmd) = Some p \<and>
        (pr_approval_required p \<longrightarrow> pr_approved_by p \<noteq> None))"
proof -
  have "fst (claim_ready 104 ''w1'' 30 demo_queued) \<noteq> None" by code_simp
  then obtain cmd ev where c: "fst (claim_ready 104 ''w1'' 30 demo_queued) = Some (cmd, ev)" by auto
  then have "claim_ready 104 ''w1'' 30 demo_queued = (Some (cmd, ev), snd (claim_ready 104 ''w1'' 30 demo_queued))"
    by (metis prod.collapse)
  from no_claim_without_approval [OF demo_reachable_queued this] c show ?thesis by blast
qed

text \<open>C7. The repository refines the abstract lifecycle: one transaction moves every proposal, together with
  its execution, by at most one step of \<open>life_step\<close>.\<close>

theorem repository_refines_lifecycle:
  assumes "(repo_step ontology)\<^sup>*\<^sup>* empty_db db" and "repo_step ontology db db'"
  shows "life_of db' i = life_of db i \<or> life_step (life_of db i) (life_of db' i)"
proof -
  have "wf_db db" using reachable_inv [OF assms(1)] by (simp add: repo_inv_def)
  then show ?thesis using repo_step_writes [OF assms(2)] table_step_life by blast
qed

theorem repository_refines_lifecycle_witness:
  "life_of demo_claimed ''p1'' \<noteq> life_of demo_queued ''p1'' \<and> life_step (life_of demo_queued ''p1'') (life_of demo_claimed ''p1'')"
proof -
  have "life_of demo_claimed ''p1'' \<noteq> life_of demo_queued ''p1''" by code_simp
  with repository_refines_lifecycle [OF demo_reachable_queued demo_claimed_step, of "''p1''"] show ?thesis by blast
qed

text \<open>In every reachable database the status of a proposal agrees with that of its execution (they are
  equal, except that a queued execution may wait for a renewed approval), a proposal without an
  execution was never run, and an execution exists only for a proposal that is approved or needs no
  approval.\<close>

theorem statuses_agree:
  assumes "(repo_step ontology)\<^sup>*\<^sup>* empty_db db" and "find_proposal db i = Some p"
  shows "case execution_of db i of
      None \<Rightarrow> pr_status p \<in> {PROPOSED, PENDING_APPROVAL, READY}
    | Some e \<Rightarrow> (pr_status p = ex_status e \<or> (ex_status e = READY \<and> pr_status p = PENDING_APPROVAL)) \<and>
        (pr_approval_required p \<longrightarrow> pr_approved_by p \<noteq> None)"
  using life_okD [OF _ assms(2)] reachable_inv [OF assms(1)]
  by (auto simp: repo_inv_def life_ok_def split: option.splits if_splits)

theorem statuses_agree_witness:
  "\<exists>p e. find_proposal demo_claimed ''p1'' = Some p \<and> execution_of demo_claimed ''p1'' = Some e \<and>
     ex_status e = EXECUTING \<and> pr_status p = EXECUTING \<and> pr_approved_by p \<noteq> None"
proof -
  have "find_proposal demo_claimed ''p1'' \<noteq> None" "execution_of demo_claimed ''p1'' \<noteq> None"
    "ex_status (the (execution_of demo_claimed ''p1'')) = EXECUTING"
    "pr_approval_required (the (find_proposal demo_claimed ''p1''))" by code_simp+
  then obtain p e where p: "find_proposal demo_claimed ''p1'' = Some p" "execution_of demo_claimed ''p1'' = Some e"
    "ex_status e = EXECUTING" "pr_approval_required p" by auto
  with statuses_agree [OF demo_reachable_claimed p(1)] show ?thesis by auto
qed

text \<open>C14. The audit trail of a proposal is complete: in every reachable database its recorded transitions form
  a chain that starts from nothing, each one departing from the status the previous one reached, and
  ends in the status of the row; the transitions of an execution end in its status.\<close>

theorem audit_trail_complete:
  assumes "(repo_step ontology)\<^sup>*\<^sup>* empty_db db"
  shows "(find_proposal db i = Some p \<longrightarrow> linked None (entity_transitions db ''proposal'' i) (Some (pr_status p))) \<and>
    (find_execution db i = Some e \<longrightarrow>
       (\<exists>us u. entity_transitions db ''execution'' i = us @ [u] \<and> tr_to_status u = ex_status e))"
  using reachable_inv [OF assms] by (auto simp: repo_inv_def trail_ok_def)

theorem audit_trail_complete_witness:
  "list_transitions ''proposal'' ''p1'' demo_claimed = Inr [PROPOSED, VALIDATED, PREVIEWED, PENDING_APPROVAL, READY, EXECUTING] \<and>
   linked None (entity_transitions demo_claimed ''proposal'' ''p1'') (Some (pr_status (the (find_proposal demo_claimed ''p1''))))"
proof -
  have "list_transitions ''proposal'' ''p1'' demo_claimed = Inr [PROPOSED, VALIDATED, PREVIEWED, PENDING_APPROVAL, READY, EXECUTING]"
    "find_proposal demo_claimed ''p1'' \<noteq> None" by code_simp+
  with audit_trail_complete [OF demo_reachable_claimed, of "''p1''" "the (find_proposal demo_claimed ''p1'')"]
  show ?thesis by auto
qed

text \<open>Nothing that was recorded is lost or rewritten: along any sequence of transactions every proposal
  stays, with all its columns but status, approval and update time, every execution stays with its
  proposal, and a finished execution never changes again.\<close>

theorem records_are_permanent:
  assumes "(repo_step ontology)\<^sup>*\<^sup>* empty_db db" and "(repo_step ontology)\<^sup>*\<^sup>* db db'"
  shows "(find_proposal db i = Some p \<longrightarrow> (\<exists>p'. find_proposal db' i = Some p' \<and> frozen p' = frozen p)) \<and>
    (find_execution db j = Some e \<longrightarrow> (\<exists>e'. find_execution db' j = Some e' \<and>
       ex_proposal_id e' = ex_proposal_id e \<and> (terminal_status (ex_status e) \<longrightarrow> e' = e)))"
  using steps_keep_rows [OF reachable_inv [OF assms(1)] assms(2)] unfolding keeps_rows_def by blast

theorem records_are_permanent_witness:
  "\<exists>p p'. find_proposal demo_queued ''p1'' = Some p \<and> find_proposal demo_claimed ''p1'' = Some p' \<and>
     p \<noteq> p' \<and> frozen p' = frozen p"
proof -
  have "find_proposal demo_queued ''p1'' \<noteq> None" "find_proposal demo_claimed ''p1'' \<noteq> find_proposal demo_queued ''p1''"
    by code_simp+
  then obtain p where p: "find_proposal demo_queued ''p1'' = Some p" "find_proposal demo_claimed ''p1'' \<noteq> Some p" by auto
  have "(repo_step demo_registry)\<^sup>*\<^sup>* demo_queued demo_claimed" using demo_claimed_step by (rule r_into_rtranclp)
  from records_are_permanent [OF demo_reachable_queued this, of "''p1''" p] p show ?thesis by auto
qed

section \<open>Authorization of stored proposals\<close>

lemma check_proposal_Inr:
  assumes "check_proposal ontology c aid tid ps = Inr (a, validated)"
  shows "safe_id tid \<and> authorize_action ontology aid c = Inr a \<and> target_in_scope a tid c \<and>
    validate_parameters a ps = Inr validated"
  using assms by (auto simp: check_proposal_def err_simps split: if_split_asm)

lemma wf_registry_authorized:
  assumes "wf_registry ontology" and "authorize_action ontology aid c = Inr a"
  shows "ad_name a = aid" and "wf_dict (ad_parameters a)"
proof -
  from assms(2) have "(aid, a) \<in> set (or_actions ontology)" by (auto simp: authorize_action_Inr dest: map_of_SomeD)
  with assms(1) have "wf_action (or_objects ontology) aid a" by (auto simp: wf_registry_def)
  then show "ad_name a = aid" "wf_dict (ad_parameters a)" by (simp_all add: wf_action_def)
qed

lemma frozen_new_proposal:
  assumes "frozen p = frozen (new_proposal now new_id c a tid validated reason key ev rc)"
  shows "pr_action_id p = ad_name a \<and> pr_authorization_snapshot p = to_runtime_dict c \<and>
    pr_principal_id p = ac_principal_id c \<and> pr_tenant_id p = ac_tenant_id c \<and> pr_scope_hash p = ac_scope_hash c \<and>
    pr_executor p = ad_executor a \<and> pr_approval_required p = ad_approval_required a \<and>
    pr_action_version p = ad_version a"
  using assms by (cases p) (simp add: frozen_def new_proposal_def)

text \<open>C39. Every stored proposal was authorized when it was made: for some context, kept in the proposal as its
  snapshot, the Action was open to the caller's roles, the target lay in the caller's scope, the stored
  parameters are valid for the Action, and executor and approval policy are those of its definition.\<close>

theorem stored_proposals_authorized:
  assumes "ontology_from_mapping d = Inr ontology" and "(repo_step ontology)\<^sup>*\<^sup>* empty_db db"
    and "find_proposal db i = Some p"
  shows "\<exists>c a. authorize_action ontology (pr_action_id p) c = Inr a \<and> target_in_scope a (pr_target_id p) c \<and>
    safe_id (pr_target_id p) \<and> validate_parameters a (pr_parameters p) = Inr (pr_parameters p) \<and>
    pr_authorization_snapshot p = to_runtime_dict c \<and> pr_principal_id p = ac_principal_id c \<and>
    pr_tenant_id p = ac_tenant_id c \<and> pr_scope_hash p = ac_scope_hash c \<and> pr_executor p = ad_executor a \<and>
    pr_approval_required p = ad_approval_required a \<and> pr_action_version p = ad_version a"
proof -
  from reachable_inv [OF assms(2)] assms(3) obtain c a where "origin ontology p c a"
    unfolding repo_inv_def origins_ok_def by blast
  then obtain now new_id aid ps reason key ev rc where
    check: "check_proposal ontology c aid (pr_target_id p) ps = Inr (a, pr_parameters p)" and
    new: "frozen p = frozen (new_proposal now new_id c a (pr_target_id p) (pr_parameters p) reason key ev rc)"
    unfolding origin_def by blast
  note checked = check_proposal_Inr [OF check]
  note wf = wf_registry_authorized [OF wf_registry_from_mapping [OF assms(1)], of aid c a]
  have "validate_parameters a (pr_parameters p) = Inr (pr_parameters p)"
    using checked wf by (blast intro: validate_parameters_again)
  with checked wf frozen_new_proposal [OF new] show ?thesis by auto
qed

theorem stored_proposals_authorized_witness:
  "\<exists>p c a. find_proposal demo_claimed ''p1'' = Some p \<and> authorize_action demo_registry (pr_action_id p) c = Inr a \<and>
     target_in_scope a (pr_target_id p) c \<and> validate_parameters a (pr_parameters p) = Inr (pr_parameters p) \<and>
     pr_authorization_snapshot p = to_runtime_dict c"
proof -
  have "find_proposal demo_claimed ''p1'' \<noteq> None" by code_simp
  then obtain p where p: "find_proposal demo_claimed ''p1'' = Some p" by auto
  from stored_proposals_authorized [OF demo_registry_read demo_reachable_claimed p] p show ?thesis by blast
qed

section \<open>Leases\<close>

text \<open>C15. A lease is exclusive: while it has not expired, no claim by any worker returns or changes the
  execution, and a worker that does not own it can neither finish it, nor start or finish its
  compensation.\<close>

theorem lease_is_exclusive:
  assumes "(repo_step ontology)\<^sup>*\<^sup>* empty_db db" and "find_execution db i = Some e"
    and "ex_lease_expires_at e = Some t" and "now \<le> t"
  shows "find_execution (snd (claim_ready now w lease db)) i = Some e \<and>
    (\<forall>cmd ev. fst (claim_ready now w lease db) = Some (cmd, ev) \<longrightarrow> ev_execution_id ev \<noteq> i) \<and>
    (ex_lease_owner e \<noteq> Some w \<longrightarrow>
      finish now' i w result code detail db = Inl (ActionError ''ACTION_CONFLICT'' ''Execution lease is not owned by worker'' 409) \<and>
      begin_compensation now' i w c' d' db =
        Inl (ActionError ''ACTION_CONFLICT'' ''Execution cannot enter compensation from its current state'' 409) \<and>
      finish_compensation now' i w result failed db =
        Inl (ActionError ''ACTION_CONFLICT'' ''Execution compensation lease is not owned by worker'' 409))"
proof -
  from reachable_inv [OF assms(1)] have wf: "wf_db db" by (simp add: repo_inv_def)
  from wf_db_executionD [OF wf assms(2)] assms(3) have "active_status (ex_status e)" "ex_id e = i"
    by (auto simp: wf_execution_def)
  then have unclaimable: "\<not> claimable now e"
    using assms(3,4) by (auto simp: claimable_def active_status_def)
  have "find_execution (snd (claim_ready now w lease db)) i = Some e \<and>
    (\<forall>cmd ev. fst (claim_ready now w lease db) = Some (cmd, ev) \<longrightarrow> ev_execution_id ev \<noteq> i)"
  proof (cases "next_claimable now db")
    case None
    with assms(2) show ?thesis by (simp add: claim_ready_def)
  next
    case (Some e2)
    with next_claimable_Some(1,2) [OF Some] unclaimable wf assms(2) have "ex_id e2 \<noteq> i"
      by (metis find_execution_iff option.inject)
    with Some assms(2) show ?thesis
      by (auto simp: claim_ready_def Let_def find_execution_put execution_dict_def split: option.split)
  qed
  then show ?thesis
    using assms(2) by (simp add: finish_def begin_compensation_def finish_compensation_def)
qed

theorem lease_is_exclusive_witness:
  "\<exists>e. find_execution demo_claimed ''e1'' = Some e \<and> find_execution (snd (claim_ready 134 ''w2'' 30 demo_claimed)) ''e1'' = Some e \<and>
     finish 134 ''e1'' ''w2'' None None None demo_claimed =
       Inl (ActionError ''ACTION_CONFLICT'' ''Execution lease is not owned by worker'' 409)"
proof -
  have "find_execution demo_claimed ''e1'' \<noteq> None"
    "ex_lease_expires_at (the (find_execution demo_claimed ''e1'')) = Some 134"
    "ex_lease_owner (the (find_execution demo_claimed ''e1'')) = Some ''w1''" by code_simp+
  then obtain e where e: "find_execution demo_claimed ''e1'' = Some e" "ex_lease_expires_at e = Some 134"
    "ex_lease_owner e = Some ''w1''" by auto
  from lease_is_exclusive [OF demo_reachable_claimed e(1,2), where now = 134 and w = "''w2''" and lease = 30] e
  show ?thesis by simp
qed

section \<open>Idempotency\<close>

text \<open>Validated parameters are scalars under distinct keys, so \<^verbatim>\<open>==\<close> is reflexive on them.\<close>

definition scalar :: "pyval \<Rightarrow> bool" where
  "scalar v = (case v of PList _ \<Rightarrow> False | PDict _ \<Rightarrow> False | _ \<Rightarrow> True)"

lemma py_eq_scalar: "scalar v \<Longrightarrow> py_eq v v"
  by (cases v) (simp_all add: scalar_def)

lemma py_eq_dict_part:
  assumes "distinct (dkeys e)" and "\<forall>(k, v) \<in> set e. scalar v"
  shows "set d \<subseteq> set e \<Longrightarrow> py_eq_dict d e"
proof (induction d)
  case (Cons x d)
  obtain k v where x: "x = (k, v)" by (cases x)
  with Cons.prems assms have "dget e k = Some v" "scalar v" by auto
  then show ?case using Cons x by (simp add: py_eq_scalar)
qed simp

lemma py_eq_flat: "distinct (dkeys d) \<Longrightarrow> \<forall>(k, v) \<in> set d. scalar v \<Longrightarrow> py_eq (PDict d) (PDict d)"
  using py_eq_dict_part [of d d] by simp

lemma validate_parameter_scalar: "validate_parameter p v = Inr w \<Longrightarrow> scalar w"
  by (auto simp: validate_parameter_def is_none_def ebind_Inr_iff scalar_def
      split: if_split_asm pyval.split_asm option.split_asm)

lemma validated_flat:
  assumes wf: "wf_dict (ad_parameters a)" and v: "validate_parameters a vs = Inr res"
  shows "py_eq (PDict res) (PDict res)"
proof (rule py_eq_flat)
  from v have res: "res = map (\<lambda>(n, p). (n, get_key vs n)) (given_parameters a vs)"
    and ok: "\<forall>(n, p) \<in> set (given_parameters a vs). validate_parameter p (get_key vs n) = Inr (get_key vs n)"
    by (simp_all add: validate_parameters_Inr)
  have "dkeys res = dkeys (given_parameters a vs)" by (auto simp: res)
  with wf show "distinct (dkeys res)"
    by (simp add: given_parameters_def wf_dict_def distinct_map_filter)
  show "\<forall>(k, v) \<in> set res. scalar v" using ok validate_parameter_scalar by (fastforce simp: res)
qed

lemma same_request_new:
  "same_request p (new_proposal now new_id c a tid validated reason key ev rc) \<longleftrightarrow>
   same_request p (new_proposal now' new_id' c a tid validated reason key ev rc')"
  by (simp add: same_request_def new_proposal_def)

lemma same_request_frozen: "frozen p = frozen q \<Longrightarrow> same_request p row \<longleftrightarrow> same_request q row"
  by (cases p; cases q) (simp add: frozen_def same_request_def)

lemma request_key_frozen: "frozen p = frozen q \<Longrightarrow> request_key p = request_key q"
  by (cases p; cases q) (simp add: frozen_def request_key_def)

lemma find_request:
  assumes "wf_db db" and "find_proposal db i = Some p"
  shows "find (\<lambda>q. pr_principal_id q = pr_principal_id p \<and> pr_idempotency_key q = pr_idempotency_key p) (db_proposals db) = Some p"
proof -
  have "(\<lambda>q. pr_principal_id q = pr_principal_id p \<and> pr_idempotency_key q = pr_idempotency_key p) =
      (\<lambda>q. request_key q = request_key p)" by (auto simp: request_key_def)
  moreover have "p \<in> set (db_proposals db)" using assms by (simp add: find_proposal_iff)
  moreover have "distinct (map request_key (db_proposals db))" using assms(1) by (simp add: wf_db_def)
  ultimately show ?thesis by (simp add: find_key_Some_iff)
qed

text \<open>After a proposal was accepted its row answers the same request.\<close>

lemma propose_stored:
  assumes wf: "wf_registry ontology" and db: "wf_db db"
    and p: "propose ontology now new_id c aid tid ps reason key ev rc db = Inr (v, db1)"
  obtains a validated row where "check_proposal ontology c aid tid ps = Inr (a, validated)"
    and "find_proposal db1 (pv_proposal_id v) = Some row" and "request_key row = (ac_principal_id c, key)"
    and "same_request row (new_proposal now new_id c a tid validated reason key ev rc)"
proof -
  from p obtain a validated where check: "check_proposal ontology c aid tid ps = Inr (a, validated)"
    by (auto simp: propose_def ebind_Inr_iff)
  define row where "row = new_proposal now new_id c a tid validated reason key ev rc"
  have key: "request_key row = (ac_principal_id c, key)" "pr_id row = new_id"
    by (simp_all add: row_def new_proposal_def request_key_def)
  show thesis
  proof (cases "proposal_taken db row")
    case True
    with p check obtain q where q: "find (\<lambda>q. pr_principal_id q = ac_principal_id c \<and> pr_idempotency_key q = key) (db_proposals db) = Some q"
      "same_request q row" "v = proposal_dict q" "db1 = db"
      by (auto simp: propose_def row_def [symmetric] Let_def split: option.split_asm if_split_asm)
    then have "q \<in> set (db_proposals db)" "request_key q = (ac_principal_id c, key)"
      by (auto simp: find_Some_iff request_key_def)
    with q db that [OF check, of q] show thesis by (simp add: find_proposal_iff proposal_dict_def row_def)
  next
    case False
    with p check have v: "v = proposal_dict row" "db1 = record_transition now ''proposal'' new_id None PROPOSED None
        (db\<lparr>db_proposals := db_proposals db @ [row]\<rparr>)"
      by (simp_all add: propose_def row_def [symmetric] Let_def)
    have "find_proposal db new_id = None"
      using False key by (auto simp: find_proposal_def find_None_iff proposal_taken_def list_ex_iff)
    then have "find_proposal db1 new_id = Some row" using key by (simp add: v find_proposal_def find_append)
    moreover have "py_eq (PDict validated) (PDict validated)"
      using check_proposal_Inr [OF check] wf_registry_authorized(2) [OF wf] by (blast intro: validated_flat)
    then have "same_request row row" by (simp add: same_request_def row_def new_proposal_def)
    ultimately show thesis using that [OF check, of row] key by (simp add: row_def [symmetric] v proposal_dict_def)
  qed
qed

text \<open>Proposing is idempotent: once a request was accepted, repeating it (with any clock, fresh id and
  request context), after any transactions in between, writes nothing and returns the current state of
  the same proposal.\<close>

theorem propose_idempotent:
  assumes "ontology_from_mapping d = Inr ontology" and "(repo_step ontology)\<^sup>*\<^sup>* empty_db db"
    and "propose ontology now new_id c aid tid ps reason key ev rc db = Inr (v, db1)"
    and "(repo_step ontology)\<^sup>*\<^sup>* db1 db2"
  shows "\<exists>row. find_proposal db2 (pv_proposal_id v) = Some row \<and>
    propose ontology now' new_id' c aid tid ps reason key ev rc' db2 = Inr (proposal_dict row, db2)"
proof -
  have wf: "wf_registry ontology" using assms(1) by (rule wf_registry_from_mapping)
  have inv: "repo_inv ontology db" using assms(2) by (rule reachable_inv)
  moreover from this have "repo_inv ontology db1" using assms(3) by (blast intro: repo_inv_step step_propose)
  ultimately have inv1: "repo_inv ontology db1" and wf2: "wf_db db2"
    using repo.inv_steps [OF assms(4)] by (auto simp: repo_inv_def)
  have "wf_db db" using inv by (simp add: repo_inv_def)
  from propose_stored [OF wf this assms(3)] obtain a validated row where
    check: "check_proposal ontology c aid tid ps = Inr (a, validated)" and
    row: "find_proposal db1 (pv_proposal_id v) = Some row" "request_key row = (ac_principal_id c, key)"
      "same_request row (new_proposal now new_id c a tid validated reason key ev rc)" .
  from steps_keep_rows [OF inv1 assms(4)] row(1) obtain row2 where
    row2: "find_proposal db2 (pv_proposal_id v) = Some row2" "frozen row2 = frozen row"
    unfolding keeps_rows_def by blast
  have key: "pr_principal_id row2 = ac_principal_id c" "pr_idempotency_key row2 = key"
    using request_key_frozen [OF row2(2)] row(2) by (simp_all add: request_key_def)
  let ?new = "new_proposal now' new_id' c a tid validated reason key ev rc'"
  have same: "same_request row2 ?new"
    using row(3) same_request_frozen [OF row2(2)] same_request_new by blast
  have "row2 \<in> set (db_proposals db2)" using wf2 row2(1) by (simp add: find_proposal_iff)
  then have "proposal_taken db2 ?new"
    using key by (auto simp: proposal_taken_def list_ex_iff new_proposal_def)
  then have "propose ontology now' new_id' c aid tid ps reason key ev rc' db2 = Inr (proposal_dict row2, db2)"
    using find_request [OF wf2 row2(1)] same key by (simp add: propose_def check Let_def)
  with row2(1) show ?thesis by blast
qed

theorem propose_idempotent_witness:
  "\<exists>row. find_proposal demo_claimed ''p1'' = Some row \<and>
     propose demo_registry 500 ''p9'' demo_admin ''site.update_display_name'' ''site-a'' [(''name'', PStr ''North'')]
       None ''k1'' None demo_rc demo_claimed = Inr (proposal_dict row, demo_claimed)"
proof -
  have "succeeds (demo_propose 100 ''p1'' ''k1'' empty_db)"
    "pv_proposal_id (fst (projr (demo_propose 100 ''p1'' ''k1'' empty_db))) = ''p1''" by code_simp+
  then obtain v where v: "demo_propose 100 ''p1'' ''k1'' empty_db = Inr (v, demo_proposed)" "pv_proposal_id v = ''p1''"
    using succeeds_result unfolding demo_proposed_def by blast
  have steps: "(repo_step demo_registry)\<^sup>*\<^sup>* demo_proposed demo_claimed"
    using demo_previewed_step demo_approved_step demo_queued_step demo_claimed_step
    by (meson r_into_rtranclp rtranclp.rtrancl_into_rtrancl)
  show ?thesis
    using propose_idempotent [OF demo_registry_read rtranclp.rtrancl_refl v(1) [unfolded demo_propose_def] steps,
      of 500 "''p9''" demo_rc] v(2) by simp
qed

text \<open>A proposal is executed through at most one execution: once it was enqueued, enqueueing it again,
  after any transactions in between, either raises or writes nothing and returns the same execution.\<close>

theorem enqueue_idempotent:
  assumes "(repo_step ontology)\<^sup>*\<^sup>* empty_db db"
    and "enqueue_execution now new_id pid c db = Inr (v, db1)" and "(repo_step ontology)\<^sup>*\<^sup>* db1 db2"
    and "enqueue_execution now' new_id' pid c' db2 = Inr (v', db3)"
  shows "db3 = db2 \<and> ev_execution_id v' = ev_execution_id v"
proof -
  note views = execution_with_proposal_def execution_dict_def execution_view.defs execution_proposal_view.defs
  have inv: "repo_inv ontology db" using assms(1) by (rule reachable_inv)
  then have inv1: "repo_inv ontology db1" using assms(2) by (blast intro: repo_inv_step step_enqueue)
  have wf1: "wf_db db1" and wf2: "wf_db db2"
    using inv1 repo.inv_steps [OF assms(3) inv1] by (simp_all add: repo_inv_def)
  have "\<exists>e. execution_of db1 pid = Some e \<and> ex_id e = ev_execution_id v"
    using assms(2)
    by (auto simp: enqueue_execution_def ebind_Inr_iff Let_def views execution_of_def find_append
        record_transition_def split: if_split_asm option.split_asm)
  then obtain e where e: "execution_of db1 pid = Some e" "ex_id e = ev_execution_id v" by blast
  then have "find_execution db1 (ex_id e) = Some e" "ex_proposal_id e = pid"
    using wf1 by (simp_all add: execution_of_iff find_execution_iff)
  with steps_keep_rows [OF inv1 assms(3)] obtain e2 where
    "find_execution db2 (ex_id e) = Some e2" "ex_proposal_id e2 = pid"
    unfolding keeps_rows_def by fastforce
  then have "execution_of db2 pid = Some e2" "ex_id e2 = ev_execution_id v"
    using wf2 e by (simp_all add: execution_of_iff find_execution_iff)
  then show ?thesis
    using assms(4) by (auto simp: enqueue_execution_def ebind_Inr_iff views split: if_split_asm)
qed

theorem enqueue_idempotent_witness:
  "\<exists>v'. enqueue_execution 600 ''e9'' ''p1'' demo_admin demo_claimed = Inr (v', demo_claimed) \<and> ev_execution_id v' = ''e1''"
proof -
  let ?first = "enqueue_execution 103 ''e1'' ''p1'' demo_admin demo_approved"
  let ?second = "enqueue_execution 600 ''e9'' ''p1'' demo_admin demo_claimed"
  have "succeeds ?first" "ev_execution_id (fst (projr ?first)) = ''e1''" "succeeds ?second" by code_simp+
  then obtain v v' db3 where v: "?first = Inr (v, demo_queued)" "ev_execution_id v = ''e1''" "?second = Inr (v', db3)"
    using succeeds_result unfolding demo_queued_def by blast
  have "(repo_step demo_registry)\<^sup>*\<^sup>* empty_db demo_approved"
    using demo_reachable_previewed demo_approved_step by (rule rtranclp.rtrancl_into_rtrancl)
  moreover have "(repo_step demo_registry)\<^sup>*\<^sup>* demo_queued demo_claimed" using demo_claimed_step by (rule r_into_rtranclp)
  ultimately show ?thesis using enqueue_idempotent [OF _ v(1) _ v(3)] v by auto
qed

section \<open>Isolation\<close>

text \<open>A proposal of another principal or tenant cannot be told from one that does not exist: reading it
  returns nothing and approving, previewing or enqueueing it raises \<^verbatim>\<open>ACTION_NOT_FOUND\<close>, exactly as for an
  identifier that is not in the database.\<close>

theorem other_callers_see_nothing:
  assumes "\<And>p. find_proposal db i = Some p \<Longrightarrow> pr_principal_id p \<noteq> ac_principal_id c \<or> pr_tenant_id p \<noteq> ac_tenant_id c"
  shows "get_proposal i c db = None \<and> get_proposal_evidence i c db = None \<and>
    approve now i c by' db = Inl (ActionError ''ACTION_NOT_FOUND'' ''Action proposal not found'' 404) \<and>
    preview ontology now i c snapshot db = Inl (ActionError ''ACTION_NOT_FOUND'' ''Action proposal not found'' 404) \<and>
    enqueue_execution now new_id i c db = Inl (ActionError ''ACTION_NOT_FOUND'' ''Action proposal not found'' 404)"
proof -
  have "owned_proposal i c db = Inl (ActionError ''ACTION_NOT_FOUND'' ''Action proposal not found'' 404)"
    using assms by (auto simp: owned_proposal_def Let_def split: option.split)
  then show ?thesis
    using assms
    by (auto simp: get_proposal_def get_proposal_evidence_def proposal_matches_authorization_def
        approve_def preview_def enqueue_execution_def split: option.split)
qed

theorem other_callers_see_nothing_witness:
  "\<exists>p. find_proposal demo_claimed ''p1'' = Some p \<and>
     get_proposal ''p1'' (demo_admin\<lparr>ac_principal_id := ''mallory''\<rparr>) demo_claimed = None \<and>
     approve 200 ''p1'' (demo_admin\<lparr>ac_principal_id := ''mallory''\<rparr>) ''mallory'' demo_claimed =
       Inl (ActionError ''ACTION_NOT_FOUND'' ''Action proposal not found'' 404)"
proof -
  have "find_proposal demo_claimed ''p1'' \<noteq> None"
    "pr_principal_id (the (find_proposal demo_claimed ''p1'')) = ''public-user-001''" by code_simp+
  then obtain p where p: "find_proposal demo_claimed ''p1'' = Some p" "pr_principal_id p = ''public-user-001''" by auto
  have "pr_principal_id q \<noteq> ac_principal_id (demo_admin\<lparr>ac_principal_id := ''mallory''\<rparr>) \<or>
      pr_tenant_id q \<noteq> ac_tenant_id (demo_admin\<lparr>ac_principal_id := ''mallory''\<rparr>)"
    if "find_proposal demo_claimed ''p1'' = Some q" for q
    using that p by simp
  from other_callers_see_nothing [where now = 200 and by' = "''mallory''", OF this] p(1) show ?thesis by blast
qed

section \<open>Which execution a worker gets\<close>

text \<open>In a reachable database, when some execution is claimable, \<^verbatim>\<open>claim_ready\<close> picks one that no claimable
  execution is older than, and hands it out, leased to the caller until the given time, exactly when
  its proposal is not waiting for approval.\<close>

theorem claim_hands_out_oldest:
  assumes "(repo_step ontology)\<^sup>*\<^sup>* empty_db db" and "x \<in> set (db_executions db)" and "claimable now x"
  shows "\<exists>e p. next_claimable now db = Some e \<and> find_proposal db (ex_proposal_id e) = Some p \<and>
    ex_created_at e \<le> ex_created_at x \<and>
    (if pr_status p = PENDING_APPROVAL then claim_ready now w lease db = (None, db)
     else \<exists>cmd ev db' e'. claim_ready now w lease db = (Some (cmd, ev), db') \<and> ev_execution_id ev = ex_id e \<and>
       find_execution db' (ex_id e) = Some e' \<and> ex_lease_owner e' = Some w \<and> ex_lease_expires_at e' = Some (now + lease))"
proof -
  from reachable_inv [OF assms(1)] have inv: "wf_db db" "lives_ok db" by (simp_all add: repo_inv_def)
  have "filter (claimable now) (db_executions db) \<noteq> []" using assms(2,3) by (auto simp: filter_empty_conv)
  then have "sort_key ex_created_at (filter (claimable now) (db_executions db)) \<noteq> []"
    by (metis length_0_conv length_sort)
  then obtain e where e: "next_claimable now db = Some e"
    by (auto simp: next_claimable_def neq_Nil_conv)
  have mem: "e \<in> set (db_executions db)" and ready: "claimable now e" using next_claimable_Some [OF e] by auto
  then obtain p where p: "find_proposal db (ex_proposal_id e) = Some p" using inv(1) by (auto simp: wf_db_def)
  have exec: "execution_of db (ex_proposal_id e) = Some e" "find_execution db (ex_id e) = Some e"
    using inv(1) mem by (simp_all add: execution_of_iff find_execution_iff)
  have st: "pr_status p \<in> {PENDING_APPROVAL, READY, EXECUTING, COMPENSATING}"
    using life_okD [OF inv(2) p] exec ready
    by (auto simp: life_ok_def claimable_def split: if_split_asm)
  have "if pr_status p = PENDING_APPROVAL then claim_ready now w lease db = (None, db)
     else \<exists>cmd ev db' e'. claim_ready now w lease db = (Some (cmd, ev), db') \<and> ev_execution_id ev = ex_id e \<and>
       find_execution db' (ex_id e) = Some e' \<and> ex_lease_owner e' = Some w \<and> ex_lease_expires_at e' = Some (now + lease)"
    using st e p exec(2) by (auto simp: claim_ready_def Let_def execution_dict_def find_execution_put)
  then show ?thesis using e p next_claimable_Some(3) [OF e assms(2,3)] by blast
qed

theorem claim_hands_out_oldest_witness:
  "\<exists>cmd ev db'. claim_ready 104 ''w1'' 30 demo_queued = (Some (cmd, ev), db') \<and> ev_execution_id ev = ''e1''"
proof -
  have "find_execution demo_queued ''e1'' \<noteq> None" "claimable 104 (the (find_execution demo_queued ''e1''))"
    "next_claimable 104 demo_queued = find_execution demo_queued ''e1''"
    "ex_id (the (find_execution demo_queued ''e1'')) = ''e1''"
    "map_option pr_status (find_proposal demo_queued (ex_proposal_id (the (find_execution demo_queued ''e1'')))) = Some READY"
    by code_simp+
  then obtain x where x: "find_execution demo_queued ''e1'' = Some x" "claimable 104 x" "next_claimable 104 demo_queued = Some x"
    "ex_id x = ''e1''" "map_option pr_status (find_proposal demo_queued (ex_proposal_id x)) = Some READY" by auto
  moreover have "x \<in> set (db_executions demo_queued)" using x(1) by (auto simp: find_execution_def find_Some_iff)
  ultimately show ?thesis
    using claim_hands_out_oldest [OF demo_reachable_queued _ x(2), of "''w1''" 30] by (auto split: if_split_asm)
qed

text \<open>A second proposal is queued while the first, previewed again after it was queued, waits for approval.\<close>

definition demo_blocked :: action_db where
  "demo_blocked =
     result_db (enqueue_execution 113 ''e2'' ''p2'' demo_admin
       (result_db (approve 112 ''p2'' demo_admin ''boss''
         (result_db (preview demo_registry 111 ''p2'' demo_admin [(''id'', PStr ''site-a'')]
           (result_db (demo_propose 110 ''p2'' ''k2''
             (result_db (preview demo_registry 109 ''p1'' demo_admin [(''id'', PStr ''site-a'')] demo_queued)))))))))"

lemma demo_reachable_blocked: "(repo_step demo_registry)\<^sup>*\<^sup>* empty_db demo_blocked"
proof -
  let ?a = "result_db (preview demo_registry 109 ''p1'' demo_admin [(''id'', PStr ''site-a'')] demo_queued)"
  let ?b = "result_db (demo_propose 110 ''p2'' ''k2'' ?a)"
  let ?c = "result_db (preview demo_registry 111 ''p2'' demo_admin [(''id'', PStr ''site-a'')] ?b)"
  let ?d = "result_db (approve 112 ''p2'' demo_admin ''boss'' ?c)"
  have "repo_step demo_registry demo_queued ?a" by (rule step_preview, rule succeeds_result) code_simp
  moreover have "repo_step demo_registry ?a ?b"
    unfolding demo_propose_def by (rule step_propose, rule succeeds_result) code_simp
  moreover have "repo_step demo_registry ?b ?c" by (rule step_preview, rule succeeds_result) code_simp
  moreover have "repo_step demo_registry ?c ?d" by (rule step_approve, rule succeeds_result) code_simp
  moreover have "repo_step demo_registry ?d demo_blocked"
    unfolding demo_blocked_def by (rule step_enqueue, rule succeeds_result) code_simp
  ultimately show ?thesis using demo_reachable_queued by (meson rtranclp.rtrancl_into_rtrancl)
qed

text \<open>A queued execution can be starved (head-of-line blocking): there is a reachable database in which
  \<open>e2\<close> is ready, its proposal approved and ready, and yet \<^verbatim>\<open>claim_ready\<close> returns nothing to any worker at any
  time, because the older \<open>e1\<close> is looked at alone and its proposal went back to waiting for approval.\<close>

theorem claim_starved_by_older:
  "\<exists>db. (repo_step demo_registry)\<^sup>*\<^sup>* empty_db db \<and>
     map_option ex_status (find_execution db ''e2'') = Some READY \<and>
     map_option pr_status (find_proposal db ''p2'') = Some READY \<and>
     (\<forall>now w lease. claim_ready now w lease db = (None, db))"
proof (intro exI conjI allI)
  show "(repo_step demo_registry)\<^sup>*\<^sup>* empty_db demo_blocked" by (rule demo_reachable_blocked)
  show "map_option ex_status (find_execution demo_blocked ''e2'') = Some READY"
    "map_option pr_status (find_proposal demo_blocked ''p2'') = Some READY" by code_simp+
  fix now w lease
  have "list_all (\<lambda>e. ex_status e = READY) (db_executions demo_blocked)" by code_simp
  then have all: "filter (claimable now) (db_executions demo_blocked) = db_executions demo_blocked"
    by (auto simp: list_all_iff claimable_def filter_id_conv)
  have "(case sort_key ex_created_at (db_executions demo_blocked) of [] \<Rightarrow> None
      | e # _ \<Rightarrow> map_option pr_status (find_proposal demo_blocked (ex_proposal_id e))) = Some PENDING_APPROVAL"
    by code_simp
  then show "claim_ready now w lease demo_blocked = (None, demo_blocked)"
    by (auto simp: claim_ready_def next_claimable_def all split: list.split_asm option.split)
qed

definition demo_misreported :: action_db where
  "demo_misreported =
     (case begin_compensation 105 ''e1'' ''w1'' ''EXECUTION_FAILED'' ''refused'' demo_claimed of
        Inl _ \<Rightarrow> empty_db
      | Inr db \<Rightarrow> (case finish 106 ''e1'' ''w1'' None (Some ''SCOPE_CHANGED'') None db of Inl _ \<Rightarrow> empty_db | Inr db' \<Rightarrow> db'))"

text \<open>The audit trail of an execution can misreport where it came from: \<^verbatim>\<open>finish\<close> records a departure from
  \<^verbatim>\<open>EXECUTING\<close> also for an execution that was compensating, so that in a reachable database the transitions
  of an execution do not form a chain.\<close>

theorem execution_trail_misreported:
  "\<exists>db e. (repo_step demo_registry)\<^sup>*\<^sup>* empty_db db \<and> find_execution db ''e1'' = Some e \<and>
     list_transitions ''execution'' ''e1'' db = Inr [READY, EXECUTING, COMPENSATING, FAILED] \<and>
     \<not> linked None (entity_transitions db ''execution'' ''e1'') (Some (ex_status e))"
proof -
  let ?started = "begin_compensation 105 ''e1'' ''w1'' ''EXECUTION_FAILED'' ''refused'' demo_claimed"
  have "succeeds ?started" by code_simp
  then obtain db where db: "?started = Inr db" by (auto simp: succeeds_def split: sum.splits)
  have "succeeds (finish 106 ''e1'' ''w1'' None (Some ''SCOPE_CHANGED'') None (projr ?started))" by code_simp
  then obtain db' where db': "finish 106 ''e1'' ''w1'' None (Some ''SCOPE_CHANGED'') None db = Inr db'"
    by (auto simp: succeeds_def db split: sum.splits)
  have "demo_misreported = db'" by (simp add: demo_misreported_def db db')
  moreover have "(repo_step demo_registry)\<^sup>*\<^sup>* empty_db db'"
    using demo_reachable_claimed step_begin [OF db] step_finish [OF db'] by (meson rtranclp.rtrancl_into_rtrancl)
  moreover have "find_execution demo_misreported ''e1'' \<noteq> None"
    "list_transitions ''execution'' ''e1'' demo_misreported = Inr [READY, EXECUTING, COMPENSATING, FAILED]"
    "\<not> linked None (entity_transitions demo_misreported ''execution'' ''e1'')
        (Some (ex_status (the (find_execution demo_misreported ''e1''))))"
    by code_simp+
  ultimately show ?thesis by auto
qed

end
