(* ===== verification/Sql_Scope_Laws.thy ===== *)
theory Sql_Scope_Laws
  imports Sql_Scope
begin

text \<open>
  What the SQL scope guard guarantees, for any database engine that evaluates a query from its parts: which tables,
  databases, constructs and fields an accepted query may use, how many rows it may ask for, and that its
  result does not depend on rows outside the caller's scope. The properties themselves are in
  \<^verbatim>\<open>Sql_Scope_Properties\<close>.
\<close>

section \<open>Nodes of a tree\<close>

fun nodes :: "path \<Rightarrow> sql_head list \<Rightarrow> sql \<Rightarrow> visited list"
  and nodes_list :: "path \<Rightarrow> sql_head list \<Rightarrow> nat \<Rightarrow> sql list \<Rightarrow> visited list" where
  "nodes p anc (Node h cs) = (p, anc, Node h cs) # nodes_list p (h # anc) 0 cs"
| "nodes_list p anc i [] = []"
| "nodes_list p anc i (c # cs) = nodes (p @ [i]) anc c @ nodes_list p anc (Suc i) cs"

lemma nodes_list_children:
  "set (nodes_list p (h # anc) i cs) = (\<Union>(q, a, t)\<in>set (map (\<lambda>(i, c). (p @ [i], h # anc, c)) (enumerate i cs)). set (nodes q a t))"
  by (induction cs arbitrary: i) auto

lemma set_walk: "set (walk queue) = (\<Union>(p, anc, t)\<in>set queue. set (nodes p anc t))"
  by (induction queue rule: walk.induct) (auto simp: nodes_list_children children_def)

lemma set_walk_statement: "set (walk_statement t) = set (nodes [] [] t)"
  by (simp add: walk_statement_def set_walk)

fun node_at :: "path \<Rightarrow> sql \<Rightarrow> sql option" where
  "node_at [] t = Some t"
| "node_at (i # p) (Node h cs) = (if i < length cs then node_at p (cs ! i) else None)"

lemma nodes_node_at:
  "(p', anc', t') \<in> set (nodes p anc t) \<Longrightarrow> \<exists>q. p' = p @ q \<and> node_at q t = Some t'"
  "(p', anc', t') \<in> set (nodes_list p anc i cs) \<Longrightarrow> \<exists>j q. p' = p @ (i + j) # q \<and> j < length cs \<and> node_at q (cs ! j) = Some t'"
proof (induction p anc t and p anc i cs rule: nodes_nodes_list.induct)
  case (1 p anc h cs)
  then show ?case by (force intro: exI [of _ "[]"])
next
  case (3 p anc i c cs)
  from "3.prems" consider "(p', anc', t') \<in> set (nodes (p @ [i]) anc c)" | "(p', anc', t') \<in> set (nodes_list p anc (Suc i) cs)" by auto
  then show ?case
  proof cases
    case 1
    from "3.IH"(1) [OF this] obtain q where "p' = p @ i # q" "node_at q c = Some t'" by auto
    then show ?thesis by (intro exI [of _ 0] exI [of _ q]) simp
  next
    case 2
    from "3.IH"(2) [OF this] obtain j q where "p' = p @ (Suc i + j) # q" "j < length cs" "node_at q (cs ! j) = Some t'" by blast
    then show ?thesis by (intro exI [of _ "Suc j"] exI [of _ q]) simp
  qed
qed simp

text \<open>A position determines its node.\<close>

lemma nodes_unique:
  assumes "(p, anc, t1) \<in> set (nodes [] [] t)" and "(p, anc', t2) \<in> set (nodes [] [] t)"
  shows "t1 = t2"
  using nodes_node_at(1) [OF assms(1)] nodes_node_at(1) [OF assms(2)] by auto

section \<open>What acceptance means\<close>

definition cte_reference :: "visited list \<Rightarrow> string \<Rightarrow> string \<Rightarrow> bool" where
  "cte_reference vs db name \<longleftrightarrow> db = '''' \<and> str_lower name \<in> set (cte_names vs)"

lemma cte_names_cong: "set vs = set ws \<Longrightarrow> set (cte_names vs) = set (cte_names ws)"
  by (auto simp: cte_names_def List.map_filter_def)

lemma table_nodes_mem:
  "t \<in> set (table_nodes vs) \<longleftrightarrow>
     (\<exists>anc cs. (tn_path t, anc, Node (Sql_Table (tn_db t) (tn_name t) (tn_alias t)) cs) \<in> set vs) \<and>
     \<not> cte_reference vs (tn_db t) (tn_name t)"
proof -
  have "t \<in> set (List.map_filter as_table vs) \<longleftrightarrow>
      (\<exists>anc cs. (tn_path t, anc, Node (Sql_Table (tn_db t) (tn_name t) (tn_alias t)) cs) \<in> set vs)"
    by (force simp: List.map_filter_def as_table_def split: sql_head.split_asm sql.split_asm)
  then show ?thesis by (auto simp: table_nodes_def cte_reference_def)
qed

lemma emap_unit_ok: "emap f xs = Inr ys \<Longrightarrow> x \<in> set xs \<Longrightarrow> \<exists>y. f x = Inr y"
  by (auto simp: emap_Inr_iff list_all2_conv_all_nth in_set_conv_nth)

lemma if_Inl_Inr_iff: "(if c then Inl e else r) = Inr x \<longleftrightarrow> \<not> c \<and> r = Inr x"
  by simp

text \<open>The pieces of an accepted query.\<close>

lemma guard_statement_Inr:
  assumes "guard_statement add_limit registry auth dbs limit statement = Inr q"
  obtains tps sps where
    "\<And>v. v \<in> set (nodes [] [] statement) \<Longrightarrow> check_node v = Inr ()"
    "list_all2 (\<lambda>t tp. fst tp = t \<and> authorize_table registry dbs t = Inr (snd tp)) (table_nodes (walk_statement statement)) tps"
    "validate_columns (walk_statement statement) (alias_table tps) = Inr ()"
    "scope_predicates auth tps = Inr sps"
    "\<And>v. v \<in> set (nodes [] [] (scope_statement sps statement)) \<Longrightarrow> check_limit v = Inr () \<and> check_offset v = Inr ()"
    "sq_statement q = (let capped = cap_limits (bound_limit limit) (scope_statement sps statement)
       in if has_limit capped then capped else add_limit capped (bound_limit limit))"
    "sq_parameters q = fold (\<lambda>sp. fold (\<lambda>(k, v). dset k v) (sp_parameters sp)) sps []"
    "\<And>n. n \<in> set (cte_names (walk_statement statement)) \<Longrightarrow> dget (sr_tables registry) n = None"
proof -
  let ?capped = "\<lambda>sps. cap_limits (bound_limit limit) (scope_statement sps statement)"
  let ?final = "\<lambda>sps. if has_limit (?capped sps) then ?capped sps else add_limit (?capped sps) (bound_limit limit)"
  from assms obtain a tps u sps b c where
      1: "emap check_node (walk_statement statement) = Inr a"
      and 2: "\<not> filter (\<lambda>n. dget (sr_tables registry) n \<noteq> None) (cte_names (walk_statement statement)) \<noteq> []"
      and 3: "emap (\<lambda>t. ebind (authorize_table registry dbs t) (\<lambda>p. Inr (t, p))) (table_nodes (walk_statement statement)) = Inr tps"
      and 4: "validate_columns (walk_statement statement) (alias_table tps) = Inr u"
      and 5: "scope_predicates auth tps = Inr sps"
      and 6: "emap check_limit (walk_statement (scope_statement sps statement)) = Inr b"
      and 7: "emap check_offset (walk_statement (scope_statement sps statement)) = Inr c"
      and 8: "\<lparr>sq_statement = ?final sps,
              sq_parameters = fold (\<lambda>sp. fold (\<lambda>(k, v). dset k v) (sp_parameters sp)) sps [],
              sq_referenced_tables = sorted_set (map (\<lambda>(t, _). str_lower (tn_name t)) tps),
              sq_policy_version = sr_version registry,
              sq_scope_hash = ac_scope_hash auth,
              sq_referenced_fields = sorted_set (column_names (walk_statement (?final sps))),
              sq_scope_predicates_applied = length sps\<rparr> = q"
    unfolding guard_statement_def Let_def if_Inl_Inr_iff ebind_Inr_iff sum.inject by (elim exE conjE) (rule that; assumption)
  show thesis
  proof (rule that)
    show "check_node v = Inr ()" if "v \<in> set (nodes [] [] statement)" for v
      using emap_unit_ok [OF 1] that by (auto simp: set_walk_statement)
    show "list_all2 (\<lambda>t tp. fst tp = t \<and> authorize_table registry dbs t = Inr (snd tp)) (table_nodes (walk_statement statement)) tps"
      using 3 unfolding emap_Inr_iff by (rule list_all2_mono) (auto simp: err_simps)
    show "check_limit v = Inr () \<and> check_offset v = Inr ()" if "v \<in> set (nodes [] [] (scope_statement sps statement))" for v
      using emap_unit_ok [OF 6] emap_unit_ok [OF 7] that by (fastforce simp: set_walk_statement)
    show "dget (sr_tables registry) n = None" if "n \<in> set (cte_names (walk_statement statement))" for n
      using 2 that by (auto simp: filter_empty_conv)
    show "sq_statement q = (let capped = ?capped sps in if has_limit capped then capped else add_limit capped (bound_limit limit))"
      unfolding 8 [symmetric] Let_def by simp
    show "sq_parameters q = fold (\<lambda>sp. fold (\<lambda>(k, v). dset k v) (sp_parameters sp)) sps []"
      unfolding 8 [symmetric] by simp
  qed (use 4 5 in auto)
qed


section \<open>Positions of the predicates\<close>

text \<open>The predicate of one table, as the loop builds it.\<close>

definition table_predicate ::
  "authorization_context \<Rightarrow> nat \<times> table_node \<times> table_scope_policy \<Rightarrow> sql_scope_error + scope_predicate" where
  "table_predicate auth = (\<lambda>(index, t, policy).
     case (tp_scope_dimension policy, tp_scope_column policy) of
       (Some dimension, Some column) \<Rightarrow>
         ebind (scope_values auth dimension) (\<lambda>ids.
         Inr \<lparr>sp_path = tn_path t, sp_column = column, sp_parameters = parameterized index ids\<rparr>)
     | _ \<Rightarrow> Inl AssertionFailed)"

lemma table_predicate_Inr:
  assumes "table_predicate auth (i, t, policy) = Inr sp"
  obtains d c ids where "tp_scope_dimension policy = Some d" "tp_scope_column policy = Some c" "scope_values auth d = Inr ids"
    "sp = \<lparr>sp_path = tn_path t, sp_column = c, sp_parameters = parameterized i ids\<rparr>"
  using assms by (auto simp: table_predicate_def err_simps split: option.split_asm)

lemma scope_predicates_iff:
  "scope_predicates auth tps = Inr sps \<longleftrightarrow>
     list_all2 (\<lambda>x sp. table_predicate auth x = Inr sp) (filter (\<lambda>(_, _, policy). needs_scope auth policy) (enumerate 0 tps)) sps"
  unfolding scope_predicates_def table_predicate_def [symmetric] emap_Inr_iff ..

lemma list_all2_left: "list_all2 P xs ys \<Longrightarrow> x \<in> set xs \<Longrightarrow> \<exists>y\<in>set ys. P x y"
  by (metis list_all2_conv_all_nth in_set_conv_nth)

lemma list_all2_right: "list_all2 P xs ys \<Longrightarrow> y \<in> set ys \<Longrightarrow> \<exists>x\<in>set xs. P x y"
  by (metis list_all2_conv_all_nth in_set_conv_nth)

lemma scope_predicate_of:
  assumes "scope_predicates auth tps = Inr sps" and "i < length tps" and "tps ! i = (t, policy)" and "needs_scope auth policy"
  shows "\<exists>sp\<in>set sps. table_predicate auth (i, t, policy) = Inr sp"
  using assms by (intro list_all2_left [OF assms(1) [unfolded scope_predicates_iff]]) (auto simp: in_set_enumerate_eq)

lemma scope_predicate_origin:
  assumes "scope_predicates auth tps = Inr sps" and "sp \<in> set sps"
  shows "\<exists>i t policy. i < length tps \<and> tps ! i = (t, policy) \<and> needs_scope auth policy \<and> table_predicate auth (i, t, policy) = Inr sp"
  using list_all2_right [OF assms(1) [unfolded scope_predicates_iff] assms(2)] by (auto simp: in_set_enumerate_eq)

section \<open>Parameters\<close>

lemma underscore_not_in_nat_str: "CHR ''_'' \<notin> set (nat_str n)"
  using nat_str_digits [of n] by (auto simp: list_all_iff is_digit_char_def in_range_def char_code_def)

lemma parameter_name_inject: "parameter_name i m = parameter_name j n \<longleftrightarrow> i = j \<and> m = n"
proof -
  have "i = j \<and> m = n" if "nat_str i @ CHR ''_'' # nat_str m = nat_str j @ CHR ''_'' # nat_str n"
  proof -
    have "takeWhile (\<lambda>c. c \<noteq> CHR ''_'') (nat_str k @ CHR ''_'' # xs) = nat_str k" for k xs
      using underscore_not_in_nat_str [of k] by (subst takeWhile_append2) auto
    with that have "nat_str i = nat_str j" by metis
    with that show ?thesis by simp
  qed
  then show ?thesis by (auto simp: parameter_name_def)
qed

lemma parameterized_mem: "(k, v) \<in> set (parameterized i ids) \<longleftrightarrow> (\<exists>n<length ids. k = parameter_name i n \<and> v = ids ! n)"
proof -
  have "parameterized i ids = map (\<lambda>n. (parameter_name i n, ids ! n)) [0..<length ids]"
    by (rule nth_equalityI) (auto simp: parameterized_def nth_enumerate_eq)
  then show ?thesis by auto
qed

lemma fold_dset_get:
  "dget (fold (\<lambda>(k, v). dset k v) kvs d) x = Some y \<Longrightarrow> (x, y) \<in> set kvs \<or> dget d x = Some y \<and> x \<notin> fst ` set kvs"
proof (induction kvs arbitrary: d)
  case (Cons kv kvs)
  obtain k v where "kv = (k, v)" by (cases kv)
  with Cons show ?case by (fastforce split: if_split_asm)
qed simp

lemma fold_dset_keys: "x \<in> set (dkeys kvs) \<or> dget d x \<noteq> None \<Longrightarrow> dget (fold (\<lambda>(k, v). dset k v) kvs d) x \<noteq> None"
proof (induction kvs arbitrary: d)
  case (Cons kv kvs)
  obtain k v where "kv = (k, v)" by (cases kv)
  with Cons.IH [of "dset k v d"] Cons.prems show ?case by auto
qed simp

lemma fold_fold_dset:
  "fold (\<lambda>sp. fold (\<lambda>(k, v). dset k v) (sp_parameters sp)) sps d = fold (\<lambda>(k, v). dset k v) (concat (map sp_parameters sps)) d"
  by (induction sps arbitrary: d) simp_all

text \<open>A parameter of a table's predicate is bound to a value of that table's scope, and to no other.\<close>

lemma scope_parameter_value:
  assumes ok: "scope_predicates auth tps = Inr sps" and sp: "sp \<in> set sps" and at: "table_predicate auth (i, t, policy) = Inr sp"
    and d: "tp_scope_dimension policy = Some d" "scope_values auth d = Inr ids"
    and n: "n \<in> set (dkeys (sp_parameters sp))"
    and v: "dget (fold (\<lambda>sp. fold (\<lambda>(k, v). dset k v) (sp_parameters sp)) sps []) n = Some v"
    and i: "i < length tps" "tps ! i = (t, policy)"
  shows "v \<in> set ids"
proof -
  from at d have params: "sp_parameters sp = parameterized i ids" by (auto elim: table_predicate_Inr)
  with n obtain m where m: "n = parameter_name i m" by (auto simp: parameterized_mem)
  from fold_dset_get [OF v [unfolded fold_fold_dset]] obtain sp' where sp': "sp' \<in> set sps" "(n, v) \<in> set (sp_parameters sp')" by auto
  from scope_predicate_origin [OF ok sp'(1)] obtain j t' policy' where j: "tps ! j = (t', policy')" "table_predicate auth (j, t', policy') = Inr sp'" by blast
  then obtain d' ids' where d': "tp_scope_dimension policy' = Some d'" "scope_values auth d' = Inr ids'" "sp_parameters sp' = parameterized j ids'"
    by (auto elim: table_predicate_Inr)
  with sp'(2) m have "j = i" by (auto simp: parameterized_mem parameter_name_inject)
  with i j d d' have "ids' = ids" by simp
  with d'(3) sp'(2) show ?thesis by (auto simp: parameterized_mem)
qed


section \<open>Tables of an accepted query\<close>

lemma accepted_table:
  assumes tps: "list_all2 (\<lambda>t tp. fst tp = t \<and> authorize_table registry dbs t = Inr (snd tp)) (table_nodes (walk_statement statement)) tps"
    and ok: "scope_predicates auth tps = Inr sps"
    and mem: "(p, anc, Node (Sql_Table db name alias) cs) \<in> set (nodes [] [] statement)"
    and ref: "\<not> cte_reference (walk_statement statement) db name"
  obtains t policy i where "i < length tps" "tps ! i = (t, policy)" "tn_path t = p" "tn_db t = db" "tn_name t = name" "tn_alias t = alias"
    "authorize_table registry dbs t = Inr policy"
    "needs_scope auth policy \<Longrightarrow> \<exists>sp\<in>set sps. table_predicate auth (i, t, policy) = Inr sp \<and> sp_path sp = p"
proof -
  let ?t = "\<lparr>tn_path = p, tn_db = db, tn_name = name, tn_alias = alias\<rparr>"
  have "?t \<in> set (table_nodes (walk_statement statement))"
    using mem ref by (auto simp: table_nodes_mem set_walk_statement)
  then obtain i where i: "i < length (table_nodes (walk_statement statement))" "table_nodes (walk_statement statement) ! i = ?t"
    by (metis in_set_conv_nth)
  with tps have "i < length tps" "fst (tps ! i) = ?t" "authorize_table registry dbs ?t = Inr (snd (tps ! i))"
    by (auto simp: list_all2_conv_all_nth)
  moreover have "\<exists>sp\<in>set sps. table_predicate auth (i, ?t, snd (tps ! i)) = Inr sp \<and> sp_path sp = p" if "needs_scope auth (snd (tps ! i))"
  proof -
    have "tps ! i = (?t, snd (tps ! i))" using calculation(2) by (simp add: prod_eq_iff)
    from scope_predicate_of [OF ok calculation(1) this that] obtain sp where "sp \<in> set sps" and at: "table_predicate auth (i, ?t, snd (tps ! i)) = Inr sp"
      by blast
    moreover from at have "sp_path sp = p" by (auto elim: table_predicate_Inr)
    ultimately show ?thesis by blast
  qed
  ultimately show thesis by (intro that [of i ?t "snd (tps ! i)"]) (auto simp: prod_eq_iff)
qed

text \<open>The predicate at the position of a table is one of that very table; there is none at a reference to a CTE,
  nor at a table that needs none.\<close>

lemma predicate_at_Some:
  assumes tps: "list_all2 (\<lambda>t tp. fst tp = t \<and> authorize_table registry dbs t = Inr (snd tp)) (table_nodes (walk_statement statement)) tps"
    and ok: "scope_predicates auth tps = Inr sps"
    and mem: "(p, anc, Node (Sql_Table db name alias) cs) \<in> set (nodes [] [] statement)"
    and at: "predicate_at sps p = Some sp"
  obtains i t policy where "i < length tps" "tps ! i = (t, policy)" "tn_db t = db" "tn_name t = name" "needs_scope auth policy"
    "authorize_table registry dbs t = Inr policy" "table_predicate auth (i, t, policy) = Inr sp" "sp \<in> set sps"
    "\<not> cte_reference (walk_statement statement) db name"
proof -
  from at have sp: "sp \<in> set sps" "sp_path sp = p" by (auto simp: predicate_at_def find_Some_iff)
  from scope_predicate_origin [OF ok sp(1)] obtain i t policy where
      i: "i < length tps" "tps ! i = (t, policy)" "needs_scope auth policy" "table_predicate auth (i, t, policy) = Inr sp" by blast
  then have "tn_path t = p" using sp(2) by (auto elim: table_predicate_Inr)
  from tps i(1) have "fst (tps ! i) \<in> set (table_nodes (walk_statement statement))" and auth: "authorize_table registry dbs (fst (tps ! i)) = Inr (snd (tps ! i))"
    by (auto simp: list_all2_conv_all_nth)
  then have "t \<in> set (table_nodes (walk_statement statement))" using i(2) by simp
  then obtain anc' cs' where "(p, anc', Node (Sql_Table (tn_db t) (tn_name t) (tn_alias t)) cs') \<in> set (nodes [] [] statement)"
      and ref: "\<not> cte_reference (walk_statement statement) (tn_db t) (tn_name t)"
    unfolding table_nodes_mem set_walk_statement \<open>tn_path t = p\<close> by blast
  from nodes_unique [OF this(1) mem] have "tn_db t = db" "tn_name t = name" by auto
  with i sp(1) auth ref show thesis by (intro that [of i t policy]) auto
qed

section \<open>Data outside the scope does not matter\<close>

text \<open>A database gives the rows of a table, a row its column values. An engine evaluates a tree from the values of
  its parts: \<open>source\<close> for a table (its alias, its rows, what is attached to it), \<open>sem\<close> for every other node. A
  reference to a CTE reads no table.\<close>

type_synonym row = "string \<Rightarrow> string"
type_synonym database = "string \<Rightarrow> string \<Rightarrow> row list"

fun eval :: "(sql_head \<Rightarrow> 'v list \<Rightarrow> 'v) \<Rightarrow> (string \<Rightarrow> row list \<Rightarrow> 'v list \<Rightarrow> 'v) \<Rightarrow> string list \<Rightarrow> database \<Rightarrow> sql \<Rightarrow> 'v" where
  "eval sem source ctes D (Node h cs) =
     (case h of
        Sql_Table db name alias \<Rightarrow>
          if db = '''' \<and> str_lower name \<in> set ctes then sem h (map (eval sem source ctes D) cs)
          else source (if alias = '''' then name else alias) (D db name) (map (eval sem source ctes D) cs)
      | _ \<Rightarrow> sem h (map (eval sem source ctes D) cs))"

text \<open>The meaning of \<^verbatim>\<open>(SELECT * FROM name WHERE column IN (:p, ...)) AS alias\<close> under the parameters of the query.\<close>

definition selects_in ::
  "(sql_head \<Rightarrow> 'v list \<Rightarrow> 'v) \<Rightarrow> (string \<Rightarrow> row list \<Rightarrow> 'v list \<Rightarrow> 'v) \<Rightarrow> (string, string) dict \<Rightarrow> bool" where
  "selects_in sem source parameters \<longleftrightarrow>
     (\<forall>alias name rows column names.
        sem (Sql_Subquery alias)
          [sem Sql_Select
            [sem Sql_Star [], sem Sql_From [source name rows []],
             sem Sql_Where [sem Sql_In (sem (Sql_Column '''' '''' column) [] # map (\<lambda>n. sem (Sql_Placeholder n) []) names)]]] =
        source alias (filter (\<lambda>r. \<exists>n\<in>set names. dget parameters n = Some (r column)) rows) [])"

text \<open>Two databases look the same to the caller: tables that need no scope have the same rows, scoped tables the same
  rows in scope. Tables without a policy may differ in any way.\<close>

definition same_view :: "sql_scope_policy_registry \<Rightarrow> authorization_context \<Rightarrow> database \<Rightarrow> database \<Rightarrow> bool" where
  "same_view registry auth D D' \<longleftrightarrow>
     (\<forall>db name policy. policy_for registry (str_lower name) = Inr policy \<longrightarrow>
        (if needs_scope auth policy
         then \<forall>d c ids. tp_scope_dimension policy = Some d \<longrightarrow> tp_scope_column policy = Some c \<longrightarrow> scope_values auth d = Inr ids \<longrightarrow>
           filter (\<lambda>r. r c \<in> set ids) (D db name) = filter (\<lambda>r. r c \<in> set ids) (D' db name)
         else D db name = D' db name))"

definition bare_tables :: "sql \<Rightarrow> bool" where
  "bare_tables t \<longleftrightarrow> (\<forall>(p, anc, n)\<in>set (nodes [] [] t). case n of Node (Sql_Table _ _ _) cs \<Rightarrow> cs = [] | _ \<Rightarrow> True)"

lemma filter_subset: "S \<subseteq> T \<Longrightarrow> filter (\<lambda>r. f r \<in> S) xs = filter (\<lambda>r. f r \<in> S) (filter (\<lambda>r. f r \<in> T) xs)"
  by (auto intro: filter_cong)

lemma eval_cap:
  assumes "\<And>c. c \<in> set cs \<Longrightarrow> eval sem source ctes D c = eval sem source ctes D' c"
  shows "map (eval sem source ctes D) (cap bound h cs) = map (eval sem source ctes D') (cap bound h cs)"
  using assms by (cases cs) (auto simp: cap_def split: option.split)


lemma eval_table:
  "eval sem source ctes D (Node (Sql_Table db name al) ts) =
     (if db = '''' \<and> str_lower name \<in> set ctes then sem (Sql_Table db name al) (map (eval sem source ctes D) ts)
      else source (if al = '''' then name else al) (D db name) (map (eval sem source ctes D) ts))"
  by simp

lemma eval_scoped_source:
  assumes "selects_in sem source parameters" and "\<not> (db = '''' \<and> str_lower name \<in> set ctes)"
  shows "eval sem source ctes D (cap_limits bound (scoped_source a (Node (Sql_Table db name '''') []) column names)) =
    source a (filter (\<lambda>r. \<exists>n\<in>set names. dget parameters n = Some (r column)) (D db name)) []"
proof -
  have "map (eval sem source ctes D) (map (cap_limits bound) (map (\<lambda>n. Node (Sql_Placeholder n) []) names)) =
      map (\<lambda>n. sem (Sql_Placeholder n) []) names"
    by (simp add: cap_def fixed_integer_def)
  then show ?thesis
    using assms(2) assms(1) [unfolded selects_in_def, rule_format, of a name "D db name" column names]
    by (auto simp: scoped_source_def cap_def fixed_integer_def comp_def)
qed

text \<open>The rewritten tree evaluates alike in both databases, if every table of the original that is read unscoped has the
  same rows and every scoped one the same rows in scope.\<close>

lemma eval_rewrite:
  assumes law: "selects_in sem source parameters"
    and plain: "\<And>p anc db name alias cs. (p, anc, Node (Sql_Table db name alias) cs) \<in> N \<Longrightarrow> predicate p = None \<Longrightarrow>
      \<not> (db = '''' \<and> str_lower name \<in> set ctes) \<Longrightarrow> D db name = D' db name"
    and scoped: "\<And>p anc db name alias cs sp. (p, anc, Node (Sql_Table db name alias) cs) \<in> N \<Longrightarrow> predicate p = Some sp \<Longrightarrow>
      cs = [] \<and> \<not> (db = '''' \<and> str_lower name \<in> set ctes) \<and>
      (let inside = (\<lambda>r. \<exists>n\<in>set (dkeys (sp_parameters sp)). dget parameters n = Some (r (sp_column sp)))
       in filter inside (D db name) = filter inside (D' db name))"
  shows "set (nodes p anc t) \<subseteq> N \<Longrightarrow>
      eval sem source ctes D (cap_limits bound (rewrite predicate p t)) = eval sem source ctes D' (cap_limits bound (rewrite predicate p t))"
    and "set (nodes_list p anc' i ts) \<subseteq> N \<Longrightarrow> \<forall>c\<in>set (rewrite_list predicate p i ts).
      eval sem source ctes D (cap_limits bound c) = eval sem source ctes D' (cap_limits bound c)"
proof (induction p anc t and p anc' i ts rule: nodes_nodes_list.induct)
  case (1 p anc h cs)
  let ?ev = "eval sem source ctes"
  have children: "map (?ev D) (cap bound h (map (cap_limits bound) (rewrite_list predicate p 0 cs))) =
      map (?ev D') (cap bound h (map (cap_limits bound) (rewrite_list predicate p 0 cs)))"
    using "1.IH" "1.prems" by (intro eval_cap) auto
  have node: "(p, anc, Node h cs) \<in> N" using "1.prems" by simp
  show ?case
  proof (cases "\<exists>db name al. h = Sql_Table db name al")
    case False
    then have "rewrite predicate p (Node h cs) = Node h (rewrite_list predicate p 0 cs)" by (auto split: sql_head.split)
    moreover have "?ev E (Node h ts) = sem h (map (?ev E) ts)" for E ts using False by (auto split: sql_head.split)
    ultimately show ?thesis by (simp only: cap_limits.simps children)
  next
    case True
    then obtain db name al where h: "h = Sql_Table db name al" by blast
    show ?thesis
    proof (cases "predicate p")
      case None
      then have "rewrite predicate p (Node h cs) = Node h (rewrite_list predicate p 0 cs)" by (simp add: h)
      moreover have "db = '''' \<and> str_lower name \<in> set ctes \<or> D db name = D' db name" using plain node None h by blast
      ultimately show ?thesis by (auto simp only: cap_limits.simps eval_table h children [unfolded h] split: if_split)
    next
      case (Some sp)
      have cs: "cs = []" and ref: "\<not> (db = '''' \<and> str_lower name \<in> set ctes)"
        and rows: "filter (\<lambda>r. \<exists>n\<in>set (dkeys (sp_parameters sp)). dget parameters n = Some (r (sp_column sp))) (D db name) =
          filter (\<lambda>r. \<exists>n\<in>set (dkeys (sp_parameters sp)). dget parameters n = Some (r (sp_column sp))) (D' db name)"
        using scoped [of p anc db name al cs sp] node Some h by (auto simp: Let_def)
      have "?ev E (cap_limits bound (rewrite predicate p (Node h cs))) =
          source (if al = '''' then name else al) (filter (\<lambda>r. \<exists>n\<in>set (dkeys (sp_parameters sp)). dget parameters n = Some (r (sp_column sp))) (E db name)) []" for E
        using eval_scoped_source [OF law ref] by (simp only: h Some cs rewrite.simps sql_head.case option.case prod.case)
      with rows show ?thesis by simp
    qed
  qed
qed auto

definition limit_node :: "int \<Rightarrow> sql" where
  "limit_node n = Node Sql_Limit [Node (Sql_Literal (Some n)) []]"

text \<open>What is relied on of \<^verbatim>\<open>statement.limit(n)\<close>: it fills the slot of the query, or selects from the query as a
  subquery and limits that.\<close>

definition limits_query :: "(sql \<Rightarrow> int \<Rightarrow> sql) \<Rightarrow> bool" where
  "limits_query add_limit \<longleftrightarrow>
     (\<forall>h cs n. is_query h \<longrightarrow>
        add_limit (Node h cs) n = Node h (cs @ [limit_node n]) \<or>
        h \<noteq> Sql_Select \<and>
        (\<exists>a. add_limit (Node h cs) n =
          Node Sql_Select [Node Sql_Star [], Node Sql_From [Node (Sql_Subquery a) [Node h cs]], limit_node n]))"

lemma add_limit_cases:
  assumes "limits_query add_limit" and "is_query h"
  obtains "add_limit (Node h cs) n = Node h (cs @ [limit_node n])"
    | a where "add_limit (Node h cs) n =
        Node Sql_Select [Node Sql_Star [], Node Sql_From [Node (Sql_Subquery a) [Node h cs]], limit_node n]"
  using assms unfolding limits_query_def by blast

lemma eval_add_limit:
  assumes "limits_query add_limit" and "is_query h" and "map (eval sem source ctes D) cs = map (eval sem source ctes D') cs"
  shows "eval sem source ctes D (add_limit (Node h cs) n) = eval sem source ctes D' (add_limit (Node h cs) n)"
proof -
  have same: "eval sem source ctes D (Node h (cs @ ts)) = eval sem source ctes D' (Node h (cs @ ts))"
    if "map (eval sem source ctes D) ts = map (eval sem source ctes D') ts" for ts
    using assms(2,3) that by (auto simp: is_query_def simp del: map_eq_conv split: sql_head.split)
  from assms(1,2) show ?thesis
  proof (cases rule: add_limit_cases [where cs = cs and n = n])
    case 1
    then show ?thesis using same [of "[limit_node n]"] by (simp add: limit_node_def)
  next
    case 2
    have "eval sem source ctes D (Node h cs) = eval sem source ctes D' (Node h cs)" using same [of "[]"] by simp
    then show ?thesis unfolding 2 by (simp only: eval.simps sql_head.case list.map limit_node_def)
  qed
qed


lemma guard_sql_query_Inr:
  assumes "guard_sql_query parse add_limit registry auth dbs limit query = Inr q"
  obtains h cs where "parse query = Some [Node h cs]" "is_query h"
    "guard_statement add_limit registry auth dbs limit (Node h cs) = Inr q"
  using assms by (auto simp: guard_sql_query_def split: option.split_asm list.split_asm sql.split_asm if_split_asm)

text \<open>What the predicates of an accepted query leave of each table is the same in two databases of the same view.\<close>

lemma same_view_plain:
  assumes tps: "list_all2 (\<lambda>t tp. fst tp = t \<and> authorize_table registry dbs t = Inr (snd tp)) (table_nodes (walk_statement statement)) tps"
    and ok: "scope_predicates auth tps = Inr sps" and view: "same_view registry auth D D'"
    and mem: "(p, anc, Node (Sql_Table db name al) cs) \<in> set (nodes [] [] statement)"
    and none: "predicate_at sps p = None"
    and ref: "\<not> (db = '''' \<and> str_lower name \<in> set (cte_names (walk_statement statement)))"
  shows "D db name = D' db name"
proof -
  from accepted_table [OF tps ok mem] ref obtain t policy i where
      "tn_name t = name" "authorize_table registry dbs t = Inr policy"
      and scoped: "needs_scope auth policy \<Longrightarrow> \<exists>sp\<in>set sps. table_predicate auth (i, t, policy) = Inr sp \<and> sp_path sp = p"
    unfolding cte_reference_def by metis
  then have "policy_for registry (str_lower name) = Inr policy"
    by (auto simp: authorize_table_def Let_def split: if_split_asm)
  moreover have "\<not> needs_scope auth policy" using scoped none by (auto simp: predicate_at_def find_None_iff)
  ultimately show ?thesis using view unfolding same_view_def by metis
qed

lemma same_view_scoped:
  assumes tps: "list_all2 (\<lambda>t tp. fst tp = t \<and> authorize_table registry dbs t = Inr (snd tp)) (table_nodes (walk_statement statement)) tps"
    and ok: "scope_predicates auth tps = Inr sps" and view: "same_view registry auth D D'"
    and params: "\<And>sp n. sp \<in> set sps \<Longrightarrow> n \<in> set (dkeys (sp_parameters sp)) \<Longrightarrow>
      dget parameters n = dget (fold (\<lambda>sp. fold (\<lambda>(k, v). dset k v) (sp_parameters sp)) sps []) n"
    and mem: "(p, anc, Node (Sql_Table db name al) cs) \<in> set (nodes [] [] statement)"
    and some: "predicate_at sps p = Some sp"
  shows "\<not> (db = '''' \<and> str_lower name \<in> set (cte_names (walk_statement statement)))"
    and "filter (\<lambda>r. \<exists>n\<in>set (dkeys (sp_parameters sp)). dget parameters n = Some (r (sp_column sp))) (D db name) =
      filter (\<lambda>r. \<exists>n\<in>set (dkeys (sp_parameters sp)). dget parameters n = Some (r (sp_column sp))) (D' db name)"
proof -
  from predicate_at_Some [OF tps ok mem some] obtain i t policy where
      i: "i < length tps" "tps ! i = (t, policy)" and t: "tn_name t = name" and needs: "needs_scope auth policy"
      and auth: "authorize_table registry dbs t = Inr policy" and at: "table_predicate auth (i, t, policy) = Inr sp" and sp: "sp \<in> set sps"
      and ref: "\<not> cte_reference (walk_statement statement) db name" by metis
  show "\<not> (db = '''' \<and> str_lower name \<in> set (cte_names (walk_statement statement)))" using ref by (simp add: cte_reference_def)
  from at obtain d ids where d: "tp_scope_dimension policy = Some d" "tp_scope_column policy = Some (sp_column sp)" "scope_values auth d = Inr ids"
    by (auto elim: table_predicate_Inr)
  from auth t have "policy_for registry (str_lower name) = Inr policy"
    by (auto simp: authorize_table_def Let_def split: if_split_asm)
  with view needs d have rows: "filter (\<lambda>r. r (sp_column sp) \<in> set ids) (D db name) = filter (\<lambda>r. r (sp_column sp) \<in> set ids) (D' db name)"
    unfolding same_view_def by metis
  let ?S = "{v. \<exists>n\<in>set (dkeys (sp_parameters sp)). dget parameters n = Some v}"
  have "?S \<subseteq> set ids" using scope_parameter_value [OF ok sp at d(1,3) _ _ i] params [OF sp] by auto
  from filter_subset [OF this, of "\<lambda>r. r (sp_column sp)" "D db name"] filter_subset [OF this, of "\<lambda>r. r (sp_column sp)" "D' db name"] rows
  show "filter (\<lambda>r. \<exists>n\<in>set (dkeys (sp_parameters sp)). dget parameters n = Some (r (sp_column sp))) (D db name) =
      filter (\<lambda>r. \<exists>n\<in>set (dkeys (sp_parameters sp)). dget parameters n = Some (r (sp_column sp))) (D' db name)"
    by (simp only: mem_Collect_eq)
qed

text \<open>Confinement under any parameters that give the scope parameters the values of the query.\<close>

lemma guarded_confined:
  assumes "parse query = Some [statement]"
    and "guard_sql_query parse add_limit registry auth dbs limit query = Inr q"
    and "limits_query add_limit" and "bare_tables statement"
    and "selects_in sem source parameters"
    and "\<And>n v. dget (sq_parameters q) n = Some v \<Longrightarrow> dget parameters n = Some v"
    and "same_view registry auth D D'"
  shows "eval sem source (cte_names (walk_statement statement)) D (sq_statement q) =
    eval sem source (cte_names (walk_statement statement)) D' (sq_statement q)"
proof -
  from guard_sql_query_Inr [OF assms(2)] assms(1) obtain h cs where st: "statement = Node h cs" and query: "is_query h"
    and ok: "guard_statement add_limit registry auth dbs limit statement = Inr q" by auto
  let ?ev = "eval sem source (cte_names (walk_statement statement))"
  obtain tps sps where
      tps: "list_all2 (\<lambda>t tp. fst tp = t \<and> authorize_table registry dbs t = Inr (snd tp)) (table_nodes (walk_statement statement)) tps"
      and sps: "scope_predicates auth tps = Inr sps"
      and final: "sq_statement q = (let capped = cap_limits (bound_limit limit) (scope_statement sps statement)
        in if has_limit capped then capped else add_limit capped (bound_limit limit))"
      and params: "sq_parameters q = fold (\<lambda>sp. fold (\<lambda>(k, v). dset k v) (sp_parameters sp)) sps []"
    using ok by (rule guard_statement_Inr) (rule that; assumption)
  have keep: "dget parameters n = dget (fold (\<lambda>sp. fold (\<lambda>(k, v). dset k v) (sp_parameters sp)) sps []) n"
    if "sp \<in> set sps" "n \<in> set (dkeys (sp_parameters sp))" for sp n
    using fold_dset_keys [of n "concat (map sp_parameters sps)" "[]"] that assms(6) [unfolded params fold_fold_dset]
    unfolding fold_fold_dset by fastforce
  have bare: "ts = []" if "(p, anc, Node (Sql_Table db name al) ts) \<in> set (nodes [] [] statement)" for p anc db name al ts
    using assms(4) that unfolding bare_tables_def by fastforce
  let ?ts = "rewrite_list (predicate_at sps) [] 0 cs"
  have "\<forall>c\<in>set ?ts. ?ev D (cap_limits (bound_limit limit) c) = ?ev D' (cap_limits (bound_limit limit) c)"
  proof (rule eval_rewrite(2) [OF assms(5)])
    show "set (nodes_list [] [h] 0 cs) \<subseteq> set (nodes [] [] statement)" by (auto simp: st)
  qed (use same_view_plain [OF tps sps assms(7)] same_view_scoped [OF tps sps assms(7) keep] bare in \<open>auto simp: Let_def\<close>)
  then have parts: "map (?ev D) (cap (bound_limit limit) h (map (cap_limits (bound_limit limit)) ?ts)) =
      map (?ev D') (cap (bound_limit limit) h (map (cap_limits (bound_limit limit)) ?ts))"
    by (intro eval_cap) auto
  have "rewrite (predicate_at sps) [] statement = Node h ?ts" using query by (auto simp: st is_query_def split: sql_head.split)
  then have capped: "cap_limits (bound_limit limit) (scope_statement sps statement) = Node h (cap (bound_limit limit) h (map (cap_limits (bound_limit limit)) ?ts))"
    by (simp add: scope_statement_def)
  have "?ev D (Node h ts) = ?ev D' (Node h ts)" if "map (?ev D) ts = map (?ev D') ts" for ts
    using query that by (auto simp: is_query_def simp del: map_eq_conv split: sql_head.split)
  with parts show ?thesis unfolding final capped Let_def by (auto intro: eval_add_limit [OF assms(3) query])
qed

section \<open>Limits\<close>

fun all_nodes :: "(sql_head \<Rightarrow> sql list \<Rightarrow> bool) \<Rightarrow> sql \<Rightarrow> bool" where
  "all_nodes P (Node h cs) \<longleftrightarrow> P h cs \<and> (\<forall>c\<in>set cs. all_nodes P c)"

lemma all_nodes_nodes:
  "all_nodes P t \<longleftrightarrow> (\<forall>(q, a, n)\<in>set (nodes p anc t). case n of Node h cs \<Rightarrow> P h cs)"
  "(\<forall>c\<in>set ts. all_nodes P c) \<longleftrightarrow> (\<forall>(q, a, n)\<in>set (nodes_list p anc i ts). case n of Node h cs \<Rightarrow> P h cs)"
  by (induction p anc t and p anc i ts rule: nodes_nodes_list.induct) (simp_all add: ball_Un)

text \<open>Every \<^verbatim>\<open>LIMIT\<close> is a fixed integer within the bound, if there is one, and every \<^verbatim>\<open>OFFSET\<close> one within its own.\<close>

definition bounded_node :: "int option \<Rightarrow> sql_head \<Rightarrow> sql list \<Rightarrow> bool" where
  "bounded_node bound h cs \<longleftrightarrow>
     (h = Sql_Limit \<longrightarrow> (case fixed_integer cs of None \<Rightarrow> False | Some n \<Rightarrow> case bound of None \<Rightarrow> True | Some b \<Rightarrow> n \<le> b)) \<and>
     (h = Sql_Offset \<longrightarrow> (case fixed_integer cs of None \<Rightarrow> False | Some n \<Rightarrow> n \<le> max_query_offset))"

lemma fixed_integer_cap_limits: "fixed_integer (map (cap_limits bound) cs) = fixed_integer cs"
  by (cases cs rule: list.exhaust [case_product sql.exhaust [of "hd cs"]]) (auto simp: fixed_integer_def)

lemma fixed_integer_literal: "fixed_integer (Node (Sql_Literal (Some n)) ts # cs) = Some n"
  by (simp add: fixed_integer_def)

lemma cap_limits_bounded: "all_nodes (bounded_node None) t \<Longrightarrow> all_nodes (bounded_node (Some bound)) (cap_limits bound t)"
proof (induction bound t rule: cap_limits.induct)
  case (1 bound h cs)
  let ?ts = "map (cap_limits bound) cs"
  from 1 have below: "\<forall>c\<in>set ?ts. all_nodes (bounded_node (Some bound)) c" and root: "bounded_node None h cs" by auto
  have "all_nodes (bounded_node (Some bound)) (Node (Sql_Literal (Some bound)) [])" by (simp add: bounded_node_def)
  with below have "\<forall>c\<in>set (cap bound h ?ts). all_nodes (bounded_node (Some bound)) c"
    by (cases cs) (auto simp: cap_def split: option.split)
  moreover have "bounded_node (Some bound) h (cap bound h ?ts)"
    using root by (auto simp: bounded_node_def cap_def fixed_integer_cap_limits fixed_integer_literal split: option.split_asm)
  ultimately show ?case by simp
qed

lemma checked_bounded:
  assumes "\<And>v. v \<in> set (nodes [] [] t) \<Longrightarrow> check_limit v = Inr () \<and> check_offset v = Inr ()"
  shows "all_nodes (bounded_node None) t"
proof -
  have "bounded_node None h cs" if "(p, anc, Node h cs) \<in> set (nodes [] [] t)" for p anc h cs
    using assms [OF that] by (auto simp: check_limit_def check_offset_def bounded_node_def split: sql_head.split_asm option.split_asm if_split_asm)
  then show ?thesis by (subst all_nodes_nodes(1) [of _ _ "[]" "[]"]) (auto split: sql.split)
qed

lemma add_limit_bounded:
  assumes "limits_query add_limit" and "is_query h" and "all_nodes (bounded_node (Some bound)) (Node h cs)"
  shows "all_nodes (bounded_node (Some bound)) (add_limit (Node h cs) bound)"
proof -
  have limit: "all_nodes (bounded_node (Some bound)) (limit_node bound)" by (simp add: limit_node_def bounded_node_def fixed_integer_def)
  have root: "bounded_node (Some bound) h (cs @ [limit_node bound])" using assms(2) by (auto simp: bounded_node_def is_query_def)
  from assms(1,2) show ?thesis
  proof (cases rule: add_limit_cases [where cs = cs and n = bound])
    case 1
    with root limit assms(3) show ?thesis by auto
  next
    case 2
    with limit assms(3) show ?thesis by (auto simp: bounded_node_def)
  qed
qed

text \<open>A rewritten node keeps its head, or was a table.\<close>

lemma rewrite_head:
  "rewrite predicate p (Node h cs) = Node h' cs' \<Longrightarrow> h' = h \<or> (\<exists>a. h' = Sql_Subquery a)"
  by (auto simp: scoped_source_def split: sql_head.split_asm option.split_asm)

lemma rewrite_list_mem: "c \<in> set (rewrite_list predicate p i cs) \<Longrightarrow> \<exists>j. \<exists>d\<in>set cs. c = rewrite predicate (p @ [j]) d"
  by (induction cs arbitrary: i) (auto, blast+)

lemma cap_limits_head: "cap_limits bound t = Node h cs \<longleftrightarrow> (\<exists>ts. t = Node h ts \<and> cs = cap bound h (map (cap_limits bound) ts))"
  by (cases t) auto

text \<open>If the statement has no \<^verbatim>\<open>FETCH\<close> clause, neither has the rewritten one: then it has a limit because it has a
  \<^verbatim>\<open>LIMIT\<close>.\<close>

lemma has_limit_capped:
  assumes "\<forall>c\<in>set cs. case c of Node h _ \<Rightarrow> node_class h \<noteq> ''Fetch''" and "h \<noteq> Sql_Limit"
    and "has_limit (Node h (cap bound h (map (cap_limits bound) (rewrite_list predicate p i cs))))"
  shows "\<exists>c\<in>set (cap bound h (map (cap_limits bound) (rewrite_list predicate p i cs))). case c of Node h _ \<Rightarrow> h = Sql_Limit"
proof -
  have same: "cap bound h ts = ts" for ts using assms(2) by (simp add: cap_def split: option.split)
  from assms(3) obtain c where mem: "c \<in> set (map (cap_limits bound) (rewrite_list predicate p i cs))"
      and limit: "case c of Node h _ \<Rightarrow> h = Sql_Limit \<or> node_class h = ''Fetch''"
    unfolding same has_limit_def sql.case list_ex_iff by blast
  obtain h' ts where "c = Node h' ts" by (cases c)
  with mem limit have c: "Node h' ts \<in> set (map (cap_limits bound) (rewrite_list predicate p i cs))"
      and h': "h' = Sql_Limit \<or> node_class h' = ''Fetch''" by auto
  then obtain ts' where "Node h' ts' \<in> set (rewrite_list predicate p i cs)" by (force simp: cap_limits_head eq_commute [of "Node _ _" "cap_limits _ _"])
  from rewrite_list_mem [OF this] obtain j g ds where "Node g ds \<in> set cs" "rewrite predicate (p @ [j]) (Node g ds) = Node h' ts'"
    by (metis sql.exhaust)
  with rewrite_head assms(1) have "node_class h' \<noteq> ''Fetch''" by (fastforce split: sql.split_asm)
  with h' c show ?thesis unfolding same by (auto simp del: set_map intro: bexI [of _ "Node h' ts"])
qed

section \<open>Fields\<close>

lemma dget_add_alias:
  "dget (add_alias (t, policy) aliases) k =
     (if k = str_lower (alias_or_name t) then Some policy
      else case dget aliases k of Some p \<Rightarrow> Some p | None \<Rightarrow> if k = str_lower (tn_name t) then Some policy else None)"
  by (simp add: add_alias_def Let_def split: option.split)

lemma alias_table_get:
  assumes "distinct (map (\<lambda>(t, _). str_lower (alias_or_name t)) tps)" and "(t, policy) \<in> set tps"
  shows "dget (fold add_alias tps aliases) (str_lower (alias_or_name t)) = Some policy"
  using assms
proof (induction tps arbitrary: aliases)
  case (Cons tp tps)
  obtain t' policy' where tp: "tp = (t', policy')" by (cases tp)
  have keep: "dget (fold add_alias tps d) k = Some p" if "dget d k = Some p" "k \<notin> (\<lambda>(t, _). str_lower (alias_or_name t)) ` set tps" for d k p
    using that by (induction tps arbitrary: d) (auto simp: dget_add_alias)
  show ?case
  proof (cases "(t, policy) = tp")
    case True
    with Cons.prems(1) show ?thesis by (auto intro!: keep simp: dget_add_alias)
  next
    case False
    with Cons.prems Cons.IH show ?thesis by simp
  qed
qed simp

lemma alias_table_keys:
  "dget (fold add_alias tps aliases) k = Some p \<Longrightarrow>
     dget aliases k = Some p \<or> (\<exists>(t, policy)\<in>set tps. policy = p \<and> (k = str_lower (alias_or_name t) \<or> k = str_lower (tn_name t)))"
proof (induction tps arbitrary: aliases)
  case (Cons tp tps)
  obtain t policy where "tp = (t, policy)" by (cases tp)
  with Cons.IH [of "add_alias tp aliases"] Cons.prems show ?case
    by (fastforce simp: dget_add_alias split: if_split_asm option.split_asm)
qed simp

lemma dvals_dget: "dget d k = Some v \<Longrightarrow> v \<in> set (dvals d)"
  by (induction d) (auto split: if_split_asm)

text \<open>What a column passes for each policy it is checked against.\<close>

definition permits :: "table_scope_policy \<Rightarrow> sql_head list \<Rightarrow> string \<Rightarrow> bool" where
  "permits policy ancestors name \<longleftrightarrow>
     name \<notin> set (tp_hidden_fields policy) \<and> name \<notin> set (tp_masked_fields policy) \<and>
     (name \<in> set (tp_aggregate_only_fields policy) \<longrightarrow> inside_aggregate ancestors) \<and>
     (case tp_allowed_fields policy of None \<Rightarrow> True | Some fs \<Rightarrow> name \<in> set fs)"

lemma check_column_permits:
  assumes "check_column aliases (p, anc, Node (Sql_Column qualifier pr column) cs) = Inr ()"
    and "policy \<in> set (candidates aliases (str_lower qualifier))"
  shows "permits policy anc (str_lower column)"
proof (cases "tp_allowed_fields policy")
  case None
  then show ?thesis using assms by (auto simp: check_column_def Let_def permits_def list_ex_iff split: if_split_asm)
next
  case (Some fs)
  then show ?thesis using assms by (fastforce simp: check_column_def Let_def permits_def list_ex_iff split: if_split_asm)
qed

end
