(* ===== verification/Sql_Scope_Properties.thy ===== *)
theory Sql_Scope_Properties
  imports Sql_Scope_Laws
begin

text \<open>
  The properties of the SQL scope guard, each with a query on which it applies, and queries the guard accepts although
  they escape its intent.
\<close>

section \<open>A query on a small engine\<close>

definition demo_policy :: "string \<Rightarrow> string option \<Rightarrow> table_scope_policy" where
  "demo_policy access column =
     \<lparr>tp_access = access, tp_scope_dimension = map_option (\<lambda>_. ''site'') column, tp_scope_column = column, tp_allowed_fields = None,
      tp_hidden_fields = [''secret''], tp_masked_fields = [''serial''], tp_aggregate_only_fields = [''cost'']\<rparr>"

definition demo_sql_registry :: sql_scope_policy_registry where
  "demo_sql_registry =
     \<lparr>sr_version = ''v1'',
      sr_tables = [(''devices'', demo_policy ''scoped'' (Some ''site_id'')),
        (''regions'', \<lparr>tp_access = ''reference'', tp_scope_dimension = None, tp_scope_column = None, tp_allowed_fields = None,
           tp_hidden_fields = [], tp_masked_fields = [], tp_aggregate_only_fields = []\<rparr>),
        (''salaries'', demo_policy ''forbidden'' None)]\<rparr>"

definition demo_caller :: authorization_context where
  "demo_caller = \<lparr>ac_principal_id = ''u1'', ac_tenant_id = ''t1'', ac_tenant_code = ''t'', ac_system_code = ''s'', ac_role_codes = [],
     ac_scope_mode = ''resource_set'', ac_allowed_site_ids = [''north''], ac_allowed_project_ids = [], ac_scope_ref = None,
     ac_permission_version = ''1'', ac_scope_hash = ''h''\<rparr>"

text \<open>\<^verbatim>\<open>SELECT d.power, SUM(d.cost) FROM devices AS d JOIN regions LIMIT 5000\<close>\<close>

definition demo_statement :: sql where
  "demo_statement =
     Node Sql_Select
       [Node (Sql_Column ''d'' ''d'' ''power'') [],
        Node (Sql_Other ''Sum'' False (Some ''SUM'') True) [Node (Sql_Column ''d'' ''d'' ''cost'') []],
        Node Sql_From [Node (Sql_Table '''' ''devices'' ''d'') []],
        Node (Sql_Other ''Join'' False None False) [Node (Sql_Table '''' ''regions'' '''') []],
        Node Sql_Limit [Node (Sql_Literal (Some 5000)) []]]"

definition fill_slot :: "sql \<Rightarrow> int \<Rightarrow> sql" where
  "fill_slot t n = (case t of Node h cs \<Rightarrow> Node h (cs @ [limit_node n]))"

lemma fill_slot_limits: "limits_query fill_slot"
  by (simp add: limits_query_def fill_slot_def)

definition demo_guard :: "int \<Rightarrow> sql \<Rightarrow> sql_scope_error + scoped_query" where
  "demo_guard limit statement =
     guard_sql_query (\<lambda>_. Some [statement]) fill_slot demo_sql_registry demo_caller [] limit ''q''"

datatype demo_value = Rows "row list" | Col string | Param string | Pred "row \<Rightarrow> bool" | Tuple "demo_value list"

definition demo_sem :: "(string, string) dict \<Rightarrow> sql_head \<Rightarrow> demo_value list \<Rightarrow> demo_value" where
  "demo_sem parameters h vs =
     (case (h, vs) of
        (Sql_Column _ _ c, _) \<Rightarrow> Col c
      | (Sql_Placeholder n, _) \<Rightarrow> Param n
      | (Sql_In, Col c # ps) \<Rightarrow> Pred (\<lambda>r. \<exists>n. Param n \<in> set ps \<and> dget parameters n = Some (r c))
      | (Sql_Where, [v]) \<Rightarrow> v
      | (Sql_From, [v]) \<Rightarrow> v
      | (Sql_Subquery _, [v]) \<Rightarrow> v
      | (Sql_Select, [_, Rows rs, Pred f]) \<Rightarrow> Rows (filter f rs)
      | _ \<Rightarrow> Tuple vs)"

definition demo_source :: "string \<Rightarrow> row list \<Rightarrow> demo_value list \<Rightarrow> demo_value" where
  "demo_source a rows vs = Rows rows"

lemma demo_engine: "selects_in (demo_sem parameters) demo_source parameters"
proof -
  have "(\<exists>n. Param n \<in> (\<lambda>n. Param n) ` set names \<and> dget parameters n = Some x) \<longleftrightarrow> (\<exists>n\<in>set names. dget parameters n = Some x)" for names x
    by auto
  then show ?thesis by (simp add: selects_in_def demo_sem_def demo_source_def)
qed

text \<open>Two databases that differ in a device outside the caller's site and in a table the caller may not read.\<close>

definition demo_database :: "string \<Rightarrow> database" where
  "demo_database v = (\<lambda>db name.
     if name = ''devices'' then [(\<lambda>_. ''north''), (\<lambda>c. if c = ''site_id'' then ''south'' else v)]
     else if name = ''salaries'' then [(\<lambda>_. v)] else [])"

section \<open>Confinement\<close>


lemma demo_same_view: "same_view demo_sql_registry demo_caller (demo_database ''1'') (demo_database ''2'')"
proof -
  have devices: "policy_for demo_sql_registry (str_lower ''devices'') = Inr (demo_policy ''scoped'' (Some ''site_id''))" by code_simp
  have salaries: "isl (policy_for demo_sql_registry (str_lower ''salaries''))" by code_simp
  have needs: "needs_scope demo_caller (demo_policy ''scoped'' (Some ''site_id''))" by code_simp
  have ids: "scope_values demo_caller ''site'' = Inr [''north'']" by code_simp
  have rest: "demo_database v db name = []" if "name \<noteq> ''devices''" "name \<noteq> ''salaries''" for v db name
    using that by (simp add: demo_database_def)
  show ?thesis unfolding same_view_def
  proof (intro allI impI)
    fix db name policy
    assume policy: "policy_for demo_sql_registry (str_lower name) = Inr policy"
    show "if needs_scope demo_caller policy
      then \<forall>d c ids. tp_scope_dimension policy = Some d \<longrightarrow> tp_scope_column policy = Some c \<longrightarrow> scope_values demo_caller d = Inr ids \<longrightarrow>
        filter (\<lambda>r. r c \<in> set ids) (demo_database ''1'' db name) = filter (\<lambda>r. r c \<in> set ids) (demo_database ''2'' db name)
      else demo_database ''1'' db name = demo_database ''2'' db name"
    proof (cases "name = ''devices''")
      case True
      with policy devices have "policy = demo_policy ''scoped'' (Some ''site_id'')" by simp
      with needs ids True show ?thesis by (simp add: demo_policy_def demo_database_def)
    next
      case False
      moreover have "name \<noteq> ''salaries''" using policy salaries by auto
      ultimately show ?thesis by (simp add: rest)
    qed
  qed
qed

lemma demo_accepted: obtains q where "demo_guard 100 demo_statement = Inr q"
proof -
  have "\<not> isl (demo_guard 100 demo_statement)" by code_simp
  then show thesis using that by (cases "demo_guard 100 demo_statement") auto
qed


section \<open>Tables, constructs and fields\<close>

text \<open>An accepted query uses only what it is authorized to: no construct or function that is forbidden, and no table
  that is not a CTE of the query unless its database is allowed, and not a system database, and a policy admits it.\<close>

theorem guarded_query_authorized:
  assumes "parse query = Some [statement]"
    and "guard_sql_query parse add_limit registry auth dbs limit query = Inr q"
    and "(p, anc, Node h cs) \<in> set (walk_statement statement)"
  shows "node_class h \<notin> set forbidden_select_nodes \<and>
    (case function_name h of None \<Rightarrow> True | Some f \<Rightarrow> str_lower f \<notin> set forbidden_functions) \<and>
    (case h of
       Sql_Table db name _ \<Rightarrow> db = '''' \<and> str_lower name \<in> set (cte_names (walk_statement statement)) \<or>
         (str_lower db = '''' \<or> str_lower db \<notin> set system_databases \<and> str_lower db \<in> set (map str_lower dbs)) \<and>
         (\<exists>policy. policy_for registry (str_lower name) = Inr policy)
     | _ \<Rightarrow> True)"
proof (intro conjI)
  from guard_sql_query_Inr [OF assms(2)] assms(1)
  have ok: "guard_statement add_limit registry auth dbs limit statement = Inr q" by auto
  obtain tps sps where
      nodes: "\<And>v. v \<in> set (nodes [] [] statement) \<Longrightarrow> check_node v = Inr ()"
      and tps: "list_all2 (\<lambda>t tp. fst tp = t \<and> authorize_table registry dbs t = Inr (snd tp)) (table_nodes (walk_statement statement)) tps"
      and sps: "scope_predicates auth tps = Inr sps"
    using ok by (rule guard_statement_Inr) (rule that; assumption)
  from nodes [of "(p, anc, Node h cs)"] assms(3) have node: "check_node (p, anc, Node h cs) = Inr ()" by (simp add: set_walk_statement)
  show "node_class h \<notin> set forbidden_select_nodes" using node by (auto simp: check_node_def)
  show "case function_name h of None \<Rightarrow> True | Some f \<Rightarrow> str_lower f \<notin> set forbidden_functions"
    using node by (auto simp: check_node_def split: option.split_asm if_split_asm)
  have "(str_lower db = '''' \<or> str_lower db \<notin> set system_databases \<and> str_lower db \<in> set (map str_lower dbs)) \<and>
      (\<exists>policy. policy_for registry (str_lower name) = Inr policy)"
    if h: "h = Sql_Table db name al" and ref: "\<not> cte_reference (walk_statement statement) db name" for db name al
  proof -
    from assms(3) h have "(p, anc, Node (Sql_Table db name al) cs) \<in> set (nodes [] [] statement)" by (simp add: set_walk_statement)
    from accepted_table [OF tps sps this ref] obtain t policy where "tn_db t = db" "tn_name t = name" "authorize_table registry dbs t = Inr policy"
      by metis
    then show ?thesis by (auto simp: authorize_table_def Let_def split: if_split_asm)
  qed
  then show "case h of
        Sql_Table db name _ \<Rightarrow> db = '''' \<and> str_lower name \<in> set (cte_names (walk_statement statement)) \<or>
          (str_lower db = '''' \<or> str_lower db \<notin> set system_databases \<and> str_lower db \<in> set (map str_lower dbs)) \<and>
          (\<exists>policy. policy_for registry (str_lower name) = Inr policy)
      | _ \<Rightarrow> True"
    unfolding cte_reference_def by (cases h) auto
qed

theorem guarded_query_authorized_witness:
  "isl (demo_guard 100 (Node Sql_Select [Node Sql_From [Node (Sql_Table '''' ''salaries'' '''') []]])) \<and>
   (\<exists>policy. policy_for demo_sql_registry (str_lower ''devices'') = Inr policy)"
proof
  show "isl (demo_guard 100 (Node Sql_Select [Node Sql_From [Node (Sql_Table '''' ''salaries'' '''') []]]))" by code_simp
  obtain q where q: "demo_guard 100 demo_statement = Inr q" by (rule demo_accepted)
  have mem: "([2, 0], [Sql_From, Sql_Select], Node (Sql_Table '''' ''devices'' ''d'') []) \<in> set (walk_statement demo_statement)" by code_simp
  have "cte_names (walk_statement demo_statement) = []" by code_simp
  with guarded_query_authorized [OF _ q [unfolded demo_guard_def] mem]
  show "\<exists>policy. policy_for demo_sql_registry (str_lower ''devices'') = Inr policy" by simp
qed



section \<open>Bounds\<close>

text \<open>C38. What an accepted query may return is bounded: each of its limits is a fixed integer within the limit asked for
  and 1000, each of its offsets a fixed integer within 10000; and unless the statement has a \<^verbatim>\<open>FETCH\<close> clause, the
  query itself has a limit.\<close>

theorem guarded_rows_bounded:
  assumes "parse query = Some [Node h cs]"
    and "guard_sql_query parse add_limit registry auth dbs limit query = Inr q"
    and "limits_query add_limit"
  shows "1 \<le> bound_limit limit \<and> bound_limit limit \<le> 1000 \<and> (1 \<le> limit \<longrightarrow> bound_limit limit \<le> limit) \<and>
    (\<forall>p anc ts. (p, anc, Node Sql_Limit ts) \<in> set (walk_statement (sq_statement q)) \<longrightarrow>
       (\<exists>n. fixed_integer ts = Some n \<and> n \<le> bound_limit limit)) \<and>
    (\<forall>p anc ts. (p, anc, Node Sql_Offset ts) \<in> set (walk_statement (sq_statement q)) \<longrightarrow>
       (\<exists>n. fixed_integer ts = Some n \<and> n \<le> 10000)) \<and>
    ((\<forall>c\<in>set cs. case c of Node g _ \<Rightarrow> node_class g \<noteq> ''Fetch'') \<longrightarrow>
       (case sq_statement q of Node _ ts \<Rightarrow> \<exists>c\<in>set ts. case c of Node g _ \<Rightarrow> g = Sql_Limit))"
proof (intro conjI allI impI)
  from guard_sql_query_Inr [OF assms(2)] assms(1) have isq: "is_query h"
    and ok: "guard_statement add_limit registry auth dbs limit (Node h cs) = Inr q" by auto
  let ?b = "bound_limit limit"
  obtain sps where
      bounds: "\<And>v. v \<in> set (nodes [] [] (scope_statement sps (Node h cs))) \<Longrightarrow> check_limit v = Inr () \<and> check_offset v = Inr ()"
      and final: "sq_statement q = (let capped = cap_limits ?b (scope_statement sps (Node h cs))
        in if has_limit capped then capped else add_limit capped ?b)"
    using ok by (rule guard_statement_Inr) (rule that; assumption)
  let ?ts = "cap ?b h (map (cap_limits ?b) (rewrite_list (predicate_at sps) [] 0 cs))"
  have "rewrite (predicate_at sps) [] (Node h cs) = Node h (rewrite_list (predicate_at sps) [] 0 cs)"
    using isq by (auto simp: is_query_def split: sql_head.split)
  then have capped: "cap_limits ?b (scope_statement sps (Node h cs)) = Node h ?ts" by (simp add: scope_statement_def)
  with cap_limits_bounded [OF checked_bounded [OF bounds]] have "all_nodes (bounded_node (Some ?b)) (Node h ?ts)" by metis
  with add_limit_bounded [OF assms(3) isq] have all: "all_nodes (bounded_node (Some ?b)) (sq_statement q)"
    unfolding final capped Let_def by (metis (full_types))
  have bounded: "bounded_node (Some ?b) g ts" if "(p, anc, Node g ts) \<in> set (walk_statement (sq_statement q))" for g p anc ts
    using all [unfolded all_nodes_nodes(1) [of _ _ "[]" "[]"]] that by (fastforce simp: set_walk_statement)
  show "\<exists>n. fixed_integer ts = Some n \<and> n \<le> ?b" if "(p, anc, Node Sql_Limit ts) \<in> set (walk_statement (sq_statement q))" for p anc ts
    using bounded [OF that] by (auto simp: bounded_node_def split: option.split_asm)
  show "\<exists>n. fixed_integer ts = Some n \<and> n \<le> 10000" if "(p, anc, Node Sql_Offset ts) \<in> set (walk_statement (sq_statement q))" for p anc ts
    using bounded [OF that] by (auto simp: bounded_node_def max_query_offset_def split: option.split_asm)
  show "case sq_statement q of Node _ ts \<Rightarrow> \<exists>c\<in>set ts. case c of Node g _ \<Rightarrow> g = Sql_Limit"
    if nofetch: "\<forall>c\<in>set cs. case c of Node g _ \<Rightarrow> node_class g \<noteq> ''Fetch''"
  proof (cases "has_limit (Node h ?ts)")
    case True
    have "h \<noteq> Sql_Limit" using isq by (auto simp: is_query_def)
    from has_limit_capped [OF nofetch this True] True show ?thesis unfolding final capped Let_def by simp
  next
    case False
    have "case add_limit (Node h ?ts) ?b of Node _ ts \<Rightarrow> \<exists>c\<in>set ts. case c of Node g _ \<Rightarrow> g = Sql_Limit"
      using assms(3) isq by (rule add_limit_cases [of add_limit h ?ts ?b]) (simp_all add: limit_node_def)
    with False show ?thesis unfolding final capped Let_def by simp
  qed
qed (auto simp: bound_limit_def max_query_limit_def)

theorem guarded_rows_bounded_witness:
  "\<exists>q. demo_guard 100 demo_statement = Inr q \<and> bound_limit 100 = 100 \<and>
     (case sq_statement q of Node _ ts \<Rightarrow> \<exists>c\<in>set ts. case c of Node g _ \<Rightarrow> g = Sql_Limit) \<and>
     (\<exists>n. fixed_integer [Node (Sql_Literal (Some 100)) []] = Some n \<and> n \<le> bound_limit 100)"
proof -
  obtain q where q: "demo_guard 100 demo_statement = Inr q" by (rule demo_accepted)
  obtain h cs where d: "demo_statement = Node h cs" by (cases demo_statement)
  then have nofetch: "\<forall>c\<in>set cs. case c of Node g _ \<Rightarrow> node_class g \<noteq> ''Fetch''" by (auto simp: demo_statement_def)
  have "case demo_guard 100 demo_statement of Inl _ \<Rightarrow> False | Inr q \<Rightarrow>
      ([4], [Sql_Select], Node Sql_Limit [Node (Sql_Literal (Some 100)) []]) \<in> set (walk_statement (sq_statement q))" by code_simp
  with q have "([4], [Sql_Select], Node Sql_Limit [Node (Sql_Literal (Some 100)) []]) \<in> set (walk_statement (sq_statement q))" by simp
  with guarded_rows_bounded [OF _ q [unfolded demo_guard_def] fill_slot_limits, unfolded d, OF refl] nofetch
  have "(case sq_statement q of Node _ ts \<Rightarrow> \<exists>c\<in>set ts. case c of Node g _ \<Rightarrow> g = Sql_Limit) \<and>
     (\<exists>n. fixed_integer [Node (Sql_Literal (Some 100)) []] = Some n \<and> n \<le> bound_limit 100)" by blast
  with q show ?thesis by (simp add: bound_limit_def max_query_limit_def)
qed

section \<open>Queries that escape the intent of the guard\<close>

text \<open>The names of the CTEs are those of the whole statement, so a CTE of an inner query exempts a table of the outer
  query that happens to have the same name: \<^verbatim>\<open>SELECT power FROM devices JOIN audit WHERE id IN (WITH audit AS (SELECT id
  FROM regions) SELECT id FROM audit)\<close> reads the table \<^verbatim>\<open>audit\<close>, which no policy admits.\<close>

definition audit_query :: "sql list \<Rightarrow> sql" where
  "audit_query inner =
     Node Sql_Select
       [Node (Sql_Column '''' '''' ''power'') [], Node Sql_From [Node (Sql_Table '''' ''devices'' '''') []],
        Node (Sql_Other ''Join'' False None False) [Node (Sql_Table '''' ''audit'' '''') []],
        Node Sql_Where [Node Sql_In (Node (Sql_Column '''' '''' ''id'') [] # inner)]]"

theorem inner_cte_exempts_outer_table:
  "isl (demo_guard 100 (audit_query [])) \<and>
   \<not> isl (demo_guard 100 (audit_query
     [Node Sql_Select
       [Node (Sql_Other ''With'' False None False)
          [Node (Sql_CTE ''audit'') [Node Sql_Select [Node (Sql_Column '''' '''' ''id'') [], Node Sql_From [Node (Sql_Table '''' ''regions'' '''') []]]]],
        Node (Sql_Column '''' '''' ''id'') [], Node Sql_From [Node (Sql_Table '''' ''audit'' '''') []]]]))"
  unfolding audit_query_def by code_simp

text \<open>The aliases are those of the whole statement too, and the innermost table wins: with \<^verbatim>\<open>SELECT d.secret FROM devices
  AS d WHERE EXISTS (SELECT id FROM regions AS d)\<close> the hidden field of a device is selected.\<close>

definition secret_query :: "sql list \<Rightarrow> sql" where
  "secret_query inner =
     Node Sql_Select
       [Node (Sql_Column ''d'' ''d'' ''secret'') [], Node Sql_From [Node (Sql_Table '''' ''devices'' ''d'') []],
        Node Sql_Where [Node (Sql_Other ''Exists'' False None False) inner]]"

theorem inner_alias_reveals_hidden_field:
  "isl (demo_guard 100 (secret_query [])) \<and>
   \<not> isl (demo_guard 100 (secret_query
     [Node Sql_Select [Node (Sql_Column '''' '''' ''id'') [], Node Sql_From [Node (Sql_Table '''' ''regions'' ''d'') []]]]))"
  unfolding secret_query_def by code_simp

text \<open>A \<^verbatim>\<open>FETCH FIRST\<close> clause fills the slot of the limit and is not capped.\<close>

theorem fetch_clause_not_capped:
  "case demo_guard 100 (Node Sql_Select
       [Node (Sql_Column '''' '''' ''power'') [], Node Sql_From [Node (Sql_Table '''' ''devices'' '''') []],
        Node (Sql_Other ''Fetch'' False None False) [Node (Sql_Literal (Some 1000000)) []]]) of
     Inl _ \<Rightarrow> False
   | Inr q \<Rightarrow> (case sq_statement q of Node _ cs \<Rightarrow>
       Node (Sql_Other ''Fetch'' False None False) [Node (Sql_Literal (Some 1000000)) []] \<in> set cs \<and>
       list_all (\<lambda>c. case c of Node g _ \<Rightarrow> g \<noteq> Sql_Limit) cs)"
  by code_simp

text \<open>The names of hidden fields are compared as the policy writes them with the columns in lower case, so a name with an upper-case letter hides nothing.\<close>

definition camel_policy :: table_scope_policy where
  "camel_policy = \<lparr>tp_access = ''reference'', tp_scope_dimension = None, tp_scope_column = None, tp_allowed_fields = None,
     tp_hidden_fields = [''apiKey''], tp_masked_fields = [], tp_aggregate_only_fields = []\<rparr>"

theorem upper_case_field_not_hidden:
  "policy_from_mapping ''keys'' [(''access'', PStr ''reference''), (''hidden_fields'', PList [PStr ''apiKey''])] = Inr camel_policy \<and>
   check_column [(''keys'', camel_policy)] ([0], [Sql_Select], Node (Sql_Column '''' '''' ''apiKey'') []) = Inr ()"
  by (rule conjI; code_simp)

end
