(* ===== verification/Api_Properties.thy ===== *)
theory Api_Properties
  imports Semantic_Api Action_Properties Sql_Scope_Properties
begin

text \<open>
  The service as a whole: its calls, interleaved with the transactions of the workers, reach only databases the repository can
  reach; what was approved was approved with a signed token for that proposal; answers leave an audit row and failures leave
  nothing.
\<close>

section \<open>What a call does to the state\<close>

lemma record_audit_db [simp]: "st_db (snd (record_audit call rc auth ev dec details failure payload st)) = st_db st"
  by (simp add: record_audit_def)

text \<open>The transaction of a call, where it has one.\<close>

inductive call_step :: "api_environment \<Rightarrow> api_request \<Rightarrow> authorization_context \<Rightarrow> action_db \<Rightarrow> action_db \<Rightarrow> bool" for ap where
  call_read: "call_step ap request auth db db"
| call_propose: "propose (rt_ontology (ap_runtime ap)) now new_id auth aid tid ps reason key ev rc db = Inr (v, db') \<Longrightarrow> call_step ap (Propose_Action body) auth db db'"
| call_preview: "preview (rt_ontology (ap_runtime ap)) now pid auth snapshot db = Inr (v, db') \<Longrightarrow> call_step ap (Preview_Action pid) auth db db'"
| call_approve: "verify_action_approval (ap_jwt_decode ap) (ap_env ap) token pid (ac_principal_id auth) (ac_scope_hash auth) = Inr by' \<Longrightarrow>
    approve now pid auth by' db = Inr (v, db') \<Longrightarrow> call_step ap (Approve_Action pid token) auth db db'"
| call_execute: "enqueue_execution now new_id pid auth db = Inr (v, db') \<Longrightarrow> call_step ap (Execute_Action pid) auth db db'"

lemma handle_step: "call_step ap request auth (st_db st) (st_db (snd (handle ap call auth rc request st)))"
proof (cases request)
  case (Propose_Action body)
  then show ?thesis
    by (auto simp: handle_def propose_action_def split: sum.split intro: call_read call_propose)
next
  case (Preview_Action pid)
  then show ?thesis
    by (auto simp: handle_def preview_action_def split: sum.split option.split list.split intro: call_read call_preview)
next
  case (Approve_Action pid token)
  then show ?thesis
    by (auto simp: handle_def approve_action_def split: sum.split option.split saas_authorization_error.split intro: call_read call_approve)
next
  case (Execute_Action pid)
  then show ?thesis
    by (auto simp: handle_def execute_action_def split: sum.split intro: call_read call_execute)
qed (auto simp: handle_def get_semantic_trace_evidence_def resolve_ontology_def api_search_objects_def api_get_object_def
    api_query_metric_def explain_metric_def list_actions_def get_action_evidence_def get_action_status_def Let_def
    split: sum.split option.split list.split intro: call_read)

text \<open>What the checks in front of the handlers let through.\<close>

definition admitted :: "api_environment \<Rightarrow> api_call \<Rightarrow> authorization_context \<Rightarrow> request_context \<Rightarrow> bool" where
  "admitted ap call auth rc \<longleftrightarrow>
     require_semantic_authorization (ap_sha256 ap) (ap_jwt_decode ap) (ap_env ap) (ap_scope_resolver ap) (ap_settings ap)
       (cl_service_token call) (cl_authorization_token call) = Inr auth \<and>
     require_semantic_request_context (cl_correlation call) = Inr rc"

lemma serve_cases:
  obtains (health) "request = Health" "serve ap call request st = (Inr (PDict [(''status'', PStr ''ok'')]), st)"
  | (refused) e where "request \<noteq> Health" "serve ap call request st = (Inl e, st)"
  | (handled) auth rc where "request \<noteq> Health" "admitted ap call auth rc" "valid_request request"
      "serve ap call request st = handle ap call auth rc request st"
proof (cases "request = Health")
  case True
  then show thesis using health by (simp add: serve_def)
next
  case False
  show thesis
  proof (cases "require_semantic_authorization (ap_sha256 ap) (ap_jwt_decode ap) (ap_env ap) (ap_scope_resolver ap) (ap_settings ap)
       (cl_service_token call) (cl_authorization_token call)")
    case (Inl e)
    then show thesis using False refused by (simp add: serve_def)
  next
    case auth: (Inr auth)
    show thesis
    proof (cases "require_semantic_request_context (cl_correlation call)")
      case (Inl e)
      then show thesis using False auth refused by (simp add: serve_def)
    next
      case (Inr rc)
      with auth have "admitted ap call auth rc" by (simp add: admitted_def)
      with auth Inr False show thesis using refused handled by (cases "valid_request request") (simp_all add: serve_def)
    qed
  qed
qed

section \<open>The platform\<close>

text \<open>Calls of any callers, and transactions of the workers, in any order.\<close>

inductive worker_step :: "action_db \<Rightarrow> action_db \<Rightarrow> bool" where
  worker_claim: "claim_ready now w lease db = (r, db') \<Longrightarrow> worker_step db db'"
| worker_begin: "begin_compensation now eid w code detail db = Inr db' \<Longrightarrow> worker_step db db'"
| worker_finish_compensation: "finish_compensation now eid w result failed db = Inr db' \<Longrightarrow> worker_step db db'"
| worker_finish: "finish now eid w result code detail db = Inr db' \<Longrightarrow> worker_step db db'"

inductive platform_step :: "api_environment \<Rightarrow> api_state \<Rightarrow> api_state \<Rightarrow> bool" for ap where
  platform_call: "serve ap call request st = (r, st') \<Longrightarrow> platform_step ap st st'"
| platform_worker: "worker_step (st_db st) db \<Longrightarrow> platform_step ap st (st\<lparr>st_db := db\<rparr>)"

definition empty_state :: api_state where
  "empty_state = \<lparr>st_db = empty_db, st_audit = []\<rparr>"

lemma platform_transaction:
  assumes "platform_step ap st st'"
  shows "worker_step (st_db st) (st_db st') \<or> (\<exists>request auth. call_step ap request auth (st_db st) (st_db st'))"
  using assms
proof cases
  case (platform_call call request r)
  have "\<exists>auth. call_step ap request auth (st_db st) (st_db (snd (serve ap call request st)))"
    by (rule serve_cases [of request ap call st]) (auto intro: call_read handle_step)
  with platform_call show ?thesis by auto
qed simp

lemma call_step_repo: "call_step ap request auth db db' \<Longrightarrow> db' = db \<or> repo_step (rt_ontology (ap_runtime ap)) db db'"
  by (erule call_step.cases) (auto intro: repo_step.intros)

lemma worker_step_repo: "worker_step db db' \<Longrightarrow> repo_step ontology db db'"
  by (erule worker_step.cases) (auto intro: repo_step.intros)

lemma platform_reaches: "(platform_step ap)\<^sup>*\<^sup>* st st' \<Longrightarrow> (repo_step (rt_ontology (ap_runtime ap)))\<^sup>*\<^sup>* (st_db st) (st_db st')"
proof (induction rule: rtranclp_induct)
  case (step s t)
  from platform_transaction [OF step.hyps(2)] have "st_db t = st_db s \<or> repo_step (rt_ontology (ap_runtime ap)) (st_db s) (st_db t)"
    using call_step_repo worker_step_repo by blast
  with step.IH show ?case by (auto intro: rtranclp.rtrancl_into_rtrancl)
qed simp

section \<open>Who approved what\<close>

text \<open>For each proposal, whose it is and who approved it.\<close>

definition approval_key :: "action_proposal_row \<Rightarrow> string \<times> string \<times> string \<times> string option" where
  "approval_key p = (pr_id p, pr_principal_id p, pr_scope_hash p, pr_approved_by p)"

definition approval_keys :: "action_db \<Rightarrow> (string \<times> string \<times> string \<times> string option) set" where
  "approval_keys db = approval_key ` set (db_proposals db)"

lemma approval_keys_simps [simp]:
  "approval_keys (record_transition now kind i f t r db) = approval_keys db"
  "approval_keys (put_execution e db) = approval_keys db"
  "approval_keys (db\<lparr>db_executions := es\<rparr>) = approval_keys db"
  by (simp_all add: approval_keys_def record_transition_def put_execution_def)

lemma approval_keys_put: "approval_keys (put_proposal p db) \<subseteq> insert (approval_key p) (approval_keys db)"
  by (auto simp: approval_keys_def put_proposal_def)

lemma found_key: "find_proposal db i = Some p \<Longrightarrow> approval_key p \<in> approval_keys db \<and> pr_id p = i"
  by (auto simp: find_proposal_def approval_keys_def find_Some_iff)

lemma approval_keys_same:
  assumes "find_proposal db i = Some p" and "approval_key q = approval_key p"
  shows "approval_keys (put_proposal q db) \<subseteq> approval_keys db"
  using approval_keys_put [of q db] found_key [OF assms(1)] assms(2) by auto

lemma approval_keys_move: "approval_keys (move_proposal now i s r db) \<subseteq> approval_keys db"
proof (cases "find_proposal db i")
  case (Some p)
  from approval_keys_same [OF Some, of "p\<lparr>pr_status := s, pr_updated_at := now\<rparr>"] Some show ?thesis
    by (simp add: move_proposal_def approval_key_def)
qed (simp add: move_proposal_def)

lemma owned_found: "owned_proposal pid auth db = Inr p \<Longrightarrow> find_proposal db pid = Some p \<and> pr_principal_id p = ac_principal_id auth \<and> pr_scope_hash p = ac_scope_hash auth"
  by (auto simp: owned_proposal_def Let_def split: option.split_asm if_split_asm)

lemma approval_keys_propose:
  assumes "propose ontology now new_id auth aid tid ps reason key ev rc db = Inr (v, db')"
  shows "\<forall>k\<in>approval_keys db'. k \<in> approval_keys db \<or> snd (snd (snd k)) = None"
proof -
  from assms obtain action validated where "db_proposals db' = db_proposals db \<or>
      db_proposals db' = db_proposals db @ [new_proposal now new_id auth action tid validated reason key ev rc]"
    by (auto simp: propose_def ebind_Inr_iff Let_def record_transition_def split: if_split_asm option.split_asm)
  moreover have "snd (snd (snd (approval_key (new_proposal now new_id auth action tid validated reason key ev rc)))) = None"
    by (simp add: approval_key_def new_proposal_def)
  ultimately show ?thesis by (auto simp: approval_keys_def)
qed

lemma approval_keys_approve:
  assumes "approve now pid auth by' db = Inr (v, db')"
  shows "approval_keys db' \<subseteq> insert (pid, ac_principal_id auth, ac_scope_hash auth, Some by') (approval_keys db)"
proof -
  from assms obtain row where row: "owned_proposal pid auth db = Inr row" by (auto simp: approve_def ebind_Inr_iff)
  note own = owned_found [OF row]
  let ?row = "row\<lparr>pr_status := READY, pr_approved_by := Some by', pr_approved_at := Some now, pr_updated_at := now\<rparr>"
  have "approval_key ?row = (pid, ac_principal_id auth, ac_scope_hash auth, Some by')"
    using own found_key [of db pid row] by (simp add: approval_key_def)
  with assms row approval_keys_put [of ?row db] show ?thesis
    by (auto simp: approve_def Let_def split: if_split_asm)
qed

lemma approval_keys_preview:
  assumes "preview ontology now pid auth snapshot db = Inr (v, db')"
  shows "approval_keys db' \<subseteq> approval_keys db"
proof -
  from assms obtain row s where row: "find_proposal db pid = Some row"
      and db': "tables db' = tables (put_proposal (row\<lparr>pr_status := s, pr_updated_at := now\<rparr>) db)"
    by (auto simp: preview_def ebind_Inr_iff Let_def tables_record_transition split: if_split_asm dest: owned_found)
  from tables_eqD(1) [OF db'] have "approval_keys db' = approval_keys (put_proposal (row\<lparr>pr_status := s, pr_updated_at := now\<rparr>) db)"
    by (simp add: approval_keys_def)
  with approval_keys_same [OF row] show ?thesis by (simp add: approval_key_def)
qed

lemma approval_keys_enqueue: "enqueue_execution now new_id pid auth db = Inr (v, db') \<Longrightarrow> approval_keys db' = approval_keys db"
  by (auto simp: enqueue_execution_def ebind_Inr_iff Let_def split: if_split_asm option.split_asm)

lemma approval_keys_worker:
  assumes "worker_step db db'"
  shows "approval_keys db' \<subseteq> approval_keys db"
  using assms
proof cases
  case (worker_claim now w lease r)
  show ?thesis
  proof (cases "db' = db")
    case False
    with worker_claim obtain e p s where p: "find_proposal db (ex_proposal_id e) = Some p"
        and db': "approval_keys db' = approval_keys (put_proposal (p\<lparr>pr_status := s, pr_updated_at := now\<rparr>) (put_execution (e\<lparr>ex_status := s\<rparr>) db))"
      by (auto simp: claim_ready_def Let_def approval_keys_def put_proposal_def put_execution_def record_transition_def split: option.split_asm if_split_asm)
    have "find_proposal (put_execution (e\<lparr>ex_status := s\<rparr>) db) (ex_proposal_id e) = Some p"
      using p by (simp add: find_proposal_def put_execution_def)
    from approval_keys_same [OF this, of "p\<lparr>pr_status := s, pr_updated_at := now\<rparr>"] db' show ?thesis
      by (simp add: approval_key_def)
  qed simp
next
  case (worker_begin now eid w code why)
  then show ?thesis
    by (auto simp: begin_compensation_def Let_def split: option.split_asm if_split_asm dest!: subsetD [OF approval_keys_move])
next
  case (worker_finish_compensation now eid w result failed)
  then show ?thesis
    by (auto simp: finish_compensation_def Let_def split: option.split_asm if_split_asm dest!: subsetD [OF approval_keys_move])
next
  case (worker_finish now eid w result code why)
  then show ?thesis
    by (auto simp: finish_def Let_def split: option.split_asm if_split_asm dest!: subsetD [OF approval_keys_move])
qed

text \<open>Every recorded approval goes back to a token that was verified for that proposal, its principal and its scope.\<close>

definition signed_key :: "api_environment \<Rightarrow> string \<times> string \<times> string \<times> string option \<Rightarrow> bool" where
  "signed_key ap = (\<lambda>(pid, principal, scope, approved_by). \<forall>by'. approved_by = Some by' \<longrightarrow>
     (\<exists>token. verify_action_approval (ap_jwt_decode ap) (ap_env ap) token pid principal scope = Inr by'))"

definition approvals_signed :: "api_environment \<Rightarrow> action_db \<Rightarrow> bool" where
  "approvals_signed ap db \<longleftrightarrow> (\<forall>k\<in>approval_keys db. signed_key ap k)"

lemma call_keeps_signed:
  assumes "call_step ap request auth db db'" and "approvals_signed ap db"
  shows "approvals_signed ap db'"
  using assms(1)
proof cases
  case (call_propose now new_id aid tid ps reason key ev rc v body)
  have "signed_key ap k" if "snd (snd (snd k)) = None" for k using that by (cases k) (simp add: signed_key_def)
  with approval_keys_propose [OF call_propose(2)] assms(2) show ?thesis unfolding approvals_signed_def by blast
next
  case (call_preview now pid snapshot v)
  from approval_keys_preview [OF this(2)] assms(2) show ?thesis unfolding approvals_signed_def by blast
next
  case (call_approve token pid by' now v)
  then have "signed_key ap (pid, ac_principal_id auth, ac_scope_hash auth, Some by')" by (auto simp: signed_key_def)
  with approval_keys_approve [OF call_approve(3)] assms(2) show ?thesis unfolding approvals_signed_def by blast
next
  case (call_execute now new_id pid v)
  from approval_keys_enqueue [OF this(2)] assms(2) show ?thesis unfolding approvals_signed_def by simp
qed (use assms(2) in simp)

lemma platform_signed: "(platform_step ap)\<^sup>*\<^sup>* empty_state st \<Longrightarrow> approvals_signed ap (st_db st)"
proof (induction rule: rtranclp_induct)
  case base
  then show ?case by (simp add: approvals_signed_def approval_keys_def empty_state_def empty_db_def)
next
  case (step s t)
  from platform_transaction [OF step.hyps(2)] show ?case
  proof
    assume "worker_step (st_db s) (st_db t)"
    from approval_keys_worker [OF this] step.IH show ?case unfolding approvals_signed_def by blast
  qed (use step.IH call_keeps_signed in blast)
qed

section \<open>Answers and failures\<close>

text \<open>An answer comes with one more audit row, of the caller and the trace; a failure with none.\<close>

definition audited :: "api_call \<Rightarrow> request_context \<Rightarrow> authorization_context \<Rightarrow> api_state \<Rightarrow> api_answer \<Rightarrow> bool" where
  "audited call rc auth st answer =
     (case answer of
        (Inl _, st') \<Rightarrow> st_audit st' = st_audit st \<and> (cl_audit_available call \<longrightarrow> st' = st)
      | (Inr v, st') \<Rightarrow> \<exists>ev decision details payload. v = traced payload rc \<and>
          st_audit st' = st_audit st @ [audit_row (cl_now call) (cl_audit_id call) rc auth ev decision details])"

lemma audited_record: "st_audit st1 = st_audit st \<Longrightarrow> audited call rc auth st (record_audit call rc auth ev decision details failure payload st1)"
  by (auto simp: audited_def record_audit_def)

lemma audited_failure: "audited call rc auth st (Inl e, st)"
  by (simp add: audited_def)

definition evidence_request :: "api_request \<Rightarrow> bool" where
  "evidence_request request = (case request of Get_Trace_Evidence _ \<Rightarrow> True | Get_Action_Evidence _ \<Rightarrow> True | _ \<Rightarrow> False)"

lemmas handler_defs = handle_def resolve_ontology_def api_search_objects_def api_get_object_def api_query_metric_def
  explain_metric_def list_actions_def propose_action_def preview_action_def approve_action_def execute_action_def get_action_status_def

lemma handle_audited: "request \<noteq> Health \<Longrightarrow> \<not> evidence_request request \<Longrightarrow> audited call rc auth st (handle ap call auth rc request st)"
  by (cases request) (auto simp: handler_defs evidence_request_def Let_def audited_failure
      split: sum.split option.split list.split saas_authorization_error.split intro!: audited_record)

lemma evidence_reads: "evidence_request request \<Longrightarrow> snd (handle ap call auth rc request st) = st"
  by (cases request) (auto simp: evidence_request_def handle_def get_semantic_trace_evidence_def get_action_evidence_def split: option.split list.split)

text \<open>C3. An Action that needs approval is only ever handed to a worker with a signed approval: in every state the service and the workers can
  reach, when a worker claims an Action, its stored proposal needs no approval or there is a token that was decoded for the approval
  audience, within its lifetime policy, and that names this proposal, the principal who proposed it and the scope it was proposed
  under.\<close>

theorem claimed_actions_signed:
  assumes "(platform_step ap)\<^sup>*\<^sup>* empty_state st" and "claim_ready now w lease (st_db st) = (Some (cmd, ev), db')"
  shows "\<exists>p. find_proposal (st_db st) (pv_proposal_id cmd) = Some p \<and>
    (pr_approval_required p \<longrightarrow> (\<exists>token config claims.
       ap_jwt_decode ap config approval_claims token = Some claims \<and> jc_audience config = approval_audience \<and>
       approval_lifetime (ap_env ap) claims = Inr () \<and> get_key claims ''proposal_id'' = PStr (pv_proposal_id cmd) \<and>
       get_key claims ''sub'' = PStr (pr_principal_id p) \<and> get_key claims ''scope_hash'' = PStr (pr_scope_hash p)))"
proof -
  have "(repo_step (rt_ontology (ap_runtime ap)))\<^sup>*\<^sup>* empty_db (st_db st)"
    using platform_reaches [OF assms(1)] by (simp add: empty_state_def)
  from claim_approved [OF this assms(2)] obtain p where p: "find_proposal (st_db st) (pv_proposal_id cmd) = Some p"
      and approved: "pr_approval_required p \<longrightarrow> pr_approved_by p \<noteq> None" by blast
  have "signed_key ap (approval_key p)" using platform_signed [OF assms(1)] found_key [OF p] by (simp add: approvals_signed_def)
  then have signed: "\<exists>token. verify_action_approval (ap_jwt_decode ap) (ap_env ap) token (pr_id p) (pr_principal_id p) (pr_scope_hash p) = Inr by'"
    if "pr_approved_by p = Some by'" for by' using that by (simp add: signed_key_def approval_key_def)
  have "\<exists>token config claims. ap_jwt_decode ap config approval_claims token = Some claims \<and> jc_audience config = approval_audience \<and>
       approval_lifetime (ap_env ap) claims = Inr () \<and> get_key claims ''proposal_id'' = PStr (pv_proposal_id cmd) \<and>
       get_key claims ''sub'' = PStr (pr_principal_id p) \<and> get_key claims ''scope_hash'' = PStr (pr_scope_hash p)"
    if required: "pr_approval_required p"
  proof -
    obtain by' token where "verify_action_approval (ap_jwt_decode ap) (ap_env ap) token (pv_proposal_id cmd) (pr_principal_id p) (pr_scope_hash p) = Inr by'"
      using approved required signed found_key [OF p] by auto
    then show ?thesis by (rule verify_action_approval_Inr) blast
  qed
  with p show ?thesis by blast
qed

text \<open>C4. What the service does, it writes down: every answer other than the health check and the reading of evidence adds exactly one audit
  row, with the identity, scope and permission version of the authorization context the guard accepted and the correlation identifiers
  of the request, whose trace identifier is in the answer; the details of the row hold no key with a forbidden fragment at any depth, at most six levels of
  containers, and bounded texts and lists. A request that fails adds no row.\<close>

theorem answers_are_audited:
  assumes "serve ap call request st = (r, st')" and "request \<noteq> Health" and "\<not> evidence_request request"
  shows "case r of
      Inl _ \<Rightarrow> st_audit st' = st_audit st
    | Inr v \<Rightarrow> \<exists>auth rc row d. admitted ap call auth rc \<and> st_audit st' = st_audit st @ [row] \<and> audit_visible auth (rc_semantic_trace_id rc) row \<and>
        au_run_id row = rc_run_id rc \<and> au_thread_id row = rc_thread_id rc \<and> au_tool_call_id row = rc_tool_call_id rc \<and>
        clean 6 (PDict (au_details row)) \<and> v = PDict d \<and> dget d ''semantic_trace_id'' = Some (PStr (au_semantic_trace_id row))"
proof (rule serve_cases [of request ap call st])
  fix auth rc
  assume adm: "admitted ap call auth rc" and h: "serve ap call request st = handle ap call auth rc request st"
  have a: "audited call rc auth st (r, st')" using handle_audited [OF assms(2,3)] h assms(1) by metis
  show ?thesis
  proof (cases r)
    case (Inl e)
    then show ?thesis using a by (simp add: audited_def)
  next
    case (Inr v)
    with a obtain ev decision details payload where v: "v = traced payload rc"
        and row: "st_audit st' = st_audit st @ [audit_row (cl_now call) (cl_audit_id call) rc auth ev decision details]"
      by (auto simp: audited_def)
    have "clean 6 (PDict (safe_details 0 details))" using safe_details_clean [of 0 details] by (simp add: max_detail_depth_def)
    moreover obtain d where "v = PDict d" "dget d ''semantic_trace_id'' = Some (PStr (rc_semantic_trace_id rc))" using v by (simp add: traced_def)
    ultimately have "\<exists>row d. st_audit st' = st_audit st @ [row] \<and> audit_visible auth (rc_semantic_trace_id rc) row \<and>
        au_run_id row = rc_run_id rc \<and> au_thread_id row = rc_thread_id rc \<and> au_tool_call_id row = rc_tool_call_id rc \<and>
        clean 6 (PDict (au_details row)) \<and> v = PDict d \<and> dget d ''semantic_trace_id'' = Some (PStr (au_semantic_trace_id row))"
      using row by (intro exI [of _ "audit_row (cl_now call) (cl_audit_id call) rc auth ev decision details"] exI [of _ d])
        (simp add: audit_row_def audit_visible_def del: clean.simps)
    with adm show ?thesis unfolding Inr sum.case by blast
  qed
qed (use assms in auto)

text \<open>C5. A request that fails changes nothing: as long as the audit table takes rows, whatever error a request ends with, refused, invalid or
  failed in its transaction, the database and the audit trail are as they were. The health check and the reading of evidence change nothing in
  any case.\<close>

theorem failed_calls_change_nothing:
  assumes "serve ap call request st = (r, st')" and "(\<exists>e. r = Inl e) \<and> cl_audit_available call \<or> request = Health \<or> evidence_request request"
  shows "st' = st"
proof (rule serve_cases [of request ap call st])
  fix auth rc
  assume "request \<noteq> Health" and h: "serve ap call request st = handle ap call auth rc request st"
  show ?thesis
  proof (cases "evidence_request request")
    case True
    from evidence_reads [OF this, of ap call auth rc st] h assms(1) show ?thesis by (metis snd_conv)
  next
    case False
    from handle_audited [OF \<open>request \<noteq> Health\<close> False, of call rc auth st ap] h assms(1) have "audited call rc auth st (r, st')" by metis
    with assms(2) False \<open>request \<noteq> Health\<close> show ?thesis by (auto simp: audited_def)
  qed
qed (use assms(1) in auto)

section \<open>A run of the service\<close>

definition api_jwt :: jwt_decoder where
  "api_jwt config required token =
     (if required = approval_claims
      then if token = ''approval''
        then Some [(''iat'', PInt 1000), (''exp'', PInt 1060), (''sub'', PStr ''public-user-001''), (''proposal_id'', PStr ''p1''),
          (''scope_hash'', PStr ''277''), (''approved_by'', PStr ''boss'')] else None
      else if token = ''admin''
        then Some (dset ''role_codes'' (PList [PStr ''site_admin''])
          (demo_claims [(''mode'', PStr ''resource_set''), (''site_ids'', PList [PStr ''site-a'', PStr ''site-b''])])) else None)"

definition api_runtime :: semantic_runtime where
  "api_runtime = \<lparr>rt_ontology = Ontology_Laws.demo_registry, rt_sql_policy = demo_sql_registry, rt_print = (\<lambda>_. ''q''), rt_print_tree = (\<lambda>_. ''q''),
     rt_parse = (\<lambda>_. Some [demo_statement]), rt_add_limit = fill_slot,
     rt_datasource_resolver = (\<lambda>_. Inr \<lparr>ds_code = ''d'', ds_host = ''h'', ds_port = 1, ds_database = ''ops'', ds_username = ''u'', ds_password = ''p'',
        ds_driver_class = '''', ds_allowed_databases = [''ops'']\<rparr>),
     rt_run = (\<lambda>_ _ _. Inr (Result_List [Result_Value (PDict [(''id'', PStr ''site-a'')])])), rt_literal_eval = (\<lambda>_. None), rt_sha256 = demo_digest\<rparr>"

definition demo_api :: api_environment where
  "demo_api = \<lparr>ap_sha256 = demo_digest, ap_jwt_decode = api_jwt, ap_env = demo_env, ap_scope_resolver = demo_resolver, ap_settings = demo_settings,
     ap_evals_evidence_enabled = True, ap_runtime = api_runtime,
     ap_recall = (\<lambda>_. \<lparr>rl_candidate_ids = no_candidates, rl_source = ''disabled'', rl_index_version = ''1'', rl_max_score = PNone\<rparr>),
     ap_isoformat = int_str\<rparr>"

definition demo_call :: "int \<Rightarrow> string \<Rightarrow> bool \<Rightarrow> api_call" where
  "demo_call now new_id audit_available =
     \<lparr>cl_service_token = Some ''s3cret'', cl_authorization_token = Some ''admin'',
      cl_correlation = \<lparr>ch_run_id = Some ''run'', ch_thread_id = Some ''thread'', ch_tool_call_id = Some ''call'', ch_semantic_trace_id = Some ''trace''\<rparr>,
      cl_now = now, cl_new_id = new_id, cl_audit_id = ''a'' @ new_id, cl_audit_available = audit_available\<rparr>"

definition demo_body :: action_proposal_request where
  "demo_body = \<lparr>ar_action_id = ''site.update_display_name'', ar_target_id = ''site-a'', ar_parameters = [(''name'', PStr ''North'')], ar_reason = None,
     ar_expected_object_version = None, ar_idempotency_key = Some ''k1''\<rparr>"

lemma demo_body_sel:
  "ar_action_id demo_body = ''site.update_display_name''" "ar_target_id demo_body = ''site-a''" "ar_parameters demo_body = [(''name'', PStr ''North'')]"
  "ar_reason demo_body = None" "ar_expected_object_version demo_body = None" "ar_idempotency_key demo_body = Some ''k1''"
  by (simp_all add: demo_body_def)

lemma serve_admitted:
  "admitted ap call auth rc \<Longrightarrow> request \<noteq> Health \<Longrightarrow> valid_request request \<Longrightarrow> serve ap call request st = handle ap call auth rc request st"
  by (simp add: serve_def admitted_def)

lemma demo_admitted: "admitted demo_api (demo_call now new_id available) demo_admin demo_rc"
proof -
  have "require_semantic_authorization demo_digest api_jwt demo_env demo_resolver demo_settings (Some ''s3cret'') (Some ''admin'') = Inr demo_admin"
    by code_simp
  moreover have "require_semantic_request_context \<lparr>ch_run_id = Some ''run'', ch_thread_id = Some ''thread'', ch_tool_call_id = Some ''call'',
      ch_semantic_trace_id = Some ''trace''\<rparr> = Inr demo_rc" by code_simp
  ultimately show ?thesis by (simp add: admitted_def demo_api_def demo_call_def)
qed

text \<open>A call of the demo caller, as a step on the state.\<close>

definition demo_serve :: "int \<Rightarrow> string \<Rightarrow> bool \<Rightarrow> api_request \<Rightarrow> api_state \<Rightarrow> api_state" where
  "demo_serve now new_id available request st = snd (serve demo_api (demo_call now new_id available) request st)"

lemma demo_serve_step: "(platform_step demo_api)\<^sup>*\<^sup>* st0 st \<Longrightarrow> (platform_step demo_api)\<^sup>*\<^sup>* st0 (demo_serve now new_id available request st)"
  unfolding demo_serve_def by (erule rtranclp.rtrancl_into_rtrancl) (rule platform_call, rule surjective_pairing)

lemma demo_handled: "request \<noteq> Health \<Longrightarrow> valid_request request \<Longrightarrow>
    serve demo_api (demo_call now new_id available) request st = handle demo_api (demo_call now new_id available) demo_admin demo_rc request st"
  by (rule serve_admitted [OF demo_admitted])

lemma demo_fields [simp]:
  "cl_now (demo_call now new_id available) = now" "cl_new_id (demo_call now new_id available) = new_id"
  "cl_audit_available (demo_call now new_id available) = available"
  "ap_runtime demo_api = api_runtime" "rt_ontology api_runtime = Ontology_Laws.demo_registry" "ap_isoformat demo_api = int_str"
  "ap_jwt_decode demo_api = api_jwt" "ap_env demo_api = demo_env"
  by (simp_all add: demo_call_def demo_api_def api_runtime_def)

lemma succeeds_pair: "succeeds r \<Longrightarrow> \<exists>v. r = Inr (v, result_db r)"
  using succeeds_result by blast

lemma demo_propose_db: "st_db st = empty_db \<Longrightarrow> st_db (demo_serve 100 ''p1'' available (Propose_Action demo_body) st) = demo_proposed"
proof -
  assume st: "st_db st = empty_db"
  have "succeeds (demo_propose 100 ''p1'' ''k1'' empty_db)" and valid: "valid_request (Propose_Action demo_body)" by code_simp+
  then obtain v where "demo_propose 100 ''p1'' ''k1'' empty_db = Inr (v, demo_proposed)"
    using succeeds_pair unfolding demo_proposed_def by blast
  moreover have "serve demo_api (demo_call 100 ''p1'' available) (Propose_Action demo_body) st =
      handle demo_api (demo_call 100 ''p1'' available) demo_admin demo_rc (Propose_Action demo_body) st" by (rule demo_handled [OF _ valid]) simp
  ultimately show ?thesis using st unfolding demo_serve_def
    by (simp add: handle_def propose_action_def demo_propose_def demo_body_sel)
qed

lemma demo_rows: "\<exists>q. get_object api_runtime (int_str 101) demo_admin ''Site'' ''site-a'' = Inr q \<and> qr_rows q = [[(''id'', PStr ''site-a'')]]"
proof -
  have "(case get_object api_runtime (int_str 101) demo_admin ''Site'' ''site-a'' of Inl _ \<Rightarrow> False | Inr q \<Rightarrow> qr_rows q = [[(''id'', PStr ''site-a'')]])"
    by code_simp
  then show ?thesis by (auto split: sum.split_asm)
qed

lemma demo_preview_db: "st_db st = demo_proposed \<Longrightarrow> st_db (demo_serve 101 ''n1'' available (Preview_Action ''p1'') st) = demo_previewed"
proof -
  assume st: "st_db st = demo_proposed"
  have "(case get_proposal ''p1'' demo_admin demo_proposed of None \<Rightarrow> False | Some p \<Rightarrow> pv_target_type p = ''Site'' \<and> pv_target_id p = ''site-a'')"
    by code_simp
  then obtain p where p: "get_proposal ''p1'' demo_admin demo_proposed = Some p" "pv_target_type p = ''Site''" "pv_target_id p = ''site-a''"
    by (auto split: option.split_asm)
  obtain q where q: "get_object api_runtime (int_str 101) demo_admin ''Site'' ''site-a'' = Inr q" "qr_rows q = [[(''id'', PStr ''site-a'')]]"
    using demo_rows by blast
  have "succeeds (preview Ontology_Laws.demo_registry 101 ''p1'' demo_admin [(''id'', PStr ''site-a'')] demo_proposed)" by code_simp
  then obtain v where "preview Ontology_Laws.demo_registry 101 ''p1'' demo_admin [(''id'', PStr ''site-a'')] demo_proposed = Inr (v, demo_previewed)"
    using succeeds_pair unfolding demo_previewed_def by blast
  with st p q show ?thesis
    by (cases v) (simp add: demo_serve_def demo_handled handle_def preview_action_def)
qed

lemma demo_approval: "verify_action_approval api_jwt demo_env ''approval'' ''p1'' (ac_principal_id demo_admin) (ac_scope_hash demo_admin) = Inr ''boss''"
  by code_simp

lemma demo_previewed_found: "\<exists>p. get_proposal ''p1'' demo_admin demo_previewed = Some p"
proof -
  have "get_proposal ''p1'' demo_admin demo_previewed \<noteq> None" by code_simp
  then show ?thesis by blast
qed

lemma demo_approve: "\<exists>v. approve 102 ''p1'' demo_admin ''boss'' demo_previewed = Inr (v, demo_approved)"
  unfolding demo_approved_def by (rule succeeds_pair) code_simp

lemma demo_valid_approval: "valid_request (Approve_Action ''p1'' ''approval'')" "valid_request (Approve_Action ''p1'' ''forged'')"
  by code_simp+

lemma demo_approve_db:
  assumes "st_db st = demo_previewed"
  shows "st_db (demo_serve 102 ''n2'' available (Approve_Action ''p1'' ''approval'') st) = demo_approved"
proof -
  obtain p where p: "get_proposal ''p1'' demo_admin demo_previewed = Some p" using demo_previewed_found by blast
  obtain v where "approve 102 ''p1'' demo_admin ''boss'' demo_previewed = Inr (v, demo_approved)" using demo_approve by blast
  with assms p demo_approval show ?thesis
    by (simp add: demo_serve_def demo_handled [OF _ demo_valid_approval(1)] handle_def approve_action_def)
qed

lemma demo_execute_db: "st_db st = demo_approved \<Longrightarrow> st_db (demo_serve 103 ''e1'' available (Execute_Action ''p1'') st) = demo_queued"
proof -
  assume st: "st_db st = demo_approved"
  have "succeeds (enqueue_execution 103 ''e1'' ''p1'' demo_admin demo_approved)" by code_simp
  then obtain v where "enqueue_execution 103 ''e1'' ''p1'' demo_admin demo_approved = Inr (v, demo_queued)"
    using succeeds_pair unfolding demo_queued_def by blast
  with st show ?thesis by (simp add: demo_serve_def demo_handled handle_def execute_action_def)
qed

definition api_proposed :: api_state where "api_proposed = demo_serve 100 ''p1'' True (Propose_Action demo_body) empty_state"

definition api_previewed :: api_state where "api_previewed = demo_serve 101 ''n1'' True (Preview_Action ''p1'') api_proposed"

definition api_approved :: api_state where
  "api_approved = demo_serve 102 ''n2'' True (Approve_Action ''p1'' ''approval'') api_previewed"

definition api_queued :: api_state where "api_queued = demo_serve 103 ''e1'' True (Execute_Action ''p1'') api_approved"

lemma api_queued_reachable: "(platform_step demo_api)\<^sup>*\<^sup>* empty_state api_queued"
  unfolding api_queued_def api_approved_def api_previewed_def api_proposed_def by (intro demo_serve_step rtranclp.rtrancl_refl)

lemma api_previewed_db: "st_db api_previewed = demo_previewed"
  unfolding api_previewed_def api_proposed_def by (intro demo_preview_db demo_propose_db) (simp add: empty_state_def)

lemma api_queued_db: "st_db api_queued = demo_queued"
  unfolding api_queued_def api_approved_def by (intro demo_execute_db demo_approve_db api_previewed_db)

theorem claimed_actions_signed_witness:
  "\<exists>cmd ev p token config claims. fst (claim_ready 104 ''w1'' 30 (st_db api_queued)) = Some (cmd, ev) \<and>
     find_proposal (st_db api_queued) (pv_proposal_id cmd) = Some p \<and> pr_approval_required p \<and>
     api_jwt config approval_claims token = Some claims \<and> get_key claims ''proposal_id'' = PStr (pv_proposal_id cmd) \<and>
     get_key claims ''sub'' = PStr (pr_principal_id p) \<and> get_key claims ''scope_hash'' = PStr (pr_scope_hash p)"
proof -
  have "case fst (claim_ready 104 ''w1'' 30 demo_queued) of None \<Rightarrow> False | Some (cmd, ev) \<Rightarrow> pv_proposal_id cmd = ''p1''"
    and required: "case find_proposal demo_queued ''p1'' of None \<Rightarrow> False | Some p \<Rightarrow> pr_approval_required p" by code_simp+
  then obtain cmd ev where c: "fst (claim_ready 104 ''w1'' 30 (st_db api_queued)) = Some (cmd, ev)" and i: "pv_proposal_id cmd = ''p1''"
    by (auto simp: api_queued_db split: option.split_asm prod.split_asm)
  then have "claim_ready 104 ''w1'' 30 (st_db api_queued) = (Some (cmd, ev), snd (claim_ready 104 ''w1'' 30 (st_db api_queued)))"
    by (metis prod.collapse)
  from claimed_actions_signed [OF api_queued_reachable this] required i c show ?thesis
    by (auto simp: api_queued_db split: option.split_asm)
qed

lemma demo_propose_answers: "\<exists>v. serve demo_api (demo_call 100 ''p1'' True) (Propose_Action demo_body) empty_state = (Inr v, api_proposed)"
proof -
  have "succeeds (demo_propose 100 ''p1'' ''k1'' empty_db)" and valid: "valid_request (Propose_Action demo_body)" by code_simp+
  then obtain v where "demo_propose 100 ''p1'' ''k1'' empty_db = Inr (v, demo_proposed)"
    using succeeds_pair unfolding demo_proposed_def by blast
  moreover have "serve demo_api (demo_call 100 ''p1'' True) (Propose_Action demo_body) empty_state =
      handle demo_api (demo_call 100 ''p1'' True) demo_admin demo_rc (Propose_Action demo_body) empty_state" by (rule demo_handled [OF _ valid]) simp
  ultimately have "\<exists>v. fst (serve demo_api (demo_call 100 ''p1'' True) (Propose_Action demo_body) empty_state) = Inr v"
    by (simp add: handle_def propose_action_def demo_propose_def demo_body_sel empty_state_def record_audit_def)
  then show ?thesis unfolding api_proposed_def demo_serve_def by (metis prod.collapse)
qed

theorem answers_are_audited_witness:
  "\<exists>v. serve demo_api (demo_call 100 ''p1'' True) (Propose_Action demo_body) empty_state = (Inr v, api_proposed) \<and>
     (\<exists>auth rc row d. admitted demo_api (demo_call 100 ''p1'' True) auth rc \<and> st_audit api_proposed = [row] \<and>
        audit_visible auth (rc_semantic_trace_id rc) row \<and> clean 6 (PDict (au_details row)) \<and> v = PDict d \<and>
        dget d ''semantic_trace_id'' = Some (PStr (au_semantic_trace_id row)))"
proof -
  obtain v where v: "serve demo_api (demo_call 100 ''p1'' True) (Propose_Action demo_body) empty_state = (Inr v, api_proposed)"
    using demo_propose_answers by blast
  have "st_audit empty_state = []" by (simp add: empty_state_def)
  with answers_are_audited [OF v] v show ?thesis by (simp add: evidence_request_def del: clean.simps) blast
qed

theorem failed_calls_change_nothing_witness:
  "\<exists>e. serve demo_api (demo_call 102 ''n2'' True) (Approve_Action ''p1'' ''forged'') api_previewed = (Inl e, api_previewed)"
proof -
  obtain p where p: "get_proposal ''p1'' demo_admin demo_previewed = Some p" using demo_previewed_found by blast
  have "verify_action_approval api_jwt demo_env ''forged'' ''p1'' (ac_principal_id demo_admin) (ac_scope_hash demo_admin) =
      Inl (SaasAuthorizationError ''Invalid action approval token'')" by code_simp
  with p have "\<exists>e. fst (serve demo_api (demo_call 102 ''n2'' True) (Approve_Action ''p1'' ''forged'') api_previewed) = Inl e"
    by (simp add: demo_handled [OF _ demo_valid_approval(2)] handle_def approve_action_def api_previewed_db)
  then obtain e where "serve demo_api (demo_call 102 ''n2'' True) (Approve_Action ''p1'' ''forged'') api_previewed =
      (Inl e, snd (serve demo_api (demo_call 102 ''n2'' True) (Approve_Action ''p1'' ''forged'') api_previewed))" by (metis prod.collapse)
  with failed_calls_change_nothing [OF this] show ?thesis by auto
qed

text \<open>Where the audit table takes no row, the transaction before it is committed all the same: an approval the caller is told failed stands,
  and there is no row about it.\<close>

theorem unaudited_approval:
  "serve demo_api (demo_call 102 ''n2'' False) (Approve_Action ''p1'' ''approval'') api_previewed =
     (Inl execution_failed, api_previewed\<lparr>st_db := demo_approved\<rparr>) \<and> demo_approved \<noteq> demo_previewed"
proof -
  obtain p where p: "get_proposal ''p1'' demo_admin demo_previewed = Some p" using demo_previewed_found by blast
  obtain v where "approve 102 ''p1'' demo_admin ''boss'' demo_previewed = Inr (v, demo_approved)" using demo_approve by blast
  moreover have "find_proposal demo_approved ''p1'' \<noteq> find_proposal demo_previewed ''p1''" by code_simp
  ultimately show ?thesis using p demo_approval
    by (auto simp: demo_handled [OF _ demo_valid_approval(1)] handle_def approve_action_def api_previewed_db record_audit_def)
qed

end
