(* ===== verification/Semantic_Query_Properties.thy ===== *)
theory Semantic_Query_Properties
  imports Semantic_Query Sql_Scope_Properties Ontology_Laws
begin

text \<open>
  Properties of the semantic query compiler: what it compiles is authorized by the ontology, the values of filters
  reach the database only as bound parameters, and, through the SQL scope guard, the result is confined to the
  caller's scope.
\<close>

section \<open>Filters\<close>

lemma dict_update_get:
  "dget (dict_update e d) k = Some v \<Longrightarrow> (k, v) \<in> set e \<or> dget d k = Some v \<and> k \<notin> fst ` set e"
  unfolding dict_update_def by (rule fold_dset_get)

lemma dict_update_absent: "k \<notin> fst ` set e \<Longrightarrow> dget (dict_update e d) k = dget d k"
  unfolding dict_update_def by (induction e arbitrary: d) auto

lemma dict_update_mem: "distinct (dkeys e) \<Longrightarrow> (k, v) \<in> set e \<Longrightarrow> dget (dict_update e d) k = Some v"
proof (induction e arbitrary: d)
  case (Cons kv e)
  then show ?case
    using dict_update_absent [of k e "dset (fst kv) (snd kv) d"] by (force simp: dict_update_def split: prod.split_asm)
qed simp

lemma dict_update_keys: "fst ` set (dict_update e d) \<subseteq> fst ` set e \<union> fst ` set d"
proof
  fix k
  assume "k \<in> fst ` set (dict_update e d)"
  then obtain v where "dget (dict_update e d) k = Some v" by (metis dom_map_of_conv_image_fst domD)
  from dict_update_get [OF this] show "k \<in> fst ` set e \<union> fst ` set d" by (force dest: map_of_SomeD)
qed

text \<open>The names of the parameters of one filter.\<close>

definition names_of :: "nat \<Rightarrow> string set" where
  "names_of i = {n. n = filter_prefix i \<or> (\<exists>j. n = item_parameter (filter_prefix i) j)}"

lemma names_of_disjoint:
  assumes "n \<in> names_of i" and "n \<in> names_of j"
  shows "i = j"
proof -
  have "takeWhile (\<lambda>c. c \<noteq> CHR ''_'') (drop 7 n) = nat_str k" if "n \<in> names_of k" for k
  proof -
    have "takeWhile (\<lambda>c. c \<noteq> CHR ''_'') (nat_str k @ CHR ''_'' # xs) = nat_str k" for xs
      using underscore_not_in_nat_str [of k] by (subst takeWhile_append2) auto
    moreover have "takeWhile (\<lambda>c. c \<noteq> CHR ''_'') (nat_str k) = nat_str k"
      using underscore_not_in_nat_str [of k] by (auto simp: takeWhile_eq_all_conv)
    moreover have "drop 7 (filter_prefix k @ xs) = nat_str k @ xs" for xs by (simp add: filter_prefix_def numeral_eq_Suc)
    ultimately show ?thesis using that append_Nil2 [of "filter_prefix k"]
      unfolding names_of_def item_parameter_def mem_Collect_eq by (metis append_Cons append_Nil append_Nil2)
  qed
  with assms show ?thesis by (metis nat_str_inject)
qed

lemma item_parameter_inject: "item_parameter p i = item_parameter p j \<longleftrightarrow> i = j"
  by (simp add: item_parameter_def)

text \<open>What a condition says when its parameters are bound.\<close>

definition binds :: "(string, pyval) dict \<Rightarrow> property_definition \<Rightarrow> semantic_filter \<Rightarrow> condition \<Rightarrow> bool" where
  "binds parameters pd f c =
     (case c of
        Column_In column names \<Rightarrow> column = pd_column pd \<and> sf_operator f = ''in'' \<and>
          (\<exists>vs. list_of (sf_value f) = Some vs \<and> vs \<noteq> [] \<and> length vs \<le> 100 \<and> map (dget parameters) names = map Some vs)
      | Compare class column name \<Rightarrow> column = pd_column pd \<and> comparison_class (sf_operator f) = Some class \<and>
          dget parameters name = Some (sf_value f))"

lemma condition_for_binds:
  assumes "condition_for (pd_column pd) (sf_operator f) (filter_prefix i) (sf_value f) = Inr (c, kvs)"
  shows "distinct (dkeys kvs)" and "fst ` set kvs \<subseteq> names_of i"
    and "(\<And>k v. (k, v) \<in> set kvs \<Longrightarrow> dget parameters k = Some v) \<Longrightarrow> binds parameters pd f c"
proof -
  have keys: "map fst (map (\<lambda>(index, item). (item_parameter (filter_prefix i) index, item)) (enumerate 0 vs)) =
      map (item_parameter (filter_prefix i)) [0..<length vs]" for vs :: "pyval list"
    by (rule nth_equalityI) (auto simp: nth_enumerate_eq)
  from assms consider vs where "dkeys kvs = map (item_parameter (filter_prefix i)) [0..<length (vs :: pyval list)]" | "dkeys kvs = [filter_prefix i]"
    using keys by (auto simp: condition_for_def Let_def simp del: enumerate_simps map_map upt_Suc split: if_split_asm option.split_asm list.split_asm)
  then have "distinct (dkeys kvs) \<and> set (dkeys kvs) \<subseteq> names_of i"
  proof cases
    case 1
    then show ?thesis unfolding 1 by (auto simp: distinct_map inj_on_def item_parameter_inject names_of_def)
  next
    case 2
    then show ?thesis unfolding 2 by (simp add: names_of_def)
  qed
  then show "distinct (dkeys kvs)" "fst ` set kvs \<subseteq> names_of i" by simp_all
  show "binds parameters pd f c" if bound: "\<And>k v. (k, v) \<in> set kvs \<Longrightarrow> dget parameters k = Some v"
  proof (cases "sf_operator f = ''in''")
    case True
    with assms obtain vs where vs: "list_of (sf_value f) = Some vs" "vs \<noteq> []" "length vs \<le> 100"
        and c: "c = Column_In (pd_column pd) (dkeys kvs)"
        and kvs: "kvs = map (\<lambda>(index, item). (item_parameter (filter_prefix i) index, item)) (enumerate 0 vs)"
      by (auto simp: condition_for_def Let_def max_in_filter_values_def simp del: enumerate_simps split: if_split_asm option.split_asm list.split_asm)
    have "map (dget parameters) (dkeys kvs) = map Some (map snd kvs)" using bound by (auto simp: comp_def)
    moreover have "map snd kvs = vs" unfolding kvs by (rule nth_equalityI) (auto simp: nth_enumerate_eq)
    ultimately show ?thesis using True vs by (simp add: binds_def c)
  next
    case False
    with assms bound show ?thesis by (auto simp: condition_for_def binds_def split: option.split_asm)
  qed
qed

definition filter_applied ::
  "object_definition \<Rightarrow> string list option \<Rightarrow> (string, pyval) dict \<Rightarrow> semantic_filter \<Rightarrow> condition \<Rightarrow> bool" where
  "filter_applied obj allowed parameters f c \<longleftrightarrow>
     (\<exists>pd. object_property obj (sf_field f) = Inr pd \<and> pd_filterable pd \<and>
        (case allowed of None \<Rightarrow> True | Some ok \<Rightarrow> sf_field f \<in> set ok) \<and> binds parameters pd f c)"

text \<open>The parameters after some of the filters.\<close>

lemma apply_filters_binds:
  assumes "efold (apply_filter obj allowed) (st, params) (enumerate n fs) = Inr (st', params')"
    and "\<And>i. n \<le> i \<Longrightarrow> names_of i \<inter> fst ` set params = {}"
  shows "\<exists>cs. st' = st\<lparr>ss_conditions := ss_conditions st @ cs\<rparr> \<and> length cs = length fs \<and>
      (\<forall>i<length fs. filter_applied obj allowed params' (fs ! i) (cs ! i)) \<and>
      (\<forall>k v. dget params k = Some v \<longrightarrow> dget params' k = Some v) \<and>
      fst ` set params' \<subseteq> fst ` set params \<union> (\<Union>i. names_of i)"
  using assms
proof (induction fs arbitrary: n st params)
  case (Cons f fs)
  from Cons.prems(1) obtain pd c kvs where
      pd: "object_property obj (sf_field f) = Inr pd" "pd_filterable pd"
        "case allowed of None \<Rightarrow> True | Some ok \<Rightarrow> sf_field f \<in> set ok"
      and c: "condition_for (pd_column pd) (sf_operator f) (filter_prefix n) (sf_value f) = Inr (c, kvs)"
      and rest: "efold (apply_filter obj allowed) (st\<lparr>ss_conditions := ss_conditions st @ [c]\<rparr>, dict_update kvs params)
        (enumerate (Suc n) fs) = Inr (st', params')"
    by (auto simp: apply_filter_def err_simps split: if_split_asm prod.split_asm option.split_asm)
  note vals = condition_for_binds [OF c]
  have keys: "fst ` set (dict_update kvs params) \<subseteq> fst ` set kvs \<union> fst ` set params"
    by (rule dict_update_keys)
  have "names_of i \<inter> fst ` set (dict_update kvs params) = {}" if "Suc n \<le> i" for i
  proof -
    have "names_of i \<inter> names_of n = {}" using names_of_disjoint [of _ i n] that by auto
    moreover have "names_of i \<inter> fst ` set params = {}" using Cons.prems(2) that by simp
    moreover have "A \<inter> X = {}" if "A \<inter> N = {}" "A \<inter> P = {}" "X \<subseteq> K \<union> P" "K \<subseteq> N" for A N P X K :: "string set"
      using that by blast
    ultimately show ?thesis using keys vals(2) by metis
  qed
  from Cons.IH [OF rest this] obtain cs where cs: "st' = st\<lparr>ss_conditions := ss_conditions st @ c # cs\<rparr>" "length cs = length fs"
      and later: "\<forall>i<length fs. filter_applied obj allowed params' (fs ! i) (cs ! i)"
      and keep: "\<forall>k v. dget (dict_update kvs params) k = Some v \<longrightarrow> dget params' k = Some v"
      and sub: "fst ` set params' \<subseteq> fst ` set (dict_update kvs params) \<union> (\<Union>i. names_of i)" by auto
  have "binds params' pd f c" using vals(1) keep by (intro vals(3)) (blast intro: dict_update_mem)
  with pd have here: "filter_applied obj allowed params' f c" by (auto simp: filter_applied_def)
  have "dget params' k = Some v" if "dget params k = Some v" for k v
  proof -
    have "k \<in> fst ` set params" using that by (force dest: map_of_SomeD)
    with vals(2) Cons.prems(2) [of n] have "k \<notin> fst ` set kvs" by auto
    with that keep show ?thesis by (simp add: dict_update_absent)
  qed
  moreover have "fst ` set params' \<subseteq> fst ` set params \<union> (\<Union>i. names_of i)" using sub keys vals(2) by blast
  moreover have "filter_applied obj allowed params' ((f # fs) ! i) ((c # cs) ! i)" if "i < length (f # fs)" for i
    using that later here by (cases i) auto
  ultimately show ?case using cs by (intro exI [of _ "c # cs"]) auto
qed (auto intro!: exI [of _ "[]"])

section \<open>Parameters of the compiled query\<close>

lemma scope_parameter_names:
  assumes "guard_statement add_limit registry auth dbs limit statement = Inr q"
  shows "distinct (dkeys (sq_parameters q))" and "k \<in> fst ` set (sq_parameters q) \<Longrightarrow> \<exists>i n. k = parameter_name i n"
proof -
  obtain tps sps where sps: "scope_predicates auth tps = Inr sps"
      and params: "sq_parameters q = fold (\<lambda>sp. fold (\<lambda>(k, v). dset k v) (sp_parameters sp)) sps []"
    using assms by (rule guard_statement_Inr) (rule that; assumption)
  have q: "sq_parameters q = dict_update (concat (map sp_parameters sps)) []" by (simp add: params fold_fold_dset dict_update_def)
  have "distinct (dkeys (dict_update e d))" if "distinct (dkeys d)" for e d :: "(string, string) dict"
    using that unfolding dict_update_def by (induction e arbitrary: d) (auto simp: distinct_update)
  then show "distinct (dkeys (sq_parameters q))" unfolding q by simp
  assume "k \<in> fst ` set (sq_parameters q)"
  then obtain sp v where sp: "sp \<in> set sps" "(k, v) \<in> set (sp_parameters sp)"
    using dict_update_keys [of "concat (map sp_parameters sps)" "[]"] unfolding q by auto
  from scope_predicate_origin [OF sps sp(1)] obtain i ids where "sp_parameters sp = parameterized i ids"
    by (auto elim!: table_predicate_Inr)
  with sp(2) show "\<exists>i n. k = parameter_name i n" by (auto simp: parameterized_mem)
qed

lemma guard_select_Inr:
  assumes "guard_select env auth limit statement = Inr q"
  obtains tree where "env_parse env (env_print env statement) = Some [tree]"
    "guard_sql_query (env_parse env) (env_add_limit env) (env_policies env) auth (env_databases env) limit (env_print env statement) = Inr q"
    "guard_statement (env_add_limit env) (env_policies env) auth (env_databases env) limit tree = Inr q"
  using assms by (auto simp: guard_select_def err_simps elim!: guard_sql_query_Inr)

text \<open>Neither kind of parameter replaces the other.\<close>

lemma merge_parameters_get:
  assumes "guard_select env auth limit statement = Inr q" and names: "fst ` set params \<subseteq> (\<Union>i. names_of i)"
  shows "dget (sq_parameters q) k = Some v \<Longrightarrow> dget (merge_parameters params q) k = Some (PStr v)"
    and "dget params k = Some w \<Longrightarrow> dget (merge_parameters params q) k = Some w"
proof -
  from assms(1) obtain tree where tree: "guard_statement (env_add_limit env) (env_policies env) auth (env_databases env) limit tree = Inr q"
    by (rule guard_select_Inr)
  let ?e = "map (\<lambda>(k, v). (k, PStr v)) (sq_parameters q)"
  have keys: "dkeys ?e = dkeys (sq_parameters q)" by auto
  show "dget (merge_parameters params q) k = Some (PStr v)" if "dget (sq_parameters q) k = Some v"
    unfolding merge_parameters_def
  proof (rule dict_update_mem)
    show "distinct (dkeys ?e)" unfolding keys by (rule scope_parameter_names(1) [OF tree])
    show "(k, PStr v) \<in> set ?e" using map_of_SomeD [OF that] by force
  qed
  show "dget (merge_parameters params q) k = Some w" if w: "dget params k = Some w"
  proof -
    have "k \<in> fst ` set params" using map_of_SomeD [OF w] by force
    with names obtain i where i: "k \<in> names_of i" by auto
    have "k \<noteq> parameter_name j n" for j n using i by (auto simp: names_of_def filter_prefix_def item_parameter_def parameter_name_def)
    with scope_parameter_names(2) [OF tree] have "k \<notin> fst ` set (sq_parameters q)" by blast
    then have "k \<notin> fst ` set ?e" by force
    with w show ?thesis unfolding merge_parameters_def by (simp add: dict_update_absent)
  qed
qed

lemma filter_applied_mono:
  assumes "filter_applied obj allowed params f c" and "\<And>k v. dget params k = Some v \<Longrightarrow> dget params' k = Some v"
  shows "filter_applied obj allowed params' f c"
proof -
  have "map (dget params') ns = map Some vs" if "map (dget params) ns = map Some vs" for ns vs
    using that assms(2) by (metis (no_types, lifting) in_set_conv_nth length_map map_equality_iff nth_map)
  then have "binds params' pd f c" if "binds params pd f c" for pd
    using that assms(2) by (auto simp: binds_def split: condition.split_asm)
  with assms(1) show ?thesis by (auto simp: filter_applied_def)
qed

lemma compile_object_query_Inr:
  assumes "compile_object_query env registry auth object_type filters properties object_id limit = Inr c"
  obtains obj selected st params where
    "object_statement registry auth object_type filters properties object_id = Inr (obj, selected, st, params)"
    "guard_select env auth limit st = Inr (cq_scoped_query c)"
    "cq_parameters c = merge_parameters params (cq_scoped_query c)" "cq_columns c = selected"
  using assms by (auto simp: compile_object_query_def err_simps)

lemma object_statement_Inr:
  assumes "object_statement registry auth object_type filters properties object_id = Inr (obj, selected, st, params)"
  obtains exprs where "authorize_object registry object_type auth = Inr obj"
    "selected = selected_properties obj auth properties" "selected \<noteq> []"
    "list_all2 (\<lambda>name e. \<exists>p. authorize_property registry (od_name obj) name auth = Inr p \<and> e = Project_Column (pd_column p) name) selected exprs"
    "\<And>f. f \<in> set (object_filters obj filters object_id) \<Longrightarrow> \<exists>p. authorize_property registry (od_name obj) (sf_field f) auth = Inr p"
    "efold (apply_filter obj None) (select_from exprs (od_table obj), []) (enumerate 0 (object_filters obj filters object_id)) = Inr (st, params)"
proof -
  from assms obtain exprs us where
      1: "authorize_object registry object_type auth = Inr obj"
      and 2: "selected = selected_properties obj auth properties" "selected \<noteq> []"
      and 3: "emap (\<lambda>name. ebind (recast Semantic_Error (authorize_property registry (od_name obj) name auth)) (\<lambda>p. Inr (Project_Column (pd_column p) name))) selected = Inr exprs"
      and 4: "emap (\<lambda>f. recast Semantic_Error (authorize_property registry (od_name obj) (sf_field f) auth)) (object_filters obj filters object_id) = Inr us"
      and 5: "efold (apply_filter obj None) (select_from exprs (od_table obj), []) (enumerate 0 (object_filters obj filters object_id)) = Inr (st, params)"
    unfolding object_statement_def apply_filters_def Let_def
    by (auto simp: ebind_Inr_iff recast_Inr_iff if_Inl_Inr_iff)
  show thesis
  proof (rule that [OF 1 2 _ _ 5])
    show "list_all2 (\<lambda>name e. \<exists>p. authorize_property registry (od_name obj) name auth = Inr p \<and> e = Project_Column (pd_column p) name) selected exprs"
      using 3 unfolding emap_Inr_iff by (rule list_all2_mono) (auto simp: err_simps)
    show "\<exists>p. authorize_property registry (od_name obj) (sf_field f) auth = Inr p" if "f \<in> set (object_filters obj filters object_id)" for f
      using emap_unit_ok [OF 4 that] by (auto simp: err_simps)
  qed
qed

section \<open>Object queries\<close>

text \<open>A registry of devices whose costs only managers may see, over the tables of the SQL policies of before.\<close>

definition demo_property :: "string \<Rightarrow> string list \<Rightarrow> property_definition" where
  "demo_property name roles =
     \<lparr>pd_name = name, pd_column = name, pd_value_type = ''number'', pd_label = name, pd_unit = None, pd_sensitivity = ''internal'',
      pd_filterable = True, pd_aggregatable = True, pd_allowed_roles = roles\<rparr>"

definition demo_device :: object_definition where
  "demo_device =
     \<lparr>od_name = ''Device'', od_table = ''devices'', od_id_field = ''id'', od_label = ''Device'', od_keywords = [],
      od_properties = [(''id'', demo_property ''id'' []), (''power'', demo_property ''power'' []), (''cost'', demo_property ''cost'' [''manager''])],
      od_version = ''1'', od_allowed_roles = []\<rparr>"

definition demo_metric :: "string \<Rightarrow> string \<Rightarrow> string \<Rightarrow> metric_definition" where
  "demo_metric name aggregation field =
     \<lparr>md_name = name, md_label = name, md_object_type = ''Device'', md_aggregation = aggregation, md_field = Some field,
      md_dimensions = [''id''], md_filters = [''power''], md_unit = None, md_keywords = [], md_version = ''1'', md_grain = None,
      md_time_semantics = None, md_source_refs = [], md_allowed_roles = []\<rparr>"

definition demo_ontology :: ontology_registry where
  "demo_ontology =
     \<lparr>or_version = ''1'', or_policy_version = ''1'', or_mapping_version = ''1'', or_objects = [(''Device'', demo_device)], or_links = [],
      or_metrics = [(''load'', demo_metric ''load'' ''sum'' ''power''), (''peak'', demo_metric ''peak'' ''max'' ''power'')],
      or_actions = []\<rparr>"

definition demo_filter :: semantic_filter where
  "demo_filter = \<lparr>sf_field = ''power'', sf_operator = ''in'', sf_value = PList [PInt 1, PInt 2]\<rparr>"

text \<open>The tree of a statement. Printing a statement and parsing the text gives this tree back.\<close>

definition column_tree :: "string \<Rightarrow> sql" where
  "column_tree c = Node (Sql_Column '''' '''' c) []"

definition other_tree :: "string \<Rightarrow> sql list \<Rightarrow> sql" where
  "other_tree c ts = Node (Sql_Other c False None False) ts"

definition condition_tree :: "condition \<Rightarrow> sql" where
  "condition_tree c =
     (case c of
        Column_In column names \<Rightarrow> Node Sql_In (column_tree column # map (\<lambda>n. Node (Sql_Placeholder n) []) names)
      | Compare class column name \<Rightarrow> other_tree class [column_tree column, Node (Sql_Placeholder name) []])"

definition projection_tree :: "projection \<Rightarrow> sql" where
  "projection_tree p = other_tree ''Alias''
     [case p of
        Project_Column column _ \<Rightarrow> column_tree column
      | Project_Aggregate class column _ \<Rightarrow> Node (Sql_Other class False (Some (str_upper class)) True)
          [case column of None \<Rightarrow> Node Sql_Star [] | Some c \<Rightarrow> column_tree c]]"

definition table_tree :: "string \<Rightarrow> sql" where
  "table_tree t = (case rev (split_on CHR ''.'' t) of
     n # d # _ \<Rightarrow> Node (Sql_Table d n '''') [] | _ \<Rightarrow> Node (Sql_Table '''' t '''') [])"

definition statement_tree :: "select_statement \<Rightarrow> sql" where
  "statement_tree st =
     Node Sql_Select (map projection_tree (ss_projections st) @
       [Node Sql_From [table_tree (ss_table st)]] @
       (case map condition_tree (ss_conditions st) of [] \<Rightarrow> []
        | c # cs \<Rightarrow> [Node Sql_Where [foldl (\<lambda>a b. Node (Sql_Other ''And'' False (Some ''AND'') False) [a, b]) c cs]]) @
       (if ss_group_by st = [] then [] else [other_tree ''Group'' (map column_tree (ss_group_by st))]) @
       (if ss_order_by st = [] then [] else [other_tree ''Order'' (map (\<lambda>(f, _). other_tree ''Ordered'' [column_tree f]) (ss_order_by st))]))"

definition demo_env :: "select_statement \<Rightarrow> sql_environment" where
  "demo_env st = \<lparr>env_print = (\<lambda>_. ''q''), env_parse = (\<lambda>_. Some [statement_tree st]), env_add_limit = fill_slot,
     env_policies = demo_sql_registry, env_databases = []\<rparr>"

definition demo_object_statement :: "semantic_filter list \<Rightarrow> select_statement" where
  "demo_object_statement fs =
     (case object_statement demo_ontology demo_caller ''Device'' fs None (Some ''d7'') of Inl _ \<Rightarrow> select_from [] ''''
      | Inr (_, _, st, _) \<Rightarrow> st)"

definition demo_compile :: "semantic_filter list \<Rightarrow> string \<Rightarrow> query_error + compiled_semantic_query" where
  "demo_compile fs i =
     compile_object_query (demo_env (demo_object_statement [demo_filter])) demo_ontology demo_caller ''Device'' fs None (Some i) 10"

lemma demo_compiles: obtains c where "demo_compile [demo_filter] ''d7'' = Inr c"
proof -
  have "\<not> isl (demo_compile [demo_filter] ''d7'')" by code_simp
  then show thesis using that by (cases "demo_compile [demo_filter] ''d7''") auto
qed

text \<open>A compiled object query asks only for what the ontology grants the caller: the object, every column of the
  result and the field of every filter are authorized, and what is filtered on is filterable.\<close>

theorem compiled_object_authorized:
  assumes "compile_object_query env registry auth object_type filters properties object_id limit = Inr c"
  shows "\<exists>obj. authorize_object registry object_type auth = Inr obj \<and> cq_columns c \<noteq> [] \<and>
      (\<forall>ps. properties = Some ps \<longrightarrow> cq_columns c = ps) \<and>
      (\<forall>name\<in>set (cq_columns c). \<exists>p. authorize_property registry (od_name obj) name auth = Inr p) \<and>
      (\<forall>f\<in>set filters. (\<exists>p. authorize_property registry (od_name obj) (sf_field f) auth = Inr p) \<and>
         (\<exists>p. object_property obj (sf_field f) = Inr p \<and> pd_filterable p))"
proof -
  from assms obtain obj st params where st: "object_statement registry auth object_type filters properties object_id = Inr (obj, cq_columns c, st, params)"
    by (rule compile_object_query_Inr) auto
  then obtain exprs where obj: "authorize_object registry object_type auth = Inr obj"
      and sel: "cq_columns c = selected_properties obj auth properties" "cq_columns c \<noteq> []"
      and cols: "list_all2 (\<lambda>name e. \<exists>p. authorize_property registry (od_name obj) name auth = Inr p \<and> e = Project_Column (pd_column p) name) (cq_columns c) exprs"
      and fs: "\<And>f. f \<in> set (object_filters obj filters object_id) \<Longrightarrow> \<exists>p. authorize_property registry (od_name obj) (sf_field f) auth = Inr p"
      and ap: "efold (apply_filter obj None) (select_from exprs (od_table obj), []) (enumerate 0 (object_filters obj filters object_id)) = Inr (st, params)"
    by (rule object_statement_Inr) (rule that; assumption)
  from apply_filters_binds [OF ap] obtain cs where applied: "\<forall>i<length (object_filters obj filters object_id). filter_applied obj None params (object_filters obj filters object_id ! i) (cs ! i)"
    by auto
  have "(\<exists>p. authorize_property registry (od_name obj) (sf_field f) auth = Inr p) \<and> (\<exists>p. object_property obj (sf_field f) = Inr p \<and> pd_filterable p)"
    if "f \<in> set filters" for f
  proof -
    have "f \<in> set (object_filters obj filters object_id)" using that by (simp add: object_filters_def)
    with fs applied show ?thesis unfolding filter_applied_def by (metis in_set_conv_nth)
  qed
  moreover have "\<exists>p. authorize_property registry (od_name obj) name auth = Inr p" if "name \<in> set (cq_columns c)" for name
    using list_all2_left [OF cols that] by blast
  ultimately show ?thesis using obj sel by (auto simp: selected_properties_def)
qed

theorem compiled_object_authorized_witness:
  "isl (compile_object_query (demo_env (select_from [] ''devices'')) demo_ontology demo_caller ''Device'' [] (Some [''cost'']) None 10) \<and>
   (\<exists>c obj. demo_compile [demo_filter] ''d7'' = Inr c \<and> authorize_object demo_ontology ''Device'' demo_caller = Inr obj \<and> cq_columns c \<noteq> [] \<and>
     (\<exists>p. object_property obj ''power'' = Inr p \<and> pd_filterable p))"
proof
  show "isl (compile_object_query (demo_env (select_from [] ''devices'')) demo_ontology demo_caller ''Device'' [] (Some [''cost'']) None 10)"
    by code_simp
  obtain c where c: "demo_compile [demo_filter] ''d7'' = Inr c" by (rule demo_compiles)
  from compiled_object_authorized [OF c [unfolded demo_compile_def]] c
  show "\<exists>c obj. demo_compile [demo_filter] ''d7'' = Inr c \<and> authorize_object demo_ontology ''Device'' demo_caller = Inr obj \<and> cq_columns c \<noteq> [] \<and>
     (\<exists>p. object_property obj ''power'' = Inr p \<and> pd_filterable p)"
    by (auto simp: demo_filter_def)
qed

text \<open>The values of a compiled query are bound where they belong: the statement has one condition per filter, on the
  column of the filter's property, with the class of its operator and with parameters that the query binds to the
  filter's value (to the items of the value, at most 100, for \<^verbatim>\<open>in\<close>); and the query binds every
  parameter of the scope predicates to its own value.\<close>

theorem filter_values_bound:
  assumes "compile_object_query env registry auth object_type filters properties object_id limit = Inr c"
  shows "\<exists>obj st params. object_statement registry auth object_type filters properties object_id = Inr (obj, cq_columns c, st, params) \<and>
      length (ss_conditions st) = length (object_filters obj filters object_id) \<and>
      (\<forall>i<length (object_filters obj filters object_id).
         filter_applied obj None (cq_parameters c) (object_filters obj filters object_id ! i) (ss_conditions st ! i)) \<and>
      (\<forall>k v. dget (sq_parameters (cq_scoped_query c)) k = Some v \<longrightarrow> dget (cq_parameters c) k = Some (PStr v))"
proof -
  from assms obtain obj st params where st: "object_statement registry auth object_type filters properties object_id = Inr (obj, cq_columns c, st, params)"
      and guard: "guard_select env auth limit st = Inr (cq_scoped_query c)" and merged: "cq_parameters c = merge_parameters params (cq_scoped_query c)"
    by (rule compile_object_query_Inr) auto
  from st obtain exprs where
      "efold (apply_filter obj None) (select_from exprs (od_table obj), []) (enumerate 0 (object_filters obj filters object_id)) = Inr (st, params)"
    by (rule object_statement_Inr)
  from apply_filters_binds [OF this] obtain cs where cs: "ss_conditions st = cs" "length cs = length (object_filters obj filters object_id)"
      and applied: "\<forall>i<length (object_filters obj filters object_id). filter_applied obj None params (object_filters obj filters object_id ! i) (cs ! i)"
      and names: "fst ` set params \<subseteq> (\<Union>i. names_of i)"
    by (auto simp: select_from_def)
  note get = merge_parameters_get [OF guard names]
  show ?thesis
    using st cs applied filter_applied_mono [OF _ get(2)] get(1) unfolding merged by blast
qed

theorem filter_values_bound_witness:
  "\<exists>c obj st params. demo_compile [demo_filter] ''d7'' = Inr c \<and>
     object_statement demo_ontology demo_caller ''Device'' [demo_filter] None (Some ''d7'') = Inr (obj, cq_columns c, st, params) \<and>
     filter_applied obj None (cq_parameters c) demo_filter (ss_conditions st ! 0)"
proof -
  obtain c where c: "demo_compile [demo_filter] ''d7'' = Inr c" by (rule demo_compiles)
  from filter_values_bound [OF c [unfolded demo_compile_def]] obtain obj st params where
      st: "object_statement demo_ontology demo_caller ''Device'' [demo_filter] None (Some ''d7'') = Inr (obj, cq_columns c, st, params)"
      and all: "\<forall>i<length (object_filters obj [demo_filter] (Some ''d7'')).
         filter_applied obj None (cq_parameters c) (object_filters obj [demo_filter] (Some ''d7'') ! i) (ss_conditions st ! i)" by blast
  from all have "filter_applied obj None (cq_parameters c) demo_filter (ss_conditions st ! 0)" by (auto simp: object_filters_def)
  with c st show ?thesis by blast
qed

section \<open>Values never reach the text of a query\<close>

text \<open>Filters of the same shape: the same field and operator, and for \<^verbatim>\<open>in\<close> lists of the same length (or no lists).\<close>

definition same_shape :: "semantic_filter \<Rightarrow> semantic_filter \<Rightarrow> bool" where
  "same_shape f g \<longleftrightarrow> sf_field f = sf_field g \<and> sf_operator f = sf_operator g \<and>
     (sf_operator f = ''in'' \<longrightarrow> map_option length (list_of (sf_value f)) = map_option length (list_of (sf_value g)))"

lemma condition_for_shape:
  assumes "same_shape f g"
  shows "map_sum id fst (condition_for column (sf_operator f) pre (sf_value f)) =
    map_sum id fst (condition_for column (sf_operator g) pre (sf_value g))"
proof (cases "sf_operator f = ''in''")
  case False
  with assms show ?thesis by (auto simp: same_shape_def condition_for_def split: option.split)
next
  case True
  have names: "dkeys (map (\<lambda>(index, item). (item_parameter pre index, item)) (enumerate 0 vs)) = map (item_parameter pre) [0..<length vs]"
    for vs :: "pyval list"
    by (rule nth_equalityI) (auto simp: nth_enumerate_eq)
  define G where "G = case_option (Inl (Semantic_Error (OntologyError ''IN filter requires a non-empty list'')))
      (\<lambda>n. if n = 0 then Inl (Semantic_Error (OntologyError ''IN filter requires a non-empty list''))
         else if n > max_in_filter_values then Inl (Semantic_Error (OntologyError ''IN filter exceeds the semantic filter budget''))
         else Inr (Column_In column (map (item_parameter pre) [0..<n])))"
  have "map_sum id fst (condition_for column ''in'' pre v) = G (map_option length (list_of v))" for v
    unfolding condition_for_def Let_def names G_def by (auto simp del: upt_Suc split: option.split list.split)
  with True assms show ?thesis by (simp add: same_shape_def)
qed

lemma apply_filters_shape:
  "list_all2 same_shape fs gs \<Longrightarrow>
     map_sum id fst (efold (apply_filter obj allowed) (st, ps) (enumerate n fs)) =
     map_sum id fst (efold (apply_filter obj allowed) (st, qs) (enumerate n gs))"
proof (induction fs gs arbitrary: n st ps qs rule: list_all2_induct)
  case (Cons f fs g gs)
  note cond = condition_for_shape [OF Cons.hyps(1)]
  have shape: "sf_field g = sf_field f" using Cons.hyps(1) by (simp add: same_shape_def)
  show ?case
  proof (cases "object_property obj (sf_field f)")
    case (Inr p)
    show ?thesis
      using cond [of "pd_column p" "filter_prefix n"] Inr Cons.IH
      by (cases "condition_for (pd_column p) (sf_operator f) (filter_prefix n) (sf_value f)";
          cases "condition_for (pd_column p) (sf_operator g) (filter_prefix n) (sf_value g)")
        (auto simp: apply_filter_def shape split: option.split)
  qed (auto simp: apply_filter_def shape split: option.split)
qed simp

lemma ebind_map_sum:
  assumes "map_sum id fst r = map_sum id fst r'" and "\<And>st ps qs. map_sum id k (f (st, ps)) = map_sum id k (g (st, qs))"
  shows "map_sum id k (ebind r f) = map_sum id k (ebind r' g)"
  using assms by (cases r; cases r') (auto split: prod.splits)

lemma emap_field_cong: "list_all2 same_shape fs gs \<Longrightarrow> emap (\<lambda>f. h (sf_field f)) fs = emap (\<lambda>f. h (sf_field f)) gs"
  by (induction rule: list_all2_induct) (auto simp: same_shape_def)

lemma fields_cong: "list_all2 same_shape fs gs \<Longrightarrow> map sf_field fs = map sf_field gs"
  by (induction rule: list_all2_induct) (auto simp: same_shape_def)

lemma ebind_map_sum_cong:
  assumes "\<And>x. r = Inr x \<Longrightarrow> map_sum id k (f x) = map_sum id k (g x)"
  shows "map_sum id k (ebind r f) = map_sum id k (ebind r g)"
  using assms by (cases r) auto



section \<open>Metrics\<close>

lemma common_mem: "x \<in> set (common f ms) \<Longrightarrow> m \<in> set ms \<Longrightarrow> x \<in> set (f m)"
  by (auto simp: common_def list_all_iff split: list.split_asm)

lemma add_orders_fields: "add_orders ok os st = Inr st' \<Longrightarrow> so_field ` set os \<subseteq> set ok"
  unfolding add_orders_def by (induction os arbitrary: st) (auto simp: if_Inl_Inr_iff ebind_Inr_iff)

lemma authorized_metrics_Inr:
  assumes "authorized_metrics registry auth metric_ids = Inr (ids, metrics, obj)"
  shows "ids = from_keys (filter (\<lambda>i. i \<noteq> '''') (map str_strip metric_ids))" and "ids \<noteq> []" and "length ids \<le> 10"
    and "list_all2 (\<lambda>i m. authorize_metric registry i auth = Inr m) ids metrics"
    and "m \<in> set metrics \<Longrightarrow> md_object_type m = md_object_type (hd metrics)"
    and "registry_object registry (md_object_type (hd metrics)) = Inr obj"
proof -
  from assms have 1: "ids = from_keys (filter (\<lambda>i. i \<noteq> '''') (map str_strip metric_ids)) \<and> ids \<noteq> [] \<and> length ids \<le> 10"
    unfolding authorized_metrics_def Let_def if_Inl_Inr_iff ebind_Inr_iff recast_Inr_iff by auto
  from assms have 2: "emap (\<lambda>i. recast Semantic_Error (authorize_metric registry i auth)) ids = Inr metrics \<and>
      length (remdups (map md_object_type metrics)) = 1 \<and> registry_object registry (md_object_type (hd metrics)) = Inr obj"
    by (auto simp: authorized_metrics_def Let_def if_Inl_Inr_iff ebind_Inr_iff recast_Inr_iff)
  show "ids = from_keys (filter (\<lambda>i. i \<noteq> '''') (map str_strip metric_ids))" "ids \<noteq> []" "length ids \<le> 10"
    "registry_object registry (md_object_type (hd metrics)) = Inr obj"
    using 1 2 by blast+
  show all: "list_all2 (\<lambda>i m. authorize_metric registry i auth = Inr m) ids metrics"
    using conjunct1 [OF 2] unfolding emap_Inr_iff recast_Inr_iff .
  assume m: "m \<in> set metrics"
  from 2 obtain t where "remdups (map md_object_type metrics) = [t]" by (auto simp: length_Suc_conv)
  then have "set (map md_object_type metrics) = {t}" by (metis list.set(1) list.set(2) set_remdups)
  then have t: "md_object_type x = t" if "x \<in> set metrics" for x using that by auto
  moreover have "hd metrics \<in> set metrics" using m by (cases metrics) auto
  ultimately show "md_object_type m = md_object_type (hd metrics)" using t [OF m] by simp
qed

lemma metrics_statement_Inr:
  assumes "metrics_statement registry auth metric_ids dimensions filters order_by = Inr (ids, metrics, st, params)"
  obtains obj st' exprs groups where "authorized_metrics registry auth metric_ids = Inr (ids, metrics, obj)"
    "set dimensions \<subseteq> set (common md_dimensions metrics)"
    "\<And>name. name \<in> set dimensions \<or> name \<in> sf_field ` set filters \<Longrightarrow> \<exists>p. authorize_property registry (od_name obj) name auth = Inr p"
    "efold (apply_filter obj (Some (sorted_set (common md_filters metrics)))) (select_from exprs (od_table obj), []) (enumerate 0 filters) = Inr (st', params)"
    "add_orders (dimensions @ ids) order_by (st'\<lparr>ss_group_by := groups\<rparr>) = Inr st"
proof -
  from assms obtain obj us exprs exprs' st' groups where
      1: "authorized_metrics registry auth metric_ids = Inr (ids, metrics, obj)"
      and 2: "\<not> filter (\<lambda>d. d \<notin> set (common md_dimensions metrics)) dimensions \<noteq> []"
      and 3: "emap (\<lambda>name. recast Semantic_Error (authorize_property registry (od_name obj) name auth)) (dimensions @ map sf_field filters) = Inr us"
      and 4: "efold (apply_filter obj (Some (sorted_set (common md_filters metrics)))) (select_from (exprs @ exprs') (od_table obj), []) (enumerate 0 filters) = Inr (st', params)"
      and 5: "add_orders (dimensions @ ids) order_by (st'\<lparr>ss_group_by := groups\<rparr>) = Inr st"
    unfolding metrics_statement_def Let_def apply_filters_def
    by (auto simp: ebind_Inr_iff if_Inl_Inr_iff simp del: emap.simps map_append)
  show thesis
  proof (rule that [OF 1 _ _ 4 5])
    show "set dimensions \<subseteq> set (common md_dimensions metrics)" using 2 by (auto simp: filter_empty_conv)
    show "\<exists>p. authorize_property registry (od_name obj) name auth = Inr p" if "name \<in> set dimensions \<or> name \<in> sf_field ` set filters" for name
      using emap_unit_ok [OF 3, of name] that by (auto simp: recast_Inr_iff)
  qed
qed

text \<open>A compiled metrics query asks only for what the ontology grants the caller: one to ten different metrics, all
  authorized and of one object type, grouped and filtered only by what each of the metrics allows
  and the caller may see, and ordered only by columns of the result.\<close>

theorem compiled_metrics_authorized:
  assumes "compile_metrics_query env registry auth metric_ids dimensions filters order_by limit = Inr c"
  shows "\<exists>obj. cq_columns c = dimensions @ cq_semantic_ids c \<and> distinct (cq_semantic_ids c) \<and>
      set (cq_semantic_ids c) = str_strip ` set metric_ids - {''''} \<and> 1 \<le> length (cq_semantic_ids c) \<and> length (cq_semantic_ids c) \<le> 10 \<and>
      (\<forall>i\<in>set (cq_semantic_ids c). \<exists>m. authorize_metric registry i auth = Inr m \<and> registry_object registry (md_object_type m) = Inr obj \<and>
         set dimensions \<subseteq> set (md_dimensions m) \<and> sf_field ` set filters \<subseteq> set (md_filters m)) \<and>
      (\<forall>name\<in>set dimensions \<union> sf_field ` set filters. \<exists>p. authorize_property registry (od_name obj) name auth = Inr p) \<and>
      so_field ` set order_by \<subseteq> set (cq_columns c)"
proof -
  from assms obtain metrics st params where
      st: "metrics_statement registry auth metric_ids dimensions filters order_by = Inr (cq_semantic_ids c, metrics, st, params)"
      and cols: "cq_columns c = dimensions @ cq_semantic_ids c"
    by (auto simp: compile_metrics_query_def ebind_Inr_iff)
  from st obtain obj st' exprs groups where am: "authorized_metrics registry auth metric_ids = Inr (cq_semantic_ids c, metrics, obj)"
      and dims: "set dimensions \<subseteq> set (common md_dimensions metrics)"
      and auth: "\<And>name. name \<in> set dimensions \<or> name \<in> sf_field ` set filters \<Longrightarrow> \<exists>p. authorize_property registry (od_name obj) name auth = Inr p"
      and ap: "efold (apply_filter obj (Some (sorted_set (common md_filters metrics)))) (select_from exprs (od_table obj), []) (enumerate 0 filters) = Inr (st', params)"
      and ord: "add_orders (dimensions @ cq_semantic_ids c) order_by (st'\<lparr>ss_group_by := groups\<rparr>) = Inr st"
    by (rule metrics_statement_Inr) (rule that; assumption)
  note ms = authorized_metrics_Inr [OF am]
  have fs: "sf_field ` set filters \<subseteq> set (common md_filters metrics)"
    using apply_filters_binds [OF ap] by (auto simp: filter_applied_def sorted_set_def in_set_conv_nth)
  have each: "\<exists>m. authorize_metric registry i auth = Inr m \<and> registry_object registry (md_object_type m) = Inr obj \<and>
      set dimensions \<subseteq> set (md_dimensions m) \<and> sf_field ` set filters \<subseteq> set (md_filters m)" if "i \<in> set (cq_semantic_ids c)" for i
  proof -
    from list_all2_left [OF ms(4) that] obtain m where m: "m \<in> set metrics" "authorize_metric registry i auth = Inr m" by blast
    have "set dimensions \<subseteq> set (md_dimensions m)" using dims common_mem [OF _ m(1), of _ md_dimensions] by blast
    moreover have "sf_field ` set filters \<subseteq> set (md_filters m)" using fs common_mem [OF _ m(1), of _ md_filters] by blast
    ultimately show ?thesis using m ms(5) [OF m(1)] ms(6) by auto
  qed
  have "distinct (cq_semantic_ids c)" "set (cq_semantic_ids c) = str_strip ` set metric_ids - {''''}" unfolding ms(1) by auto
  moreover have "1 \<le> length (cq_semantic_ids c)" using ms(2) by (cases "cq_semantic_ids c") auto
  ultimately show ?thesis using cols ms(3) each auth add_orders_fields [OF ord] by (intro exI [of _ obj] conjI ballI) auto
qed

definition demo_metrics_statement :: select_statement where
  "demo_metrics_statement =
     (case metrics_statement demo_ontology demo_caller [''load'', ''peak''] [''id''] [demo_filter] [] of Inl _ \<Rightarrow> select_from [] ''''
      | Inr (_, _, st, _) \<Rightarrow> st)"

theorem compiled_metrics_authorized_witness:
  "\<exists>c. compile_metrics_query (demo_env demo_metrics_statement) demo_ontology demo_caller [''load'', '' peak'', ''load''] [''id''] [demo_filter] [] 10 = Inr c \<and>
     length (cq_semantic_ids c) \<le> 10 \<and> (\<exists>m. authorize_metric demo_ontology ''peak'' demo_caller = Inr m \<and> set [''id''] \<subseteq> set (md_dimensions m))"
proof -
  let ?r = "compile_metrics_query (demo_env demo_metrics_statement) demo_ontology demo_caller [''load'', '' peak'', ''load''] [''id''] [demo_filter] [] 10"
  have "\<not> isl ?r" by code_simp
  then obtain c where c: "?r = Inr c" by (cases ?r) auto
  have strip: "str_strip '' peak'' = ''peak''" by code_simp
  obtain obj where ids: "set (cq_semantic_ids c) = str_strip ` set [''load'', '' peak'', ''load''] - {''''}" and len: "length (cq_semantic_ids c) \<le> 10"
      and each: "\<forall>i\<in>set (cq_semantic_ids c). \<exists>m. authorize_metric demo_ontology i demo_caller = Inr m \<and> registry_object demo_ontology (md_object_type m) = Inr obj \<and>
        set [''id''] \<subseteq> set (md_dimensions m) \<and> sf_field ` set [demo_filter] \<subseteq> set (md_filters m)"
    using compiled_metrics_authorized [OF c] by (elim exE conjE) (rule that; assumption)
  have "''peak'' \<in> set (cq_semantic_ids c)" unfolding ids using strip by simp
  with each have "\<exists>m. authorize_metric demo_ontology ''peak'' demo_caller = Inr m \<and> set [''id''] \<subseteq> set (md_dimensions m)" by (metis (no_types, lifting))
  with c len show ?thesis by (intro exI [of _ c] conjI)
qed

section \<open>Confinement of compiled queries\<close>

lemma bare_tables_all: "bare_tables t \<longleftrightarrow> all_nodes (\<lambda>h cs. case h of Sql_Table _ _ _ \<Rightarrow> cs = [] | _ \<Rightarrow> True) t"
  unfolding bare_tables_def all_nodes_nodes(1) [of _ t "[]" "[]"] by (auto split: sql.split sql_head.split)

lemma statement_tree_bare: "bare_tables (statement_tree st)"
proof -
  let ?P = "\<lambda>h cs. case h of Sql_Table _ _ _ \<Rightarrow> cs = [] | _ \<Rightarrow> True"
  have columns: "all_nodes ?P (column_tree c)" for c by (simp add: column_tree_def)
  have others: "all_nodes ?P (other_tree c ts) \<longleftrightarrow> (\<forall>t\<in>set ts. all_nodes ?P t)" for c ts by (simp add: other_tree_def)
  have conds: "all_nodes ?P (condition_tree c)" for c by (cases c) (auto simp: condition_tree_def others columns)
  have projs: "all_nodes ?P (projection_tree p)" for p
    by (cases p) (auto simp: projection_tree_def others columns split: option.split)
  have tables: "all_nodes ?P (table_tree t)" for t by (auto simp: table_tree_def split: list.split)
  have ands: "all_nodes ?P (foldl (\<lambda>a b. Node (Sql_Other ''And'' False (Some ''AND'') False) [a, b]) c cs)"
    if "all_nodes ?P c" "\<forall>x\<in>set cs. all_nodes ?P x" for c cs
    using that by (induction cs arbitrary: c) auto
  have wheres: "\<forall>x\<in>set (map condition_tree (ss_conditions st)). all_nodes ?P x" using conds by simp
  have "all_nodes ?P (statement_tree st)"
    using wheres unfolding statement_tree_def
    by (auto simp: projs tables others columns intro!: ands split: list.split_asm)
  then show ?thesis by (simp add: bare_tables_all)
qed

text \<open>The texts among the parameters of a compiled query.\<close>

definition text_parameters :: "(string, pyval) dict \<Rightarrow> (string, string) dict" where
  "text_parameters ps = List.map_filter (\<lambda>(k, v). case v of PStr s \<Rightarrow> Some (k, s) | _ \<Rightarrow> None) ps"

lemma text_parameters_get: "dget ps k = Some (PStr s) \<Longrightarrow> dget (text_parameters ps) k = Some s"
  by (induction ps) (auto simp: text_parameters_def map_filter_simps split: pyval.split if_split_asm)

lemma guard_select_confined:
  assumes "guard_select env auth limit st = Inr q" and "env_parse env (env_print env st) = Some [statement_tree st]"
    and "limits_query (env_add_limit env)" and "fst ` set params \<subseteq> (\<Union>i. names_of i)"
    and "selects_in sem source (text_parameters (merge_parameters params q))" and "same_view (env_policies env) auth D D'"
  shows "eval sem source (cte_names (walk_statement (statement_tree st))) D (sq_statement q) =
    eval sem source (cte_names (walk_statement (statement_tree st))) D' (sq_statement q)"
proof -
  from assms(1) have "guard_sql_query (env_parse env) (env_add_limit env) (env_policies env) auth (env_databases env) limit (env_print env st) = Inr q"
    by (rule guard_select_Inr)
  from guarded_confined [OF assms(2) this assms(3) statement_tree_bare assms(5) _ assms(6)] merge_parameters_get(1) [OF assms(1,4)]
  show ?thesis by (blast intro: text_parameters_get)
qed

lemma metrics_parameter_names:
  assumes "metrics_statement registry auth metric_ids dimensions filters order_by = Inr (ids, ms, st, params)"
  shows "fst ` set params \<subseteq> (\<Union>i. names_of i)"
proof -
  from assms obtain obj st' exprs where
      "efold (apply_filter obj (Some (sorted_set (common md_filters ms)))) (select_from exprs (od_table obj), []) (enumerate 0 filters) = Inr (st', params)"
    by (rule metrics_statement_Inr)
  from apply_filters_binds [OF this] show ?thesis by auto
qed

text \<open>C9. The answer to a compiled metrics query depends on no data outside the caller's scope: with the parameters the
  query binds, it is the same in any two databases that agree on what the caller may see. Printing and parsing is assumed to
  give back the tree of the statement.\<close>

theorem compiled_metrics_confined:
  assumes "compile_metrics_query env registry auth metric_ids dimensions filters order_by limit = Inr c"
    and "metrics_statement registry auth metric_ids dimensions filters order_by = Inr (ids, ms, st, params)"
    and "env_parse env (env_print env st) = Some [statement_tree st]"
    and "limits_query (env_add_limit env)"
    and "selects_in sem source (text_parameters (cq_parameters c))" and "same_view (env_policies env) auth D D'"
  shows "eval sem source (cte_names (walk_statement (statement_tree st))) D (sq_statement (cq_scoped_query c)) =
    eval sem source (cte_names (walk_statement (statement_tree st))) D' (sq_statement (cq_scoped_query c))"
proof -
  from assms(1,2) have "guard_select env auth limit st = Inr (cq_scoped_query c)" "cq_parameters c = merge_parameters params (cq_scoped_query c)"
    by (auto simp: compile_metrics_query_def ebind_Inr_iff)
  with guard_select_confined [OF _ assms(3,4) metrics_parameter_names [OF assms(2)] _ assms(6)] assms(5) show ?thesis by metis
qed

theorem compiled_metrics_confined_witness:
  "\<exists>c ids ms params. metrics_statement demo_ontology demo_caller [''load'', ''peak''] [''id''] [demo_filter] [] = Inr (ids, ms, demo_metrics_statement, params) \<and>
     compile_metrics_query (demo_env demo_metrics_statement) demo_ontology demo_caller [''load'', ''peak''] [''id''] [demo_filter] [] 10 = Inr c \<and>
     (let ev = eval (demo_sem (text_parameters (cq_parameters c))) demo_source (cte_names (walk_statement (statement_tree demo_metrics_statement)))
      in ev (demo_database ''1'') (sq_statement (cq_scoped_query c)) = ev (demo_database ''2'') (sq_statement (cq_scoped_query c)))"
proof -
  let ?m = "metrics_statement demo_ontology demo_caller [''load'', ''peak''] [''id''] [demo_filter] []"
  let ?r = "compile_metrics_query (demo_env demo_metrics_statement) demo_ontology demo_caller [''load'', ''peak''] [''id''] [demo_filter] [] 10"
  have "\<not> isl ?r" by code_simp
  then obtain c where c: "?r = Inr c" by (cases ?r) auto
  then obtain ids ms st params where "?m = Inr (ids, ms, st, params)" by (auto simp: compile_metrics_query_def ebind_Inr_iff)
  then have m: "?m = Inr (ids, ms, demo_metrics_statement, params)" by (simp add: demo_metrics_statement_def)
  have "same_view (env_policies (demo_env demo_metrics_statement)) demo_caller (demo_database ''1'') (demo_database ''2'')"
    using demo_same_view by (simp add: demo_env_def)
  from compiled_metrics_confined [OF c m _ _ demo_engine this] fill_slot_limits
  have "eval (demo_sem (text_parameters (cq_parameters c))) demo_source (cte_names (walk_statement (statement_tree demo_metrics_statement)))
      (demo_database ''1'') (sq_statement (cq_scoped_query c)) =
    eval (demo_sem (text_parameters (cq_parameters c))) demo_source (cte_names (walk_statement (statement_tree demo_metrics_statement)))
      (demo_database ''2'') (sq_statement (cq_scoped_query c))" by (simp add: demo_env_def)
  with c m show ?thesis unfolding Let_def by blast
qed

section \<open>Ordering by a metric\<close>

text \<open>The guard checks the name of a metric in \<^verbatim>\<open>ORDER BY\<close> as if it were a column, so a policy that lists the allowed
  fields of a table refuses every query ordered by a metric.\<close>

definition listed_policies :: sql_scope_policy_registry where
  "listed_policies = \<lparr>sr_version = ''v1'', sr_tables = [(''devices'',
     \<lparr>tp_access = ''reference'', tp_scope_dimension = None, tp_scope_column = None, tp_allowed_fields = Some [''id'', ''power''],
      tp_hidden_fields = [], tp_masked_fields = [], tp_aggregate_only_fields = []\<rparr>)]\<rparr>"

definition ordered_load :: "semantic_order list \<Rightarrow> query_error + compiled_semantic_query" where
  "ordered_load os =
     (case metrics_statement demo_ontology demo_caller [''load''] [''id''] [] os of
        Inl e \<Rightarrow> Inl e
      | Inr (_, _, st, _) \<Rightarrow>
          compile_metrics_query ((demo_env st)\<lparr>env_policies := listed_policies\<rparr>) demo_ontology demo_caller [''load''] [''id''] [] os 10)"

theorem metric_order_refused:
  "\<not> isl (ordered_load []) \<and> \<not> isl (ordered_load [\<lparr>so_field = ''id'', so_direction = ''asc''\<rparr>]) \<and>
   isl (ordered_load [\<lparr>so_field = ''load'', so_direction = ''desc''\<rparr>])"
  by (intro conjI; code_simp)

end
