(* ===== verification/Api_Confinement.thy ===== *)
theory Api_Confinement
  imports Api_Properties Semantic_Query_Properties "HOL-Library.Countable"
begin

text \<open>
  Confinement of the service: what a caller is answered, and what is written down, depends on no data outside the scope of that caller in
  the data source of the caller's own tenant. The database behind \<open>rt_run\<close> is any that evaluates the statements it is given.
\<close>

section \<open>Statements without CTEs\<close>

definition no_cte :: "sql \<Rightarrow> bool" where
  "no_cte t = all_nodes (\<lambda>h cs. case h of Sql_CTE _ \<Rightarrow> False | _ \<Rightarrow> True) t"

lemma no_cte_Node: "no_cte (Node h cs) \<longleftrightarrow> (\<forall>a. h \<noteq> Sql_CTE a) \<and> (\<forall>c\<in>set cs. no_cte c)"
  by (auto simp: no_cte_def split: sql_head.split)

lemma no_cte_names: "no_cte t \<Longrightarrow> cte_names (walk_statement t) = []"
proof -
  assume "no_cte t"
  then have "\<forall>(q, a, n)\<in>set (walk_statement t). case n of Node h cs \<Rightarrow> case h of Sql_CTE _ \<Rightarrow> False | _ \<Rightarrow> True"
    unfolding no_cte_def all_nodes_nodes(1) [of _ t "[]" "[]"] set_walk_statement .
  then have "(case v of (_, _, Node (Sql_CTE a) _) \<Rightarrow> Some (str_lower a) | _ \<Rightarrow> None) = None" if "v \<in> set (walk_statement t)" for v
    using that by (fastforce split: sql.split sql_head.split prod.split)
  then show ?thesis unfolding cte_names_def List.map_filter_def by (auto simp: filter_empty_conv)
qed

lemma no_cte_rewrite:
  "no_cte t \<Longrightarrow> no_cte (rewrite predicate p t)"
  "\<forall>c\<in>set cs. no_cte c \<Longrightarrow> \<forall>c\<in>set (rewrite_list predicate p i cs). no_cte c"
proof (induction predicate p t and predicate p i cs rule: rewrite_rewrite_list.induct)
  case (1 predicate p h cs)
  then show ?case by (auto simp: no_cte_Node scoped_source_def split: sql_head.split option.split)
qed auto

lemma no_cte_cap: "no_cte t \<Longrightarrow> no_cte (cap_limits bound t)"
proof (induction bound t rule: cap_limits.induct)
  case (1 bound h cs)
  then have "\<forall>c\<in>set (map (cap_limits bound) cs). no_cte c" by (simp add: no_cte_Node)
  then have "\<forall>c\<in>set (cap bound h (map (cap_limits bound) cs)). no_cte c"
    by (cases cs) (auto simp: cap_def no_cte_Node split: option.split)
  with 1 show ?case by (simp add: no_cte_Node)
qed

lemma no_cte_add_limit: "limits_query add_limit \<Longrightarrow> is_query h \<Longrightarrow> no_cte (Node h cs) \<Longrightarrow> no_cte (add_limit (Node h cs) n)"
  by (rule add_limit_cases [of add_limit h cs n]) (auto simp: no_cte_Node limit_node_def)

lemma no_cte_guarded:
  assumes "guard_sql_query parse add_limit registry auth dbs limit query = Inr q" and "parse query = Some [t]" and "limits_query add_limit" and "no_cte t"
  shows "no_cte (sq_statement q)"
proof -
  from guard_sql_query_Inr [OF assms(1)] assms(2) obtain h cs where t: "t = Node h cs" and query: "is_query h"
    and ok: "guard_statement add_limit registry auth dbs limit t = Inr q" by auto
  obtain sps where final: "sq_statement q = (let capped = cap_limits (bound_limit limit) (scope_statement sps t)
        in if has_limit capped then capped else add_limit capped (bound_limit limit))"
    using ok by (rule guard_statement_Inr) (rule that; assumption)
  let ?capped = "cap_limits (bound_limit limit) (scope_statement sps t)"
  have "no_cte ?capped" unfolding scope_statement_def by (intro no_cte_cap no_cte_rewrite(1) assms(4))
  moreover obtain ts where "?capped = Node h ts" using query
    by (cases h) (auto simp: scope_statement_def t is_query_def)
  ultimately show ?thesis unfolding final Let_def using no_cte_add_limit [OF assms(3) query] by auto
qed

lemma statement_tree_no_cte: "no_cte (statement_tree st)"
proof -
  have columns: "no_cte (column_tree c)" for c by (simp add: column_tree_def no_cte_Node)
  have others: "no_cte (other_tree c ts) \<longleftrightarrow> (\<forall>t\<in>set ts. no_cte t)" for c ts by (simp add: other_tree_def no_cte_Node)
  have conds: "no_cte (condition_tree c)" for c by (cases c) (auto simp: condition_tree_def others columns no_cte_Node)
  have projs: "no_cte (projection_tree p)" for p
    by (cases p) (auto simp: projection_tree_def others columns no_cte_Node split: option.split)
  have tables: "no_cte (table_tree t)" for t by (auto simp: table_tree_def no_cte_Node split: list.split)
  have ands: "no_cte (foldl (\<lambda>a b. Node (Sql_Other ''And'' False (Some ''AND'') False) [a, b]) c cs)"
    if "no_cte c" "\<forall>x\<in>set cs. no_cte x" for c cs
    using that by (induction cs arbitrary: c) (auto simp: no_cte_Node)
  have "\<forall>x\<in>set (map condition_tree (ss_conditions st)). no_cte x" using conds by simp
  then show ?thesis unfolding statement_tree_def
    by (auto simp: no_cte_Node projs tables others columns intro!: ands split: list.split_asm)
qed

section \<open>The database and the service\<close>

text \<open>A database server that evaluates the statements it is given on the data at the address, with the bound parameters; its errors may depend on what
  it computed.\<close>

definition evaluates ::
  "(sql \<Rightarrow> string) \<Rightarrow> ((string, pyval) dict \<Rightarrow> sql_head \<Rightarrow> 'v list \<Rightarrow> 'v) \<Rightarrow> (string \<Rightarrow> row list \<Rightarrow> 'v list \<Rightarrow> 'v) \<Rightarrow> ('v \<Rightarrow> string + sql_result)
     \<Rightarrow> (string \<Rightarrow> database) \<Rightarrow> (string \<Rightarrow> string \<Rightarrow> (string, pyval) dict \<Rightarrow> string + sql_result) \<Rightarrow> bool" where
  "evaluates print sem source encode data run \<longleftrightarrow>
     (\<forall>uri t params. no_cte t \<longrightarrow> run uri (print t) params = encode (eval (sem params) source [] (data uri) t))"

text \<open>What is relied on of the SQL library: a printed statement that parses gives its tree back, and a limit limits.\<close>

definition reads_back :: "semantic_runtime \<Rightarrow> bool" where
  "reads_back rt \<longleftrightarrow> limits_query (rt_add_limit rt) \<and> (\<forall>st ts. rt_parse rt (rt_print rt st) = Some ts \<longrightarrow> ts = [statement_tree st])"

definition with_run :: "api_environment \<Rightarrow> (string \<Rightarrow> string \<Rightarrow> (string, pyval) dict \<Rightarrow> string + sql_result) \<Rightarrow> api_environment" where
  "with_run ap run = ap\<lparr>ap_runtime := (ap_runtime ap)\<lparr>rt_run := run\<rparr>\<rparr>"

text \<open>The data at the address of the tenant of an authorization looks the same under it.\<close>

definition own_view :: "semantic_runtime \<Rightarrow> authorization_context \<Rightarrow> (string \<Rightarrow> database) \<Rightarrow> (string \<Rightarrow> database) \<Rightarrow> bool" where
  "own_view rt auth data data' \<longleftrightarrow>
     (\<forall>ds uri. rt_datasource_resolver rt (authorization_tenant_context auth) = Inr ds \<longrightarrow> build_tenant_mysql_uri ds None = Inr uri \<longrightarrow>
        same_view (rt_sql_policy rt) auth (data uri) (data' uri))"

text \<open>Two servers give the runtime the same answers.\<close>

definition same_answers ::
  "semantic_runtime \<Rightarrow> authorization_context \<Rightarrow> (string \<Rightarrow> string \<Rightarrow> (string, pyval) dict \<Rightarrow> string + sql_result)
     \<Rightarrow> (string \<Rightarrow> string \<Rightarrow> (string, pyval) dict \<Rightarrow> string + sql_result) \<Rightarrow> bool" where
  "same_answers rt auth run run' \<longleftrightarrow>
     (\<forall>ds uri limit st q (params :: (string, pyval) dict). rt_datasource_resolver rt (authorization_tenant_context auth) = Inr ds \<longrightarrow> build_tenant_mysql_uri ds None = Inr uri \<longrightarrow>
        guard_select (runtime_environment rt ds) auth limit st = Inr q \<longrightarrow> fst ` set params \<subseteq> (\<Union>i. names_of i) \<longrightarrow>
        run uri (rt_print_tree rt (sq_statement q)) (merge_parameters params q) = run' uri (rt_print_tree rt (sq_statement q)) (merge_parameters params q))"

lemma servers_same_answers:
  assumes "reads_back rt" and "\<And>params. selects_in (sem params) source (text_parameters params)"
    and "evaluates (rt_print_tree rt) sem source encode data run" and "evaluates (rt_print_tree rt) sem source encode data' run'"
    and "own_view rt auth data data'"
  shows "same_answers rt auth run run'"
  unfolding same_answers_def
proof (intro allI impI)
  fix ds uri limit st q and params :: "(string, pyval) dict"
  assume ds: "rt_datasource_resolver rt (authorization_tenant_context auth) = Inr ds" and uri: "build_tenant_mysql_uri ds None = Inr uri"
    and q: "guard_select (runtime_environment rt ds) auth limit st = Inr q" and names: "fst ` set params \<subseteq> (\<Union>i. names_of i)"
  let ?env = "runtime_environment rt ds"
  let ?params = "merge_parameters params q"
  obtain tree where parsed: "env_parse ?env (env_print ?env st) = Some [tree]" using q by (rule guard_select_Inr)
  have lim: "limits_query (env_add_limit ?env)" and tree: "tree = statement_tree st"
    using assms(1) parsed by (auto simp: reads_back_def runtime_environment_def)
  have view: "same_view (env_policies ?env) auth (data uri) (data' uri)" using assms(5) ds uri by (simp add: own_view_def runtime_environment_def)
  have "eval (sem ?params) source [] (data uri) (sq_statement q) = eval (sem ?params) source [] (data' uri) (sq_statement q)"
    using guard_select_confined [OF q parsed [unfolded tree] lim names assms(2) view] no_cte_names [OF statement_tree_no_cte [of st]] by simp
  moreover have "no_cte (sq_statement q)"
    using q parsed lim statement_tree_no_cte [of st] unfolding tree by (auto elim!: guard_select_Inr intro: no_cte_guarded)
  ultimately show "run uri (rt_print_tree rt (sq_statement q)) ?params = run' uri (rt_print_tree rt (sq_statement q)) ?params"
    using assms(3,4) by (simp add: evaluates_def)
qed

lemma runtime_environment_run [simp]: "runtime_environment (rt\<lparr>rt_run := run\<rparr>) = runtime_environment rt"
  by (simp add: runtime_environment_def fun_eq_iff)

lemma execute_same:
  assumes "same_answers rt auth run run'" and "runtime_datasource rt auth = Inr ds"
    and "guard_select (runtime_environment rt ds) auth limit st = Inr (cq_scoped_query c)"
    and "cq_parameters c = merge_parameters params (cq_scoped_query c)" and "fst ` set params \<subseteq> (\<Union>i. names_of i)"
  shows "execute_compiled (rt\<lparr>rt_run := run\<rparr>) now c ds n = execute_compiled (rt\<lparr>rt_run := run'\<rparr>) now c ds n"
proof -
  have ds: "rt_datasource_resolver rt (authorization_tenant_context auth) = Inr ds" using assms(2) by (simp add: runtime_datasource_def recast_Inr_iff)
  show ?thesis unfolding execute_compiled_def
    by (rule ebind_cong [OF refl], rule ebind_cong)
      (use assms(1,3,4,5) ds in \<open>auto simp: same_answers_def recast_Inr_iff\<close>)
qed

lemma object_parameter_names:
  assumes "object_statement registry auth object_type filters properties object_id = Inr (obj, selected, st, params)"
  shows "fst ` set params \<subseteq> (\<Union>i. names_of i)"
proof -
  from assms obtain exprs where
      "efold (apply_filter obj None) (select_from exprs (od_table obj), []) (enumerate 0 (object_filters obj filters object_id)) = Inr (st, params)"
    by (rule object_statement_Inr)
  from apply_filters_binds [OF this] show ?thesis by auto
qed

lemma object_query_same:
  assumes "same_answers rt auth run run'" and "runtime_datasource rt auth = Inr ds"
    and "compile_object_query (runtime_environment rt ds) (rt_ontology rt) auth object_type filters properties object_id limit = Inr c"
  shows "execute_compiled (rt\<lparr>rt_run := run\<rparr>) now c ds n = execute_compiled (rt\<lparr>rt_run := run'\<rparr>) now c ds n"
  using assms(3) by (rule compile_object_query_Inr) (rule execute_same [OF assms(1,2)], assumption+, rule object_parameter_names)

lemma metrics_query_same:
  assumes "same_answers rt auth run run'" and "runtime_datasource rt auth = Inr ds"
    and "compile_metrics_query (runtime_environment rt ds) (rt_ontology rt) auth metric_ids dimensions filters order_by limit = Inr c"
  shows "execute_compiled (rt\<lparr>rt_run := run\<rparr>) now c ds n = execute_compiled (rt\<lparr>rt_run := run'\<rparr>) now c ds n"
proof -
  from assms(3) obtain ids ms st params where
      m: "metrics_statement (rt_ontology rt) auth metric_ids dimensions filters order_by = Inr (ids, ms, st, params)"
      and g: "guard_select (runtime_environment rt ds) auth limit st = Inr (cq_scoped_query c)"
      and p: "cq_parameters c = merge_parameters params (cq_scoped_query c)"
    by (auto simp: compile_metrics_query_def ebind_Inr_iff)
  show ?thesis by (rule execute_same [OF assms(1,2) g p metrics_parameter_names [OF m]])
qed

lemma runtime_datasource_run [simp]: "runtime_datasource (rt\<lparr>rt_run := run\<rparr>) = runtime_datasource rt"
  by (simp add: runtime_datasource_def fun_eq_iff)

lemma runtime_same:
  assumes "same_answers rt auth run run'"
  shows "search_objects (rt\<lparr>rt_run := run\<rparr>) now auth = search_objects (rt\<lparr>rt_run := run'\<rparr>) now auth"
    and "get_object (rt\<lparr>rt_run := run\<rparr>) now auth = get_object (rt\<lparr>rt_run := run'\<rparr>) now auth"
    and "query_metrics (rt\<lparr>rt_run := run\<rparr>) now auth = query_metrics (rt\<lparr>rt_run := run'\<rparr>) now auth"
  by (intro ext; simp add: search_objects_def get_object_def query_metrics_def; intro ebind_cong refl;
      simp add: recast_Inr_iff object_query_same [OF assms] metrics_query_same [OF assms])+

lemma context_same:
  assumes "same_answers rt auth run run'"
  shows "resolve_business_context (rt\<lparr>rt_run := run\<rparr>) now auth = resolve_business_context (rt\<lparr>rt_run := run'\<rparr>) now auth"
  by (intro ext) (simp add: resolve_business_context_def runtime_same(1) [OF assms] cong: if_cong)

lemma with_run_simps [simp]:
  "ap_runtime (with_run ap run) = (ap_runtime ap)\<lparr>rt_run := run\<rparr>" "ap_sha256 (with_run ap run) = ap_sha256 ap"
  "ap_jwt_decode (with_run ap run) = ap_jwt_decode ap" "ap_env (with_run ap run) = ap_env ap" "ap_scope_resolver (with_run ap run) = ap_scope_resolver ap"
  "ap_settings (with_run ap run) = ap_settings ap" "ap_evals_evidence_enabled (with_run ap run) = ap_evals_evidence_enabled ap"
  "ap_recall (with_run ap run) = ap_recall ap" "ap_isoformat (with_run ap run) = ap_isoformat ap"
  "admitted (with_run ap run) = admitted ap"
  by (simp_all add: with_run_def admitted_def fun_eq_iff)

lemma handle_same:
  assumes "same_answers (ap_runtime ap) auth run run'"
  shows "handle (with_run ap run) call auth rc request st = handle (with_run ap run') call auth rc request st"
  by (cases request) (simp_all add: handler_defs get_semantic_trace_evidence_def get_action_evidence_def resolve_with_recall_def
      runtime_same [OF assms] context_same [OF assms] cong: if_cong option.case_cong sum.case_cong list.case_cong)


section \<open>A server\<close>

text \<open>Trees have numbers, so that a tree can be sent as the text of its number and read back.\<close>

instance sql_head :: countable
  by countable_datatype

instance sql :: countable
  by countable_datatype

definition tree_text :: "sql \<Rightarrow> string" where "tree_text t = nat_str (to_nat t)"

definition text_tree :: "string \<Rightarrow> sql" where "text_tree s = from_nat (the (digits_value 0 s))"

lemma text_tree_text [simp]: "text_tree (tree_text t) = t"
  by (simp add: text_tree_def tree_text_def digits_value_nat_str)

definition server_values :: "demo_value \<Rightarrow> string + sql_result" where
  "server_values v = (case v of Tuple vs \<Rightarrow> Inr (Result_List (map (\<lambda>_. Result_Value (PDict [])) vs)) | _ \<Rightarrow> Inl ''not a result'')"

definition server_run :: "(string \<Rightarrow> database) \<Rightarrow> string \<Rightarrow> string \<Rightarrow> (string, pyval) dict \<Rightarrow> string + sql_result" where
  "server_run data uri s params = server_values (eval (demo_sem (text_parameters params)) demo_source [] (data uri) (text_tree s))"

definition server_api :: api_environment where
  "server_api = demo_api\<lparr>ap_runtime := api_runtime\<lparr>rt_ontology := demo_ontology, rt_print := \<lambda>st. tree_text (statement_tree st),
     rt_print_tree := tree_text, rt_parse := \<lambda>s. Some [text_tree s]\<rparr>\<rparr>"

text \<open>The tenant's devices in scope are the same; devices elsewhere, other tables and other tenants' databases differ.\<close>

definition server_data :: "string \<Rightarrow> string \<Rightarrow> database" where
  "server_data v uri = (\<lambda>db name.
     if Inr uri = build_tenant_mysql_uri (projr (rt_datasource_resolver api_runtime (authorization_tenant_context demo_admin))) None \<and> str_lower name = ''devices''
     then [(\<lambda>_. ''site-a''), (\<lambda>c. if c = ''site_id'' then ''site-z'' else v)]
     else if str_lower name = ''regions'' then [] else [(\<lambda>_. v)])"

lemma server_fields [simp]:
  "admitted server_api = admitted demo_api" "ap_isoformat server_api = int_str" "rt_ontology (ap_runtime server_api) = demo_ontology"
  "rt_print (ap_runtime server_api) st = tree_text (statement_tree st)" "rt_print_tree (ap_runtime server_api) = tree_text"
  "rt_parse (ap_runtime server_api) s = Some [text_tree s]" "rt_add_limit (ap_runtime server_api) = fill_slot"
  "rt_sql_policy (ap_runtime server_api) = demo_sql_registry"
  "rt_datasource_resolver (ap_runtime server_api) = rt_datasource_resolver api_runtime"
  by (simp_all add: server_api_def admitted_def fun_eq_iff api_runtime_def)

lemma server_reads_back: "reads_back (ap_runtime server_api)"
  using fill_slot_limits by (simp add: reads_back_def)

lemma server_evaluates: "evaluates (rt_print_tree (ap_runtime server_api)) (\<lambda>params. demo_sem (text_parameters params)) demo_source server_values data (server_run data)"
  by (simp add: evaluates_def server_run_def)

lemma server_caller: "admitted server_api (demo_call now i available) auth rc \<Longrightarrow> auth = demo_admin"
  using demo_admitted [of now i available] by (simp add: admitted_def)

lemma lower_char_idem [simp]: "lower_char (lower_char c) = lower_char c"
proof (cases "is_upper_char c \<or> in_range 192 222 c \<and> char_code c \<noteq> 215")
  case True
  then have "char_code (char_of (char_code c + 32) :: char) = char_code c + 32"
    by (auto simp: is_upper_char_def in_range_def char_code_def)
  with True show ?thesis by (auto simp: lower_char_def is_upper_char_def in_range_def)
next
  case False
  then have "lower_char c = c" unfolding lower_char_def by (rule if_not_P)
  then show ?thesis by simp
qed

lemma str_lower_idem [simp]: "str_lower (str_lower s) = str_lower s"
  by (simp add: str_lower_def)

lemma server_view: "same_view demo_sql_registry demo_admin (server_data ''1'' uri) (server_data ''2'' uri)"
  if "build_tenant_mysql_uri (projr (rt_datasource_resolver api_runtime (authorization_tenant_context demo_admin))) None = Inr uri"
proof -
  have devices: "policy_for demo_sql_registry ''devices'' = Inr (demo_policy ''scoped'' (Some ''site_id''))" by code_simp
  have needs: "needs_scope demo_admin (demo_policy ''scoped'' (Some ''site_id''))" by code_simp
  have ids: "scope_values demo_admin ''site'' = Inr [''site-a'', ''site-b'']" by code_simp
  have other: "str_lower n = ''regions''" if "policy_for demo_sql_registry (str_lower n) = Inr policy" "str_lower n \<noteq> ''devices''" for n policy
    using that by (auto simp: policy_for_def demo_sql_registry_def demo_policy_def split: if_split_asm)
  have "(if needs_scope demo_admin policy
      then \<forall>d c ids. tp_scope_dimension policy = Some d \<longrightarrow> tp_scope_column policy = Some c \<longrightarrow> scope_values demo_admin d = Inr ids \<longrightarrow>
        filter (\<lambda>r. r c \<in> set ids) (server_data ''1'' uri db name) = filter (\<lambda>r. r c \<in> set ids) (server_data ''2'' uri db name)
      else server_data ''1'' uri db name = server_data ''2'' uri db name)" if policy: "policy_for demo_sql_registry (str_lower name) = Inr policy" for db name policy
  proof (cases "str_lower name = ''devices''")
    case True
    with policy devices have "policy = demo_policy ''scoped'' (Some ''site_id'')" by simp
    with needs ids True \<open>_ = Inr uri\<close> show ?thesis by (simp add: demo_policy_def server_data_def)
  next
    case False
    with other [OF policy] show ?thesis by (simp add: server_data_def)
  qed
  then show ?thesis unfolding same_view_def by blast
qed

definition server_statement :: select_statement where
  "server_statement = (case object_statement demo_ontology demo_admin ''Device'' [] None None of Inl _ \<Rightarrow> select_from [] [] | Inr (_, _, st, _) \<Rightarrow> st)"

definition server_guard :: "sql_scope_error + scoped_query" where
  "server_guard = guard_sql_query (\<lambda>_. Some [statement_tree server_statement]) fill_slot demo_sql_registry demo_admin [''ops''] 5 ''q''"

lemma server_guarded: "\<exists>q a b c d. server_guard = Inr q \<and> sq_statement q = Node Sql_Select [a, b, c, d]"
proof -
  have "case server_guard of Inl _ \<Rightarrow> False | Inr q \<Rightarrow> (case sq_statement q of Node Sql_Select [a, b, c, d] \<Rightarrow> True | _ \<Rightarrow> False)" by code_simp
  then show ?thesis by (auto split: sum.split_asm sql.split_asm sql_head.split_asm list.split_asm)
qed

lemma server_compiles:
  assumes "server_guard = Inr q" and "ds_allowed_databases ds = [''ops'']"
  shows "\<exists>c. compile_object_query (runtime_environment (ap_runtime server_api) ds) demo_ontology demo_admin ''Device'' [] None None 5 = Inr c \<and> cq_scoped_query c = q"
proof -
  have "\<not> isl (object_statement demo_ontology demo_admin ''Device'' [] None None)" by code_simp
  then obtain obj selected params where st: "object_statement demo_ontology demo_admin ''Device'' [] None None = Inr (obj, selected, server_statement, params)"
    unfolding server_statement_def by (cases "object_statement demo_ontology demo_admin ''Device'' [] None None") auto
  have "guard_select (runtime_environment (ap_runtime server_api) ds) demo_admin 5 server_statement = Inr q"
    using assms by (simp add: guard_select_def runtime_environment_def server_guard_def guard_sql_query_def recast_def)
  with st show ?thesis by (simp add: compile_object_query_def)
qed

lemma demo_sem_select: "demo_sem ps Sql_Select [a, b, c, d] = Tuple [a, b, c, d]"
  by (simp add: demo_sem_def split: demo_value.split)

lemma server_answers: "\<exists>v. fst (serve (with_run server_api (server_run data)) (demo_call 100 ''n1'' True) (Search_Objects ''Device'' [] None 5) empty_state) = Inr v"
proof -
  let ?ap = "with_run server_api (server_run data)"
  obtain q a b c' d where q: "server_guard = Inr q" "sq_statement q = Node Sql_Select [a, b, c', d]" using server_guarded by blast
  obtain ds where ds: "rt_datasource_resolver api_runtime (authorization_tenant_context demo_admin) = Inr ds" "ds_allowed_databases ds = [''ops'']"
    by (simp add: api_runtime_def)
  obtain c where c: "compile_object_query (runtime_environment (ap_runtime server_api) ds) demo_ontology demo_admin ''Device'' [] None None 5 = Inr c"
      "cq_scoped_query c = q" using server_compiles [OF q(1) ds(2)] by blast
  have "\<not> isl (build_tenant_mysql_uri (projr (rt_datasource_resolver api_runtime (authorization_tenant_context demo_admin))) None)" by code_simp
  then obtain uri where uri: "build_tenant_mysql_uri ds None = Inr uri" using ds(1) by (cases "build_tenant_mysql_uri ds None") auto
  have "\<exists>raw. server_run data uri (tree_text (sq_statement q)) (cq_parameters c) = Inr raw"
    by (simp add: server_run_def q(2) server_values_def demo_sem_select)
  then obtain raw where raw: "server_run data uri (tree_text (sq_statement q)) (cq_parameters c) = Inr raw" ..
  have "\<exists>x. search_objects (ap_runtime ?ap) (int_str 100) demo_admin ''Device'' [] None 5 = Inr x"
    using ds(1) c uri raw
    by (simp add: search_objects_def runtime_datasource_def execute_compiled_def recast_def Let_def)
  then obtain x where x: "search_objects (ap_runtime ?ap) (int_str 100) demo_admin ''Device'' [] None 5 = Inr x" ..
  have valid: "valid_request (Search_Objects ''Device'' [] None 5)" by code_simp
  have "admitted ?ap (demo_call 100 ''n1'' True) demo_admin demo_rc" using demo_admitted by simp
  then have "serve ?ap (demo_call 100 ''n1'' True) (Search_Objects ''Device'' [] None 5) empty_state =
      api_search_objects ?ap (demo_call 100 ''n1'' True) demo_admin demo_rc ''Device'' [] None 5 empty_state"
    using serve_admitted [OF _ _ valid] by (simp add: handle_def)
  with x show ?thesis by (simp add: api_search_objects_def api_filters_def record_audit_def)
qed


end
