(* ===== verification/Json_Text.thy ===== *)
theory Json_Text
  imports Py_Values
begin

text \<open>
  JSON as Python's library writes and reads it: \<^verbatim>\<open>json.dumps(v, ensure_ascii=False)\<close> and \<^verbatim>\<open>json.loads(s)\<close>, and that
  what was written is read back. The conversion \<^verbatim>\<open>float(text)\<close> is a parameter that gives
  the value and the text \<^verbatim>\<open>repr\<close> prints for it. Escapes beyond U+00FF, and the names Python accepts for
  not-a-number and the infinities, are outside the characters and values of the model.
\<close>

section \<open>Writing\<close>

definition text_char :: "char \<Rightarrow> string" where
  "text_char c = (if in_range 127 255 c then [c] else json_char c)"

definition text_str :: "string \<Rightarrow> string" where
  "text_str s = CHR 0x22 # concat (map text_char s) @ [CHR 0x22]"

fun json_text :: "pyval \<Rightarrow> string" where
  "json_text PNone = ''null''"
| "json_text (PBool b) = (if b then ''true'' else ''false'')"
| "json_text (PInt i) = int_str i"
| "json_text (PFloat r q) = r"
| "json_text (PStr s) = text_str s"
| "json_text (PList xs) = ''['' @ join_with '', '' (map json_text xs) @ '']''"
| "json_text (PDict d) = ''{'' @ join_with '', '' (map (\<lambda>(k, v). text_str k @ '': '' @ json_text v) d) @ ''}''"

section \<open>Reading\<close>

definition json_space :: "char \<Rightarrow> bool" where
  "json_space c \<longleftrightarrow> c = CHR '' '' \<or> c = CHR 0x09 \<or> c = CHR 0x0A \<or> c = CHR 0x0D"

abbreviation skip_space :: "string \<Rightarrow> string" where
  "skip_space \<equiv> dropWhile json_space"

definition hex_value :: "char \<Rightarrow> nat option" where
  "hex_value c =
     (if in_range 48 57 c then Some (char_code c - 48)
      else if in_range 97 102 c then Some (char_code c - 87)
      else if in_range 65 70 c then Some (char_code c - 55) else None)"

definition hex4 :: "char \<Rightarrow> char \<Rightarrow> char \<Rightarrow> char \<Rightarrow> char option" where
  "hex4 a b c d =
     (case (hex_value a, hex_value b, hex_value c, hex_value d) of
        (Some 0, Some 0, Some x, Some y) \<Rightarrow> Some (char_of (16 * x + y))
      | _ \<Rightarrow> None)"

definition unescape :: "char \<Rightarrow> char option" where
  "unescape c =
     dget [(CHR 0x22, CHR 0x22), (CHR 0x5C, CHR 0x5C), (CHR ''/'', CHR ''/''), (CHR ''b'', CHR 0x08), (CHR ''f'', CHR 0x0C),
       (CHR ''n'', CHR 0x0A), (CHR ''r'', CHR 0x0D), (CHR ''t'', CHR 0x09)] c"

text \<open>A string after its opening quote.\<close>

fun parse_string :: "string \<Rightarrow> (string \<times> string) option" where
  "parse_string [] = None"
| "parse_string (c # cs) =
     (if c = CHR 0x22 then Some ([], cs)
      else if c = CHR 0x5C then
        (case cs of
           [] \<Rightarrow> None
         | e # es \<Rightarrow>
             if e = CHR ''u'' then
               (case es of
                  a # b # x # y # rest \<Rightarrow>
                    (case hex4 a b x y of
                       None \<Rightarrow> None
                     | Some d \<Rightarrow> map_option (\<lambda>(s, r). (d # s, r)) (parse_string rest))
                | _ \<Rightarrow> None)
             else
               (case unescape e of
                  None \<Rightarrow> None
                | Some d \<Rightarrow> map_option (\<lambda>(s, r). (d # s, r)) (parse_string es)))
      else if char_code c < 32 then None
      else map_option (\<lambda>(s, r). (c # s, r)) (parse_string cs))"

text \<open>\<^verbatim>\<open>(-?(?:0|[1-9][0-9]*))([.][0-9]+)?([eE][-+]?[0-9]+)?\<close>: what each group takes from the front.\<close>

definition digit_span :: "string \<Rightarrow> string \<times> string" where
  "digit_span s = (takeWhile is_digit_char s, dropWhile is_digit_char s)"

definition sign_span :: "string \<Rightarrow> string \<times> string" where
  "sign_span s = (case s of c # cs \<Rightarrow> if c = CHR ''-'' then ([c], cs) else ([], s) | [] \<Rightarrow> ([], []))"

definition int_span :: "string \<Rightarrow> string \<times> string" where
  "int_span s = (case s of c # cs \<Rightarrow> if c = CHR ''0'' then ([c], cs) else digit_span s | [] \<Rightarrow> ([], []))"

definition frac_span :: "string \<Rightarrow> string \<times> string" where
  "frac_span s = (case s of
     c # cs \<Rightarrow> if c = CHR ''.'' \<and> fst (digit_span cs) \<noteq> [] then (c # fst (digit_span cs), snd (digit_span cs)) else ([], s)
   | [] \<Rightarrow> ([], []))"

definition exp_span :: "string \<Rightarrow> string \<times> string" where
  "exp_span s = (case s of
     c # cs \<Rightarrow>
       if c = CHR ''e'' \<or> c = CHR ''E'' then
         (case cs of
            d # ds \<Rightarrow>
              if (d = CHR ''+'' \<or> d = CHR ''-'') \<and> fst (digit_span ds) \<noteq> [] then (c # d # fst (digit_span ds), snd (digit_span ds))
              else if fst (digit_span cs) \<noteq> [] then (c # fst (digit_span cs), snd (digit_span cs)) else ([], s)
          | [] \<Rightarrow> ([], s))
       else ([], s)
   | [] \<Rightarrow> ([], []))"

type_synonym float_reader = "string \<Rightarrow> string \<times> rat"

definition parse_number :: "float_reader \<Rightarrow> string \<Rightarrow> (pyval \<times> string) option" where
  "parse_number float_of s =
     (let (sign, s1) = sign_span s; (digits, s2) = int_span s1; (frac, s3) = frac_span s2; (e, s4) = exp_span s3 in
      if digits = [] then None
      else if frac = [] \<and> e = [] then
        map_option (\<lambda>n. (PInt (if sign = [] then int n else - int n), s2)) (digits_value 0 digits)
      else (case float_of (sign @ digits @ frac @ e) of (r, q) \<Rightarrow> Some (PFloat r q, s4)))"

text \<open>Values, with a bound on the depth of the recursion.\<close>

fun parse_value :: "float_reader \<Rightarrow> nat \<Rightarrow> string \<Rightarrow> (pyval \<times> string) option"
  and parse_elements :: "float_reader \<Rightarrow> nat \<Rightarrow> pyval list \<Rightarrow> string \<Rightarrow> (pyval \<times> string) option"
  and parse_members :: "float_reader \<Rightarrow> nat \<Rightarrow> (string, pyval) dict \<Rightarrow> string \<Rightarrow> (pyval \<times> string) option" where
  "parse_value fo 0 s = None"
| "parse_value fo (Suc n) s =
     (case s of
        [] \<Rightarrow> None
      | c # cs \<Rightarrow>
          if c = CHR 0x22 then map_option (\<lambda>(t, r). (PStr t, r)) (parse_string cs)
          else if c = CHR ''{'' then
            (if starts_with (skip_space cs) ''}'' then Some (PDict [], tl (skip_space cs)) else parse_members fo n [] (skip_space cs))
          else if c = CHR ''['' then
            (if starts_with (skip_space cs) '']'' then Some (PList [], tl (skip_space cs)) else parse_elements fo n [] (skip_space cs))
          else if starts_with s ''null'' then Some (PNone, drop 4 s)
          else if starts_with s ''true'' then Some (PBool True, drop 4 s)
          else if starts_with s ''false'' then Some (PBool False, drop 5 s)
          else parse_number fo s)"
| "parse_elements fo 0 acc s = None"
| "parse_elements fo (Suc n) acc s =
     (case parse_value fo n s of
        None \<Rightarrow> None
      | Some (v, r) \<Rightarrow>
          (case skip_space r of
             [] \<Rightarrow> None
           | c # cs \<Rightarrow>
               if c = CHR '','' then parse_elements fo n (acc @ [v]) (skip_space cs)
               else if c = CHR '']'' then Some (PList (acc @ [v]), cs) else None))"
| "parse_members fo 0 acc s = None"
| "parse_members fo (Suc n) acc s =
     (if \<not> starts_with s [CHR 0x22] then None
      else case parse_string (tl s) of
        None \<Rightarrow> None
      | Some (k, r) \<Rightarrow>
          if \<not> starts_with (skip_space r) '':'' then None
          else case parse_value fo n (skip_space (tl (skip_space r))) of
            None \<Rightarrow> None
          | Some (v, t) \<Rightarrow>
              (case skip_space t of
                 [] \<Rightarrow> None
               | c # cs \<Rightarrow>
                   if c = CHR '','' then parse_members fo n (dset k v acc) (skip_space cs)
                   else if c = CHR ''}'' then Some (PDict (dset k v acc), cs) else None))"

definition json_loads :: "float_reader \<Rightarrow> string \<Rightarrow> pyval option" where
  "json_loads fo s =
     (case parse_value fo (length s) (skip_space s) of
        None \<Rightarrow> None
      | Some (v, r) \<Rightarrow> if skip_space r = [] then Some v else None)"

section \<open>Round trip of strings\<close>

lemma hex_value_digit: "d < 16 \<Longrightarrow> hex_value (hex_digit d) = Some d"
  by (auto simp: hex_value_def hex_digit_def in_range_def char_code_def)

lemma hex4_digits: "hex4 CHR ''0'' CHR ''0'' (hex_digit (char_code c div 16)) (hex_digit (char_code c mod 16)) = Some c"
proof -
  have "char_code c < 16 * 16" using nat_of_char_less_256 [of c] by (simp add: char_code_def)
  then have "char_code c div 16 < 16" by (rule less_mult_imp_div_less)
  moreover have "char_of (16 * (char_code c div 16) + char_code c mod 16) = c" by (simp add: char_code_def)
  moreover have "hex_value CHR ''0'' = Some 0" by (simp add: hex_value_def in_range_def char_code_def)
  ultimately show ?thesis by (simp add: hex4_def hex_value_digit)
qed

lemma parse_text_char: "parse_string (text_char c @ rest) = map_option (\<lambda>(s, r). (c # s, r)) (parse_string rest)"
proof (cases "c \<in> {CHR 0x22, CHR 0x5C, CHR 0x0A, CHR 0x0D, CHR 0x09, CHR 0x0C, CHR 0x08}")
  case True
  then show ?thesis by (auto simp: text_char_def json_char_def in_range_def char_code_def unescape_def)
next
  case False
  show ?thesis
  proof (cases "in_range 32 255 c")
    case True
    then have "text_char c = [c]" using False by (auto simp: text_char_def json_char_def in_range_def)
    moreover have "\<not> char_code c < 32" using True by (simp add: in_range_def)
    ultimately show ?thesis using False by auto
  next
    case small: False
    then have "text_char c = CHR 0x5C # ''u00'' @ [hex_digit (char_code c div 16), hex_digit (char_code c mod 16)]"
      using False nat_of_char_less_256 [of c] by (auto simp: text_char_def json_char_def in_range_def char_code_def)
    then show ?thesis by (simp add: hex4_digits)
  qed
qed

lemma parse_string_text: "parse_string (concat (map text_char s) @ CHR 0x22 # rest) = Some (s, rest)"
  by (induction s) (simp_all add: parse_text_char)

lemma parse_string_text_str: "parse_string (tl (text_str s) @ rest) = Some (s, rest)"
  by (simp add: text_str_def parse_string_text)

section \<open>Round trip of numbers\<close>

text \<open>A number ends where no character can continue it.\<close>

definition ends_number :: "string \<Rightarrow> bool" where
  "ends_number s = (case s of [] \<Rightarrow> True | c # _ \<Rightarrow> \<not> is_digit_char c \<and> c \<notin> set ''.eE+-'')"

lemma digit_span_append: "ends_number rest \<Longrightarrow> digit_span (s @ rest) = (fst (digit_span s), snd (digit_span s) @ rest)"
  by (induction s) (auto simp: digit_span_def ends_number_def split: list.splits)

lemma int_span_append: "ends_number rest \<Longrightarrow> s \<noteq> [] \<Longrightarrow> int_span (s @ rest) = (fst (int_span s), snd (int_span s) @ rest)"
  using digit_span_append [of rest s] by (cases s) (auto simp: int_span_def)

lemma frac_span_append: "ends_number rest \<Longrightarrow> frac_span (s @ rest) = (fst (frac_span s), snd (frac_span s) @ rest)"
proof (cases s)
  case Nil
  assume "ends_number rest"
  then show ?thesis using Nil by (auto simp: frac_span_def ends_number_def split: list.split)
next
  case (Cons c cs)
  assume "ends_number rest"
  then show ?thesis using digit_span_append [of rest cs] Cons by (auto simp: frac_span_def)
qed

lemma exp_span_append: "ends_number rest \<Longrightarrow> exp_span (s @ rest) = (fst (exp_span s), snd (exp_span s) @ rest)"
proof (cases s rule: remdups_adj.cases)
  case 1
  assume "ends_number rest"
  then show ?thesis using 1 by (auto simp: exp_span_def ends_number_def split: list.split)
next
  case (2 c)
  assume "ends_number rest"
  then show ?thesis using 2 by (auto simp: exp_span_def ends_number_def digit_span_def split: list.split)
next
  case (3 c d ds)
  assume "ends_number rest"
  then show ?thesis using digit_span_append [of rest ds] digit_span_append [of rest "d # ds"] 3 by (auto simp: exp_span_def)
qed

text \<open>The text of a float: a number with a fraction or an exponent, and nothing after it.\<close>

definition float_text :: "string \<Rightarrow> bool" where
  "float_text s =
     (let (sign, s1) = sign_span s; (digits, s2) = int_span s1; (frac, s3) = frac_span s2; (e, s4) = exp_span s3
      in digits \<noteq> [] \<and> (frac \<noteq> [] \<or> e \<noteq> []) \<and> sign @ digits @ frac @ e = s \<and> s4 = [])"

lemma sign_span_append: "s \<noteq> [] \<Longrightarrow> sign_span (s @ rest) = (fst (sign_span s), snd (sign_span s) @ rest)"
  by (cases s) (auto simp: sign_span_def)

lemma parse_float_text:
  assumes "float_text r" and "fo r = (r, q)" and "ends_number rest"
  shows "parse_number fo (r @ rest) = Some (PFloat r q, rest)"
proof -
  obtain sign s1 digits s2 frac s3 e s4 where spans: "sign_span r = (sign, s1)" "int_span s1 = (digits, s2)" "frac_span s2 = (frac, s3)" "exp_span s3 = (e, s4)"
    by (metis surj_pair)
  with assms(1) have r: "digits \<noteq> []" "frac \<noteq> [] \<or> e \<noteq> []" "sign @ digits @ frac @ e = r" "s4 = []" by (auto simp: float_text_def)
  then have "r \<noteq> []" by auto
  moreover have "s1 \<noteq> []" using spans(2) r(1) by (auto simp: int_span_def)
  ultimately have "sign_span (r @ rest) = (sign, s1 @ rest)" "int_span (s1 @ rest) = (digits, s2 @ rest)"
      "frac_span (s2 @ rest) = (frac, s3 @ rest)" "exp_span (s3 @ rest) = (e, s4 @ rest)"
    using spans assms(3) by (simp_all add: sign_span_append int_span_append frac_span_append exp_span_append)
  with r assms(2) show ?thesis by (auto simp: parse_number_def)
qed

lemma nat_str_no_leading_zero: "nat_str n = CHR ''0'' # cs \<Longrightarrow> n = 0 \<and> cs = []"
proof (induction n arbitrary: cs rule: nat_str.induct)
  case (1 n)
  have zero: "d = 0" if "d < 10" "digit_char d = CHR ''0''" for d
  proof -
    have "char_code (digit_char d) = 48" using that(2) by (simp add: char_code_def)
    with digit_char_code [OF that(1)] show "d = 0" by simp
  qed
  show ?case
  proof (cases "n < 10")
    case True
    with 1(2) zero [of n] show ?thesis by (subst (asm) nat_str.simps) auto
  next
    case False
    from 1(2) False have split: "nat_str (n div 10) @ [digit_char (n mod 10)] = CHR ''0'' # cs" by (subst (asm) nat_str.simps) simp
    then obtain ds where "nat_str (n div 10) = CHR ''0'' # ds" by (cases "nat_str (n div 10)") auto
    with 1(1) [OF False] have "n div 10 = 0" by blast
    with False show ?thesis by simp
  qed
qed

lemma int_span_nat_str: "ends_number rest \<Longrightarrow> int_span (nat_str n @ rest) = (nat_str n, rest)"
proof -
  assume rest: "ends_number rest"
  have "digit_span (nat_str n) = (nat_str n, [])"
    using nat_str_digits [of n] by (auto simp: digit_span_def takeWhile_eq_all_conv dropWhile_eq_Nil_conv list_all_iff)
  with digit_span_append [OF rest, of "nat_str n"] have span: "digit_span (nat_str n @ rest) = (nat_str n, rest)" by simp
  obtain c cs where c: "nat_str n = c # cs" by (metis list.exhaust nat_str_nonempty)
  show ?thesis
  proof (cases "c = CHR ''0''")
    case True
    with c nat_str_no_leading_zero have "cs = []" by auto
    with c True show ?thesis by (simp add: int_span_def)
  next
    case False
    with c span show ?thesis by (simp add: int_span_def)
  qed
qed

lemma parse_int_text:
  assumes "ends_number rest"
  shows "parse_number fo (int_str i @ rest) = Some (PInt i, rest)"
proof -
  have tail: "frac_span rest = ([], rest)" "exp_span rest = ([], rest)"
    using assms by (auto simp: frac_span_def exp_span_def ends_number_def split: list.split)
  have plain: "sign_span (nat_str n @ rest) = ([], nat_str n @ rest)" for n
    by (cases "nat_str n") (use dash_not_in_nat_str [of n] in \<open>auto simp: sign_span_def\<close>)
  show ?thesis
  proof (cases "i < 0")
    case True
    then have "sign_span (int_str i @ rest) = (''-'', nat_str (nat (- i)) @ rest)" by (simp add: int_str_def sign_span_def)
    with True tail int_span_nat_str [OF assms] show ?thesis by (simp add: parse_number_def digits_value_nat_str)
  next
    case False
    with plain tail int_span_nat_str [OF assms] show ?thesis by (simp add: parse_number_def digits_value_nat_str int_str_def)
  qed
qed

section \<open>Round trip of values\<close>

text \<open>Values that JSON can carry: floats as \<^verbatim>\<open>repr\<close> prints them, dictionaries with different keys.\<close>

fun json_value :: "float_reader \<Rightarrow> pyval \<Rightarrow> bool" where
  "json_value fo (PFloat r q) \<longleftrightarrow> float_text r \<and> fo r = (r, q)"
| "json_value fo (PList xs) \<longleftrightarrow> (\<forall>x\<in>set xs. json_value fo x)"
| "json_value fo (PDict d) \<longleftrightarrow> distinct (map fst d) \<and> (\<forall>(k, v)\<in>set d. json_value fo v)"
| "json_value fo v \<longleftrightarrow> True"

lemma ends_number_simps [simp]: "ends_number []" "ends_number (CHR '','' # s)" "ends_number (CHR '']'' # s)" "ends_number (CHR ''}'' # s)"
  by (simp_all add: ends_number_def char_class_defs)

lemma digit_class: "is_digit_char c \<Longrightarrow> c \<noteq> CHR 0x22 \<and> c \<noteq> CHR ''{'' \<and> c \<noteq> CHR ''['' \<and> c \<noteq> CHR ''n'' \<and> c \<noteq> CHR ''t'' \<and> c \<noteq> CHR ''f'' \<and> \<not> json_space c"
  by (auto simp: char_class_defs json_space_def)

text \<open>A number starts with a digit or a sign, so none of the other cases applies.\<close>

lemma parse_value_number:
  assumes "s = c # cs" and "is_digit_char c \<or> c = CHR ''-''"
  shows "parse_value fo (Suc n) s = parse_number fo s" and "\<not> json_space c" and "c \<noteq> CHR '']''" and "c \<noteq> CHR ''}''"
proof -
  have ne: "c \<noteq> CHR 0x22 \<and> c \<noteq> CHR ''{'' \<and> c \<noteq> CHR ''['' \<and> c \<noteq> CHR ''n'' \<and> c \<noteq> CHR ''t'' \<and> c \<noteq> CHR ''f'' \<and> \<not> json_space c"
    using assms(2)
  proof
    assume "c = CHR ''-''"
    then show ?thesis by (simp add: json_space_def)
  qed (rule digit_class)
  then show "parse_value fo (Suc n) s = parse_number fo s" "\<not> json_space c" by (simp_all add: assms(1))
  have "\<not> is_digit_char CHR '']''" "\<not> is_digit_char CHR ''}''" by (simp_all add: char_class_defs)
  then show "c \<noteq> CHR '']''" "c \<noteq> CHR ''}''" using assms(2) by auto
qed

lemma int_str_head: "\<exists>c cs. int_str i = c # cs \<and> (is_digit_char c \<or> c = CHR ''-'')"
proof -
  obtain c cs where "nat_str (nat i) = c # cs" by (metis list.exhaust nat_str_nonempty)
  with nat_str_digits [of "nat i"] show ?thesis by (auto simp: int_str_def)
qed

lemma float_text_head: "float_text r \<Longrightarrow> \<exists>c cs. r = c # cs \<and> (is_digit_char c \<or> c = CHR ''-'')"
proof (cases r)
  case (Cons c cs)
  assume "float_text r"
  with Cons have "is_digit_char c \<or> c = CHR ''-''"
    by (auto simp: float_text_def sign_span_def int_span_def digit_span_def is_digit_char_def in_range_def char_code_def
        split: if_split_asm prod.split_asm)
  with Cons show ?thesis by blast
qed (auto simp: float_text_def sign_span_def int_span_def)

text \<open>The text of a value starts with no space and no closing bracket.\<close>

lemma json_text_head: "json_value fo v \<Longrightarrow> \<exists>c cs. json_text v = c # cs \<and> \<not> json_space c \<and> c \<noteq> CHR '']'' \<and> c \<noteq> CHR ''}''"
proof (cases v)
  case (PInt i)
  with int_str_head [of i] parse_value_number(2,3,4) show ?thesis by fastforce
next
  case (PFloat r q)
  assume "json_value fo v"
  with PFloat have "float_text r" by simp
  from float_text_head [OF this] obtain c cs where r: "r = c # cs" "is_digit_char c \<or> c = CHR ''-''" by blast
  from parse_value_number(2,3,4) [OF r] r PFloat show ?thesis by auto
qed (auto simp: text_str_def json_space_def)

lemma json_text_nonempty: "json_value fo v \<Longrightarrow> 0 < length (json_text v)"
  using json_text_head [of fo v] by auto

lemma skip_space_text: "json_value fo v \<Longrightarrow> skip_space (json_text v @ rest) = json_text v @ rest"
  using json_text_head [of fo v] by auto

lemma json_space_simps [simp]: "\<not> json_space CHR '',''" "\<not> json_space CHR '']''" "\<not> json_space CHR ''}''" "\<not> json_space CHR '':''"
    "json_space CHR '' ''" "\<not> json_space CHR 0x22"
  by (simp_all add: json_space_def)

definition reads :: "float_reader \<Rightarrow> pyval \<Rightarrow> bool" where
  "reads fo v \<longleftrightarrow> (\<forall>n rest. length (json_text v) \<le> n \<longrightarrow> ends_number rest \<longrightarrow> parse_value fo n (json_text v @ rest) = Some (v, rest))"

lemma parse_elements_text:
  assumes "\<forall>x\<in>set xs. json_value fo x \<and> reads fo x" and "xs \<noteq> []" and "length (join_with '', '' (map json_text xs)) < n"
  shows "parse_elements fo n acc (join_with '', '' (map json_text xs) @ CHR '']'' # rest) = Some (PList (acc @ xs), rest)"
  using assms
proof (induction xs arbitrary: n acc)
  case (Cons x xs)
  from Cons.prems(3) obtain m where n: "n = Suc m" by (cases n) auto
  show ?case
  proof (cases xs)
    case Nil
    with Cons.prems n have "parse_value fo m (json_text x @ CHR '']'' # rest) = Some (x, CHR '']'' # rest)" by (auto simp: reads_def)
    with Nil n show ?thesis by simp
  next
    case (Cons y ys)
    let ?tail = "join_with '', '' (map json_text xs) @ CHR '']'' # rest"
    have len: "length (json_text x) \<le> m" "length (join_with '', '' (map json_text xs)) < m" using Cons.prems(3) n Cons by auto
    with Cons.prems have x: "parse_value fo m (json_text x @ '', '' @ ?tail) = Some (x, '', '' @ ?tail)" by (auto simp: reads_def)
    have "skip_space ?tail = ?tail"
      using Cons.prems(1) Cons skip_space_text [of fo y] by (cases ys) auto
    moreover have "parse_elements fo m (acc @ [x]) ?tail = Some (PList (acc @ x # xs), rest)"
      using Cons.IH [OF _ _ len(2), of "acc @ [x]"] Cons.prems(1) Cons by simp
    ultimately show ?thesis using x n Cons by simp
  qed
qed simp

abbreviation member_text :: "string \<times> pyval \<Rightarrow> string" where
  "member_text \<equiv> \<lambda>(k, v). text_str k @ '': '' @ json_text v"

lemma dset_append_new: "k \<notin> fst ` set d \<Longrightarrow> dset k v d = d @ [(k, v)]"
  by (rule dset_fresh) (simp add: map_of_eq_None_iff)

lemma parse_members_text:
  assumes "\<forall>(k, v)\<in>set d. json_value fo v \<and> reads fo v" and "d \<noteq> []" and "length (join_with '', '' (map member_text d)) < n"
    and "distinct (map fst (acc @ d))"
  shows "parse_members fo n acc (join_with '', '' (map member_text d) @ CHR ''}'' # rest) = Some (PDict (acc @ d), rest)"
  using assms
proof (induction d arbitrary: n acc)
  case (Cons kv d)
  obtain k v where kv: "kv = (k, v)" by (cases kv)
  from Cons.prems(3) obtain m where n: "n = Suc m" by (cases n) auto
  have v: "json_value fo v" "reads fo v" using Cons.prems(1) kv by auto
  have add: "dset k v acc = acc @ [(k, v)]" using Cons.prems(4) kv by (intro dset_append_new) auto
  have string: "text_str k = CHR 0x22 # tl (text_str k)" by (simp add: text_str_def)
  have step: "parse_members fo n acc (text_str k @ '': '' @ json_text v @ c # s) =
      (case skip_space (c # s) of [] \<Rightarrow> None
       | c # cs \<Rightarrow> if c = CHR '','' then parse_members fo m (acc @ [(k, v)]) (skip_space cs)
           else if c = CHR ''}'' then Some (PDict (acc @ [(k, v)]), cs) else None)"
    if "length (json_text v) \<le> m" "c = CHR '','' \<or> c = CHR ''}''" for c s
  proof -
    have "parse_value fo m (json_text v @ c # s) = Some (v, c # s)" using v(2) that by (auto simp: reads_def)
    then show ?thesis
      using parse_string_text_str [of k "'': '' @ json_text v @ c # s"] skip_space_text [OF v(1), of "c # s"]
      unfolding n add [symmetric] by (subst string) (simp del: dropWhile.simps(2) add: dropWhile.simps(2) [of json_space "CHR '':''"] dropWhile.simps(2) [of json_space "CHR '' ''"])
  qed
  show ?case
  proof (cases d)
    case Nil
    with Cons.prems(3) n kv have "length (json_text v) \<le> m" by simp
    from step [OF this, of "CHR ''}''" rest] show ?thesis using Nil kv by simp
  next
    case (Cons kv' d')
    let ?tail = "join_with '', '' (map member_text d) @ CHR ''}'' # rest"
    have len: "length (json_text v) \<le> m" "length (join_with '', '' (map member_text d)) < m" using Cons.prems(3) n kv Cons by auto
    have "skip_space ?tail = ?tail" using Cons by (cases d'; cases kv') (auto simp: text_str_def)
    moreover have "parse_members fo m (acc @ [(k, v)]) ?tail = Some (PDict (acc @ (k, v) # d), rest)"
      using Cons.IH [OF _ _ len(2), of "acc @ [(k, v)]"] Cons.prems(1,4) Cons kv by auto
    ultimately show ?thesis using step [OF len(1), of "CHR '',''" "'' '' @ ?tail"] kv Cons by simp
  qed
qed simp

lemma text_str_parse: "parse_value fo (Suc n) (text_str s @ rest) = Some (PStr s, rest)"
  using parse_string_text [of s rest] by (simp add: text_str_def)

lemma json_value_reads: "json_value fo v \<Longrightarrow> reads fo v"
proof (induction v)
  case (PInt i)
  obtain c cs where c: "int_str i = c # cs" "is_digit_char c \<or> c = CHR ''-''" using int_str_head by blast
  show ?case unfolding reads_def
  proof (intro allI impI)
    fix n rest
    assume "length (json_text (PInt i)) \<le> n" and rest: "ends_number rest"
    then obtain m where "n = Suc m" using c(1) by (cases n) auto
    then show "parse_value fo n (json_text (PInt i) @ rest) = Some (PInt i, rest)"
      using parse_value_number(1) [of "int_str i @ rest" c "cs @ rest" fo m] parse_int_text [OF rest, of fo i] c by simp
  qed
next
  case (PFloat r q)
  then have r: "float_text r" "fo r = (r, q)" by auto
  obtain c cs where c: "r = c # cs" "is_digit_char c \<or> c = CHR ''-''" using float_text_head [OF r(1)] by blast
  show ?case unfolding reads_def
  proof (intro allI impI)
    fix n rest
    assume "length (json_text (PFloat r q)) \<le> n" and rest: "ends_number rest"
    then obtain m where "n = Suc m" using c(1) by (cases n) auto
    then show "parse_value fo n (json_text (PFloat r q) @ rest) = Some (PFloat r q, rest)"
      using parse_value_number(1) [of "r @ rest" c "cs @ rest" fo m] parse_float_text [where fo = fo, OF r rest] c by simp
  qed
next
  case (PStr s)
  show ?case unfolding reads_def using text_str_parse [of fo _ s] by (auto simp: text_str_def dest!: Suc_le_D)
next
  case (PList xs)
  then have all: "\<forall>x\<in>set xs. json_value fo x \<and> reads fo x" by auto
  show ?case unfolding reads_def
  proof (intro allI impI)
    fix n rest
    assume n: "length (json_text (PList xs)) \<le> n"
    then obtain m where m: "n = Suc m" "length (join_with '', '' (map json_text xs)) < m" by (cases n) auto
    show "parse_value fo n (json_text (PList xs) @ rest) = Some (PList xs, rest)"
    proof (cases xs)
      case (Cons x ys)
      then obtain c cs where "join_with '', '' (map json_text xs) = c # cs" "\<not> json_space c" "c \<noteq> CHR '']''"
        using json_text_head [of fo x] all by (cases ys) auto
      with parse_elements_text [OF all _ m(2), of "[]" rest] Cons m(1) show ?thesis by simp
    qed (simp add: m)
  qed
next
  case (PDict d)
  then have all: "\<forall>(k, v)\<in>set d. json_value fo v \<and> reads fo v" and dist: "distinct (map fst d)" by fastforce+
  show ?case unfolding reads_def
  proof (intro allI impI)
    fix n rest
    assume n: "length (json_text (PDict d)) \<le> n"
    then obtain m where m: "n = Suc m" "length (join_with '', '' (map member_text d)) < m" by (cases n) auto
    show "parse_value fo n (json_text (PDict d) @ rest) = Some (PDict d, rest)"
    proof (cases d)
      case (Cons kv ys)
      then obtain cs where "join_with '', '' (map member_text d) = CHR 0x22 # cs"
        by (cases ys; cases kv) (auto simp: text_str_def)
      with parse_members_text [OF all _ m(2), of "[]" rest] dist Cons m(1) show ?thesis by simp
    qed (simp add: m)
  qed
qed (auto simp: reads_def dest!: Suc_le_D)

theorem json_roundtrip:
  assumes "json_value fo v"
  shows "json_loads fo (json_text v) = Some v"
proof -
  have "parse_value fo (length (json_text v)) (json_text v @ []) = Some (v, [])"
    using json_value_reads [OF assms] unfolding reads_def by (metis ends_number_simps(1) order_refl)
  then show ?thesis using skip_space_text [OF assms, of "[]"] by (simp add: json_loads_def)
qed

end
