(* ===== verification/Agent_Messages.thy ===== *)
theory Agent_Messages
  imports Json_Text
begin

text \<open>
  What the guards around an agent work on: the messages of a conversation as the fields of the message classes the guards read and
  copy, the dictionary with an upper bound (\<^verbatim>\<open>agents/middlewares/_bounded_dict.py\<close>) and the copy of an assistant message that keeps its
  tool calls and their raw form in step (\<^verbatim>\<open>tool_call_metadata.py\<close>). A tool call is a dictionary with \<^verbatim>\<open>name\<close>, \<^verbatim>\<open>args\<close> and
  \<^verbatim>\<open>id\<close>, of which the guards rely on none. The context of a runtime is its dictionary.
\<close>

section \<open>Messages\<close>

type_synonym tool_call = "(string, pyval) dict"

record ai_message =
  ai_id :: "string option"
  ai_content :: pyval
  ai_tool_calls :: "tool_call list"
  ai_invalid_tool_calls :: "tool_call list"
  ai_additional_kwargs :: "(string, pyval) dict"
  ai_response_metadata :: "(string, pyval) dict"
  ai_usage_metadata :: "(string, pyval) dict"

record tool_message =
  tm_tool_call_id :: string
  tm_name :: pyval
  tm_content :: pyval
  tm_status :: string
  tm_additional_kwargs :: "(string, pyval) dict"

datatype message = AIMessage ai_message | ToolMessage tool_message | HumanMessage string pyval | SystemMessage pyval

type_synonym run_context = "(string, pyval) dict"

text \<open>A blank line, before what is appended to a text.\<close>

definition blank_line :: string where "blank_line = [CHR 0x0A, CHR 0x0A]"

section \<open>Raw tool calls\<close>

text \<open>\<^verbatim>\<open>isinstance(v, str) and v\<close>.\<close>

definition nonempty_text :: "pyval \<Rightarrow> string option" where
  "nonempty_text v = (case v of PStr s \<Rightarrow> if s = [] then None else Some s | _ \<Rightarrow> None)"

definition raw_tool_call_id :: "pyval \<Rightarrow> string option" where
  "raw_tool_call_id raw = (case raw of PDict d \<Rightarrow> nonempty_text (get_key d ''id'') | _ \<Rightarrow> None)"

definition stopped_metadata :: "(string, pyval) dict \<Rightarrow> (string, pyval) dict" where
  "stopped_metadata metadata =
     (if get_key metadata ''finish_reason'' = PStr ''tool_calls'' then dset ''finish_reason'' (PStr ''stop'') metadata else metadata)"

definition clone_ai_message_with_tool_calls :: "ai_message \<Rightarrow> tool_call list \<Rightarrow> pyval option \<Rightarrow> ai_message" where
  "clone_ai_message_with_tool_calls msg tool_calls content =
     (let kept_ids = List.map_filter (\<lambda>tc. nonempty_text (get_key tc ''id'')) tool_calls;
          kwargs = ai_additional_kwargs msg;
          synced = (case get_key kwargs ''tool_calls'' of
              PList raws \<Rightarrow>
                (case filter (\<lambda>raw. case raw_tool_call_id raw of None \<Rightarrow> False | Some i \<Rightarrow> i \<in> set kept_ids) raws of
                   [] \<Rightarrow> dpop ''tool_calls'' kwargs
                 | kept \<Rightarrow> dset ''tool_calls'' (PList kept) kwargs)
            | _ \<Rightarrow> kwargs)
      in msg\<lparr>ai_tool_calls := tool_calls,
             ai_content := (case content of None \<Rightarrow> ai_content msg | Some c \<Rightarrow> c),
             ai_additional_kwargs := (if tool_calls = [] then dpop ''function_call'' synced else synced),
             ai_response_metadata := (if tool_calls = [] then stopped_metadata (ai_response_metadata msg) else ai_response_metadata msg)\<rparr>)"

section \<open>Bounded dictionaries\<close>

text \<open>\<^verbatim>\<open>BoundedDict.__setitem__\<close>, and \<^verbatim>\<open>setdefault\<close>, which goes through it.\<close>

definition bounded_set :: "nat \<Rightarrow> 'k \<Rightarrow> 'v \<Rightarrow> ('k, 'v) dict \<Rightarrow> ('k, 'v) dict" where
  "bounded_set maxsize k v d = dset k v (if dget d k = None \<and> maxsize \<le> length d then tl d else d)"

definition bounded_default :: "nat \<Rightarrow> 'k \<Rightarrow> 'v \<Rightarrow> ('k, 'v) dict \<Rightarrow> ('k, 'v) dict" where
  "bounded_default maxsize k v d = (if dget d k = None then bounded_set maxsize k v d else d)"

lemma bounded_set_get [simp]: "dget (bounded_set maxsize k v d) k = Some v"
  by (simp add: bounded_set_def)

lemma dset_length: "length (dset k v d) = (if dget d k = None then Suc (length d) else length d)"
  by (metis dkeys_dset length_append_singleton length_map)

lemma bounded_set_length: "0 < maxsize \<Longrightarrow> length d \<le> maxsize \<Longrightarrow> length (bounded_set maxsize k v d) \<le> maxsize"
proof (cases d)
  case (Cons x xs)
  assume "0 < maxsize" "length d \<le> maxsize"
  then show ?thesis using Cons by (auto simp: bounded_set_def dset_length)
qed (simp add: bounded_set_def)

lemma bounded_set_wf: "wf_dict d \<Longrightarrow> wf_dict (bounded_set maxsize k v d)"
  by (cases d) (auto simp: bounded_set_def wf_dict_def distinct_update)

lemma bounded_default_length: "0 < maxsize \<Longrightarrow> length d \<le> maxsize \<Longrightarrow> length (bounded_default maxsize k v d) \<le> maxsize"
  by (simp add: bounded_default_def bounded_set_length)

lemma bounded_default_wf: "wf_dict d \<Longrightarrow> wf_dict (bounded_default maxsize k v d)"
  by (simp add: bounded_default_def bounded_set_wf)

lemma bounded_default_get: "dget (bounded_default maxsize k v d) k = Some (dget_default d k v)"
  by (auto simp: bounded_default_def dget_default_def split: option.split)

section \<open>Text of values\<close>

text \<open>\<^verbatim>\<open>json.dumps(v, sort_keys=True)\<close>.\<close>

fun json_sorted :: "pyval \<Rightarrow> string" where
  "json_sorted PNone = ''null''"
| "json_sorted (PBool b) = (if b then ''true'' else ''false'')"
| "json_sorted (PInt i) = int_str i"
| "json_sorted (PFloat r q) = r"
| "json_sorted (PStr s) = json_str s"
| "json_sorted (PList xs) = ''['' @ join_with '', '' (map json_sorted xs) @ '']''"
| "json_sorted (PDict d) =
     ''{'' @ join_with '', '' (map (\<lambda>(k, t). json_str k @ '': '' @ t) (sort_key fst (map (\<lambda>(k, v). (k, json_sorted v)) d))) @ ''}''"

text \<open>\<^verbatim>\<open>int(v)\<close>, with \<open>None\<close> for a \<^verbatim>\<open>TypeError\<close> or \<^verbatim>\<open>ValueError\<close>.\<close>

definition int_of :: "pyval \<Rightarrow> int option" where
  "int_of v =
     (case v of
        PInt i \<Rightarrow> Some i
      | PBool b \<Rightarrow> Some (if b then 1 else 0)
      | PFloat _ q \<Rightarrow> Some (if 0 \<le> q then \<lfloor>q\<rfloor> else - \<lfloor>- q\<rfloor>)
      | PStr s \<Rightarrow> parse_int s
      | _ \<Rightarrow> None)"

end
