(* ===== verification/Dangling_Calls.thy ===== *)
theory Dangling_Calls
  imports Agent_Messages "HOL-Library.Sublist"
begin

text \<open>
  The repair of transcripts before a model call, \<^verbatim>\<open>agents/middlewares/dangling_tool_call_middleware.py\<close>: every tool call gets its
  result right after it, a made-up one where there is none. The ids of calls are strings or absent, as the message classes declare; a raw
  list of calls that is no list counts as empty.
\<close>

section \<open>Names\<close>

definition unknown_tool_name :: string where "unknown_tool_name = ''unknown_tool''"

definition valid_tool_name :: "pyval \<Rightarrow> bool" where
  "valid_tool_name name = (case name of PStr s \<Rightarrow> str_strip s \<noteq> [] | _ \<Rightarrow> False)"

definition normalize_tool_name :: "pyval \<Rightarrow> string" where
  "normalize_tool_name name = (case name of PStr s \<Rightarrow> if str_strip s \<noteq> [] then str_strip s else unknown_tool_name | _ \<Rightarrow> unknown_tool_name)"

section \<open>The calls of a message\<close>

definition flag_name :: "pyval \<Rightarrow> tool_call \<Rightarrow> tool_call" where
  "flag_name name tc = (if valid_tool_name name then tc else dset ''invalid_tool_name'' (PBool True) tc)"

definition structured_call :: "tool_call \<Rightarrow> tool_call" where
  "structured_call tc = flag_name (get_key tc ''name'') (dset ''name'' (PStr (normalize_tool_name (get_key tc ''name''))) tc)"

definition raw_name :: "(string, pyval) dict \<Rightarrow> pyval" where
  "raw_name raw =
     (case get_key raw ''function'' of
        PDict f \<Rightarrow> if truthy (get_key raw ''name'') then get_key raw ''name'' else get_key f ''name''
      | _ \<Rightarrow> get_key raw ''name'')"

definition raw_args :: "float_reader \<Rightarrow> (string, pyval) dict \<Rightarrow> pyval" where
  "raw_args fo raw =
     (let args = get_default raw ''args'' (PDict []);
          args = (if truthy args then args
            else case get_key raw ''function'' of
              PDict f \<Rightarrow>
                (case get_key f ''arguments'' of
                   PStr s \<Rightarrow> (case json_loads fo s of Some (PDict d) \<Rightarrow> PDict d | _ \<Rightarrow> PDict [])
                 | _ \<Rightarrow> args)
            | _ \<Rightarrow> args)
      in case args of PDict d \<Rightarrow> PDict d | _ \<Rightarrow> PDict [])"

definition raw_call :: "float_reader \<Rightarrow> pyval \<Rightarrow> tool_call option" where
  "raw_call fo raw =
     (case raw of
        PDict d \<Rightarrow> Some (flag_name (raw_name d)
          [(''id'', get_key d ''id''), (''name'', PStr (normalize_tool_name (raw_name d))), (''args'', raw_args fo d)])
      | _ \<Rightarrow> None)"

definition invalid_call :: "tool_call \<Rightarrow> tool_call" where
  "invalid_call tc = flag_name (get_key tc ''name'')
     [(''id'', get_key tc ''id''), (''name'', PStr (normalize_tool_name (get_key tc ''name''))), (''args'', PDict []), (''invalid'', PBool True),
      (''error'', get_key tc ''error'')]"

definition raw_tool_calls :: "ai_message \<Rightarrow> pyval list" where
  "raw_tool_calls m = (case get_key (ai_additional_kwargs m) ''tool_calls'' of PList raws \<Rightarrow> raws | _ \<Rightarrow> [])"

definition message_tool_calls :: "float_reader \<Rightarrow> ai_message \<Rightarrow> tool_call list" where
  "message_tool_calls fo m =
     map structured_call (ai_tool_calls m) @
     (if ai_tool_calls m = [] then List.map_filter (raw_call fo) (raw_tool_calls m) else []) @
     map invalid_call (ai_invalid_tool_calls m)"

section \<open>Made-up results\<close>

definition max_recovery_error_detail :: nat where "max_recovery_error_detail = 500"

definition write_file_failed :: "string \<Rightarrow> string" where
  "write_file_failed details =
     ''[write_file failed before execution: the tool-call arguments were not valid JSON, so no file was written. This often happens when the model tries to write a very large Markdown file in a single tool call, especially when `content` contains unescaped quotes, inline JSON, backslashes, or code fences. Do not retry the same large `write_file` payload for this artifact; provide the report/content directly as normal assistant text in your next response. If a file write is still needed later, split the file into smaller sections instead of one large payload.'' @
     details @ '']''"

definition synthetic_tool_message_content :: "tool_call \<Rightarrow> string" where
  "synthetic_tool_message_content tc =
     (if truthy (get_key tc ''invalid_tool_name'')
      then ''[Tool call could not be executed because its name was missing or empty. Use one of the available tool names when retrying.]''
      else if truthy (get_key tc ''invalid'')
      then
        let error_text = (case get_key tc ''error'' of PStr s \<Rightarrow> take max_recovery_error_detail s | _ \<Rightarrow> []) in
        if get_key tc ''name'' = PStr ''write_file'' then write_file_failed (if error_text = [] then [] else '' Parser error: '' @ error_text)
        else if error_text \<noteq> [] then ''[Tool call could not be executed because its arguments were invalid: '' @ error_text @ '']''
        else ''[Tool call could not be executed because its arguments were invalid.]''
      else ''[Tool call was interrupted and did not return a result.]'')"

section \<open>Names in the message itself\<close>

definition sanitize_call :: "tool_call \<Rightarrow> tool_call" where
  "sanitize_call tc =
     (let name = PStr (normalize_tool_name (get_key tc ''name'')) in if get_key tc ''name'' \<noteq> name then dset ''name'' name tc else tc)"

definition sanitize_raw :: "pyval \<Rightarrow> pyval" where
  "sanitize_raw raw =
     (case raw of
        PDict d \<Rightarrow>
          (case get_key d ''function'' of
             PDict f \<Rightarrow>
               (let name = PStr (normalize_tool_name (get_key f ''name'')) in
                if get_key f ''name'' \<noteq> name then PDict (dset ''function'' (PDict (dset ''name'' name f)) d) else raw)
           | _ \<Rightarrow>
               (let name = PStr (normalize_tool_name (get_key d ''name'')) in
                if get_key d ''name'' \<noteq> name then PDict (dset ''name'' name d) else raw))
      | _ \<Rightarrow> raw)"

text \<open>The copy is only made where a name changes; the other fields are those of the message.\<close>

definition sanitize_ai_message :: "ai_message \<Rightarrow> ai_message" where
  "sanitize_ai_message m =
     m\<lparr>ai_tool_calls := map sanitize_call (ai_tool_calls m),
       ai_additional_kwargs :=
         (case get_key (ai_additional_kwargs m) ''tool_calls'' of
            PList raws \<Rightarrow> if map sanitize_raw raws \<noteq> raws then dset ''tool_calls'' (PList (map sanitize_raw raws)) (ai_additional_kwargs m)
                          else ai_additional_kwargs m
          | _ \<Rightarrow> ai_additional_kwargs m)\<rparr>"

section \<open>The repair\<close>

definition call_id :: "tool_call \<Rightarrow> string option" where
  "call_id tc = nonempty_text (get_key tc ''id'')"

definition call_ids :: "float_reader \<Rightarrow> ai_message \<Rightarrow> string list" where
  "call_ids fo m = List.map_filter call_id (message_tool_calls fo m)"

definition tool_call_ids :: "float_reader \<Rightarrow> message list \<Rightarrow> string list" where
  "tool_call_ids fo messages = concat (map (\<lambda>msg. case msg of AIMessage m \<Rightarrow> call_ids fo m | _ \<Rightarrow> []) messages)"

type_synonym result_queues = "(string, tool_message list) dict"

definition tool_messages_by_id :: "message list \<Rightarrow> result_queues" where
  "tool_messages_by_id messages =
     fold (\<lambda>msg q. case msg of ToolMessage t \<Rightarrow> dset (tm_tool_call_id t) (dget_default q (tm_tool_call_id t) [] @ [t]) q | _ \<Rightarrow> q) messages []"

definition fix_result_name :: "tool_call \<Rightarrow> tool_message \<Rightarrow> tool_message" where
  "fix_result_name tc t =
     (if truthy (get_key tc ''invalid_tool_name'') \<and> \<not> valid_tool_name (tm_name t) then t\<lparr>tm_name := get_key tc ''name''\<rparr> else t)"

definition synthetic_result :: "tool_call \<Rightarrow> string \<Rightarrow> tool_message" where
  "synthetic_result tc i =
     \<lparr>tm_tool_call_id = i, tm_name = get_default tc ''name'' (PStr ''unknown''), tm_content = PStr (synthetic_tool_message_content tc), tm_status = ''error'',
      tm_additional_kwargs = []\<rparr>"

fun answer_calls :: "tool_call list \<Rightarrow> result_queues \<Rightarrow> tool_message list \<times> result_queues" where
  "answer_calls [] q = ([], q)"
| "answer_calls (tc # tcs) q =
     (case call_id tc of
        None \<Rightarrow> answer_calls tcs q
      | Some i \<Rightarrow>
          (case dget_default q i [] of
             [] \<Rightarrow> let (ts, q') = answer_calls tcs q in (synthetic_result tc i # ts, q')
           | t # rest \<Rightarrow> let (ts, q') = answer_calls tcs (dset i rest q) in (fix_result_name tc t # ts, q')))"

fun patch :: "float_reader \<Rightarrow> string list \<Rightarrow> result_queues \<Rightarrow> message list \<Rightarrow> message list" where
  "patch fo ids q [] = []"
| "patch fo ids q (ToolMessage t # ms) = (if tm_tool_call_id t \<in> set ids then patch fo ids q ms else ToolMessage t # patch fo ids q ms)"
| "patch fo ids q (AIMessage m # ms) =
     (let (ts, q') = answer_calls (message_tool_calls fo m) q in AIMessage (sanitize_ai_message m) # map ToolMessage ts @ patch fo ids q' ms)"
| "patch fo ids q (msg # ms) = msg # patch fo ids q ms"

definition build_patched_messages :: "float_reader \<Rightarrow> message list \<Rightarrow> message list option" where
  "build_patched_messages fo messages =
     (let patched = patch fo (tool_call_ids fo messages) (tool_messages_by_id messages) messages
      in if patched = messages then None else Some patched)"

definition patched_request :: "float_reader \<Rightarrow> message list \<Rightarrow> message list" where
  "patched_request fo messages = (case build_patched_messages fo messages of None \<Rightarrow> messages | Some patched \<Rightarrow> patched)"

lemma patched_request_eq: "patched_request fo messages = patch fo (tool_call_ids fo messages) (tool_messages_by_id messages) messages"
  by (simp add: patched_request_def build_patched_messages_def Let_def)

section \<open>Names become valid\<close>

lemma unknown_tool_strip: "str_strip unknown_tool_name = unknown_tool_name" "unknown_tool_name \<noteq> []"
  by code_simp+

lemma normalized_name [simp]: "str_strip (normalize_tool_name v) = normalize_tool_name v" "normalize_tool_name v \<noteq> []"
    "normalize_tool_name (PStr (normalize_tool_name v)) = normalize_tool_name v" "valid_tool_name (PStr (normalize_tool_name v))"
proof -
  show strip: "str_strip (normalize_tool_name v) = normalize_tool_name v" and ne: "normalize_tool_name v \<noteq> []"
    using unknown_tool_strip by (auto simp: normalize_tool_name_def split: pyval.split)
  show "normalize_tool_name (PStr (normalize_tool_name v)) = normalize_tool_name v" "valid_tool_name (PStr (normalize_tool_name v))"
    using strip ne unfolding normalize_tool_name_def [of "PStr (normalize_tool_name v)"] valid_tool_name_def by simp_all
qed

lemma get_key_dset [simp]: "get_key (dset k v d) k' = (if k' = k then v else get_key d k')"
  by (simp add: get_key_def)

lemma get_key_item [simp]: "get_key ((k, v) # d) k' = (if k' = k then v else get_key d k')"
  by (simp add: get_key_def)

lemma sanitize_call_eq: "sanitize_call tc = dset ''name'' (PStr (normalize_tool_name (get_key tc ''name''))) tc \<or> sanitize_call tc = tc"
  by (simp add: sanitize_call_def Let_def)

lemma sanitize_call_name: "get_key (sanitize_call tc) ''name'' = PStr (normalize_tool_name (get_key tc ''name''))"
  by (simp add: sanitize_call_def Let_def)

lemma sanitize_call_idem: "sanitize_call (sanitize_call tc) = sanitize_call tc"
  unfolding sanitize_call_def [of "sanitize_call tc"] sanitize_call_name by simp

lemma sanitize_raw_idem: "sanitize_raw (sanitize_raw raw) = sanitize_raw raw"
  by (cases raw) (auto simp: sanitize_raw_def Let_def split: pyval.split)

lemma sanitize_raw_tool_calls: "raw_tool_calls (sanitize_ai_message m) = map sanitize_raw (raw_tool_calls m)"
  by (auto simp: raw_tool_calls_def sanitize_ai_message_def split: pyval.split)

lemma sanitize_ai_message_idem: "sanitize_ai_message (sanitize_ai_message m) = sanitize_ai_message m"
proof -
  have raws: "map sanitize_raw (map sanitize_raw rs) = map sanitize_raw rs" for rs by (simp add: sanitize_raw_idem)
  show ?thesis
    by (cases "get_key (ai_additional_kwargs m) ''tool_calls''") (auto simp: sanitize_ai_message_def sanitize_call_idem raws comp_def sanitize_raw_idem)
qed

text \<open>A repaired message has the same calls; no call is flagged for its name that was not before.\<close>

definition same_call :: "tool_call \<Rightarrow> tool_call \<Rightarrow> bool" where
  "same_call tc tc' \<longleftrightarrow> call_id tc' = call_id tc \<and> (truthy (get_key tc' ''invalid_tool_name'') \<longrightarrow> truthy (get_key tc ''invalid_tool_name''))"

lemma same_call_refl: "same_call tc tc"
  by (simp add: same_call_def)

lemma same_structured: "same_call (structured_call tc) (structured_call (sanitize_call tc))"
proof -
  have "get_key (sanitize_call tc) k = (if k = ''name'' then PStr (normalize_tool_name (get_key tc ''name'')) else get_key tc k)" for k
    by (auto simp: sanitize_call_def Let_def)
  then show ?thesis by (auto simp: same_call_def structured_call_def flag_name_def call_id_def truthy_def)
qed

lemma raw_call_name: "raw_call fo (PDict d) = Some tc \<Longrightarrow> call_id tc = nonempty_text (get_key d ''id'') \<and> (truthy (get_key tc ''invalid_tool_name'') \<longleftrightarrow> \<not> valid_tool_name (raw_name d))"
  by (auto simp: raw_call_def flag_name_def call_id_def truthy_def get_key_def [of "[]"])

lemma sanitize_raw_dict:
  assumes "sanitize_raw (PDict d) = PDict d'"
  shows "get_key d' ''id'' = get_key d ''id'' \<and> (valid_tool_name (raw_name d) \<longrightarrow> valid_tool_name (raw_name d'))"
proof (cases "\<exists>f. get_key d ''function'' = PDict f")
  case True
  then obtain f where f: "get_key d ''function'' = PDict f" by blast
  let ?n = "PStr (normalize_tool_name (get_key f ''name''))"
  from assms f have "d' = d \<or> d' = dset ''function'' (PDict (dset ''name'' ?n f)) d" by (auto simp: sanitize_raw_def Let_def split: if_split_asm)
  with f show ?thesis by (auto simp: raw_name_def)
next
  case False
  let ?n = "PStr (normalize_tool_name (get_key d ''name''))"
  have raw: "sanitize_raw (PDict d) = (if get_key d ''name'' \<noteq> ?n then PDict (dset ''name'' ?n d) else PDict d)"
    using False by (cases "get_key d ''function''") (simp_all add: sanitize_raw_def Let_def)
  with assms have "d' = d \<or> d' = dset ''name'' ?n d" by (auto split: if_split_asm)
  moreover have "raw_name e = get_key e ''name''" if "get_key e ''function'' = get_key d ''function''" for e
    using False that by (cases "get_key d ''function''") (simp_all add: raw_name_def)
  ultimately show ?thesis by auto
qed

lemma same_raw: "list_all2 same_call (List.map_filter (raw_call fo) raws) (List.map_filter (raw_call fo) (map sanitize_raw raws))"
proof (induction raws)
  case (Cons raw raws)
  show ?case
  proof (cases "\<exists>d. raw = PDict d")
    case True
    then obtain d where d: "raw = PDict d" by blast
    have "\<exists>d'. sanitize_raw (PDict d) = PDict d'"
      by (cases "get_key d ''function''") (simp_all add: sanitize_raw_def Let_def)
    then obtain d' where d': "sanitize_raw (PDict d) = PDict d'" ..
    obtain tc tc' where tc: "raw_call fo (PDict d) = Some tc" "raw_call fo (PDict d') = Some tc'" by (simp add: raw_call_def)
    have "same_call tc tc'"
      using raw_call_name [OF tc(1)] raw_call_name [OF tc(2)] sanitize_raw_dict [OF d'] by (auto simp: same_call_def)
    with Cons d d' tc show ?thesis by (simp add: map_filter_simps)
  next
    case False
    then have "raw_call fo raw = None" "sanitize_raw raw = raw" by (cases raw; simp add: raw_call_def sanitize_raw_def)+
    with Cons show ?thesis by (simp add: map_filter_simps)
  qed
qed (simp add: map_filter_simps)

lemma same_message_calls: "list_all2 same_call (message_tool_calls fo m) (message_tool_calls fo (sanitize_ai_message m))"
proof -
  have tcs: "ai_tool_calls (sanitize_ai_message m) = map sanitize_call (ai_tool_calls m)" "ai_invalid_tool_calls (sanitize_ai_message m) = ai_invalid_tool_calls m"
    by (simp_all add: sanitize_ai_message_def)
  have "list_all2 same_call (map structured_call xs) (map structured_call (map sanitize_call xs))" for xs
    by (induction xs) (simp_all add: same_structured)
  moreover have "list_all2 same_call xs xs" for xs by (simp add: list.rel_refl same_call_refl)
  ultimately show ?thesis unfolding message_tool_calls_def tcs sanitize_raw_tool_calls by (auto intro!: list_all2_appendI same_raw)
qed

text \<open>The calls that can be answered.\<close>

definition answerable :: "float_reader \<Rightarrow> ai_message \<Rightarrow> tool_call list" where
  "answerable fo m = filter (\<lambda>tc. call_id tc \<noteq> None) (message_tool_calls fo m)"

lemma call_ids_answerable: "map Some (call_ids fo m) = map call_id (answerable fo m)"
proof -
  have "map Some (List.map_filter call_id tcs) = map call_id (filter (\<lambda>tc. call_id tc \<noteq> None) tcs)" for tcs
    by (induction tcs) (auto simp: map_filter_simps)
  then show ?thesis by (simp add: call_ids_def answerable_def)
qed

lemma same_answerable: "list_all2 same_call (answerable fo m) (answerable fo (sanitize_ai_message m))"
proof -
  have "list_all2 same_call (filter (\<lambda>tc. call_id tc \<noteq> None) xs) (filter (\<lambda>tc. call_id tc \<noteq> None) ys)" if "list_all2 same_call xs ys" for xs ys
    using that by (induction rule: list_all2_induct) (auto simp: same_call_def)
  then show ?thesis unfolding answerable_def using same_message_calls by blast
qed

lemma call_ids_sanitize: "call_ids fo (sanitize_ai_message m) = call_ids fo m"
proof -
  have "map call_id ys = map call_id xs" if "list_all2 same_call xs ys" for xs ys
    using that by (induction rule: list_all2_induct) (auto simp: same_call_def)
  from this [OF same_answerable [of fo m]] show ?thesis unfolding call_ids_answerable [symmetric] by (simp add: inj_map_eq_map)
qed

section \<open>Transcripts in order\<close>

text \<open>A result that belongs to a call and needs no other name.\<close>

definition settles :: "tool_call \<Rightarrow> tool_message \<Rightarrow> bool" where
  "settles tc t \<longleftrightarrow> call_id tc = Some (tm_tool_call_id t) \<and> (truthy (get_key tc ''invalid_tool_name'') \<longrightarrow> valid_tool_name (tm_name t))"

lemma settles_fixed: "settles tc t \<Longrightarrow> fix_result_name tc t = t"
  by (auto simp: settles_def fix_result_name_def)

text \<open>Every assistant message is in its repaired form and is followed by the results of its calls, in their order; no other result belongs to a call.\<close>

inductive settled :: "float_reader \<Rightarrow> string list \<Rightarrow> message list \<Rightarrow> bool" for fo ids where
  settled_end: "settled fo ids []"
| settled_ai: "sanitize_ai_message m = m \<Longrightarrow> set (call_ids fo m) \<subseteq> set ids \<Longrightarrow> list_all2 settles (answerable fo m) ts \<Longrightarrow> settled fo ids ms \<Longrightarrow>
    settled fo ids (AIMessage m # map ToolMessage ts @ ms)"
| settled_orphan: "tm_tool_call_id t \<notin> set ids \<Longrightarrow> settled fo ids ms \<Longrightarrow> settled fo ids (ToolMessage t # ms)"
| settled_human: "settled fo ids ms \<Longrightarrow> settled fo ids (HumanMessage n c # ms)"
| settled_system: "settled fo ids ms \<Longrightarrow> settled fo ids (SystemMessage c # ms)"

lemma fix_result_settles: "call_id tc = Some (tm_tool_call_id t) \<Longrightarrow> valid_tool_name (get_key tc ''name'') \<Longrightarrow> settles tc (fix_result_name tc t)"
  by (simp add: settles_def fix_result_name_def)

lemma message_call_names: "tc \<in> set (message_tool_calls fo m) \<Longrightarrow> valid_tool_name (get_key tc ''name'')"
  by (auto simp: message_tool_calls_def structured_call_def raw_call_def invalid_call_def flag_name_def map_filter_def split: pyval.split_asm if_split_asm)

definition queue_ids :: "result_queues \<Rightarrow> bool" where
  "queue_ids q \<longleftrightarrow> (\<forall>i t. t \<in> set (dget_default q i []) \<longrightarrow> tm_tool_call_id t = i)"

lemma queue_ids_pop: "queue_ids q \<Longrightarrow> dget_default q i [] = t # rest \<Longrightarrow> queue_ids (dset i rest q) \<and> tm_tool_call_id t = i"
  by (auto simp: queue_ids_def dget_default_def split: if_split_asm option.split_asm)

lemma answer_calls_settles:
  assumes "queue_ids q" and "\<forall>tc\<in>set tcs. valid_tool_name (get_key tc ''name'')"
  shows "list_all2 settles (filter (\<lambda>tc. call_id tc \<noteq> None) tcs) (fst (answer_calls tcs q)) \<and> queue_ids (snd (answer_calls tcs q))"
  using assms
proof (induction tcs q rule: answer_calls.induct)
  case (2 tc tcs q)
  show ?case
  proof (cases "call_id tc")
    case None
    with 2 show ?thesis by simp
  next
    case (Some i)
    show ?thesis
    proof (cases "dget_default q i []")
      case Nil
      have "valid_tool_name (get_key tc ''name'')" using "2.prems"(2) by simp
      then have "valid_tool_name (get_default tc ''name'' (PStr ''unknown''))"
        by (cases "dget tc ''name''") (simp_all add: get_key_def get_default_def valid_tool_name_def)
      with Some have "settles tc (synthetic_result tc i)" by (simp add: settles_def synthetic_result_def)
      with 2 Some Nil show ?thesis by (auto simp: case_prod_beta)
    next
      case (Cons t rest)
      from queue_ids_pop [OF "2.prems"(1) this] have q: "queue_ids (dset i rest q)" "tm_tool_call_id t = i" by auto
      have "settles tc (fix_result_name tc t)" using fix_result_settles 2 Some q(2) by simp
      with 2 Some Cons q show ?thesis by (auto simp: case_prod_beta)
    qed
  qed
qed simp

lemma settles_sanitized:
  assumes "list_all2 settles (answerable fo m) ts"
  shows "list_all2 settles (answerable fo (sanitize_ai_message m)) ts"
proof -
  have step: "settles tc' t" if "same_call tc tc'" "settles tc t" for tc tc' t
    using that by (auto simp: same_call_def settles_def)
  have "list_all2 settles ys ts" if "list_all2 same_call xs ys" "list_all2 settles xs ts" for xs ys
    using that by (induction xs ys arbitrary: ts rule: list_all2_induct) (auto simp: list_all2_Cons1 intro: step)
  with same_answerable assms show ?thesis by blast
qed

text \<open>The results of a call in a transcript.\<close>

definition results_of :: "string \<Rightarrow> message list \<Rightarrow> tool_message list" where
  "results_of i ms = List.map_filter (\<lambda>msg. case msg of ToolMessage t \<Rightarrow> if tm_tool_call_id t = i then Some t else None | _ \<Rightarrow> None) ms"

lemma results_of_simps [simp]:
  "results_of i [] = []" "results_of i (ToolMessage t # ms) = (if tm_tool_call_id t = i then t # results_of i ms else results_of i ms)"
  "results_of i (AIMessage m # ms) = results_of i ms" "results_of i (HumanMessage n c # ms) = results_of i ms" "results_of i (SystemMessage c # ms) = results_of i ms"
  "results_of i (xs @ ys) = results_of i xs @ results_of i ys"
  by (simp_all add: results_of_def map_filter_simps map_filter_def)

lemma by_id_results: "dget_default (tool_messages_by_id messages) i [] = results_of i messages"
proof -
  have "dget_default (fold (\<lambda>msg q. case msg of ToolMessage t \<Rightarrow> dset (tm_tool_call_id t) (dget_default q (tm_tool_call_id t) [] @ [t]) q | _ \<Rightarrow> q) ms q) i [] =
      dget_default q i [] @ results_of i ms" for ms q
  proof (induction ms arbitrary: q)
    case (Cons msg ms)
    then show ?case by (cases msg) (auto simp: dget_default_def split: if_split)
  qed simp
  from this [of messages "[]"] show ?thesis by (simp add: tool_messages_by_id_def dget_default_def)
qed

lemma queue_ids_by_id: "queue_ids (tool_messages_by_id messages)"
proof -
  have "tm_tool_call_id t = i" if "t \<in> set (results_of i ms)" for t i ms
    using that by (auto simp: results_of_def List.map_filter_def split: message.split_asm if_split_asm)
  then show ?thesis by (simp add: queue_ids_def by_id_results)
qed

text \<open>What the repair builds is in order.\<close>

lemma patch_settled:
  "queue_ids q \<Longrightarrow> set (tool_call_ids fo ms) \<subseteq> set ids \<Longrightarrow> settled fo ids (patch fo ids q ms)"
proof (induction fo ids q ms rule: patch.induct)
  case (3 fo ids q m ms)
  obtain ts q' where a: "answer_calls (message_tool_calls fo m) q = (ts, q')" by (metis prod.exhaust)
  have "\<forall>tc\<in>set (message_tool_calls fo m). valid_tool_name (get_key tc ''name'')" by (simp add: message_call_names)
  from answer_calls_settles [OF "3.prems"(1) this] have ts: "list_all2 settles (answerable fo m) ts" and q': "queue_ids q'"
    by (simp_all add: a answerable_def)
  have "settled fo ids (patch fo ids q' ms)" using "3.IH" [OF a [symmetric]] q' "3.prems"(2) by (simp add: tool_call_ids_def)
  moreover have "set (call_ids fo (sanitize_ai_message m)) \<subseteq> set ids" using "3.prems"(2) by (simp add: call_ids_sanitize tool_call_ids_def)
  ultimately show ?case by (simp add: a settled_ai sanitize_ai_message_idem settles_sanitized [OF ts])
qed (auto intro: settled.intros simp: tool_call_ids_def)

text \<open>What is in order is left as it is.\<close>

lemma answer_calls_settled:
  assumes "list_all2 settles (filter (\<lambda>tc. call_id tc \<noteq> None) tcs) ts"
    and "\<And>i. i \<in> set (List.map_filter call_id tcs) \<Longrightarrow> dget_default q i [] = results_of i (map ToolMessage ts) @ rest i"
    and "\<And>i. i \<in> ids \<Longrightarrow> dget_default q i [] = results_of i (map ToolMessage ts) @ rest i"
  shows "fst (answer_calls tcs q) = ts \<and> (\<forall>i\<in>ids. dget_default (snd (answer_calls tcs q)) i [] = rest i)"
  using assms
proof (induction tcs q arbitrary: ts rule: answer_calls.induct)
  case (2 tc tcs q)
  show ?case
  proof (cases "call_id tc")
    case None
    with 2 show ?thesis by (simp add: map_filter_simps)
  next
    case (Some i)
    with "2.prems"(1) obtain t ts' where ts: "ts = t # ts'" and t: "settles tc t" and rest: "list_all2 settles (filter (\<lambda>tc. call_id tc \<noteq> None) tcs) ts'"
      by (auto simp: list_all2_Cons1)
    have i: "tm_tool_call_id t = i" using t Some by (simp add: settles_def)
    have q: "dget_default q i [] = t # (results_of i (map ToolMessage ts') @ rest i)" using "2.prems"(2) [of i] Some ts i by (simp add: map_filter_simps)
    let ?q = "dset i (results_of i (map ToolMessage ts') @ rest i) q"
    have pop: "dget_default ?q j [] = results_of j (map ToolMessage ts') @ rest j" if "j \<in> set (List.map_filter call_id tcs) \<or> j \<in> ids" for j
      using that "2.prems"(2,3) [of j] Some ts i by (auto simp: dget_default_def map_filter_simps)
    from "2.IH"(3) [OF Some q rest] pop have "fst (answer_calls tcs ?q) = ts' \<and> (\<forall>i\<in>ids. dget_default (snd (answer_calls tcs ?q)) i [] = rest i)" by blast
    with Some q ts settles_fixed [OF t] show ?thesis by (simp add: case_prod_beta)
  qed
qed simp

lemma patch_skips: "\<forall>t\<in>set ts. tm_tool_call_id t \<in> set ids \<Longrightarrow> patch fo ids q (map ToolMessage ts @ ms) = patch fo ids q ms"
  by (induction ts) auto

lemma settled_ids: "list_all2 settles (answerable fo m) ts \<Longrightarrow> map tm_tool_call_id ts = call_ids fo m"
proof -
  assume "list_all2 settles (answerable fo m) ts"
  then have "map call_id (answerable fo m) = map Some (map tm_tool_call_id ts)" by (induction rule: list_all2_induct) (auto simp: settles_def)
  then have "map the (map Some (call_ids fo m)) = map the (map Some (map tm_tool_call_id ts))" unfolding call_ids_answerable [symmetric] by (rule arg_cong)
  then show ?thesis by (simp add: comp_def)
qed

lemma patch_fixed:
  "settled fo ids ms \<Longrightarrow> \<forall>i\<in>set ids. dget_default q i [] = results_of i ms \<Longrightarrow> patch fo ids q ms = ms"
proof (induction arbitrary: q rule: settled.induct)
  case (settled_ai m ts ms)
  have ids: "set (map tm_tool_call_id ts) \<subseteq> set ids" using settled_ids [OF settled_ai(3)] settled_ai(2) by simp
  obtain q' where a: "answer_calls (message_tool_calls fo m) q = (ts, q')" and q': "\<forall>i\<in>set ids. dget_default q' i [] = results_of i ms"
  proof -
    have "dget_default q i [] = results_of i (map ToolMessage ts) @ results_of i ms" if "i \<in> set ids" for i using settled_ai.prems that by simp
    then have "fst (answer_calls (message_tool_calls fo m) q) = ts \<and> (\<forall>i\<in>set ids. dget_default (snd (answer_calls (message_tool_calls fo m) q)) i [] = results_of i ms)"
      using settled_ai(2,3) by (intro answer_calls_settled) (auto simp: answerable_def call_ids_def)
    then show thesis using that [of "snd (answer_calls (message_tool_calls fo m) q)"] by (metis prod.collapse)
  qed
  from settled_ai.IH [OF q'] patch_skips [of ts ids fo q' ms] ids show ?case by (auto simp: a settled_ai(1))
next
  case (settled_orphan t ms)
  then have "\<forall>i\<in>set ids. dget_default q i [] = results_of i ms" by auto
  with settled_orphan show ?case by simp
qed auto

lemma tool_call_ids_patch: "tool_call_ids fo (patch fo ids q ms) = tool_call_ids fo ms"
proof (induction fo ids q ms rule: patch.induct)
  case (3 fo ids q m ms)
  obtain ts q' where a: "answer_calls (message_tool_calls fo m) q = (ts, q')" by (metis prod.exhaust)
  have "tool_call_ids fo (map ToolMessage ts @ xs) = tool_call_ids fo xs" for xs by (induction ts) (simp_all add: tool_call_ids_def)
  with 3 [OF a [symmetric]] show ?case by (simp add: a) (simp add: tool_call_ids_def call_ids_sanitize)
qed (simp_all add: tool_call_ids_def)

section \<open>Nothing is lost\<close>

definition spoken :: "message list \<Rightarrow> message list" where
  "spoken ms = filter (\<lambda>msg. case msg of ToolMessage _ \<Rightarrow> False | _ \<Rightarrow> True) ms"

definition repaired :: "message \<Rightarrow> message" where
  "repaired msg = (case msg of AIMessage m \<Rightarrow> AIMessage (sanitize_ai_message m) | _ \<Rightarrow> msg)"

lemma spoken_patch: "spoken (patch fo ids q ms) = map repaired (spoken ms)"
proof (induction fo ids q ms rule: patch.induct)
  case (3 fo ids q m ms)
  obtain ts q' where a: "answer_calls (message_tool_calls fo m) q = (ts, q')" by (metis prod.exhaust)
  have "spoken (map ToolMessage ts @ xs) = spoken xs" for xs by (induction ts) (simp_all add: spoken_def)
  with 3 [OF a [symmetric]] show ?case by (simp add: a) (simp add: spoken_def repaired_def)
qed (simp_all add: spoken_def repaired_def)

lemma prefix_compose:
  assumes "prefix (take n xs) ys" and "length ys = n" and "prefix (take k (drop n xs)) zs"
  shows "prefix (take (n + k) xs) (ys @ zs)"
proof (cases "n \<le> length xs")
  case True
  then have "length (take n xs) = length ys" using assms(2) by simp
  with assms(1) have "take n xs = ys" by (auto simp: prefix_def)
  with assms(3) show ?thesis by (simp add: take_add)
next
  case False
  with assms(1) show ?thesis by simp
qed

lemma answer_calls_results:
  assumes "queue_ids q"
  shows "length (results_of i (map ToolMessage (fst (answer_calls tcs q)))) = count_list (List.map_filter call_id tcs) i \<and>
    prefix (take (count_list (List.map_filter call_id tcs) i) (map tm_content (dget_default q i [])))
      (map tm_content (results_of i (map ToolMessage (fst (answer_calls tcs q))))) \<and>
    dget_default (snd (answer_calls tcs q)) i [] = drop (count_list (List.map_filter call_id tcs) i) (dget_default q i [])"
  using assms
proof (induction tcs q rule: answer_calls.induct)
  case (2 tc tcs q)
  show ?case
  proof (cases "call_id tc")
    case None
    with 2 show ?thesis by (simp add: map_filter_simps)
  next
    case (Some j)
    show ?thesis
    proof (cases "dget_default q j []")
      case Nil
      with 2 Some show ?thesis by (auto simp: case_prod_beta map_filter_simps synthetic_result_def)
    next
      case (Cons t rest)
      from queue_ids_pop [OF "2.prems" this] have q: "queue_ids (dset j rest q)" "tm_tool_call_id t = j" by auto
      have same: "tm_tool_call_id (fix_result_name tc t) = j" "tm_content (fix_result_name tc t) = tm_content t" using q(2) by (simp_all add: fix_result_name_def)
      have "dget_default (dset j rest q) i [] = (if i = j then rest else dget_default q i [])" by (simp add: dget_default_def)
      with "2.IH"(3) [OF Some Cons q(1)] Some Cons same show ?thesis by (auto simp: case_prod_beta map_filter_simps)
    qed
  qed
qed (simp add: map_filter_simps)

lemma patch_results:
  assumes "queue_ids q" and "set (tool_call_ids fo ms) \<subseteq> set ids"
  shows "(i \<in> set ids \<longrightarrow> length (results_of i (patch fo ids q ms)) = count_list (tool_call_ids fo ms) i \<and>
      prefix (take (count_list (tool_call_ids fo ms) i) (map tm_content (dget_default q i []))) (map tm_content (results_of i (patch fo ids q ms)))) \<and>
    (i \<notin> set ids \<longrightarrow> results_of i (patch fo ids q ms) = results_of i ms)"
  using assms
proof (induction fo ids q ms rule: patch.induct)
  case (3 fo ids q m ms)
  obtain ts q' where a: "answer_calls (message_tool_calls fo m) q = (ts, q')" by (metis prod.exhaust)
  have q': "queue_ids q'" using answer_calls_settles [OF "3.prems"(1), of "message_tool_calls fo m"] message_call_names by (simp add: a)
  note r = answer_calls_results [OF "3.prems"(1), of i "message_tool_calls fo m", unfolded a fst_conv snd_conv, folded call_ids_def]
  have ids: "tool_call_ids fo (AIMessage m # ms) = call_ids fo m @ tool_call_ids fo ms" by (simp add: tool_call_ids_def)
  have sub: "set (call_ids fo m) \<subseteq> set ids" "set (tool_call_ids fo ms) \<subseteq> set ids" using "3.prems"(2) by (simp_all add: ids)
  note IH = "3.IH" [OF a [symmetric] refl q' sub(2)]
  show ?case
  proof (cases "i \<in> set ids")
    case True
    with IH r prefix_compose [of "count_list (call_ids fo m) i" "map tm_content (dget_default q i [])" "map tm_content (results_of i (map ToolMessage ts))"]
    show ?thesis unfolding ids by (simp add: a drop_map)
  next
    case False
    then have "count_list (call_ids fo m) i = 0" using sub(1) by (auto simp: count_list_0_iff)
    with r have "results_of i (map ToolMessage ts) = []" by simp
    with IH False show ?thesis by (simp add: a)
  qed
qed (auto simp: tool_call_ids_def)


end
