(* ===== verification/Event_Store.thy ===== *)
theory Event_Store
  imports Py_Values
begin

text \<open>
  The store of run events, \<^verbatim>\<open>deerflow/runtime/events/store\<close>: the interface \<^verbatim>\<open>RunEventStore\<close> of \<^verbatim>\<open>base.py\<close> as the locale
  \<open>event_store\<close> over an abstract log, and the in-memory store of \<^verbatim>\<open>memory.py\<close>, which keeps four projections of each
  thread's events and pages through them with binary search.
\<close>

section \<open>Events\<close>

text \<open>An event is the dictionary the code builds.\<close>

type_synonym event = "(string, pyval) dict"

record event_input =
  in_thread_id :: string
  in_run_id :: string
  in_event_type :: string
  in_category :: string
  in_content :: pyval
  in_metadata :: "(string, pyval) dict option"
  in_created_at :: "string option"

text \<open>\<open>now\<close> is \<^verbatim>\<open>datetime.now(UTC).isoformat()\<close>.\<close>

definition new_record :: "string \<Rightarrow> event_input \<Rightarrow> int \<Rightarrow> event" where
  "new_record now i seq =
     [(''thread_id'', PStr (in_thread_id i)), (''run_id'', PStr (in_run_id i)), (''event_type'', PStr (in_event_type i)),
      (''category'', PStr (in_category i)), (''content'', in_content i),
      (''metadata'', PDict (case in_metadata i of None \<Rightarrow> [] | Some m \<Rightarrow> m)), (''seq'', PInt seq),
      (''created_at'', PStr (case in_created_at i of None \<Rightarrow> now | Some s \<Rightarrow> if s = '''' then now else s))]"

definition ev_seq :: "event \<Rightarrow> int" where
  "ev_seq e = (case dget e ''seq'' of Some (PInt n) \<Rightarrow> n | _ \<Rightarrow> 0)"

definition has_text :: "string \<Rightarrow> string \<Rightarrow> event \<Rightarrow> bool" where
  "has_text k s e \<longleftrightarrow> dget e k = Some (PStr s)"

abbreviation is_message :: "event \<Rightarrow> bool" where "is_message \<equiv> has_text ''category'' ''message''"

abbreviation of_run :: "string \<Rightarrow> event \<Rightarrow> bool" where "of_run \<equiv> has_text ''run_id''"

definition of_type :: "string list \<Rightarrow> event \<Rightarrow> bool" where
  "of_type types e \<longleftrightarrow> list_ex (\<lambda>t. has_text ''event_type'' t e) types"

definition of_task :: "string \<Rightarrow> event \<Rightarrow> bool" where
  "of_task task e = (case dict_of (get_key e ''metadata'') of None \<Rightarrow> False | Some m \<Rightarrow> dget m ''task_id'' = Some (PStr task))"

section \<open>The log a store keeps\<close>

record event_log =
  lg_events :: "string \<Rightarrow> event list"
  lg_last :: "string \<Rightarrow> int"

definition empty_log :: event_log where
  "empty_log = \<lparr>lg_events = (\<lambda>_. []), lg_last = (\<lambda>_. 0)\<rparr>"

definition last_n :: "nat \<Rightarrow> 'a list \<Rightarrow> 'a list" where
  "last_n n xs = drop (length xs - n) xs"

definition log_put :: "string \<Rightarrow> event_input \<Rightarrow> event_log \<Rightarrow> event_log" where
  "log_put now i g =
     (let t = in_thread_id i; seq = lg_last g t + 1 in
      g\<lparr>lg_events := (lg_events g)(t := lg_events g t @ [new_record now i seq]), lg_last := (lg_last g)(t := seq)\<rparr>)"

text \<open>The page of a cursor: the first of what is after it, or the last of what is before it, or the latest.\<close>

definition page :: "int \<Rightarrow> int option \<Rightarrow> int option \<Rightarrow> event list \<Rightarrow> event list" where
  "page limit before after ms =
     (case before of
        Some b \<Rightarrow> last_n (nat limit) (filter (\<lambda>e. ev_seq e < b) ms)
      | None \<Rightarrow>
          (case after of
             Some a \<Rightarrow> take (nat limit) (filter (\<lambda>e. ev_seq e > a) ms)
           | None \<Rightarrow> last_n (nat limit) ms))"

definition window :: "int option \<Rightarrow> int option \<Rightarrow> event list \<Rightarrow> event list" where
  "window before after ms =
     filter (\<lambda>e. (case before of None \<Rightarrow> True | Some b \<Rightarrow> ev_seq e < b) \<and> (case after of None \<Rightarrow> True | Some a \<Rightarrow> ev_seq e > a)) ms"

definition log_messages :: "event_log \<Rightarrow> string \<Rightarrow> int \<Rightarrow> int option \<Rightarrow> int option \<Rightarrow> event list" where
  "log_messages g t limit before after = page limit before after (filter is_message (lg_events g t))"

definition log_events ::
  "event_log \<Rightarrow> string \<Rightarrow> string \<Rightarrow> string list option \<Rightarrow> string option \<Rightarrow> int \<Rightarrow> int option \<Rightarrow> event list" where
  "log_events g t r event_types task_id limit after =
     take (nat limit)
       (filter (\<lambda>e. of_run r e \<and> (case event_types of None \<Rightarrow> True | Some ts \<Rightarrow> of_type ts e) \<and>
          (case task_id of None \<Rightarrow> True | Some k \<Rightarrow> of_task k e) \<and> (case after of None \<Rightarrow> True | Some a \<Rightarrow> ev_seq e > a)) (lg_events g t))"

definition log_messages_by_run :: "event_log \<Rightarrow> string \<Rightarrow> string \<Rightarrow> int \<Rightarrow> int option \<Rightarrow> int option \<Rightarrow> event list" where
  "log_messages_by_run g t r limit before after =
     (let w = window before after (filter (\<lambda>e. of_run r e \<and> is_message e) (lg_events g t)) in
      if after = None then last_n (nat limit) w else take (nat limit) w)"

definition log_delete_thread :: "string \<Rightarrow> event_log \<Rightarrow> event_log" where
  "log_delete_thread t g = g\<lparr>lg_events := (lg_events g)(t := []), lg_last := (lg_last g)(t := 0)\<rparr>"

definition log_delete_run :: "string \<Rightarrow> string \<Rightarrow> event_log \<Rightarrow> event_log" where
  "log_delete_run t r g = g\<lparr>lg_events := (lg_events g)(t := filter (\<lambda>e. \<not> of_run r e) (lg_events g t))\<rparr>"

text \<open>The guarantees of the interface: sequence numbers are strictly increasing and below the last one assigned.\<close>

definition wf_log :: "event_log \<Rightarrow> bool" where
  "wf_log g \<longleftrightarrow> (\<forall>t. sorted_wrt (\<lambda>x y. ev_seq x < ev_seq y) (lg_events g t) \<and> (\<forall>e\<in>set (lg_events g t). 1 \<le> ev_seq e \<and> ev_seq e \<le> lg_last g t) \<and>
     0 \<le> lg_last g t)"

section \<open>The in-memory store\<close>

record memory_event_store =
  me_events :: "(string, event list) dict"
  me_messages :: "(string, event list) dict"
  me_events_by_run :: "(string, (string, event list) dict) dict"
  me_messages_by_run :: "(string, (string, event list) dict) dict"
  me_seq_counters :: "(string, int) dict"

definition empty_memory_store :: memory_event_store where
  "empty_memory_store = \<lparr>me_events = [], me_messages = [], me_events_by_run = [], me_messages_by_run = [], me_seq_counters = []\<rparr>"

definition me_next_seq :: "string \<Rightarrow> memory_event_store \<Rightarrow> int \<times> memory_event_store" where
  "me_next_seq t s =
     (let next_val = dget_default (me_seq_counters s) t 0 + 1
      in (next_val, s\<lparr>me_seq_counters := dset t next_val (me_seq_counters s)\<rparr>))"

text \<open>\<^verbatim>\<open>d.setdefault(k, []).append(x)\<close> and \<^verbatim>\<open>d.setdefault(k, {}).setdefault(j, []).append(x)\<close>.\<close>

definition append_to :: "'k \<Rightarrow> 'a \<Rightarrow> ('k, 'a list) dict \<Rightarrow> ('k, 'a list) dict" where
  "append_to k x d = dset k (dget_default d k [] @ [x]) d"

definition append_nested :: "'k \<Rightarrow> 'j \<Rightarrow> 'a \<Rightarrow> ('k, ('j, 'a list) dict) dict \<Rightarrow> ('k, ('j, 'a list) dict) dict" where
  "append_nested k j x d = dset k (append_to j x (dget_default d k [])) d"

definition me_put :: "string \<Rightarrow> event_input \<Rightarrow> memory_event_store \<Rightarrow> event \<times> memory_event_store" where
  "me_put now i s =
     (let t = in_thread_id i; r = in_run_id i;
          (seq, s1) = me_next_seq t s;
          record = new_record now i seq;
          s2 = s1\<lparr>me_events := append_to t record (me_events s1), me_events_by_run := append_nested t r record (me_events_by_run s1)\<rparr>
      in (record,
          if in_category i = ''message''
          then s2\<lparr>me_messages := append_to t record (me_messages s2), me_messages_by_run := append_nested t r record (me_messages_by_run s2)\<rparr>
          else s2))"

fun me_put_batch :: "string \<Rightarrow> event_input list \<Rightarrow> memory_event_store \<Rightarrow> event list \<times> memory_event_store" where
  "me_put_batch now [] s = ([], s)"
| "me_put_batch now (i # is) s =
     (let (record, s1) = me_put now i s; (records, s2) = me_put_batch now is s1 in (record # records, s2))"

text \<open>\<^verbatim>\<open>bisect_left\<close> and \<^verbatim>\<open>bisect_right\<close> on the sequence numbers: the loop, from \<open>lo\<close> to \<open>hi\<close>, of which \<open>below\<close> says whether to go right.\<close>

function bisect :: "(int \<Rightarrow> bool) \<Rightarrow> event list \<Rightarrow> nat \<Rightarrow> nat \<Rightarrow> nat" where
  "bisect below es lo hi =
     (if lo < hi then
        let mid = (lo + hi) div 2 in
        if below (ev_seq (es ! mid)) then bisect below es (mid + 1) hi else bisect below es lo mid
      else lo)"
  by pat_completeness auto
termination by (relation "measure (\<lambda>(_, _, lo, hi). hi - lo)") auto

declare bisect.simps [simp del]

definition bisect_left :: "event list \<Rightarrow> int \<Rightarrow> nat" where
  "bisect_left es x = bisect (\<lambda>k. k < x) es 0 (length es)"

definition bisect_right :: "event list \<Rightarrow> int \<Rightarrow> nat" where
  "bisect_right es x = bisect (\<lambda>k. \<not> x < k) es 0 (length es)"

definition me_list_messages ::
  "memory_event_store \<Rightarrow> string \<Rightarrow> int \<Rightarrow> int option \<Rightarrow> int option \<Rightarrow> event list" where
  "me_list_messages s t limit before_seq after_seq =
     (let messages = dget_default (me_messages s) t [] in
      case before_seq of
        Some b \<Rightarrow> let hi = int (bisect_left messages b) in slice (max 0 (hi - limit)) hi messages
      | None \<Rightarrow>
          (case after_seq of
             Some a \<Rightarrow> let lo = int (bisect_right messages a) in slice lo (lo + limit) messages
           | None \<Rightarrow> slice_from (- limit) messages))"

definition me_list_events ::
  "memory_event_store \<Rightarrow> string \<Rightarrow> string \<Rightarrow> string list option \<Rightarrow> string option \<Rightarrow> int \<Rightarrow> int option \<Rightarrow> event list" where
  "me_list_events s t r event_types task_id limit after_seq =
     (let run_events = dget_default (dget_default (me_events_by_run s) t []) r [];
          run_events1 = (case event_types of None \<Rightarrow> run_events | Some ts \<Rightarrow> filter (of_type ts) run_events);
          run_events2 = (case task_id of None \<Rightarrow> run_events1 | Some k \<Rightarrow> filter (of_task k) run_events1);
          run_events3 = (case after_seq of None \<Rightarrow> run_events2 | Some a \<Rightarrow> filter (\<lambda>e. ev_seq e > a) run_events2)
      in slice_to limit run_events3)"

definition me_list_messages_by_run ::
  "memory_event_store \<Rightarrow> string \<Rightarrow> string \<Rightarrow> int \<Rightarrow> int option \<Rightarrow> int option \<Rightarrow> event list" where
  "me_list_messages_by_run s t r limit before_seq after_seq =
     (let messages = dget_default (dget_default (me_messages_by_run s) t []) r [];
          lo = (case after_seq of None \<Rightarrow> 0 | Some a \<Rightarrow> int (bisect_right messages a));
          hi = (case before_seq of None \<Rightarrow> int (length messages) | Some b \<Rightarrow> int (bisect_left messages b));
          w = slice lo hi messages
      in if after_seq \<noteq> None then slice_to limit w else slice_from (- limit) w)"

definition me_count_messages :: "memory_event_store \<Rightarrow> string \<Rightarrow> nat" where
  "me_count_messages s t = length (dget_default (me_messages s) t [])"

definition me_delete_by_thread :: "string \<Rightarrow> memory_event_store \<Rightarrow> nat \<times> memory_event_store" where
  "me_delete_by_thread t s =
     (length (dget_default (me_events s) t []),
      \<lparr>me_events = dpop t (me_events s), me_messages = dpop t (me_messages s), me_events_by_run = dpop t (me_events_by_run s),
       me_messages_by_run = dpop t (me_messages_by_run s), me_seq_counters = dpop t (me_seq_counters s)\<rparr>)"

text \<open>\<^verbatim>\<open>d.get(k, {}).pop(j, None)\<close> changes the inner dictionary only if there is one.\<close>

definition pop_nested :: "'k \<Rightarrow> 'j \<Rightarrow> ('k, ('j, 'v) dict) dict \<Rightarrow> ('k, ('j, 'v) dict) dict" where
  "pop_nested k j d = (case dget d k of None \<Rightarrow> d | Some inner \<Rightarrow> dset k (dpop j inner) d)"

definition me_delete_by_run :: "string \<Rightarrow> string \<Rightarrow> memory_event_store \<Rightarrow> nat \<times> memory_event_store" where
  "me_delete_by_run t r s =
     (let all_events = dget_default (me_events s) t [] in
      if all_events = [] then (0, s)
      else
        let remaining = filter (\<lambda>e. \<not> of_run r e) all_events in
        (length all_events - length remaining,
         s\<lparr>me_events := dset t remaining (me_events s), me_messages := dset t (filter is_message remaining) (me_messages s),
           me_events_by_run := pop_nested t r (me_events_by_run s), me_messages_by_run := pop_nested t r (me_messages_by_run s)\<rparr>))"

section \<open>Binary search\<close>

text \<open>The first \<open>n\<close> events are those \<open>P\<close> holds of.\<close>

definition cut_at :: "(event \<Rightarrow> bool) \<Rightarrow> event list \<Rightarrow> nat \<Rightarrow> bool" where
  "cut_at P es n \<longleftrightarrow> n \<le> length es \<and> (\<forall>i<n. P (es ! i)) \<and> (\<forall>i. n \<le> i \<longrightarrow> i < length es \<longrightarrow> \<not> P (es ! i))"

lemma cut_at_take_drop:
  assumes "cut_at P es n"
  shows "take n es = filter P es" and "drop n es = filter (\<lambda>e. \<not> P e) es" and "n = length (filter P es)"
proof -
  have "\<forall>e\<in>set (take n es). P e" "\<forall>e\<in>set (drop n es). \<not> P e"
    using assms by (auto simp: cut_at_def in_set_conv_nth)
  then have "filter P (take n es @ drop n es) = take n es" "filter (\<lambda>e. \<not> P e) (take n es @ drop n es) = drop n es"
    unfolding filter_append by (auto simp: filter_id_conv filter_empty_conv)
  then show "take n es = filter P es" "drop n es = filter (\<lambda>e. \<not> P e) es" by simp_all
  then show "n = length (filter P es)" using assms by (metis cut_at_def length_take min.absorb2)
qed

lemma sorted_seq_mono: "sorted_wrt (\<lambda>x y. ev_seq x < ev_seq y) es \<Longrightarrow> i \<le> j \<Longrightarrow> j < length es \<Longrightarrow> ev_seq (es ! i) \<le> ev_seq (es ! j)"
  by (metis le_neq_implies_less order_less_imp_le order_refl sorted_wrt_nth_less)

lemma bisect_cut:
  assumes sorted: "sorted_wrt (\<lambda>x y. ev_seq x < ev_seq y) es" and down: "\<And>j k. below k \<Longrightarrow> j \<le> k \<Longrightarrow> below j"
  shows "lo \<le> hi \<Longrightarrow> hi \<le> length es \<Longrightarrow> \<forall>i<lo. below (ev_seq (es ! i)) \<Longrightarrow>
    \<forall>i. hi \<le> i \<longrightarrow> i < length es \<longrightarrow> \<not> below (ev_seq (es ! i)) \<Longrightarrow> cut_at (\<lambda>e. below (ev_seq e)) es (bisect below es lo hi)"
proof (induction "hi - lo" arbitrary: lo hi rule: less_induct)
  case less
  show ?case
  proof (cases "lo < hi")
    case False
    with less.prems show ?thesis by (subst bisect.simps) (auto simp: cut_at_def)
  next
    case True
    let ?mid = "(lo + hi) div 2"
    have mid: "lo \<le> ?mid" "?mid < hi" using True by auto
    then have len: "?mid < length es" using less.prems(2) by simp
    show ?thesis
    proof (cases "below (ev_seq (es ! ?mid))")
      case yes: True
      have "below (ev_seq (es ! i))" if "i < ?mid + 1" for i
        using down [OF yes sorted_seq_mono [OF sorted _ len, of i]] that by simp
      with less.hyps [of hi "?mid + 1"] less.prems mid have "cut_at (\<lambda>e. below (ev_seq e)) es (bisect below es (?mid + 1) hi)" by auto
      then show ?thesis using True yes by (subst bisect.simps) (simp add: Let_def)
    next
      case no: False
      have "\<not> below (ev_seq (es ! i))" if "?mid \<le> i" "i < length es" for i
        using down [OF _ sorted_seq_mono [OF sorted that(1,2)]] no by blast
      with less.hyps [of ?mid lo] less.prems mid len have "cut_at (\<lambda>e. below (ev_seq e)) es (bisect below es lo ?mid)" by auto
      then show ?thesis using True no by (subst bisect.simps) (simp add: Let_def)
    qed
  qed
qed

lemma bisect_left_cut: "sorted_wrt (\<lambda>x y. ev_seq x < ev_seq y) es \<Longrightarrow> cut_at (\<lambda>e. ev_seq e < x) es (bisect_left es x)"
  unfolding bisect_left_def by (rule bisect_cut) auto

lemma bisect_right_cut: "sorted_wrt (\<lambda>x y. ev_seq x < ev_seq y) es \<Longrightarrow> cut_at (\<lambda>e. \<not> x < ev_seq e) es (bisect_right es x)"
  unfolding bisect_right_def by (rule bisect_cut) auto

section \<open>Pages of slices\<close>

lemma slice_from_last_n: "1 \<le> limit \<Longrightarrow> slice_from (- limit) xs = last_n (nat limit) xs"
  by (simp add: slice_from_neg last_n_def)

lemma slice_nat: "lo \<le> n \<Longrightarrow> n \<le> length xs \<Longrightarrow> slice (int lo) (int n) xs = drop lo (take n xs)"
  by (simp add: slice_def slice_bound_def min_def drop_take)

lemma slice_before:
  assumes "sorted_wrt (\<lambda>x y. ev_seq x < ev_seq y) es" and "1 \<le> limit"
  shows "slice (max 0 (int (bisect_left es b) - limit)) (int (bisect_left es b)) es = last_n (nat limit) (filter (\<lambda>e. ev_seq e < b) es)"
proof -
  note cut = bisect_left_cut [OF assms(1), of b]
  let ?n = "bisect_left es b"
  have "max 0 (int ?n - limit) = int (?n - nat limit)" using assms(2) by auto
  with slice_nat [of "?n - nat limit" ?n es] cut cut_at_take_drop [OF cut] show ?thesis
    by (simp add: last_n_def cut_at_def)
qed

lemma slice_after:
  assumes "sorted_wrt (\<lambda>x y. ev_seq x < ev_seq y) es" and "1 \<le> limit"
  shows "slice (int (bisect_right es a)) (int (bisect_right es a) + limit) es = take (nat limit) (filter (\<lambda>e. a < ev_seq e) es)"
proof -
  note cut = bisect_right_cut [OF assms(1), of a]
  let ?n = "bisect_right es a"
  have "slice (int ?n) (int ?n + limit) es = take (nat limit) (drop ?n es)"
    using cut assms(2) by (auto simp: slice_def slice_bound_def Let_def cut_at_def min_def nat_add_distrib)
  with cut_at_take_drop(2) [OF cut] show ?thesis by simp
qed

lemma slice_window:
  assumes "cut_at P es n" and "cut_at Q es m"
  shows "slice (int n) (int m) es = filter (\<lambda>e. Q e \<and> \<not> P e) es"
proof -
  have "cut_at P (take m es) (min n m)" using assms by (auto simp: cut_at_def min_def)
  from cut_at_take_drop(2) [OF this] cut_at_take_drop(1) [OF assms(2)]
  have "drop (min n m) (take m es) = filter (\<lambda>e. \<not> P e) (filter Q es)" by simp
  moreover have "slice (int n) (int m) es = drop (min n m) (take m es)"
    using assms by (auto simp: slice_def slice_bound_def Let_def cut_at_def min_def drop_take)
  ultimately show ?thesis by (simp add: conj_commute)
qed

lemma slice_window_seq:
  assumes "sorted_wrt (\<lambda>x y. ev_seq x < ev_seq y) es"
  shows "slice (case after of None \<Rightarrow> 0 | Some a \<Rightarrow> int (bisect_right es a))
      (case before of None \<Rightarrow> int (length es) | Some b \<Rightarrow> int (bisect_left es b)) es = window before after es"
proof -
  have lo: "cut_at (\<lambda>e. \<not> (case after of None \<Rightarrow> True | Some a \<Rightarrow> ev_seq e > a)) es (case after of None \<Rightarrow> 0 | Some a \<Rightarrow> bisect_right es a)"
    using bisect_right_cut [OF assms] by (cases after) (auto simp: cut_at_def)
  have hi: "cut_at (\<lambda>e. case before of None \<Rightarrow> True | Some b \<Rightarrow> ev_seq e < b) es (case before of None \<Rightarrow> length es | Some b \<Rightarrow> bisect_left es b)"
    using bisect_left_cut [OF assms] by (cases before) (auto simp: cut_at_def)
  from slice_window [OF lo hi] show ?thesis by (cases after; cases before) (simp_all add: window_def)
qed

section \<open>The interface\<close>

text \<open>What \<^verbatim>\<open>RunEventStore\<close> promises, over the log a store shows: the operations on identifiers and events the store accepts.
  The guarantees hold for at least one event per page.\<close>

locale event_store =
  fixes inv :: "'s \<Rightarrow> bool" and view :: "'s \<Rightarrow> event_log"
    and valid :: "string \<Rightarrow> bool" and storable :: "string \<Rightarrow> event_input \<Rightarrow> bool"
    and put :: "string \<Rightarrow> event_input \<Rightarrow> 's \<Rightarrow> ('x + event) \<times> 's"
    and list_messages :: "'s \<Rightarrow> string \<Rightarrow> int \<Rightarrow> int option \<Rightarrow> int option \<Rightarrow> 'x + event list"
    and list_events :: "'s \<Rightarrow> string \<Rightarrow> string \<Rightarrow> string list option \<Rightarrow> string option \<Rightarrow> int \<Rightarrow> int option \<Rightarrow> 'x + event list"
    and list_messages_by_run :: "'s \<Rightarrow> string \<Rightarrow> string \<Rightarrow> int \<Rightarrow> int option \<Rightarrow> int option \<Rightarrow> 'x + event list"
    and count_messages :: "'s \<Rightarrow> string \<Rightarrow> 'x + nat"
    and delete_by_thread :: "string \<Rightarrow> 's \<Rightarrow> ('x + nat) \<times> 's"
    and delete_by_run :: "string \<Rightarrow> string \<Rightarrow> 's \<Rightarrow> ('x + nat) \<times> 's"
  assumes wf: "inv s \<Longrightarrow> wf_log (view s)"
    and put_law: "inv s \<Longrightarrow> valid (in_thread_id i) \<Longrightarrow> valid (in_run_id i) \<Longrightarrow> storable now i \<Longrightarrow>
      \<exists>s'. put now i s = (Inr (new_record now i (lg_last (view s) (in_thread_id i) + 1)), s') \<and> inv s' \<and> view s' = log_put now i (view s)"
    and messages_law: "inv s \<Longrightarrow> valid t \<Longrightarrow> 1 \<le> limit \<Longrightarrow> list_messages s t limit before after = Inr (log_messages (view s) t limit before after)"
    and events_law: "inv s \<Longrightarrow> valid t \<Longrightarrow> valid r \<Longrightarrow> 1 \<le> limit \<Longrightarrow>
      list_events s t r types task limit after = Inr (log_events (view s) t r types task limit after)"
    and messages_by_run_law: "inv s \<Longrightarrow> valid t \<Longrightarrow> valid r \<Longrightarrow> 1 \<le> limit \<Longrightarrow>
      list_messages_by_run s t r limit before after = Inr (log_messages_by_run (view s) t r limit before after)"
    and count_law: "inv s \<Longrightarrow> valid t \<Longrightarrow> count_messages s t = Inr (length (filter is_message (lg_events (view s) t)))"
    and delete_thread_law: "inv s \<Longrightarrow> valid t \<Longrightarrow>
      \<exists>s'. delete_by_thread t s = (Inr (length (lg_events (view s) t)), s') \<and> inv s' \<and> view s' = log_delete_thread t (view s)"
    and delete_run_law: "inv s \<Longrightarrow> valid t \<Longrightarrow> valid r \<Longrightarrow>
      \<exists>s'. delete_by_run t r s = (Inr (length (filter (of_run r) (lg_events (view s) t))), s') \<and> inv s' \<and> view s' = log_delete_run t r (view s)"

text \<open>The operations that change a store, as data.\<close>

datatype store_op = Put string event_input | Delete_Thread string | Delete_Run string string

fun log_apply :: "store_op \<Rightarrow> event_log \<Rightarrow> event_log" where
  "log_apply (Put now i) g = log_put now i g"
| "log_apply (Delete_Thread t) g = log_delete_thread t g"
| "log_apply (Delete_Run t r) g = log_delete_run t r g"

fun valid_op :: "(string \<Rightarrow> bool) \<Rightarrow> (string \<Rightarrow> event_input \<Rightarrow> bool) \<Rightarrow> store_op \<Rightarrow> bool" where
  "valid_op valid storable (Put now i) \<longleftrightarrow> valid (in_thread_id i) \<and> valid (in_run_id i) \<and> storable now i"
| "valid_op valid storable (Delete_Thread t) \<longleftrightarrow> valid t"
| "valid_op valid storable (Delete_Run t r) \<longleftrightarrow> valid t \<and> valid r"

fun store_apply ::
  "(string \<Rightarrow> event_input \<Rightarrow> 's \<Rightarrow> ('x + event) \<times> 's) \<Rightarrow> (string \<Rightarrow> 's \<Rightarrow> ('x + nat) \<times> 's) \<Rightarrow>
     (string \<Rightarrow> string \<Rightarrow> 's \<Rightarrow> ('x + nat) \<times> 's) \<Rightarrow> store_op \<Rightarrow> 's \<Rightarrow> 's" where
  "store_apply put dt dr (Put now i) s = snd (put now i s)"
| "store_apply put dt dr (Delete_Thread t) s = snd (dt t s)"
| "store_apply put dt dr (Delete_Run t r) s = snd (dr t r s)"

context event_store
begin

text \<open>Any sequence of operations leaves the store showing the log of the same operations.\<close>

lemma apply_view:
  assumes "inv s" and "valid_op valid storable op"
  shows "inv (store_apply put delete_by_thread delete_by_run op s)"
    and "view (store_apply put delete_by_thread delete_by_run op s) = log_apply op (view s)"
proof -
  have "inv (store_apply put delete_by_thread delete_by_run op s) \<and>
      view (store_apply put delete_by_thread delete_by_run op s) = log_apply op (view s)"
  proof (cases op)
    case (Put now i)
    then show ?thesis using put_law [OF assms(1), of i now] assms(2) by fastforce
  next
    case (Delete_Thread t)
    then show ?thesis using delete_thread_law [OF assms(1), of t] assms(2) by fastforce
  next
    case (Delete_Run t r)
    then show ?thesis using delete_run_law [OF assms(1), of t r] assms(2) by fastforce
  qed
  then show "inv (store_apply put delete_by_thread delete_by_run op s)"
    "view (store_apply put delete_by_thread delete_by_run op s) = log_apply op (view s)" by blast+
qed

lemma fold_view:
  assumes "inv s" and "\<forall>op\<in>set ops. valid_op valid storable op"
  shows "inv (fold (store_apply put delete_by_thread delete_by_run) ops s) \<and>
    view (fold (store_apply put delete_by_thread delete_by_run) ops s) = fold log_apply ops (view s)"
  using assms by (induction ops arbitrary: s) (auto simp: apply_view)

text \<open>Paging forward misses nothing and repeats nothing: after a full page the next cursor is its last event.\<close>

lemma forward_pages:
  assumes "inv s" and "valid t" and "1 \<le> limit"
    and "list_messages s t limit None (Some a) = Inr p" and "p \<noteq> []"
  shows "filter (\<lambda>e. a < ev_seq e) (filter is_message (lg_events (view s) t)) =
    p @ filter (\<lambda>e. ev_seq (last p) < ev_seq e) (filter is_message (lg_events (view s) t))"
proof -
  let ?ms = "filter is_message (lg_events (view s) t)"
  let ?rest = "filter (\<lambda>e. a < ev_seq e) ?ms"
  from assms(4) messages_law [OF assms(1-3), of None "Some a"] have p: "p = take (nat limit) ?rest"
    by (simp add: log_messages_def page_def)
  have sorted: "sorted_wrt (\<lambda>x y. ev_seq x < ev_seq y) ?rest"
    using wf [OF assms(1)] by (simp add: wf_log_def sorted_wrt_filter)
  obtain d where rest: "?rest = p @ d" using p by (metis append_take_drop_id)
  from sorted have "sorted_wrt (\<lambda>x y. ev_seq x < ev_seq y) (p @ d)" unfolding rest .
  then have parts: "sorted_wrt (\<lambda>x y. ev_seq x < ev_seq y) p" "\<forall>x\<in>set p. \<forall>y\<in>set d. ev_seq x < ev_seq y"
    by (simp_all add: sorted_wrt_append)
  obtain q x where px: "p = q @ [x]" using assms(5) by (metis rev_exhaust)
  with parts have low: "\<forall>e\<in>set p. \<not> ev_seq x < ev_seq e" and high: "\<forall>e\<in>set d. ev_seq x < ev_seq e"
    by (auto simp: sorted_wrt_append order_less_imp_not_less)
  have "x \<in> set ?rest" unfolding rest px by simp
  then have "a < ev_seq x" by simp
  then have "filter (\<lambda>e. ev_seq x < ev_seq e) ?ms = filter (\<lambda>e. ev_seq x < ev_seq e) ?rest" by (auto intro!: filter_cong)
  also have "\<dots> = d" unfolding rest filter_append using low high by (simp add: filter_empty_conv)
  finally show ?thesis unfolding rest px by simp
qed

end

section \<open>The in-memory store keeps the log\<close>

definition me_view :: "memory_event_store \<Rightarrow> event_log" where
  "me_view s = \<lparr>lg_events = (\<lambda>t. dget_default (me_events s) t []), lg_last = (\<lambda>t. dget_default (me_seq_counters s) t 0)\<rparr>"

text \<open>Each projection is a filter of the events.\<close>

definition me_inv :: "memory_event_store \<Rightarrow> bool" where
  "me_inv s \<longleftrightarrow> wf_log (me_view s) \<and>
     (\<forall>t. dget_default (me_messages s) t [] = filter is_message (lg_events (me_view s) t)) \<and>
     (\<forall>t r. dget_default (dget_default (me_events_by_run s) t []) r [] = filter (of_run r) (lg_events (me_view s) t)) \<and>
     (\<forall>t r. dget_default (dget_default (me_messages_by_run s) t []) r [] = filter (\<lambda>e. of_run r e \<and> is_message e) (lg_events (me_view s) t))"

lemma dget_default_simps [simp]:
  "dget_default [] k x = x"
  "dget_default (dset k v d) k' x = (if k' = k then v else dget_default d k' x)"
  "dget_default (dpop k d) k' x = (if k' = k then x else dget_default d k' x)"
  by (simp_all add: dget_default_def)

lemma append_to_get: "dget_default (append_to k x d) k' [] = (if k' = k then dget_default d k [] @ [x] else dget_default d k' [])"
  by (simp add: append_to_def)

lemma append_nested_get:
  "dget_default (dget_default (append_nested k j x d) k' []) j' [] =
     (if k' = k \<and> j' = j then dget_default (dget_default d k []) j [] @ [x] else dget_default (dget_default d k' []) j' [])"
  by (simp add: append_nested_def append_to_get)

lemma pop_nested_get:
  "dget_default (dget_default (pop_nested k j d) k' []) j' [] =
     (if k' = k \<and> j' = j then [] else dget_default (dget_default d k' []) j' [])"
  by (auto simp: pop_nested_def dget_default_def split: option.split)

lemma event_record_simps [simp]:
  "ev_seq (new_record now i n) = n"
  "of_run r (new_record now i n) \<longleftrightarrow> in_run_id i = r"
  "is_message (new_record now i n) \<longleftrightarrow> in_category i = ''message''"
  by (simp_all add: new_record_def ev_seq_def has_text_def)

lemma wf_log_put: "wf_log g \<Longrightarrow> wf_log (log_put now i g)"
proof -
  assume g: "wf_log g"
  show ?thesis unfolding wf_log_def
  proof
    fix t
    have "sorted_wrt (\<lambda>x y. ev_seq x < ev_seq y) (lg_events g t)" "\<forall>e\<in>set (lg_events g t). 1 \<le> ev_seq e \<and> ev_seq e \<le> lg_last g t" "0 \<le> lg_last g t"
      using g by (auto simp: wf_log_def)
    then show "sorted_wrt (\<lambda>x y. ev_seq x < ev_seq y) (lg_events (log_put now i g) t) \<and>
        (\<forall>e\<in>set (lg_events (log_put now i g) t). 1 \<le> ev_seq e \<and> ev_seq e \<le> lg_last (log_put now i g) t) \<and> 0 \<le> lg_last (log_put now i g) t"
      by (cases "t = in_thread_id i") (auto simp: log_put_def Let_def sorted_wrt_append)
  qed
qed

lemma wf_log_deletes: "wf_log g \<Longrightarrow> wf_log (log_delete_thread t g)" "wf_log g \<Longrightarrow> wf_log (log_delete_run t r g)"
  by (auto simp: wf_log_def log_delete_thread_def log_delete_run_def sorted_wrt_filter)

lemma me_put_law:
  assumes "me_inv s"
  shows "fst (me_put now i s) = new_record now i (lg_last (me_view s) (in_thread_id i) + 1)"
    and "me_view (snd (me_put now i s)) = log_put now i (me_view s)" and "me_inv (snd (me_put now i s))"
proof -
  show "fst (me_put now i s) = new_record now i (lg_last (me_view s) (in_thread_id i) + 1)"
    by (simp add: me_put_def me_next_seq_def Let_def me_view_def)
  have last_seq: "dget_default (me_seq_counters s) t 0 = lg_last (me_view s) t" for t by (simp add: me_view_def)
  show view: "me_view (snd (me_put now i s)) = log_put now i (me_view s)"
    by (auto simp: me_put_def me_next_seq_def Let_def me_view_def log_put_def append_to_get)
  show "me_inv (snd (me_put now i s))"
    using assms wf_log_put [of "me_view s" now i] unfolding me_inv_def view
    by (auto simp: me_put_def me_next_seq_def Let_def log_put_def append_to_get append_nested_get last_seq)
qed

lemma me_delete_thread_law:
  assumes "me_inv s"
  shows "me_view (snd (me_delete_by_thread t s)) = log_delete_thread t (me_view s)" and "me_inv (snd (me_delete_by_thread t s))"
proof -
  show view: "me_view (snd (me_delete_by_thread t s)) = log_delete_thread t (me_view s)"
    by (auto simp: me_delete_by_thread_def me_view_def log_delete_thread_def)
  show "me_inv (snd (me_delete_by_thread t s))"
    using assms wf_log_deletes unfolding me_inv_def view by (auto simp: me_delete_by_thread_def log_delete_thread_def)
qed

lemma me_delete_run_law:
  assumes "me_inv s"
  shows "fst (me_delete_by_run t r s) = length (filter (of_run r) (lg_events (me_view s) t))"
    and "me_view (snd (me_delete_by_run t r s)) = log_delete_run t r (me_view s)" and "me_inv (snd (me_delete_by_run t r s))"
proof -
  let ?es = "lg_events (me_view s) t"
  have es: "dget_default (me_events s) t [] = ?es" by (simp add: me_view_def)
  show "fst (me_delete_by_run t r s) = length (filter (of_run r) ?es)"
  proof -
    have "length ?es - length (filter (\<lambda>e. \<not> of_run r e) ?es) = length (filter (of_run r) ?es)"
      using sum_length_filter_compl [of "of_run r" ?es] by linarith
    then show ?thesis by (auto simp: me_delete_by_run_def es Let_def)
  qed
  show view: "me_view (snd (me_delete_by_run t r s)) = log_delete_run t r (me_view s)"
    by (auto simp: me_delete_by_run_def me_view_def log_delete_run_def Let_def)
  show "me_inv (snd (me_delete_by_run t r s))"
  proof (cases "?es = []")
    case True
    then show ?thesis using assms by (simp add: me_delete_by_run_def es Let_def)
  next
    case False
    have "filter (of_run q) (filter (\<lambda>e. \<not> of_run r e) ?es) = (if q = r then [] else filter (of_run q) ?es)" for q
      by (auto simp: has_text_def filter_empty_conv intro!: filter_cong)
    then have "filter (\<lambda>e. of_run q e \<and> is_message e) (filter (\<lambda>e. \<not> of_run r e) ?es) = (if q = r then [] else filter (\<lambda>e. of_run q e \<and> is_message e) ?es)" for q
      by (auto simp: has_text_def filter_empty_conv intro!: filter_cong)
    with False show ?thesis
      using assms wf_log_deletes unfolding me_inv_def view
      by (auto simp: me_delete_by_run_def es Let_def log_delete_run_def pop_nested_get has_text_def filter_empty_conv intro!: filter_cong)
  qed
qed

lemma me_sorted: "me_inv s \<Longrightarrow> sorted_wrt (\<lambda>x y. ev_seq x < ev_seq y) (lg_events (me_view s) t)"
  by (simp add: me_inv_def wf_log_def)

lemma me_list_messages_law:
  assumes "me_inv s" and "1 \<le> limit"
  shows "me_list_messages s t limit before after = log_messages (me_view s) t limit before after"
proof -
  let ?ms = "filter is_message (lg_events (me_view s) t)"
  have ms: "dget_default (me_messages s) t [] = ?ms" using assms(1) by (simp add: me_inv_def)
  have sorted: "sorted_wrt (\<lambda>x y. ev_seq x < ev_seq y) ?ms" using me_sorted [OF assms(1)] by (simp add: sorted_wrt_filter)
  from slice_before [OF sorted assms(2)] slice_after [OF sorted assms(2)] slice_from_last_n [OF assms(2), of ?ms]
  show ?thesis unfolding me_list_messages_def log_messages_def page_def ms Let_def by (cases before; cases after) simp_all
qed

lemma me_list_events_law:
  assumes "me_inv s" and "1 \<le> limit"
  shows "me_list_events s t r types task limit after = log_events (me_view s) t r types task limit after"
proof -
  have "dget_default (dget_default (me_events_by_run s) t []) r [] = filter (of_run r) (lg_events (me_view s) t)"
    using assms(1) by (simp add: me_inv_def)
  then show ?thesis using assms(2)
    by (cases types; cases task; cases after) (auto simp: me_list_events_def log_events_def slice_to_nonneg conj_commute intro!: arg_cong [where f = "take _"] filter_cong)
qed

lemma me_list_messages_by_run_law:
  assumes "me_inv s" and "1 \<le> limit"
  shows "me_list_messages_by_run s t r limit before after = log_messages_by_run (me_view s) t r limit before after"
proof -
  let ?ms = "filter (\<lambda>e. of_run r e \<and> is_message e) (lg_events (me_view s) t)"
  have ms: "dget_default (dget_default (me_messages_by_run s) t []) r [] = ?ms" using assms(1) by (simp add: me_inv_def)
  have "sorted_wrt (\<lambda>x y. ev_seq x < ev_seq y) ?ms" using me_sorted [OF assms(1)] by (simp add: sorted_wrt_filter)
  from slice_window_seq [OF this, of after before] slice_from_last_n [OF assms(2)] assms(2)
  show ?thesis unfolding me_list_messages_by_run_def log_messages_by_run_def ms Let_def by (auto simp: slice_to_nonneg)
qed

text \<open>The operations as the interface has them: none of them fails.\<close>

abbreviation total :: "'a \<times> 's \<Rightarrow> (unit + 'a) \<times> 's" where
  "total \<equiv> map_prod Inr id"

interpretation mem_events: event_store me_inv me_view "\<lambda>_. True" "\<lambda>_ _. True" "\<lambda>now i s. total (me_put now i s)"
  "\<lambda>s t limit before after. Inr (me_list_messages s t limit before after)"
  "\<lambda>s t r types task limit after. Inr (me_list_events s t r types task limit after)"
  "\<lambda>s t r limit before after. Inr (me_list_messages_by_run s t r limit before after)"
  "\<lambda>s t. Inr (me_count_messages s t)" "\<lambda>t s. total (me_delete_by_thread t s)" "\<lambda>t r s. total (me_delete_by_run t r s)"
proof
  fix s :: memory_event_store and i :: event_input and now t r :: string
  assume inv: "me_inv s"
  then show "wf_log (me_view s)" by (simp add: me_inv_def)
  show "\<exists>s'. total (me_put now i s) = (Inr (new_record now i (lg_last (me_view s) (in_thread_id i) + 1)), s') \<and> me_inv s' \<and> me_view s' = log_put now i (me_view s)"
    using me_put_law [OF inv, of now i] by (cases "me_put now i s") auto
  show "\<exists>s'. total (me_delete_by_thread t s) = (Inr (length (lg_events (me_view s) t)), s') \<and> me_inv s' \<and> me_view s' = log_delete_thread t (me_view s)"
    using me_delete_thread_law [OF inv, of t] by (auto simp: me_delete_by_thread_def me_view_def)
  show "\<exists>s'. total (me_delete_by_run t r s) = (Inr (length (filter (of_run r) (lg_events (me_view s) t))), s') \<and> me_inv s' \<and> me_view s' = log_delete_run t r (me_view s)"
    using me_delete_run_law [OF inv, of t r] by (cases "me_delete_by_run t r s") auto
  show "Inr (me_count_messages s t) = Inr (length (filter is_message (lg_events (me_view s) t)))"
    using inv by (simp add: me_count_messages_def me_inv_def)
qed (simp_all add: me_list_messages_law me_list_events_law me_list_messages_by_run_law)

lemma me_inv_empty: "me_inv empty_memory_store"
  by (simp add: me_inv_def me_view_def empty_memory_store_def wf_log_def)

lemma me_view_empty: "me_view empty_memory_store = empty_log"
  by (simp add: me_view_def empty_memory_store_def empty_log_def)

end
