(* ===== verification/Event_Jsonl.thy ===== *)
theory Event_Jsonl
  imports Event_Store Json_Text Text_Lines "HOL-Library.Multiset"
begin

text \<open>
  The file-backed store of run events, \<^verbatim>\<open>deerflow/runtime/events/store/jsonl.py\<close>: one file of JSON lines per run. The files
  are their texts, under the thread and the run; a line is read back with the model of \<^verbatim>\<open>json.loads\<close>. Lines that are
  JSON but no object do not occur, as nothing but the store writes the files. The locks make each operation one
  step.
\<close>

section \<open>Text files\<close>

definition file_lines :: "string \<Rightarrow> string list" where
  "file_lines text = splitlines (str_strip (universal_newlines text))"

section \<open>The store\<close>

datatype jsonl_error = ValueError string

record jsonl_store =
  js_files :: "(string \<times> string, string) dict"
  js_seq_counters :: "(string, int) dict"

definition empty_jsonl :: jsonl_store where
  "empty_jsonl = \<lparr>js_files = [], js_seq_counters = []\<rparr>"

text \<open>\<^verbatim>\<open>^[A-Za-z0-9_\-]+$\<close>, where the dollar sign also matches before a final line feed.\<close>

definition path_char :: "char \<Rightarrow> bool" where
  "path_char c \<longleftrightarrow> is_upper_char c \<or> is_lower_char c \<or> is_digit_char c \<or> c = CHR ''_'' \<or> c = CHR ''-''"

definition path_id :: "string \<Rightarrow> bool" where
  "path_id s = (let b = (if s \<noteq> [] \<and> last s = CHR 0x0A then butlast s else s) in b \<noteq> [] \<and> list_all path_char b)"

definition validate_id :: "string \<Rightarrow> string \<Rightarrow> jsonl_error + string" where
  "validate_id value label =
     (if \<not> path_id value
      then Inl (ValueError (''Invalid '' @ label @ '': must be alphanumeric/dash/underscore, got '' @ repr_str value))
      else Inr value)"

definition thread_dir :: "string \<Rightarrow> jsonl_error + string" where
  "thread_dir t = validate_id t ''thread_id''"

definition run_file :: "string \<Rightarrow> string \<Rightarrow> jsonl_error + string \<times> string" where
  "run_file t r = ebind (validate_id r ''run_id'') (\<lambda>_. ebind (thread_dir t) (\<lambda>_. Inr (t, r)))"

definition decode_line :: "float_reader \<Rightarrow> string \<Rightarrow> event option" where
  "decode_line fo line = (case json_loads fo line of Some (PDict d) \<Rightarrow> Some d | _ \<Rightarrow> None)"

definition decode_file :: "float_reader \<Rightarrow> string \<Rightarrow> event list" where
  "decode_file fo text = List.map_filter (decode_line fo) (file_lines text)"

text \<open>\<^verbatim>\<open>sorted(thread_dir.glob("*.jsonl"))\<close>.\<close>

definition thread_files :: "jsonl_store \<Rightarrow> string \<Rightarrow> ((string \<times> string) \<times> string) list" where
  "thread_files s t = sort_key (\<lambda>((_, r), _). r @ ''.jsonl'') (filter (\<lambda>((u, _), _). u = t) (js_files s))"

definition js_next_seq :: "string \<Rightarrow> jsonl_store \<Rightarrow> int \<times> jsonl_store" where
  "js_next_seq t s =
     (let n = dget_default (js_seq_counters s) t 0 + 1 in (n, s\<lparr>js_seq_counters := dset t n (js_seq_counters s)\<rparr>))"

definition scan_events :: "float_reader \<Rightarrow> jsonl_store \<Rightarrow> string \<Rightarrow> event list" where
  "scan_events fo s t = concat (map (\<lambda>(_, text). decode_file fo text) (thread_files s t))"

definition compute_max_seq :: "float_reader \<Rightarrow> jsonl_store \<Rightarrow> string \<Rightarrow> jsonl_error + int" where
  "compute_max_seq fo s t =
     ebind (thread_dir t) (\<lambda>_. Inr (foldl (\<lambda>m e. max m (ev_seq e)) 0 (scan_events fo s t)))"

definition ensure_seq_loaded :: "float_reader \<Rightarrow> string \<Rightarrow> jsonl_store \<Rightarrow> jsonl_error + jsonl_store" where
  "ensure_seq_loaded fo t s =
     (if dget (js_seq_counters s) t \<noteq> None then Inr s
      else ebind (compute_max_seq fo s t) (\<lambda>n. Inr (s\<lparr>js_seq_counters := dset t n (js_seq_counters s)\<rparr>)))"

definition event_line :: "event \<Rightarrow> string" where
  "event_line e = json_text (PDict e) @ [CHR 0x0A]"

definition write_record :: "string \<Rightarrow> string \<Rightarrow> event \<Rightarrow> jsonl_store \<Rightarrow> jsonl_error + jsonl_store" where
  "write_record t r record s =
     ebind (run_file t r) (\<lambda>path. Inr (s\<lparr>js_files := dset path (dget_default (js_files s) path [] @ event_line record) (js_files s)\<rparr>))"

definition read_thread_events :: "float_reader \<Rightarrow> jsonl_store \<Rightarrow> string \<Rightarrow> jsonl_error + event list" where
  "read_thread_events fo s t = ebind (thread_dir t) (\<lambda>_. Inr (sort_key ev_seq (scan_events fo s t)))"

definition read_run_events :: "float_reader \<Rightarrow> jsonl_store \<Rightarrow> string \<Rightarrow> string \<Rightarrow> jsonl_error + event list" where
  "read_run_events fo s t r =
     ebind (run_file t r) (\<lambda>path. Inr (case dget (js_files s) path of None \<Rightarrow> [] | Some text \<Rightarrow> sort_key ev_seq (decode_file fo text)))"

definition js_put :: "float_reader \<Rightarrow> string \<Rightarrow> event_input \<Rightarrow> jsonl_store \<Rightarrow> (jsonl_error + event) \<times> jsonl_store" where
  "js_put fo now i s =
     (case ensure_seq_loaded fo (in_thread_id i) s of
        Inl e \<Rightarrow> (Inl e, s)
      | Inr s1 \<Rightarrow>
          let (seq, s2) = js_next_seq (in_thread_id i) s1; record = new_record now i seq in
          case write_record (in_thread_id i) (in_run_id i) record s2 of
            Inl e \<Rightarrow> (Inl e, s2)
          | Inr s3 \<Rightarrow> (Inr record, s3))"

text \<open>A failed write ends the batch; what was written before stays.\<close>

fun js_put_batch :: "float_reader \<Rightarrow> string \<Rightarrow> event_input list \<Rightarrow> jsonl_store \<Rightarrow> (jsonl_error + event list) \<times> jsonl_store" where
  "js_put_batch fo now [] s = (Inr [], s)"
| "js_put_batch fo now (i # is) s =
     (case js_put fo now i s of
        (Inl e, s1) \<Rightarrow> (Inl e, s1)
      | (Inr record, s1) \<Rightarrow>
          (case js_put_batch fo now is s1 of (Inl e, s2) \<Rightarrow> (Inl e, s2) | (Inr records, s2) \<Rightarrow> (Inr (record # records), s2)))"

definition js_list_messages ::
  "float_reader \<Rightarrow> jsonl_store \<Rightarrow> string \<Rightarrow> int \<Rightarrow> int option \<Rightarrow> int option \<Rightarrow> jsonl_error + event list" where
  "js_list_messages fo s t limit before_seq after_seq =
     ebind (read_thread_events fo s t) (\<lambda>all_events.
     let messages = filter is_message all_events in
     Inr (case before_seq of
        Some b \<Rightarrow> slice_from (- limit) (filter (\<lambda>e. ev_seq e < b) messages)
      | None \<Rightarrow>
          (case after_seq of
             Some a \<Rightarrow> slice_to limit (filter (\<lambda>e. ev_seq e > a) messages)
           | None \<Rightarrow> slice_from (- limit) messages)))"

definition js_list_events ::
  "float_reader \<Rightarrow> jsonl_store \<Rightarrow> string \<Rightarrow> string \<Rightarrow> string list option \<Rightarrow> string option \<Rightarrow> int \<Rightarrow> int option \<Rightarrow> jsonl_error + event list" where
  "js_list_events fo s t r event_types task_id limit after_seq =
     ebind (read_run_events fo s t r) (\<lambda>events.
     let events1 = (case event_types of None \<Rightarrow> events | Some ts \<Rightarrow> filter (of_type ts) events);
         events2 = (case task_id of None \<Rightarrow> events1 | Some k \<Rightarrow> filter (of_task k) events1);
         events3 = (case after_seq of None \<Rightarrow> events2 | Some a \<Rightarrow> filter (\<lambda>e. ev_seq e > a) events2)
     in Inr (slice_to limit events3))"

definition js_list_messages_by_run ::
  "float_reader \<Rightarrow> jsonl_store \<Rightarrow> string \<Rightarrow> string \<Rightarrow> int \<Rightarrow> int option \<Rightarrow> int option \<Rightarrow> jsonl_error + event list" where
  "js_list_messages_by_run fo s t r limit before_seq after_seq =
     ebind (read_run_events fo s t r) (\<lambda>events.
     let filtered = filter is_message events;
         filtered1 = (case before_seq of None \<Rightarrow> filtered | Some b \<Rightarrow> filter (\<lambda>e. ev_seq e < b) filtered);
         filtered2 = (case after_seq of None \<Rightarrow> filtered1 | Some a \<Rightarrow> filter (\<lambda>e. ev_seq e > a) filtered1)
     in Inr (if after_seq \<noteq> None then slice_to limit filtered2
             else if int (length filtered2) > limit then slice_from (- limit) filtered2 else filtered2))"

definition js_count_messages :: "float_reader \<Rightarrow> jsonl_store \<Rightarrow> string \<Rightarrow> jsonl_error + nat" where
  "js_count_messages fo s t = ebind (read_thread_events fo s t) (\<lambda>all_events. Inr (length (filter is_message all_events)))"

definition js_delete_by_thread :: "float_reader \<Rightarrow> string \<Rightarrow> jsonl_store \<Rightarrow> (jsonl_error + nat) \<times> jsonl_store" where
  "js_delete_by_thread fo t s =
     (case read_thread_events fo s t of
        Inl e \<Rightarrow> (Inl e, s)
      | Inr all_events \<Rightarrow>
          (Inr (length all_events), \<lparr>js_files = filter (\<lambda>((u, _), _). u \<noteq> t) (js_files s), js_seq_counters = dpop t (js_seq_counters s)\<rparr>))"

definition js_delete_by_run :: "float_reader \<Rightarrow> string \<Rightarrow> string \<Rightarrow> jsonl_store \<Rightarrow> (jsonl_error + nat) \<times> jsonl_store" where
  "js_delete_by_run fo t r s =
     (case read_run_events fo s t r of
        Inl e \<Rightarrow> (Inl e, s)
      | Inr events \<Rightarrow> (Inr (length events), s\<lparr>js_files := dpop (t, r) (js_files s)\<rparr>))"

section \<open>Lines that survive\<close>

text \<open>The character U+0085 breaks a line and is not escaped.\<close>

fun nel_free :: "pyval \<Rightarrow> bool" where
  "nel_free (PStr s) \<longleftrightarrow> CHR 0x85 \<notin> set s"
| "nel_free (PList xs) \<longleftrightarrow> (\<forall>x\<in>set xs. nel_free x)"
| "nel_free (PDict d) \<longleftrightarrow> (\<forall>(k, v)\<in>set d. CHR 0x85 \<notin> set k \<and> nel_free v)"
| "nel_free v \<longleftrightarrow> True"

abbreviation unbroken :: "string \<Rightarrow> bool" where
  "unbroken s \<equiv> \<forall>c\<in>set s. \<not> line_break c"

lemma printable_unbroken: "in_range 32 126 c \<Longrightarrow> \<not> line_break c"
  by (auto simp: line_break_def in_range_def)

lemma unbroken_literals [simp]:
  "\<not> line_break CHR ''n''" "\<not> line_break CHR ''u''" "\<not> line_break CHR ''l''" "\<not> line_break CHR ''t''" "\<not> line_break CHR ''r''" "\<not> line_break CHR ''e''"
  "\<not> line_break CHR ''f''" "\<not> line_break CHR ''a''" "\<not> line_break CHR ''s''" "\<not> line_break CHR ''[''" "\<not> line_break CHR '']''" "\<not> line_break CHR ''{''"
  "\<not> line_break CHR ''}''" "\<not> line_break CHR '',''" "\<not> line_break CHR '' ''" "\<not> line_break CHR '':''" "\<not> line_break CHR ''-''" "\<not> line_break CHR ''+''"
  "\<not> line_break CHR ''.''" "\<not> line_break CHR ''E''" "\<not> line_break CHR ''0''" "\<not> line_break CHR 0x22" "\<not> line_break CHR 0x5C"
  by (simp_all add: line_break_def in_range_def char_code_def)

lemma feed_breaks [simp]: "line_break CHR 0x0A" "line_break CHR 0x0D"
  by (simp_all add: line_break_def in_range_def char_code_def)

lemma hex_digit_printable: "d < 16 \<Longrightarrow> in_range 32 126 (hex_digit d)"
  by (simp add: hex_digit_def in_range_def char_code_def)

lemma char_code_div: "char_code c div 16 < 16"
proof -
  have "char_code c < 16 * 16" using nat_of_char_less_256 [of c] by (simp add: char_code_def)
  then show ?thesis by (rule less_mult_imp_div_less)
qed

lemma json_char_printable: "d \<in> set (json_char c) \<Longrightarrow> in_range 32 126 d"
  using hex_digit_printable [OF char_code_div [of c]] hex_digit_printable [of "char_code c mod 16"]
  by (auto simp: json_char_def in_range_def char_code_def split: if_split_asm)

lemma text_char_unbroken: "c \<noteq> CHR 0x85 \<Longrightarrow> unbroken (text_char c)"
proof (cases "in_range 127 255 c")
  case True
  assume c: "c \<noteq> CHR 0x85"
  have "char_code c \<noteq> 133"
  proof
    assume "char_code c = 133"
    then have "of_char c = (of_char CHR 0x85 :: nat)" by (simp add: char_code_def)
    with c show False by (simp only: of_char_eq_iff)
  qed
  with True show ?thesis by (auto simp: text_char_def line_break_def in_range_def)
next
  case False
  then show ?thesis by (auto simp: text_char_def dest!: json_char_printable printable_unbroken)
qed

lemma text_str_unbroken: "CHR 0x85 \<notin> set s \<Longrightarrow> unbroken (text_str s)"
proof -
  assume "CHR 0x85 \<notin> set s"
  then have "unbroken (concat (map text_char s))"
  proof (induction s)
    case (Cons c s)
    then have "c \<noteq> CHR 0x85" by auto
    with Cons text_char_unbroken [of c] show ?case by (simp add: ball_Un)
  qed simp
  then show ?thesis by (simp add: text_str_def ball_Un)
qed

lemma digit_unbroken: "is_digit_char c \<Longrightarrow> \<not> line_break c"
  by (auto simp: line_break_def char_class_defs)

lemma int_str_unbroken: "unbroken (int_str i)"
  using nat_str_digits by (auto simp: int_str_def list_all_iff digit_unbroken)

lemma digit_span_unbroken: "unbroken (fst (digit_span s))"
  by (auto simp: digit_span_def dest!: set_takeWhileD digit_unbroken)

lemma float_text_unbroken: "float_text r \<Longrightarrow> unbroken r"
proof -
  have spans: "unbroken (fst (sign_span s))" "unbroken (fst (int_span s))" "unbroken (fst (frac_span s))" "unbroken (fst (exp_span s))" for s
    using digit_span_unbroken by (auto simp: sign_span_def int_span_def frac_span_def exp_span_def split: list.split)
  assume "float_text r"
  then have "r = fst (sign_span r) @ fst (int_span (snd (sign_span r))) @ fst (frac_span (snd (int_span (snd (sign_span r))))) @
      fst (exp_span (snd (frac_span (snd (int_span (snd (sign_span r)))))))"
    by (simp add: float_text_def case_prod_unfold Let_def)
  with spans show ?thesis by (metis (no_types, lifting) Un_iff set_append)
qed

lemma join_unbroken: "unbroken sep \<Longrightarrow> \<forall>x\<in>set xs. unbroken x \<Longrightarrow> unbroken (join_with sep xs)"
  by (induction sep xs rule: join_with.induct) auto

lemma json_text_unbroken: "json_value fo v \<Longrightarrow> nel_free v \<Longrightarrow> unbroken (json_text v)"
proof (induction v)
  case (PList xs)
  then have "\<forall>x\<in>set (map json_text xs). unbroken x" by auto
  from join_unbroken [OF _ this, of "'', ''"] show ?case by auto
next
  case (PDict d)
  have "unbroken (text_str k @ '': '' @ json_text v)" if "(k, v) \<in> set d" for k v
    using PDict that text_str_unbroken [of k] by fastforce
  then have "\<forall>x\<in>set (map (\<lambda>(k, v). text_str k @ '': '' @ json_text v) d). unbroken x" by auto
  from join_unbroken [OF _ this, of "'', ''"] show ?case by auto
qed (auto simp: int_str_unbroken float_text_unbroken text_str_unbroken)

lemma splitlines_line: "unbroken l \<Longrightarrow> splitlines (l @ CHR 0x0A # rest) = l # splitlines rest"
  by (induction l) auto

lemma splitlines_single: "unbroken l \<Longrightarrow> l \<noteq> [] \<Longrightarrow> splitlines l = [l]"
proof (induction l)
  case (Cons c l)
  then show ?case by (cases l) auto
qed simp

lemma splitlines_lines: "\<forall>l\<in>set (ls @ [m]). unbroken l \<Longrightarrow> m \<noteq> [] \<Longrightarrow> splitlines (concat (map (\<lambda>l. l @ [CHR 0x0A]) ls) @ m) = ls @ [m]"
  by (induction ls) (auto simp: splitlines_line splitlines_single)

lemma universal_newlines_id: "CHR 0x0D \<notin> set s \<Longrightarrow> universal_newlines s = s"
  by (induction s rule: universal_newlines.induct) auto

text \<open>What the store writes it reads back, line by line.\<close>

definition writable :: "float_reader \<Rightarrow> event \<Rightarrow> bool" where
  "writable fo e \<longleftrightarrow> json_value fo (PDict e) \<and> nel_free (PDict e)"

lemma str_strip_text:
  assumes "\<not> is_space_char c" and "\<not> is_space_char d"
  shows "str_strip (c # s @ [d, CHR 0x0A]) = c # s @ [d]" and "str_strip [c, CHR 0x0A] = [c]"
proof -
  have "is_space_char CHR 0x0A" by (simp add: char_class_defs)
  with assms show "str_strip (c # s @ [d, CHR 0x0A]) = c # s @ [d]" "str_strip [c, CHR 0x0A] = [c]" by (simp_all add: str_strip_def)
qed

lemma file_lines_events:
  assumes "\<forall>e\<in>set es. writable fo e"
  shows "file_lines (concat (map event_line es)) = map (\<lambda>e. json_text (PDict e)) es"
proof (cases es rule: rev_cases)
  case Nil
  then show ?thesis by (simp add: file_lines_def)
next
  case (snoc fs e)
  let ?ls = "map (\<lambda>e. json_text (PDict e)) fs"
  let ?m = "json_text (PDict e)"
  have unbroken: "\<forall>l\<in>set (?ls @ [?m]). unbroken l"
  proof -
    have "unbroken (json_text (PDict x))" if "x \<in> set es" for x
      using assms that by (intro json_text_unbroken) (auto simp only: writable_def)
    then show ?thesis using snoc by (auto simp del: json_text.simps)
  qed
  have whole: "concat (map event_line es) = concat (map (\<lambda>l. l @ [CHR 0x0A]) ?ls) @ ?m @ [CHR 0x0A]"
    by (simp add: snoc event_line_def [abs_def] comp_def)
  have cr: "CHR 0x0D \<notin> set (concat (map event_line es))"
  proof -
    have "CHR 0x0D \<notin> set l" if "l \<in> set (?ls @ [?m])" for l using unbroken that feed_breaks(2) by blast
    then show ?thesis unfolding whole by (auto simp del: json_text.simps)
  qed
  have bracket: "\<not> is_space_char CHR ''{''" "\<not> is_space_char CHR ''}''" by (simp_all add: char_class_defs)
  obtain mid where m: "?m = CHR ''{'' # mid @ [CHR ''}'']" by simp
  obtain s where s: "concat (map (\<lambda>l. l @ [CHR 0x0A]) ?ls) @ ?m = CHR ''{'' # s @ [CHR ''}'']"
    by (cases fs) (auto simp: m)
  then have "str_strip (concat (map event_line es)) = concat (map (\<lambda>l. l @ [CHR 0x0A]) ?ls) @ ?m"
    using str_strip_text(1) [OF bracket, of s] unfolding whole by (metis append.assoc append_Cons append_Nil)
  then show ?thesis
    using splitlines_lines [OF unbroken] m unfolding file_lines_def universal_newlines_id [OF cr] by (simp add: snoc)
qed

lemma decode_file_events:
  assumes "\<forall>e\<in>set es. writable fo e"
  shows "decode_file fo (concat (map event_line es)) = es"
proof -
  have "decode_line fo (json_text (PDict e)) = Some e" if "e \<in> set es" for e
    using json_roundtrip [of fo "PDict e"] assms that by (simp add: decode_line_def writable_def)
  then have "List.map_filter (decode_line fo) (map (\<lambda>e. json_text (PDict e)) es) = es"
    by (induction es) (auto simp: map_filter_simps)
  then show ?thesis by (simp add: decode_file_def file_lines_events [OF assms])
qed

section \<open>The log of the files\<close>

definition js_last :: "float_reader \<Rightarrow> jsonl_store \<Rightarrow> string \<Rightarrow> int" where
  "js_last fo s t = (case dget (js_seq_counters s) t of Some n \<Rightarrow> n | None \<Rightarrow> foldl (\<lambda>m e. max m (ev_seq e)) 0 (scan_events fo s t))"

definition js_view :: "float_reader \<Rightarrow> jsonl_store \<Rightarrow> event_log" where
  "js_view fo s = \<lparr>lg_events = (\<lambda>t. sort_key ev_seq (scan_events fo s t)), lg_last = js_last fo s\<rparr>"

text \<open>Each file holds the lines of events of its run, all sequence numbers of a thread differ, and are at most the last one assigned.\<close>

definition js_files_ok :: "float_reader \<Rightarrow> jsonl_store \<Rightarrow> bool" where
  "js_files_ok fo s \<longleftrightarrow> wf_dict (js_files s) \<and>
     (\<forall>((t, r), text)\<in>set (js_files s). \<exists>es. text = concat (map event_line es) \<and> (\<forall>e\<in>set es. writable fo e \<and> of_run r e)) \<and>
     (\<forall>t. distinct (map ev_seq (scan_events fo s t)) \<and> (\<forall>e\<in>set (scan_events fo s t). 1 \<le> ev_seq e \<and> ev_seq e \<le> js_last fo s t) \<and> 0 \<le> js_last fo s t)"

definition js_inv :: "float_reader \<Rightarrow> jsonl_store \<Rightarrow> bool" where
  "js_inv fo s \<longleftrightarrow> js_files_ok fo s \<and> (\<forall>t. scan_events fo s t \<noteq> [] \<longrightarrow> dget (js_seq_counters s) t \<noteq> None)"

lemma js_last_loaded: "js_inv fo s \<Longrightarrow> js_last fo s t = dget_default (js_seq_counters s) t 0"
proof (cases "dget (js_seq_counters s) t")
  case None
  assume "js_inv fo s"
  with None have "scan_events fo s t = []" unfolding js_inv_def by metis
  with None show ?thesis by (simp add: js_last_def dget_default_def)
qed (simp add: js_last_def dget_default_def)

lemma file_events:
  assumes "js_files_ok fo s" and "((t, r), text) \<in> set (js_files s)"
  obtains es where "text = concat (map event_line es)" "decode_file fo text = es" "\<forall>e\<in>set es. writable fo e \<and> of_run r e"
proof -
  from assms obtain es where es: "text = concat (map event_line es)" "\<forall>e\<in>set es. writable fo e \<and> of_run r e"
    unfolding js_files_ok_def by fastforce
  with decode_file_events [of es fo] that show thesis by auto
qed

text \<open>The events of a thread, as a sum over the files.\<close>

definition file_part :: "float_reader \<Rightarrow> string \<Rightarrow> (string \<times> string) \<times> string \<Rightarrow> event multiset" where
  "file_part fo t = (\<lambda>((u, _), text). if u = t then mset (decode_file fo text) else {#})"

lemma sum_sort_key: "sum_list (map g (sort_key f xs)) = (sum_list (map g xs) :: 'm::comm_monoid_add)"
  by (metis mset_map mset_sort sum_mset_sum_list)

lemma mset_scan: "mset (scan_events fo s t) = sum_list (map (file_part fo t) (js_files s))"
proof -
  have "sum_list (map (\<lambda>(_, text). mset (decode_file fo text)) (filter (\<lambda>((u, _), _). u = t) fs)) = sum_list (map (file_part fo t) fs)" for fs
    by (induction fs) (auto simp: file_part_def)
  then show ?thesis
    unfolding scan_events_def thread_files_def mset_concat map_map comp_def by (simp add: case_prod_unfold sum_sort_key)
qed

lemma sum_dpop:
  fixes g :: "'k \<times> 'v \<Rightarrow> 'm::comm_monoid_add"
  shows "wf_dict d \<Longrightarrow> dget d k = Some v \<Longrightarrow> sum_list (map g d) = sum_list (map g (dpop k d)) + g (k, v)"
proof (induction d)
  case (Cons kv d)
  show ?case
  proof (cases "fst kv = k")
    case True
    with Cons.prems have "dget d k = None" "kv = (k, v)" by (auto simp: wf_dict_def map_of_eq_None_iff prod_eq_iff)
    then show ?thesis by (simp add: dpop_absent ac_simps)
  next
    case False
    with Cons show ?thesis by (simp add: wf_dict_def ac_simps)
  qed
qed simp

lemma sum_dset:
  fixes g :: "'k \<times> 'v \<Rightarrow> 'm::comm_monoid_add"
  assumes "wf_dict d"
  shows "sum_list (map g (dset k v d)) = sum_list (map g (dpop k d)) + g (k, v)"
proof -
  have "dpop k (dset k v d) = dpop k d" by (induction d) (auto simp: AList.delete_eq)
  with sum_dpop [of "dset k v d" k v g] assms show ?thesis by simp
qed

lemma sort_snoc:
  assumes "mset ys = add_mset e (mset xs)" and "distinct (map ev_seq xs)" and "\<forall>x\<in>set xs. ev_seq x < ev_seq e"
  shows "sort_key ev_seq ys = sort_key ev_seq xs @ [e]"
proof (rule sort_key_inj_key_eq)
  show "mset ys = mset (sort_key ev_seq xs @ [e])" using assms(1) by simp
  have "set ys = insert e (set xs)" using assms(1) by (metis set_mset_add_mset_insert set_mset_mset)
  with assms(2,3) show "inj_on ev_seq (set ys)" by (auto simp: distinct_map inj_on_insert)
  show "sorted (map ev_seq (sort_key ev_seq xs @ [e]))" using assms(3) by (auto simp: sorted_append less_imp_le)
qed

lemma sort_unique:
  assumes "mset ys = mset xs" and "distinct (map ev_seq xs)" and "sorted (map ev_seq ys)"
  shows "sort_key ev_seq xs = ys"
  using assms by (intro sort_key_inj_key_eq) (auto simp: distinct_map)

lemma sort_mset_cong: "mset ys = mset xs \<Longrightarrow> distinct (map ev_seq xs) \<Longrightarrow> sort_key ev_seq xs = sort_key ev_seq ys"
  by (rule sort_unique) simp_all

lemma strictly_sorted: "distinct (map ev_seq xs) \<Longrightarrow> sorted_wrt (\<lambda>x y. ev_seq x < ev_seq y) (sort_key ev_seq xs)"
proof -
  assume "distinct (map ev_seq xs)"
  then have "distinct (map ev_seq (sort_key ev_seq xs))" by (metis distinct_map distinct_sort set_sort)
  then have "sorted_wrt (<) (map ev_seq (sort_key ev_seq xs))" by (simp add: strict_sorted_iff)
  then show ?thesis by (simp add: sorted_wrt_map)
qed

lemma wf_js_view: "js_files_ok fo s \<Longrightarrow> wf_log (js_view fo s)"
  by (auto simp: wf_log_def js_view_def js_files_ok_def strictly_sorted)

section \<open>Writing an event\<close>

definition js_storable :: "float_reader \<Rightarrow> string \<Rightarrow> event_input \<Rightarrow> bool" where
  "js_storable fo now i \<longleftrightarrow> writable fo (new_record now i 0)"

lemma storable_any_seq: "js_storable fo now i \<Longrightarrow> writable fo (new_record now i n)"
  by (auto simp: js_storable_def writable_def new_record_def)

text \<open>The state after an event was written.\<close>

definition written :: "string \<Rightarrow> event_input \<Rightarrow> int \<Rightarrow> jsonl_store \<Rightarrow> jsonl_store \<Rightarrow> bool" where
  "written now i n s s' \<longleftrightarrow>
     js_files s' = dset (in_thread_id i, in_run_id i)
       (dget_default (js_files s) (in_thread_id i, in_run_id i) [] @ event_line (new_record now i n)) (js_files s) \<and>
     (\<forall>t. dget (js_seq_counters s') t = (if t = in_thread_id i then Some n else dget (js_seq_counters s) t))"

lemma js_put_written:
  assumes "path_id (in_thread_id i)" and "path_id (in_run_id i)"
  shows "\<exists>s'. js_put fo now i s = (Inr (new_record now i (js_last fo s (in_thread_id i) + 1)), s') \<and>
    written now i (js_last fo s (in_thread_id i) + 1) s s'"
proof -
  let ?t = "in_thread_id i"
  obtain s1 where s1: "ensure_seq_loaded fo ?t s = Inr s1" "js_files s1 = js_files s"
      "\<forall>u. dget (js_seq_counters s1) u = (if u = ?t then Some (js_last fo s ?t) else dget (js_seq_counters s) u)"
    using assms(1) by (cases "dget (js_seq_counters s) ?t")
      (auto simp: ensure_seq_loaded_def compute_max_seq_def thread_dir_def validate_id_def js_last_def)
  have "dget_default (js_seq_counters s1) ?t 0 = js_last fo s ?t" using s1(3) by (simp add: dget_default_def)
  then show ?thesis
    using s1 assms by (simp add: js_put_def js_next_seq_def Let_def write_record_def run_file_def thread_dir_def validate_id_def written_def)
qed

lemma decode_append:
  assumes "js_files_ok fo s" and "writable fo e"
  shows "decode_file fo (dget_default (js_files s) (t, r) [] @ event_line e) = decode_file fo (dget_default (js_files s) (t, r) []) @ [e]"
proof (cases "dget (js_files s) (t, r)")
  case None
  then show ?thesis using decode_file_events [of "[e]" fo] decode_file_events [of "[]" fo] assms(2) by (simp add: dget_default_def)
next
  case (Some body)
  then have "((t, r), body) \<in> set (js_files s)" by (rule map_of_SomeD)
  from file_events [OF assms(1) this] obtain es where es: "body = concat (map event_line es)" "\<forall>e\<in>set es. writable fo e" by metis
  have "decode_file fo (body @ event_line e) = es @ [e]" using decode_file_events [of "es @ [e]" fo] es assms(2) by simp
  with Some decode_file_events [OF es(2)] es(1) show ?thesis by (simp add: dget_default_def)
qed

lemma mset_scan_written:
  assumes "js_files_ok fo s" and "written now i n s s'" and "js_storable fo now i"
  shows "mset (scan_events fo s' t) =
    (if t = in_thread_id i then add_mset (new_record now i n) (mset (scan_events fo s t)) else mset (scan_events fo s t))"
proof -
  let ?k = "(in_thread_id i, in_run_id i)" and ?e = "new_record now i n"
  have wf: "wf_dict (js_files s)" using assms(1) by (simp add: js_files_ok_def)
  have part: "file_part fo t (?k, dget_default (js_files s) ?k [] @ event_line ?e) =
      file_part fo t (?k, dget_default (js_files s) ?k []) + (if t = in_thread_id i then {#?e#} else {#})"
    using decode_append [OF assms(1) storable_any_seq [OF assms(3)], of "in_thread_id i" "in_run_id i"] by (auto simp: file_part_def)
  have old: "sum_list (map (file_part fo t) (js_files s)) =
      sum_list (map (file_part fo t) (dpop ?k (js_files s))) + file_part fo t (?k, dget_default (js_files s) ?k [])"
  proof (cases "dget (js_files s) ?k")
    case None
    then show ?thesis using decode_file_events [of "[]" fo] by (simp add: dpop_absent dget_default_def file_part_def)
  next
    case (Some body)
    with sum_dpop [OF wf Some, of "file_part fo t"] show ?thesis by (simp add: dget_default_def)
  qed
  have "js_files s' = dset ?k (dget_default (js_files s) ?k [] @ event_line ?e) (js_files s)" using assms(2) by (simp add: written_def)
  then show ?thesis unfolding mset_scan by (simp only: sum_dset [OF wf] part old) (auto simp: ac_simps)
qed

lemma distinct_mset_map: "mset ys = mset xs \<Longrightarrow> distinct (map f ys) \<longleftrightarrow> distinct (map f xs)"
  by (rule mset_eq_imp_distinct_iff) simp

lemma js_last_other:
  assumes "js_inv fo s" and "dget (js_seq_counters s') t = dget (js_seq_counters s) t" and "mset (scan_events fo s' t) = mset (scan_events fo s t)"
  shows "js_last fo s' t = js_last fo s t"
proof (cases "dget (js_seq_counters s) t")
  case None
  with assms(1) have "scan_events fo s t = []" unfolding js_inv_def by metis
  with assms(3) have "scan_events fo s' t = []" by simp
  with None assms(2) \<open>scan_events fo s t = []\<close> show ?thesis by (simp add: js_last_def)
next
  case (Some n)
  with assms(2) show ?thesis by (simp add: js_last_def)
qed

lemma js_put_law:
  assumes inv: "js_inv fo s" and w: "written now i (js_last fo s (in_thread_id i) + 1) s s'" and st: "js_storable fo now i"
  shows "js_view fo s' = log_put now i (js_view fo s)" and "js_inv fo s'"
proof -
  let ?t = "in_thread_id i" and ?r = "in_run_id i" and ?n = "js_last fo s (in_thread_id i) + 1"
  let ?e = "new_record now i ?n"
  have ok: "js_files_ok fo s" using inv by (simp add: js_inv_def)
  note scan = mset_scan_written [OF ok w st]
  have here: "js_last fo s' ?t = ?n" using w by (simp add: written_def js_last_def)
  have other: "js_last fo s' u = js_last fo s u" if "u \<noteq> ?t" for u
  proof (rule js_last_other [OF inv])
    show "dget (js_seq_counters s') u = dget (js_seq_counters s) u" using w that by (simp add: written_def)
    show "mset (scan_events fo s' u) = mset (scan_events fo s u)" using scan [of u] that by simp
  qed
  have bounds: "distinct (map ev_seq (scan_events fo s u))" "\<forall>e\<in>set (scan_events fo s u). 1 \<le> ev_seq e \<and> ev_seq e \<le> js_last fo s u" "0 \<le> js_last fo s u" for u
    using ok by (auto simp: js_files_ok_def)
  have below: "\<forall>x\<in>set (scan_events fo s ?t). ev_seq x < ev_seq ?e" using bounds(2) [of ?t] by auto
  have "sort_key ev_seq (scan_events fo s' u) = (if u = ?t then sort_key ev_seq (scan_events fo s u) @ [?e] else sort_key ev_seq (scan_events fo s u))" for u
  proof (cases "u = ?t")
    case True
    then have "mset (scan_events fo s' u) = add_mset ?e (mset (scan_events fo s ?t))" using scan [of u] by simp
    from sort_snoc [OF this bounds(1) below] True show ?thesis by simp
  next
    case False
    then have "mset (scan_events fo s' u) = mset (scan_events fo s u)" using scan [of u] by simp
    from sort_mset_cong [OF this bounds(1)] False show ?thesis by simp
  qed
  then show "js_view fo s' = log_put now i (js_view fo s)"
    using here other by (auto simp: js_view_def log_put_def Let_def)
  have sets: "set (scan_events fo s' u) = (if u = ?t then insert ?e (set (scan_events fo s u)) else set (scan_events fo s u))" for u
    using scan [of u] by (metis set_mset_add_mset_insert set_mset_mset)
  have dist: "distinct (map ev_seq (scan_events fo s' u))" for u
  proof (cases "u = ?t")
    case True
    then have "mset (scan_events fo s' u) = mset (scan_events fo s ?t @ [?e])" using scan [of u] by simp
    from distinct_mset_map [OF this, of ev_seq] bounds(1) [of ?t] below show ?thesis by auto
  next
    case False
    with scan [of u] distinct_mset_map [of _ "scan_events fo s u" ev_seq] bounds(1) show ?thesis by simp
  qed
  have limits: "(\<forall>e\<in>set (scan_events fo s' u). 1 \<le> ev_seq e \<and> ev_seq e \<le> js_last fo s' u) \<and> 0 \<le> js_last fo s' u" for u
    using sets [of u] here other [of u] bounds [of u] by (cases "u = ?t") auto
  have files: "\<exists>es. body = concat (map event_line es) \<and> (\<forall>e\<in>set es. writable fo e \<and> of_run r e)"
    if "((t, r), body) \<in> set (js_files s')" for t r body
  proof -
    from that w have "((t, r), body) \<in> set (js_files s) \<or> (t = ?t \<and> r = ?r \<and> body = dget_default (js_files s) (?t, ?r) [] @ event_line ?e)"
      unfolding written_def using set_dset_subset by fastforce
    then show ?thesis
    proof
      assume "((t, r), body) \<in> set (js_files s)"
      from file_events [OF ok this] show ?thesis by metis
    next
      assume new: "t = ?t \<and> r = ?r \<and> body = dget_default (js_files s) (?t, ?r) [] @ event_line ?e"
      obtain es where "dget_default (js_files s) (?t, ?r) [] = concat (map event_line es)" "\<forall>e\<in>set es. writable fo e \<and> of_run ?r e"
      proof (cases "dget (js_files s) (?t, ?r)")
        case None
        then show thesis using that [of "[]"] by (simp add: dget_default_def)
      next
        case (Some body')
        from file_events [OF ok map_of_SomeD [OF Some]] Some that show thesis unfolding dget_default_def by (metis option.simps(5))
      qed
      with new storable_any_seq [OF st] show ?thesis by (intro exI [of _ "es @ [?e]"]) auto
    qed
  qed
  have "wf_dict (js_files s')" using ok w by (simp add: js_files_ok_def written_def)
  then have "js_files_ok fo s'" using files dist limits by (auto simp: js_files_ok_def)
  moreover have "scan_events fo s' u \<noteq> [] \<longrightarrow> dget (js_seq_counters s') u \<noteq> None" for u
  proof (cases "u = ?t")
    case True
    then show ?thesis using w by (simp add: written_def)
  next
    case False
    then have "scan_events fo s' u = [] \<longleftrightarrow> scan_events fo s u = []" using sets [of u] by (metis set_empty2)
    with False show ?thesis using inv w by (simp add: js_inv_def written_def)
  qed
  ultimately show "js_inv fo s'" by (simp add: js_inv_def)
qed

section \<open>Deleting and reading\<close>

text \<open>The events of a run are those of its file.\<close>

lemma scan_mem:
  assumes "e \<in> set (scan_events fo s t)"
  obtains r body where "((t, r), body) \<in> set (js_files s)" "e \<in> set (decode_file fo body)"
  using assms by (auto simp: scan_events_def thread_files_def)

lemma mset_scan_run:
  assumes ok: "js_files_ok fo s"
  shows "mset (decode_file fo (dget_default (js_files s) (t, r) [])) = mset (filter (of_run r) (scan_events fo s t))"
    and "mset (scan_events fo (s\<lparr>js_files := dpop (t, r) (js_files s)\<rparr>) t) = mset (filter (\<lambda>e. \<not> of_run r e) (scan_events fo s t))"
proof -
  let ?d = "decode_file fo (dget_default (js_files s) (t, r) [])" and ?s = "s\<lparr>js_files := dpop (t, r) (js_files s)\<rparr>"
  have wf: "wf_dict (js_files s)" using ok by (simp add: js_files_ok_def)
  have split: "mset (scan_events fo s t) = mset (scan_events fo ?s t) + mset ?d"
  proof (cases "dget (js_files s) (t, r)")
    case None
    then show ?thesis using decode_file_events [of "[]" fo] unfolding mset_scan by (simp add: dpop_absent dget_default_def)
  next
    case (Some body)
    with sum_dpop [OF wf Some, of "file_part fo t"] show ?thesis unfolding mset_scan by (simp add: dget_default_def file_part_def)
  qed
  have inside: "\<forall>e\<in>set ?d. of_run r e"
  proof (cases "dget (js_files s) (t, r)")
    case None
    then show ?thesis using decode_file_events [of "[]" fo] by (simp add: dget_default_def)
  next
    case (Some body)
    from file_events [OF ok map_of_SomeD [OF Some]] Some show ?thesis unfolding dget_default_def by (metis option.simps(5))
  qed
  have outside: "\<forall>e\<in>set (scan_events fo ?s t). \<not> of_run r e"
  proof
    fix e
    assume "e \<in> set (scan_events fo ?s t)"
    then obtain q body where f: "((t, q), body) \<in> set (dpop (t, r) (js_files s))" "e \<in> set (decode_file fo body)"
      by (auto elim: scan_mem)
    then have "q \<noteq> r" "((t, q), body) \<in> set (js_files s)" by (auto simp: AList.delete_eq)
    from file_events [OF ok this(2)] f(2) have "of_run q e" by metis
    with \<open>q \<noteq> r\<close> show "\<not> of_run r e" by (simp add: has_text_def)
  qed
  have "filter (of_run r) ?d = ?d" "filter (\<lambda>e. \<not> of_run r e) ?d = []" "filter (of_run r) (scan_events fo ?s t) = []"
      "filter (\<lambda>e. \<not> of_run r e) (scan_events fo ?s t) = scan_events fo ?s t"
    using inside outside by (simp_all add: filter_empty_conv)
  then have parts: "filter_mset (of_run r) (mset ?d) = mset ?d" "filter_mset (\<lambda>e. \<not> of_run r e) (mset ?d) = {#}"
      "filter_mset (of_run r) (mset (scan_events fo ?s t)) = {#}"
      "filter_mset (\<lambda>e. \<not> of_run r e) (mset (scan_events fo ?s t)) = mset (scan_events fo ?s t)"
    by (metis mset_filter mset.simps(1))+
  show "mset ?d = mset (filter (of_run r) (scan_events fo s t))"
    "mset (scan_events fo ?s t) = mset (filter (\<lambda>e. \<not> of_run r e) (scan_events fo s t))"
    unfolding mset_filter split by (simp_all add: parts)
qed

lemma read_thread_view: "path_id t \<Longrightarrow> read_thread_events fo s t = Inr (lg_events (js_view fo s) t)"
  by (simp add: read_thread_events_def thread_dir_def validate_id_def js_view_def)

lemma filter_sort_unique:
  assumes "distinct (map ev_seq xs)" and "mset ys = mset (filter P xs)"
  shows "sort_key ev_seq ys = filter P (sort_key ev_seq xs)"
proof (rule sort_unique)
  show "mset (filter P (sort_key ev_seq xs)) = mset ys" using assms(2) by simp
  have "distinct (map ev_seq (filter P xs))" using assms(1) by (simp add: distinct_map_filter)
  with distinct_mset_map [OF assms(2), of ev_seq] show "distinct (map ev_seq ys)" by simp
  show "sorted (map ev_seq (filter P (sort_key ev_seq xs)))" by (simp add: sorted_filter)
qed

lemma read_run_view:
  assumes "js_files_ok fo s" and "path_id t" and "path_id r"
  shows "read_run_events fo s t r = Inr (filter (of_run r) (lg_events (js_view fo s) t))"
proof -
  have "(case dget (js_files s) (t, r) of None \<Rightarrow> [] | Some body \<Rightarrow> sort_key ev_seq (decode_file fo body)) =
      sort_key ev_seq (decode_file fo (dget_default (js_files s) (t, r) []))"
    using decode_file_events [of "[]" fo] by (auto simp: dget_default_def split: option.split)
  moreover have "distinct (map ev_seq (scan_events fo s t))" using assms(1) by (simp add: js_files_ok_def)
  ultimately show ?thesis
    using filter_sort_unique [OF _ mset_scan_run(1) [OF assms(1), of t r]] assms
    by (simp add: read_run_events_def run_file_def thread_dir_def validate_id_def js_view_def)
qed

text \<open>Deleting files keeps the rest.\<close>

lemma js_deleted:
  assumes inv: "js_inv fo s" and sub: "set (js_files s') \<subseteq> set (js_files s)" and "wf_dict (js_files s')"
    and scan: "\<And>u. mset (scan_events fo s' u) = mset (filter (P u) (scan_events fo s u))"
    and counters: "\<And>u. dget (js_seq_counters s') u = dget (js_seq_counters s) u \<or> dget (js_seq_counters s') u = None \<and> scan_events fo s' u = []"
  shows "js_inv fo s'" and "lg_events (js_view fo s') u = filter (P u) (lg_events (js_view fo s) u)"
    and "dget (js_seq_counters s') u = dget (js_seq_counters s) u \<Longrightarrow> js_last fo s' u = js_last fo s u"
proof -
  have ok: "js_files_ok fo s" using inv by (simp add: js_inv_def)
  have dist: "distinct (map ev_seq (scan_events fo s u))" for u using ok by (simp add: js_files_ok_def)
  from filter_sort_unique [OF dist scan] show "lg_events (js_view fo s') u = filter (P u) (lg_events (js_view fo s) u)"
    by (simp add: js_view_def)
  have subset: "set (scan_events fo s' u) \<subseteq> set (scan_events fo s u)" for u
    using scan [of u] by (metis filter_is_subset set_mset_mset)
  have same: "js_last fo s' u = js_last fo s u" if "dget (js_seq_counters s') u = dget (js_seq_counters s) u" for u
  proof (cases "dget (js_seq_counters s) u")
    case None
    with inv have "scan_events fo s u = []" unfolding js_inv_def by metis
    with subset [of u] None that show ?thesis by (simp add: js_last_def)
  next
    case (Some n)
    with that show ?thesis by (simp add: js_last_def)
  qed
  then show "dget (js_seq_counters s') u = dget (js_seq_counters s) u \<Longrightarrow> js_last fo s' u = js_last fo s u" .
  have "distinct (map ev_seq (scan_events fo s' u))" for u
    using distinct_mset_map [OF scan, of ev_seq u] dist [of u] by (simp add: distinct_map_filter)
  moreover have "(\<forall>e\<in>set (scan_events fo s' u). 1 \<le> ev_seq e \<and> ev_seq e \<le> js_last fo s' u) \<and> 0 \<le> js_last fo s' u" for u
    using counters [of u]
  proof
    assume "dget (js_seq_counters s') u = dget (js_seq_counters s) u"
    from same [OF this] show ?thesis using ok subset [of u] by (auto simp: js_files_ok_def)
  next
    assume "dget (js_seq_counters s') u = None \<and> scan_events fo s' u = []"
    then show ?thesis by (simp add: js_last_def)
  qed
  ultimately have "js_files_ok fo s'" using ok sub assms(3) unfolding js_files_ok_def by blast
  moreover have "scan_events fo s' u \<noteq> [] \<longrightarrow> dget (js_seq_counters s') u \<noteq> None" for u
  proof
    assume ne: "scan_events fo s' u \<noteq> []"
    with subset [of u] have "scan_events fo s u \<noteq> []" by (metis list.set(1) set_empty2 subset_empty)
    with inv counters [of u] ne show "dget (js_seq_counters s') u \<noteq> None" unfolding js_inv_def by metis
  qed
  ultimately show "js_inv fo s'" by (simp add: js_inv_def)
qed

lemma js_delete_thread_law:
  assumes inv: "js_inv fo s" and "path_id t"
  shows "\<exists>s'. js_delete_by_thread fo t s = (Inr (length (lg_events (js_view fo s) t)), s') \<and> js_inv fo s' \<and>
    js_view fo s' = log_delete_thread t (js_view fo s)"
proof -
  let ?s = "\<lparr>js_files = filter (\<lambda>((u, _), _). u \<noteq> t) (js_files s), js_seq_counters = dpop t (js_seq_counters s)\<rparr>"
  have scan: "scan_events fo ?s u = (if u = t then [] else scan_events fo s u)" for u
    by (auto simp: scan_events_def thread_files_def filter_empty_conv case_prod_unfold intro!: arg_cong [where f = concat] map_cong arg_cong [where f = "sort_key _"] filter_cong)
  have wf: "wf_dict (js_files ?s)" using inv by (simp add: js_inv_def js_files_ok_def wf_dict_def distinct_map_filter)
  have filt: "filter (\<lambda>_. u \<noteq> t) xs = (if u = t then [] else xs)" for u and xs :: "event list" by simp
  have m: "mset (scan_events fo ?s u) = mset (filter (\<lambda>_. u \<noteq> t) (scan_events fo s u))" for u by (simp add: scan filt)
  have c: "dget (js_seq_counters ?s) u = dget (js_seq_counters s) u \<or> dget (js_seq_counters ?s) u = None \<and> scan_events fo ?s u = []" for u
    by (simp add: scan)
  note d = js_deleted [OF inv _ wf m c]
  have sub: "set (js_files ?s) \<subseteq> set (js_files s)" by auto
  have last: "js_last fo ?s u = (if u = t then 0 else js_last fo s u)" for u
    using d(3) [OF sub, of u] by (cases "u = t") (simp_all add: scan js_last_def)
  have "js_view fo ?s = log_delete_thread t (js_view fo s)"
    by (auto simp: js_view_def log_delete_thread_def scan last)
  with d(1) [OF sub] show ?thesis by (simp add: js_delete_by_thread_def read_thread_view [OF assms(2)])
qed

lemma js_delete_run_law:
  assumes inv: "js_inv fo s" and "path_id t" and "path_id r"
  shows "\<exists>s'. js_delete_by_run fo t r s = (Inr (length (filter (of_run r) (lg_events (js_view fo s) t))), s') \<and> js_inv fo s' \<and>
    js_view fo s' = log_delete_run t r (js_view fo s)"
proof -
  let ?s = "s\<lparr>js_files := dpop (t, r) (js_files s)\<rparr>"
  have ok: "js_files_ok fo s" using inv by (simp add: js_inv_def)
  let ?P = "\<lambda>u e. u = t \<longrightarrow> \<not> of_run r e"
  have m: "mset (scan_events fo ?s u) = mset (filter (?P u) (scan_events fo s u))" for u
  proof (cases "u = t")
    case True
    then show ?thesis using mset_scan_run(2) [OF ok, of t r] by simp
  next
    case False
    have "sum_list (map (file_part fo u) (dpop (t, r) fs)) = sum_list (map (file_part fo u) fs)" for fs
      using False by (induction fs) (auto simp: file_part_def)
    with False show ?thesis by (simp add: mset_scan)
  qed
  have wf: "wf_dict (js_files ?s)" using ok by (simp add: js_files_ok_def)
  have sub: "set (js_files ?s) \<subseteq> set (js_files s)" by (auto simp: AList.delete_eq)
  note d = js_deleted [OF inv sub wf m]
  have "js_view fo ?s = log_delete_run t r (js_view fo s)"
    using d(2) d(3) by (auto simp: js_view_def log_delete_run_def)
  with d(1) show ?thesis by (simp add: js_delete_by_run_def read_run_view [OF ok assms(2,3)])
qed

section \<open>Reading pages\<close>

lemma last_n_all: "int (length xs) \<le> limit \<Longrightarrow> last_n (nat limit) xs = xs"
  by (simp add: last_n_def nat_le_iff)

lemma js_list_messages_law:
  assumes "path_id t" and "1 \<le> limit"
  shows "js_list_messages fo s t limit before after = Inr (log_messages (js_view fo s) t limit before after)"
  using assms(2) by (cases before; cases after)
    (simp_all add: js_list_messages_def read_thread_view [OF assms(1)] log_messages_def page_def slice_from_last_n slice_to_nonneg)

lemma js_list_events_law:
  assumes "js_inv fo s" and "path_id t" and "path_id r" and "1 \<le> limit"
  shows "js_list_events fo s t r types task limit after = Inr (log_events (js_view fo s) t r types task limit after)"
proof -
  have "js_files_ok fo s" using assms(1) by (simp add: js_inv_def)
  from read_run_view [OF this assms(2,3)] assms(4) show ?thesis
    by (cases types; cases task; cases after)
      (auto simp: js_list_events_def log_events_def slice_to_nonneg conj_commute intro!: arg_cong [where f = "take _"] filter_cong)
qed

lemma js_list_messages_by_run_law:
  assumes "js_inv fo s" and "path_id t" and "path_id r" and "1 \<le> limit"
  shows "js_list_messages_by_run fo s t r limit before after = Inr (log_messages_by_run (js_view fo s) t r limit before after)"
proof -
  have "js_files_ok fo s" using assms(1) by (simp add: js_inv_def)
  from read_run_view [OF this assms(2,3)] assms(4)
  have "js_list_messages_by_run fo s t r limit before after =
      (let w = window before after (filter (\<lambda>e. of_run r e \<and> is_message e) (lg_events (js_view fo s) t)) in
       Inr (if after \<noteq> None then take (nat limit) w else if int (length w) > limit then last_n (nat limit) w else w))"
    by (cases before; cases after)
      (simp_all add: js_list_messages_by_run_def window_def slice_from_last_n slice_to_nonneg conj_ac Let_def)
  then show ?thesis by (auto simp: log_messages_by_run_def Let_def last_n_all)
qed

lemma wf_js_inv: "js_inv fo s \<Longrightarrow> wf_log (js_view fo s)"
  by (simp add: js_inv_def wf_js_view)

interpretation jsonl_events: event_store "js_inv fo" "js_view fo" path_id "js_storable fo" "js_put fo"
  "js_list_messages fo" "js_list_events fo" "js_list_messages_by_run fo" "js_count_messages fo"
  "js_delete_by_thread fo" "js_delete_by_run fo" for fo
proof
  fix s i now
  assume "js_inv fo s" "path_id (in_thread_id i)" "path_id (in_run_id i)" "js_storable fo now i"
  with js_put_written [of i fo now s] js_put_law
  show "\<exists>s'. js_put fo now i s = (Inr (new_record now i (lg_last (js_view fo s) (in_thread_id i) + 1)), s') \<and> js_inv fo s' \<and>
      js_view fo s' = log_put now i (js_view fo s)"
    by (metis event_log.select_convs(2) js_view_def)
qed (simp_all add: wf_js_inv js_list_messages_law js_list_events_law js_list_messages_by_run_law js_delete_thread_law js_delete_run_law
    js_count_messages_def read_thread_view)

lemma js_empty: "js_inv fo empty_jsonl" "js_view fo empty_jsonl = empty_log"
  by (auto simp: js_inv_def js_files_ok_def js_view_def empty_jsonl_def empty_log_def scan_events_def thread_files_def js_last_def)

end
