(* ===== verification/Event_Properties.thy ===== *)
theory Event_Properties
  imports Event_Jsonl
begin

text \<open>
  What the two stores of run events promise together: the in-memory store keeps the log of its operations, the file-backed store
  gives the same answers after the same operations, and what it wrote outlives the process.
\<close>

section \<open>Histories\<close>

definition me_apply :: "store_op \<Rightarrow> memory_event_store \<Rightarrow> memory_event_store" where
  "me_apply = store_apply (\<lambda>now i s. total (me_put now i s)) (\<lambda>t s. total (me_delete_by_thread t s)) (\<lambda>t r s. total (me_delete_by_run t r s))"

definition js_apply :: "float_reader \<Rightarrow> store_op \<Rightarrow> jsonl_store \<Rightarrow> jsonl_store" where
  "js_apply fo = store_apply (js_put fo) (js_delete_by_thread fo) (js_delete_by_run fo)"

lemma me_apply_simps [simp]:
  "me_apply (Put now i) s = snd (me_put now i s)"
  "me_apply (Delete_Thread t) s = snd (me_delete_by_thread t s)"
  "me_apply (Delete_Run t r) s = snd (me_delete_by_run t r s)"
  by (simp_all add: me_apply_def)

lemma js_apply_simps [simp]:
  "js_apply fo (Put now i) s = snd (js_put fo now i s)"
  "js_apply fo (Delete_Thread t) s = snd (js_delete_by_thread fo t s)"
  "js_apply fo (Delete_Run t r) s = snd (js_delete_by_run fo t r s)"
  by (simp_all add: js_apply_def)

lemma me_history: "me_inv (fold me_apply ops empty_memory_store) \<and> me_view (fold me_apply ops empty_memory_store) = fold log_apply ops empty_log"
proof -
  have "valid_op (\<lambda>_. True) (\<lambda>_ _. True) op" for op by (cases op) simp_all
  then show ?thesis using mem_events.fold_view [OF me_inv_empty, of ops] by (simp add: me_apply_def me_view_empty)
qed

lemma js_history:
  assumes "\<forall>op\<in>set ops. valid_op path_id (js_storable fo) op"
  shows "js_inv fo (fold (js_apply fo) ops empty_jsonl) \<and> js_view fo (fold (js_apply fo) ops empty_jsonl) = fold log_apply ops empty_log"
  using jsonl_events.fold_view [OF js_empty(1) assms] by (simp add: js_apply_def js_empty(2))

section \<open>The contract of the interface\<close>



section \<open>Starting again\<close>

text \<open>A process that starts again has the files and no counters.\<close>

definition restarted :: "jsonl_store \<Rightarrow> jsonl_store" where
  "restarted s = s\<lparr>js_seq_counters := []\<rparr>"

lemma scan_restarted [simp]: "scan_events fo (restarted s) t = scan_events fo s t"
  by (simp add: scan_events_def thread_files_def restarted_def)

lemma foldl_max_seq:
  "m \<le> foldl (\<lambda>m e. max m (ev_seq e)) m xs \<and> (\<forall>x\<in>set xs. ev_seq x \<le> foldl (\<lambda>m e. max m (ev_seq e)) m xs)"
proof (induction xs arbitrary: m)
  case (Cons x xs)
  from Cons [of "max m (ev_seq x)"] show ?case by auto
qed simp

lemma restarted_ok: "js_files_ok fo s \<Longrightarrow> js_files_ok fo (restarted s)"
proof -
  assume ok: "js_files_ok fo s"
  have "js_last fo (restarted s) t = foldl (\<lambda>m e. max m (ev_seq e)) 0 (scan_events fo s t)" for t
    unfolding js_last_def scan_restarted by (simp add: restarted_def)
  with ok foldl_max_seq [of 0] show ?thesis unfolding js_files_ok_def scan_restarted by (simp add: restarted_def)
qed


section \<open>Limits of the stores\<close>

definition sample_event :: "string \<Rightarrow> string \<Rightarrow> pyval \<Rightarrow> event_input" where
  "sample_event r category content =
     \<lparr>in_thread_id = ''t-1'', in_run_id = r, in_event_type = ''ai_message'', in_category = category, in_content = content,
      in_metadata = Some [(''task_id'', PStr ''k'')], in_created_at = None\<rparr>"

definition sample_ops :: "store_op list" where
  "sample_ops = [Put ''now'' (sample_event ''r-1'' ''message'' (PStr ''hi'')), Put ''now'' (sample_event ''r-1'' ''trace'' PNone),
     Put ''now'' (sample_event ''r-2'' ''message'' (PDict [(''n'', PInt 7)])), Delete_Run ''t-1'' ''r-1'']"

definition no_floats :: float_reader where "no_floats s = (s, 0)"

text \<open>The character U+0085 is written as it is and read as the end of a line: the event of such a content is never read again.\<close>

theorem next_line_event_lost:
  "(case js_put no_floats ''now'' (sample_event ''r-1'' ''message'' (PStr [CHR ''a'', CHR 0x85])) empty_jsonl of
      (Inr _, s) \<Rightarrow> js_count_messages no_floats s ''t-1'' = Inr 0 | _ \<Rightarrow> False) \<and>
   me_count_messages (snd (me_put ''now'' (sample_event ''r-1'' ''message'' (PStr [CHR ''a'', CHR 0x85])) empty_memory_store)) ''t-1'' = 1"
  by code_simp

text \<open>A limit of zero, which the route of a thread's messages admits, is no limit.\<close>

theorem zero_limit_lists_all:
  "me_list_messages s t 0 None None = dget_default (me_messages s) t [] \<and>
   js_list_messages fo j t 0 None None = map_sum id (filter is_message) (read_thread_events fo j t)"
  by (cases "read_thread_events fo j t") (simp_all add: me_list_messages_def js_list_messages_def slice_from_def slice_bound_def)

text \<open>An identifier with a line feed at its end is accepted.\<close>

theorem newline_id_accepted: "validate_id ''t-1\<newline>'' ''thread_id'' = Inr ''t-1\<newline>''"
  by code_simp

text \<open>The number of a deleted event is given out again after a restart.\<close>

theorem number_reused_after_restart:
  "(let j = fold (js_apply no_floats) [Put ''now'' (sample_event ''r-1'' ''message'' PNone), Put ''now'' (sample_event ''r-2'' ''message'' PNone)] empty_jsonl;
        (first, j1) = js_put no_floats ''now'' (sample_event ''r-3'' ''message'' PNone) (snd (js_delete_by_run no_floats ''t-1'' ''r-2'' j));
        (again, j2) = js_put no_floats ''now'' (sample_event ''r-3'' ''message'' PNone) (restarted (snd (js_delete_by_run no_floats ''t-1'' ''r-2'' j)))
    in map_sum id ev_seq first = Inr 3 \<and> map_sum id ev_seq again = Inr 2)"
  by code_simp

section \<open>The properties at a history\<close>

lemma sample_valid: "\<forall>op\<in>set sample_ops. valid_op path_id (js_storable no_floats) op"
  by code_simp

lemma sample_history: "lg_events (fold log_apply sample_ops empty_log) ''t-1'' = [new_record ''now'' (sample_event ''r-2'' ''message'' (PDict [(''n'', PInt 7)])) 3]"
  by (simp add: sample_ops_def log_put_def log_delete_run_def empty_log_def Let_def sample_event_def)




end
