(* ===== verification/Action_Worker.thy ===== *)
theory Action_Worker
  imports Action_Properties Saas_Authorization
begin

text \<open>
  The isolated Action worker, \<^verbatim>\<open>app/semantic/worker.py\<close>: the bounding of results, the revalidation of
  authorization, the domain API executor, and \<^verbatim>\<open>run_once\<close>. The services are functions from requests to
  replies. Between two transactions of \<^verbatim>\<open>run_once\<close> other workers and the API may run: a \<open>schedule\<close> gives, for
  each transaction, what they did to the database before it and the time it sees.
\<close>

section \<open>Bounded results\<close>

definition sensitive_fragments :: "string list" where
  "sensitive_fragments = [''authorization'', ''connection'', ''credential'', ''jdbc'', ''password'', ''secret'',
     ''sql'', ''token'', ''url'']"

definition sensitive_key :: "string \<Rightarrow> bool" where
  "sensitive_key key \<longleftrightarrow> list_ex (\<lambda>fragment. str_contains fragment (str_lower key)) sensitive_fragments"

text \<open>\<open>bounded_within n\<close> is \<^verbatim>\<open>_bounded_action_result(value, depth=4 - n)\<close>.\<close>

fun bounded_within :: "nat \<Rightarrow> pyval \<Rightarrow> pyval" where
  "bounded_within 0 v = PStr ''[truncated]''"
| "bounded_within (Suc n) v =
     (case v of
        PStr s \<Rightarrow> PStr (take 2000 s)
      | PDict d \<Rightarrow> PDict (fold (\<lambda>(raw_key, item) result.
          let key = take 128 raw_key in
          if sensitive_key key then result else dset key (bounded_within n item) result) (take 50 d) [])
      | PList xs \<Rightarrow> PList (map (bounded_within n) (take 100 xs))
      | _ \<Rightarrow> v)"

definition max_result_depth :: nat where "max_result_depth = 4"

definition bounded_action_result :: "pyval \<Rightarrow> pyval" where
  "bounded_action_result v = bounded_within max_result_depth v"

section \<open>Revalidation\<close>

definition revalidation_unavailable :: "string \<Rightarrow> action_error" where
  "revalidation_unavailable detail = ActionError ''POLICY_UNAVAILABLE'' detail 400"

text \<open>\<^verbatim>\<open>d[key]\<close>, which raises when the key is absent.\<close>

definition get_item :: "(string, pyval) dict \<Rightarrow> string \<Rightarrow> action_error + pyval" where
  "get_item d k = (case dget d k of None \<Rightarrow> Inl (Raised ''KeyError'') | Some v \<Rightarrow> Inr v)"

definition split_configured_url :: "string \<Rightarrow> action_error + split_url" where
  "split_configured_url url = (case urlsplit url of None \<Rightarrow> Inl (Raised ''ValueError'') | Some u \<Rightarrow> Inr u)"

definition revalidation_body :: "proposal_command \<Rightarrow> action_error + (string, pyval) dict" where
  "revalidation_body proposal =
     (let snapshot = pv_authorization_snapshot proposal in
      ebind (get_item snapshot ''principal_id'') (\<lambda>principal.
      ebind (get_item snapshot ''tenant_id'') (\<lambda>tenant.
      ebind (get_item snapshot ''system_code'') (\<lambda>system.
      Inr [(''principal_id'', principal), (''tenant_id'', tenant), (''system_code'', system),
           (''permission_version'', PStr (pv_permission_version proposal)),
           (''scope_hash'', PStr (pv_scope_hash proposal)), (''action_id'', PStr (pv_action_id proposal)),
           (''action_version'', PStr (pv_action_version proposal)), (''target_type'', PStr (pv_target_type proposal)),
           (''target_id'', PStr (pv_target_id proposal))]))))"

definition revalidation_reply :: "http_reply \<Rightarrow> action_error + string" where
  "revalidation_reply reply =
     (case reply of
        NoReply \<Rightarrow> Inl (revalidation_unavailable ''Action authorization service is unavailable'')
      | Reply status _ body \<Rightarrow>
          if status \<ge> 500 then Inl (revalidation_unavailable ''Action authorization service is unavailable'')
          else if is_error_status status
          then Inl (ActionError ''AUTHORIZATION_DENIED'' ''Action authorization was denied'' 403)
          else case body of
            None \<Rightarrow> Inl (revalidation_unavailable ''Action authorization service returned an invalid response'')
          | Some payload \<Rightarrow> (case reply_token payload of
              None \<Rightarrow> Inl (revalidation_unavailable ''Action authorization service returned no authorization token'')
            | Some t \<Rightarrow> Inr t))"

definition revalidate ::
  "(string \<Rightarrow> string) \<Rightarrow> jwt_decoder \<Rightarrow> (string, string) dict \<Rightarrow> (http_request \<Rightarrow> http_reply) \<Rightarrow>
   string \<Rightarrow> string \<Rightarrow> string \<Rightarrow> proposal_command \<Rightarrow> action_error + authorization_context" where
  "revalidate sha256 jwt_decode env service url service_token audience proposal =
     ebind (split_configured_url (str_strip url)) (\<lambda>parsed.
     if \<not> url_acceptable parsed \<or> str_strip service_token = ''''
     then Inl (revalidation_unavailable ''Action authorization revalidation is not configured'')
     else
     ebind (revalidation_body proposal) (\<lambda>body.
     ebind (revalidation_reply (service
        \<lparr>rq_verb = ''POST'', rq_url = str_strip url,
         rq_headers = [(''X-SaaS-Internal-Token'', str_strip service_token),
           (''X-DeerFlow-Run-Id'', pv_run_id proposal), (''X-DeerFlow-Thread-Id'', pv_thread_id proposal),
           (''X-DeerFlow-Semantic-Trace-Id'', pv_semantic_trace_id proposal)],
         rq_json = body\<rparr>)) (\<lambda>token.
     ebind (recast (\<lambda>_. ActionError ''AUTHORIZATION_DENIED'' ''Fresh Action authorization token is invalid'' 403)
             (decode_authorization_token sha256 jwt_decode env token (Some audience))) (\<lambda>(authorization, _).
     Inr authorization))))"

text \<open>\<open>get_object\<close> is the query \<^verbatim>\<open>SemanticQueryRuntime.get_object\<close>, with its rows or its exception.\<close>

definition semantic_get_target ::
  "(authorization_context \<Rightarrow> string \<Rightarrow> string \<Rightarrow> action_error + (string, pyval) dict list) \<Rightarrow>
   action_definition \<Rightarrow> string \<Rightarrow> authorization_context \<Rightarrow> action_error + (string, pyval) dict" where
  "semantic_get_target get_object action target_id authorization =
     ebind (get_object authorization (ad_target_type action) target_id) (\<lambda>rows.
     case rows of
       [] \<Rightarrow> Inl (ActionError ''AUTHORIZATION_DENIED'' ''Action target is not visible in the current scope'' 403)
     | row # _ \<Rightarrow> Inr row)"

section \<open>The domain API executor\<close>

definition execution_failed :: "string \<Rightarrow> action_error" where
  "execution_failed detail = ActionError ''EXECUTION_FAILED'' detail 400"

definition unsafe_path :: "string \<Rightarrow> bool" where
  "unsafe_path template \<longleftrightarrow>
     \<not> starts_with template ''/'' \<or> starts_with template ''//'' \<or> str_contains ''..'' template \<or>
     CHR ''?'' \<in> set template \<or> CHR 0x23 \<in> set template \<or> CHR 0x5C \<in> set template \<or>
     str_count target_placeholder template \<noteq> 1 \<or>
     CHR ''{'' \<in> set (str_replace target_placeholder '''' template) \<or>
     CHR ''}'' \<in> set (str_replace target_placeholder '''' template)"

text \<open>The request \<^verbatim>\<open>_invoke\<close> sends; \<open>base_url\<close> is the constructor's argument and the URL is the one \<^verbatim>\<open>httpx\<close> joins.\<close>

definition invoke_headers :: "string option \<Rightarrow> proposal_command \<Rightarrow> string \<Rightarrow> (string, string) dict" where
  "invoke_headers service_token proposal key =
     [(''Idempotency-Key'', key), (''X-DeerFlow-Run-Id'', pv_run_id proposal),
      (''X-DeerFlow-Thread-Id'', pv_thread_id proposal), (''X-DeerFlow-Tool-Call-Id'', pv_tool_call_id proposal),
      (''X-DeerFlow-Semantic-Trace-Id'', pv_semantic_trace_id proposal)] @
     (case pv_expected_object_version proposal of None \<Rightarrow> [] | Some v \<Rightarrow> if v = '''' then [] else [(''If-Match'', v)]) @
     (case service_token of None \<Rightarrow> [] | Some t \<Rightarrow> if t = '''' then [] else [(''X-SaaS-Internal-Token'', t)])"

definition invoke_payload ::
  "proposal_command \<Rightarrow> (string, pyval) dict \<Rightarrow> action_error + (string, pyval) dict" where
  "invoke_payload proposal extra =
     ebind (get_item (pv_authorization_snapshot proposal) ''principal_id'') (\<lambda>actor.
     Inr (fold (\<lambda>(k, v). dset k v) extra
       [(''target_type'', PStr (pv_target_type proposal)), (''target_id'', PStr (pv_target_id proposal)),
        (''parameters'', PDict (pv_parameters proposal)), (''reason'', opt_str (pv_reason proposal)),
        (''expected_object_version'', opt_str (pv_expected_object_version proposal)), (''actor'', actor),
        (''scope_hash'', PStr (pv_scope_hash proposal)), (''action_id'', PStr (pv_action_id proposal)),
        (''action_version'', PStr (pv_action_version proposal))]))"

definition invoke_request ::
  "string \<Rightarrow> string option \<Rightarrow> proposal_command \<Rightarrow> (string, pyval) dict \<Rightarrow> string \<Rightarrow> (string, pyval) dict
     \<Rightarrow> action_error + http_request" where
  "invoke_request base_url service_token proposal executor key extra =
     ebind (split_configured_url (rstrip_slashes base_url)) (\<lambda>parsed.
     if \<not> url_acceptable parsed then Inl (execution_failed ''Action domain API is not configured'')
     else if get_key executor ''type'' \<noteq> PStr ''domain_api'' then Inl (execution_failed ''Unsupported Action executor'')
     else
     let verb = str_upper (str_or (get_key executor ''method'') ''POST'');
         template = str_or (get_key executor ''path'') '''' in
     if verb \<notin> set [''POST'', ''PUT'', ''PATCH'', ''DELETE''] then Inl (execution_failed ''Unsupported domain API method'')
     else if unsafe_path template then Inl (execution_failed ''Unsafe domain API path'')
     else
     ebind (invoke_payload proposal extra) (\<lambda>payload.
     Inr \<lparr>rq_verb = verb,
          rq_url = rstrip_slashes base_url @ str_replace target_placeholder (url_quote (pv_target_id proposal)) template,
          rq_headers = invoke_headers service_token proposal key, rq_json = payload\<rparr>))"

definition max_response_bytes :: int where "max_response_bytes = 1000000"

definition project_fields :: "pyval list \<Rightarrow> (string, pyval) dict \<Rightarrow> (string, pyval) dict" where
  "project_fields result_fields data =
     fold (\<lambda>field projected. case field of
         PStr f \<Rightarrow> (case dget data f of None \<Rightarrow> projected | Some v \<Rightarrow> dset f (bounded_action_result v) projected)
       | _ \<Rightarrow> projected) result_fields []"

definition invoke_reply ::
  "(string, pyval) dict \<Rightarrow> http_reply \<Rightarrow> action_error + (string, pyval) dict" where
  "invoke_reply executor reply =
     (case reply of
        NoReply \<Rightarrow> Inl (execution_failed ''Action domain API is unavailable'')
      | Reply status len body \<Rightarrow>
          (let only_status = [(''status_code'', PInt status)] in
           if is_error_status status then Inl (execution_failed ''Action domain API rejected the request'')
           else if len = 0 then Inr only_status
           else if len > max_response_bytes
           then Inl (execution_failed ''Action domain API response exceeds the allowed size'')
           else case body of
             None \<Rightarrow> Inl (execution_failed ''Action domain API returned an invalid response'')
           | Some data \<Rightarrow>
               (case list_of (get_or executor ''result_fields'' (PList [])) of
                  None \<Rightarrow> Inl (execution_failed ''Action result policy is invalid'')
                | Some result_fields \<Rightarrow>
                    (case dict_of data of
                       None \<Rightarrow> Inr only_status
                     | Some d \<Rightarrow>
                         if result_fields = [] then Inr only_status
                         else let projected = project_fields result_fields d in
                           Inr (if projected = [] then only_status else projected)))))"

definition invoke ::
  "(http_request \<Rightarrow> http_reply) \<Rightarrow> string \<Rightarrow> string option \<Rightarrow> proposal_command \<Rightarrow> (string, pyval) dict \<Rightarrow> string
     \<Rightarrow> (string, pyval) dict \<Rightarrow> action_error + (string, pyval) dict" where
  "invoke api base_url service_token proposal executor key extra =
     ebind (invoke_request base_url service_token proposal executor key extra) (\<lambda>request.
     invoke_reply executor (api request))"

definition execute ::
  "(http_request \<Rightarrow> http_reply) \<Rightarrow> string \<Rightarrow> string option \<Rightarrow> proposal_command \<Rightarrow> action_error + (string, pyval) dict" where
  "execute api base_url service_token proposal =
     invoke api base_url service_token proposal (pv_executor proposal) (pv_idempotency_key proposal) []"

definition compensation_key :: "(string \<Rightarrow> string) \<Rightarrow> proposal_command \<Rightarrow> string" where
  "compensation_key sha256 proposal = sha256 (pv_idempotency_key proposal @ [CHR 0x00] @ ''compensation'')"

definition compensate ::
  "(string \<Rightarrow> string) \<Rightarrow> (http_request \<Rightarrow> http_reply) \<Rightarrow> string \<Rightarrow> string option \<Rightarrow> proposal_command
     \<Rightarrow> (string, pyval) dict \<Rightarrow> string \<Rightarrow> action_error + (string, pyval) dict" where
  "compensate sha256 api base_url service_token proposal compensation error_code =
     invoke api base_url service_token proposal compensation (compensation_key sha256 proposal)
       [(''compensation'', PBool True), (''compensation_for_error'', PStr error_code)]"

section \<open>One round of the worker\<close>

text \<open>The collaborators the worker is built with: revalidator, target reader and executor.\<close>

record worker_env =
  we_revalidate :: "proposal_command \<Rightarrow> action_error + authorization_context"
  we_get_target :: "action_definition \<Rightarrow> string \<Rightarrow> authorization_context \<Rightarrow> action_error + (string, pyval) dict"
  we_execute :: "proposal_command \<Rightarrow> action_error + (string, pyval) dict"
  we_compensate :: "proposal_command \<Rightarrow> (string, pyval) dict \<Rightarrow> string \<Rightarrow> action_error + (string, pyval) dict"

record schedule =
  sc_now :: "nat \<Rightarrow> int"
  sc_others :: "nat \<Rightarrow> action_db \<Rightarrow> action_db"

text \<open>What the worker did to the outside world, in order.\<close>

datatype effect =
    Execute proposal_command
  | Compensate proposal_command "(string, pyval) dict" string

text \<open>The exceptions of the round: those of the repository and the collaborators, and
  \<^verbatim>\<open>AuthorizationContextError\<close>.\<close>

datatype worker_error = Failed action_error | ContextError string

definition same_subject :: "authorization_context \<Rightarrow> authorization_context \<Rightarrow> proposal_command \<Rightarrow> bool" where
  "same_subject authorization stored proposal \<longleftrightarrow>
     ac_principal_id authorization = ac_principal_id stored \<and>
     ac_tenant_id authorization = ac_tenant_id stored \<and>
     ac_tenant_code authorization = ac_tenant_code stored \<and>
     ac_system_code authorization = ac_system_code stored \<and>
     ac_scope_hash authorization = pv_scope_hash proposal \<and>
     ac_permission_version authorization = pv_permission_version proposal"

definition target_in_resources :: "action_definition \<Rightarrow> string \<Rightarrow> authorization_context \<Rightarrow> bool" where
  "target_in_resources action target_id authorization \<longleftrightarrow>
     ac_scope_mode authorization = ''tenant_all'' \<or>
     target_id \<in> set (if ad_scope_dimension action = ''site'' then ac_allowed_site_ids authorization
                      else ac_allowed_project_ids authorization)"

definition context_failed :: "authorization_context_error + 'a \<Rightarrow> worker_error + 'a" where
  "context_failed = recast (\<lambda>e. case e of AuthorizationContextError m \<Rightarrow> ContextError m)"

text \<open>The checks before anything is done: the stored command is still valid, the authorization is fresh, it
  covers the Action and the target, and the target satisfies the preconditions now.\<close>

definition check_command ::
  "(string \<Rightarrow> string) \<Rightarrow> ontology_registry \<Rightarrow> worker_env \<Rightarrow> proposal_command \<Rightarrow> worker_error + action_definition" where
  "check_command sha256 ontology env proposal =
     ebind (context_failed (from_mapping sha256 (pv_authorization_snapshot proposal))) (\<lambda>stored.
     ebind (recast (\<lambda>e. Failed (ontology_raised e)) (registry_action ontology (pv_action_id proposal))) (\<lambda>action.
     if ad_version action \<noteq> pv_action_version proposal
     then Inl (Failed (ActionError ''ONTOLOGY_VERSION_CONFLICT'' ''Action definition changed'' 400))
     else
     ebind (recast (\<lambda>e. Failed (ontology_raised e)) (validate_parameters action (pv_parameters proposal))) (\<lambda>_.
     if ac_scope_hash stored \<noteq> pv_scope_hash proposal
     then Inl (Failed (ActionError ''SCOPE_CHANGED'' ''Stored scope snapshot is invalid'' 400))
     else
     ebind (recast Failed (we_revalidate env proposal)) (\<lambda>authorization.
     if \<not> same_subject authorization stored proposal
     then Inl (Failed (ActionError ''SCOPE_CHANGED'' ''Action authorization scope changed'' 400))
     else
     ebind (recast (\<lambda>e. Failed (ontology_denied ''AUTHORIZATION_DENIED'' 403 e))
              (authorize_action ontology (pv_action_id proposal) authorization)) (\<lambda>action.
     if \<not> target_in_resources action (pv_target_id proposal) authorization
     then Inl (Failed (ActionError ''AUTHORIZATION_DENIED'' ''Action target is outside the stored scope'' 400))
     else
     ebind (recast Failed (we_get_target env action (pv_target_id proposal) authorization)) (\<lambda>target_snapshot.
     ebind (recast (\<lambda>e. Failed (ontology_raised e)) (registry_object ontology (ad_target_type action))) (\<lambda>target_type.
     ebind (recast Failed (validate_action_target action (pv_target_id proposal) (od_id_field target_type)
              (pv_expected_object_version proposal) target_snapshot)) (\<lambda>_.
     Inr action))))))))"

text \<open>A transaction of the round, after what the others did.\<close>

definition transact ::
  "(action_db \<Rightarrow> action_db) \<Rightarrow> (action_db \<Rightarrow> action_error + action_db) \<Rightarrow> action_db
     \<Rightarrow> (worker_error + unit) \<times> action_db" where
  "transact others operation db =
     (case operation (others db) of
        Inl e \<Rightarrow> (Inl (Failed e), others db)
      | Inr db' \<Rightarrow> (Inr (), db'))"

text \<open>Compensating, and recording how it went.\<close>

definition run_compensation ::
  "worker_env \<Rightarrow> schedule \<Rightarrow> string \<Rightarrow> proposal_command \<Rightarrow> string \<Rightarrow> (string, pyval) dict \<Rightarrow> string \<Rightarrow> action_db
     \<Rightarrow> (worker_error + unit) \<times> effect list \<times> action_db" where
  "run_compensation env sc worker_id proposal execution_id compensation error_code db =
     (let (result, failed) = (case we_compensate env proposal compensation error_code of
             Inl _ \<Rightarrow> (None, True) | Inr r \<Rightarrow> (Some r, False));
          (outcome, db') = transact (sc_others sc 2)
             (finish_compensation (sc_now sc 2) execution_id worker_id result failed) db
      in (outcome, [Compensate proposal compensation error_code], db'))"

definition recover_compensation ::
  "worker_env \<Rightarrow> schedule \<Rightarrow> string \<Rightarrow> proposal_command \<Rightarrow> execution_view \<Rightarrow> action_definition \<Rightarrow> action_db
     \<Rightarrow> (worker_error + unit) \<times> effect list \<times> action_db" where
  "recover_compensation env sc worker_id proposal execution action db =
     (case ad_compensation action of
        None \<Rightarrow>
          (let (outcome, db') = transact (sc_others sc 2)
                 (finish_compensation (sc_now sc 2) (ev_execution_id execution) worker_id None True) db
           in (outcome, [], db'))
      | Some compensation \<Rightarrow>
          run_compensation env sc worker_id proposal (ev_execution_id execution) compensation
            (case ev_error_code execution of None \<Rightarrow> ''EXECUTION_FAILED''
             | Some c \<Rightarrow> if c = '''' then ''EXECUTION_FAILED'' else c) db)"

definition error_code_of :: "action_error \<Rightarrow> string" where
  "error_code_of e = (case e of ActionError code _ _ \<Rightarrow> code | _ \<Rightarrow> ''EXECUTION_FAILED'')"

definition error_detail_of :: "action_error \<Rightarrow> string" where
  "error_detail_of e = (case e of ActionError _ detail _ \<Rightarrow> detail
     | _ \<Rightarrow> ''Action execution failed before compensation'')"

definition run_execution ::
  "worker_env \<Rightarrow> schedule \<Rightarrow> string \<Rightarrow> proposal_command \<Rightarrow> execution_view \<Rightarrow> action_definition \<Rightarrow> action_db
     \<Rightarrow> (worker_error + unit) \<times> effect list \<times> action_db" where
  "run_execution env sc worker_id proposal execution action db =
     (case we_execute env proposal of
        Inr result \<Rightarrow>
          (let (outcome, db') = transact (sc_others sc 1)
                 (finish (sc_now sc 1) (ev_execution_id execution) worker_id (Some result) None None) db
           in (outcome, [Execute proposal], db'))
      | Inl e \<Rightarrow>
          (case ad_compensation action of
             None \<Rightarrow> (Inl (Failed e), [Execute proposal], db)
           | Some compensation \<Rightarrow>
               (case transact (sc_others sc 1)
                  (begin_compensation (sc_now sc 1) (ev_execution_id execution) worker_id
                     (error_code_of e) (error_detail_of e)) db of
                  (Inl err, db') \<Rightarrow> (Inl err, [Execute proposal], db')
                | (Inr _, db') \<Rightarrow>
                    (let (outcome, effects, db'') =
                       run_compensation env sc worker_id proposal (ev_execution_id execution) compensation
                         (error_code_of e) db'
                     in (outcome, Execute proposal # effects, db'')))))"

definition run_claimed ::
  "(string \<Rightarrow> string) \<Rightarrow> ontology_registry \<Rightarrow> worker_env \<Rightarrow> schedule \<Rightarrow> string \<Rightarrow> proposal_command \<Rightarrow> execution_view
     \<Rightarrow> action_db \<Rightarrow> (worker_error + unit) \<times> effect list \<times> action_db" where
  "run_claimed sha256 ontology env sc worker_id proposal execution db =
     (case check_command sha256 ontology env proposal of
        Inl err \<Rightarrow> (Inl err, [], db)
      | Inr action \<Rightarrow>
          if ev_status execution = COMPENSATING
          then recover_compensation env sc worker_id proposal execution action db
          else run_execution env sc worker_id proposal execution action db)"

text \<open>The code and detail the outer handlers record.\<close>

definition handled_error :: "worker_error \<Rightarrow> string \<times> string" where
  "handled_error err =
     (case err of
        ContextError m \<Rightarrow> (''AUTHORIZATION_DENIED'', m)
      | Failed (ActionError code detail _) \<Rightarrow> (code, detail)
      | Failed _ \<Rightarrow> (''EXECUTION_FAILED'', ''Action execution failed''))"

definition run_once ::
  "(string \<Rightarrow> string) \<Rightarrow> ontology_registry \<Rightarrow> worker_env \<Rightarrow> schedule \<Rightarrow> string \<Rightarrow> int \<Rightarrow> action_db
     \<Rightarrow> (worker_error + bool) \<times> effect list \<times> action_db" where
  "run_once sha256 ontology env sc worker_id lease db =
     (case claim_ready (sc_now sc 0) worker_id lease (sc_others sc 0 db) of
        (None, db1) \<Rightarrow> (Inr False, [], db1)
      | (Some (proposal, execution), db1) \<Rightarrow>
          (case run_claimed sha256 ontology env sc worker_id proposal execution db1 of
             (Inr _, effects, db2) \<Rightarrow> (Inr True, effects, db2)
           | (Inl err, effects, db2) \<Rightarrow>
               (case transact (sc_others sc 3)
                  (finish (sc_now sc 3) (ev_execution_id execution) worker_id None
                     (Some (fst (handled_error err))) (Some (snd (handled_error err)))) db2 of
                  (Inl err', db3) \<Rightarrow> (Inl err', effects, db3)
                | (Inr _, db3) \<Rightarrow> (Inr True, effects, db3))))"

end
