(* ===== verification/Executor_Properties.thy ===== *)
theory Executor_Properties
  imports Action_Worker
begin

text \<open>
  The properties of the domain API executor: the requests it sends stay on the path the Action defines, a
  repeated execution repeats its request, and what comes back is bounded and free of sensitive keys.
\<close>

section \<open>Paths\<close>

lemma starts_with_drop: "starts_with s p \<Longrightarrow> s = p @ drop (length p) s"
  by (auto simp: starts_with_append)

lemma str_replace_absent: "str_count sub s = 0 \<Longrightarrow> str_replace sub new s = s"
  by (induction sub s rule: str_count.induct) (auto split: if_split_asm)

text \<open>With exactly one occurrence, replacing replaces it.\<close>

lemma str_replace_once:
  assumes "str_count sub s = 1"
  shows "\<exists>pre post. s = pre @ sub @ post \<and> (\<forall>new. str_replace sub new s = pre @ new @ post)"
  using assms
proof (induction sub s rule: str_count.induct)
  case (2 sub c cs)
  show ?case
  proof (cases "sub \<noteq> [] \<and> starts_with (c # cs) sub")
    case True
    with 2 have "str_count sub (drop (length sub) (c # cs)) = 0" by simp
    then have "str_replace sub new (c # cs) = new @ drop (length sub) (c # cs)" for new
      using True by (simp add: str_replace_absent del: drop_Cons)
    moreover have "c # cs = sub @ drop (length sub) (c # cs)" using True starts_with_drop by blast
    ultimately show ?thesis by (metis append_Nil)
  next
    case False
    with 2(3) have "str_count sub cs = 1" by (auto split: if_split_asm)
    with 2(2) False obtain pre post where "cs = pre @ sub @ post" "\<And>new. str_replace sub new cs = pre @ new @ post"
      by blast
    with False show ?thesis by (intro exI [of _ "c # pre"] exI [of _ post]) auto
  qed
qed simp

lemma invoke_request_Inr:
  assumes "invoke_request base tok cmd executor key extra = Inr rq"
  shows "\<exists>payload. \<not> unsafe_path (str_or (get_key executor ''path'') '''') \<and> invoke_payload cmd extra = Inr payload \<and>
    get_key executor ''type'' = PStr ''domain_api'' \<and>
    rq = \<lparr>rq_verb = str_upper (str_or (get_key executor ''method'') ''POST''),
      rq_url = rstrip_slashes base @ str_replace target_placeholder (url_quote (pv_target_id cmd)) (str_or (get_key executor ''path'') ''''),
      rq_headers = invoke_headers tok cmd key, rq_json = payload\<rparr> \<and>
    str_upper (str_or (get_key executor ''method'') ''POST'') \<in> {''POST'', ''PUT'', ''PATCH'', ''DELETE''} \<and>
    (\<exists>u. urlsplit (rstrip_slashes base) = Some u \<and> url_acceptable u)"
  using assms
  by (auto simp: invoke_request_def ebind_Inr_iff Let_def split_configured_url_def split: if_split_asm option.split_asm)

definition demo_command :: proposal_command where
  "demo_command = command_dict (the (find_proposal demo_claimed ''p1''))"

text \<open>The executor never leaves the path of the Action definition: every request it sends goes to an
  acceptable base URL, with a writing method, at the defined path with the one placeholder replaced by
  the percent-encoded target id, which holds no slash, question mark, hash or backslash whatever the id is;
  and it carries the given idempotency key.\<close>

theorem executor_stays_on_path:
  assumes "invoke_request base tok cmd executor key extra = Inr rq"
  shows "\<exists>pre post quoted. str_or (get_key executor ''path'') '''' = pre @ target_placeholder @ post \<and>
    rq_url rq = rstrip_slashes base @ pre @ quoted @ post \<and> starts_with pre ''/'' \<and> \<not> starts_with pre ''//'' \<and>
    (\<forall>c \<in> set quoted. c = CHR 0x25 \<or> unreserved_char c) \<and>
    set quoted \<inter> {CHR ''/'', CHR ''?'', CHR 0x23, CHR 0x5C} = {} \<and>
    (\<forall>c \<in> set (pre @ post). c \<notin> {CHR ''?'', CHR 0x23, CHR 0x5C, CHR ''{'', CHR ''}''}) \<and>
    rq_verb rq \<in> {''POST'', ''PUT'', ''PATCH'', ''DELETE''} \<and>
    dget (rq_headers rq) ''Idempotency-Key'' = Some key"
proof -
  let ?t = "str_or (get_key executor ''path'') ''''"
  from invoke_request_Inr [OF assms] have safe: "\<not> unsafe_path ?t" and
    rq: "rq_url rq = rstrip_slashes base @ str_replace target_placeholder (url_quote (pv_target_id cmd)) ?t"
      "rq_verb rq \<in> {''POST'', ''PUT'', ''PATCH'', ''DELETE''}" "rq_headers rq = invoke_headers tok cmd key"
    by auto
  from safe have "str_count target_placeholder ?t = 1" by (simp add: unsafe_path_def)
  from str_replace_once [OF this] obtain pre post where t: "?t = pre @ target_placeholder @ post"
    "\<And>new. str_replace target_placeholder new ?t = pre @ new @ post" by blast
  have "starts_with ?t ''/''" "\<not> starts_with ?t ''//''" using safe by (simp_all add: unsafe_path_def)
  then have slash: "starts_with pre ''/''" "\<not> starts_with pre ''//''"
    unfolding t(1) by (cases pre; auto simp: target_placeholder_def starts_with_append append_eq_Cons_conv)+
  have "CHR ''?'' \<notin> set ?t" "CHR 0x23 \<notin> set ?t" "CHR 0x5C \<notin> set ?t"
    "CHR ''{'' \<notin> set (pre @ post)" "CHR ''}'' \<notin> set (pre @ post)"
    using safe t(2) [of "''''"] by (auto simp: unsafe_path_def)
  then have chars: "\<forall>c \<in> set (pre @ post). c \<notin> {CHR ''?'', CHR 0x23, CHR 0x5C, CHR ''{'', CHR ''}''}"
    unfolding t(1) by auto
  have quoted: "\<forall>c \<in> set (url_quote (pv_target_id cmd)). c = CHR 0x25 \<or> unreserved_char c"
    using set_url_quote by blast
  have "\<not> unreserved_char (CHR ''/'')" "\<not> unreserved_char (CHR ''?'')" "\<not> unreserved_char (CHR 0x23)"
    "\<not> unreserved_char (CHR 0x5C)" by (simp_all add: unreserved_char_def char_class_defs)
  with quoted have "set (url_quote (pv_target_id cmd)) \<inter> {CHR ''/'', CHR ''?'', CHR 0x23, CHR 0x5C} = {}" by fastforce
  then show ?thesis
    using t rq slash chars quoted by (intro exI [of _ pre] exI [of _ post] exI [of _ "url_quote (pv_target_id cmd)"])
      (simp add: invoke_headers_def)
qed

theorem executor_stays_on_path_witness:
  "\<exists>rq. invoke_request ''https://api.example/'' None demo_command (ad_executor demo_action) ''k1'' [] = Inr rq \<and>
     rq_url rq = ''https://api.example/api/internal/sites/site-a/display-name'' \<and>
     dget (rq_headers rq) ''Idempotency-Key'' = Some ''k1''"
proof -
  let ?r = "invoke_request ''https://api.example/'' None demo_command (ad_executor demo_action) ''k1'' []"
  have ok: "succeeds ?r" "rq_url (projr ?r) = ''https://api.example/api/internal/sites/site-a/display-name''"
    by code_simp+
  then obtain rq where rq: "?r = Inr rq" by (auto simp: succeeds_def split: sum.splits)
  from executor_stays_on_path [OF rq] ok(2) rq show ?thesis by auto
qed

section \<open>Repeated requests\<close>

definition execute_request :: "string \<Rightarrow> string option \<Rightarrow> proposal_command \<Rightarrow> action_error + http_request" where
  "execute_request base tok cmd = invoke_request base tok cmd (pv_executor cmd) (pv_idempotency_key cmd) []"

lemma command_sels:
  "pv_executor (command_dict p) = pr_executor p" "pv_idempotency_key (command_dict p) = pr_idempotency_key p"
  "pv_target_id (command_dict p) = pr_target_id p" "pv_target_type (command_dict p) = pr_target_type p"
  "pv_parameters (command_dict p) = pr_parameters p" "pv_reason (command_dict p) = pr_reason p"
  "pv_expected_object_version (command_dict p) = pr_expected_object_version p"
  "pv_authorization_snapshot (command_dict p) = pr_authorization_snapshot p"
  "pv_scope_hash (command_dict p) = pr_scope_hash p" "pv_action_id (command_dict p) = pr_action_id p"
  "pv_action_version (command_dict p) = pr_action_version p" "pv_run_id (command_dict p) = pr_run_id p"
  "pv_thread_id (command_dict p) = pr_thread_id p" "pv_tool_call_id (command_dict p) = pr_tool_call_id p"
  "pv_semantic_trace_id (command_dict p) = pr_semantic_trace_id p"
  by (simp_all add: command_dict_def proposal_dict_def proposal_view.defs proposal_command.defs)

lemma frozen_columns:
  assumes "frozen p = frozen q"
  shows "pr_executor p = pr_executor q" "pr_idempotency_key p = pr_idempotency_key q"
    "pr_target_id p = pr_target_id q" "pr_target_type p = pr_target_type q" "pr_parameters p = pr_parameters q"
    "pr_reason p = pr_reason q" "pr_expected_object_version p = pr_expected_object_version q"
    "pr_authorization_snapshot p = pr_authorization_snapshot q" "pr_scope_hash p = pr_scope_hash q"
    "pr_action_id p = pr_action_id q" "pr_action_version p = pr_action_version q" "pr_run_id p = pr_run_id q"
    "pr_thread_id p = pr_thread_id q" "pr_tool_call_id p = pr_tool_call_id q"
    "pr_semantic_trace_id p = pr_semantic_trace_id q"
  using assms by (cases p; cases q; simp add: frozen_def)+

lemma execute_request_frozen:
  assumes "frozen p = frozen q"
  shows "execute_request base tok (command_dict p) = execute_request base tok (command_dict q)"
  unfolding execute_request_def invoke_request_def invoke_payload_def invoke_headers_def command_sels
    frozen_columns [OF assms] ..

lemma claim_command:
  assumes "claim_ready now w lease db = (Some (cmd, ev), db')"
  shows "\<exists>p p'. find_proposal db (pv_proposal_id cmd) = Some p \<and> cmd = command_dict p' \<and> frozen p' = frozen p"
  using assms
proof (rule claim_ready_Some)
  fix e p assume e: "next_claimable now db = Some e" "find_proposal db (ex_proposal_id e) = Some p"
    "pr_status p \<in> {READY, EXECUTING, COMPENSATING}" "pv_proposal_id cmd = pr_id p"
  then have "cmd = command_dict (p\<lparr>pr_status := (if ex_status e = COMPENSATING then COMPENSATING else EXECUTING), pr_updated_at := now\<rparr>)"
    using assms by (auto simp: claim_ready_def Let_def simp del: if_split)
  moreover have "pr_id p = ex_proposal_id e" using e(2) by (auto simp: find_proposal_def find_Some_iff)
  ultimately show ?thesis
    using e by (intro exI [of _ p] exI conjI, simp) (assumption, simp add: frozen_def)
qed

text \<open>A retried execution repeats the same HTTP request: two claims of one proposal, by any workers and
  with any transactions in between (a recovered lease), lead to the identical request, idempotency key
  and payload included, so that a domain API that honours the key performs it once.\<close>

theorem retried_request_identical:
  assumes "(repo_step ontology)\<^sup>*\<^sup>* empty_db db" and "claim_ready now w lease db = (Some (cmd, ev), db1)"
    and "(repo_step ontology)\<^sup>*\<^sup>* db1 db2" and "claim_ready now' w' lease' db2 = (Some (cmd', ev'), db3)"
    and "pv_proposal_id cmd' = pv_proposal_id cmd"
  shows "execute_request base tok cmd' = execute_request base tok cmd"
proof -
  from claim_command [OF assms(2)] obtain p q where
    p: "find_proposal db (pv_proposal_id cmd) = Some p" "cmd = command_dict q" "frozen q = frozen p" by blast
  from claim_command [OF assms(4)] obtain p' q' where
    p': "find_proposal db2 (pv_proposal_id cmd) = Some p'" "cmd' = command_dict q'" "frozen q' = frozen p'"
    unfolding assms(5) by blast
  have "(repo_step ontology)\<^sup>*\<^sup>* db db2"
    using step_claim [OF assms(2)] assms(3) by (rule converse_rtranclp_into_rtranclp)
  from steps_keep_rows [OF reachable_inv [OF assms(1)] this] p(1) p'(1) have "frozen p' = frozen p"
    unfolding keeps_rows_def by fastforce
  with p(2,3) p'(2,3) show ?thesis by (metis execute_request_frozen)
qed

theorem retried_request_identical_witness:
  "\<exists>cmd ev cmd' ev'. fst (claim_ready 104 ''w1'' 30 demo_queued) = Some (cmd, ev) \<and>
     fst (claim_ready 500 ''w2'' 30 demo_claimed) = Some (cmd', ev') \<and> cmd \<noteq> cmd' \<and>
     execute_request ''https://api.example'' None cmd' = execute_request ''https://api.example'' None cmd"
proof -
  let ?a = "claim_ready 104 ''w1'' 30 demo_queued" and ?b = "claim_ready 500 ''w2'' 30 demo_claimed"
  have "fst ?a \<noteq> None \<and> fst ?b \<noteq> None \<and> fst (the (fst ?a)) \<noteq> fst (the (fst ?b)) \<and>
      pv_proposal_id (fst (the (fst ?b))) = pv_proposal_id (fst (the (fst ?a)))" by code_simp
  then obtain cmd ev cmd' ev' where c: "fst ?a = Some (cmd, ev)" "fst ?b = Some (cmd', ev')" "cmd \<noteq> cmd'"
    "pv_proposal_id cmd' = pv_proposal_id cmd" by auto
  have a: "?a = (Some (cmd, ev), demo_claimed)" and b: "?b = (Some (cmd', ev'), snd ?b)"
    using c by (simp_all add: demo_claimed_def prod_eq_iff)
  from retried_request_identical [OF demo_reachable_queued a rtranclp.rtrancl_refl b c(4)] c show ?thesis by blast
qed

section \<open>Results\<close>

text \<open>Within the limits: at most \<open>n\<close> levels, short strings, short lists, small objects under short keys that
  name nothing sensitive.\<close>

fun within_limits :: "nat \<Rightarrow> pyval \<Rightarrow> bool" where
  "within_limits 0 v = (v = PStr ''[truncated]'')"
| "within_limits (Suc n) v =
     (case v of
        PStr s \<Rightarrow> length s \<le> 2000
      | PList xs \<Rightarrow> length xs \<le> 100 \<and> list_all (within_limits n) xs
      | PDict d \<Rightarrow> length d \<le> 50 \<and> wf_dict d \<and>
          list_all (\<lambda>(k, w). length k \<le> 128 \<and> \<not> sensitive_key k \<and> within_limits n w) d
      | _ \<Rightarrow> True)"

definition put_bounded :: "nat \<Rightarrow> string \<times> pyval \<Rightarrow> (string, pyval) dict \<Rightarrow> (string, pyval) dict" where
  "put_bounded n = (\<lambda>(raw_key, item) result.
     let key = take 128 raw_key in if sensitive_key key then result else dset key (bounded_within n item) result)"

lemma put_bounded_limits:
  assumes "\<And>v. within_limits n (bounded_within n v)" and "wf_dict acc"
    and "list_all (\<lambda>(k, w). length k \<le> 128 \<and> \<not> sensitive_key k \<and> within_limits n w) acc"
  shows "let d = fold (put_bounded n) xs acc in length d \<le> length acc + length xs \<and> wf_dict d \<and>
    list_all (\<lambda>(k, w). length k \<le> 128 \<and> \<not> sensitive_key k \<and> within_limits n w) d"
  using assms(2,3)
proof (induction xs arbitrary: acc)
  case (Cons x xs)
  let ?acc = "put_bounded n x acc"
  have "length ?acc \<le> Suc (length acc)" "wf_dict ?acc"
    using Cons.prems(1) length_dset_le by (auto simp: put_bounded_def Let_def split: prod.split)
  moreover have "list_all (\<lambda>(k, w). length k \<le> 128 \<and> \<not> sensitive_key k \<and> within_limits n w) ?acc"
    using Cons.prems(2) assms(1) set_dset_subset
    by (fastforce simp: put_bounded_def Let_def list_all_iff split: prod.split)
  ultimately show ?case using Cons.IH [of ?acc] by (simp add: Let_def)
qed simp

lemma bounded_within_limits: "within_limits n (bounded_within n v)"
proof (induction n arbitrary: v)
  case (Suc n)
  show ?case
  proof (cases v)
    case (PDict d)
    have "bounded_within (Suc n) v = PDict (fold (put_bounded n) (take 50 d) [])"
      by (simp add: PDict put_bounded_def)
    then show ?thesis
      using put_bounded_limits [of n "[]" "take 50 d", OF Suc] by (simp add: Let_def)
  qed (simp_all add: Suc list_all_iff)
qed simp

lemma project_fields_limits:
  "(k, v) \<in> set (project_fields flds d) \<Longrightarrow> PStr k \<in> set flds \<and> within_limits 4 v"
proof -
  have "\<forall>(k, v) \<in> set (fold (\<lambda>field projected. case field of
         PStr f \<Rightarrow> (case dget d f of None \<Rightarrow> projected | Some v \<Rightarrow> dset f (bounded_action_result v) projected)
       | _ \<Rightarrow> projected) xs acc). PStr k \<in> set flds \<and> within_limits 4 v"
    if "set xs \<subseteq> set flds" "\<forall>(k, v) \<in> set acc. PStr k \<in> set flds \<and> within_limits 4 v" for xs acc
    using that
  proof (induction xs arbitrary: acc)
    case (Cons x xs)
    have put: "\<forall>(k, v) \<in> set (dset f (bounded_action_result w) acc). PStr k \<in> set flds \<and> within_limits 4 v"
      if "x = PStr f" for f w
      using that Cons.prems set_dset_subset [of f "bounded_action_result w" acc]
        bounded_within_limits [of max_result_depth w]
      unfolding bounded_action_result_def max_result_depth_def by auto
    have "\<forall>(k, v) \<in> set (case x of
         PStr f \<Rightarrow> (case dget d f of None \<Rightarrow> acc | Some v \<Rightarrow> dset f (bounded_action_result v) acc)
       | _ \<Rightarrow> acc). PStr k \<in> set flds \<and> within_limits 4 v"
    proof (cases "\<exists>f w. x = PStr f \<and> dget d f = Some w")
      case True
      then obtain f w where fw: "x = PStr f" "dget d f = Some w" by blast
      with put [OF fw(1), of w] show ?thesis by simp
    next
      case False
      then show ?thesis using Cons.prems(2) by (auto split: pyval.split option.split)
    qed
    with Cons show ?case by simp
  qed simp
  from this [of flds "[]"] show "(k, v) \<in> set (project_fields flds d) \<Longrightarrow> PStr k \<in> set flds \<and> within_limits 4 v"
    unfolding project_fields_def by fastforce
qed

text \<open>What an execution stores of the domain API's answer is bounded: it is the status code alone, or only
  fields the Action's executor lists, each nested at most four levels, with strings of at most 2000 characters,
  lists of at most 100 items and objects of at most 50 keys, none of which names a credential, token,
  connection or the like.\<close>

theorem stored_result_bounded:
  assumes "invoke api base tok cmd executor key extra = Inr result"
  shows "(\<exists>status. result = [(''status_code'', PInt status)]) \<or>
    (\<exists>flds. get_key executor ''result_fields'' = PList flds \<and>
       (\<forall>(k, v) \<in> set result. PStr k \<in> set flds \<and> within_limits 4 v))"
proof -
  from assms obtain rq where "invoke_reply executor (api rq) = Inr result"
    by (auto simp: invoke_def ebind_Inr_iff)
  then consider status where "result = [(''status_code'', PInt status)]"
    | flds d where "list_of (get_or executor ''result_fields'' (PList [])) = Some flds" "flds \<noteq> []"
        "result = project_fields flds d"
    by (auto simp: invoke_reply_def Let_def split: http_reply.split_asm if_split_asm option.split_asm)
  then show ?thesis
  proof cases
    case 2
    then have "get_key executor ''result_fields'' = PList flds"
      by (auto simp: get_or_def list_of_def split: if_split_asm pyval.split_asm)
    with 2(3) project_fields_limits show ?thesis by blast
  qed blast
qed

theorem stored_result_bounded_witness:
  "\<exists>result. invoke (\<lambda>_. Reply 200 90 (Some (PDict [(''updated'', PDict [(''by'', PStr ''ana''), (''Api-Token'', PStr ''x'')]), (''row'', PInt 1)])))
       ''https://api.example'' None demo_command (ad_executor demo_action) ''k1'' [] = Inr result \<and>
     result = [(''updated'', PDict [(''by'', PStr ''ana'')])] \<and> (\<forall>(k, v) \<in> set result. within_limits 4 v)"
proof -
  let ?r = "invoke (\<lambda>_. Reply 200 90 (Some (PDict [(''updated'', PDict [(''by'', PStr ''ana''), (''Api-Token'', PStr ''x'')]), (''row'', PInt 1)])))
       ''https://api.example'' None demo_command (ad_executor demo_action) ''k1'' []"
  have r: "?r = Inr [(''updated'', PDict [(''by'', PStr ''ana'')])]" by code_simp
  from stored_result_bounded [OF r] have "\<forall>(k, v) \<in> set [(''updated'', PDict [(''by'', PStr ''ana'')])]. within_limits 4 v"
    by fastforce
  with r show ?thesis by blast
qed

end
