(* ===== verification/Tool_Result_Meta.thy ===== *)
theory Tool_Result_Meta
  imports Agent_Messages
begin

text \<open>
  What a tool result means, \<^verbatim>\<open>agents/middlewares/tool_result_meta.py\<close>: every result gets a classification in its metadata, read from the
  text of an error, from an error field in JSON, or from the content.
\<close>

section \<open>Words\<close>

text \<open>The class \<^verbatim>\<open>\w\<close> of the regular expressions, on the characters of the model.\<close>

definition word_char :: "char \<Rightarrow> bool" where
  "word_char c \<longleftrightarrow> is_upper_char c \<or> is_lower_char c \<or> is_digit_char c \<or> c = CHR ''_'' \<or>
     char_code c \<in> set [170, 178, 179, 181, 185, 186, 188, 189, 190] \<or> in_range 192 214 c \<or> in_range 216 246 c \<or> in_range 248 255 c"

text \<open>Whether a text holds the word somewhere with no word character before or after it, \<^verbatim>\<open>re.search(rf"\b{kw}\b", s)\<close> for a word \<^verbatim>\<open>kw\<close>.\<close>

fun whole_word_from :: "bool \<Rightarrow> string \<Rightarrow> string \<Rightarrow> bool" where
  "whole_word_from prev kw [] = False"
| "whole_word_from prev kw (c # cs) =
     (\<not> prev \<and> starts_with (c # cs) kw \<and> (case drop (length kw) (c # cs) of [] \<Rightarrow> True | d # _ \<Rightarrow> \<not> word_char d) \<or>
      whole_word_from (word_char c) kw cs)"

definition whole_word :: "string \<Rightarrow> string \<Rightarrow> bool" where
  "whole_word kw s = whole_word_from False kw s"

section \<open>Classification\<close>

definition tool_meta_key :: string where "tool_meta_key = ''deerflow_tool_meta''"
definition error_prefix :: string where "error_prefix = ''Error:''"

definition partial_markers :: "string list" where
  "partial_markers =
     [''partial results'', ''limited results'', ''truncated'', ''results may be incomplete'', ''no results found'', ''no content found'', ''no images found'']"

record error_attrs =
  ea_error_type :: string
  ea_recoverable :: bool
  ea_next_action :: string

definition error_rules :: "(string list \<times> error_attrs) list" where
  "error_rules =
     [([''401'', ''403'', ''unauthorized'', ''authentication'', ''invalid api key''],
       \<lparr>ea_error_type = ''auth'', ea_recoverable = False, ea_next_action = ''stop''\<rparr>),
      ([''rate limit'', ''rate limited'', ''rate_limit''],
       \<lparr>ea_error_type = ''rate_limited'', ea_recoverable = False, ea_next_action = ''summarize''\<rparr>),
      ([''timeout'', ''timed out'', ''connection'', ''network error'', ''temporarily unavailable''],
       \<lparr>ea_error_type = ''transient'', ea_recoverable = False, ea_next_action = ''try_alternative''\<rparr>),
      ([''not configured'', ''not installed'', ''missing required'', ''disabled'', ''no api key''],
       \<lparr>ea_error_type = ''config'', ea_recoverable = False, ea_next_action = ''stop''\<rparr>),
      ([''permission denied'', ''access denied'', ''path traversal'', ''forbidden''],
       \<lparr>ea_error_type = ''permission'', ea_recoverable = True, ea_next_action = ''try_alternative''\<rparr>),
      ([''no results found'', ''no content found'', ''no images found'', ''no results''],
       \<lparr>ea_error_type = ''no_results'', ea_recoverable = True, ea_next_action = ''rewrite_query''\<rparr>),
      ([''not found'', ''no such file'', ''does not exist'', ''404''],
       \<lparr>ea_error_type = ''not_found'', ea_recoverable = True, ea_next_action = ''rewrite_query''\<rparr>),
      ([''unexpected error'', ''internal error'', ''500''],
       \<lparr>ea_error_type = ''internal'', ea_recoverable = False, ea_next_action = ''stop''\<rparr>)]"

definition unknown_error :: error_attrs where
  "unknown_error = \<lparr>ea_error_type = ''unknown'', ea_recoverable = True, ea_next_action = ''try_alternative''\<rparr>"

definition match_keyword :: "string \<Rightarrow> string \<Rightarrow> bool" where
  "match_keyword kw lower = (if kw \<noteq> [] \<and> list_all is_digit_char kw then whole_word kw lower else str_contains kw lower)"

definition classify_error_text :: "string \<Rightarrow> error_attrs" where
  "classify_error_text t =
     (let lower = str_lower t in
      case List.find (\<lambda>(keywords, _). list_ex (\<lambda>kw. match_keyword kw lower) keywords) error_rules of
        Some (_, attrs) \<Rightarrow> attrs
      | None \<Rightarrow> unknown_error)"

definition zero_error_strings :: "string list" where
  "zero_error_strings = [''none'', ''null'', ''false'', ''no'', ''ok'', ''success'', ''n/a'', []]"

definition extract_json_error_text :: "float_reader \<Rightarrow> string \<Rightarrow> string option" where
  "extract_json_error_text fo content =
     (case json_loads fo content of
        Some (PDict data) \<Rightarrow>
          (let error = get_key data ''error'' in
           if \<not> truthy error then None
           else case error of
             PStr s \<Rightarrow> if str_strip (str_lower s) \<in> set zero_error_strings then None else Some s
           | _ \<Rightarrow> Some (json_dumps error))
      | _ \<Rightarrow> None)"

definition is_json_dict :: "float_reader \<Rightarrow> string \<Rightarrow> bool" where
  "is_json_dict fo content = (case json_loads fo content of Some (PDict d) \<Rightarrow> True | _ \<Rightarrow> False)"

section \<open>Stamping\<close>

definition make_meta :: "string \<Rightarrow> string \<Rightarrow> pyval \<Rightarrow> bool \<Rightarrow> string \<Rightarrow> (string, pyval) dict" where
  "make_meta status source error_type recoverable next_action =
     [(''status'', PStr status), (''error_type'', error_type), (''recoverable_by_model'', PBool recoverable),
      (''recommended_next_action'', PStr next_action), (''source'', PStr source)]"

definition error_meta :: "string \<Rightarrow> error_attrs \<Rightarrow> (string, pyval) dict" where
  "error_meta source attrs = make_meta ''error'' source (PStr (ea_error_type attrs)) (ea_recoverable attrs) (ea_next_action attrs)"

definition stamp :: "(string, pyval) dict \<Rightarrow> tool_message \<Rightarrow> tool_message" where
  "stamp meta msg = msg\<lparr>tm_additional_kwargs := dset tool_meta_key (PDict meta) (tm_additional_kwargs msg)\<rparr>"

definition stamp_exception_meta :: "tool_message \<Rightarrow> string \<Rightarrow> tool_message" where
  "stamp_exception_meta msg exc_info = stamp (error_meta ''exception'' (classify_error_text exc_info)) msg"

definition message_content_str :: "tool_message \<Rightarrow> string" where
  "message_content_str msg = (case tm_content msg of PStr s \<Rightarrow> s | _ \<Rightarrow> [])"

definition result_meta :: "float_reader \<Rightarrow> tool_message \<Rightarrow> (string, pyval) dict" where
  "result_meta fo msg =
     (let content = message_content_str msg; content_lower = str_lower content in
      if tm_status msg = ''error'' \<and> \<not> starts_with content error_prefix
      then error_meta ''tool_return''
        (case extract_json_error_text fo content of
           Some json_error \<Rightarrow> classify_error_text json_error
         | None \<Rightarrow> if is_json_dict fo content then unknown_error else classify_error_text content)
      else if starts_with content error_prefix
      then error_meta ''tool_return'' (classify_error_text (drop (length error_prefix) content))
      else
        case extract_json_error_text fo content of
          Some json_error \<Rightarrow> error_meta ''tool_return'' (classify_error_text json_error)
        | None \<Rightarrow>
            if list_ex (\<lambda>m. str_contains m content_lower) partial_markers
            then make_meta ''partial_success'' ''content_analysis'' PNone True ''rewrite_query''
            else make_meta ''success'' ''content_analysis'' PNone True ''continue'')"

definition normalize_tool_message :: "float_reader \<Rightarrow> tool_message \<Rightarrow> tool_message" where
  "normalize_tool_message fo msg =
     (if get_key (tm_additional_kwargs msg) tool_meta_key \<noteq> PNone then msg else stamp (result_meta fo msg) msg)"

text \<open>What a tool gives: a message, or a command for the graph with the messages of its update and whatever else it holds.\<close>

datatype tool_result = Message_Result tool_message | Command_Result "message list" pyval

definition normalize_tool_result :: "float_reader \<Rightarrow> tool_result \<Rightarrow> tool_result" where
  "normalize_tool_result fo r = (case r of Message_Result msg \<Rightarrow> Message_Result (normalize_tool_message fo msg) | Command_Result ms u \<Rightarrow> Command_Result ms u)"

section \<open>Reading the classification\<close>

record tool_result_meta =
  rm_status :: pyval
  rm_error_type :: pyval
  rm_recoverable :: pyval
  rm_next_action :: pyval
  rm_source :: pyval

definition meta_fields :: "string list" where
  "meta_fields = [''status'', ''error_type'', ''recoverable_by_model'', ''recommended_next_action'', ''source'']"

text \<open>\<^verbatim>\<open>ToolResultMeta(**meta_dict)\<close> wants exactly its fields.\<close>

definition parse_tool_meta :: "pyval \<Rightarrow> tool_result_meta option" where
  "parse_tool_meta v =
     (case v of
        PDict d \<Rightarrow>
          if set (dkeys d) = set meta_fields
          then Some \<lparr>rm_status = get_key d ''status'', rm_error_type = get_key d ''error_type'', rm_recoverable = get_key d ''recoverable_by_model'',
                 rm_next_action = get_key d ''recommended_next_action'', rm_source = get_key d ''source''\<rparr>
          else None
      | _ \<Rightarrow> None)"

definition message_meta :: "tool_message \<Rightarrow> tool_result_meta option" where
  "message_meta msg = parse_tool_meta (get_key (tm_additional_kwargs msg) tool_meta_key)"

lemma stamp_key [simp]: "get_key (tm_additional_kwargs (stamp meta msg)) tool_meta_key = PDict meta"
  by (simp add: stamp_def get_key_def)

lemma make_meta_keys: "set (dkeys (make_meta a b e r n)) = set meta_fields"
  by (auto simp: make_meta_def meta_fields_def)

lemma parse_make_meta:
  "parse_tool_meta (PDict (make_meta status source error_type recoverable next_action)) =
     Some \<lparr>rm_status = PStr status, rm_error_type = error_type, rm_recoverable = PBool recoverable, rm_next_action = PStr next_action, rm_source = PStr source\<rparr>"
  unfolding parse_tool_meta_def using make_meta_keys by (simp add: make_meta_def get_key_def)

lemma normalize_idem: "normalize_tool_message fo (normalize_tool_message fo msg) = normalize_tool_message fo msg"
  by (simp add: normalize_tool_message_def)

lemma result_meta_parses: "parse_tool_meta (PDict (result_meta fo msg)) \<noteq> None"
  by (simp add: result_meta_def Let_def error_meta_def parse_make_meta split: option.split)

lemma unstamped_gets_meta: "get_key (tm_additional_kwargs msg) tool_meta_key = PNone \<Longrightarrow> message_meta (normalize_tool_message fo msg) \<noteq> None"
proof -
  assume "get_key (tm_additional_kwargs msg) tool_meta_key = PNone"
  then have "message_meta (normalize_tool_message fo msg) = parse_tool_meta (PDict (result_meta fo msg))"
    by (simp add: message_meta_def normalize_tool_message_def)
  with result_meta_parses show ?thesis by simp
qed

end
