(* ===== verification/Read_Before_Write.thy ===== *)
theory Read_Before_Write
  imports Tool_Result_Meta
begin

text \<open>
  The gate in front of the tools that change files, \<^verbatim>\<open>agents/middlewares/read_before_write_middleware.py\<close>: an existing file may only be
  changed after its current version was read in the conversation. The mark of a read, a digest of the whole content, travels in the metadata of
  the read's result. The digest, the reading of a file and the tools themselves are arguments; the lock makes the check and the tool, or the read and
  its mark, one step for a path.
\<close>

section \<open>Paths\<close>

text \<open>\<^verbatim>\<open>posixpath.normpath\<close>.\<close>

definition leading_slashes :: "string \<Rightarrow> nat" where
  "leading_slashes path =
     (if \<not> starts_with path ''/'' then 0 else if starts_with path ''//'' \<and> \<not> starts_with path ''///'' then 2 else 1)"

definition norm_component :: "nat \<Rightarrow> string \<Rightarrow> string list \<Rightarrow> string list" where
  "norm_component initial part comps =
     (if part \<in> set [[], ''.''] then comps
      else if part \<noteq> ''..'' \<or> (initial = 0 \<and> comps = []) \<or> (comps \<noteq> [] \<and> last comps = ''..'') then comps @ [part]
      else butlast comps)"

definition normpath :: "string \<Rightarrow> string" where
  "normpath path =
     (if path = [] then ''.''
      else
        let initial = leading_slashes path;
            comps = fold (norm_component initial) (split_on (CHR ''/'') path) [];
            joined = replicate initial (CHR ''/'') @ join_with ''/'' comps
        in if joined = [] then ''.'' else joined)"

section \<open>Marks\<close>

definition read_mark_key :: string where "read_mark_key = ''deerflow_read_mark''"
definition gated_write_tools :: "string list" where "gated_write_tools = [''write_file'', ''str_replace'']"
definition read_tools :: "string list" where "read_tools = [''read_file'']"

datatype read_outcome = Content string | File_Not_Found | Read_Failed

record tool_request =
  tr_call :: tool_call
  tr_context :: pyval
  tr_sandbox :: pyval
  tr_messages :: "message list"

definition requested_path :: "tool_request \<Rightarrow> string option" where
  "requested_path r = (case get_or (tr_call r) ''args'' (PDict []) of PDict args \<Rightarrow> nonempty_text (get_key args ''path'') | _ \<Rightarrow> None)"

definition lock_scope :: "tool_request \<Rightarrow> string" where
  "lock_scope r =
     (case (case tr_context r of PDict ctx \<Rightarrow> nonempty_text (get_key ctx ''thread_id'') | _ \<Rightarrow> None) of
        Some tid \<Rightarrow> tid
      | None \<Rightarrow>
          (case (case tr_sandbox r of PDict s \<Rightarrow> nonempty_text (get_key s ''sandbox_id'') | _ \<Rightarrow> None) of Some sid \<Rightarrow> sid | None \<Rightarrow> ''global''))"

definition gate_lock_key :: "tool_request \<Rightarrow> string \<Rightarrow> string \<times> string" where
  "gate_lock_key r path = (lock_scope r, normpath path)"

text \<open>The mark a message carries for a path: absent, or its digest if that is a string.\<close>

definition mark_of :: "string \<Rightarrow> message \<Rightarrow> pyval option" where
  "mark_of norm_path msg =
     (case msg of
        ToolMessage t \<Rightarrow>
          (case get_key (tm_additional_kwargs t) read_mark_key of
             PDict mark \<Rightarrow> if get_key mark ''path'' = PStr norm_path then Some (get_key mark ''hash'') else None
           | _ \<Rightarrow> None)
      | _ \<Rightarrow> None)"

definition latest_mark_hash :: "message list \<Rightarrow> string \<Rightarrow> string option" where
  "latest_mark_hash messages norm_path =
     (case List.map_filter (mark_of norm_path) (rev messages) of
        [] \<Rightarrow> None
      | h # _ \<Rightarrow> (case h of PStr s \<Rightarrow> Some s | _ \<Rightarrow> None))"

section \<open>The gate\<close>

definition uninspectable :: "string \<Rightarrow> bool" where
  "uninspectable content \<longleftrightarrow> starts_with content ''Error:''"

text \<open>The dash of the message, U+2014, stands as a hyphen.\<close>

definition block_message :: "string \<Rightarrow> string \<Rightarrow> string" where
  "block_message tool_name path =
     ''Error: '' @ tool_name @ '' blocked - '' @ path @ '' already exists and you have not read its current version. Any write invalidates earlier reads, so re-read before every modification. Call read_file on it (a ranged read of the relevant section is enough, e.g. the last ~30 lines before an append), check what is already there, then retry.''"

definition blocked_write :: "tool_request \<Rightarrow> string \<Rightarrow> tool_message" where
  "blocked_write r path =
     (let tool_name = py_str (get_default (tr_call r) ''name'' (PStr ''write'')) in
      \<lparr>tm_tool_call_id = py_str (get_default (tr_call r) ''id'' (PStr [])), tm_name = PStr tool_name, tm_content = PStr (block_message tool_name path),
       tm_status = ''error'', tm_additional_kwargs = []\<rparr>)"

definition check_write_gate :: "(string \<Rightarrow> string) \<Rightarrow> ('fs \<Rightarrow> string \<Rightarrow> read_outcome) \<Rightarrow> tool_request \<Rightarrow> 'fs \<Rightarrow> tool_message option" where
  "check_write_gate sha reader r fs =
     (case requested_path r of
        None \<Rightarrow> None
      | Some path \<Rightarrow>
          (case reader fs path of
             File_Not_Found \<Rightarrow> None
           | Read_Failed \<Rightarrow> None
           | Content current \<Rightarrow>
               if uninspectable current then None
               else if latest_mark_hash (tr_messages r) (normpath path) = Some (sha current) then None
               else Some (blocked_write r path)))"

definition read_mark :: "(string \<Rightarrow> string) \<Rightarrow> string \<Rightarrow> string \<Rightarrow> pyval" where
  "read_mark sha path content = PDict [(''path'', PStr (normpath path)), (''hash'', PStr (sha content))]"

definition marked :: "(string \<Rightarrow> string) \<Rightarrow> string \<Rightarrow> string \<Rightarrow> tool_message \<Rightarrow> tool_message" where
  "marked sha path content t = t\<lparr>tm_additional_kwargs := dset read_mark_key (read_mark sha path content) (tm_additional_kwargs t)\<rparr>"

text \<open>The last tool message of a command, with what surrounds it.\<close>

definition last_tool_message :: "message list \<Rightarrow> (message list \<times> tool_message \<times> message list) option" where
  "last_tool_message ms =
     (case dropWhile (\<lambda>m. case m of ToolMessage _ \<Rightarrow> False | _ \<Rightarrow> True) (rev ms) of
        ToolMessage t # earlier \<Rightarrow> Some (rev earlier, t, drop (Suc (length earlier)) ms)
      | _ \<Rightarrow> None)"

definition attach_read_mark :: "(string \<Rightarrow> string) \<Rightarrow> ('fs \<Rightarrow> string \<Rightarrow> read_outcome) \<Rightarrow> tool_request \<Rightarrow> tool_result \<Rightarrow> 'fs \<Rightarrow> tool_result" where
  "attach_read_mark sha reader r result fs =
     (case requested_path r of
        None \<Rightarrow> result
      | Some path \<Rightarrow>
          (let mark = (\<lambda>t. if tm_status t = ''error'' then t
                           else case reader fs path of
                             Content content \<Rightarrow> if uninspectable content then t else marked sha path content t
                           | _ \<Rightarrow> t)
           in case result of
                Message_Result t \<Rightarrow> Message_Result (mark t)
              | Command_Result ms u \<Rightarrow>
                  (case last_tool_message ms of
                     None \<Rightarrow> result
                   | Some (earlier, t, later) \<Rightarrow> Command_Result (earlier @ [ToolMessage (mark t)] @ later) u)))"

text \<open>A tool takes the files to its result and the files after it. The flag says whether the tool executed.\<close>

definition wrap_tool_call ::
  "(string \<Rightarrow> string) \<Rightarrow> float_reader \<Rightarrow> ('fs \<Rightarrow> string \<Rightarrow> read_outcome) \<Rightarrow> tool_request \<Rightarrow> ('fs \<Rightarrow> tool_result \<times> 'fs) \<Rightarrow> 'fs \<Rightarrow> tool_result \<times> bool \<times> 'fs" where
  "wrap_tool_call sha fo reader r handler fs =
     (let name = get_key (tr_call r) ''name''; (result, fs') = handler fs in
      if name \<in> PStr ` set gated_write_tools
      then (case requested_path r of
              None \<Rightarrow> (result, True, fs')
            | Some _ \<Rightarrow>
                (case check_write_gate sha reader r fs of
                   Some blocked \<Rightarrow> (normalize_tool_result fo (Message_Result blocked), False, fs)
                 | None \<Rightarrow> (result, True, fs')))
      else if name \<in> PStr ` set read_tools
      then (case requested_path r of
              None \<Rightarrow> (result, True, fs')
            | Some _ \<Rightarrow> (attach_read_mark sha reader r result fs', True, fs'))
      else (result, True, fs'))"

section \<open>Conversations\<close>

text \<open>A conversation: its messages, the messages the tool calls of the current turn are given, the files, and, for the statements below, which
  content each path had when a read of it ended.\<close>

record 'fs conversation =
  cv_messages :: "message list"
  cv_turn :: "message list"
  cv_files :: 'fs
  cv_seen :: "(string \<times> string) set"

definition result_messages :: "tool_result \<Rightarrow> message list" where
  "result_messages r = (case r of Message_Result t \<Rightarrow> [ToolMessage t] | Command_Result ms u \<Rightarrow> ms)"

definition unmarked :: "message \<Rightarrow> bool" where
  "unmarked msg = (case msg of ToolMessage t \<Rightarrow> dget (tm_additional_kwargs t) read_mark_key = None | _ \<Rightarrow> True)"

definition read_here :: "('fs \<Rightarrow> string \<Rightarrow> read_outcome) \<Rightarrow> tool_request \<Rightarrow> 'fs \<Rightarrow> (string \<times> string) set" where
  "read_here reader r fs =
     {(normpath path, content) | path content.
        get_key (tr_call r) ''name'' \<in> PStr ` set read_tools \<and> requested_path r = Some path \<and> reader fs path = Content content}"

text \<open>Tools do not write marks themselves. Files change at any time, by other tools and people; summaries take messages away, the model
  and the user add some.\<close>

inductive conversation_step ::
  "(string \<Rightarrow> string) \<Rightarrow> float_reader \<Rightarrow> ('fs \<Rightarrow> string \<Rightarrow> read_outcome) \<Rightarrow> 'fs conversation \<Rightarrow> 'fs conversation \<Rightarrow> bool" for sha fo reader where
  turn_begins: "conversation_step sha fo reader s (s\<lparr>cv_turn := cv_messages s\<rparr>)"
| tool_call: "tr_messages r = cv_turn s \<Longrightarrow> list_all unmarked (result_messages (fst (handler (cv_files s)))) \<Longrightarrow>
    wrap_tool_call sha fo reader r handler (cv_files s) = (result, executed, files) \<Longrightarrow>
    conversation_step sha fo reader s
      (s\<lparr>cv_messages := cv_messages s @ result_messages result, cv_files := files, cv_seen := cv_seen s \<union> read_here reader r files\<rparr>)"
| files_change: "conversation_step sha fo reader s (s\<lparr>cv_files := files\<rparr>)"
| messages_change: "\<forall>msg\<in>set messages. msg \<in> set (cv_messages s) \<or> unmarked msg \<Longrightarrow> conversation_step sha fo reader s (s\<lparr>cv_messages := messages\<rparr>)"

text \<open>Every mark goes back to a read.\<close>

definition justified :: "(string \<Rightarrow> string) \<Rightarrow> (string \<times> string) set \<Rightarrow> message \<Rightarrow> bool" where
  "justified sha seen msg \<longleftrightarrow> (\<forall>p h. mark_of p msg = Some h \<longrightarrow> (\<exists>content. (p, content) \<in> seen \<and> h = PStr (sha content)))"

definition conversation_wf :: "(string \<Rightarrow> string) \<Rightarrow> 'fs conversation \<Rightarrow> bool" where
  "conversation_wf sha s \<longleftrightarrow> (\<forall>msg\<in>set (cv_messages s) \<union> set (cv_turn s). justified sha (cv_seen s) msg)"

lemma unmarked_justified: "unmarked msg \<Longrightarrow> justified sha seen msg"
  by (auto simp: unmarked_def justified_def mark_of_def get_key_def split: message.split_asm)

lemma justified_mono: "justified sha seen msg \<Longrightarrow> seen \<subseteq> seen' \<Longrightarrow> justified sha seen' msg"
  unfolding justified_def by blast

lemma marked_justified: "(normpath path, content) \<in> seen \<Longrightarrow> justified sha seen (ToolMessage (marked sha path content t))"
  by (auto simp: justified_def mark_of_def marked_def read_mark_def get_key_def split: if_split_asm)

lemma last_tool_message_Some: "last_tool_message ms = Some (earlier, t, later) \<Longrightarrow> set earlier \<union> {ToolMessage t} \<union> set later \<subseteq> set ms"
proof -
  assume l: "last_tool_message ms = Some (earlier, t, later)"
  let ?d = "dropWhile (\<lambda>m. case m of ToolMessage _ \<Rightarrow> False | _ \<Rightarrow> True) (rev ms)"
  from l obtain xs where "?d = ToolMessage t # xs" "earlier = rev xs" "later = drop (Suc (length xs)) ms"
    by (auto simp: last_tool_message_def split: list.split_asm message.split_asm)
  moreover have "set ?d \<subseteq> set ms" by (metis set_dropWhileD set_rev subsetI)
  ultimately show ?thesis by (auto dest: in_set_dropD)
qed

lemma attach_read_mark_justified:
  assumes "list_all unmarked (result_messages result)" and "get_key (tr_call r) ''name'' \<in> PStr ` set read_tools" and "read_here reader r fs \<subseteq> seen"
  shows "\<forall>msg\<in>set (result_messages (attach_read_mark sha reader r result fs)). justified sha seen msg"
proof (cases "requested_path r")
  case None
  with assms(1) show ?thesis by (auto simp: attach_read_mark_def list_all_iff intro: unmarked_justified)
next
  case (Some path)
  let ?mark = "\<lambda>t. if tm_status t = ''error'' then t
    else case reader fs path of Content content \<Rightarrow> if uninspectable content then t else marked sha path content t | _ \<Rightarrow> t"
  have seen: "(normpath path, content) \<in> seen" if "reader fs path = Content content" for content
    using assms(2,3) Some that by (auto simp: read_here_def)
  have mark: "justified sha seen (ToolMessage (?mark t))" if "unmarked (ToolMessage t)" for t
    using unmarked_justified [OF that] seen marked_justified by (auto split: read_outcome.split)
  show ?thesis
  proof (cases result)
    case (Message_Result t)
    with Some assms(1) mark [of t] show ?thesis by (simp add: attach_read_mark_def result_messages_def Let_def)
  next
    case (Command_Result ms u)
    show ?thesis
    proof (cases "last_tool_message ms")
      case None
      with Some Command_Result assms(1) show ?thesis by (auto simp: attach_read_mark_def list_all_iff intro: unmarked_justified)
    next
      case (Some x)
      obtain earlier t later where x: "x = (earlier, t, later)" by (metis prod_cases3)
      have "set earlier \<union> {ToolMessage t} \<union> set later \<subseteq> set ms" using last_tool_message_Some Some x by simp
      moreover have "\<forall>msg\<in>set ms. unmarked msg" using assms(1) Command_Result by (simp add: result_messages_def list_all_iff)
      ultimately have "\<forall>msg\<in>set earlier \<union> set later. justified sha seen msg" "justified sha seen (ToolMessage (?mark t))"
        using mark [of t] unmarked_justified by blast+
      with \<open>requested_path r = Some path\<close> Command_Result Some x show ?thesis by (auto simp: attach_read_mark_def result_messages_def Let_def)
    qed
  qed
qed

lemma blocked_write_unmarked: "unmarked (ToolMessage (normalize_tool_message fo (blocked_write r path)))"
  by (simp add: unmarked_def normalize_tool_message_def stamp_def blocked_write_def Let_def get_key_def tool_meta_key_def read_mark_key_def)

lemma wrap_tool_call_justified:
  assumes "wrap_tool_call sha fo reader r handler fs = (result, executed, fs')" and "list_all unmarked (result_messages (fst (handler fs)))"
    and "read_here reader r fs' \<subseteq> seen"
  shows "\<forall>msg\<in>set (result_messages result). justified sha seen msg"
proof (cases "result = fst (handler fs)")
  case True
  with assms(2) show ?thesis by (auto simp: list_all_iff intro: unmarked_justified)
next
  case False
  with assms(1) consider (blocked) b where "check_write_gate sha reader r fs = Some b" "result = normalize_tool_result fo (Message_Result b)"
    | (read) "get_key (tr_call r) ''name'' \<in> PStr ` set read_tools" "result = attach_read_mark sha reader r (fst (handler fs)) fs'"
    by (auto simp: wrap_tool_call_def Let_def split: prod.split_asm if_split_asm option.split_asm)
  then show ?thesis
  proof cases
    case blocked
    then obtain path where "b = blocked_write r path" by (auto simp: check_write_gate_def split: option.split_asm read_outcome.split_asm if_split_asm)
    with blocked show ?thesis by (simp add: normalize_tool_result_def result_messages_def unmarked_justified blocked_write_unmarked)
  next
    case read
    then show ?thesis using attach_read_mark_justified [OF assms(2) read(1) assms(3)] by simp
  qed
qed

lemma conversation_wf_step: "conversation_wf sha s \<Longrightarrow> conversation_step sha fo reader s s' \<Longrightarrow> conversation_wf sha s'"
proof -
  assume wf: "conversation_wf sha s" and "conversation_step sha fo reader s s'"
  from this(2) show ?thesis
  proof cases
    case (tool_call r handler result executed files)
    let ?seen = "cv_seen s \<union> read_here reader r files"
    have "\<forall>msg\<in>set (result_messages result). justified sha ?seen msg" using wrap_tool_call_justified [OF tool_call(4,3)] by simp
    moreover have "\<forall>msg\<in>set (cv_messages s) \<union> set (cv_turn s). justified sha ?seen msg"
      using wf justified_mono [of sha "cv_seen s" _ ?seen] by (auto simp: conversation_wf_def)
    ultimately show ?thesis using tool_call(1) by (auto simp: conversation_wf_def)
  next
    case (messages_change messages)
    with wf show ?thesis by (auto simp: conversation_wf_def intro: unmarked_justified)
  qed (use wf in \<open>auto simp: conversation_wf_def\<close>)
qed

interpretation conversation: invariant_system "conversation_step sha fo reader" "conversation_wf sha"
  by unfold_locales (rule conversation_wf_step)

lemma latest_mark_hash_Some: "latest_mark_hash messages p = Some h \<Longrightarrow> \<exists>msg\<in>set messages. mark_of p msg = Some (PStr h)"
proof -
  assume l: "latest_mark_hash messages p = Some h"
  then obtain xs where "List.map_filter (mark_of p) (rev messages) = PStr h # xs"
    by (auto simp: latest_mark_hash_def split: list.split_asm pyval.split_asm)
  then have "PStr h \<in> set (List.map_filter (mark_of p) (rev messages))" by simp
  then show ?thesis by (auto simp: List.map_filter_def)
qed

text \<open>C25. Writes are informed. Take any conversation: turns, tool calls, files that change behind its back, messages that are added and summarized
  away. When a tool that changes files is asked to change a file that exists and can be inspected, it runs only if the messages it was given
  still hold the result of a read of that path, made when the file had a content with the digest of the present one. Otherwise the files
  stay as they are, and the model gets an error.\<close>
theorem writes_are_informed:
  assumes "(conversation_step sha fo reader)\<^sup>*\<^sup>* \<lparr>cv_messages = [], cv_turn = [], cv_files = files0, cv_seen = {}\<rparr> s"
    and "get_key (tr_call r) ''name'' \<in> PStr ` set gated_write_tools" and "requested_path r = Some path" and "tr_messages r = cv_turn s"
    and "reader (cv_files s) path = Content current" and "\<not> starts_with current ''Error:''"
    and "wrap_tool_call sha fo reader r handler (cv_files s) = (result, executed, files)"
  shows "if executed
    then (\<exists>content. (normpath path, content) \<in> cv_seen s \<and> sha content = sha current) \<and>
      (\<exists>msg\<in>set (cv_turn s). mark_of (normpath path) msg = Some (PStr (sha current)))
    else files = cv_files s \<and> (\<exists>t. result = Message_Result t \<and> tm_status t = ''error'')"
proof -
  have "conversation_wf sha s" by (rule conversation.inv_steps [OF assms(1)]) (simp add: conversation_wf_def)
  then have just: "\<forall>msg\<in>set (cv_turn s). justified sha (cv_seen s) msg" by (simp add: conversation_wf_def)
  show ?thesis
  proof (cases "latest_mark_hash (cv_turn s) (normpath path) = Some (sha current)")
    case True
    from latest_mark_hash_Some [OF this] obtain msg where msg: "msg \<in> set (cv_turn s)" "mark_of (normpath path) msg = Some (PStr (sha current))" by blast
    with just have "\<exists>content. (normpath path, content) \<in> cv_seen s \<and> PStr (sha current) = PStr (sha content)" unfolding justified_def by blast
    then have "\<exists>content. (normpath path, content) \<in> cv_seen s \<and> sha content = sha current" by auto
    moreover have "check_write_gate sha reader r (cv_files s) = None"
      using assms True by (simp add: check_write_gate_def uninspectable_def)
    then have "executed" using assms(2,3,7) by (auto simp: wrap_tool_call_def Let_def split: prod.split_asm)
    ultimately show ?thesis using msg by auto
  next
    case False
    then have "check_write_gate sha reader r (cv_files s) = Some (blocked_write r path)"
      using assms by (simp add: check_write_gate_def uninspectable_def)
    then have "\<not> executed" "files = cv_files s" "result = Message_Result (normalize_tool_message fo (blocked_write r path))"
      using assms(2,3,7) by (auto simp: wrap_tool_call_def Let_def normalize_tool_result_def split: prod.split_asm)
    moreover have "tm_status (normalize_tool_message fo (blocked_write r path)) = ''error''"
      by (simp add: normalize_tool_message_def stamp_def blocked_write_def Let_def)
    ultimately show ?thesis by simp
  qed
qed

text \<open>A file whose content starts with the word the gate takes for a failed read is changed without having been read.\<close>

theorem error_file_overwritten:
  assumes "get_key (tr_call r) ''name'' = PStr ''write_file''" and "handler (''Error: kept for review'' :: string) = (result, ''gone'')"
  shows "wrap_tool_call sha fo (\<lambda>fs path. Content fs) (r\<lparr>tr_messages := []\<rparr>) handler ''Error: kept for review'' = (result, True, ''gone'')"
  using assms by (simp add: wrap_tool_call_def check_write_gate_def gated_write_tools_def uninspectable_def requested_path_def Let_def split: option.split)

section \<open>Witness\<close>

definition demo_request :: "string \<Rightarrow> message list \<Rightarrow> tool_request" where
  "demo_request name ms = \<lparr>tr_call = [(''name'', PStr name), (''id'', PStr ''1''), (''args'', PDict [(''path'', PStr ''/w//a'')])],
     tr_context = PDict [(''thread_id'', PStr ''t'')], tr_sandbox = PNone, tr_messages = ms\<rparr>"

definition demo_output :: tool_message where
  "demo_output = \<lparr>tm_tool_call_id = ''1'', tm_name = PStr ''read_file'', tm_content = PStr ''old'', tm_status = ''success'', tm_additional_kwargs = []\<rparr>"

definition demo_conversation :: "string conversation" where
  "demo_conversation = \<lparr>cv_messages = [ToolMessage (marked (\<lambda>s. s) ''/w//a'' ''old'' demo_output)], cv_turn = [ToolMessage (marked (\<lambda>s. s) ''/w//a'' ''old'' demo_output)],
     cv_files = ''old'', cv_seen = {(normpath ''/w//a'', ''old'')}\<rparr>"

lemma demo_conversation_reached:
  "(conversation_step (\<lambda>s. s) fo (\<lambda>fs path. Content fs))\<^sup>*\<^sup>* \<lparr>cv_messages = [], cv_turn = [], cv_files = ''old'', cv_seen = {}\<rparr> demo_conversation"
proof -
  let ?s0 = "\<lparr>cv_messages = [], cv_turn = [], cv_files = ''old'', cv_seen = {}\<rparr> :: string conversation"
  let ?r = "demo_request ''read_file'' []" and ?h = "\<lambda>fs :: string. (Message_Result demo_output, fs)"
  let ?m = "ToolMessage (marked (\<lambda>s. s) ''/w//a'' ''old'' demo_output)"
  have path: "requested_path ?r = Some ''/w//a''" "get_key (tr_call ?r) ''name'' = PStr ''read_file''"
    by (simp_all add: requested_path_def demo_request_def get_or_def get_key_def truthy_def nonempty_text_def)
  have wrap: "wrap_tool_call (\<lambda>s. s) fo (\<lambda>fs path. Content fs) ?r ?h ''old'' = (Message_Result (marked (\<lambda>s. s) ''/w//a'' ''old'' demo_output), True, ''old'')"
    using path by (simp add: wrap_tool_call_def gated_write_tools_def read_tools_def attach_read_mark_def uninspectable_def) (simp add: demo_output_def)
  have seen: "read_here (\<lambda>fs path. Content fs) ?r ''old'' = {(normpath ''/w//a'', ''old'')}"
    using path by (auto simp: read_here_def read_tools_def)
  have "conversation_step (\<lambda>s. s) fo (\<lambda>fs path. Content fs) ?s0 \<lparr>cv_messages = [?m], cv_turn = [], cv_files = ''old'', cv_seen = {(normpath ''/w//a'', ''old'')}\<rparr>"
    using tool_call [of ?r ?s0 ?h "\<lambda>s. s" fo "\<lambda>fs path. Content fs" _ True "''old''"] wrap seen
    by (auto simp: demo_request_def result_messages_def unmarked_def demo_output_def)
  moreover have "conversation_step (\<lambda>s. s) fo (\<lambda>fs path. Content fs) \<lparr>cv_messages = [?m], cv_turn = [], cv_files = ''old'', cv_seen = {(normpath ''/w//a'', ''old'')}\<rparr> demo_conversation"
    using turn_begins [of "\<lambda>s. s" fo "\<lambda>fs path. Content fs" "\<lparr>cv_messages = [?m], cv_turn = [], cv_files = ''old'', cv_seen = {(normpath ''/w//a'', ''old'')}\<rparr>"]
    by (simp add: demo_conversation_def)
  ultimately show ?thesis by (rule rtranclp.rtrancl_into_rtrancl [OF r_into_rtranclp])
qed

theorem writes_are_informed_witness:
  "wrap_tool_call (\<lambda>s. s) (\<lambda>s. (s, 0)) (\<lambda>fs path. Content fs) (demo_request ''write_file'' (cv_turn demo_conversation)) (\<lambda>fs. (Message_Result demo_output, ''new'')) ''old'' =
     (Message_Result demo_output, True, ''new'') \<and> (\<exists>content. (normpath ''/w//a'', content) \<in> cv_seen demo_conversation \<and> content = ''old'')"
proof -
  let ?r = "demo_request ''write_file'' (cv_turn demo_conversation)"
  have "fst (snd (wrap_tool_call (\<lambda>s. s) (\<lambda>s. (s, 0)) (\<lambda>fs path. Content fs) ?r (\<lambda>fs. (Message_Result demo_output, ''new'')) ''old''))" by code_simp
  then have wrap: "wrap_tool_call (\<lambda>s. s) (\<lambda>s. (s, 0)) (\<lambda>fs path. Content fs) ?r (\<lambda>fs. (Message_Result demo_output, ''new'')) ''old'' = (Message_Result demo_output, True, ''new'')"
    by (auto simp: wrap_tool_call_def Let_def demo_request_def get_key_def gated_write_tools_def split: option.split option.split_asm)
  have path: "requested_path ?r = Some ''/w//a''" "get_key (tr_call ?r) ''name'' \<in> PStr ` set gated_write_tools" "tr_messages ?r = cv_turn demo_conversation"
      "Content (cv_files demo_conversation) = Content ''old''" "\<not> starts_with ''old'' ''Error:''" "cv_files demo_conversation = ''old''"
    by (simp_all add: requested_path_def demo_request_def get_or_def get_key_def truthy_def nonempty_text_def gated_write_tools_def demo_conversation_def)
  from writes_are_informed [OF demo_conversation_reached path(2,1,3,4,5) wrap [folded path(6)]] wrap show ?thesis by simp
qed

end
