(* ===== verification/Storage_Paths.thy ===== *)
theory Storage_Paths
  imports Read_Before_Write "HOL-Library.Sublist"
begin

text \<open>
  Where the program keeps its data, \<^verbatim>\<open>config/paths.py\<close>: the directories of users and threads below a base directory, the identifiers that may
  become parts of a path, and virtual paths. An absolute path is the list of its components. What a text names on the host, links followed
  (\<^verbatim>\<open>Path.resolve\<close>), depends on the file system and is an argument.
\<close>

section \<open>Paths of the host\<close>

type_synonym path = "string list"

text \<open>\<^verbatim>\<open>str(p)\<close> of an absolute path, and the texts \<^verbatim>\<open>pathlib\<close> makes of a text and of a text extended by a relative one.\<close>

definition abs_str :: "path \<Rightarrow> string" where
  "abs_str cs = CHR ''/'' # join_with ''/'' cs"

definition path_parts :: "string \<Rightarrow> string list" where
  "path_parts s = filter (\<lambda>p. p \<notin> set [[], ''.'']) (split_on (CHR ''/'') s)"

definition path_root :: "string \<Rightarrow> string" where
  "path_root s = replicate (leading_slashes s) (CHR ''/'')"

definition path_text :: "string \<Rightarrow> string list \<Rightarrow> string" where
  "path_text anchor parts = (if anchor = [] \<and> parts = [] then ''.'' else anchor @ join_with ''/'' parts)"

definition path_join :: "string \<Rightarrow> string \<Rightarrow> string" where
  "path_join s rel =
     (if starts_with rel ''/'' then path_text (path_root rel) (path_parts rel) else path_text (path_root s) (path_parts s @ path_parts rel))"

definition path_parent :: "string \<Rightarrow> string" where
  "path_parent s = path_text (path_root s) (butlast (path_parts s))"

text \<open>What is relied on of \<^verbatim>\<open>Path.resolve\<close>: its results have proper components, and resolving a result gives it back.\<close>

type_synonym resolver = "string \<Rightarrow> path"

definition component :: "string \<Rightarrow> bool" where
  "component c \<longleftrightarrow> c \<noteq> [] \<and> CHR ''/'' \<notin> set c"

definition resolves :: "resolver \<Rightarrow> bool" where
  "resolves rp \<longleftrightarrow> (\<forall>s. list_all component (rp s) \<and> rp (abs_str (rp s)) = rp s)"

definition relative_to :: "path \<Rightarrow> path \<Rightarrow> bool" where
  "relative_to p dir = prefix dir p"

section \<open>Identifiers\<close>

datatype path_error = ValueError string

text \<open>The pattern \<^verbatim>\<open>^[A-Za-z0-9_\-]+$\<close> under \<^verbatim>\<open>re.match\<close>: the end may stand before a final line feed.\<close>

definition path_id_char :: "char \<Rightarrow> bool" where
  "path_id_char c \<longleftrightarrow> is_upper_char c \<or> is_lower_char c \<or> is_digit_char c \<or> c = CHR ''_'' \<or> c = CHR ''-''"

definition path_id :: "string \<Rightarrow> bool" where
  "path_id s = (let t = (if s \<noteq> [] \<and> last s = CHR 0x0A then butlast s else s) in t \<noteq> [] \<and> list_all path_id_char t)"

definition validate_thread_id :: "string \<Rightarrow> path_error + string" where
  "validate_thread_id tid =
     (if path_id tid then Inr tid
      else Inl (ValueError (''Invalid thread_id '' @ repr_str tid @ '': only alphanumeric characters, hyphens, and underscores are allowed.'')))"

definition validate_user_id :: "string \<Rightarrow> path_error + string" where
  "validate_user_id uid =
     (if path_id uid then Inr uid
      else Inl (ValueError (''Invalid user_id '' @ repr_str uid @ '': only alphanumeric characters, hyphens, and underscores are allowed.'')))"

definition digest_hex_len :: nat where "digest_hex_len = 16"

definition sanitize_id :: "string \<Rightarrow> string" where
  "sanitize_id raw = map (\<lambda>c. if path_id_char c then c else CHR ''-'') raw"

definition make_safe_user_id :: "(string \<Rightarrow> string) \<Rightarrow> string \<Rightarrow> path_error + string" where
  "make_safe_user_id sha raw =
     (if raw = [] then Inl (ValueError ''user_id must be a non-empty string.'')
      else
        let sanitized = sanitize_id raw in
        if sanitized = raw then Inr raw else Inr (sanitized @ ''-'' @ take digest_hex_len (sha raw)))"

definition legacy_safe_user_id :: "(string \<Rightarrow> string) \<Rightarrow> string \<Rightarrow> string \<Rightarrow> string" where
  "legacy_safe_user_id sha1 raw sanitized = sanitized @ ''-'' @ take digest_hex_len (sha1 raw)"

section \<open>Directories\<close>

definition user_dir :: "path \<Rightarrow> string \<Rightarrow> path_error + path" where
  "user_dir base uid = ebind (validate_user_id uid) (\<lambda>u. Inr (base @ [''users'', u]))"

definition thread_dir :: "path \<Rightarrow> string \<Rightarrow> string option \<Rightarrow> path_error + path" where
  "thread_dir base tid uid =
     (case uid of
        Some u \<Rightarrow> ebind (user_dir base u) (\<lambda>d. ebind (validate_thread_id tid) (\<lambda>t. Inr (d @ [''threads'', t])))
      | None \<Rightarrow> ebind (validate_thread_id tid) (\<lambda>t. Inr (base @ [''threads'', t])))"

definition below :: "path_error + path \<Rightarrow> string list \<Rightarrow> path_error + path" where
  "below d parts = ebind d (\<lambda>p. Inr (p @ parts))"

definition sandbox_user_data_dir :: "path \<Rightarrow> string \<Rightarrow> string option \<Rightarrow> path_error + path" where
  "sandbox_user_data_dir base tid uid = below (thread_dir base tid uid) [''user-data'']"

definition sandbox_work_dir :: "path \<Rightarrow> string \<Rightarrow> string option \<Rightarrow> path_error + path" where
  "sandbox_work_dir base tid uid = below (thread_dir base tid uid) [''user-data'', ''workspace'']"

definition sandbox_uploads_dir :: "path \<Rightarrow> string \<Rightarrow> string option \<Rightarrow> path_error + path" where
  "sandbox_uploads_dir base tid uid = below (thread_dir base tid uid) [''user-data'', ''uploads'']"

definition sandbox_outputs_dir :: "path \<Rightarrow> string \<Rightarrow> string option \<Rightarrow> path_error + path" where
  "sandbox_outputs_dir base tid uid = below (thread_dir base tid uid) [''user-data'', ''outputs'']"

definition acp_workspace_dir :: "path \<Rightarrow> string \<Rightarrow> string option \<Rightarrow> path_error + path" where
  "acp_workspace_dir base tid uid = below (thread_dir base tid uid) [''acp-workspace'']"

definition user_custom_skills_dir :: "path \<Rightarrow> string \<Rightarrow> path_error + path" where
  "user_custom_skills_dir base uid = below (user_dir base uid) [''skills'', ''custom'']"

text \<open>The directories of users by name, with whatever they hold; moving one may fail.\<close>

definition prepare_user_dir_for_raw_id ::
  "(string \<Rightarrow> string) \<Rightarrow> (string \<Rightarrow> string) \<Rightarrow> bool \<Rightarrow> string \<Rightarrow> (string, 'd) dict \<Rightarrow> (path_error + string) \<times> (string, 'd) dict" where
  "prepare_user_dir_for_raw_id sha sha1 fails raw users =
     (case make_safe_user_id sha raw of
        Inl e \<Rightarrow> (Inl e, users)
      | Inr safe \<Rightarrow>
          if safe = raw then (Inr safe, users)
          else
            let legacy = legacy_safe_user_id sha1 raw (sanitize_id raw) in
            (case dget users safe of
               Some _ \<Rightarrow> (Inr safe, users)
             | None \<Rightarrow>
                 (case dget users legacy of
                    None \<Rightarrow> (Inr safe, users)
                  | Some d \<Rightarrow> (Inr safe, if fails then users else dset safe d (dpop legacy users)))))"

section \<open>Virtual paths\<close>

definition virtual_path_prefix :: string where "virtual_path_prefix = ''/mnt/user-data''"

definition strip_slashes :: "string \<Rightarrow> string" where "strip_slashes s = dropWhile (\<lambda>c. c = CHR ''/'') s"

definition resolve_virtual_path :: "resolver \<Rightarrow> path \<Rightarrow> string \<Rightarrow> string \<Rightarrow> string option \<Rightarrow> path_error + path" where
  "resolve_virtual_path rp base tid virtual uid =
     (let stripped = strip_slashes virtual; pre = strip_slashes virtual_path_prefix in
      if stripped \<noteq> pre \<and> \<not> starts_with stripped (pre @ ''/'') then Inl (ValueError (''Path must start with /'' @ pre))
      else
        ebind (sandbox_user_data_dir base tid uid) (\<lambda>d.
        let own = rp (abs_str d); actual = rp (path_join (abs_str own) (strip_slashes (drop (length pre) stripped))) in
        if relative_to actual own then Inr actual else Inl (ValueError ''Access denied: path traversal detected'')))"

section \<open>Threads have their own directories\<close>

lemma thread_dir_Inr:
  "thread_dir base tid uid = Inr d \<longleftrightarrow>
     path_id tid \<and> (\<forall>u. uid = Some u \<longrightarrow> path_id u) \<and> d = base @ (case uid of Some u \<Rightarrow> [''users'', u, ''threads'', tid] | None \<Rightarrow> [''threads'', tid])"
  by (auto simp: thread_dir_def user_dir_def validate_thread_id_def validate_user_id_def split: option.splits if_splits)

lemma thread_dirs_apart:
  assumes "thread_dir base tid uid = Inr d" "thread_dir base tid' uid' = Inr d'" "(tid, uid) \<noteq> (tid', uid')"
  shows "\<not> prefix d d'"
  using assms by (auto simp: thread_dir_Inr split: option.splits)

lemma below_Inr: "below d parts = Inr p \<longleftrightarrow> (\<exists>q. d = Inr q \<and> p = q @ parts)"
  by (auto simp: below_def err_simps)

text \<open>A safe name is accepted as it is, so it can be the name that was made for somebody else.\<close>

theorem user_buckets_collide:
  assumes "list_all path_id_char (sha ''a/b'')"
  shows "make_safe_user_id sha (''a-b-'' @ take digest_hex_len (sha ''a/b'')) = make_safe_user_id sha ''a/b''"
proof -
  let ?t = "''a-b-'' @ take digest_hex_len (sha ''a/b'')"
  have "list_all path_id_char ?t" using assms by (auto simp: path_id_char_def is_lower_char_def in_range_def char_code_def list_all_iff dest: in_set_takeD)
  then have "sanitize_id ?t = ?t" by (auto simp: sanitize_id_def list_all_iff intro!: map_idI)
  moreover have "sanitize_id ''a/b'' = ''a-b''" by code_simp
  ultimately show ?thesis by (simp add: make_safe_user_id_def)
qed

end
