(* ===== verification/Local_Sandbox.thy ===== *)
theory Local_Sandbox
  imports Storage_Paths Text_Lines
begin

text \<open>
  The sandbox on the host itself, \<^verbatim>\<open>sandbox/local/local_sandbox.py\<close> and \<^verbatim>\<open>local_sandbox_provider.py\<close>: container paths are mapped to
  directories of the host, some of them read-only; what is written has its container paths translated, what is read of such files is translated
  back. The host is POSIX. Files are texts, undecodable files or folders at absolute paths without links; a text names the place its resolution
  gives.
\<close>

section \<open>The host\<close>

datatype node = Text_File string | Binary_File | Folder

record host =
  h_nodes :: "path \<Rightarrow> node option"
  h_denied :: "path \<Rightarrow> bool"

datatype file_error = FileNotFoundError | PermissionError | IsADirectoryError | OSError | UnicodeDecodeError | SandboxError string

definition text_at :: "host \<Rightarrow> path \<Rightarrow> string option" where
  "text_at h p = (case h_nodes h p of Some (Text_File s) \<Rightarrow> Some s | _ \<Rightarrow> None)"

definition host_exists :: "resolver \<Rightarrow> host \<Rightarrow> string \<Rightarrow> bool" where
  "host_exists rp h s \<longleftrightarrow> h_nodes h (rp s) \<noteq> None"

definition is_file :: "node option \<Rightarrow> bool" where
  "is_file n \<longleftrightarrow> (case n of Some (Text_File _) \<Rightarrow> True | Some Binary_File \<Rightarrow> True | _ \<Rightarrow> False)"

text \<open>A file where a directory should be.\<close>

definition obstructed :: "host \<Rightarrow> path \<Rightarrow> bool" where
  "obstructed h p = list_ex (\<lambda>k. is_file (h_nodes h (take k p))) [0..<length p]"

definition open_read :: "resolver \<Rightarrow> host \<Rightarrow> string \<Rightarrow> file_error + string" where
  "open_read rp h s =
     (let p = rp s in
      if s = [] then Inl FileNotFoundError
      else if obstructed h p then Inl OSError
      else case h_nodes h p of
        None \<Rightarrow> Inl FileNotFoundError
      | Some n \<Rightarrow>
          if h_denied h p then Inl PermissionError
          else case n of
            Folder \<Rightarrow> Inl IsADirectoryError
          | Binary_File \<Rightarrow> if last s = CHR ''/'' then Inl OSError else Inl UnicodeDecodeError
          | Text_File t \<Rightarrow> if last s = CHR ''/'' then Inl OSError else Inr (universal_newlines t))"

text \<open>\<^verbatim>\<open>os.makedirs(s, exist_ok=True)\<close>: folders are made from the top until one cannot be.\<close>

fun make_folders :: "path list \<Rightarrow> host \<Rightarrow> (file_error + unit) \<times> host" where
  "make_folders [] h = (Inr (), h)"
| "make_folders (p # ps) h =
     (case h_nodes h p of
        Some Folder \<Rightarrow> make_folders ps h
      | Some _ \<Rightarrow> (Inl OSError, h)
      | None \<Rightarrow> if h_denied h p then (Inl PermissionError, h) else make_folders ps (h\<lparr>h_nodes := (h_nodes h)(p := Some Folder)\<rparr>))"

definition makedirs :: "resolver \<Rightarrow> string \<Rightarrow> host \<Rightarrow> (file_error + unit) \<times> host" where
  "makedirs rp s h = (let p = rp s in make_folders (map (\<lambda>k. take k p) [1..<Suc (length p)]) h)"

text \<open>Opening for writing, with what the file holds afterwards.\<close>

definition open_write :: "resolver \<Rightarrow> string \<Rightarrow> (node option \<Rightarrow> node) \<Rightarrow> host \<Rightarrow> (file_error + unit) \<times> host" where
  "open_write rp s content h =
     (let p = rp s in
      if s = [] then (Inl FileNotFoundError, h)
      else if obstructed h p then (Inl OSError, h)
      else if h_nodes h p = Some Folder then (Inl IsADirectoryError, h)
      else if p \<noteq> [] \<and> h_nodes h (butlast p) \<noteq> Some Folder then (Inl FileNotFoundError, h)
      else if last s = CHR ''/'' then (Inl IsADirectoryError, h)
      else if h_denied h p then (Inl PermissionError, h)
      else (Inr (), h\<lparr>h_nodes := (h_nodes h)(p := Some (content (h_nodes h p)))\<rparr>))"

definition written_text :: "bool \<Rightarrow> string \<Rightarrow> node option \<Rightarrow> node" where
  "written_text add content before_node =
     (if add
      then case before_node of
        Some (Text_File t) \<Rightarrow> Text_File (t @ content)
      | Some Binary_File \<Rightarrow> Binary_File
      | _ \<Rightarrow> Text_File content
      else Text_File content)"

text \<open>\<^verbatim>\<open>os.path.dirname\<close>.\<close>

definition dirname :: "string \<Rightarrow> string" where
  "dirname s =
     (let head = rev (dropWhile (\<lambda>c. c \<noteq> CHR ''/'') (rev s)) in
      if list_all (\<lambda>c. c = CHR ''/'') head then head else rev (dropWhile (\<lambda>c. c = CHR ''/'') (rev head)))"

section \<open>Mappings\<close>

record path_mapping =
  pm_container :: string
  pm_local :: string
  pm_read_only :: bool

definition container_root :: "string \<Rightarrow> string" where
  "container_root c = (let s = rstrip_slashes c in if s = [] then ''/'' else s)"

definition path_under :: "string \<Rightarrow> string \<Rightarrow> bool" where
  "path_under s dir \<longleftrightarrow> s = dir \<or> starts_with s (dir @ ''/'')"

definition mapping_match :: "string \<Rightarrow> path_mapping \<Rightarrow> bool" where
  "mapping_match s m \<longleftrightarrow> (if container_root (pm_container m) = ''/'' then starts_with s ''/'' else path_under s (container_root (pm_container m)))"

definition mapping_relative :: "string \<Rightarrow> path_mapping \<Rightarrow> string" where
  "mapping_relative s m =
     (if container_root (pm_container m) = ''/'' then strip_slashes s else strip_slashes (drop (length (container_root (pm_container m))) s))"

definition find_path_mapping :: "path_mapping list \<Rightarrow> string \<Rightarrow> (path_mapping \<times> string) option" where
  "find_path_mapping ms s =
     (case List.find (mapping_match s) (sort_desc (\<lambda>m. length (container_root (pm_container m))) ms) of
        None \<Rightarrow> None
      | Some m \<Rightarrow> Some (m, mapping_relative s m))"

definition resolve_path_with_mapping :: "resolver \<Rightarrow> path_mapping list \<Rightarrow> string \<Rightarrow> file_error + string \<times> path_mapping option" where
  "resolve_path_with_mapping rp ms s =
     (case find_path_mapping ms s of
        None \<Rightarrow> Inr (s, None)
      | Some (m, relative) \<Rightarrow>
          (let local_root = rp (pm_local m);
               resolved = (if relative \<noteq> [] then rp (path_join (abs_str local_root) relative) else local_root)
           in if relative_to resolved local_root then Inr (abs_str resolved, Some m) else Inl PermissionError))"

definition resolve_path :: "resolver \<Rightarrow> path_mapping list \<Rightarrow> string \<Rightarrow> file_error + string" where
  "resolve_path rp ms s = ebind (resolve_path_with_mapping rp ms s) (\<lambda>(r, _). Inr r)"

text \<open>The mapping whose host directory is the longest above a path.\<close>

definition local_str :: "resolver \<Rightarrow> path_mapping \<Rightarrow> string" where
  "local_str rp m = abs_str (rp (pm_local m))"

definition better_mapping :: "resolver \<Rightarrow> string \<Rightarrow> path_mapping \<Rightarrow> path_mapping option \<Rightarrow> path_mapping option" where
  "better_mapping rp resolved m best =
     (if path_under resolved (local_str rp m) \<and> (case best of None \<Rightarrow> True | Some b \<Rightarrow> length (local_str rp m) > length (local_str rp b))
      then Some m else best)"

definition is_read_only_path :: "resolver \<Rightarrow> path_mapping list \<Rightarrow> string \<Rightarrow> bool" where
  "is_read_only_path rp ms s =
     (case fold (better_mapping rp (abs_str (rp s))) ms None of None \<Rightarrow> False | Some m \<Rightarrow> pm_read_only m)"

definition is_resolved_path_read_only :: "resolver \<Rightarrow> path_mapping list \<Rightarrow> string \<times> path_mapping option \<Rightarrow> bool" where
  "is_resolved_path_read_only rp ms r =
     ((case snd r of Some m \<Rightarrow> pm_read_only m | None \<Rightarrow> False) \<or> is_read_only_path rp ms (fst r))"

section \<open>Paths in texts\<close>

text \<open>\<^verbatim>\<open>pattern.sub(f, s)\<close> for a pattern given by the prefix it matches, never an empty one; the replacement may raise.\<close>

function sub_matches :: "(string \<Rightarrow> string option) \<Rightarrow> (string \<Rightarrow> 'e + string) \<Rightarrow> string \<Rightarrow> 'e + string" where
  "sub_matches m f [] = Inr []"
| "sub_matches m f (c # cs) =
     (case m (c # cs) of
        Some (x # xs) \<Rightarrow> ebind (f (x # xs)) (\<lambda>r. ebind (sub_matches m f (drop (length xs) cs)) (\<lambda>t. Inr (r @ t)))
      | _ \<Rightarrow> ebind (sub_matches m f cs) (\<lambda>t. Inr (c # t)))"
  by pat_completeness auto
termination
  by (relation "measure (\<lambda>(m, f, s). length s)") auto

definition path_stop :: "char \<Rightarrow> bool" where
  "path_stop c \<longleftrightarrow> is_space_char c \<or> c = CHR 0x22 \<or> c = CHR 0x27 \<or> c \<in> set '';&|<>()''"

definition slashed :: "string \<Rightarrow> string" where
  "slashed s = map (\<lambda>c. if c = CHR 0x5C then CHR ''/'' else c) s"

text \<open>A container path in a text: \<^verbatim>\<open>(?=/|$|[^\w./-])(?:/[^\s"';&|<>()]*)?\<close> after the path itself.\<close>

definition match_container :: "string \<Rightarrow> string \<Rightarrow> string option" where
  "match_container container s =
     (if starts_with s container
      then case drop (length container) s of
        [] \<Rightarrow> Some container
      | d # rest \<Rightarrow>
          if d = CHR ''/'' then Some (container @ [d] @ takeWhile (\<lambda>c. \<not> path_stop c) rest)
          else if word_char d \<or> d = CHR ''.'' \<or> d = CHR ''-'' then None
          else Some container
      else None)"

fun first_match :: "(string \<Rightarrow> string option) list \<Rightarrow> string \<Rightarrow> string option" where
  "first_match [] s = None"
| "first_match (m # ms) s = (case m s of Some x \<Rightarrow> Some x | None \<Rightarrow> first_match ms s)"

definition content_pattern :: "path_mapping list \<Rightarrow> string \<Rightarrow> string option" where
  "content_pattern ms = first_match (map (match_container \<circ> pm_container) (sort_desc (\<lambda>m. length (pm_container m)) ms))"

definition resolve_paths_in_content :: "resolver \<Rightarrow> path_mapping list \<Rightarrow> string \<Rightarrow> file_error + string" where
  "resolve_paths_in_content rp ms content =
     (if ms = [] then Inr content
      else sub_matches (content_pattern ms) (\<lambda>x. ebind (resolve_path rp ms x) (\<lambda>r. Inr (slashed r))) content)"

definition by_local :: "path_mapping list \<Rightarrow> path_mapping list" where
  "by_local ms = sort_desc (\<lambda>m. length (pm_local m)) ms"

definition reverse_resolve_path :: "resolver \<Rightarrow> path_mapping list \<Rightarrow> string \<Rightarrow> string" where
  "reverse_resolve_path rp ms s =
     (let p = abs_str (rp (slashed s)) in
      case List.find (\<lambda>m. path_under p (local_str rp m)) (by_local ms) of
        None \<Rightarrow> p
      | Some m \<Rightarrow>
          (let relative = strip_slashes (drop (length (local_str rp m)) p)
           in if relative \<noteq> [] then pm_container m @ ''/'' @ relative else pm_container m))"

definition match_local :: "string \<Rightarrow> string \<Rightarrow> string option" where
  "match_local base s =
     (if starts_with s base
      then case drop (length base) s of
        [] \<Rightarrow> Some base
      | d # rest \<Rightarrow> if d = CHR ''/'' \<or> d = CHR 0x5C then Some (base @ [d] @ takeWhile (\<lambda>c. \<not> path_stop c) rest) else Some base
      else None)"

definition reverse_resolve_paths_in_output :: "resolver \<Rightarrow> path_mapping list \<Rightarrow> string \<Rightarrow> string" where
  "reverse_resolve_paths_in_output rp ms out =
     fold (\<lambda>m t. case sub_matches (match_local (local_str rp m)) (\<lambda>x. Inr (reverse_resolve_path rp ms x) :: file_error + string) t of
             Inr r \<Rightarrow> r | Inl _ \<Rightarrow> t) (by_local ms) out"

section \<open>The sandbox\<close>

record local_sandbox =
  sb_id :: string
  sb_mappings :: "path_mapping list"
  sb_agent_written :: "string list"

definition read_file :: "resolver \<Rightarrow> local_sandbox \<Rightarrow> host \<Rightarrow> string \<Rightarrow> file_error + string" where
  "read_file rp sb h s =
     ebind (resolve_path rp (sb_mappings sb) s) (\<lambda>r.
     ebind (open_read rp h r) (\<lambda>content.
     Inr (if r \<in> set (sb_agent_written sb) then reverse_resolve_paths_in_output rp (sb_mappings sb) content else content)))"

text \<open>What a call leaves: its outcome, the sandbox and the host. Folders that were made stay when the call fails later.\<close>

type_synonym 'a file_call = "(file_error + 'a) \<times> local_sandbox \<times> host"

definition write_resolved :: "resolver \<Rightarrow> local_sandbox \<Rightarrow> host \<Rightarrow> string \<Rightarrow> (file_error + (node option \<Rightarrow> node)) \<Rightarrow> (file_error + unit) \<times> host" where
  "write_resolved rp sb h s content =
     (case resolve_path_with_mapping rp (sb_mappings sb) s of
        Inl e \<Rightarrow> (Inl e, h)
      | Inr r \<Rightarrow>
          if is_resolved_path_read_only rp (sb_mappings sb) r then (Inl OSError, h)
          else
            (case (if dirname (fst r) = [] then (Inr (), h) else makedirs rp (dirname (fst r)) h) of
               (Inl e, h) \<Rightarrow> (Inl e, h)
             | (Inr _, h) \<Rightarrow> (case content of Inl e \<Rightarrow> (Inl e, h) | Inr new \<Rightarrow> open_write rp (fst r) new h)))"

definition note_written :: "resolver \<Rightarrow> string \<Rightarrow> local_sandbox \<Rightarrow> local_sandbox" where
  "note_written rp s sb =
     (case resolve_path rp (sb_mappings sb) s of Inr r \<Rightarrow> sb\<lparr>sb_agent_written := List.insert r (sb_agent_written sb)\<rparr> | Inl _ \<Rightarrow> sb)"

definition write_file :: "resolver \<Rightarrow> string \<Rightarrow> string \<Rightarrow> bool \<Rightarrow> local_sandbox \<Rightarrow> host \<Rightarrow> unit file_call" where
  "write_file rp s content add sb h =
     (case write_resolved rp sb h s
             (ebind (resolve_paths_in_content rp (sb_mappings sb) content) (\<lambda>t. Inr (written_text add t))) of
        (Inl e, h) \<Rightarrow> (Inl e, sb, h)
      | (Inr _, h) \<Rightarrow> (Inr (), note_written rp s sb, h))"

definition update_file :: "resolver \<Rightarrow> string \<Rightarrow> node \<Rightarrow> local_sandbox \<Rightarrow> host \<Rightarrow> unit file_call" where
  "update_file rp s bytes sb h = (case write_resolved rp sb h s (Inr (\<lambda>_. bytes)) of (r, h) \<Rightarrow> (r, sb, h))"

end
