(* ===== verification/Sandbox_Provider.thy ===== *)
theory Sandbox_Provider
  imports Local_Sandbox
begin

text \<open>
  The provider of local sandboxes, \<^verbatim>\<open>sandbox/local/local_sandbox_provider.py\<close>: the mappings every sandbox has, those of a thread, and the
  cache of sandboxes by user and thread. Which paths exist on the host when the mappings are made is an argument.
\<close>

section \<open>Mappings\<close>

record mount_config =
  mt_host :: string
  mt_container :: string
  mt_read_only :: bool

record sandbox_settings =
  ss_skills_path :: string
  ss_skills_container :: string
  ss_mounts :: "mount_config list"

definition acp_workspace_prefix :: string where "acp_workspace_prefix = ''/mnt/acp-workspace''"

definition reserved_prefixes :: "sandbox_settings \<Rightarrow> string list" where
  "reserved_prefixes ss =
     [ss_skills_container ss @ ''/public'', ss_skills_container ss @ ''/custom'', ss_skills_container ss @ ''/legacy'',
      acp_workspace_prefix, virtual_path_prefix]"

definition mount_mapping :: "resolver \<Rightarrow> (string \<Rightarrow> bool) \<Rightarrow> sandbox_settings \<Rightarrow> mount_config \<Rightarrow> path_mapping option" where
  "mount_mapping rp ex ss m =
     (let c = container_root (mt_container m) in
      if \<not> starts_with (mt_host m) ''/'' then None
      else if \<not> starts_with c ''/'' then None
      else if list_ex (path_under c) (reserved_prefixes ss) then None
      else if ex (mt_host m) then Some \<lparr>pm_container = c, pm_local = abs_str (rp (mt_host m)), pm_read_only = mt_read_only m\<rparr>
      else None)"

definition setup_path_mappings :: "resolver \<Rightarrow> (string \<Rightarrow> bool) \<Rightarrow> sandbox_settings \<Rightarrow> path_mapping list" where
  "setup_path_mappings rp ex ss =
     (let public_skills = path_join (ss_skills_path ss) ''public'' in
      (if ex public_skills
       then [\<lparr>pm_container = ss_skills_container ss @ ''/public'', pm_local = public_skills, pm_read_only = True\<rparr>] else []) @
      List.map_filter (mount_mapping rp ex ss) (ss_mounts ss))"

definition writable_mapping :: "string \<Rightarrow> path \<Rightarrow> path_mapping" where
  "writable_mapping c p = \<lparr>pm_container = c, pm_local = abs_str p, pm_read_only = False\<rparr>"

text \<open>Making the directories is left out; it fails for the identifiers for which the paths fail. Whether the user should see the skills of
  the time before users is an argument.\<close>

definition build_thread_path_mappings ::
  "path \<Rightarrow> (string \<Rightarrow> bool) \<Rightarrow> (string \<Rightarrow> bool) \<Rightarrow> sandbox_settings \<Rightarrow> string \<Rightarrow> string \<Rightarrow> path_error + path_mapping list" where
  "build_thread_path_mappings base ex sees_legacy ss tid uid =
     ebind (sandbox_user_data_dir base tid (Some uid)) (\<lambda>user_data.
     ebind (sandbox_work_dir base tid (Some uid)) (\<lambda>work.
     ebind (sandbox_uploads_dir base tid (Some uid)) (\<lambda>uploads.
     ebind (sandbox_outputs_dir base tid (Some uid)) (\<lambda>outputs.
     ebind (acp_workspace_dir base tid (Some uid)) (\<lambda>acp.
     ebind (user_custom_skills_dir base uid) (\<lambda>custom.
     let legacy_skills = path_join (ss_skills_path ss) ''custom'' in
     Inr ([writable_mapping virtual_path_prefix user_data,
           writable_mapping (virtual_path_prefix @ ''/workspace'') work,
           writable_mapping (virtual_path_prefix @ ''/uploads'') uploads,
           writable_mapping (virtual_path_prefix @ ''/outputs'') outputs,
           writable_mapping acp_workspace_prefix acp,
           \<lparr>pm_container = ss_skills_container ss @ ''/custom'', pm_local = abs_str custom, pm_read_only = True\<rparr>] @
          (if sees_legacy uid \<and> ex legacy_skills
           then [\<lparr>pm_container = ss_skills_container ss @ ''/legacy'', pm_local = legacy_skills, pm_read_only = True\<rparr>] else []))))))))"

section \<open>The cache\<close>

record sandbox_provider =
  sp_static :: "path_mapping list"
  sp_generic :: "local_sandbox option"
  sp_threads :: "(string \<times> string, local_sandbox) dict"
  sp_max_cached :: int

definition new_provider :: "resolver \<Rightarrow> (string \<Rightarrow> bool) \<Rightarrow> sandbox_settings \<Rightarrow> int \<Rightarrow> sandbox_provider" where
  "new_provider rp ex ss limit = \<lparr>sp_static = setup_path_mappings rp ex ss, sp_generic = None, sp_threads = [], sp_max_cached = limit\<rparr>"

definition sandbox_id_for_thread :: "string \<Rightarrow> string \<Rightarrow> string" where
  "sandbox_id_for_thread tid uid = ''local:'' @ uid @ '':'' @ tid"

definition key_from_sandbox_id :: "string \<Rightarrow> (string \<times> string) option" where
  "key_from_sandbox_id sid =
     (if \<not> starts_with sid ''local:'' then None
      else
        let v = drop (length ''local:'') sid; uid = takeWhile (\<lambda>c. c \<noteq> CHR '':'') v; tid = drop (Suc (length uid)) v in
        if length uid = length v \<or> uid = [] \<or> tid = [] then None else Some (uid, tid))"

definition new_sandbox :: "string \<Rightarrow> path_mapping list \<Rightarrow> local_sandbox" where
  "new_sandbox sid ms = \<lparr>sb_id = sid, sb_mappings = ms, sb_agent_written = []\<rparr>"

definition move_to_end :: "'k \<Rightarrow> 'v \<Rightarrow> ('k, 'v) dict \<Rightarrow> ('k, 'v) dict" where
  "move_to_end k v d = dpop k d @ [(k, v)]"

fun evict_until_within_cap :: "int \<Rightarrow> ('k, 'v) dict \<Rightarrow> ('k, 'v) dict" where
  "evict_until_within_cap limit [] = []"
| "evict_until_within_cap limit (kv # d) = (if int (length (kv # d)) > limit then evict_until_within_cap limit d else kv # d)"

text \<open>The two regions of \<^verbatim>\<open>acquire\<close> under the lock, before and after the mappings are made.\<close>

definition acquire_cached :: "string \<Rightarrow> string \<Rightarrow> sandbox_provider \<Rightarrow> (string \<times> sandbox_provider) option" where
  "acquire_cached tid uid sp =
     (case dget (sp_threads sp) (uid, tid) of
        None \<Rightarrow> None
      | Some sb \<Rightarrow> Some (sb_id sb, sp\<lparr>sp_threads := move_to_end (uid, tid) sb (sp_threads sp)\<rparr>))"

definition acquire_built :: "string \<Rightarrow> string \<Rightarrow> path_mapping list \<Rightarrow> sandbox_provider \<Rightarrow> string \<times> sandbox_provider" where
  "acquire_built tid uid thread_mappings sp =
     (case acquire_cached tid uid sp of
        Some r \<Rightarrow> r
      | None \<Rightarrow>
          (let sb = new_sandbox (sandbox_id_for_thread tid uid) (sp_static sp @ thread_mappings)
           in (sb_id sb, sp\<lparr>sp_threads := evict_until_within_cap (sp_max_cached sp) (dset (uid, tid) sb (sp_threads sp))\<rparr>)))"

definition acquire_generic :: "sandbox_provider \<Rightarrow> string \<times> sandbox_provider" where
  "acquire_generic sp =
     (case sp_generic sp of
        Some sb \<Rightarrow> (sb_id sb, sp)
      | None \<Rightarrow> (''local'', sp\<lparr>sp_generic := Some (new_sandbox ''local'' (sp_static sp))\<rparr>))"

text \<open>\<^verbatim>\<open>acquire\<close> for a thread; \<open>meanwhile\<close> is what other callers do while the mappings are made.\<close>

definition acquire ::
  "path \<Rightarrow> (string \<Rightarrow> bool) \<Rightarrow> (string \<Rightarrow> bool) \<Rightarrow> sandbox_settings \<Rightarrow> string \<Rightarrow> string \<Rightarrow> (sandbox_provider \<Rightarrow> sandbox_provider) \<Rightarrow>
   sandbox_provider \<Rightarrow> (path_error + string) \<times> sandbox_provider" where
  "acquire base ex sees_legacy ss tid uid meanwhile sp =
     (case acquire_cached tid uid sp of
        Some (sid, sp) \<Rightarrow> (Inr sid, sp)
      | None \<Rightarrow>
          (case build_thread_path_mappings base ex sees_legacy ss tid uid of
             Inl e \<Rightarrow> (Inl e, meanwhile sp)
           | Inr ms \<Rightarrow> (case acquire_built tid uid ms (meanwhile sp) of (sid, sp) \<Rightarrow> (Inr sid, sp))))"

definition get_sandbox :: "string \<Rightarrow> sandbox_provider \<Rightarrow> local_sandbox option \<times> sandbox_provider" where
  "get_sandbox sid sp =
     (if sid = ''local''
      then (case sp_generic sp of
              Some sb \<Rightarrow> (Some sb, sp)
            | None \<Rightarrow> (let sp' = snd (acquire_generic sp) in (sp_generic sp', sp')))
      else case key_from_sandbox_id sid of
        None \<Rightarrow> (None, sp)
      | Some key \<Rightarrow>
          (case dget (sp_threads sp) key of
             None \<Rightarrow> (None, sp)
           | Some sb \<Rightarrow> (Some sb, sp\<lparr>sp_threads := move_to_end key sb (sp_threads sp)\<rparr>)))"

definition reset_provider :: "sandbox_provider \<Rightarrow> sandbox_provider" where
  "reset_provider sp = sp\<lparr>sp_generic := None, sp_threads := []\<rparr>"

section \<open>Sandboxes of other threads\<close>

text \<open>The regions under the lock as steps; a sandbox in use may note what it wrote.\<close>

inductive provider_step :: "path \<Rightarrow> sandbox_settings \<Rightarrow> sandbox_provider \<Rightarrow> sandbox_provider \<Rightarrow> bool" for base ss where
  provider_hit: "acquire_cached tid uid sp = Some (sid, sp') \<Longrightarrow> provider_step base ss sp sp'"
| provider_built: "build_thread_path_mappings base ex sees_legacy ss tid uid = Inr ms \<Longrightarrow> provider_step base ss sp (snd (acquire_built tid uid ms sp))"
| provider_generic: "provider_step base ss sp (snd (acquire_generic sp))"
| provider_get: "provider_step base ss sp (snd (get_sandbox sid sp))"
| provider_reset: "provider_step base ss sp (reset_provider sp)"
| provider_use: "dget (sp_threads sp) key = Some sb \<Longrightarrow> sb_id sb' = sb_id sb \<Longrightarrow> sb_mappings sb' = sb_mappings sb \<Longrightarrow>
    provider_step base ss sp (sp\<lparr>sp_threads := dset key sb' (sp_threads sp)\<rparr>)"
| provider_use_generic: "sp_generic sp = Some sb \<Longrightarrow> sb_id sb' = sb_id sb \<Longrightarrow> sb_mappings sb' = sb_mappings sb \<Longrightarrow>
    provider_step base ss sp (sp\<lparr>sp_generic := Some sb'\<rparr>)"

definition own_sandbox :: "path \<Rightarrow> sandbox_settings \<Rightarrow> path_mapping list \<Rightarrow> string \<times> string \<Rightarrow> local_sandbox \<Rightarrow> bool" where
  "own_sandbox base ss static key sb \<longleftrightarrow>
     sb_id sb = sandbox_id_for_thread (snd key) (fst key) \<and>
     (\<exists>ex sees_legacy ms. build_thread_path_mappings base ex sees_legacy ss (snd key) (fst key) = Inr ms \<and> sb_mappings sb = static @ ms)"

definition provider_inv :: "path \<Rightarrow> sandbox_settings \<Rightarrow> path_mapping list \<Rightarrow> int \<Rightarrow> sandbox_provider \<Rightarrow> bool" where
  "provider_inv base ss static limit sp \<longleftrightarrow>
     sp_static sp = static \<and> sp_max_cached sp = limit \<and> wf_dict (sp_threads sp) \<and> int (length (sp_threads sp)) \<le> limit \<and>
     (\<forall>(key, sb)\<in>set (sp_threads sp). own_sandbox base ss static key sb) \<and>
     (\<forall>sb. sp_generic sp = Some sb \<longrightarrow> sb_id sb = ''local'' \<and> sb_mappings sb = static)"

lemma evict_drop: "\<exists>n. evict_until_within_cap limit d = drop n d"
proof (induction d)
  case (Cons kv d)
  then obtain n where "evict_until_within_cap limit d = drop n d" ..
  then show ?case by (auto intro: exI [of _ "Suc n"] exI [of _ "0::nat"])
qed simp

lemma evict_length: "0 \<le> limit \<Longrightarrow> int (length (evict_until_within_cap limit d)) \<le> limit"
  by (induction d) auto

lemma evict_keeps_last: "1 \<le> limit \<Longrightarrow> x \<in> set (evict_until_within_cap limit (d @ [x]))"
  by (induction d) auto

lemma wf_dict_drop: "wf_dict d \<Longrightarrow> wf_dict (drop n d)"
  by (simp add: wf_dict_def flip: drop_map)

lemma move_to_end_same:
  assumes "wf_dict d" "dget d k = Some v"
  shows "set (move_to_end k v d) = set d" "wf_dict (move_to_end k v d)" "length (move_to_end k v d) = length d"
proof -
  from assms(2) have kv: "(k, v) \<in> set d" by (rule map_of_SomeD)
  show "wf_dict (move_to_end k v d)" using assms(1) by (auto simp: move_to_end_def wf_dict_def dkeys_dpop distinct_delete)
  moreover have s: "set (move_to_end k v d) = set d"
    using kv assms(1) by (auto simp: move_to_end_def AList.delete_eq wf_dict_def dest: eq_key_imp_eq_value)
  then show "set (move_to_end k v d) = set d" .
  ultimately show "length (move_to_end k v d) = length d"
    using assms(1) unfolding wf_dict_def by (metis distinct_card distinct_map)
qed

lemma provider_inv_moved:
  assumes "provider_inv base ss static limit sp" "dget (sp_threads sp) key = Some sb"
  shows "provider_inv base ss static limit (sp\<lparr>sp_threads := move_to_end key sb (sp_threads sp)\<rparr>)"
proof -
  have "wf_dict (sp_threads sp)" using assms(1) by (simp add: provider_inv_def)
  from move_to_end_same [OF this assms(2)] assms(1) show ?thesis by (simp add: provider_inv_def)
qed

lemma provider_inv_built:
  assumes inv: "provider_inv base ss static limit sp" and built: "build_thread_path_mappings base ex sees_legacy ss tid uid = Inr ms"
  shows "provider_inv base ss static limit (snd (acquire_built tid uid ms sp))"
proof (cases "dget (sp_threads sp) (uid, tid)")
  case (Some sb)
  with provider_inv_moved [OF inv Some] show ?thesis by (simp add: acquire_built_def acquire_cached_def)
next
  case None
  let ?sb = "new_sandbox (sandbox_id_for_thread tid uid) (static @ ms)"
  obtain n where n: "evict_until_within_cap limit (dset (uid, tid) ?sb (sp_threads sp)) = drop n (dset (uid, tid) ?sb (sp_threads sp))"
    using evict_drop by blast
  have own: "own_sandbox base ss static (uid, tid) ?sb" using built by (auto simp: own_sandbox_def new_sandbox_def)
  have "0 \<le> limit" using inv by (simp add: provider_inv_def)
  have "wf_dict (drop n (dset (uid, tid) ?sb (sp_threads sp)))" using inv by (simp add: provider_inv_def wf_dict_drop)
  moreover have "\<forall>(key, sb)\<in>set (drop n (dset (uid, tid) ?sb (sp_threads sp))). own_sandbox base ss static key sb"
    using inv own set_dset_subset [of "(uid, tid)" ?sb "sp_threads sp"] unfolding provider_inv_def by (blast dest: in_set_dropD)
  ultimately show ?thesis using None inv n evict_length [OF \<open>0 \<le> limit\<close>, of "dset (uid, tid) ?sb (sp_threads sp)"]
    by (simp add: acquire_built_def acquire_cached_def Let_def provider_inv_def)
qed

lemma provider_inv_generic: "provider_inv base ss static limit sp \<Longrightarrow> provider_inv base ss static limit (snd (acquire_generic sp))"
  by (auto simp: acquire_generic_def provider_inv_def new_sandbox_def split: option.splits)

lemma provider_inv_get: "provider_inv base ss static limit sp \<Longrightarrow> provider_inv base ss static limit (snd (get_sandbox sid sp))"
  by (auto simp: get_sandbox_def Let_def provider_inv_generic provider_inv_moved split: option.split)

interpretation provider: invariant_system "provider_step base ss" "provider_inv base ss static limit" for base ss static limit
proof
  fix s t
  assume inv: "provider_inv base ss static limit s" and step: "provider_step base ss s t"
  from step inv show "provider_inv base ss static limit t"
  proof (cases rule: provider_step.cases)
    case (provider_hit tid uid sid)
    with inv provider_inv_moved show ?thesis by (auto simp: acquire_cached_def split: option.splits)
  next
    case (provider_use key sb sb')
    then have "own_sandbox base ss static key sb'" using inv by (auto simp: provider_inv_def own_sandbox_def dest!: map_of_SomeD)
    moreover have "length (dset key sb' (sp_threads s)) = length (sp_threads s)"
      using dkeys_dset [of key sb' "sp_threads s"] provider_use(2) by (metis length_map option.distinct(1))
    ultimately show ?thesis using inv provider_use(1) set_dset_subset [of key sb' "sp_threads s"] by (fastforce simp: provider_inv_def)
  qed (auto simp: provider_inv_built provider_inv_generic provider_inv_get, auto simp: provider_inv_def reset_provider_def)
qed

lemma path_id_no_colon: "path_id s \<Longrightarrow> CHR '':'' \<notin> set s"
proof
  assume p: "path_id s" and c: "CHR '':'' \<in> set s"
  let ?t = "if s \<noteq> [] \<and> last s = CHR 0x0A then butlast s else s"
  have "CHR '':'' \<in> set ?t"
    using c by (cases s rule: rev_cases) auto
  with p have "path_id_char (CHR '':'')" by (auto simp: path_id_def Let_def list_all_iff)
  then show False by (simp add: path_id_char_def is_upper_char_def is_lower_char_def is_digit_char_def in_range_def char_code_def)
qed

lemma built_ids:
  assumes "build_thread_path_mappings base ex sees_legacy ss tid uid = Inr ms" shows "path_id tid" "path_id uid"
proof -
  from assms obtain d where "thread_dir base tid (Some uid) = Inr d"
    by (auto simp: build_thread_path_mappings_def sandbox_user_data_dir_def below_def err_simps)
  then show "path_id tid" "path_id uid" by (auto simp: thread_dir_Inr)
qed

lemma path_id_nonempty: "path_id s \<Longrightarrow> s \<noteq> []"
  by (auto simp: path_id_def)

lemma key_of_thread_id: "path_id tid \<Longrightarrow> path_id uid \<Longrightarrow> key_from_sandbox_id (sandbox_id_for_thread tid uid) = Some (uid, tid)"
proof -
  assume t: "path_id tid" and u: "path_id uid"
  have "takeWhile (\<lambda>c. c \<noteq> CHR '':'') (uid @ CHR '':'' # tid) = uid"
    using path_id_no_colon [OF u] by (subst takeWhile_append2) auto
  then show ?thesis using path_id_nonempty [OF t] path_id_nonempty [OF u]
    by (simp add: key_from_sandbox_id_def sandbox_id_for_thread_def)
qed

lemma starts_with_split: "starts_with s p \<Longrightarrow> s = p @ drop (length p) s"
  by (induction s p rule: starts_with.induct) auto

lemma key_from_id_inverse: "key_from_sandbox_id sid = Some (uid, tid) \<Longrightarrow> sid = sandbox_id_for_thread tid uid"
proof -
  assume k: "key_from_sandbox_id sid = Some (uid, tid)"
  then have l: "starts_with sid ''local:''" by (auto simp: key_from_sandbox_id_def split: if_splits)
  then obtain v where v: "sid = ''local:'' @ v" using starts_with_split by blast
  have d: "drop (length ''local:'') sid = v" by (simp add: v)
  define w where "w = takeWhile (\<lambda>c. c \<noteq> CHR '':'') v"
  have "key_from_sandbox_id sid = (if length w = length v \<or> w = [] \<or> drop (Suc (length w)) v = [] then None else Some (w, drop (Suc (length w)) v))"
    by (simp only: key_from_sandbox_id_def l d Let_def if_False not_True_eq_False w_def)
  with k have "uid = w" "tid = drop (Suc (length uid)) v" "length uid \<noteq> length v" by (auto split: if_splits)
  then have u: "uid = takeWhile (\<lambda>c. c \<noteq> CHR '':'') v" "tid = drop (Suc (length uid)) v" "length uid \<noteq> length v" by (simp_all add: w_def)
  let ?rest = "dropWhile (\<lambda>c. c \<noteq> CHR '':'') v"
  have s: "v = uid @ ?rest" by (simp add: u(1))
  have n: "?rest \<noteq> []"
  proof
    assume "?rest = []"
    with s have "v = uid" by (simp only: append_Nil2)
    with u(3) show False by simp
  qed
  then obtain x ws where x: "?rest = x # ws" by (cases ?rest) auto
  with hd_dropWhile [OF n] have w: "?rest = CHR '':'' # ws" by simp
  have "drop (Suc (length uid)) (uid @ CHR '':'' # ws) = ws" by simp
  with s w u(2) have "tid = ws" by simp
  with s w v show ?thesis by (simp add: sandbox_id_for_thread_def)
qed

lemma provider_inv_new: "0 \<le> limit \<Longrightarrow> provider_inv base ss (setup_path_mappings rp ex ss) limit (new_provider rp ex ss limit)"
  by (simp add: provider_inv_def new_provider_def)

lemma get_sandbox_own:
  assumes inv: "provider_inv base ss static limit sp" and got: "get_sandbox sid sp = (Some sb, sp')"
  shows "sb_id sb = sid \<and> (sid = ''local'' \<and> sb_mappings sb = static \<or> (\<exists>tid uid. sid = sandbox_id_for_thread tid uid \<and> own_sandbox base ss static (uid, tid) sb))"
proof (cases "sid = ''local''")
  case True
  have "sp_generic sp' = Some sb \<and> provider_inv base ss static limit sp'"
    using got True inv provider_inv_get [OF inv, of sid] by (auto simp: get_sandbox_def Let_def split: option.splits)
  with True show ?thesis by (auto simp: provider_inv_def)
next
  case False
  then obtain key where key: "key_from_sandbox_id sid = Some key" "dget (sp_threads sp) key = Some sb"
    using got by (auto simp: get_sandbox_def split: option.splits)
  obtain uid tid where k: "key = (uid, tid)" by fastforce
  have "own_sandbox base ss static (uid, tid) sb" using inv key(2) k by (auto simp: provider_inv_def dest!: map_of_SomeD)
  with key_from_id_inverse [of sid uid tid] key(1) k show ?thesis by (auto simp: own_sandbox_def)
qed

lemma acquire_found:
  assumes inv: "provider_inv base ss static limit sp" "meanwhile sp = sp2" "provider_inv base ss static limit sp2" and "1 \<le> limit"
    and acq: "acquire base ex sees_legacy ss tid uid meanwhile sp = (Inr sid, sp')"
  shows "sid = sandbox_id_for_thread tid uid \<and> dget (sp_threads sp') (uid, tid) \<noteq> None \<and> path_id tid \<and> path_id uid"
proof -
  have hit: "sid = sandbox_id_for_thread tid uid \<and> dget (sp_threads sp') (uid, tid) \<noteq> None \<and> path_id tid \<and> path_id uid"
    if "acquire_cached tid uid s = Some (sid, sp')" "provider_inv base ss static limit s" for s
  proof -
    from that(1) obtain sb where sb: "dget (sp_threads s) (uid, tid) = Some sb" "sid = sb_id sb" "sp' = s\<lparr>sp_threads := move_to_end (uid, tid) sb (sp_threads s)\<rparr>"
      by (auto simp: acquire_cached_def split: option.splits)
    have "own_sandbox base ss static (uid, tid) sb" using that(2) sb(1) by (auto simp: provider_inv_def dest!: map_of_SomeD)
    with sb built_ids show ?thesis by (auto simp: own_sandbox_def move_to_end_def map_add_Some_iff split: option.splits)
  qed
  show ?thesis
  proof (cases "acquire_cached tid uid sp")
    case (Some r)
    with acq have "acquire_cached tid uid sp = Some (sid, sp')" by (cases r) (simp add: acquire_def)
    with hit inv(1) show ?thesis by blast
  next
    case None
    with acq obtain ms where ms: "build_thread_path_mappings base ex sees_legacy ss tid uid = Inr ms" "acquire_built tid uid ms sp2 = (sid, sp')"
      by (auto simp: acquire_def inv(2) split: sum.splits prod.splits)
    show ?thesis
    proof (cases "acquire_cached tid uid sp2")
      case (Some r)
      with ms(2) have "acquire_cached tid uid sp2 = Some (sid, sp')" by (cases r) (simp add: acquire_built_def)
      with hit inv(3) show ?thesis by blast
    next
      case None
      then have fresh: "dget (sp_threads sp2) (uid, tid) = None" by (auto simp: acquire_cached_def split: option.splits)
      let ?sb = "new_sandbox (sandbox_id_for_thread tid uid) (static @ ms)"
      have lim: "sp_max_cached sp2 = limit" "sp_static sp2 = static" using inv(3) by (simp_all add: provider_inv_def)
      have "(uid, tid) \<in> fst ` set (evict_until_within_cap limit (dset (uid, tid) ?sb (sp_threads sp2)))"
        using evict_keeps_last [OF assms(4), of "((uid, tid), ?sb)" "sp_threads sp2"] dset_fresh [OF fresh] by force
      then have "dget (sp_threads sp') (uid, tid) \<noteq> None" using ms(2) None lim by (auto simp: acquire_built_def Let_def map_of_eq_None_iff)
      with ms None built_ids show ?thesis by (auto simp: acquire_built_def Let_def new_sandbox_def)
    qed
  qed
qed



end
