(* ===== verification/Sandbox_Output.thy ===== *)
theory Sandbox_Output
  imports Agent_Messages
begin

text \<open>
  What the sandbox tools give back to the model, from \<^verbatim>\<open>sandbox/tools.py\<close>: outputs are cut to a number of characters with a note of
  what is missing, secrets that were handed to a command are replaced in its output, and listings are formatted.
\<close>

section \<open>Truncation\<close>

text \<open>The notes that stand for what was cut, each begun on a new line.\<close>

definition middle_marker :: "nat \<Rightarrow> string" where
  "middle_marker skipped = CHR 0x0A # ''... [middle truncated: '' @ nat_str skipped @ '' chars skipped] ...'' @ [CHR 0x0A]"

definition error_marker :: "nat \<Rightarrow> string" where
  "error_marker skipped = CHR 0x0A # ''... [write_file error truncated: '' @ nat_str skipped @ '' chars skipped] ...'' @ [CHR 0x0A]"

definition read_marker :: "nat \<Rightarrow> nat \<Rightarrow> string" where
  "read_marker kept whole =
     CHR 0x0A # ''... [truncated: showing first '' @ nat_str kept @ '' of '' @ nat_str whole @ '' chars. Use start_line/end_line to read a specific range] ...''"

definition ls_marker :: "nat \<Rightarrow> nat \<Rightarrow> string" where
  "ls_marker kept whole =
     CHR 0x0A # ''... [truncated: showing first '' @ nat_str kept @ '' of '' @ nat_str whole @ '' chars. Use a more specific path to see fewer results] ...''"

text \<open>The routines differ in their marker only. A slice \<^verbatim>\<open>output[:max_chars]\<close> with a negative bound counts from the end.\<close>

definition truncate_middle :: "(nat \<Rightarrow> string) \<Rightarrow> string \<Rightarrow> int \<Rightarrow> string" where
  "truncate_middle marker output max_chars =
     (if max_chars = 0 then output
      else if int (length output) \<le> max_chars then output
      else
        let whole = length output; kept = nat (max_chars - int (length (marker whole))) in
        if kept = 0 then slice_to max_chars output
        else
          let head_len = kept div 2; tail_len = kept - head_len
          in take head_len output @ marker (whole - kept) @ (if tail_len > 0 then slice_from (- int tail_len) output else []))"

definition truncate_head :: "(nat \<Rightarrow> nat \<Rightarrow> string) \<Rightarrow> string \<Rightarrow> int \<Rightarrow> string" where
  "truncate_head marker output max_chars =
     (if max_chars = 0 then output
      else if int (length output) \<le> max_chars then output
      else
        let whole = length output; kept = nat (max_chars - int (length (marker whole whole))) in
        if kept = 0 then slice_to max_chars output else take kept output @ marker kept whole)"

definition truncate_bash_output :: "string \<Rightarrow> int \<Rightarrow> string" where "truncate_bash_output = truncate_middle middle_marker"
definition truncate_write_file_error_detail :: "string \<Rightarrow> int \<Rightarrow> string" where "truncate_write_file_error_detail = truncate_middle error_marker"
definition truncate_read_file_output :: "string \<Rightarrow> int \<Rightarrow> string" where "truncate_read_file_output = truncate_head read_marker"
definition truncate_ls_output :: "string \<Rightarrow> int \<Rightarrow> string" where "truncate_ls_output = truncate_head ls_marker"

section \<open>Secrets\<close>

definition secret_redaction :: string where "secret_redaction = ''[redacted]''"
definition min_mask_length :: nat where "min_mask_length = 8"

definition mask_secret_values :: "string \<Rightarrow> (string, string) dict \<Rightarrow> string" where
  "mask_secret_values output injected_env =
     (if injected_env = [] \<or> output = [] then output
      else fold (\<lambda>v out. str_replace v secret_redaction out)
             (sort_desc length (filter (\<lambda>v. v \<noteq> [] \<and> length v \<ge> min_mask_length) (map snd injected_env))) output)"

section \<open>Listings\<close>

definition clamp_max_results :: "int \<Rightarrow> int \<Rightarrow> int \<Rightarrow> int" where
  "clamp_max_results v dflt upper_bound = (if v \<le> 0 then dflt else min v upper_bound)"

definition resolve_max_results :: "int \<Rightarrow> int \<Rightarrow> int \<Rightarrow> int \<Rightarrow> int" where
  "resolve_max_results configured requested dflt upper_bound =
     min (clamp_max_results requested dflt upper_bound) (clamp_max_results configured dflt upper_bound)"

definition showing_first :: "nat \<Rightarrow> bool \<Rightarrow> string" where
  "showing_first n truncated = (if truncated then '' (showing first '' @ nat_str n @ '')'' else [])"

definition format_glob_results :: "string \<Rightarrow> string list \<Rightarrow> bool \<Rightarrow> string" where
  "format_glob_results root_path matches truncated =
     (if matches = [] then ''No files matched under '' @ root_path
      else join_with [CHR 0x0A]
        ([''Found '' @ nat_str (length matches) @ '' paths under '' @ root_path @ showing_first (length matches) truncated] @
         map (\<lambda>(i, path). nat_str i @ ''. '' @ path) (enumerate 1 matches) @
         (if truncated then [''Results truncated. Narrow the path or pattern to see fewer matches.''] else [])))"

record grep_match =
  gm_path :: string
  gm_line_number :: nat
  gm_line :: string

definition format_grep_results :: "string \<Rightarrow> grep_match list \<Rightarrow> bool \<Rightarrow> string" where
  "format_grep_results root_path matches truncated =
     (if matches = [] then ''No matches found under '' @ root_path
      else join_with [CHR 0x0A]
        ([''Found '' @ nat_str (length matches) @ '' matches under '' @ root_path @ showing_first (length matches) truncated] @
         map (\<lambda>m. gm_path m @ '':'' @ nat_str (gm_line_number m) @ '': '' @ gm_line m) matches @
         (if truncated then [''Results truncated. Narrow the path or add a glob filter.''] else [])))"

section \<open>Lengths\<close>

lemma nat_str_length_mono: "m \<le> n \<Longrightarrow> length (nat_str m) \<le> length (nat_str n)"
proof (induction n arbitrary: m rule: less_induct)
  case (less n)
  show ?case
  proof (cases "n < 10")
    case True
    with less.prems show ?thesis by (simp add: nat_str.simps [of m] nat_str.simps [of n])
  next
    case False
    show ?thesis
    proof (cases "m < 10")
      case True
      then show ?thesis by (simp add: nat_str.simps [of m] nat_str.simps [of n])
    next
      case m: False
      have "length (nat_str (m div 10)) \<le> length (nat_str (n div 10))"
        using less.IH [of "n div 10" "m div 10"] less.prems False by (simp add: div_le_mono)
      with False m show ?thesis by (simp add: nat_str.simps [of m] nat_str.simps [of n])
    qed
  qed
qed

lemma slice_to_length: "0 < n \<Longrightarrow> int (length (slice_to n xs)) \<le> n"
  by (simp add: slice_to_def slice_bound_def)

lemma slice_from_length: "0 < t \<Longrightarrow> t \<le> length s \<Longrightarrow> length (slice_from (- int t) s) = t"
  by (simp add: slice_from_def slice_bound_def nat_diff_distrib')

lemma truncate_middle_length:
  assumes "0 < n" and mono: "\<And>a b. a \<le> b \<Longrightarrow> length (marker a) \<le> length (marker b)"
  shows "int (length (truncate_middle marker s n)) \<le> n"
proof -
  define k where "k = nat (n - int (length (marker (length s))))"
  show ?thesis
  proof (cases "int (length s) \<le> n \<or> k = 0")
    case True
    then show ?thesis using assms(1) slice_to_length [of n s] by (auto simp: truncate_middle_def Let_def k_def)
  next
    case False
    then have k: "0 < k" "k < length s" "int k + int (length (marker (length s))) \<le> n"
      unfolding k_def by linarith+
    have "length (marker (length s - k)) \<le> length (marker (length s))" by (rule mono) simp
    moreover have "length (slice_from (- int (k - k div 2)) s) = k - k div 2" using k by (intro slice_from_length) auto
    moreover have "truncate_middle marker s n = take (k div 2) s @ marker (length s - k) @ slice_from (- int (k - k div 2)) s"
      using k False assms(1) by (simp add: truncate_middle_def Let_def flip: k_def)
    ultimately show ?thesis using k by simp
  qed
qed

lemma truncate_head_length:
  assumes "0 < n" and mono: "\<And>a. a \<le> length s \<Longrightarrow> length (marker a (length s)) \<le> length (marker (length s) (length s))"
  shows "int (length (truncate_head marker s n)) \<le> n"
proof -
  let ?k = "nat (n - int (length (marker (length s) (length s))))"
  show ?thesis
  proof (cases "int (length s) \<le> n \<or> ?k = 0")
    case True
    then show ?thesis using assms(1) slice_to_length [of n s] by (auto simp: truncate_head_def Let_def)
  next
    case False
    then have "?k \<le> length s" by linarith
    with mono [of ?k] False assms(1) show ?thesis by (simp add: truncate_head_def Let_def)
  qed
qed

lemma marker_lengths:
  "a \<le> b \<Longrightarrow> length (middle_marker a) \<le> length (middle_marker b)"
  "a \<le> b \<Longrightarrow> length (error_marker a) \<le> length (error_marker b)"
  "a \<le> b \<Longrightarrow> length (read_marker a b) \<le> length (read_marker b b)"
  "a \<le> b \<Longrightarrow> length (ls_marker a b) \<le> length (ls_marker b b)"
  by (simp_all add: middle_marker_def error_marker_def read_marker_def ls_marker_def nat_str_length_mono)

section \<open>Masking\<close>

lemma starts_with_iff: "starts_with s p \<longleftrightarrow> take (length p) s = p"
  by (induction s p rule: starts_with.induct) auto

lemma contains_drop: "str_contains v (drop n s) \<Longrightarrow> str_contains v s"
proof (induction s arbitrary: n)
  case (Cons c s)
  then show ?case by (cases n) auto
qed simp

text \<open>A text without some character cannot reach across it.\<close>

lemma starts_with_across: "c \<notin> set v \<Longrightarrow> starts_with (x @ c # t) v \<longleftrightarrow> starts_with x v"
proof (induction x v rule: starts_with.induct)
  case (2 p ps)
  then show ?case by auto
qed auto

lemma contains_across: "c \<notin> set v \<Longrightarrow> v \<noteq> [] \<Longrightarrow> str_contains v (x @ c # t) \<longleftrightarrow> str_contains v x \<or> str_contains v t"
proof (induction x)
  case Nil
  then show ?case by (cases v) auto
next
  case (Cons a x)
  then show ?case using starts_with_across [of c v "a # x" t] by auto
qed

text \<open>What the marker cannot be part of.\<close>

definition plain_secret :: "string \<Rightarrow> bool" where
  "plain_secret v \<longleftrightarrow> min_mask_length \<le> length v \<and> CHR ''['' \<notin> set v \<and> CHR '']'' \<notin> set v \<and> v \<noteq> ''redacted''"

lemma redaction_split: "secret_redaction @ t = CHR ''['' # ''redacted'' @ CHR '']'' # t"
  by (simp add: secret_redaction_def)

lemma contains_length: "str_contains v s \<Longrightarrow> length v \<le> length s"
proof (induction s)
  case (Cons c s)
  have "length v \<le> length (c # s)" if "starts_with (c # s) v"
    using that length_take [of "length v" "c # s"] by (simp add: starts_with_iff)
  with Cons show ?case by fastforce
qed simp

lemma contains_same_length: "str_contains v s \<Longrightarrow> length v = length s \<Longrightarrow> v = s"
proof (induction s)
  case (Cons c s)
  then show ?case using contains_length [of v s] by (auto simp: starts_with_iff)
qed simp

lemma plain_nonempty: "plain_secret v \<Longrightarrow> v \<noteq> []"
  by (auto simp: plain_secret_def min_mask_length_def)

lemma contains_redaction:
  assumes "plain_secret v" shows "str_contains v (secret_redaction @ t) \<longleftrightarrow> str_contains v t"
proof -
  have v: "CHR ''['' \<notin> set v" "CHR '']'' \<notin> set v" "v \<noteq> []" using assms plain_nonempty by (auto simp: plain_secret_def)
  have no: "\<not> str_contains v ''redacted''"
  proof
    assume c: "str_contains v ''redacted''"
    with contains_length [OF c] assms have "length v = length ''redacted''" by (simp add: plain_secret_def min_mask_length_def)
    with contains_same_length [OF c] assms show False by (simp add: plain_secret_def)
  qed
  have e: "\<not> str_contains v []" using v(3) by simp
  have "str_contains v (secret_redaction @ t) \<longleftrightarrow> str_contains v ([] @ CHR ''['' # (''redacted'' @ CHR '']'' # t))"
    by (simp only: redaction_split append_Nil)
  also have "\<dots> \<longleftrightarrow> str_contains v (''redacted'' @ CHR '']'' # t)" using e by (simp only: contains_across [OF v(1) v(3)] simp_thms)
  also have "\<dots> \<longleftrightarrow> str_contains v t" using no by (simp only: contains_across [OF v(2) v(3)] simp_thms)
  finally show ?thesis .
qed

lemma starts_with_masked: "CHR ''['' \<notin> set u \<Longrightarrow> starts_with (str_replace w secret_redaction s) u \<Longrightarrow> starts_with s u"
proof (induction w secret_redaction s arbitrary: u rule: str_replace.induct)
  case (1 w)
  then show ?case by simp
next
  case (2 w c cs)
  show ?case
  proof (cases "w \<noteq> [] \<and> starts_with (c # cs) w")
    case True
    with 2(3,4) show ?thesis by (cases u) (auto simp: secret_redaction_def)
  next
    case False
    with 2(2) [OF False] 2(3,4) show ?thesis by (cases u) auto
  qed
qed

lemma masking_reveals_nothing:
  "plain_secret v \<Longrightarrow> str_contains v (str_replace w secret_redaction s) \<Longrightarrow> str_contains v s \<and> w \<noteq> v"
proof (induction w secret_redaction s rule: str_replace.induct)
  case (1 w)
  then show ?case using plain_nonempty by auto
next
  case (2 w c cs)
  show ?case
  proof (cases "w \<noteq> [] \<and> starts_with (c # cs) w")
    case True
    with 2(4) have "str_contains v (str_replace w secret_redaction (drop (length w) (c # cs)))"
      by (simp add: contains_redaction [OF 2(3)])
    with 2(1) [OF True 2(3)] contains_drop [of v "length w" "c # cs"] show ?thesis by blast
  next
    case False
    have b: "CHR ''['' \<notin> set v" using 2(3) by (simp add: plain_secret_def)
    from False have e: "str_replace w secret_redaction (c # cs) = c # str_replace w secret_redaction cs" by auto
    consider "starts_with (c # str_replace w secret_redaction cs) v" | "str_contains v (str_replace w secret_redaction cs)"
      using 2(4) e by auto
    then show ?thesis
    proof cases
      case 1
      then have "starts_with (c # cs) v" using starts_with_masked [OF b, of w "c # cs"] e by simp
      with False plain_nonempty [OF 2(3)] show ?thesis by auto
    next
      case 2
      with "2.hyps"(2) [OF False "2.prems"(1)] show ?thesis by simp
    qed
  qed
qed

lemma masked_fold: "plain_secret v \<Longrightarrow> str_contains v (fold (\<lambda>w. str_replace w secret_redaction) ws out) \<Longrightarrow> str_contains v out \<and> v \<notin> set ws"
proof (induction ws arbitrary: out)
  case (Cons w ws)
  from Cons.IH [OF Cons.prems(1)] Cons.prems(2) have c: "str_contains v (str_replace w secret_redaction out)" "v \<notin> set ws" by simp_all
  from masking_reveals_nothing [OF Cons.prems(1) c(1)] c(2) show ?case by auto
qed simp

lemma replace_absent: "\<not> str_contains w s \<Longrightarrow> str_replace w new s = s"
  by (induction w new s rule: str_replace.induct) auto

section \<open>Properties\<close>

text \<open>C29. A secret that was injected into a command does not come back in its output: no value of at least eight characters occurs in the masked
  output, unless it holds a square bracket or is the word of the marker itself. Output in which no long value occurs is not changed.\<close>

theorem secrets_masked:
  assumes "v \<in> set (map snd injected_env)" "8 \<le> length v" "CHR ''['' \<notin> set v" "CHR '']'' \<notin> set v" "v \<noteq> ''redacted''"
  shows "\<not> str_contains v (mask_secret_values raw injected_env) \<and>
    ((\<forall>w\<in>set (map snd injected_env). 8 \<le> length w \<longrightarrow> \<not> str_contains w out) \<longrightarrow> mask_secret_values out injected_env = out)"
proof
  let ?ws = "sort_desc length (filter (\<lambda>v. v \<noteq> [] \<and> length v \<ge> min_mask_length) (map snd injected_env))"
  have p: "plain_secret v" using assms by (simp add: plain_secret_def min_mask_length_def)
  have v: "v \<in> set ?ws" using assms(1,2) plain_nonempty [OF p] by (simp add: sort_desc_def min_mask_length_def)
  have ne: "injected_env \<noteq> []" using assms(1) by auto
  show "\<not> str_contains v (mask_secret_values raw injected_env)"
    using masked_fold [OF p, of ?ws raw] v ne plain_nonempty [OF p] by (auto simp: mask_secret_values_def)
  have same: "fold (\<lambda>w. str_replace w secret_redaction) ws out = out" if "\<forall>w\<in>set ws. \<not> str_contains w out" for ws
    using that by (induction ws) (auto simp: replace_absent)
  show "(\<forall>w\<in>set (map snd injected_env). 8 \<le> length w \<longrightarrow> \<not> str_contains w out) \<longrightarrow> mask_secret_values out injected_env = out"
  proof
    assume "\<forall>w\<in>set (map snd injected_env). 8 \<le> length w \<longrightarrow> \<not> str_contains w out"
    then have "\<forall>w\<in>set ?ws. \<not> str_contains w out" by (auto simp: sort_desc_def min_mask_length_def)
    from same [OF this] show "mask_secret_values out injected_env = out" by (simp add: mask_secret_values_def)
  qed
qed

theorem secrets_masked_witness:
  "\<not> str_contains ''s3cr3t-k3y'' (mask_secret_values ''key: s3cr3t-k3y'' [(''API_KEY'', ''s3cr3t-k3y'')]) \<and>
   mask_secret_values ''done'' [(''API_KEY'', ''s3cr3t-k3y'')] = ''done''"
  using secrets_masked [where v = "''s3cr3t-k3y''" and injected_env = "[(''API_KEY'', ''s3cr3t-k3y'')]" and raw = "''key: s3cr3t-k3y''" and out = "''done''"]
  by simp

text \<open>Output given to the model keeps within the number of characters it is configured with, the note of what was cut included.\<close>

theorem tool_output_bounded:
  assumes "0 < max_chars"
  shows "int (length (truncate_bash_output out max_chars)) \<le> max_chars \<and> int (length (truncate_read_file_output out max_chars)) \<le> max_chars \<and>
    int (length (truncate_ls_output out max_chars)) \<le> max_chars \<and> int (length (truncate_write_file_error_detail out max_chars)) \<le> max_chars"
  unfolding truncate_bash_output_def truncate_read_file_output_def truncate_ls_output_def truncate_write_file_error_detail_def
  by (intro conjI truncate_middle_length truncate_head_length assms marker_lengths)

end
