(* ===== verification/Sandbox_Tools.thy ===== *)
theory Sandbox_Tools
  imports Sandbox_Provider Sandbox_Output
begin

text \<open>
  The file tools of the agent on the local sandbox, \<^verbatim>\<open>sandbox/tools.py\<close>: which virtual paths a tool may use, the host paths they stand for,
  and reading, writing and replacing. The sandbox of the thread is given. What a tool answers when it fails is its exception.
\<close>

section \<open>Kinds of paths\<close>

definition is_skills_path :: "sandbox_settings \<Rightarrow> string \<Rightarrow> bool" where
  "is_skills_path ss s = path_under s (ss_skills_container ss)"

definition skill_categories :: "string list" where "skill_categories = [''public'', ''custom'', ''legacy'']"

definition extract_skill_name_from_skills_path :: "sandbox_settings \<Rightarrow> string \<Rightarrow> string option" where
  "extract_skill_name_from_skills_path ss s =
     (if \<not> is_skills_path ss s then None
      else
        let relative = strip_slashes (drop (length (ss_skills_container ss)) s) in
        if relative = [] then None
        else case split_on (CHR ''/'') relative of
          a # b # _ \<Rightarrow> Some (if a \<in> set skill_categories then b else a)
        | [a] \<Rightarrow> if a \<in> set skill_categories then None else Some a
        | [] \<Rightarrow> None)"

text \<open>The state of skills: their categories and which of them are enabled. \<open>None\<close> stands for a state that could not be read.\<close>

record skill_states =
  sk_category :: "string \<Rightarrow> string option option"
  sk_public_enabled :: "string \<Rightarrow> bool option"
  sk_user_enabled :: "string \<Rightarrow> bool option"

definition is_disabled_skill_path :: "sandbox_settings \<Rightarrow> skill_states \<Rightarrow> string \<Rightarrow> bool" where
  "is_disabled_skill_path ss sk s =
     (case extract_skill_name_from_skills_path ss s of
        None \<Rightarrow> False
      | Some name \<Rightarrow>
          (let relative = strip_slashes (drop (length (ss_skills_container ss)) s);
               enabled = (\<lambda>category. if category = ''public'' then sk_public_enabled sk name else sk_user_enabled sk name);
               denied = (\<lambda>state. case state of None \<Rightarrow> True | Some on \<Rightarrow> \<not> on)
           in if starts_with relative ''public/'' then denied (enabled ''public'')
              else if starts_with relative ''custom/'' then denied (enabled ''custom'')
              else if starts_with relative ''legacy/'' then denied (enabled ''legacy'')
              else case sk_category sk name of
                None \<Rightarrow> True
              | Some None \<Rightarrow> False
              | Some (Some category) \<Rightarrow> denied (enabled category)))"

definition is_acp_workspace_path :: "string \<Rightarrow> bool" where
  "is_acp_workspace_path s = path_under s acp_workspace_prefix"

definition custom_mounts :: "(string \<Rightarrow> bool) \<Rightarrow> sandbox_settings \<Rightarrow> mount_config list" where
  "custom_mounts ex ss = filter (\<lambda>m. ex (mt_host m)) (ss_mounts ss)"

definition is_custom_mount_path :: "mount_config list \<Rightarrow> string \<Rightarrow> bool" where
  "is_custom_mount_path mounts s = list_ex (\<lambda>m. path_under s (mt_container m)) mounts"

definition get_custom_mount_for_path :: "mount_config list \<Rightarrow> string \<Rightarrow> mount_config option" where
  "get_custom_mount_for_path mounts s =
     fold (\<lambda>m best.
         if path_under s (mt_container m) \<and> (case best of None \<Rightarrow> True | Some b \<Rightarrow> length (mt_container m) > length (mt_container b))
         then Some m else best) mounts None"

section \<open>Paths of a thread\<close>

record thread_data =
  td_workspace :: "string option"
  td_uploads :: "string option"
  td_outputs :: "string option"

text \<open>\<^verbatim>\<open>_get_thread_paths\<close> of \<^verbatim>\<open>thread_data_middleware.py\<close>.\<close>

definition get_thread_paths :: "path \<Rightarrow> string \<Rightarrow> string option \<Rightarrow> path_error + thread_data" where
  "get_thread_paths base tid uid =
     ebind (sandbox_work_dir base tid uid) (\<lambda>work. ebind (sandbox_uploads_dir base tid uid) (\<lambda>uploads. ebind (sandbox_outputs_dir base tid uid) (\<lambda>outputs.
     Inr \<lparr>td_workspace = Some (abs_str work), td_uploads = Some (abs_str uploads), td_outputs = Some (abs_str outputs)\<rparr>)))"

definition path_separator_for_style :: "string \<Rightarrow> char" where
  "path_separator_for_style s = (if CHR 0x5C \<in> set s \<and> CHR ''/'' \<notin> set s then CHR 0x5C else CHR ''/'')"

definition either_slash :: "char \<Rightarrow> bool" where "either_slash c \<longleftrightarrow> c = CHR ''/'' \<or> c = CHR 0x5C"

definition join_path_preserving_style :: "string \<Rightarrow> string \<Rightarrow> string" where
  "join_path_preserving_style base relative =
     (if relative = [] then base
      else
        let sep = path_separator_for_style base
        in rev (dropWhile either_slash (rev base)) @ [sep] @ dropWhile either_slash (map (\<lambda>c. if either_slash c then sep else c) relative))"

definition given :: "string option \<Rightarrow> string list" where
  "given p = (case p of Some s \<Rightarrow> if s = [] then [] else [s] | None \<Rightarrow> [])"

definition thread_virtual_to_actual_mappings :: "thread_data \<Rightarrow> (string, string) dict" where
  "thread_virtual_to_actual_mappings td =
     map (Pair (virtual_path_prefix @ ''/workspace'')) (given (td_workspace td)) @
     map (Pair (virtual_path_prefix @ ''/uploads'')) (given (td_uploads td)) @
     map (Pair (virtual_path_prefix @ ''/outputs'')) (given (td_outputs td)) @
     (case given (td_workspace td) @ given (td_uploads td) @ given (td_outputs td) of
        [] \<Rightarrow> []
      | d # ds \<Rightarrow> if list_all (\<lambda>e. path_parent e = path_parent d) (d # ds) then [(virtual_path_prefix, path_parent d)] else [])"

definition ends_slashed :: "string \<Rightarrow> bool" where "ends_slashed s \<longleftrightarrow> s \<noteq> [] \<and> either_slash (last s)"

definition replace_virtual_path :: "string \<Rightarrow> thread_data option \<Rightarrow> string" where
  "replace_virtual_path s td =
     (case td of
        None \<Rightarrow> s
      | Some d \<Rightarrow>
          (case List.find (\<lambda>(virtual, _). path_under s virtual) (sort_desc (\<lambda>(virtual, _). length virtual) (thread_virtual_to_actual_mappings d)) of
             None \<Rightarrow> s
           | Some (virtual, actual) \<Rightarrow>
               if s = virtual then actual
               else
                 let result = join_path_preserving_style actual (strip_slashes (drop (length virtual) s))
                 in if last s = CHR ''/'' \<and> \<not> ends_slashed result then result @ [path_separator_for_style actual] else result))"

section \<open>The checks\<close>

definition reject_path_traversal :: "string \<Rightarrow> file_error + unit" where
  "reject_path_traversal s = (if ''..'' \<in> set (split_on (CHR ''/'') (slashed s)) then Inl PermissionError else Inr ())"

definition validate_local_tool_path ::
  "sandbox_settings \<Rightarrow> mount_config list \<Rightarrow> string \<Rightarrow> thread_data option \<Rightarrow> bool \<Rightarrow> file_error + unit" where
  "validate_local_tool_path ss mounts s td read_only =
     (if td = None then Inl (SandboxError ''Thread data not available for local sandbox'')
      else
        ebind (reject_path_traversal s) (\<lambda>_.
        if is_skills_path ss s then (if read_only then Inr () else Inl PermissionError)
        else if is_acp_workspace_path s then (if read_only then Inr () else Inl PermissionError)
        else if starts_with s (virtual_path_prefix @ ''/'') then Inr ()
        else if is_custom_mount_path mounts s
        then (case get_custom_mount_for_path mounts s of
                Some m \<Rightarrow> if mt_read_only m \<and> \<not> read_only then Inl PermissionError else Inr ()
              | None \<Rightarrow> Inr ())
        else Inl PermissionError))"

definition allowed_roots :: "resolver \<Rightarrow> thread_data \<Rightarrow> path list" where
  "allowed_roots rp td = map rp (List.map_filter id [td_workspace td, td_uploads td, td_outputs td])"

definition validate_resolved_user_data_path :: "resolver \<Rightarrow> path \<Rightarrow> thread_data \<Rightarrow> file_error + unit" where
  "validate_resolved_user_data_path rp resolved td =
     (if allowed_roots rp td = [] then Inl (SandboxError ''No allowed local sandbox directories configured'')
      else if list_ex (relative_to resolved) (allowed_roots rp td) then Inr () else Inl PermissionError)"

definition resolve_and_validate_user_data_path :: "resolver \<Rightarrow> string \<Rightarrow> thread_data \<Rightarrow> file_error + string" where
  "resolve_and_validate_user_data_path rp s td =
     (let resolved = rp (replace_virtual_path s (Some td))
      in ebind (validate_resolved_user_data_path rp resolved td) (\<lambda>_. Inr (abs_str resolved)))"

section \<open>Skills and the workspace of other agents\<close>

text \<open>The directory of skills, the user's own skills and the workspace on the host, where they exist.\<close>

record shared_dirs =
  sd_skills_host :: "string option"
  sd_user_custom :: string
  sd_acp_host :: "string option"

definition resolve_skills_path :: "sandbox_settings \<Rightarrow> shared_dirs \<Rightarrow> string \<Rightarrow> file_error + string" where
  "resolve_skills_path ss sd s =
     (case sd_skills_host sd of
        None \<Rightarrow> Inl FileNotFoundError
      | Some skills_host \<Rightarrow>
          if s = ss_skills_container ss then Inr skills_host
          else
            let relative = strip_slashes (drop (length (ss_skills_container ss)) s) in
            if relative = ''custom'' \<or> starts_with relative ''custom/''
            then let custom_relative = strip_slashes (drop (length ''custom'') relative)
                 in Inr (if custom_relative \<noteq> [] then path_join (sd_user_custom sd) custom_relative else sd_user_custom sd)
            else Inr (join_path_preserving_style skills_host relative))"

text \<open>\<^verbatim>\<open>posixpath.commonpath\<close> of two paths.\<close>

definition commonpath :: "string \<Rightarrow> string \<Rightarrow> string option" where
  "commonpath a b =
     (if starts_with a ''/'' \<noteq> starts_with b ''/'' then None
      else Some ((if starts_with a ''/'' then ''/'' else []) @ join_with ''/'' (longest_common_prefix (path_parts a) (path_parts b))))"

definition resolve_acp_workspace_path :: "resolver \<Rightarrow> shared_dirs \<Rightarrow> string \<Rightarrow> file_error + string" where
  "resolve_acp_workspace_path rp sd s =
     ebind (reject_path_traversal s) (\<lambda>_.
     case sd_acp_host sd of
       None \<Rightarrow> Inl FileNotFoundError
     | Some host_path \<Rightarrow>
         if s = acp_workspace_prefix then Inr host_path
         else
           let resolved = join_path_preserving_style host_path (strip_slashes (drop (length acp_workspace_prefix) s)) in
           if CHR ''/'' \<in> set host_path \<and> CHR 0x5C \<notin> set host_path
           then if commonpath (normpath host_path) (normpath resolved) = Some (normpath host_path) then Inr resolved else Inl PermissionError
           else if relative_to (rp resolved) (rp host_path) then Inr (abs_str (rp resolved)) else Inl PermissionError)"

section \<open>The tools\<close>

text \<open>The part of the agent's state the tools use.\<close>

record tool_runtime =
  rt_thread_data :: "thread_data option"
  rt_directories_created :: bool

fun make_all :: "resolver \<Rightarrow> string list \<Rightarrow> host \<Rightarrow> (file_error + unit) \<times> host" where
  "make_all rp [] h = (Inr (), h)"
| "make_all rp (s # ss) h = (case makedirs rp s h of (Inl e, h) \<Rightarrow> (Inl e, h) | (Inr _, h) \<Rightarrow> make_all rp ss h)"

definition ensure_thread_directories_exist :: "resolver \<Rightarrow> tool_runtime \<Rightarrow> host \<Rightarrow> (file_error + unit) \<times> tool_runtime \<times> host" where
  "ensure_thread_directories_exist rp rt h =
     (case rt_thread_data rt of
        None \<Rightarrow> (Inr (), rt, h)
      | Some td \<Rightarrow>
          if rt_directories_created rt then (Inr (), rt, h)
          else
            (case make_all rp (given (td_workspace td) @ given (td_uploads td) @ given (td_outputs td)) h of
               (Inl e, h) \<Rightarrow> (Inl e, rt, h)
             | (Inr _, h) \<Rightarrow> (Inr (), rt\<lparr>rt_directories_created := True\<rparr>, h)))"

definition read_target ::
  "resolver \<Rightarrow> sandbox_settings \<Rightarrow> mount_config list \<Rightarrow> shared_dirs \<Rightarrow> thread_data option \<Rightarrow> string \<Rightarrow> file_error + string" where
  "read_target rp ss mounts sd td s =
     ebind (validate_local_tool_path ss mounts s td True) (\<lambda>_.
     if is_skills_path ss s then resolve_skills_path ss sd s
     else if is_acp_workspace_path s then resolve_acp_workspace_path rp sd s
     else if is_custom_mount_path mounts s then Inr s
     else case td of Some d \<Rightarrow> resolve_and_validate_user_data_path rp s d | None \<Rightarrow> Inl (SandboxError ''Thread data not available for local sandbox''))"

definition read_current_file_content ::
  "resolver \<Rightarrow> sandbox_settings \<Rightarrow> mount_config list \<Rightarrow> shared_dirs \<Rightarrow> string \<Rightarrow> tool_runtime \<Rightarrow> local_sandbox \<Rightarrow> host \<Rightarrow>
   (file_error + string) \<times> tool_runtime \<times> host" where
  "read_current_file_content rp ss mounts sd s rt sb h =
     (case ensure_thread_directories_exist rp rt h of
        (Inl e, rt, h) \<Rightarrow> (Inl e, rt, h)
      | (Inr _, rt, h) \<Rightarrow> (ebind (read_target rp ss mounts sd (rt_thread_data rt) s) (read_file rp sb h), rt, h))"

definition disabled_skill_message :: "string \<Rightarrow> string" where
  "disabled_skill_message name =
     ''Error: Skill '' @ [CHR 0x27] @ name @ [CHR 0x27] @ '' is disabled. Access to its files is blocked. Enable the skill in settings before using it.''"

definition select_lines :: "int option \<Rightarrow> int option \<Rightarrow> string \<Rightarrow> string" where
  "select_lines start_line end_line content =
     (case (start_line, end_line) of
        (Some a, Some b) \<Rightarrow> join_with [CHR 0x0A] (slice (a - 1) b (splitlines content))
      | _ \<Rightarrow> content)"

definition read_file_tool ::
  "resolver \<Rightarrow> sandbox_settings \<Rightarrow> mount_config list \<Rightarrow> shared_dirs \<Rightarrow> skill_states \<Rightarrow> int \<Rightarrow> string \<Rightarrow> int option \<Rightarrow> int option \<Rightarrow> tool_runtime \<Rightarrow> local_sandbox \<Rightarrow>
   host \<Rightarrow> (file_error + string) \<times> tool_runtime \<times> host" where
  "read_file_tool rp ss mounts sd sk max_chars s start_line end_line rt sb h =
     (if is_disabled_skill_path ss sk s
      then (Inr (disabled_skill_message (case extract_skill_name_from_skills_path ss s of Some (c # cs) \<Rightarrow> c # cs | _ \<Rightarrow> ''unknown'')), rt, h)
      else
        (case read_current_file_content rp ss mounts sd s rt sb h of
           (Inl e, rt, h) \<Rightarrow> (Inl e, rt, h)
         | (Inr content, rt, h) \<Rightarrow>
             (Inr (if content = [] then ''(empty)'' else truncate_read_file_output (select_lines start_line end_line content) max_chars), rt, h)))"

text \<open>What writing and replacing share: where they write. The sandbox resolves paths of custom mounts itself.\<close>

definition write_target :: "resolver \<Rightarrow> sandbox_settings \<Rightarrow> mount_config list \<Rightarrow> thread_data option \<Rightarrow> string \<Rightarrow> file_error + string" where
  "write_target rp ss mounts td s =
     ebind (validate_local_tool_path ss mounts s td False) (\<lambda>_.
     if is_custom_mount_path mounts s then Inr s
     else case td of Some d \<Rightarrow> resolve_and_validate_user_data_path rp s d | None \<Rightarrow> Inl (SandboxError ''Thread data not available for local sandbox''))"

definition utf8_length :: "string \<Rightarrow> nat" where
  "utf8_length s = sum_list (map (\<lambda>c. if char_code c < 128 then 1 else 2) s)"

definition write_file_content_max_bytes :: int where "write_file_content_max_bytes = 81920"

definition effective_write_file_max_bytes :: "string option \<Rightarrow> int" where
  "effective_write_file_max_bytes raw =
     (case raw of None \<Rightarrow> write_file_content_max_bytes
      | Some r \<Rightarrow> (case parse_int r of Some n \<Rightarrow> n | None \<Rightarrow> write_file_content_max_bytes))"

definition oversized :: "int \<Rightarrow> string \<Rightarrow> string" where
  "oversized max_bytes content =
     ''Error: write_file content ('' @ nat_str (utf8_length content) @ '' bytes) exceeds the '' @ int_str max_bytes @ ''-byte single-call limit. Split the content into smaller pieces: either (a) write the first section now, then use `str_replace` for further edits, or (b) call write_file again with append=True carrying the next section. See SIZE POLICY in the tool docstring or issue #3189 for the rationale.''"

type_synonym 'a tool_call_result = "(file_error + 'a) \<times> tool_runtime \<times> local_sandbox \<times> host"

definition write_file_tool ::
  "resolver \<Rightarrow> sandbox_settings \<Rightarrow> mount_config list \<Rightarrow> string option \<Rightarrow> string \<Rightarrow> string \<Rightarrow> bool \<Rightarrow> tool_runtime \<Rightarrow> local_sandbox \<Rightarrow> host \<Rightarrow> string tool_call_result" where
  "write_file_tool rp ss mounts max_env s content add rt sb h =
     (let max_bytes = effective_write_file_max_bytes max_env in
      if \<not> add \<and> max_bytes > 0 \<and> int (utf8_length content) > max_bytes then (Inr (oversized max_bytes content), rt, sb, h)
      else
        (case ensure_thread_directories_exist rp rt h of
           (Inl e, rt, h) \<Rightarrow> (Inl e, rt, sb, h)
         | (Inr _, rt, h) \<Rightarrow>
             (case write_target rp ss mounts (rt_thread_data rt) s of
                Inl e \<Rightarrow> (Inl e, rt, sb, h)
              | Inr target \<Rightarrow>
                  (case write_file rp target content add sb h of
                     (Inl e, sb, h) \<Rightarrow> (Inl e, rt, sb, h)
                   | (Inr _, sb, h) \<Rightarrow> (Inr ''OK'', rt, sb, h)))))"

text \<open>\<^verbatim>\<open>s.replace(old, new)\<close> and \<^verbatim>\<open>s.replace(old, new, 1)\<close>, also for an empty \<^verbatim>\<open>old\<close>, which occurs before every character and at the end.\<close>

definition replace_every :: "string \<Rightarrow> string \<Rightarrow> string \<Rightarrow> string" where
  "replace_every old new s = (if old = [] then concat (map (\<lambda>c. new @ [c]) s) @ new else str_replace old new s)"

fun replace_first :: "string \<Rightarrow> string \<Rightarrow> string \<Rightarrow> string" where
  "replace_first old new [] = (if old = [] then new else [])"
| "replace_first old new (c # cs) =
     (if starts_with (c # cs) old then new @ drop (length old) (c # cs) else c # replace_first old new cs)"

definition str_replace_tool ::
  "resolver \<Rightarrow> sandbox_settings \<Rightarrow> mount_config list \<Rightarrow> string \<Rightarrow> string \<Rightarrow> string \<Rightarrow> bool \<Rightarrow> tool_runtime \<Rightarrow> local_sandbox \<Rightarrow> host \<Rightarrow> string tool_call_result" where
  "str_replace_tool rp ss mounts s old new every rt sb h =
     (case ensure_thread_directories_exist rp rt h of
        (Inl e, rt, h) \<Rightarrow> (Inl e, rt, sb, h)
      | (Inr _, rt, h) \<Rightarrow>
          (case write_target rp ss mounts (rt_thread_data rt) s of
             Inl e \<Rightarrow> (Inl e, rt, sb, h)
           | Inr target \<Rightarrow>
               (case read_file rp sb h target of
                  Inl e \<Rightarrow> (Inl e, rt, sb, h)
                | Inr content \<Rightarrow>
                    if content = [] then (Inr ''OK'', rt, sb, h)
                    else if \<not> str_contains old content then (Inr (''Error: String to replace not found in file: '' @ s), rt, sb, h)
                    else
                      (case write_file rp target (if every then replace_every old new content else replace_first old new content) False sb h of
                         (Inl e, sb, h) \<Rightarrow> (Inl e, rt, sb, h)
                       | (Inr _, sb, h) \<Rightarrow> (Inr ''OK'', rt, sb, h)))))"

end
