(* ===== verification/Sandbox_Properties.thy ===== *)
theory Sandbox_Properties
  imports Sandbox_Tools
begin

text \<open>
  What the file tools can reach. Whatever path a model asks for, a file that changes lies in a directory of the thread or in a mounted directory
  that may be written; and where the sandbox falls short of what its settings intend.
\<close>

section \<open>Texts that change\<close>

lemma make_folders_texts: "text_at (snd (make_folders ps h)) = text_at h"
proof (induction ps h rule: make_folders.induct)
  case (2 p ps h)
  have "text_at (h\<lparr>h_nodes := (h_nodes h)(p := Some Folder)\<rparr>) = text_at h" if "h_nodes h p = None"
    using that by (auto simp: text_at_def)
  with 2 show ?case by (auto split: option.split node.split)
qed simp

lemma makedirs_texts: "text_at (snd (makedirs rp s h)) = text_at h"
  by (simp add: makedirs_def Let_def make_folders_texts)

lemma make_all_texts: "text_at (snd (make_all rp ss h)) = text_at h"
proof (induction ss arbitrary: h)
  case (Cons s ss)
  obtain r h1 where m: "makedirs rp s h = (r, h1)" by fastforce
  with makedirs_texts [of rp s h] Cons show ?case by (cases r) simp_all
qed simp

lemma ensure_texts:
  assumes "ensure_thread_directories_exist rp rt h = (r, rt', h')"
  shows "text_at h' = text_at h \<and> rt_thread_data rt' = rt_thread_data rt"
proof (cases "rt_thread_data rt = None \<or> rt_directories_created rt")
  case True
  with assms show ?thesis by (auto simp: ensure_thread_directories_exist_def split: option.splits)
next
  case False
  then obtain td where td: "rt_thread_data rt = Some td" "\<not> rt_directories_created rt" by auto
  obtain r1 h1 where m: "make_all rp (given (td_workspace td) @ given (td_uploads td) @ given (td_outputs td)) h = (r1, h1)" by fastforce
  from make_all_texts [of rp "given (td_workspace td) @ given (td_uploads td) @ given (td_outputs td)" h] m have t: "text_at h1 = text_at h" by simp
  show ?thesis
  proof (cases r1)
    case (Inl e)
    with assms td m t show ?thesis by (simp add: ensure_thread_directories_exist_def)
  next
    case (Inr u)
    with assms td m t show ?thesis by (auto simp: ensure_thread_directories_exist_def)
  qed
qed

lemma open_write_texts:
  "open_write rp s new h = (r, h') \<Longrightarrow> text_at h' q \<noteq> text_at h q \<Longrightarrow> r = Inr () \<and> q = rp s"
  by (auto simp: open_write_def Let_def text_at_def split: if_split_asm)

text \<open>What changes is the file the path resolves to, and only where the sandbox may write.\<close>

definition may_write :: "resolver \<Rightarrow> path_mapping list \<Rightarrow> string \<Rightarrow> path \<Rightarrow> bool" where
  "may_write rp ms s q \<longleftrightarrow>
     (\<exists>t m. resolve_path_with_mapping rp ms s = Inr (t, m) \<and> q = rp t \<and> \<not> is_resolved_path_read_only rp ms (t, m))"

lemma write_resolved_texts:
  assumes w: "write_resolved rp sb h s content = (r, h')" and ch: "text_at h' q \<noteq> text_at h q"
  shows "r = Inr () \<and> may_write rp (sb_mappings sb) s q"
proof (cases "resolve_path_with_mapping rp (sb_mappings sb) s")
  case (Inl e)
  with w ch show ?thesis by (auto simp: write_resolved_def)
next
  case (Inr tm)
  then obtain t m where r: "resolve_path_with_mapping rp (sb_mappings sb) s = Inr (t, m)" by (cases tm) simp
  have ro: "\<not> is_resolved_path_read_only rp (sb_mappings sb) (t, m)" using w ch r by (auto simp: write_resolved_def)
  obtain r1 h1 where d: "(if dirname t = [] then (Inr (), h) else makedirs rp (dirname t) h) = (r1, h1)" by fastforce
  have t: "text_at h1 = text_at h" using d makedirs_texts [of rp "dirname t" h] by (auto split: if_splits)
  have e: "write_resolved rp sb h s content = (case (r1, h1) of (Inl e, h) \<Rightarrow> (Inl e, h)
     | (Inr _, h) \<Rightarrow> (case content of Inl e \<Rightarrow> (Inl e, h) | Inr new \<Rightarrow> open_write rp t new h))"
    by (simp only: write_resolved_def r ro sum.case if_False) (simp only: fst_conv d)
  have "\<exists>new. r1 = Inr () \<and> content = Inr new"
  proof (rule ccontr)
    assume "\<nexists>new. r1 = Inr () \<and> content = Inr new"
    then have "h' = h1" using w e by (cases r1; cases content) auto
    with ch t show False by simp
  qed
  then obtain new where c: "r1 = Inr ()" "content = Inr new" by blast
  with w e have "open_write rp t new h1 = (r, h')" by simp
  from open_write_texts [OF this, of q] ch t r ro show ?thesis by (auto simp: may_write_def)
qed

lemma write_file_texts:
  assumes w: "write_file rp s content add sb h = (r, sb', h')" and ch: "text_at h' q \<noteq> text_at h q"
  shows "r = Inr () \<and> may_write rp (sb_mappings sb) s q"
proof -
  let ?c = "ebind (resolve_paths_in_content rp (sb_mappings sb) content) (\<lambda>t. Inr (written_text add t))"
  obtain r0 h0 where e: "write_resolved rp sb h s ?c = (r0, h0)" by fastforce
  with w have "r0 = r \<and> h0 = h'" by (cases r0) (auto simp: write_file_def)
  with write_resolved_texts [OF e, of q] ch show ?thesis by simp
qed

section \<open>Where paths lead\<close>

lemma resolved_again: "resolves rp \<Longrightarrow> rp (abs_str (rp s)) = rp s"
  by (simp add: resolves_def)

lemma find_path_mapping_mem: "find_path_mapping ms s = Some (m, rel) \<Longrightarrow> m \<in> set ms"
proof -
  assume "find_path_mapping ms s = Some (m, rel)"
  then have "List.find (mapping_match s) (sort_desc (\<lambda>m. length (container_root (pm_container m))) ms) = Some m"
    by (simp add: find_path_mapping_def split: option.splits)
  then obtain i where "i < length (sort_desc (\<lambda>m. length (container_root (pm_container m))) ms)"
      "m = sort_desc (\<lambda>m. length (container_root (pm_container m))) ms ! i"
    unfolding find_Some_iff by blast
  then have "m \<in> set (sort_desc (\<lambda>m. length (container_root (pm_container m))) ms)" by (simp only: nth_mem)
  then show ?thesis by simp
qed

lemma resolve_mapped:
  assumes "resolves rp" "resolve_path_with_mapping rp ms s = Inr (t, Some m)"
  shows "m \<in> set ms \<and> prefix (rp (pm_local m)) (rp t)"
proof -
  from assms(2) obtain rel where f: "find_path_mapping ms s = Some (m, rel)"
    by (auto simp: resolve_path_with_mapping_def Let_def split: option.splits if_splits)
  define p where "p = (if rel \<noteq> [] then rp (path_join (abs_str (rp (pm_local m))) rel) else rp (pm_local m))"
  have "prefix (rp (pm_local m)) p \<and> t = abs_str p"
    using assms(2) f by (simp add: resolve_path_with_mapping_def Let_def relative_to_def p_def split: if_splits)
  moreover have "rp (abs_str p) = p" using resolved_again [OF assms(1)] by (simp add: p_def)
  ultimately show ?thesis using find_path_mapping_mem [OF f] by simp
qed

lemma resolve_unmapped: "resolve_path_with_mapping rp ms s = Inr (t, None) \<Longrightarrow> t = s \<and> find_path_mapping ms s = None"
  by (auto simp: resolve_path_with_mapping_def Let_def split: option.splits if_splits prod.splits)

lemma user_data_root:
  assumes "resolves rp" "resolve_and_validate_user_data_path rp s td = Inr t"
  obtains d where "d \<in> set (allowed_roots rp td)" "prefix d (rp t)"
  using assms(2) that
  by (auto simp: resolve_and_validate_user_data_path_def validate_resolved_user_data_path_def Let_def err_simps list_ex_iff relative_to_def
      resolved_again [OF assms(1)] split: if_splits)

lemma matched_found: "m \<in> set ms \<Longrightarrow> mapping_match s m \<Longrightarrow> find_path_mapping ms s \<noteq> None"
  by (auto simp: find_path_mapping_def find_None_iff split: option.splits)

section \<open>Mounts\<close>

lemma starts_with_eq_prefix: "starts_with s p \<longleftrightarrow> prefix p s"
  by (induction s p rule: starts_with.induct) (auto simp: prefix_Cons)

lemma path_under_trans: "path_under s d \<Longrightarrow> path_under d e \<Longrightarrow> path_under s e"
  by (auto simp: path_under_def starts_with_eq_prefix intro: prefix_order.trans append_prefixD)

lemma path_under_part: "path_under s (d @ CHR ''/'' # e) \<Longrightarrow> path_under s d"
proof -
  assume "path_under s (d @ CHR ''/'' # e)"
  moreover have "path_under (d @ CHR ''/'' # e) d" by (simp add: path_under_def starts_with_eq_prefix)
  ultimately show ?thesis by (rule path_under_trans)
qed

lemma rstrip_slashes_idem: "rstrip_slashes (rstrip_slashes c) = rstrip_slashes c"
  by (simp only: rstrip_slashes_def rev_rev_ident dropWhile_idem)

lemma container_root_idem [simp]: "container_root (container_root c) = container_root c"
proof (cases "rstrip_slashes c = []")
  case True
  have "rstrip_slashes ''/'' = []" by (simp add: rstrip_slashes_def)
  with True show ?thesis by (simp add: container_root_def)
next
  case False
  then show ?thesis by (simp only: container_root_def Let_def if_False rstrip_slashes_idem)
qed

lemma mount_path_matches:
  assumes "path_under s c" "starts_with c ''/''" "container_root c = container_root (pm_container m)"
  shows "mapping_match s m"
proof -
  obtain k where k: "c = rstrip_slashes c @ replicate k (CHR ''/'')" by (rule rstrip_slashes_split)
  have s: "prefix c s" using assms(1) by (auto simp: path_under_def starts_with_eq_prefix dest: append_prefixD)
  show ?thesis
  proof (cases "rstrip_slashes c = []")
    case True
    have "prefix ''/'' s" using assms(2) s by (auto simp: starts_with_eq_prefix intro: prefix_order.trans)
    with True assms(3) show ?thesis by (simp add: mapping_match_def container_root_def starts_with_eq_prefix)
  next
    case False
    then have r: "container_root c = rstrip_slashes c" by (simp add: container_root_def Let_def)
    have "path_under c (rstrip_slashes c)"
      using k by (cases k) (auto simp: path_under_def starts_with_eq_prefix prefix_def)
    with assms(1) have u: "path_under s (rstrip_slashes c)" by (rule path_under_trans)
    moreover have "prefix ''/'' s" using assms(2) s by (auto simp: starts_with_eq_prefix intro: prefix_order.trans)
    ultimately show ?thesis using r assms(3) by (simp add: mapping_match_def starts_with_eq_prefix)
  qed
qed

text \<open>Settings under which every mount the tools know is one the sandbox has.\<close>

definition mounts_absolute :: "(string \<Rightarrow> bool) \<Rightarrow> sandbox_settings \<Rightarrow> bool" where
  "mounts_absolute ex ss \<longleftrightarrow> (\<forall>m\<in>set (custom_mounts ex ss). starts_with (mt_host m) ''/'' \<and> starts_with (mt_container m) ''/'')"

lemma container_root_absolute: "starts_with c ''/'' \<Longrightarrow> starts_with (container_root c) ''/''"
proof -
  assume c: "starts_with c ''/''"
  obtain k where k: "c = rstrip_slashes c @ replicate k (CHR ''/'')" by (rule rstrip_slashes_split)
  show ?thesis
  proof (cases "rstrip_slashes c")
    case Nil
    then show ?thesis by (simp add: container_root_def)
  next
    case (Cons x xs)
    then have "c = x # xs @ replicate k (CHR ''/'')" using k by simp
    with c have "x = CHR ''/''" by simp
    with Cons show ?thesis by (simp add: container_root_def)
  qed
qed

lemma validated_for_writing:
  assumes "validate_local_tool_path ss mounts s td False = Inr ()"
  shows "\<not> is_skills_path ss s" "\<not> is_acp_workspace_path s"
  using assms by (auto simp: validate_local_tool_path_def err_simps split: if_splits)

lemma thread_mappings:
  assumes "build_thread_path_mappings base ex sees_legacy ss tid uid = Inr tms" "thread_dir base tid (Some uid) = Inr d"
  shows "writable_mapping virtual_path_prefix (d @ [''user-data'']) \<in> set tms"
    and "m \<in> set tms \<Longrightarrow> \<not> pm_read_only m \<Longrightarrow>
      \<exists>sub\<in>set [[''user-data''], [''user-data'', ''workspace''], [''user-data'', ''uploads''], [''user-data'', ''outputs''], [''acp-workspace'']]. pm_local m = abs_str (d @ sub)"
  using assms
  by (auto simp: build_thread_path_mappings_def sandbox_user_data_dir_def sandbox_work_dir_def sandbox_uploads_dir_def sandbox_outputs_dir_def
      acp_workspace_dir_def below_def err_simps Let_def writable_mapping_def split: if_splits)

lemma mount_is_mapped:
  assumes ok: "mounts_absolute ex ss"
    and built: "build_thread_path_mappings base ex sees_legacy ss tid uid = Inr tms" "thread_dir base tid (Some uid) = Inr d"
    and valid: "validate_local_tool_path ss (custom_mounts ex ss) s td False = Inr ()"
    and mount: "is_custom_mount_path (custom_mounts ex ss) s"
  shows "find_path_mapping (setup_path_mappings rp ex ss @ tms) s \<noteq> None"
proof -
  from mount obtain m where m: "m \<in> set (custom_mounts ex ss)" "path_under s (mt_container m)" by (auto simp: is_custom_mount_path_def list_ex_iff)
  let ?c = "container_root (mt_container m)"
  have abs: "starts_with (mt_host m) ''/''" "starts_with (mt_container m) ''/''" "ex (mt_host m)" "m \<in> set (ss_mounts ss)"
    using ok m(1) by (auto simp: mounts_absolute_def custom_mounts_def)
  show ?thesis
  proof (cases "mount_mapping rp ex ss m")
    case (Some pm)
    then have "pm \<in> set (setup_path_mappings rp ex ss @ tms)"
      using abs(4) by (auto simp: setup_path_mappings_def Let_def map_filter_def image_iff intro!: bexI [of _ m])
    moreover have "pm_container pm = ?c" using Some by (auto simp: mount_mapping_def Let_def split: if_splits)
    then have "mapping_match s pm" by (intro mount_path_matches [OF m(2) abs(2)]) simp
    ultimately show ?thesis by (rule matched_found)
  next
    case None
    with abs(1,3) container_root_absolute [OF abs(2)] obtain p where p: "p \<in> set (reserved_prefixes ss)" "path_under ?c p"
      by (auto simp: mount_mapping_def Let_def list_ex_iff split: if_splits)
    have "mapping_match s \<lparr>pm_container = mt_container m, pm_local = [], pm_read_only = False\<rparr>"
      by (rule mount_path_matches [OF m(2) abs(2)]) simp
    moreover have "?c \<noteq> ''/''"
      using p by (auto simp: reserved_prefixes_def path_under_def starts_with_eq_prefix acp_workspace_prefix_def virtual_path_prefix_def prefix_def
          append_eq_Cons_conv Cons_eq_append_conv)
    ultimately have "path_under s ?c" by (simp add: mapping_match_def)
    from path_under_trans [OF this p(2)] have "path_under s p" .
    with p(1) validated_for_writing [OF valid] have u: "path_under s virtual_path_prefix"
      by (auto simp: reserved_prefixes_def is_skills_path_def is_acp_workspace_path_def dest: path_under_part)
    have "container_root virtual_path_prefix = virtual_path_prefix" by code_simp
    moreover have "virtual_path_prefix \<noteq> ''/''" by code_simp
    ultimately have "mapping_match s (writable_mapping virtual_path_prefix (d @ [''user-data'']))"
      using u by (simp add: mapping_match_def writable_mapping_def)
    then show ?thesis using thread_mappings(1) [OF built] by (intro matched_found) auto
  qed
qed

section \<open>Read-only directories\<close>

text \<open>One step keeps what it has or takes a longer one.\<close>

lemma better_mapping_step:
  "\<exists>c. better_mapping rp r m (Some b) = Some c \<and> length (local_str rp b) \<le> length (local_str rp c)"
  "path_under r (local_str rp m) \<Longrightarrow> \<exists>c. better_mapping rp r m best = Some c \<and> length (local_str rp m) \<le> length (local_str rp c)"
  "better_mapping rp r m best = Some m \<and> path_under r (local_str rp m) \<or> better_mapping rp r m best = best"
  by (auto simp: better_mapping_def split: option.splits)

lemma best_mapping_grows:
  "fold (better_mapping rp r) ms (Some b) = Some b' \<Longrightarrow> length (local_str rp b) \<le> length (local_str rp b')"
proof (induction ms arbitrary: b)
  case (Cons m ms)
  obtain c where c: "better_mapping rp r m (Some b) = Some c" "length (local_str rp b) \<le> length (local_str rp c)"
    using better_mapping_step(1) by blast
  with Cons.prems have "fold (better_mapping rp r) ms (Some c) = Some b'" by simp
  from Cons.IH [OF this] c(2) show ?case by simp
qed simp

lemma best_mapping_some: "\<exists>b'. fold (better_mapping rp r) ms (Some b) = Some b'"
proof (induction ms arbitrary: b)
  case (Cons m ms)
  then show ?case by (cases "better_mapping rp r m (Some b)") (auto simp: better_mapping_def split: if_splits)
qed simp

lemma best_mapping_least:
  assumes "m \<in> set ms" "path_under r (local_str rp m)"
  obtains b where "fold (better_mapping rp r) ms best = Some b" "length (local_str rp m) \<le> length (local_str rp b)"
proof -
  have "\<exists>b. fold (better_mapping rp r) ms best = Some b \<and> length (local_str rp m) \<le> length (local_str rp b)"
    using assms(1)
  proof (induction ms arbitrary: best)
    case (Cons a ms)
    show ?case
    proof (cases "m \<in> set ms")
      case True
      with Cons.IH show ?thesis by simp
    next
      case False
      with Cons.prems have "m = a" by simp
      then obtain c where c: "better_mapping rp r a best = Some c" "length (local_str rp m) \<le> length (local_str rp c)"
        using assms(2) better_mapping_step(2) by blast
      obtain b where b: "fold (better_mapping rp r) ms (Some c) = Some b" using best_mapping_some by blast
      with best_mapping_grows [OF b] c show ?thesis by fastforce
    qed
  qed simp
  with that show ?thesis by blast
qed

lemma best_mapping_mem:
  "fold (better_mapping rp r) ms best = Some b \<Longrightarrow> b \<in> set ms \<and> path_under r (local_str rp b) \<or> best = Some b"
proof (induction ms arbitrary: best)
  case (Cons m ms)
  from Cons.IH [of "better_mapping rp r m best"] Cons.prems
  have "b \<in> set ms \<and> path_under r (local_str rp b) \<or> better_mapping rp r m best = Some b" by simp
  with better_mapping_step(3) [of rp r m best] show ?case by auto
qed simp

lemma not_read_only:
  assumes "\<not> is_read_only_path rp ms t" "m \<in> set ms" "pm_read_only m" "path_under (abs_str (rp t)) (local_str rp m)"
  shows "\<exists>b\<in>set ms. \<not> pm_read_only b \<and> path_under (abs_str (rp t)) (local_str rp b) \<and> length (local_str rp m) \<le> length (local_str rp b)"
proof -
  obtain b where b: "fold (better_mapping rp (abs_str (rp t))) ms None = Some b" "length (local_str rp m) \<le> length (local_str rp b)"
    using best_mapping_least [OF assms(2,4)] by blast
  with best_mapping_mem [OF b(1)] assms(1) show ?thesis by (auto simp: is_read_only_path_def)
qed

section \<open>The tools\<close>

datatype file_tool = Write_File string bool | Str_Replace string string bool

definition run_file_tool ::
  "resolver \<Rightarrow> sandbox_settings \<Rightarrow> mount_config list \<Rightarrow> string option \<Rightarrow> file_tool \<Rightarrow> string \<Rightarrow> tool_runtime \<Rightarrow> local_sandbox \<Rightarrow> host \<Rightarrow> string tool_call_result" where
  "run_file_tool rp ss mounts max_env tool s rt sb h =
     (case tool of
        Write_File content add \<Rightarrow> write_file_tool rp ss mounts max_env s content add rt sb h
      | Str_Replace old new every \<Rightarrow> str_replace_tool rp ss mounts s old new every rt sb h)"

text \<open>A tool that changes a text made the directories of the thread, found its target and wrote it.\<close>

definition tool_wrote ::
  "resolver \<Rightarrow> sandbox_settings \<Rightarrow> mount_config list \<Rightarrow> string \<Rightarrow> tool_runtime \<Rightarrow> local_sandbox \<Rightarrow> host \<Rightarrow> file_error + string \<Rightarrow> host \<Rightarrow> bool" where
  "tool_wrote rp ss mounts s rt sb h answer h' \<longleftrightarrow>
     (\<exists>rt1 h1 t content add r sb'. ensure_thread_directories_exist rp rt h = (Inr (), rt1, h1) \<and> write_target rp ss mounts (rt_thread_data rt) s = Inr t \<and>
        write_file rp t content add sb h1 = (r, sb', h') \<and> answer = (case r of Inl e \<Rightarrow> Inl e | Inr _ \<Rightarrow> Inr ''OK''))"

lemma write_tool_steps:
  assumes run: "write_file_tool rp ss mounts max_env s content add rt sb h = (answer, rt', sb', h')" and ch: "text_at h' p \<noteq> text_at h p"
  shows "tool_wrote rp ss mounts s rt sb h answer h'"
proof -
  obtain r1 rt1 h1 where e: "ensure_thread_directories_exist rp rt h = (r1, rt1, h1)" by (metis prod_cases3)
  have t: "text_at h1 = text_at h" "rt_thread_data rt1 = rt_thread_data rt" using ensure_texts [OF e] by auto
  obtain target where tg: "r1 = Inr ()" "write_target rp ss mounts (rt_thread_data rt) s = Inr target"
    using run ch e t by (cases r1; cases "write_target rp ss mounts (rt_thread_data rt) s") (auto simp: write_file_tool_def Let_def split: if_splits)
  obtain r2 sb2 h2 where w: "write_file rp target content add sb h1 = (r2, sb2, h2)" by (metis prod_cases3)
  have "h' = h2 \<and> answer = (case r2 of Inl e \<Rightarrow> Inl e | Inr _ \<Rightarrow> Inr ''OK'')"
    using run ch e t tg w by (cases r2) (auto simp: write_file_tool_def Let_def split: if_splits)
  with e tg w show ?thesis unfolding tool_wrote_def by blast
qed

lemma replace_tool_steps:
  assumes run: "str_replace_tool rp ss mounts s old new every rt sb h = (answer, rt', sb', h')" and ch: "text_at h' p \<noteq> text_at h p"
  shows "tool_wrote rp ss mounts s rt sb h answer h'"
proof -
  obtain r1 rt1 h1 where e: "ensure_thread_directories_exist rp rt h = (r1, rt1, h1)" by (metis prod_cases3)
  have t: "text_at h1 = text_at h" "rt_thread_data rt1 = rt_thread_data rt" using ensure_texts [OF e] by auto
  obtain target where tg: "r1 = Inr ()" "write_target rp ss mounts (rt_thread_data rt) s = Inr target"
    using run ch e t by (cases r1; cases "write_target rp ss mounts (rt_thread_data rt) s") (auto simp: str_replace_tool_def)
  obtain content where c: "read_file rp sb h1 target = Inr content" "content \<noteq> []" "str_contains old content"
    using run ch e t tg by (cases "read_file rp sb h1 target") (auto simp: str_replace_tool_def split: if_splits)
  obtain r2 sb2 h2 where w: "write_file rp target (if every then replace_every old new content else replace_first old new content) False sb h1 = (r2, sb2, h2)"
    by (metis prod_cases3)
  have "h' = h2 \<and> answer = (case r2 of Inl e \<Rightarrow> Inl e | Inr _ \<Rightarrow> Inr ''OK'')"
    using run e t tg w c by (cases r2) (simp_all add: str_replace_tool_def)
  with e tg w show ?thesis unfolding tool_wrote_def by blast
qed

lemma file_tool_steps:
  assumes "run_file_tool rp ss mounts max_env tool s rt sb h = (answer, rt', sb', h')" "text_at h' p \<noteq> text_at h p"
  shows "tool_wrote rp ss mounts s rt sb h answer h'"
  using assms write_tool_steps replace_tool_steps by (cases tool) (simp_all add: run_file_tool_def)

lemma file_tool_texts:
  assumes "run_file_tool rp ss mounts max_env tool s rt sb h = (answer, rt', sb', h')" "text_at h' p \<noteq> text_at h p"
  shows "answer = Inr ''OK'' \<and> (\<exists>t. write_target rp ss mounts (rt_thread_data rt) s = Inr t \<and> may_write rp (sb_mappings sb) t p)"
proof -
  from file_tool_steps [OF assms] obtain rt1 h1 t content add r sb1 where s: "ensure_thread_directories_exist rp rt h = (Inr (), rt1, h1)"
    "write_target rp ss mounts (rt_thread_data rt) s = Inr t" "write_file rp t content add sb h1 = (r, sb1, h')"
    "answer = (case r of Inl e \<Rightarrow> Inl e | Inr _ \<Rightarrow> Inr ''OK'')" unfolding tool_wrote_def by blast
  with write_file_texts [OF s(3), of p] ensure_texts [OF s(1)] assms(2) show ?thesis by auto
qed

section \<open>Threads are kept apart\<close>

definition thread_subdirs :: "path list" where
  "thread_subdirs = [[''user-data''], [''user-data'', ''workspace''], [''user-data'', ''uploads''], [''user-data'', ''outputs''], [''acp-workspace'']]"

definition in_writable_mount :: "resolver \<Rightarrow> (string \<Rightarrow> bool) \<Rightarrow> sandbox_settings \<Rightarrow> path \<Rightarrow> bool" where
  "in_writable_mount rp ex ss p \<longleftrightarrow> (\<exists>m\<in>set (custom_mounts ex ss). \<not> mt_read_only m \<and> prefix (rp (mt_host m)) p)"

lemma writable_mapping_place:
  assumes rp: "resolves rp" and built: "build_thread_path_mappings base ex sees_legacy ss tid uid = Inr tms" "thread_dir base tid (Some uid) = Inr d"
    and own: "\<forall>sub\<in>set thread_subdirs. prefix d (rp (abs_str (d @ sub)))"
    and m: "m \<in> set (setup_path_mappings rp ex ss @ tms)" "\<not> pm_read_only m" "prefix (rp (pm_local m)) p"
  shows "prefix d p \<or> in_writable_mount rp ex ss p"
proof (cases "m \<in> set tms")
  case True
  from thread_mappings(2) [OF built True m(2)] obtain sub where "sub \<in> set thread_subdirs" "pm_local m = abs_str (d @ sub)"
    unfolding thread_subdirs_def by blast
  with own m(3) have "prefix d p" using prefix_order.trans by metis
  then show ?thesis ..
next
  case False
  with m(1,2) obtain c where c: "c \<in> set (ss_mounts ss)" "mount_mapping rp ex ss c = Some m"
    by (auto simp: setup_path_mappings_def Let_def map_filter_def split: if_splits)
  then have "pm_local m = abs_str (rp (mt_host c))" "mt_read_only c = pm_read_only m" "ex (mt_host c)"
    by (auto simp: mount_mapping_def Let_def split: if_splits)
  with c(1) m(2,3) resolved_again [OF rp] have "in_writable_mount rp ex ss p" by (auto simp: in_writable_mount_def custom_mounts_def)
  then show ?thesis ..
qed

lemma thread_data_roots:
  assumes "get_thread_paths base tid (Some uid) = Inr td" "thread_dir base tid (Some uid) = Inr d" "r \<in> set (allowed_roots rp td)"
  shows "\<exists>sub\<in>set thread_subdirs. r = rp (abs_str (d @ sub))"
  using assms
  by (auto simp: get_thread_paths_def sandbox_work_dir_def sandbox_uploads_dir_def sandbox_outputs_dir_def below_def err_simps allowed_roots_def
      map_filter_def thread_subdirs_def)

lemma write_target_place:
  assumes rp: "resolves rp" and ok: "mounts_absolute ex ss"
    and built: "build_thread_path_mappings base ex sees_legacy ss tid uid = Inr tms" "thread_dir base tid (Some uid) = Inr d"
    and data: "get_thread_paths base tid (Some uid) = Inr td" and own: "\<forall>sub\<in>set thread_subdirs. prefix d (rp (abs_str (d @ sub)))"
    and target: "write_target rp ss (custom_mounts ex ss) (Some td) s = Inr t"
    and written: "may_write rp (setup_path_mappings rp ex ss @ tms) t p"
  shows "prefix d p \<or> in_writable_mount rp ex ss p"
proof -
  let ?ms = "setup_path_mappings rp ex ss @ tms"
  obtain u m where u: "resolve_path_with_mapping rp ?ms t = Inr (u, m)" "p = rp u" "\<not> is_resolved_path_read_only rp ?ms (u, m)"
    using written by (auto simp: may_write_def)
  have valid: "validate_local_tool_path ss (custom_mounts ex ss) s (Some td) False = Inr ()"
    using target by (auto simp: write_target_def err_simps)
  show ?thesis
  proof (cases m)
    case (Some n)
    from resolve_mapped [OF rp u(1) [unfolded Some]] u(2) have n: "n \<in> set ?ms" "prefix (rp (pm_local n)) p" by simp_all
    have "\<not> pm_read_only n" using u(3) Some by (simp add: is_resolved_path_read_only_def)
    from writable_mapping_place [OF rp built own n(1) this n(2)] show ?thesis .
  next
    case None
    with resolve_unmapped u(1) have n: "u = t" "find_path_mapping ?ms t = None" by auto
    have nm: "\<not> is_custom_mount_path (custom_mounts ex ss) s"
      using mount_is_mapped [OF ok built valid, of rp] n(2) target by (auto simp: write_target_def err_simps)
    then have "resolve_and_validate_user_data_path rp s td = Inr t" using target by (auto simp: write_target_def err_simps)
    from user_data_root [OF rp this] obtain r where r: "r \<in> set (allowed_roots rp td)" "prefix r p" using n u(2) by blast
    with thread_data_roots [OF data built(2)] own have "prefix d p" using prefix_order.trans by metis
    then show ?thesis ..
  qed
qed

text \<open>C26. Whatever path the model asks for, writing a file or replacing text in one changes only files in the directory of the thread or in a
  mounted directory that may be written: a file in the directory of another thread, of the same user or another, stays as it is unless it lies in
  such a mount. A file below a read-only directory changes only where a directory inside it that may be written holds it. A tool that does not
  answer OK changes no file. The mounts have absolute paths, and no link leads out of the directories of the thread.\<close>

theorem threads_isolated:
  assumes "resolves rp" "mounts_absolute ex ss" "thread_dir base tid (Some uid) = Inr d"
    and "build_thread_path_mappings base ex sees_legacy ss tid uid = Inr tms" "sb_mappings sb = setup_path_mappings rp ex ss @ tms"
    and "get_thread_paths base tid (Some uid) = Inr td" "rt_thread_data rt = Some td"
    and "\<forall>sub\<in>set thread_subdirs. prefix d (rp (abs_str (d @ sub)))"
    and "run_file_tool rp ss (custom_mounts ex ss) max_env tool s rt sb h = (answer, rt', sb', h')" "text_at h' p \<noteq> text_at h p"
  shows "answer = Inr ''OK'' \<and> (prefix d p \<or> in_writable_mount rp ex ss p) \<and>
    (\<forall>tid' uid' d'. thread_dir base tid' uid' = Inr d' \<and> prefix d' p \<longrightarrow> (tid', uid') = (tid, Some uid) \<or> in_writable_mount rp ex ss p) \<and>
    (\<forall>m\<in>set (sb_mappings sb). pm_read_only m \<and> path_under (abs_str p) (local_str rp m) \<longrightarrow>
       (\<exists>b\<in>set (sb_mappings sb). \<not> pm_read_only b \<and> path_under (abs_str p) (local_str rp b) \<and> length (local_str rp m) \<le> length (local_str rp b)))"
proof -
  from file_tool_texts [OF assms(9,10)] assms(5,7) obtain t where t: "answer = Inr ''OK''"
    "write_target rp ss (custom_mounts ex ss) (Some td) s = Inr t" "may_write rp (setup_path_mappings rp ex ss @ tms) t p" by auto
  have place: "prefix d p \<or> in_writable_mount rp ex ss p"
    by (rule write_target_place [OF assms(1,2,4,3,6,8) t(2,3)])
  have apart: "(tid', uid') = (tid, Some uid)" if "thread_dir base tid' uid' = Inr d'" "prefix d' p" "prefix d p" for tid' uid' d'
    using prefix_same_cases [OF that(2,3)] thread_dirs_apart [OF that(1) assms(3)] thread_dirs_apart [OF assms(3) that(1)] by metis
  obtain u n where u: "p = rp u" "\<not> is_resolved_path_read_only rp (sb_mappings sb) (u, n)" using t(3) assms(5) by (auto simp: may_write_def)
  then have ro: "\<not> is_read_only_path rp (sb_mappings sb) u" by (simp add: is_resolved_path_read_only_def)
  show ?thesis using t(1) place apart not_read_only [OF ro] u(1) by blast
qed

section \<open>A host without links\<close>

text \<open>Texts resolved by their components alone, from the top.\<close>

definition lexical :: resolver where
  "lexical s = fold (norm_component 1) (split_on (CHR ''/'') s) []"

definition proper :: "string \<Rightarrow> bool" where
  "proper c \<longleftrightarrow> component c \<and> c \<notin> set [''.'', ''..'']"

lemma split_on_parts: "\<forall>c\<in>set (split_on x s). x \<notin> set c"
  by (induction s) (auto split: list.splits)

lemma split_on_append: "x \<notin> set c \<Longrightarrow> split_on x (c @ x # s) = c # split_on x s"
  by (induction c) auto

lemma split_on_single: "x \<notin> set c \<Longrightarrow> split_on x c = [c]"
  by (induction c) auto

lemma split_on_join: "cs \<noteq> [] \<Longrightarrow> \<forall>c\<in>set cs. CHR ''/'' \<notin> set c \<Longrightarrow> split_on (CHR ''/'') (join_with ''/'' cs) = cs"
proof (induction cs)
  case (Cons c cs)
  then show ?case by (cases cs) (auto simp: split_on_single split_on_append)
qed simp

lemma norm_component_proper:
  "\<forall>p\<in>set ps. CHR ''/'' \<notin> set p \<Longrightarrow> list_all proper cs \<Longrightarrow> list_all proper (fold (norm_component 1) ps cs)"
proof (induction ps arbitrary: cs)
  case (Cons p ps)
  have "list_all proper (norm_component 1 p cs)"
  proof (cases "p \<in> set [[], ''.''] \<or> p = ''..''")
    case True
    have "last cs \<noteq> ''..''" if "cs \<noteq> []" using Cons.prems(2) that by (auto simp: list_all_iff proper_def dest!: last_in_set)
    with True Cons.prems(2) show ?thesis by (auto simp: norm_component_def list_all_iff dest: in_set_butlastD)
  next
    case False
    then have "norm_component 1 p cs = cs @ [p]" "proper p" using Cons.prems(1) by (auto simp: norm_component_def proper_def component_def)
    with Cons.prems(2) show ?thesis by simp
  qed
  with Cons show ?case by simp
qed simp

lemma norm_components_same: "list_all proper cs \<Longrightarrow> fold (norm_component 1) cs acc = acc @ cs"
  by (induction cs arbitrary: acc) (auto simp: norm_component_def proper_def component_def)

lemma lexical_proper: "list_all proper (lexical s)"
  unfolding lexical_def by (rule norm_component_proper) (auto simp: split_on_parts)

lemma lexical_abs: "list_all proper cs \<Longrightarrow> lexical (abs_str cs) = cs"
proof (cases "cs = []")
  case False
  assume c: "list_all proper cs"
  then have "split_on (CHR ''/'') (join_with ''/'' cs) = cs" using False by (intro split_on_join) (auto simp: list_all_iff proper_def component_def)
  then show ?thesis using norm_components_same [OF c] by (simp add: lexical_def abs_str_def norm_component_def)
qed (simp add: lexical_def abs_str_def norm_component_def)

lemma lexical_resolves: "resolves lexical"
  using lexical_abs [OF lexical_proper] lexical_proper by (auto simp: resolves_def list_all_iff proper_def)

section \<open>A concrete thread\<close>

definition demo_settings :: "mount_config list \<Rightarrow> sandbox_settings" where
  "demo_settings mounts = \<lparr>ss_skills_path = ''/skills'', ss_skills_container = ''/mnt/skills'', ss_mounts = mounts\<rparr>"

definition demo_mount :: "string \<Rightarrow> string \<Rightarrow> mount_config" where
  "demo_mount host_path container = \<lparr>mt_host = host_path, mt_container = container, mt_read_only = False\<rparr>"

definition demo_thread_data :: thread_data where
  "demo_thread_data = (case get_thread_paths [''srv''] ''t'' (Some ''u'') of Inr td \<Rightarrow> td | Inl _ \<Rightarrow> \<lparr>td_workspace = None, td_uploads = None, td_outputs = None\<rparr>)"

definition demo_runtime :: tool_runtime where
  "demo_runtime = \<lparr>rt_thread_data = Some demo_thread_data, rt_directories_created = False\<rparr>"

definition demo_thread_mappings :: "sandbox_settings \<Rightarrow> path_mapping list" where
  "demo_thread_mappings ss = (case build_thread_path_mappings [''srv''] (\<lambda>_. True) (\<lambda>_. True) ss ''t'' ''u'' of Inr ms \<Rightarrow> ms | Inl _ \<Rightarrow> [])"

definition demo_sandbox :: "mount_config list \<Rightarrow> local_sandbox" where
  "demo_sandbox mounts =
     new_sandbox ''local:u:t'' (setup_path_mappings lexical (\<lambda>_. True) (demo_settings mounts) @ demo_thread_mappings (demo_settings mounts))"

definition demo_host :: host where "demo_host = \<lparr>h_nodes = (\<lambda>_. None), h_denied = (\<lambda>_. False)\<rparr>"

definition demo_run :: "mount_config list \<Rightarrow> file_tool \<Rightarrow> string \<Rightarrow> host \<Rightarrow> string tool_call_result" where
  "demo_run mounts tool s h =
     run_file_tool lexical (demo_settings mounts) (custom_mounts (\<lambda>_. True) (demo_settings mounts)) None tool s demo_runtime (demo_sandbox mounts) h"

definition result_text :: "string tool_call_result \<Rightarrow> path \<Rightarrow> string option" where
  "result_text r p = text_at (snd (snd (snd r))) p"

lemma demo_written:
  "result_text (demo_run [demo_mount ''/data'' ''/mnt/data''] (Write_File ''hi'' False) ''/mnt/user-data/workspace/a'' demo_host)
     [''srv'', ''users'', ''u'', ''threads'', ''t'', ''user-data'', ''workspace'', ''a''] = Some ''hi''"
  by code_simp

lemma demo_thread_facts:
  "thread_dir [''srv''] ''t'' (Some ''u'') = Inr [''srv'', ''users'', ''u'', ''threads'', ''t'']"
  "get_thread_paths [''srv''] ''t'' (Some ''u'') = Inr demo_thread_data"
  "build_thread_path_mappings [''srv''] (\<lambda>_. True) (\<lambda>_. True) (demo_settings [demo_mount ''/data'' ''/mnt/data'']) ''t'' ''u'' =
     Inr (demo_thread_mappings (demo_settings [demo_mount ''/data'' ''/mnt/data'']))"
  "mounts_absolute (\<lambda>_. True) (demo_settings [demo_mount ''/data'' ''/mnt/data''])"
  "\<forall>sub\<in>set thread_subdirs. prefix [''srv'', ''users'', ''u'', ''threads'', ''t''] (lexical (abs_str ([''srv'', ''users'', ''u'', ''threads'', ''t''] @ sub)))"
  by code_simp+

theorem threads_isolated_witness:
  "fst (demo_run [demo_mount ''/data'' ''/mnt/data''] (Write_File ''hi'' False) ''/mnt/user-data/workspace/a'' demo_host) = Inr ''OK'' \<and>
   (prefix [''srv'', ''users'', ''u'', ''threads'', ''t''] [''srv'', ''users'', ''u'', ''threads'', ''t'', ''user-data'', ''workspace'', ''a''] \<or>
    in_writable_mount lexical (\<lambda>_. True) (demo_settings [demo_mount ''/data'' ''/mnt/data''])
      [''srv'', ''users'', ''u'', ''threads'', ''t'', ''user-data'', ''workspace'', ''a''])"
proof -
  let ?m = "[demo_mount ''/data'' ''/mnt/data'']"
  let ?r = "demo_run ?m (Write_File ''hi'' False) ''/mnt/user-data/workspace/a'' demo_host"
  have run: "run_file_tool lexical (demo_settings ?m) (custom_mounts (\<lambda>_. True) (demo_settings ?m)) None (Write_File ''hi'' False)
      ''/mnt/user-data/workspace/a'' demo_runtime (demo_sandbox ?m) demo_host = (fst ?r, fst (snd ?r), fst (snd (snd ?r)), snd (snd (snd ?r)))"
    by (simp add: demo_run_def)
  have maps: "sb_mappings (demo_sandbox ?m) = setup_path_mappings lexical (\<lambda>_. True) (demo_settings ?m) @ demo_thread_mappings (demo_settings ?m)"
    by (simp add: demo_sandbox_def new_sandbox_def)
  have changed: "text_at (snd (snd (snd ?r))) [''srv'', ''users'', ''u'', ''threads'', ''t'', ''user-data'', ''workspace'', ''a''] \<noteq>
      text_at demo_host [''srv'', ''users'', ''u'', ''threads'', ''t'', ''user-data'', ''workspace'', ''a'']"
    using demo_written by (simp add: result_text_def text_at_def demo_host_def)
  have data: "rt_thread_data demo_runtime = Some demo_thread_data" by (simp add: demo_runtime_def)
  show ?thesis
    using threads_isolated [OF lexical_resolves demo_thread_facts(4,1,3) maps demo_thread_facts(2) data demo_thread_facts(5) run changed] by blast
qed

section \<open>Where the intent is missed\<close>

text \<open>A mount with a relative host path is left out by the provider but still counts for the tools: the container path is opened on the host.\<close>

theorem skipped_mount_opens_host:
  "result_text (demo_run [demo_mount ''data'' ''/etc/app''] (Write_File ''hi'' False) ''/etc/app/conf'' demo_host) [''etc'', ''app'', ''conf''] = Some ''hi''"
  by code_simp

text \<open>A mount whose container path lies above the program's own directory diverts the files of threads: their host paths are translated again.\<close>

theorem thread_file_diverted:
  "result_text (demo_run [demo_mount ''/data'' ''/srv''] (Write_File ''hi'' False) ''/mnt/user-data/workspace/a'' demo_host)
     [''data'', ''users'', ''u'', ''threads'', ''t'', ''user-data'', ''workspace'', ''a''] = Some ''hi''"
  by code_simp

text \<open>A mount written with a final slash is mapped by the provider and refused by the tools.\<close>

theorem slashed_mount_refused:
  "fst (demo_run [demo_mount ''/data'' ''/mnt/data/''] (Write_File ''hi'' False) ''/mnt/data/a'' demo_host) = Inl PermissionError \<and>
   resolve_path lexical (sb_mappings (demo_sandbox [demo_mount ''/data'' ''/mnt/data/''])) ''/mnt/data/a'' = Inr ''/data/a''"
  by code_simp

text \<open>A text that mentions a container path leading out of its directory cannot be written.\<close>

theorem content_decides_access:
  "fst (demo_run [] (Write_File ''see /mnt/user-data/../x'' False) ''/mnt/user-data/workspace/a'' demo_host) = Inl PermissionError"
  by code_simp

text \<open>Of two occurrences the first is replaced, without an error.\<close>

theorem replaces_first_of_many:
  "result_text (demo_run [] (Str_Replace ''x'' ''y'' False) ''/mnt/user-data/workspace/a''
     (snd (snd (snd (demo_run [] (Write_File ''x x'' False) ''/mnt/user-data/workspace/a'' demo_host)))))
     [''srv'', ''users'', ''u'', ''threads'', ''t'', ''user-data'', ''workspace'', ''a''] = Some ''y x''"
  by code_simp

text \<open>The reading tool looks for legacy skills in another directory than the one the sandbox has for them.\<close>

theorem legacy_skill_not_found:
  "read_target lexical (demo_settings []) [] \<lparr>sd_skills_host = Some ''/skills'', sd_user_custom = ''/srv/users/u/skills/custom'', sd_acp_host = None\<rparr>
     (Some demo_thread_data) ''/mnt/skills/legacy/s/SKILL.md'' = Inr ''/skills/legacy/s/SKILL.md'' \<and>
   resolve_path lexical (sb_mappings (demo_sandbox [])) ''/mnt/skills/legacy/s/SKILL.md'' = Inr ''/skills/custom/s/SKILL.md''"
  by code_simp

end
