(* ===== verification/Gated_Files.thy ===== *)
theory Gated_Files
  imports Sandbox_Properties
begin

text \<open>
  The gate of \<open>Read_Before_Write\<close> around the file tools of \<open>Sandbox_Tools\<close>: the gate reads through the sandbox, with the rules of the reading tool, and the
  tools behind it are the ones that write and replace.
\<close>

section \<open>The composition\<close>

type_synonym tool_files = "tool_runtime \<times> local_sandbox \<times> host"

text \<open>\<^verbatim>\<open>_content_reader\<close> of the gate is \<^verbatim>\<open>read_current_file_content\<close>; a missing file is told from every other failure.\<close>

definition content_reader :: "resolver \<Rightarrow> sandbox_settings \<Rightarrow> mount_config list \<Rightarrow> shared_dirs \<Rightarrow> tool_files \<Rightarrow> string \<Rightarrow> read_outcome" where
  "content_reader rp ss mounts sd fs s =
     (case fs of (rt, sb, h) \<Rightarrow>
        (case fst (read_current_file_content rp ss mounts sd s rt sb h) of
           Inr content \<Rightarrow> Content content
         | Inl FileNotFoundError \<Rightarrow> File_Not_Found
         | Inl _ \<Rightarrow> Read_Failed))"

text \<open>The message made of an answer is an argument.\<close>

definition file_tool_handler ::
  "resolver \<Rightarrow> sandbox_settings \<Rightarrow> mount_config list \<Rightarrow> string option \<Rightarrow> (file_error + string \<Rightarrow> tool_message) \<Rightarrow> file_tool \<Rightarrow> string \<Rightarrow> tool_files \<Rightarrow> tool_result \<times> tool_files" where
  "file_tool_handler rp ss mounts max_env say tool s fs =
     (case fs of (rt, sb, h) \<Rightarrow>
        (case run_file_tool rp ss mounts max_env tool s rt sb h of (answer, rt, sb, h) \<Rightarrow> (Message_Result (say answer), rt, sb, h)))"

section \<open>What is written can be read\<close>

lemma validated_for_reading: "validate_local_tool_path ss mounts s td False = Inr () \<Longrightarrow> validate_local_tool_path ss mounts s td True = Inr ()"
  by (auto simp: validate_local_tool_path_def err_simps split: if_splits option.splits)

lemma read_target_written:
  assumes "write_target rp ss mounts td s = Inr t" shows "read_target rp ss mounts sd td s = Inr t"
proof -
  have v: "validate_local_tool_path ss mounts s td False = Inr ()" using assms by (auto simp: write_target_def err_simps)
  from validated_for_writing [OF v] validated_for_reading [OF v] v assms show ?thesis by (simp add: read_target_def write_target_def)
qed

text \<open>Making folders changes neither files nor permissions.\<close>

definition same_files :: "host \<Rightarrow> host \<Rightarrow> bool" where
  "same_files h h' \<longleftrightarrow> (\<forall>p. h_nodes h p \<noteq> None \<longrightarrow> h_nodes h' p = h_nodes h p) \<and>
     (\<forall>p. h_nodes h' p \<noteq> h_nodes h p \<longrightarrow> h_nodes h' p = Some Folder) \<and> h_denied h' = h_denied h"

lemma same_files_refl: "same_files h h"
  by (simp add: same_files_def)

lemma same_files_trans: "same_files a b \<Longrightarrow> same_files b c \<Longrightarrow> same_files a c"
  unfolding same_files_def by metis

lemma make_folders_same: "same_files h (snd (make_folders ps h))"
proof (induction ps h rule: make_folders.induct)
  case (2 p ps h)
  have "same_files h (h\<lparr>h_nodes := (h_nodes h)(p := Some Folder)\<rparr>)" if "h_nodes h p = None"
    using that by (auto simp: same_files_def)
  with 2 same_files_trans show ?case by (auto simp: same_files_refl split: option.split node.split)
qed (simp add: same_files_refl)

lemma same_files_text: "same_files h h' \<Longrightarrow> h_nodes h p = Some (Text_File s) \<Longrightarrow> h_nodes h' p = Some (Text_File s)"
  unfolding same_files_def by (metis option.distinct(1))

lemma same_files_obstructed: "same_files h h' \<Longrightarrow> obstructed h' p = obstructed h p"
proof -
  assume s: "same_files h h'"
  have "is_file (h_nodes h' q) = is_file (h_nodes h q)" for q
  proof (cases "h_nodes h' q = h_nodes h q")
    case False
    with s have "h_nodes h' q = Some Folder" "h_nodes h q = None" unfolding same_files_def by metis+
    then show ?thesis by (simp add: is_file_def)
  qed simp
  then show ?thesis by (simp add: obstructed_def)
qed

lemma written_readable:
  assumes "open_write rp s new h = (r, h')" "h_nodes h' p \<noteq> h_nodes h p" "h_nodes h p = Some (Text_File old)"
  shows "p = rp s \<and> s \<noteq> [] \<and> \<not> obstructed h p \<and> last s \<noteq> CHR ''/'' \<and> \<not> h_denied h p"
  using assms by (auto simp: open_write_def Let_def split: if_split_asm)

lemma write_file_readable:
  assumes w: "write_file rp s content add sb h = (r, sb', h')" and ch: "text_at h' p \<noteq> text_at h p" and old: "text_at h p = Some old"
  obtains t where "resolve_path rp (sb_mappings sb) s = Inr t" "open_read rp h t = Inr (universal_newlines old)"
proof -
  let ?c = "ebind (resolve_paths_in_content rp (sb_mappings sb) content) (\<lambda>t. Inr (written_text add t))"
  obtain r0 h0 where e: "write_resolved rp sb h s ?c = (r0, h0)" by fastforce
  with w have h0: "h0 = h'" by (cases r0) (auto simp: write_file_def)
  obtain t m where t: "resolve_path_with_mapping rp (sb_mappings sb) s = Inr (t, m)"
    using write_resolved_texts [OF e, of p] ch h0 by (auto simp: may_write_def)
  have ro: "\<not> is_resolved_path_read_only rp (sb_mappings sb) (t, m)" using e ch h0 t by (auto simp: write_resolved_def)
  obtain r1 h1 where d: "(if dirname t = [] then (Inr (), h) else makedirs rp (dirname t) h) = (r1, h1)" by fastforce
  have same: "same_files h h1" using d make_folders_same [of h] same_files_refl [of h] by (auto simp: makedirs_def Let_def split: if_splits) (metis snd_conv)+
  have n: "h_nodes h p = Some (Text_File old)" using old by (simp add: text_at_def split: option.splits node.splits)
  have n1: "h_nodes h1 p = Some (Text_File old)" by (rule same_files_text [OF same n])
  have e': "write_resolved rp sb h s ?c = (case (r1, h1) of (Inl e, h) \<Rightarrow> (Inl e, h)
     | (Inr _, h) \<Rightarrow> (case ?c of Inl e \<Rightarrow> (Inl e, h) | Inr new \<Rightarrow> open_write rp t new h))"
    by (simp only: write_resolved_def t ro sum.case if_False) (simp only: fst_conv d)
  have changed: "h_nodes h0 p \<noteq> h_nodes h1 p" using ch h0 n n1 old by (auto simp: text_at_def)
  then obtain new where "open_write rp t new h1 = (r0, h0)" using e e' by (cases r1; cases ?c) auto
  from written_readable [OF this changed n1] have o: "p = rp t" "t \<noteq> []" "\<not> obstructed h1 p" "last t \<noteq> CHR ''/''" "\<not> h_denied h1 p" by auto
  have "\<not> obstructed h p" "\<not> h_denied h p" using o same same_files_obstructed [OF same] by (auto simp: same_files_def)
  then have "open_read rp h t = Inr (universal_newlines old)" using o n by (simp add: open_read_def Let_def)
  then show ?thesis using that [of t] t by (simp add: resolve_path_def)
qed

text \<open>The gate sees the text that a tool is about to change, as the reading tool gives it.\<close>

definition as_read :: "resolver \<Rightarrow> local_sandbox \<Rightarrow> string \<Rightarrow> string \<Rightarrow> bool" where
  "as_read rp sb old current \<longleftrightarrow>
     current = universal_newlines old \<or> current = reverse_resolve_paths_in_output rp (sb_mappings sb) (universal_newlines old)"

lemma changed_file_read:
  assumes run: "run_file_tool rp ss mounts max_env tool s rt sb h = (answer, rt', sb', h')"
    and ch: "text_at h' p \<noteq> text_at h p" and old: "text_at h p = Some old"
  shows "\<exists>current. content_reader rp ss mounts sd (rt, sb, h) s = Content current \<and> as_read rp sb old current"
proof -
  from file_tool_steps [OF run ch] obtain rt1 h1 t content add r sb1 where w: "ensure_thread_directories_exist rp rt h = (Inr (), rt1, h1)"
    "write_target rp ss mounts (rt_thread_data rt) s = Inr t" "write_file rp t content add sb h1 = (r, sb1, h')" unfolding tool_wrote_def by blast
  have e: "text_at h1 = text_at h" "rt_thread_data rt1 = rt_thread_data rt" using ensure_texts [OF w(1)] by auto
  from write_file_readable [OF w(3)] ch old e(1) obtain u where
    u: "resolve_path rp (sb_mappings sb) t = Inr u" "open_read rp h1 u = Inr (universal_newlines old)" by metis
  let ?c = "if u \<in> set (sb_agent_written sb) then reverse_resolve_paths_in_output rp (sb_mappings sb) (universal_newlines old) else universal_newlines old"
  have "fst (read_current_file_content rp ss mounts sd s rt sb h) = Inr ?c"
    using w(1) read_target_written [OF w(2), of sd] e(2) u by (simp add: read_current_file_content_def read_file_def)
  then have "content_reader rp ss mounts sd (rt, sb, h) s = Content ?c" by (simp add: content_reader_def)
  then show ?thesis by (auto simp: as_read_def)
qed

section \<open>Changes are informed\<close>


section \<open>A concrete conversation\<close>

definition demo_file_request :: "string \<Rightarrow> message list \<Rightarrow> tool_request" where
  "demo_file_request name ms = \<lparr>tr_call = [(''name'', PStr name), (''id'', PStr ''1''), (''args'', PDict [(''path'', PStr ''/mnt/user-data/workspace/a'')])],
     tr_context = PDict [(''thread_id'', PStr ''t'')], tr_sandbox = PNone, tr_messages = ms\<rparr>"

definition demo_file :: path where "demo_file = [''srv'', ''users'', ''u'', ''threads'', ''t'', ''user-data'', ''workspace'', ''a'']"

definition demo_files :: tool_files where
  "demo_files = (demo_runtime, demo_sandbox [], \<lparr>h_nodes = (\<lambda>p. if p = demo_file then Some (Text_File ''old'')
     else if prefix p demo_file \<or> take 6 p = take 6 demo_file \<and> length p = 7 then Some Folder else None), h_denied = (\<lambda>_. False)\<rparr>)"

abbreviation demo_reader :: "tool_files \<Rightarrow> string \<Rightarrow> read_outcome" where
  "demo_reader \<equiv> content_reader lexical (demo_settings []) [] \<lparr>sd_skills_host = None, sd_user_custom = [], sd_acp_host = None\<rparr>"

definition demo_read_message :: message where
  "demo_read_message = ToolMessage (marked (\<lambda>s. s) ''/mnt/user-data/workspace/a'' ''old'' demo_output)"

definition demo_chat :: "tool_files conversation" where
  "demo_chat = \<lparr>cv_messages = [demo_read_message], cv_turn = [demo_read_message], cv_files = demo_files,
     cv_seen = {(normpath ''/mnt/user-data/workspace/a'', ''old'')}\<rparr>"

lemma demo_reads: "demo_reader demo_files ''/mnt/user-data/workspace/a'' = Content ''old''"
  by code_simp

lemma demo_file_request_sel:
  "requested_path (demo_file_request name ms) = Some ''/mnt/user-data/workspace/a''" "get_key (tr_call (demo_file_request name ms)) ''name'' = PStr name"
  "tr_messages (demo_file_request name ms) = ms"
  by (simp_all add: requested_path_def demo_file_request_def get_or_def get_key_def truthy_def nonempty_text_def)

lemma demo_chat_reached:
  "(conversation_step (\<lambda>s. s) fo demo_reader)\<^sup>*\<^sup>* \<lparr>cv_messages = [], cv_turn = [], cv_files = demo_files, cv_seen = {}\<rparr> demo_chat"
proof -
  let ?s0 = "\<lparr>cv_messages = [], cv_turn = [], cv_files = demo_files, cv_seen = {}\<rparr> :: tool_files conversation"
  let ?s1 = "\<lparr>cv_messages = [demo_read_message], cv_turn = [], cv_files = demo_files, cv_seen = {(normpath ''/mnt/user-data/workspace/a'', ''old'')}\<rparr>"
  let ?r = "demo_file_request ''read_file'' []" and ?h = "\<lambda>fs :: tool_files. (Message_Result demo_output, fs)"
  have status: "tm_status demo_output \<noteq> ''error''" by (simp add: demo_output_def)
  have wrap: "wrap_tool_call (\<lambda>s. s) fo demo_reader ?r ?h demo_files =
      (Message_Result (marked (\<lambda>s. s) ''/mnt/user-data/workspace/a'' ''old'' demo_output), True, demo_files)"
    using demo_reads status by (simp add: wrap_tool_call_def gated_write_tools_def read_tools_def attach_read_mark_def uninspectable_def demo_file_request_sel)
  have seen: "read_here demo_reader ?r demo_files = {(normpath ''/mnt/user-data/workspace/a'', ''old'')}"
    using demo_reads by (auto simp: read_here_def read_tools_def demo_file_request_sel)
  have "conversation_step (\<lambda>s. s) fo demo_reader ?s0 ?s1"
    using tool_call [of ?r ?s0 ?h "\<lambda>s. s" fo demo_reader _ True demo_files] wrap seen
    by (auto simp: demo_file_request_sel result_messages_def unmarked_def demo_output_def demo_read_message_def)
  moreover have "conversation_step (\<lambda>s. s) fo demo_reader ?s1 demo_chat"
    using turn_begins [of "\<lambda>s. s" fo demo_reader ?s1] by (simp add: demo_chat_def)
  ultimately show ?thesis by (rule rtranclp.rtrancl_into_rtrancl [OF r_into_rtranclp])
qed

abbreviation demo_write :: "tool_result \<times> bool \<times> tool_files" where
  "demo_write \<equiv> wrap_tool_call (\<lambda>s. s) (\<lambda>s. (s, 0)) demo_reader (demo_file_request ''write_file'' [demo_read_message])
     (file_tool_handler lexical (demo_settings []) [] None (\<lambda>_. demo_output) (Write_File ''new'' False) ''/mnt/user-data/workspace/a'') demo_files"

lemma demo_changed: "text_at (snd (snd (snd (snd demo_write)))) demo_file = Some ''new''"
  by code_simp


end
