(* ===== verification/Gateway_Requests.thy ===== *)
theory Gateway_Requests
  imports Saas_Authorization Storage_Paths
begin

text \<open>
  Requests of the Gateway and the outer of its two guards: \<^verbatim>\<open>app/gateway/csrf_middleware.py\<close>, with the switch
  \<^verbatim>\<open>auth_disabled.py\<close> and the internal token of \<^verbatim>\<open>internal_auth.py\<close>. A request is what Starlette hands out: decoded path, headers with
  lower-case names, cookies. The inner application is a function on the state, and an exception it does not answer is \<open>Crash\<close>.
\<close>

section \<open>Requests and answers\<close>

record gateway_request =
  gr_method :: string
  gr_path :: string
  gr_scheme :: string
  gr_netloc :: string
  gr_headers :: "(string, string) dict"
  gr_cookies :: "(string, string) dict"
  gr_client :: "string option"

definition header :: "gateway_request \<Rightarrow> string \<Rightarrow> string option" where
  "header rq name = dget (gr_headers rq) (str_lower name)"

definition cookie :: "gateway_request \<Rightarrow> string \<Rightarrow> string option" where
  "cookie rq name = dget (gr_cookies rq) name"

text \<open>\<^verbatim>\<open>AuthErrorCode\<close>, and the two shapes of an error's detail.\<close>

datatype auth_error_code =
    INVALID_CREDENTIALS | TOKEN_EXPIRED | TOKEN_INVALID | USER_NOT_FOUND | EMAIL_ALREADY_EXISTS | PROVIDER_NOT_FOUND
  | NOT_AUTHENTICATED | SYSTEM_ALREADY_INITIALIZED

datatype body = Detail string | Auth_Detail auth_error_code string | Json "(string, pyval) dict"

record set_cookie =
  ck_key :: string
  ck_value :: string
  ck_httponly :: bool
  ck_secure :: bool
  ck_samesite :: string
  ck_max_age :: "nat option"

record gateway_response =
  gp_status :: nat
  gp_body :: body
  gp_cookies :: "set_cookie list"

datatype outcome = Answer gateway_response | Crash string

definition refuse :: "nat \<Rightarrow> string \<Rightarrow> outcome" where
  "refuse status message = Answer \<lparr>gp_status = status, gp_body = Detail message, gp_cookies = []\<rparr>"

definition auth_refuse :: "nat \<Rightarrow> auth_error_code \<Rightarrow> string \<Rightarrow> outcome" where
  "auth_refuse status code message = Answer \<lparr>gp_status = status, gp_body = Auth_Detail code message, gp_cookies = []\<rparr>"

text \<open>The process: its environment, the internal token it loaded or drew at start, the lifetime of sessions in days, and the SHA-256 digest.\<close>

record gateway_settings =
  gw_environ :: "(string, string) dict"
  gw_internal_token :: string
  gw_token_expiry_days :: nat
  gw_sha256 :: "string \<Rightarrow> string"

section \<open>Trusted callers\<close>

definition is_explicit_production_environment :: "gateway_settings \<Rightarrow> bool" where
  "is_explicit_production_environment gw =
     list_ex (\<lambda>name. str_lower (str_strip (environ_get (gw_environ gw) name '''')) \<in> set [''prod'', ''production'']) [''DEER_FLOW_ENV'', ''ENVIRONMENT'']"

definition is_auth_disabled_requested :: "gateway_settings \<Rightarrow> bool" where
  "is_auth_disabled_requested gw \<longleftrightarrow> dget (gw_environ gw) ''DEER_FLOW_AUTH_DISABLED'' = Some ''1''"

definition is_auth_disabled :: "gateway_settings \<Rightarrow> bool" where
  "is_auth_disabled gw \<longleftrightarrow> is_auth_disabled_requested gw \<and> \<not> is_explicit_production_environment gw"

definition load_internal_auth_token :: "(string, string) dict \<Rightarrow> string \<Rightarrow> string" where
  "load_internal_auth_token env drawn =
     (case dget env ''DEER_FLOW_INTERNAL_AUTH_TOKEN'' of Some token \<Rightarrow> if token \<noteq> '''' then token else drawn | None \<Rightarrow> drawn)"

definition internal_auth_header :: string where "internal_auth_header = ''X-DeerFlow-Internal-Token''"
definition internal_owner_header :: string where "internal_owner_header = ''X-DeerFlow-Owner-User-Id''"

definition create_internal_auth_headers :: "gateway_settings \<Rightarrow> string option \<Rightarrow> (string, string) dict" where
  "create_internal_auth_headers gw owner_user_id =
     (internal_auth_header, gw_internal_token gw) #
     (case owner_user_id of Some owner \<Rightarrow> if owner \<noteq> '''' then [(internal_owner_header, owner)] else [] | None \<Rightarrow> [])"

text \<open>\<open>None\<close> is the \<^verbatim>\<open>TypeError\<close> of \<^verbatim>\<open>compare_digest\<close>.\<close>

definition is_valid_internal_auth_token :: "gateway_settings \<Rightarrow> string option \<Rightarrow> bool option" where
  "is_valid_internal_auth_token gw token =
     (case token of
        None \<Rightarrow> Some False
      | Some t \<Rightarrow> if t = '''' then Some False else compare_digest t (gw_internal_token gw))"

definition is_trusted_internal_request :: "gateway_settings \<Rightarrow> gateway_request \<Rightarrow> bool option" where
  "is_trusted_internal_request gw rq = is_valid_internal_auth_token gw (header rq internal_auth_header)"

section \<open>Origins\<close>

definition host_with_optional_port :: "string \<Rightarrow> nat option \<Rightarrow> string \<Rightarrow> string" where
  "host_with_optional_port hostname port scheme =
     (let lowered = str_lower hostname;
          host = (if CHR '':'' \<in> set lowered \<and> \<not> starts_with lowered ''['' then ''['' @ lowered @ '']'' else lowered)
      in case port of
           None \<Rightarrow> host
         | Some p \<Rightarrow> if scheme = ''http'' \<and> p = 80 \<or> scheme = ''https'' \<and> p = 443 then host else host @ '':'' @ nat_str p)"

definition normalize_origin :: "string \<Rightarrow> string option" where
  "normalize_origin origin =
     (case urlsplit (str_strip origin) of
        None \<Rightarrow> None
      | Some parsed \<Rightarrow>
          (case netloc_port parsed of
             None \<Rightarrow> None
           | Some port \<Rightarrow>
               let scheme = str_lower (su_scheme parsed) in
               if scheme \<notin> set [''http'', ''https''] \<or> su_hostname parsed = '''' then None
               else if su_username parsed \<noteq> '''' \<or> su_password parsed \<noteq> '''' \<or> \<not> bare_tail (url_tail (str_strip origin) parsed) then None
               else Some (scheme @ ''://'' @ host_with_optional_port (su_hostname parsed) port scheme)))"

definition configured_cors_origins :: "gateway_settings \<Rightarrow> string list" where
  "configured_cors_origins gw =
     List.map_filter (\<lambda>raw. let origin = str_strip raw in if origin = '''' \<or> origin = ''*'' then None else normalize_origin origin)
       (split_on (CHR '','') (environ_get (gw_environ gw) ''GATEWAY_CORS_ORIGINS'' ''''))"

text \<open>\<^verbatim>\<open>a or b\<close> on optional texts, and \<^verbatim>\<open>first or None\<close>.\<close>

definition nonempty :: "string \<Rightarrow> string option" where "nonempty s = (if s = '''' then None else Some s)"

definition or_else :: "string option \<Rightarrow> string option \<Rightarrow> string option" where
  "or_else a b = (case a of Some s \<Rightarrow> if s = '''' then b else a | None \<Rightarrow> b)"

definition first_header_value :: "string option \<Rightarrow> string option" where
  "first_header_value v = (case v of None \<Rightarrow> None | Some s \<Rightarrow> nonempty (str_strip (takeWhile (\<lambda>c. c \<noteq> CHR '','') s)))"

definition strip_quotes :: "string \<Rightarrow> string" where
  "strip_quotes s = rev (dropWhile (\<lambda>c. c = CHR 0x22) (rev (dropWhile (\<lambda>c. c = CHR 0x22) s)))"

fun find_param :: "string \<Rightarrow> string list \<Rightarrow> string option" where
  "find_param name [] = None"
| "find_param name (part # parts) =
     (case partition_at (CHR ''='') (str_strip part) of
        Some (key, v) \<Rightarrow> if str_lower key = name then nonempty (strip_quotes (str_strip v)) else find_param name parts
      | None \<Rightarrow> find_param name parts)"

definition forwarded_param :: "gateway_request \<Rightarrow> string \<Rightarrow> string option" where
  "forwarded_param rq name =
     (case first_header_value (header rq ''forwarded'') of
        None \<Rightarrow> None
      | Some forwarded \<Rightarrow> find_param name (split_on (CHR '';'') forwarded))"

definition request_scheme :: "gateway_request \<Rightarrow> string" where
  "request_scheme rq =
     str_lower (the (or_else (forwarded_param rq ''proto'') (or_else (first_header_value (header rq ''x-forwarded-proto'')) (Some (gr_scheme rq)))))"

definition is_secure_request :: "gateway_request \<Rightarrow> bool" where
  "is_secure_request rq \<longleftrightarrow> request_scheme rq = ''https''"

definition request_origin :: "gateway_request \<Rightarrow> string option" where
  "request_origin rq =
     (let host = the (or_else (forwarded_param rq ''host'') (or_else (first_header_value (header rq ''x-forwarded-host''))
            (or_else (header rq ''host'') (Some (gr_netloc rq)))));
          after_bracket = (case rpartition_at (CHR '']'') host of None \<Rightarrow> host | Some (_, rest) \<Rightarrow> rest);
          full = (case first_header_value (header rq ''x-forwarded-port'') of
             Some port \<Rightarrow> if CHR '':'' \<notin> set after_bracket then host @ '':'' @ port else host
           | None \<Rightarrow> host)
      in normalize_origin (request_scheme rq @ ''://'' @ full))"

definition is_allowed_auth_origin :: "gateway_settings \<Rightarrow> gateway_request \<Rightarrow> bool" where
  "is_allowed_auth_origin gw rq =
     (case or_else (header rq ''origin'') None of
        None \<Rightarrow> True
      | Some origin \<Rightarrow>
          (case normalize_origin origin of
             None \<Rightarrow> False
           | Some normalized \<Rightarrow> normalized \<in> set (configured_cors_origins gw) \<or> request_origin rq = Some normalized))"

section \<open>The CSRF guard\<close>

definition csrf_cookie_name :: string where "csrf_cookie_name = ''csrf_token''"
definition csrf_header_name :: string where "csrf_header_name = ''X-CSRF-Token''"

definition state_changing_methods :: "string list" where "state_changing_methods = [''POST'', ''PUT'', ''DELETE'', ''PATCH'']"

definition should_check_csrf :: "gateway_settings \<Rightarrow> gateway_request \<Rightarrow> bool option" where
  "should_check_csrf gw rq =
     (if gr_method rq \<notin> set state_changing_methods then Some False
      else if is_auth_disabled gw then Some False
      else case is_trusted_internal_request gw rq of
        None \<Rightarrow> None
      | Some True \<Rightarrow> Some False
      | Some False \<Rightarrow> Some (rstrip_slashes (gr_path rq) \<noteq> ''/api/v1/auth/me'' \<and> \<not> starts_with (gr_path rq) ''/api/webhooks/''))"

definition auth_exempt_paths :: "string list" where
  "auth_exempt_paths = [''/api/v1/auth/login/local'', ''/api/v1/auth/logout'', ''/api/v1/auth/register'', ''/api/v1/auth/initialize'']"

definition is_auth_endpoint :: "gateway_request \<Rightarrow> bool" where
  "is_auth_endpoint rq \<longleftrightarrow> rstrip_slashes (gr_path rq) \<in> set auth_exempt_paths"

definition session_max_age :: "gateway_settings \<Rightarrow> gateway_request \<Rightarrow> nat option" where
  "session_max_age gw rq = (if is_secure_request rq then Some (gw_token_expiry_days gw * 24 * 3600) else None)"

definition csrf_cookie :: "gateway_settings \<Rightarrow> gateway_request \<Rightarrow> string \<Rightarrow> set_cookie" where
  "csrf_cookie gw rq token =
     \<lparr>ck_key = csrf_cookie_name, ck_value = token, ck_httponly = False, ck_secure = is_secure_request rq, ck_samesite = ''strict'',
      ck_max_age = session_max_age gw rq\<rparr>"

text \<open>The double submit: \<open>Inr ()\<close>, the refusal, or the exception of the comparison.\<close>

definition double_submit :: "gateway_request \<Rightarrow> outcome + unit" where
  "double_submit rq =
     (case (or_else (cookie rq csrf_cookie_name) None, or_else (header rq csrf_header_name) None) of
        (Some cookie_token, Some header_token) \<Rightarrow>
          (case compare_digest cookie_token header_token of
             None \<Rightarrow> Inl (Crash ''TypeError'')
           | Some same \<Rightarrow> if same then Inr () else Inl (refuse 403 ''CSRF token mismatch.''))
      | _ \<Rightarrow> Inl (refuse 403 ''CSRF token missing. Include X-CSRF-Token header.''))"

definition csrf_check :: "gateway_settings \<Rightarrow> gateway_request \<Rightarrow> outcome + unit" where
  "csrf_check gw rq =
     (case should_check_csrf gw rq of
        None \<Rightarrow> Inl (Crash ''TypeError'')
      | Some False \<Rightarrow> Inr ()
      | Some True \<Rightarrow>
          if is_auth_endpoint rq
          then if is_allowed_auth_origin gw rq then Inr () else Inl (refuse 403 ''Cross-site auth request denied.'')
          else double_submit rq)"

text \<open>\<open>drawn\<close> is the token \<^verbatim>\<open>generate_csrf_token\<close> draws.\<close>

definition csrf_dispatch ::
  "gateway_settings \<Rightarrow> string \<Rightarrow> gateway_request \<Rightarrow> ('s \<Rightarrow> outcome \<times> 's) \<Rightarrow> 's \<Rightarrow> outcome \<times> 's" where
  "csrf_dispatch gw drawn rq call_next s =
     (case csrf_check gw rq of
        Inl refused \<Rightarrow> (refused, s)
      | Inr _ \<Rightarrow>
          (case call_next s of
             (Crash e, s') \<Rightarrow> (Crash e, s')
           | (Answer r, s') \<Rightarrow>
               (Answer (if is_auth_endpoint rq \<and> gr_method rq = ''POST''
                  then r\<lparr>gp_cookies := gp_cookies r @ [csrf_cookie gw rq drawn]\<rparr> else r), s')))"

section \<open>What the guard lets through\<close>

lemma or_else_None: "or_else a None = Some s \<longleftrightarrow> a = Some s \<and> s \<noteq> ''''"
  by (cases a) (auto simp: or_else_def)

lemma compare_digest_True: "compare_digest a b = Some True \<Longrightarrow> a = b"
  by (simp add: compare_digest_def split: if_split_asm)

lemma double_submit_passes:
  assumes "double_submit rq = Inr u"
  shows "\<exists>t. t \<noteq> '''' \<and> cookie rq csrf_cookie_name = Some t \<and> header rq csrf_header_name = Some t"
  using assms or_else_None compare_digest_True
  by (auto simp: double_submit_def refuse_def split: option.split_asm if_split_asm bool.split_asm)

text \<open>A request passes when it needs no check, comes to a session endpoint from an allowed origin, or submits its token twice.\<close>

definition double_submitted :: "gateway_request \<Rightarrow> bool" where
  "double_submitted rq \<longleftrightarrow> (\<exists>t. t \<noteq> '''' \<and> cookie rq csrf_cookie_name = Some t \<and> header rq csrf_header_name = Some t)"

lemma csrf_check_passes:
  assumes "csrf_check gw rq = Inr u" and "gr_method rq \<in> set state_changing_methods"
    and "\<not> is_auth_disabled gw" and "is_trusted_internal_request gw rq \<noteq> Some True"
    and "\<not> is_auth_endpoint rq" and "rstrip_slashes (gr_path rq) \<noteq> ''/api/v1/auth/me''" and "\<not> starts_with (gr_path rq) ''/api/webhooks/''"
  shows "double_submitted rq"
  unfolding double_submitted_def using assms
  by (intro double_submit_passes) (auto simp: csrf_check_def should_check_csrf_def split: option.split_asm bool.split_asm)

lemma session_endpoint_path:
  assumes "is_auth_endpoint rq"
  shows "starts_with (gr_path rq) ''/api/v1/auth/''"
proof -
  obtain n where "gr_path rq = rstrip_slashes (gr_path rq) @ replicate n (CHR ''/'')" by (rule rstrip_slashes_split)
  then show ?thesis using assms by (auto simp: is_auth_endpoint_def auth_exempt_paths_def)
qed

lemma starts_with_branch: "starts_with s ''/api/v1/auth/'' \<Longrightarrow> \<not> starts_with s ''/api/webhooks/''"
  by (auto simp: starts_with_append)

text \<open>A browser on a foreign origin cannot open, close or create a session for its user.\<close>

theorem foreign_origin_refused:
  assumes "is_auth_endpoint rq" and "gr_method rq = ''POST''" and "header rq ''origin'' = Some origin" and "origin \<noteq> ''''"
    and "\<forall>n. normalize_origin origin = Some n \<longrightarrow> n \<notin> set (configured_cors_origins gw) \<and> request_origin rq \<noteq> Some n"
    and "\<not> is_auth_disabled gw" and "is_trusted_internal_request gw rq = Some False"
  shows "csrf_dispatch gw drawn rq call_next s = (refuse 403 ''Cross-site auth request denied.'', s)"
proof -
  have "rstrip_slashes (gr_path rq) \<noteq> ''/api/v1/auth/me''" using assms(1) by (auto simp: is_auth_endpoint_def auth_exempt_paths_def)
  moreover have "\<not> starts_with (gr_path rq) ''/api/webhooks/''" by (rule starts_with_branch [OF session_endpoint_path [OF assms(1)]])
  ultimately have "should_check_csrf gw rq = Some True" using assms by (simp add: should_check_csrf_def state_changing_methods_def)
  moreover have "\<not> is_allowed_auth_origin gw rq" using assms(3-5) by (auto simp: is_allowed_auth_origin_def or_else_def split: option.split)
  ultimately show ?thesis using assms(1) by (simp add: csrf_dispatch_def csrf_check_def)
qed

lemma csrf_dispatch_state:
  "snd (csrf_dispatch gw drawn rq k s) = (case csrf_check gw rq of Inl _ \<Rightarrow> s | Inr _ \<Rightarrow> snd (k s))"
  by (auto simp: csrf_dispatch_def split: sum.split prod.split outcome.split)

end
