(* ===== verification/Gateway_Accounts.thy ===== *)
theory Gateway_Accounts
  imports Gateway_Requests
begin

text \<open>
  Accounts and sessions of the Gateway: \<^verbatim>\<open>app/gateway/auth\<close> (users, passwords, session tokens, the local provider and its table) and the
  handlers of \<^verbatim>\<open>routers/auth.py\<close> with their limit on failed logins. PyJWT, bcrypt, the digest of \<^verbatim>\<open>_pre_hash_v2\<close>, Pydantic's reading of a
  token's claims and the address arithmetic of \<^verbatim>\<open>ipaddress\<close> are arguments. The table enforces what \<^verbatim>\<open>UserRow\<close> declares unique: the
  id, the email, and the pair of provider and subject where both are given. A request reads the clock once and runs alone.
\<close>

section \<open>Users\<close>

record user =
  u_id :: string
  u_email :: string
  u_password_hash :: "string option"
  u_system_role :: string
  u_created_at :: rat
  u_oauth_provider :: "string option"
  u_oauth_id :: "string option"
  u_needs_setup :: bool
  u_token_version :: int

datatype user_error = ValueError_Duplicate | IntegrityError | UserNotFoundError

definition get_user_by_id :: "user list \<Rightarrow> string \<Rightarrow> user option" where
  "get_user_by_id users uid = List.find (\<lambda>u. u_id u = uid) users"

definition get_user_by_email :: "user list \<Rightarrow> string \<Rightarrow> user option" where
  "get_user_by_email users email = List.find (\<lambda>u. u_email u = email) users"

definition same_identity :: "user \<Rightarrow> user \<Rightarrow> bool" where
  "same_identity u v \<longleftrightarrow> u_oauth_provider u \<noteq> None \<and> u_oauth_id u \<noteq> None \<and> u_oauth_provider u = u_oauth_provider v \<and> u_oauth_id u = u_oauth_id v"

definition create_user_row :: "user list \<Rightarrow> user \<Rightarrow> user_error + user list" where
  "create_user_row users user =
     (if list_ex (\<lambda>v. u_id v = u_id user \<or> u_email v = u_email user \<or> same_identity user v) users then Inl ValueError_Duplicate
      else Inr (users @ [user]))"

definition written_row :: "user \<Rightarrow> user \<Rightarrow> user" where
  "written_row user row =
     row\<lparr>u_email := u_email user, u_password_hash := u_password_hash user, u_system_role := u_system_role user,
         u_oauth_provider := u_oauth_provider user, u_oauth_id := u_oauth_id user, u_needs_setup := u_needs_setup user,
         u_token_version := u_token_version user\<rparr>"

definition update_user_row :: "user list \<Rightarrow> user \<Rightarrow> user_error + user list" where
  "update_user_row users user =
     (if get_user_by_id users (u_id user) = None then Inl UserNotFoundError
      else if list_ex (\<lambda>v. u_id v \<noteq> u_id user \<and> (u_email v = u_email user \<or> same_identity user v)) users then Inl IntegrityError
      else Inr (map (\<lambda>v. if u_id v = u_id user then written_row user v else v) users))"

definition count_users :: "user list \<Rightarrow> nat" where
  "count_users users = length users"

definition count_admin_users :: "user list \<Rightarrow> nat" where
  "count_admin_users users = length (filter (\<lambda>u. u_system_role u = ''admin'') users)"

definition get_user_by_oauth :: "user list \<Rightarrow> string \<Rightarrow> string \<Rightarrow> user option" where
  "get_user_by_oauth users provider subject = List.find (\<lambda>u. u_oauth_provider u = Some provider \<and> u_oauth_id u = Some subject) users"

section \<open>Passwords and session tokens\<close>

record token_payload =
  tp_sub :: string
  tp_exp :: rat
  tp_iat :: "rat option"
  tp_ver :: int

datatype jwt_failure = Expired_Signature | Invalid_Signature | Other_Jwt_Error

datatype token_error = EXPIRED | INVALID_SIGNATURE | MALFORMED

record crypto =
  cr_pre_hash :: "string \<Rightarrow> string"
  cr_hashpw :: "string \<Rightarrow> string \<Rightarrow> string"
  cr_checkpw :: "string \<Rightarrow> string \<Rightarrow> bool option"
  cr_jwt_encode :: "token_payload \<Rightarrow> string"
  cr_jwt_decode :: "rat \<Rightarrow> string \<Rightarrow> jwt_failure + (string, pyval) dict"
  cr_token_payload :: "(string, pyval) dict \<Rightarrow> token_payload option"

definition prefix_v2 :: string where "prefix_v2 = ''$dfv2$''"
definition prefix_v1 :: string where "prefix_v1 = ''$dfv1$''"

text \<open>The salt is the one \<^verbatim>\<open>bcrypt.gensalt\<close> draws.\<close>

definition hash_password :: "crypto \<Rightarrow> string \<Rightarrow> string \<Rightarrow> string" where
  "hash_password cr salt password = prefix_v2 @ cr_hashpw cr salt (cr_pre_hash cr password)"

definition verify_password :: "crypto \<Rightarrow> string \<Rightarrow> string \<Rightarrow> bool" where
  "verify_password cr plain hashed =
     (let checked =
        (if starts_with hashed prefix_v2 then cr_checkpw cr (cr_pre_hash cr plain) (drop (length prefix_v2) hashed)
         else cr_checkpw cr plain (if starts_with hashed prefix_v1 then drop (length prefix_v1) hashed else hashed))
      in checked = Some True)"

definition needs_rehash :: "string \<Rightarrow> bool" where
  "needs_rehash hashed \<longleftrightarrow> \<not> starts_with hashed prefix_v2"

definition seconds_of_days :: "nat \<Rightarrow> rat" where "seconds_of_days d = of_nat d * 86400"

definition create_access_token :: "gateway_settings \<Rightarrow> crypto \<Rightarrow> rat \<Rightarrow> string \<Rightarrow> int \<Rightarrow> string" where
  "create_access_token gw cr now user_id token_version =
     cr_jwt_encode cr \<lparr>tp_sub = user_id, tp_exp = now + seconds_of_days (gw_token_expiry_days gw), tp_iat = Some now, tp_ver = token_version\<rparr>"

text \<open>\<open>None\<close> is the validation error of \<^verbatim>\<open>TokenPayload\<close>, which nothing catches.\<close>

definition decode_token :: "crypto \<Rightarrow> rat \<Rightarrow> string \<Rightarrow> (token_error + token_payload) option" where
  "decode_token cr now token =
     (case cr_jwt_decode cr now token of
        Inl Expired_Signature \<Rightarrow> Some (Inl EXPIRED)
      | Inl Invalid_Signature \<Rightarrow> Some (Inl INVALID_SIGNATURE)
      | Inl Other_Jwt_Error \<Rightarrow> Some (Inl MALFORMED)
      | Inr claims \<Rightarrow> map_option Inr (cr_token_payload cr claims))"

definition token_error_to_code :: "token_error \<Rightarrow> auth_error_code" where
  "token_error_to_code err = (if err = EXPIRED then TOKEN_EXPIRED else TOKEN_INVALID)"

definition token_error_text :: "token_error \<Rightarrow> string" where
  "token_error_text err = (case err of EXPIRED \<Rightarrow> ''expired'' | INVALID_SIGNATURE \<Rightarrow> ''invalid_signature'' | MALFORMED \<Rightarrow> ''malformed'')"

section \<open>The local provider\<close>

definition authenticate :: "crypto \<Rightarrow> string \<Rightarrow> string \<Rightarrow> string \<Rightarrow> user list \<Rightarrow> user option \<times> user list" where
  "authenticate cr salt email password users =
     (if email = '''' \<or> password = '''' then (None, users)
      else case get_user_by_email users email of
        None \<Rightarrow> (None, users)
      | Some user \<Rightarrow>
          (case u_password_hash user of
             None \<Rightarrow> (None, users)
           | Some hashed \<Rightarrow>
               if \<not> verify_password cr password hashed then (None, users)
               else if needs_rehash hashed then
                 let upgraded = user\<lparr>u_password_hash := Some (hash_password cr salt password)\<rparr> in
                 (Some upgraded, case update_user_row users upgraded of Inl _ \<Rightarrow> users | Inr users' \<Rightarrow> users')
               else (Some user, users)))"

text \<open>\<open>new_id\<close> is the UUID drawn for the account.\<close>

definition create_user ::
  "crypto \<Rightarrow> string \<Rightarrow> string \<Rightarrow> rat \<Rightarrow> string \<Rightarrow> string \<Rightarrow> string \<Rightarrow> bool \<Rightarrow> user list \<Rightarrow> user_error + user \<times> user list" where
  "create_user cr salt new_id now email password system_role needs_setup users =
     (let user = \<lparr>u_id = new_id, u_email = email,
            u_password_hash = (if password \<noteq> '''' then Some (hash_password cr salt password) else None),
            u_system_role = system_role, u_created_at = now, u_oauth_provider = None, u_oauth_id = None,
            u_needs_setup = needs_setup, u_token_version = 0\<rparr>
      in ebind (create_user_row users user) (\<lambda>users'. Inr (user, users')))"

section \<open>Failed logins\<close>

type_synonym attempts = "(string, nat \<times> rat) dict"

definition max_login_attempts :: nat where "max_login_attempts = 5"
definition lockout_seconds :: rat where "lockout_seconds = 300"
definition max_tracked_ips :: int where "max_tracked_ips = 10000"

text \<open>\<^verbatim>\<open>ip_network\<close> and \<^verbatim>\<open>ip_address\<close>: whether an entry and an address can be read, and whether the one contains the other.\<close>

record addresses =
  ip_network_ok :: "string \<Rightarrow> bool"
  ip_address_ok :: "string \<Rightarrow> bool"
  ip_contains :: "string \<Rightarrow> string \<Rightarrow> bool"

definition trusted_proxies :: "gateway_settings \<Rightarrow> addresses \<Rightarrow> string list" where
  "trusted_proxies gw ip =
     (let raw = str_strip (environ_get (gw_environ gw) ''AUTH_TRUSTED_PROXIES'' '''') in
      if raw = '''' then []
      else filter (\<lambda>entry. entry \<noteq> '''' \<and> ip_network_ok ip entry) (map str_strip (split_on (CHR '','') raw)))"

definition get_client_ip :: "gateway_settings \<Rightarrow> addresses \<Rightarrow> gateway_request \<Rightarrow> string" where
  "get_client_ip gw ip rq =
     (let trusted = trusted_proxies gw ip;
          fallback = the (or_else (gr_client rq) (Some ''unknown''))
      in case or_else (gr_client rq) None of
           None \<Rightarrow> fallback
         | Some peer \<Rightarrow>
             if trusted \<noteq> [] \<and> ip_address_ok ip peer \<and> list_ex (\<lambda>net. ip_contains ip net peer) trusted
             then the (or_else (map_option str_strip (header rq ''x-real-ip'')) (Some fallback))
             else fallback)"

definition check_rate_limit :: "rat \<Rightarrow> string \<Rightarrow> attempts \<Rightarrow> outcome + attempts" where
  "check_rate_limit now ip table =
     (case dget table ip of
        None \<Rightarrow> Inr table
      | Some (fail_count, lock_until) \<Rightarrow>
          if fail_count \<ge> max_login_attempts
          then if now < lock_until then Inl (refuse 429 ''Too many login attempts. Try again later.'') else Inr (dpop ip table)
          else Inr table)"

definition drop_expired :: "rat \<Rightarrow> attempts \<Rightarrow> attempts" where
  "drop_expired now table = filter (\<lambda>(_, (c, t)). \<not> (c \<ge> max_login_attempts \<and> now \<ge> t)) table"

definition drop_cheapest :: "attempts \<Rightarrow> attempts" where
  "drop_cheapest table =
     (let by_time = sort_key (\<lambda>(_, (_, t)). t) table;
          gone = map fst (take (length by_time div 2) by_time)
      in filter (\<lambda>(k, _). k \<notin> set gone) table)"

definition evict_attempts :: "rat \<Rightarrow> attempts \<Rightarrow> attempts" where
  "evict_attempts now table =
     (if int (length table) \<ge> max_tracked_ips
      then let kept = drop_expired now table in if int (length kept) \<ge> max_tracked_ips then drop_cheapest kept else kept
      else table)"

definition record_login_failure :: "rat \<Rightarrow> string \<Rightarrow> attempts \<Rightarrow> attempts" where
  "record_login_failure now ip table =
     (let kept = evict_attempts now table in
      case dget kept ip of
        None \<Rightarrow> dset ip (1, 0) kept
      | Some (count, _) \<Rightarrow>
          let new_count = count + 1 in
          dset ip (new_count, if new_count \<ge> max_login_attempts then now + lockout_seconds else 0) kept)"

definition record_login_success :: "string \<Rightarrow> attempts \<Rightarrow> attempts" where
  "record_login_success ip table = dpop ip table"

section \<open>Who sends a request\<close>

text \<open>An account, the synthetic user of internal calls with the id it was given, or the synthetic administrator of auth-disabled mode.\<close>

datatype principal = Account user | Internal_User string | Disabled_User

datatype auth_source = Session | Internal | Auth_Disabled

definition default_user_id :: string where "default_user_id = ''default''"

fun principal_id :: "principal \<Rightarrow> string" where
  "principal_id (Account u) = u_id u"
| "principal_id (Internal_User i) = i"
| "principal_id Disabled_User = default_user_id"

fun system_role :: "principal \<Rightarrow> string" where
  "system_role (Account u) = u_system_role u"
| "system_role (Internal_User i) = ''internal''"
| "system_role Disabled_User = ''admin''"

text \<open>What the middleware stamps on a request: \<^verbatim>\<open>request.state.user\<close> and \<^verbatim>\<open>request.state.auth_source\<close>.\<close>

type_synonym stamp = "(principal \<times> auth_source) option"

definition get_current_user_from_request :: "crypto \<Rightarrow> rat \<Rightarrow> gateway_request \<Rightarrow> stamp \<Rightarrow> user list \<Rightarrow> outcome + principal" where
  "get_current_user_from_request cr now rq stamped users =
     (case stamped of
        Some (user, _) \<Rightarrow> Inr user
      | None \<Rightarrow>
          (case or_else (cookie rq ''access_token'') None of
             None \<Rightarrow> Inl (auth_refuse 401 NOT_AUTHENTICATED ''Not authenticated'')
           | Some access_token \<Rightarrow>
               (case decode_token cr now access_token of
                  None \<Rightarrow> Inl (Crash ''ValidationError'')
                | Some (Inl err) \<Rightarrow> Inl (auth_refuse 401 (token_error_to_code err) (''Token error: '' @ token_error_text err))
                | Some (Inr payload) \<Rightarrow>
                    (case get_user_by_id users (tp_sub payload) of
                       None \<Rightarrow> Inl (auth_refuse 401 USER_NOT_FOUND ''User not found'')
                     | Some user \<Rightarrow>
                         if u_token_version user \<noteq> tp_ver payload
                         then Inl (auth_refuse 401 TOKEN_INVALID ''Token revoked (password changed)'')
                         else Inr (Account user)))))"

text \<open>\<^verbatim>\<open>get_optional_user_from_request\<close>: an \<^verbatim>\<open>HTTPException\<close> is nobody, another exception stays one.\<close>

definition get_optional_user_from_request :: "crypto \<Rightarrow> rat \<Rightarrow> gateway_request \<Rightarrow> stamp \<Rightarrow> user list \<Rightarrow> string + principal option" where
  "get_optional_user_from_request cr now rq stamped users =
     (case get_current_user_from_request cr now rq stamped users of
        Inl (Crash e) \<Rightarrow> Inl e
      | Inl (Answer _) \<Rightarrow> Inr None
      | Inr user \<Rightarrow> Inr (Some user))"

definition require_admin_user :: "crypto \<Rightarrow> rat \<Rightarrow> gateway_request \<Rightarrow> stamp \<Rightarrow> user list \<Rightarrow> string \<Rightarrow> outcome + unit" where
  "require_admin_user cr now rq stamped users message =
     ebind (get_current_user_from_request cr now rq stamped users)
       (\<lambda>user. if system_role user \<noteq> ''admin'' then Inl (refuse 403 message) else Inr ())"

section \<open>Handlers\<close>

record accounts =
  acc_users :: "user list"
  acc_attempts :: attempts

text \<open>What a request draws: the salt of a hash and the id of an account.\<close>

record draws =
  dr_salt :: string
  dr_user_id :: string

definition session_cookie :: "gateway_settings \<Rightarrow> gateway_request \<Rightarrow> string \<Rightarrow> set_cookie" where
  "session_cookie gw rq token =
     \<lparr>ck_key = ''access_token'', ck_value = token, ck_httponly = True, ck_secure = is_secure_request rq, ck_samesite = ''lax'',
      ck_max_age = session_max_age gw rq\<rparr>"

definition common_passwords :: "string list" where
  "common_passwords =
     [''password'', ''password1'', ''password12'', ''password123'', ''password1234'', ''12345678'', ''123456789'', ''1234567890'',
      ''qwerty12'', ''qwertyui'', ''qwerty123'', ''abc12345'', ''abcd1234'', ''iloveyou'', ''letmein1'', ''welcome1'', ''welcome123'',
      ''admin123'', ''administrator'', ''passw0rd'', ''p@ssw0rd'', ''monkey12'', ''trustno1'', ''sunshine'', ''princess'', ''football'',
      ''baseball'', ''superman'', ''batman123'', ''starwars'', ''dragon123'', ''master123'', ''shadow12'', ''michael1'', ''jennifer'', ''computer'']"

definition password_is_common :: "string \<Rightarrow> bool" where
  "password_is_common password \<longleftrightarrow> str_lower password \<in> set common_passwords"

definition strong_password :: "string \<Rightarrow> bool" where
  "strong_password password \<longleftrightarrow> length password \<ge> 8 \<and> \<not> password_is_common password"

definition user_response :: "user \<Rightarrow> bool \<Rightarrow> (string, pyval) dict" where
  "user_response u needs_setup =
     [(''id'', PStr (u_id u)), (''email'', PStr (u_email u)), (''system_role'', PStr (u_system_role u)), (''needs_setup'', PBool needs_setup),
      (''oauth_provider'', case u_oauth_provider u of None \<Rightarrow> PNone | Some p \<Rightarrow> PStr p)]"

definition answer_json :: "nat \<Rightarrow> (string, pyval) dict \<Rightarrow> set_cookie list \<Rightarrow> outcome" where
  "answer_json status d cookies = Answer \<lparr>gp_status = status, gp_body = Json d, gp_cookies = cookies\<rparr>"

definition login_local ::
  "gateway_settings \<Rightarrow> crypto \<Rightarrow> addresses \<Rightarrow> draws \<Rightarrow> rat \<Rightarrow> gateway_request \<Rightarrow> string \<Rightarrow> string \<Rightarrow> accounts \<Rightarrow> outcome \<times> accounts" where
  "login_local gw cr ip dr now rq username password acc =
     (let client_ip = get_client_ip gw ip rq in
      case check_rate_limit now client_ip (acc_attempts acc) of
        Inl refused \<Rightarrow> (refused, acc)
      | Inr table \<Rightarrow>
          (case authenticate cr (dr_salt dr) username password (acc_users acc) of
             (None, users) \<Rightarrow>
               (auth_refuse 401 INVALID_CREDENTIALS ''Incorrect email or password'',
                acc\<lparr>acc_users := users, acc_attempts := record_login_failure now client_ip table\<rparr>)
           | (Some user, users) \<Rightarrow>
               (answer_json 200
                  [(''expires_in'', PInt (int (gw_token_expiry_days gw) * 24 * 3600)), (''needs_setup'', PBool (u_needs_setup user))]
                  [session_cookie gw rq (create_access_token gw cr now (u_id user) (u_token_version user))],
                acc\<lparr>acc_users := users, acc_attempts := record_login_success client_ip table\<rparr>)))"

text \<open>A new account is answered with its data and a session.\<close>

definition answer_created :: "gateway_settings \<Rightarrow> crypto \<Rightarrow> rat \<Rightarrow> gateway_request \<Rightarrow> user \<Rightarrow> outcome" where
  "answer_created gw cr now rq user =
     answer_json 201 (user_response user False) [session_cookie gw rq (create_access_token gw cr now (u_id user) (u_token_version user))]"

definition register ::
  "gateway_settings \<Rightarrow> crypto \<Rightarrow> draws \<Rightarrow> rat \<Rightarrow> gateway_request \<Rightarrow> string \<Rightarrow> string \<Rightarrow> accounts \<Rightarrow> outcome \<times> accounts" where
  "register gw cr dr now rq email password acc =
     (if \<not> strong_password password then (refuse 422 ''password'', acc)
      else case create_user cr (dr_salt dr) (dr_user_id dr) now email password ''user'' False (acc_users acc) of
        Inl _ \<Rightarrow> (auth_refuse 400 EMAIL_ALREADY_EXISTS ''Email already registered'', acc)
      | Inr (user, users) \<Rightarrow> (answer_created gw cr now rq user, acc\<lparr>acc_users := users\<rparr>))"

definition initialize_admin ::
  "gateway_settings \<Rightarrow> crypto \<Rightarrow> draws \<Rightarrow> rat \<Rightarrow> gateway_request \<Rightarrow> string \<Rightarrow> string \<Rightarrow> accounts \<Rightarrow> outcome \<times> accounts" where
  "initialize_admin gw cr dr now rq email password acc =
     (if \<not> strong_password password then (refuse 422 ''password'', acc)
      else if count_admin_users (acc_users acc) > 0 then (auth_refuse 409 SYSTEM_ALREADY_INITIALIZED ''System already initialized'', acc)
      else case create_user cr (dr_salt dr) (dr_user_id dr) now email password ''admin'' False (acc_users acc) of
        Inl _ \<Rightarrow>
          (if count_admin_users (acc_users acc) = 0 then auth_refuse 400 EMAIL_ALREADY_EXISTS ''Email already registered''
           else auth_refuse 409 SYSTEM_ALREADY_INITIALIZED ''System already initialized'', acc)
      | Inr (user, users) \<Rightarrow> (answer_created gw cr now rq user, acc\<lparr>acc_users := users\<rparr>))"

text \<open>The cookie is deleted by one that has expired.\<close>

definition logout :: "gateway_request \<Rightarrow> accounts \<Rightarrow> outcome \<times> accounts" where
  "logout rq acc =
     (answer_json 200 [(''message'', PStr ''Successfully logged out'')]
        [\<lparr>ck_key = ''access_token'', ck_value = '''', ck_httponly = False, ck_secure = is_secure_request rq, ck_samesite = ''lax'', ck_max_age = Some 0\<rparr>],
      acc)"

definition new_email_taken :: "user list \<Rightarrow> user \<Rightarrow> string option \<Rightarrow> bool" where
  "new_email_taken users user new_email =
     (case new_email of
        None \<Rightarrow> False
      | Some email \<Rightarrow> (case get_user_by_email users email of None \<Rightarrow> False | Some other \<Rightarrow> u_id other \<noteq> u_id user))"

definition changed_user :: "crypto \<Rightarrow> string \<Rightarrow> string \<Rightarrow> string option \<Rightarrow> user \<Rightarrow> user" where
  "changed_user cr salt new_password new_email user =
     user\<lparr>u_email := (case new_email of Some email \<Rightarrow> email | None \<Rightarrow> u_email user),
          u_password_hash := Some (hash_password cr salt new_password),
          u_token_version := u_token_version user + 1,
          u_needs_setup := u_needs_setup user \<and> new_email = None\<rparr>"

definition change_password ::
  "gateway_settings \<Rightarrow> crypto \<Rightarrow> draws \<Rightarrow> rat \<Rightarrow> gateway_request \<Rightarrow> stamp \<Rightarrow> string \<Rightarrow> string \<Rightarrow> string option \<Rightarrow> accounts \<Rightarrow>
   outcome \<times> accounts" where
  "change_password gw cr dr now rq stamped current_password new_password new_email acc =
     (if \<not> strong_password new_password then (refuse 422 ''new_password'', acc)
      else case get_current_user_from_request cr now rq stamped (acc_users acc) of
        Inl refused \<Rightarrow> (refused, acc)
      | Inr sender \<Rightarrow>
          if map_option snd stamped = Some Auth_Disabled
          then (auth_refuse 400 INVALID_CREDENTIALS ''Password changes are not available when DEER_FLOW_AUTH_DISABLED=1.'', acc)
          else (case sender of
             Internal_User _ \<Rightarrow> (Crash ''AttributeError'', acc)
           | Disabled_User \<Rightarrow> (auth_refuse 400 INVALID_CREDENTIALS ''OAuth users cannot change password'', acc)
           | Account user \<Rightarrow>
               (case u_password_hash user of
                  None \<Rightarrow> (auth_refuse 400 INVALID_CREDENTIALS ''OAuth users cannot change password'', acc)
                | Some hashed \<Rightarrow>
                    if \<not> verify_password cr current_password hashed
                    then (auth_refuse 400 INVALID_CREDENTIALS ''Current password is incorrect'', acc)
                    else if new_email_taken (acc_users acc) user new_email
                    then (auth_refuse 400 EMAIL_ALREADY_EXISTS ''Email already in use'', acc)
                    else
                      let changed = changed_user cr (dr_salt dr) new_password new_email user in
                      case update_user_row (acc_users acc) changed of
                        Inl UserNotFoundError \<Rightarrow> (Crash ''UserNotFoundError'', acc)
                      | Inl _ \<Rightarrow> (Crash ''IntegrityError'', acc)
                      | Inr users \<Rightarrow>
                          (answer_json 200 [(''message'', PStr ''Password changed successfully'')]
                             [session_cookie gw rq (create_access_token gw cr now (u_id changed) (u_token_version changed))],
                           acc\<lparr>acc_users := users\<rparr>))))"

definition get_me :: "crypto \<Rightarrow> rat \<Rightarrow> gateway_request \<Rightarrow> stamp \<Rightarrow> accounts \<Rightarrow> outcome" where
  "get_me cr now rq stamped acc =
     (case get_current_user_from_request cr now rq stamped (acc_users acc) of
        Inl refused \<Rightarrow> refused
      | Inr (Account u) \<Rightarrow> answer_json 200 (user_response u (u_needs_setup u)) []
      | Inr (Internal_User _) \<Rightarrow> Crash ''AttributeError''
      | Inr Disabled_User \<Rightarrow>
          answer_json 200
            [(''id'', PStr default_user_id), (''email'', PStr ''default@test.local''), (''system_role'', PStr ''admin''), (''needs_setup'', PBool False),
             (''oauth_provider'', PNone)] [])"

end
