(* ===== verification/Gateway_Threads.thy ===== *)
theory Gateway_Threads
  imports Gateway_Accounts
begin

text \<open>
  The inner guard \<^verbatim>\<open>app/gateway/auth_middleware.py\<close>, the permissions of \<^verbatim>\<open>authz.py\<close>, the thread records of
  \<^verbatim>\<open>persistence/thread_meta/memory.py\<close>, and the handlers of \<^verbatim>\<open>routers/threads.py\<close> that create, change and delete threads. The LangGraph
  store behind the records holds one dictionary per namespace; of a checkpointer the model keeps the metadata of the checkpoints it was given,
  oldest first, and whether it fails; of the disk it keeps which paths exist and which cannot be removed.
\<close>

section \<open>The authentication guard\<close>

definition public_path_prefixes :: "string list" where
  "public_path_prefixes =
     [''/health'', ''/docs'', ''/redoc'', ''/openapi.json'', ''/api/v1/auth/oauth/'', ''/api/v1/auth/callback/'', ''/api/webhooks/'']"

definition public_exact_paths :: "string list" where
  "public_exact_paths =
     [''/api/v1/auth/login/local'', ''/api/v1/auth/register'', ''/api/v1/auth/logout'', ''/api/v1/auth/setup-status'',
      ''/api/v1/auth/initialize'', ''/api/v1/auth/providers'']"

definition is_public :: "string \<Rightarrow> bool" where
  "is_public path \<longleftrightarrow> rstrip_slashes path \<in> set public_exact_paths \<or> list_ex (starts_with path) public_path_prefixes"

definition get_internal_user :: "gateway_settings \<Rightarrow> string option \<Rightarrow> path_error + principal" where
  "get_internal_user gw owner_user_id =
     (case or_else owner_user_id None of
        None \<Rightarrow> Inr (Internal_User default_user_id)
      | Some owner \<Rightarrow> ebind (make_safe_user_id (gw_sha256 gw) owner) (\<lambda>safe. Inr (Internal_User safe)))"

definition owner_header :: "gateway_request \<Rightarrow> string option" where
  "owner_header rq = or_else (map_option str_strip (header rq internal_owner_header)) None"

definition session_stamp :: "gateway_settings \<Rightarrow> crypto \<Rightarrow> rat \<Rightarrow> gateway_request \<Rightarrow> user list \<Rightarrow> outcome + principal \<times> auth_source" where
  "session_stamp gw cr now rq users =
     (if or_else (cookie rq ''access_token'') None \<noteq> None
      then case get_current_user_from_request cr now rq None users of
        Inr user \<Rightarrow> Inr (user, Session)
      | Inl (Crash e) \<Rightarrow> Inl (Crash e)
      | Inl (Answer r) \<Rightarrow> if is_auth_disabled gw then Inr (Disabled_User, Auth_Disabled) else Inl (Answer r)
      else if is_auth_disabled gw then Inr (Disabled_User, Auth_Disabled)
      else Inl (auth_refuse 401 NOT_AUTHENTICATED ''Authentication required''))"

definition stamp_request :: "gateway_settings \<Rightarrow> crypto \<Rightarrow> rat \<Rightarrow> gateway_request \<Rightarrow> user list \<Rightarrow> outcome + principal \<times> auth_source" where
  "stamp_request gw cr now rq users =
     (case is_trusted_internal_request gw rq of
        None \<Rightarrow> Inl (Crash ''TypeError'')
      | Some True \<Rightarrow>
          (case get_internal_user gw (owner_header rq) of
             Inl _ \<Rightarrow> Inl (Crash ''ValueError'')
           | Inr user \<Rightarrow> Inr (user, Internal))
      | Some False \<Rightarrow> session_stamp gw cr now rq users)"

text \<open>What follows sees the stamp; the context variable of the current user holds the same user for its duration.\<close>

definition auth_dispatch ::
  "gateway_settings \<Rightarrow> crypto \<Rightarrow> rat \<Rightarrow> gateway_request \<Rightarrow> user list \<Rightarrow> (stamp \<Rightarrow> 's \<Rightarrow> outcome \<times> 's) \<Rightarrow> 's \<Rightarrow> outcome \<times> 's" where
  "auth_dispatch gw cr now rq users call_next s =
     (if is_public (gr_path rq) then call_next None s
      else case stamp_request gw cr now rq users of
        Inl refused \<Rightarrow> (refused, s)
      | Inr stamped \<Rightarrow> call_next (Some stamped) s)"

section \<open>Permissions\<close>

definition all_permissions :: "string list" where
  "all_permissions = [''threads:read'', ''threads:write'', ''threads:delete'', ''runs:create'', ''runs:read'', ''runs:cancel'']"

record auth_context =
  ax_user :: "principal option"
  ax_permissions :: "string list"

definition has_permission :: "auth_context \<Rightarrow> string \<Rightarrow> string \<Rightarrow> bool" where
  "has_permission auth resource action \<longleftrightarrow> resource @ '':'' @ action \<in> set (ax_permissions auth)"

definition authenticate_request :: "crypto \<Rightarrow> rat \<Rightarrow> gateway_request \<Rightarrow> stamp \<Rightarrow> user list \<Rightarrow> string + auth_context" where
  "authenticate_request cr now rq stamped users =
     (case get_optional_user_from_request cr now rq stamped users of
        Inl e \<Rightarrow> Inl e
      | Inr None \<Rightarrow> Inr \<lparr>ax_user = None, ax_permissions = []\<rparr>
      | Inr (Some user) \<Rightarrow> Inr \<lparr>ax_user = Some user, ax_permissions = all_permissions\<rparr>)"

text \<open>\<^verbatim>\<open>request.state.auth\<close>: set by the guard, or found now.\<close>

definition auth_of_request :: "crypto \<Rightarrow> rat \<Rightarrow> gateway_request \<Rightarrow> stamp \<Rightarrow> user list \<Rightarrow> string + auth_context" where
  "auth_of_request cr now rq stamped users =
     (case stamped of
        Some (user, _) \<Rightarrow> Inr \<lparr>ax_user = Some user, ax_permissions = all_permissions\<rparr>
      | None \<Rightarrow> authenticate_request cr now rq stamped users)"

section \<open>Thread records\<close>

record thread_record =
  tr_assistant_id :: "string option"
  tr_user_id :: "string option"
  tr_display_name :: "string option"
  tr_status :: string
  tr_metadata :: "(string, pyval) dict"
  tr_created_at :: string
  tr_updated_at :: string

type_synonym thread_store = "(string, thread_record) dict"

datatype user_arg = AUTO | No_Filter | User string

text \<open>\<open>None\<close> is the \<^verbatim>\<open>RuntimeError\<close> without a current user.\<close>

definition resolve_user_id :: "stamp \<Rightarrow> user_arg \<Rightarrow> string option option" where
  "resolve_user_id current v =
     (case v of
        AUTO \<Rightarrow> (case current of None \<Rightarrow> None | Some (user, _) \<Rightarrow> Some (Some (principal_id user)))
      | No_Filter \<Rightarrow> Some None
      | User s \<Rightarrow> Some (Some s))"

definition get_effective_user_id :: "stamp \<Rightarrow> string" where
  "get_effective_user_id current = (case current of None \<Rightarrow> default_user_id | Some (user, _) \<Rightarrow> principal_id user)"

definition get_owned_record :: "stamp \<Rightarrow> string \<Rightarrow> user_arg \<Rightarrow> thread_store \<Rightarrow> thread_record option option" where
  "get_owned_record current thread_id user_id store =
     (case resolve_user_id current user_id of
        None \<Rightarrow> None
      | Some resolved \<Rightarrow>
          (case dget store thread_id of
             None \<Rightarrow> Some None
           | Some r \<Rightarrow> if resolved \<noteq> None \<and> tr_user_id r \<noteq> resolved then Some None else Some (Some r)))"

definition create_record ::
  "stamp \<Rightarrow> string \<Rightarrow> string \<Rightarrow> string option \<Rightarrow> user_arg \<Rightarrow> string option \<Rightarrow> (string, pyval) dict \<Rightarrow> thread_store \<Rightarrow> thread_store option" where
  "create_record current now thread_id assistant_id user_id display_name metadata store =
     (case resolve_user_id current user_id of
        None \<Rightarrow> None
      | Some resolved \<Rightarrow>
          Some (dset thread_id
            \<lparr>tr_assistant_id = assistant_id, tr_user_id = resolved, tr_display_name = display_name, tr_status = ''idle'',
             tr_metadata = metadata, tr_created_at = now, tr_updated_at = now\<rparr> store))"

definition check_access :: "thread_store \<Rightarrow> string \<Rightarrow> string \<Rightarrow> bool \<Rightarrow> bool" where
  "check_access store thread_id user_id require_existing =
     (case dget store thread_id of
        None \<Rightarrow> \<not> require_existing
      | Some r \<Rightarrow> (case tr_user_id r of None \<Rightarrow> True | Some owner \<Rightarrow> owner = user_id))"

text \<open>The shape all updates share: of a record the caller owns.\<close>

definition update_owned :: "stamp \<Rightarrow> string \<Rightarrow> string \<Rightarrow> user_arg \<Rightarrow> (thread_record \<Rightarrow> thread_record) \<Rightarrow> thread_store \<Rightarrow> thread_store option" where
  "update_owned current now thread_id user_id f store =
     (case get_owned_record current thread_id user_id store of
        None \<Rightarrow> None
      | Some None \<Rightarrow> Some store
      | Some (Some r) \<Rightarrow> Some (dset thread_id ((f r)\<lparr>tr_updated_at := now\<rparr>) store))"

definition update_display_name :: "stamp \<Rightarrow> string \<Rightarrow> string \<Rightarrow> string \<Rightarrow> user_arg \<Rightarrow> thread_store \<Rightarrow> thread_store option" where
  "update_display_name current now thread_id name user_id = update_owned current now thread_id user_id (tr_display_name_update (\<lambda>_. Some name))"

definition update_status :: "stamp \<Rightarrow> string \<Rightarrow> string \<Rightarrow> string \<Rightarrow> user_arg \<Rightarrow> thread_store \<Rightarrow> thread_store option" where
  "update_status current now thread_id status user_id = update_owned current now thread_id user_id (tr_status_update (\<lambda>_. status))"

definition update_metadata :: "stamp \<Rightarrow> string \<Rightarrow> string \<Rightarrow> (string, pyval) dict \<Rightarrow> user_arg \<Rightarrow> thread_store \<Rightarrow> thread_store option" where
  "update_metadata current now thread_id metadata user_id =
     update_owned current now thread_id user_id (tr_metadata_update (\<lambda>old. fold (\<lambda>(k, v). dset k v) metadata old))"

definition update_owner :: "stamp \<Rightarrow> string \<Rightarrow> string \<Rightarrow> string \<Rightarrow> user_arg \<Rightarrow> thread_store \<Rightarrow> thread_store option" where
  "update_owner current now thread_id owner user_id = update_owned current now thread_id user_id (tr_user_id_update (\<lambda>_. Some owner))"

definition delete_record :: "stamp \<Rightarrow> string \<Rightarrow> user_arg \<Rightarrow> thread_store \<Rightarrow> thread_store option" where
  "delete_record current thread_id user_id store =
     (case get_owned_record current thread_id user_id store of
        None \<Rightarrow> None
      | Some None \<Rightarrow> Some store
      | Some (Some _) \<Rightarrow> Some (dpop thread_id store))"

section \<open>Ownership of a route's thread\<close>

definition access_allowed :: "gateway_request \<Rightarrow> principal \<Rightarrow> thread_store \<Rightarrow> string \<Rightarrow> bool \<Rightarrow> bool" where
  "access_allowed rq user store thread_id require_existing \<longleftrightarrow>
     check_access store thread_id (principal_id user) require_existing \<or>
     (system_role user = ''internal'' \<and>
        (case owner_header rq of None \<Rightarrow> False | Some owner \<Rightarrow> check_access store thread_id owner require_existing))"

definition require_permission ::
  "crypto \<Rightarrow> rat \<Rightarrow> gateway_request \<Rightarrow> stamp \<Rightarrow> user list \<Rightarrow> string \<Rightarrow> string \<Rightarrow> bool \<Rightarrow> bool \<Rightarrow> string \<Rightarrow> thread_store \<Rightarrow> outcome + unit" where
  "require_permission cr now rq stamped users resource action owner_check require_existing thread_id store =
     (case auth_of_request cr now rq stamped users of
        Inl e \<Rightarrow> Inl (Crash e)
      | Inr auth \<Rightarrow>
          (case ax_user auth of
             None \<Rightarrow> Inl (refuse 401 ''Authentication required'')
           | Some user \<Rightarrow>
               if \<not> has_permission auth resource action then Inl (refuse 403 (''Permission denied: '' @ resource @ '':'' @ action))
               else if owner_check \<and> \<not> access_allowed rq user store thread_id require_existing
               then Inl (refuse 404 (''Thread '' @ thread_id @ '' not found''))
               else Inr ()))"

definition get_trusted_internal_owner_user_id :: "gateway_request \<Rightarrow> stamp \<Rightarrow> string option" where
  "get_trusted_internal_owner_user_id rq stamped =
     (case stamped of
        Some (user, _) \<Rightarrow> if system_role user = ''internal'' then owner_header rq else None
      | None \<Rightarrow> None)"

section \<open>Thread handlers\<close>

record thread_state =
  th_records :: thread_store
  th_checkpoints :: "(string, (string, pyval) dict list) dict"
  th_paths :: "path list"

text \<open>The surroundings: the base directory, paths that cannot be removed, what else a removal that failed on one of them has left, whether the
  checkpointer fails, and the reading of a stored time.\<close>

record surroundings =
  en_base :: path
  en_stuck :: "path \<Rightarrow> bool"
  en_survives :: "path \<Rightarrow> bool"
  en_checkpointer_fails :: bool
  en_coerce_iso :: "string \<Rightarrow> string"

definition server_reserved_metadata_keys :: "string list" where
  "server_reserved_metadata_keys = [''owner_id'', ''user_id'', ''__saas_scope_binding'']"

definition strip_reserved_metadata :: "(string, pyval) dict \<Rightarrow> (string, pyval) dict" where
  "strip_reserved_metadata metadata = filter (\<lambda>(k, _). k \<notin> set server_reserved_metadata_keys) metadata"

definition thread_response :: "surroundings \<Rightarrow> string \<Rightarrow> thread_record \<Rightarrow> outcome" where
  "thread_response en thread_id r =
     answer_json 200
       [(''thread_id'', PStr thread_id), (''status'', PStr (tr_status r)), (''created_at'', PStr (en_coerce_iso en (tr_created_at r))),
        (''updated_at'', PStr (en_coerce_iso en (tr_updated_at r))), (''metadata'', PDict (tr_metadata r)),
        (''values'', PDict []), (''interrupts'', PDict [])] []"

text \<open>\<^verbatim>\<open>_delete_thread_data\<close>: the answer or the refusal, and the paths left.\<close>

definition delete_thread_dir :: "surroundings \<Rightarrow> string \<Rightarrow> string option \<Rightarrow> path list \<Rightarrow> (outcome + outcome) \<times> path list" where
  "delete_thread_dir en thread_id user_id paths =
     (case thread_dir (en_base en) thread_id user_id of
        Inl (ValueError message) \<Rightarrow> (Inl (refuse 422 message), paths)
      | Inr dir \<Rightarrow>
          let inside = (\<lambda>p. take (length dir) p = dir);
              deleted = answer_json 200 [(''success'', PBool True), (''message'', PStr (''Deleted local thread data for '' @ thread_id))] []
          in if dir \<notin> set paths then (Inr deleted, paths)
             else if list_ex (\<lambda>p. inside p \<and> en_stuck en p) paths
             then (Inl (refuse 500 ''Failed to delete local thread data.''), filter (\<lambda>p. \<not> inside p \<or> en_stuck en p \<or> en_survives en p) paths)
             else (Inr deleted, filter (\<lambda>p. \<not> inside p) paths))"

definition delete_thread_data :: "surroundings \<Rightarrow> stamp \<Rightarrow> string \<Rightarrow> thread_state \<Rightarrow> outcome \<times> thread_state" where
  "delete_thread_data en stamped thread_id th =
     (case delete_thread_dir en thread_id (Some (get_effective_user_id stamped)) (th_paths th) of
        (Inl refused, paths) \<Rightarrow> (refused, th\<lparr>th_paths := paths\<rparr>)
      | (Inr r, paths) \<Rightarrow>
          (r, th\<lparr>th_paths := paths,
                th_checkpoints := (if en_checkpointer_fails en then th_checkpoints th else dpop thread_id (th_checkpoints th)),
                th_records := (case delete_record stamped thread_id AUTO (th_records th) of None \<Rightarrow> th_records th | Some records \<Rightarrow> records)\<rparr>))"

text \<open>A record of another owner is handed to the owner an internal caller names.\<close>

definition owned_or_reassigned ::
  "stamp \<Rightarrow> string \<Rightarrow> string \<Rightarrow> string option \<Rightarrow> thread_store \<Rightarrow> (thread_record option \<times> thread_store) option" where
  "owned_or_reassigned stamped now thread_id owner store =
     (let arg = (case owner of None \<Rightarrow> AUTO | Some o' \<Rightarrow> User o') in
      case get_owned_record stamped thread_id arg store of
        None \<Rightarrow> None
      | Some (Some r) \<Rightarrow> Some (Some r, store)
      | Some None \<Rightarrow>
          (case owner of
             None \<Rightarrow> Some (None, store)
           | Some o' \<Rightarrow>
               (case dget store thread_id of
                  None \<Rightarrow> Some (None, store)
                | Some r \<Rightarrow>
                    let store' = (if tr_user_id r \<noteq> Some o' then the (update_owner stamped now thread_id o' No_Filter store) else store) in
                    map_option (\<lambda>found. (found, store')) (get_owned_record stamped thread_id arg store'))))"

definition empty_checkpoint_metadata :: "string \<Rightarrow> (string, pyval) dict \<Rightarrow> (string, pyval) dict" where
  "empty_checkpoint_metadata now metadata =
     dset ''created_at'' (PStr now)
       (fold (\<lambda>(k, v). dset k v) metadata [(''step'', PInt (- 1)), (''source'', PStr ''input''), (''writes'', PNone), (''parents'', PDict [])])"

definition put_checkpoint :: "string \<Rightarrow> (string, pyval) dict \<Rightarrow> (string, (string, pyval) dict list) dict \<Rightarrow> (string, (string, pyval) dict list) dict" where
  "put_checkpoint thread_id metadata cps = dset thread_id (dget_default cps thread_id [] @ [metadata]) cps"

definition create_thread ::
  "surroundings \<Rightarrow> gateway_request \<Rightarrow> stamp \<Rightarrow> string \<Rightarrow> string \<Rightarrow> string option \<Rightarrow> (string, pyval) dict \<Rightarrow> thread_state \<Rightarrow> outcome \<times> thread_state" where
  "create_thread en rq stamped now thread_id assistant_id raw_metadata th =
     (let metadata = strip_reserved_metadata raw_metadata;
          owner = get_trusted_internal_owner_user_id rq stamped;
          arg = (case owner of None \<Rightarrow> AUTO | Some o' \<Rightarrow> User o')
      in case owned_or_reassigned stamped now thread_id owner (th_records th) of
           None \<Rightarrow> (Crash ''RuntimeError'', th)
         | Some (Some r, records) \<Rightarrow> (thread_response en thread_id r, th\<lparr>th_records := records\<rparr>)
         | Some (None, records) \<Rightarrow>
             (case create_record stamped now thread_id assistant_id arg None metadata records of
                None \<Rightarrow> (refuse 500 ''Failed to create thread'', th\<lparr>th_records := records\<rparr>)
              | Some created \<Rightarrow>
                  if en_checkpointer_fails en then (refuse 500 ''Failed to create thread'', th\<lparr>th_records := created\<rparr>)
                  else
                    (answer_json 200
                       [(''thread_id'', PStr thread_id), (''status'', PStr ''idle''), (''created_at'', PStr now), (''updated_at'', PStr now),
                        (''metadata'', PDict metadata), (''values'', PDict []), (''interrupts'', PDict [])] [],
                     th\<lparr>th_records := created,
                        th_checkpoints := put_checkpoint thread_id (empty_checkpoint_metadata now metadata) (th_checkpoints th)\<rparr>)))"

definition patch_thread ::
  "surroundings \<Rightarrow> stamp \<Rightarrow> string \<Rightarrow> string \<Rightarrow> (string, pyval) dict \<Rightarrow> thread_state \<Rightarrow> outcome \<times> thread_state" where
  "patch_thread en stamped now thread_id raw_metadata th =
     (case get_owned_record stamped thread_id AUTO (th_records th) of
        None \<Rightarrow> (Crash ''RuntimeError'', th)
      | Some None \<Rightarrow> (refuse 404 (''Thread '' @ thread_id @ '' not found''), th)
      | Some (Some r) \<Rightarrow>
          (case update_metadata stamped now thread_id (strip_reserved_metadata raw_metadata) AUTO (th_records th) of
             None \<Rightarrow> (refuse 500 ''Failed to update thread'', th)
           | Some records \<Rightarrow>
               (case get_owned_record stamped thread_id AUTO records of
                  Some (Some r') \<Rightarrow> (thread_response en thread_id r', th\<lparr>th_records := records\<rparr>)
                | _ \<Rightarrow> (thread_response en thread_id r, th\<lparr>th_records := records\<rparr>))))"

section \<open>The application\<close>

datatype call =
    Login string string
  | Register string string
  | Initialize string string
  | Logout
  | Change_Password string string "string option"
  | Me
  | Create_Thread string "string option" "(string, pyval) dict"
  | Patch_Thread string "(string, pyval) dict"
  | Delete_Thread string

fun call_method :: "call \<Rightarrow> string" where
  "call_method Me = ''GET''"
| "call_method (Patch_Thread _ _) = ''PATCH''"
| "call_method (Delete_Thread _) = ''DELETE''"
| "call_method _ = ''POST''"

fun call_path :: "call \<Rightarrow> string" where
  "call_path (Login _ _) = ''/api/v1/auth/login/local''"
| "call_path (Register _ _) = ''/api/v1/auth/register''"
| "call_path (Initialize _ _) = ''/api/v1/auth/initialize''"
| "call_path Logout = ''/api/v1/auth/logout''"
| "call_path (Change_Password _ _ _) = ''/api/v1/auth/change-password''"
| "call_path Me = ''/api/v1/auth/me''"
| "call_path (Create_Thread _ _ _) = ''/api/threads''"
| "call_path (Patch_Thread thread_id _) = ''/api/threads/'' @ thread_id"
| "call_path (Delete_Thread thread_id) = ''/api/threads/'' @ thread_id"

definition routed :: "gateway_request \<Rightarrow> call \<Rightarrow> bool" where
  "routed rq c \<longleftrightarrow> gr_method rq = call_method c \<and> gr_path rq = call_path c"

record gateway =
  gs_accounts :: accounts
  gs_threads :: thread_state

record gateway_config =
  gc_settings :: gateway_settings
  gc_crypto :: crypto
  gc_addresses :: addresses
  gc_surroundings :: surroundings

text \<open>The time as a number and as ISO text, and what the request draws.\<close>

record moment =
  mo_now :: rat
  mo_iso :: string
  mo_draws :: draws
  mo_csrf_token :: string

definition with_accounts :: "(accounts \<Rightarrow> outcome \<times> accounts) \<Rightarrow> gateway \<Rightarrow> outcome \<times> gateway" where
  "with_accounts f s = (let (r, acc) = f (gs_accounts s) in (r, s\<lparr>gs_accounts := acc\<rparr>))"

definition with_threads :: "(thread_state \<Rightarrow> outcome \<times> thread_state) \<Rightarrow> gateway \<Rightarrow> outcome \<times> gateway" where
  "with_threads f s = (let (r, th) = f (gs_threads s) in (r, s\<lparr>gs_threads := th\<rparr>))"

text \<open>A thread route behind \<^verbatim>\<open>@require_permission("threads", action, owner_check=True, require_existing=True)\<close>.\<close>

definition guarded_thread_route ::
  "gateway_config \<Rightarrow> moment \<Rightarrow> gateway_request \<Rightarrow> stamp \<Rightarrow> string \<Rightarrow> string \<Rightarrow> (thread_state \<Rightarrow> outcome \<times> thread_state) \<Rightarrow> gateway \<Rightarrow> outcome \<times> gateway" where
  "guarded_thread_route cfg mo rq stamped action thread_id handler s =
     (case require_permission (gc_crypto cfg) (mo_now mo) rq stamped (acc_users (gs_accounts s)) ''threads'' action True True thread_id
             (th_records (gs_threads s)) of
        Inl refused \<Rightarrow> (refused, s)
      | Inr _ \<Rightarrow> with_threads handler s)"

fun handle :: "gateway_config \<Rightarrow> moment \<Rightarrow> gateway_request \<Rightarrow> call \<Rightarrow> stamp \<Rightarrow> gateway \<Rightarrow> outcome \<times> gateway" where
  "handle cfg mo rq (Login username password) st s =
     with_accounts (login_local (gc_settings cfg) (gc_crypto cfg) (gc_addresses cfg) (mo_draws mo) (mo_now mo) rq username password) s"
| "handle cfg mo rq (Register email password) st s =
     with_accounts (register (gc_settings cfg) (gc_crypto cfg) (mo_draws mo) (mo_now mo) rq email password) s"
| "handle cfg mo rq (Initialize email password) st s =
     with_accounts (initialize_admin (gc_settings cfg) (gc_crypto cfg) (mo_draws mo) (mo_now mo) rq email password) s"
| "handle cfg mo rq Logout st s = with_accounts (logout rq) s"
| "handle cfg mo rq (Change_Password current new new_email) st s =
     with_accounts (change_password (gc_settings cfg) (gc_crypto cfg) (mo_draws mo) (mo_now mo) rq st current new new_email) s"
| "handle cfg mo rq Me st s = (get_me (gc_crypto cfg) (mo_now mo) rq st (gs_accounts s), s)"
| "handle cfg mo rq (Create_Thread thread_id assistant_id metadata) st s =
     with_threads (create_thread (gc_surroundings cfg) rq st (mo_iso mo) thread_id assistant_id metadata) s"
| "handle cfg mo rq (Patch_Thread thread_id metadata) st s =
     guarded_thread_route cfg mo rq st ''write'' thread_id (patch_thread (gc_surroundings cfg) st (mo_iso mo) thread_id metadata) s"
| "handle cfg mo rq (Delete_Thread thread_id) st s =
     guarded_thread_route cfg mo rq st ''delete'' thread_id (delete_thread_data (gc_surroundings cfg) st thread_id) s"

text \<open>The middleware added last is the outermost.\<close>

definition serve_gateway :: "gateway_config \<Rightarrow> moment \<Rightarrow> gateway_request \<Rightarrow> call \<Rightarrow> gateway \<Rightarrow> outcome \<times> gateway" where
  "serve_gateway cfg mo rq c s =
     csrf_dispatch (gc_settings cfg) (mo_csrf_token mo) rq
       (auth_dispatch (gc_settings cfg) (gc_crypto cfg) (mo_now mo) rq (acc_users (gs_accounts s)) (handle cfg mo rq c)) s"

end
