(* ===== verification/Gateway_Properties.thy ===== *)
theory Gateway_Properties
  imports Gateway_Threads
begin

text \<open>
  What the guards of the Gateway promise together: whose threads a request can change, how many passwords can be tried from an address, and
  that a changed password ends the sessions opened with the old one, whatever happens afterwards.
\<close>

section \<open>The two guards\<close>

lemma session_endpoints_public: "is_auth_endpoint rq \<Longrightarrow> is_public (gr_path rq)"
  by (auto simp: is_auth_endpoint_def is_public_def auth_exempt_paths_def public_exact_paths_def)

lemma guarded_path:
  assumes "starts_with (gr_path rq) ''/api/threads/''"
  shows "\<not> is_public (gr_path rq)" and "\<not> is_auth_endpoint rq" and "rstrip_slashes (gr_path rq) \<noteq> ''/api/v1/auth/me''"
    and "\<not> starts_with (gr_path rq) ''/api/webhooks/''"
proof -
  obtain n where n: "gr_path rq = rstrip_slashes (gr_path rq) @ replicate n (CHR ''/'')" by (rule rstrip_slashes_split)
  obtain r where r: "gr_path rq = ''/api/threads/'' @ r" using assms by (auto simp: starts_with_append)
  have out: "rstrip_slashes (gr_path rq) \<noteq> ''/api/v1/'' @ t" for t using n r by auto
  show me: "rstrip_slashes (gr_path rq) \<noteq> ''/api/v1/auth/me''" using out [of "''auth/me''"] by simp
  show "\<not> is_public (gr_path rq)"
    using out [of "''auth/login/local''"] out [of "''auth/register''"] out [of "''auth/logout''"] out [of "''auth/setup-status''"]
      out [of "''auth/initialize''"] out [of "''auth/providers''"] r
    by (auto simp: is_public_def public_exact_paths_def public_path_prefixes_def starts_with_append)
  then show "\<not> is_auth_endpoint rq" using session_endpoints_public by blast
  show "\<not> starts_with (gr_path rq) ''/api/webhooks/''" using r by (auto simp: starts_with_append)
qed

text \<open>Beyond the guards a request is not refused by the outer one, and the handler sees the stamp of the inner one.\<close>

lemma serve_gateway_state:
  assumes "\<not> is_public (gr_path rq)"
  shows "snd (serve_gateway cfg mo rq c s) =
    (case (csrf_check (gc_settings cfg) rq, stamp_request (gc_settings cfg) (gc_crypto cfg) (mo_now mo) rq (acc_users (gs_accounts s))) of
       (Inr _, Inr stamped) \<Rightarrow> snd (handle cfg mo rq c (Some stamped) s)
     | _ \<Rightarrow> s)"
  using assms by (auto simp: serve_gateway_def csrf_dispatch_state auth_dispatch_def split: sum.split)

text \<open>What a stamp proves of the sender.\<close>

definition session_of :: "gateway_config \<Rightarrow> moment \<Rightarrow> gateway_request \<Rightarrow> gateway \<Rightarrow> user \<Rightarrow> bool" where
  "session_of cfg mo rq s u \<longleftrightarrow>
     (\<exists>token payload. cookie rq ''access_token'' = Some token \<and> decode_token (gc_crypto cfg) (mo_now mo) token = Some (Inr payload) \<and>
        get_user_by_id (acc_users (gs_accounts s)) (tp_sub payload) = Some u \<and> u_token_version u = tp_ver payload)"

definition sent_by :: "gateway_config \<Rightarrow> moment \<Rightarrow> gateway_request \<Rightarrow> gateway \<Rightarrow> principal \<Rightarrow> bool" where
  "sent_by cfg mo rq s p =
     (case p of
        Account u \<Rightarrow> session_of cfg mo rq s u
      | Internal_User i \<Rightarrow>
          header rq internal_auth_header = Some (gw_internal_token (gc_settings cfg)) \<and>
          (case owner_header rq of None \<Rightarrow> i = default_user_id | Some owner \<Rightarrow> make_safe_user_id (gw_sha256 (gc_settings cfg)) owner = Inr i)
      | Disabled_User \<Rightarrow> is_auth_disabled (gc_settings cfg))"

lemma session_user:
  assumes "get_current_user_from_request cr now rq None users = Inr p"
  shows "\<exists>token payload u. p = Account u \<and> cookie rq ''access_token'' = Some token \<and> decode_token cr now token = Some (Inr payload) \<and>
    get_user_by_id users (tp_sub payload) = Some u \<and> u_token_version u = tp_ver payload"
  using assms or_else_None
  by (auto simp: get_current_user_from_request_def split: option.split_asm sum.split_asm if_split_asm)

lemma trusted_token:
  "is_trusted_internal_request gw rq = Some True \<Longrightarrow> header rq internal_auth_header = Some (gw_internal_token gw)"
  by (auto simp: is_trusted_internal_request_def is_valid_internal_auth_token_def dest: compare_digest_True split: option.split_asm if_split_asm)

lemma internal_user:
  assumes "get_internal_user gw owner = Inr p"
  shows "\<exists>i. p = Internal_User i \<and> (case or_else owner None of None \<Rightarrow> i = default_user_id | Some raw \<Rightarrow> make_safe_user_id (gw_sha256 gw) raw = Inr i)"
  using assms by (auto simp: get_internal_user_def err_simps split: option.split_asm)

lemma owner_header_nonempty [simp]: "or_else (owner_header rq) None = owner_header rq"
  by (simp add: owner_header_def or_else_def split: option.split)

lemma stamped_sender:
  assumes "stamp_request (gc_settings cfg) (gc_crypto cfg) (mo_now mo) rq (acc_users (gs_accounts s)) = Inr (p, source)"
  shows "sent_by cfg mo rq s p" and "source = Session \<longleftrightarrow> (\<exists>u. p = Account u)"
    and "is_trusted_internal_request (gc_settings cfg) rq = Some True \<or> is_auth_disabled (gc_settings cfg) \<or> source = Session"
  using assms
  by (auto simp: stamp_request_def session_stamp_def sent_by_def session_of_def auth_refuse_def
      dest!: session_user internal_user dest: trusted_token split: option.split_asm bool.split_asm sum.split_asm if_split_asm outcome.split_asm)

section \<open>A small gateway\<close>

definition demo_settings :: gateway_settings where
  "demo_settings = \<lparr>gw_environ = [], gw_internal_token = ''itok'', gw_token_expiry_days = 7, gw_sha256 = (\<lambda>_. ''0123456789abcdef'')\<rparr>"

text \<open>Hashes that keep the password and tokens that are the id and the version: enough to see the guards at work.\<close>

definition demo_crypto :: crypto where
  "demo_crypto =
     \<lparr>cr_pre_hash = (\<lambda>p. p), cr_hashpw = (\<lambda>salt p. p), cr_checkpw = (\<lambda>p h. Some (p = h)),
      cr_jwt_encode = (\<lambda>t. tp_sub t @ ''.'' @ int_str (tp_ver t)), cr_jwt_decode = (\<lambda>now t. Inr [(''token'', PStr t)]),
      cr_token_payload = (\<lambda>claims. case get_key claims ''token'' of
         PStr t \<Rightarrow> map_option (\<lambda>v. \<lparr>tp_sub = takeWhile (\<lambda>c. c \<noteq> CHR ''.'') t, tp_exp = 0, tp_iat = None, tp_ver = v\<rparr>)
           (parse_int (tl (dropWhile (\<lambda>c. c \<noteq> CHR ''.'') t)))
       | _ \<Rightarrow> None)\<rparr>"

definition demo_config :: gateway_config where
  "demo_config =
     \<lparr>gc_settings = demo_settings, gc_crypto = demo_crypto,
      gc_addresses = \<lparr>ip_network_ok = (\<lambda>_. False), ip_address_ok = (\<lambda>_. False), ip_contains = (\<lambda>_ _. False)\<rparr>,
      gc_surroundings = \<lparr>en_base = [''srv''], en_stuck = (\<lambda>_. False), en_survives = (\<lambda>_. False), en_checkpointer_fails = False,
        en_coerce_iso = (\<lambda>s. s)\<rparr>\<rparr>"

definition demo_user :: "string \<Rightarrow> user" where
  "demo_user i =
     \<lparr>u_id = i, u_email = i @ ''@x.org'', u_password_hash = Some ''$dfv2$secret-pw'', u_system_role = ''user'', u_created_at = 0,
      u_oauth_provider = None, u_oauth_id = None, u_needs_setup = False, u_token_version = 0\<rparr>"

definition demo_record :: "string \<Rightarrow> thread_record" where
  "demo_record owner =
     \<lparr>tr_assistant_id = None, tr_user_id = Some owner, tr_display_name = None, tr_status = ''idle'', tr_metadata = [], tr_created_at = ''t0'',
      tr_updated_at = ''t0''\<rparr>"

definition demo_gateway :: gateway where
  "demo_gateway =
     \<lparr>gs_accounts = \<lparr>acc_users = [demo_user ''a'', demo_user ''b''], acc_attempts = []\<rparr>,
      gs_threads = \<lparr>th_records = [(''t'', demo_record ''a''), (''w'', demo_record ''b/1'')], th_checkpoints = [(''t'', [[]])],
        th_paths = [[''srv'', ''users'', ''a'', ''threads'', ''t'']]\<rparr>\<rparr>"

definition demo_moment :: "rat \<Rightarrow> moment" where
  "demo_moment now = \<lparr>mo_now = now, mo_iso = ''t1'', mo_draws = \<lparr>dr_salt = ''s'', dr_user_id = ''c''\<rparr>, mo_csrf_token = ''fresh''\<rparr>"

definition demo_request :: "call \<Rightarrow> (string, string) dict \<Rightarrow> (string, string) dict \<Rightarrow> gateway_request" where
  "demo_request c headers cookies =
     \<lparr>gr_method = call_method c, gr_path = call_path c, gr_scheme = ''http'', gr_netloc = ''h'', gr_headers = headers, gr_cookies = cookies,
      gr_client = Some ''1.2.3.4''\<rparr>"

text \<open>A request in the session of an account, and one of an internal caller for an owner.\<close>

definition session_request :: "call \<Rightarrow> string \<Rightarrow> gateway_request" where
  "session_request c token = demo_request c [(''x-csrf-token'', ''k'')] [(''access_token'', token), (''csrf_token'', ''k'')]"

definition internal_request :: "call \<Rightarrow> string \<Rightarrow> gateway_request" where
  "internal_request c owner = demo_request c [(''x-deerflow-internal-token'', ''itok''), (''x-deerflow-owner-user-id'', owner)] []"

lemma routed_demo [simp]: "routed (demo_request c hs cs) c" "routed (session_request c t) c" "routed (internal_request c own) c"
  by (simp_all add: routed_def demo_request_def session_request_def internal_request_def)

section \<open>Whose threads a request changes\<close>

lemma owned_record_auto:
  assumes "get_owned_record (Some (p, source)) tid AUTO store = Some (Some r)"
  shows "dget store tid = Some r \<and> tr_user_id r = Some (principal_id p)"
  using assms by (auto simp: get_owned_record_def resolve_user_id_def split: option.split_asm if_split_asm)

lemma patch_thread_effect:
  assumes "patch_thread en (Some (p, source)) now tid m th = (out, th')"
  shows "th_checkpoints th' = th_checkpoints th" and "th_paths th' = th_paths th" and "dpop tid (th_records th') = dpop tid (th_records th)"
    and "th_records th' = th_records th \<or> (\<exists>r. dget (th_records th) tid = Some r \<and> tr_user_id r = Some (principal_id p))"
  using assms
  by (auto simp: dpop_dset_same patch_thread_def update_metadata_def update_owned_def dest: owned_record_auto split: option.split_asm)

definition own_directory :: "surroundings \<Rightarrow> principal \<Rightarrow> string \<Rightarrow> path \<Rightarrow> bool" where
  "own_directory en p tid q = (case thread_dir (en_base en) tid (Some (principal_id p)) of Inl _ \<Rightarrow> False | Inr dir \<Rightarrow> take (length dir) q = dir)"

lemma delete_thread_dir_effect:
  assumes "delete_thread_dir en tid (Some (principal_id p)) paths = (r, paths')"
  shows "filter (\<lambda>q. \<not> own_directory en p tid q) paths' = filter (\<lambda>q. \<not> own_directory en p tid q) paths"
  using assms by (auto simp: delete_thread_dir_def own_directory_def Let_def intro!: filter_cong [OF refl] split: sum.split_asm path_error.split_asm if_split_asm)

lemma delete_thread_data_effect:
  assumes "delete_thread_data en (Some (p, source)) tid th = (out, th')"
  shows "dpop tid (th_checkpoints th') = dpop tid (th_checkpoints th)" and "dpop tid (th_records th') = dpop tid (th_records th)"
    and "filter (\<lambda>q. \<not> own_directory en p tid q) (th_paths th') = filter (\<lambda>q. \<not> own_directory en p tid q) (th_paths th)"
    and "th_records th' = th_records th \<or> (\<exists>r. dget (th_records th) tid = Some r \<and> tr_user_id r = Some (principal_id p))"
  using assms
  by (auto simp: dpop_dpop_same delete_thread_data_def get_effective_user_id_def delete_record_def dest: owned_record_auto delete_thread_dir_effect
      split: prod.split_asm sum.split_asm option.split_asm if_split_asm)

definition may_touch :: "gateway_request \<Rightarrow> principal \<Rightarrow> thread_record \<Rightarrow> bool" where
  "may_touch rq p r \<longleftrightarrow> tr_user_id r = None \<or> tr_user_id r = Some (principal_id p) \<or> system_role p = ''internal'' \<and> tr_user_id r = owner_header rq"

lemma permission_passes:
  assumes "require_permission cr now rq (Some (p, source)) users resource action True True tid store = Inr u"
  shows "\<exists>r. dget store tid = Some r \<and> may_touch rq p r"
  using assms
  by (auto simp: require_permission_def auth_of_request_def access_allowed_def check_access_def may_touch_def
      split: option.split_asm if_split_asm)

text \<open>What a request to a thread route may have changed of one thread.\<close>

definition only_thread :: "surroundings \<Rightarrow> principal \<Rightarrow> string \<Rightarrow> thread_state \<Rightarrow> thread_state \<Rightarrow> bool" where
  "only_thread en p tid th th' \<longleftrightarrow>
     dpop tid (th_records th') = dpop tid (th_records th) \<and> dpop tid (th_checkpoints th') = dpop tid (th_checkpoints th) \<and>
     filter (\<lambda>q. \<not> own_directory en p tid q) (th_paths th') = filter (\<lambda>q. \<not> own_directory en p tid q) (th_paths th)"

lemma patch_thread_only:
  assumes "patch_thread en (Some (p, source)) now tid m th = (out, th')"
  shows "only_thread en p tid th th'"
    and "th_records th' = th_records th \<or> (\<exists>r. dget (th_records th) tid = Some r \<and> tr_user_id r = Some (principal_id p))"
  using patch_thread_effect [OF assms] by (auto simp: only_thread_def)

lemma delete_thread_only:
  assumes "delete_thread_data en (Some (p, source)) tid th = (out, th')"
  shows "only_thread en p tid th th'"
    and "th_records th' = th_records th \<or> (\<exists>r. dget (th_records th) tid = Some r \<and> tr_user_id r = Some (principal_id p))"
  using delete_thread_data_effect [OF assms] by (auto simp: only_thread_def)

lemma thread_route_effect:
  assumes "c = Patch_Thread tid m \<or> c = Delete_Thread tid" and "snd (handle cfg mo rq c (Some (p, source)) s) \<noteq> s"
    and "s' = snd (handle cfg mo rq c (Some (p, source)) s)"
  shows "\<exists>r. dget (th_records (gs_threads s)) tid = Some r \<and> may_touch rq p r \<and> gs_accounts s' = gs_accounts s \<and>
    only_thread (gc_surroundings cfg) p tid (gs_threads s) (gs_threads s') \<and>
    (th_records (gs_threads s') = th_records (gs_threads s) \<or> tr_user_id r = Some (principal_id p))"
proof -
  define f where "f = (case c of Patch_Thread _ m' \<Rightarrow> patch_thread (gc_surroundings cfg) (Some (p, source)) (mo_iso mo) tid m'
    | _ \<Rightarrow> delete_thread_data (gc_surroundings cfg) (Some (p, source)) tid)"
  obtain action where h: "handle cfg mo rq c (Some (p, source)) s = guarded_thread_route cfg mo rq (Some (p, source)) action tid f s"
    using assms(1) by (auto simp: f_def)
  obtain out th' where th': "f (gs_threads s) = (out, th')" by fastforce
  have "require_permission (gc_crypto cfg) (mo_now mo) rq (Some (p, source)) (acc_users (gs_accounts s)) ''threads'' action True True tid
      (th_records (gs_threads s)) = Inr ()"
    using assms(2) unfolding h guarded_thread_route_def by (auto split: sum.split_asm)
  moreover from this have s': "s' = s\<lparr>gs_threads := th'\<rparr>"
    using assms(3) th' unfolding h guarded_thread_route_def by (simp add: with_threads_def)
  moreover have "only_thread (gc_surroundings cfg) p tid (gs_threads s) th'"
    and "th_records th' = th_records (gs_threads s) \<or> (\<exists>r. dget (th_records (gs_threads s)) tid = Some r \<and> tr_user_id r = Some (principal_id p))"
    using assms(1) th' patch_thread_only [of "gc_surroundings cfg" p source "mo_iso mo" tid m "gs_threads s" out th']
      delete_thread_only [of "gc_surroundings cfg" p source tid "gs_threads s" out th']
    by (auto simp: f_def)
  ultimately show ?thesis using permission_passes by fastforce
qed

text \<open>C22. 
  C0. A request to patch or delete a thread that changes anything was sent by a principal the guards have established: the account of a session
  token that is valid now and carries the account's current version, with the CSRF token in cookie and header (which is not asked for while authentication is disabled); an internal caller that holds the
  internal token; or the synthetic user while authentication is disabled. The thread has a record, which belongs to that principal, to nobody, or
  to the owner an internal caller names; its record is changed only when it belongs to the principal itself. Nothing of other threads, of the
  accounts, or of files outside the principal's own directory for this thread changes.
\<close>

theorem thread_changes_by_owner:
  assumes "routed rq c" and "c = Patch_Thread tid m \<or> c = Delete_Thread tid" and "serve_gateway cfg mo rq c s = (out, s')" and "s' \<noteq> s"
  shows "\<exists>p r. sent_by cfg mo rq s p \<and> (case p of Account _ \<Rightarrow> is_auth_disabled (gc_settings cfg) \<or> double_submitted rq | _ \<Rightarrow> True) \<and>
    dget (th_records (gs_threads s)) tid = Some r \<and> may_touch rq p r \<and> gs_accounts s' = gs_accounts s \<and>
    only_thread (gc_surroundings cfg) p tid (gs_threads s) (gs_threads s') \<and>
    (th_records (gs_threads s') = th_records (gs_threads s) \<or> tr_user_id r = Some (principal_id p))"
proof -
  have "starts_with (gr_path rq) ''/api/threads/''" and changing: "gr_method rq \<in> set state_changing_methods"
    using assms(1,2) by (auto simp: routed_def starts_with_append state_changing_methods_def)
  note path = guarded_path [OF this(1)]
  have s': "s' = snd (serve_gateway cfg mo rq c s)" using assms(3) by simp
  obtain p source where csrf: "csrf_check (gc_settings cfg) rq = Inr ()"
    and stamp: "stamp_request (gc_settings cfg) (gc_crypto cfg) (mo_now mo) rq (acc_users (gs_accounts s)) = Inr (p, source)"
    and h: "s' = snd (handle cfg mo rq c (Some (p, source)) s)"
    using s' assms(4) serve_gateway_state [OF path(1), of cfg mo c s] by (auto split: sum.split_asm)
  have "case p of Account _ \<Rightarrow> is_auth_disabled (gc_settings cfg) \<or> double_submitted rq | _ \<Rightarrow> True"
  proof (cases p)
    case (Account u)
    then have "is_trusted_internal_request (gc_settings cfg) rq \<noteq> Some True"
      using stamp by (auto simp: stamp_request_def dest: internal_user split: sum.split_asm)
    then show ?thesis using Account csrf_check_passes [OF csrf changing _ _ path(2-4)] by auto
  qed simp_all
  then show ?thesis using stamped_sender(1) [OF stamp] thread_route_effect [OF assms(2) _ h] h assms(4) by metis
qed

definition demo_patch :: call where "demo_patch = Patch_Thread ''t'' [(''k'', PInt 1)]"

definition demo_patched :: "outcome \<times> gateway" where
  "demo_patched = serve_gateway demo_config (demo_moment 0) (session_request demo_patch ''a.0'') demo_patch demo_gateway"

theorem thread_changes_by_owner_witness:
  "\<exists>p r. sent_by demo_config (demo_moment 0) (session_request demo_patch ''a.0'') demo_gateway p \<and>
    (case p of Account _ \<Rightarrow> is_auth_disabled (gc_settings demo_config) \<or> double_submitted (session_request demo_patch ''a.0'') | _ \<Rightarrow> True) \<and>
    dget (th_records (gs_threads demo_gateway)) ''t'' = Some r \<and> may_touch (session_request demo_patch ''a.0'') p r \<and>
    gs_accounts (snd demo_patched) = gs_accounts demo_gateway \<and>
    only_thread (gc_surroundings demo_config) p ''t'' (gs_threads demo_gateway) (gs_threads (snd demo_patched)) \<and>
    (th_records (gs_threads (snd demo_patched)) = th_records (gs_threads demo_gateway) \<or> tr_user_id r = Some (principal_id p))"
proof -
  have "map_option tr_metadata (dget (th_records (gs_threads (snd demo_patched))) ''t'') \<noteq>
      map_option tr_metadata (dget (th_records (gs_threads demo_gateway)) ''t'')" by code_simp
  then have "snd demo_patched \<noteq> demo_gateway" by auto
  moreover have "serve_gateway demo_config (demo_moment 0) (session_request demo_patch ''a.0'') demo_patch demo_gateway =
      (fst demo_patched, snd demo_patched)" by (simp add: demo_patched_def)
  moreover have "demo_patch = Patch_Thread ''t'' [(''k'', PInt 1)] \<or> demo_patch = Delete_Thread ''t''" by (simp add: demo_patch_def)
  ultimately show ?thesis using thread_changes_by_owner [OF routed_demo(2)] by blast
qed

section \<open>Where the intent is missed\<close>

text \<open>With the records in memory, a thread that exists is not returned to a caller who does not own it but written over: whoever knows its id
  becomes its owner, and the thread gets an empty checkpoint.\<close>

theorem thread_taken_over:
  assumes "dget (th_records th) tid = Some r" and "tr_user_id r = Some owner" and "owner \<noteq> u_id u" and "u_system_role u \<noteq> ''internal''"
    and "\<not> en_checkpointer_fails en"
  shows "\<exists>out th' r'. create_thread en rq (Some (Account u, Session)) now tid assistant metadata th = (out, th') \<and>
    dget (th_records th') tid = Some r' \<and> tr_user_id r' = Some (u_id u) \<and>
    dget (th_checkpoints th') tid =
      Some (dget_default (th_checkpoints th) tid [] @ [empty_checkpoint_metadata now (strip_reserved_metadata metadata)])"
  using assms
  by (simp add: create_thread_def Let_def get_trusted_internal_owner_user_id_def owned_or_reassigned_def get_owned_record_def resolve_user_id_def
      create_record_def put_checkpoint_def)

text \<open>An internal caller takes a thread from its owner by naming another one.\<close>

theorem internal_caller_reassigns:
  assumes "dget (th_records th) tid = Some r" and "tr_user_id r \<noteq> Some owner" and "owner_header rq = Some owner"
  shows "\<exists>out th' r'. create_thread en rq (Some (Internal_User i, Internal)) now tid assistant metadata th = (out, th') \<and>
    dget (th_records th') tid = Some r' \<and> tr_user_id r' = Some owner"
  using assms
  by (simp add: create_thread_def Let_def get_trusted_internal_owner_user_id_def owned_or_reassigned_def get_owned_record_def resolve_user_id_def
      update_owner_def update_owned_def)

text \<open>An owner whose id is not a path component owns threads under the raw id and acts under the safe one: its deletion is answered with success
  and keeps the record, and its thread is not found when patched.\<close>

theorem deleted_thread_stays:
  "(case serve_gateway demo_config (demo_moment 0) (internal_request (Delete_Thread ''w'') ''b/1'') (Delete_Thread ''w'') demo_gateway of
      (Answer r, s) \<Rightarrow> gp_status r = 200 \<and> dget (th_records (gs_threads s)) ''w'' = Some (demo_record ''b/1'') | _ \<Rightarrow> False) \<and>
   (case serve_gateway demo_config (demo_moment 0) (internal_request (Patch_Thread ''w'' []) ''b/1'') (Patch_Thread ''w'' []) demo_gateway of
      (Answer r, s) \<Rightarrow> gp_status r = 404 | _ \<Rightarrow> False)"
  by code_simp

text \<open>The synthetic user of internal calls has no email and no password hash.\<close>

theorem internal_me_crashes:
  "fst (serve_gateway demo_config (demo_moment 0) (internal_request Me ''a'') Me demo_gateway) = Crash ''AttributeError''"
  by code_simp

text \<open>A token outside ASCII is not refused but ends in an unhandled exception.\<close>

theorem foreign_token_crashes:
  assumes "header rq internal_auth_header = Some token" and "list_ex (\<lambda>c. char_code c \<ge> 128) token" and "\<not> is_public (gr_path rq)"
    and "gr_method rq \<notin> set state_changing_methods"
  shows "serve_gateway cfg mo rq c s = (Crash ''TypeError'', s)"
proof -
  have "token \<noteq> ''''" "\<not> list_all (\<lambda>c. char_code c < 128) token" using assms(2) by (auto simp: list_all_iff list_ex_iff not_less)
  then have "is_trusted_internal_request (gc_settings cfg) rq = None"
    using assms(1) by (simp add: is_trusted_internal_request_def is_valid_internal_auth_token_def compare_digest_def)
  then show ?thesis using assms(3,4)
    by (simp add: serve_gateway_def csrf_dispatch_def csrf_check_def should_check_csrf_def auth_dispatch_def stamp_request_def)
qed

end
