(* ===== verification/Gateway_Sessions.thy ===== *)
theory Gateway_Sessions
  imports Gateway_Properties
begin

text \<open>
  Runs of the Gateway: sequences of requests, each served in the state the one before it left. Along a run no account loses its row, and token
  versions never decrease; the table of failed logins bounds how many passwords an address can have tried.
\<close>

type_synonym event = "moment \<times> gateway_request \<times> call"

fun run_gateway :: "gateway_config \<Rightarrow> event list \<Rightarrow> gateway \<Rightarrow> outcome list \<times> gateway" where
  "run_gateway cfg [] s = ([], s)"
| "run_gateway cfg ((mo, rq, c) # es) s =
     (let (out, s') = serve_gateway cfg mo rq c s; (outs, s'') = run_gateway cfg es s' in (out # outs, s''))"

text \<open>What every served request keeps holds along runs; a law of this shape is proved once for the handlers and used for whole runs.\<close>

locale kept_by_handlers =
  fixes kept :: "gateway_config \<Rightarrow> gateway \<Rightarrow> gateway \<Rightarrow> bool"
    and inv :: "gateway \<Rightarrow> bool"
  assumes kept_refl: "kept cfg s s"
    and kept_trans: "kept cfg s t \<Longrightarrow> kept cfg t u \<Longrightarrow> kept cfg s u"
    and handled: "inv s \<Longrightarrow> (\<And>p source. st = Some (p, source) \<Longrightarrow> sent_by cfg mo rq s p) \<Longrightarrow>
      handle cfg mo rq c st s = (out, s') \<Longrightarrow> inv s' \<and> kept cfg s s'"
begin

lemma served:
  assumes "inv s"
  shows "inv (snd (serve_gateway cfg mo rq c s)) \<and> kept cfg s (snd (serve_gateway cfg mo rq c s))"
proof (cases "is_public (gr_path rq)")
  case True
  have "snd (serve_gateway cfg mo rq c s) = s \<or> snd (serve_gateway cfg mo rq c s) = snd (handle cfg mo rq c None s)"
    using True by (auto simp: serve_gateway_def csrf_dispatch_state auth_dispatch_def split: sum.split)
  then show ?thesis using handled [OF assms, of None cfg mo rq c "fst (handle cfg mo rq c None s)" "snd (handle cfg mo rq c None s)"] assms kept_refl
    by auto
next
  case False
  show ?thesis
  proof (cases "snd (serve_gateway cfg mo rq c s) = s")
    case True
    then show ?thesis using assms kept_refl by simp
  next
    case changed: False
    then obtain p source where "stamp_request (gc_settings cfg) (gc_crypto cfg) (mo_now mo) rq (acc_users (gs_accounts s)) = Inr (p, source)"
      and h: "snd (serve_gateway cfg mo rq c s) = snd (handle cfg mo rq c (Some (p, source)) s)"
      using serve_gateway_state [OF False, of cfg mo c s] by (auto split: sum.split_asm)
    then have "sent_by cfg mo rq s p" using stamped_sender(1) by blast
    then show ?thesis
      using handled [OF assms, of "Some (p, source)" cfg mo rq c "fst (handle cfg mo rq c (Some (p, source)) s)"] unfolding h by auto
  qed
qed

lemma run_keeps: "inv s \<Longrightarrow> inv (snd (run_gateway cfg es s)) \<and> kept cfg s (snd (run_gateway cfg es s))"
proof (induction cfg es s rule: run_gateway.induct)
  case (1 cfg s)
  then show ?case using kept_refl by simp
next
  case (2 cfg mo rq c es s)
  obtain out s' where e: "serve_gateway cfg mo rq c s = (out, s')" by fastforce
  then have s': "inv s'" "kept cfg s s'" using served [OF 2(2), of cfg mo rq c] by auto
  show ?case using 2(1) [OF e [symmetric] refl s'(1)] s'(2) e by (auto split: prod.split intro: kept_trans)
qed

end

section \<open>Token versions\<close>

definition version_of :: "user list \<Rightarrow> string \<Rightarrow> int option" where
  "version_of users uid = map_option u_token_version (get_user_by_id users uid)"

definition versions_kept :: "user list \<Rightarrow> user list \<Rightarrow> bool" where
  "versions_kept users users' \<longleftrightarrow> (\<forall>uid v. version_of users uid = Some v \<longrightarrow> (\<exists>v'. version_of users' uid = Some v' \<and> v \<le> v'))"

definition ids_distinct :: "user list \<Rightarrow> bool" where
  "ids_distinct users \<longleftrightarrow> distinct (map u_id users)"

lemma versions_kept_refl [simp]: "versions_kept users users"
  by (simp add: versions_kept_def)

lemma get_user_by_id_Cons: "get_user_by_id (u # us) uid = (if u_id u = uid then Some u else get_user_by_id us uid)"
  by (simp add: get_user_by_id_def)

lemma get_user_by_id_Nil [simp]: "get_user_by_id [] uid = None"
  by (simp add: get_user_by_id_def)

lemma get_user_by_id_id: "get_user_by_id users uid = Some u \<Longrightarrow> u_id u = uid"
  by (induction users) (auto simp: get_user_by_id_Cons split: if_split_asm)

lemma get_user_by_id_self: "ids_distinct users \<Longrightarrow> u \<in> set users \<Longrightarrow> get_user_by_id users (u_id u) = Some u"
  by (induction users) (auto simp: get_user_by_id_Cons ids_distinct_def)

lemma get_user_by_email_mem: "get_user_by_email users email = Some u \<Longrightarrow> u \<in> set users"
  by (auto simp: get_user_by_email_def find_Some_iff)

lemma get_user_by_id_append:
  "get_user_by_id (us @ [u]) uid = (case get_user_by_id us uid of Some v \<Rightarrow> Some v | None \<Rightarrow> if u_id u = uid then Some u else None)"
  by (induction us) (auto simp: get_user_by_id_Cons split: option.split)

lemma get_user_by_id_map:
  "get_user_by_id (map (\<lambda>v. if u_id v = u_id user then written_row user v else v) users) uid =
    map_option (\<lambda>v. if uid = u_id user then written_row user v else v) (get_user_by_id users uid)"
  by (induction users) (auto simp: get_user_by_id_Cons written_row_def)

lemma create_user_kept:
  assumes "create_user_row users user = Inr users'" and "ids_distinct users"
  shows "versions_kept users users' \<and> ids_distinct users'"
  using assms
  by (auto simp: create_user_row_def versions_kept_def version_of_def get_user_by_id_append ids_distinct_def list_ex_iff
      split: if_split_asm option.split) blast

lemma update_user_version:
  assumes "update_user_row users user = Inr users'"
  shows "version_of users' uid = (if uid = u_id user then Some (u_token_version user) else version_of users uid)"
  using assms by (auto simp: update_user_row_def version_of_def get_user_by_id_map written_row_def option.map_ident split: if_split_asm)

lemma update_user_distinct: "update_user_row users user = Inr users' \<Longrightarrow> ids_distinct users \<Longrightarrow> ids_distinct users'"
  by (auto simp: update_user_row_def ids_distinct_def comp_def written_row_def if_distrib [where f = u_id] cong: if_cong split: if_split_asm)

lemma update_user_kept:
  assumes "update_user_row users user = Inr users'" and "ids_distinct users"
    and "version_of users (u_id user) = Some v" and "v \<le> u_token_version user"
  shows "versions_kept users users' \<and> ids_distinct users'"
  using assms update_user_distinct [OF assms(1)] by (auto simp: versions_kept_def update_user_version [OF assms(1)])

lemma authenticate_kept:
  assumes "authenticate cr salt email password users = (found, users')" and "ids_distinct users"
  shows "versions_kept users users' \<and> ids_distinct users'"
proof -
  have "versions_kept users us \<and> ids_distinct us"
    if "get_user_by_email users email = Some u" and "update_user_row users (u\<lparr>u_password_hash := h\<rparr>) = Inr us" for u h us
    using update_user_kept [OF that(2) assms(2)] get_user_by_id_self [OF assms(2) get_user_by_email_mem [OF that(1)]]
    by (simp add: version_of_def)
  then show ?thesis using assms
    by (auto simp: authenticate_def Let_def split: if_split_asm option.split_asm sum.split_asm)
qed

lemma created_kept:
  assumes "create_user cr salt new_id now email password role needs_setup users = Inr (u, users')" and "ids_distinct users"
  shows "versions_kept users users' \<and> ids_distinct users'"
  using assms create_user_kept by (auto simp: create_user_def Let_def err_simps)

lemma changed_user_simps [simp]:
  "u_id (changed_user cr salt pw em u) = u_id u" "u_token_version (changed_user cr salt pw em u) = u_token_version u + 1"
  by (simp_all add: changed_user_def)

lemma change_password_kept:
  assumes "change_password gw cr dr now rq st cur new em acc = (out, acc')" and "ids_distinct (acc_users acc)"
    and "\<And>u source. st = Some (Account u, source) \<Longrightarrow> get_user_by_id (acc_users acc) (u_id u) = Some u"
  shows "versions_kept (acc_users acc) (acc_users acc') \<and> ids_distinct (acc_users acc') \<and> acc_attempts acc' = acc_attempts acc"
proof -
  have known: "get_user_by_id (acc_users acc) (u_id u) = Some u"
    if "get_current_user_from_request cr now rq st (acc_users acc) = Inr (Account u)" for u
  proof (cases st)
    case None
    then show ?thesis using session_user [of cr now rq "acc_users acc"] that get_user_by_id_id by fastforce
  next
    case (Some a)
    then show ?thesis using that assms(3) by (cases a) (simp add: get_current_user_from_request_def)
  qed
  have "versions_kept (acc_users acc) us \<and> ids_distinct us"
    if "get_current_user_from_request cr now rq st (acc_users acc) = Inr (Account u)"
      and "update_user_row (acc_users acc) (changed_user cr salt new em u) = Inr us" for u salt us
    using update_user_kept [OF that(2) assms(2), of "u_token_version u"] known [OF that(1)] by (simp add: version_of_def)
  then show ?thesis using assms(1,2)
    by (auto simp: change_password_def Let_def split: if_split_asm sum.split_asm principal.split_asm option.split_asm user_error.split_asm)
qed

lemma thread_calls_accounts:
  "with_threads f s = (out, s') \<Longrightarrow> gs_accounts s' = gs_accounts s"
  "guarded_thread_route cfg mo rq st action tid f s = (out, s') \<Longrightarrow> gs_accounts s' = gs_accounts s"
  by (auto simp: with_threads_def guarded_thread_route_def split: prod.split_asm sum.split_asm)

lemma sent_account: "sent_by cfg mo rq s (Account u) \<Longrightarrow> get_user_by_id (acc_users (gs_accounts s)) (u_id u) = Some u"
  using get_user_by_id_id by (fastforce simp: sent_by_def session_of_def)

lemma handle_kept:
  assumes "ids_distinct (acc_users (gs_accounts s))" and "\<And>p source. st = Some (p, source) \<Longrightarrow> sent_by cfg mo rq s p"
    and "handle cfg mo rq c st s = (out, s')"
  shows "versions_kept (acc_users (gs_accounts s)) (acc_users (gs_accounts s')) \<and> ids_distinct (acc_users (gs_accounts s'))"
proof (cases c)
  case (Login username password)
  have "versions_kept (acc_users acc) (acc_users acc') \<and> ids_distinct (acc_users acc')"
    if "login_local gw cr ip dr now rq username password acc = (out', acc')" and "ids_distinct (acc_users acc)" for gw cr ip dr now out' acc acc'
    using that by (auto simp: login_local_def Let_def dest: authenticate_kept split: sum.split_asm prod.split_asm option.split_asm)
  then show ?thesis using assms(1,3) Login by (auto simp: with_accounts_def split: prod.split_asm)
next
  case (Change_Password cur new em)
  then show ?thesis using assms change_password_kept [where acc = "gs_accounts s"] sent_account
    by (auto simp: with_accounts_def split: prod.split_asm) metis+
qed (use assms(1,3) in \<open>auto simp: with_accounts_def register_def initialize_admin_def logout_def dest: created_kept thread_calls_accounts
      split: prod.split_asm if_split_asm sum.split_asm\<close>)

interpretation versions: kept_by_handlers
  "\<lambda>cfg s s'. versions_kept (acc_users (gs_accounts s)) (acc_users (gs_accounts s'))" "\<lambda>s. ids_distinct (acc_users (gs_accounts s))"
proof
  fix cfg :: gateway_config and s t u
  assume "versions_kept (acc_users (gs_accounts s)) (acc_users (gs_accounts t))" "versions_kept (acc_users (gs_accounts t)) (acc_users (gs_accounts u))"
  then show "versions_kept (acc_users (gs_accounts s)) (acc_users (gs_accounts u))"
    unfolding versions_kept_def by (meson order_trans)
qed (use handle_kept in \<open>blast intro: versions_kept_refl\<close>)+

section \<open>A changed password\<close>

fun status_of :: "outcome \<Rightarrow> nat option" where
  "status_of (Answer r) = Some (gp_status r)"
| "status_of (Crash e) = None"

lemma status_simps [simp]:
  "status_of (refuse n m) = Some n" "status_of (auth_refuse n code m) = Some n" "status_of (answer_json n d cs) = Some n"
  by (simp_all add: refuse_def auth_refuse_def answer_json_def)

lemma serve_status:
  assumes "\<not> is_public (gr_path rq)" and "status_of (fst (serve_gateway cfg mo rq c s)) = Some 200"
  shows "\<exists>p source. stamp_request (gc_settings cfg) (gc_crypto cfg) (mo_now mo) rq (acc_users (gs_accounts s)) = Inr (p, source) \<and>
    handle cfg mo rq c (Some (p, source)) s = serve_gateway cfg mo rq c s"
proof -
  have no_ep: "\<not> is_auth_endpoint rq" using assms(1) session_endpoints_public by blast
  have bad: "status_of r \<noteq> Some 200" if "csrf_check gw rq = Inl r" for gw r
    using that by (auto simp: csrf_check_def double_submit_def split: option.split_asm bool.split_asm if_split_asm)
  have "status_of r \<noteq> Some 200" if "stamp_request gw cr now rq users = Inl r" for gw cr now users r
    using that by (auto simp: stamp_request_def session_stamp_def get_current_user_from_request_def auth_refuse_def
        split: option.split_asm bool.split_asm if_split_asm sum.split_asm outcome.split_asm)
  from this [of "gc_settings cfg" "gc_crypto cfg" "mo_now mo" "acc_users (gs_accounts s)"] show ?thesis
    using assms no_ep bad [of "gc_settings cfg"]
    by (cases "stamp_request (gc_settings cfg) (gc_crypto cfg) (mo_now mo) rq (acc_users (gs_accounts s))")
      (auto simp: serve_gateway_def csrf_dispatch_def auth_dispatch_def split: sum.split_asm prod.split_asm outcome.split_asm)
qed

lemma password_changed:
  assumes "change_password gw cr dr now rq (Some (p, source)) cur new em acc = (out, acc')" and "status_of out = Some 200"
  shows "\<exists>u. p = Account u \<and> version_of (acc_users acc') (u_id u) = Some (u_token_version u + 1)"
  using assms update_user_version
  by (fastforce simp: change_password_def get_current_user_from_request_def Let_def
      split: if_split_asm sum.split_asm principal.split_asm option.split_asm user_error.split_asm)

lemma stale_token_refused:
  assumes "version_of users (tp_sub p) = Some v" and "tp_ver p < v" and "cookie rq ''access_token'' = Some token" and "token \<noteq> ''''"
    and "decode_token cr now token = Some (Inr p)" and "is_trusted_internal_request gw rq = Some False" and "\<not> is_auth_disabled gw"
  shows "stamp_request gw cr now rq users = Inl (auth_refuse 401 TOKEN_INVALID ''Token revoked (password changed)'')"
  using assms
  by (auto simp: stamp_request_def session_stamp_def get_current_user_from_request_def or_else_def version_of_def auth_refuse_def)

text \<open>C23. 
  C0. When a request has changed the password of an account, every session opened before is over for good: after any further requests, a request
  to a path that is not public, with a session token of that account whose version is not newer than the one the password was changed with,
  changes nothing and is answered 401 with the code for an invalid token, unless the CSRF check refuses it first. (The request carries no internal
  token, and authentication is not disabled.)
\<close>

theorem changed_password_ends_sessions:
  assumes distinct: "ids_distinct (acc_users (gs_accounts s))" and "routed rq (Change_Password current new new_email)"
    and changed: "serve_gateway cfg mo rq (Change_Password current new new_email) s = (Answer r, s1)" and "gp_status r = 200"
    and token: "cookie rq ''access_token'' = Some token" "decode_token (gc_crypto cfg) (mo_now mo) token = Some (Inr payload)"
    and later: "snd (run_gateway cfg events s1) = s2"
    and stale: "cookie rq' ''access_token'' = Some token'" "token' \<noteq> ''''" "decode_token (gc_crypto cfg) (mo_now mo') token' = Some (Inr payload')"
      "tp_sub payload' = tp_sub payload" "tp_ver payload' \<le> tp_ver payload"
    and plain: "\<not> is_public (gr_path rq')" "is_trusted_internal_request (gc_settings cfg) rq' = Some False" "\<not> is_auth_disabled (gc_settings cfg)"
  shows "serve_gateway cfg mo' rq' c s2 =
    (case csrf_check (gc_settings cfg) rq' of
       Inl refused \<Rightarrow> refused
     | Inr _ \<Rightarrow> auth_refuse 401 TOKEN_INVALID ''Token revoked (password changed)'', s2)"
proof -
  have public: "\<not> is_public (gr_path rq)"
    using assms(2) by (simp add: routed_def is_public_def public_exact_paths_def public_path_prefixes_def rstrip_slashes_def)
  obtain p source where stamp: "stamp_request (gc_settings cfg) (gc_crypto cfg) (mo_now mo) rq (acc_users (gs_accounts s)) = Inr (p, source)"
    and h: "handle cfg mo rq (Change_Password current new new_email) (Some (p, source)) s = (Answer r, s1)"
    using serve_status [OF public, of cfg mo "Change_Password current new new_email" s] changed assms(4) by auto
  obtain u where u: "p = Account u" and v1: "version_of (acc_users (gs_accounts s1)) (u_id u) = Some (u_token_version u + 1)"
    using h password_changed assms(4) by (fastforce simp: with_accounts_def split: prod.split_asm)
  have id: "u_id u = tp_sub payload" "u_token_version u = tp_ver payload"
    using stamped_sender(1) [OF stamp] token get_user_by_id_id by (auto simp: u sent_by_def session_of_def)
  have "versions_kept (acc_users (gs_accounts s1)) (acc_users (gs_accounts s2))"
    using versions.run_keeps [of s1 cfg events] versions.served [OF distinct, of cfg mo rq "Change_Password current new new_email"] changed later
    by simp
  then obtain v where "version_of (acc_users (gs_accounts s2)) (tp_sub payload') = Some v" and "tp_ver payload' < v"
    using v1 id stale(4,5) unfolding versions_kept_def by force
  note refused = stale_token_refused [OF this stale(1-3) plain(2,3)]
  have "\<not> is_auth_endpoint rq'" using plain(1) session_endpoints_public by blast
  then show ?thesis using refused plain(1)
    by (auto simp: serve_gateway_def csrf_dispatch_def auth_dispatch_def auth_refuse_def split: sum.split)
qed

definition demo_change :: call where "demo_change = Change_Password ''secret-pw'' ''another-secret'' None"

definition demo_changed :: "outcome \<times> gateway" where
  "demo_changed = serve_gateway demo_config (demo_moment 0) (session_request demo_change ''a.0'') demo_change demo_gateway"

text \<open>Afterwards the account logs in again.\<close>

definition demo_later :: "event list" where
  "demo_later =
     [(demo_moment 1, demo_request (Login ''a@x.org'' ''another-secret'') [] [], Login ''a@x.org'' ''another-secret'')]"

definition demo_after :: gateway where "demo_after = snd (run_gateway demo_config demo_later (snd demo_changed))"

theorem changed_password_ends_sessions_witness:
  "serve_gateway demo_config (demo_moment 2) (session_request Me ''a.0'') Me demo_after =
     (auth_refuse 401 TOKEN_INVALID ''Token revoked (password changed)'', demo_after)"
proof -
  let ?p = "\<lparr>tp_sub = ''a'', tp_exp = 0, tp_iat = None, tp_ver = 0\<rparr>"
  have "status_of (fst demo_changed) = Some 200" by code_simp
  then obtain r where r: "fst demo_changed = Answer r" "gp_status r = 200" by (cases "fst demo_changed") auto
  have changed: "serve_gateway demo_config (demo_moment 0) (session_request demo_change ''a.0'') demo_change demo_gateway = (Answer r, snd demo_changed)"
    using r(1) by (simp add: demo_changed_def prod_eq_iff)
  have distinct: "ids_distinct (acc_users (gs_accounts demo_gateway))" by (simp add: ids_distinct_def demo_gateway_def demo_user_def)
  have cookies: "cookie (session_request c ''a.0'') ''access_token'' = Some ''a.0''" for c
    by (simp add: cookie_def session_request_def demo_request_def)
  have decoded: "decode_token (gc_crypto demo_config) (mo_now m) ''a.0'' = Some (Inr ?p)" for m
    by (simp add: decode_token_def demo_config_def demo_crypto_def get_key_def parse_int_def str_strip_def unsigned_value_def char_class_defs)
  have plain: "\<not> is_public (gr_path (session_request Me ''a.0''))"
      "is_trusted_internal_request (gc_settings demo_config) (session_request Me ''a.0'') = Some False" "\<not> is_auth_disabled (gc_settings demo_config)"
    by code_simp+
  have "csrf_check (gc_settings demo_config) (session_request Me ''a.0'') = Inr ()" by code_simp
  then show ?thesis
    using changed_password_ends_sessions [OF distinct _ changed [unfolded demo_change_def] r(2) cookies decoded refl cookies _ decoded refl order_refl plain]
    by (simp add: demo_after_def)
qed

section \<open>Failed logins\<close>

definition login_answer :: "gateway_config \<Rightarrow> string \<Rightarrow> nat \<Rightarrow> event \<times> outcome \<Rightarrow> bool" where
  "login_answer cfg ip status e =
     (case e of ((mo, rq, c), out) \<Rightarrow>
        (case c of Login _ _ \<Rightarrow> True | _ \<Rightarrow> False) \<and> get_client_ip (gc_settings cfg) (gc_addresses cfg) rq = ip \<and> status_of out = Some status)"

text \<open>How many more passwords an address can have tried before a time.\<close>

definition tries_left :: "rat \<Rightarrow> string \<Rightarrow> attempts \<Rightarrow> nat" where
  "tries_left until ip table =
     (case dget table ip of
        None \<Rightarrow> max_login_attempts
      | Some (c, u) \<Rightarrow> if c < max_login_attempts then max_login_attempts - c else if until \<le> u then 0 else max_login_attempts)"

lemma record_failure_small:
  assumes "int (length table) < max_tracked_ips"
  shows "record_login_failure now ip table =
    (case dget table ip of
       None \<Rightarrow> dset ip (1, 0) table
     | Some (count, _) \<Rightarrow> dset ip (count + 1, if count + 1 \<ge> max_login_attempts then now + lockout_seconds else 0) table)"
  using assms by (simp add: record_login_failure_def evict_attempts_def Let_def split: option.split)

text \<open>One login, seen from the table: the address of the sender has its entry changed, and no other.\<close>

lemma failed_login_table:
  assumes "check_rate_limit now ip table = Inr kept" and "int (length table) < max_tracked_ips" and "until \<le> now + lockout_seconds" and "now < until"
  shows "Suc (tries_left until ip (record_login_failure now ip kept)) \<le> tries_left until ip table"
    and "length (record_login_failure now ip kept) \<le> Suc (length table)"
    and "ip' \<noteq> ip \<Longrightarrow> dget (record_login_failure now ip kept) ip' = dget table ip'"
    and "length kept \<le> length table" and "ip' \<noteq> ip \<Longrightarrow> dget kept ip' = dget table ip'"
proof -
  show kept: "length kept \<le> length table" and same: "ip' \<noteq> ip \<Longrightarrow> dget kept ip' = dget table ip'"
    using assms(1) length_dpop_le by (auto simp: check_rate_limit_def split: option.split_asm if_split_asm)
  note small = record_failure_small [of kept now ip]
  show "length (record_login_failure now ip kept) \<le> Suc (length table)"
    using kept assms(2) small by (auto intro: le_trans [OF length_dset_le] split: option.split)
  show "ip' \<noteq> ip \<Longrightarrow> dget (record_login_failure now ip kept) ip' = dget table ip'"
    using same kept assms(2) small by (auto split: option.split)
  show "Suc (tries_left until ip (record_login_failure now ip kept)) \<le> tries_left until ip table"
    using assms kept small
    by (auto simp: check_rate_limit_def tries_left_def max_login_attempts_def split: option.split_asm option.split if_split_asm)
qed

lemma login_step:
  assumes "login_local gw cr ips dr now rq username password acc = (out, acc')" and "int (length (acc_attempts acc)) < max_tracked_ips"
    and "until \<le> now + lockout_seconds" and "now < until" and "\<not> (get_client_ip gw ips rq = ip \<and> status_of out = Some 200)"
  shows "length (acc_attempts acc') \<le> Suc (length (acc_attempts acc))"
    and "(if get_client_ip gw ips rq = ip \<and> status_of out = Some 401 then 1 else 0) + tries_left until ip (acc_attempts acc') \<le>
      tries_left until ip (acc_attempts acc)"
proof -
  let ?c = "get_client_ip gw ips rq"
  consider (locked) "acc' = acc" "status_of out \<noteq> Some 401"
    | (failed) kept where "check_rate_limit now ?c (acc_attempts acc) = Inr kept" "status_of out = Some 401"
        "acc_attempts acc' = record_login_failure now ?c kept"
    | (passed) kept where "check_rate_limit now ?c (acc_attempts acc) = Inr kept" "status_of out = Some 200" "acc_attempts acc' = dpop ?c kept"
    using assms(1)
    by (auto simp: login_local_def Let_def check_rate_limit_def record_login_success_def split: option.split_asm if_split_asm prod.split_asm)
  then have "length (acc_attempts acc') \<le> Suc (length (acc_attempts acc)) \<and>
    (if ?c = ip \<and> status_of out = Some 401 then 1 else 0) + tries_left until ip (acc_attempts acc') \<le> tries_left until ip (acc_attempts acc)"
  proof cases
    case locked
    then show ?thesis by simp
  next
    case failed
    show ?thesis using failed_login_table(1,2) [OF failed(1) assms(2-4)] failed_login_table(3) [OF failed(1) assms(2-4), of ip] failed(2,3)
      by (auto simp: tries_left_def)
  next
    case passed
    then have "?c \<noteq> ip" using assms(5) by blast
    then show ?thesis using failed_login_table(4) [OF passed(1) assms(2-4)] failed_login_table(5) [OF passed(1) assms(2-4), of ip] passed(2,3) length_dpop_le [of ?c kept]
      by (auto simp: tries_left_def)
  qed
  then show "length (acc_attempts acc') \<le> Suc (length (acc_attempts acc))"
    and "(if ?c = ip \<and> status_of out = Some 401 then 1 else 0) + tries_left until ip (acc_attempts acc') \<le> tries_left until ip (acc_attempts acc)"
    by blast+
qed

lemma other_calls_table:
  assumes "handle cfg mo rq c st s = (out, s')" and "\<And>n p. c \<noteq> Login n p"
  shows "acc_attempts (gs_accounts s') = acc_attempts (gs_accounts s)"
  using assms
  by (cases c) (auto simp: with_accounts_def register_def initialize_admin_def logout_def change_password_def Let_def dest: thread_calls_accounts
      split: prod.split_asm if_split_asm sum.split_asm principal.split_asm option.split_asm user_error.split_asm)

lemma serve_login:
  assumes "routed rq (Login username password)" and "serve_gateway cfg mo rq (Login username password) s = (out, s')"
  shows "s' = s \<and> status_of out \<noteq> Some 401 \<and> status_of out \<noteq> Some 200 \<or>
    (\<exists>out' acc'. login_local (gc_settings cfg) (gc_crypto cfg) (gc_addresses cfg) (mo_draws mo) (mo_now mo) rq username password (gs_accounts s) =
       (out', acc') \<and> status_of out = status_of out' \<and> s' = s\<lparr>gs_accounts := acc'\<rparr>)"
proof -
  have "is_public (gr_path rq)" using assms(1) by (simp add: routed_def is_public_def public_exact_paths_def rstrip_slashes_def)
  moreover have "status_of r \<noteq> Some 401 \<and> status_of r \<noteq> Some 200" if "csrf_check gw rq = Inl r" for gw r
    using that by (auto simp: csrf_check_def double_submit_def split: option.split_asm bool.split_asm if_split_asm)
  ultimately show ?thesis using assms(2)
    by (auto simp: serve_gateway_def csrf_dispatch_def auth_dispatch_def with_accounts_def
        split: sum.split_asm prod.split_asm outcome.split_asm if_split_asm)
qed

lemma serve_other_table:
  assumes "\<And>n p. c \<noteq> Login n p"
  shows "acc_attempts (gs_accounts (snd (serve_gateway cfg mo rq c s))) = acc_attempts (gs_accounts s)"
  using other_calls_table [OF _ assms]
  by (auto simp: serve_gateway_def csrf_dispatch_state auth_dispatch_def split: sum.split) (metis prod.collapse)+

lemma serve_table:
  assumes "serve_gateway cfg mo rq c s = (out, s')" and "routed rq c" and "int (length (acc_attempts (gs_accounts s))) < max_tracked_ips"
    and "until \<le> mo_now mo + lockout_seconds" and "mo_now mo < until" and "\<not> login_answer cfg ip 200 ((mo, rq, c), out)"
  shows "length (acc_attempts (gs_accounts s')) \<le> Suc (length (acc_attempts (gs_accounts s))) \<and>
    (if login_answer cfg ip 401 ((mo, rq, c), out) then 1 else 0) + tries_left until ip (acc_attempts (gs_accounts s')) \<le>
      tries_left until ip (acc_attempts (gs_accounts s))"
proof (cases "\<exists>n p. c = Login n p")
  case True
  then obtain n p where c: "c = Login n p" by blast
  have "routed rq (Login n p)" and "serve_gateway cfg mo rq (Login n p) s = (out, s')" using assms(1,2) c by simp_all
  from serve_login [OF this] show ?thesis
  proof (elim disjE)
    assume "\<exists>out' acc'. login_local (gc_settings cfg) (gc_crypto cfg) (gc_addresses cfg) (mo_draws mo) (mo_now mo) rq n p (gs_accounts s) =
       (out', acc') \<and> status_of out = status_of out' \<and> s' = s\<lparr>gs_accounts := acc'\<rparr>"
    then obtain out' acc' where l: "login_local (gc_settings cfg) (gc_crypto cfg) (gc_addresses cfg) (mo_draws mo) (mo_now mo) rq n p (gs_accounts s) =
       (out', acc')" and o: "status_of out = status_of out'" "s' = s\<lparr>gs_accounts := acc'\<rparr>" by blast
    show ?thesis using login_step [OF l assms(3-5), of ip] assms(6) o by (simp add: c login_answer_def)
  qed (simp_all add: c login_answer_def)
next
  case False
  then have "acc_attempts (gs_accounts s') = acc_attempts (gs_accounts s)" using serve_other_table [of c cfg mo rq s] assms(1) by simp
  moreover have "\<not> login_answer cfg ip 401 ((mo, rq, c), out)" using False by (cases c) (auto simp: login_answer_def)
  ultimately show ?thesis by simp
qed

definition in_window :: "rat \<Rightarrow> event \<Rightarrow> bool" where
  "in_window t e = (case e of (mo, rq, c) \<Rightarrow> routed rq c \<and> t \<le> mo_now mo \<and> mo_now mo < t + lockout_seconds)"

lemma run_guesses:
  assumes "list_all (in_window t) es" and "int (length (acc_attempts (gs_accounts s)) + length es) \<le> max_tracked_ips"
    and "\<not> list_ex (login_answer cfg ip 200) (zip es (fst (run_gateway cfg es s)))"
  shows "length (filter (login_answer cfg ip 401) (zip es (fst (run_gateway cfg es s)))) \<le> tries_left (t + lockout_seconds) ip (acc_attempts (gs_accounts s))"
  using assms
proof (induction cfg es s rule: run_gateway.induct)
  case (1 cfg s)
  then show ?case by simp
next
  case (2 cfg mo rq c es s)
  obtain out s' where e: "serve_gateway cfg mo rq c s = (out, s')" by fastforce
  have step: "length (acc_attempts (gs_accounts s')) \<le> Suc (length (acc_attempts (gs_accounts s))) \<and>
    (if login_answer cfg ip 401 ((mo, rq, c), out) then 1 else 0) + tries_left (t + lockout_seconds) ip (acc_attempts (gs_accounts s')) \<le>
      tries_left (t + lockout_seconds) ip (acc_attempts (gs_accounts s))"
    by (rule serve_table [OF e]) (use 2(2-4) e in \<open>auto simp: in_window_def split: prod.split_asm\<close>)
  have "length (filter (login_answer cfg ip 401) (zip es (fst (run_gateway cfg es s')))) \<le> tries_left (t + lockout_seconds) ip (acc_attempts (gs_accounts s'))"
    by (rule 2(1) [OF e [symmetric] refl]) (use 2(2-4) e step in \<open>auto split: prod.split_asm\<close>)
  then show ?case using step e by (auto split: prod.split)
qed


text \<open>Six logins with a wrong password in six seconds.\<close>

definition demo_guesses :: "event list" where
  "demo_guesses =
     map (\<lambda>i. (demo_moment i, demo_request (Login ''a@x.org'' ''wrong'') [] [], Login ''a@x.org'' ''wrong'')) [0, 1, 2, 3, 4, 5]"


end
