(* ===== verification/Llm_Errors.thy ===== *)
theory Llm_Errors
  imports Agent_Messages
begin

text \<open>
  Errors of the language model, \<^verbatim>\<open>agents/middlewares/llm_error_handling_middleware.py\<close>: classification of exceptions, retries with a
  growing delay, and the circuit breaker the calls of all runs share. An exception is what the code reads of it; the handler is a
  function from the number of the attempt to its outcome. Reading a number or a date from a header, and whether the system can sleep
  that long, are arguments. Times are exact numbers of seconds. Patterns in Chinese cannot occur in the strings of the model and are left out.
\<close>

section \<open>Exceptions\<close>

record llm_exception =
  le_class :: string
  le_index_error :: bool
  le_text :: string
  le_attributes :: "(string, pyval) dict"
  le_response :: "(string, pyval) dict"
  le_headers :: "(string \<Rightarrow> pyval) option"

definition retriable_status_codes :: "int list" where
  "retriable_status_codes = [408, 409, 425, 429, 500, 502, 503, 504]"

definition busy_patterns :: "string list" where
  "busy_patterns =
     [''server busy'', ''temporarily unavailable'', ''try again later'', ''please retry'', ''please try again'', ''overloaded'', ''high demand'', ''rate limit'']"

definition quota_patterns :: "string list" where
  "quota_patterns = [''insufficient_quota'', ''quota'', ''billing'', ''credit'', ''payment'']"

definition auth_patterns :: "string list" where
  "auth_patterns =
     [''authentication'', ''unauthorized'', ''invalid api key'', ''invalid_api_key'', ''permission'', ''forbidden'', ''access denied'']"

definition transient_classes :: "string list" where
  "transient_classes =
     [''APITimeoutError'', ''APIConnectionError'', ''InternalServerError'', ''ReadError'', ''RemoteProtocolError'', ''StreamChunkTimeoutError'']"

definition retry_budget_overrides :: "(string, int) dict" where "retry_budget_overrides = [(''StreamChunkTimeoutError'', 2)]"
definition stream_drop_exceptions :: "string list" where "stream_drop_exceptions = [''StreamChunkTimeoutError'']"

definition matches_any :: "string \<Rightarrow> string list \<Rightarrow> bool" where
  "matches_any details patterns = list_ex (\<lambda>p. str_contains p details) patterns"

definition first_present :: "(string, pyval) dict \<Rightarrow> string list \<Rightarrow> pyval option" where
  "first_present d keys = List.find (\<lambda>v. v \<noteq> PNone \<and> v \<noteq> PStr []) (map (get_key d) keys)"

definition extract_error_code :: "llm_exception \<Rightarrow> pyval" where
  "extract_error_code exc =
     (case first_present (le_attributes exc) [''code'', ''error_code''] of
        Some v \<Rightarrow> v
      | None \<Rightarrow>
          (case get_key (le_attributes exc) ''body'' of
             PDict body \<Rightarrow>
               (case get_key body ''error'' of
                  PDict error \<Rightarrow> (case first_present error [''code'', ''type''] of Some v \<Rightarrow> v | None \<Rightarrow> PNone)
                | _ \<Rightarrow> PNone)
           | _ \<Rightarrow> PNone))"

definition int_instance :: "pyval \<Rightarrow> int option" where
  "int_instance v = (case v of PInt i \<Rightarrow> Some i | PBool b \<Rightarrow> Some (if b then 1 else 0) | _ \<Rightarrow> None)"

definition extract_status_code :: "llm_exception \<Rightarrow> int option" where
  "extract_status_code exc =
     (case int_instance (get_key (le_attributes exc) ''status_code'') of
        Some i \<Rightarrow> Some i
      | None \<Rightarrow>
          (case int_instance (get_key (le_attributes exc) ''status'') of
             Some i \<Rightarrow> Some i
           | None \<Rightarrow> int_instance (get_key (le_response exc) ''status_code'')))"

definition extract_error_detail :: "llm_exception \<Rightarrow> string" where
  "extract_error_detail exc =
     (if str_strip (le_text exc) \<noteq> [] then str_strip (le_text exc)
      else case get_key (le_attributes exc) ''message'' of
        PStr s \<Rightarrow> if str_strip s \<noteq> [] then str_strip s else le_class exc
      | _ \<Rightarrow> le_class exc)"

definition classify_error :: "llm_exception \<Rightarrow> bool \<times> string" where
  "classify_error exc =
     (let lowered = str_lower (extract_error_detail exc);
          error_code = str_lower (py_str (extract_error_code exc));
          status_code = extract_status_code exc
      in if matches_any lowered quota_patterns \<or> matches_any error_code quota_patterns then (False, ''quota'')
         else if matches_any lowered auth_patterns then (False, ''auth'')
         else if le_class exc \<in> set transient_classes then (True, ''transient'')
         else if le_index_error exc then (True, ''transient'')
         else if (case status_code of None \<Rightarrow> False | Some s \<Rightarrow> s \<in> set retriable_status_codes) then (True, ''transient'')
         else if matches_any lowered busy_patterns then (True, ''busy'')
         else (False, ''generic''))"

section \<open>Delays\<close>

text \<open>\<open>fr_scaled raw m\<close> is \<^verbatim>\<open>float(raw) * m\<close> (\<open>None\<close> for \<^verbatim>\<open>TypeError\<close> and \<^verbatim>\<open>ValueError\<close>); \<open>fr_until raw now\<close> the milliseconds
  from now to the date that \<^verbatim>\<open>parsedate_to_datetime\<close> reads; \<open>fr_sleeps\<close> holds for the delays \<^verbatim>\<open>time.sleep\<close> accepts.\<close>

datatype py_float = Finite rat | Infinite | Not_A_Number

record header_reader =
  fr_scaled :: "pyval \<Rightarrow> int \<Rightarrow> py_float option"
  fr_until :: "pyval \<Rightarrow> rat \<Rightarrow> int option"
  fr_sleeps :: "int \<Rightarrow> bool"

datatype delay_error = OverflowError

definition trunc_rat :: "rat \<Rightarrow> int" where
  "trunc_rat r = (if 0 \<le> r then \<lfloor>r\<rfloor> else \<lceil>r\<rceil>)"

definition retry_headers :: "string list" where
  "retry_headers = [''retry-after-ms'', ''Retry-After-Ms'', ''retry-after'', ''Retry-After'']"

definition extract_retry_after_ms :: "header_reader \<Rightarrow> rat \<Rightarrow> llm_exception \<Rightarrow> delay_error + int option" where
  "extract_retry_after_ms fr now exc =
     (case le_headers exc of
        None \<Rightarrow> Inr None
      | Some get \<Rightarrow>
          (case List.find (\<lambda>k. truthy (get k)) retry_headers of
             None \<Rightarrow> Inr None
           | Some header_name \<Rightarrow>
               let raw = get header_name;
                   multiplier = (if str_contains ''ms'' (str_lower header_name) then 1 else 1000);
                   by_date = map_option (max 0) (fr_until fr raw now)
               in case fr_scaled fr raw multiplier of
                    Some (Finite r) \<Rightarrow> Inr (Some (max 0 (trunc_rat r)))
                  | Some Infinite \<Rightarrow> Inl OverflowError
                  | Some Not_A_Number \<Rightarrow> Inr by_date
                  | None \<Rightarrow> Inr by_date))"

record llm_config =
  lm_retry_max_attempts :: int
  lm_retry_base_delay_ms :: int
  lm_retry_cap_delay_ms :: int
  lm_failure_threshold :: int
  lm_recovery_timeout_sec :: int

definition default_llm_config :: llm_config where
  "default_llm_config =
     \<lparr>lm_retry_max_attempts = 3, lm_retry_base_delay_ms = 1000, lm_retry_cap_delay_ms = 8000, lm_failure_threshold = 5, lm_recovery_timeout_sec = 60\<rparr>"

definition max_attempts_for :: "llm_config \<Rightarrow> llm_exception \<Rightarrow> int" where
  "max_attempts_for c exc =
     (case dget retry_budget_overrides (le_class exc) of
        None \<Rightarrow> lm_retry_max_attempts c
      | Some n \<Rightarrow> min n (lm_retry_max_attempts c))"

definition build_retry_delay_ms :: "header_reader \<Rightarrow> llm_config \<Rightarrow> rat \<Rightarrow> int \<Rightarrow> llm_exception \<Rightarrow> delay_error + int" where
  "build_retry_delay_ms fr c now attempt exc =
     ebind (extract_retry_after_ms fr now exc) (\<lambda>retry_after.
     Inr (case retry_after of
       Some ms \<Rightarrow> ms
     | None \<Rightarrow> min (lm_retry_base_delay_ms c * 2 ^ nat (max 0 (attempt - 1))) (lm_retry_cap_delay_ms c)))"

section \<open>Messages\<close>

text \<open>\<^verbatim>\<open>round(ms / 1000)\<close>, to the even neighbour in the middle.\<close>

definition round_seconds :: "int \<Rightarrow> int" where
  "round_seconds ms =
     (let q = ms div 1000; r = ms mod 1000 in if r < 500 \<or> (r = 500 \<and> even q) then q else q + 1)"

definition build_retry_message :: "llm_config \<Rightarrow> int \<Rightarrow> int \<Rightarrow> string \<Rightarrow> string" where
  "build_retry_message c attempt wait_ms reason =
     ''LLM request retry '' @ int_str attempt @ ''/'' @ int_str (lm_retry_max_attempts c) @ '': '' @
     (if reason = ''busy'' then ''provider is busy'' else ''provider request failed temporarily'') @
     ''. Retrying in '' @ int_str (max 1 (round_seconds wait_ms)) @ ''s.''"

definition circuit_breaker_message :: string where
  "circuit_breaker_message =
     ''The configured LLM provider is currently unavailable due to continuous failures. Circuit breaker is engaged to protect the system. Please wait a moment before trying again.''"

definition build_error_fallback_message :: "string \<Rightarrow> string \<Rightarrow> string \<Rightarrow> string \<Rightarrow> ai_message" where
  "build_error_fallback_message content error_type reason details =
     \<lparr>ai_id = None, ai_content = PStr content, ai_tool_calls = [], ai_invalid_tool_calls = [],
      ai_additional_kwargs =
        [(''deerflow_error_fallback'', PBool True), (''error_type'', PStr error_type), (''error_reason'', PStr reason), (''error_detail'', PStr details)],
      ai_response_metadata = [], ai_usage_metadata = []\<rparr>"

text \<open>The dash of the third message, U+2014, stands as a hyphen.\<close>

definition build_user_message :: "llm_exception \<Rightarrow> string \<Rightarrow> string" where
  "build_user_message exc reason =
     (if reason = ''quota''
      then ''The configured LLM provider rejected the request because the account is out of quota, billing is unavailable, or usage is restricted. Please fix the provider account and try again.''
      else if reason = ''auth''
      then ''The configured LLM provider rejected the request because authentication or access is invalid. Please check the provider credentials and try again.''
      else if reason \<in> set [''busy'', ''transient'']
      then (if le_class exc \<in> set stream_drop_exceptions
            then [CHR ''T'', CHR ''h'', CHR ''e'', CHR '' '', CHR ''m'', CHR ''o'', CHR ''d'', CHR ''e'', CHR ''l'', CHR 0x27] @
              ''s streaming response was interrupted before it could finish. This usually happens when a single response or tool call is very large - please ask the assistant to split the work into smaller steps, or shorten the requested output, and try again.''
            else ''The configured LLM provider is temporarily unavailable after multiple retries. Please wait a moment and continue the conversation.'')
      else ''LLM request failed: '' @ extract_error_detail exc)"

definition build_user_fallback_message :: "llm_exception \<Rightarrow> string \<Rightarrow> ai_message" where
  "build_user_fallback_message exc reason =
     build_error_fallback_message (build_user_message exc reason) (le_class exc) reason (extract_error_detail exc)"

record retry_event =
  re_attempt :: int
  re_max_attempts :: int
  re_wait_ms :: int
  re_reason :: string
  re_message :: string

definition emit_retry_event :: "llm_config \<Rightarrow> int \<Rightarrow> int \<Rightarrow> string \<Rightarrow> retry_event" where
  "emit_retry_event c attempt wait_ms reason =
     \<lparr>re_attempt = attempt, re_max_attempts = lm_retry_max_attempts c, re_wait_ms = wait_ms, re_reason = reason,
      re_message = build_retry_message c attempt wait_ms reason\<rparr>"

section \<open>The circuit breaker\<close>

datatype circuit_state = Closed | Open | Half_Open

record circuit =
  cb_failure_count :: int
  cb_open_until :: rat
  cb_state :: circuit_state
  cb_probe_in_flight :: bool

definition initial_circuit :: circuit where
  "initial_circuit = \<lparr>cb_failure_count = 0, cb_open_until = 0, cb_state = Closed, cb_probe_in_flight = False\<rparr>"

definition probe_circuit :: "circuit \<Rightarrow> bool \<times> circuit" where
  "probe_circuit cb =
     (if cb_state cb = Half_Open
      then if cb_probe_in_flight cb then (True, cb) else (False, cb\<lparr>cb_probe_in_flight := True\<rparr>)
      else (False, cb))"

definition check_circuit :: "rat \<Rightarrow> circuit \<Rightarrow> bool \<times> circuit" where
  "check_circuit now cb =
     (if cb_state cb = Open
      then if now < cb_open_until cb then (True, cb) else probe_circuit (cb\<lparr>cb_state := Half_Open, cb_probe_in_flight := False\<rparr>)
      else probe_circuit cb)"

definition record_success :: "circuit \<Rightarrow> circuit" where
  "record_success cb = \<lparr>cb_failure_count = 0, cb_open_until = 0, cb_state = Closed, cb_probe_in_flight = False\<rparr>"

definition record_failure :: "llm_config \<Rightarrow> rat \<Rightarrow> circuit \<Rightarrow> circuit" where
  "record_failure c now cb =
     (if cb_state cb = Half_Open
      then cb\<lparr>cb_open_until := now + of_int (lm_recovery_timeout_sec c), cb_state := Open, cb_probe_in_flight := False\<rparr>
      else
        let cb = cb\<lparr>cb_failure_count := cb_failure_count cb + 1\<rparr> in
        if cb_failure_count cb \<ge> lm_failure_threshold c
        then
          let cb = cb\<lparr>cb_open_until := now + of_int (lm_recovery_timeout_sec c)\<rparr> in
          if cb_state cb \<noteq> Open then cb\<lparr>cb_state := Open, cb_probe_in_flight := False\<rparr> else cb
        else cb)"

definition release_probe :: "circuit \<Rightarrow> circuit" where
  "release_probe cb = (if cb_state cb = Half_Open then cb\<lparr>cb_probe_in_flight := False\<rparr> else cb)"

section \<open>Calls\<close>

text \<open>What the handler does at an attempt: it responds, raises a control-flow signal of the graph, an \<^verbatim>\<open>Exception\<close>, or another
  \<^verbatim>\<open>BaseException\<close> such as a cancellation.\<close>

datatype 'r outcome = Response 'r | Bubble_Up | Failure llm_exception | Base_Exception

text \<open>How the loop of attempts ends.\<close>

datatype 'r ending = Responded 'r | Bubbled | Broken | Overflowed | Gave_Up llm_exception bool string

lemma max_attempts_le: "max_attempts_for c exc \<le> lm_retry_max_attempts c"
  by (simp add: max_attempts_for_def split: option.split)

function run_attempts ::
  "header_reader \<Rightarrow> llm_config \<Rightarrow> (int \<Rightarrow> rat) \<Rightarrow> (int \<Rightarrow> 'r outcome) \<Rightarrow> int \<Rightarrow> retry_event list \<Rightarrow> 'r ending \<times> int \<times> retry_event list" where
  "run_attempts fr c clock handler attempt events =
     (case handler attempt of
        Response r \<Rightarrow> (Responded r, attempt, events)
      | Bubble_Up \<Rightarrow> (Bubbled, attempt, events)
      | Base_Exception \<Rightarrow> (Broken, attempt, events)
      | Failure exc \<Rightarrow>
          let (retriable, reason) = classify_error exc in
          if retriable \<and> attempt < max_attempts_for c exc
          then
            (case build_retry_delay_ms fr c (clock attempt) attempt exc of
               Inl OverflowError \<Rightarrow> (Overflowed, attempt, events)
             | Inr wait_ms \<Rightarrow>
                 let events = events @ [emit_retry_event c attempt wait_ms reason] in
                 if \<not> fr_sleeps fr wait_ms then (Overflowed, attempt, events)
                 else run_attempts fr c clock handler (attempt + 1) events)
          else (Gave_Up exc retriable reason, attempt, events))"
  by pat_completeness auto
termination
proof (relation "measure (\<lambda>(fr, c, clock, handler, attempt, events). nat (lm_retry_max_attempts c - attempt))", goal_cases)
  case (2 fr c clock handler attempt events exc)
  then show ?case using max_attempts_le [of c exc] by auto
qed simp

declare run_attempts.simps [simp del]

text \<open>What a call gives its caller: a message of the model, a message that stands for it, or an exception.\<close>

datatype 'r call_result = Answer 'r | Fallback ai_message | Raises_Bubble_Up | Raises_Base | Raises_Overflow

definition finish_call :: "llm_config \<Rightarrow> rat \<Rightarrow> 'r ending \<Rightarrow> circuit \<Rightarrow> 'r call_result \<times> circuit" where
  "finish_call c now e cb =
     (case e of
        Responded r \<Rightarrow> (Answer r, record_success cb)
      | Bubbled \<Rightarrow> (Raises_Bubble_Up, release_probe cb)
      | Broken \<Rightarrow> (Raises_Base, cb)
      | Overflowed \<Rightarrow> (Raises_Overflow, cb)
      | Gave_Up exc retriable reason \<Rightarrow>
          (Fallback (build_user_fallback_message exc reason), if retriable then record_failure c now cb else cb))"

record 'r model_call =
  mc_begins :: rat
  mc_ends :: rat
  mc_clock :: "int \<Rightarrow> rat"
  mc_handler :: "int \<Rightarrow> 'r outcome"

definition circuit_open_message :: ai_message where
  "circuit_open_message =
     build_error_fallback_message circuit_breaker_message ''CircuitBreakerOpen'' ''circuit_open'' ''LLM circuit breaker is open''"

text \<open>The result, the number of times the handler was called, the events, and the breaker afterwards.\<close>

definition wrap_model_call ::
  "header_reader \<Rightarrow> llm_config \<Rightarrow> 'r model_call \<Rightarrow> circuit \<Rightarrow> 'r call_result \<times> int \<times> retry_event list \<times> circuit" where
  "wrap_model_call fr c call cb =
     (let (refused, cb) = check_circuit (mc_begins call) cb in
      if refused then (Fallback circuit_open_message, 0, [], cb)
      else
        let (e, attempts, events) = run_attempts fr c (mc_clock call) (mc_handler call) 1 [];
            (result, cb) = finish_call c (mc_ends call) e cb
        in (result, attempts, events, cb))"

end
