(* ===== verification/Llm_Properties.thy ===== *)
theory Llm_Properties
  imports Llm_Errors
begin

text \<open>
  What the error handling promises. One call: it ends after a bounded number of attempts, and what the caller gets says how. All calls: their
  interleaving as a step relation on the breaker, which limits what reaches a failing provider and lets a recovered one through.
\<close>

section \<open>One call\<close>

definition retried :: "llm_config \<Rightarrow> (int \<Rightarrow> 'r outcome) \<Rightarrow> int \<Rightarrow> bool" where
  "retried c handler k \<longleftrightarrow> (\<exists>exc. handler k = Failure exc \<and> fst (classify_error exc) \<and> k < max_attempts_for c exc)"

definition ends_as :: "llm_config \<Rightarrow> 'r outcome \<Rightarrow> int \<Rightarrow> 'r ending \<Rightarrow> bool" where
  "ends_as c outcome n e =
     (case e of
        Responded r \<Rightarrow> outcome = Response r
      | Bubbled \<Rightarrow> outcome = Bubble_Up
      | Broken \<Rightarrow> outcome = Base_Exception
      | Overflowed \<Rightarrow> (\<exists>exc. outcome = Failure exc \<and> fst (classify_error exc) \<and> n < max_attempts_for c exc)
      | Gave_Up exc retriable reason \<Rightarrow>
          outcome = Failure exc \<and> classify_error exc = (retriable, reason) \<and> (\<not> retriable \<or> max_attempts_for c exc \<le> n))"

lemma run_attempts_ends:
  assumes "run_attempts fr c clock handler attempt events = (e, n, events')" and "attempt \<le> lm_retry_max_attempts c"
  shows "attempt \<le> n \<and> n \<le> lm_retry_max_attempts c \<and> (\<forall>k. attempt \<le> k \<and> k < n \<longrightarrow> retried c handler k) \<and> ends_as c (handler n) n e"
  using assms
proof (induction fr c clock handler attempt events arbitrary: e n events' rule: run_attempts.induct)
  case (1 fr c clock handler attempt events)
  show ?case
  proof (cases "handler attempt")
    case (Failure exc)
    obtain retriable reason where cl: "classify_error exc = (retriable, reason)" by (metis prod.exhaust)
    show ?thesis
    proof (cases "retriable \<and> attempt < max_attempts_for c exc")
      case True
      note again = True
      have retry: "retried c handler attempt" using Failure cl again by (simp add: retried_def)
      show ?thesis
      proof (cases "build_retry_delay_ms fr c (clock attempt) attempt exc")
        case (Inl x)
        with "1.prems" Failure cl again show ?thesis by (cases x) (auto simp: run_attempts.simps [of _ _ _ _ attempt] ends_as_def)
      next
        case (Inr wait)
        let ?ev = "events @ [emit_retry_event c attempt wait reason]"
        show ?thesis
        proof (cases "fr_sleeps fr wait")
          case False
          with "1.prems" Failure cl again Inr show ?thesis by (auto simp: run_attempts.simps [of _ _ _ _ attempt] ends_as_def)
        next
          case True
          have "run_attempts fr c clock handler (attempt + 1) ?ev = (e, n, events')"
            using "1.prems"(1) Failure cl again Inr True by (subst (asm) run_attempts.simps) simp
          moreover have "attempt + 1 \<le> lm_retry_max_attempts c" using again max_attempts_le [of c exc] by linarith
          ultimately have "attempt + 1 \<le> n \<and> n \<le> lm_retry_max_attempts c \<and> (\<forall>k. attempt + 1 \<le> k \<and> k < n \<longrightarrow> retried c handler k) \<and> ends_as c (handler n) n e"
            using True by (intro "1.IH" [OF Failure refl cl [symmetric] again Inr refl]) simp_all
          then show ?thesis using retry by (metis add1_zle_eq order_le_less zless_imp_add1_zle)
        qed
      qed
    next
      case False
      with "1.prems" Failure cl show ?thesis by (auto simp: run_attempts.simps [of _ _ _ _ attempt] ends_as_def)
    qed
  qed (use "1.prems" in \<open>auto simp: run_attempts.simps [of _ _ _ _ attempt] ends_as_def\<close>)
qed

lemma attempts_positive:
  "run_attempts fr c clock handler attempt events = (e, n, events') \<Longrightarrow> attempt \<le> n"
proof (induction fr c clock handler attempt events arbitrary: e n events' rule: run_attempts.induct)
  case (1 fr c clock handler attempt events)
  show ?case
    using "1.prems" "1.IH"
    by (subst (asm) run_attempts.simps) (force split: outcome.split_asm if_split_asm sum.split_asm delay_error.split_asm prod.split_asm simp: Let_def)
qed


section \<open>All calls\<close>

text \<open>The breaker is only touched when a call begins and when it ends; between the two, other calls begin and end. At most \<open>N\<close> calls are in
  flight, and \<open>P\<close> says which endings occur.\<close>

record breaker =
  bk_now :: rat
  bk_circuit :: circuit
  bk_in_flight :: int
  bk_admitted :: int

definition idle_breaker :: "rat \<Rightarrow> breaker" where
  "idle_breaker t = \<lparr>bk_now = t, bk_circuit = initial_circuit, bk_in_flight = 0, bk_admitted = 0\<rparr>"

inductive breaker_step :: "llm_config \<Rightarrow> int \<Rightarrow> (unit ending \<Rightarrow> bool) \<Rightarrow> breaker \<Rightarrow> breaker \<Rightarrow> bool" for c N P where
  call_refused: "bk_now s \<le> t \<Longrightarrow> check_circuit t (bk_circuit s) = (True, cb) \<Longrightarrow> breaker_step c N P s (s\<lparr>bk_now := t, bk_circuit := cb\<rparr>)"
| call_begins: "bk_now s \<le> t \<Longrightarrow> check_circuit t (bk_circuit s) = (False, cb) \<Longrightarrow> bk_in_flight s < N \<Longrightarrow>
    breaker_step c N P s (s\<lparr>bk_now := t, bk_circuit := cb, bk_in_flight := bk_in_flight s + 1, bk_admitted := bk_admitted s + 1\<rparr>)"
| call_ends: "bk_now s \<le> t \<Longrightarrow> 0 < bk_in_flight s \<Longrightarrow> P e \<Longrightarrow>
    breaker_step c N P s (s\<lparr>bk_now := t, bk_circuit := snd (finish_call c t e (bk_circuit s)), bk_in_flight := bk_in_flight s - 1\<rparr>)"

text \<open>A call as a whole is a step or two of the breaker.\<close>

definition ending_kind :: "'r ending \<Rightarrow> unit ending" where
  "ending_kind e = (case e of Responded r \<Rightarrow> Responded () | Bubbled \<Rightarrow> Bubbled | Broken \<Rightarrow> Broken | Overflowed \<Rightarrow> Overflowed | Gave_Up x r t \<Rightarrow> Gave_Up x r t)"

lemma ending_kind_finish: "snd (finish_call c t (ending_kind e) cb) = snd (finish_call c t e cb)"
  by (cases e) (simp_all add: ending_kind_def finish_call_def)

lemma wrap_model_call_steps:
  assumes "wrap_model_call fr c call cb = (result, attempts, events, cb')" and "t \<le> mc_begins call" and "mc_begins call \<le> mc_ends call"
    and "n < N" and "0 \<le> n"
  shows "\<exists>t' a'. (breaker_step c N (\<lambda>_. True))\<^sup>*\<^sup>* \<lparr>bk_now = t, bk_circuit = cb, bk_in_flight = n, bk_admitted = a\<rparr>
    \<lparr>bk_now = t', bk_circuit = cb', bk_in_flight = n, bk_admitted = a'\<rparr> \<and> a' = a + (if attempts = 0 then 0 else 1)"
proof (cases "check_circuit (mc_begins call) cb")
  case (Pair refused cb1)
  let ?s = "\<lparr>bk_now = t, bk_circuit = cb, bk_in_flight = n, bk_admitted = a\<rparr>"
  show ?thesis
  proof (cases refused)
    case True
    with assms(1) Pair have "attempts = 0" "cb' = cb1" by (auto simp: wrap_model_call_def)
    moreover have "breaker_step c N (\<lambda>_. True) ?s \<lparr>bk_now = mc_begins call, bk_circuit = cb1, bk_in_flight = n, bk_admitted = a\<rparr>"
      using call_refused [of ?s "mc_begins call" cb1 c N "\<lambda>_. True"] assms(2) Pair True by simp
    ultimately show ?thesis by (intro exI [of _ "mc_begins call"] exI [of _ a]) (simp add: r_into_rtranclp)
  next
    case False
    obtain e k ev where r: "run_attempts fr c (mc_clock call) (mc_handler call) 1 [] = (e, k, ev)" by (metis prod_cases3)
    with assms(1) Pair False have cb': "attempts = k" "cb' = snd (finish_call c (mc_ends call) (ending_kind e) cb1)"
      by (auto simp: wrap_model_call_def ending_kind_finish split: prod.split_asm)
    let ?m = "\<lparr>bk_now = mc_begins call, bk_circuit = cb1, bk_in_flight = n + 1, bk_admitted = a + 1\<rparr>"
    have "breaker_step c N (\<lambda>_. True) ?s ?m"
      using call_begins [of ?s "mc_begins call" cb1 N c "\<lambda>_. True"] assms(2,4) Pair False by simp
    moreover have "breaker_step c N (\<lambda>_. True) ?m \<lparr>bk_now = mc_ends call, bk_circuit = cb', bk_in_flight = n, bk_admitted = a + 1\<rparr>"
      using call_ends [of ?m "mc_ends call" "\<lambda>_. True" "ending_kind e" c N] assms(3,5) cb' by simp
    moreover have "k \<noteq> 0" using attempts_positive [OF r] by simp
    ultimately show ?thesis using cb'(1)
      by (intro exI [of _ "mc_ends call"] exI [of _ "a + 1"] conjI rtranclp.rtrancl_into_rtrancl [OF r_into_rtranclp]) simp_all
  qed
qed

subsection \<open>A provider that fails\<close>

definition failing :: "'r ending \<Rightarrow> bool" where
  "failing e \<longleftrightarrow> (\<exists>exc reason. e = Gave_Up exc True reason)"

definition periods :: "llm_config \<Rightarrow> rat \<Rightarrow> int" where
  "periods c x = \<lfloor>x / of_int (lm_recovery_timeout_sec c)\<rfloor>"

text \<open>How many calls can still be admitted until a time.\<close>

definition allowance :: "llm_config \<Rightarrow> int \<Rightarrow> rat \<Rightarrow> breaker \<Rightarrow> int" where
  "allowance c N T s =
     (case cb_state (bk_circuit s) of
        Closed \<Rightarrow> (lm_failure_threshold c - 1 - cb_failure_count (bk_circuit s)) + (N - bk_in_flight s) + periods c (T - bk_now s)
      | Open \<Rightarrow> max 0 (periods c (T - cb_open_until (bk_circuit s)) + 1)
      | Half_Open \<Rightarrow> max 0 (periods c (T - cb_open_until (bk_circuit s))))"

definition failing_wf :: "llm_config \<Rightarrow> int \<Rightarrow> breaker \<Rightarrow> bool" where
  "failing_wf c N s \<longleftrightarrow> bk_in_flight s \<le> N \<and>
     (case cb_state (bk_circuit s) of
        Closed \<Rightarrow> 0 \<le> cb_failure_count (bk_circuit s) \<and> cb_failure_count (bk_circuit s) < lm_failure_threshold c
      | Open \<Rightarrow> lm_failure_threshold c \<le> cb_failure_count (bk_circuit s) \<and> cb_open_until (bk_circuit s) \<le> bk_now s + of_int (lm_recovery_timeout_sec c)
      | Half_Open \<Rightarrow> lm_failure_threshold c \<le> cb_failure_count (bk_circuit s) \<and> cb_probe_in_flight (bk_circuit s) \<and> cb_open_until (bk_circuit s) \<le> bk_now s)"

lemma periods_mono: "0 < lm_recovery_timeout_sec c \<Longrightarrow> x \<le> y \<Longrightarrow> periods c x \<le> periods c y"
  unfolding periods_def by (intro floor_mono divide_right_mono) simp_all

lemma periods_timeout: "0 < lm_recovery_timeout_sec c \<Longrightarrow> periods c (T - (t + of_int (lm_recovery_timeout_sec c))) + 1 = periods c (T - t)"
proof -
  assume "0 < lm_recovery_timeout_sec c"
  then have "(T - (t + of_int (lm_recovery_timeout_sec c))) / of_int (lm_recovery_timeout_sec c) = (T - t) / of_int (lm_recovery_timeout_sec c) - 1"
    by (simp add: field_simps)
  then show ?thesis by (simp add: periods_def)
qed

lemma periods_nonneg: "0 < lm_recovery_timeout_sec c \<Longrightarrow> 0 \<le> x \<Longrightarrow> 0 \<le> periods c x"
  by (simp add: periods_def)

lemma failing_finish: "failing e \<Longrightarrow> snd (finish_call c t e cb) = record_failure c t cb"
  by (auto simp: failing_def finish_call_def)

lemma failing_step:
  assumes "breaker_step c N failing s s'" and "failing_wf c N s" and "0 < lm_recovery_timeout_sec c" and "bk_now s' \<le> T"
  shows "failing_wf c N s' \<and> bk_now s \<le> bk_now s' \<and> bk_admitted s' + allowance c N T s' \<le> bk_admitted s + allowance c N T s"
  using assms(1)
proof cases
  case (call_refused t cb)
  then have "cb_state cb = cb_state (bk_circuit s) \<and> cb = bk_circuit s \<and> cb_state cb \<noteq> Closed"
    using assms(2) by (auto simp: check_circuit_def probe_circuit_def split: if_split_asm)
  with call_refused assms(2) show ?thesis by (auto simp: failing_wf_def allowance_def split: circuit_state.split)
next
  case (call_begins t cb)
  show ?thesis
  proof (cases "cb_state (bk_circuit s)")
    case Closed
    with call_begins have "cb = bk_circuit s" by (simp add: check_circuit_def probe_circuit_def)
    with Closed call_begins assms(2) periods_mono [OF assms(3), of "T - t" "T - bk_now s"] show ?thesis
      by (simp add: failing_wf_def allowance_def)
  next
    case Open
    with call_begins have cb: "cb = (bk_circuit s)\<lparr>cb_state := Half_Open, cb_probe_in_flight := True\<rparr>" "cb_open_until (bk_circuit s) \<le> t"
      by (auto simp: check_circuit_def probe_circuit_def split: if_split_asm)
    have "t \<le> T" using assms(4) call_begins by simp
    with cb have "0 \<le> periods c (T - cb_open_until (bk_circuit s))" by (intro periods_nonneg assms(3)) simp
    with Open cb call_begins assms(2) show ?thesis by (simp add: failing_wf_def allowance_def)
  next
    case Half_Open
    with call_begins assms(2) show ?thesis by (simp add: check_circuit_def probe_circuit_def failing_wf_def)
  qed
next
  case (call_ends t e)
  let ?cb = "bk_circuit s"
  have cb: "bk_circuit s' = record_failure c t ?cb" using call_ends failing_finish by simp
  have le: "periods c (T - t) \<le> periods c (T - bk_now s)" using call_ends by (intro periods_mono assms(3)) simp
  show ?thesis
  proof (cases "cb_state ?cb")
    case Closed
    show ?thesis
    proof (cases "cb_failure_count ?cb + 1 < lm_failure_threshold c")
      case True
      with Closed cb call_ends assms(2) le show ?thesis by (auto simp: record_failure_def Let_def failing_wf_def allowance_def)
    next
      case False
      have "t \<le> T" using assms(4) call_ends by simp
      then have "0 \<le> periods c (T - t)" by (intro periods_nonneg assms(3)) simp
      with False Closed cb call_ends assms(2) le periods_timeout [OF assms(3), of T t] show ?thesis
        by (auto simp: record_failure_def Let_def failing_wf_def allowance_def)
    qed
  next
    case Open
    have "periods c (T - (t + of_int (lm_recovery_timeout_sec c))) \<le> periods c (T - cb_open_until ?cb)"
      using assms(2) Open call_ends by (intro periods_mono assms(3)) (simp add: failing_wf_def)
    with Open cb call_ends assms(2) show ?thesis by (auto simp: record_failure_def Let_def failing_wf_def allowance_def)
  next
    case Half_Open
    have "periods c (T - t) \<le> periods c (T - cb_open_until ?cb)"
      using assms(2) Half_Open call_ends by (intro periods_mono assms(3)) (simp add: failing_wf_def)
    with Half_Open cb call_ends assms(2) periods_timeout [OF assms(3), of T t] show ?thesis
      by (auto simp: record_failure_def Let_def failing_wf_def allowance_def)
  qed
qed


subsection \<open>A provider that recovers\<close>

definition settling :: "'r ending \<Rightarrow> bool" where
  "settling e = (case e of Responded r \<Rightarrow> True | Bubbled \<Rightarrow> True | Gave_Up exc retriable reason \<Rightarrow> retriable | _ \<Rightarrow> False)"

definition probe_wf :: "llm_config \<Rightarrow> breaker \<Rightarrow> bool" where
  "probe_wf c s \<longleftrightarrow> (cb_probe_in_flight (bk_circuit s) \<longrightarrow> cb_state (bk_circuit s) = Half_Open \<and> 0 < bk_in_flight s) \<and> 0 \<le> bk_in_flight s \<and>
     (cb_state (bk_circuit s) = Open \<longrightarrow> cb_open_until (bk_circuit s) \<le> bk_now s + of_int (lm_recovery_timeout_sec c))"

lemma probe_wf_step: "probe_wf c s \<Longrightarrow> breaker_step c N settling s s' \<Longrightarrow> probe_wf c s'"
proof -
  assume wf: "probe_wf c s" and "breaker_step c N settling s s'"
  from this(2) show ?thesis
  proof cases
    case (call_refused t cb)
    with wf show ?thesis by (auto simp: probe_wf_def check_circuit_def probe_circuit_def split: if_split_asm)
  next
    case (call_begins t cb)
    with wf show ?thesis by (auto simp: probe_wf_def check_circuit_def probe_circuit_def split: if_split_asm)
  next
    case (call_ends t e)
    then show ?thesis
      using wf by (cases e) (auto simp: probe_wf_def settling_def finish_call_def record_success_def record_failure_def release_probe_def Let_def)
  qed
qed

interpretation breaker: invariant_system "breaker_step c N settling" "probe_wf c"
  by unfold_locales (rule probe_wf_step)

text \<open>A provider that recovers is served again. As long as no call ends with an error that is not worth retrying or with a foreign exception,
  the breaker, whatever its state, admits the next call once no call is in flight and a recovery timeout has passed since the last
  step; a response closes it.\<close>
theorem recovered_provider_served:
  assumes "(breaker_step c N settling)\<^sup>*\<^sup>* (idle_breaker t0) s" and "bk_in_flight s = 0" and "0 \<le> lm_recovery_timeout_sec c"
    and "bk_now s + of_int (lm_recovery_timeout_sec c) \<le> t"
  shows "\<exists>cb. check_circuit t (bk_circuit s) = (False, cb) \<and> finish_call c t' (Responded r) cb = (Answer r, initial_circuit)"
proof -
  have "probe_wf c (idle_breaker t0)" by (simp add: probe_wf_def idle_breaker_def initial_circuit_def)
  with assms(1) have "probe_wf c s" by (rule breaker.inv_steps)
  with assms(2,4) have "\<not> fst (check_circuit t (bk_circuit s))"
    by (auto simp: probe_wf_def check_circuit_def probe_circuit_def)
  then show ?thesis by (intro exI [of _ "snd (check_circuit t (bk_circuit s))"]) (simp add: prod_eq_iff finish_call_def record_success_def initial_circuit_def)
qed

subsection \<open>A probe that is lost\<close>

lemma lost_probe: "cb_state cb = Half_Open \<Longrightarrow> cb_probe_in_flight cb \<Longrightarrow> wrap_model_call fr c call cb = (Fallback circuit_open_message, 0, [], cb)"
  by (simp add: wrap_model_call_def check_circuit_def probe_circuit_def)

definition demo_exception :: "string \<Rightarrow> string \<Rightarrow> llm_exception" where
  "demo_exception name t = \<lparr>le_class = name, le_index_error = False, le_text = t, le_attributes = [], le_response = [], le_headers = None\<rparr>"

definition demo_reader :: header_reader where
  "demo_reader = \<lparr>fr_scaled = \<lambda>_ _. None, fr_until = \<lambda>_ _. None, fr_sleeps = \<lambda>ms. ms < 1000000\<rparr>"

definition demo_call :: "rat \<Rightarrow> llm_exception \<Rightarrow> unit model_call" where
  "demo_call t exc = \<lparr>mc_begins = t, mc_ends = t + 1, mc_clock = \<lambda>_. t, mc_handler = \<lambda>_. Failure exc\<rparr>"

definition after_calls :: "header_reader \<Rightarrow> llm_config \<Rightarrow> 'r model_call list \<Rightarrow> circuit \<Rightarrow> circuit" where
  "after_calls fr c calls cb = fold (\<lambda>call cb. snd (snd (snd (wrap_model_call fr c call cb)))) calls cb"

definition demo_calls :: "unit model_call list" where
  "demo_calls = map (\<lambda>t. demo_call t (demo_exception ''APITimeoutError'' ''timed out'')) [0, 2, 4, 6, 8] @ [demo_call 100 (demo_exception ''RateLimitError'' ''insufficient_quota'')]"

lemma wrap_circuit:
  "snd (snd (snd (wrap_model_call fr c call cb))) =
     (if fst (check_circuit (mc_begins call) cb) then snd (check_circuit (mc_begins call) cb)
      else snd (finish_call c (mc_ends call) (fst (run_attempts fr c (mc_clock call) (mc_handler call) 1 [])) (snd (check_circuit (mc_begins call) cb))))"
  by (simp add: wrap_model_call_def case_prod_beta Let_def)

lemma demo_classes:
  "classify_error (demo_exception ''APITimeoutError'' ''timed out'') = (True, ''transient'')"
  "classify_error (demo_exception ''RateLimitError'' ''insufficient_quota'') = (False, ''quota'')"
  by code_simp+

lemma after_timeout:
  assumes "cb_state cb = Closed"
  shows "snd (snd (snd (wrap_model_call demo_reader default_llm_config (demo_call t (demo_exception ''APITimeoutError'' ''timed out'')) cb))) =
    record_failure default_llm_config (t + 1) cb"
proof -
  have cls: "le_class (demo_exception n d) = n" "le_headers (demo_exception n d) = None" for n d by (simp_all add: demo_exception_def)
  have "fst (run_attempts demo_reader default_llm_config (\<lambda>_. t) (\<lambda>_. Failure (demo_exception ''APITimeoutError'' ''timed out'')) 1 [] :: unit ending \<times> int \<times> retry_event list) =
     Gave_Up (demo_exception ''APITimeoutError'' ''timed out'') True ''transient''"
    by (simp add: run_attempts.simps demo_classes max_attempts_for_def retry_budget_overrides_def cls default_llm_config_def build_retry_delay_ms_def
      extract_retry_after_ms_def demo_reader_def)
  with assms show ?thesis by (simp add: wrap_circuit demo_call_def check_circuit_def probe_circuit_def finish_call_def)
qed

lemma demo_thresholds: "lm_failure_threshold default_llm_config = 5" "lm_recovery_timeout_sec default_llm_config = 60"
  by (simp_all add: default_llm_config_def)

lemma after_quota:
  assumes "cb_state cb = Open" and "cb_open_until cb \<le> t"
  shows "snd (snd (snd (wrap_model_call demo_reader default_llm_config (demo_call t (demo_exception ''RateLimitError'' ''insufficient_quota'')) cb))) =
    cb\<lparr>cb_state := Half_Open, cb_probe_in_flight := True\<rparr>"
proof -
  have "fst (run_attempts demo_reader default_llm_config (\<lambda>_. t) (\<lambda>_. Failure (demo_exception ''RateLimitError'' ''insufficient_quota'')) 1 [] :: unit ending \<times> int \<times> retry_event list) =
     Gave_Up (demo_exception ''RateLimitError'' ''insufficient_quota'') False ''quota''"
    by (simp add: run_attempts.simps demo_classes)
  with assms show ?thesis by (simp add: wrap_circuit demo_call_def check_circuit_def probe_circuit_def finish_call_def)
qed

text \<open>Five calls time out and open the breaker; after the timeout, the probe is rejected for lack of quota. That failure is not recorded, the
  breaker waits for the probe it thinks is still out, and refuses every call from then on, at any time.\<close>

theorem lost_probe_refuses_forever:
  "wrap_model_call fr default_llm_config call (after_calls demo_reader default_llm_config demo_calls initial_circuit) =
     (Fallback circuit_open_message, 0, [], after_calls demo_reader default_llm_config demo_calls initial_circuit)"
proof -
  have "(\<lambda>cb. cb_state cb = Half_Open \<and> cb_probe_in_flight cb) (after_calls demo_reader default_llm_config demo_calls initial_circuit)"
    by (simp add: after_calls_def demo_calls_def after_timeout after_quota record_failure_def initial_circuit_def demo_thresholds)
  then show ?thesis by (simp add: lost_probe)
qed

section \<open>Witnesses\<close>


definition demo_failure :: "unit ending" where
  "demo_failure = Gave_Up (demo_exception ''APITimeoutError'' ''timed out'') True ''transient''"

lemma demo_failing_step:
  assumes "cb_state cb = Closed" and "t \<le> t'" and "P demo_failure"
  shows "(breaker_step c 1 P)\<^sup>*\<^sup>* \<lparr>bk_now = t, bk_circuit = cb, bk_in_flight = 0, bk_admitted = a\<rparr>
    \<lparr>bk_now = t', bk_circuit = record_failure c t' cb, bk_in_flight = 0, bk_admitted = a + 1\<rparr>"
proof -
  let ?s = "\<lparr>bk_now = t, bk_circuit = cb, bk_in_flight = 0, bk_admitted = a\<rparr>"
  let ?m = "\<lparr>bk_now = t, bk_circuit = cb, bk_in_flight = 1, bk_admitted = a + 1\<rparr>"
  have "breaker_step c 1 P ?s ?m" using call_begins [of ?s t cb 1 c P] assms(1) by (simp add: check_circuit_def probe_circuit_def)
  moreover have "breaker_step c 1 P ?m \<lparr>bk_now = t', bk_circuit = record_failure c t' cb, bk_in_flight = 0, bk_admitted = a + 1\<rparr>"
    using call_ends [of ?m t' P demo_failure c 1] assms(2,3) by (simp add: finish_call_def demo_failure_def)
  ultimately show ?thesis by (rule rtranclp.rtrancl_into_rtrancl [OF r_into_rtranclp])
qed

definition demo_limits :: llm_config where
  "demo_limits = default_llm_config\<lparr>lm_failure_threshold := 1\<rparr>"

definition tripped_circuit :: circuit where
  "tripped_circuit = \<lparr>cb_failure_count = 1, cb_open_until = 61, cb_state = Open, cb_probe_in_flight = False\<rparr>"

lemma demo_tripped:
  assumes "P demo_failure"
  shows "(breaker_step demo_limits 1 P)\<^sup>*\<^sup>* (idle_breaker 0) \<lparr>bk_now = 1, bk_circuit = tripped_circuit, bk_in_flight = 0, bk_admitted = 1\<rparr>"
proof -
  have "record_failure demo_limits 1 initial_circuit = tripped_circuit" by code_simp
  with demo_failing_step [where cb = initial_circuit and t = 0 and t' = 1 and c = demo_limits and P = P and a = 0] assms show ?thesis by (simp add: idle_breaker_def initial_circuit_def)
qed


theorem recovered_provider_served_witness:
  "\<exists>cb. check_circuit 61 tripped_circuit = (False, cb) \<and> finish_call demo_limits 62 (Responded True) cb = (Answer True, initial_circuit)"
proof -
  have "settling demo_failure" by (simp add: settling_def demo_failure_def)
  from recovered_provider_served [OF demo_tripped [of settling, OF this], of 61 62 True] show ?thesis by (simp add: demo_limits_def default_llm_config_def)
qed

end
