(* ===== verification/Loop_Detection.thy ===== *)
theory Loop_Detection
  imports Agent_Messages
begin

text \<open>
  The guard against tool-call loops, \<^verbatim>\<open>agents/middlewares/loop_detection_middleware.py\<close>, with the checks of
  \<^verbatim>\<open>config/loop_detection_config.py\<close>. One object guards all threads; each region under its lock is one step on its state. The MD5
  digest is an argument, and so is the reading of floats in JSON. Sets are lists without repetition.
\<close>

section \<open>Keys of tool calls\<close>

definition normalize_tool_call_args :: "float_reader \<Rightarrow> pyval \<Rightarrow> (string, pyval) dict \<times> string option" where
  "normalize_tool_call_args fo raw_args =
     (case raw_args of
        PDict d \<Rightarrow> (d, None)
      | PStr s \<Rightarrow>
          (case json_loads fo s of
             None \<Rightarrow> ([], Some s)
           | Some (PDict d) \<Rightarrow> (d, None)
           | Some v \<Rightarrow> ([], Some (json_sorted v)))
      | PNone \<Rightarrow> ([], None)
      | v \<Rightarrow> ([], Some (json_sorted v)))"

definition line_number :: "pyval \<Rightarrow> int \<Rightarrow> int" where
  "line_number v d = (if v = PNone then d else case int_of v of None \<Rightarrow> d | Some i \<Rightarrow> i)"

definition bucket :: "int \<Rightarrow> int" where
  "bucket line = (max line 1 - 1) div 200"

definition read_file_key :: "(string, pyval) dict \<Rightarrow> string" where
  "read_file_key args =
     (let path = get_or args ''path'' (PStr []);
          start_line = line_number (get_key args ''start_line'') 1;
          end_line = line_number (get_key args ''end_line'') start_line
      in py_str path @ '':'' @ int_str (bucket (min start_line end_line)) @ ''-'' @ int_str (bucket (max start_line end_line)))"

definition salient_fields :: "string list" where
  "salient_fields = [''path'', ''url'', ''query'', ''command'', ''pattern'', ''glob'', ''cmd'']"

definition stable_tool_key :: "pyval \<Rightarrow> (string, pyval) dict \<Rightarrow> string option \<Rightarrow> string" where
  "stable_tool_key name args fallback_key =
     (if name = PStr ''read_file'' \<and> fallback_key = None then read_file_key args
      else if name \<in> set [PStr ''write_file'', PStr ''str_replace'']
      then (case fallback_key of Some k \<Rightarrow> k | None \<Rightarrow> json_sorted (PDict args))
      else
        let stable_args = List.map_filter (\<lambda>f. if get_key args f = PNone then None else Some (f, get_key args f)) salient_fields in
        if stable_args \<noteq> [] then json_sorted (PDict stable_args)
        else case fallback_key of Some k \<Rightarrow> k | None \<Rightarrow> json_sorted (PDict args))"

definition normalized_call :: "float_reader \<Rightarrow> tool_call \<Rightarrow> string" where
  "normalized_call fo tc =
     (let name = get_default tc ''name'' (PStr []); (args, fallback_key) = normalize_tool_call_args fo (get_default tc ''args'' (PDict []))
      in py_str name @ '':'' @ stable_tool_key name args fallback_key)"

definition hash_tool_calls :: "(string \<Rightarrow> string) \<Rightarrow> float_reader \<Rightarrow> tool_call list \<Rightarrow> string" where
  "hash_tool_calls md5 fo tool_calls = take 12 (md5 (json_sorted (PList (map PStr (sort (map (normalized_call fo) tool_calls))))))"

section \<open>State\<close>

record loop_config =
  lc_warn_threshold :: int
  lc_hard_limit :: int
  lc_window_size :: int
  lc_max_tracked_threads :: int
  lc_tool_freq_warn :: int
  lc_tool_freq_hard_limit :: int
  lc_tool_freq_overrides :: "(string, int \<times> int) dict"

text \<open>\<^verbatim>\<open>LoopDetectionConfig\<close> and \<^verbatim>\<open>ToolFreqOverride\<close> accept these.\<close>

definition valid_loop_config :: "loop_config \<Rightarrow> bool" where
  "valid_loop_config c \<longleftrightarrow>
     1 \<le> lc_warn_threshold c \<and> 1 \<le> lc_hard_limit c \<and> 1 \<le> lc_window_size c \<and> 1 \<le> lc_max_tracked_threads c \<and>
     1 \<le> lc_tool_freq_warn c \<and> 1 \<le> lc_tool_freq_hard_limit c \<and>
     lc_warn_threshold c \<le> lc_hard_limit c \<and> lc_tool_freq_warn c \<le> lc_tool_freq_hard_limit c \<and>
     list_all (\<lambda>(_, w, h). 1 \<le> w \<and> 1 \<le> h \<and> w \<le> h) (lc_tool_freq_overrides c)"

type_synonym warning_key = "string \<times> string"

record loop_state =
  ls_history :: "(string, string list) dict"
  ls_warned :: "(string, string list) dict"
  ls_tool_freq :: "(string, (pyval, int) dict) dict"
  ls_tool_freq_warned :: "(string, pyval list) dict"
  ls_pending :: "(warning_key, string list) dict"
  ls_touch_order :: "warning_key list"
  ls_stop_reason :: "(string, string) dict"

definition empty_loop_state :: loop_state where
  "empty_loop_state =
     \<lparr>ls_history = [], ls_warned = [], ls_tool_freq = [], ls_tool_freq_warned = [], ls_pending = [], ls_touch_order = [], ls_stop_reason = []\<rparr>"

definition max_stop_reasons :: nat where "max_stop_reasons = 1000"
definition max_pending_warnings :: nat where "max_pending_warnings = 4"

definition max_pending_warning_keys :: "loop_config \<Rightarrow> int" where
  "max_pending_warning_keys c = max 1 (lc_max_tracked_threads c * 2)"

definition context_id :: "run_context \<Rightarrow> string \<Rightarrow> string" where
  "context_id ctx k = str_or (get_key ctx k) ''default''"

definition get_thread_id :: "run_context \<Rightarrow> string" where "get_thread_id ctx = context_id ctx ''thread_id''"
definition get_run_id :: "run_context \<Rightarrow> string" where "get_run_id ctx = context_id ctx ''run_id''"
definition pending_key :: "run_context \<Rightarrow> warning_key" where "pending_key ctx = (get_thread_id ctx, get_run_id ctx)"

definition consume_loop_stop_reason :: "string option \<Rightarrow> loop_state \<Rightarrow> string option \<times> loop_state" where
  "consume_loop_stop_reason run_id st =
     (case run_id of
        None \<Rightarrow> (None, st)
      | Some r \<Rightarrow> (dget (ls_stop_reason st) r, st\<lparr>ls_stop_reason := dpop r (ls_stop_reason st)\<rparr>))"

definition drop_pending :: "warning_key \<Rightarrow> loop_state \<Rightarrow> loop_state" where
  "drop_pending key st = st\<lparr>ls_pending := dpop key (ls_pending st), ls_touch_order := filter (\<lambda>k. k \<noteq> key) (ls_touch_order st)\<rparr>"

definition drop_pending_where :: "(warning_key \<Rightarrow> bool) \<Rightarrow> loop_state \<Rightarrow> loop_state" where
  "drop_pending_where P st = fold (\<lambda>key s. if P key then drop_pending key s else s) (dkeys (ls_pending st)) st"

definition forget_thread :: "string \<Rightarrow> loop_state \<Rightarrow> loop_state" where
  "forget_thread tid st =
     drop_pending_where (\<lambda>key. fst key = tid)
       (st\<lparr>ls_history := dpop tid (ls_history st), ls_warned := dpop tid (ls_warned st), ls_tool_freq := dpop tid (ls_tool_freq st),
          ls_tool_freq_warned := dpop tid (ls_tool_freq_warned st)\<rparr>)"

text \<open>\<^verbatim>\<open>popitem\<close> of an empty dictionary and the lookup of an absent key.\<close>

datatype loop_error = KeyError

lemma drop_pending_where_history [simp]: "ls_history (drop_pending_where P st) = ls_history st"
proof -
  have "ls_history (fold (\<lambda>key s. if P key then drop_pending key s else s) keys s) = ls_history s" for keys s
    by (induction keys arbitrary: s) (auto simp: drop_pending_def)
  then show ?thesis by (simp add: drop_pending_where_def)
qed

lemma dpop_length: "length (dpop k d) \<le> length d"
  by (simp add: AList.delete_eq)

function evict_if_needed :: "loop_config \<Rightarrow> loop_state \<Rightarrow> loop_error + loop_state" where
  "evict_if_needed c st =
     (if int (length (ls_history st)) \<le> lc_max_tracked_threads c then Inr st
      else case ls_history st of
        [] \<Rightarrow> Inl KeyError
      | (evicted, _) # rest \<Rightarrow> evict_if_needed c (forget_thread evicted st))"
  by pat_completeness auto
termination
proof (relation "measure (\<lambda>(c, st). length (ls_history st))", goal_cases)
  case (2 c st x rest evicted h)
  then show ?case using dpop_length [of evicted rest] by (auto simp: forget_thread_def le_imp_less_Suc)
qed simp

declare evict_if_needed.simps [simp del]

section \<open>Tracking\<close>

definition warning_msg :: string where
  "warning_msg = ''[LOOP DETECTED] You are repeating the same tool calls. Stop calling tools and produce your final answer now. If you cannot complete the task, summarize what you accomplished so far.''"

definition tool_freq_warning_msg :: "pyval \<Rightarrow> int \<Rightarrow> string" where
  "tool_freq_warning_msg name count =
     ''[LOOP DETECTED] You have called '' @ py_str name @ '' '' @ int_str count @ '' times without producing a final answer. Stop calling tools and produce your final answer now. If you cannot complete the task, summarize what you accomplished so far.''"

definition hard_stop_msg :: string where
  "hard_stop_msg = ''[FORCED STOP] Repeated tool calls exceeded the safety limit. Producing final answer with results collected so far.''"

text \<open>The dash of the source, U+2014, is outside the characters of the model and stands as a hyphen.\<close>

definition tool_freq_hard_stop_msg :: "pyval \<Rightarrow> int \<Rightarrow> string" where
  "tool_freq_hard_stop_msg name count =
     ''[FORCED STOP] Tool '' @ py_str name @ '' called '' @ int_str count @ '' times - exceeded the per-tool safety limit. Producing final answer with results collected so far.''"

definition touch :: "'k \<Rightarrow> ('k, 'v) dict \<Rightarrow> ('k, 'v) dict" where
  "touch k d = (case dget d k of None \<Rightarrow> d | Some v \<Rightarrow> dpop k d @ [(k, v)])"

definition windowed :: "int \<Rightarrow> string list \<Rightarrow> string list" where
  "windowed n history = (if int (length history) > n then slice_from (- n) history else history)"

definition freq_limits :: "loop_config \<Rightarrow> pyval \<Rightarrow> int \<times> int" where
  "freq_limits c name =
     (case name of
        PStr n \<Rightarrow> (case dget (lc_tool_freq_overrides c) n of Some l \<Rightarrow> l | None \<Rightarrow> (lc_tool_freq_warn c, lc_tool_freq_hard_limit c))
      | _ \<Rightarrow> (lc_tool_freq_warn c, lc_tool_freq_hard_limit c))"

text \<open>The second layer, from its place in the list of calls on: the verdict, the counts and the names warned about.\<close>

fun check_frequency ::
  "loop_config \<Rightarrow> tool_call list \<Rightarrow> (pyval, int) dict \<Rightarrow> pyval list \<Rightarrow> (string \<times> bool) option \<times> (pyval, int) dict \<times> pyval list" where
  "check_frequency c [] freq warned = (None, freq, warned)"
| "check_frequency c (tc # tcs) freq warned =
     (let name = get_default tc ''name'' (PStr []) in
      if \<not> truthy name then check_frequency c tcs freq warned
      else
        let count = dget_default freq name 0 + 1; freq' = dset name count freq; (eff_warn, eff_hard) = freq_limits c name in
        if count \<ge> eff_hard then (Some (tool_freq_hard_stop_msg name count, True), freq', warned)
        else if count \<ge> eff_warn \<and> name \<notin> set warned then (Some (tool_freq_warning_msg name count, False), freq', warned @ [name])
        else check_frequency c tcs freq' warned)"

text \<open>Entries a \<^verbatim>\<open>defaultdict\<close> makes on access are written back.\<close>

definition record_call :: "loop_config \<Rightarrow> string \<Rightarrow> string \<Rightarrow> loop_state \<Rightarrow> loop_error + string list \<times> loop_state" where
  "record_call c tid call_hash st =
     ebind (if dget (ls_history st) tid \<noteq> None then Inr (st\<lparr>ls_history := touch tid (ls_history st)\<rparr>)
            else evict_if_needed c (st\<lparr>ls_history := dset tid [] (ls_history st)\<rparr>)) (\<lambda>st.
     case dget (ls_history st) tid of
       None \<Rightarrow> Inl KeyError
     | Some history \<Rightarrow>
         let history = windowed (lc_window_size c) (history @ [call_hash]);
             st = st\<lparr>ls_history := dset tid history (ls_history st)\<rparr>
         in Inr (history,
              case dget (ls_warned st) tid of
                None \<Rightarrow> st
              | Some warned \<Rightarrow>
                  (case filter (\<lambda>h. h \<in> set history) warned of
                     [] \<Rightarrow> st\<lparr>ls_warned := dpop tid (ls_warned st)\<rparr>
                   | kept \<Rightarrow> st\<lparr>ls_warned := dset tid kept (ls_warned st)\<rparr>)))"

definition track_calls :: "loop_config \<Rightarrow> string \<Rightarrow> string \<Rightarrow> tool_call list \<Rightarrow> loop_state \<Rightarrow> loop_error + (string \<times> bool) option \<times> loop_state" where
  "track_calls c tid call_hash tool_calls st =
     ebind (record_call c tid call_hash st) (\<lambda>(history, st).
     let count = int (count_list history call_hash); warned = dget_default (ls_warned st) tid [] in
     if count \<ge> lc_hard_limit c then Inr (Some (hard_stop_msg, True), st)
     else if count \<ge> lc_warn_threshold c \<and> call_hash \<notin> set warned
     then Inr (Some (warning_msg, False), st\<lparr>ls_warned := dset tid (warned @ [call_hash]) (ls_warned st)\<rparr>)
     else
       let (verdict, freq, freq_warned) =
             check_frequency c tool_calls (dget_default (ls_tool_freq st) tid []) (dget_default (ls_tool_freq_warned st) tid []);
           st = st\<lparr>ls_tool_freq := dset tid freq (ls_tool_freq st)\<rparr>
       in Inr (verdict, if freq_warned = [] then st else st\<lparr>ls_tool_freq_warned := dset tid freq_warned (ls_tool_freq_warned st)\<rparr>))"

definition last_tool_calls :: "message list \<Rightarrow> tool_call list" where
  "last_tool_calls messages = (if messages = [] then [] else case last messages of AIMessage m \<Rightarrow> ai_tool_calls m | _ \<Rightarrow> [])"

definition track_and_check ::
  "(string \<Rightarrow> string) \<Rightarrow> float_reader \<Rightarrow> loop_config \<Rightarrow> message list \<Rightarrow> run_context \<Rightarrow> loop_state \<Rightarrow> loop_error + (string \<times> bool) option \<times> loop_state" where
  "track_and_check md5 fo c messages ctx st =
     (let tool_calls = last_tool_calls messages in
      if tool_calls = [] then Inr (None, st)
      else track_calls c (get_thread_id ctx) (hash_tool_calls md5 fo tool_calls) tool_calls st)"

section \<open>The hooks\<close>

definition queue_pending_warning :: "loop_config \<Rightarrow> run_context \<Rightarrow> string \<Rightarrow> loop_state \<Rightarrow> loop_state" where
  "queue_pending_warning c ctx warning st =
     (let key = pending_key ctx;
          warnings = dget_default (ls_pending st) key [];
          warnings = (if warning \<in> set warnings then warnings else warnings @ [warning]);
          warnings = drop (length warnings - max_pending_warnings) warnings;
          order = filter (\<lambda>k. k \<noteq> key) (ls_touch_order st) @ [key];
          st = st\<lparr>ls_pending := dset key warnings (ls_pending st), ls_touch_order := order\<rparr>;
          overflow = int (length order) - max_pending_warning_keys c
      in if overflow \<le> 0 then st else fold drop_pending (take (nat overflow) (filter (\<lambda>k. k \<noteq> key) order)) st)"

definition append_text :: "pyval \<Rightarrow> string \<Rightarrow> pyval" where
  "append_text content t =
     (case content of
        PNone \<Rightarrow> PStr t
      | PList blocks \<Rightarrow> PList (blocks @ [PDict [(''type'', PStr ''text''), (''text'', PStr (blank_line @ t))]])
      | PStr s \<Rightarrow> PStr (s @ blank_line @ t)
      | v \<Rightarrow> PStr (py_str v @ blank_line @ t))"

definition hard_stop_update :: "ai_message \<Rightarrow> pyval \<Rightarrow> ai_message" where
  "hard_stop_update m content =
     m\<lparr>ai_tool_calls := [], ai_content := content, ai_additional_kwargs := dpop ''function_call'' (dpop ''tool_calls'' (ai_additional_kwargs m)),
       ai_response_metadata := stopped_metadata (ai_response_metadata m)\<rparr>"

definition set_stop_reason :: "run_context \<Rightarrow> loop_state \<Rightarrow> loop_state" where
  "set_stop_reason ctx st = st\<lparr>ls_stop_reason := bounded_set max_stop_reasons (get_run_id ctx) ''loop_capped'' (ls_stop_reason st)\<rparr>"

definition stopped_message :: "message list \<Rightarrow> string \<Rightarrow> ai_message option" where
  "stopped_message messages warning =
     (case last messages of AIMessage m \<Rightarrow> Some (hard_stop_update m (append_text (ai_content m) warning)) | _ \<Rightarrow> None)"

definition loop_after_model ::
  "(string \<Rightarrow> string) \<Rightarrow> float_reader \<Rightarrow> loop_config \<Rightarrow> message list \<Rightarrow> run_context \<Rightarrow> loop_state \<Rightarrow> loop_error + ai_message option \<times> loop_state" where
  "loop_after_model md5 fo c messages ctx st =
     ebind (track_and_check md5 fo c messages ctx st) (\<lambda>(verdict, st).
     case verdict of
       None \<Rightarrow> Inr (None, st)
     | Some (warning, hard_stop) \<Rightarrow>
         if hard_stop then Inr (stopped_message messages warning, set_stop_reason ctx st)
         else Inr (None, queue_pending_warning c ctx warning st))"

definition loop_before_agent :: "run_context \<Rightarrow> loop_state \<Rightarrow> loop_state" where
  "loop_before_agent ctx st = drop_pending_where (\<lambda>key. fst key = get_thread_id ctx \<and> snd key \<noteq> get_run_id ctx) st"

definition loop_after_agent :: "run_context \<Rightarrow> loop_state \<Rightarrow> loop_state" where
  "loop_after_agent ctx st = drop_pending (pending_key ctx) st"

definition format_warning_message :: "string list \<Rightarrow> string" where
  "format_warning_message warnings = join_with blank_line (from_keys warnings)"

definition loop_drain :: "run_context \<Rightarrow> loop_state \<Rightarrow> string list \<times> loop_state" where
  "loop_drain ctx st = (dget_default (ls_pending st) (pending_key ctx) [], drop_pending (pending_key ctx) st)"

definition augment_request :: "run_context \<Rightarrow> message list \<Rightarrow> loop_state \<Rightarrow> message list \<times> loop_state" where
  "augment_request ctx messages st =
     (let (warnings, st) = loop_drain ctx st in
      (if warnings = [] then messages else messages @ [HumanMessage ''loop_warning'' (PStr (format_warning_message warnings))], st))"

definition loop_reset :: "string option \<Rightarrow> loop_state \<Rightarrow> loop_state" where
  "loop_reset tid st = (case tid of Some t \<Rightarrow> if t = [] then empty_loop_state else forget_thread t st | None \<Rightarrow> empty_loop_state)"

end
