(* ===== verification/Loop_Properties.thy ===== *)
theory Loop_Properties
  imports Loop_Detection "HOL-Library.Multiset"
begin

text \<open>
  What the guard against loops promises: its memory is bounded however it is called, a set of calls that keeps coming back is
  stopped as long as the thread is not crowded out, and a warning reaches the next request exactly once.
\<close>

section \<open>Bounded memory\<close>

text \<open>The steps of the guard: each region under its lock, in any order and for any thread.\<close>

inductive loop_step :: "loop_config \<Rightarrow> loop_state \<Rightarrow> loop_state \<Rightarrow> bool" for c where
  step_track: "track_calls c tid call_hash tool_calls st = Inr (verdict, st') \<Longrightarrow> loop_step c st st'"
| step_queue: "loop_step c st (queue_pending_warning c ctx warning st)"
| step_stop: "loop_step c st (set_stop_reason ctx st)"
| step_consume: "consume_loop_stop_reason run_id st = (reason, st') \<Longrightarrow> loop_step c st st'"
| step_before: "loop_step c st (loop_before_agent ctx st)"
| step_after: "loop_step c st (loop_after_agent ctx st)"
| step_drain: "loop_drain ctx st = (warnings, st') \<Longrightarrow> loop_step c st st'"
| step_reset: "loop_step c st (loop_reset tid st)"

definition windows_bounded :: "loop_config \<Rightarrow> loop_state \<Rightarrow> bool" where
  "windows_bounded c st \<longleftrightarrow> wf_dict (ls_history st) \<and> (\<forall>h\<in>set (dvals (ls_history st)). int (length h) \<le> lc_window_size c)"

text \<open>What is kept for a thread is kept only while its window is, and warnings only for calls in the window.\<close>

definition tracked_only :: "loop_state \<Rightarrow> bool" where
  "tracked_only st \<longleftrightarrow> wf_dict (ls_warned st) \<and> wf_dict (ls_tool_freq st) \<and> wf_dict (ls_tool_freq_warned st) \<and>
     (\<forall>(t, ws)\<in>set (ls_warned st). \<exists>h. dget (ls_history st) t = Some h \<and> set ws \<subseteq> set h) \<and>
     set (dkeys (ls_tool_freq st)) \<subseteq> set (dkeys (ls_history st)) \<and> set (dkeys (ls_tool_freq_warned st)) \<subseteq> set (dkeys (ls_history st))"

definition pending_bounded :: "loop_config \<Rightarrow> loop_state \<Rightarrow> bool" where
  "pending_bounded c st \<longleftrightarrow> wf_dict (ls_pending st) \<and> distinct (ls_touch_order st) \<and> set (dkeys (ls_pending st)) = set (ls_touch_order st) \<and>
     int (length (ls_touch_order st)) \<le> max_pending_warning_keys c \<and>
     (\<forall>ws\<in>set (dvals (ls_pending st)). length ws \<le> max_pending_warnings \<and> distinct ws)"

definition reasons_bounded :: "loop_state \<Rightarrow> bool" where
  "reasons_bounded st \<longleftrightarrow> wf_dict (ls_stop_reason st) \<and> length (ls_stop_reason st) \<le> max_stop_reasons"

definition tracking_wf :: "loop_config \<Rightarrow> loop_state \<Rightarrow> bool" where
  "tracking_wf c st \<longleftrightarrow> windows_bounded c st \<and> tracked_only st \<and> pending_bounded c st \<and> reasons_bounded st"

definition loop_wf :: "loop_config \<Rightarrow> loop_state \<Rightarrow> bool" where
  "loop_wf c st \<longleftrightarrow> tracking_wf c st \<and> int (length (ls_history st)) \<le> lc_max_tracked_threads c"

text \<open>Dropping warnings.\<close>

lemma dpop_eq_filter: "dpop k d = filter (\<lambda>(k', _). k' \<noteq> k) d"
  by (induction d) auto

lemma drop_pending_where_fold:
  "fold (\<lambda>key s. if P key then drop_pending key s else s) keys st =
     st\<lparr>ls_pending := filter (\<lambda>(k, _). \<not> (P k \<and> k \<in> set keys)) (ls_pending st),
        ls_touch_order := filter (\<lambda>k. \<not> (P k \<and> k \<in> set keys)) (ls_touch_order st)\<rparr>"
proof (induction keys arbitrary: st)
  case (Cons key keys)
  show ?case
  proof (cases "P key")
    case True
    then show ?thesis using Cons [of "drop_pending key st"]
      by (auto simp: drop_pending_def dpop_eq_filter intro!: arg_cong2 [where f = "\<lambda>a b. st\<lparr>ls_pending := a, ls_touch_order := b\<rparr>"] filter_cong)
  next
    case False
    then show ?thesis using Cons [of st]
      by (auto intro!: arg_cong2 [where f = "\<lambda>a b. st\<lparr>ls_pending := a, ls_touch_order := b\<rparr>"] filter_cong)
  qed
qed (simp add: case_prod_beta')

lemma fold_drop_pending:
  "fold drop_pending keys st =
     st\<lparr>ls_pending := filter (\<lambda>(k, _). k \<notin> set keys) (ls_pending st), ls_touch_order := filter (\<lambda>k. k \<notin> set keys) (ls_touch_order st)\<rparr>"
  using drop_pending_where_fold [of "\<lambda>_. True"] by simp

lemma drop_pending_where_eq:
  assumes "pending_bounded c st"
  shows "drop_pending_where P st =
    st\<lparr>ls_pending := filter (\<lambda>(k, _). \<not> P k) (ls_pending st), ls_touch_order := filter (\<lambda>k. \<not> P k) (ls_touch_order st)\<rparr>"
proof -
  have "filter (\<lambda>(k, _). \<not> (P k \<and> k \<in> set (dkeys (ls_pending st)))) (ls_pending st) = filter (\<lambda>(k, _). \<not> P k) (ls_pending st)"
    by (rule filter_cong) force+
  moreover have "filter (\<lambda>k. \<not> (P k \<and> k \<in> set (dkeys (ls_pending st)))) (ls_touch_order st) = filter (\<lambda>k. \<not> P k) (ls_touch_order st)"
    using assms by (intro filter_cong) (auto simp: pending_bounded_def)
  ultimately show ?thesis unfolding drop_pending_where_def drop_pending_where_fold by simp
qed

lemma keys_filter: "fst ` set (filter (\<lambda>(k, _). P k) d) = {k \<in> fst ` set d. P k}"
  by force

lemma keys_dpop: "fst ` set (dpop k d) = fst ` set d - {k}"
  by (auto simp: dpop_eq_filter keys_filter)

lemma pending_bounded_filter:
  assumes "pending_bounded c st"
  shows "pending_bounded c (st\<lparr>ls_pending := filter (\<lambda>(k, _). P k) (ls_pending st), ls_touch_order := filter P (ls_touch_order st)\<rparr>)"
proof -
  have "int (length (filter P (ls_touch_order st))) \<le> max_pending_warning_keys c"
    using assms unfolding pending_bounded_def by (meson length_filter_le of_nat_mono order_trans)
  moreover have "fst ` set (filter (\<lambda>(k, _). P k) (ls_pending st)) = set (filter P (ls_touch_order st))"
    using assms unfolding pending_bounded_def keys_filter by auto
  moreover have "wf_dict (filter (\<lambda>(k, _). P k) (ls_pending st))"
    using assms by (simp add: pending_bounded_def wf_dict_def distinct_map_filter)
  ultimately show ?thesis using assms by (auto simp: pending_bounded_def)
qed

lemma drop_pending_eq: "drop_pending key st =
    st\<lparr>ls_pending := filter (\<lambda>(k, _). k \<noteq> key) (ls_pending st), ls_touch_order := filter (\<lambda>k. k \<noteq> key) (ls_touch_order st)\<rparr>"
  by (simp add: drop_pending_def dpop_eq_filter)

lemma tracking_wf_pending:
  assumes "tracking_wf c st" and "pending_bounded c (st\<lparr>ls_pending := p, ls_touch_order := t\<rparr>)"
  shows "tracking_wf c (st\<lparr>ls_pending := p, ls_touch_order := t\<rparr>)"
  using assms by (simp add: tracking_wf_def windows_bounded_def tracked_only_def reasons_bounded_def)

lemma tracking_wf_drop: "tracking_wf c st \<Longrightarrow> tracking_wf c (drop_pending key st)" "tracking_wf c st \<Longrightarrow> tracking_wf c (drop_pending_where P st)"
proof -
  assume wf: "tracking_wf c st"
  then have p: "pending_bounded c st" by (simp add: tracking_wf_def)
  show "tracking_wf c (drop_pending key st)" unfolding drop_pending_eq
    by (rule tracking_wf_pending [OF wf]) (rule pending_bounded_filter [OF p])
  show "tracking_wf c (drop_pending_where P st)" unfolding drop_pending_where_eq [OF p]
    by (rule tracking_wf_pending [OF wf]) (rule pending_bounded_filter [OF p])
qed

lemma tracking_wf_forget: "tracking_wf c st \<Longrightarrow> tracking_wf c (forget_thread t st)"
proof -
  assume wf: "tracking_wf c st"
  let ?st = "st\<lparr>ls_history := dpop t (ls_history st), ls_warned := dpop t (ls_warned st), ls_tool_freq := dpop t (ls_tool_freq st),
      ls_tool_freq_warned := dpop t (ls_tool_freq_warned st)\<rparr>"
  have "set (dpop t (ls_history st)) \<subseteq> set (ls_history st)" by (auto simp: dpop_eq_filter)
  then have "windows_bounded c ?st" using wf by (auto simp: tracking_wf_def windows_bounded_def)
  moreover have "tracked_only ?st"
  proof -
    have old: "tracked_only st" using wf by (simp add: tracking_wf_def)
    have "\<exists>h. dget (ls_history ?st) t' = Some h \<and> set ws \<subseteq> set h" if "(t', ws) \<in> set (dpop t (ls_warned st))" for t' ws
    proof -
      from that have "(t', ws) \<in> set (ls_warned st)" "t' \<noteq> t" by (auto simp: dpop_eq_filter)
      with old show ?thesis by (auto simp: tracked_only_def)
    qed
    with old show ?thesis by (auto simp: tracked_only_def keys_dpop)
  qed
  moreover from wf have "pending_bounded c ?st" "reasons_bounded ?st" by (simp_all add: tracking_wf_def pending_bounded_def reasons_bounded_def)
  ultimately show ?thesis unfolding forget_thread_def by (intro tracking_wf_drop) (simp add: tracking_wf_def)
qed

section \<open>Eviction\<close>

lemma forget_thread_history [simp]: "ls_history (forget_thread t st) = dpop t (ls_history st)"
  by (simp add: forget_thread_def)

lemma evict_if_needed_Inr:
  assumes "wf_dict (ls_history st)" and "0 \<le> lc_max_tracked_threads c"
  shows "\<exists>st'. evict_if_needed c st = Inr st' \<and> ls_history st' = drop (length (ls_history st) - nat (lc_max_tracked_threads c)) (ls_history st) \<and>
    (tracking_wf c st \<longrightarrow> tracking_wf c st')"
  using assms
proof (induction c st rule: evict_if_needed.induct)
  case (1 c st)
  show ?case
  proof (cases "int (length (ls_history st)) \<le> lc_max_tracked_threads c")
    case True
    then show ?thesis by (subst evict_if_needed.simps) (simp add: le_nat_iff)
  next
    case False
    then obtain e h rest where hist: "ls_history st = (e, h) # rest" using "1.prems" by (cases "ls_history st") auto
    then have rest: "dpop e (ls_history st) = rest" and wf: "wf_dict rest"
      using "1.prems" by (force simp: wf_dict_def dpop_eq_filter filter_id_conv)+
    from "1.IH" [OF False hist refl] wf rest "1.prems" obtain st' where st': "evict_if_needed c (forget_thread e st) = Inr st'"
        "ls_history st' = drop (length rest - nat (lc_max_tracked_threads c)) rest"
        "tracking_wf c (forget_thread e st) \<longrightarrow> tracking_wf c st'" by auto
    have "length (ls_history st) - nat (lc_max_tracked_threads c) = Suc (length rest - nat (lc_max_tracked_threads c))"
      using False hist "1.prems" by auto
    with st' False hist show ?thesis using tracking_wf_forget by (subst evict_if_needed.simps) auto
  qed
qed

lemma length_filter_neq: "distinct xs \<Longrightarrow> k \<in> set xs \<Longrightarrow> Suc (length (filter (\<lambda>x. x \<noteq> k) xs)) = length xs"
proof (induction xs)
  case (Cons x xs)
  then show ?case by (cases "x = k") (auto intro!: arg_cong [where f = length] filter_True)
qed simp

lemma touch_simps:
  assumes "dget d k = Some v"
  shows "dget (touch k d) = dget d" "set (touch k d) = set (dpop k d) \<union> {(k, v)}" "wf_dict d \<Longrightarrow> wf_dict (touch k d)"
    "wf_dict d \<Longrightarrow> length (touch k d) = length d" "dkeys (touch k d) = filter (\<lambda>k'. k' \<noteq> k) (dkeys d) @ [k]"
proof -
  show keys: "dkeys (touch k d) = filter (\<lambda>k'. k' \<noteq> k) (dkeys d) @ [k]" using assms by (simp add: touch_def dkeys_dpop)
  show "set (touch k d) = set (dpop k d) \<union> {(k, v)}" using assms by (simp add: touch_def)
  show wf: "wf_dict (touch k d)" if "wf_dict d" using that keys by (simp add: wf_dict_def)
  show "dget (touch k d) = dget d" using assms by (auto simp: touch_def fun_eq_iff map_add_def split: option.split)
  show "length (touch k d) = length d" if "wf_dict d"
  proof -
    have "k \<in> set (dkeys d)" using assms by (force dest: map_of_SomeD)
    from length_filter_neq [OF _ this] that have "length (dkeys (touch k d)) = length (dkeys d)" unfolding keys wf_dict_def by simp
    then show ?thesis by simp
  qed
qed

text \<open>The thread that responds becomes the most recent one, and is there.\<close>

definition recent :: "loop_config \<Rightarrow> string \<Rightarrow> string list \<Rightarrow> string list" where
  "recent c t ts = (let xs = filter (\<lambda>t'. t' \<noteq> t) ts @ [t] in drop (length xs - nat (lc_max_tracked_threads c)) xs)"

lemma recent_mem: "1 \<le> lc_max_tracked_threads c \<Longrightarrow> t \<in> set (recent c t ts)"
proof -
  assume "1 \<le> lc_max_tracked_threads c"
  then have "Suc (length (filter (\<lambda>t'. t' \<noteq> t) ts)) - nat (lc_max_tracked_threads c) \<le> length (filter (\<lambda>t'. t' \<noteq> t) ts)" by simp
  then show ?thesis by (simp add: recent_def Let_def)
qed

lemma dget_drop: "wf_dict d \<Longrightarrow> k \<in> set (dkeys (drop n d)) \<Longrightarrow> dget (drop n d) k = dget d k"
proof -
  assume wf: "wf_dict d" and k: "k \<in> set (dkeys (drop n d))"
  then obtain v where v: "(k, v) \<in> set (drop n d)" by auto
  have "distinct (dkeys (take n d) @ dkeys (drop n d))" using wf unfolding wf_dict_def by (metis append_take_drop_id map_append)
  then have "wf_dict (drop n d)" by (simp add: wf_dict_def)
  with wf v in_set_dropD [OF v] show ?thesis by (metis dget_mem_iff)
qed

definition fresh_history :: "string \<Rightarrow> loop_state \<Rightarrow> (string, string list) dict" where
  "fresh_history t st = (if dget (ls_history st) t \<noteq> None then touch t (ls_history st) else dset t [] (ls_history st))"

lemma fresh_history_simps:
  assumes "wf_dict (ls_history st)"
  shows "wf_dict (fresh_history t st)" "dkeys (fresh_history t st) = filter (\<lambda>t'. t' \<noteq> t) (dkeys (ls_history st)) @ [t]"
    "dget (fresh_history t st) k = (if k = t then Some (dget_default (ls_history st) t []) else dget (ls_history st) k)"
proof -
  have "filter (\<lambda>t'. t' \<noteq> t) (dkeys (ls_history st)) = dkeys (ls_history st)" if "dget (ls_history st) t = None"
    using that by (auto simp: filter_id_conv map_of_eq_None_iff)
  then show "dkeys (fresh_history t st) = filter (\<lambda>t'. t' \<noteq> t) (dkeys (ls_history st)) @ [t]"
    by (auto simp: fresh_history_def touch_simps(5) dkeys_dset)
  show "wf_dict (fresh_history t st)" using assms by (auto simp: fresh_history_def touch_simps(3))
  show "dget (fresh_history t st) k = (if k = t then Some (dget_default (ls_history st) t []) else dget (ls_history st) k)"
    by (auto simp: fresh_history_def touch_simps(1) dget_default_def)
qed

lemma tracked_only_history:
  assumes "tracked_only st" and "set (dkeys (ls_history st)) \<subseteq> set (dkeys h)"
    and "\<And>t ws. (t, ws) \<in> set (ls_warned st) \<Longrightarrow> \<exists>w. dget h t = Some w \<and> set ws \<subseteq> set w"
  shows "tracked_only (st\<lparr>ls_history := h\<rparr>)"
proof -
  have "set (dkeys (ls_tool_freq st)) \<subseteq> set (dkeys h)" "set (dkeys (ls_tool_freq_warned st)) \<subseteq> set (dkeys h)"
    using assms(1,2) by (meson order_trans tracked_only_def)+
  with assms(1,3) show ?thesis by (simp add: tracked_only_def case_prod_beta')
qed

lemma fresh_history_tracking:
  assumes "tracking_wf c st" and "0 \<le> lc_window_size c"
  shows "tracking_wf c (st\<lparr>ls_history := fresh_history t st\<rparr>)"
proof -
  have wf: "wf_dict (ls_history st)" and windows: "windows_bounded c st" and tracked: "tracked_only st"
    using assms(1) by (auto simp: tracking_wf_def windows_bounded_def)
  note fresh = fresh_history_simps [OF wf]
  have "int (length h) \<le> lc_window_size c" if h: "(k, h) \<in> set (fresh_history t st)" for k h
  proof -
    have "dget (fresh_history t st) k = Some h" using h fresh(1) [of t] by (simp add: wf_dict_def)
    then have "h = [] \<or> (k, h) \<in> set (ls_history st)"
      by (auto simp: fresh(3) dget_default_def split: if_split_asm option.split_asm dest: map_of_SomeD)
    with windows assms(2) show ?thesis by (auto simp: windows_bounded_def)
  qed
  then have "windows_bounded c (st\<lparr>ls_history := fresh_history t st\<rparr>)" by (auto simp: windows_bounded_def fresh(1))
  moreover have "set (dkeys (ls_history st)) \<subseteq> set (dkeys (fresh_history t st))" unfolding fresh(2) by auto
  with tracked have "tracked_only (st\<lparr>ls_history := fresh_history t st\<rparr>)"
  proof (rule tracked_only_history)
    fix t' ws
    assume "(t', ws) \<in> set (ls_warned st)"
    with tracked obtain h where "dget (ls_history st) t' = Some h" "set ws \<subseteq> set h" by (auto simp: tracked_only_def)
    then show "\<exists>w. dget (fresh_history t st) t' = Some w \<and> set ws \<subseteq> set w" by (auto simp: fresh(3) dget_default_def)
  qed
  ultimately show ?thesis using assms(1) by (simp add: tracking_wf_def pending_bounded_def reasons_bounded_def)
qed

lemma admit_thread:
  assumes "loop_wf c st" and "1 \<le> lc_max_tracked_threads c" and "0 \<le> lc_window_size c"
  obtains st' where
    "(if dget (ls_history st) t \<noteq> None then Inr (st\<lparr>ls_history := touch t (ls_history st)\<rparr>)
      else evict_if_needed c (st\<lparr>ls_history := dset t [] (ls_history st)\<rparr>)) = Inr st'"
    "tracking_wf c st'" "dkeys (ls_history st') = recent c t (dkeys (ls_history st))"
    "\<And>k. k \<in> set (dkeys (ls_history st')) \<Longrightarrow> dget (ls_history st') k = dget (fresh_history t st) k"
proof -
  let ?st = "st\<lparr>ls_history := fresh_history t st\<rparr>"
  have wf: "wf_dict (ls_history st)" and len: "int (length (ls_history st)) \<le> lc_max_tracked_threads c" and tr: "tracking_wf c st"
    using assms(1) by (auto simp: loop_wf_def tracking_wf_def windows_bounded_def)
  note fresh = fresh_history_simps [OF wf]
  have track: "tracking_wf c ?st" by (rule fresh_history_tracking [OF tr assms(3)])
  show thesis
  proof (cases "dget (ls_history st) t")
    case None
    then have eq: "?st = st\<lparr>ls_history := dset t [] (ls_history st)\<rparr>" by (simp add: fresh_history_def)
    obtain st' where "evict_if_needed c ?st = Inr st'" "ls_history st' = drop (length (fresh_history t st) - nat (lc_max_tracked_threads c)) (fresh_history t st)"
        "tracking_wf c st'"
      using evict_if_needed_Inr [of ?st c] fresh(1) track assms(2) by auto
    moreover have "length (fresh_history t st) = length (filter (\<lambda>t'. t' \<noteq> t) (dkeys (ls_history st)) @ [t])"
      unfolding fresh(2) [symmetric] by simp
    ultimately show thesis using None that [of st'] eq dget_drop [OF fresh(1)] by (auto simp: recent_def Let_def fresh(2) drop_map [symmetric])
  next
    case (Some h)
    then have eq: "?st = st\<lparr>ls_history := touch t (ls_history st)\<rparr>" by (simp add: fresh_history_def)
    have "length (filter (\<lambda>t'. t' \<noteq> t) (dkeys (ls_history st)) @ [t]) = length (ls_history st)"
      using touch_simps(4,5) [OF Some] wf by (metis length_map)
    then have "recent c t (dkeys (ls_history st)) = filter (\<lambda>t'. t' \<noteq> t) (dkeys (ls_history st)) @ [t]" using len by (simp add: recent_def Let_def)
    moreover have "fresh_history t st = touch t (ls_history st)" using Some by (simp add: fresh_history_def)
    ultimately show thesis using that [of ?st] Some track by (simp add: touch_simps(5) [OF Some])
  qed
qed

section \<open>Recording a response\<close>

lemma windowed_drop: "1 \<le> n \<Longrightarrow> windowed n hs = drop (length hs - nat n) hs"
  by (auto simp: windowed_def slice_from_neg)

lemma length_windowed: "1 \<le> n \<Longrightarrow> int (length (windowed n hs)) \<le> n"
  by (simp add: windowed_drop)

definition next_window :: "loop_config \<Rightarrow> string \<Rightarrow> string \<Rightarrow> loop_state \<Rightarrow> string list" where
  "next_window c t h st = windowed (lc_window_size c) (dget_default (ls_history st) t [] @ [h])"

lemma windows_bounded_dset:
  assumes "windows_bounded c st" and "int (length h) \<le> lc_window_size c"
  shows "windows_bounded c (st\<lparr>ls_history := dset t h (ls_history st)\<rparr>)"
proof -
  have "int (length h') \<le> lc_window_size c" if "h' \<in> snd ` set (dset t h (ls_history st))" for h'
    using that set_dset_subset [of t h "ls_history st"] assms by (auto simp: windows_bounded_def)
  with assms(1) show ?thesis by (simp add: windows_bounded_def)
qed

text \<open>Warnings about calls that left the window are forgotten.\<close>

definition prune_warned :: "string \<Rightarrow> string list \<Rightarrow> (string, string list) dict \<Rightarrow> (string, string list) dict" where
  "prune_warned t history d =
     (case dget d t of
        None \<Rightarrow> d
      | Some warned \<Rightarrow> (case filter (\<lambda>h. h \<in> set history) warned of [] \<Rightarrow> dpop t d | kept \<Rightarrow> dset t kept d))"

lemma prune_warned_mem:
  assumes "wf_dict d" and "(k, ws) \<in> set (prune_warned t history d)"
  shows "k = t \<and> set ws \<subseteq> set history \<or> k \<noteq> t \<and> (k, ws) \<in> set d"
proof -
  have wf: "wf_dict (prune_warned t history d)" using assms(1) by (auto simp: prune_warned_def split: option.split list.split)
  then have "dget (prune_warned t history d) k = Some ws" using assms(2) by (simp add: wf_dict_def)
  moreover have "set (filter (\<lambda>h. h \<in> set history) warned) \<subseteq> set history" for warned by auto
  ultimately show ?thesis
  proof (cases "dget d t")
    case None
    with \<open>dget (prune_warned t history d) k = Some ws\<close> show ?thesis by (auto simp: prune_warned_def dest: map_of_SomeD)
  next
    case (Some warned)
    let ?kept = "filter (\<lambda>h. h \<in> set history) warned"
    have "prune_warned t history d = (if ?kept = [] then dpop t d else dset t ?kept d)"
      by (simp add: prune_warned_def Some split: list.split)
    with \<open>dget (prune_warned t history d) k = Some ws\<close> show ?thesis by (auto split: if_split_asm dest: map_of_SomeD)
  qed
qed

lemma record_call_Inr:
  assumes "loop_wf c st" and "1 \<le> lc_max_tracked_threads c" and "1 \<le> lc_window_size c"
  obtains st' where "record_call c t h st = Inr (next_window c t h st, st')" "loop_wf c st'"
    "dkeys (ls_history st') = recent c t (dkeys (ls_history st))"
    "\<And>k. k \<in> set (dkeys (ls_history st')) \<Longrightarrow>
       dget (ls_history st') k = (if k = t then Some (next_window c t h st) else dget (ls_history st) k)"
proof -
  have w0: "0 \<le> lc_window_size c" using assms(3) by simp
  obtain st1 where admit: "(if dget (ls_history st) t \<noteq> None then Inr (st\<lparr>ls_history := touch t (ls_history st)\<rparr>)
        else evict_if_needed c (st\<lparr>ls_history := dset t [] (ls_history st)\<rparr>)) = Inr st1"
      and tr: "tracking_wf c st1" and keys: "dkeys (ls_history st1) = recent c t (dkeys (ls_history st))"
      and get: "\<And>k. k \<in> set (dkeys (ls_history st1)) \<Longrightarrow> dget (ls_history st1) k = dget (fresh_history t st) k"
    by (rule admit_thread [OF assms(1,2) w0, of t]) (rule that; assumption)
  have wf: "wf_dict (ls_history st)" using assms(1) by (simp add: loop_wf_def tracking_wf_def windows_bounded_def)
  have mem: "t \<in> set (dkeys (ls_history st1))" unfolding keys by (rule recent_mem [OF assms(2)])
  have old: "dget (ls_history st1) t = Some (dget_default (ls_history st) t [])" using get [OF mem] fresh_history_simps(3) [OF wf] by simp
  let ?w = "next_window c t h st"
  let ?st2 = "st1\<lparr>ls_history := dset t ?w (ls_history st1)\<rparr>"
  let ?st3 = "?st2\<lparr>ls_warned := prune_warned t ?w (ls_warned st1)\<rparr>"
  have recorded: "record_call c t h st = Inr (?w, ?st3)"
    unfolding record_call_def admit by (simp add: old next_window_def [symmetric] prune_warned_def Let_def split: option.split list.split)
  have "tracked_only ?st3"
  proof -
    have tracked: "tracked_only st1" using tr by (simp add: tracking_wf_def)
    then have "wf_dict (prune_warned t ?w (ls_warned st1))" by (auto simp: tracked_only_def prune_warned_def split: option.split list.split)
    moreover have "\<exists>w. dget (dset t ?w (ls_history st1)) k = Some w \<and> set ws \<subseteq> set w" if "(k, ws) \<in> set (prune_warned t ?w (ls_warned st1))" for k ws
      using prune_warned_mem [OF _ that] tracked by (auto simp: tracked_only_def)
    moreover have "set (dkeys (ls_history st1)) = set (dkeys (dset t ?w (ls_history st1)))" using mem by (auto simp: dkeys_dset)
    ultimately show ?thesis using tracked by (simp add: tracked_only_def case_prod_beta')
  qed
  moreover have "windows_bounded c ?st3"
    using windows_bounded_dset [of c st1 ?w t] tr length_windowed [OF assms(3)] by (simp add: tracking_wf_def windows_bounded_def next_window_def)
  ultimately have "tracking_wf c ?st3" using tr by (simp add: tracking_wf_def pending_bounded_def reasons_bounded_def)
  moreover have dk: "dkeys (dset t ?w (ls_history st1)) = dkeys (ls_history st1)" using old by (simp add: dkeys_dset)
  moreover have "int (length (recent c t (dkeys (ls_history st)))) \<le> lc_max_tracked_threads c"
    using assms(2) by (simp add: recent_def Let_def)
  then have "int (length (ls_history st1)) \<le> lc_max_tracked_threads c" unfolding keys [symmetric] by simp
  ultimately have "loop_wf c ?st3" using old by (simp add: loop_wf_def dset_length)
  moreover have "dget (ls_history ?st3) k = (if k = t then Some ?w else dget (ls_history st) k)" if "k \<in> set (dkeys (ls_history ?st3))" for k
  proof -
    have "k \<in> set (dkeys (ls_history st1))" using that dk by simp
    from get [OF this] fresh_history_simps(3) [OF wf, of t k] show ?thesis by simp
  qed
  ultimately show thesis using that [OF recorded] keys dk by simp
qed

text \<open>Everything after the recording changes counts and warnings of the thread only.\<close>

lemma warned_in_window: "loop_wf c st \<Longrightarrow> (k, ws) \<in> set (ls_warned st) \<Longrightarrow> \<exists>h. dget (ls_history st) k = Some h \<and> set ws \<subseteq> set h"
  by (auto simp: loop_wf_def tracking_wf_def tracked_only_def)

lemma loop_wf_thread:
  assumes "loop_wf c st" and "dget (ls_history st) t = Some w"
  shows "set ws \<subseteq> set w \<Longrightarrow> loop_wf c (st\<lparr>ls_warned := dset t ws (ls_warned st)\<rparr>)"
    and "loop_wf c (st\<lparr>ls_tool_freq := dset t f (ls_tool_freq st)\<rparr>)"
    and "loop_wf c (st\<lparr>ls_tool_freq_warned := dset t fw (ls_tool_freq_warned st)\<rparr>)"
proof -
  have t: "t \<in> fst ` set (ls_history st)" using assms(2) by (force dest: map_of_SomeD)
  have keys: "fst ` set (dset t x d) \<subseteq> fst ` set (ls_history st)" if "fst ` set d \<subseteq> fst ` set (ls_history st)" for x and d :: "(string, 'x) dict"
    using that t set_dset_subset [of t x d] by force
  show "loop_wf c (st\<lparr>ls_tool_freq := dset t f (ls_tool_freq st)\<rparr>)" "loop_wf c (st\<lparr>ls_tool_freq_warned := dset t fw (ls_tool_freq_warned st)\<rparr>)"
    using assms(1) by (simp_all add: loop_wf_def tracking_wf_def windows_bounded_def tracked_only_def pending_bounded_def reasons_bounded_def keys)
  assume ws: "set ws \<subseteq> set w"
  have "\<exists>h. dget (ls_history st) k = Some h \<and> set vs \<subseteq> set h" if "(k, vs) \<in> set (dset t ws (ls_warned st))" for k vs
  proof -
    from that set_dset_subset [of t ws "ls_warned st"] have "(k, vs) = (t, ws) \<or> (k, vs) \<in> set (ls_warned st)" by blast
    then show ?thesis using warned_in_window [OF assms(1), of k vs] assms(2) ws by blast
  qed
  then show "loop_wf c (st\<lparr>ls_warned := dset t ws (ls_warned st)\<rparr>)"
    using assms(1) by (simp add: loop_wf_def tracking_wf_def windows_bounded_def tracked_only_def pending_bounded_def reasons_bounded_def case_prod_beta')
qed

lemma next_window_last: "1 \<le> lc_window_size c \<Longrightarrow> h \<in> set (next_window c t h st)"
proof -
  assume "1 \<le> lc_window_size c"
  then have "next_window c t h st = drop (Suc (length (dget_default (ls_history st) t [])) - nat (lc_window_size c)) (dget_default (ls_history st) t [] @ [h])"
    and "Suc (length (dget_default (ls_history st) t [])) - nat (lc_window_size c) \<le> length (dget_default (ls_history st) t [])"
    by (simp_all add: next_window_def windowed_drop)
  then show ?thesis by simp
qed

lemma track_calls_Inr:
  assumes "loop_wf c st" and "1 \<le> lc_max_tracked_threads c" and "1 \<le> lc_window_size c"
  obtains verdict st' where "track_calls c t h tcs st = Inr (verdict, st')" "loop_wf c st'"
    "dkeys (ls_history st') = recent c t (dkeys (ls_history st))"
    "\<And>k. k \<in> set (dkeys (ls_history st')) \<Longrightarrow>
       dget (ls_history st') k = (if k = t then Some (next_window c t h st) else dget (ls_history st) k)"
    "lc_hard_limit c \<le> int (count_list (next_window c t h st) h) \<Longrightarrow> verdict = Some (hard_stop_msg, True)"
proof -
  let ?w = "next_window c t h st"
  obtain st1 where r: "record_call c t h st = Inr (?w, st1)" and wf: "loop_wf c st1"
      and keys: "dkeys (ls_history st1) = recent c t (dkeys (ls_history st))"
      and get: "\<And>k. k \<in> set (dkeys (ls_history st1)) \<Longrightarrow> dget (ls_history st1) k = (if k = t then Some ?w else dget (ls_history st) k)"
    by (rule record_call_Inr [OF assms, of t h]) (rule that; assumption)
  have win: "dget (ls_history st1) t = Some ?w" using get [of t] recent_mem [OF assms(2)] keys by simp
  note thread = loop_wf_thread [OF wf win]
  obtain v f fw where cf: "check_frequency c tcs (dget_default (ls_tool_freq st1) t []) (dget_default (ls_tool_freq_warned st1) t []) = (v, f, fw)"
    by (metis prod_cases3)
  let ?stop = "lc_hard_limit c \<le> int (count_list ?w h)"
  let ?warned = "dget_default (ls_warned st1) t []"
  let ?warn = "lc_warn_threshold c \<le> int (count_list ?w h) \<and> h \<notin> set ?warned"
  let ?st2 = "st1\<lparr>ls_tool_freq := dset t f (ls_tool_freq st1)\<rparr>"
  let ?after = "if ?stop then st1 else if ?warn then st1\<lparr>ls_warned := dset t (?warned @ [h]) (ls_warned st1)\<rparr>
    else if fw = [] then ?st2 else ?st2\<lparr>ls_tool_freq_warned := dset t fw (ls_tool_freq_warned ?st2)\<rparr>"
  let ?verdict = "if ?stop then Some (hard_stop_msg, True) else if ?warn then Some (warning_msg, False) else v"
  have "set ?warned \<subseteq> set ?w"
  proof (cases "dget (ls_warned st1) t")
    case (Some ws)
    from warned_in_window [OF wf map_of_SomeD [OF this]] win Some show ?thesis by (simp add: dget_default_def)
  qed (simp add: dget_default_def)
  then have "set (?warned @ [h]) \<subseteq> set ?w" using next_window_last [OF assms(3)] by simp
  from wf thread(1) [OF this] thread(2) [of f] loop_wf_thread(3) [OF thread(2) [of f], of t ?w fw] win have "loop_wf c ?after" by simp
  moreover have "track_calls c t h tcs st = Inr (?verdict, ?after)"
    unfolding track_calls_def r by (simp add: Let_def cf)
  moreover have "ls_history ?after = ls_history st1" by simp
  ultimately show thesis using keys get by (intro that [of ?verdict ?after]) simp_all
qed

section \<open>Queueing a warning\<close>

lemma length_filter_notin:
  assumes "distinct xs" and "distinct ys" and "set ys \<subseteq> set xs"
  shows "length (filter (\<lambda>x. x \<notin> set ys) xs) = length xs - length ys"
proof -
  have "set (filter (\<lambda>x. x \<notin> set ys) xs) = set xs - set ys" by auto
  then have "card (set xs - set ys) = length (filter (\<lambda>x. x \<notin> set ys) xs)" using assms(1) by (metis distinct_card distinct_filter)
  then show ?thesis using assms by (simp add: card_Diff_subset distinct_card)
qed

lemma pending_bounded_config:
  "pending_bounded c' st \<Longrightarrow> int (length (ls_touch_order st)) \<le> max_pending_warning_keys c \<Longrightarrow> pending_bounded c st"
  by (simp add: pending_bounded_def)

definition queued :: "warning_key \<Rightarrow> string \<Rightarrow> loop_state \<Rightarrow> string list" where
  "queued key warning st =
     (let ws = dget_default (ls_pending st) key []; ws = (if warning \<in> set ws then ws else ws @ [warning]) in drop (length ws - max_pending_warnings) ws)"

definition queued_state :: "warning_key \<Rightarrow> string \<Rightarrow> loop_state \<Rightarrow> loop_state" where
  "queued_state key warning st =
     st\<lparr>ls_pending := dset key (queued key warning st) (ls_pending st), ls_touch_order := filter (\<lambda>k. k \<noteq> key) (ls_touch_order st) @ [key]\<rparr>"

definition crowded_out :: "loop_config \<Rightarrow> warning_key \<Rightarrow> loop_state \<Rightarrow> warning_key list" where
  "crowded_out c key st =
     (let others = filter (\<lambda>k. k \<noteq> key) (ls_touch_order st) in take (nat (int (Suc (length others)) - max_pending_warning_keys c)) others)"

lemma queue_pending_warning_eq:
  "queue_pending_warning c ctx warning st = fold drop_pending (crowded_out c (pending_key ctx) st) (queued_state (pending_key ctx) warning st)"
  by (auto simp: queue_pending_warning_def Let_def queued_state_def queued_def crowded_out_def)

lemma queued_bounds:
  assumes "\<forall>ws\<in>set (dvals (ls_pending st)). length ws \<le> max_pending_warnings \<and> distinct ws"
  shows "length (queued key warning st) \<le> max_pending_warnings" "distinct (queued key warning st)" "warning \<notin> set (dget_default (ls_pending st) key []) \<Longrightarrow> warning \<in> set (queued key warning st)"
proof -
  have "distinct (dget_default (ls_pending st) key [])"
    using assms by (cases "dget (ls_pending st) key") (auto simp: dget_default_def dest!: map_of_SomeD)
  then show "distinct (queued key warning st)" by (simp add: queued_def Let_def)
  show "length (queued key warning st) \<le> max_pending_warnings" by (simp add: queued_def Let_def)
  assume "warning \<notin> set (dget_default (ls_pending st) key [])"
  then show "warning \<in> set (queued key warning st)" by (simp add: queued_def Let_def max_pending_warnings_def)
qed

lemma pending_bounded_queue:
  assumes "pending_bounded c st"
  shows "pending_bounded c (queue_pending_warning c ctx warning st)"
proof -
  let ?key = "pending_key ctx"
  let ?st = "queued_state ?key warning st"
  let ?c = "c\<lparr>lc_max_tracked_threads := int (length (ls_touch_order ?st))\<rparr>"
  let ?out = "crowded_out c ?key st"
  let ?others = "filter (\<lambda>k. k \<noteq> ?key) (ls_touch_order st)"
  have order: "ls_touch_order ?st = ?others @ [?key]" by (simp add: queued_state_def)
  have "\<forall>ws\<in>set (dvals (ls_pending ?st)). length ws \<le> max_pending_warnings \<and> distinct ws"
    using set_dset_subset [of ?key "queued ?key warning st" "ls_pending st"] queued_bounds [where st = st and key = ?key and warning = warning] assms
    by (auto simp: pending_bounded_def queued_state_def)
  moreover have "set (dkeys (ls_pending ?st)) = set (ls_touch_order ?st)"
    using assms by (auto simp: pending_bounded_def queued_state_def dkeys_dset map_of_eq_None_iff)
  ultimately have "pending_bounded ?c ?st" using assms by (simp add: pending_bounded_def queued_state_def max_pending_warning_keys_def)
  from pending_bounded_filter [OF this, of "\<lambda>k. k \<notin> set ?out"]
  have p: "pending_bounded ?c (fold drop_pending ?out ?st)" by (simp add: fold_drop_pending)
  have "distinct ?out" "set ?out \<subseteq> set ?others" using assms by (auto simp: crowded_out_def Let_def pending_bounded_def dest: in_set_takeD)
  then have "length (filter (\<lambda>k. k \<notin> set ?out) (ls_touch_order ?st)) = length (ls_touch_order ?st) - length ?out"
    using assms by (intro length_filter_notin) (auto simp: order pending_bounded_def)
  moreover have "ls_touch_order (fold drop_pending ?out ?st) = filter (\<lambda>k. k \<notin> set ?out) (ls_touch_order ?st)" by (simp add: fold_drop_pending)
  moreover have "length (ls_touch_order ?st) = Suc (length ?others)" by (simp add: order)
  ultimately have "length (ls_touch_order (fold drop_pending ?out ?st)) = Suc (length ?others) - length ?out" by metis
  moreover have "length ?out = min (length ?others) (nat (int (Suc (length ?others)) - max_pending_warning_keys c))"
    by (simp add: crowded_out_def Let_def)
  moreover have "1 \<le> max_pending_warning_keys c" by (simp add: max_pending_warning_keys_def)
  ultimately have "int (length (ls_touch_order (fold drop_pending ?out ?st))) \<le> max_pending_warning_keys c" by (auto simp: min_def)
  with p show ?thesis unfolding queue_pending_warning_eq by (rule pending_bounded_config)
qed

lemma loop_wf_queue: "loop_wf c st \<Longrightarrow> loop_wf c (queue_pending_warning c ctx warning st)"
proof -
  assume wf: "loop_wf c st"
  then have "pending_bounded c (queue_pending_warning c ctx warning st)" by (simp add: loop_wf_def tracking_wf_def pending_bounded_queue)
  with wf show ?thesis
    by (simp add: loop_wf_def tracking_wf_def windows_bounded_def tracked_only_def reasons_bounded_def queue_pending_warning_eq fold_drop_pending queued_state_def)
qed

section \<open>Every step keeps the bounds\<close>

lemma loop_wf_empty: "valid_loop_config c \<Longrightarrow> loop_wf c empty_loop_state"
  by (simp add: loop_wf_def tracking_wf_def windows_bounded_def tracked_only_def pending_bounded_def reasons_bounded_def empty_loop_state_def
      max_pending_warning_keys_def valid_loop_config_def max_def)

lemma loop_wf_drops:
  "loop_wf c st \<Longrightarrow> loop_wf c (drop_pending key st)" "loop_wf c st \<Longrightarrow> loop_wf c (drop_pending_where P st)" "loop_wf c st \<Longrightarrow> loop_wf c (forget_thread t st)"
proof -
  assume wf: "loop_wf c st"
  then show "loop_wf c (drop_pending key st)" by (simp add: loop_wf_def tracking_wf_drop(1)) (simp add: drop_pending_def)
  show "loop_wf c (drop_pending_where P st)" using wf by (simp add: loop_wf_def tracking_wf_drop(2))
  have "int (length (dpop t (ls_history st))) \<le> lc_max_tracked_threads c"
    using wf unfolding loop_wf_def by (meson dpop_length of_nat_mono order_trans)
  with wf show "loop_wf c (forget_thread t st)" by (simp add: loop_wf_def tracking_wf_forget)
qed

lemma loop_wf_reasons:
  assumes "loop_wf c st" and "wf_dict d" and "length d \<le> max_stop_reasons"
  shows "loop_wf c (st\<lparr>ls_stop_reason := d\<rparr>)"
  using assms by (simp add: loop_wf_def tracking_wf_def windows_bounded_def tracked_only_def pending_bounded_def reasons_bounded_def)

lemma loop_step_wf:
  assumes "valid_loop_config c" and "loop_wf c st" and "loop_step c st st'"
  shows "loop_wf c st'"
  using assms(3)
proof cases
  case (step_track tid call_hash tool_calls verdict)
  obtain v s where "track_calls c tid call_hash tool_calls st = Inr (v, s)" "loop_wf c s"
    using track_calls_Inr [OF assms(2)] assms(1) by (metis valid_loop_config_def)
  with step_track show ?thesis by simp
next
  case (step_stop ctx)
  have "wf_dict (ls_stop_reason st)" "length (ls_stop_reason st) \<le> max_stop_reasons" "0 < max_stop_reasons"
    using assms(2) by (simp_all add: loop_wf_def tracking_wf_def reasons_bounded_def max_stop_reasons_def)
  with step_stop assms(2) show ?thesis unfolding set_stop_reason_def by (simp add: loop_wf_reasons bounded_set_wf bounded_set_length)
next
  case (step_consume run_id reason)
  have "wf_dict (ls_stop_reason st)" "length (ls_stop_reason st) \<le> max_stop_reasons"
    using assms(2) by (simp_all add: loop_wf_def tracking_wf_def reasons_bounded_def)
  then have "loop_wf c (st\<lparr>ls_stop_reason := dpop r (ls_stop_reason st)\<rparr>)" for r
    using loop_wf_reasons [OF assms(2)] by (meson dpop_length order_trans wf_dict_dpop)
  with step_consume assms(2) show ?thesis by (auto simp: consume_loop_stop_reason_def split: option.split_asm)
next
  case (step_drain ctx warnings)
  then show ?thesis using loop_wf_drops(1) [OF assms(2), of "pending_key ctx"] by (simp add: loop_drain_def)
next
  case (step_reset tid)
  then show ?thesis using loop_wf_drops(3) [OF assms(2)] loop_wf_empty [OF assms(1)] by (auto simp: loop_reset_def split: option.split)
qed (use assms loop_wf_drops loop_wf_queue in \<open>auto simp: loop_before_agent_def loop_after_agent_def\<close>)

interpretation loops: invariant_system "loop_step c" "\<lambda>st. valid_loop_config c \<longrightarrow> loop_wf c st" for c
  by unfold_locales (auto intro: loop_step_wf)

lemma reachable_loop_wf: "valid_loop_config c \<Longrightarrow> (loop_step c)\<^sup>*\<^sup>* empty_loop_state st \<Longrightarrow> loop_wf c st"
  using loops.inv_steps [of c empty_loop_state st] loop_wf_empty by blast

section \<open>Repetition\<close>

text \<open>Responses of threads, in their order, with any steps between them that leave the windows alone.\<close>

inductive served :: "loop_config \<Rightarrow> loop_state \<Rightarrow> (string \<times> string) list \<Rightarrow> loop_state \<Rightarrow> bool" for c st0 where
  served_none: "served c st0 [] st0"
| served_response: "served c st0 es st \<Longrightarrow> track_calls c t h tcs st = Inr (v, st') \<Longrightarrow> served c st0 (es @ [(t, h)]) st'"
| served_quiet: "served c st0 es st \<Longrightarrow> loop_step c st st' \<Longrightarrow> ls_history st' = ls_history st \<Longrightarrow> served c st0 es st'"

definition hashes_of :: "string \<Rightarrow> (string \<times> string) list \<Rightarrow> string list" where
  "hashes_of t es = map snd (filter (\<lambda>e. fst e = t) es)"

lemma remdups_snoc: "remdups (xs @ [x]) = filter (\<lambda>y. y \<noteq> x) (remdups xs) @ [x]"
  by (induction xs) auto

lemma windowed_windowed: "1 \<le> n \<Longrightarrow> windowed n (windowed n xs @ [x]) = windowed n (xs @ [x])"
proof -
  assume n: "1 \<le> n"
  have "drop (Suc (length xs - (length xs - nat n)) - nat n) (drop (length xs - nat n) xs) = drop (Suc (length xs) - nat n) xs"
  proof -
    have "length xs - nat n + (Suc (length xs - (length xs - nat n)) - nat n) = Suc (length xs) - nat n" using n by (cases "nat n \<le> length xs") auto
    then show ?thesis by (simp add: add.commute)
  qed
  moreover have "Suc (length xs - (length xs - nat n)) - nat n \<le> length xs - (length xs - nat n)" "Suc (length xs) - nat n \<le> length xs" using n by auto
  ultimately show ?thesis using n by (simp add: windowed_drop)
qed

text \<open>The most recent threads are tracked, in the order of their last responses, and the window of each ends with its responses.\<close>

definition remembers :: "loop_config \<Rightarrow> (string \<times> string) list \<Rightarrow> loop_state \<Rightarrow> bool" where
  "remembers c es st \<longleftrightarrow> (\<exists>pre. dkeys (ls_history st) = pre @ remdups (map fst es)) \<and>
     (\<forall>t\<in>fst ` set es. \<exists>old. dget (ls_history st) t = Some (windowed (lc_window_size c) (old @ hashes_of t es)))"

lemma recent_suffix:
  assumes "ts = pre @ us" and "length (filter (\<lambda>u. u \<noteq> t) us) < nat (lc_max_tracked_threads c)"
  shows "\<exists>pre'. recent c t ts = pre' @ filter (\<lambda>u. u \<noteq> t) us @ [t]"
proof -
  let ?n = "length (filter (\<lambda>t'. t' \<noteq> t) ts @ [t]) - nat (lc_max_tracked_threads c)"
  have "?n \<le> length (filter (\<lambda>t'. t' \<noteq> t) pre)" using assms by simp
  then have "recent c t ts = drop ?n (filter (\<lambda>t'. t' \<noteq> t) pre) @ filter (\<lambda>u. u \<noteq> t) us @ [t]"
    unfolding recent_def Let_def using assms(1) by simp
  then show ?thesis by blast
qed

lemma remembers_response:
  assumes "loop_wf c st" and "1 \<le> lc_max_tracked_threads c" and "1 \<le> lc_window_size c" and "remembers c es st"
    and "track_calls c t h tcs st = Inr (v, st')" and "card (insert t (fst ` set es)) \<le> nat (lc_max_tracked_threads c)"
  shows "remembers c (es @ [(t, h)]) st'"
proof -
  obtain v' s where "track_calls c t h tcs st = Inr (v', s)" and s: "dkeys (ls_history s) = recent c t (dkeys (ls_history st))"
      "\<And>k. k \<in> set (dkeys (ls_history s)) \<Longrightarrow> dget (ls_history s) k = (if k = t then Some (next_window c t h st) else dget (ls_history st) k)"
    by (rule track_calls_Inr [OF assms(1-3), of t h tcs]) (rule that; assumption)
  with assms(5) have "s = st'" by simp
  note keys = s(1) [unfolded this] and get = s(2) [unfolded this]
  from assms(4) obtain pre where pre: "dkeys (ls_history st) = pre @ remdups (map fst es)"
      and windows: "\<And>t'. t' \<in> fst ` set es \<Longrightarrow> \<exists>old. dget (ls_history st) t' = Some (windowed (lc_window_size c) (old @ hashes_of t' es))"
    by (auto simp: remembers_def)
  have "set (filter (\<lambda>u. u \<noteq> t) (remdups (map fst es))) = fst ` set es - {t}" by auto
  then have "length (filter (\<lambda>u. u \<noteq> t) (remdups (map fst es))) = card (fst ` set es - {t})" by (metis distinct_card distinct_filter distinct_remdups)
  also have "\<dots> < card (insert t (fst ` set es))" by (simp add: card.insert_remove)
  finally have "length (filter (\<lambda>u. u \<noteq> t) (remdups (map fst es))) < nat (lc_max_tracked_threads c)" using assms(6) by simp
  from recent_suffix [OF pre this] obtain pre' where pre': "dkeys (ls_history st') = pre' @ remdups (map fst (es @ [(t, h)]))"
    unfolding keys by (auto simp: remdups_snoc)
  have "\<exists>old. dget (ls_history st') t' = Some (windowed (lc_window_size c) (old @ hashes_of t' (es @ [(t, h)])))"
    if "t' \<in> fst ` set (es @ [(t, h)])" for t'
  proof -
    have "t' \<in> set (dkeys (ls_history st'))" unfolding pre' using that by auto
    note get = get [OF this]
    show ?thesis
    proof (cases "t' = t")
      case False
      then have "t' \<in> fst ` set es" using that by auto
      with windows False get show ?thesis by (simp add: hashes_of_def)
    next
      case True
      show ?thesis
      proof (cases "t \<in> fst ` set es")
        case True
        with windows obtain old where "dget (ls_history st) t = Some (windowed (lc_window_size c) (old @ hashes_of t es))" by blast
        then have "next_window c t h st = windowed (lc_window_size c) (old @ hashes_of t es @ [h])"
          using windowed_windowed [OF assms(3)] by (simp add: next_window_def dget_default_def)
        with get \<open>t' = t\<close> show ?thesis by (auto simp: hashes_of_def)
      next
        case False
        then have "hashes_of t es = []" by (auto simp: hashes_of_def filter_empty_conv)
        with get \<open>t' = t\<close> show ?thesis by (auto simp: hashes_of_def next_window_def)
      qed
    qed
  qed
  with pre' show ?thesis by (auto simp: remembers_def)
qed

lemma served_remembers:
  assumes "served c st0 es st" and "valid_loop_config c" and "loop_wf c st0" and "card (fst ` set es) \<le> nat (lc_max_tracked_threads c)"
  shows "loop_wf c st \<and> remembers c es st"
  using assms
proof (induction rule: served.induct)
  case (served_response es st t h tcs v st')
  have "card (fst ` set es) \<le> card (insert t (fst ` set es))" by (rule card_mono) auto
  with served_response have "loop_wf c st \<and> remembers c es st" by simp
  with served_response remembers_response [of c st es t h tcs v st'] loop_step_wf [of c st st'] step_track [of c t h tcs st v st']
  show ?case by (auto simp: valid_loop_config_def)
next
  case (served_quiet es st st')
  with loop_step_wf [of c st st'] show ?case by (auto simp: remembers_def)
qed (simp add: remembers_def)

lemma count_list_drop_append:
  "count_list (drop (length hs - m) hs) h \<le> count_list (drop (length (old @ hs) - m) (old @ hs)) h"
proof (cases "m \<le> length hs")
  case True
  then show ?thesis by simp
next
  case False
  then have "drop (length (old @ hs) - m) (old @ hs) = drop (length (old @ hs) - m) old @ hs" by simp
  moreover have "count_list (drop (length hs - m) hs) h \<le> count_list hs h" by (metis append_take_drop_id count_list_append le_add2)
  ultimately show ?thesis by simp
qed

lemma stop_on_repeat:
  assumes "valid_loop_config c" and "loop_wf c st" and "remembers c es st"
    and "lc_hard_limit c - 1 \<le> int (count_list (drop (length (hashes_of t es) - nat (lc_window_size c - 1)) (hashes_of t es)) h)"
  shows "\<exists>st'. track_calls c t h tcs st = Inr (Some (hard_stop_msg, True), st')"
proof -
  have bounds: "1 \<le> lc_max_tracked_threads c" "1 \<le> lc_window_size c" using assms(1) by (simp_all add: valid_loop_config_def)
  let ?n = "nat (lc_window_size c)"
  have "int (count_list (drop (length (hashes_of t es) - (?n - 1)) (hashes_of t es)) h) + 1 \<le> int (count_list (next_window c t h st) h)"
  proof (cases "t \<in> fst ` set es")
    case True
    with assms(3) obtain old where "dget (ls_history st) t = Some (windowed (lc_window_size c) (old @ hashes_of t es))" by (auto simp: remembers_def)
    then have "next_window c t h st = windowed (lc_window_size c) (old @ hashes_of t es @ [h])"
      using windowed_windowed [OF bounds(2)] by (simp add: next_window_def dget_default_def)
    also have "\<dots> = drop (length (old @ hashes_of t es) - (?n - 1)) (old @ hashes_of t es) @ [h]"
      using bounds(2) by (simp add: windowed_drop Suc_diff_le)
    finally have "count_list (next_window c t h st) h = Suc (count_list (drop (length (old @ hashes_of t es) - (?n - 1)) (old @ hashes_of t es)) h)" by simp
    with count_list_drop_append [of "hashes_of t es" "?n - 1" h old] show ?thesis by simp
  next
    case False
    then have "hashes_of t es = []" by (auto simp: hashes_of_def filter_empty_conv)
    moreover have "0 < count_list (next_window c t h st) h" using next_window_last [OF bounds(2)] by (metis count_list_0_iff neq0_conv)
    ultimately show ?thesis by simp
  qed
  moreover have "nat (lc_window_size c - 1) = ?n - 1" by simp
  ultimately have "lc_hard_limit c \<le> int (count_list (next_window c t h st) h)" using assms(4) by simp
  with track_calls_Inr [OF assms(2) bounds, of t h tcs] show ?thesis by metis
qed

section \<open>Properties\<close>

text \<open>The guard never uses more than a fixed amount of memory per configuration, whatever threads and runs call its hooks in whatever order: it
  tracks at most the configured number of threads, each with a window of at most the configured size; counts and warnings are kept for
  tracked threads only; at most twice as many runs as threads have warnings waiting, four each; at most a thousand stop reasons wait to
  be consumed. In every such state a response can be tracked without an error.\<close>

theorem tracking_bounded:
  assumes "valid_loop_config c" and "(loop_step c)\<^sup>*\<^sup>* empty_loop_state st"
  shows "int (length (ls_history st)) \<le> lc_max_tracked_threads c \<and> (\<forall>h\<in>set (dvals (ls_history st)). int (length h) \<le> lc_window_size c) \<and>
    set (dkeys (ls_warned st)) \<union> set (dkeys (ls_tool_freq st)) \<union> set (dkeys (ls_tool_freq_warned st)) \<subseteq> set (dkeys (ls_history st)) \<and>
    int (length (ls_pending st)) \<le> 2 * lc_max_tracked_threads c \<and> (\<forall>ws\<in>set (dvals (ls_pending st)). length ws \<le> 4) \<and>
    length (ls_stop_reason st) \<le> 1000 \<and> (\<forall>t h tcs. \<exists>verdict st'. track_calls c t h tcs st = Inr (verdict, st'))"
proof -
  have wf: "loop_wf c st" by (rule reachable_loop_wf [OF assms])
  have pending: "wf_dict (ls_pending st)" "distinct (ls_touch_order st)" "set (dkeys (ls_pending st)) = set (ls_touch_order st)"
      "int (length (ls_touch_order st)) \<le> max_pending_warning_keys c" "\<forall>ws\<in>set (dvals (ls_pending st)). length ws \<le> 4"
    using wf by (auto simp: loop_wf_def tracking_wf_def pending_bounded_def max_pending_warnings_def)
  then have "length (ls_pending st) = length (ls_touch_order st)" by (metis distinct_card length_map wf_dict_def)
  with pending(4) assms(1) have "int (length (ls_pending st)) \<le> 2 * lc_max_tracked_threads c"
    by (simp add: max_pending_warning_keys_def valid_loop_config_def max_def split: if_split_asm)
  moreover have "set (dkeys (ls_warned st)) \<subseteq> set (dkeys (ls_history st))"
    using warned_in_window [OF wf] by (force dest: map_of_SomeD)
  moreover have "\<exists>verdict st'. track_calls c t h tcs st = Inr (verdict, st')" for t h tcs
    using track_calls_Inr [OF wf] assms(1) by (metis valid_loop_config_def)
  moreover have "int (length (ls_history st)) \<le> lc_max_tracked_threads c" "\<forall>h\<in>set (dvals (ls_history st)). int (length h) \<le> lc_window_size c"
      "set (dkeys (ls_tool_freq st)) \<subseteq> set (dkeys (ls_history st))" "set (dkeys (ls_tool_freq_warned st)) \<subseteq> set (dkeys (ls_history st))"
      "length (ls_stop_reason st) \<le> 1000"
    using wf by (simp_all add: loop_wf_def tracking_wf_def windows_bounded_def tracked_only_def reasons_bounded_def max_stop_reasons_def)
  ultimately show ?thesis using pending(5) by (intro conjI) (blast | simp)+
qed


section \<open>A conversation\<close>

definition demo_loops :: loop_config where
  "demo_loops = \<lparr>lc_warn_threshold = 2, lc_hard_limit = 3, lc_window_size = 4, lc_max_tracked_threads = 2, lc_tool_freq_warn = 3,
     lc_tool_freq_hard_limit = 9, lc_tool_freq_overrides = [(''bash'', (1, 5))]\<rparr>"

definition demo_tool_call :: "string \<Rightarrow> string \<Rightarrow> tool_call" where
  "demo_tool_call name q = [(''name'', PStr name), (''args'', PDict [(''query'', PStr q)]), (''id'', PStr ''c1'')]"

definition demo_response :: "tool_call list \<Rightarrow> ai_message" where
  "demo_response tcs = \<lparr>ai_id = Some ''m1'', ai_content = PStr ''x'', ai_tool_calls = tcs, ai_invalid_tool_calls = [],
     ai_additional_kwargs = [(''tool_calls'', PList [])], ai_response_metadata = [(''finish_reason'', PStr ''tool_calls'')], ai_usage_metadata = []\<rparr>"

definition demo_floats :: float_reader where "demo_floats s = (s, 0)"

definition demo_hash :: "tool_call list \<Rightarrow> string" where "demo_hash = hash_tool_calls (\<lambda>s. s) demo_floats"

definition demo_run :: "string \<Rightarrow> run_context" where "demo_run t = [(''thread_id'', PStr t), (''run_id'', PStr ''r1'')]"

definition demo_track :: "string \<Rightarrow> tool_call list \<Rightarrow> loop_state \<Rightarrow> loop_state" where
  "demo_track t tcs st = snd (projr (track_calls demo_loops t (demo_hash tcs) tcs st))"

definition demo_search :: "tool_call list" where "demo_search = [demo_tool_call ''search'' ''a'']"

definition demo_tracked :: loop_state where
  "demo_tracked = demo_track ''t'' demo_search (demo_track ''u'' [demo_tool_call ''bash'' ''b''] (demo_track ''t'' demo_search empty_loop_state))"

lemma demo_loops_valid: "valid_loop_config demo_loops"
  by code_simp

lemma demo_track_Inr: "loop_wf demo_loops st \<Longrightarrow> \<exists>v. track_calls demo_loops t (demo_hash tcs) tcs st = Inr (v, demo_track t tcs st) \<and> loop_wf demo_loops (demo_track t tcs st)"
proof -
  assume wf: "loop_wf demo_loops st"
  then obtain v s where "track_calls demo_loops t (demo_hash tcs) tcs st = Inr (v, s)" "loop_wf demo_loops s"
    using track_calls_Inr [of demo_loops st t "demo_hash tcs" tcs] demo_loops_valid by (metis valid_loop_config_def)
  then show ?thesis by (simp add: demo_track_def)
qed

lemma demo_served: "served demo_loops empty_loop_state [(''t'', demo_hash demo_search), (''u'', demo_hash [demo_tool_call ''bash'' ''b'']), (''t'', demo_hash demo_search)] demo_tracked"
proof -
  let ?b = "[demo_tool_call ''bash'' ''b'']"
  let ?s1 = "demo_track ''t'' demo_search empty_loop_state"
  let ?s2 = "demo_track ''u'' ?b ?s1"
  have w0: "loop_wf demo_loops empty_loop_state" by (rule loop_wf_empty [OF demo_loops_valid])
  obtain v1 where 1: "track_calls demo_loops ''t'' (demo_hash demo_search) demo_search empty_loop_state = Inr (v1, ?s1)" and w1: "loop_wf demo_loops ?s1"
    using demo_track_Inr [OF w0] by blast
  obtain v2 where 2: "track_calls demo_loops ''u'' (demo_hash ?b) ?b ?s1 = Inr (v2, ?s2)" and w2: "loop_wf demo_loops ?s2"
    using demo_track_Inr [OF w1] by blast
  obtain v3 where 3: "track_calls demo_loops ''t'' (demo_hash demo_search) demo_search ?s2 = Inr (v3, demo_tracked)"
    using demo_track_Inr [OF w2] unfolding demo_tracked_def by blast
  from served_response [OF served_response [OF served_response [OF served_none 1] 2] 3] show ?thesis by simp
qed

lemma served_steps: "served c st0 es st \<Longrightarrow> (loop_step c)\<^sup>*\<^sup>* st0 st"
  by (induction rule: served.induct) (auto intro: rtranclp.rtrancl_into_rtrancl step_track)

theorem tracking_bounded_witness:
  "dkeys (ls_history demo_tracked) = [''u'', ''t''] \<and> int (length (ls_history demo_tracked)) \<le> lc_max_tracked_threads demo_loops \<and>
   set (dkeys (ls_warned demo_tracked)) \<union> set (dkeys (ls_tool_freq demo_tracked)) \<union> set (dkeys (ls_tool_freq_warned demo_tracked)) \<subseteq> set (dkeys (ls_history demo_tracked))"
proof -
  have "dkeys (ls_history demo_tracked) = [''u'', ''t'']" by code_simp
  with tracking_bounded [OF demo_loops_valid served_steps [OF demo_served]] show ?thesis by simp
qed


section \<open>Where the guard falls short\<close>

text \<open>The configuration may ask for a window smaller than the hard limit; then no repetition is ever stopped, however long it goes on.\<close>

theorem narrow_window_never_stops:
  "valid_loop_config (demo_loops\<lparr>lc_window_size := 2\<rparr>) \<and>
   (\<forall>st t h tcs v st'. loop_wf (demo_loops\<lparr>lc_window_size := 2\<rparr>) st \<longrightarrow>
      track_calls (demo_loops\<lparr>lc_window_size := 2\<rparr>) t h tcs st = Inr (v, st') \<longrightarrow> v \<noteq> Some (hard_stop_msg, True))"
proof -
  let ?c = "demo_loops\<lparr>lc_window_size := 2\<rparr>"
  have "v \<noteq> Some (hard_stop_msg, True)"
    if wf: "loop_wf ?c st" and track: "track_calls ?c t h tcs st = Inr (v, st')" for st t h tcs v st'
  proof -
    obtain st1 where r: "record_call ?c t h st = Inr (next_window ?c t h st, st1)"
      using record_call_Inr [OF wf, of t h] by (auto simp: demo_loops_def)
    have "int (length (next_window ?c t h st)) \<le> 2" unfolding next_window_def using length_windowed [of 2] by simp
    moreover have "count_list (next_window ?c t h st) h \<le> length (next_window ?c t h st)" by (rule count_le_length)
    ultimately have few: "\<not> lc_hard_limit ?c \<le> int (count_list (next_window ?c t h st) h)" by (simp add: demo_loops_def)
    have freq: "fst (check_frequency ?c tcs f fw) \<noteq> Some (hard_stop_msg, True)" for f fw
      by (induction ?c tcs f fw rule: check_frequency.induct) (auto simp: Let_def hard_stop_msg_def tool_freq_hard_stop_msg_def split: prod.split)
    from track few show ?thesis unfolding track_calls_def r
      using freq [of "dget_default (ls_tool_freq st1) t []" "dget_default (ls_tool_freq_warned st1) t []"]
      by (auto simp: Let_def split: prod.split_asm if_split_asm)
  qed
  moreover have "valid_loop_config ?c" by code_simp
  ultimately show ?thesis by blast
qed

text \<open>A warning ends the counting of the response: the calls after the one warned about are never counted.\<close>

theorem warned_response_uncounted:
  "fst (projr (track_calls demo_loops ''t'' ''h'' [demo_tool_call ''bash'' ''a'', demo_tool_call ''search'' ''b''] empty_loop_state)) =
     Some (tool_freq_warning_msg (PStr ''bash'') 1, False) \<and>
   dget_default (ls_tool_freq (snd (projr (track_calls demo_loops ''t'' ''h'' [demo_tool_call ''bash'' ''a'', demo_tool_call ''search'' ''b''] empty_loop_state)))) ''t'' [] =
     [(PStr ''bash'', 1)]"
  by code_simp

end
