(* ===== verification/Tool_Progress.thy ===== *)
theory Tool_Progress
  imports Tool_Result_Meta
begin

text \<open>
  The guard against tools that stopped producing value, \<^verbatim>\<open>agents/middlewares/tool_progress_middleware.py\<close>: a state machine for every
  tool of every thread, fed with the classification of results. One object guards all threads; each region under its lock is one step. The
  quotient of two integers as a float is an argument. Dashes in the texts, U+2014, stand as hyphens.
\<close>

section \<open>Content\<close>

definition max_pending_per_run :: nat where "max_pending_per_run = 3"
definition max_content_for_wordset :: nat where "max_content_for_wordset = 8192"

text \<open>The longest runs of word characters.\<close>

fun word_runs :: "string \<Rightarrow> string \<Rightarrow> string list" where
  "word_runs acc [] = (if acc = [] then [] else [rev acc])"
| "word_runs acc (c # cs) = (if word_char c then word_runs (c # acc) cs else if acc = [] then word_runs [] cs else rev acc # word_runs [] cs)"

definition word_set :: "string \<Rightarrow> string set" where
  "word_set content = set (filter (\<lambda>w. 3 \<le> length w) (word_runs [] (str_lower (take max_content_for_wordset content))))"

record progress_config =
  pc_stagnation_threshold :: int
  pc_warn_escalation :: int
  pc_inject_assessment :: bool
  pc_jaccard_threshold :: rat
  pc_min_words :: int
  pc_exempt_tools :: "string list"
  pc_max_tracked_threads :: int

definition valid_progress_config :: "progress_config \<Rightarrow> bool" where
  "valid_progress_config c \<longleftrightarrow>
     1 \<le> pc_stagnation_threshold c \<and> 1 \<le> pc_warn_escalation c \<and> 0 \<le> pc_jaccard_threshold c \<and> pc_jaccard_threshold c \<le> 1 \<and>
     1 \<le> pc_max_tracked_threads c"

definition is_near_duplicate :: "(int \<Rightarrow> int \<Rightarrow> rat) \<Rightarrow> string set \<Rightarrow> string set list \<Rightarrow> rat \<Rightarrow> int \<Rightarrow> bool" where
  "is_near_duplicate fdiv current recent threshold min_words \<longleftrightarrow>
     \<not> int (card current) < min_words \<and>
     list_ex (\<lambda>prev. \<not> int (card prev) < min_words \<and> card (current \<union> prev) \<noteq> 0 \<and>
       threshold \<le> fdiv (int (card (current \<inter> prev))) (int (card (current \<union> prev)))) (slice_from (- 3) recent)"

section \<open>Hints and reasons\<close>

definition hint_actions :: "(string, string) dict" where
  "hint_actions =
     [(''rewrite_query'', ''Try rephrasing your search query with different keywords or approach.''),
      (''try_alternative'', ''Consider using a different tool or strategy.''),
      (''summarize'', ''Consider summarizing your current findings and moving forward.''),
      (''stop'', ''Do not retry this operation - it is not recoverable.''),
      (''continue'', ''Try rephrasing your query or using a different search term.'')]"

definition hint_bases :: "(string, string) dict" where
  "hint_bases =
     [(''no_results'', ''[PROGRESS HINT] Your search returned no results.''),
      (''not_found'', ''[PROGRESS HINT] The resource was not found repeatedly.''),
      (''rate_limited'', ''[PROGRESS HINT] The tool is being rate-limited.''),
      (''transient'', ''[PROGRESS HINT] The tool encountered repeated transient failures.''),
      (''partial_success'', ''[PROGRESS HINT] The tool has returned incomplete results multiple times.''),
      (''success'', ''[PROGRESS HINT] The tool is returning duplicate results.'')]"

definition block_reasons :: "(string, string) dict" where
  "block_reasons =
     [(''no_results'', ''Repeated no-results - rewrite your query or try a different tool.''),
      (''not_found'', ''Repeated not-found - rewrite your query or try a different resource.''),
      (''rate_limited'', ''Repeated rate-limiting - summarize current findings and proceed.''),
      (''transient'', ''Repeated transient failures - try a different approach.''),
      (''auth'', ''Authentication failure - this tool cannot be used.''),
      (''config'', ''Tool is not configured - this tool cannot be used.''),
      (''internal'', ''Repeated internal errors - this tool is unavailable.'')]"

text \<open>A lookup in a dictionary with string keys.\<close>

definition text_for :: "(string, string) dict \<Rightarrow> pyval \<Rightarrow> string \<Rightarrow> string" where
  "text_for d k other = (case k of PStr s \<Rightarrow> dget_default d s other | _ \<Rightarrow> other)"

definition format_hint :: "tool_result_meta \<Rightarrow> string" where
  "format_hint meta =
     (let base = text_for hint_bases (if truthy (rm_error_type meta) then rm_error_type meta else rm_status meta)
            ''[PROGRESS HINT] The tool is not producing new information.'';
          suffix = text_for hint_actions (rm_next_action meta) []
      in str_strip (base @ '' '' @ suffix))"

definition block_reason_for :: "tool_result_meta \<Rightarrow> string" where
  "block_reason_for meta =
     text_for block_reasons (if truthy (rm_error_type meta) then rm_error_type meta else PStr [])
       ''Tool has not produced new information after multiple attempts - summarize and move on.''"

section \<open>The state machine of a tool\<close>

datatype tool_phase = Active | Warned | Blocked

record tool_phase_state =
  tp_phase :: tool_phase
  tp_consecutive_problems :: int
  tp_block_reason :: "string option"
  tp_recent_word_sets :: "string set list"

definition fresh_tool :: tool_phase_state where
  "fresh_tool = \<lparr>tp_phase = Active, tp_consecutive_problems = 0, tp_block_reason = None, tp_recent_word_sets = []\<rparr>"

definition is_problem :: "(int \<Rightarrow> int \<Rightarrow> rat) \<Rightarrow> progress_config \<Rightarrow> string set list \<Rightarrow> tool_result_meta \<Rightarrow> string \<Rightarrow> bool" where
  "is_problem fdiv c recent meta content \<longleftrightarrow>
     rm_status meta \<in> set [PStr ''error'', PStr ''partial_success''] \<or>
     rm_status meta = PStr ''success'' \<and> is_near_duplicate fdiv (word_set content) recent (pc_jaccard_threshold c) (pc_min_words c)"

definition assess_and_transition ::
  "(int \<Rightarrow> int \<Rightarrow> rat) \<Rightarrow> progress_config \<Rightarrow> tool_phase_state \<Rightarrow> tool_result_meta \<Rightarrow> string \<Rightarrow> tool_phase_state \<times> string option" where
  "assess_and_transition fdiv c state meta content =
     (if tp_phase state = Blocked then (state, None)
      else
        let new_count = tp_consecutive_problems state + 1 in
        if \<not> truthy (rm_recoverable meta) \<and> rm_next_action meta = PStr ''stop''
        then (state\<lparr>tp_phase := Blocked, tp_consecutive_problems := new_count, tp_block_reason := Some (block_reason_for meta)\<rparr>, None)
        else
          let ws = (if rm_status meta = PStr ''success'' then word_set content else {}) in
          if \<not> is_problem fdiv c (tp_recent_word_sets state) meta content
          then (state\<lparr>tp_consecutive_problems := 0, tp_phase := Active, tp_recent_word_sets := slice_from (- 3) (tp_recent_word_sets state @ [ws])\<rparr>, None)
          else if new_count \<ge> pc_stagnation_threshold c + pc_warn_escalation c
          then if truthy (rm_recoverable meta)
               then (state\<lparr>tp_consecutive_problems := new_count, tp_phase := Warned\<rparr>, Some (format_hint meta))
               else (state\<lparr>tp_consecutive_problems := new_count, tp_phase := Blocked, tp_block_reason := Some (block_reason_for meta)\<rparr>, None)
          else if new_count \<ge> pc_stagnation_threshold c
          then (state\<lparr>tp_consecutive_problems := new_count, tp_phase := Warned\<rparr>, Some (format_hint meta))
          else (state\<lparr>tp_consecutive_problems := new_count\<rparr>, None))"

section \<open>The store\<close>

type_synonym hint_key = "string \<times> string"

record progress_state =
  ps_phases :: "(string, (string, tool_phase_state) dict) dict"
  ps_pending :: "(hint_key, string list) dict"

definition empty_progress :: progress_state where "empty_progress = \<lparr>ps_phases = [], ps_pending = []\<rparr>"

datatype progress_error = Key_Error

definition run_ids :: "run_context \<Rightarrow> hint_key" where
  "run_ids ctx = (str_or (get_key ctx ''thread_id'') ''default'', str_or (get_key ctx ''run_id'') ''default'')"

fun evict_threads ::
  "int \<Rightarrow> (string, (string, tool_phase_state) dict) dict \<Rightarrow> (hint_key, string list) dict \<Rightarrow>
   progress_error + (string, (string, tool_phase_state) dict) dict \<times> (hint_key, string list) dict" where
  "evict_threads limit [] pending = (if 0 \<le> limit then Inr ([], pending) else Inl Key_Error)"
| "evict_threads limit ((evicted, tools) # phases) pending =
     (if int (length ((evicted, tools) # phases)) \<le> limit then Inr ((evicted, tools) # phases, pending)
      else evict_threads limit phases (filter (\<lambda>(k, _). fst k \<noteq> evicted) pending))"

definition get_state :: "progress_config \<Rightarrow> string \<Rightarrow> string \<Rightarrow> progress_state \<Rightarrow> progress_error + tool_phase_state \<times> progress_state" where
  "get_state c tid tool st =
     ebind (if dget (ps_phases st) tid = None then evict_threads (pc_max_tracked_threads c) (dset tid [] (ps_phases st)) (ps_pending st)
            else Inr (ps_phases st, ps_pending st)) (\<lambda>(phases, pending).
     case dget phases tid of
       None \<Rightarrow> Inl Key_Error
     | Some tools \<Rightarrow> Inr (dget_default tools tool fresh_tool, \<lparr>ps_phases = dpop tid phases @ [(tid, tools)], ps_pending = pending\<rparr>))"

definition set_state :: "string \<Rightarrow> string \<Rightarrow> tool_phase_state \<Rightarrow> progress_state \<Rightarrow> progress_error + progress_state" where
  "set_state tid tool state st =
     (case dget (ps_phases st) tid of
        None \<Rightarrow> Inl Key_Error
      | Some tools \<Rightarrow> Inr (st\<lparr>ps_phases := dset tid (dset tool state tools) (ps_phases st)\<rparr>))"

definition get_block_reason :: "run_context \<Rightarrow> string \<Rightarrow> progress_state \<Rightarrow> string option" where
  "get_block_reason ctx tool st =
     (case dget (ps_phases st) (fst (run_ids ctx)) of
        None \<Rightarrow> None
      | Some tools \<Rightarrow>
          (case dget tools tool of
             None \<Rightarrow> None
           | Some state \<Rightarrow> if tp_phase state = Blocked then tp_block_reason state else None))"

definition make_blocked_message :: "tool_call \<Rightarrow> string \<Rightarrow> string \<Rightarrow> tool_message" where
  "make_blocked_message tc tool reason =
     \<lparr>tm_tool_call_id = py_str (get_default tc ''id'' (PStr [])), tm_name = PStr tool, tm_content = PStr (''[TOOL_BLOCKED] '' @ reason), tm_status = ''error'',
      tm_additional_kwargs = [(tool_meta_key, PDict (make_meta ''error'' ''progress_middleware'' (PStr ''blocked_by_progress_guard'') True ''summarize''))]\<rparr>"

definition queue_assessment :: "run_context \<Rightarrow> string \<Rightarrow> progress_state \<Rightarrow> progress_state" where
  "queue_assessment ctx hint st =
     (if dget (ps_phases st) (fst (run_ids ctx)) = None then st
      else
        let queue = dget_default (ps_pending st) (run_ids ctx) []
        in st\<lparr>ps_pending := dset (run_ids ctx) (if length queue < max_pending_per_run then queue @ [hint] else queue) (ps_pending st)\<rparr>)"

text \<open>The region under the lock, and then the hint: another step may come between.\<close>

definition record_result ::
  "(int \<Rightarrow> int \<Rightarrow> rat) \<Rightarrow> progress_config \<Rightarrow> tool_message \<Rightarrow> string \<Rightarrow> run_context \<Rightarrow> progress_state \<Rightarrow> progress_error + string option \<times> progress_state" where
  "record_result fdiv c msg tool ctx st =
     (case message_meta msg of
        None \<Rightarrow> Inr (None, st)
      | Some meta \<Rightarrow>
          ebind (get_state c (fst (run_ids ctx)) tool st) (\<lambda>(state, st).
          let (new_state, hint) = assess_and_transition fdiv c state meta (message_content_str msg) in
          ebind (set_state (fst (run_ids ctx)) tool new_state st) (\<lambda>st. Inr (hint, st))))"

definition queue_hint :: "progress_config \<Rightarrow> run_context \<Rightarrow> string option \<Rightarrow> progress_state \<Rightarrow> progress_state" where
  "queue_hint c ctx hint st = (case hint of Some h \<Rightarrow> if h \<noteq> [] \<and> pc_inject_assessment c then queue_assessment ctx h st else st | None \<Rightarrow> st)"

definition update_state_from_result ::
  "(int \<Rightarrow> int \<Rightarrow> rat) \<Rightarrow> progress_config \<Rightarrow> tool_result \<Rightarrow> string \<Rightarrow> run_context \<Rightarrow> progress_state \<Rightarrow> progress_error + progress_state" where
  "update_state_from_result fdiv c result tool ctx st =
     (case result of
        Command_Result ms u \<Rightarrow> Inr st
      | Message_Result msg \<Rightarrow> ebind (record_result fdiv c msg tool ctx st) (\<lambda>(hint, st). Inr (queue_hint c ctx hint st)))"

definition drain_hints :: "run_context \<Rightarrow> progress_state \<Rightarrow> string list \<times> progress_state" where
  "drain_hints ctx st = (dget_default (ps_pending st) (run_ids ctx) [], st\<lparr>ps_pending := dpop (run_ids ctx) (ps_pending st)\<rparr>)"

definition clear_stale_pending :: "run_context \<Rightarrow> progress_state \<Rightarrow> progress_state" where
  "clear_stale_pending ctx st =
     st\<lparr>ps_pending := filter (\<lambda>(k, _). \<not> (fst k = fst (run_ids ctx) \<and> snd k \<noteq> snd (run_ids ctx))) (ps_pending st)\<rparr>"

definition reset_run_states :: "run_context \<Rightarrow> progress_state \<Rightarrow> progress_state" where
  "reset_run_states ctx st =
     (case dget (ps_phases st) (fst (run_ids ctx)) of
        None \<Rightarrow> st
      | Some tools \<Rightarrow>
          st\<lparr>ps_phases := dset (fst (run_ids ctx))
            (map (\<lambda>(tool, state). (tool,
               state\<lparr>tp_phase := Active, tp_consecutive_problems := 0, tp_block_reason := None, tp_recent_word_sets := []\<rparr>)) tools) (ps_phases st)\<rparr>)"

section \<open>The hooks\<close>

text \<open>Whether a call is let through, answered by the guard, or not tracked at all.\<close>

datatype gate = Untracked | Intercepted tool_message | Tracked string run_context

definition gate_tool_call :: "progress_config \<Rightarrow> tool_call \<Rightarrow> run_context option \<Rightarrow> progress_state \<Rightarrow> gate" where
  "gate_tool_call c tc runtime st =
     (let tool = py_str (get_default tc ''name'' (PStr [])) in
      if tool = [] \<or> tool \<in> set (pc_exempt_tools c) then Untracked
      else case runtime of
        None \<Rightarrow> Untracked
      | Some ctx \<Rightarrow>
          (case get_block_reason ctx tool st of
             Some reason \<Rightarrow> if reason \<noteq> [] then Intercepted (make_blocked_message tc tool reason) else Tracked tool ctx
           | None \<Rightarrow> Tracked tool ctx))"

text \<open>The handler may take time: other calls change the state from the check to the update. \<open>meanwhile\<close> is what they do; \<open>handler\<close> is the
  result of the tool.\<close>

definition progress_wrap_tool_call ::
  "(int \<Rightarrow> int \<Rightarrow> rat) \<Rightarrow> progress_config \<Rightarrow> tool_call \<Rightarrow> run_context option \<Rightarrow> (progress_state \<Rightarrow> progress_state) \<Rightarrow> tool_result \<Rightarrow> progress_state \<Rightarrow>
   progress_error + tool_result \<times> bool \<times> progress_state" where
  "progress_wrap_tool_call fdiv c tc runtime meanwhile result st =
     (case gate_tool_call c tc runtime st of
        Untracked \<Rightarrow> Inr (result, True, meanwhile st)
      | Intercepted msg \<Rightarrow> Inr (Message_Result msg, False, st)
      | Tracked tool ctx \<Rightarrow> ebind (update_state_from_result fdiv c result tool ctx (meanwhile st)) (\<lambda>st. Inr (result, True, st)))"

definition progress_augment_request :: "run_context \<Rightarrow> message list \<Rightarrow> progress_state \<Rightarrow> message list \<times> progress_state" where
  "progress_augment_request ctx messages st =
     (let (hints, st) = drain_hints ctx st in
      (if hints = [] then messages else messages @ [HumanMessage ''progress_hint'' (PStr (join_with blank_line (from_keys hints)))], st))"

definition progress_before_agent :: "run_context \<Rightarrow> progress_state \<Rightarrow> progress_state" where
  "progress_before_agent ctx st = reset_run_states ctx (clear_stale_pending ctx st)"

end
