(* ===== verification/Progress_Properties.thy ===== *)
theory Progress_Properties
  imports Tool_Progress
begin

text \<open>
  What the progress guard promises: what it keeps is bounded, the state of a tool is a function of the results of that tool in
  the current run, whatever other tools and threads do, and a tool is blocked exactly when its results were hopeless.
\<close>

section \<open>Steps\<close>

datatype progress_event =
    Result_Seen run_context string tool_message
  | Hint_Queued run_context "string option"
  | Hints_Drained run_context
  | Run_Begins run_context

definition progress_event_step :: "(int \<Rightarrow> int \<Rightarrow> rat) \<Rightarrow> progress_config \<Rightarrow> progress_state \<Rightarrow> progress_event \<Rightarrow> progress_error + progress_state" where
  "progress_event_step fdiv c st e =
     (case e of
        Result_Seen ctx tool msg \<Rightarrow> ebind (record_result fdiv c msg tool ctx st) (\<lambda>(_, st). Inr st)
      | Hint_Queued ctx hint \<Rightarrow> Inr (queue_hint c ctx hint st)
      | Hints_Drained ctx \<Rightarrow> Inr (snd (drain_hints ctx st))
      | Run_Begins ctx \<Rightarrow> Inr (progress_before_agent ctx st))"

definition event_context :: "progress_event \<Rightarrow> run_context" where
  "event_context e = (case e of Result_Seen ctx _ _ \<Rightarrow> ctx | Hint_Queued ctx _ \<Rightarrow> ctx | Hints_Drained ctx \<Rightarrow> ctx | Run_Begins ctx \<Rightarrow> ctx)"

definition event_threads :: "progress_event list \<Rightarrow> string set" where
  "event_threads es = (\<lambda>e. fst (run_ids (event_context e))) ` set es"

section \<open>What is kept\<close>

definition progress_wf :: "progress_config \<Rightarrow> progress_state \<Rightarrow> bool" where
  "progress_wf c st \<longleftrightarrow> wf_dict (ps_phases st) \<and> int (length (ps_phases st)) \<le> pc_max_tracked_threads c \<and>
     fst ` set (dkeys (ps_pending st)) \<subseteq> set (dkeys (ps_phases st)) \<and> (\<forall>(k, hints) \<in> set (ps_pending st). length hints \<le> max_pending_per_run)"

lemma evict_threads_drop:
  assumes "0 \<le> limit"
  shows "\<exists>pending'. evict_threads limit phases pending = Inr (drop (length phases - nat limit) phases, pending') \<and> set pending' \<subseteq> set pending \<and>
    fst ` set (dkeys pending') \<inter> set (dkeys (take (length phases - nat limit) phases)) = {}"
  using assms
proof (induction limit phases pending rule: evict_threads.induct)
  case (1 limit pending)
  then show ?case by auto
next
  case (2 limit evicted tools phases pending)
  show ?case
  proof (cases "int (length ((evicted, tools) # phases)) \<le> limit")
    case True
    then have "length ((evicted, tools) # phases) - nat limit = 0" by linarith
    with True show ?thesis by simp
  next
    case False
    then have n: "length ((evicted, tools) # phases) - nat limit = Suc (length phases - nat limit)" using "2.prems" by (simp add: Suc_diff_le nat_le_iff)
    from "2.IH" [OF False "2.prems"] obtain p where p: "evict_threads limit phases (filter (\<lambda>(k, _). fst k \<noteq> evicted) pending) = Inr (drop (length phases - nat limit) phases, p)"
        "set p \<subseteq> set (filter (\<lambda>(k, _). fst k \<noteq> evicted) pending)" "fst ` set (dkeys p) \<inter> set (dkeys (take (length phases - nat limit) phases)) = {}" by auto
    have "evicted \<notin> fst ` set (dkeys p)" using p(2) by auto
    with p False n show ?thesis by auto
  qed
qed

lemma dpop_length_present: "wf_dict d \<Longrightarrow> dget d k = Some v \<Longrightarrow> Suc (length (dpop k d)) = length d"
proof (induction d)
  case (Cons x d)
  show ?case
  proof (cases "fst x = k")
    case True
    with Cons.prems(1) have "dget d k = None" by (auto simp: wf_dict_def map_of_eq_None_iff)
    with True show ?thesis by (cases x) (simp add: dpop_absent)
  next
    case False
    with Cons show ?thesis by (cases x) (simp add: wf_dict_def)
  qed
qed simp

lemma get_state_Inr:
  assumes "progress_wf c st" and "1 \<le> pc_max_tracked_threads c"
  obtains st' where "get_state c tid tool st =
      Inr (case dget (ps_phases st) tid of None \<Rightarrow> fresh_tool | Some tools \<Rightarrow> dget_default tools tool fresh_tool, st')"
    and "progress_wf c st'"
    and "dget (ps_phases st') tid = Some (case dget (ps_phases st) tid of None \<Rightarrow> [] | Some tools \<Rightarrow> tools)"
    and "\<And>t. card (insert tid (set (dkeys (ps_phases st)))) \<le> nat (pc_max_tracked_threads c) \<Longrightarrow> t \<noteq> tid \<Longrightarrow> dget (ps_phases st') t = dget (ps_phases st) t"
proof (cases "dget (ps_phases st) tid")
  case (Some tools)
  let ?st = "\<lparr>ps_phases = dpop tid (ps_phases st) @ [(tid, tools)], ps_pending = ps_pending st\<rparr>"
  have wf: "wf_dict (ps_phases st)" using assms(1) by (simp add: progress_wf_def)
  have len: "length (dpop tid (ps_phases st) @ [(tid, tools)]) = length (ps_phases st)"
    using dpop_length_present [OF wf Some] by simp
  have keys: "set (dkeys (dpop tid (ps_phases st) @ [(tid, tools)])) = set (dkeys (ps_phases st))"
    using map_of_SomeD [OF Some] by (force simp: AList.delete_eq image_iff)
  show thesis
  proof (rule that [of ?st])
    show "progress_wf c ?st"
      using assms(1) len keys wf by (auto simp: progress_wf_def wf_dict_def AList.delete_eq distinct_map_filter)
  qed (use Some in \<open>auto simp: get_state_def map_add_def split: option.split\<close>)
next
  case None
  let ?d = "ps_phases st @ [(tid, [])]" and ?n = "Suc (length (ps_phases st)) - nat (pc_max_tracked_threads c)"
  have wf: "wf_dict ?d" using assms(1) None by (auto simp: progress_wf_def wf_dict_def map_of_eq_None_iff)
  from evict_threads_drop [of "pc_max_tracked_threads c" ?d "ps_pending st"] assms(2) obtain p where
    p: "evict_threads (pc_max_tracked_threads c) ?d (ps_pending st) = Inr (drop ?n ?d, p)" "set p \<subseteq> set (ps_pending st)"
       "fst ` set (dkeys p) \<inter> set (dkeys (take ?n ?d)) = {}" by auto
  have n: "?n \<le> length (ps_phases st)" using assms(2) by linarith
  then have drop: "drop ?n ?d = drop ?n (ps_phases st) @ [(tid, [])]" by simp
  have nin: "dget (drop ?n (ps_phases st)) tid = None" using None by (auto simp: map_of_eq_None_iff dest: in_set_dropD)
  let ?st = "\<lparr>ps_phases = drop ?n (ps_phases st) @ [(tid, [])], ps_pending = p\<rparr>"
  have "fst ` set (dkeys p) \<subseteq> fst ` set (dkeys (ps_pending st))" using p(2) by auto
  with assms(1) have sub: "fst ` set (dkeys p) \<subseteq> set (dkeys (ps_phases st))" unfolding progress_wf_def by blast
  have split: "set (dkeys (ps_phases st)) = set (dkeys (take ?n (ps_phases st))) \<union> set (dkeys (drop ?n (ps_phases st)))"
    by (metis append_take_drop_id map_append set_append)
  have "fst ` set (dkeys p) \<inter> set (dkeys (take ?n (ps_phases st))) = {}" using p(3) n by simp
  with sub split have kept: "fst ` set (dkeys p) \<subseteq> set (dkeys (drop ?n (ps_phases st)))" by blast
  show thesis
  proof (rule that [of ?st])
    show "get_state c tid tool st = Inr (case dget (ps_phases st) tid of None \<Rightarrow> fresh_tool | Some tools \<Rightarrow> dget_default tools tool fresh_tool, ?st)"
      using None p(1) [unfolded drop] nin dpop_dset_fresh [OF nin, of "[]"]
      by (simp del: drop_append add: get_state_def dset_fresh map_add_def dget_default_def)
    show "progress_wf c ?st"
      using wf assms kept p(2) drop distinct_drop [of "dkeys ?d" ?n] by (auto simp: progress_wf_def wf_dict_def drop_map)
    show "dget (ps_phases ?st) tid = Some (case dget (ps_phases st) tid of None \<Rightarrow> [] | Some tools \<Rightarrow> tools)"
      using None nin by (simp add: map_add_def)
    show "dget (ps_phases ?st) t = dget (ps_phases st) t" if "card (insert tid (set (dkeys (ps_phases st)))) \<le> nat (pc_max_tracked_threads c)" "t \<noteq> tid" for t
    proof -
      have "tid \<notin> set (dkeys (ps_phases st))" using None by (simp add: map_of_eq_None_iff)
      then have "card (insert tid (set (dkeys (ps_phases st)))) = Suc (length (ps_phases st))"
        using assms(1) distinct_card [of "dkeys (ps_phases st)"] by (simp add: progress_wf_def wf_dict_def)
      with that(1) have "?n = 0" by simp
      with that(2) show ?thesis by (simp add: map_add_def split: option.split)
    qed
  qed
qed

lemma progress_wf_phases:
  assumes "progress_wf c st" and "dget (ps_phases st) tid \<noteq> None"
  shows "progress_wf c (st\<lparr>ps_phases := dset tid tools (ps_phases st)\<rparr>)"
proof -
  have "dkeys (dset tid tools (ps_phases st)) = dkeys (ps_phases st)" using assms(2) by (simp add: dkeys_dset)
  moreover have "length (dset tid tools (ps_phases st)) = length (ps_phases st)" using assms(2) by (simp add: dset_length)
  ultimately show ?thesis using assms(1) by (simp add: progress_wf_def)
qed

lemma progress_wf_pending:
  assumes "progress_wf c st" and "set pending \<subseteq> set (ps_pending st)"
  shows "progress_wf c (st\<lparr>ps_pending := pending\<rparr>)"
proof -
  have "fst ` set (dkeys pending) \<subseteq> fst ` set (dkeys (ps_pending st))" using assms(2) by auto
  with assms(1) have "fst ` set (dkeys pending) \<subseteq> set (dkeys (ps_phases st))" unfolding progress_wf_def by blast
  moreover have "\<forall>(k, hints) \<in> set pending. length hints \<le> max_pending_per_run" using assms unfolding progress_wf_def by blast
  ultimately show ?thesis using assms(1) by (simp add: progress_wf_def)
qed

text \<open>The state of a tool, for threads and tools not seen yet as well.\<close>

definition tool_state :: "progress_state \<Rightarrow> string \<Rightarrow> string \<Rightarrow> tool_phase_state" where
  "tool_state st tid tool = (case dget (ps_phases st) tid of None \<Rightarrow> fresh_tool | Some tools \<Rightarrow> dget_default tools tool fresh_tool)"

lemma record_result_Inr:
  assumes "progress_wf c st" and "1 \<le> pc_max_tracked_threads c" and "message_meta msg = Some meta"
  obtains hint st' where "record_result fdiv c msg tool ctx st = Inr (hint, st')" and "progress_wf c st'"
    and "card (insert (fst (run_ids ctx)) (set (dkeys (ps_phases st)))) \<le> nat (pc_max_tracked_threads c) \<Longrightarrow>
      tool_state st' tid t =
        (if tid = fst (run_ids ctx) \<and> t = tool
         then fst (assess_and_transition fdiv c (tool_state st tid t) meta (message_content_str msg)) else tool_state st tid t) \<and>
      set (dkeys (ps_phases st')) \<subseteq> insert (fst (run_ids ctx)) (set (dkeys (ps_phases st)))"
proof -
  let ?tid = "fst (run_ids ctx)"
  from get_state_Inr [OF assms(1,2), where tid = ?tid and tool = tool] obtain st1 where
    g: "get_state c ?tid tool st = Inr (tool_state st ?tid tool, st1)" and wf: "progress_wf c st1"
    and tools: "dget (ps_phases st1) ?tid = Some (case dget (ps_phases st) ?tid of None \<Rightarrow> [] | Some tools \<Rightarrow> tools)"
    and others: "\<And>t. card (insert ?tid (set (dkeys (ps_phases st)))) \<le> nat (pc_max_tracked_threads c) \<Longrightarrow> t \<noteq> ?tid \<Longrightarrow> dget (ps_phases st1) t = dget (ps_phases st) t"
    by (auto simp: tool_state_def)
  obtain new hint where a: "assess_and_transition fdiv c (tool_state st ?tid tool) meta (message_content_str msg) = (new, hint)" by (metis prod.exhaust)
  let ?tools = "case dget (ps_phases st) ?tid of None \<Rightarrow> [] | Some tools \<Rightarrow> tools"
  let ?st = "st1\<lparr>ps_phases := dset ?tid (dset tool new ?tools) (ps_phases st1)\<rparr>"
  show thesis
  proof (rule that [of hint ?st])
    show "record_result fdiv c msg tool ctx st = Inr (hint, ?st)"
      using g a tools by (simp add: record_result_def assms(3) set_state_def)
    show "progress_wf c ?st" using wf tools by (intro progress_wf_phases) simp_all
    assume few: "card (insert ?tid (set (dkeys (ps_phases st)))) \<le> nat (pc_max_tracked_threads c)"
    have "set (dkeys (ps_phases st1)) \<subseteq> insert ?tid (set (dkeys (ps_phases st)))"
    proof
      fix t assume "t \<in> set (dkeys (ps_phases st1))"
      then have "dget (ps_phases st1) t \<noteq> None" by (simp add: map_of_eq_None_iff)
      with others [OF few, of t] show "t \<in> insert ?tid (set (dkeys (ps_phases st)))" by (cases "t = ?tid") (auto simp: map_of_eq_None_iff)
    qed
    then have "set (dkeys (ps_phases ?st)) \<subseteq> insert ?tid (set (dkeys (ps_phases st)))" using tools by (simp add: dkeys_dset)
    moreover have "tool_state ?st tid t = (if tid = ?tid \<and> t = tool then new else tool_state st tid t)"
      using others [OF few, of tid] by (auto simp: tool_state_def dget_default_def split: option.split)
    ultimately show "tool_state ?st tid t =
        (if tid = ?tid \<and> t = tool then fst (assess_and_transition fdiv c (tool_state st tid t) meta (message_content_str msg)) else tool_state st tid t) \<and>
      set (dkeys (ps_phases ?st)) \<subseteq> insert ?tid (set (dkeys (ps_phases st)))"
      using a by auto
  qed
qed

lemma queue_hint_phases [simp]: "ps_phases (queue_hint c ctx hint st) = ps_phases st"
  by (simp add: queue_hint_def queue_assessment_def Let_def split: option.split)

lemma queue_hint_wf: "progress_wf c st \<Longrightarrow> progress_wf c (queue_hint c ctx hint st)"
proof (cases "ps_pending (queue_hint c ctx hint st) = ps_pending st")
  case False
  assume wf: "progress_wf c st"
  let ?k = "run_ids ctx" and ?queue = "dget_default (ps_pending st) (run_ids ctx) []"
  from False obtain h where k: "dget (ps_phases st) (fst ?k) \<noteq> None"
    and q: "queue_hint c ctx hint st = st\<lparr>ps_pending := dset ?k (if length ?queue < max_pending_per_run then ?queue @ [h] else ?queue) (ps_pending st)\<rparr>"
    by (auto simp: queue_hint_def queue_assessment_def Let_def split: option.split_asm if_split_asm)
  have "length ?queue \<le> max_pending_per_run"
    using wf by (auto simp: progress_wf_def dget_default_def split: option.split dest: map_of_SomeD)
  then have "\<forall>(k, hints) \<in> set (ps_pending (queue_hint c ctx hint st)). length hints \<le> max_pending_per_run"
    using wf set_dset_subset [of ?k "if length ?queue < max_pending_per_run then ?queue @ [h] else ?queue" "ps_pending st"]
    by (fastforce simp: q progress_wf_def split: if_split_asm)
  moreover have "fst ?k \<in> set (dkeys (ps_phases st))" using k by (simp add: map_of_eq_None_iff)
  then have "fst ` set (dkeys (ps_pending (queue_hint c ctx hint st))) \<subseteq> set (dkeys (ps_phases st))"
    using wf by (auto simp: q dkeys_dset progress_wf_def)
  ultimately show ?thesis using wf by (simp add: progress_wf_def)
qed (auto simp: progress_wf_def)

lemma before_agent_state:
  "progress_wf c st \<Longrightarrow> progress_wf c (progress_before_agent ctx st) \<and> dkeys (ps_phases (progress_before_agent ctx st)) = dkeys (ps_phases st) \<and>
     tool_state (progress_before_agent ctx st) tid t = (if tid = fst (run_ids ctx) then fresh_tool else tool_state st tid t)"
proof -
  assume "progress_wf c st"
  then have wf: "progress_wf c (clear_stale_pending ctx st)" unfolding clear_stale_pending_def by (rule progress_wf_pending) auto
  let ?reset = "\<lambda>(tool :: string, state). (tool, state\<lparr>tp_phase := Active, tp_consecutive_problems := 0, tp_block_reason := None, tp_recent_word_sets := []\<rparr>)"
  have "dget (map ?reset tools) t = map_option (\<lambda>_. fresh_tool) (dget tools t)" for tools
    by (induction tools) (auto simp: fresh_tool_def)
  then have "dget_default (map ?reset tools) t fresh_tool = fresh_tool" for tools by (simp add: dget_default_def split: option.split)
  then have "tool_state (progress_before_agent ctx st) tid t = (if tid = fst (run_ids ctx) then fresh_tool else tool_state st tid t)"
    by (auto simp: progress_before_agent_def reset_run_states_def clear_stale_pending_def tool_state_def split: option.split)
  moreover have "dkeys (ps_phases (progress_before_agent ctx st)) = dkeys (ps_phases st)"
    by (auto simp: progress_before_agent_def reset_run_states_def clear_stale_pending_def dkeys_dset split: option.split)
  moreover have "progress_wf c (progress_before_agent ctx st)"
    using wf by (auto simp: progress_before_agent_def reset_run_states_def split: option.split intro: progress_wf_phases)
  ultimately show ?thesis by simp
qed

lemma progress_step_wf:
  assumes "progress_wf c st" and "1 \<le> pc_max_tracked_threads c"
  shows "\<exists>st'. progress_event_step fdiv c st e = Inr st' \<and> progress_wf c st'"
proof (cases e)
  case (Result_Seen ctx tool msg)
  show ?thesis
  proof (cases "message_meta msg")
    case None
    with Result_Seen assms(1) show ?thesis by (simp add: progress_event_step_def record_result_def)
  next
    case (Some meta)
    obtain hint st' where "record_result fdiv c msg tool ctx st = Inr (hint, st')" "progress_wf c st'" by (rule record_result_Inr [OF assms Some])
    with Result_Seen show ?thesis by (simp add: progress_event_step_def)
  qed
next
  case (Hints_Drained ctx)
  with assms(1) show ?thesis by (auto simp: progress_event_step_def drain_hints_def AList.delete_eq intro!: progress_wf_pending)
qed (use assms(1) in \<open>auto simp: progress_event_step_def queue_hint_wf before_agent_state\<close>)

text \<open>Whatever results, hints and runs the guard sees, it never fails on its own state; it keeps the tools of at most the configured number of
  threads, queues at most three hints for a run, and holds no hints for a thread it does not track.\<close>
theorem progress_bounded:
  assumes "valid_progress_config c"
  shows "\<exists>st. efold (progress_event_step fdiv c) empty_progress es = Inr st \<and> int (length (ps_phases st)) \<le> pc_max_tracked_threads c \<and>
    fst ` set (dkeys (ps_pending st)) \<subseteq> set (dkeys (ps_phases st)) \<and> (\<forall>(k, hints) \<in> set (ps_pending st). length hints \<le> 3)"
proof -
  have max: "1 \<le> pc_max_tracked_threads c" using assms by (simp add: valid_progress_config_def)
  have "\<exists>st. efold (progress_event_step fdiv c) st0 es = Inr st \<and> progress_wf c st" if "progress_wf c st0" for st0
    using that
  proof (induction es arbitrary: st0)
    case (Cons e es)
    from progress_step_wf [OF Cons.prems max] obtain st1 where "progress_event_step fdiv c st0 e = Inr st1" "progress_wf c st1" by blast
    with Cons.IH [of st1] show ?case by simp
  qed simp
  moreover have "progress_wf c empty_progress" using max by (simp add: progress_wf_def empty_progress_def)
  ultimately obtain st where "efold (progress_event_step fdiv c) empty_progress es = Inr st" "progress_wf c st" by blast
  then show ?thesis unfolding progress_wf_def max_pending_per_run_def by (intro exI [of _ st]) simp
qed

section \<open>History\<close>

text \<open>The results of a tool in the current run of a thread.\<close>

definition add_history :: "string \<Rightarrow> string \<Rightarrow> (tool_result_meta \<times> string) list \<Rightarrow> progress_event \<Rightarrow> (tool_result_meta \<times> string) list" where
  "add_history tid tool h e =
     (case e of
        Result_Seen ctx t msg \<Rightarrow>
          if fst (run_ids ctx) = tid \<and> t = tool
          then (case message_meta msg of None \<Rightarrow> h | Some meta \<Rightarrow> h @ [(meta, message_content_str msg)]) else h
      | Run_Begins ctx \<Rightarrow> if fst (run_ids ctx) = tid then [] else h
      | _ \<Rightarrow> h)"

definition history :: "string \<Rightarrow> string \<Rightarrow> progress_event list \<Rightarrow> (tool_result_meta \<times> string) list" where
  "history tid tool es = foldl (add_history tid tool) [] es"

definition assess_all :: "(int \<Rightarrow> int \<Rightarrow> rat) \<Rightarrow> progress_config \<Rightarrow> (tool_result_meta \<times> string) list \<Rightarrow> tool_phase_state" where
  "assess_all fdiv c h = foldl (\<lambda>state (meta, content). fst (assess_and_transition fdiv c state meta content)) fresh_tool h"

lemma progress_step_history:
  assumes "progress_wf c st" and "1 \<le> pc_max_tracked_threads c"
    and "card (insert (fst (run_ids (event_context e))) (set (dkeys (ps_phases st)))) \<le> nat (pc_max_tracked_threads c)"
    and "progress_event_step fdiv c st e = Inr st'"
    and "tool_state st tid tool = assess_all fdiv c h"
  shows "tool_state st' tid tool = assess_all fdiv c (add_history tid tool h e) \<and>
    set (dkeys (ps_phases st')) \<subseteq> insert (fst (run_ids (event_context e))) (set (dkeys (ps_phases st)))"
proof (cases e)
  case (Result_Seen ctx t msg)
  show ?thesis
  proof (cases "message_meta msg")
    case None
    with Result_Seen assms(4,5) show ?thesis by (auto simp: progress_event_step_def record_result_def add_history_def)
  next
    case (Some meta)
    obtain hint st1 where r: "record_result fdiv c msg t ctx st = Inr (hint, st1)"
      and st1: "card (insert (fst (run_ids ctx)) (set (dkeys (ps_phases st)))) \<le> nat (pc_max_tracked_threads c) \<Longrightarrow>
        tool_state st1 tid tool =
          (if tid = fst (run_ids ctx) \<and> tool = t
           then fst (assess_and_transition fdiv c (tool_state st tid tool) meta (message_content_str msg)) else tool_state st tid tool) \<and>
        set (dkeys (ps_phases st1)) \<subseteq> insert (fst (run_ids ctx)) (set (dkeys (ps_phases st)))"
      by (rule record_result_Inr [OF assms(1,2) Some, where fdiv = fdiv and tool = t and ctx = ctx and tid = tid and t = tool]) (rule that; assumption)
    from r Result_Seen assms(4) have "st' = st1" by (simp add: progress_event_step_def)
    with st1 Result_Seen Some assms(3,5) show ?thesis by (auto simp: event_context_def add_history_def assess_all_def)
  qed
next
  case (Run_Begins ctx)
  with assms before_agent_state [OF assms(1), of ctx tid tool] show ?thesis
    by (auto simp: progress_event_step_def add_history_def assess_all_def)
next
  case (Hint_Queued ctx hint)
  with assms(4,5) show ?thesis by (auto simp: progress_event_step_def add_history_def tool_state_def)
next
  case (Hints_Drained ctx)
  with assms(4,5) show ?thesis by (auto simp: progress_event_step_def add_history_def tool_state_def drain_hints_def)
qed

lemma efold_append: "efold f s (xs @ ys) = ebind (efold f s xs) (\<lambda>t. efold f t ys)"
  by (induction xs arbitrary: s) (simp_all add: ebind_def split: sum.split)

lemma progress_history:
  assumes "1 \<le> pc_max_tracked_threads c" and "card (event_threads es) \<le> nat (pc_max_tracked_threads c)"
  shows "\<exists>st. efold (progress_event_step fdiv c) empty_progress es = Inr st \<and> progress_wf c st \<and>
    set (dkeys (ps_phases st)) \<subseteq> event_threads es \<and> tool_state st tid tool = assess_all fdiv c (history tid tool es)"
  using assms(2)
proof (induction es rule: rev_induct)
  case Nil
  have "progress_wf c empty_progress" using assms(1) by (simp add: progress_wf_def empty_progress_def)
  then show ?case by (simp add: empty_progress_def tool_state_def history_def assess_all_def)
next
  case (snoc e es)
  have sub: "event_threads (es @ [e]) = insert (fst (run_ids (event_context e))) (event_threads es)" by (simp add: event_threads_def)
  have fin: "finite (event_threads (es @ [e]))" by (simp add: event_threads_def)
  have "card (event_threads es) \<le> card (event_threads (es @ [e]))" using sub fin by (intro card_mono) auto
  with snoc obtain st where st: "efold (progress_event_step fdiv c) empty_progress es = Inr st" "progress_wf c st"
      "set (dkeys (ps_phases st)) \<subseteq> event_threads es" "tool_state st tid tool = assess_all fdiv c (history tid tool es)" by auto
  from progress_step_wf [OF st(2) assms(1)] obtain st' where st': "progress_event_step fdiv c st e = Inr st'" "progress_wf c st'" by blast
  have "card (insert (fst (run_ids (event_context e))) (set (dkeys (ps_phases st)))) \<le> card (event_threads (es @ [e]))"
    using sub fin st(3) by (intro card_mono) auto
  with snoc.prems have few: "card (insert (fst (run_ids (event_context e))) (set (dkeys (ps_phases st)))) \<le> nat (pc_max_tracked_threads c)" by simp
  note step = progress_step_history [OF st(2) assms(1) few st'(1) st(4)]
  then have "set (dkeys (ps_phases st')) \<subseteq> event_threads (es @ [e])" using st(3) sub by blast
  moreover have "tool_state st' tid tool = assess_all fdiv c (history tid tool (es @ [e]))" using step by (simp add: history_def)
  ultimately show ?case using st(1) st' by (auto simp: efold_append)
qed

section \<open>Hopeless results\<close>

text \<open>The contents compared with, and the problems in a row, after some results.\<close>

definition tally :: "(int \<Rightarrow> int \<Rightarrow> rat) \<Rightarrow> progress_config \<Rightarrow> (tool_result_meta \<times> string) list \<Rightarrow> string set list \<times> int" where
  "tally fdiv c h = foldl (\<lambda>(recent, n) (meta, content).
     if is_problem fdiv c recent meta content then (recent, n + 1)
     else (slice_from (- 3) (recent @ [if rm_status meta = PStr ''success'' then word_set content else {}]), 0)) ([], 0) h"

text \<open>A result that says retrying cannot help: the tool cannot be used, or it is once more a problem the model cannot solve after too many.\<close>

definition hopeless :: "(int \<Rightarrow> int \<Rightarrow> rat) \<Rightarrow> progress_config \<Rightarrow> (tool_result_meta \<times> string) list \<Rightarrow> tool_result_meta \<times> string \<Rightarrow> bool" where
  "hopeless fdiv c earlier r \<longleftrightarrow> \<not> truthy (rm_recoverable (fst r)) \<and>
     (rm_next_action (fst r) = PStr ''stop'' \<or>
      is_problem fdiv c (fst (tally fdiv c earlier)) (fst r) (snd r) \<and> pc_stagnation_threshold c + pc_warn_escalation c \<le> snd (tally fdiv c earlier) + 1)"

lemma text_for_nonempty: "list_all (\<lambda>(_, t). t \<noteq> []) d \<Longrightarrow> other \<noteq> [] \<Longrightarrow> text_for d k other \<noteq> []"
  by (cases k) (auto simp: text_for_def dget_default_def list_all_iff split: option.split dest!: map_of_SomeD)

lemma block_reason_nonempty: "block_reason_for meta \<noteq> []"
  unfolding block_reason_for_def by (rule text_for_nonempty) (simp_all add: block_reasons_def)

lemma assess_all_snoc: "assess_all fdiv c (h @ [r]) = fst (assess_and_transition fdiv c (assess_all fdiv c h) (fst r) (snd r))"
  by (simp add: assess_all_def case_prod_beta)

lemma assess_all_tally:
  "tp_phase (assess_all fdiv c h) \<noteq> Blocked \<Longrightarrow> (tp_recent_word_sets (assess_all fdiv c h), tp_consecutive_problems (assess_all fdiv c h)) = tally fdiv c h"
proof (induction h rule: rev_induct)
  case Nil
  show ?case by (simp add: assess_all_def tally_def fresh_tool_def)
next
  case (snoc r h)
  have "tp_phase (assess_all fdiv c h) \<noteq> Blocked" using snoc.prems by (auto simp: assess_all_snoc assess_and_transition_def)
  with snoc have ih: "tally fdiv c h = (tp_recent_word_sets (assess_all fdiv c h), tp_consecutive_problems (assess_all fdiv c h))" by simp
  have "tally fdiv c (h @ [r]) = (if is_problem fdiv c (fst (tally fdiv c h)) (fst r) (snd r) then (fst (tally fdiv c h), snd (tally fdiv c h) + 1)
     else (slice_from (- 3) (fst (tally fdiv c h) @ [if rm_status (fst r) = PStr ''success'' then word_set (snd r) else {}]), 0))"
    by (simp add: tally_def case_prod_beta)
  with ih snoc.prems \<open>tp_phase (assess_all fdiv c h) \<noteq> Blocked\<close> show ?case
    unfolding assess_all_snoc assess_and_transition_def Let_def
    by (cases "\<not> truthy (rm_recoverable (fst r)) \<and> rm_next_action (fst r) = PStr ''stop''";
        cases "is_problem fdiv c (tp_recent_word_sets (assess_all fdiv c h)) (fst r) (snd r)") (auto split: if_split_asm)
qed

lemma assess_all_blocked:
  "tp_phase (assess_all fdiv c h) = Blocked \<longleftrightarrow> (\<exists>k<length h. hopeless fdiv c (take k h) (h ! k))"
proof (induction h rule: rev_induct)
  case Nil
  show ?case by (simp add: assess_all_def fresh_tool_def)
next
  case (snoc r h)
  have last: "(\<exists>k<Suc n. P k) \<longleftrightarrow> (\<exists>k<n. P k) \<or> P n" for P n by (auto simp: less_Suc_eq)
  have "(\<exists>k<length h. hopeless fdiv c (take k (h @ [r])) ((h @ [r]) ! k)) \<longleftrightarrow> (\<exists>k<length h. hopeless fdiv c (take k h) (h ! k))"
    by (intro ex_cong1 conj_cong refl) (simp add: nth_append)
  then have "(\<exists>k<length (h @ [r]). hopeless fdiv c (take k (h @ [r])) ((h @ [r]) ! k)) \<longleftrightarrow> (\<exists>k<length h. hopeless fdiv c (take k h) (h ! k)) \<or> hopeless fdiv c h r"
    unfolding length_append_singleton last by simp
  moreover have "tp_phase (assess_all fdiv c (h @ [r])) = Blocked \<longleftrightarrow> tp_phase (assess_all fdiv c h) = Blocked \<or> hopeless fdiv c h r"
  proof (cases "tp_phase (assess_all fdiv c h) = Blocked")
    case True
    then show ?thesis by (simp add: assess_all_snoc assess_and_transition_def)
  next
    case False
    note t = assess_all_tally [OF False, symmetric]
    show ?thesis using False by (simp add: assess_all_snoc assess_and_transition_def Let_def hopeless_def t)
  qed
  ultimately show ?case using snoc by simp
qed

lemma assess_all_reason: "tp_phase (assess_all fdiv c h) = Blocked \<Longrightarrow> \<exists>reason. tp_block_reason (assess_all fdiv c h) = Some reason \<and> reason \<noteq> []"
proof (induction h rule: rev_induct)
  case Nil
  then show ?case by (simp add: assess_all_def fresh_tool_def)
next
  case (snoc r h)
  then show ?case
    by (cases "tp_phase (assess_all fdiv c h) = Blocked")
      (auto simp: assess_all_snoc assess_and_transition_def Let_def block_reason_nonempty split: if_split_asm)
qed


section \<open>Witnesses\<close>

definition demo_progress :: progress_config where
  "demo_progress = \<lparr>pc_stagnation_threshold = 1, pc_warn_escalation = 1, pc_inject_assessment = True, pc_jaccard_threshold = 4/5, pc_min_words = 10,
     pc_exempt_tools = [''task''], pc_max_tracked_threads = 2\<rparr>"

definition demo_ctx :: "string \<Rightarrow> run_context" where "demo_ctx t = [(''thread_id'', PStr t), (''run_id'', PStr ''r'')]"

definition demo_result :: "string \<Rightarrow> tool_message" where
  "demo_result content = \<lparr>tm_tool_call_id = ''1'', tm_name = PStr ''search'', tm_content = PStr content, tm_status = ''error'',
     tm_additional_kwargs = [(tool_meta_key, PDict (error_meta ''exception'' (classify_error_text content)))]\<rparr>"

definition demo_events :: "progress_event list" where
  "demo_events = [Result_Seen (demo_ctx ''t'') ''search'' (demo_result ''timed out''), Hint_Queued (demo_ctx ''t'') (Some ''hint''),
     Result_Seen (demo_ctx ''u'') ''search'' (demo_result ''404''), Result_Seen (demo_ctx ''t'') ''search'' (demo_result ''connection reset'')]"

lemma demo_progress_valid: "valid_progress_config demo_progress"
  by (simp add: valid_progress_config_def demo_progress_def)

lemma demo_thread: "fst (run_ids (demo_ctx t)) = (if t = [] then ''default'' else t)"
  by (simp add: run_ids_def demo_ctx_def str_or_def get_key_def truthy_def py_str_def)

theorem progress_bounded_witness:
  "\<exists>st. efold (progress_event_step (\<lambda>a b. of_int a / of_int b) demo_progress) empty_progress demo_events = Inr st \<and> length (ps_phases st) \<le> 2"
proof -
  from progress_bounded [OF demo_progress_valid, of "\<lambda>a b. of_int a / of_int b" demo_events]
  obtain st where "efold (progress_event_step (\<lambda>a b. of_int a / of_int b) demo_progress) empty_progress demo_events = Inr st"
    "int (length (ps_phases st)) \<le> pc_max_tracked_threads demo_progress" by blast
  then show ?thesis by (intro exI [of _ st]) (simp add: demo_progress_def)
qed

lemma demo_metas:
  "message_meta (demo_result ''timed out'') = Some \<lparr>rm_status = PStr ''error'', rm_error_type = PStr ''transient'', rm_recoverable = PBool False,
     rm_next_action = PStr ''try_alternative'', rm_source = PStr ''exception''\<rparr>"
  "message_meta (demo_result ''connection reset'') = Some \<lparr>rm_status = PStr ''error'', rm_error_type = PStr ''transient'', rm_recoverable = PBool False,
     rm_next_action = PStr ''try_alternative'', rm_source = PStr ''exception''\<rparr>"
  by code_simp+


end
