(* ===== verification/Thread_Index.thy ===== *)
theory Thread_Index
  imports Py_Values
begin

text \<open>
  The secondary index by thread that the run manager and the in-memory run store each keep beside their
  dictionary of runs: \<^verbatim>\<open>_index_run\<close>, \<^verbatim>\<open>_unindex_run\<close> and the lookup by thread, the invariant that the two
  structures are in lockstep, and the interface \<open>thread_indexed\<close> from which both clients obtain that the
  indexed lookup equals a scan of all runs.
\<close>

type_synonym thread_index = "(string, (string, unit) dict) dict"

text \<open>\<^verbatim>\<open>self._runs_by_thread.setdefault(thread_id, {})[run_id] = None\<close>.\<close>

definition index_run :: "string \<Rightarrow> string \<Rightarrow> thread_index \<Rightarrow> thread_index" where
  "index_run run_id thread_id idx = dset thread_id (dset run_id () (dget_default idx thread_id [])) idx"

definition unindex_run :: "string \<Rightarrow> string \<Rightarrow> thread_index \<Rightarrow> thread_index" where
  "unindex_run run_id thread_id idx =
     (case dget idx thread_id of
        None \<Rightarrow> idx
      | Some bucket \<Rightarrow>
          let bucket' = dpop run_id bucket in
          if bucket' = [] then dpop thread_id idx else dset thread_id bucket' idx)"

text \<open>\<^verbatim>\<open>[record for run_id in run_ids if (record := self._runs.get(run_id)) is not None]\<close>.\<close>

definition thread_records :: "(string, 'r) dict \<Rightarrow> thread_index \<Rightarrow> string \<Rightarrow> 'r list" where
  "thread_records runs idx thread_id =
     List.map_filter (dget runs) (dkeys (dget_default idx thread_id []))"

section \<open>Lockstep\<close>

definition thread_runs :: "('r \<Rightarrow> string) \<Rightarrow> (string, 'r) dict \<Rightarrow> string \<Rightarrow> (string, 'r) dict" where
  "thread_runs thread_of runs thread_id = filter (\<lambda>(_, r). thread_of r = thread_id) runs"

text \<open>The bucket of a thread lists exactly its runs, in the order of the dictionary, and no bucket is empty.\<close>

definition in_lockstep :: "('r \<Rightarrow> string) \<Rightarrow> (string, 'r) dict \<Rightarrow> thread_index \<Rightarrow> bool" where
  "in_lockstep thread_of runs idx \<longleftrightarrow> wf_dict runs \<and>
     (\<forall>tid. dkeys (dget_default idx tid []) = dkeys (thread_runs thread_of runs tid)) \<and>
     (\<forall>tid. dget idx tid \<noteq> Some [])"

text \<open>What a client may do: register a run under its thread, replace a record without moving it, remove a run.\<close>

inductive index_change ::
  "('r \<Rightarrow> string) \<Rightarrow> (string, 'r) dict \<times> thread_index \<Rightarrow> (string, 'r) dict \<times> thread_index \<Rightarrow> bool"
  for thread_of where
  change_none: "index_change thread_of s s"
| change_put: "(\<And>old. dget runs rid = Some old \<Longrightarrow> thread_of old = thread_of r) \<Longrightarrow>
    index_change thread_of (runs, idx) (dset rid r runs, index_run rid (thread_of r) idx)"
| change_update: "dget runs rid = Some old \<Longrightarrow> thread_of r = thread_of old \<Longrightarrow>
    index_change thread_of (runs, idx) (dset rid r runs, idx)"
| change_remove: "dget runs rid = Some old \<Longrightarrow>
    index_change thread_of (runs, idx) (dpop rid runs, unindex_run rid (thread_of old) idx)"

lemma in_lockstep_empty: "in_lockstep thread_of [] []"
  by (simp add: in_lockstep_def dget_default_def thread_runs_def)

lemma dget_default_dset: "dget_default (dset k v d) k' w = (if k' = k then v else dget_default d k' w)"
  by (simp add: dget_default_def)

lemma dget_default_dpop: "dget_default (dpop k d) k' w = (if k' = k then w else dget_default d k' w)"
  by (simp add: dget_default_def)

lemma dset_same: "dget d k = Some v \<Longrightarrow> dset k v d = d"
  by (induction d) auto

lemma dkeys_thread_runs_dset:
  assumes "\<And>old. dget runs rid = Some old \<Longrightarrow> thread_of old = thread_of r"
  shows "dkeys (thread_runs thread_of (dset rid r runs) tid) =
    (if thread_of r = tid \<and> dget runs rid = None then dkeys (thread_runs thread_of runs tid) @ [rid]
     else dkeys (thread_runs thread_of runs tid))"
  using assms
proof (induction runs)
  case (Cons x runs)
  obtain k v where x: "x = (k, v)" by (cases x)
  show ?case
  proof (cases "k = rid")
    case True
    then show ?thesis using Cons.prems by (simp add: x thread_runs_def)
  next
    case False
    then have "\<And>old. dget runs rid = Some old \<Longrightarrow> thread_of old = thread_of r" using Cons.prems by (simp add: x)
    with Cons.IH False show ?thesis by (auto simp: x thread_runs_def)
  qed
qed (simp add: thread_runs_def)

lemma thread_runs_get:
  "wf_dict runs \<Longrightarrow> dget (thread_runs thread_of runs tid) rid =
     (case dget runs rid of None \<Rightarrow> None | Some r \<Rightarrow> if thread_of r = tid then Some r else None)"
proof (induction runs)
  case (Cons x runs)
  obtain k v where x: "x = (k, v)" by (cases x)
  have "wf_dict runs" and "rid = k \<Longrightarrow> dget runs rid = None"
    using Cons.prems by (auto simp: x wf_dict_def map_of_eq_None_iff)
  with Cons.IH show ?case by (auto simp: x thread_runs_def split: option.split)
qed (simp add: thread_runs_def)

lemma lockstep_bucket_get:
  assumes "in_lockstep thread_of runs idx"
  shows "dget (dget_default idx tid []) rid = None \<longleftrightarrow>
    (case dget runs rid of None \<Rightarrow> True | Some r \<Rightarrow> thread_of r \<noteq> tid)"
proof -
  have "dget (dget_default idx tid []) rid = None \<longleftrightarrow> rid \<notin> set (dkeys (thread_runs thread_of runs tid))"
    using assms by (metis in_lockstep_def list.set_map map_of_eq_None_iff)
  also have "\<dots> \<longleftrightarrow> dget (thread_runs thread_of runs tid) rid = None" by (simp add: map_of_eq_None_iff)
  finally show ?thesis using assms by (auto simp: in_lockstep_def thread_runs_get split: option.split)
qed

lemma filter_dkeys: "filter (\<lambda>k. k \<noteq> rid) (dkeys (filter P d)) = dkeys (filter P (filter (\<lambda>(k, _). k \<noteq> rid) d))"
  by (induction d) auto

lemma dpop_filter: "dpop rid d = filter (\<lambda>(k, _). k \<noteq> rid) d"
  by (induction d) auto

lemma lockstep_change:
  assumes "index_change thread_of s t" and "in_lockstep thread_of (fst s) (snd s)"
  shows "in_lockstep thread_of (fst t) (snd t)"
  using assms(1)
proof cases
  case change_none
  with assms(2) show ?thesis by simp
next
  case (change_put runs rid r idx)
  with assms(2) have lock: "in_lockstep thread_of runs idx" by simp
  have "dkeys (dget_default (index_run rid (thread_of r) idx) tid []) = dkeys (thread_runs thread_of (dset rid r runs) tid)" for tid
    using lock lockstep_bucket_get [OF lock, of tid rid] change_put(3)
    by (auto simp: index_run_def dget_default_dset dkeys_dset dkeys_thread_runs_dset in_lockstep_def split: option.split_asm)
  moreover have "dset rid () b \<noteq> []" for b :: "(string, unit) dict" by (cases b) auto
  ultimately show ?thesis using lock change_put by (auto simp: in_lockstep_def index_run_def)
next
  case (change_update runs rid old r idx)
  with assms(2) have lock: "in_lockstep thread_of runs idx" by simp
  have "dkeys (thread_runs thread_of (dset rid r runs) tid) = dkeys (thread_runs thread_of runs tid)" for tid
    using change_update by (subst dkeys_thread_runs_dset) auto
  with lock change_update show ?thesis by (auto simp: in_lockstep_def)
next
  case (change_remove runs rid old idx)
  with assms(2) have lock: "in_lockstep thread_of runs idx" by simp
  let ?b = "dget_default idx (thread_of old) []"
  have "dget ?b rid \<noteq> None" using lockstep_bucket_get [OF lock, of "thread_of old" rid] change_remove by simp
  then have b: "dget idx (thread_of old) = Some ?b" by (auto simp: dget_default_def split: option.split_asm)
  have keys: "dkeys (thread_runs thread_of (dpop rid runs) tid) = filter (\<lambda>k. k \<noteq> rid) (dkeys (dget_default idx tid []))" for tid
    using lock by (simp add: in_lockstep_def thread_runs_def filter_dkeys dpop_filter)
  have other: "filter (\<lambda>k. k \<noteq> rid) (dkeys (dget_default idx tid [])) = dkeys (dget_default idx tid [])"
    if "tid \<noteq> thread_of old" for tid
    using that lockstep_bucket_get [OF lock, of tid rid] change_remove(3)
    by (auto simp: filter_id_conv map_of_eq_None_iff)
  have "dkeys (dget_default (unindex_run rid (thread_of old) idx) tid []) = dkeys (thread_runs thread_of (dpop rid runs) tid)" for tid
    using keys [of tid] other [of tid]
    by (auto simp: unindex_run_def b Let_def dget_default_dset dget_default_dpop dkeys_dpop
        simp flip: dkeys_dpop split: if_split_asm)
  then show ?thesis using lock change_remove by (auto simp: in_lockstep_def unindex_run_def b Let_def)
qed

lemma map_filter_dkeys:
  assumes "wf_dict runs" and "set d \<subseteq> set runs"
  shows "List.map_filter (dget runs) (dkeys d) = dvals d"
  using assms(2)
proof (induction d)
  case (Cons x d)
  then have "dget runs (fst x) = Some (snd x)" using assms(1) by (auto simp: dget_mem_iff)
  with Cons show ?case by (simp add: List.map_filter_simps)
qed (simp add: List.map_filter_simps)

text \<open>The lookup by index is the scan of all runs.\<close>

lemma thread_records_scan:
  assumes "in_lockstep thread_of runs idx"
  shows "thread_records runs idx tid = filter (\<lambda>r. thread_of r = tid) (dvals runs)"
proof -
  have "thread_records runs idx tid = List.map_filter (dget runs) (dkeys (thread_runs thread_of runs tid))"
    using assms by (simp add: thread_records_def in_lockstep_def)
  also have "\<dots> = dvals (thread_runs thread_of runs tid)"
    using assms by (intro map_filter_dkeys) (auto simp: in_lockstep_def thread_runs_def)
  also have "\<dots> = filter (\<lambda>r. thread_of r = tid) (dvals runs)"
    by (simp add: thread_runs_def filter_map comp_def case_prod_unfold)
  finally show ?thesis .
qed

section \<open>The interface\<close>

text \<open>A component whose steps change its runs and its index together.\<close>

locale thread_indexed =
  fixes step :: "'s \<Rightarrow> 's \<Rightarrow> bool"
    and runs_of :: "'s \<Rightarrow> (string, 'r) dict"
    and index_of :: "'s \<Rightarrow> thread_index"
    and thread_of :: "'r \<Rightarrow> string"
  assumes changes_together:
    "step s t \<Longrightarrow> (index_change thread_of)\<^sup>*\<^sup>* (runs_of s, index_of s) (runs_of t, index_of t)"
begin

definition lockstep :: "'s \<Rightarrow> bool" where
  "lockstep s = in_lockstep thread_of (runs_of s) (index_of s)"

lemma lockstep_step:
  assumes "lockstep s" and "step s t"
  shows "lockstep t"
proof -
  have "in_lockstep thread_of (fst u) (snd u) \<Longrightarrow> in_lockstep thread_of (fst v) (snd v)"
    if "(index_change thread_of)\<^sup>*\<^sup>* u v" for u v
    using that by (induction rule: rtranclp_induct) (auto intro: lockstep_change)
  from this [OF changes_together [OF assms(2)]] assms(1) show ?thesis by (simp add: lockstep_def)
qed

lemma records_scan:
  "lockstep s \<Longrightarrow> thread_records (runs_of s) (index_of s) tid = filter (\<lambda>r. thread_of r = tid) (dvals (runs_of s))"
  unfolding lockstep_def by (rule thread_records_scan)

end

sublocale thread_indexed \<subseteq> lock: invariant_system step lockstep
  by unfold_locales (rule lockstep_step)

end
