(* ===== verification/Run_Store.thy ===== *)
theory Run_Store
  imports Thread_Index
begin

text \<open>
  Persistence of runs: the rows and the interface \<^verbatim>\<open>RunStore\<close> (\<^verbatim>\<open>runs/store/base.py\<close>) and its in-memory
  implementation \<^verbatim>\<open>MemoryRunStore\<close> (\<^verbatim>\<open>runs/store/memory.py\<close>). The time \<^verbatim>\<open>datetime.now(UTC).isoformat()\<close> is the
  argument \<open>now\<close>. ISO timestamps are strings and compared as strings.
\<close>

section \<open>Rows\<close>

text \<open>The accounting fields, which are absent from a row until a progress or completion update sets them; as an
  argument, \<open>None\<close> is a value not given.\<close>

record run_usage =
  us_total_input_tokens :: "int option"
  us_total_output_tokens :: "int option"
  us_total_tokens :: "int option"
  us_llm_call_count :: "int option"
  us_lead_agent_tokens :: "int option"
  us_subagent_tokens :: "int option"
  us_middleware_tokens :: "int option"
  us_token_usage_by_model :: "(string, (string, int) dict) dict option"
  us_message_count :: "int option"
  us_last_ai_message :: "string option"
  us_first_human_message :: "string option"

definition no_usage :: run_usage where
  "no_usage = \<lparr>us_total_input_tokens = None, us_total_output_tokens = None, us_total_tokens = None,
     us_llm_call_count = None, us_lead_agent_tokens = None, us_subagent_tokens = None, us_middleware_tokens = None,
     us_token_usage_by_model = None, us_message_count = None, us_last_ai_message = None, us_first_human_message = None\<rparr>"

text \<open>\<^verbatim>\<open>for key, value in kwargs.items(): if value is not None: row[key] = value\<close>.\<close>

definition given :: "'a option \<Rightarrow> 'a option \<Rightarrow> 'a option" where
  "given new old = (case new of None \<Rightarrow> old | Some v \<Rightarrow> Some v)"

definition merge_usage :: "run_usage \<Rightarrow> run_usage \<Rightarrow> run_usage" where
  "merge_usage new old =
     \<lparr>us_total_input_tokens = given (us_total_input_tokens new) (us_total_input_tokens old),
      us_total_output_tokens = given (us_total_output_tokens new) (us_total_output_tokens old),
      us_total_tokens = given (us_total_tokens new) (us_total_tokens old),
      us_llm_call_count = given (us_llm_call_count new) (us_llm_call_count old),
      us_lead_agent_tokens = given (us_lead_agent_tokens new) (us_lead_agent_tokens old),
      us_subagent_tokens = given (us_subagent_tokens new) (us_subagent_tokens old),
      us_middleware_tokens = given (us_middleware_tokens new) (us_middleware_tokens old),
      us_token_usage_by_model = given (us_token_usage_by_model new) (us_token_usage_by_model old),
      us_message_count = given (us_message_count new) (us_message_count old),
      us_last_ai_message = given (us_last_ai_message new) (us_last_ai_message old),
      us_first_human_message = given (us_first_human_message new) (us_first_human_message old)\<rparr>"

record put_payload =
  pp_thread_id :: string
  pp_assistant_id :: "string option"
  pp_user_id :: "string option"
  pp_model_name :: "string option"
  pp_status :: string
  pp_multitask_strategy :: string
  pp_metadata :: "(string, pyval) dict"
  pp_kwargs :: "(string, pyval) dict"
  pp_error :: "string option"
  pp_created_at :: "string option"

record run_row =
  rr_run_id :: string
  rr_thread_id :: string
  rr_assistant_id :: "string option"
  rr_user_id :: "string option"
  rr_model_name :: "string option"
  rr_status :: string
  rr_multitask_strategy :: string
  rr_metadata :: "(string, pyval) dict"
  rr_kwargs :: "(string, pyval) dict"
  rr_error :: "string option"
  rr_created_at :: string
  rr_updated_at :: string
  rr_usage :: run_usage

section \<open>The in-memory store\<close>

record memory_store =
  ms_runs :: "(string, run_row) dict"
  ms_runs_by_thread :: thread_index

definition empty_store :: memory_store where
  "empty_store = \<lparr>ms_runs = [], ms_runs_by_thread = []\<rparr>"

definition str_default :: "string option \<Rightarrow> string \<Rightarrow> string" where
  "str_default s d = (case s of None \<Rightarrow> d | Some t \<Rightarrow> if t = '''' then d else t)"

definition store_put :: "string \<Rightarrow> string \<Rightarrow> put_payload \<Rightarrow> memory_store \<Rightarrow> memory_store" where
  "store_put now run_id p st =
     st\<lparr>ms_runs := dset run_id
          \<lparr>rr_run_id = run_id, rr_thread_id = pp_thread_id p, rr_assistant_id = pp_assistant_id p,
           rr_user_id = pp_user_id p, rr_model_name = pp_model_name p, rr_status = pp_status p,
           rr_multitask_strategy = pp_multitask_strategy p, rr_metadata = pp_metadata p, rr_kwargs = pp_kwargs p,
           rr_error = pp_error p, rr_created_at = str_default (pp_created_at p) now, rr_updated_at = now,
           rr_usage = no_usage\<rparr> (ms_runs st),
        ms_runs_by_thread := index_run run_id (pp_thread_id p) (ms_runs_by_thread st)\<rparr>"

definition user_matches :: "string option \<Rightarrow> run_row \<Rightarrow> bool" where
  "user_matches user_id row \<longleftrightarrow> user_id = None \<or> rr_user_id row = user_id"

definition store_get :: "string \<Rightarrow> string option \<Rightarrow> memory_store \<Rightarrow> run_row option" where
  "store_get run_id user_id st =
     (case dget (ms_runs st) run_id of
        None \<Rightarrow> None
      | Some run \<Rightarrow> if user_id \<noteq> None \<and> rr_user_id run \<noteq> user_id then None else Some run)"

definition store_list_by_thread ::
  "string \<Rightarrow> string option \<Rightarrow> int \<Rightarrow> memory_store \<Rightarrow> run_row list" where
  "store_list_by_thread thread_id user_id limit st =
     slice_to limit (sort_desc rr_created_at
       (filter (user_matches user_id) (thread_records (ms_runs st) (ms_runs_by_thread st) thread_id)))"

text \<open>An update in place of a row that is there; the flag is whether there was one.\<close>

definition update_row ::
  "string \<Rightarrow> (run_row \<Rightarrow> run_row) \<Rightarrow> memory_store \<Rightarrow> bool \<times> memory_store" where
  "update_row run_id f st =
     (case dget (ms_runs st) run_id of
        None \<Rightarrow> (False, st)
      | Some row \<Rightarrow> (True, st\<lparr>ms_runs := dset run_id (f row) (ms_runs st)\<rparr>))"

definition store_update_status ::
  "string \<Rightarrow> string \<Rightarrow> string \<Rightarrow> string option \<Rightarrow> memory_store \<Rightarrow> bool \<times> memory_store" where
  "store_update_status now run_id status error st =
     update_row run_id (\<lambda>row. row\<lparr>rr_status := status, rr_error := given error (rr_error row), rr_updated_at := now\<rparr>) st"

definition store_update_model_name ::
  "string \<Rightarrow> string \<Rightarrow> string option \<Rightarrow> memory_store \<Rightarrow> memory_store" where
  "store_update_model_name now run_id model_name st =
     snd (update_row run_id (\<lambda>row. row\<lparr>rr_model_name := model_name, rr_updated_at := now\<rparr>) st)"

definition store_delete :: "string \<Rightarrow> memory_store \<Rightarrow> memory_store" where
  "store_delete run_id st =
     (case dget (ms_runs st) run_id of
        None \<Rightarrow> st
      | Some run \<Rightarrow> st\<lparr>ms_runs := dpop run_id (ms_runs st),
          ms_runs_by_thread := unindex_run run_id (rr_thread_id run) (ms_runs_by_thread st)\<rparr>)"

definition store_update_run_completion ::
  "string \<Rightarrow> string \<Rightarrow> string \<Rightarrow> run_usage \<Rightarrow> string option \<Rightarrow> memory_store \<Rightarrow> bool \<times> memory_store" where
  "store_update_run_completion now run_id status usage error st =
     update_row run_id (\<lambda>row. row\<lparr>rr_status := status, rr_usage := merge_usage usage (rr_usage row),
       rr_error := given error (rr_error row), rr_updated_at := now\<rparr>) st"

definition store_update_run_progress :: "string \<Rightarrow> string \<Rightarrow> run_usage \<Rightarrow> memory_store \<Rightarrow> memory_store" where
  "store_update_run_progress now run_id usage st =
     (case dget (ms_runs st) run_id of
        None \<Rightarrow> st
      | Some row \<Rightarrow>
          if rr_status row = ''running''
          then snd (update_row run_id (\<lambda>row. row\<lparr>rr_usage := merge_usage usage (rr_usage row), rr_updated_at := now\<rparr>) st)
          else st)"

definition store_list_status :: "string list \<Rightarrow> string \<Rightarrow> string option \<Rightarrow> memory_store \<Rightarrow> run_row list" where
  "store_list_status statuses now before st =
     sort_key rr_created_at (filter (\<lambda>r. rr_status r \<in> set statuses \<and> rr_created_at r \<le> str_default before now)
       (dvals (ms_runs st)))"

definition store_list_pending :: "string \<Rightarrow> string option \<Rightarrow> memory_store \<Rightarrow> run_row list" where
  "store_list_pending = store_list_status [''pending'']"

definition store_list_inflight :: "string \<Rightarrow> string option \<Rightarrow> memory_store \<Rightarrow> run_row list" where
  "store_list_inflight = store_list_status [''pending'', ''running'']"

section \<open>Token accounting\<close>

record token_report =
  tk_total_tokens :: int
  tk_total_input_tokens :: int
  tk_total_output_tokens :: int
  tk_total_runs :: nat
  tk_by_model :: "(string, int \<times> nat) dict"
  tk_lead_agent :: int
  tk_subagent :: int
  tk_middleware :: int

definition int_default :: "int option \<Rightarrow> int" where
  "int_default x = (case x of None \<Rightarrow> 0 | Some i \<Rightarrow> i)"

text \<open>\<^verbatim>\<open>entry = by_model.setdefault(model, ...); entry["tokens"] += n; entry["runs"] += 1\<close>.\<close>

definition add_tokens :: "string \<Rightarrow> int \<Rightarrow> (string, int \<times> nat) dict \<Rightarrow> (string, int \<times> nat) dict" where
  "add_tokens model n by_model =
     (let (tokens, runs) = dget_default by_model model (0, 0) in dset model (tokens + n, Suc runs) by_model)"

definition run_by_model :: "run_row \<Rightarrow> (string \<times> int) list" where
  "run_by_model r =
     (case us_token_usage_by_model (rr_usage r) of
        Some (u # us) \<Rightarrow> map (\<lambda>(model, usage). (model, dget_default usage ''total_tokens'' 0)) (u # us)
      | _ \<Rightarrow> [(str_default (rr_model_name r) ''unknown'', int_default (us_total_tokens (rr_usage r)))])"

definition aggregate_tokens_by_thread :: "string \<Rightarrow> bool \<Rightarrow> memory_store \<Rightarrow> token_report" where
  "aggregate_tokens_by_thread thread_id include_active st =
     (let statuses = (if include_active then [''success'', ''error'', ''running''] else [''success'', ''error'']);
          completed = filter (\<lambda>r. rr_status r \<in> set statuses) (thread_records (ms_runs st) (ms_runs_by_thread st) thread_id);
          total = (\<lambda>f. sum_list (map (\<lambda>r. int_default (f (rr_usage r))) completed))
      in \<lparr>tk_total_tokens = total us_total_tokens, tk_total_input_tokens = total us_total_input_tokens,
          tk_total_output_tokens = total us_total_output_tokens, tk_total_runs = length completed,
          tk_by_model = fold (\<lambda>(model, n). add_tokens model n) (concat (map run_by_model completed)) [],
          tk_lead_agent = total us_lead_agent_tokens, tk_subagent = total us_subagent_tokens,
          tk_middleware = total us_middleware_tokens\<rparr>)"

section \<open>Lockstep of the store\<close>

text \<open>The writes of the store; a run is put again only under its own thread.\<close>

inductive store_step :: "memory_store \<Rightarrow> memory_store \<Rightarrow> bool" where
  st_put: "(\<And>row. dget (ms_runs st) run_id = Some row \<Longrightarrow> rr_thread_id row = pp_thread_id p) \<Longrightarrow>
    store_step st (store_put now run_id p st)"
| st_status: "store_step st (snd (store_update_status now run_id status error st))"
| st_model: "store_step st (store_update_model_name now run_id model_name st)"
| st_delete: "store_step st (store_delete run_id st)"
| st_completion: "store_step st (snd (store_update_run_completion now run_id status usage error st))"
| st_progress: "store_step st (store_update_run_progress now run_id usage st)"

lemma update_row_change:
  assumes "\<And>row. rr_thread_id (f row) = rr_thread_id row"
  shows "index_change rr_thread_id (ms_runs st, ms_runs_by_thread st)
    (ms_runs (snd (update_row run_id f st)), ms_runs_by_thread (snd (update_row run_id f st)))"
  using assms by (auto simp: update_row_def split: option.split intro: index_change.intros)

lemma store_step_change:
  "store_step st st' \<Longrightarrow> index_change rr_thread_id (ms_runs st, ms_runs_by_thread st) (ms_runs st', ms_runs_by_thread st')"
proof (induction rule: store_step.induct)
  case (st_put st run_id p now)
  then show ?case
    using change_put [of "ms_runs st" run_id rr_thread_id "\<lparr>rr_run_id = run_id, rr_thread_id = pp_thread_id p, rr_assistant_id = pp_assistant_id p,
           rr_user_id = pp_user_id p, rr_model_name = pp_model_name p, rr_status = pp_status p,
           rr_multitask_strategy = pp_multitask_strategy p, rr_metadata = pp_metadata p, rr_kwargs = pp_kwargs p,
           rr_error = pp_error p, rr_created_at = str_default (pp_created_at p) now, rr_updated_at = now,
           rr_usage = no_usage\<rparr>" "ms_runs_by_thread st"]
    by (simp add: store_put_def)
next
  case (st_delete st run_id)
  then show ?case by (auto simp: store_delete_def split: option.split intro: index_change.intros)
next
  case (st_progress st now run_id usage)
  show ?case
    using update_row_change [of "\<lambda>row. row\<lparr>rr_usage := merge_usage usage (rr_usage row), rr_updated_at := now\<rparr>" st run_id]
    by (auto simp: store_update_run_progress_def split: option.split intro: index_change.intros)
qed (auto simp: store_update_status_def store_update_model_name_def store_update_run_completion_def intro!: update_row_change)

interpretation mem: thread_indexed store_step ms_runs ms_runs_by_thread rr_thread_id
  by unfold_locales (blast intro: store_step_change)

lemma mem_lockstep:
  assumes "store_step\<^sup>*\<^sup>* empty_store st"
  shows "mem.lockstep st"
  using assms
proof (rule mem.lock.inv_steps)
  show "mem.lockstep empty_store"
    unfolding mem.lockstep_def empty_store_def memory_store.select_convs by (rule in_lockstep_empty)
qed

section \<open>Conservation of tokens\<close>

lemma dset_sum:
  "wf_dict d \<Longrightarrow> sum_list (map (\<lambda>(_, t, _). t) (dset k (dget_default (map (\<lambda>(m, t, _). (m, t)) d) k 0 + n, c) d)) =
     sum_list (map (\<lambda>(_, t, _). t) d) + (n::int)"
  by (induction d) (auto simp: dget_default_def wf_dict_def split: option.split dest: map_of_SomeD)

lemma add_tokens_sum:
  assumes "wf_dict d"
  shows "sum_list (map (\<lambda>(_, t, _). t) (add_tokens model n d)) = sum_list (map (\<lambda>(_, t, _). t) d) + n"
    and "wf_dict (add_tokens model n d)"
proof -
  have "fst (dget_default d model (0, 0)) = dget_default (map (\<lambda>(m, t, _). (m, t)) d) model 0"
    by (induction d) (auto simp: dget_default_def)
  then show "sum_list (map (\<lambda>(_, t, _). t) (add_tokens model n d)) = sum_list (map (\<lambda>(_, t, _). t) d) + n"
    using dset_sum [OF assms, of model n] by (simp add: add_tokens_def case_prod_unfold Let_def)
  show "wf_dict (add_tokens model n d)" using assms by (simp add: add_tokens_def case_prod_unfold Let_def)
qed

lemma fold_add_tokens_sum:
  "wf_dict d \<Longrightarrow> sum_list (map (\<lambda>(_, t, _). t) (fold (\<lambda>(model, n). add_tokens model n) xs d)) =
     sum_list (map (\<lambda>(_, t, _). t) d) + sum_list (map snd xs)"
proof (induction xs arbitrary: d)
  case (Cons x xs)
  then show ?case by (cases x) (simp add: add_tokens_sum)
qed simp

section \<open>Properties\<close>

definition demo_payload :: "string \<Rightarrow> string \<Rightarrow> put_payload" where
  "demo_payload thread created = \<lparr>pp_thread_id = thread, pp_assistant_id = None, pp_user_id = Some ''ana'',
     pp_model_name = Some ''m'', pp_status = ''success'', pp_multitask_strategy = ''reject'', pp_metadata = [],
     pp_kwargs = [], pp_error = None, pp_created_at = Some created\<rparr>"

definition demo_store :: memory_store where
  "demo_store = store_put ''3'' ''r2'' (demo_payload ''t1'' ''2'') (store_put ''3'' ''r1'' (demo_payload ''t1'' ''1'') empty_store)"

lemma demo_store_reachable: "store_step\<^sup>*\<^sup>* empty_store demo_store"
proof -
  have "store_step empty_store (store_put ''3'' ''r1'' (demo_payload ''t1'' ''1'') empty_store)"
    by (rule st_put) (simp add: empty_store_def)
  moreover have "store_step (store_put ''3'' ''r1'' (demo_payload ''t1'' ''1'') empty_store) demo_store"
    unfolding demo_store_def by (rule st_put) (simp add: empty_store_def store_put_def)
  ultimately show ?thesis by (meson r_into_rtranclp rtranclp.rtrancl_into_rtrancl)
qed

text \<open>The indexed listing of the in-memory store is the specification: after any writes,
  \<^verbatim>\<open>list_by_thread\<close> returns exactly the rows of the thread the user may see, newest first, cut to the
  limit, as a scan of the whole store would.\<close>

theorem store_listing_is_scan:
  assumes "store_step\<^sup>*\<^sup>* empty_store st"
  shows "store_list_by_thread tid user limit st =
    slice_to limit (sort_desc rr_created_at
      (filter (\<lambda>r. rr_thread_id r = tid \<and> user_matches user r) (dvals (ms_runs st))))"
proof -
  have "filter (user_matches user) (filter (\<lambda>r. rr_thread_id r = tid) (dvals (ms_runs st))) =
      filter (\<lambda>r. rr_thread_id r = tid \<and> user_matches user r) (dvals (ms_runs st))"
    by (simp add: conj_commute)
  then show ?thesis
    using mem.records_scan [OF mem_lockstep [OF assms]] by (simp add: store_list_by_thread_def)
qed

theorem store_listing_is_scan_witness:
  "map rr_run_id (store_list_by_thread ''t1'' (Some ''ana'') 1 demo_store) = [''r2'']"
proof -
  have "map rr_run_id (slice_to 1 (sort_desc rr_created_at
      (filter (\<lambda>r. rr_thread_id r = ''t1'' \<and> user_matches (Some ''ana'') r) (dvals (ms_runs demo_store))))) = [''r2'']"
    by code_simp
  then show ?thesis unfolding store_listing_is_scan [OF demo_store_reachable] .
qed

text \<open>The token report of a thread accounts for every run once: it covers exactly the finished (or active)
  rows of the thread, and the tokens it attributes to models add up to those the rows report.\<close>

theorem token_report_conserves:
  assumes "store_step\<^sup>*\<^sup>* empty_store st"
  shows "let completed = filter (\<lambda>r. rr_thread_id r = tid \<and>
        rr_status r \<in> set (if active then [''success'', ''error'', ''running''] else [''success'', ''error''])) (dvals (ms_runs st));
      report = aggregate_tokens_by_thread tid active st
    in tk_total_runs report = length completed \<and>
       tk_total_tokens report = (\<Sum>r\<leftarrow>completed. int_default (us_total_tokens (rr_usage r))) \<and>
       (\<Sum>(_, tokens, _)\<leftarrow>tk_by_model report. tokens) = (\<Sum>r\<leftarrow>completed. \<Sum>(_, n)\<leftarrow>run_by_model r. n)"
proof -
  have scan: "filter (\<lambda>r. rr_status r \<in> S) (thread_records (ms_runs st) (ms_runs_by_thread st) tid) =
      filter (\<lambda>r. rr_thread_id r = tid \<and> rr_status r \<in> S) (dvals (ms_runs st))" for S
    using mem.records_scan [OF mem_lockstep [OF assms], of tid] by (simp add: conj_commute)
  have nested: "sum_list (map snd (concat (map run_by_model rs))) = (\<Sum>r\<leftarrow>rs. \<Sum>(_, n)\<leftarrow>run_by_model r. n)" for rs
    by (induction rs) (simp_all add: case_prod_unfold)
  show ?thesis
    unfolding aggregate_tokens_by_thread_def Let_def scan token_report.select_convs
    using fold_add_tokens_sum [OF wf_dict_Nil] by (simp only: nested list.map sum_list.Nil add_0)
qed

theorem token_report_conserves_witness:
  "tk_total_runs (aggregate_tokens_by_thread ''t1'' False demo_store) = 2"
proof -
  have "length (filter (\<lambda>r. rr_thread_id r = ''t1'' \<and>
      rr_status r \<in> set (if False then [''success'', ''error'', ''running''] else [''success'', ''error''])) (dvals (ms_runs demo_store))) = 2"
    by code_simp
  with token_report_conserves [OF demo_store_reachable, of "''t1''" False] show ?thesis unfolding Let_def by metis
qed

text \<open>Putting a run again under another thread leaves it listed under both: \<^verbatim>\<open>put\<close> does not remove the run
  from the bucket of its former thread, so listing that thread returns a row of the new one.\<close>

theorem moved_run_listed_twice:
  "\<exists>row. store_list_by_thread ''t1'' None 10 (store_put ''4'' ''r1'' (demo_payload ''t2'' ''1'') demo_store) = [the (dget (ms_runs demo_store) ''r2''), row] \<and>
     store_list_by_thread ''t2'' None 10 (store_put ''4'' ''r1'' (demo_payload ''t2'' ''1'') demo_store) = [row] \<and>
     rr_run_id row = ''r1'' \<and> rr_thread_id row = ''t2''"
  by (rule exI [of _ "the (dget (ms_runs (store_put ''4'' ''r1'' (demo_payload ''t2'' ''1'') demo_store)) ''r1'')"]) code_simp

end
