(* ===== verification/Run_Manager.thy ===== *)
theory Run_Manager
  imports Run_Store
begin

text \<open>
  The run registry, \<^verbatim>\<open>runs/manager.py\<close>: runs in memory with their thread index, and an optional \<^verbatim>\<open>RunStore\<close>
  behind it whose operations may fail. The store is a record of operations on a state of its own, so that
  a failure may depend on everything that happened before. Methods are sequential: what they do under the
  lock and the store calls that follow it are one step. Log messages are not modelled; \<^verbatim>\<open>now_iso()\<close> and
  \<^verbatim>\<open>uuid.uuid4()\<close> are the arguments \<open>now\<close> and \<open>run_id\<close>.
\<close>

section \<open>Records\<close>

datatype run_status = Pending | Running | Success | Error | Timeout | Interrupted

fun status_value :: "run_status \<Rightarrow> string" where
  "status_value Pending = ''pending''"
| "status_value Running = ''running''"
| "status_value Success = ''success''"
| "status_value Error = ''error''"
| "status_value Timeout = ''timeout''"
| "status_value Interrupted = ''interrupted''"

text \<open>\<^verbatim>\<open>RunStatus(value)\<close>, \<open>None\<close> for \<^verbatim>\<open>ValueError\<close>.\<close>

definition parse_status :: "string \<Rightarrow> run_status option" where
  "parse_status s = find (\<lambda>x. status_value x = s) [Pending, Running, Success, Error, Timeout, Interrupted]"

datatype disconnect_mode = Cancel | Continue

text \<open>The background task of a run: still active, with or without a request to cancel it, or done, cancelled or not.\<close>

datatype task = Active bool | Done bool

record run_record =
  rec_run_id :: string
  rec_thread_id :: string
  rec_assistant_id :: "string option"
  rec_status :: run_status
  rec_on_disconnect :: disconnect_mode
  rec_multitask_strategy :: string
  rec_metadata :: "(string, pyval) dict"
  rec_kwargs :: "(string, pyval) dict"
  rec_user_id :: "string option"
  rec_created_at :: string
  rec_updated_at :: string
  rec_task :: "task option"
  rec_abort_event :: bool
  rec_abort_action :: string
  rec_error :: "string option"
  rec_model_name :: "string option"
  rec_store_only :: bool
  rec_usage :: run_usage
  rec_finalizing :: bool

text \<open>The accounting fields of a fresh record: zero, an empty breakdown, no messages.\<close>

definition zero_usage :: run_usage where
  "zero_usage = \<lparr>us_total_input_tokens = Some 0, us_total_output_tokens = Some 0, us_total_tokens = Some 0,
     us_llm_call_count = Some 0, us_lead_agent_tokens = Some 0, us_subagent_tokens = Some 0, us_middleware_tokens = Some 0,
     us_token_usage_by_model = Some [], us_message_count = Some 0, us_last_ai_message = None, us_first_human_message = None\<rparr>"

definition new_record ::
  "string \<Rightarrow> string \<Rightarrow> string \<Rightarrow> string option \<Rightarrow> disconnect_mode \<Rightarrow> (string, pyval) dict \<Rightarrow> (string, pyval) dict
     \<Rightarrow> string \<Rightarrow> string option \<Rightarrow> string option \<Rightarrow> run_record" where
  "new_record now run_id thread_id assistant_id on_disconnect metadata kwargs strategy user_id model_name =
     \<lparr>rec_run_id = run_id, rec_thread_id = thread_id, rec_assistant_id = assistant_id, rec_status = Pending,
      rec_on_disconnect = on_disconnect, rec_multitask_strategy = strategy, rec_metadata = metadata,
      rec_kwargs = kwargs, rec_user_id = user_id, rec_created_at = now, rec_updated_at = now, rec_task = None,
      rec_abort_event = False, rec_abort_action = ''interrupt'', rec_error = None, rec_model_name = model_name,
      rec_store_only = False, rec_usage = zero_usage, rec_finalizing = False\<rparr>"

definition task_active :: "run_record \<Rightarrow> bool" where
  "task_active r \<longleftrightarrow> (case rec_task r of Some (Active _) \<Rightarrow> True | _ \<Rightarrow> False)"

definition cancel_task :: "run_record \<Rightarrow> run_record" where
  "cancel_task r = r\<lparr>rec_task := (case rec_task r of Some (Active _) \<Rightarrow> Some (Active True) | t \<Rightarrow> t)\<rparr>"

definition is_active :: "run_record \<Rightarrow> bool" where
  "is_active r \<longleftrightarrow> rec_status r = Pending \<or> rec_status r = Running"

section \<open>Retries\<close>

text \<open>An exception: its text, the SQLite error code when it is a SQLite error, and the exceptions it is
  chained to (\<^verbatim>\<open>orig\<close>, \<^verbatim>\<open>__cause__\<close>, \<^verbatim>\<open>__context__\<close>, those that are there). The chains form a finite tree: the set
  \<^verbatim>\<open>seen\<close> of the code only avoids looking twice at an exception shared by two chains.\<close>

datatype py_exception =
  PyException (px_message: string) (px_sqlite_code: "int option") (px_chain: "py_exception list")

definition retryable_messages :: "string list" where
  "retryable_messages = [''database is locked'', ''database table is locked'', ''database is busy'']"

text \<open>\<^verbatim>\<open>SQLITE_BUSY\<close> and \<^verbatim>\<open>SQLITE_LOCKED\<close>.\<close>

definition retryable_codes :: "int list" where
  "retryable_codes = [5, 6]"

definition retryable_here :: "py_exception \<Rightarrow> bool" where
  "retryable_here e \<longleftrightarrow>
     list_ex (\<lambda>fragment. str_contains fragment (str_lower (px_message e))) retryable_messages \<or>
     (case px_sqlite_code e of None \<Rightarrow> False | Some c \<Rightarrow> c \<in> set retryable_codes)"

text \<open>The work list of the search; the last exception appended is looked at first.\<close>

function retryable_search :: "py_exception list \<Rightarrow> bool" where
  "retryable_search pending =
     (case rev pending of
        [] \<Rightarrow> False
      | current # rest \<Rightarrow> retryable_here current \<or> retryable_search (rev rest @ px_chain current))"
  by pat_completeness auto
termination
proof (relation "measure (\<lambda>pending. sum_list (map (\<lambda>e. size e + 1) pending))", simp)
  fix pending :: "py_exception list" and current rest
  assume "rev pending = current # rest"
  then have p: "pending = rev rest @ [current]" by simp
  have chain: "sum_list (map (\<lambda>e. size e + 1) xs) \<le> size_list size xs" for xs :: "py_exception list"
    by (induction xs) auto
  have "size_list size (px_chain current) < size current + 1" by (cases current) simp
  with chain [of "px_chain current"] have "sum_list (map (\<lambda>e. size e + 1) (px_chain current)) < size current + 1"
    by (rule le_less_trans)
  then show "(rev rest @ px_chain current, pending) \<in> measure (\<lambda>pending. sum_list (map (\<lambda>e. size e + 1) pending))"
    by (simp add: p)
qed

declare retryable_search.simps [simp del]

definition is_retryable_persistence_error :: "py_exception \<Rightarrow> bool" where
  "is_retryable_persistence_error e = retryable_search [e]"

record retry_policy =
  po_max_attempts :: int
  po_initial_delay :: rat
  po_max_delay :: rat
  po_backoff_factor :: rat

definition default_policy :: retry_policy where
  "default_policy = \<lparr>po_max_attempts = 5, po_initial_delay = 1 / 20, po_max_delay = 1, po_backoff_factor = 2\<rparr>"

definition next_delay :: "retry_policy \<Rightarrow> rat \<Rightarrow> rat" where
  "next_delay policy delay =
     min (po_max_delay policy) (if delay \<noteq> 0 then delay * po_backoff_factor policy else po_initial_delay policy)"

type_synonym ('st, 'a) store_call = "'st \<Rightarrow> (py_exception + 'a) \<times> 'st"

text \<open>The loop, with the delays slept.\<close>

function retry_loop ::
  "retry_policy \<Rightarrow> int \<Rightarrow> rat \<Rightarrow> ('st, 'a) store_call \<Rightarrow> 'st \<Rightarrow> (py_exception + 'a) \<times> rat list \<times> 'st" where
  "retry_loop policy attempt delay operation st =
     (case operation st of
        (Inr x, st') \<Rightarrow> (Inr x, [], st')
      | (Inl e, st') \<Rightarrow>
          if attempt \<ge> po_max_attempts policy \<or> \<not> is_retryable_persistence_error e then (Inl e, [], st')
          else let (r, delays, st'') = retry_loop policy (attempt + 1) (next_delay policy delay) operation st'
            in (r, (if delay > 0 then delay # delays else delays), st''))"
  by pat_completeness auto
termination
  by (relation "measure (\<lambda>(policy, attempt, _). nat (po_max_attempts policy - attempt))") auto

declare retry_loop.simps [simp del]

definition call_store_with_retry ::
  "retry_policy \<Rightarrow> ('st, 'a) store_call \<Rightarrow> 'st \<Rightarrow> (py_exception + 'a) \<times> 'st" where
  "call_store_with_retry policy operation st =
     (let (r, _, st') = retry_loop policy 1 (po_initial_delay policy) operation st in (r, st'))"

section \<open>The store behind the registry\<close>

text \<open>An update returns whether it found a row, or \<open>None\<close> when the store cannot tell.\<close>

record 'st store_ops =
  so_put :: "string \<Rightarrow> put_payload \<Rightarrow> ('st, unit) store_call"
  so_get :: "string \<Rightarrow> string option \<Rightarrow> ('st, run_row option) store_call"
  so_list_by_thread :: "string \<Rightarrow> string option \<Rightarrow> int \<Rightarrow> ('st, run_row list) store_call"
  so_update_status :: "string \<Rightarrow> string \<Rightarrow> string option \<Rightarrow> ('st, bool option) store_call"
  so_update_model_name :: "string \<Rightarrow> string option \<Rightarrow> ('st, unit) store_call"
  so_update_run_completion :: "string \<Rightarrow> string \<Rightarrow> run_usage \<Rightarrow> string option \<Rightarrow> ('st, bool option) store_call"
  so_update_run_progress :: "string \<Rightarrow> run_usage \<Rightarrow> ('st, unit) store_call"
  so_list_inflight :: "string option \<Rightarrow> ('st, run_row list) store_call"

text \<open>The in-memory store behind this interface; it never fails.\<close>

definition memory_ops :: "string \<Rightarrow> memory_store store_ops" where
  "memory_ops now =
     \<lparr>so_put = (\<lambda>run_id p st. (Inr (), store_put now run_id p st)),
      so_get = (\<lambda>run_id user_id st. (Inr (store_get run_id user_id st), st)),
      so_list_by_thread = (\<lambda>thread_id user_id limit st. (Inr (store_list_by_thread thread_id user_id limit st), st)),
      so_update_status = (\<lambda>run_id status error st.
        let (found, st') = store_update_status now run_id status error st in (Inr (Some found), st')),
      so_update_model_name = (\<lambda>run_id model_name st. (Inr (), store_update_model_name now run_id model_name st)),
      so_update_run_completion = (\<lambda>run_id status usage error st.
        let (found, st') = store_update_run_completion now run_id status usage error st in (Inr (Some found), st')),
      so_update_run_progress = (\<lambda>run_id usage st. (Inr (), store_update_run_progress now run_id usage st)),
      so_list_inflight = (\<lambda>before st. (Inr (store_list_inflight now before st), st))\<rparr>"

record 'st run_manager =
  rm_runs :: "(string, run_record) dict"
  rm_runs_by_thread :: thread_index
  rm_store :: "'st option"
  rm_policy :: retry_policy

definition store_put_payload :: "run_record \<Rightarrow> string option \<Rightarrow> put_payload" where
  "store_put_payload r error =
     \<lparr>pp_thread_id = rec_thread_id r, pp_assistant_id = rec_assistant_id r, pp_user_id = rec_user_id r,
      pp_model_name = rec_model_name r, pp_status = status_value (rec_status r),
      pp_multitask_strategy = rec_multitask_strategy r, pp_metadata = rec_metadata r, pp_kwargs = rec_kwargs r,
      pp_error = given error (rec_error r), pp_created_at = Some (rec_created_at r)\<rparr>"

text \<open>A store call of the registry: \<open>None\<close> without a store.\<close>

definition with_store ::
  "('st, 'a) store_call \<Rightarrow> 'st run_manager \<Rightarrow> (py_exception + 'a) option \<times> 'st run_manager" where
  "with_store operation mg =
     (case rm_store mg of
        None \<Rightarrow> (None, mg)
      | Some st \<Rightarrow> (let (r, st') = call_store_with_retry (rm_policy mg) operation st in (Some r, mg\<lparr>rm_store := Some st'\<rparr>)))"

definition persist_snapshot_to_store ::
  "'st store_ops \<Rightarrow> string \<Rightarrow> put_payload \<Rightarrow> 'st run_manager \<Rightarrow> bool \<times> 'st run_manager" where
  "persist_snapshot_to_store ops run_id payload mg =
     (case with_store (so_put ops run_id payload) mg of
        (None, mg') \<Rightarrow> (True, mg')
      | (Some (Inr _), mg') \<Rightarrow> (True, mg')
      | (Some (Inl _), mg') \<Rightarrow> (False, mg'))"

definition persist_new_run_to_store ::
  "'st store_ops \<Rightarrow> run_record \<Rightarrow> 'st run_manager \<Rightarrow> (py_exception + unit) \<times> 'st run_manager" where
  "persist_new_run_to_store ops r mg =
     (case with_store (so_put ops (rec_run_id r) (store_put_payload r None)) mg of
        (None, mg') \<Rightarrow> (Inr (), mg')
      | (Some x, mg') \<Rightarrow> (x, mg'))"

definition persist_to_store ::
  "'st store_ops \<Rightarrow> run_record \<Rightarrow> string option \<Rightarrow> 'st run_manager \<Rightarrow> bool \<times> 'st run_manager" where
  "persist_to_store ops r error mg = persist_snapshot_to_store ops (rec_run_id r) (store_put_payload r error) mg"

definition persist_status ::
  "'st store_ops \<Rightarrow> run_record \<Rightarrow> run_status \<Rightarrow> string option \<Rightarrow> 'st run_manager \<Rightarrow> bool \<times> 'st run_manager" where
  "persist_status ops r status error mg =
     (case with_store (so_update_status ops (rec_run_id r) (status_value status) error) mg of
        (None, mg') \<Rightarrow> (True, mg')
      | (Some (Inl _), mg') \<Rightarrow> (False, mg')
      | (Some (Inr updated), mg') \<Rightarrow>
          if updated = Some False then persist_snapshot_to_store ops (rec_run_id r) (store_put_payload r error) mg'
          else (True, mg'))"

text \<open>\<open>None\<close> is the \<^verbatim>\<open>ValueError\<close> of an unknown status. The rows have no disconnect mode, which then is the default.\<close>

definition record_from_store :: "run_row \<Rightarrow> run_record option" where
  "record_from_store row =
     map_option (\<lambda>status.
       \<lparr>rec_run_id = rr_run_id row, rec_thread_id = rr_thread_id row, rec_assistant_id = rr_assistant_id row,
        rec_status = status, rec_on_disconnect = Cancel,
        rec_multitask_strategy = (if rr_multitask_strategy row = '''' then ''reject'' else rr_multitask_strategy row),
        rec_metadata = rr_metadata row, rec_kwargs = rr_kwargs row, rec_user_id = rr_user_id row,
        rec_created_at = rr_created_at row, rec_updated_at = rr_updated_at row, rec_task = None,
        rec_abort_event = False, rec_abort_action = ''interrupt'', rec_error = rr_error row,
        rec_model_name = rr_model_name row, rec_store_only = True,
        rec_usage = merge_usage (rr_usage row) zero_usage, rec_finalizing = False\<rparr>)
     (if rr_status row = '''' then Some Pending else parse_status (rr_status row))"


section \<open>Updates of a run\<close>

text \<open>\<open>edit run_id f\<close> assigns attributes of the record of a run that is registered.\<close>

definition edit :: "string \<Rightarrow> (run_record \<Rightarrow> run_record) \<Rightarrow> 'st run_manager \<Rightarrow> 'st run_manager" where
  "edit run_id f mg =
     (case dget (rm_runs mg) run_id of
        None \<Rightarrow> mg
      | Some r \<Rightarrow> mg\<lparr>rm_runs := dset run_id (f r) (rm_runs mg)\<rparr>)"

text \<open>A store call without retries.\<close>

definition with_store_once ::
  "('st, 'a) store_call \<Rightarrow> 'st run_manager \<Rightarrow> (py_exception + 'a) option \<times> 'st run_manager" where
  "with_store_once operation mg =
     (case rm_store mg of
        None \<Rightarrow> (None, mg)
      | Some st \<Rightarrow> (let (r, st') = operation st in (Some r, mg\<lparr>rm_store := Some st'\<rparr>)))"

definition update_run_completion ::
  "'st store_ops \<Rightarrow> string \<Rightarrow> string \<Rightarrow> string \<Rightarrow> run_usage \<Rightarrow> string option \<Rightarrow> 'st run_manager \<Rightarrow> 'st run_manager" where
  "update_run_completion ops now run_id status usage error mg =
     (let mg1 = edit run_id (\<lambda>r. r\<lparr>rec_usage := merge_usage usage (rec_usage r),
            rec_error := given error (rec_error r), rec_updated_at := now\<rparr>) mg;
          recovery = map_option (\<lambda>r. store_put_payload r error) (dget (rm_runs mg1) run_id)
      in case with_store (so_update_run_completion ops run_id status usage error) mg1 of
           (Some (Inr (Some False)), mg2) \<Rightarrow>
             (case recovery of
                None \<Rightarrow> mg2
              | Some payload \<Rightarrow>
                  (case persist_snapshot_to_store ops run_id payload mg2 of
                     (False, mg3) \<Rightarrow> mg3
                   | (True, mg3) \<Rightarrow> snd (with_store (so_update_run_completion ops run_id status usage error) mg3)))
         | (_, mg2) \<Rightarrow> mg2)"

definition update_run_progress ::
  "'st store_ops \<Rightarrow> string \<Rightarrow> string \<Rightarrow> run_usage \<Rightarrow> 'st run_manager \<Rightarrow> 'st run_manager" where
  "update_run_progress ops now run_id usage mg =
     (case dget (rm_runs mg) run_id of
        None \<Rightarrow> snd (with_store_once (so_update_run_progress ops run_id usage) mg)
      | Some r \<Rightarrow>
          if rec_status r = Running
          then snd (with_store_once (so_update_run_progress ops run_id usage)
            (edit run_id (\<lambda>r. r\<lparr>rec_usage := merge_usage usage (rec_usage r), rec_updated_at := now\<rparr>) mg))
          else mg)"

definition set_status ::
  "'st store_ops \<Rightarrow> string \<Rightarrow> string \<Rightarrow> run_status \<Rightarrow> string option \<Rightarrow> 'st run_manager \<Rightarrow> 'st run_manager" where
  "set_status ops now run_id status error mg =
     (case dget (rm_runs mg) run_id of
        None \<Rightarrow> mg
      | Some r \<Rightarrow>
          let r' = r\<lparr>rec_status := status, rec_updated_at := now, rec_error := given error (rec_error r)\<rparr>
          in snd (persist_status ops r' status error (edit run_id (\<lambda>_. r') mg)))"

definition set_finalizing :: "string \<Rightarrow> string \<Rightarrow> bool \<Rightarrow> 'st run_manager \<Rightarrow> 'st run_manager" where
  "set_finalizing now run_id finalizing mg =
     edit run_id (\<lambda>r. r\<lparr>rec_finalizing := finalizing, rec_updated_at := now\<rparr>) mg"

definition persist_model_name ::
  "'st store_ops \<Rightarrow> string \<Rightarrow> string option \<Rightarrow> 'st run_manager \<Rightarrow> 'st run_manager" where
  "persist_model_name ops run_id model_name mg = snd (with_store (so_update_model_name ops run_id model_name) mg)"

definition update_model_name ::
  "'st store_ops \<Rightarrow> string \<Rightarrow> string \<Rightarrow> string option \<Rightarrow> 'st run_manager \<Rightarrow> 'st run_manager" where
  "update_model_name ops now run_id model_name mg =
     (case dget (rm_runs mg) run_id of
        None \<Rightarrow> mg
      | Some _ \<Rightarrow> persist_model_name ops run_id model_name
          (edit run_id (\<lambda>r. r\<lparr>rec_model_name := model_name, rec_updated_at := now\<rparr>) mg))"

text \<open>What interruption does to a record.\<close>

definition interrupt_record :: "string \<Rightarrow> string \<Rightarrow> run_record \<Rightarrow> run_record" where
  "interrupt_record now action r =
     (cancel_task r)\<lparr>rec_abort_action := action, rec_abort_event := True, rec_finalizing := task_active r,
        rec_status := Interrupted, rec_updated_at := now\<rparr>"

definition cancel ::
  "'st store_ops \<Rightarrow> string \<Rightarrow> string \<Rightarrow> string \<Rightarrow> 'st run_manager \<Rightarrow> bool \<times> 'st run_manager" where
  "cancel ops now run_id action mg =
     (case dget (rm_runs mg) run_id of
        None \<Rightarrow> (False, mg)
      | Some r \<Rightarrow>
          if rec_status r = Interrupted then (True, mg)
          else if \<not> is_active r then (False, mg)
          else let r' = interrupt_record now action r
            in (True, snd (persist_status ops r' Interrupted None (edit run_id (\<lambda>_. r') mg))))"


section \<open>Admission of runs\<close>

definition register :: "run_record \<Rightarrow> 'st run_manager \<Rightarrow> 'st run_manager" where
  "register r mg = mg\<lparr>rm_runs := dset (rec_run_id r) r (rm_runs mg),
     rm_runs_by_thread := index_run (rec_run_id r) (rec_thread_id r) (rm_runs_by_thread mg)\<rparr>"

definition unregister :: "run_record \<Rightarrow> 'st run_manager \<Rightarrow> 'st run_manager" where
  "unregister r mg = mg\<lparr>rm_runs := dpop (rec_run_id r) (rm_runs mg),
     rm_runs_by_thread := unindex_run (rec_run_id r) (rec_thread_id r) (rm_runs_by_thread mg)\<rparr>"

text \<open>Insert the record, persist it, and take it out again when that fails.\<close>

definition register_persisted ::
  "'st store_ops \<Rightarrow> run_record \<Rightarrow> 'st run_manager \<Rightarrow> (py_exception + run_record) \<times> 'st run_manager" where
  "register_persisted ops r mg =
     (case persist_new_run_to_store ops r (register r mg) of
        (Inl e, mg') \<Rightarrow> (Inl e, unregister r mg')
      | (Inr _, mg') \<Rightarrow> (Inr r, mg'))"

definition create ::
  "'st store_ops \<Rightarrow> string \<Rightarrow> string \<Rightarrow> string \<Rightarrow> string option \<Rightarrow> disconnect_mode \<Rightarrow> (string, pyval) dict
     \<Rightarrow> (string, pyval) dict \<Rightarrow> string \<Rightarrow> string option \<Rightarrow> 'st run_manager
     \<Rightarrow> (py_exception + run_record) \<times> 'st run_manager" where
  "create ops now run_id thread_id assistant_id on_disconnect metadata kwargs strategy user_id mg =
     register_persisted ops
       (new_record now run_id thread_id assistant_id on_disconnect metadata kwargs strategy user_id None) mg"

definition runs_of_thread :: "'st run_manager \<Rightarrow> string \<Rightarrow> run_record list" where
  "runs_of_thread mg = thread_records (rm_runs mg) (rm_runs_by_thread mg)"

definition inflight :: "run_record \<Rightarrow> bool" where
  "inflight r \<longleftrightarrow> is_active r \<or> rec_finalizing r"

datatype admission_error = Unsupported_Strategy | Conflict | Store_Failure py_exception

fun persist_interrupted :: "'st store_ops \<Rightarrow> run_record list \<Rightarrow> 'st run_manager \<Rightarrow> 'st run_manager" where
  "persist_interrupted ops [] mg = mg"
| "persist_interrupted ops (r # rs) mg = persist_interrupted ops rs (snd (persist_status ops r Interrupted None mg))"

text \<open>The interrupted records are the objects in the registry: they are replaced there, unless the new run took the place.\<close>

definition create_or_reject ::
  "'st store_ops \<Rightarrow> string \<Rightarrow> string \<Rightarrow> string \<Rightarrow> string option \<Rightarrow> disconnect_mode \<Rightarrow> (string, pyval) dict
     \<Rightarrow> (string, pyval) dict \<Rightarrow> string \<Rightarrow> string option \<Rightarrow> string option \<Rightarrow> 'st run_manager
     \<Rightarrow> (admission_error + run_record) \<times> 'st run_manager" where
  "create_or_reject ops now run_id thread_id assistant_id on_disconnect metadata kwargs strategy model_name user_id mg =
     (if strategy \<notin> set [''reject'', ''interrupt'', ''rollback''] then (Inl Unsupported_Strategy, mg)
      else
        let active = filter inflight (runs_of_thread mg thread_id) in
        if strategy = ''reject'' \<and> active \<noteq> [] then (Inl Conflict, mg)
        else
          case register_persisted ops
                 (new_record now run_id thread_id assistant_id on_disconnect metadata kwargs strategy user_id model_name) mg of
            (Inl e, mg1) \<Rightarrow> (Inl (Store_Failure e), mg1)
          | (Inr r, mg1) \<Rightarrow>
              let interrupted = (if strategy = ''reject'' then []
                    else map (interrupt_record now strategy) (filter (\<lambda>x. \<not> rec_finalizing x) active));
                  mg2 = fold (\<lambda>x. if rec_run_id x = run_id then id else edit (rec_run_id x) (\<lambda>_. x)) interrupted mg1
              in (Inr r, persist_interrupted ops interrupted mg2))"

section \<open>Queries\<close>

definition get_run ::
  "'st store_ops \<Rightarrow> string \<Rightarrow> string option \<Rightarrow> 'st run_manager \<Rightarrow> run_record option \<times> 'st run_manager" where
  "get_run ops run_id user_id mg =
     (case dget (rm_runs mg) run_id of
        Some r \<Rightarrow> (Some r, mg)
      | None \<Rightarrow>
          (case with_store_once (so_get ops run_id user_id) mg of
             (Some (Inr (Some row)), mg') \<Rightarrow> (record_from_store row, mg')
           | (_, mg') \<Rightarrow> (None, mg')))"

fun merge_rows :: "run_row list \<Rightarrow> (string, run_record) dict \<Rightarrow> (string, run_record) dict" where
  "merge_rows [] records_by_id = records_by_id"
| "merge_rows (row # rows) records_by_id =
     merge_rows rows
       (if rr_run_id row \<noteq> '''' \<and> dget records_by_id (rr_run_id row) = None
        then (case record_from_store row of
                None \<Rightarrow> records_by_id
              | Some r \<Rightarrow> dset (rr_run_id row) r records_by_id)
        else records_by_id)"

definition list_by_thread ::
  "'st store_ops \<Rightarrow> string \<Rightarrow> string option \<Rightarrow> int \<Rightarrow> 'st run_manager \<Rightarrow> run_record list \<times> 'st run_manager" where
  "list_by_thread ops thread_id user_id limit mg =
     (let memory_records = runs_of_thread mg thread_id;
          newest = (\<lambda>rs. slice_to limit (sort_desc rec_created_at rs));
          records_by_id = fold (\<lambda>r. dset (rec_run_id r) r) memory_records [];
          store_limit = max 0 (limit - int (length memory_records))
      in case with_store_once (so_list_by_thread ops thread_id user_id store_limit) mg of
           (Some (Inr rows), mg') \<Rightarrow> (newest (dvals (merge_rows rows records_by_id)), mg')
         | (_, mg') \<Rightarrow> (newest memory_records, mg'))"

definition has_inflight :: "string \<Rightarrow> 'st run_manager \<Rightarrow> bool" where
  "has_inflight thread_id mg = list_ex inflight (runs_of_thread mg thread_id)"

text \<open>The loop over the records of the thread: whether one that satisfies the test follows the run.\<close>

fun later_run_search :: "(run_record \<Rightarrow> bool) \<Rightarrow> string \<Rightarrow> bool \<Rightarrow> run_record list \<Rightarrow> bool" where
  "later_run_search p run_id seen [] = False"
| "later_run_search p run_id seen (r # rs) =
     (if rec_run_id r = run_id then later_run_search p run_id True rs
      else if seen \<and> p r then True
      else later_run_search p run_id seen rs)"

definition has_later_run :: "string \<Rightarrow> string \<Rightarrow> 'st run_manager \<Rightarrow> bool" where
  "has_later_run thread_id run_id mg = later_run_search (\<lambda>_. True) run_id False (runs_of_thread mg thread_id)"

definition has_later_started_run :: "string \<Rightarrow> string \<Rightarrow> 'st run_manager \<Rightarrow> bool" where
  "has_later_started_run thread_id run_id mg =
     later_run_search (\<lambda>r. rec_status r \<noteq> Pending \<or> rec_finalizing r) run_id False (runs_of_thread mg thread_id)"

fun prior_finalizing_scan :: "string \<Rightarrow> bool \<Rightarrow> run_record list \<Rightarrow> bool \<times> bool" where
  "prior_finalizing_scan run_id prior [] = (False, prior)"
| "prior_finalizing_scan run_id prior (r # rs) =
     (if rec_run_id r = run_id then (True, prior)
      else prior_finalizing_scan run_id (prior \<or> rec_finalizing r) rs)"

text \<open>One poll of \<^verbatim>\<open>wait_for_prior_finalizing\<close>, true when it returns; the loop over the registries the polls
  find, with the number of polls that returned to sleep, or \<open>None\<close> when it still waits after the last.\<close>

definition prior_settled :: "string \<Rightarrow> string \<Rightarrow> 'st run_manager \<Rightarrow> bool" where
  "prior_settled thread_id run_id mg =
     (let (found_current, prior_finalizing) = prior_finalizing_scan run_id False (runs_of_thread mg thread_id)
      in \<not> found_current \<or> \<not> prior_finalizing)"

fun wait_for_prior_finalizing :: "string \<Rightarrow> string \<Rightarrow> 'st run_manager list \<Rightarrow> nat option" where
  "wait_for_prior_finalizing thread_id run_id [] = None"
| "wait_for_prior_finalizing thread_id run_id (mg # mgs) =
     (if prior_settled thread_id run_id mg then Some 0
      else map_option Suc (wait_for_prior_finalizing thread_id run_id mgs))"


section \<open>Recovery, removal and shutdown\<close>

fun reconcile_rows ::
  "'st store_ops \<Rightarrow> string \<Rightarrow> string \<Rightarrow> run_row list \<Rightarrow> 'st run_manager \<Rightarrow> run_record list \<times> 'st run_manager" where
  "reconcile_rows ops now error [] mg = ([], mg)"
| "reconcile_rows ops now error (row # rows) mg =
     (case record_from_store row of
        None \<Rightarrow> reconcile_rows ops now error rows mg
      | Some r \<Rightarrow>
          if (case dget (rm_runs mg) (rec_run_id r) of None \<Rightarrow> False | Some live \<Rightarrow> is_active live)
          then reconcile_rows ops now error rows mg
          else
            let r' = r\<lparr>rec_status := Error, rec_error := Some error, rec_updated_at := now\<rparr>;
                (persisted, mg1) = persist_status ops r' Error (Some error) mg;
                (recovered, mg2) = reconcile_rows ops now error rows mg1
            in (if persisted then r' # recovered else recovered, mg2))"

definition reconcile_orphaned_inflight_runs ::
  "'st store_ops \<Rightarrow> string \<Rightarrow> string \<Rightarrow> string option \<Rightarrow> 'st run_manager \<Rightarrow> run_record list \<times> 'st run_manager" where
  "reconcile_orphaned_inflight_runs ops now error before mg =
     (case with_store (so_list_inflight ops before) mg of
        (Some (Inr rows), mg') \<Rightarrow> reconcile_rows ops now error rows mg'
      | (_, mg') \<Rightarrow> ([], mg'))"

definition cleanup :: "string \<Rightarrow> 'st run_manager \<Rightarrow> 'st run_manager" where
  "cleanup run_id mg =
     (case dget (rm_runs mg) run_id of
        None \<Rightarrow> mg
      | Some r \<Rightarrow> mg\<lparr>rm_runs := dpop run_id (rm_runs mg),
          rm_runs_by_thread := unindex_run run_id (rec_thread_id r) (rm_runs_by_thread mg)\<rparr>)"

text \<open>Shutdown up to \<^verbatim>\<open>asyncio.wait\<close>: every active run with an active task is told to stop; the result is
  the list of these records, by their ids.\<close>

definition stop_record :: "run_record \<Rightarrow> run_record" where
  "stop_record r = (cancel_task r)\<lparr>rec_abort_action := ''interrupt'', rec_abort_event := True\<rparr>"

definition draining :: "run_record \<Rightarrow> bool" where
  "draining r \<longleftrightarrow> is_active r \<and> task_active r"

definition shutdown_begin :: "'st run_manager \<Rightarrow> string list \<times> 'st run_manager" where
  "shutdown_begin mg =
     (let ids = dkeys (filter (\<lambda>(_, r). draining r) (rm_runs mg))
      in (ids, fold (\<lambda>i. edit i stop_record) ids mg))"

text \<open>Shutdown after the wait. \<open>records\<close> are the same objects as they are then, also those no longer
  registered; a task is in the set \<^verbatim>\<open>pending\<close> of the wait when it is still active. \<open>in_time\<close> says which
  of them are persisted within the remaining time.\<close>

definition settled :: "run_record \<Rightarrow> bool" where
  "settled r \<longleftrightarrow> rec_task r = Some (Done False)"

definition mark_interrupted :: "string \<Rightarrow> run_record \<Rightarrow> run_record" where
  "mark_interrupted now r = (if is_active r then r\<lparr>rec_status := Interrupted, rec_updated_at := now\<rparr> else r)"

definition shutdown_finish ::
  "'st store_ops \<Rightarrow> string \<Rightarrow> run_record list \<Rightarrow> (string \<Rightarrow> bool) \<Rightarrow> 'st run_manager \<Rightarrow> 'st run_manager" where
  "shutdown_finish ops now records in_time mg =
     (let to_persist = map (mark_interrupted now) (filter (\<lambda>r. \<not> settled r) records)
      in persist_interrupted ops (filter (\<lambda>r. in_time (rec_run_id r)) to_persist)
           (fold (\<lambda>r. edit (rec_run_id r) (\<lambda>_. r)) to_persist mg))"

end
