(* ===== verification/Run_Admission.thy ===== *)
theory Run_Admission
  imports Run_Manager
begin

text \<open>
  The registry of runs in motion: its operations as the steps of a relation, the lockstep of its thread
  index, which is the interface \<open>thread_indexed\<close> interpreted on the run manager, and what admission
  and cancellation guarantee.
\<close>

section \<open>Store calls leave the registry alone\<close>

lemma with_store_frame [simp]:
  "rm_runs (snd (with_store f mg)) = rm_runs mg"
  "rm_runs_by_thread (snd (with_store f mg)) = rm_runs_by_thread mg"
  "rm_runs (snd (with_store_once f mg)) = rm_runs mg"
  "rm_runs_by_thread (snd (with_store_once f mg)) = rm_runs_by_thread mg"
  by (auto simp: with_store_def with_store_once_def split: option.split prod.split)

lemma snapshot_frame [simp]:
  "rm_runs (snd (persist_snapshot_to_store ops rid p mg)) = rm_runs mg"
  "rm_runs_by_thread (snd (persist_snapshot_to_store ops rid p mg)) = rm_runs_by_thread mg"
  by (simp_all add: persist_snapshot_to_store_def case_prod_unfold split: option.split sum.split)

lemma new_run_frame [simp]:
  "rm_runs (snd (persist_new_run_to_store ops r mg)) = rm_runs mg"
  "rm_runs_by_thread (snd (persist_new_run_to_store ops r mg)) = rm_runs_by_thread mg"
  by (simp_all add: persist_new_run_to_store_def case_prod_unfold split: option.split)

lemma status_frame [simp]:
  "rm_runs (snd (persist_status ops r s e mg)) = rm_runs mg"
  "rm_runs_by_thread (snd (persist_status ops r s e mg)) = rm_runs_by_thread mg"
  by (simp_all add: persist_status_def case_prod_unfold split: option.split sum.split)

lemma interrupted_frame [simp]:
  "rm_runs (persist_interrupted ops rs mg) = rm_runs mg"
  "rm_runs_by_thread (persist_interrupted ops rs mg) = rm_runs_by_thread mg"
  by (induction rs arbitrary: mg) simp_all

lemma reconcile_rows_frame [simp]:
  "rm_runs (snd (reconcile_rows ops now e rows mg)) = rm_runs mg"
  "rm_runs_by_thread (snd (reconcile_rows ops now e rows mg)) = rm_runs_by_thread mg"
proof (induction rows arbitrary: mg)
  case (Cons row rows)
  case 1
  show ?case by (simp add: Let_def case_prod_unfold Cons.IH split: option.split)
  case 2
  show ?case by (simp add: Let_def case_prod_unfold Cons.IH split: option.split)
qed simp_all

lemma edit_frame [simp]:
  "rm_runs_by_thread (edit rid f mg) = rm_runs_by_thread mg"
  "rm_store (edit rid f mg) = rm_store mg"
  "rm_policy (edit rid f mg) = rm_policy mg"
  by (auto simp: edit_def split: option.split)

lemma edit_get:
  "dget (rm_runs (edit rid f mg)) k = (if k = rid then map_option f (dget (rm_runs mg) rid) else dget (rm_runs mg) k)"
  by (auto simp: edit_def split: option.split)

lemma edit_Some:
  "dget (rm_runs (edit rid f mg)) k = Some r \<longleftrightarrow>
     (\<exists>old. dget (rm_runs mg) k = Some old \<and> r = (if k = rid then f old else old))"
  by (auto simp: edit_get)

section \<open>The steps of the registry\<close>

definition empty_manager :: "retry_policy \<Rightarrow> 'st option \<Rightarrow> 'st run_manager" where
  "empty_manager policy st = \<lparr>rm_runs = [], rm_runs_by_thread = [], rm_store = st, rm_policy = policy\<rparr>"

text \<open>The ids of new runs are fresh. Tasks are attached and progress in the environment; the records handed to the
  second half of shutdown are, as far as they are still registered, the ones of the registry.\<close>

inductive manager_step :: "'st store_ops \<Rightarrow> 'st run_manager \<Rightarrow> 'st run_manager \<Rightarrow> bool" for ops where
  mg_create: "dget (rm_runs mg) rid = None \<Longrightarrow>
    manager_step ops mg (snd (create ops now rid tid aid disc md kw strategy user mg))"
| mg_admit: "dget (rm_runs mg) rid = None \<Longrightarrow>
    manager_step ops mg (snd (create_or_reject ops now rid tid aid disc md kw strategy model user mg))"
| mg_completion: "manager_step ops mg (update_run_completion ops now rid status usage error mg)"
| mg_progress: "manager_step ops mg (update_run_progress ops now rid usage mg)"
| mg_status: "manager_step ops mg (set_status ops now rid s error mg)"
| mg_finalizing: "manager_step ops mg (set_finalizing now rid b mg)"
| mg_model: "manager_step ops mg (update_model_name ops now rid model mg)"
| mg_cancel: "manager_step ops mg (snd (cancel ops now rid action mg))"
| mg_get: "manager_step ops mg (snd (get_run ops rid user mg))"
| mg_list: "manager_step ops mg (snd (list_by_thread ops tid user limit mg))"
| mg_reconcile: "manager_step ops mg (snd (reconcile_orphaned_inflight_runs ops now err before mg))"
| mg_cleanup: "manager_step ops mg (cleanup rid mg)"
| mg_shutdown: "manager_step ops mg (snd (shutdown_begin mg))"
| mg_drained: "(\<And>r live. r \<in> set rs \<Longrightarrow> dget (rm_runs mg) (rec_run_id r) = Some live \<Longrightarrow> r = live) \<Longrightarrow>
    manager_step ops mg (shutdown_finish ops now rs in_time mg)"
| mg_task: "manager_step ops mg (edit rid (\<lambda>r. r\<lparr>rec_task := t\<rparr>) mg)"

text \<open>A change of the registry proper: records registered under their own id, edited without losing their id and
  thread, or removed.\<close>

inductive registry_change :: "'st run_manager \<Rightarrow> 'st run_manager \<Rightarrow> bool" where
  rc_frame: "rm_runs mg' = rm_runs mg \<Longrightarrow> rm_runs_by_thread mg' = rm_runs_by_thread mg \<Longrightarrow> registry_change mg mg'"
| rc_register: "dget (rm_runs mg) (rec_run_id r) = None \<Longrightarrow> registry_change mg (register r mg)"
| rc_edit: "(\<And>r. dget (rm_runs mg) rid = Some r \<Longrightarrow> rec_run_id (f r) = rec_run_id r \<and> rec_thread_id (f r) = rec_thread_id r) \<Longrightarrow>
    registry_change mg (edit rid f mg)"
| rc_cleanup: "registry_change mg (cleanup rid mg)"

definition keyed :: "'st run_manager \<Rightarrow> bool" where
  "keyed mg \<longleftrightarrow> (\<forall>rid r. dget (rm_runs mg) rid = Some r \<longrightarrow> rec_run_id r = rid)"

lemma keyed_get: "keyed mg \<Longrightarrow> dget (rm_runs mg) rid = Some r \<Longrightarrow> rec_run_id r = rid"
  by (simp add: keyed_def)

lemma keyed_change: "registry_change mg mg' \<Longrightarrow> keyed mg \<Longrightarrow> keyed mg'"
  by (induction rule: registry_change.induct)
    (auto simp: keyed_def register_def edit_get cleanup_def split: option.split if_split_asm)

lemma index_registry_change:
  "registry_change mg mg' \<Longrightarrow>
     index_change rec_thread_id (rm_runs mg, rm_runs_by_thread mg) (rm_runs mg', rm_runs_by_thread mg')"
proof (induction rule: registry_change.induct)
  case (rc_edit mg rid f)
  then show ?case by (auto simp: edit_def split: option.split intro: index_change.intros)
next
  case (rc_cleanup mg rid)
  then show ?case by (auto simp: cleanup_def split: option.split intro: index_change.intros)
qed (auto simp: register_def intro: index_change.intros)


section \<open>Every step changes the registry in lockstep\<close>

abbreviation registry_changes :: "'st run_manager \<Rightarrow> 'st run_manager \<Rightarrow> bool" where
  "registry_changes \<equiv> registry_change\<^sup>*\<^sup>*"

lemma changes_frame:
  "rm_runs mg' = rm_runs mg \<Longrightarrow> rm_runs_by_thread mg' = rm_runs_by_thread mg \<Longrightarrow> registry_changes mg mg'"
  by (blast intro: rc_frame)

lemma changes_edit:
  "(\<And>r. rec_run_id (f r) = rec_run_id r \<and> rec_thread_id (f r) = rec_thread_id r) \<Longrightarrow> registry_changes mg (edit rid f mg)"
  by (blast intro: rc_edit)

lemma changes_then_frame:
  "registry_changes mg mg1 \<Longrightarrow> rm_runs mg2 = rm_runs mg1 \<Longrightarrow> rm_runs_by_thread mg2 = rm_runs_by_thread mg1 \<Longrightarrow>
     registry_changes mg mg2"
  by (meson rc_frame rtranclp.rtrancl_into_rtrancl)

lemma unregister_is_cleanup:
  "dget (rm_runs mg) (rec_run_id r) = Some r \<Longrightarrow> unregister r mg = cleanup (rec_run_id r) mg"
  by (simp add: unregister_def cleanup_def)

lemma changes_register_persisted:
  assumes "dget (rm_runs mg) (rec_run_id r) = None"
  shows "registry_changes mg (snd (register_persisted ops r mg))"
proof -
  let ?mg1 = "snd (persist_new_run_to_store ops r (register r mg))"
  have "registry_changes mg (register r mg)" using rc_register [OF assms] by blast
  then have ch: "registry_changes mg ?mg1" by (rule changes_then_frame) simp_all
  have "dget (rm_runs ?mg1) (rec_run_id r) = Some r" by (simp add: register_def)
  then have "unregister r ?mg1 = cleanup (rec_run_id r) ?mg1" by (rule unregister_is_cleanup)
  with ch have "registry_changes mg (unregister r ?mg1)" by (simp add: rtranclp.rtrancl_into_rtrancl rc_cleanup)
  with ch show ?thesis by (auto simp: register_persisted_def case_prod_unfold split: sum.split)
qed

lemma fold_skip: "fold (\<lambda>x. if P x then id else f x) xs = fold f (filter (\<lambda>x. \<not> P x) xs)"
  by (induction xs) auto

lemma changes_replace:
  assumes "\<And>x old. x \<in> set xs \<Longrightarrow> dget (rm_runs mg) (rec_run_id x) = Some old \<Longrightarrow>
      rec_run_id old = rec_run_id x \<and> rec_thread_id old = rec_thread_id x"
  shows "registry_changes mg (fold (\<lambda>x. edit (rec_run_id x) (\<lambda>_. x)) xs mg)"
  using assms
proof (induction xs arbitrary: mg)
  case (Cons x xs)
  let ?mg1 = "edit (rec_run_id x) (\<lambda>_. x) mg"
  have "registry_change mg ?mg1"
  proof (rule rc_edit)
    fix r assume "dget (rm_runs mg) (rec_run_id x) = Some r"
    with Cons.prems [of x r] show "rec_run_id x = rec_run_id r \<and> rec_thread_id x = rec_thread_id r" by simp
  qed
  moreover have "registry_changes ?mg1 (fold (\<lambda>x. edit (rec_run_id x) (\<lambda>_. x)) xs ?mg1)"
  proof (rule Cons.IH)
    fix y new assume y: "y \<in> set xs" and new: "dget (rm_runs ?mg1) (rec_run_id y) = Some new"
    then obtain old where old: "dget (rm_runs mg) (rec_run_id y) = Some old"
        and "new = (if rec_run_id y = rec_run_id x then x else old)"
      unfolding edit_Some by blast
    moreover from y have "rec_run_id old = rec_run_id y \<and> rec_thread_id old = rec_thread_id y"
      by (intro Cons.prems [OF _ old]) simp
    moreover have "rec_thread_id old = rec_thread_id x" if "rec_run_id y = rec_run_id x"
      using Cons.prems [of x old] old by (simp add: that)
    ultimately show "rec_run_id new = rec_run_id y \<and> rec_thread_id new = rec_thread_id y" by simp
  qed
  ultimately show ?case by (simp add: converse_rtranclp_into_rtranclp)
qed simp

lemma changes_stop: "registry_changes mg (fold (\<lambda>i. edit i stop_record) ids mg)"
proof (induction ids arbitrary: mg)
  case (Cons i ids)
  have "registry_change mg (edit i stop_record mg)"
    by (rule rc_edit) (simp add: stop_record_def cancel_task_def)
  with Cons.IH [of "edit i stop_record mg"] show ?case by (simp add: converse_rtranclp_into_rtranclp)
qed simp

lemma runs_of_thread_registered:
  assumes "r \<in> set (runs_of_thread mg tid)" and "keyed mg"
  shows "dget (rm_runs mg) (rec_run_id r) = Some r"
proof -
  from assms(1) obtain k where k: "dget (rm_runs mg) k = Some r"
    by (auto simp: runs_of_thread_def thread_records_def List.map_filter_def)
  with keyed_get [OF assms(2) k] show ?thesis by simp
qed

lemma interrupt_record_frame [simp]:
  "rec_run_id (interrupt_record now a r) = rec_run_id r"
  "rec_thread_id (interrupt_record now a r) = rec_thread_id r"
  by (simp_all add: interrupt_record_def cancel_task_def)

lemma new_record_simps [simp]:
  "rec_run_id (new_record now rid tid aid disc md kw st u m) = rid"
  "rec_thread_id (new_record now rid tid aid disc md kw st u m) = tid"
  "rec_status (new_record now rid tid aid disc md kw st u m) = Pending"
  "rec_finalizing (new_record now rid tid aid disc md kw st u m) = False"
  by (simp_all add: new_record_def)


text \<open>The outcomes of admission: refused as it is, or an attempt to register the run, after which the runs it
  displaces are interrupted.\<close>

definition displaced :: "string \<Rightarrow> string \<Rightarrow> run_record list \<Rightarrow> run_record list" where
  "displaced now strategy rs =
     (if strategy = ''reject'' then []
      else map (interrupt_record now strategy) (filter (\<lambda>x. inflight x \<and> \<not> rec_finalizing x) rs))"

lemma create_or_reject_outcome:
  "create_or_reject ops now rid tid aid disc md kw strategy model user mg =
    (let attempt = register_persisted ops (new_record now rid tid aid disc md kw strategy user model) mg;
         xs = displaced now strategy (runs_of_thread mg tid)
     in if strategy \<notin> {''reject'', ''interrupt'', ''rollback''} then (Inl Unsupported_Strategy, mg)
     else if strategy = ''reject'' \<and> has_inflight tid mg then (Inl Conflict, mg)
     else case fst attempt of
            Inl e \<Rightarrow> (Inl (Store_Failure e), snd attempt)
          | Inr r \<Rightarrow> (Inr r, persist_interrupted ops xs
              (fold (\<lambda>x. edit (rec_run_id x) (\<lambda>_. x)) (filter (\<lambda>x. rec_run_id x \<noteq> rid) xs) (snd attempt))))"
proof -
  have "has_inflight tid mg \<longleftrightarrow> filter inflight (runs_of_thread mg tid) \<noteq> []"
    by (simp add: has_inflight_def list_ex_iff filter_empty_conv)
  then show ?thesis
    unfolding create_or_reject_def Let_def fold_skip case_prod_unfold filter_filter displaced_def
    by simp
qed

lemma changes_admit:
  assumes "keyed mg" and fresh: "dget (rm_runs mg) rid = None"
  shows "registry_changes mg (snd (create_or_reject ops now rid tid aid disc md kw strategy model user mg))"
proof -
  let ?r = "new_record now rid tid aid disc md kw strategy user model"
  let ?mg1 = "snd (register_persisted ops ?r mg)"
  let ?xs = "filter (\<lambda>x. rec_run_id x \<noteq> rid) (displaced now strategy (runs_of_thread mg tid))"
  let ?mg2 = "fold (\<lambda>x. edit (rec_run_id x) (\<lambda>_. x)) ?xs ?mg1"
  have ch1: "registry_changes mg ?mg1" using fresh by (intro changes_register_persisted) simp
  have kept: "dget (rm_runs ?mg1) k = dget (rm_runs mg) k" if "k \<noteq> rid" for k
    using that by (simp add: register_persisted_def case_prod_unfold register_def unregister_def split: sum.split)
  have "registry_changes ?mg1 ?mg2"
  proof (rule changes_replace)
    fix x old assume "x \<in> set ?xs" and old: "dget (rm_runs ?mg1) (rec_run_id x) = Some old"
    then obtain y where y: "y \<in> set (runs_of_thread mg tid)" "x = interrupt_record now strategy y" "rec_run_id y \<noteq> rid"
      by (auto simp: displaced_def split: if_split_asm)
    with old kept runs_of_thread_registered [OF y(1) assms(1)] have "old = y" by simp
    with y show "rec_run_id old = rec_run_id x \<and> rec_thread_id old = rec_thread_id x" by simp
  qed
  with ch1 have ch2: "registry_changes mg ?mg2" by simp
  have "registry_changes mg (persist_interrupted ops zs ?mg2)" for zs by (rule changes_then_frame [OF ch2]) simp_all
  with ch1 show ?thesis
    unfolding create_or_reject_outcome Let_def by (simp del: insert_iff split: if_split sum.split)
qed

lemma step_changes:
  assumes "manager_step ops mg mg'" and "keyed mg"
  shows "registry_changes mg mg'"
  using assms
proof (induction rule: manager_step.induct)
  case (mg_create mg rid now tid aid disc md kw strategy user)
  then show ?case by (simp add: create_def changes_register_persisted)
next
  case (mg_admit mg rid now tid aid disc md kw strategy model user)
  then show ?case by (intro changes_admit)
next
  case (mg_completion mg now rid status usage error)
  show ?case
    by (rule changes_then_frame [OF changes_edit [of "\<lambda>r. r\<lparr>rec_usage := merge_usage usage (rec_usage r),
            rec_error := given error (rec_error r), rec_updated_at := now\<rparr>" mg rid]])
      (simp_all add: update_run_completion_def Let_def case_prod_unfold split: option.split sum.split bool.split)
next
  case (mg_progress mg now rid usage)
  have "registry_changes mg (edit rid (\<lambda>r. r\<lparr>rec_usage := merge_usage usage (rec_usage r), rec_updated_at := now\<rparr>) mg)"
    by (rule changes_edit) simp
  then show ?case
    by (auto simp: update_run_progress_def split: option.split intro: changes_then_frame changes_frame)
next
  case (mg_status mg now rid s error)
  have "registry_changes mg (edit rid (\<lambda>_. r\<lparr>rec_status := s, rec_updated_at := now, rec_error := given error (rec_error r)\<rparr>) mg)"
    if "dget (rm_runs mg) rid = Some r" for r
    using that by (intro r_into_rtranclp [of registry_change] rc_edit) simp
  then show ?case by (auto simp: set_status_def Let_def split: option.split intro: changes_then_frame)
next
  case (mg_finalizing mg now rid b)
  then show ?case by (simp add: set_finalizing_def changes_edit)
next
  case (mg_model mg now rid model)
  have "registry_changes mg (edit rid (\<lambda>r. r\<lparr>rec_model_name := model, rec_updated_at := now\<rparr>) mg)"
    by (rule changes_edit) simp
  then show ?case
    by (auto simp: update_model_name_def persist_model_name_def split: option.split intro: changes_then_frame)
next
  case (mg_cancel mg now rid action)
  have "registry_changes mg (edit rid (\<lambda>_. interrupt_record now action r) mg)" if "dget (rm_runs mg) rid = Some r" for r
    using that by (intro r_into_rtranclp [of registry_change] rc_edit) simp
  then show ?case by (auto simp: cancel_def Let_def split: option.split intro: changes_then_frame)
next
  case (mg_get mg rid user)
  show ?case by (rule changes_frame) (simp_all add: get_run_def case_prod_unfold split: option.split sum.split)
next
  case (mg_list mg tid user limit)
  show ?case by (rule changes_frame) (simp_all add: list_by_thread_def Let_def case_prod_unfold split: option.split sum.split)
next
  case (mg_reconcile mg now err before)
  show ?case
    by (rule changes_frame)
      (simp_all add: reconcile_orphaned_inflight_runs_def case_prod_unfold split: option.split sum.split)
next
  case (mg_cleanup mg rid)
  then show ?case by (blast intro: rc_cleanup)
next
  case (mg_shutdown mg)
  then show ?case by (simp add: shutdown_begin_def Let_def changes_stop)
next
  case (mg_drained rs mg now in_time)
  let ?xs = "map (mark_interrupted now) (filter (\<lambda>r. \<not> settled r) rs)"
  have "registry_changes mg (fold (\<lambda>x. edit (rec_run_id x) (\<lambda>_. x)) ?xs mg)"
  proof (rule changes_replace)
    fix x old assume "x \<in> set ?xs" and old: "dget (rm_runs mg) (rec_run_id x) = Some old"
    then obtain r where r: "r \<in> set rs" "x = mark_interrupted now r" by auto
    then have same: "rec_run_id x = rec_run_id r" "rec_thread_id x = rec_thread_id r" by (simp_all add: mark_interrupted_def)
    with mg_drained(1) [OF r(1)] old have "r = old" by simp
    with same show "rec_run_id old = rec_run_id x \<and> rec_thread_id old = rec_thread_id x" by simp
  qed
  then show ?case unfolding shutdown_finish_def Let_def by (rule changes_then_frame) simp_all
next
  case (mg_task mg rid t)
  then show ?case by (simp add: changes_edit)
qed


interpretation reg: thread_indexed "\<lambda>s t. manager_step ops s t \<and> keyed s" rm_runs rm_runs_by_thread rec_thread_id for ops
proof
  have "(index_change rec_thread_id)\<^sup>*\<^sup>* (rm_runs s, rm_runs_by_thread s) (rm_runs t, rm_runs_by_thread t)"
    if "registry_changes s t" for s t :: "'a run_manager"
    using that
  proof (induction rule: rtranclp_induct)
    case (step t u)
    from step.IH index_registry_change [OF step.hyps(2)] show ?case by (rule rtranclp.rtrancl_into_rtrancl)
  qed simp
  then show "(index_change rec_thread_id)\<^sup>*\<^sup>* (rm_runs s, rm_runs_by_thread s) (rm_runs t, rm_runs_by_thread t)"
    if "manager_step ops s t \<and> keyed s" for s t :: "'a run_manager"
    using that step_changes by blast
qed

definition registry_inv :: "'st run_manager \<Rightarrow> bool" where
  "registry_inv mg \<longleftrightarrow> keyed mg \<and> in_lockstep rec_thread_id (rm_runs mg) (rm_runs_by_thread mg)"

lemma keyed_changes: "registry_changes mg mg' \<Longrightarrow> keyed mg \<Longrightarrow> keyed mg'"
  by (induction rule: rtranclp_induct) (auto intro: keyed_change)

interpretation runs: invariant_system "manager_step ops" registry_inv for ops
proof
  fix mg mg' :: "'a run_manager"
  assume "registry_inv mg" and step: "manager_step ops mg mg'"
  then have inv: "keyed mg" "in_lockstep rec_thread_id (rm_runs mg) (rm_runs_by_thread mg)" by (auto simp: registry_inv_def)
  have "reg.lockstep mg'"
    using reg.lockstep_step [of mg ops mg'] inv step by (simp add: reg.lockstep_def)
  moreover have "keyed mg'" using step_changes [OF step inv(1)] inv(1) by (rule keyed_changes)
  ultimately show "registry_inv mg'" by (simp add: registry_inv_def reg.lockstep_def)
qed

lemma reachable_registry:
  assumes "(manager_step ops)\<^sup>*\<^sup>* (empty_manager policy st) mg"
  shows "registry_inv mg"
  using assms
  by (rule runs.inv_steps) (simp add: registry_inv_def keyed_def empty_manager_def in_lockstep_empty)

lemma registry_scan:
  "registry_inv mg \<Longrightarrow> runs_of_thread mg tid = filter (\<lambda>r. rec_thread_id r = tid) (dvals (rm_runs mg))"
  using thread_records_scan [of rec_thread_id "rm_runs mg" "rm_runs_by_thread mg" tid]
  by (simp add: registry_inv_def runs_of_thread_def)

lemma registry_mem:
  assumes "registry_inv mg"
  shows "r \<in> set (runs_of_thread mg tid) \<longleftrightarrow> dget (rm_runs mg) (rec_run_id r) = Some r \<and> rec_thread_id r = tid"
proof -
  have wf: "wf_dict (rm_runs mg)" and keyed: "keyed mg" using assms by (simp_all add: registry_inv_def in_lockstep_def)
  have "(\<exists>k. (k, r) \<in> set (rm_runs mg)) \<longleftrightarrow> (rec_run_id r, r) \<in> set (rm_runs mg)"
    using keyed_get [OF keyed] by (metis dget_mem_iff [OF wf])
  then show ?thesis unfolding registry_scan [OF assms] dget_mem_iff [OF wf] by (auto simp: image_iff intro: bexI [rotated])
qed

section \<open>Admission\<close>

lemma fold_edit_get:
  assumes "\<And>x. x \<in> set xs \<Longrightarrow> g (rec_run_id x) = x"
  shows "dget (rm_runs (fold (\<lambda>x. edit (rec_run_id x) (\<lambda>_. x)) xs mg)) k =
    (if k \<in> rec_run_id ` set xs then map_option (\<lambda>_. g k) (dget (rm_runs mg) k) else dget (rm_runs mg) k)"
  using assms
proof (induction xs arbitrary: mg)
  case (Cons x xs)
  let ?mg1 = "edit (rec_run_id x) (\<lambda>_. x) mg"
  have gx: "g (rec_run_id x) = x" by (rule Cons.prems) simp
  have IH: "dget (rm_runs (fold (\<lambda>x. edit (rec_run_id x) (\<lambda>_. x)) xs ?mg1)) k =
    (if k \<in> rec_run_id ` set xs then map_option (\<lambda>_. g k) (dget (rm_runs ?mg1) k) else dget (rm_runs ?mg1) k)"
    by (rule Cons.IH) (rule Cons.prems, simp)
  have mg1: "dget (rm_runs ?mg1) k = (if k = rec_run_id x then map_option (\<lambda>_. g k) (dget (rm_runs mg) k) else dget (rm_runs mg) k)"
  proof (cases "k = rec_run_id x")
    case True
    then have "g k = x" using gx by simp
    then show ?thesis by (simp add: edit_get True)
  qed (simp add: edit_get)
  show ?case unfolding fold.simps comp_def IH mg1 by (simp add: option.map_comp comp_def)
qed simp


text \<open>What admission does to a registered run of the thread.\<close>

definition after_admission :: "string \<Rightarrow> string \<Rightarrow> string \<Rightarrow> run_record \<Rightarrow> run_record" where
  "after_admission now strategy tid x =
     (if rec_thread_id x = tid \<and> inflight x \<and> \<not> rec_finalizing x then interrupt_record now strategy x else x)"

lemma register_persisted_Inr:
  assumes "register_persisted ops r mg = (Inr r', mg')"
  shows "r' = r \<and> rm_runs mg' = dset (rec_run_id r) r (rm_runs mg) \<and>
    rm_runs_by_thread mg' = index_run (rec_run_id r) (rec_thread_id r) (rm_runs_by_thread mg)"
proof -
  have "mg' = snd (persist_new_run_to_store ops r (register r mg))" and "r' = r"
    using assms by (auto simp: register_persisted_def split: prod.split_asm sum.split_asm)
  then show ?thesis by (simp add: register_def)
qed

lemma admission_registry:
  assumes inv: "registry_inv mg" and fresh: "dget (rm_runs mg) rid = None"
    and ok: "create_or_reject ops now rid tid aid disc md kw strategy model user mg = (Inr r, mg')"
  shows "r = new_record now rid tid aid disc md kw strategy user model"
    and "dget (rm_runs mg') k = (if k = rid then Some r else map_option (after_admission now strategy tid) (dget (rm_runs mg) k))"
    and "rm_runs_by_thread mg' = index_run rid tid (rm_runs_by_thread mg)"
proof -
  let ?new = "new_record now rid tid aid disc md kw strategy user model"
  let ?xs = "displaced now strategy (runs_of_thread mg tid)"
  let ?ys = "filter (\<lambda>x. rec_run_id x \<noteq> rid) ?xs"
  obtain mg1 where reject: "strategy = ''reject'' \<Longrightarrow> \<not> has_inflight tid mg"
      and at: "register_persisted ops ?new mg = (Inr r, mg1)"
      and mg': "mg' = persist_interrupted ops ?xs (fold (\<lambda>x. edit (rec_run_id x) (\<lambda>_. x)) ?ys mg1)"
    using ok unfolding create_or_reject_outcome Let_def
    by (cases "register_persisted ops ?new mg") (auto simp del: insert_iff split: if_split_asm sum.split_asm)
  note new = register_persisted_Inr [OF at]
  show "r = ?new" using new by simp
  have idx: "rm_runs_by_thread (fold (\<lambda>x. edit (rec_run_id x) (\<lambda>_. x)) zs m) = rm_runs_by_thread m" for zs and m :: "'a run_manager"
    by (induction zs arbitrary: m) simp_all
  show "rm_runs_by_thread mg' = index_run rid tid (rm_runs_by_thread mg)" using new by (simp add: mg' idx)
  let ?hit = "\<lambda>y. strategy \<noteq> ''reject'' \<and> dget (rm_runs mg) (rec_run_id y) = Some y \<and> rec_thread_id y = tid \<and> inflight y \<and> \<not> rec_finalizing y"
  have hits: "x \<in> set ?xs \<longleftrightarrow> (\<exists>y. ?hit y \<and> x = interrupt_record now strategy y)" for x
    unfolding displaced_def by (auto simp: registry_mem [OF inv])
  let ?g = "\<lambda>k. interrupt_record now strategy (the (dget (rm_runs mg) k))"
  have "?g (rec_run_id x) = x" if "x \<in> set ?ys" for x
    using that hits [of x] by auto
  then have "dget (rm_runs mg') k = (if k \<in> rec_run_id ` set ?ys then map_option (\<lambda>_. ?g k) (dget (rm_runs mg1) k) else dget (rm_runs mg1) k)"
    unfolding mg' interrupted_frame by (rule fold_edit_get [where g = ?g])
  moreover have "k \<in> rec_run_id ` set ?ys \<longleftrightarrow> (\<exists>y. ?hit y \<and> rec_run_id y = k) \<and> k \<noteq> rid"
    using hits by (auto simp: image_iff)
  moreover have "\<not> (inflight y \<and> rec_thread_id y = tid \<and> dget (rm_runs mg) (rec_run_id y) = Some y)" if "strategy = ''reject''" for y
    using reject [OF that] by (auto simp: has_inflight_def list_ex_iff registry_mem [OF inv])
  moreover have "rec_run_id y = k" if "dget (rm_runs mg) k = Some y" for y
    using keyed_get that inv by (auto simp: registry_inv_def)
  ultimately show "dget (rm_runs mg') k = (if k = rid then Some r else map_option (after_admission now strategy tid) (dget (rm_runs mg) k))"
    using new by (cases "dget (rm_runs mg) k") (auto simp: after_admission_def)
qed


lemma bucket_records:
  fixes mg :: "'st run_manager"
  defines "bucket \<equiv> \<lambda>t. dkeys (dget_default (rm_runs_by_thread mg) t [])"
  assumes inv: "registry_inv mg"
  shows "k \<in> set (bucket t) \<Longrightarrow> \<exists>x. dget (rm_runs mg) k = Some x \<and> rec_thread_id x = t"
    and "runs_of_thread mg t = map (\<lambda>k. the (dget (rm_runs mg) k)) (bucket t)"
proof -
  show hit: "\<exists>x. dget (rm_runs mg) k = Some x \<and> rec_thread_id x = t" if "k \<in> set (bucket t)" for k
  proof -
    have "dget (dget_default (rm_runs_by_thread mg) t []) k \<noteq> None" using that by (auto simp: bucket_def map_of_eq_None_iff)
    with inv lockstep_bucket_get [of rec_thread_id "rm_runs mg" "rm_runs_by_thread mg" t k] show ?thesis
      by (auto simp: registry_inv_def split: option.split_asm)
  qed
  have "List.map_filter (dget (rm_runs mg)) ks = map (\<lambda>k. the (dget (rm_runs mg) k)) ks" if "set ks \<subseteq> set (bucket t)" for ks
    using that
  proof (induction ks)
    case (Cons a ks)
    with hit [of a] show ?case by (auto simp: List.map_filter_simps)
  qed (simp add: List.map_filter_simps)
  then show "runs_of_thread mg t = map (\<lambda>k. the (dget (rm_runs mg) k)) (bucket t)"
    by (simp add: runs_of_thread_def thread_records_def bucket_def)
qed

lemma admission_threads:
  assumes inv: "registry_inv mg" and fresh: "dget (rm_runs mg) rid = None"
    and ok: "create_or_reject ops now rid tid aid disc md kw strategy model user mg = (Inr r, mg')"
  shows "runs_of_thread mg' t =
    (if t = tid then map (after_admission now strategy tid) (runs_of_thread mg tid) @ [r] else runs_of_thread mg t)"
proof -
  have "manager_step ops mg mg'" using mg_admit [OF fresh, of ops] ok by (metis snd_conv)
  then have inv': "registry_inv mg'" using inv by (rule runs.inv_step [rotated])
  note spec = admission_registry [OF assms]
  let ?b = "\<lambda>m :: 'a run_manager. \<lambda>t. dkeys (dget_default (rm_runs_by_thread m) t [])"
  have old: "k \<in> set (?b mg t) \<Longrightarrow> k \<noteq> rid" for k t using bucket_records(1) [OF inv, of k t] fresh by auto
  then have "dget (dget_default (rm_runs_by_thread mg) tid []) rid = None" by (auto simp: map_of_eq_None_iff)
  then have keys: "?b mg' t = (if t = tid then ?b mg tid @ [rid] else ?b mg t)"
    by (simp add: spec(3) index_run_def dget_default_dset dkeys_dset)
  have "the (dget (rm_runs mg') k) = (if t = tid then after_admission now strategy tid (the (dget (rm_runs mg) k)) else the (dget (rm_runs mg) k))"
    if k: "k \<in> set (?b mg t)" for k
  proof -
    obtain x where "dget (rm_runs mg) k = Some x" and "rec_thread_id x = t" using bucket_records(1) [OF inv k] by blast
    with old [OF k] show ?thesis by (simp add: spec(2) [of k] after_admission_def)
  qed
  then show ?thesis
    unfolding bucket_records(2) [OF inv] bucket_records(2) [OF inv'] keys by (simp add: spec(2))
qed

text \<open>C11. Admission leaves the new run as the only one that may proceed: the runs of the thread are the former
  ones, in order, with every active one interrupted that was not already cleaning up, followed by the new run;
  an active run of the thread is the new one or is cleaning up, and the runs of other threads are as they were.\<close>

theorem admission_displaces_active:
  assumes "(manager_step ops)\<^sup>*\<^sup>* (empty_manager policy st) mg" and "dget (rm_runs mg) rid = None"
    and "create_or_reject ops now rid tid aid disc md kw strategy model user mg = (Inr r, mg')"
  shows "runs_of_thread mg' tid = map (after_admission now strategy tid) (runs_of_thread mg tid) @ [r] \<and>
    (\<forall>x\<in>set (runs_of_thread mg' tid). is_active x \<longrightarrow> x = r \<or> rec_finalizing x) \<and>
    (\<forall>t. t \<noteq> tid \<longrightarrow> runs_of_thread mg' t = runs_of_thread mg t)"
proof -
  have inv: "registry_inv mg" using assms(1) by (rule reachable_registry)
  note lists = admission_threads [OF inv assms(2,3)]
  have "rec_finalizing (after_admission now strategy tid x)"
    if "x \<in> set (runs_of_thread mg tid)" and "is_active (after_admission now strategy tid x)" for x
    using that by (auto simp: registry_mem [OF inv] after_admission_def inflight_def interrupt_record_def is_active_def split: if_split_asm)
  then show ?thesis by (auto simp: lists)
qed


text \<open>A thread with a running run, over the in-memory store.\<close>

definition demo_manager :: "memory_store run_manager" where
  "demo_manager = set_status (memory_ops ''1'') ''1'' ''r1'' Running None
     (snd (create_or_reject (memory_ops ''1'') ''1'' ''r1'' ''t'' None Cancel [] [] ''reject'' None None
       (empty_manager default_policy (Some empty_store))))"

lemma demo_manager_reachable: "(manager_step (memory_ops ''1''))\<^sup>*\<^sup>* (empty_manager default_policy (Some empty_store)) demo_manager"
proof -
  have "manager_step (memory_ops ''1'') (empty_manager default_policy (Some empty_store))
    (snd (create_or_reject (memory_ops ''1'') ''1'' ''r1'' ''t'' None Cancel [] [] ''reject'' None None
       (empty_manager default_policy (Some empty_store))))"
    by (rule mg_admit) (simp add: empty_manager_def)
  moreover have "manager_step (memory_ops ''1'') mg (set_status (memory_ops ''1'') ''1'' ''r1'' Running None mg)" for mg
    by (rule mg_status)
  ultimately show ?thesis unfolding demo_manager_def by (meson r_into_rtranclp rtranclp.rtrancl_into_rtrancl)
qed

theorem admission_displaces_active_witness:
  "map (\<lambda>x. (rec_run_id x, rec_status x)) (runs_of_thread
     (snd (create_or_reject (memory_ops ''1'') ''2'' ''r2'' ''t'' None Cancel [] [] ''interrupt'' None None demo_manager)) ''t'') =
   [(''r1'', Interrupted), (''r2'', Pending)]"
proof -
  let ?new = "new_record ''2'' ''r2'' ''t'' None Cancel [] [] ''interrupt'' None None"
  let ?mg' = "snd (create_or_reject (memory_ops ''1'') ''2'' ''r2'' ''t'' None Cancel [] [] ''interrupt'' None None demo_manager)"
  have fresh: "dget (rm_runs demo_manager) ''r2'' = None" by code_simp
  have "fst (create_or_reject (memory_ops ''1'') ''2'' ''r2'' ''t'' None Cancel [] [] ''interrupt'' None None demo_manager) = Inr ?new"
    by code_simp
  then have "create_or_reject (memory_ops ''1'') ''2'' ''r2'' ''t'' None Cancel [] [] ''interrupt'' None None demo_manager = (Inr ?new, ?mg')"
    by (simp add: prod_eq_iff)
  from admission_displaces_active [OF demo_manager_reachable fresh this]
  have "runs_of_thread ?mg' ''t'' = map (after_admission ''2'' ''interrupt'' ''t'') (runs_of_thread demo_manager ''t'') @ [?new]" by simp
  moreover have "map (\<lambda>x. (rec_run_id x, rec_status x)) (map (after_admission ''2'' ''interrupt'' ''t'') (runs_of_thread demo_manager ''t'') @ [?new]) =
     [(''r1'', Interrupted), (''r2'', Pending)]" by code_simp
  ultimately show ?thesis by (simp only:)
qed

lemma dset_absorb: "dset k v (dset k w d) = dset k v d"
  by (induction d) auto

lemma unindex_index:
  assumes "dget (dget_default idx tid []) rid = None" and "dget idx tid \<noteq> Some []"
  shows "unindex_run rid tid (index_run rid tid idx) = idx"
proof (cases "dget idx tid")
  case None
  then show ?thesis by (simp add: unindex_run_def index_run_def dget_default_def dpop_dset_fresh)
next
  case (Some b)
  with assms have "dpop rid (dset rid () b) = b" and "b \<noteq> []" by (simp_all add: dget_default_def dpop_dset_fresh)
  with Some show ?thesis by (simp add: unindex_run_def index_run_def dget_default_def dset_absorb dset_same)
qed

lemma register_persisted_Inl:
  assumes inv: "registry_inv mg" and fresh: "dget (rm_runs mg) (rec_run_id r) = None"
    and fails: "register_persisted ops r mg = (Inl e, mg')"
  shows "rm_runs mg' = rm_runs mg \<and> rm_runs_by_thread mg' = rm_runs_by_thread mg \<and> rm_store mg \<noteq> None"
proof -
  have mg': "mg' = unregister r (snd (persist_new_run_to_store ops r (register r mg)))"
    and e: "fst (persist_new_run_to_store ops r (register r mg)) = Inl e"
    using fails by (auto simp: register_persisted_def split: prod.split_asm sum.split_asm)
  have lock: "in_lockstep rec_thread_id (rm_runs mg) (rm_runs_by_thread mg)" using inv by (simp add: registry_inv_def)
  have "unindex_run (rec_run_id r) (rec_thread_id r) (index_run (rec_run_id r) (rec_thread_id r) (rm_runs_by_thread mg)) = rm_runs_by_thread mg"
    using lockstep_bucket_get [OF lock, of "rec_thread_id r" "rec_run_id r"] fresh lock
    by (intro unindex_index) (simp_all add: in_lockstep_def)
  moreover have "rm_store mg \<noteq> None"
    using e by (auto simp: persist_new_run_to_store_def with_store_def register_def split: option.split_asm)
  ultimately show ?thesis using fresh by (simp add: mg' unregister_def register_def dpop_dset_fresh)
qed

text \<open>C40. A run that is not admitted leaves no trace in the registry, and the error says why: an unsupported
  strategy, a thread that is busy under \<^verbatim>\<open>reject\<close>, or a failure of the store, after which the record and its
  index entry have been taken out again.\<close>

theorem refused_run_leaves_no_trace:
  assumes "(manager_step ops)\<^sup>*\<^sup>* (empty_manager policy st) mg" and "dget (rm_runs mg) rid = None"
    and "create_or_reject ops now rid tid aid disc md kw strategy model user mg = (Inl e, mg')"
  shows "rm_runs mg' = rm_runs mg \<and> rm_runs_by_thread mg' = rm_runs_by_thread mg \<and>
    (case e of
       Unsupported_Strategy \<Rightarrow> strategy \<notin> {''reject'', ''interrupt'', ''rollback''} \<and> mg' = mg
     | Conflict \<Rightarrow> strategy = ''reject'' \<and> has_inflight tid mg \<and> mg' = mg
     | Store_Failure _ \<Rightarrow> rm_store mg \<noteq> None)"
proof -
  let ?new = "new_record now rid tid aid disc md kw strategy user model"
  have inv: "registry_inv mg" using assms(1) by (rule reachable_registry)
  have failed: "rm_runs mg1 = rm_runs mg \<and> rm_runs_by_thread mg1 = rm_runs_by_thread mg \<and> rm_store mg \<noteq> None"
    if "register_persisted ops ?new mg = (Inl x, mg1)" for x mg1
    using register_persisted_Inl [OF inv _ that] assms(2) by simp
  show ?thesis
    using assms(3) failed unfolding create_or_reject_outcome Let_def
    by (cases "register_persisted ops ?new mg") (auto simp del: insert_iff split: if_split_asm sum.split_asm)
qed

theorem refused_run_leaves_no_trace_witness:
  "rm_runs (snd (create_or_reject (memory_ops ''1'') ''2'' ''r2'' ''t'' None Cancel [] [] ''reject'' None None demo_manager)) =
     rm_runs demo_manager \<and> has_inflight ''t'' demo_manager"
proof -
  have fresh: "dget (rm_runs demo_manager) ''r2'' = None" by code_simp
  have "create_or_reject (memory_ops ''1'') ''2'' ''r2'' ''t'' None Cancel [] [] ''reject'' None None demo_manager = (Inl Conflict, demo_manager)"
    unfolding create_or_reject_outcome Let_def by simp code_simp
  from refused_run_leaves_no_trace [OF demo_manager_reachable fresh this] this show ?thesis by simp
qed

section \<open>Cancellation\<close>

text \<open>Cancellation succeeds exactly for a run of the registry that is active or already interrupted. An
  active one is told to stop, interrupted and, if its task is active, marked as cleaning up; no other
  record changes; and cancelling again has the same answer and no effect.\<close>

theorem cancel_outcome:
  "let (b, mg') = cancel ops now rid action mg in
     (b \<longleftrightarrow> (\<exists>x. dget (rm_runs mg) rid = Some x \<and> (is_active x \<or> rec_status x = Interrupted))) \<and>
     (\<forall>k. dget (rm_runs mg') k = (if k = rid
        then map_option (\<lambda>x. if is_active x then interrupt_record now action x else x) (dget (rm_runs mg) rid)
        else dget (rm_runs mg) k)) \<and>
     cancel ops now' rid action' mg' = (b, mg')"
proof (cases "dget (rm_runs mg) rid")
  case None
  then show ?thesis by (simp add: cancel_def)
next
  case (Some x)
  show ?thesis
  proof (cases "is_active x")
    case True
    then have "rec_status x \<noteq> Interrupted" by (auto simp: is_active_def)
    moreover have "rec_status (interrupt_record now action x) = Interrupted" by (simp add: interrupt_record_def)
    ultimately show ?thesis using Some True by (simp add: cancel_def Let_def edit_get)
  next
    case False
    with Some show ?thesis by (simp add: cancel_def)
  qed
qed

end
