(* ===== verification/Run_Persistence.thy ===== *)
theory Run_Persistence
  imports Run_Admission
begin

text \<open>
  What the registry promises of the store behind it: bounded retries of transient failures, the interface
  \<open>run_store\<close> (the laws of \<^verbatim>\<open>RunStore\<close>, \<^verbatim>\<open>runs/store/base.py\<close>, that the registry relies on) with what follows
  from it for every store, its interpretation on the in-memory store, and recovery after a restart.
\<close>

section \<open>Retries\<close>

text \<open>The exceptions a given one is chained to, directly or not.\<close>

inductive chained :: "py_exception \<Rightarrow> py_exception \<Rightarrow> bool" where
  chained_self: "chained e e"
| chained_step: "c \<in> set (px_chain e) \<Longrightarrow> chained c d \<Longrightarrow> chained e d"

lemma chained_unfold: "chained e d \<longleftrightarrow> d = e \<or> (\<exists>c\<in>set (px_chain e). chained c d)"
  by (subst chained.simps) auto

lemma retryable_search_iff:
  "retryable_search pending \<longleftrightarrow> (\<exists>e\<in>set pending. \<exists>d. chained e d \<and> retryable_here d)"
proof (induction pending rule: retryable_search.induct)
  case (1 pending)
  show ?case
  proof (cases "rev pending")
    case Nil
    then show ?thesis by (simp add: retryable_search.simps)
  next
    case (Cons current rest)
    then have p: "pending = rev rest @ [current]" by simp
    have "(\<exists>d. chained current d \<and> retryable_here d) \<longleftrightarrow>
        retryable_here current \<or> (\<exists>c\<in>set (px_chain current). \<exists>d. chained c d \<and> retryable_here d)"
      by (subst chained_unfold) auto
    with 1 [OF Cons] show ?thesis
      by (subst retryable_search.simps) (auto simp: p)
  qed
qed

text \<open>An error counts as transient exactly when it, or an exception it is chained to at any depth, is a
  SQLite lock error by its message or its code.\<close>

theorem retryable_exact:
  "is_retryable_persistence_error e \<longleftrightarrow> (\<exists>d. chained e d \<and> retryable_here d)"
  by (simp add: is_retryable_persistence_error_def retryable_search_iff)

lemma next_delay_bounds:
  assumes "0 < po_initial_delay policy" "0 < po_max_delay policy" "0 < po_backoff_factor policy" "0 < d"
  shows "0 < next_delay policy d" and "next_delay policy d \<le> po_max_delay policy"
  using assms by (simp_all add: next_delay_def)

lemma retry_loop_runs:
  assumes "0 < po_initial_delay policy" "0 < po_max_delay policy" "0 < po_backoff_factor policy"
    and "0 < delay" "attempt \<le> po_max_attempts policy"
    and "retry_loop policy attempt delay operation st = (r, delays, st')"
  shows "attempt + int (length delays) \<le> po_max_attempts policy \<and>
    (r, st') = operation (((\<lambda>s. snd (operation s)) ^^ length delays) st) \<and>
    (\<forall>i<length delays. \<exists>e. fst (operation (((\<lambda>s. snd (operation s)) ^^ i) st)) = Inl e \<and> is_retryable_persistence_error e) \<and>
    (\<forall>e. r = Inl e \<longrightarrow> \<not> is_retryable_persistence_error e \<or> attempt + int (length delays) = po_max_attempts policy) \<and>
    (\<forall>d\<in>set delays. 0 < d \<and> d \<le> max delay (po_max_delay policy))"
  using assms
proof (induction policy attempt delay operation st arbitrary: r delays st' rule: retry_loop.induct)
  case (1 policy attempt delay operation st)
  obtain x s where op: "operation st = (x, s)" by (cases "operation st")
  show ?case
  proof (cases "\<exists>e. x = Inl e \<and> attempt < po_max_attempts policy \<and> is_retryable_persistence_error e")
    case False
    with op "1.prems" have "r = x \<and> delays = [] \<and> st' = s"
      by (subst (asm) retry_loop.simps) (auto split: sum.split_asm if_split_asm)
    with op "1.prems" False show ?thesis by auto
  next
    case True
    then obtain e where e: "x = Inl e" "attempt < po_max_attempts policy" "is_retryable_persistence_error e" by blast
    obtain r1 ds st1 where rec: "retry_loop policy (attempt + 1) (next_delay policy delay) operation s = (r1, ds, st1)"
      by (cases "retry_loop policy (attempt + 1) (next_delay policy delay) operation s")
    with op e "1.prems" have res: "r = r1" "delays = delay # ds" "st' = st1"
      by (subst (asm) retry_loop.simps, auto)+
    note delay = next_delay_bounds [OF "1.prems"(1-4)]
    let ?n = "\<lambda>i. ((\<lambda>s. snd (operation s)) ^^ i)"
    have unroll: "?n (Suc i) st = ?n i s" for i by (simp add: op funpow_Suc_right del: funpow.simps)
    from "1.IH" [OF op [symmetric] e(1) _ "1.prems"(1-3) delay(1) _ rec] e
    have IH: "attempt + 1 + int (length ds) \<le> po_max_attempts policy" "(r1, st1) = operation (?n (length ds) s)"
      "\<And>i. i < length ds \<Longrightarrow> \<exists>e. fst (operation (?n i s)) = Inl e \<and> is_retryable_persistence_error e"
      "\<And>e. r1 = Inl e \<Longrightarrow> \<not> is_retryable_persistence_error e \<or> attempt + 1 + int (length ds) = po_max_attempts policy"
      "\<And>d. d \<in> set ds \<Longrightarrow> 0 < d \<and> d \<le> max (next_delay policy delay) (po_max_delay policy)"
      by auto
    have "\<exists>e. fst (operation (?n i st)) = Inl e \<and> is_retryable_persistence_error e" if "i < Suc (length ds)" for i
    proof (cases i)
      case 0
      with op e show ?thesis by simp
    next
      case (Suc j)
      with that IH(3) [of j] show ?thesis by (simp only: unroll)
    qed
    moreover have "0 < d \<and> d \<le> max delay (po_max_delay policy)" if "d \<in> set (delay # ds)" for d
      using that IH(5) [of d] delay(2) "1.prems"(4) by auto
    ultimately show ?thesis using IH(1,2,4) by (simp only: res list.size unroll add_Suc_right) auto
  qed
qed


text \<open>A store call is repeated only as the policy allows: it is made at most \<^verbatim>\<open>max_attempts\<close> times, every
  attempt before the last failed transiently, the outcome is the one of the last attempt, an error comes out only if
  it is permanent or the attempts are used up, and no pause exceeds the bounds of the policy.\<close>

theorem retry_bounded:
  assumes "0 < po_initial_delay policy" "0 < po_max_delay policy" "0 < po_backoff_factor policy" "1 \<le> po_max_attempts policy"
    and "retry_loop policy 1 (po_initial_delay policy) operation st = (r, delays, st')"
  shows "let nth_state = (\<lambda>i. ((\<lambda>s. snd (operation s)) ^^ i) st) in
    1 + int (length delays) \<le> po_max_attempts policy \<and>
    (r, st') = operation (nth_state (length delays)) \<and>
    (\<forall>i<length delays. \<exists>e. fst (operation (nth_state i)) = Inl e \<and> is_retryable_persistence_error e) \<and>
    (\<forall>e. r = Inl e \<longrightarrow> \<not> is_retryable_persistence_error e \<or> 1 + int (length delays) = po_max_attempts policy) \<and>
    (\<forall>d\<in>set delays. 0 < d \<and> d \<le> max (po_initial_delay policy) (po_max_delay policy))"
  unfolding Let_def by (rule retry_loop_runs [OF assms(1-3) assms(1,4,5)])

text \<open>A store that is locked for its first calls.\<close>

definition locked_calls :: "int \<Rightarrow> (int, unit) store_call" where
  "locked_calls n st =
     (if st < n then Inl (PyException ''wrapped'' None [PyException ''database is locked'' (Some 5) []]) else Inr (), st + 1)"

theorem retry_bounded_witness:
  "1 + int (length (fst (snd (retry_loop default_policy 1 (po_initial_delay default_policy) (locked_calls 2) 0)))) \<le> 5"
proof -
  obtain r delays st' where run: "retry_loop default_policy 1 (po_initial_delay default_policy) (locked_calls 2) 0 = (r, delays, st')"
    by (cases "retry_loop default_policy 1 (po_initial_delay default_policy) (locked_calls 2) 0")
  have "1 + int (length delays) \<le> po_max_attempts default_policy"
    using retry_bounded [OF _ _ _ _ run] by (simp add: default_policy_def Let_def)
  then show ?thesis by (simp add: run) (simp add: default_policy_def)
qed


section \<open>The interface of a run store\<close>

text \<open>\<open>touches\<close>: a call for a run loses no row, whether it succeeds or fails, and changes no row of another run.\<close>

definition row_kept :: "('st \<Rightarrow> string \<Rightarrow> run_row option) \<Rightarrow> string \<Rightarrow> 'st \<Rightarrow> 'st \<Rightarrow> bool" where
  "row_kept row_of rid st st' \<longleftrightarrow>
     (\<forall>k. (row_of st k \<noteq> None \<longrightarrow> row_of st' k \<noteq> None) \<and> (k \<noteq> rid \<longrightarrow> row_of st' k = row_of st k))"

definition touches :: "('st \<Rightarrow> string \<Rightarrow> run_row option) \<Rightarrow> string \<Rightarrow> ('st, 'a) store_call \<Rightarrow> bool" where
  "touches row_of rid call \<longleftrightarrow> (\<forall>st. row_kept row_of rid st (snd (call st)))"

lemma row_kept_refl: "row_kept row_of rid st st"
  by (simp add: row_kept_def)

lemma row_kept_trans: "row_kept row_of rid s t \<Longrightarrow> row_kept row_of rid t u \<Longrightarrow> row_kept row_of rid s u"
  by (simp add: row_kept_def)

text \<open>A retried call is a call: it keeps what each attempt keeps, and a success is the success of its last attempt.\<close>

lemma retry_touches:
  assumes "touches row_of rid call"
  shows "row_kept row_of rid st (snd (snd (retry_loop policy attempt delay call st))) \<and>
    (\<forall>x. fst (retry_loop policy attempt delay call st) = Inr x \<longrightarrow>
      (\<exists>st0. row_kept row_of rid st st0 \<and> call st0 = (Inr x, snd (snd (retry_loop policy attempt delay call st)))))"
  using assms
proof (induction policy attempt delay call st rule: retry_loop.induct)
  case (1 policy attempt delay call st)
  obtain x s where call: "call st = (x, s)" by (cases "call st")
  have kept: "row_kept row_of rid st s" using "1.prems" call by (metis snd_conv touches_def)
  show ?case
  proof (cases "\<exists>e. x = Inl e \<and> \<not> (attempt \<ge> po_max_attempts policy \<or> \<not> is_retryable_persistence_error e)")
    case False
    then have "retry_loop policy attempt delay call st = (x, [], s)"
      by (subst retry_loop.simps) (auto simp: call split: sum.split)
    with call kept show ?thesis by (auto intro: row_kept_refl)
  next
    case True
    then obtain e where e: "x = Inl e" "\<not> (attempt \<ge> po_max_attempts policy \<or> \<not> is_retryable_persistence_error e)" by blast
    obtain r ds s' where rec: "retry_loop policy (attempt + 1) (next_delay policy delay) call s = (r, ds, s')"
      by (cases "retry_loop policy (attempt + 1) (next_delay policy delay) call s")
    then have "retry_loop policy attempt delay call st = (r, (if delay > 0 then delay # ds else ds), s')"
      using e by (subst retry_loop.simps) (simp add: call)
    with "1.IH" [OF call [symmetric] e "1.prems"] rec kept show ?thesis by (auto intro: row_kept_trans)
  qed
qed

lemma call_touches:
  assumes "touches row_of rid call" and "call_store_with_retry policy call st = (r, st')"
  shows "row_kept row_of rid st st'"
    and "r = Inr x \<Longrightarrow> \<exists>st0. row_kept row_of rid st st0 \<and> call st0 = (Inr x, st')"
  using retry_touches [OF assms(1), of st policy 1 "po_initial_delay policy"] assms(2)
  by (auto simp: call_store_with_retry_def split: prod.split_asm)

locale run_store =
  fixes ops :: "'st store_ops"
    and row_of :: "'st \<Rightarrow> string \<Rightarrow> run_row option"
  assumes put_touches: "touches row_of rid (so_put ops rid p)"
    and get_touches: "touches row_of rid (so_get ops rid user)"
    and list_touches: "touches row_of rid (so_list_by_thread ops tid user limit)"
    and status_touches: "touches row_of rid (so_update_status ops rid s err)"
    and model_touches: "touches row_of rid (so_update_model_name ops rid model)"
    and completion_touches: "touches row_of rid (so_update_run_completion ops rid s usage err)"
    and progress_touches: "touches row_of rid (so_update_run_progress ops rid usage)"
    and inflight_touches: "touches row_of rid (so_list_inflight ops before)"
    and put_stores: "so_put ops rid p st = (Inr u, st') \<Longrightarrow>
      \<exists>row. row_of st' rid = Some row \<and> rr_thread_id row = pp_thread_id p \<and> rr_status row = pp_status p \<and> rr_error row = pp_error p"
    and status_stores: "so_update_status ops rid s err st = (Inr updated, st') \<Longrightarrow> updated \<noteq> Some False \<Longrightarrow> row_of st rid \<noteq> None \<Longrightarrow>
      \<exists>row. row_of st' rid = Some row \<and> rr_status row = s \<and> (err \<noteq> None \<longrightarrow> rr_error row = err)"
begin

text \<open>No store call removes a row, and no operation but admission registers a run.\<close>

definition grows :: "'st run_manager \<Rightarrow> 'st run_manager \<Rightarrow> bool" where
  "grows mg mg' \<longleftrightarrow>
     (case (rm_store mg, rm_store mg') of
        (None, None) \<Rightarrow> True
      | (Some st, Some st') \<Rightarrow> \<forall>k. row_of st k \<noteq> None \<longrightarrow> row_of st' k \<noteq> None
      | _ \<Rightarrow> False)"

definition persisted :: "'st run_manager \<Rightarrow> bool" where
  "persisted mg \<longleftrightarrow> (\<forall>st rid. rm_store mg = Some st \<longrightarrow> dget (rm_runs mg) rid \<noteq> None \<longrightarrow> row_of st rid \<noteq> None)"

lemma grows_refl [simp]: "grows mg mg"
  by (simp add: grows_def split: option.split)

lemma grows_trans: "grows a b \<Longrightarrow> grows b c \<Longrightarrow> grows a c"
  by (auto simp: grows_def split: option.split_asm)

lemma grows_same: "rm_store b = rm_store a \<Longrightarrow> grows a b"
  by (simp add: grows_def split: option.split)

lemma with_store_grows:
  assumes "touches row_of rid call"
  shows "grows mg (snd (with_store call mg))" and "grows mg (snd (with_store_once call mg))"
proof -
  have "row_kept row_of rid st (snd (call_store_with_retry (rm_policy mg) call st))" for st
    by (rule call_touches(1) [OF assms]) (rule prod.collapse [symmetric])
  moreover have "row_kept row_of rid st (snd (call st))" for st using assms by (simp add: touches_def)
  ultimately show "grows mg (snd (with_store call mg))" and "grows mg (snd (with_store_once call mg))"
    by (auto simp: grows_def with_store_def with_store_once_def row_kept_def case_prod_unfold Let_def split: option.split)
qed

lemma snapshot_grows: "grows mg (snd (persist_snapshot_to_store ops rid p mg))"
  using with_store_grows(1) [OF put_touches, of mg rid p]
  by (auto simp: persist_snapshot_to_store_def case_prod_unfold split: option.split sum.split)

lemma status_grows: "grows mg (snd (persist_status ops r s e mg))"
  using with_store_grows(1) [OF status_touches, of mg "rec_run_id r" "status_value s" e] snapshot_grows
  by (auto simp: persist_status_def case_prod_unfold split: option.split sum.split intro: grows_trans)

lemma interrupted_grows: "grows mg (persist_interrupted ops rs mg)"
  by (induction rs arbitrary: mg) (auto intro: grows_trans status_grows)

lemma reconcile_rows_grows: "grows mg (snd (reconcile_rows ops now e rows mg))"
proof (induction rows arbitrary: mg)
  case (Cons row rows)
  then show ?case
    using grows_trans [OF status_grows Cons.IH]
    by (simp add: case_prod_unfold Let_def split: option.split)
qed simp

lemma persisted_grows:
  assumes "persisted mg" and "grows mg mg'" and "\<And>k. dget (rm_runs mg') k \<noteq> None \<Longrightarrow> dget (rm_runs mg) k \<noteq> None"
  shows "persisted mg'"
  using assms by (auto simp: persisted_def grows_def split: option.split_asm)

lemma persisted_frame: "persisted mg \<Longrightarrow> grows mg mg' \<Longrightarrow> rm_runs mg' = rm_runs mg \<Longrightarrow> persisted mg'"
  by (rule persisted_grows) simp_all

lemma persisted_edit: "persisted mg \<Longrightarrow> persisted (edit rid f mg)"
  by (rule persisted_grows) (auto simp: edit_get grows_same split: if_split_asm)

lemma persisted_fold_edit: "persisted mg \<Longrightarrow> persisted (fold (\<lambda>x. edit (g x) (f x)) xs mg)"
  by (induction xs arbitrary: mg) (auto intro: persisted_edit)

lemma persisted_cleanup: "persisted mg \<Longrightarrow> persisted (cleanup rid mg)"
  by (auto simp: cleanup_def persisted_def split: option.split)

lemma new_run_stores:
  assumes "persist_new_run_to_store ops r mg = (Inr u, mg')" and "rm_store mg' = Some st'"
  shows "\<exists>row. row_of st' (rec_run_id r) = Some row \<and> rr_thread_id row = rec_thread_id r \<and> rr_status row = status_value (rec_status r)"
proof -
  let ?call = "so_put ops (rec_run_id r) (store_put_payload r None)"
  from assms obtain st where "call_store_with_retry (rm_policy mg) ?call st = (Inr u, st')"
    by (auto simp: persist_new_run_to_store_def with_store_def Let_def split: option.split_asm prod.split_asm)
  then obtain st0 where "?call st0 = (Inr u, st')" using call_touches(2) [OF put_touches] by blast
  from put_stores [OF this] show ?thesis by (auto simp: store_put_payload_def)
qed

lemma new_run_grows: "grows mg (snd (persist_new_run_to_store ops r mg))"
  using with_store_grows(1) [OF put_touches, of mg "rec_run_id r" "store_put_payload r None"]
  by (auto simp: persist_new_run_to_store_def case_prod_unfold split: option.split)

lemma persisted_register:
  assumes "persisted mg"
  shows "persisted (snd (register_persisted ops r mg))"
proof -
  obtain x mg1 where run: "persist_new_run_to_store ops r (register r mg) = (x, mg1)"
    by (cases "persist_new_run_to_store ops r (register r mg)")
  have "grows mg (register r mg)" by (simp add: register_def grows_same)
  with new_run_grows [of "register r mg" r] run have "grows mg mg1" by (auto intro: grows_trans)
  moreover have runs: "rm_runs mg1 = dset (rec_run_id r) r (rm_runs mg)"
    using new_run_frame(1) [of ops r "register r mg", unfolded run] by (simp add: register_def)
  ultimately have others: "row_of st1 k \<noteq> None" if "rm_store mg1 = Some st1" "k \<noteq> rec_run_id r" "dget (rm_runs mg1) k \<noteq> None" for st1 k
    using assms that by (auto simp: persisted_def grows_def split: option.split_asm)
  show ?thesis
  proof (cases x)
    case (Inl e)
    with others runs show ?thesis by (auto simp: register_persisted_def run persisted_def unregister_def split: if_split_asm)
  next
    case (Inr u)
    with new_run_stores run have "row_of st1 (rec_run_id r) \<noteq> None" if "rm_store mg1 = Some st1" for st1
      using that by fastforce
    with others have "persisted mg1" unfolding persisted_def by metis
    with Inr show ?thesis by (simp add: register_persisted_def run)
  qed
qed

lemma persisted_admit:
  assumes "persisted mg"
  shows "persisted (snd (create_or_reject ops now rid tid aid disc md kw strategy model user mg))"
proof -
  let ?mg1 = "snd (register_persisted ops (new_record now rid tid aid disc md kw strategy user model) mg)"
  have one: "persisted ?mg1" using assms by (rule persisted_register)
  have "persisted (persist_interrupted ops ys (fold (\<lambda>x. edit (rec_run_id x) (\<lambda>_. x)) xs ?mg1))" for xs ys
    by (rule persisted_frame [OF persisted_fold_edit [OF one] interrupted_grows]) simp
  with assms one show ?thesis
    unfolding create_or_reject_outcome Let_def by (simp del: insert_iff split: if_split sum.split)
qed

lemma completion_grows:
  fixes mg :: "'st run_manager"
  shows "grows mg (update_run_completion ops now rid s usage error mg)"
proof -
  let ?mg1 = "edit rid (\<lambda>r. r\<lparr>rec_usage := merge_usage usage (rec_usage r), rec_error := given error (rec_error r), rec_updated_at := now\<rparr>) mg"
  let ?c = "\<lambda>m. snd (with_store (so_update_run_completion ops rid s usage error) m)"
  have g: "grows m (?c m)" for m by (rule with_store_grows(1) [OF completion_touches])
  have 1: "grows mg (?c ?mg1)" using grows_trans [OF grows_same g] by simp
  have 2: "grows mg (snd (persist_snapshot_to_store ops rid p (?c ?mg1)))" for p using 1 snapshot_grows by (rule grows_trans)
  have 3: "grows mg (?c (snd (persist_snapshot_to_store ops rid p (?c ?mg1))))" for p using 2 g by (rule grows_trans)
  show ?thesis
    unfolding update_run_completion_def Let_def case_prod_unfold
    by (auto simp: 1 2 3 split: option.split sum.split bool.split)
qed

lemma persisted_step:
  assumes "manager_step ops mg mg'" and "persisted mg"
  shows "persisted mg'"
  using assms
proof (induction rule: manager_step.induct)
  case (mg_completion mg now rid s usage error)
  moreover have "dget (rm_runs mg) k \<noteq> None" if "dget (rm_runs (update_run_completion ops now rid s usage error mg)) k \<noteq> None" for k
    using that by (auto simp: update_run_completion_def Let_def case_prod_unfold edit_get split: option.split_asm sum.split_asm bool.split_asm if_split_asm)
  ultimately show ?case by (intro persisted_grows [OF _ completion_grows])
next
  case (mg_progress mg now rid usage)
  then show ?case
    using persisted_frame [OF persisted_edit with_store_grows(2) [OF progress_touches]] persisted_frame [OF _ with_store_grows(2) [OF progress_touches]]
    by (simp add: update_run_progress_def split: option.split)
next
  case (mg_status mg now rid s error)
  then show ?case
    using persisted_frame [OF persisted_edit status_grows] by (simp add: set_status_def Let_def split: option.split)
next
  case (mg_model mg now rid model)
  then show ?case
    using persisted_frame [OF persisted_edit with_store_grows(1) [OF model_touches]]
    by (simp add: update_model_name_def persist_model_name_def split: option.split)
next
  case (mg_cancel mg now rid action)
  then show ?case
    using persisted_frame [OF persisted_edit status_grows] by (simp add: cancel_def Let_def split: option.split)
next
  case (mg_get mg rid user)
  then show ?case
    using persisted_frame [OF _ with_store_grows(2) [OF get_touches]]
    by (simp add: get_run_def case_prod_unfold split: option.split sum.split)
next
  case (mg_list mg tid user limit)
  then show ?case
    using persisted_frame [OF _ with_store_grows(2) [OF list_touches]]
    by (simp add: list_by_thread_def Let_def case_prod_unfold split: option.split sum.split)
next
  case (mg_reconcile mg now err before)
  then have "persisted (snd (with_store (so_list_inflight ops before) mg))"
    using persisted_frame [OF _ with_store_grows(1) [OF inflight_touches]] by simp
  then show ?case
    using persisted_frame [OF _ reconcile_rows_grows]
    by (simp add: reconcile_orphaned_inflight_runs_def case_prod_unfold split: option.split sum.split)
next
  case (mg_drained rs mg now in_time)
  then show ?case
    unfolding shutdown_finish_def Let_def using persisted_frame [OF persisted_fold_edit interrupted_grows] by simp
qed (auto simp: create_def set_finalizing_def shutdown_begin_def Let_def
    intro: persisted_register persisted_admit persisted_edit persisted_fold_edit persisted_cleanup)

end

sublocale run_store \<subseteq> kept: invariant_system "manager_step ops" persisted
  by unfold_locales (rule persisted_step)

context run_store
begin

text \<open>Whoever can see a run in the registry finds its row in the store.\<close>

lemma registered_runs_have_rows:
  assumes "(manager_step ops)\<^sup>*\<^sup>* (empty_manager policy (Some st0)) mg" and "rm_store mg = Some st" and "dget (rm_runs mg) rid \<noteq> None"
  shows "row_of st rid \<noteq> None"
proof -
  have "persisted mg"
    using assms(1) by (rule kept.inv_steps) (simp add: persisted_def empty_manager_def)
  with assms(2,3) show ?thesis by (simp add: persisted_def)
qed

text \<open>A status reported as persisted is the status of the row.\<close>

lemma reported_status_is_stored:
  assumes "persist_status ops r s err mg = (True, mg')" and "rec_status r = s"
    and "rm_store mg = Some st" and "row_of st (rec_run_id r) \<noteq> None"
  shows "\<exists>st' row. rm_store mg' = Some st' \<and> row_of st' (rec_run_id r) = Some row \<and> rr_status row = status_value s"
proof -
  let ?call = "so_update_status ops (rec_run_id r) (status_value s) err"
  obtain x st1 where run: "call_store_with_retry (rm_policy mg) ?call st = (x, st1)"
    by (cases "call_store_with_retry (rm_policy mg) ?call st")
  from assms(1,3) run obtain updated where x: "x = Inr updated"
    by (cases x) (auto simp: persist_status_def with_store_def)
  show ?thesis
  proof (cases "updated = Some False")
    case True
    let ?put = "so_put ops (rec_run_id r) (store_put_payload r err)"
    from assms(1,3) run x True obtain st2 where "call_store_with_retry (rm_policy mg) ?put st1 = (Inr (), st2)" "rm_store mg' = Some st2"
      by (auto simp: persist_status_def with_store_def persist_snapshot_to_store_def Let_def split: prod.split_asm sum.split_asm)
    moreover from this(1) obtain st0 where "?put st0 = (Inr (), st2)" using call_touches(2) [OF put_touches] by blast
    ultimately show ?thesis using put_stores [of "rec_run_id r" _ st0 _ st2] assms(2) by (fastforce simp: store_put_payload_def)
  next
    case False
    from call_touches(2) [OF status_touches run x] obtain st0 where "row_kept row_of (rec_run_id r) st st0" and c: "?call st0 = (Inr updated, st1)" by blast
    with assms(4) have "row_of st0 (rec_run_id r) \<noteq> None" by (simp add: row_kept_def)
    moreover have "rm_store mg' = Some st1"
      using assms(1,3) run x False by (auto simp: persist_status_def with_store_def)
    ultimately show ?thesis using status_stores [OF c False] by blast
  qed
qed

end


section \<open>The in-memory store, and calls that fail\<close>

definition memory_row :: "memory_store \<Rightarrow> string \<Rightarrow> run_row option" where
  "memory_row st rid = dget (ms_runs st) rid"

lemma update_row_get:
  "memory_row (snd (update_row rid f st)) k = (if k = rid then map_option f (memory_row st rid) else memory_row st k)"
  by (simp add: memory_row_def update_row_def split: option.split)

lemma memory_put_get:
  "memory_row (store_put now rid p st) rid \<noteq> None" "k \<noteq> rid \<Longrightarrow> memory_row (store_put now rid p st) k = memory_row st k"
  by (simp_all add: memory_row_def store_put_def)

lemma update_row_touches: "row_kept memory_row rid st (snd (update_row rid f st))"
  by (simp add: row_kept_def update_row_get)

lemma put_row_touches: "row_kept memory_row rid st (store_put now rid p st)"
  unfolding row_kept_def using memory_put_get by metis

lemmas memory_op_defs = memory_ops_def store_update_status_def store_update_model_name_def
  store_update_run_completion_def store_update_run_progress_def update_row_touches put_row_touches row_kept_refl

interpretation mem_store: run_store "memory_ops now" memory_row for now
proof unfold_locales
  show "\<exists>row. memory_row st' rid = Some row \<and> rr_thread_id row = pp_thread_id p \<and> rr_status row = pp_status p \<and> rr_error row = pp_error p"
    if "so_put (memory_ops now) rid p st = (Inr u, st')" for rid p st u st'
    using that by (auto simp: memory_ops_def memory_row_def store_put_def)
  show "\<exists>row. memory_row st' rid = Some row \<and> rr_status row = s \<and> (err \<noteq> None \<longrightarrow> rr_error row = err)"
    if "so_update_status (memory_ops now) rid s err st = (Inr updated, st')" "updated \<noteq> Some False" "memory_row st rid \<noteq> None"
    for rid s err st updated st'
    using that by (auto simp: memory_ops_def store_update_status_def update_row_def memory_row_def given_def split: option.split_asm)
qed (simp_all add: touches_def memory_op_defs case_prod_unfold Let_def split: option.split)

text \<open>A schedule fixes the time of every call and which calls fail, and how.\<close>

type_synonym schedule = "(string \<times> py_exception option) list"

definition scheduled ::
  "(memory_store store_ops \<Rightarrow> (memory_store, 'a) store_call) \<Rightarrow> (schedule \<times> memory_store, 'a) store_call" where
  "scheduled call s =
     (case s of
        ((_, Some e) # calls, st) \<Rightarrow> (Inl e, (calls, st))
      | ((now, None) # calls, st) \<Rightarrow> (let (r, st') = call (memory_ops now) st in (r, (calls, st')))
      | ([], st) \<Rightarrow> (let (r, st') = call (memory_ops '''') st in (r, ([], st'))))"

definition scheduled_ops :: "(schedule \<times> memory_store) store_ops" where
  "scheduled_ops =
     \<lparr>so_put = (\<lambda>rid p. scheduled (\<lambda>ops. so_put ops rid p)),
      so_get = (\<lambda>rid user. scheduled (\<lambda>ops. so_get ops rid user)),
      so_list_by_thread = (\<lambda>tid user limit. scheduled (\<lambda>ops. so_list_by_thread ops tid user limit)),
      so_update_status = (\<lambda>rid s err. scheduled (\<lambda>ops. so_update_status ops rid s err)),
      so_update_model_name = (\<lambda>rid model. scheduled (\<lambda>ops. so_update_model_name ops rid model)),
      so_update_run_completion = (\<lambda>rid s usage err. scheduled (\<lambda>ops. so_update_run_completion ops rid s usage err)),
      so_update_run_progress = (\<lambda>rid usage. scheduled (\<lambda>ops. so_update_run_progress ops rid usage)),
      so_list_inflight = (\<lambda>before. scheduled (\<lambda>ops. so_list_inflight ops before))\<rparr>"

definition scheduled_row :: "schedule \<times> memory_store \<Rightarrow> string \<Rightarrow> run_row option" where
  "scheduled_row s = memory_row (snd s)"

lemma scheduled_touches:
  assumes "\<And>now. touches memory_row rid (call (memory_ops now))"
  shows "touches scheduled_row rid (scheduled call)"
  using assms
  by (auto simp: touches_def row_kept_def scheduled_def scheduled_row_def case_prod_unfold Let_def split: list.split option.split)

lemma scheduled_result:
  assumes "scheduled call s = (Inr x, s')"
  obtains now where "call (memory_ops now) (snd s) = (Inr x, snd s')"
  using assms
  by (cases s) (auto simp: scheduled_def case_prod_unfold Let_def prod_eq_iff split: list.split_asm option.split_asm)

interpretation failing: run_store scheduled_ops scheduled_row
proof unfold_locales
  show "\<exists>row. scheduled_row s' rid = Some row \<and> rr_thread_id row = pp_thread_id p \<and> rr_status row = pp_status p \<and> rr_error row = pp_error p"
    if "so_put scheduled_ops rid p s = (Inr u, s')" for rid p s u s'
  proof -
    from that have "scheduled (\<lambda>ops. so_put ops rid p) s = (Inr u, s')" by (simp add: scheduled_ops_def)
    then obtain now where "so_put (memory_ops now) rid p (snd s) = (Inr u, snd s')" by (rule scheduled_result)
    from mem_store.put_stores [OF this] show ?thesis by (simp add: scheduled_row_def)
  qed
  show "\<exists>row. scheduled_row s' rid = Some row \<and> rr_status row = st \<and> (err \<noteq> None \<longrightarrow> rr_error row = err)"
    if "so_update_status scheduled_ops rid st err s = (Inr updated, s')" "updated \<noteq> Some False" "scheduled_row s rid \<noteq> None"
    for rid st err s updated s'
  proof -
    from that(1) have "scheduled (\<lambda>ops. so_update_status ops rid st err) s = (Inr updated, s')" by (simp add: scheduled_ops_def)
    then obtain now where "so_update_status (memory_ops now) rid st err (snd s) = (Inr updated, snd s')" by (rule scheduled_result)
    from mem_store.status_stores [OF this that(2)] that(3) show ?thesis by (simp add: scheduled_row_def)
  qed
qed (simp_all add: scheduled_ops_def scheduled_touches mem_store.put_touches mem_store.get_touches mem_store.list_touches
    mem_store.status_touches mem_store.model_touches mem_store.completion_touches mem_store.progress_touches mem_store.inflight_touches)


section \<open>Visibility and durability\<close>

text \<open>C13. A run that can be seen in the registry has its row in the store, whatever the registry has been asked
  to do and whichever calls of the store failed on the way.\<close>

theorem visible_runs_are_persisted:
  assumes "(manager_step scheduled_ops)\<^sup>*\<^sup>* (empty_manager policy (Some (calls, empty_store))) mg"
    and "dget (rm_runs mg) rid = Some r" and "rm_store mg = Some (calls', st)"
  shows "\<exists>row. dget (ms_runs st) rid = Some row"
  using failing.registered_runs_have_rows [OF assms(1,3), of rid] assms(2)
  by (simp add: scheduled_row_def memory_row_def)

text \<open>A run created while the store is locked for one call.\<close>

definition locked :: py_exception where
  "locked = PyException ''(sqlite3.OperationalError) Database is locked'' None []"

definition demo_scheduled :: "(schedule \<times> memory_store) run_manager" where
  "demo_scheduled = snd (create_or_reject scheduled_ops ''1'' ''r1'' ''t'' None Cancel [] [] ''reject'' None None
     (empty_manager default_policy (Some ([(''1'', Some locked), (''2'', None)], empty_store))))"

lemma demo_scheduled_reachable:
  "(manager_step scheduled_ops)\<^sup>*\<^sup>* (empty_manager default_policy (Some ([(''1'', Some locked), (''2'', None)], empty_store))) demo_scheduled"
  unfolding demo_scheduled_def by (intro r_into_rtranclp [of "manager_step scheduled_ops"] mg_admit) (simp add: empty_manager_def)

lemma demo_scheduled_state:
  "map_option rec_status (dget (rm_runs demo_scheduled) ''r1'') = Some Pending"
  "map_option (map rr_run_id \<circ> dvals \<circ> ms_runs \<circ> snd) (rm_store demo_scheduled) = Some [''r1'']"
  by code_simp+

theorem visible_runs_are_persisted_witness:
  "\<exists>st row. map_option snd (rm_store demo_scheduled) = Some st \<and> dget (ms_runs st) ''r1'' = Some row"
proof -
  obtain r where "dget (rm_runs demo_scheduled) ''r1'' = Some r" using demo_scheduled_state(1) by auto
  moreover obtain calls st where "rm_store demo_scheduled = Some (calls, st)" using demo_scheduled_state(2) by auto
  ultimately show ?thesis using visible_runs_are_persisted [OF demo_scheduled_reachable] by fastforce
qed

text \<open>A status change that is reported as persisted is the status of the stored row, also when the row had to
  be written again and whichever attempts failed before.\<close>

theorem reported_status_is_durable:
  assumes "(manager_step scheduled_ops)\<^sup>*\<^sup>* (empty_manager policy (Some (calls, empty_store))) mg"
    and "dget (rm_runs mg) rid = Some r" and "rec_run_id r' = rid" and "rec_status r' = s"
    and "persist_status scheduled_ops r' s err mg = (True, mg')" and "rm_store mg = Some store"
  shows "\<exists>calls' st row. rm_store mg' = Some (calls', st) \<and> dget (ms_runs st) rid = Some row \<and> rr_status row = status_value s"
proof -
  have "scheduled_row store (rec_run_id r') \<noteq> None"
    using failing.registered_runs_have_rows [OF assms(1,6), of rid] assms(2,3) by simp
  from failing.reported_status_is_stored [OF assms(5,4,6) this] assms(3) show ?thesis
    by (auto simp: scheduled_row_def memory_row_def)
qed

definition demo_interrupted :: run_record where
  "demo_interrupted = (new_record ''1'' ''r1'' ''t'' None Cancel [] [] ''reject'' None None)\<lparr>rec_status := Interrupted\<rparr>"

theorem reported_status_is_durable_witness:
  "\<exists>calls st row. rm_store (snd (persist_status scheduled_ops demo_interrupted Interrupted None demo_scheduled)) = Some (calls, st) \<and>
     dget (ms_runs st) ''r1'' = Some row \<and> rr_status row = ''interrupted''"
proof -
  obtain r where r: "dget (rm_runs demo_scheduled) ''r1'' = Some r" using demo_scheduled_state(1) by auto
  obtain store where store: "rm_store demo_scheduled = Some store" using demo_scheduled_state(2) by auto
  have "fst (persist_status scheduled_ops demo_interrupted Interrupted None demo_scheduled)" by code_simp
  then have "persist_status scheduled_ops demo_interrupted Interrupted None demo_scheduled =
      (True, snd (persist_status scheduled_ops demo_interrupted Interrupted None demo_scheduled))" by (simp add: prod_eq_iff)
  from reported_status_is_durable [OF demo_scheduled_reachable r _ _ this store] show ?thesis
    by (simp add: demo_interrupted_def)
qed

section \<open>Recovery after a restart\<close>

definition rows_keyed :: "memory_store \<Rightarrow> bool" where
  "rows_keyed st \<longleftrightarrow> wf_dict (ms_runs st) \<and> (\<forall>k row. dget (ms_runs st) k = Some row \<longrightarrow> rr_run_id row = k)"

lemma rows_keyed_update:
  "rows_keyed st \<Longrightarrow> (\<And>row. rr_run_id (f row) = rr_run_id row) \<Longrightarrow> rows_keyed (snd (update_row rid f st))"
  by (auto simp: rows_keyed_def update_row_def split: option.split)

interpretation keyed_rows: invariant_system store_step rows_keyed
proof
  show "rows_keyed t" if "rows_keyed s" and "store_step s t" for s t
    using that(2,1)
  proof (induction rule: store_step.induct)
    case (st_put st run_id p now)
    then show ?case by (auto simp: rows_keyed_def store_put_def)
  next
    case (st_delete st run_id)
    then show ?case by (auto simp: rows_keyed_def store_delete_def split: option.split)
  next
    case (st_progress st now run_id usage)
    then show ?case by (auto simp: store_update_run_progress_def intro: rows_keyed_update split: option.split)
  qed (auto simp: store_update_status_def store_update_model_name_def store_update_run_completion_def intro!: rows_keyed_update)
qed

text \<open>Over the in-memory store a status update reports a success, and writes the row that is there.\<close>

lemma memory_status_found:
  assumes "rm_store mg = Some st" and "dget (ms_runs st) (rec_run_id r) \<noteq> None"
  shows "persist_status (memory_ops now) r s err mg =
    (True, mg\<lparr>rm_store := Some (snd (store_update_status now (rec_run_id r) (status_value s) err st))\<rparr>)"
  using assms
  by (auto simp: persist_status_def with_store_def call_store_with_retry_def retry_loop.simps memory_ops_def
      store_update_status_def update_row_def)

definition live_active :: "'st run_manager \<Rightarrow> string \<Rightarrow> bool" where
  "live_active mg rid \<longleftrightarrow> (\<exists>live. dget (rm_runs mg) rid = Some live \<and> is_active live)"

lemma record_of_inflight_row:
  assumes "rr_status row \<in> {''pending'', ''running''}"
  obtains r where "record_from_store row = Some r" and "rec_run_id r = rr_run_id row"
  using assms by (auto simp: record_from_store_def parse_status_def)

lemma reconcile_rows_memory:
  assumes "rm_store mg = Some st"
    and "\<And>row. row \<in> set rows \<Longrightarrow> dget (ms_runs st) (rr_run_id row) \<noteq> None \<and> rr_status row \<in> {''pending'', ''running''}"
  shows "snd (reconcile_rows (memory_ops now) now err rows mg) =
      mg\<lparr>rm_store := Some (fold (\<lambda>row s. snd (store_update_status now (rr_run_id row) ''error'' (Some err) s))
        (filter (\<lambda>row. \<not> live_active mg (rr_run_id row)) rows) st)\<rparr>"
    and "map rec_run_id (fst (reconcile_rows (memory_ops now) now err rows mg)) =
      map rr_run_id (filter (\<lambda>row. \<not> live_active mg (rr_run_id row)) rows)"
  using assms
proof (atomize (full), induction rows arbitrary: mg st)
  case (Cons row rows)
  let ?st1 = "snd (store_update_status now (rr_run_id row) ''error'' (Some err) st)"
  let ?mg1 = "mg\<lparr>rm_store := Some ?st1\<rparr>"
  obtain r where r: "record_from_store row = Some r" "rec_run_id r = rr_run_id row"
    using Cons.prems by (auto intro: record_of_inflight_row [of row])
  let ?r' = "r\<lparr>rec_status := Error, rec_error := Some err, rec_updated_at := now\<rparr>"
  have live: "live_active ?mg1 = live_active mg" by (simp add: live_active_def fun_eq_iff)
  show ?case
  proof (cases "live_active mg (rr_run_id row)")
    case True
    then have "reconcile_rows (memory_ops now) now err (row # rows) mg = reconcile_rows (memory_ops now) now err rows mg"
      by (auto simp: r live_active_def)
    with Cons.IH [of mg st] Cons.prems True show ?thesis by simp
  next
    case False
    have ps: "persist_status (memory_ops now) ?r' Error (Some err) mg = (True, ?mg1)"
      using memory_status_found [of mg st ?r' now Error "Some err"] Cons.prems r by simp
    have "reconcile_rows (memory_ops now) now err (row # rows) mg =
        (?r' # fst (reconcile_rows (memory_ops now) now err rows ?mg1), snd (reconcile_rows (memory_ops now) now err rows ?mg1))"
      using False ps by (auto simp: r live_active_def case_prod_unfold Let_def split: option.split)
    moreover have "dget (ms_runs ?st1) k \<noteq> None" if "dget (ms_runs st) k \<noteq> None" for k
      using that by (auto simp: store_update_status_def update_row_def split: option.split)
    ultimately show ?thesis using Cons.IH [of ?mg1 ?st1] Cons.prems False r by (simp add: live)
  qed
qed simp

lemma fold_status_get:
  "dget (ms_runs (fold (\<lambda>row s. snd (store_update_status now (rr_run_id row) ''error'' (Some err) s)) rows st)) k =
     (if k \<in> rr_run_id ` set rows
      then map_option (\<lambda>row. row\<lparr>rr_status := ''error'', rr_error := Some err, rr_updated_at := now\<rparr>) (dget (ms_runs st) k)
      else dget (ms_runs st) k)"
proof (induction rows arbitrary: st)
  case (Cons row rows)
  let ?mark = "\<lambda>row. row\<lparr>rr_status := ''error'', rr_error := Some err, rr_updated_at := now\<rparr>"
  have one: "dget (ms_runs (snd (store_update_status now rid ''error'' (Some err) st))) i =
      (if i = rid then map_option ?mark (dget (ms_runs st) i) else dget (ms_runs st) i)" for rid i
    by (simp add: store_update_status_def update_row_def given_def split: option.split)
  have twice: "map_option ?mark (map_option ?mark x) = map_option ?mark x" for x by (cases x) simp_all
  show ?case by (simp add: Cons.IH one twice)
qed simp

lemma listed_inflight:
  "row \<in> set (store_list_inflight now before st) \<longleftrightarrow> row \<in> set (dvals (ms_runs st)) \<and>
     rr_status row \<in> {''pending'', ''running''} \<and> rr_created_at row \<le> str_default before now"
  by (auto simp: store_list_inflight_def store_list_status_def)

lemma keyed_row:
  assumes "rows_keyed st"
  shows "row \<in> set (dvals (ms_runs st)) \<longleftrightarrow> dget (ms_runs st) (rr_run_id row) = Some row"
proof -
  have wf: "wf_dict (ms_runs st)" using assms by (simp add: rows_keyed_def)
  have key: "(k, row) \<in> set (ms_runs st) \<Longrightarrow> rr_run_id row = k" for k
    using assms by (simp add: rows_keyed_def flip: dget_mem_iff [OF wf])
  have "row \<in> set (dvals (ms_runs st)) \<longleftrightarrow> (\<exists>k. (k, row) \<in> set (ms_runs st))" by force
  also have "\<dots> \<longleftrightarrow> (rr_run_id row, row) \<in> set (ms_runs st)" using key by blast
  finally show ?thesis unfolding dget_mem_iff [OF wf] .
qed

lemma reconcile_memory:
  assumes "rm_store mg = Some st"
  shows "reconcile_orphaned_inflight_runs (memory_ops now) now err before mg =
    reconcile_rows (memory_ops now) now err (store_list_inflight now before st) mg"
proof -
  have same: "mg\<lparr>rm_store := Some st\<rparr> = mg" using assms by (cases mg) simp
  have "so_list_inflight (memory_ops now) before = (\<lambda>s. (Inr (store_list_inflight now before s), s))"
    by (simp add: memory_ops_def)
  then have "with_store (so_list_inflight (memory_ops now) before) mg = (Some (Inr (store_list_inflight now before st)), mg)"
    by (simp add: with_store_def assms call_store_with_retry_def retry_loop.simps same)
  then show ?thesis by (simp add: reconcile_orphaned_inflight_runs_def)
qed

text \<open>Reconciliation after a restart over the in-memory store leaves no orphan: every row that is still pending
  or running up to the cutoff belongs to an active run of the registry. Rows of active runs are not touched,
  the recovered rows are exactly the orphans listed and are marked as errors with the given message, and the registry itself does
  not change.\<close>

theorem reconcile_recovers_orphans:
  assumes "store_step\<^sup>*\<^sup>* empty_store st" and "rm_store mg = Some st"
  shows "\<exists>recovered st'. reconcile_orphaned_inflight_runs (memory_ops now) now err before mg = (recovered, mg\<lparr>rm_store := Some st'\<rparr>) \<and>
    (\<forall>row\<in>set (store_list_inflight now before st'). live_active mg (rr_run_id row)) \<and>
    (\<forall>rid. live_active mg rid \<longrightarrow> dget (ms_runs st') rid = dget (ms_runs st) rid) \<and>
    (\<forall>rid\<in>set (map rec_run_id recovered). \<exists>row. dget (ms_runs st') rid = Some row \<and> rr_status row = ''error'' \<and> rr_error row = Some err)"
proof -
  let ?rows = "store_list_inflight now before st"
  let ?orphans = "filter (\<lambda>row. \<not> live_active mg (rr_run_id row)) ?rows"
  let ?mark = "\<lambda>row s. snd (store_update_status now (rr_run_id row) ''error'' (Some err) s)"
  let ?st' = "fold ?mark ?orphans st"
  let ?run = "reconcile_rows (memory_ops now) now err ?rows mg"
  have keyed: "rows_keyed st" using assms(1) by (rule keyed_rows.inv_steps) (simp add: rows_keyed_def empty_store_def)
  have keyed': "rows_keyed (fold ?mark rows s)" if "rows_keyed s" for rows s
    using that by (induction rows arbitrary: s) (auto intro: keyed_rows.inv_step st_status)
  have "dget (ms_runs st) (rr_run_id row) \<noteq> None \<and> rr_status row \<in> {''pending'', ''running''}" if "row \<in> set ?rows" for row
    using that by (auto simp: listed_inflight keyed_row [OF keyed] simp del: set_map)
  note run = reconcile_rows_memory [OF assms(2) this, of _ now err, where rows = ?rows]
  note final = fold_status_get [of now err ?orphans st]
  have "live_active mg (rr_run_id row)" if row: "row \<in> set (store_list_inflight now before ?st')" for row
  proof (rule ccontr)
    assume dead: "\<not> live_active mg (rr_run_id row)"
    from row have at: "dget (ms_runs ?st') (rr_run_id row) = Some row" and status: "rr_status row \<in> {''pending'', ''running''}"
      by (simp_all only: listed_inflight keyed_row [OF keyed' [OF keyed]])
    then have "rr_run_id row \<notin> rr_run_id ` set ?orphans" by (auto simp: final split: if_split_asm)
    with at have "dget (ms_runs st) (rr_run_id row) = Some row" unfolding final by (simp only: if_False)
    with row have "row \<in> set ?orphans" by (simp add: listed_inflight keyed_row [OF keyed] dead del: set_map)
    with \<open>rr_run_id row \<notin> rr_run_id ` set ?orphans\<close> show False by blast
  qed
  moreover have "dget (ms_runs ?st') rid = dget (ms_runs st) rid" if "live_active mg rid" for rid
    using that by (auto simp: final)
  moreover have "\<exists>row. dget (ms_runs ?st') rid = Some row \<and> rr_status row = ''error'' \<and> rr_error row = Some err"
    if "rid \<in> set (map rec_run_id (fst ?run))" for rid
  proof -
    have "rid \<in> set (map rr_run_id ?orphans)" using that by (simp only: run(2))
    then have "rid \<in> rr_run_id ` set ?orphans" by simp
    moreover from this obtain row where "dget (ms_runs st) rid = Some row"
      by (auto simp: listed_inflight keyed_row [OF keyed] simp del: set_map)
    ultimately show ?thesis unfolding final by (simp only: if_True) simp
  qed
  moreover have "?run = (fst ?run, mg\<lparr>rm_store := Some ?st'\<rparr>)" using run(1) by (simp add: prod_eq_iff)
  ultimately show ?thesis unfolding reconcile_memory [OF assms(2)] by blast
qed


text \<open>A registry after a restart, over a store in which a run is still marked as running.\<close>

definition demo_restarted :: memory_store where
  "demo_restarted = snd (store_update_status ''4'' ''r1'' ''running'' None demo_store)"

theorem reconcile_recovers_orphans_witness:
  "\<exists>recovered st'. reconcile_orphaned_inflight_runs (memory_ops ''5'') ''5'' ''restarted'' None (empty_manager default_policy (Some demo_restarted)) =
       (recovered, empty_manager default_policy (Some st')) \<and>
     store_list_inflight ''5'' None st' = [] \<and> map rr_run_id (store_list_inflight ''5'' None demo_restarted) = [''r1'']"
proof -
  let ?mg = "empty_manager default_policy (Some demo_restarted)"
  have "store_step\<^sup>*\<^sup>* empty_store demo_restarted"
    unfolding demo_restarted_def using demo_store_reachable by (rule rtranclp.rtrancl_into_rtrancl) (rule st_status)
  moreover have "rm_store ?mg = Some demo_restarted" by (simp add: empty_manager_def)
  ultimately obtain recovered st' where
      run: "reconcile_orphaned_inflight_runs (memory_ops ''5'') ''5'' ''restarted'' None ?mg = (recovered, ?mg\<lparr>rm_store := Some st'\<rparr>)"
      and live: "\<forall>row\<in>set (store_list_inflight ''5'' None st'). live_active ?mg (rr_run_id row)"
    using reconcile_recovers_orphans [of demo_restarted ?mg "''5''" "''restarted''" None] by blast
  have "store_list_inflight ''5'' None st' = []"
    using live by (cases "store_list_inflight ''5'' None st'") (auto simp: live_active_def empty_manager_def)
  moreover have "map rr_run_id (store_list_inflight ''5'' None demo_restarted) = [''r1'']" by code_simp
  ultimately show ?thesis using run by (simp add: empty_manager_def)
qed

section \<open>Shutdown\<close>

text \<open>The second half of shutdown interrupts the records that did not settle, and no other: a run that completed
  while the registry waited keeps its status.\<close>

lemma shutdown_keeps_settled:
  assumes "keyed mg" and live: "\<And>r. r \<in> set rs \<Longrightarrow> dget (rm_runs mg) (rec_run_id r) = Some r"
  shows "dget (rm_runs (shutdown_finish ops now rs in_time mg)) rid =
    map_option (\<lambda>r. if r \<in> set rs \<and> \<not> settled r then mark_interrupted now r else r) (dget (rm_runs mg) rid)"
proof -
  let ?g = "\<lambda>k. mark_interrupted now (the (dget (rm_runs mg) k))"
  let ?xs = "map (mark_interrupted now) (filter (\<lambda>r. \<not> settled r) rs)"
  have id [simp]: "rec_run_id (mark_interrupted now r) = rec_run_id r" for r by (simp add: mark_interrupted_def)
  have "?g (rec_run_id x) = x" if "x \<in> set ?xs" for x using that live by auto
  from fold_edit_get [of ?xs ?g mg rid, OF this]
  have run: "dget (rm_runs (shutdown_finish ops now rs in_time mg)) rid =
      (if rid \<in> rec_run_id ` set ?xs then map_option (\<lambda>_. ?g rid) (dget (rm_runs mg) rid) else dget (rm_runs mg) rid)"
    by (simp only: shutdown_finish_def Let_def interrupted_frame)
  show ?thesis
  proof (cases "dget (rm_runs mg) rid")
    case (Some r)
    have "rid \<in> rec_run_id ` set ?xs \<longleftrightarrow> (\<exists>y\<in>set rs. \<not> settled y \<and> rec_run_id y = rid)"
      by (auto simp: image_image)
    also have "\<dots> \<longleftrightarrow> r \<in> set rs \<and> \<not> settled r"
      using live Some keyed_get [OF assms(1) Some] by (metis option.inject)
    finally have hit: "rid \<in> rec_run_id ` set ?xs \<longleftrightarrow> r \<in> set rs \<and> \<not> settled r" .
    show ?thesis unfolding run hit by (simp add: Some)
  qed (simp add: run)
qed

section \<open>Listing over a store\<close>

text \<open>Three runs of a thread were created and the first has been cleaned up in memory. Asked for up to
  three runs, the registry returns two: it asks the store only for as many rows as the limit exceeds the runs in
  memory, and the store spends them on runs that are in memory too.\<close>

definition demo_create :: "string \<Rightarrow> string \<Rightarrow> memory_store run_manager \<Rightarrow> memory_store run_manager" where
  "demo_create now rid mg = snd (create (memory_ops now) now rid ''t'' None Cancel [] [] ''reject'' None mg)"

definition demo_history :: "memory_store run_manager" where
  "demo_history = cleanup ''r1'' (demo_create ''3'' ''r3'' (demo_create ''2'' ''r2'' (demo_create ''1'' ''r1''
     (empty_manager default_policy (Some empty_store)))))"

theorem listing_drops_history:
  "map rec_run_id (fst (list_by_thread (memory_ops ''4'') ''t'' None 3 demo_history)) = [''r3'', ''r2''] \<and>
   map_option (map rr_run_id \<circ> store_list_by_thread ''t'' None 3) (rm_store demo_history) = Some [''r3'', ''r2'', ''r1'']"
  by code_simp

end
