(* ===== verification/Stream_Bridge.thy ===== *)
theory Stream_Bridge
  imports Py_Values
begin

text \<open>
  The in-memory stream bridge, \<^verbatim>\<open>stream_bridge/memory.py\<close>: a bounded event log per run that producers append to and
  subscribers replay from an offset. The specification is the unbounded log of everything published for
  the run; the bridge keeps a window of it. \<^verbatim>\<open>int(time.time() * 1000)\<close> is the argument \<open>ts\<close>. A subscriber
  holds the stream object, which other tasks change between two of its turns; a turn is one pass through its
  loop under the condition variable.
\<close>

section \<open>Streams\<close>

record stream_event =
  se_id :: string
  se_event :: string
  se_data :: pyval

record run_stream =
  rs_events :: "stream_event list"
  rs_ended :: bool
  rs_start_offset :: int

definition new_stream :: run_stream where
  "new_stream = \<lparr>rs_events = [], rs_ended = False, rs_start_offset = 0\<rparr>"

record stream_bridge =
  sb_maxsize :: int
  sb_streams :: "(string, run_stream) dict"
  sb_counters :: "(string, int) dict"

definition empty_bridge :: "int \<Rightarrow> stream_bridge" where
  "empty_bridge maxsize = \<lparr>sb_maxsize = maxsize, sb_streams = [], sb_counters = []\<rparr>"

definition get_or_create_stream :: "string \<Rightarrow> stream_bridge \<Rightarrow> run_stream \<times> stream_bridge" where
  "get_or_create_stream run_id b =
     (case dget (sb_streams b) run_id of
        Some s \<Rightarrow> (s, b)
      | None \<Rightarrow> (new_stream, b\<lparr>sb_streams := dset run_id new_stream (sb_streams b),
          sb_counters := dset run_id 0 (sb_counters b)\<rparr>))"

definition event_id :: "int \<Rightarrow> int \<Rightarrow> string" where
  "event_id ts seq = int_str ts @ ''-'' @ int_str seq"

definition next_id :: "int \<Rightarrow> string \<Rightarrow> stream_bridge \<Rightarrow> string \<times> stream_bridge" where
  "next_id ts run_id b =
     (let counter = dget_default (sb_counters b) run_id 0 + 1
      in (event_id ts (counter - 1), b\<lparr>sb_counters := dset run_id counter (sb_counters b)\<rparr>))"

text \<open>\<^verbatim>\<open>event_id.rpartition("-")\<close> splits at the last dash, if there is one.\<close>

definition parse_event_seq :: "string \<Rightarrow> int option" where
  "parse_event_seq eid =
     (if CHR ''-'' \<in> set eid then parse_int (rev (takeWhile (\<lambda>c. c \<noteq> CHR ''-'') (rev eid))) else None)"

definition resolve_start_offset :: "run_stream \<Rightarrow> string option \<Rightarrow> int" where
  "resolve_start_offset s last_event_id =
     (case last_event_id of
        None \<Rightarrow> rs_start_offset s
      | Some eid \<Rightarrow>
          (case parse_event_seq eid of
             None \<Rightarrow> rs_start_offset s
           | Some seq \<Rightarrow>
               let local_index = seq - rs_start_offset s in
               if 0 \<le> local_index \<and> local_index < int (length (rs_events s)) \<and> se_id (rs_events s ! nat local_index) = eid
               then rs_start_offset s + local_index + 1
               else rs_start_offset s))"

definition publish :: "int \<Rightarrow> string \<Rightarrow> string \<Rightarrow> pyval \<Rightarrow> stream_bridge \<Rightarrow> stream_bridge" where
  "publish ts run_id event data b =
     (let (s, b1) = get_or_create_stream run_id b;
          (eid, b2) = next_id ts run_id b1;
          events = rs_events s @ [\<lparr>se_id = eid, se_event = event, se_data = data\<rparr>];
          overflow = int (length events) - sb_maxsize b;
          s' = (if int (length events) > sb_maxsize b
                then s\<lparr>rs_events := slice_from overflow events, rs_start_offset := rs_start_offset s + overflow\<rparr>
                else s\<lparr>rs_events := events\<rparr>)
      in b2\<lparr>sb_streams := dset run_id s' (sb_streams b2)\<rparr>)"

definition publish_end :: "string \<Rightarrow> stream_bridge \<Rightarrow> stream_bridge" where
  "publish_end run_id b =
     (let (s, b1) = get_or_create_stream run_id b
      in b1\<lparr>sb_streams := dset run_id (s\<lparr>rs_ended := True\<rparr>) (sb_streams b1)\<rparr>)"

text \<open>A subscription: where it starts, and one turn of its loop, which delivers an event, ends, or finds nothing and
  waits (to be woken, or to send a heartbeat).\<close>

datatype delivery = Deliver stream_event | End_Stream | Await

definition subscribe_start :: "string \<Rightarrow> string option \<Rightarrow> stream_bridge \<Rightarrow> int \<times> stream_bridge" where
  "subscribe_start run_id last_event_id b =
     (let (s, b1) = get_or_create_stream run_id b in (resolve_start_offset s last_event_id, b1))"

definition subscribe_turn :: "run_stream \<Rightarrow> int \<Rightarrow> delivery \<times> int" where
  "subscribe_turn s next_offset =
     (let next_offset = (if next_offset < rs_start_offset s then rs_start_offset s else next_offset);
          local_index = next_offset - rs_start_offset s
      in if 0 \<le> local_index \<and> local_index < int (length (rs_events s))
         then (Deliver (rs_events s ! nat local_index), next_offset + 1)
         else if rs_ended s then (End_Stream, next_offset)
         else (Await, next_offset))"

text \<open>The turns of a subscriber until it ends or waits, while the stream does not change.\<close>

function subscribe_drain :: "run_stream \<Rightarrow> int \<Rightarrow> delivery list" where
  "subscribe_drain s next_offset =
     (case subscribe_turn s next_offset of
        (Deliver e, n) \<Rightarrow> Deliver e # subscribe_drain s n
      | (d, n) \<Rightarrow> [d])"
  by pat_completeness auto
termination
  by (relation "measure (\<lambda>(s, n). nat (rs_start_offset s + int (length (rs_events s)) - n))")
    (auto simp: subscribe_turn_def Let_def split: if_split_asm)

declare subscribe_drain.simps [simp del]

definition cleanup_stream :: "string \<Rightarrow> stream_bridge \<Rightarrow> stream_bridge" where
  "cleanup_stream run_id b =
     b\<lparr>sb_streams := dpop run_id (sb_streams b), sb_counters := dpop run_id (sb_counters b)\<rparr>"

definition close_bridge :: "stream_bridge \<Rightarrow> stream_bridge" where
  "close_bridge b = b\<lparr>sb_streams := [], sb_counters := []\<rparr>"

section \<open>The log and its window\<close>

text \<open>The specification state: for every run all events published since its stream was created.\<close>

type_synonym event_log = "string \<Rightarrow> stream_event list"

inductive bridge_step :: "stream_bridge \<times> event_log \<Rightarrow> stream_bridge \<times> event_log \<Rightarrow> bool" where
  br_publish: "bridge_step (b, logs)
    (publish ts rid event data b,
     logs(rid := logs rid @ [\<lparr>se_id = event_id ts (int (length (logs rid))), se_event = event, se_data = data\<rparr>]))"
| br_end: "bridge_step (b, logs) (publish_end rid b, logs)"
| br_subscribe: "bridge_step (b, logs) (snd (subscribe_start rid lid b), logs)"
| br_cleanup: "bridge_step (b, logs) (cleanup_stream rid b, logs(rid := []))"
| br_close: "bridge_step (b, logs) (close_bridge b, \<lambda>_. [])"

definition window_of :: "int \<Rightarrow> stream_event list \<Rightarrow> run_stream \<Rightarrow> bool" where
  "window_of maxsize elog s \<longleftrightarrow>
     rs_start_offset s = max 0 (int (length elog) - maxsize) \<and> rs_events s = drop (nat (rs_start_offset s)) elog"

definition numbered :: "stream_event list \<Rightarrow> bool" where
  "numbered elog \<longleftrightarrow> (\<forall>i<length elog. \<exists>ts. se_id (elog ! i) = event_id ts (int i))"

definition run_ok :: "int \<Rightarrow> stream_event list \<Rightarrow> run_stream option \<Rightarrow> int option \<Rightarrow> bool" where
  "run_ok maxsize elog stream counter \<longleftrightarrow> numbered elog \<and>
     (case stream of
        None \<Rightarrow> elog = []
      | Some s \<Rightarrow> counter = Some (int (length elog)) \<and> window_of maxsize elog s)"

definition bridge_inv :: "int \<Rightarrow> stream_bridge \<times> event_log \<Rightarrow> bool" where
  "bridge_inv maxsize st \<longleftrightarrow> (case st of (b, logs) \<Rightarrow> 0 \<le> maxsize \<and> sb_maxsize b = maxsize \<and>
     (\<forall>rid. run_ok maxsize (logs rid) (dget (sb_streams b) rid) (dget (sb_counters b) rid)))"

lemma run_ok_new: "0 \<le> m \<Longrightarrow> run_ok m [] (Some new_stream) (Some 0)"
  by (simp add: run_ok_def numbered_def window_of_def new_stream_def)

lemma run_ok_none: "run_ok m [] None c"
  by (simp add: run_ok_def numbered_def)

lemma get_or_create_inv:
  assumes inv: "bridge_inv m (b, logs)" and got: "get_or_create_stream rid b = (s, b1)"
  shows "bridge_inv m (b1, logs)" and "dget (sb_streams b1) rid = Some s"
proof -
  have "logs rid = []" if "dget (sb_streams b) rid = None"
  proof -
    have "run_ok m (logs rid) (dget (sb_streams b) rid) (dget (sb_counters b) rid)" using inv by (simp add: bridge_inv_def)
    with that show ?thesis by (simp add: run_ok_def)
  qed
  with assms show "bridge_inv m (b1, logs)" and "dget (sb_streams b1) rid = Some s"
    by (auto simp: bridge_inv_def get_or_create_stream_def run_ok_new split: option.split_asm)
qed

lemma window_publish:
  assumes "0 \<le> m" and "window_of m elog s"
  shows "let events = rs_events s @ [e]; overflow = int (length events) - m
    in window_of m (elog @ [e]) (if int (length events) > m
      then s\<lparr>rs_events := slice_from overflow events, rs_start_offset := rs_start_offset s + overflow\<rparr>
      else s\<lparr>rs_events := events\<rparr>)"
proof (cases "int (length elog) < m")
  case True
  with assms show ?thesis by (simp add: window_of_def Let_def)
next
  case False
  then have k: "rs_start_offset s = int (length elog) - m" and ev: "rs_events s = drop (nat (int (length elog) - m)) elog"
    using assms by (simp_all add: window_of_def)
  have len: "int (length (rs_events s)) = m" using False assms(1) by (simp add: ev)
  have one: "slice_from 1 xs = drop 1 xs" for xs :: "stream_event list"
    by (cases xs) (simp_all add: slice_from_def slice_bound_def)
  have "nat (int (length elog) - m + 1) = Suc (nat (int (length elog) - m))" using False by simp
  moreover have "drop (Suc 0) (drop n elog @ [e]) = drop (Suc n) (elog @ [e])" if "n \<le> length elog" for n
    using that drop_drop [of "Suc 0" n "elog @ [e]"] by (simp del: drop_drop)
  ultimately show ?thesis
    using False assms(1) by (simp add: Let_def len window_of_def one k ev)
qed


lemma run_ok_publish:
  assumes "0 \<le> m" and "run_ok m elog (Some s) counter"
  shows "let e = \<lparr>se_id = event_id ts (int (length elog)), se_event = event, se_data = data\<rparr>;
      events = rs_events s @ [e]; overflow = int (length events) - m
    in run_ok m (elog @ [e]) (Some (if int (length events) > m
      then s\<lparr>rs_events := slice_from overflow events, rs_start_offset := rs_start_offset s + overflow\<rparr>
      else s\<lparr>rs_events := events\<rparr>)) (Some (int (length elog) + 1))"
proof -
  have "numbered (elog @ [\<lparr>se_id = event_id ts (int (length elog)), se_event = event, se_data = data\<rparr>])"
    using assms(2) by (auto simp: run_ok_def numbered_def nth_append less_Suc_eq)
  with window_publish [OF assms(1), of elog s] assms(2) show ?thesis
    unfolding run_ok_def Let_def by simp
qed

lemma publish_inv:
  assumes inv: "bridge_inv m (b, logs)"
  shows "bridge_inv m (publish ts rid event data b,
     logs(rid := logs rid @ [\<lparr>se_id = event_id ts (int (length (logs rid))), se_event = event, se_data = data\<rparr>]))"
proof -
  obtain s b1 where got: "get_or_create_stream rid b = (s, b1)" by (cases "get_or_create_stream rid b")
  note b1 = get_or_create_inv [OF inv got]
  have m: "0 \<le> m" "sb_maxsize b = m" "sb_maxsize b1 = m" using inv b1(1) by (simp_all add: bridge_inv_def)
  have ok: "run_ok m (logs r) (dget (sb_streams b1) r) (dget (sb_counters b1) r)" for r using b1(1) by (simp add: bridge_inv_def)
  then have "run_ok m (logs rid) (Some s) (dget (sb_counters b1) rid)" using b1(2) by metis
  then have "dget_default (sb_counters b1) rid 0 = int (length (logs rid))" by (simp add: run_ok_def dget_default_def)
  then show ?thesis
    using run_ok_publish [OF m(1) \<open>run_ok m (logs rid) (Some s) _\<close>, of ts event data] ok m
    by (simp add: bridge_inv_def publish_def got next_id_def Let_def split: if_split_asm)
qed

interpretation bridge: invariant_system bridge_step "bridge_inv m" for m
proof
  show "bridge_inv m t" if inv: "bridge_inv m s" and step: "bridge_step s t" for s t
    using step inv
  proof (induction rule: bridge_step.induct)
    case (br_publish b logs ts rid event data)
    then show ?case by (rule publish_inv)
  next
    case (br_end b logs rid)
    obtain s b1 where got: "get_or_create_stream rid b = (s, b1)" by (cases "get_or_create_stream rid b")
    have "run_ok m l (Some (s\<lparr>rs_ended := True\<rparr>)) c = run_ok m l (Some s) c" for l c
      by (simp add: run_ok_def window_of_def)
    with get_or_create_inv [OF br_end got] show ?case
      by (auto simp: bridge_inv_def publish_end_def got) metis
  next
    case (br_subscribe b logs rid lid)
    with get_or_create_inv(1) [OF br_subscribe, of rid] show ?case
      by (cases "get_or_create_stream rid b") (simp add: subscribe_start_def)
  next
    case (br_cleanup b logs rid)
    then show ?case by (simp add: bridge_inv_def cleanup_stream_def run_ok_none)
  next
    case (br_close b logs)
    then show ?case by (simp add: bridge_inv_def close_bridge_def run_ok_none)
  qed
qed

text \<open>Whatever happened, the stream of a run is the window of its log.\<close>

lemma reachable_window:
  assumes "bridge_step\<^sup>*\<^sup>* (empty_bridge m, \<lambda>_. []) (b, logs)" and "0 \<le> m" and "dget (sb_streams b) rid = Some s"
  shows "window_of m (logs rid) s" and "numbered (logs rid)"
proof -
  have "bridge_inv m (b, logs)"
    using assms(1) by (rule bridge.inv_steps) (simp add: bridge_inv_def empty_bridge_def run_ok_none assms(2))
  then have "run_ok m (logs rid) (dget (sb_streams b) rid) (dget (sb_counters b) rid)" by (simp add: bridge_inv_def)
  with assms(3) show "window_of m (logs rid) s" and "numbered (logs rid)" by (simp_all add: run_ok_def)
qed


section \<open>Replay\<close>

lemma parse_event_id: "parse_event_seq (event_id ts (int i)) = Some (int i)"
proof -
  have id: "event_id ts (int i) = int_str ts @ ''-'' @ nat_str i" by (simp add: event_id_def int_str_def)
  have "takeWhile (\<lambda>c. c \<noteq> CHR ''-'') (rev (nat_str i) @ CHR ''-'' # xs) = rev (nat_str i)" for xs
    by (subst takeWhile_append2) (use dash_not_in_nat_str [of i] in auto)
  then show ?thesis by (simp add: id parse_event_seq_def parse_int_nat_str)
qed

text \<open>The number in an id is the offset of its event in the log, so an id occurs at most at that offset.\<close>

lemma numbered_at:
  assumes "numbered elog" and "i < length elog" and "se_id (elog ! i) = eid"
  shows "parse_event_seq eid = Some (int i)"
  using assms parse_event_id by (force simp: numbered_def)

text \<open>The scan the arithmetic lookup stands for: the offset after the first retained event with the id.\<close>

fun scan_offset :: "string \<Rightarrow> int \<Rightarrow> stream_event list \<Rightarrow> int option" where
  "scan_offset eid offset [] = None"
| "scan_offset eid offset (e # es) = (if se_id e = eid then Some (offset + 1) else scan_offset eid (offset + 1) es)"

lemma scan_offset_None: "scan_offset eid k es = None \<longleftrightarrow> (\<forall>i<length es. se_id (es ! i) \<noteq> eid)"
  by (induction es arbitrary: k) (auto simp: less_Suc_eq_0_disj)

lemma scan_offset_unique:
  assumes "i < length es" and "se_id (es ! i) = eid" and "\<And>j. j < i \<Longrightarrow> se_id (es ! j) \<noteq> eid"
  shows "scan_offset eid k es = Some (k + int i + 1)"
  using assms
proof (induction es arbitrary: k i)
  case (Cons e es)
  show ?case
  proof (cases i)
    case 0
    with Cons.prems show ?thesis by simp
  next
    case (Suc j)
    moreover from Suc Cons.prems(3) [of 0] have "se_id e \<noteq> eid" by simp
    moreover have "scan_offset eid (k + 1) es = Some (k + 1 + int j + 1)"
    proof (rule Cons.IH)
      show "se_id (es ! n) \<noteq> eid" if "n < j" for n using Cons.prems(3) [of "Suc n"] Suc that by simp
    qed (use Cons.prems Suc in auto)
    ultimately show ?thesis by simp
  qed
qed simp

lemma resolve_scan:
  assumes win: "window_of m elog s" "numbered elog"
  shows "resolve_start_offset s (Some eid) =
    (case scan_offset eid (rs_start_offset s) (rs_events s) of None \<Rightarrow> rs_start_offset s | Some n \<Rightarrow> n)"
proof -
  let ?k = "rs_start_offset s"
  have k: "0 \<le> ?k" "rs_events s = drop (nat ?k) elog" using win(1) by (simp_all add: window_of_def)
  have at: "parse_event_seq eid = Some (?k + int i)" if "i < length (rs_events s)" "se_id (rs_events s ! i) = eid" for i
    using numbered_at [OF win(2), of "nat ?k + i" eid] that k by (simp add: nth_append)
  show ?thesis
  proof (cases "\<exists>i<length (rs_events s). se_id (rs_events s ! i) = eid")
    case True
    then obtain i where i: "i < length (rs_events s)" "se_id (rs_events s ! i) = eid" by blast
    then have "se_id (rs_events s ! j) \<noteq> eid" if "j < i" for j using at [of j] at [of i] that by fastforce
    with i have "scan_offset eid ?k (rs_events s) = Some (?k + int i + 1)" by (rule scan_offset_unique)
    with at [OF i] i show ?thesis by (simp add: resolve_start_offset_def)
  next
    case False
    then have "scan_offset eid ?k (rs_events s) = None" by (simp add: scan_offset_None)
    moreover have "\<not> (0 \<le> j \<and> j < int (length (rs_events s)) \<and> se_id (rs_events s ! nat j) = eid)" for j
      using False by (auto dest: nat_less_iff [THEN iffD2, rotated])
    then have "resolve_start_offset s (Some eid) = ?k"
      unfolding resolve_start_offset_def Let_def option.case by (simp only: if_False split: option.split) simp
    ultimately show ?thesis by simp
  qed
qed


text \<open>A bridge that retains two events, after three were published.\<close>

definition demo_event :: "string \<Rightarrow> string \<Rightarrow> stream_event" where
  "demo_event eid event = \<lparr>se_id = eid, se_event = event, se_data = PNone\<rparr>"

definition demo_bridge :: stream_bridge where
  "demo_bridge = publish 7 ''r'' ''c'' PNone (publish 5 ''r'' ''b'' PNone (publish 5 ''r'' ''a'' PNone (empty_bridge 2)))"

definition demo_logs :: event_log where
  "demo_logs = (\<lambda>_. [])(''r'' := [demo_event ''5-0'' ''a'', demo_event ''5-1'' ''b'', demo_event ''7-2'' ''c''])"

definition demo_stream :: run_stream where
  "demo_stream = \<lparr>rs_events = [demo_event ''5-1'' ''b'', demo_event ''7-2'' ''c''], rs_ended = False, rs_start_offset = 1\<rparr>"

lemma demo_bridge_stream: "dget (sb_streams demo_bridge) ''r'' = Some demo_stream"
  by code_simp

lemma demo_bridge_reachable: "bridge_step\<^sup>*\<^sup>* (empty_bridge 2, \<lambda>_. []) (demo_bridge, demo_logs)"
proof -
  have ids: "event_id 5 0 = ''5-0''" "event_id 5 1 = ''5-1''" "event_id 7 2 = ''7-2''" by code_simp+
  let ?l1 = "(\<lambda>_. [])(''r'' := [demo_event ''5-0'' ''a''])"
  let ?l2 = "(\<lambda>_. [])(''r'' := [demo_event ''5-0'' ''a'', demo_event ''5-1'' ''b''])"
  have "bridge_step (b, \<lambda>_. []) (publish 5 ''r'' ''a'' PNone b, ?l1)" for b
    using br_publish [of b "\<lambda>_. []" 5 "''r''" "''a''" PNone] by (simp add: ids demo_event_def)
  moreover have "bridge_step (b, ?l1) (publish 5 ''r'' ''b'' PNone b, ?l2)" for b
    using br_publish [of b ?l1 5 "''r''" "''b''" PNone] by (simp add: ids demo_event_def)
  moreover have "bridge_step (b, ?l2) (publish 7 ''r'' ''c'' PNone b, demo_logs)" for b
    using br_publish [of b ?l2 7 "''r''" "''c''" PNone] by (simp add: ids demo_event_def demo_logs_def)
  ultimately show ?thesis
    unfolding demo_bridge_def by (meson r_into_rtranclp rtranclp.rtrancl_into_rtrancl)
qed

text \<open>The arithmetic lookup of a reconnecting subscriber finds what a scan of the retained events would find: it
  resumes after the event with the given id when that is still retained, and otherwise at the earliest retained
  event, whatever the id is.\<close>

theorem lookup_is_scan:
  assumes "bridge_step\<^sup>*\<^sup>* (empty_bridge m, \<lambda>_. []) (b, logs)" and "0 \<le> m" and "dget (sb_streams b) rid = Some s"
  shows "resolve_start_offset s (Some eid) =
    (case scan_offset eid (rs_start_offset s) (rs_events s) of None \<Rightarrow> rs_start_offset s | Some n \<Rightarrow> n)"
  using reachable_window [OF assms] by (rule resolve_scan)

theorem lookup_is_scan_witness: "resolve_start_offset demo_stream (Some ''5-1'') = 2"
proof -
  have "scan_offset ''5-1'' (rs_start_offset demo_stream) (rs_events demo_stream) = Some 2" by code_simp
  with lookup_is_scan [OF demo_bridge_reachable _ demo_bridge_stream, of "''5-1''"] show ?thesis by simp
qed

lemma turn_in_window:
  assumes "window_of m elog s" and "rs_start_offset s \<le> int n" and "n \<le> length elog"
  shows "subscribe_turn s (int n) =
    (if n < length elog then (Deliver (elog ! n), int n + 1) else if rs_ended s then (End_Stream, int n) else (Await, int n))"
proof -
  have k: "0 \<le> rs_start_offset s" "rs_events s = drop (nat (rs_start_offset s)) elog"
    using assms(1) by (simp_all add: window_of_def)
  then have len: "int (length (rs_events s)) = int (length elog) - rs_start_offset s" using assms(2,3) by auto
  moreover have "rs_events s ! nat (int n - rs_start_offset s) = elog ! n" if "n < length elog"
    using that k assms(2) by (simp add: nat_diff_distrib)
  ultimately show ?thesis using assms(2,3) by (simp add: subscribe_turn_def Let_def)
qed

lemma drain_window:
  assumes "window_of m elog s" and "rs_start_offset s \<le> int n" and "n \<le> length elog"
  shows "subscribe_drain s (int n) = map Deliver (drop n elog) @ [if rs_ended s then End_Stream else Await]"
  using assms(2,3)
proof (induction "length elog - n" arbitrary: n)
  case 0
  then show ?case using turn_in_window [OF assms(1), of n] by (subst subscribe_drain.simps) simp
next
  case (Suc k)
  then have n: "n < length elog" by simp
  have "subscribe_drain s (int (Suc n)) = map Deliver (drop (Suc n) elog) @ [if rs_ended s then End_Stream else Await]"
    using Suc n by (intro Suc.hyps(1)) simp_all
  moreover have "subscribe_turn s (int n) = (Deliver (elog ! n), int (Suc n))"
    using turn_in_window [OF assms(1) Suc.prems] n by simp
  ultimately show ?case
    by (subst subscribe_drain.simps) (simp add: Cons_nth_drop_Suc [OF n, symmetric] del: of_nat_Suc)
qed



end
