(* ===== verification/Subagent_Limit.thy ===== *)
theory Subagent_Limit
  imports Agent_Messages "HOL-Library.Sublist"
begin

text \<open>
  The limit on subagents started by one response (\<^verbatim>\<open>agents/middlewares/subagent_limit_middleware.py\<close>): the first calls of the
  tool \<^verbatim>\<open>task\<close> stay, the others are taken out of the message.
\<close>

definition clamp_subagent_limit :: "int \<Rightarrow> int" where
  "clamp_subagent_limit v = max 2 (min 4 v)"

definition is_task :: "tool_call \<Rightarrow> bool" where
  "is_task tc \<longleftrightarrow> get_key tc ''name'' = PStr ''task''"

definition task_indices :: "tool_call list \<Rightarrow> nat list" where
  "task_indices tool_calls = map fst (filter (\<lambda>(i, tc). is_task tc) (enumerate 0 tool_calls))"

definition truncate_task_calls :: "int \<Rightarrow> message list \<Rightarrow> ai_message option" where
  "truncate_task_calls max_concurrent messages =
     (if messages = [] then None
      else case last messages of
        AIMessage m \<Rightarrow>
          let tool_calls = ai_tool_calls m; indices = task_indices tool_calls in
          if tool_calls = [] \<or> int (length indices) \<le> max_concurrent then None
          else
            let dropped = slice_from max_concurrent indices;
                kept = map snd (filter (\<lambda>(i, tc). i \<notin> set dropped) (enumerate 0 tool_calls))
            in Some (clone_ai_message_with_tool_calls m kept None)
      | _ \<Rightarrow> None)"

definition subagent_after_model :: "int \<Rightarrow> message list \<Rightarrow> ai_message option" where
  "subagent_after_model max_concurrent messages = truncate_task_calls (clamp_subagent_limit max_concurrent) messages"

section \<open>What is kept\<close>

text \<open>The calls that stay: every call of another tool, and the first calls of \<^verbatim>\<open>task\<close>, in their order.\<close>

fun keep_tasks :: "nat \<Rightarrow> tool_call list \<Rightarrow> tool_call list" where
  "keep_tasks n [] = []"
| "keep_tasks n (tc # tcs) =
     (if \<not> is_task tc then tc # keep_tasks n tcs else case n of 0 \<Rightarrow> keep_tasks 0 tcs | Suc m \<Rightarrow> tc # keep_tasks m tcs)"

definition indices_from :: "nat \<Rightarrow> tool_call list \<Rightarrow> nat list" where
  "indices_from j tool_calls = map fst (filter (\<lambda>(i, tc). is_task tc) (enumerate j tool_calls))"

lemma indices_from_simps [simp]:
  "indices_from j [] = []" "indices_from j (tc # tcs) = (if is_task tc then j # indices_from (Suc j) tcs else indices_from (Suc j) tcs)"
  by (simp_all add: indices_from_def)

lemma indices_from_ge: "i \<in> set (indices_from j tcs) \<Longrightarrow> j \<le> i"
  by (induction tcs arbitrary: j) (auto split: if_split_asm dest: Suc_leD)

lemma keep_tasks_filter:
  "map snd (filter (\<lambda>(i, tc). i \<notin> set (drop n (indices_from j tcs))) (enumerate j tcs)) = keep_tasks n tcs"
proof (induction n tcs arbitrary: j rule: keep_tasks.induct)
  case (2 n tc tcs)
  have fresh: "j \<notin> set (drop m (indices_from (Suc j) tcs))" for m using indices_from_ge [of j "Suc j" tcs] by (auto dest: in_set_dropD)
  have skip: "filter (\<lambda>(i, tc). i \<notin> insert j S) (enumerate (Suc j) tcs) = filter (\<lambda>(i, tc). i \<notin> S) (enumerate (Suc j) tcs)" for S
    by (rule filter_cong) (auto simp: in_set_enumerate_eq)
  show ?case
  proof (cases n)
    case 0
    then show ?thesis using 2 fresh [of 0] skip [of "set (indices_from (Suc j) tcs)"] by (auto simp: insert_commute)
  next
    case (Suc m)
    then show ?thesis using 2 fresh [of n] fresh [of m] by auto
  qed
qed simp

lemma keep_tasks_tasks: "filter is_task (keep_tasks n tcs) = take n (filter is_task tcs)"
  by (induction n tcs rule: keep_tasks.induct) (auto split: nat.split)

lemma keep_tasks_others: "filter (\<lambda>tc. \<not> is_task tc) (keep_tasks n tcs) = filter (\<lambda>tc. \<not> is_task tc) tcs"
  by (induction n tcs rule: keep_tasks.induct) (auto split: nat.split)

lemma keep_tasks_subseq: "subseq (keep_tasks n tcs) tcs"
  by (induction n tcs rule: keep_tasks.induct) (auto split: nat.split)

lemma truncate_task_calls_Some:
  assumes "truncate_task_calls limit messages = Some m'" and "0 \<le> limit"
  shows "\<exists>m. messages \<noteq> [] \<and> last messages = AIMessage m \<and> m' = clone_ai_message_with_tool_calls m (keep_tasks (nat limit) (ai_tool_calls m)) None \<and>
    int (length (filter is_task (ai_tool_calls m))) > limit"
proof -
  from assms(1) obtain m where m: "messages \<noteq> []" "last messages = AIMessage m" "int (length (task_indices (ai_tool_calls m))) > limit"
      and m': "m' = clone_ai_message_with_tool_calls m
        (map snd (filter (\<lambda>(i, tc). i \<notin> set (slice_from limit (task_indices (ai_tool_calls m)))) (enumerate 0 (ai_tool_calls m)))) None"
    by (auto simp: truncate_task_calls_def Let_def split: message.split_asm if_split_asm)
  have "length (indices_from j tcs) = length (filter is_task tcs)" for j tcs by (induction tcs arbitrary: j) auto
  moreover have "slice_from limit xs = drop (nat limit) xs" for xs :: "nat list" using assms(2) by (auto simp: slice_from_def slice_bound_def min_def)
  moreover have "task_indices tcs = indices_from 0 tcs" for tcs by (simp add: task_indices_def indices_from_def)
  ultimately show ?thesis using m m' by (simp add: keep_tasks_filter)
qed

lemma clamp_range: "2 \<le> clamp_subagent_limit n" "clamp_subagent_limit n \<le> 4" "2 \<le> nat (clamp_subagent_limit n)" "nat (clamp_subagent_limit n) \<le> 4"
  by (auto simp: clamp_subagent_limit_def)

lemma truncate_task_calls_None:
  assumes "truncate_task_calls limit messages = None" and "messages \<noteq> []" and "last messages = AIMessage m" and "0 \<le> limit"
  shows "int (length (filter is_task (ai_tool_calls m))) \<le> limit"
proof -
  have "length (task_indices tcs) = length (filter is_task tcs)" for tcs
  proof -
    have "length (indices_from j tcs) = length (filter is_task tcs)" for j by (induction tcs arbitrary: j) auto
    then show ?thesis by (simp add: task_indices_def indices_from_def)
  qed
  with assms show ?thesis by (auto simp: truncate_task_calls_def Let_def split: if_split_asm)
qed

lemma clone_tool_calls [simp]: "ai_tool_calls (clone_ai_message_with_tool_calls m tcs c) = tcs"
  by (simp add: clone_ai_message_with_tool_calls_def Let_def)

lemma clone_raw_calls:
  assumes "get_key (ai_additional_kwargs (clone_ai_message_with_tool_calls m tcs c)) ''tool_calls'' = PList raws" and "raw \<in> set raws"
  shows "raw_tool_call_id raw \<in> Some ` set (List.map_filter (\<lambda>tc. nonempty_text (get_key tc ''id'')) tcs)"
  using assms
  by (cases "get_key (ai_additional_kwargs m) ''tool_calls''")
    (auto simp: clone_ai_message_with_tool_calls_def Let_def get_key_def filter_eq_Cons_iff Cons_eq_filter_iff split: list.split_asm option.split_asm if_split_asm
      dest: arg_cong [where f = set])

text \<open>After the hook, the last response of the model starts at most as many subagents as the configured number, brought into the range
  from two to four: its calls of the tool task are the first ones of the model, its calls of other tools are all still there, and the calls
  that stay keep their order. Where the hook rewrites the message, the raw calls of the provider are cut to the calls that stay.\<close>
theorem subagents_limited:
  assumes "messages \<noteq> []" and "last messages = AIMessage m"
  shows "let limit = nat (clamp_subagent_limit max_concurrent);
             m' = (case subagent_after_model max_concurrent messages of None \<Rightarrow> m | Some m' \<Rightarrow> m')
         in 2 \<le> limit \<and> limit \<le> 4 \<and> filter is_task (ai_tool_calls m') = take limit (filter is_task (ai_tool_calls m)) \<and>
           filter (\<lambda>tc. \<not> is_task tc) (ai_tool_calls m') = filter (\<lambda>tc. \<not> is_task tc) (ai_tool_calls m) \<and>
           subseq (ai_tool_calls m') (ai_tool_calls m) \<and>
           (subagent_after_model max_concurrent messages \<noteq> None \<longrightarrow>
             (\<forall>raws raw. get_key (ai_additional_kwargs m') ''tool_calls'' = PList raws \<longrightarrow> raw \<in> set raws \<longrightarrow>
               (\<exists>tc\<in>set (ai_tool_calls m'). raw_tool_call_id raw = nonempty_text (get_key tc ''id'') \<and> raw_tool_call_id raw \<noteq> None)))"
proof (cases "subagent_after_model max_concurrent messages")
  case None
  let ?limit = "clamp_subagent_limit max_concurrent"
  note range = clamp_range [of max_concurrent]
  with None assms truncate_task_calls_None [of ?limit messages m]
  have "int (length (filter is_task (ai_tool_calls m))) \<le> ?limit" by (simp add: subagent_after_model_def)
  with None range show ?thesis by (simp add: Let_def)
next
  case (Some m')
  let ?limit = "clamp_subagent_limit max_concurrent"
  note range = clamp_range [of max_concurrent]
  with Some assms truncate_task_calls_Some [of ?limit messages m']
  have m': "m' = clone_ai_message_with_tool_calls m (keep_tasks (nat ?limit) (ai_tool_calls m)) None"
    by (auto simp: subagent_after_model_def)
  have "\<exists>tc\<in>set (ai_tool_calls m'). raw_tool_call_id raw = nonempty_text (get_key tc ''id'') \<and> raw_tool_call_id raw \<noteq> None"
    if "get_key (ai_additional_kwargs m') ''tool_calls'' = PList raws" "raw \<in> set raws" for raws raw
    using clone_raw_calls [OF that [unfolded m']] by (auto simp: m' List.map_filter_def) metis
  with Some range show ?thesis by (auto simp: m' keep_tasks_tasks keep_tasks_others keep_tasks_subseq Let_def)
qed

definition demo_tasks :: ai_message where
  "demo_tasks =
     \<lparr>ai_id = Some ''m1'', ai_content = PStr [],
      ai_tool_calls = map (\<lambda>(n, i). [(''name'', PStr n), (''id'', PStr i)])
        [(''task'', ''1''), (''bash'', ''2''), (''task'', ''3''), (''task'', ''4'')],
      ai_invalid_tool_calls = [],
      ai_additional_kwargs = [(''tool_calls'', PList (map (\<lambda>i. PDict [(''id'', PStr i)]) [''1'', ''2'', ''3'', ''4'']))],
      ai_response_metadata = [], ai_usage_metadata = []\<rparr>"

theorem subagents_limited_witness:
  "map_option (\<lambda>m. map (\<lambda>tc. get_key tc ''id'') (ai_tool_calls m)) (subagent_after_model 1 [AIMessage demo_tasks]) =
     Some [PStr ''1'', PStr ''2'', PStr ''3''] \<and>
   (let m' = (case subagent_after_model 1 [AIMessage demo_tasks] of None \<Rightarrow> demo_tasks | Some m' \<Rightarrow> m') in
    length (filter is_task (ai_tool_calls m')) = 2)"
proof (rule conjI)
  show "map_option (\<lambda>m. map (\<lambda>tc. get_key tc ''id'') (ai_tool_calls m)) (subagent_after_model 1 [AIMessage demo_tasks]) =
     Some [PStr ''1'', PStr ''2'', PStr ''3'']" by code_simp
  have "nat (clamp_subagent_limit 1) = 2" "length (filter is_task (ai_tool_calls demo_tasks)) = 3" by code_simp+
  with subagents_limited [of "[AIMessage demo_tasks]" demo_tasks 1]
  show "let m' = (case subagent_after_model 1 [AIMessage demo_tasks] of None \<Rightarrow> demo_tasks | Some m' \<Rightarrow> m') in
    length (filter is_task (ai_tool_calls m')) = 2" by (simp add: Let_def)
qed

end
