(* ===== verification/Token_Budget.thy ===== *)
theory Token_Budget
  imports Agent_Messages
begin

text \<open>
  The token budget of a run, \<^verbatim>\<open>agents/middlewares/token_budget_middleware.py\<close> with the checks of
  \<^verbatim>\<open>config/token_budget_config.py\<close>. The division of integers to a float is the argument \<open>fdiv\<close>, of which the theorems assume that it is
  monotone; \<open>percent_text\<close> is the text of a fraction in percent. Token counts of a message are integers, as its class declares.
\<close>

section \<open>State\<close>

record budget_config =
  bc_enabled :: bool
  bc_max_tokens :: int
  bc_max_input_tokens :: "int option"
  bc_max_output_tokens :: "int option"
  bc_warn_threshold :: rat
  bc_hard_stop_threshold :: rat

definition valid_budget_config :: "budget_config \<Rightarrow> bool" where
  "valid_budget_config c \<longleftrightarrow>
     1000 \<le> bc_max_tokens c \<and> (case bc_max_input_tokens c of None \<Rightarrow> True | Some n \<Rightarrow> 1 \<le> n) \<and>
     (case bc_max_output_tokens c of None \<Rightarrow> True | Some n \<Rightarrow> 1 \<le> n) \<and>
     0 \<le> bc_warn_threshold c \<and> bc_warn_threshold c \<le> 1 \<and> 0 \<le> bc_hard_stop_threshold c \<and> bc_hard_stop_threshold c \<le> 1 \<and>
     bc_warn_threshold c \<le> bc_hard_stop_threshold c"

record token_usage =
  tu_input :: int
  tu_output :: int
  tu_total :: int

definition no_usage :: token_usage where "no_usage = \<lparr>tu_input = 0, tu_output = 0, tu_total = 0\<rparr>"

type_synonym run_key = pyval
type_synonym seen_messages = "(string, int \<times> int) dict"

record budget_state =
  bs_warned :: "(run_key, bool) dict"
  bs_pending :: "(run_key, string list) dict"
  bs_seen :: "(run_key, seen_messages) dict"
  bs_usage :: "(run_key, token_usage) dict"
  bs_stop_reason :: "(run_key, string) dict"

definition empty_budget_state :: budget_state where
  "empty_budget_state = \<lparr>bs_warned = [], bs_pending = [], bs_seen = [], bs_usage = [], bs_stop_reason = []\<rparr>"

definition max_runs :: nat where "max_runs = 1000"

record agent_runtime =
  rn_context :: "run_context option"
  rn_identity :: string

definition budget_run_id :: "agent_runtime \<Rightarrow> run_key" where
  "budget_run_id rt =
     (case rn_context rt of
        None \<Rightarrow> PStr (rn_identity rt)
      | Some ctx \<Rightarrow> (case dget ctx ''run_id'' of None \<Rightarrow> PStr (rn_identity rt) | Some v \<Rightarrow> v))"

definition budget_reset :: "budget_state \<Rightarrow> budget_state" where
  "budget_reset st = empty_budget_state"

definition consume_budget_stop_reason :: "run_key \<Rightarrow> budget_state \<Rightarrow> string option \<times> budget_state" where
  "consume_budget_stop_reason run_id st = (dget (bs_stop_reason st) run_id, st\<lparr>bs_stop_reason := dpop run_id (bs_stop_reason st)\<rparr>)"

definition clear_run_state :: "run_key \<Rightarrow> budget_state \<Rightarrow> budget_state" where
  "clear_run_state run_id st =
     st\<lparr>bs_warned := dpop run_id (bs_warned st), bs_pending := dpop run_id (bs_pending st), bs_seen := dpop run_id (bs_seen st),
        bs_usage := dpop run_id (bs_usage st)\<rparr>"

section \<open>Usage of messages\<close>

definition tokens_of :: "(string, pyval) dict \<Rightarrow> string \<Rightarrow> int" where
  "tokens_of usage k = (case get_key usage k of PInt n \<Rightarrow> n | _ \<Rightarrow> 0)"

text \<open>The assistant messages that have an id, with their input and output tokens.\<close>

definition message_usage :: "message \<Rightarrow> (string \<times> int \<times> int) option" where
  "message_usage msg =
     (case msg of
        AIMessage m \<Rightarrow>
          (case ai_id m of
             Some i \<Rightarrow> if i = [] then None else Some (i, tokens_of (ai_usage_metadata m) ''input_tokens'', tokens_of (ai_usage_metadata m) ''output_tokens'')
           | None \<Rightarrow> None)
      | _ \<Rightarrow> None)"

definition usages :: "message list \<Rightarrow> (string \<times> int \<times> int) list" where
  "usages messages = List.map_filter message_usage messages"

definition budget_before_agent :: "budget_config \<Rightarrow> message list \<Rightarrow> agent_runtime \<Rightarrow> budget_state \<Rightarrow> budget_state" where
  "budget_before_agent c messages rt st =
     (if \<not> bc_enabled c \<or> messages = [] then st
      else
        let run_id = budget_run_id rt;
            seen = fold (\<lambda>(i, u) s. dset i u s) (usages messages) (dget_default (bs_seen st) run_id [])
        in st\<lparr>bs_seen := dset run_id seen (bounded_default max_runs run_id [] (bs_seen st)),
              bs_usage := bounded_default max_runs run_id no_usage (bs_usage st)\<rparr>)"

definition budget_after_agent :: "budget_config \<Rightarrow> agent_runtime \<Rightarrow> budget_state \<Rightarrow> budget_state" where
  "budget_after_agent c rt st = (if bc_enabled c then clear_run_state (budget_run_id rt) st else st)"

definition account :: "string \<times> int \<times> int \<Rightarrow> seen_messages \<times> token_usage \<Rightarrow> seen_messages \<times> token_usage" where
  "account u s =
     (case u of (i, input_tokens, output_tokens) \<Rightarrow>
      let (seen, usage) = s;
          (prev_input, prev_output) = dget_default seen i (0, 0);
          diff_input = max 0 (input_tokens - prev_input);
          diff_output = max 0 (output_tokens - prev_output)
      in if diff_input > 0 \<or> diff_output > 0
         then (dset i (input_tokens, output_tokens) seen,
               \<lparr>tu_input = tu_input usage + diff_input, tu_output = tu_output usage + diff_output, tu_total = tu_total usage + (diff_input + diff_output)\<rparr>)
         else (seen, usage))"

section \<open>Limits\<close>

definition fractions :: "budget_config \<Rightarrow> token_usage \<Rightarrow> (string \<times> int \<times> int) list" where
  "fractions c usage =
     [(''total'', tu_total usage, bc_max_tokens c)] @
     (case bc_max_input_tokens c of None \<Rightarrow> [] | Some n \<Rightarrow> if n = 0 then [] else [(''input'', tu_input usage, n)]) @
     (case bc_max_output_tokens c of None \<Rightarrow> [] | Some n \<Rightarrow> if n = 0 then [] else [(''output'', tu_output usage, n)])"

definition highest :: "(int \<Rightarrow> int \<Rightarrow> rat) \<Rightarrow> (string \<times> int \<times> int) list \<Rightarrow> rat \<times> string \<times> int \<times> int" where
  "highest fdiv fs =
     foldl (\<lambda>(best, trigger) (reason, used, limit). if fdiv used limit > best then (fdiv used limit, reason, used, limit) else (best, trigger))
       (0, [], 0, 0) fs"

text \<open>\<^verbatim>\<open>{n:,}\<close>: digits in groups of three.\<close>

fun group_digits :: "string \<Rightarrow> string" where
  "group_digits (a # b # c # d # ds) = a # b # c # CHR '','' # group_digits (d # ds)"
| "group_digits ds = ds"

definition comma_str :: "int \<Rightarrow> string" where
  "comma_str n = (if n < 0 then ''-'' else []) @ rev (group_digits (rev (nat_str (nat \<bar>n\<bar>))))"

definition budget_warning_msg :: "(rat \<Rightarrow> string) \<Rightarrow> string \<Rightarrow> int \<Rightarrow> int \<Rightarrow> rat \<Rightarrow> string" where
  "budget_warning_msg percent_text reason used budget fraction =
     ''[TOKEN BUDGET WARNING] You have used '' @ comma_str used @ '' of your '' @ comma_str budget @ '' '' @ reason @ '' token budget ('' @
     percent_text fraction @ ''%). Wrap up your current work and produce a final answer. Avoid starting new tool calls unless absolutely necessary.''"

definition budget_exceeded_msg :: "string \<Rightarrow> int \<Rightarrow> int \<Rightarrow> string" where
  "budget_exceeded_msg reason used budget =
     ''[TOKEN BUDGET EXCEEDED] The '' @ reason @ '' token usage ('' @ comma_str used @ '') has exceeded the safety limit ('' @ comma_str budget @
     ''). Producing final answer with results collected so far.''"

definition budget_append_text :: "pyval \<Rightarrow> string \<Rightarrow> pyval" where
  "budget_append_text content t =
     (case content of
        PNone \<Rightarrow> PStr t
      | PStr s \<Rightarrow> if s = [] then PStr (blank_line @ t) else PStr (s @ blank_line @ t)
      | PList blocks \<Rightarrow> PList (blocks @ [PDict [(''type'', PStr ''text''), (''text'', PStr (blank_line @ t))]])
      | v \<Rightarrow> PStr (py_str v @ blank_line @ t))"

definition budget_hard_stop :: "ai_message \<Rightarrow> string \<Rightarrow> ai_message" where
  "budget_hard_stop m stop_msg =
     m\<lparr>ai_content := budget_append_text (ai_content m) stop_msg, ai_tool_calls := [],
       ai_additional_kwargs := dpop ''function_call'' (dpop ''tool_calls'' (ai_additional_kwargs m)),
       ai_response_metadata := stopped_metadata (ai_response_metadata m)\<rparr>"

section \<open>The hooks\<close>

definition budget_after_model ::
  "(int \<Rightarrow> int \<Rightarrow> rat) \<Rightarrow> (rat \<Rightarrow> string) \<Rightarrow> budget_config \<Rightarrow> message list \<Rightarrow> agent_runtime \<Rightarrow> budget_state \<Rightarrow> ai_message option \<times> budget_state" where
  "budget_after_model fdiv percent_text c messages rt st =
     (if \<not> bc_enabled c \<or> messages = [] then (None, st)
      else case last messages of
        AIMessage last_msg \<Rightarrow>
          let run_id = budget_run_id rt;
              (seen, usage) = fold account (usages messages) (dget_default (bs_seen st) run_id [], dget_default (bs_usage st) run_id no_usage);
              st = st\<lparr>bs_seen := dset run_id seen (bounded_default max_runs run_id [] (bs_seen st)),
                      bs_usage := dset run_id usage (bounded_default max_runs run_id no_usage (bs_usage st))\<rparr>
          in if tu_total usage \<le> 0 then (None, st)
             else
               let (fraction, reason, used, budget) = highest fdiv (fractions c usage) in
               if fraction \<ge> bc_hard_stop_threshold c
               then (Some (budget_hard_stop last_msg (budget_exceeded_msg reason used budget)),
                     st\<lparr>bs_stop_reason := bounded_set max_runs run_id ''token_capped'' (bs_stop_reason st)\<rparr>)
               else if fraction \<ge> bc_warn_threshold c \<and> \<not> dget_default (bs_warned st) run_id False
               then (None,
                     st\<lparr>bs_warned := bounded_set max_runs run_id True (bs_warned st),
                        bs_pending := dset run_id (dget_default (bs_pending st) run_id [] @ [budget_warning_msg percent_text reason used budget fraction])
                          (bounded_default max_runs run_id [] (bs_pending st))\<rparr>)
               else (None, st)
      | _ \<Rightarrow> (None, st))"

definition budget_drain :: "budget_config \<Rightarrow> agent_runtime \<Rightarrow> budget_state \<Rightarrow> string list \<times> budget_state" where
  "budget_drain c rt st =
     (if bc_enabled c
      then (dget_default (bs_pending st) (budget_run_id rt) [], st\<lparr>bs_pending := dpop (budget_run_id rt) (bs_pending st)\<rparr>)
      else ([], st))"

definition inject_warnings :: "message list \<Rightarrow> string list \<Rightarrow> message list" where
  "inject_warnings messages warnings =
     (if warnings = [] then messages else messages @ [HumanMessage ''budget_warning'' (PStr (join_with blank_line warnings))])"

definition budget_wrap_model_call :: "budget_config \<Rightarrow> agent_runtime \<Rightarrow> message list \<Rightarrow> budget_state \<Rightarrow> message list \<times> budget_state" where
  "budget_wrap_model_call c rt messages st = (let (warnings, st) = budget_drain c rt st in (inject_warnings messages warnings, st))"

section \<open>What a run has spent\<close>

abbreviation counts :: "(string \<times> int \<times> int) list \<Rightarrow> string \<Rightarrow> int \<times> int" where
  "counts u i \<equiv> dget_default u i (0, 0)"

text \<open>The tokens of the messages of a snapshot beyond what they had when the run began.\<close>

definition spent :: "(int \<times> int \<Rightarrow> int) \<Rightarrow> (string \<times> int \<times> int) list \<Rightarrow> (string \<times> int \<times> int) list \<Rightarrow> int" where
  "spent part base u = (\<Sum>i\<in>fst ` set u. part (counts u i) - part (counts base i))"

text \<open>Histories of a run only grow: messages stay, with different ids, and their counts do not shrink.\<close>

definition grows :: "(string \<times> int \<times> int) list \<Rightarrow> (string \<times> int \<times> int) list \<Rightarrow> bool" where
  "grows u u' \<longleftrightarrow> distinct (map fst u') \<and> fst ` set u \<subseteq> fst ` set u' \<and>
     (\<forall>i. fst (counts u i) \<le> fst (counts u' i) \<and> snd (counts u i) \<le> snd (counts u' i)) \<and>
     (\<forall>(i, a, b)\<in>set u'. 0 \<le> a \<and> 0 \<le> b)"

lemma counts_absent: "i \<notin> fst ` set u \<Longrightarrow> counts u i = (0, 0)"
  by (metis dget_default_def map_of_eq_None_iff option.case(1))

lemma account_counts:
  assumes "fst (counts seen i) \<le> a" and "snd (counts seen i) \<le> b"
  shows "account (i, a, b) (seen, usage) = (seen', usage') \<Longrightarrow> counts seen' j = (if j = i then (a, b) else counts seen j)"
    and "account (i, a, b) (seen, usage) = (seen', usage') \<Longrightarrow>
      tu_input usage' = tu_input usage + (a - fst (counts seen i)) \<and> tu_output usage' = tu_output usage + (b - snd (counts seen i)) \<and>
      tu_total usage' = tu_total usage + (a - fst (counts seen i)) + (b - snd (counts seen i))"
  using assms by (cases "counts seen i"; auto simp: account_def Let_def dget_default_def split: if_split_asm)+

lemma account_fold:
  assumes "distinct (map fst u)" and "\<And>i a b. (i, a, b) \<in> set u \<Longrightarrow> fst (counts seen i) \<le> a \<and> snd (counts seen i) \<le> b"
    and "fold account u (seen, usage) = (seen', usage')"
  shows "(\<forall>j. counts seen' j = (if j \<in> fst ` set u then counts u j else counts seen j)) \<and>
      tu_input usage' = tu_input usage + (\<Sum>i\<in>fst ` set u. fst (counts u i) - fst (counts seen i)) \<and>
      tu_output usage' = tu_output usage + (\<Sum>i\<in>fst ` set u. snd (counts u i) - snd (counts seen i)) \<and>
      (tu_total usage = tu_input usage + tu_output usage \<longrightarrow> tu_total usage' = tu_input usage' + tu_output usage')"
  using assms
proof (induction u arbitrary: seen usage)
  case (Cons x u)
  obtain i a b where x: "x = (i, a, b)" by (cases x)
  obtain s1 u1 where step: "account (i, a, b) (seen, usage) = (s1, u1)" by (metis prod.exhaust)
  have le: "fst (counts seen i) \<le> a" "snd (counts seen i) \<le> b" using Cons.prems(2) x by auto
  note a = account_counts [OF le step]
  have fresh: "i \<notin> fst ` set u" "distinct (map fst u)" using Cons.prems(1) x by auto
  have bounds: "fst (counts s1 j) \<le> a' \<and> snd (counts s1 j) \<le> b'" if "(j, a', b') \<in> set u" for j a' b'
  proof -
    have "j \<noteq> i" using that fresh(1) by force
    with that Cons.prems(2) [of j a' b'] a(1) [of j] show ?thesis by simp
  qed
  have rest: "fold account u (s1, u1) = (seen', usage')" using Cons.prems(3) x step by simp
  have cx: "counts (x # u) k = (if k = i then (a, b) else counts u k)" for k by (simp add: x dget_default_def)
  have same: "counts s1 k = counts seen k" "counts (x # u) k = counts u k" if "k \<in> fst ` set u" for k using that fresh(1) a(1) [of k] cx [of k] by auto
  note IH = Cons.IH [OF fresh(2) bounds rest]
  have "counts seen' j = (if j \<in> fst ` set (x # u) then counts (x # u) j else counts seen j)" for j
    using IH a(1) [of j] fresh(1) cx [of j] x by auto
  moreover have sums: "(\<Sum>k\<in>fst ` set (x # u). f (counts (x # u) k) - f (counts seen k)) =
      (f (a, b) - f (counts seen i)) + (\<Sum>k\<in>fst ` set u. f (counts u k) - f (counts s1 k))" for f :: "int \<times> int \<Rightarrow> int"
  proof -
    have "(\<Sum>k\<in>fst ` set u. f (counts (x # u) k) - f (counts seen k)) = (\<Sum>k\<in>fst ` set u. f (counts u k) - f (counts s1 k))"
      by (rule sum.cong) (simp_all add: same)
    moreover have "counts (x # u) i = (a, b)" using cx [of i] by simp
    ultimately show ?thesis using fresh(1) x by simp
  qed
  ultimately show ?case using IH a(2) unfolding sums by simp
qed simp

section \<open>A run\<close>

text \<open>A run that began with the messages \<open>base\<close> and now has the messages \<open>u\<close>: its hooks, and anything else that leaves its own entries alone.\<close>

inductive budget_run ::
  "(int \<Rightarrow> int \<Rightarrow> rat) \<Rightarrow> (rat \<Rightarrow> string) \<Rightarrow> budget_config \<Rightarrow> agent_runtime \<Rightarrow> (string \<times> int \<times> int) list \<Rightarrow> (string \<times> int \<times> int) list \<Rightarrow> budget_state \<Rightarrow> bool"
  for fdiv percent_text c rt where
  run_begins: "dget (bs_seen st) (budget_run_id rt) = None \<Longrightarrow> dget (bs_usage st) (budget_run_id rt) = None \<Longrightarrow> grows [] (usages messages) \<Longrightarrow>
    budget_run fdiv percent_text c rt (usages messages) (usages messages) (budget_before_agent c messages rt st)"
| run_responds: "budget_run fdiv percent_text c rt base u st \<Longrightarrow> grows u (usages messages) \<Longrightarrow> messages \<noteq> [] \<Longrightarrow> last messages = AIMessage m \<Longrightarrow>
    budget_after_model fdiv percent_text c messages rt st = (r, st') \<Longrightarrow> budget_run fdiv percent_text c rt base (usages messages) st'"
| run_rests: "budget_run fdiv percent_text c rt base u st \<Longrightarrow> dget (bs_seen st') (budget_run_id rt) = dget (bs_seen st) (budget_run_id rt) \<Longrightarrow>
    dget (bs_usage st') (budget_run_id rt) = dget (bs_usage st) (budget_run_id rt) \<Longrightarrow> budget_run fdiv percent_text c rt base u st'"

definition tally :: "agent_runtime \<Rightarrow> budget_state \<Rightarrow> seen_messages \<times> token_usage" where
  "tally rt st = (dget_default (bs_seen st) (budget_run_id rt) [], dget_default (bs_usage st) (budget_run_id rt) no_usage)"

text \<open>The tally knows the counts of every message, and its sums are what the run has spent.\<close>

definition tallies :: "(string \<times> int \<times> int) list \<Rightarrow> (string \<times> int \<times> int) list \<Rightarrow> seen_messages \<times> token_usage \<Rightarrow> bool" where
  "tallies base u s \<longleftrightarrow> grows base u \<and> (\<forall>i. counts (fst s) i = counts u i) \<and> tu_input (snd s) = spent fst base u \<and> tu_output (snd s) = spent snd base u \<and>
     tu_total (snd s) = tu_input (snd s) + tu_output (snd s)"

lemma tally_after_model:
  assumes "bc_enabled c" and "messages \<noteq> []" and "last messages = AIMessage m"
  shows "tally rt (snd (budget_after_model fdiv percent_text c messages rt st)) = fold account (usages messages) (tally rt st)"
  using assms
  by (cases "fold account (usages messages) (tally rt st)"; cases "highest fdiv (fractions c (snd (fold account (usages messages) (tally rt st))))")
    (simp add: budget_after_model_def Let_def tally_def dget_default_def)

lemma fold_dset_counts: "distinct (map fst u) \<Longrightarrow> counts (fold (\<lambda>(i, n) s. dset i n s) u s) j = (if j \<in> fst ` set u then counts u j else counts s j)"
proof (induction u arbitrary: s)
  case (Cons x u)
  then show ?case by (cases x) (auto simp: dget_default_def)
qed simp

lemma growing_trans: "grows u v \<Longrightarrow> grows v w \<Longrightarrow> grows u w"
  unfolding grows_def by (intro conjI allI) (meson order_trans)+

lemma tallies_grow:
  assumes "tallies base u s" and "grows u u'"
  shows "tallies base u' (fold account u' s)"
proof -
  obtain seen usage where s: "s = (seen, usage)" by (cases s)
  obtain seen' usage' where f: "fold account u' (seen, usage) = (seen', usage')" by (metis prod.exhaust)
  have seen: "counts seen i = counts u i" for i using assms(1) s by (simp add: tallies_def)
  have d: "distinct (map fst u')" and ids: "fst ` set u \<subseteq> fst ` set u'" and ids0: "fst ` set base \<subseteq> fst ` set u"
    using assms by (auto simp: grows_def tallies_def)
  have mem: "counts u' i = (a, b)" if "(i, a, b) \<in> set u'" for i a b using that d by (simp add: dget_default_def)
  have le: "fst (counts seen i) \<le> a \<and> snd (counts seen i) \<le> b" if "(i, a, b) \<in> set u'" for i a b
    using assms(2) mem [OF that] seen [of i] unfolding grows_def by (metis fst_conv snd_conv)
  note acc = account_fold [OF d le f]
  have ext: "spent part base u = (\<Sum>i\<in>fst ` set u'. part (counts u i) - part (counts base i))" if "part (0, 0) = 0" for part
    unfolding spent_def
  proof (rule sum.mono_neutral_left)
    show "\<forall>i\<in>fst ` set u' - fst ` set u. part (counts u i) - part (counts base i) = 0"
    proof
      fix i
      assume "i \<in> fst ` set u' - fst ` set u"
      then have "i \<notin> fst ` set u" "i \<notin> fst ` set base" using ids0 by blast+
      then show "part (counts u i) - part (counts base i) = 0" using that by (simp add: counts_absent)
    qed
  qed (use ids in auto)
  have sums: "spent part base u + (\<Sum>i\<in>fst ` set u'. part (counts u' i) - part (counts u i)) = spent part base u'" if "part (0, 0) = 0" for part
  proof -
    have "spent part base u' = (\<Sum>i\<in>fst ` set u'. (part (counts u i) - part (counts base i)) + (part (counts u' i) - part (counts u i)))"
      unfolding spent_def by (rule sum.cong) auto
    then show ?thesis by (simp only: ext [of part, OF that] sum.distrib)
  qed
  have "counts seen' i = counts u' i" for i
  proof (cases "i \<in> fst ` set u'")
    case False
    then have "counts u' i = (0, 0)" "counts u i = (0, 0)" using ids by (blast intro: counts_absent)+
    with acc seen [of i] False show ?thesis by simp
  qed (use acc in simp)
  moreover have "grows base u'" using assms growing_trans by (auto simp: tallies_def)
  ultimately show ?thesis using assms(1) acc sums [of fst] sums [of snd] by (simp add: s f tallies_def seen)
qed

lemma budget_run_tallies: "budget_run fdiv percent_text c rt base u st \<Longrightarrow> bc_enabled c \<Longrightarrow> tallies base u (tally rt st)"
proof (induction rule: budget_run.induct)
  case (run_begins st messages)
  have self: "grows (usages messages) (usages messages)" using run_begins by (auto simp: grows_def)
  have zero: "spent part (usages messages) (usages messages) = 0" for part by (simp add: spent_def)
  show ?case
  proof (cases "messages = []")
    case True
    with run_begins self zero show ?thesis
      by (simp add: budget_before_agent_def tally_def tallies_def dget_default_def usages_def map_filter_simps no_usage_def)
  next
    case False
    then have "tally rt (budget_before_agent c messages rt st) = (fold (\<lambda>(i, n) s. dset i n s) (usages messages) [], no_usage)"
      using run_begins by (simp add: budget_before_agent_def tally_def Let_def dget_default_def bounded_default_def)
    moreover have "distinct (map fst (usages messages))" using self by (simp add: grows_def)
    ultimately show ?thesis using self zero fold_dset_counts [of "usages messages" "[]"]
      by (auto simp: tallies_def no_usage_def counts_absent)
  qed
next
  case (run_responds base u st messages m r st')
  with tallies_grow [of base u "tally rt st" "usages messages"] tally_after_model [of c messages m rt fdiv percent_text st] show ?case by simp
next
  case (run_rests base u st st')
  then show ?case by (simp add: tally_def dget_default_def)
qed

lemma highest_ge:
  "fst (highest fdiv fs) \<ge> 0 \<and> (\<forall>(reason, used, limit)\<in>set fs. fdiv used limit \<le> fst (highest fdiv fs))"
proof (induction fs rule: rev_induct)
  case (snoc f fs)
  obtain reason used limit where f: "f = (reason, used, limit)" by (cases f)
  obtain best trigger where h: "highest fdiv fs = (best, trigger)" by (metis prod.exhaust)
  then have "highest fdiv (fs @ [f]) = (if fdiv used limit > best then (fdiv used limit, reason, used, limit) else (best, trigger))"
    by (cases trigger) (simp add: highest_def f)
  with snoc h f show ?case by (auto intro: order_trans less_imp_le)
qed (simp add: highest_def)

lemma spent_nonneg: "grows base u \<Longrightarrow> 0 \<le> spent fst base u \<and> 0 \<le> spent snd base u"
  by (auto simp: spent_def grows_def intro!: sum_nonneg)

text \<open>Nothing was spent, or some limit reached the threshold, or all are below it.\<close>

lemma below_limits:
  assumes "valid_budget_config c" and "\<And>a n. 1 \<le> n \<Longrightarrow> n \<le> a \<Longrightarrow> 1 \<le> fdiv a n"
    and "tu_total usage \<le> 0 \<or> fst (highest fdiv (fractions c usage)) < bc_hard_stop_threshold c"
    and "0 \<le> tu_input usage" and "0 \<le> tu_output usage" and "tu_total usage = tu_input usage + tu_output usage"
  shows "tu_total usage < bc_max_tokens c \<and> (\<forall>n. bc_max_input_tokens c = Some n \<longrightarrow> tu_input usage < n) \<and>
    (\<forall>n. bc_max_output_tokens c = Some n \<longrightarrow> tu_output usage < n)"
proof -
  have limits: "1 \<le> bc_max_tokens c" "\<And>n. bc_max_input_tokens c = Some n \<Longrightarrow> 1 \<le> n" "\<And>n. bc_max_output_tokens c = Some n \<Longrightarrow> 1 \<le> n"
    and hard: "bc_hard_stop_threshold c \<le> 1"
    using assms(1) by (auto simp: valid_budget_config_def split: option.split_asm)
  have below: "used < limit" if "(reason, used, limit) \<in> set (fractions c usage)" "1 \<le> limit" "\<not> tu_total usage \<le> 0" for reason used limit
  proof (rule ccontr)
    assume "\<not> used < limit"
    then have "1 \<le> fdiv used limit" using assms(2) that(2) by simp
    moreover have "fdiv used limit \<le> fst (highest fdiv (fractions c usage))" using highest_ge [of fdiv "fractions c usage"] that(1) by auto
    ultimately show False using assms(3) that(3) hard by auto
  qed
  show ?thesis
  proof (cases "tu_total usage \<le> 0")
    case True
    with assms(4-6) have "tu_total usage = 0" "tu_input usage = 0" "tu_output usage = 0" by auto
    with limits show ?thesis by force
  next
    case False
    have "tu_total usage < bc_max_tokens c" by (rule below [OF _ limits(1) False, of "''total''"]) (simp add: fractions_def)
    moreover have "tu_input usage < n" if "bc_max_input_tokens c = Some n" for n
      using limits(2) [OF that] by (intro below [OF _ _ False, of "''input''"]) (auto simp: fractions_def that)
    moreover have "tu_output usage < n" if "bc_max_output_tokens c = Some n" for n
      using limits(3) [OF that] by (intro below [OF _ _ False, of "''output''"]) (auto simp: fractions_def that)
    ultimately show ?thesis by blast
  qed
qed

text \<open>C19. The budget holds: in a run whose messages stay and whose token counts do not shrink, a response is only passed on unchanged while the tokens of the messages
  of this run, not those of earlier runs in the same conversation, are below the budget, in total and for input and output where these are limited; otherwise it loses its tool calls, also in the raw metadata, and the run is reported
  as capped. Only assumed of the division is that the quotient is at least one when the budget is reached.\<close>

theorem budget_enforced:
  assumes "budget_run fdiv percent_text c rt base u st" and "bc_enabled c" and "valid_budget_config c"
    and "\<And>a n. 1 \<le> n \<Longrightarrow> n \<le> a \<Longrightarrow> 1 \<le> fdiv a n"
    and "messages \<noteq> []" and "last messages = AIMessage m" and "grows u (usages messages)"
  shows "case budget_after_model fdiv percent_text c messages rt st of
      (None, st') \<Rightarrow> spent fst base (usages messages) + spent snd base (usages messages) < bc_max_tokens c \<and>
        (\<forall>n. bc_max_input_tokens c = Some n \<longrightarrow> spent fst base (usages messages) < n) \<and>
        (\<forall>n. bc_max_output_tokens c = Some n \<longrightarrow> spent snd base (usages messages) < n)
    | (Some m', st') \<Rightarrow> ai_tool_calls m' = [] \<and> dget (ai_additional_kwargs m') ''tool_calls'' = None \<and>
        dget (ai_additional_kwargs m') ''function_call'' = None \<and>
        fst (consume_budget_stop_reason (budget_run_id rt) st') = Some ''token_capped''"
proof -
  obtain seen usage where f: "fold account (usages messages) (tally rt st) = (seen, usage)" by (metis prod.exhaust)
  have "tallies base (usages messages) (seen, usage)"
    using tallies_grow [OF budget_run_tallies [OF assms(1,2)] assms(7)] unfolding f .
  then have t: "tu_input usage = spent fst base (usages messages)" "tu_output usage = spent snd base (usages messages)"
      "tu_total usage = tu_input usage + tu_output usage" "0 \<le> tu_input usage" "0 \<le> tu_output usage"
    using spent_nonneg [of base "usages messages"] by (auto simp: tallies_def)
  obtain fraction reason used budget where h: "highest fdiv (fractions c usage) = (fraction, reason, used, budget)" by (metis prod.exhaust)
  show ?thesis
  proof (cases "tu_total usage \<le> 0 \<or> fraction < bc_hard_stop_threshold c")
    case True
    then have "tu_total usage < bc_max_tokens c \<and> (\<forall>n. bc_max_input_tokens c = Some n \<longrightarrow> tu_input usage < n) \<and>
        (\<forall>n. bc_max_output_tokens c = Some n \<longrightarrow> tu_output usage < n)"
      by (intro below_limits [where fdiv = fdiv, OF assms(3,4) _ t(4,5,3)]) (simp_all add: h)
    moreover have "fst (budget_after_model fdiv percent_text c messages rt st) = None"
      using assms(2,5,6) f [unfolded tally_def] h True by (auto simp: budget_after_model_def Let_def)
    ultimately show ?thesis using t(1-3) by (cases "budget_after_model fdiv percent_text c messages rt st") simp
  next
    case False
    then show ?thesis using assms(2,5,6) f [unfolded tally_def] h
      by (simp add: budget_after_model_def Let_def budget_hard_stop_def consume_budget_stop_reason_def)
  qed
qed

definition demo_ai :: "string \<Rightarrow> int \<Rightarrow> int \<Rightarrow> ai_message" where
  "demo_ai i input_tokens output_tokens =
     \<lparr>ai_id = Some i, ai_content = PStr ''x'', ai_tool_calls = [[(''name'', PStr ''search'')]], ai_invalid_tool_calls = [], ai_additional_kwargs = [],
      ai_response_metadata = [], ai_usage_metadata = [(''input_tokens'', PInt input_tokens), (''output_tokens'', PInt output_tokens)]\<rparr>"

definition demo_budget :: budget_config where
  "demo_budget = \<lparr>bc_enabled = True, bc_max_tokens = 1000, bc_max_input_tokens = None, bc_max_output_tokens = Some 500, bc_warn_threshold = 1 / 2,
     bc_hard_stop_threshold = 1\<rparr>"

definition demo_runtime :: agent_runtime where
  "demo_runtime = \<lparr>rn_context = Some [(''run_id'', PStr ''r1'')], rn_identity = ''o1''\<rparr>"

theorem budget_enforced_witness:
  "\<exists>m' st'. budget_after_model (\<lambda>a n. rat_of_int a / rat_of_int n) (\<lambda>_. ''50'') demo_budget [AIMessage (demo_ai ''m1'' 4000 1000), AIMessage (demo_ai ''m2'' 900 300)] demo_runtime
       (budget_before_agent demo_budget [AIMessage (demo_ai ''m1'' 4000 1000)] demo_runtime empty_budget_state) = (Some m', st') \<and>
     ai_tool_calls m' = [] \<and> fst (consume_budget_stop_reason (PStr ''r1'') st') = Some ''token_capped''"
proof -
  let ?fdiv = "\<lambda>a n. rat_of_int a / rat_of_int n"
  let ?old = "[AIMessage (demo_ai ''m1'' 4000 1000)]"
  let ?new = "[AIMessage (demo_ai ''m1'' 4000 1000), AIMessage (demo_ai ''m2'' 900 300)]"
  have u: "usages ?old = [(''m1'', 4000, 1000)]" "usages ?new = [(''m1'', 4000, 1000), (''m2'', 900, 300)]"
    by (simp_all add: usages_def map_filter_simps message_usage_def demo_ai_def tokens_of_def get_key_def)
  have g: "grows [] (usages ?old)" "grows (usages ?old) (usages ?new)" unfolding u by (auto simp: grows_def dget_default_def)
  have run: "budget_run ?fdiv (\<lambda>_. ''50'') demo_budget demo_runtime (usages ?old) (usages ?old) (budget_before_agent demo_budget ?old demo_runtime empty_budget_state)"
    by (rule run_begins [OF _ _ g(1)]) (simp_all add: empty_budget_state_def)
  have valid: "bc_enabled demo_budget" "valid_budget_config demo_budget" by (simp_all add: demo_budget_def valid_budget_config_def)
  have div: "1 \<le> ?fdiv a n" if "1 \<le> n" "n \<le> a" for a n using that by simp
  have total: "spent fst (usages ?old) (usages ?new) + spent snd (usages ?old) (usages ?new) = 1200" unfolding u by (simp add: spent_def dget_default_def)
  have limit: "bc_max_tokens demo_budget = 1000" "budget_run_id demo_runtime = PStr ''r1''" by (simp_all add: demo_budget_def demo_runtime_def budget_run_id_def)
  have last: "last ?new = AIMessage (demo_ai ''m2'' 900 300)" "?new \<noteq> []" by simp_all
  show ?thesis using budget_enforced [OF run valid div last(2,1) g(2)] unfolding total limit by (auto split: option.split_asm prod.split_asm)
qed

end
