(* ===== verification/Worker_Properties.thy ===== *)
theory Worker_Properties
  imports Action_Worker
begin

text \<open>
  The properties of the Action worker: no effect without fresh authorization, the order of effects, every
  claimed execution is finished while its lease is kept, safe and repeatable requests, bounded results.
\<close>

section \<open>The checks\<close>

text \<open>What the checks establish for the context \<open>c\<close>, Action \<open>a\<close> and a current snapshot of the target.\<close>

definition freshly_authorized ::
  "(string \<Rightarrow> string) \<Rightarrow> ontology_registry \<Rightarrow> worker_env \<Rightarrow> proposal_command \<Rightarrow> action_definition \<Rightarrow> bool" where
  "freshly_authorized sha256 ontology env cmd a \<longleftrightarrow>
     (\<exists>stored c snapshot obj.
        from_mapping sha256 (pv_authorization_snapshot cmd) = Inr stored \<and>
        we_revalidate env cmd = Inr c \<and> same_subject c stored cmd \<and>
        authorize_action ontology (pv_action_id cmd) c = Inr a \<and> ad_version a = pv_action_version cmd \<and>
        target_in_resources a (pv_target_id cmd) c \<and>
        we_get_target env a (pv_target_id cmd) c = Inr snapshot \<and>
        registry_object ontology (ad_target_type a) = Inr obj \<and>
        validate_action_target a (pv_target_id cmd) (od_id_field obj) (pv_expected_object_version cmd) snapshot = Inr ())"

lemma authorize_action_registry:
  "authorize_action ontology n c = Inr a \<Longrightarrow> registry_action ontology n = Inr a"
  by (auto simp: authorize_action_def ebind_Inr_iff split: if_split_asm)

lemma check_command_Inr:
  assumes "check_command sha256 ontology env cmd = Inr a"
  shows "freshly_authorized sha256 ontology env cmd a"
proof -
  from assms obtain stored where stored: "from_mapping sha256 (pv_authorization_snapshot cmd) = Inr stored"
    by (auto simp: check_command_def context_failed_def err_simps)
  from assms obtain b where b: "registry_action ontology (pv_action_id cmd) = Inr b" "ad_version b = pv_action_version cmd"
    by (auto simp: check_command_def err_simps split: if_split_asm)
  from assms stored b obtain c where c: "we_revalidate env cmd = Inr c" "same_subject c stored cmd"
    by (auto simp: check_command_def context_failed_def err_simps split: if_split_asm)
  from assms stored b c have a: "authorize_action ontology (pv_action_id cmd) c = Inr a"
    "target_in_resources a (pv_target_id cmd) c"
    by (auto simp: check_command_def context_failed_def err_simps split: if_split_asm)
  from assms stored b c a obtain snapshot obj where "we_get_target env a (pv_target_id cmd) c = Inr snapshot"
    "registry_object ontology (ad_target_type a) = Inr obj"
    "validate_action_target a (pv_target_id cmd) (od_id_field obj) (pv_expected_object_version cmd) snapshot = Inr ()"
    by (auto simp: check_command_def context_failed_def err_simps split: if_split_asm)
  moreover have "ad_version a = pv_action_version cmd"
    using authorize_action_registry [OF a(1)] b by simp
  ultimately show ?thesis unfolding freshly_authorized_def using stored c a by blast
qed

section \<open>Effects\<close>

fun effect_command :: "effect \<Rightarrow> proposal_command" where
  "effect_command (Execute cmd) = cmd"
| "effect_command (Compensate cmd k code) = cmd"

text \<open>The effects of a round that claimed \<open>cmd\<close> with execution \<open>ev\<close>: at most one call to execute and one to
  compensate, in this order.\<close>

definition round_effects :: "worker_env \<Rightarrow> proposal_command \<Rightarrow> execution_view \<Rightarrow> action_definition \<Rightarrow> effect list \<Rightarrow> bool" where
  "round_effects env cmd ev a es \<longleftrightarrow>
     (if ev_status ev = COMPENSATING
      then (case ad_compensation a of None \<Rightarrow> es = [] | Some k \<Rightarrow> \<exists>code. es = [Compensate cmd k code])
      else es = [Execute cmd] \<or>
        (\<exists>e k code. we_execute env cmd = Inl e \<and> ad_compensation a = Some k \<and> es = [Execute cmd, Compensate cmd k code]))"

lemma run_compensation_effects:
  "run_compensation env sc w cmd i k code db = (r, es, db') \<Longrightarrow> es = [Compensate cmd k code]"
  by (auto simp: run_compensation_def Let_def split: prod.split_asm sum.split_asm)

lemma run_claimed_effects:
  assumes "run_claimed sha256 ontology env sc w cmd ev db = (r, es, db')"
  shows "(es = [] \<and> (\<exists>err. check_command sha256 ontology env cmd = Inl err)) \<or>
    (\<exists>a. check_command sha256 ontology env cmd = Inr a \<and> round_effects env cmd ev a es)"
proof (cases "check_command sha256 ontology env cmd")
  case (Inl err)
  with assms show ?thesis by (simp add: run_claimed_def)
next
  case (Inr a)
  have "round_effects env cmd ev a es"
  proof (cases "ev_status ev = COMPENSATING")
    case True
    with assms Inr show ?thesis
      by (auto simp: run_claimed_def recover_compensation_def round_effects_def Let_def
          split: option.split_asm option.split prod.split_asm dest: run_compensation_effects)
  next
    case False
    with assms Inr have "run_execution env sc w cmd ev a db = (r, es, db')" by (simp add: run_claimed_def)
    then have "es = [Execute cmd] \<or>
        (\<exists>e k code. we_execute env cmd = Inl e \<and> ad_compensation a = Some k \<and> es = [Execute cmd, Compensate cmd k code])"
      unfolding run_execution_def Let_def
      by (auto split: sum.split_asm option.split_asm prod.split_asm dest!: run_compensation_effects)
    with False show ?thesis by (simp add: round_effects_def)
  qed
  with Inr show ?thesis by blast
qed

lemma run_once_effects:
  assumes "run_once sha256 ontology env sc w lease db = (r, es, db')" and "es \<noteq> []"
  obtains cmd ev db1 a where "claim_ready (sc_now sc 0) w lease (sc_others sc 0 db) = (Some (cmd, ev), db1)"
    and "freshly_authorized sha256 ontology env cmd a" and "round_effects env cmd ev a es"
proof -
  from assms obtain cmd ev db1 where c: "claim_ready (sc_now sc 0) w lease (sc_others sc 0 db) = (Some (cmd, ev), db1)"
    by (auto simp: run_once_def split: prod.split_asm option.split_asm)
  obtain r1 es1 db2 where rc: "run_claimed sha256 ontology env sc w cmd ev db1 = (r1, es1, db2)"
    by (metis prod_cases3)
  have "es1 = es"
    using assms(1) c rc by (auto simp: run_once_def split: prod.split_asm sum.split_asm)
  with run_claimed_effects [OF rc] assms(2) obtain a where
    "check_command sha256 ontology env cmd = Inr a" "round_effects env cmd ev a es" by blast
  with c check_command_Inr that show thesis by blast
qed

lemma round_effects_command: "round_effects env cmd ev a es \<Longrightarrow> x \<in> set es \<Longrightarrow> effect_command x = cmd"
  by (auto simp: round_effects_def split: if_split_asm option.split_asm)

section \<open>A round of the demo worker\<close>

definition demo_worker_env :: "action_error + (string, pyval) dict \<Rightarrow> worker_env" where
  "demo_worker_env reply = \<lparr>we_revalidate = (\<lambda>_. Inr demo_admin),
     we_get_target = (\<lambda>_ target_id _. Inr [(''id'', PStr target_id)]),
     we_execute = (\<lambda>_. reply), we_compensate = (\<lambda>_ _ _. Inr [])\<rparr>"

definition demo_schedule :: "(nat \<Rightarrow> action_db \<Rightarrow> action_db) \<Rightarrow> schedule" where
  "demo_schedule others = \<lparr>sc_now = (\<lambda>k. 104 + int k), sc_others = others\<rparr>"

definition quiet :: "nat \<Rightarrow> action_db \<Rightarrow> action_db" where "quiet k db = db"

definition demo_round :: "(worker_error + bool) \<times> effect list \<times> action_db" where
  "demo_round = run_once demo_digest demo_registry (demo_worker_env (Inr [(''updated'', PBool True)])) (demo_schedule quiet)
     ''w1'' 30 demo_queued"

lemma demo_round_result: "fst demo_round = Inr True \<and> length (fst (snd demo_round)) = 1"
  by code_simp

section \<open>Properties\<close>

text \<open>C1. The worker acts on nothing that is not approved and freshly authorized: for every call to the domain
  API in a round, whatever other transactions ran before and in between, the stored proposal of the
  command is approved or needs no approval, and in this round IAM returned a context for the same
  principal, tenant and scope hash whose roles admit the Action and whose resources cover the target,
  and a snapshot read with that context satisfies version and preconditions.\<close>

theorem worker_effects_authorized:
  assumes "(repo_step ontology)\<^sup>*\<^sup>* empty_db db" and "\<And>k s. (repo_step ontology)\<^sup>*\<^sup>* s (sc_others sc k s)"
    and "run_once sha256 ontology env sc w lease db = (r, es, db')" and "x \<in> set es"
  shows "\<exists>p a. find_proposal (sc_others sc 0 db) (pv_proposal_id (effect_command x)) = Some p \<and>
    (pr_approval_required p \<longrightarrow> pr_approved_by p \<noteq> None) \<and>
    freshly_authorized sha256 ontology env (effect_command x) a"
proof -
  have "es \<noteq> []" using assms(4) by auto
  from run_once_effects [OF assms(3) this] obtain cmd ev db1 a where
    claim: "claim_ready (sc_now sc 0) w lease (sc_others sc 0 db) = (Some (cmd, ev), db1)" and
    fresh: "freshly_authorized sha256 ontology env cmd a" and eff: "round_effects env cmd ev a es" .
  have "(repo_step ontology)\<^sup>*\<^sup>* empty_db (sc_others sc 0 db)" using assms(1,2) by (rule rtranclp_trans)
  from claim_approved [OF this claim] fresh round_effects_command [OF eff assms(4)] show ?thesis by blast
qed

theorem worker_effects_authorized_witness:
  "\<exists>x p a. fst (snd demo_round) = [x] \<and>
     find_proposal demo_queued (pv_proposal_id (effect_command x)) = Some p \<and>
     (pr_approval_required p \<longrightarrow> pr_approved_by p \<noteq> None) \<and>
     freshly_authorized demo_digest demo_registry (demo_worker_env (Inr [(''updated'', PBool True)])) (effect_command x) a"
proof -
  obtain r es db' where run: "demo_round = (r, es, db')" by (metis prod_cases3)
  from demo_round_result [unfolded run] obtain x where x: "es = [x]" by (auto simp: length_Suc_conv)
  have quiet: "sc_others (demo_schedule quiet) k s = s" for k s by (simp add: demo_schedule_def quiet_def)
  then have "(repo_step demo_registry)\<^sup>*\<^sup>* s (sc_others (demo_schedule quiet) k s)" for k s by simp
  note applied = worker_effects_authorized [OF demo_reachable_queued this run [unfolded demo_round_def], of x]
  have "fst (snd demo_round) = [x]" unfolding run by (simp add: x)
  with applied x quiet show ?thesis by auto
qed

text \<open>In one round the worker calls execute at most once and compensate at most once, never compensate before
  execute; it compensates only with the compensation the Action defines, and only an execution that
  was already compensating when it was claimed or whose execute call just failed.\<close>

theorem worker_effect_order:
  assumes "run_once sha256 ontology env sc w lease db = (r, es, db')" and "es \<noteq> []"
  shows "\<exists>cmd ev db1 a. claim_ready (sc_now sc 0) w lease (sc_others sc 0 db) = (Some (cmd, ev), db1) \<and>
    authorize_action ontology (pv_action_id cmd) (projr (we_revalidate env cmd)) = Inr a \<and>
    ((es = [Execute cmd] \<and> ev_status ev \<noteq> COMPENSATING) \<or>
     (\<exists>e k code. es = [Execute cmd, Compensate cmd k code] \<and> ev_status ev \<noteq> COMPENSATING \<and>
        we_execute env cmd = Inl e \<and> ad_compensation a = Some k) \<or>
     (\<exists>k code. es = [Compensate cmd k code] \<and> ev_status ev = COMPENSATING \<and> ad_compensation a = Some k))"
proof -
  from run_once_effects [OF assms] obtain cmd ev db1 a where
    claim: "claim_ready (sc_now sc 0) w lease (sc_others sc 0 db) = (Some (cmd, ev), db1)" and
    fresh: "freshly_authorized sha256 ontology env cmd a" and eff: "round_effects env cmd ev a es" .
  from fresh have "authorize_action ontology (pv_action_id cmd) (projr (we_revalidate env cmd)) = Inr a"
    by (auto simp: freshly_authorized_def)
  moreover have "(es = [Execute cmd] \<and> ev_status ev \<noteq> COMPENSATING) \<or>
     (\<exists>e k code. es = [Execute cmd, Compensate cmd k code] \<and> ev_status ev \<noteq> COMPENSATING \<and>
        we_execute env cmd = Inl e \<and> ad_compensation a = Some k) \<or>
     (\<exists>k code. es = [Compensate cmd k code] \<and> ev_status ev = COMPENSATING \<and> ad_compensation a = Some k)"
    using eff assms(2) by (auto simp: round_effects_def split: if_split_asm option.split_asm)
  ultimately show ?thesis using claim by blast
qed

theorem worker_effect_order_witness:
  "\<exists>cmd. fst (snd demo_round) = [Execute cmd]"
proof -
  obtain r es db' where run: "demo_round = (r, es, db')" by (metis prod_cases3)
  from demo_round_result [unfolded run] have "length es = 1" by simp
  moreover from this have "es \<noteq> []" by auto
  moreover have "ad_compensation demo_action = None" by (simp add: demo_action_def)
  moreover have "\<forall>n c a. authorize_action demo_registry n c = Inr a \<longrightarrow> a = demo_action"
    by (auto simp: authorize_action_Inr demo_registry_def split: if_split_asm)
  moreover have "fst (snd demo_round) = es" unfolding run by simp
  ultimately show ?thesis
    using worker_effect_order [OF run [unfolded demo_round_def]] by fastforce
qed

section \<open>Every claimed execution is finished\<close>

text \<open>\<open>leased db i w s\<close>: execution \<open>i\<close> is leased to \<open>w\<close> in status \<open>s\<close>.\<close>

definition leased :: "action_db \<Rightarrow> string \<Rightarrow> string \<Rightarrow> action_status \<Rightarrow> bool" where
  "leased db i w s \<longleftrightarrow> (\<exists>e. find_execution db i = Some e \<and> ex_lease_owner e = Some w \<and> ex_status e = s)"

definition finished :: "action_db \<Rightarrow> string \<Rightarrow> bool" where
  "finished db i \<longleftrightarrow> (\<exists>e. find_execution db i = Some e \<and> terminal_status (ex_status e) \<and> ex_lease_owner e = None)"

lemma find_execution_move [simp]: "find_execution (move_proposal now p s r db) = find_execution db"
  by (simp add: move_proposal_def split: option.split)

lemma find_execution_id: "find_execution db i = Some e \<Longrightarrow> ex_id e = i"
  by (auto simp: find_execution_def find_Some_iff)

lemma claim_leases:
  assumes "claim_ready now w lease db = (Some (cmd, ev), db1)" and "wf_db db"
  shows "leased db1 (ev_execution_id ev) w (ev_status ev) \<and> (ev_status ev = EXECUTING \<or> ev_status ev = COMPENSATING)"
  using assms(1)
proof (rule claim_ready_Some)
  fix e p assume e: "next_claimable now db = Some e" "find_proposal db (ex_proposal_id e) = Some p"
    "pr_status p \<in> {READY, EXECUTING, COMPENSATING}"
  have "find_execution db (ex_id e) = Some e"
    using assms(2) next_claimable_Some(1) [OF e(1)] by (simp add: find_execution_iff)
  with assms(1) e show ?thesis
    by (auto simp: claim_ready_def Let_def leased_def execution_dict_def find_execution_put)
qed

lemma finish_finishes:
  assumes "leased db i w s"
  shows "\<exists>db'. finish now i w result code detail db = Inr db' \<and> finished db' i"
proof -
  from assms obtain e where e: "find_execution db i = Some e" "ex_lease_owner e = Some w" by (auto simp: leased_def)
  with find_execution_id [OF e(1)] show ?thesis
    by (simp add: finish_def Let_def finished_def find_execution_put terminal_status_def)
qed

lemma finish_compensation_finishes:
  assumes "leased db i w COMPENSATING"
  shows "\<exists>db'. finish_compensation now i w result failed db = Inr db' \<and> finished db' i"
proof -
  from assms obtain e where e: "find_execution db i = Some e" "ex_lease_owner e = Some w" "ex_status e = COMPENSATING"
    by (auto simp: leased_def)
  with find_execution_id [OF e(1)] show ?thesis
    by (simp add: finish_compensation_def Let_def finished_def find_execution_put terminal_status_def)
qed

lemma begin_compensation_leases:
  assumes "leased db i w EXECUTING"
  shows "\<exists>db'. begin_compensation now i w code detail db = Inr db' \<and> leased db' i w COMPENSATING"
proof -
  from assms obtain e where e: "find_execution db i = Some e" "ex_lease_owner e = Some w" "ex_status e = EXECUTING"
    by (auto simp: leased_def)
  with find_execution_id [OF e(1)] show ?thesis
    by (simp add: begin_compensation_def Let_def leased_def find_execution_put)
qed

text \<open>The others leave execution \<open>i\<close> alone.\<close>

definition keeps_lease :: "schedule \<Rightarrow> string \<Rightarrow> bool" where
  "keeps_lease sc i \<longleftrightarrow> (\<forall>k s. 0 < k \<longrightarrow> find_execution (sc_others sc k s) i = find_execution s i)"

lemma keeps_leased: "keeps_lease sc i \<Longrightarrow> 0 < k \<Longrightarrow> leased (sc_others sc k s) i w st \<longleftrightarrow> leased s i w st"
  by (simp add: keeps_lease_def leased_def)

lemma run_compensation_finishes:
  assumes "keeps_lease sc i" and "leased db i w COMPENSATING"
  shows "\<exists>es db'. run_compensation env sc w cmd i k code db = (Inr (), es, db') \<and> finished db' i"
proof -
  have l: "leased (sc_others sc 2 db) i w COMPENSATING" using assms by (simp add: keeps_leased)
  show ?thesis
  proof (cases "we_compensate env cmd k code")
    case (Inl e)
    then show ?thesis
      using finish_compensation_finishes [OF l, of "sc_now sc 2" None True]
      by (auto simp: run_compensation_def transact_def)
  next
    case (Inr r)
    then show ?thesis
      using finish_compensation_finishes [OF l, of "sc_now sc 2" "Some r" False]
      by (auto simp: run_compensation_def transact_def)
  qed
qed

lemma run_execution_finishes:
  assumes keep: "keeps_lease sc (ev_execution_id ev)" and lease: "leased db (ev_execution_id ev) w EXECUTING"
    and run: "run_execution env sc w cmd ev a db = (r, es, db')"
  shows "(r = Inr () \<and> finished db' (ev_execution_id ev)) \<or>
    (\<exists>err. r = Inl err \<and> leased db' (ev_execution_id ev) w EXECUTING)"
proof -
  let ?i = "ev_execution_id ev"
  have l: "leased (sc_others sc 1 db) ?i w EXECUTING" using keep lease by (simp add: keeps_leased)
  show ?thesis
  proof (cases "we_execute env cmd")
    case (Inr result)
    with run finish_finishes [OF l, of "sc_now sc 1" "Some result" None None] show ?thesis
      by (auto simp: run_execution_def transact_def)
  next
    case (Inl e)
    show ?thesis
    proof (cases "ad_compensation a")
      case None
      with Inl run lease show ?thesis by (auto simp: run_execution_def)
    next
      case (Some k)
      from begin_compensation_leases [OF l, of "sc_now sc 1" "error_code_of e" "error_detail_of e"] obtain db1 where
        db1: "begin_compensation (sc_now sc 1) ?i w (error_code_of e) (error_detail_of e) (sc_others sc 1 db) = Inr db1"
          "leased db1 ?i w COMPENSATING" by blast
      from run_compensation_finishes [OF keep db1(2), of env cmd k "error_code_of e"] run Inl Some db1(1)
      show ?thesis by (auto simp: run_execution_def transact_def)
    qed
  qed
qed

lemma run_claimed_finishes:
  assumes keep: "keeps_lease sc (ev_execution_id ev)" and lease: "leased db (ev_execution_id ev) w (ev_status ev)"
    and st: "ev_status ev = EXECUTING \<or> ev_status ev = COMPENSATING"
    and run: "run_claimed sha256 ontology env sc w cmd ev db = (r, es, db')"
  shows "(r = Inr () \<and> finished db' (ev_execution_id ev)) \<or>
    (\<exists>err s. r = Inl err \<and> leased db' (ev_execution_id ev) w s)"
proof (cases "check_command sha256 ontology env cmd")
  case (Inl err)
  with run lease show ?thesis by (auto simp: run_claimed_def)
next
  case (Inr a)
  show ?thesis
  proof (cases "ev_status ev = COMPENSATING")
    case True
    with lease have l: "leased db (ev_execution_id ev) w COMPENSATING" by simp
    show ?thesis
    proof (cases "ad_compensation a")
      case None
      have "leased (sc_others sc 2 db) (ev_execution_id ev) w COMPENSATING" using keep l by (simp add: keeps_leased)
      from finish_compensation_finishes [OF this, of "sc_now sc 2" None True] show ?thesis
        using run Inr True None by (auto simp: run_claimed_def recover_compensation_def transact_def)
    next
      case (Some k)
      then obtain code where "run_compensation env sc w cmd (ev_execution_id ev) k code db = (r, es, db')"
        using run Inr True by (simp add: run_claimed_def recover_compensation_def)
      with run_compensation_finishes [OF keep l, of env cmd k code] show ?thesis by auto
    qed
  next
    case False
    with st lease have "leased db (ev_execution_id ev) w EXECUTING" by simp
    from run_execution_finishes [OF keep this] run Inr False show ?thesis by (fastforce simp: run_claimed_def)
  qed
qed

text \<open>C16. Progress: when the others leave the claimed execution alone (its lease is not lost), a round does
  not raise, and it ends with the execution finished and its lease released, whatever IAM, the target
  reader and the domain API answer.\<close>

theorem round_finishes_claimed:
  assumes "(repo_step ontology)\<^sup>*\<^sup>* empty_db db" and "\<And>k s. (repo_step ontology)\<^sup>*\<^sup>* s (sc_others sc k s)"
    and "claim_ready (sc_now sc 0) w lease (sc_others sc 0 db) = (Some (cmd, ev), db1)"
    and "keeps_lease sc (ev_execution_id ev)"
  shows "\<exists>es db'. run_once sha256 ontology env sc w lease db = (Inr True, es, db') \<and> finished db' (ev_execution_id ev)"
proof -
  have "(repo_step ontology)\<^sup>*\<^sup>* empty_db (sc_others sc 0 db)" using assms(1,2) by (rule rtranclp_trans)
  then have "wf_db (sc_others sc 0 db)" using reachable_inv by (auto simp: repo_inv_def)
  note lease = claim_leases [OF assms(3) this]
  obtain r es db2 where rc: "run_claimed sha256 ontology env sc w cmd ev db1 = (r, es, db2)" by (metis prod_cases3)
  from lease run_claimed_finishes [OF assms(4) _ _ rc]
  consider "r = Inr ()" "finished db2 (ev_execution_id ev)"
    | err s where "r = Inl err" "leased db2 (ev_execution_id ev) w s" by blast
  then show ?thesis
  proof cases
    case 1
    then show ?thesis by (simp add: run_once_def assms(3) rc)
  next
    case 2
    then have "leased (sc_others sc 3 db2) (ev_execution_id ev) w s" using assms(4) by (simp add: keeps_leased)
    from finish_finishes [OF this, of "sc_now sc 3" None "Some (fst (handled_error err))" "Some (snd (handled_error err))"] 2
    show ?thesis by (auto simp: run_once_def assms(3) rc transact_def)
  qed
qed

theorem round_finishes_claimed_witness:
  "\<exists>es db'. run_once demo_digest demo_registry (demo_worker_env (Inl (Raised ''RuntimeError''))) (demo_schedule quiet)
     ''w1'' 30 demo_queued = (Inr True, es, db') \<and> finished db' ''e1''"
proof -
  have quiet: "sc_others (demo_schedule quiet) k s = s" "sc_now (demo_schedule quiet) 0 = 104" for k s
    by (simp_all add: demo_schedule_def quiet_def)
  have "fst (claim_ready 104 ''w1'' 30 demo_queued) \<noteq> None"
    "ev_execution_id (snd (the (fst (claim_ready 104 ''w1'' 30 demo_queued)))) = ''e1''" by code_simp+
  then obtain cmd ev db1 where c: "claim_ready 104 ''w1'' 30 demo_queued = (Some (cmd, ev), db1)" "ev_execution_id ev = ''e1''"
    by (cases "claim_ready 104 ''w1'' 30 demo_queued") auto
  have "keeps_lease (demo_schedule quiet) (ev_execution_id ev)" by (simp add: keeps_lease_def quiet)
  moreover have "claim_ready (sc_now (demo_schedule quiet) 0) ''w1'' 30 (sc_others (demo_schedule quiet) 0 demo_queued) = (Some (cmd, ev), db1)"
    using c by (simp add: quiet)
  moreover have "(repo_step demo_registry)\<^sup>*\<^sup>* s (sc_others (demo_schedule quiet) k s)" for k s by (simp add: quiet)
  ultimately show ?thesis
    using round_finishes_claimed [OF demo_reachable_queued] c(2) by metis
qed

text \<open>Another worker claims the execution between the call to the domain API and the transaction that records it.\<close>

definition stealing :: "nat \<Rightarrow> action_db \<Rightarrow> action_db" where
  "stealing k db = (if k = 1 then snd (claim_ready 500 ''w2'' 30 db) else db)"

text \<open>A lost lease ends the worker: there is a round in which a worker executes the Action, another claims
  the expired lease before the first records the result, and \<^verbatim>\<open>run_once\<close> raises, because the handler that
  should record the failure calls \<^verbatim>\<open>finish\<close> with the lost lease again. (\<^verbatim>\<open>run_worker\<close> does not catch it.)\<close>

theorem lost_lease_raises:
  "\<exists>cmd db'. run_once demo_digest demo_registry (demo_worker_env (Inr [(''updated'', PBool True)])) (demo_schedule stealing)
       ''w1'' 30 demo_queued =
     (Inl (Failed (ActionError ''ACTION_CONFLICT'' ''Execution lease is not owned by worker'' 409)), [Execute cmd], db') \<and>
     leased db' ''e1'' ''w2'' EXECUTING \<and> (\<forall>k s. (repo_step demo_registry)\<^sup>*\<^sup>* s (sc_others (demo_schedule stealing) k s))"
proof -
  let ?run = "run_once demo_digest demo_registry (demo_worker_env (Inr [(''updated'', PBool True)])) (demo_schedule stealing)
       ''w1'' 30 demo_queued"
  have "fst ?run = Inl (Failed (ActionError ''ACTION_CONFLICT'' ''Execution lease is not owned by worker'' 409)) \<and>
      (case fst (snd ?run) of [Execute cmd] \<Rightarrow> True | _ \<Rightarrow> False) \<and>
      map_option ex_lease_owner (find_execution (snd (snd ?run)) ''e1'') = Some (Some ''w2'') \<and>
      map_option ex_status (find_execution (snd (snd ?run)) ''e1'') = Some EXECUTING"
    by code_simp
  moreover have "(repo_step demo_registry)\<^sup>*\<^sup>* s (sc_others (demo_schedule stealing) k s)" for k s
    using step_claim [of 500 "''w2''" 30 s _ _ demo_registry, OF surjective_pairing]
    by (auto simp: demo_schedule_def stealing_def)
  ultimately show ?thesis
    by (cases ?run) (auto simp: leased_def split: list.split_asm effect.split_asm)
qed

end
