(* ===== verification/Spec2Isabelle.thy ===== *)
theory Spec2Isabelle
  imports Api_Confinement Dangling_Calls Event_Properties Executor_Properties Gated_Files Gateway_Sessions Llm_Properties Loop_Properties Progress_Properties Run_Persistence Stream_Bridge Subagent_Limit Token_Budget Worker_Properties
begin

text \<open>
  A verification library for the semantic governance layer and the agent runtime of the repository
  (Python, under \<^verbatim>\<open>src/backend\<close>). Definitions translate the source; theorems state what makes it correct.

  \<^bold>\<open>The program and its parts.\<close> An agent answers questions and proposes business Actions on behalf of
  a SaaS user. The user's rights travel as an immutable authorization context
  (\<^verbatim>\<open>deerflow/runtime/authorization_context.py\<close>). The ontology (\<^verbatim>\<open>deerflow/semantic/ontology.py\<close>) says which
  objects, metrics and Actions exist and who may use them. Typed questions are compiled into SQL
  (\<^verbatim>\<open>deerflow/semantic/query.py\<close>), and every query goes through a guard that confines it to the caller's scope
  (\<^verbatim>\<open>deerflow/semantic/sql_scope.py\<close>). The semantic API admits a request only with a signed
  token or a reference that IAM resolves (\<^verbatim>\<open>app/auth/saas_authorization.py\<close>, \<^verbatim>\<open>app/semantic/auth.py\<close>), serves it
  (\<^verbatim>\<open>app/semantic/api.py\<close>) through a runtime that finds the tenant's data source and runs the query
  (\<^verbatim>\<open>deerflow/semantic/runtime.py\<close>, \<^verbatim>\<open>tools/builtins/tenant_datasource.py\<close>), and writes what it did to an audit table
  (\<^verbatim>\<open>app/semantic/audit.py\<close>). Actions are
  proposed, previewed, approved, enqueued, claimed and finished in a database (\<^verbatim>\<open>app/semantic/actions.py\<close>,
  \<^verbatim>\<open>models.py\<close>) and carried out by a worker that revalidates everything first (\<^verbatim>\<open>app/semantic/worker.py\<close>). Beside it
  runs the agent runtime: a registry of runs with their background tasks over a durable store
  (\<^verbatim>\<open>deerflow/runtime/runs\<close>), a bridge that streams the events of a run to its subscribers
  (\<^verbatim>\<open>deerflow/runtime/stream_bridge\<close>) and a store of run events (\<^verbatim>\<open>deerflow/runtime/events\<close>). Inside a run, guards
  watch the exchange with the language model and repair or cut it (\<^verbatim>\<open>deerflow/agents/middlewares\<close>), and tools give the model
  files of its thread through a sandbox on the host (\<^verbatim>\<open>deerflow/sandbox\<close>).

  \<^bold>\<open>Foundations.\<close>
  \<^item> \<open>Prelude\<close>: fallible computations as sums, dictionaries as association lists in insertion order, slices and
    stable sorts, and the locale \<open>invariant_system\<close> (what one step keeps, every run keeps).
  \<^item> \<open>Py_Values\<close>: Python values, string methods (on the characters U+0000 to U+00FF), decimal numbers,
    \<^verbatim>\<open>int(s)\<close>, \<^verbatim>\<open>repr\<close>, \<^verbatim>\<open>json.dumps\<close>, and the identifier patterns.
  \<^item> \<open>Json_Text\<close>: \<^verbatim>\<open>json.dumps\<close> with \<^verbatim>\<open>ensure_ascii=False\<close> and \<^verbatim>\<open>json.loads\<close>, and their round trip; reading a float is a parameter.
  \<^item> \<open>Http_Boundary\<close>: HTTP requests and replies, \<^verbatim>\<open>urlsplit\<close> and \<^verbatim>\<open>quote\<close>, as far as the code uses them.

  \<^bold>\<open>Semantic governance.\<close>
  \<^item> \<open>Authorization_Context\<close>: parsing, hashing and serializing contexts. Accepted contexts are well formed, the
    stored snapshot reads back, and equal scope hashes mean equal contexts up to collisions of the digest. The
    digest \<^verbatim>\<open>sha256(...).hexdigest()\<close> is a parameter.
  \<^item> \<open>Ontology\<close>, \<open>Ontology_Laws\<close>: reading a registry with all its checks, the \<^verbatim>\<open>authorize_*\<close> operations, parameter
    validation and question resolution; registries that were read are well formed and resolution shows nothing
    the caller may not see.
  \<^item> \<open>Sql_Scope\<close>: table policies, and the guard as checks and a rewriting of the parsed query. \<open>Sql_Scope_Laws\<close>: which
    predicate each table gets, how parameters are named, limits, aliases, and the meaning of a query in any engine that evaluates it from
    its parts. \<open>Sql_Scope_Properties\<close>: accepted queries have the same result in databases that agree on the caller's scope,
    use only authorized tables, fields and functions, and are bounded; queries that escape the intent.
  \<^item> \<open>Semantic_Query\<close>, \<open>Semantic_Query_Properties\<close>: the compiler of object and metrics queries; what it
    compiles is authorized, filter values are bound as parameters and never reach the text, and the composition with the
    guard is confined. Parsing, printing and \<^verbatim>\<open>statement.limit\<close> of the SQL library are parameters; what is relied
    on is stated by \<open>limits_query\<close>, \<open>selects_in\<close> and a round trip through \<open>statement_tree\<close>.
  \<^item> \<open>Saas_Authorization\<close>: token claims, reference resolution and the guard of the semantic API.
    \<^verbatim>\<open>jwt.decode\<close> and the HTTP client are parameters.
  \<^item> \<open>Action_Repository\<close>: the three tables as records and every transaction of \<^verbatim>\<open>ActionRepository\<close> as a function on
    the database. \<open>Action_Lifecycle\<close>: the transactions as a step relation, the abstract lifecycle \<open>life_step\<close>
    they refine, the database invariant, permanence of rows and the audit trail. \<open>Action_Properties\<close>: approval,
    idempotence, leases, tenant isolation, fairness.
  \<^item> \<open>Action_Worker\<close>: a round of the worker against arbitrary answers of IAM, target reader and domain API, with other
    transactions between its steps. \<open>Worker_Properties\<close>: nothing is executed that is not approved and freshly
    authorized, effects are ordered, rounds finish. \<open>Executor_Properties\<close>: the requests sent and what is stored of
    the answers.
  \<^item> \<open>Tenant_Datasource\<close>: the data source of a tenant from the registry, with its cache; a tenant is only ever given the source
    registered under its own code. The registry's database is a parameter.
  \<^item> \<open>Semantic_Runtime\<close>: the runtime of queries. \<open>Semantic_Audit\<close>: correlation headers and the audit table with the cleaning
    of its details. \<open>Action_Approval\<close>: the verification of approval tokens. \<open>Semantic_Api\<close>: every route of the service
    with its checks, errors and audit rows, and \<open>serve\<close>, the service as a function of call and state.
  \<^item> \<open>Api_Properties\<close>: calls interleaved with worker transactions. What a worker claims was approved with a signed token,
    answers are audited, failures change nothing. \<open>Api_Confinement\<close>: what the service answers and writes depends on no data
    outside the scope of the caller in the data source of the caller's tenant.

  \<^bold>\<open>Agent runtime.\<close>
  \<^item> \<open>Thread_Index\<close>: the secondary index by thread and the locale \<open>thread_indexed\<close>, interpreted by the run store and by
    the registry: indexed lookups equal scans.
  \<^item> \<open>Run_Store\<close>: \<^verbatim>\<open>MemoryRunStore\<close>, its listings and token accounting.
  \<^item> \<open>Run_Manager\<close>: \<^verbatim>\<open>RunManager\<close> over any store that may fail, with the retry loop. \<open>Run_Admission\<close>: its operations as
    a step relation, admission and cancellation. \<open>Run_Persistence\<close>: bounded retries; the locale \<open>run_store\<close>, the laws
    of \<^verbatim>\<open>RunStore\<close>, with visibility and durability proved from it, interpreted on the in-memory store and on the
    same store with arbitrary scheduled failures; recovery after a restart and shutdown.
  \<^item> \<open>Stream_Bridge\<close>: \<^verbatim>\<open>MemoryStreamBridge\<close> as a bounded window of the log of a run; reconnecting subscribers
    get exactly what they missed.
  \<^item> \<open>Event_Store\<close>: the log of a thread's events, the locale \<open>event_store\<close> (the contract of \<^verbatim>\<open>RunEventStore\<close> over
    that log), \<^verbatim>\<open>MemoryRunEventStore\<close> with its projections and binary searches, and the interpretation. \<open>Event_Jsonl\<close>:
    \<^verbatim>\<open>JsonlRunEventStore\<close> down to the text of its files, and its interpretation. \<open>Event_Properties\<close>: both stores keep the
    log and agree, and events survive a restart.

  \<^bold>\<open>Agent guards.\<close>
  \<^item> \<open>Agent_Messages\<close>: the messages of a conversation with their tool calls, copies of a message with other calls
    (\<^verbatim>\<open>tool_call_metadata.py\<close>) and the bounded dictionaries (\<^verbatim>\<open>_bounded_dict.py\<close>) of the middlewares.
  \<^item> \<open>Subagent_Limit\<close>: the cap on parallel subagent calls. \<open>Dangling_Calls\<close>: the repair of a transcript; the
    repaired transcript answers every call once, directly after it, and loses nothing else.
  \<^item> \<open>Loop_Detection\<close>, \<open>Loop_Properties\<close>: both layers of the detection of repeated calls; repetition is stopped at the
    limit, state is bounded, and the settings under which it is not stopped. \<open>Token_Budget\<close>: accounting of tokens per run and
    the hard stop.
  \<^item> \<open>Llm_Errors\<close>, \<open>Llm_Properties\<close>: classification of provider errors, retries and the circuit breaker: a call ends after
    its attempts, a failing provider is shielded, a recovered one is served, and the probe that is lost.
  \<^item> \<open>Tool_Result_Meta\<close>: the classification stamped on tool results. \<open>Tool_Progress\<close>, \<open>Progress_Properties\<close>: the phases of
    tools that make no progress; a tool is refused exactly when its results of the run call for it, and state is bounded.
  \<^item> \<open>Read_Before_Write\<close>: the gate in front of writing tools; a file that exists and can be inspected is only changed when the conversation
    read the version it has.

  \<^bold>\<open>Files of the agent.\<close>
  \<^item> \<open>Storage_Paths\<close>: the directories of users and threads (\<^verbatim>\<open>config/paths.py\<close>) and the resolution of paths on the host, a parameter with the
    hypothesis \<open>resolves\<close>. Directories of different threads never nest.
  \<^item> \<open>Text_Lines\<close>: line ends. \<open>Local_Sandbox\<close>: path mappings, the translation of paths in texts, and files over a model of the host
    (\<^verbatim>\<open>sandbox/local/local_sandbox.py\<close>). \<open>Sandbox_Provider\<close>: the mappings of a thread and the cache of sandboxes; the sandbox found is always that of the
    thread asked for.
  \<^item> \<open>Sandbox_Output\<close>: truncation and the masking of secrets; no secret comes back in an output. \<open>Sandbox_Tools\<close>: the checks of virtual paths and the tools that
    read, write and replace (\<^verbatim>\<open>sandbox/tools.py\<close>). \<open>Sandbox_Properties\<close>: a tool changes only files of its own thread or of a mount that may be written, and
    the settings under which the intent is missed.
  \<^item> \<open>Gated_Files\<close>: the gate of \<open>Read_Before_Write\<close> around these tools, reading through the sandbox: an existing text is changed only after the conversation
    read the version it has.

  \<^bold>\<open>The gateway.\<close>
  \<^item> \<open>Gateway_Requests\<close>: requests and answers, trusted callers, origins and the CSRF guard (\<^verbatim>\<open>app/gateway/csrf_middleware.py\<close>); a session cannot be opened
    from a foreign origin. \<open>Gateway_Accounts\<close>: users, passwords, session tokens, the limit on failed logins and the handlers of \<^verbatim>\<open>routers/auth.py\<close>.
  \<^item> \<open>Gateway_Threads\<close>: the authentication guard, permissions, thread records in memory, the handlers that create, patch and delete threads, and
    \<open>serve_gateway\<close>, the guards around the handlers. Requests run one at a time; PyJWT, bcrypt, Pydantic and \<^verbatim>\<open>ipaddress\<close> are parameters.
  \<^item> \<open>Gateway_Properties\<close>: whose threads a request can change, and where the intent is missed. \<open>Gateway_Sessions\<close>: runs of requests; the locale
    \<open>kept_by_handlers\<close> lifts what handlers keep to runs and is interpreted by the versions of tokens. A changed password ends the sessions before it, and few
    passwords can be tried.

  \<^bold>\<open>Conventions.\<close> Clocks, fresh identifiers and random values are arguments. Exceptions are \<open>Inl\<close>, results
  \<open>Inr\<close>. Python integers are \<open>int\<close>. Asynchronous methods are one step where they hold a lock or a transaction; where
  they do not, the interleaving is explicit (the worker's environment, the two halves of shutdown, the turns of a
  subscriber). There is no fuel: every loop of the model terminates by a measure, and a loop that waits for the
  outside is its single pass.

  \<^bold>\<open>Not modelled.\<close> SQL parsing, printing and execution, the language-model agents with their prompts and the middlewares that only call them, shell commands and remote sandboxes,
  channels, the other gateway routers with the OIDC login, configuration loading and the user interfaces: they are input and output around
  third-party libraries, or left to later extensions; the manifest lists them. Cancellation of a coroutine
  in the middle of a store call, log messages and metrics are not modelled either. Strings hold the characters
  up to U+00FF.
\<close>

end
